(* ===== verification/Ave_Prelude.thy ===== *)
theory Ave_Prelude
  imports Main "HOL-Library.Word"
begin

text \<open>
  Shared vocabulary of the development: the C integer types of the driver as machine words,
  the Linux error codes the driver returns, and the generic lemmas on words, lists and
  lookups that more than one component uses.

  \<^item> \<open>u8\<close>, \<open>u16\<close>, \<open>u32\<close>, \<open>u64\<close> are words of their width, so \<open>+\<close> wraps as in C;
  \<^item> a driver function that returns \<open>0\<close> or \<open>-Exxx\<close> returns a value of \<open>errno + 'a\<close>
    (\<open>Inl\<close> the error) or an \<open>errno option\<close> (\<open>None\<close> for 0);
  \<^item> the collection \<open>word_nat\<close> moves word arithmetic that does not wrap to \<open>nat\<close>.
\<close>

unbundle bit_operations_syntax

type_synonym u8 = "8 word"
type_synonym u16 = "16 word"
type_synonym u32 = "32 word"
type_synonym u64 = "64 word"

datatype errno =
  EINVAL | ENOENT | ENODEV | ENOMEM | EAGAIN | ETIMEDOUT | EPROTO | EOPNOTSUPP | EIO | ERANGE
| EBUSY | ENOSPC | EBADMSG | E2BIG | EFAULT | ENODATA | EEXIST
| EPERM | ENOTCONN | EPROBE_DEFER | ECANCELED

named_theorems word_nat \<open>word arithmetic that does not wrap, read as nat\<close>

lemma unat_add_nowrap [word_nat]:
  fixes a b :: "'a::len word"
  assumes "unat a + unat b < 2 ^ LENGTH('a)"
  shows "unat (a + b) = unat a + unat b"
  using assms by (simp add: unat_word_ariths)

lemma unat_mult_nowrap [word_nat]:
  fixes a b :: "'a::len word"
  assumes "unat a * unat b < 2 ^ LENGTH('a)"
  shows "unat (a * b) = unat a * unat b"
  using assms by (simp add: unat_word_ariths)

lemma unat_diff_le [word_nat]:
  fixes a b :: "'a::len word"
  assumes "b \<le> a"
  shows "unat (a - b) = unat a - unat b"
  using assms by (rule unat_sub)

lemma unat_of_nat_small [word_nat]:
  "n < 2 ^ LENGTH('a) \<Longrightarrow> unat (of_nat n :: 'a::len word) = n"
  by (simp add: unat_of_nat take_bit_nat_eq_self)

lemma unat_u32_bound: "unat (x :: u32) < 4294967296"
  using unsigned_less [of x, where ?'a = nat] by simp

lemma unat_u64_bound: "unat (x :: u64) < 18446744073709551616"
  using unsigned_less [of x, where ?'a = nat] by simp

lemma unat_ucast_widen [word_nat, simp]: "unat (ucast (x :: u32) :: u64) = unat x"
  using unat_u32_bound [of x] by (simp add: unsigned_ucast_eq take_bit_nat_eq_self)

lemma word_eq_0_unat: "(x :: 'a::len word) = 0 \<longleftrightarrow> unat x = 0"
  by (simp add: unat_eq_zero)

lemma upt_append_eq: "a \<le> b \<Longrightarrow> b \<le> c \<Longrightarrow> [a..<b] @ [b..<c] = [a..<c]"
  by (metis le_Suc_ex upt_add_eq_append)

end
