(* ===== verification/Ave_Mem.thy ===== *)
theory Ave_Mem
  imports Ave_Prelude
begin

text \<open>
  Byte memory as the C code sees it, shared by every component that parses or fills a buffer.

  \<^item> A buffer is a list of bytes. A checked access (\<open>rd8\<close>, \<open>rd_le32\<close>, ..) of a byte the
    buffer does not have is \<open>Fault\<close>, as is a \<open>size_t\<close> subtraction that would wrap
    (\<open>csub\<close>), so that memory safety of a parser is the theorem that it never returns
    \<open>Fault\<close>.
  \<^item> \<open>get_le32\<close>, \<open>put_le32\<close> and their 64-bit versions are the little-endian accessors of
    \<^verbatim>\<open>src/driver/ave_abi_boot.h\<close> (and the kernel's \<open>get_unaligned_le32\<close> family, which
    they restate).
  \<^item> \<open>poke\<close> overwrites bytes of a region in place; \<open>peek\<close> reads them back.
\<close>

section \<open>Results of C code that may fail\<close>

datatype 'a cres = Fault | Err errno | Ok 'a

fun cbind :: "'a cres \<Rightarrow> ('a \<Rightarrow> 'b cres) \<Rightarrow> 'b cres" where
  "cbind Fault f = Fault"
| "cbind (Err e) f = Err e"
| "cbind (Ok x) f = f x"

lemma cbind_cong [fundef_cong]:
  "m = m' \<Longrightarrow> (\<And>x. m' = Ok x \<Longrightarrow> f x = f' x) \<Longrightarrow> cbind m f = cbind m' f'"
  by (cases m') auto

lemma cbind_Fault: "cbind m f = Fault \<longleftrightarrow> m = Fault \<or> (\<exists>x. m = Ok x \<and> f x = Fault)"
  by (cases m) auto

lemma cbind_Ok: "cbind m f = Ok y \<longleftrightarrow> (\<exists>x. m = Ok x \<and> f x = Ok y)"
  by (cases m) auto

lemma cbind_assoc: "cbind (cbind m f) g = cbind m (\<lambda>x. cbind (f x) g)"
  by (cases m) auto

text \<open>\<open>safe P m\<close>: \<open>m\<close> does not fault, and a value it returns satisfies \<open>P\<close>.\<close>

definition safe :: "('a \<Rightarrow> bool) \<Rightarrow> 'a cres \<Rightarrow> bool" where
  "safe P m \<longleftrightarrow> (case m of Fault \<Rightarrow> False | Err _ \<Rightarrow> True | Ok x \<Rightarrow> P x)"

named_theorems safe_intro \<open>memory-safety rules\<close>

lemma safe_simps [simp]: "safe P (Ok x) = P x" "safe P (Err e)" "\<not> safe P Fault"
  by (simp_all add: safe_def)

lemma safe_bind [safe_intro]: "safe Q m \<Longrightarrow> (\<And>x. Q x \<Longrightarrow> safe P (f x)) \<Longrightarrow> safe P (cbind m f)"
  by (cases m) auto

lemma safe_weaken: "safe P m \<Longrightarrow> (\<And>x. P x \<Longrightarrow> Q x) \<Longrightarrow> safe Q m"
  by (cases m) auto

lemma safe_no_fault: "safe P m \<Longrightarrow> m \<noteq> Fault"
  by auto

lemma safe_Ok: "safe P m \<Longrightarrow> m = Ok x \<Longrightarrow> P x"
  by auto

text \<open>A loop of \<open>n\<close> calls of the same step, each on the result of the one before.\<close>

fun repeat_c :: "nat \<Rightarrow> ('a \<Rightarrow> 'a cres) \<Rightarrow> 'a \<Rightarrow> 'a cres" where
  "repeat_c 0 f x = Ok x"
| "repeat_c (Suc n) f x = cbind (f x) (repeat_c n f)"

lemma safe_repeat:
  "I x \<Longrightarrow> (\<And>y. I y \<Longrightarrow> safe I (f y)) \<Longrightarrow> safe I (repeat_c n f x)"
  by (induction n arbitrary: x) (auto intro: safe_bind)

section \<open>Checked accesses\<close>

definition csub :: "nat \<Rightarrow> nat \<Rightarrow> nat cres" where
  "csub a b = (if b \<le> a then Ok (a - b) else Fault)"

definition rd8 :: "u8 list \<Rightarrow> nat \<Rightarrow> u8 cres" where
  "rd8 b off = (if off < length b then Ok (b ! off) else Fault)"

definition rd_bytes :: "u8 list \<Rightarrow> nat \<Rightarrow> nat \<Rightarrow> u8 list cres" where
  "rd_bytes b off n = (if off + n \<le> length b then Ok (take n (drop off b)) else Fault)"

definition le32_of :: "u8 \<Rightarrow> u8 \<Rightarrow> u8 \<Rightarrow> u8 \<Rightarrow> u32" where
  "le32_of p0 p1 p2 p3 =
     ucast p0 OR push_bit 8 (ucast p1) OR push_bit 16 (ucast p2) OR push_bit 24 (ucast p3)"

definition get_le32 :: "u8 list \<Rightarrow> nat \<Rightarrow> u32" where
  "get_le32 b off = le32_of (b ! off) (b ! (off + 1)) (b ! (off + 2)) (b ! (off + 3))"

definition get_le64 :: "u8 list \<Rightarrow> nat \<Rightarrow> u64" where
  "get_le64 b off = ucast (get_le32 b off) OR push_bit 32 (ucast (get_le32 b (off + 4)))"

definition put_le32 :: "u32 \<Rightarrow> u8 list" where
  "put_le32 v = [ucast v, ucast (drop_bit 8 v), ucast (drop_bit 16 v), ucast (drop_bit 24 v)]"

definition put_le64 :: "u64 \<Rightarrow> u8 list" where
  "put_le64 v = put_le32 (ucast v) @ put_le32 (ucast (drop_bit 32 v))"

definition put_le16 :: "u16 \<Rightarrow> u8 list" where
  "put_le16 v = [ucast v, ucast (drop_bit 8 v)]"

definition rd_le32 :: "u8 list \<Rightarrow> nat \<Rightarrow> u32 cres" where
  "rd_le32 b off = (if off + 4 \<le> length b then Ok (get_le32 b off) else Fault)"

definition rd_le64 :: "u8 list \<Rightarrow> nat \<Rightarrow> u64 cres" where
  "rd_le64 b off = (if off + 8 \<le> length b then Ok (get_le64 b off) else Fault)"

lemma safe_csub [safe_intro]: "b \<le> a \<Longrightarrow> safe (\<lambda>d. d = a - b) (csub a b)"
  by (simp add: csub_def)

lemma csub_le [simp]: "b \<le> a \<Longrightarrow> csub a b = Ok (a - b)"
  by (simp add: csub_def)

lemma safe_rd8 [safe_intro]: "off < length b \<Longrightarrow> safe (\<lambda>_. True) (rd8 b off)"
  by (simp add: rd8_def)

lemma safe_rd_bytes [safe_intro]:
  "off + n \<le> length b \<Longrightarrow> safe (\<lambda>bs. length bs = n) (rd_bytes b off n)"
  by (simp add: rd_bytes_def)

lemma safe_rd_le32 [safe_intro]: "off + 4 \<le> length b \<Longrightarrow> safe (\<lambda>_. True) (rd_le32 b off)"
  by (simp add: rd_le32_def)

lemma safe_rd_le64 [safe_intro]: "off + 8 \<le> length b \<Longrightarrow> safe (\<lambda>_. True) (rd_le64 b off)"
  by (simp add: rd_le64_def)

section \<open>Little-endian round trips\<close>

lemma length_put_le [simp]:
  "length (put_le16 v16) = 2" "length (put_le32 v32) = 4" "length (put_le64 v64) = 8"
  by (simp_all add: put_le16_def put_le32_def put_le64_def)

lemma le32_of_bytes:
  "le32_of (ucast v) (ucast (drop_bit 8 v)) (ucast (drop_bit 16 v)) (ucast (drop_bit 24 v)) = (v :: u32)"
proof (rule bit_word_eqI)
  fix n assume "n < LENGTH(32)"
  then have "n < 8 \<or> 8 \<le> n \<and> n < 16 \<or> 16 \<le> n \<and> n < 24 \<or> 24 \<le> n \<and> n < 32" by auto
  then show "bit (le32_of (ucast v) (ucast (drop_bit 8 v)) (ucast (drop_bit 16 v))
      (ucast (drop_bit 24 v))) n = bit v n"
    by (auto simp: le32_of_def bit_simps)
qed

lemma le64_of_halves:
  "ucast (ucast v :: u32) OR push_bit 32 (ucast (ucast (drop_bit 32 v) :: u32)) = (v :: u64)"
proof (rule bit_word_eqI)
  fix n assume "n < LENGTH(64)"
  then have "n < 32 \<or> 32 \<le> n \<and> n < 64" by auto
  then show "bit (ucast (ucast v :: u32) OR push_bit 32 (ucast (ucast (drop_bit 32 v) :: u32)) :: u64) n
      = bit v n"
    by (auto simp: bit_simps)
qed

lemma get_le32_put: "get_le32 (xs @ put_le32 v @ ys) (length xs) = v"
  by (simp add: get_le32_def put_le32_def nth_append le32_of_bytes)

lemma get_le64_put: "get_le64 (xs @ put_le64 v @ ys) (length xs) = v"
proof -
  have "get_le32 (xs @ put_le64 v @ ys) (length xs) = ucast v"
    using get_le32_put [of xs "ucast v" "put_le32 (ucast (drop_bit 32 v)) @ ys"]
    by (simp add: put_le64_def)
  moreover have "get_le32 (xs @ put_le64 v @ ys) (length xs + 4) = ucast (drop_bit 32 v)"
    using get_le32_put [of "xs @ put_le32 (ucast v)" "ucast (drop_bit 32 v)" ys]
    by (simp add: put_le64_def)
  ultimately show ?thesis by (simp add: get_le64_def le64_of_halves)
qed

lemma get_le32_append: "length xs \<le> n \<Longrightarrow> get_le32 (xs @ r) n = get_le32 r (n - length xs)"
  by (simp add: get_le32_def nth_append Suc_diff_le)
lemma get_le64_append: "length xs \<le> n \<Longrightarrow> get_le64 (xs @ r) n = get_le64 r (n - length xs)"
  by (simp add: get_le64_def get_le32_append)
lemma get_le_put0: "get_le32 (put_le32 v @ r) 0 = v" "get_le64 (put_le64 w @ r) 0 = w"
  "get_le32 (put_le32 v) 0 = v" "get_le64 (put_le64 w) 0 = w"
  using get_le32_put [of "[]" v r] get_le64_put [of "[]" w r] get_le32_put [of "[]" v "[]"] get_le64_put [of "[]" w "[]"] by simp_all
lemmas get_le_eval = get_le32_append get_le64_append get_le_put0

section \<open>Regions written in place\<close>

definition poke :: "u8 list \<Rightarrow> nat \<Rightarrow> u8 list \<Rightarrow> u8 list" where
  "poke m off bs = take off m @ bs @ drop (off + length bs) m"

definition peek :: "u8 list \<Rightarrow> nat \<Rightarrow> nat \<Rightarrow> u8 list" where
  "peek m off n = take n (drop off m)"

lemma length_poke [simp]: "off + length bs \<le> length m \<Longrightarrow> length (poke m off bs) = length m"
  by (simp add: poke_def)

lemma poke_nth:
  "off + length bs \<le> length m \<Longrightarrow>
     poke m off bs ! i = (if off \<le> i \<and> i < off + length bs then bs ! (i - off) else m ! i)"
  by (auto simp: poke_def nth_append)

lemma peek_nth: "i < n \<Longrightarrow> off + n \<le> length m \<Longrightarrow> peek m off n ! i = m ! (off + i)"
  by (simp add: peek_def)

lemma length_peek [simp]: "off + n \<le> length m \<Longrightarrow> length (peek m off n) = n"
  by (simp add: peek_def)

lemma get_le32_poke_same:
  "off + length bs \<le> length m \<Longrightarrow> bs = put_le32 v \<Longrightarrow> get_le32 (poke m off bs) off = v"
  using get_le32_put [of "take off m" v "drop (off + 4) m"] by (simp add: poke_def)

lemma get_le64_poke_same:
  "off + 8 \<le> length m \<Longrightarrow> get_le64 (poke m off (put_le64 v)) off = v"
  using get_le64_put [of "take off m" v "drop (off + 8) m"] by (simp add: poke_def)

lemma get_le32_poke_other:
  "off + length bs \<le> length m \<Longrightarrow> i + 4 \<le> off \<or> off + length bs \<le> i \<Longrightarrow>
     get_le32 (poke m off bs) i = get_le32 m i"
  by (auto simp: get_le32_def poke_nth)

lemma get_le64_poke_other:
  "off + length bs \<le> length m \<Longrightarrow> i + 8 \<le> off \<or> off + length bs \<le> i \<Longrightarrow>
     get_le64 (poke m off bs) i = get_le64 m i"
  by (auto simp: get_le64_def get_le32_poke_other)

lemma poke_poke_same [simp]:
  "off + length bs \<le> length m \<Longrightarrow> length bs = length cs \<Longrightarrow>
     poke (poke m off bs) off cs = poke m off cs"
  by (rule nth_equalityI) (auto simp: poke_nth)


section \<open>Bytes found at an offset\<close>

definition at :: "u8 list \<Rightarrow> nat \<Rightarrow> u8 list \<Rightarrow> bool" where
  "at b off bs \<longleftrightarrow> off + length bs \<le> length b \<and> peek b off (length bs) = bs"

lemma at_append: "at b off (xs @ ys) \<longleftrightarrow> at b off xs \<and> at b (off + length xs) ys"
proof -
  have "peek b off (length xs + length ys) = peek b off (length xs) @ peek b (off + length xs) (length ys)"
    by (simp add: peek_def take_add add.commute)
  then show ?thesis by (auto simp: at_def peek_def append_eq_append_conv)
qed

lemma at_Nil [simp]: "at b off [] \<longleftrightarrow> off \<le> length b"
  by (simp add: at_def peek_def)

lemma at_refl: "at (xs @ bs @ ys) (length xs) bs"
  by (simp add: at_def peek_def)

lemma at_nth: "at b off bs \<Longrightarrow> i < length bs \<Longrightarrow> b ! (off + i) = bs ! i"
  unfolding at_def by (metis peek_nth)

lemma at_bound: "at b off bs \<Longrightarrow> off + length bs \<le> length b"
  by (simp add: at_def)

lemma at_get_le32: "at b off bs \<Longrightarrow> i + 4 \<le> length bs \<Longrightarrow> get_le32 b (off + i) = get_le32 bs i"
  using at_nth [of b off bs i] at_nth [of b off bs "i + 1"] at_nth [of b off bs "i + 2"]
    at_nth [of b off bs "i + 3"]
  by (simp add: get_le32_def add.assoc)

lemma at_get_le64: "at b off bs \<Longrightarrow> i + 8 \<le> length bs \<Longrightarrow> get_le64 b (off + i) = get_le64 bs i"
  using at_get_le32 [of b off bs i] at_get_le32 [of b off bs "i + 4"]
  by (simp add: get_le64_def add.assoc)

lemma at_rd_le32: "at b off bs \<Longrightarrow> i + 4 \<le> length bs \<Longrightarrow> rd_le32 b (off + i) = Ok (get_le32 bs i)"
  using at_bound [of b off bs] by (simp add: rd_le32_def at_get_le32)

lemma at_rd_le64: "at b off bs \<Longrightarrow> i + 8 \<le> length bs \<Longrightarrow> rd_le64 b (off + i) = Ok (get_le64 bs i)"
  using at_bound [of b off bs] by (simp add: rd_le64_def at_get_le64)

lemma at_rd_bytes: "at b off bs \<Longrightarrow> n \<le> length bs \<Longrightarrow> rd_bytes b off n = Ok (take n bs)"
  unfolding at_def peek_def rd_bytes_def by (metis (no_types, lifting) add_le_cancel_left le_trans min.absorb1 take_take)

lemma at_put_le32: "at b off (put_le32 v) \<Longrightarrow> rd_le32 b off = Ok v"
  using at_rd_le32 [of b off "put_le32 v" 0] get_le32_put [of "[]" v "[]"] by simp

section \<open>C strings\<close>

text \<open>C strings: a literal's bytes, and the bytes of a buffer before its NUL.\<close>

definition cstr :: "string \<Rightarrow> u8 list" where
  "cstr s = map of_char s"

definition c_str :: "u8 list \<Rightarrow> u8 list" where
  "c_str b = takeWhile (\<lambda>c. c \<noteq> 0) b"

lemma of_char_u8_inj: "of_char a = (of_char b :: u8) \<longleftrightarrow> a = b"
proof -
  have "unat (of_char c :: u8) = (of_char c :: nat)" for c
  proof -
    have "(of_char c :: nat) < 256" by simp 
    then show ?thesis using unat_of_nat_small [of "of_char c", where 'a = 8] by (simp add: of_nat_of_char)
  qed
  then show ?thesis by (metis of_char_eq_iff)
qed
lemma cstr_inject: "cstr a = cstr b \<longleftrightarrow> a = b"
  by (simp add: cstr_def inj_map_eq_map inj_def of_char_u8_inj)
end
