(* ===== verification/Ave_Gop.thy ===== *)
theory Ave_Gop
  imports Ave_Prelude
begin

text \<open>
  \<^verbatim>\<open>src/driver/ave_gop.h\<close>: the B-frame mini-GOP planner of the V4L2 stream.

  The planner's state, its two steps (\<open>ave_gop_decide\<close>, \<open>ave_gop_commit\<close>) and the two
  counters the V4L2 layer reads are translated function by function; a batch is the list of
  its frames (\<open>b->n\<close> is the length). The second half feeds a stream of sources through
  the planner, as \<open>ave_b_next\<close> and \<open>ave_run_work_b\<close> of \<^verbatim>\<open>src/driver/ave_v4l2.c\<close> do,
  and proves what the firmware needs of the coded sequence.
\<close>

section \<open>The planner\<close>

definition AVE_GOP_B_MAX :: nat where "AVE_GOP_B_MAX = 2"
definition AVE_GOP_BATCH_MAX :: nat where "AVE_GOP_BATCH_MAX = AVE_GOP_B_MAX + 1"

definition AVE_GOP_P :: u32 where "AVE_GOP_P = 1"
definition AVE_GOP_B :: u32 where "AVE_GOP_B = 2"
definition AVE_GOP_IDR :: u32 where "AVE_GOP_IDR = 3"

datatype ave_gop_act = GOP_NONE | GOP_HOLD | GOP_ANCHOR | GOP_KEY | GOP_CLOSE

record ave_gop =
  g_nb :: u32        \<comment> \<open>B frames per mini-GOP\<close>
  g_gop :: u32       \<comment> \<open>IDR interval in display frames; 0 = first only\<close>
  g_n_held :: u32    \<comment> \<open>sources held as B, oldest first\<close>
  g_dist :: u32      \<comment> \<open>display distance of the next source from the IDR\<close>
  g_fn_anchor :: u32 \<comment> \<open>frameNumber of the last anchor or IDR\<close>
  g_started :: bool

record ave_gop_frame =
  f_src :: u32
  f_type :: u32
  f_fn :: u32

type_synonym ave_gop_batch = "ave_gop_frame list"

definition ave_gop_init :: "u32 \<Rightarrow> u32 \<Rightarrow> ave_gop" where
  "ave_gop_init nb gop =
     \<lparr>g_nb = nb, g_gop = gop, g_n_held = 0, g_dist = 0, g_fn_anchor = 0, g_started = False\<rparr>"

definition ave_gop_decide :: "ave_gop \<Rightarrow> bool \<Rightarrow> bool \<Rightarrow> bool \<Rightarrow> ave_gop_act" where
  "ave_gop_decide g has_new force is_last =
     (if \<not> has_new then (if is_last \<and> g_n_held g \<noteq> 0 then GOP_CLOSE else GOP_NONE)
      else if \<not> g_started g \<or> force \<or> (g_gop g \<noteq> 0 \<and> g_gop g \<le> g_dist g) then GOP_KEY
      else if is_last \<or> g_nb g \<le> g_n_held g \<or> (g_gop g \<noteq> 0 \<and> g_gop g \<le> g_dist g + 1) then GOP_ANCHOR
      else GOP_HOLD)"

definition ave_gop_need :: "ave_gop \<Rightarrow> ave_gop_act \<Rightarrow> u32" where
  "ave_gop_need g a =
     (case a of GOP_ANCHOR \<Rightarrow> g_n_held g + 1
      | GOP_KEY \<Rightarrow> g_n_held g + 1
      | GOP_CLOSE \<Rightarrow> g_n_held g
      | _ \<Rightarrow> 0)"

definition ave_gop_srcs :: "ave_gop \<Rightarrow> ave_gop_act \<Rightarrow> u32" where
  "ave_gop_srcs g a = (if a = GOP_HOLD then 0 else ave_gop_need g a)"

definition ave_gop_minigop :: "ave_gop \<Rightarrow> bool \<Rightarrow> ave_gop \<times> ave_gop_batch" where
  "ave_gop_minigop g with_anchor =
     (let k = g_n_held g;
          nbs = (if with_anchor then k else k - 1);
          bs = map (\<lambda>i. \<lparr>f_src = of_nat i, f_type = AVE_GOP_B,
                          f_fn = g_fn_anchor g + 1 + of_nat i\<rparr>) [0..<unat nbs];
          fn = g_fn_anchor g + (g_nb g + 1)
      in (g\<lparr>g_fn_anchor := fn, g_n_held := 0\<rparr>,
          bs @ [\<lparr>f_src = nbs, f_type = AVE_GOP_P, f_fn = fn\<rparr>]))"

definition ave_gop_commit :: "ave_gop \<Rightarrow> ave_gop_act \<Rightarrow> ave_gop \<times> ave_gop_batch list" where
  "ave_gop_commit g a =
     (let k = g_n_held g in
      case a of
        GOP_HOLD \<Rightarrow> (g\<lparr>g_n_held := g_n_held g + 1, g_dist := g_dist g + 1\<rparr>, [])
      | GOP_ANCHOR \<Rightarrow>
          (let (g', b) = ave_gop_minigop g True
           in (g'\<lparr>g_dist := g_dist g' + 1\<rparr>, [b]))
      | GOP_CLOSE \<Rightarrow>
          (if k = 0 then (g, [])
           else (let (g', b) = ave_gop_minigop g False in (g', [b])))
      | GOP_KEY \<Rightarrow>
          (let (g', bs) = (if k \<noteq> 0
                           then (let (g', b) = ave_gop_minigop g False in (g', [b]))
                           else (g, []));
               fn = (if g_started g' then g_fn_anchor g' + 1 else 0)
           in (g'\<lparr>g_fn_anchor := fn, g_started := True, g_n_held := 0, g_dist := 1\<rparr>,
               bs @ [[\<lparr>f_src = k, f_type = AVE_GOP_IDR, f_fn = fn\<rparr>]]))
      | GOP_NONE \<Rightarrow> (g, []))"

section \<open>A stream of sources\<close>

text \<open>
  The V4L2 layer feeds the planner one OUTPUT buffer at a time: it asks \<open>ave_gop_decide\<close>
  (with the source's force-key request and whether it is the last of a drain), commits the
  answer and codes the batches. \<open>gop_plan\<close> is that job, \<open>gop_flush\<close> the job of a drain
  whose last source is already held.
\<close>

definition gop_plan :: "ave_gop \<Rightarrow> bool \<times> bool \<Rightarrow> ave_gop \<times> ave_gop_frame list" where
  "gop_plan g e =
     (let (force, is_last) = e;
          (g', bs) = ave_gop_commit g (ave_gop_decide g True force is_last)
      in (g', concat bs))"

definition gop_flush :: "ave_gop \<Rightarrow> ave_gop \<times> ave_gop_frame list" where
  "gop_flush g =
     (let (g', bs) = ave_gop_commit g (ave_gop_decide g False False True) in (g', concat bs))"

text \<open>
  The OUTPUT queue numbers its sources in display order. \<open>display_of\<close> turns the index a
  batch gives (into the held sources and the new one) into that number: the held sources
  are the \<open>h\<close> before the new one. \<open>plan_stream\<close> runs the sources of a stream and lists
  the coded frames with their display numbers.
\<close>

definition display_of :: "('f \<Rightarrow> nat) \<Rightarrow> nat \<Rightarrow> nat \<Rightarrow> 'f \<Rightarrow> nat \<times> 'f" where
  "display_of src next h f = (next - h + src f, f)"

fun plan_stream ::
  "('g \<Rightarrow> 'e \<Rightarrow> 'g \<times> 'f list) \<Rightarrow> ('g \<Rightarrow> nat) \<Rightarrow> ('f \<Rightarrow> nat) \<Rightarrow> 'g \<Rightarrow> nat \<Rightarrow> 'e list
    \<Rightarrow> 'g \<times> (nat \<times> 'f) list" where
  "plan_stream plan held src g next [] = (g, [])"
| "plan_stream plan held src g next (e # es) =
     (let (g', fs) = plan g e;
          (g'', out) = plan_stream plan held src g' (Suc next) es
      in (g'', map (display_of src next (held g)) fs @ out))"

definition plan_drained ::
  "('g \<Rightarrow> 'e \<Rightarrow> 'g \<times> 'f list) \<Rightarrow> ('g \<Rightarrow> 'g \<times> 'f list) \<Rightarrow> ('g \<Rightarrow> nat) \<Rightarrow> ('f \<Rightarrow> nat)
    \<Rightarrow> 'g \<Rightarrow> 'e list \<Rightarrow> 'g \<times> (nat \<times> 'f) list" where
  "plan_drained plan flush held src g es =
     (let (g', out) = plan_stream plan held src g 0 es;
          (g'', fs) = flush g'
      in (g'', out @ map (display_of src (length es) (held g')) fs))"

text \<open>
  What the V4L2 layer relies on: a job either holds the new source or codes every source
  it has, the held ones first, in queue order; a flush codes exactly the held ones.
\<close>

locale batch_planner =
  fixes inv :: "'g \<Rightarrow> bool"
    and plan :: "'g \<Rightarrow> 'e \<Rightarrow> 'g \<times> 'f list"
    and flush :: "'g \<Rightarrow> 'g \<times> 'f list"
    and held :: "'g \<Rightarrow> nat"
    and src :: "'f \<Rightarrow> nat"
  assumes plan_inv: "inv g \<Longrightarrow> inv (fst (plan g e))"
    and plan_held: "inv g \<Longrightarrow> held (fst (plan g e)) = 0 \<or> held (fst (plan g e)) = Suc (held g)"
    and plan_srcs: "inv g \<Longrightarrow>
      map src (snd (plan g e)) = [0..<Suc (held g) - held (fst (plan g e))]"
    and flush_held: "inv g \<Longrightarrow> held (fst (flush g)) = 0"
    and flush_srcs: "inv g \<Longrightarrow> map src (snd (flush g)) = [0..<held g]"
begin

lemma stream_inv: "inv g \<Longrightarrow> inv (fst (plan_stream plan held src g next es))"
  by (induction es arbitrary: g "next")
    (auto simp: case_prod_beta Let_def plan_inv)

lemma display_srcs:
  "map src fs = [0..<k] \<Longrightarrow> map fst (map (display_of src next h) fs) = [next - h..<next - h + k]"
proof -
  assume "map src fs = [0..<k]"
  then have "map (\<lambda>i. next - h + i) (map src fs) = map (\<lambda>i. next - h + i) [0..<k]"
    by simp
  then show ?thesis
    by (simp add: display_of_def comp_def map_add_upt add.commute)
qed

lemma stream_display:
  assumes "inv g" "held g \<le> next"
  shows "map fst (snd (plan_stream plan held src g next es)) =
           [next - held g..<next + length es - held (fst (plan_stream plan held src g next es))]
       \<and> held (fst (plan_stream plan held src g next es)) \<le> held g + length es"
  using assms
proof (induction es arbitrary: g "next")
  case Nil
  then show ?case by simp
next
  case (Cons e es)
  let ?g' = "fst (plan g e)"
  let ?s = "plan_stream plan held src ?g' (Suc next) es"
  from Cons.prems have inv': "inv ?g'" and h: "held ?g' = 0 \<or> held ?g' = Suc (held g)"
    and srcs: "map src (snd (plan g e)) = [0..<Suc (held g) - held ?g']"
    by (auto simp: plan_inv plan_held plan_srcs)
  from h Cons.prems have le: "held ?g' \<le> Suc next" by auto
  from Cons.IH [OF inv' le] have ih:
    "map fst (snd ?s) = [Suc next - held ?g'..<Suc next + length es - held (fst ?s)]"
    and hle: "held (fst ?s) \<le> held ?g' + length es" by auto
  have d: "map fst (map (display_of src next (held g)) (snd (plan g e)))
      = [next - held g..<next - held g + (Suc (held g) - held ?g')]"
    using srcs by (rule display_srcs)
  have mid: "next - held g + (Suc (held g) - held ?g') = Suc next - held ?g'"
    using h Cons.prems by auto
  have "[next - held g..<Suc next - held ?g'] @ [Suc next - held ?g'..<Suc next + length es - held (fst ?s)]
      = [next - held g..<Suc next + length es - held (fst ?s)]"
  proof (rule upt_append_eq)
    show "next - held g \<le> Suc next - held ?g'" using h Cons.prems by auto
    show "Suc next - held ?g' \<le> Suc next + length es - held (fst ?s)" using hle by simp
  qed
  with d mid ih have "map fst (snd (plan_stream plan held src g next (e # es)))
      = [next - held g..<Suc next + length es - held (fst ?s)]"
    by (simp add: case_prod_beta Let_def)
  moreover have "held (fst ?s) \<le> held g + length (e # es)"
    using hle h by auto
  ultimately show ?case by (simp add: case_prod_beta Let_def)
qed

lemma drained_display:
  assumes "inv g" "held g = 0"
  shows "map fst (snd (plan_drained plan flush held src g es)) = [0..<length es]"
    and "held (fst (plan_drained plan flush held src g es)) = 0"
proof -
  let ?s = "plan_stream plan held src g 0 es"
  have i: "inv (fst ?s)" using assms by (simp add: stream_inv)
  have st: "map fst (snd ?s) = [0..<length es - held (fst ?s)]" "held (fst ?s) \<le> length es"
    using stream_display [of g 0 es] assms by auto
  have fl: "map fst (map (display_of src (length es) (held (fst ?s))) (snd (flush (fst ?s))))
      = [length es - held (fst ?s)..<length es]"
    using display_srcs [OF flush_srcs [OF i], of "length es" "held (fst ?s)"] st(2) by simp
  show "map fst (snd (plan_drained plan flush held src g es)) = [0..<length es]"
    using st fl upt_append_eq [of 0 "length es - held (fst ?s)" "length es"]
    by (simp add: plan_drained_def case_prod_beta Let_def del: map_map)
  show "held (fst (plan_drained plan flush held src g es)) = 0"
    using flush_held [OF i] by (simp add: plan_drained_def case_prod_beta Let_def)
qed

end

section \<open>The planner keeps its contract\<close>

definition gop_wf :: "ave_gop \<Rightarrow> bool" where
  "gop_wf g \<longleftrightarrow> unat (g_nb g) \<le> AVE_GOP_B_MAX \<and> g_n_held g \<le> g_nb g
     \<and> (\<not> g_started g \<longrightarrow> g_n_held g = 0)"

lemma gop_wf_init: "unat nb \<le> AVE_GOP_B_MAX \<Longrightarrow> gop_wf (ave_gop_init nb gop)"
  by (simp add: gop_wf_def ave_gop_init_def)

lemma gop_held_bounds:
  assumes "gop_wf g"
  shows "unat (g_n_held g) \<le> AVE_GOP_B_MAX" "unat (g_n_held g + 1) = Suc (unat (g_n_held g))"
proof -
  show le: "unat (g_n_held g) \<le> AVE_GOP_B_MAX"
    using assms by (simp add: gop_wf_def word_le_nat_alt)
  show "unat (g_n_held g + 1) = Suc (unat (g_n_held g))"
    using le by (simp add: word_nat AVE_GOP_B_MAX_def)
qed

lemma unat_pred: "(k :: u32) \<noteq> 0 \<Longrightarrow> unat (k - 1) = unat k - 1"
  by (simp add: unat_minus_one)

lemma map_unat_of_nat_upt:
  "n < 2 ^ 32 \<Longrightarrow> map (\<lambda>i. unat (of_nat i :: u32)) [0..<n] = [0..<n]"
  by (rule map_idI) (auto simp: word_nat)

definition minigop_nbs :: "ave_gop \<Rightarrow> bool \<Rightarrow> nat" where
  "minigop_nbs g with_anchor = unat (if with_anchor then g_n_held g else g_n_held g - 1)"

lemma minigop_srcs:
  "map (\<lambda>f. unat (f_src f)) (snd (ave_gop_minigop g with_anchor)) = [0..<Suc (minigop_nbs g with_anchor)]"
  using unat_u32_bound [of "if with_anchor then g_n_held g else g_n_held g - 1"]
  by (simp add: ave_gop_minigop_def minigop_nbs_def Let_def comp_def map_unat_of_nat_upt)

lemma minigop_state:
  "fst (ave_gop_minigop g with_anchor) = g\<lparr>g_fn_anchor := g_fn_anchor g + (g_nb g + 1), g_n_held := 0\<rparr>"
  by (simp add: ave_gop_minigop_def Let_def)

lemma minigop_srcs_anchor:
  "map (\<lambda>f. unat (f_src f)) (snd (ave_gop_minigop g True)) = [0..<Suc (unat (g_n_held g))]"
  using minigop_srcs [of g True] by (simp add: minigop_nbs_def del: upt_Suc)

lemma minigop_srcs_close:
  "g_n_held g \<noteq> 0 \<Longrightarrow>
    map (\<lambda>f. unat (f_src f)) (snd (ave_gop_minigop g False)) = [0..<unat (g_n_held g)]"
  using minigop_srcs [of g False]
  by (simp add: minigop_nbs_def unat_pred word_eq_0_unat del: upt_Suc)

text \<open>One equation per action of \<open>ave_gop_commit\<close>, with the mini-GOP's state written out.\<close>

definition key_fn :: "ave_gop \<Rightarrow> u32" where
  "key_fn g = (if g_started g
     then (if g_n_held g \<noteq> 0 then g_fn_anchor g + (g_nb g + 1) else g_fn_anchor g) + 1 else 0)"

definition closing :: "ave_gop \<Rightarrow> ave_gop_batch list" where
  "closing g = (if g_n_held g \<noteq> 0 then [snd (ave_gop_minigop g False)] else [])"

lemma commit_hold:
  "ave_gop_commit g GOP_HOLD = (g\<lparr>g_n_held := g_n_held g + 1, g_dist := g_dist g + 1\<rparr>, [])"
  by (simp add: ave_gop_commit_def Let_def)

lemma commit_anchor:
  "ave_gop_commit g GOP_ANCHOR =
     (g\<lparr>g_fn_anchor := g_fn_anchor g + (g_nb g + 1), g_n_held := 0, g_dist := g_dist g + 1\<rparr>,
      [snd (ave_gop_minigop g True)])"
  by (simp add: ave_gop_commit_def Let_def case_prod_beta minigop_state)

lemma commit_close:
  "ave_gop_commit g GOP_CLOSE =
     (if g_n_held g = 0 then g
      else g\<lparr>g_fn_anchor := g_fn_anchor g + (g_nb g + 1), g_n_held := 0\<rparr>, closing g)"
  by (simp add: ave_gop_commit_def Let_def case_prod_beta minigop_state closing_def)

lemma commit_key:
  "ave_gop_commit g GOP_KEY =
     (g\<lparr>g_fn_anchor := key_fn g, g_started := True, g_n_held := 0, g_dist := 1\<rparr>,
      closing g @ [[\<lparr>f_src = g_n_held g, f_type = AVE_GOP_IDR, f_fn = key_fn g\<rparr>]])"
  by (simp add: ave_gop_commit_def Let_def case_prod_beta minigop_state closing_def key_fn_def)

lemma commit_none: "ave_gop_commit g GOP_NONE = (g, [])"
  by (simp add: ave_gop_commit_def Let_def)

lemmas commit_simps = commit_hold commit_anchor commit_close commit_key commit_none

lemma closing_srcs:
  "map (\<lambda>f. unat (f_src f)) (concat (closing g)) = [0..<unat (g_n_held g)]"
  by (simp add: closing_def minigop_srcs_close)

text \<open>What each decision says of the planner's state.\<close>

lemma decide_new:
  "ave_gop_decide g True force is_last \<in> {GOP_KEY, GOP_ANCHOR, GOP_HOLD}"
  by (simp add: ave_gop_decide_def)

lemma decide_hold:
  assumes "ave_gop_decide g True force is_last = GOP_HOLD"
  shows "g_started g" "\<not> force" "\<not> is_last" "g_n_held g < g_nb g"
    "g_gop g = 0 \<or> g_dist g < g_gop g" "g_gop g = 0 \<or> g_dist g + 1 < g_gop g"
  using assms by (auto simp: ave_gop_decide_def split: if_splits)

lemma decide_anchor:
  assumes "ave_gop_decide g True force is_last = GOP_ANCHOR"
  shows "g_started g" "\<not> force" "g_gop g = 0 \<or> g_dist g < g_gop g"
  using assms by (auto simp: ave_gop_decide_def split: if_splits)

lemma gop_plan_cases:
  obtains
    (key) "ave_gop_decide g True (fst e) (snd e) = GOP_KEY"
      "gop_plan g e =
        (g\<lparr>g_fn_anchor := key_fn g, g_started := True, g_n_held := 0, g_dist := 1\<rparr>,
         concat (closing g) @ [\<lparr>f_src = g_n_held g, f_type = AVE_GOP_IDR, f_fn = key_fn g\<rparr>])"
  | (anchor) "ave_gop_decide g True (fst e) (snd e) = GOP_ANCHOR"
      "gop_plan g e =
        (g\<lparr>g_fn_anchor := g_fn_anchor g + (g_nb g + 1), g_n_held := 0, g_dist := g_dist g + 1\<rparr>,
         snd (ave_gop_minigop g True))"
  | (hold) "ave_gop_decide g True (fst e) (snd e) = GOP_HOLD"
      "gop_plan g e = (g\<lparr>g_n_held := g_n_held g + 1, g_dist := g_dist g + 1\<rparr>, [])"
  using decide_new [of g "fst e" "snd e"]
  by (auto simp: gop_plan_def case_prod_beta Let_def commit_simps)

lemma gop_plan_wf: "gop_wf g \<Longrightarrow> gop_wf (fst (gop_plan g e))"
  by (rule gop_plan_cases [of g e])
    (auto simp: gop_wf_def word_less_nat_alt word_le_nat_alt gop_held_bounds dest: decide_hold decide_anchor)

lemma gop_plan_held:
  "gop_wf g \<Longrightarrow> unat (g_n_held (fst (gop_plan g e))) = 0
     \<or> unat (g_n_held (fst (gop_plan g e))) = Suc (unat (g_n_held g))"
  by (rule gop_plan_cases [of g e]) (simp_all add: gop_held_bounds)

lemma gop_plan_srcs:
  "gop_wf g \<Longrightarrow> map (\<lambda>f. unat (f_src f)) (snd (gop_plan g e))
    = [0..<Suc (unat (g_n_held g)) - unat (g_n_held (fst (gop_plan g e)))]"
  by (rule gop_plan_cases [of g e])
    (simp_all add: gop_held_bounds minigop_srcs_anchor closing_srcs del: map_concat)

lemma gop_flush_eq:
  "gop_flush g = (if g_n_held g = 0 then g
      else g\<lparr>g_fn_anchor := g_fn_anchor g + (g_nb g + 1), g_n_held := 0\<rparr>, concat (closing g))"
  by (simp add: gop_flush_def ave_gop_decide_def commit_simps closing_def)

lemma gop_flush_held: "gop_wf g \<Longrightarrow> unat (g_n_held (fst (gop_flush g))) = 0"
  by (simp add: gop_flush_eq)

lemma gop_flush_srcs:
  "gop_wf g \<Longrightarrow> map (\<lambda>f. unat (f_src f)) (snd (gop_flush g)) = [0..<unat (g_n_held g)]"
  using closing_srcs [of g] by (simp add: gop_flush_eq)

interpretation gop: batch_planner gop_wf gop_plan gop_flush
  "\<lambda>g. unat (g_n_held g)" "\<lambda>f. unat (f_src f)"
  by unfold_locales
    (simp_all add: gop_plan_wf gop_plan_held gop_plan_srcs gop_flush_held gop_flush_srcs)

section \<open>What the firmware and the bitstream need\<close>

text \<open>
  \<open>gop_mon\<close> accepts a sequence of coded frames, in display order, that keeps the rules in
  the header of \<^verbatim>\<open>ave_gop.h\<close>, with \<open>m = nb + 1\<close>: the first frame is an IDR; numbers
  rise; a P is at a multiple of \<open>m\<close> from its IDR; a B is not, and the anchor below it is
  the one coded before; a B is never followed by an IDR; and no frame is \<open>gop\<close> or more
  display frames from its IDR. The state holds the numbers of the last IDR, the last anchor
  and the last frame, and how many frames were coded since the IDR.
\<close>

datatype gop_mon = MonStart | MonRun (mon_idr: nat) (mon_anchor: nat) (mon_prev: nat) (mon_since: nat)

definition mon_step :: "nat \<Rightarrow> nat \<Rightarrow> gop_mon \<Rightarrow> ave_gop_frame \<Rightarrow> gop_mon option" where
  "mon_step m gop st f =
     (let fn = unat (f_fn f) in
      case st of
        MonStart \<Rightarrow> if f_type f = AVE_GOP_IDR then Some (MonRun fn fn fn 1) else None
      | MonRun idr anchor prev since \<Rightarrow>
          if fn \<le> prev then None
          else if f_type f = AVE_GOP_IDR then
            (if prev = anchor then Some (MonRun fn fn fn 1) else None)
          else if gop \<noteq> 0 \<and> gop \<le> since then None
          else if f_type f = AVE_GOP_P then
            (if (fn - idr) mod m = 0 then Some (MonRun idr fn fn (since + 1)) else None)
          else if f_type f = AVE_GOP_B then
            (if (fn - idr) mod m \<noteq> 0 \<and> fn - (fn - idr) mod m = anchor
             then Some (MonRun idr anchor fn (since + 1)) else None)
          else None)"

fun mon_run :: "nat \<Rightarrow> nat \<Rightarrow> gop_mon \<Rightarrow> ave_gop_frame list \<Rightarrow> gop_mon option" where
  "mon_run m gop st [] = Some st"
| "mon_run m gop st (f # fs) =
     (case mon_step m gop st f of None \<Rightarrow> None | Some st' \<Rightarrow> mon_run m gop st' fs)"

lemma mon_run_append:
  "mon_run m gop st (xs @ ys) =
     (case mon_run m gop st xs of None \<Rightarrow> None | Some st' \<Rightarrow> mon_run m gop st' ys)"
  by (induction xs arbitrary: st) (auto split: option.splits)

text \<open>How the planner's state follows the monitor's, and room left in the 32-bit numbers.\<close>

definition gop_sim :: "ave_gop \<Rightarrow> gop_mon \<Rightarrow> bool" where
  "gop_sim g st \<longleftrightarrow>
     (case st of
        MonStart \<Rightarrow> \<not> g_started g
      | MonRun idr anchor prev since \<Rightarrow>
          g_started g \<and> anchor = unat (g_fn_anchor g) \<and> prev = anchor \<and> idr \<le> anchor
          \<and> (anchor - idr) mod (unat (g_nb g) + 1) = 0
          \<and> since + unat (g_n_held g) = unat (g_dist g)
          \<and> (g_gop g \<noteq> 0 \<and> g_n_held g \<noteq> 0 \<longrightarrow> g_dist g < g_gop g))"

definition gop_room :: "ave_gop \<Rightarrow> nat \<Rightarrow> bool" where
  "gop_room g n \<longleftrightarrow>
     unat (g_fn_anchor g) + (if g_n_held g \<noteq> 0 then unat (g_nb g) + 1 else 0)
       + n * (unat (g_nb g) + 1) < 2 ^ 32
     \<and> unat (g_dist g) + n < 2 ^ 32"

lemma frame_types [simp]:
  "AVE_GOP_P \<noteq> AVE_GOP_IDR" "AVE_GOP_B \<noteq> AVE_GOP_IDR" "AVE_GOP_B \<noteq> AVE_GOP_P"
  "AVE_GOP_IDR \<noteq> AVE_GOP_P" "AVE_GOP_IDR \<noteq> AVE_GOP_B" "AVE_GOP_P \<noteq> AVE_GOP_B"
  by (simp_all add: AVE_GOP_P_def AVE_GOP_B_def AVE_GOP_IDR_def)

lemma unat_b_fn:
  "unat (a :: u32) + 1 + i < 2 ^ 32 \<Longrightarrow> unat (a + 1 + of_nat i) = unat a + 1 + i"
  by (simp add: word_nat)

lemma mod_offset:
  fixes a idr :: nat
  assumes "(a - idr) mod m = 0" "idr \<le> a" "i < m"
  shows "(a + i - idr) mod m = i"
proof -
  have "a + i - idr = (a - idr) + i" using assms by simp
  then have "(a + i - idr) mod m = ((a - idr) mod m + i) mod m"
    by (metis mod_add_left_eq)
  then show ?thesis using assms by simp
qed

lemma mon_run_bs:
  fixes a :: u32
  assumes "(unat a - idr) mod m = 0" "idr \<le> unat a" "k < m"
    "gop = 0 \<or> since + k \<le> gop" "unat a + m < 2 ^ 32"
  shows "mon_run m gop (MonRun idr (unat a) (unat a) since)
           (map (\<lambda>i. \<lparr>f_src = of_nat i, f_type = AVE_GOP_B, f_fn = a + 1 + of_nat i\<rparr>) [0..<k])
         = Some (MonRun idr (unat a) (unat a + k) (since + k))"
  using assms(3,4)
proof (induction k)
  case 0
  then show ?case by simp
next
  case (Suc k)
  have fn: "unat (a + 1 + of_nat k) = unat a + (1 + k)"
    using Suc.prems assms(5) by (simp add: unat_b_fn)
  have md: "(unat a + (1 + k) - idr) mod m = 1 + k"
    using Suc.prems assms(1,2) by (intro mod_offset) auto
  show ?case
    using Suc fn md by (auto simp: mon_run_append mon_step_def Let_def)
qed

lemma minigop_mon:
  assumes "gop_sim g (MonRun idr anchor prev since)"
    and "minigop_nbs g w \<le> unat (g_nb g)"
    and "g_gop g = 0 \<or> since + minigop_nbs g w < unat (g_gop g)"
    and "unat (g_fn_anchor g) + unat (g_nb g) + 1 < 2 ^ 32"
  shows "mon_run (unat (g_nb g) + 1) (unat (g_gop g)) (MonRun idr anchor prev since)
           (snd (ave_gop_minigop g w))
         = Some (MonRun idr (anchor + unat (g_nb g) + 1) (anchor + unat (g_nb g) + 1)
                   (since + minigop_nbs g w + 1))
       \<and> unat (g_fn_anchor g + (g_nb g + 1)) = anchor + unat (g_nb g) + 1
       \<and> (anchor + unat (g_nb g) + 1 - idr) mod (unat (g_nb g) + 1) = 0"
proof -
  let ?m = "unat (g_nb g) + 1"
  from assms(1) have sim: "anchor = unat (g_fn_anchor g)" "prev = anchor" "idr \<le> anchor"
    "(anchor - idr) mod ?m = 0" by (auto simp: gop_sim_def)
  have nb1: "unat (g_nb g + 1) = ?m" using assms(4) by (simp add: word_nat)
  have fn: "unat (g_fn_anchor g + (g_nb g + 1)) = anchor + ?m"
    using assms(4) sim by (simp add: unat_add_nowrap nb1)
  have split: "anchor + ?m - idr = (anchor - idr) + ?m" using sim by simp
  have md: "(anchor + ?m - idr) mod ?m = 0"
    unfolding split using sim(4) by (simp only: mod_add_self2)
  have bs: "mon_run ?m (unat (g_gop g)) (MonRun idr anchor prev since)
      (map (\<lambda>i. \<lparr>f_src = of_nat i, f_type = AVE_GOP_B, f_fn = g_fn_anchor g + 1 + of_nat i\<rparr>)
        [0..<minigop_nbs g w])
      = Some (MonRun idr anchor (anchor + minigop_nbs g w) (since + minigop_nbs g w))"
    using assms sim mon_run_bs [of "g_fn_anchor g" idr ?m "minigop_nbs g w" "unat (g_gop g)" since]
    by (auto simp: word_eq_0_unat)
  have "\<not> anchor + ?m \<le> anchor + minigop_nbs g w" using assms(2) by simp
  then show ?thesis
    using bs fn md assms(3)
    by (auto simp: ave_gop_minigop_def Let_def mon_run_append mon_step_def minigop_nbs_def
        word_eq_0_unat)
qed

lemma closing_mon:
  assumes "gop_wf g" "gop_sim g (MonRun idr anchor prev since)" "g_n_held g \<noteq> 0" "gop_room g n"
  shows "mon_run (unat (g_nb g) + 1) (unat (g_gop g)) (MonRun idr anchor prev since)
           (concat (closing g))
         = Some (MonRun idr (anchor + unat (g_nb g) + 1) (anchor + unat (g_nb g) + 1)
                   (since + unat (g_n_held g)))
       \<and> unat (g_fn_anchor g + (g_nb g + 1)) = anchor + unat (g_nb g) + 1
       \<and> (anchor + unat (g_nb g) + 1 - idr) mod (unat (g_nb g) + 1) = 0"
proof -
  have pos: "0 < unat (g_n_held g)" using assms(3) by (simp add: word_eq_0_unat)
  then have nbs: "Suc (minigop_nbs g False) = unat (g_n_held g)"
    using assms(3) by (simp add: minigop_nbs_def unat_pred)
  have gop: "g_gop g = 0 \<or> since + minigop_nbs g False < unat (g_gop g)"
    using assms(2,3) nbs by (auto simp: gop_sim_def word_less_nat_alt)
  have room: "unat (g_fn_anchor g) + unat (g_nb g) + 1 < 2 ^ 32"
    using assms(3,4) by (simp add: gop_room_def)
  have le: "minigop_nbs g False \<le> unat (g_nb g)"
    using assms(1) nbs by (simp add: gop_wf_def word_le_nat_alt)
  have "since + unat (g_n_held g) = since + minigop_nbs g False + 1" using nbs by simp
  then show ?thesis
    using minigop_mon [OF assms(2) le gop room] assms(3) by (simp add: closing_def)
qed

lemma key_mon:
  assumes "gop_wf g" "gop_sim g st" "gop_room g (Suc n)"
  shows "mon_run (unat (g_nb g) + 1) (unat (g_gop g)) st
           (concat (closing g) @ [\<lparr>f_src = s, f_type = AVE_GOP_IDR, f_fn = key_fn g\<rparr>])
         = Some (MonRun (unat (key_fn g)) (unat (key_fn g)) (unat (key_fn g)) 1)
       \<and> unat (key_fn g) + n * (unat (g_nb g) + 1) < 2 ^ 32"
proof (cases st)
  case MonStart
  then show ?thesis
    using assms
    by (auto simp: gop_sim_def gop_wf_def closing_def mon_step_def key_fn_def gop_room_def)
next
  case (MonRun idr anchor prev since)
  note sim = assms(2) [unfolded MonRun]
  show ?thesis
  proof (cases "g_n_held g = 0")
    case True
    have "unat (g_fn_anchor g + 1) = anchor + 1"
      using assms(3) sim True by (simp add: gop_room_def gop_sim_def word_nat)
    then show ?thesis
      using True sim MonRun assms(3)
      by (auto simp: closing_def mon_step_def key_fn_def gop_sim_def Let_def gop_room_def)
  next
    case False
    note c = closing_mon [OF assms(1) sim False assms(3)]
    have "unat (g_fn_anchor g + (g_nb g + 1) + 1) = anchor + unat (g_nb g) + 1 + 1"
      using c assms(3) sim False
      by (subst unat_add_nowrap) (simp_all add: gop_room_def gop_sim_def)
    then show ?thesis
      using False sim MonRun assms(3) c
      by (auto simp: mon_run_append mon_step_def key_fn_def gop_sim_def Let_def gop_room_def)
  qed
qed

lemma plan_mon:
  assumes wf: "gop_wf g" and sim: "gop_sim g st" and room: "gop_room g (Suc n)"
  shows "\<exists>st'. mon_run (unat (g_nb g) + 1) (unat (g_gop g)) st (snd (gop_plan g e)) = Some st'
    \<and> gop_sim (fst (gop_plan g e)) st' \<and> gop_room (fst (gop_plan g e)) n
    \<and> g_nb (fst (gop_plan g e)) = g_nb g \<and> g_gop (fst (gop_plan g e)) = g_gop g"
proof (rule gop_plan_cases [of g e])
  assume "ave_gop_decide g True (fst e) (snd e) = GOP_KEY"
    and p: "gop_plan g e =
        (g\<lparr>g_fn_anchor := key_fn g, g_started := True, g_n_held := 0, g_dist := 1\<rparr>,
         concat (closing g) @ [\<lparr>f_src = g_n_held g, f_type = AVE_GOP_IDR, f_fn = key_fn g\<rparr>])"
  show ?thesis
    using key_mon [OF wf sim room, of "g_n_held g"] room
    by (simp add: p gop_sim_def gop_room_def)
next
  assume d: "ave_gop_decide g True (fst e) (snd e) = GOP_ANCHOR"
    and p: "gop_plan g e =
        (g\<lparr>g_fn_anchor := g_fn_anchor g + (g_nb g + 1), g_n_held := 0, g_dist := g_dist g + 1\<rparr>,
         snd (ave_gop_minigop g True))"
  note ds = decide_anchor [OF d]
  then obtain idr anchor prev since where st: "st = MonRun idr anchor prev since"
    using sim by (cases st) (auto simp: gop_sim_def)
  have le: "minigop_nbs g True \<le> unat (g_nb g)"
    using wf by (simp add: gop_wf_def word_le_nat_alt minigop_nbs_def)
  have sd: "since + unat (g_n_held g) = unat (g_dist g)"
    using sim st by (simp add: gop_sim_def)
  have gop: "g_gop g = 0 \<or> since + minigop_nbs g True < unat (g_gop g)"
    using ds sd by (auto simp: word_less_nat_alt minigop_nbs_def)
  have r: "unat (g_fn_anchor g) + unat (g_nb g) + 1 < 2 ^ 32"
    and dist: "unat (g_dist g + 1) = unat (g_dist g) + 1"
    using room by (auto simp: gop_room_def word_nat)
  let ?a = "anchor + unat (g_nb g) + 1"
  note mm = minigop_mon [OF sim [unfolded st] le gop r]
  have "gop_sim (fst (gop_plan g e)) (MonRun idr ?a ?a (since + minigop_nbs g True + 1))"
    using mm sim sd by (simp add: p st gop_sim_def dist minigop_nbs_def)
  moreover have "gop_room (fst (gop_plan g e)) n"
    using mm room sim by (auto simp: p st gop_room_def gop_sim_def dist split: if_splits)
  ultimately show ?thesis using mm by (simp add: p st)
next
  assume d: "ave_gop_decide g True (fst e) (snd e) = GOP_HOLD"
    and p: "gop_plan g e = (g\<lparr>g_n_held := g_n_held g + 1, g_dist := g_dist g + 1\<rparr>, [])"
  note ds = decide_hold [OF d]
  have dist: "unat (g_dist g + 1) = unat (g_dist g) + 1"
    using room by (simp add: gop_room_def word_nat)
  have nz: "g_n_held g + 1 \<noteq> 0" using gop_held_bounds [OF wf] by (simp add: word_eq_0_unat)
  show ?thesis
    using ds room sim nz
    by (auto simp: p gop_sim_def gop_room_def dist gop_held_bounds [OF wf] split: gop_mon.splits)
qed

lemma stream_mon:
  assumes "gop_wf g" "gop_sim g st" "gop_room g (length es + n)"
  shows "\<exists>st'. mon_run (unat (g_nb g) + 1) (unat (g_gop g)) st
           (map snd (snd (plan_stream gop_plan held src g d es))) = Some st'
    \<and> gop_sim (fst (plan_stream gop_plan held src g d es)) st'
    \<and> gop_room (fst (plan_stream gop_plan held src g d es)) n
    \<and> g_nb (fst (plan_stream gop_plan held src g d es)) = g_nb g
    \<and> g_gop (fst (plan_stream gop_plan held src g d es)) = g_gop g"
  using assms
proof (induction es arbitrary: g st d)
  case Nil
  then show ?case by simp
next
  case (Cons e es)
  have room: "gop_room g (Suc (length es + n))" using Cons.prems(3) by simp
  from plan_mon [OF Cons.prems(1,2) room, of e] obtain st1 where
    s1: "mon_run (unat (g_nb g) + 1) (unat (g_gop g)) st (snd (gop_plan g e)) = Some st1"
    "gop_sim (fst (gop_plan g e)) st1" "gop_room (fst (gop_plan g e)) (length es + n)"
    and eq: "g_nb (fst (gop_plan g e)) = g_nb g" "g_gop (fst (gop_plan g e)) = g_gop g" by auto
  from Cons.IH [OF gop_plan_wf [OF Cons.prems(1)] s1(2,3), of "Suc d"]
  show ?case
    by (auto simp: case_prod_beta Let_def comp_def display_of_def mon_run_append s1(1) [simplified] eq)
qed

lemma flush_mon:
  assumes "gop_wf g" "gop_sim g st" "gop_room g n"
  shows "\<exists>st'. mon_run (unat (g_nb g) + 1) (unat (g_gop g)) st (snd (gop_flush g)) = Some st'"
proof (cases "g_n_held g = 0")
  case True
  then show ?thesis by (simp add: gop_flush_eq closing_def)
next
  case False
  then obtain idr anchor prev since where "st = MonRun idr anchor prev since"
    using assms(1,2) by (cases st) (auto simp: gop_sim_def gop_wf_def)
  then show ?thesis
    using closing_mon [of g idr anchor prev since n] assms False by (simp add: gop_flush_eq)
qed

lemma mon_run_rising:
  assumes "mon_run m gop st fs = Some st'"
  shows "sorted_wrt (<) (map (\<lambda>f. unat (f_fn f)) fs)
    \<and> (\<forall>f\<in>set fs. case st of MonStart \<Rightarrow> True | MonRun _ _ prev _ \<Rightarrow> prev < unat (f_fn f))"
  using assms
proof (induction fs arbitrary: st)
  case Nil
  then show ?case by simp
next
  case (Cons f fs)
  from Cons.prems obtain st1 where s: "mon_step m gop st f = Some st1" "mon_run m gop st1 fs = Some st'"
    by (auto split: option.splits)
  from s(1) obtain i a n where st1: "st1 = MonRun i a (unat (f_fn f)) n"
    and prev: "case st of MonStart \<Rightarrow> True | MonRun _ _ prev _ \<Rightarrow> prev < unat (f_fn f)"
    by (auto simp: mon_step_def Let_def split: gop_mon.splits if_splits)
  from Cons.IH [OF s(2)] show ?case
    using prev by (fastforce simp: st1 split: gop_mon.splits)
qed

text \<open>The coded sequence of one stream: a fresh planner, its sources, then the drain.\<close>

definition gop_coded :: "u32 \<Rightarrow> u32 \<Rightarrow> (bool \<times> bool) list \<Rightarrow> (nat \<times> ave_gop_frame) list" where
  "gop_coded nb gop es =
     snd (plan_drained gop_plan gop_flush (\<lambda>g. unat (g_n_held g)) (\<lambda>f. unat (f_src f))
            (ave_gop_init nb gop) es)"

lemma gop_init_sim:
  "gop_sim (ave_gop_init nb gop) MonStart"
  "n * (unat nb + 1) < 2 ^ 32 \<Longrightarrow> gop_room (ave_gop_init nb gop) n"
  by (auto simp: gop_sim_def ave_gop_init_def gop_room_def)

lemma gop_coded_mon:
  assumes "unat nb \<le> AVE_GOP_B_MAX" "length es * (unat nb + 1) < 2 ^ 32"
  shows "\<exists>st. mon_run (unat nb + 1) (unat gop) MonStart (map snd (gop_coded nb gop es)) = Some st"
proof -
  let ?g = "ave_gop_init nb gop"
  let ?s = "plan_stream gop_plan (\<lambda>g. unat (g_n_held g)) (\<lambda>f. unat (f_src f)) ?g 0 es"
  have wf: "gop_wf ?g" using assms(1) by (rule gop_wf_init)
  have room: "gop_room ?g (length es + 0)" using assms(2) gop_init_sim(2) by simp
  have fields: "g_nb ?g = nb" "g_gop ?g = gop" by (simp_all add: ave_gop_init_def)
  from stream_mon [OF wf gop_init_sim(1) room, unfolded fields] obtain st1 where
    "mon_run (unat nb + 1) (unat gop) MonStart (map snd (snd ?s)) = Some st1"
    "gop_sim (fst ?s) st1" "gop_room (fst ?s) 0" "g_nb (fst ?s) = nb" "g_gop (fst ?s) = gop"
    by blast
  then show ?thesis
    using flush_mon [of "fst ?s" st1 0] gop.stream_inv [OF wf]
    by (simp add: gop_coded_def plan_drained_def case_prod_beta Let_def comp_def display_of_def
        mon_run_append)
qed

section \<open>Properties\<close>

text \<open>C10. Every source of a stream is coded exactly once, and the coded frames leave the
  planner in display order, whatever key frames are forced and wherever drains fall: the
  display numbers of the coded sequence are \<open>0, 1, .., n - 1\<close>.\<close>

theorem gop_codes_every_source_once:
  assumes "unat nb \<le> AVE_GOP_B_MAX"
  shows "map fst (gop_coded nb gop es) = [0..<length es]"
  unfolding gop_coded_def
  by (rule gop.drained_display(1) [OF gop_wf_init [OF assms]]) (simp add: ave_gop_init_def)

theorem gop_codes_every_source_once_witness:
  "map fst (gop_coded 2 6 [(False, False), (False, False), (False, False), (True, False), (False, False)])
     = [0, 1, 2, 3, 4]"
  using gop_codes_every_source_once
    [of 2 6 "[(False, False), (False, False), (False, False), (True, False), (False, False)]"]
  by (simp add: AVE_GOP_B_MAX_def upt_rec)

text \<open>C3. The coded sequence keeps the rules the firmware's reference selection needs, as long
  as the 32-bit frame numbers do not run out: it starts with an IDR, every P lies at a multiple
  of \<open>nb + 1\<close> from its IDR, every B lies strictly inside a mini-GOP with the preceding anchor
  below it, no B is followed by an IDR, and no frame is \<open>gop\<close> or more frames from its IDR.\<close>

theorem gop_sequence_accepted:
  assumes "unat nb \<le> AVE_GOP_B_MAX" "length es * (unat nb + 1) < 2 ^ 32"
  shows "mon_run (unat nb + 1) (unat gop) MonStart (map snd (gop_coded nb gop es)) \<noteq> None"
  using gop_coded_mon [OF assms] by auto

theorem gop_sequence_accepted_witness:
  "mon_run 3 4 MonStart (map snd (gop_coded 2 4 (replicate 9 (False, False)))) \<noteq> None"
  using gop_sequence_accepted [of 2 "replicate 9 (False, False)" 4]
  by (simp add: AVE_GOP_B_MAX_def)

text \<open>C14. Frame numbers strictly rise in display order over the whole stream, so they are
  unique and the picture order count of every group is its display order.\<close>

theorem gop_numbers_rise:
  assumes "unat nb \<le> AVE_GOP_B_MAX" "length es * (unat nb + 1) < 2 ^ 32"
  shows "sorted_wrt (<) (map (\<lambda>f. unat (f_fn (snd f))) (gop_coded nb gop es))"
proof -
  obtain st where
    "mon_run (unat nb + 1) (unat gop) MonStart (map snd (gop_coded nb gop es)) = Some st"
    using gop_coded_mon [OF assms] by auto
  from mon_run_rising [OF this] show ?thesis by (simp add: comp_def)
qed

theorem gop_numbers_rise_witness:
  "sorted_wrt (<) (map (\<lambda>f. unat (f_fn (snd f))) (gop_coded 1 5 (replicate 12 (False, False))))"
  using gop_numbers_rise [of 1 "replicate 12 (False, False)" 5]
  by (simp add: AVE_GOP_B_MAX_def)

lemma concat_length_need:
  "gop_wf g \<Longrightarrow> a \<noteq> GOP_NONE \<Longrightarrow>
    length (concat (snd (ave_gop_commit g a))) = unat (ave_gop_srcs g a)"
proof -
  assume wf: "gop_wf g" and a: "a \<noteq> GOP_NONE"
  have cl: "length (concat (closing g)) = unat (g_n_held g)"
    using arg_cong [where f = length, OF closing_srcs [of g]] by (simp del: map_concat)
  have an: "length (snd (ave_gop_minigop g True)) = Suc (unat (g_n_held g))"
    using arg_cong [where f = length, OF minigop_srcs_anchor [of g]] by simp
  show ?thesis
    using a cl an gop_held_bounds [OF wf]
    by (cases a) (auto simp: commit_simps ave_gop_srcs_def ave_gop_need_def)
qed

lemma minigop_shape:
  "\<exists>bs p. snd (ave_gop_minigop g w) = bs @ [p] \<and> length bs = minigop_nbs g w
     \<and> (\<forall>b\<in>set bs. f_type b = AVE_GOP_B) \<and> f_type p = AVE_GOP_P"
  by (auto simp: ave_gop_minigop_def Let_def minigop_nbs_def)

lemma closing_shape:
  assumes "gop_wf g" "b \<in> set (closing g)"
  shows "\<exists>bs p. b = bs @ [p] \<and> length bs < unat (g_nb g)
     \<and> (\<forall>x\<in>set bs. f_type x = AVE_GOP_B) \<and> f_type p = AVE_GOP_P"
proof -
  from assms(2) have nz: "g_n_held g \<noteq> 0" and b: "b = snd (ave_gop_minigop g False)"
    by (auto simp: closing_def split: if_splits)
  from nz have pos: "0 < unat (g_n_held g)" by (simp add: word_eq_0_unat)
  have "minigop_nbs g False < unat (g_nb g)"
    using assms(1) nz pos by (auto simp: minigop_nbs_def unat_pred gop_wf_def word_le_nat_alt)
  then show ?thesis using minigop_shape [of g False] by (auto simp: b)
qed

text \<open>C15. Every job sends at most two batches; each batch fits the three-entry frame array
  \<open>ave_gop_batch.f\<close>, has its Bs first and ends with the one P or IDR that is their anchor, an
  IDR being alone in its batch; and the frames of the job are exactly the CAPTURE buffers
  \<open>ave_gop_need\<close> announced.\<close>

theorem gop_batches_fit:
  assumes "gop_wf g" and "a = ave_gop_decide g has_new force is_last"
  shows "length (snd (ave_gop_commit g a)) \<le> 2
    \<and> length (concat (snd (ave_gop_commit g a))) = unat (ave_gop_need g a)
    \<and> (\<forall>b\<in>set (snd (ave_gop_commit g a)).
         \<exists>bs p. b = bs @ [p] \<and> length b \<le> AVE_GOP_BATCH_MAX
           \<and> (\<forall>x\<in>set bs. f_type x = AVE_GOP_B)
           \<and> (f_type p = AVE_GOP_P \<or> f_type p = AVE_GOP_IDR \<and> bs = []))"
proof -
  have nb: "unat (g_nb g) \<le> AVE_GOP_B_MAX" and held: "unat (g_n_held g) \<le> unat (g_nb g)"
    using assms(1) by (simp_all add: gop_wf_def word_le_nat_alt)
  have need: "length (concat (snd (ave_gop_commit g a))) = unat (ave_gop_need g a)"
    using concat_length_need [OF assms(1), of a]
    by (cases a) (auto simp: ave_gop_srcs_def ave_gop_need_def commit_simps)
  have two: "length (snd (ave_gop_commit g a)) \<le> 2"
    by (cases a) (auto simp: commit_simps closing_def)
  have cl: "\<exists>bs p. b = bs @ [p] \<and> length b \<le> AVE_GOP_BATCH_MAX
      \<and> (\<forall>x\<in>set bs. f_type x = AVE_GOP_B) \<and> f_type p = AVE_GOP_P" if "b \<in> set (closing g)" for b
    using closing_shape [OF assms(1) that] nb by (fastforce simp: AVE_GOP_BATCH_MAX_def)
  have an: "\<exists>bs p. snd (ave_gop_minigop g True) = bs @ [p]
      \<and> length (snd (ave_gop_minigop g True)) \<le> AVE_GOP_BATCH_MAX
      \<and> (\<forall>x\<in>set bs. f_type x = AVE_GOP_B) \<and> f_type p = AVE_GOP_P"
    using minigop_shape [of g True] nb held by (fastforce simp: AVE_GOP_BATCH_MAX_def minigop_nbs_def)
  have "\<forall>b\<in>set (snd (ave_gop_commit g a)).
         \<exists>bs p. b = bs @ [p] \<and> length b \<le> AVE_GOP_BATCH_MAX
           \<and> (\<forall>x\<in>set bs. f_type x = AVE_GOP_B)
           \<and> (f_type p = AVE_GOP_P \<or> f_type p = AVE_GOP_IDR \<and> bs = [])"
    using cl an
    by (cases a) (fastforce simp: commit_simps AVE_GOP_BATCH_MAX_def)+
  with need two show ?thesis by blast
qed

theorem gop_batches_fit_witness:
  "length (snd (ave_gop_commit
      \<lparr>g_nb = 2, g_gop = 0, g_n_held = 2, g_dist = 3, g_fn_anchor = 0, g_started = True\<rparr> GOP_KEY)) \<le> 2"
  using gop_batches_fit [of "\<lparr>g_nb = 2, g_gop = 0, g_n_held = 2, g_dist = 3, g_fn_anchor = 0,
      g_started = True\<rparr>" GOP_KEY True True False]
  by (simp add: gop_wf_def AVE_GOP_B_MAX_def ave_gop_decide_def)

end
