(* ===== verification/Ave_Adt.thy ===== *)
theory Ave_Adt
  imports Ave_Mem
begin

text \<open>
  \<^verbatim>\<open>src/driver/ave_adt.c\<close>: the parser of the live Apple Device Tree, which finds one
  encoder's firmware placement. The buffer is a list of bytes, an offset a \<open>nat\<close>; every
  read and every \<open>size_t\<close> subtraction is checked (\<open>Fault\<close>), so the safety theorem says
  that no buffer whatsoever makes the parser read outside it.

  The second half defines the trees such a buffer encodes (\<open>adt\<close>) with their serialisation,
  and shows that the parser finds in the serialised tree what the tree holds.
\<close>

section \<open>The parser\<close>

definition ADT_NAME_LEN :: nat where "ADT_NAME_LEN = 32"
definition ADT_PROP_HDR :: nat where "ADT_PROP_HDR = ADT_NAME_LEN + 4"
definition ADT_MAX_DEPTH :: nat where "ADT_MAX_DEPTH = 16"
definition ADT_MAX_COUNT :: u32 where "ADT_MAX_COUNT = 4096"
definition AVE_ADT_MAX_SEGS :: nat where "AVE_ADT_MAX_SEGS = 4"

record ave_adt_seg =
  s_phys :: u64
  s_iova :: u64
  s_remap :: u64
  s_size :: u32
  s_flags :: u32

record ave_adt_enc =
  e_name :: "u8 list"   \<comment> \<open>\<open>name[32]\<close>, NUL-padded\<close>
  e_reg0 :: u64
  e_preloaded :: bool
  e_seg :: "ave_adt_seg list"   \<comment> \<open>the first \<open>nseg\<close> entries of \<open>seg[]\<close>\<close>

text \<open>\<open>!strncmp(b + off, s, n)\<close> for a NUL-terminated \<open>s\<close>: it stops at the first difference
  or at the NUL, and reads no byte after that.\<close>

fun strncmp_eq :: "u8 list \<Rightarrow> nat \<Rightarrow> u8 list \<Rightarrow> nat \<Rightarrow> bool cres" where
  "strncmp_eq b off s 0 = Ok True"
| "strncmp_eq b off [] (Suc n) = cbind (rd8 b off) (\<lambda>c. Ok (c = 0))"
| "strncmp_eq b off (d # ds) (Suc n) =
     cbind (rd8 b off) (\<lambda>c. if c = d then strncmp_eq b (off + 1) ds n else Ok False)"

datatype adt_props_res =
  PropVal nat u32   \<comment> \<open>with a name: the value's offset and size\<close>
| PropEnd u32 nat   \<comment> \<open>without: the number of children and the first child's offset\<close>

fun adt_props_loop :: "u8 list \<Rightarrow> u8 list option \<Rightarrow> u32 \<Rightarrow> nat \<Rightarrow> nat \<Rightarrow> adt_props_res cres" where
  "adt_props_loop b name nk 0 off =
     (if name \<noteq> None then Err ENOENT else Ok (PropEnd nk off))"
| "adt_props_loop b name nk (Suc i) off =
     cbind (csub (length b) off) (\<lambda>left.
     if left < ADT_PROP_HDR then Err EINVAL
     else cbind (rd_le32 b (off + ADT_NAME_LEN)) (\<lambda>w.
       let sz = w AND 0x7fffffff;
           padded = (unat sz + 3) div 4 * 4
       in cbind (csub left ADT_PROP_HDR) (\<lambda>room.
          if room < padded then Err EINVAL
          else cbind (case name of None \<Rightarrow> Ok False | Some s \<Rightarrow> strncmp_eq b off s ADT_NAME_LEN)
            (\<lambda>hit. if hit then Ok (PropVal (off + ADT_PROP_HDR) sz)
                   else adt_props_loop b name nk i (off + (ADT_PROP_HDR + padded))))))"

definition adt_props :: "u8 list \<Rightarrow> nat \<Rightarrow> u8 list option \<Rightarrow> adt_props_res cres" where
  "adt_props b off name =
     (if length b < off then Err EINVAL
      else cbind (csub (length b) off) (\<lambda>left.
        if left < 8 then Err EINVAL
        else cbind (rd_le32 b off) (\<lambda>np. cbind (rd_le32 b (off + 4)) (\<lambda>nk.
          if ADT_MAX_COUNT < np \<or> ADT_MAX_COUNT < nk then Err EINVAL
          else adt_props_loop b name nk (unat np) (off + 8)))))"

text \<open>\<open>adt_props(.., NULL, .., &nk, &off)\<close> and \<open>adt_prop\<close>: the two ways it is called.\<close>

definition adt_kids :: "u8 list \<Rightarrow> nat \<Rightarrow> (u32 \<times> nat) cres" where
  "adt_kids b off =
     cbind (adt_props b off None) (\<lambda>r. case r of PropEnd nk e \<Rightarrow> Ok (nk, e) | PropVal _ _ \<Rightarrow> Fault)"

definition adt_prop :: "u8 list \<Rightarrow> nat \<Rightarrow> u8 list \<Rightarrow> (nat \<times> u32) cres" where
  "adt_prop b off name =
     cbind (adt_props b off (Some name)) (\<lambda>r. case r of PropVal v n \<Rightarrow> Ok (v, n) | PropEnd _ _ \<Rightarrow> Fault)"

text \<open>
  The recursion is on the levels left below \<open>ADT_MAX_DEPTH\<close>: \<open>adt_node_end\<close> at depth \<open>d\<close>
  has \<open>ADT_MAX_DEPTH + 1 - d\<close> of them, and none left is the code's \<open>depth > ADT_MAX_DEPTH\<close>.
\<close>

primrec adt_subtree_end :: "u8 list \<Rightarrow> nat \<Rightarrow> nat \<Rightarrow> nat cres" where
  "adt_subtree_end b 0 off = Err EINVAL"
| "adt_subtree_end b (Suc levels) off =
     cbind (adt_kids b off) (\<lambda>(nk, off1). repeat_c (unat nk) (adt_subtree_end b levels) off1)"

definition adt_node_end :: "u8 list \<Rightarrow> nat \<Rightarrow> nat \<Rightarrow> nat cres" where
  "adt_node_end b off depth = adt_subtree_end b (ADT_MAX_DEPTH + 1 - depth) off"

definition adt_name :: "u8 list \<Rightarrow> nat \<Rightarrow> u8 list cres" where
  "adt_name b off =
     (case adt_prop b off (cstr ''name'') of
        Fault \<Rightarrow> Fault
      | Err _ \<Rightarrow> Ok (replicate ADT_NAME_LEN 0)
      | Ok (v, n) \<Rightarrow>
          (let n' = (if ADT_NAME_LEN - 1 < unat n then ADT_NAME_LEN - 1 else unat n) in
           cbind (rd_bytes b v n') (\<lambda>bs. Ok (bs @ replicate (ADT_NAME_LEN - n') 0))))"

fun adt_child_loop :: "u8 list \<Rightarrow> nat \<Rightarrow> nat \<Rightarrow> u8 list \<Rightarrow> nat \<Rightarrow> nat cres" where
  "adt_child_loop b off depth name 0 = Err ENOENT"
| "adt_child_loop b off depth name (Suc i) =
     cbind (adt_name b off) (\<lambda>cn.
       if c_str cn = name then Ok off
       else cbind (adt_node_end b off (depth + 1)) (\<lambda>off'.
         adt_child_loop b off' depth name i))"

definition adt_child :: "u8 list \<Rightarrow> nat \<Rightarrow> nat \<Rightarrow> u8 list \<Rightarrow> nat cres" where
  "adt_child b off depth name =
     cbind (adt_kids b off) (\<lambda>(nk, off1). adt_child_loop b off1 depth name (unat nk))"

definition adt_u32 :: "u8 list \<Rightarrow> nat \<Rightarrow> u8 list \<Rightarrow> u32 \<Rightarrow> u32 cres" where
  "adt_u32 b off name dflt =
     (case adt_prop b off name of
        Fault \<Rightarrow> Fault
      | Err _ \<Rightarrow> Ok dflt
      | Ok (v, n) \<Rightarrow> if n < 4 then Ok dflt else rd_le32 b v)"

definition adt_is_encoder_name :: "u8 list \<Rightarrow> bool" where
  "adt_is_encoder_name n =
     (let s = c_str n in
      take 3 s = cstr ''ave'' \<and> list_all (\<lambda>c. 48 \<le> c \<and> c \<le> 57) (drop 3 s))"

text \<open>The loop over \<open>/arm-io\<close>'s ranges: the first window that holds the bus address.\<close>

fun adt_translate :: "u8 list \<Rightarrow> nat \<Rightarrow> nat \<Rightarrow> u64 \<Rightarrow> u64 option cres" where
  "adt_translate b r 0 bus = Ok None"
| "adt_translate b r (Suc j) bus =
     cbind (rd_le64 b r) (\<lambda>c. cbind (rd_le64 b (r + 8)) (\<lambda>p. cbind (rd_le64 b (r + 16)) (\<lambda>s.
       if c \<le> bus \<and> bus - c < s then Ok (Some (p + (bus - c)))
       else adt_translate b (r + 24) j bus)))"

fun adt_segs :: "u8 list \<Rightarrow> nat \<Rightarrow> nat \<Rightarrow> ave_adt_seg list cres" where
  "adt_segs b e 0 = Ok []"
| "adt_segs b e (Suc j) =
     cbind (rd_le64 b e) (\<lambda>p. cbind (rd_le64 b (e + 8)) (\<lambda>i. cbind (rd_le64 b (e + 16)) (\<lambda>r.
     cbind (rd_le32 b (e + 24)) (\<lambda>s. cbind (rd_le32 b (e + 28)) (\<lambda>f.
     cbind (adt_segs b (e + 32) j) (\<lambda>segs.
       Ok (\<lparr>s_phys = p, s_iova = i, s_remap = r, s_size = s, s_flags = f\<rparr> # segs)))))))"

text \<open>The tail of the loop body, once the node is the one asked for.\<close>

definition adt_placement :: "u8 list \<Rightarrow> nat \<Rightarrow> u8 list \<Rightarrow> u64 \<Rightarrow> ave_adt_enc cres" where
  "adt_placement b node nm cpu =
     (case adt_prop b node (cstr ''pre-loaded'') of
        Fault \<Rightarrow> Fault
      | pre \<Rightarrow>
        (let enc = \<lparr>e_name = nm, e_reg0 = cpu,
                    e_preloaded = (case pre of Ok _ \<Rightarrow> True | _ \<Rightarrow> False), e_seg = []\<rparr> in
         case adt_prop b node (cstr ''segment-ranges'') of
           Fault \<Rightarrow> Fault
         | Err e \<Rightarrow> (if e = ENOENT then Ok enc else Err e)
         | Ok (v, n) \<Rightarrow>
             if unat n mod 32 \<noteq> 0 \<or> AVE_ADT_MAX_SEGS < unat n div 32 then Err EINVAL
             else cbind (adt_segs b v (unat n div 32)) (\<lambda>segs. Ok (enc\<lparr>e_seg := segs\<rparr>))))"

fun adt_find_loop :: "u8 list \<Rightarrow> nat \<Rightarrow> nat \<Rightarrow> u64 \<Rightarrow> nat \<Rightarrow> nat \<Rightarrow> ave_adt_enc cres" where
  "adt_find_loop b ranges nranges cpu_reg0 off 0 = Err ENOENT"
| "adt_find_loop b ranges nranges cpu_reg0 off (Suc i) =
     cbind (adt_node_end b off 2) (\<lambda>off'.
     cbind (adt_name b off) (\<lambda>nm.
       if \<not> adt_is_encoder_name nm then adt_find_loop b ranges nranges cpu_reg0 off' i
       else case adt_prop b off (cstr ''reg'') of
         Fault \<Rightarrow> Fault
       | Err _ \<Rightarrow> adt_find_loop b ranges nranges cpu_reg0 off' i
       | Ok (v, n) \<Rightarrow>
           if n < 16 then adt_find_loop b ranges nranges cpu_reg0 off' i
           else cbind (rd_le64 b v) (\<lambda>bus. cbind (adt_translate b ranges nranges bus) (\<lambda>cpu.
             if cpu \<noteq> Some cpu_reg0 then adt_find_loop b ranges nranges cpu_reg0 off' i
             else adt_placement b off nm cpu_reg0))))"

definition ave_adt_find_encoder :: "u8 list option \<Rightarrow> u64 \<Rightarrow> ave_adt_enc cres" where
  "ave_adt_find_encoder buf cpu_reg0 =
     (case buf of
        None \<Rightarrow> Err EINVAL
      | Some b \<Rightarrow>
        if length b < 8 then Err EINVAL
        else cbind (adt_child b 0 0 (cstr ''arm-io'')) (\<lambda>armio.
          cbind (adt_u32 b 0 (cstr ''#address-cells'') 0) (\<lambda>ac0.
          if ac0 \<noteq> 2 then Err EINVAL else
          cbind (adt_u32 b armio (cstr ''#address-cells'') 0) (\<lambda>ac1.
          if ac1 \<noteq> 2 then Err EINVAL else
          cbind (adt_u32 b armio (cstr ''#size-cells'') 0) (\<lambda>sc1.
          if sc1 \<noteq> 2 then Err EINVAL else
          case adt_prop b armio (cstr ''ranges'') of
            Fault \<Rightarrow> Fault
          | Err e \<Rightarrow> Err (if e = ENOENT then EINVAL else e)
          | Ok (ranges, rlen) \<Rightarrow>
              if unat rlen mod 24 \<noteq> 0 then Err EINVAL
              else cbind (adt_kids b armio) (\<lambda>(nk, off).
                adt_find_loop b ranges (unat rlen div 24) cpu_reg0 off (unat nk)))))))"

section \<open>Memory safety\<close>

lemma safe_strncmp: "off + n \<le> length b \<Longrightarrow> safe (\<lambda>_. True) (strncmp_eq b off s n)"
  by (induction b off s n rule: strncmp_eq.induct) (auto simp: rd8_def)

definition props_ok :: "u8 list \<Rightarrow> u8 list option \<Rightarrow> adt_props_res \<Rightarrow> bool" where
  "props_ok b name r \<longleftrightarrow>
     (case r of PropVal v n \<Rightarrow> name \<noteq> None \<and> v + unat n \<le> length b
      | PropEnd _ off \<Rightarrow> name = None \<and> off \<le> length b)"

lemma padded_ge: "(n :: nat) \<le> (n + 3) div 4 * 4"
  by linarith

lemma safe_props_loop: "off \<le> length b \<Longrightarrow> safe (props_ok b name) (adt_props_loop b name nk i off)"
proof (induction i arbitrary: off)
  case 0
  then show ?case by (simp add: props_ok_def)
next
  case (Suc i)
  let ?sz = "get_le32 b (off + ADT_NAME_LEN) AND 0x7fffffff"
  let ?p = "(unat ?sz + 3) div 4 * 4"
  show ?case
  proof (cases "length b - off < ADT_PROP_HDR")
    case True
    then show ?thesis using Suc.prems by simp
  next
    case False
    then have hdr: "off + ADT_PROP_HDR \<le> length b" using Suc.prems by simp
    then have rd: "rd_le32 b (off + ADT_NAME_LEN) = Ok (get_le32 b (off + ADT_NAME_LEN))"
      by (simp add: rd_le32_def ADT_PROP_HDR_def)
    show ?thesis
    proof (cases "length b - off - ADT_PROP_HDR < ?p")
      case True
      then show ?thesis using False Suc.prems rd by (simp add: Let_def)
    next
      case fits: False
      then have in_buf: "off + ADT_PROP_HDR + ?p \<le> length b" using hdr by linarith
      have name: "safe (\<lambda>hit. hit \<longrightarrow> name \<noteq> None)
          (case name of None \<Rightarrow> Ok False | Some s \<Rightarrow> strncmp_eq b off s ADT_NAME_LEN)"
        using hdr safe_strncmp [of off ADT_NAME_LEN b]
        by (auto simp: ADT_PROP_HDR_def split: option.split intro: safe_weaken)
      have val: "name \<noteq> None \<Longrightarrow> props_ok b name (PropVal (off + ADT_PROP_HDR) ?sz)"
        using in_buf padded_ge [of "unat ?sz"] by (simp add: props_ok_def)
      have "safe (props_ok b name) (cbind (case name of None \<Rightarrow> Ok False
                | Some s \<Rightarrow> strncmp_eq b off s ADT_NAME_LEN)
             (\<lambda>hit. if hit then Ok (PropVal (off + ADT_PROP_HDR) ?sz)
               else adt_props_loop b name nk i (off + (ADT_PROP_HDR + ?p))))"
        using name val Suc.IH [of "off + (ADT_PROP_HDR + ?p)"] in_buf
        by (intro safe_bind [OF name]) (auto simp: add.assoc)
      then show ?thesis using False fits Suc.prems rd by (simp add: Let_def)
    qed
  qed
qed

lemma safe_props [safe_intro]: "safe (props_ok b name) (adt_props b off name)"
proof (cases "length b < off \<or> length b - off < 8")
  case True
  then show ?thesis by (auto simp: adt_props_def)
next
  case False
  then have "off + 8 \<le> length b" by arith
  then show ?thesis
    by (auto simp: adt_props_def rd_le32_def intro!: safe_props_loop)
qed

lemma safe_kids [safe_intro]: "safe (\<lambda>(nk, e). e \<le> length b) (adt_kids b off)"
  unfolding adt_kids_def
  by (rule safe_bind [OF safe_props]) (auto simp: props_ok_def split: adt_props_res.splits)

lemma safe_prop [safe_intro]: "safe (\<lambda>(v, n). v + unat n \<le> length b) (adt_prop b off name)"
  unfolding adt_prop_def
  by (rule safe_bind [OF safe_props]) (auto simp: props_ok_def split: adt_props_res.splits)

lemma prop_not_fault [simp]: "adt_prop b off name \<noteq> Fault"
  using safe_prop by (rule safe_no_fault)

lemma prop_in_buffer: "adt_prop b off name = Ok (v, n) \<Longrightarrow> v + unat n \<le> length b"
  using safe_Ok [OF safe_prop] by fastforce

lemma safe_subtree: "off \<le> length b \<Longrightarrow> safe (\<lambda>e. e \<le> length b) (adt_subtree_end b levels off)"
proof (induction levels arbitrary: off)
  case 0
  then show ?case by simp
next
  case (Suc levels)
  show ?case
    by (auto intro!: safe_bind [OF safe_kids] safe_repeat Suc.IH)
qed

lemma safe_node_end: "off \<le> length b \<Longrightarrow> safe (\<lambda>e. e \<le> length b) (adt_node_end b off depth)"
  unfolding adt_node_end_def by (rule safe_subtree)

lemma safe_name [safe_intro]: "safe (\<lambda>nm. length nm = ADT_NAME_LEN) (adt_name b off)"
proof (cases "adt_prop b off (cstr ''name'')")
  case (Ok vn)
  obtain v n where vn: "vn = (v, n)" by force
  let ?n = "if ADT_NAME_LEN - 1 < unat n then ADT_NAME_LEN - 1 else unat n"
  have "v + ?n \<le> length b" using prop_in_buffer [OF Ok [unfolded vn]] by auto
  then show ?thesis
    by (auto simp: adt_name_def Ok vn Let_def rd_bytes_def ADT_NAME_LEN_def)
qed (auto simp: adt_name_def)

lemma safe_child_loop:
  "off \<le> length b \<Longrightarrow> safe (\<lambda>e. e \<le> length b) (adt_child_loop b off depth name i)"
proof (induction i arbitrary: off)
  case (Suc i)
  show ?case
    unfolding adt_child_loop.simps
    by (rule safe_bind [OF safe_name]) (auto intro!: safe_bind [OF safe_node_end] Suc)
qed simp

lemma safe_child: "safe (\<lambda>e. e \<le> length b) (adt_child b off depth name)"
  unfolding adt_child_def
  by (rule safe_bind [OF safe_kids]) (auto intro!: safe_child_loop)

lemma safe_u32: "safe (\<lambda>_. True) (adt_u32 b off name dflt)"
proof (cases "adt_prop b off name")
  case (Ok vn)
  obtain v n where vn: "vn = (v, n)" by force
  have "v + unat n \<le> length b" using prop_in_buffer [OF Ok [unfolded vn]] .
  then show ?thesis
    by (auto simp: adt_u32_def Ok vn rd_le32_def not_less word_le_nat_alt)
qed (auto simp: adt_u32_def)

lemma safe_translate: "r + 24 * j \<le> length b \<Longrightarrow> safe (\<lambda>_. True) (adt_translate b r j bus)"
  by (induction b r j bus rule: adt_translate.induct) (auto simp: rd_le64_def)

lemma safe_segs: "e + 32 * j \<le> length b \<Longrightarrow> safe (\<lambda>s. length s = j) (adt_segs b e j)"
  by (induction b e j rule: adt_segs.induct)
    (auto simp: rd_le64_def rd_le32_def intro!: safe_bind)


definition enc_ok :: "u64 \<Rightarrow> ave_adt_enc \<Rightarrow> bool" where
  "enc_ok cpu_reg0 e \<longleftrightarrow> length (e_name e) = ADT_NAME_LEN \<and> adt_is_encoder_name (e_name e)
     \<and> e_reg0 e = cpu_reg0 \<and> length (e_seg e) \<le> AVE_ADT_MAX_SEGS"

lemma safe_placement:
  assumes "length nm = ADT_NAME_LEN" "adt_is_encoder_name nm"
  shows "safe (enc_ok cpu) (adt_placement b node nm cpu)"
proof (cases "adt_prop b node (cstr ''segment-ranges'')")
  case (Ok vn)
  obtain v n where vn: "vn = (v, n)" by force
  have in_buf: "v + unat n \<le> length b" using prop_in_buffer [OF Ok [unfolded vn]] .
  have "safe (\<lambda>s. length s = unat n div 32) (adt_segs b v (unat n div 32))"
    using in_buf by (intro safe_segs) linarith
  then show ?thesis
    using assms
    by (cases "adt_prop b node (cstr ''pre-loaded'')")
      (auto simp: adt_placement_def Ok vn enc_ok_def Let_def not_less intro!: safe_bind)
qed (use assms in \<open>auto simp: adt_placement_def enc_ok_def Let_def split: cres.split\<close>)

lemma safe_find_loop:
  assumes "ranges + 24 * nranges \<le> length b" "off \<le> length b"
  shows "safe (enc_ok cpu) (adt_find_loop b ranges nranges cpu off i)"
  using assms(2)
proof (induction i arbitrary: off)
  case (Suc i)
  have tail: "safe (enc_ok cpu)
      (if n < 16 then adt_find_loop b ranges nranges cpu off' i
       else cbind (rd_le64 b v) (\<lambda>bus. cbind (adt_translate b ranges nranges bus) (\<lambda>c.
             if c \<noteq> Some cpu then adt_find_loop b ranges nranges cpu off' i
             else adt_placement b off nm cpu)))"
    if "adt_prop b off (cstr ''reg'') = Ok (v, n)" "off' \<le> length b"
      "length nm = ADT_NAME_LEN" "adt_is_encoder_name nm" for v n off' nm
    using that prop_in_buffer [OF that(1)] safe_translate [OF assms(1)]
    by (auto simp: word_less_nat_alt rd_le64_def intro!: safe_bind [OF safe_translate] assms(1)
        Suc.IH safe_placement)
  show ?case
    unfolding adt_find_loop.simps
    using Suc.prems tail
    by (auto intro!: safe_bind [OF safe_node_end] safe_bind [OF safe_name] Suc.IH
        split: cres.split)
qed simp

lemma find_encoder_safe: "safe (enc_ok cpu_reg0) (ave_adt_find_encoder buf cpu_reg0)"
proof -
  have "safe (enc_ok cpu_reg0) (ave_adt_find_encoder buf cpu_reg0)"
  proof (cases buf)
    case (Some b)
    have tail: "safe (enc_ok cpu_reg0)
        (cbind (adt_kids b armio) (\<lambda>(nk, off).
           adt_find_loop b ranges (unat rlen div 24) cpu_reg0 off (unat nk)))"
      if "adt_prop b armio (cstr ''ranges'') = Ok (ranges, rlen)" "unat rlen mod 24 = 0"
      for armio ranges rlen
    proof (rule safe_bind [OF safe_kids])
      fix x :: "u32 \<times> nat" assume x: "case x of (nk, e) \<Rightarrow> e \<le> length b"
      have "ranges + 24 * (unat rlen div 24) \<le> length b"
        using prop_in_buffer [OF that(1)] that(2) by linarith
      then show "safe (enc_ok cpu_reg0) (case x of (nk, off) \<Rightarrow>
          adt_find_loop b ranges (unat rlen div 24) cpu_reg0 off (unat nk))"
        using x by (auto intro!: safe_find_loop)
    qed
    show ?thesis
      unfolding ave_adt_find_encoder_def Some
      using tail
      by (auto intro!: safe_bind [OF safe_child] safe_bind [OF safe_u32] split: cres.split)
  qed (simp add: ave_adt_find_encoder_def)
  then show ?thesis .
qed

section \<open>Trees and their serialisation\<close>

text \<open>
  The tree a well-formed buffer encodes: a node's properties, each a name, the flag in bit
  31 of its size word and its value, and its children. \<open>adt_bytes\<close> is the layout the head
  comment of \<^verbatim>\<open>ave_adt.c\<close> gives.
\<close>

datatype adt = Adt (adt_ps: "(u8 list \<times> bool \<times> u8 list) list") (adt_ks: "adt list")

definition prop_bytes :: "u8 list \<times> bool \<times> u8 list \<Rightarrow> u8 list" where
  "prop_bytes p = (case p of (nm, flag, val) \<Rightarrow>
     nm @ replicate (ADT_NAME_LEN - length nm) 0
     @ put_le32 (of_nat (length val) OR (if flag then 0x80000000 else 0))
     @ val @ replicate ((length val + 3) div 4 * 4 - length val) 0)"

fun adt_bytes :: "adt \<Rightarrow> u8 list" where
  "adt_bytes (Adt ps ks) =
     put_le32 (of_nat (length ps)) @ put_le32 (of_nat (length ks))
     @ concat (map prop_bytes ps) @ concat (map adt_bytes ks)"

definition prop_wf :: "u8 list \<times> bool \<times> u8 list \<Rightarrow> bool" where
  "prop_wf p = (case p of (nm, flag, val) \<Rightarrow>
     length nm \<le> ADT_NAME_LEN \<and> 0 \<notin> set nm \<and> length val < 2 ^ 31)"

text \<open>A tree with at most \<open>levels\<close> levels and no node over the counts the parser accepts.\<close>

primrec adt_wf :: "nat \<Rightarrow> adt \<Rightarrow> bool" where
  "adt_wf 0 t = False"
| "adt_wf (Suc levels) t =
     (length (adt_ps t) \<le> 4096 \<and> length (adt_ks t) \<le> 4096
      \<and> list_all prop_wf (adt_ps t) \<and> list_all (adt_wf levels) (adt_ks t))"

definition adt_lookup :: "adt \<Rightarrow> u8 list \<Rightarrow> u8 list option" where
  "adt_lookup t nm = map_of (map (\<lambda>(n, _, v). (n, v)) (adt_ps t)) nm"

lemma adt_bytes_unfold:
  "adt_bytes t = put_le32 (of_nat (length (adt_ps t))) @ put_le32 (of_nat (length (adt_ks t)))
     @ concat (map prop_bytes (adt_ps t)) @ concat (map adt_bytes (adt_ks t))"
  by (cases t) simp

lemma strncmp_padded:
  assumes "at b off (nm @ replicate (n - length nm) 0)" "length nm \<le> n" "0 \<notin> set nm"
    "0 \<notin> set s" "length s < n"
  shows "strncmp_eq b off s n = Ok (s = nm)"
  using assms
proof (induction s arbitrary: off nm n)
  case Nil
  then obtain m where n: "n = Suc m" by (cases n) auto
  show ?case
  proof (cases nm)
    case Nil
    then have "b ! off = 0" "off < length b"
      using Nil.prems(1) n at_nth [of b off "0 # replicate m 0" 0] at_bound [of b off "0 # replicate m 0"]
      by auto
    then show ?thesis by (simp add: n Nil rd8_def)
  next
    case (Cons c cs)
    then have "b ! off = c" "off < length b" "c \<noteq> 0"
      using Nil.prems n at_nth [of b off "c # cs @ replicate (m - length cs) 0" 0]
        at_bound [of b off "c # cs @ replicate (m - length cs) 0"] by auto
    then show ?thesis by (simp add: n Cons rd8_def)
  qed
next
  case (Cons d ds)
  then obtain m where n: "n = Suc m" by (cases n) auto
  show ?case
  proof (cases nm)
    case Nil
    then have "b ! off = 0" "off < length b"
      using Cons.prems n at_nth [of b off "0 # replicate m 0" 0] at_bound [of b off "0 # replicate m 0"]
      by auto
    then show ?thesis using Cons.prems by (auto simp add: n Nil rd8_def)
  next
    case nm: (Cons c cs)
    let ?r = "cs @ replicate (m - length cs) 0"
    have at: "at b off ([c] @ ?r)" using Cons.prems(1) by (simp add: n nm)
    then have c: "b ! off = c" "off < length b"
      using at_nth [OF at, of 0] at_bound [OF at] by auto
    have at': "at b (off + 1) ?r" using at by (simp only: at_append) simp
    have "strncmp_eq b (off + 1) ds m = Ok (ds = cs)"
      using Cons.prems by (intro Cons.IH [OF at']) (auto simp: n nm)
    then show ?thesis using c by (auto simp: n nm rd8_def)
  qed
qed

lemma size_word:
  assumes "n < 2 ^ 31"
  shows "unat ((of_nat n OR (if flag then 0x80000000 else 0)) AND 0x7fffffff :: u32) = n"
proof -
  have m: "(0x7fffffff :: u32) = mask 31" by (simp add: mask_eq_exp_minus_1)
  have h: "(0x80000000 :: u32) AND mask 31 = 0" by (simp add: mask_eq_exp_minus_1)
  have "(of_nat n OR (if flag then 0x80000000 else 0)) AND mask 31 = (of_nat n :: u32) AND mask 31"
    by (simp add: bit.conj_disj_distrib2 h)
  also have "\<dots> = of_nat n"
    using assms by (intro less_mask_eq) (simp add: word_less_nat_alt unat_of_nat_small)
  finally show ?thesis using assms by (simp add: m unat_of_nat_small)
qed


lemma length_prop_bytes:
  "prop_wf (nm, flag, val) \<Longrightarrow>
     length (prop_bytes (nm, flag, val)) = ADT_PROP_HDR + (length val + 3) div 4 * 4"
  by (auto simp: prop_bytes_def prop_wf_def ADT_PROP_HDR_def padded_ge)

lemma size_bits:
  assumes "n < 2 ^ 31"
  shows "(of_nat n OR (if flag then 0x80000000 else 0)) AND 0x7fffffff = (of_nat n :: u32)"
  using size_word [OF assms, of flag] assms by (simp add: word_unat_eq_iff unat_of_nat_small)

definition name_ok :: "u8 list option \<Rightarrow> bool" where
  "name_ok name \<longleftrightarrow> (\<forall>s. name = Some s \<longrightarrow> 0 \<notin> set s \<and> length s < ADT_NAME_LEN)"

lemma props_loop_step:
  assumes at: "at b off (prop_bytes (nm, flag, val))" and wf: "prop_wf (nm, flag, val)"
    and name: "name_ok name"
  shows "adt_props_loop b name nk (Suc i) off =
     (if name = Some nm then Ok (PropVal (off + ADT_PROP_HDR) (of_nat (length val)))
      else adt_props_loop b name nk i (off + length (prop_bytes (nm, flag, val))))"
    and "at b (off + ADT_PROP_HDR) val"
proof -
  define w :: u32 where "w = of_nat (length val) OR (if flag then 0x80000000 else 0)"
  let ?pad = "replicate ((length val + 3) div 4 * 4 - length val) 0 :: u8 list"
  have len: "length nm \<le> ADT_NAME_LEN" "0 \<notin> set nm" "length val < 2 ^ 31"
    using wf by (auto simp: prop_wf_def)
  have parts: "at b off (nm @ replicate (ADT_NAME_LEN - length nm) 0)"
    "at b (off + ADT_NAME_LEN) (put_le32 w)" "at b (off + ADT_PROP_HDR) (val @ ?pad)"
  proof -
    have "at b off ((nm @ replicate (ADT_NAME_LEN - length nm) 0) @ put_le32 w @ val @ ?pad)"
      using at by (simp add: prop_bytes_def w_def)
    then show "at b off (nm @ replicate (ADT_NAME_LEN - length nm) 0)"
      "at b (off + ADT_NAME_LEN) (put_le32 w)" "at b (off + ADT_PROP_HDR) (val @ ?pad)"
      using len unfolding at_append by (simp_all add: ADT_PROP_HDR_def at_append add.assoc)
  qed
  show "at b (off + ADT_PROP_HDR) val" using parts(3) by (simp add: at_append)
  have bound: "off + ADT_PROP_HDR + (length val + 3) div 4 * 4 \<le> length b"
    using at_bound [OF at] by (simp add: length_prop_bytes [OF wf])
  have sz: "w AND 0x7fffffff = of_nat (length val)" unfolding w_def using len(3) by (rule size_bits)
  have un: "unat (of_nat (length val) :: u32) = length val" using len(3) by (simp add: unat_of_nat_small)
  have hit: "(case name of None \<Rightarrow> Ok False | Some s \<Rightarrow> strncmp_eq b off s ADT_NAME_LEN)
      = Ok (name = Some nm)"
    using name strncmp_padded [OF parts(1) len(1,2)] by (auto simp: name_ok_def split: option.split)
  have le: "off \<le> length b" using bound by simp
  have room: "\<not> length b - off < ADT_PROP_HDR"
    "\<not> length b - (off + ADT_PROP_HDR) < (length val + 3) div 4 * 4"
    "ADT_PROP_HDR \<le> length b - off" using bound by linarith+
  show "adt_props_loop b name nk (Suc i) off =
     (if name = Some nm then Ok (PropVal (off + ADT_PROP_HDR) (of_nat (length val)))
      else adt_props_loop b name nk i (off + length (prop_bytes (nm, flag, val))))"
    by (simp add: le at_put_le32 [OF parts(2)] Let_def sz un room hit length_prop_bytes [OF wf])
qed

lemma props_loop_end:
  assumes "at b off (concat (map prop_bytes ps))" "list_all prop_wf ps"
  shows "adt_props_loop b None nk (length ps) off =
     Ok (PropEnd nk (off + length (concat (map prop_bytes ps))))"
  using assms
proof (induction ps arbitrary: off)
  case (Cons p ps)
  obtain nm flag val where p: "p = (nm, flag, val)" by (metis prod.exhaust)
  have at: "at b off (prop_bytes p)" "at b (off + length (prop_bytes p)) (concat (map prop_bytes ps))"
    using Cons.prems(1) by (simp_all add: at_append)
  show ?case
    using props_loop_step(1) [OF at(1) [unfolded p], of None nk "length ps"] Cons.prems
      Cons.IH [OF at(2)]
    by (simp add: p name_ok_def add.assoc)
qed simp

lemma props_loop_find:
  assumes "at b off (concat (map prop_bytes ps))" "list_all prop_wf ps"
    "0 \<notin> set s" "length s < ADT_NAME_LEN"
  shows "case map_of (map (\<lambda>(n, _, v). (n, v)) ps) s of
      None \<Rightarrow> adt_props_loop b (Some s) nk (length ps) off = Err ENOENT
    | Some v \<Rightarrow> \<exists>o'. adt_props_loop b (Some s) nk (length ps) off = Ok (PropVal o' (of_nat (length v)))
        \<and> at b o' v \<and> length v < 2 ^ 31"
  using assms
proof (induction ps arbitrary: off)
  case (Cons p ps)
  obtain nm flag val where p: "p = (nm, flag, val)" by (metis prod.exhaust)
  have at: "at b off (prop_bytes p)" "at b (off + length (prop_bytes p)) (concat (map prop_bytes ps))"
    using Cons.prems(1) by (simp_all add: at_append)
  have wf: "prop_wf (nm, flag, val)" using Cons.prems(2) p by simp
  have nok: "name_ok (Some s)" using Cons.prems(3,4) by (simp add: name_ok_def)
  note step = props_loop_step [OF at(1) [unfolded p] wf nok]
  show ?case
  proof (cases "s = nm")
    case True
    then show ?thesis using step wf by (auto simp: p prop_wf_def simp del: adt_props_loop.simps)
  next
    case False
    then show ?thesis
      using step(1) [of nk "length ps"] Cons.IH [OF at(2)] Cons.prems
      by (auto simp: p simp del: adt_props_loop.simps split: option.splits)
  qed
qed simp


definition node_hdr :: "adt \<Rightarrow> nat" where
  "node_hdr t = 8 + length (concat (map prop_bytes (adt_ps t)))"

lemma node_at:
  assumes "at b off (adt_bytes t)"
  shows "rd_le32 b off = Ok (of_nat (length (adt_ps t)))"
    and "rd_le32 b (off + 4) = Ok (of_nat (length (adt_ks t)))"
    and "at b (off + 8) (concat (map prop_bytes (adt_ps t)))"
    and "at b (off + node_hdr t) (concat (map adt_bytes (adt_ks t)))"
    and "off + 8 \<le> length b"
proof -
  have at: "at b off (put_le32 (of_nat (length (adt_ps t))) @ put_le32 (of_nat (length (adt_ks t)))
     @ concat (map prop_bytes (adt_ps t)) @ concat (map adt_bytes (adt_ks t)))"
    using assms by (simp add: adt_bytes_unfold)
  then have p: "at b off (put_le32 (of_nat (length (adt_ps t))))"
    "at b (off + 4) (put_le32 (of_nat (length (adt_ks t))))"
    "at b (off + 8) (concat (map prop_bytes (adt_ps t)))"
    "at b (off + 8 + length (concat (map prop_bytes (adt_ps t)))) (concat (map adt_bytes (adt_ks t)))"
    by (simp_all add: at_append add.assoc)
  show "rd_le32 b off = Ok (of_nat (length (adt_ps t)))"
    "rd_le32 b (off + 4) = Ok (of_nat (length (adt_ks t)))"
    using p(1,2) by (simp_all add: at_put_le32)
  show "at b (off + 8) (concat (map prop_bytes (adt_ps t)))" by (rule p(3))
  show "at b (off + node_hdr t) (concat (map adt_bytes (adt_ks t)))"
    using p(4) by (simp add: node_hdr_def add.assoc)
  show "off + 8 \<le> length b" using at_bound [OF p(3)] by simp
qed

lemma unat_count: "n \<le> 4096 \<Longrightarrow> unat (of_nat n :: u32) = n"
  by (simp add: unat_of_nat_small)

lemma props_at:
  assumes "at b off (adt_bytes t)" "adt_wf l t"
  shows "adt_props b off name =
     adt_props_loop b name (of_nat (length (adt_ks t))) (length (adt_ps t)) (off + 8)"
proof -
  have c: "length (adt_ps t) \<le> 4096" "length (adt_ks t) \<le> 4096"
    using assms(2) by (cases l; simp)+
  have le: "\<not> length b < off" "off \<le> length b" "\<not> length b - off < 8" using node_at(5) [OF assms(1)] by linarith+
  have m: "\<not> ADT_MAX_COUNT < of_nat (length (adt_ps t))" "\<not> ADT_MAX_COUNT < of_nat (length (adt_ks t))"
    using c by (simp_all add: ADT_MAX_COUNT_def word_less_nat_alt unat_count)
  show ?thesis
    by (simp add: adt_props_def le node_at(1,2) [OF assms(1)] m unat_count c)
qed

lemma kids_at:
  assumes "at b off (adt_bytes t)" "adt_wf l t"
  shows "adt_kids b off = Ok (of_nat (length (adt_ks t)), off + node_hdr t)"
proof -
  have "list_all prop_wf (adt_ps t)" using assms(2) by (cases l) auto
  then show ?thesis
    using props_at [OF assms, of None] props_loop_end [OF node_at(3) [OF assms(1)]]
    by (simp add: adt_kids_def node_hdr_def add.assoc)
qed

lemma prop_at:
  assumes "at b off (adt_bytes t)" "adt_wf l t" "0 \<notin> set s" "length s < ADT_NAME_LEN"
  shows "case adt_lookup t s of
      None \<Rightarrow> adt_prop b off s = Err ENOENT
    | Some v \<Rightarrow> \<exists>o'. adt_prop b off s = Ok (o', of_nat (length v)) \<and> at b o' v \<and> length v < 2 ^ 31"
proof -
  have "list_all prop_wf (adt_ps t)" using assms(2) by (cases l) auto
  then show ?thesis
    using props_at [OF assms(1,2), of "Some s"]
      props_loop_find [OF node_at(3) [OF assms(1)] _ assms(3,4), of "of_nat (length (adt_ks t))"]
    by (auto simp: adt_prop_def adt_lookup_def split: option.splits)
qed

lemma repeat_kids:
  assumes "at b off (concat (map adt_bytes ks))"
    "\<And>k o'. k \<in> set ks \<Longrightarrow> at b o' (adt_bytes k) \<Longrightarrow> f o' = Ok (o' + length (adt_bytes k))"
  shows "repeat_c (length ks) f off = Ok (off + length (concat (map adt_bytes ks)))"
  using assms
proof (induction ks arbitrary: off)
  case (Cons k ks)
  have at: "at b off (adt_bytes k)" "at b (off + length (adt_bytes k)) (concat (map adt_bytes ks))"
    using Cons.prems(1) by (simp_all add: at_append)
  then have "f off = Ok (off + length (adt_bytes k))" using Cons.prems(2) by simp
  then show ?case using Cons.IH [OF at(2)] Cons.prems(2) by (simp add: add.assoc)
qed simp

lemma subtree_at:
  "at b off (adt_bytes t) \<Longrightarrow> adt_wf levels t \<Longrightarrow>
     adt_subtree_end b levels off = Ok (off + length (adt_bytes t))"
proof (induction levels arbitrary: off t)
  case (Suc levels)
  have len: "length (adt_bytes t) = node_hdr t + length (concat (map adt_bytes (adt_ks t)))"
    by (simp add: adt_bytes_unfold node_hdr_def)
  have "repeat_c (length (adt_ks t)) (adt_subtree_end b levels) (off + node_hdr t)
      = Ok (off + node_hdr t + length (concat (map adt_bytes (adt_ks t))))"
    using Suc.prems by (intro repeat_kids node_at(4) Suc.IH) (auto simp: list_all_iff)
  then show ?case
    using kids_at [OF Suc.prems] Suc.prems(2) by (simp add: len unat_count add.assoc)
qed simp

lemma adt_wf_mono: "adt_wf l t \<Longrightarrow> l \<le> l' \<Longrightarrow> adt_wf l' t"
proof (induction l arbitrary: l' t)
  case (Suc l)
  then obtain m where "l' = Suc m" "l \<le> m" by (cases l') auto
  then show ?case using Suc by (auto simp: list_all_iff)
qed simp

section \<open>Finding the encoder in a tree\<close>

definition tree_name :: "adt \<Rightarrow> u8 list" where
  "tree_name t =
     (case adt_lookup t (cstr ''name'') of
        None \<Rightarrow> replicate 32 0
      | Some v \<Rightarrow> take 31 v @ replicate (32 - min 31 (length v)) 0)"

definition tree_u32 :: "adt \<Rightarrow> string \<Rightarrow> u32" where
  "tree_u32 t nm =
     (case adt_lookup t (cstr nm) of
        None \<Rightarrow> 0 | Some v \<Rightarrow> if length v < 4 then 0 else get_le32 v 0)"

text \<open>Bus addresses through the ranges: the first window that holds the address.\<close>

definition windows :: "u8 list \<Rightarrow> (u64 \<times> u64 \<times> u64) list" where
  "windows v = map (\<lambda>j. (get_le64 v (24 * j), get_le64 v (24 * j + 8), get_le64 v (24 * j + 16)))
     [0..<length v div 24]"

definition through :: "(u64 \<times> u64 \<times> u64) list \<Rightarrow> u64 \<Rightarrow> u64 option" where
  "through win bus =
     map_option (\<lambda>(c, p, s). p + (bus - c)) (find (\<lambda>(c, p, s). c \<le> bus \<and> bus - c < s) win)"

definition tree_is_encoder :: "(u64 \<times> u64 \<times> u64) list \<Rightarrow> u64 \<Rightarrow> adt \<Rightarrow> bool" where
  "tree_is_encoder win cpu t \<longleftrightarrow>
     adt_is_encoder_name (tree_name t)
     \<and> (case adt_lookup t (cstr ''reg'') of
          None \<Rightarrow> False
        | Some v \<Rightarrow> 16 \<le> length v \<and> through win (get_le64 v 0) = Some cpu)"

definition seg_of :: "u8 list \<Rightarrow> nat \<Rightarrow> ave_adt_seg" where
  "seg_of v j = \<lparr>s_phys = get_le64 v (32 * j), s_iova = get_le64 v (32 * j + 8),
     s_remap = get_le64 v (32 * j + 16), s_size = get_le32 v (32 * j + 24),
     s_flags = get_le32 v (32 * j + 28)\<rparr>"

text \<open>What becomes of the tree's \<open>pre-loaded\<close> property is a parameter of the reference
  search: \<open>flag v\<close> says whether a property of value \<open>v\<close> makes the node a pre-loaded one. The
  header's documentation is \<open>nonzero\<close>: present and not 0.\<close>

definition tree_placement :: "(u8 list \<Rightarrow> bool) \<Rightarrow> adt \<Rightarrow> u64 \<Rightarrow> ave_adt_enc cres" where
  "tree_placement flag t cpu =
     (let enc = \<lparr>e_name = tree_name t, e_reg0 = cpu,
                 e_preloaded = (case adt_lookup t (cstr ''pre-loaded'') of
                                  None \<Rightarrow> False | Some v \<Rightarrow> flag v), e_seg = []\<rparr> in
      case adt_lookup t (cstr ''segment-ranges'') of
        None \<Rightarrow> Ok enc
      | Some v \<Rightarrow>
          if length v mod 32 \<noteq> 0 \<or> 4 < length v div 32 then Err EINVAL
          else Ok (enc\<lparr>e_seg := map (seg_of v) [0..<length v div 32]\<rparr>))"

definition tree_find_by :: "(u8 list \<Rightarrow> bool) \<Rightarrow> adt \<Rightarrow> u64 \<Rightarrow> ave_adt_enc cres" where
  "tree_find_by flag t cpu =
     (case find (\<lambda>k. c_str (tree_name k) = cstr ''arm-io'') (adt_ks t) of
        None \<Rightarrow> Err ENOENT
      | Some a \<Rightarrow>
          if tree_u32 t ''#address-cells'' \<noteq> 2 \<or> tree_u32 a ''#address-cells'' \<noteq> 2
             \<or> tree_u32 a ''#size-cells'' \<noteq> 2 then Err EINVAL
          else case adt_lookup a (cstr ''ranges'') of
            None \<Rightarrow> Err EINVAL
          | Some v \<Rightarrow>
              if length v mod 24 \<noteq> 0 then Err EINVAL
              else case find (tree_is_encoder (windows v) cpu) (adt_ks a) of
                None \<Rightarrow> Err ENOENT
              | Some k \<Rightarrow> tree_placement flag k cpu)"

definition nonzero :: "u8 list \<Rightarrow> bool" where
  "nonzero v \<longleftrightarrow> (\<exists>x\<in>set v. x \<noteq> 0)"

definition tree_find_encoder :: "adt \<Rightarrow> u64 \<Rightarrow> ave_adt_enc cres" where
  "tree_find_encoder = tree_find_by nonzero"

text \<open>The trees of the machines: a \<open>pre-loaded\<close> property of a child of \<open>/arm-io\<close>, where there
  is one, is not 0.\<close>

definition preloaded_set :: "adt \<Rightarrow> bool" where
  "preloaded_set t \<longleftrightarrow>
     (\<forall>a\<in>set (adt_ks t). \<forall>k\<in>set (adt_ks a).
        case adt_lookup k (cstr ''pre-loaded'') of None \<Rightarrow> True | Some v \<Rightarrow> nonzero v)"

definition but_preloaded :: "ave_adt_enc cres \<Rightarrow> ave_adt_enc cres" where
  "but_preloaded r = (case r of Ok e \<Rightarrow> Ok (e\<lparr>e_preloaded := False\<rparr>) | Err x \<Rightarrow> Err x | Fault \<Rightarrow> Fault)"


section \<open>The parser finds what the tree holds\<close>

lemma cstr_names [simp]:
  "0 \<notin> set (cstr ''name'')" "0 \<notin> set (cstr ''reg'')" "0 \<notin> set (cstr ''ranges'')"
  "0 \<notin> set (cstr ''pre-loaded'')" "0 \<notin> set (cstr ''segment-ranges'')"
  "0 \<notin> set (cstr ''#address-cells'')" "0 \<notin> set (cstr ''#size-cells'')"
  "length (cstr nm) = length nm"
  by (simp_all add: cstr_def)

lemma name_at:
  assumes "at b off (adt_bytes t)" "adt_wf l t"
  shows "adt_name b off = Ok (tree_name t)"
proof (cases "adt_lookup t (cstr ''name'')")
  case None
  then show ?thesis
    using prop_at [OF assms, of "cstr ''name''"]
    by (simp add: adt_name_def tree_name_def ADT_NAME_LEN_def)
next
  case (Some v)
  then obtain o' where o': "adt_prop b off (cstr ''name'') = Ok (o', of_nat (length v))" "at b o' v"
    "length v < 2 ^ 31"
    using prop_at [OF assms, of "cstr ''name''"] by (auto simp: ADT_NAME_LEN_def)
  have un: "unat (of_nat (length v) :: u32) = length v" using o'(3) by (simp add: unat_of_nat_small)
  have "31 < length v \<Longrightarrow> rd_bytes b o' 31 = Ok (take 31 v)" "rd_bytes b o' (length v) = Ok v"
    using at_rd_bytes [OF o'(2), of 31] at_rd_bytes [OF o'(2), of "length v"] by simp_all
  then show ?thesis
    using Some o'(1) by (simp add: adt_name_def tree_name_def un ADT_NAME_LEN_def min_def not_less)
qed

lemma u32_at:
  assumes "at b off (adt_bytes t)" "adt_wf l t" "0 \<notin> set (cstr nm)" "length nm < 32"
  shows "adt_u32 b off (cstr nm) 0 = Ok (tree_u32 t nm)"
proof -
  have l: "length (cstr nm) < ADT_NAME_LEN" using assms(4) by (simp add: ADT_NAME_LEN_def)
  show ?thesis
    using prop_at [OF assms(1-3) l]
    by (auto simp: adt_u32_def tree_u32_def word_less_nat_alt unat_of_nat_small
        dest: at_rd_le32 [where i = 0] split: option.splits)
qed

lemma child_loop_at:
  assumes "at b off (concat (map adt_bytes ks))" "\<And>k. k \<in> set ks \<Longrightarrow> adt_wf (16 - depth) k"
  shows "case find (\<lambda>k. c_str (tree_name k) = nm) ks of
      None \<Rightarrow> adt_child_loop b off depth nm (length ks) = Err ENOENT
    | Some k \<Rightarrow> \<exists>o'. adt_child_loop b off depth nm (length ks) = Ok o' \<and> at b o' (adt_bytes k)"
  using assms
proof (induction ks arbitrary: off)
  case (Cons k ks)
  have at: "at b off (adt_bytes k)" "at b (off + length (adt_bytes k)) (concat (map adt_bytes ks))"
    using Cons.prems(1) by (simp_all add: at_append)
  have wf: "adt_wf (16 - depth) k" using Cons.prems(2) by simp
  have e: "adt_node_end b off (depth + 1) = Ok (off + length (adt_bytes k))"
    using subtree_at [OF at(1) wf] by (simp add: adt_node_end_def ADT_MAX_DEPTH_def)
  have "adt_child_loop b off depth nm (length (k # ks)) =
      (if c_str (tree_name k) = nm then Ok off
       else adt_child_loop b (off + length (adt_bytes k)) depth nm (length ks))"
    by (simp add: name_at [OF at(1) wf] e [simplified])
  then show ?case
    using Cons.IH [OF at(2)] Cons.prems(2) at(1) by (auto split: option.splits)
qed simp

lemma translate_at:
  assumes "at b o' v" "24 * (i + j) \<le> length v"
  shows "adt_translate b (o' + 24 * i) j bus = Ok (through
     (map (\<lambda>j. (get_le64 v (24 * j), get_le64 v (24 * j + 8), get_le64 v (24 * j + 16))) [i..<i + j]) bus)"
  using assms(2)
proof (induction j arbitrary: i)
  case 0
  then show ?case by (simp add: through_def)
next
  case (Suc j)
  have rd: "rd_le64 b (o' + 24 * i + x) = Ok (get_le64 v (24 * i + x))" if "x \<le> 16" for x
    using at_rd_le64 [OF assms(1), of "24 * i + x"] Suc.prems that by (simp add: add.assoc)
  have up: "[i..<Suc (i + j)] = i # [Suc i..<Suc (i + j)]" by (rule upt_conv_Cons) simp
  have ih: "adt_translate b (o' + 24 * i + 24) j bus = Ok (through
     (map (\<lambda>j. (get_le64 v (24 * j), get_le64 v (24 * j + 8), get_le64 v (24 * j + 16)))
       [Suc i..<Suc (i + j)]) bus)"
    using Suc.IH [of "Suc i"] Suc.prems by (simp add: add.commute add.left_commute del: upt_Suc)
  show ?case
    using rd [of 0] rd [of 8] rd [of 16]
    by (simp add: up ih through_def del: upt_Suc)
qed

lemma segs_at:
  assumes "at b o' v" "32 * (i + j) \<le> length v"
  shows "adt_segs b (o' + 32 * i) j = Ok (map (seg_of v) [i..<i + j])"
  using assms(2)
proof (induction j arbitrary: i)
  case 0
  then show ?case by simp
next
  case (Suc j)
  have rd: "rd_le64 b (o' + 32 * i + x) = Ok (get_le64 v (32 * i + x))" if "x \<le> 16" for x
    using at_rd_le64 [OF assms(1), of "32 * i + x"] Suc.prems that by (simp add: add.assoc)
  have rd32: "rd_le32 b (o' + 32 * i + x) = Ok (get_le32 v (32 * i + x))" if "x \<le> 28" for x
    using at_rd_le32 [OF assms(1), of "32 * i + x"] Suc.prems that by (simp add: add.assoc)
  have up: "[i..<Suc (i + j)] = i # [Suc i..<Suc (i + j)]" by (rule upt_conv_Cons) simp
  have ih: "adt_segs b (o' + 32 * i + 32) j = Ok (map (seg_of v) [Suc i..<Suc i + j])"
    using Suc.IH [of "Suc i"] Suc.prems by (simp add: add.commute add.left_commute del: upt_Suc)
  show ?case
    using rd [of 0] rd [of 8] rd [of 16] rd32 [of 24] rd32 [of 28]
    by (simp add: up seg_of_def ih del: upt_Suc)
qed


lemma placement_at:
  assumes "at b off (adt_bytes t)" "adt_wf l t"
  shows "adt_placement b off (tree_name t) cpu = tree_placement (\<lambda>_. True) t cpu"
proof -
  have pre: "case adt_lookup t (cstr ''pre-loaded'') of
      None \<Rightarrow> adt_prop b off (cstr ''pre-loaded'') = Err ENOENT
    | Some v \<Rightarrow> \<exists>o'. adt_prop b off (cstr ''pre-loaded'') = Ok o'"
    using prop_at [OF assms, of "cstr ''pre-loaded''"]
    by (auto simp: ADT_NAME_LEN_def split: option.splits)
  show ?thesis
  proof (cases "adt_lookup t (cstr ''segment-ranges'')")
    case None
    then show ?thesis
      using prop_at [OF assms, of "cstr ''segment-ranges''"] pre
      by (auto simp: adt_placement_def tree_placement_def Let_def ADT_NAME_LEN_def split: option.splits)
  next
    case (Some v)
    then obtain o' where o': "adt_prop b off (cstr ''segment-ranges'') = Ok (o', of_nat (length v))"
      "at b o' v" "length v < 2 ^ 31"
      using prop_at [OF assms, of "cstr ''segment-ranges''"] by (auto simp: ADT_NAME_LEN_def)
    have un: "unat (of_nat (length v) :: u32) = length v" using o'(3) by (simp add: unat_of_nat_small)
    have "adt_segs b o' (length v div 32) = Ok (map (seg_of v) [0..<length v div 32])"
      using segs_at [OF o'(2), of 0 "length v div 32"] by simp
    then show ?thesis
      using Some o'(1) pre
      by (auto simp: adt_placement_def tree_placement_def Let_def un AVE_ADT_MAX_SEGS_def
          split: option.splits)
  qed
qed

lemma find_loop_at:
  assumes rng: "at b ro rv" "24 * nr \<le> length rv" "nr = length rv div 24"
    and "at b off (concat (map adt_bytes ks))" "\<And>k. k \<in> set ks \<Longrightarrow> adt_wf 15 k"
  shows "adt_find_loop b ro nr cpu off (length ks) =
    (case find (tree_is_encoder (windows rv) cpu) ks of
       None \<Rightarrow> Err ENOENT | Some k \<Rightarrow> tree_placement (\<lambda>_. True) k cpu)"
  using assms(4,5)
proof (induction ks arbitrary: off)
  case Nil
  then show ?case by simp
next
  case (Cons k ks)
  have at: "at b off (adt_bytes k)" "at b (off + length (adt_bytes k)) (concat (map adt_bytes ks))"
    using Cons.prems(1) by (simp_all add: at_append)
  have wf: "adt_wf 15 k" using Cons.prems(2) by simp
  have e: "adt_node_end b off 2 = Ok (off + length (adt_bytes k))"
    using subtree_at [OF at(1) wf] by (simp add: adt_node_end_def ADT_MAX_DEPTH_def)
  have tr: "adt_translate b ro nr bus = Ok (through (windows rv) bus)" for bus
    using translate_at [OF rng(1), of 0 nr bus] rng(2,3) by (simp add: windows_def)
  have rest: "adt_find_loop b ro nr cpu (off + length (adt_bytes k)) (length ks) =
    (case find (tree_is_encoder (windows rv) cpu) ks of
       None \<Rightarrow> Err ENOENT | Some k \<Rightarrow> tree_placement (\<lambda>_. True) k cpu)"
    using Cons.IH [OF at(2)] Cons.prems(2) by simp
  show ?case
  proof (cases "adt_lookup k (cstr ''reg'')")
    case None
    then have "adt_prop b off (cstr ''reg'') = Err ENOENT"
      using prop_at [OF at(1) wf, of "cstr ''reg''"] by (simp add: ADT_NAME_LEN_def)
    then show ?thesis
      using None rest by (simp add: name_at [OF at(1) wf] e tree_is_encoder_def [of _ _ k])
  next
    case (Some v)
    then obtain o' where o': "adt_prop b off (cstr ''reg'') = Ok (o', of_nat (length v))"
      "at b o' v" "length v < 2 ^ 31"
      using prop_at [OF at(1) wf, of "cstr ''reg''"] by (auto simp: ADT_NAME_LEN_def)
    have small: "(of_nat (length v) < (16 :: u32)) = (length v < 16)"
      using o'(3) by (simp add: word_less_nat_alt unat_of_nat_small)
    have rd: "16 \<le> length v \<Longrightarrow> rd_le64 b o' = Ok (get_le64 v 0)"
      using at_rd_le64 [OF o'(2), of 0] by simp
    show ?thesis
      using Some o'(1) rest rd
      by (auto simp: name_at [OF at(1) wf] e tree_is_encoder_def [of _ _ k] small tr
          placement_at [OF at(1) wf] not_less)
  qed
qed

lemma adt_wf_SucD:
  assumes "adt_wf (Suc l) t"
  shows "length (adt_ks t) \<le> 4096" "k \<in> set (adt_ks t) \<Longrightarrow> adt_wf l k"
  using assms by (auto simp: list_all_iff)

lemma adt_wf_17:
  assumes "adt_wf 17 t"
  shows "length (adt_ks t) \<le> 4096" "k \<in> set (adt_ks t) \<Longrightarrow> adt_wf 16 k"
proof -
  have "adt_wf (Suc 16) t" using assms by simp
  then show "length (adt_ks t) \<le> 4096" "k \<in> set (adt_ks t) \<Longrightarrow> adt_wf 16 k"
    by (rule adt_wf_SucD)+
qed

lemma adt_wf_16:
  assumes "adt_wf 16 t"
  shows "length (adt_ks t) \<le> 4096" "k \<in> set (adt_ks t) \<Longrightarrow> adt_wf 15 k"
proof -
  have "adt_wf (Suc 15) t" using assms by simp
  then show "length (adt_ks t) \<le> 4096" "k \<in> set (adt_ks t) \<Longrightarrow> adt_wf 15 k"
    by (rule adt_wf_SucD)+
qed

lemma find_in_set: "find P xs = Some x \<Longrightarrow> x \<in> set xs"
  by (auto simp: find_Some_iff)

lemma arm_io_at:
  assumes "at b 0 (adt_bytes t)" "adt_wf 17 t"
  shows "case find (\<lambda>k. c_str (tree_name k) = cstr ''arm-io'') (adt_ks t) of
      None \<Rightarrow> adt_child b 0 0 (cstr ''arm-io'') = Err ENOENT
    | Some k \<Rightarrow> \<exists>o'. adt_child b 0 0 (cstr ''arm-io'') = Ok o' \<and> at b o' (adt_bytes k) \<and> adt_wf 16 k"
proof -
  have wf: "adt_wf (16 - 0) k" if "k \<in> set (adt_ks t)" for k
    using adt_wf_17(2) [OF assms(2) that] by simp
  have ch: "adt_child b 0 0 (cstr ''arm-io'') =
      adt_child_loop b (0 + node_hdr t) 0 (cstr ''arm-io'') (length (adt_ks t))"
    using adt_wf_17(1) [OF assms(2)] by (simp add: adt_child_def kids_at [OF assms] unat_count)
  show ?thesis
    using child_loop_at [OF node_at(4) [OF assms(1)] wf, of "cstr ''arm-io''"]
      adt_wf_17(2) [OF assms(2)]
    unfolding ch by (auto split: option.splits dest: find_in_set)
qed

lemma find_encoder_at:
  assumes "adt_wf 17 t"
  shows "ave_adt_find_encoder (Some (adt_bytes t @ rest)) cpu = tree_find_by (\<lambda>_. True) t cpu"
proof -
  let ?b = "adt_bytes t @ rest"
  have at: "at ?b 0 (adt_bytes t)" using at_refl [of "[]" "adt_bytes t" rest] by simp
  have len: "\<not> length ?b < 8" using node_at(5) [OF at] by simp
  show ?thesis
  proof (cases "find (\<lambda>k. c_str (tree_name k) = cstr ''arm-io'') (adt_ks t)")
    case None
    then show ?thesis
      using arm_io_at [OF at assms] len
      by (simp add: ave_adt_find_encoder_def tree_find_by_def)
  next
    case (Some a)
    then obtain ao where ao: "adt_child ?b 0 0 (cstr ''arm-io'') = Ok ao" "at ?b ao (adt_bytes a)"
      "adt_wf 16 a"
      using arm_io_at [OF at assms] by auto
    have u: "adt_u32 ?b 0 (cstr ''#address-cells'') 0 = Ok (tree_u32 t ''#address-cells'')"
      "adt_u32 ?b ao (cstr ''#address-cells'') 0 = Ok (tree_u32 a ''#address-cells'')"
      "adt_u32 ?b ao (cstr ''#size-cells'') 0 = Ok (tree_u32 a ''#size-cells'')"
      by (rule u32_at [OF at assms] u32_at [OF ao(2,3)]; simp)+
    note wf = adt_wf_16(2) [OF ao(3)] and n = adt_wf_16(1) [OF ao(3)]
    show ?thesis
    proof (cases "adt_lookup a (cstr ''ranges'')")
      case None
      then have "adt_prop ?b ao (cstr ''ranges'') = Err ENOENT"
        using prop_at [OF ao(2,3), of "cstr ''ranges''"] by (simp add: ADT_NAME_LEN_def)
      then show ?thesis
        using len Some None ao(1) u by (simp add: ave_adt_find_encoder_def tree_find_by_def)
    next
      case (Some v)
      then obtain vo where vo: "adt_prop ?b ao (cstr ''ranges'') = Ok (vo, of_nat (length v))"
        "at ?b vo v" "length v < 2 ^ 31"
        using prop_at [OF ao(2,3), of "cstr ''ranges''"] by (auto simp: ADT_NAME_LEN_def)
      have un: "unat (of_nat (length v) :: u32) = length v"
        using vo(3) by (simp add: unat_of_nat_small)
      have loop: "adt_find_loop ?b vo (length v div 24) cpu (ao + node_hdr a) (length (adt_ks a)) =
        (case find (tree_is_encoder (windows v) cpu) (adt_ks a) of
           None \<Rightarrow> Err ENOENT | Some k \<Rightarrow> tree_placement (\<lambda>_. True) k cpu)"
        by (rule find_loop_at [OF vo(2) _ refl node_at(4) [OF ao(2)] wf]) simp_all
      show ?thesis
        using len \<open>find _ _ = Some a\<close> Some ao(1) u vo(1)
        by (simp add: ave_adt_find_encoder_def tree_find_by_def un kids_at [OF ao(2,3)]
            unat_count [OF n] loop)
    qed
  qed
qed


section \<open>Properties\<close>

text \<open>C1. The ADT parser never reads outside the buffer it is given, and none of its
  \<open>size_t\<close> subtractions wraps, for any bytes whatsoever and for a null pointer. When it
  returns a placement, that is of the encoder asked for, under a name \<open>ave\<close> and digits, with
  no more segments than \<open>seg[]\<close> holds.\<close>

theorem adt_parser_memory_safe:
  "case ave_adt_find_encoder buf cpu_reg0 of
     Fault \<Rightarrow> False
   | Err _ \<Rightarrow> True
   | Ok e \<Rightarrow> length (e_name e) = ADT_NAME_LEN \<and> adt_is_encoder_name (e_name e)
             \<and> e_reg0 e = cpu_reg0 \<and> length (e_seg e) \<le> AVE_ADT_MAX_SEGS"
  using find_encoder_safe [of cpu_reg0 buf] by (auto simp: safe_def enc_ok_def split: cres.splits)

text \<open>The documented flag and the code's, which is presence, part only where the value is 0.\<close>

lemma find_placement:
  "tree_find_by f t cpu = tree_find_by g t cpu
     \<or> (\<exists>a\<in>set (adt_ks t). \<exists>k\<in>set (adt_ks a).
          tree_find_by f t cpu = tree_placement f k cpu \<and> tree_find_by g t cpu = tree_placement g k cpu)"
  by (auto simp: tree_find_by_def split: option.splits dest!: find_in_set)

lemma placement_flag:
  assumes "case adt_lookup k (cstr ''pre-loaded'') of None \<Rightarrow> True | Some v \<Rightarrow> f v = g v"
  shows "tree_placement f k cpu = tree_placement g k cpu"
  using assms by (simp add: tree_placement_def split: option.splits)

lemma placement_but: "but_preloaded (tree_placement f k cpu) = but_preloaded (tree_placement g k cpu)"
  by (simp add: tree_placement_def but_preloaded_def Let_def split: option.splits)

lemma find_flag:
  assumes "preloaded_set t"
  shows "tree_find_by (\<lambda>_. True) t cpu = tree_find_encoder t cpu"
  using find_placement [of "\<lambda>_. True" t cpu nonzero] assms
  by (auto simp: tree_find_encoder_def preloaded_set_def intro!: placement_flag split: option.splits)

lemma find_but: "but_preloaded (tree_find_by f t cpu) = but_preloaded (tree_find_by g t cpu)"
  using find_placement [of f t cpu g] by (auto simp: placement_but [of f _ cpu g])

text \<open>C4. On the serialisation of a tree (no deeper than the parser's limit, no node over its
  counts, whatever follows it in memory) the parser returns exactly what the tree holds: the
  first child of \<open>/arm-io\<close> that is an encoder whose \<open>reg\<close> translates through the ranges to
  the address asked for, with its segments, and otherwise the error the tree calls for. The flag
  \<open>preloaded\<close> too is the documented one ("present and not 0") on a tree where no \<open>pre-loaded\<close>
  property of an \<open>/arm-io\<close> child is 0; on a tree where one is, everything but that flag is as
  the tree has it (the code looks at the presence alone: a finding).\<close>

theorem adt_parser_refines_tree:
  assumes "adt_wf 17 t"
  shows "but_preloaded (ave_adt_find_encoder (Some (adt_bytes t @ rest)) cpu)
           = but_preloaded (tree_find_encoder t cpu)
         \<and> (preloaded_set t
             \<longrightarrow> ave_adt_find_encoder (Some (adt_bytes t @ rest)) cpu = tree_find_encoder t cpu)"
  using find_encoder_at [OF assms] find_flag [of t cpu]
    find_but [of "\<lambda>_. True" t cpu nonzero] by (simp add: tree_find_encoder_def)

definition example_encoder :: "u8 list \<Rightarrow> adt" where
  "example_encoder pre =
     Adt [(cstr ''name'', False, cstr ''ave0'' @ [0]),
          (cstr ''reg'', False, put_le64 0x10D100000 @ put_le64 0x45C000),
          (cstr ''pre-loaded'', True, pre),
          (cstr ''segment-ranges'', False,
           put_le64 0x10000000000 @ put_le64 0 @ put_le64 0 @ put_le32 0x4000 @ put_le32 1)] []"

definition example_tree :: "u8 list \<Rightarrow> adt" where
  "example_tree pre =
     Adt [(cstr ''#address-cells'', False, put_le32 2)]
       [Adt [(cstr ''name'', False, cstr ''chosen'')] [],
        Adt [(cstr ''name'', False, cstr ''arm-io'' @ [0]),
             (cstr ''#address-cells'', False, put_le32 2), (cstr ''#size-cells'', False, put_le32 2),
             (cstr ''ranges'', False, put_le64 0 @ put_le64 0x300000000 @ put_le64 0x400000000)]
          [Adt [(cstr ''name'', False, cstr ''avd0'')] [], example_encoder pre]]"

lemma example_wf3: "length pre < 2 ^ 31 \<Longrightarrow> adt_wf (Suc (Suc (Suc 0))) (example_tree pre)"
  by (simp add: example_tree_def example_encoder_def prop_wf_def ADT_NAME_LEN_def cstr_def)
lemma example_wf: "length pre < 2 ^ 31 \<Longrightarrow> adt_wf 17 (example_tree pre)"
  by (rule adt_wf_mono [OF example_wf3]) simp_all

lemma example_reg: "adt_lookup (example_encoder pre) (cstr ''reg'') = Some (put_le64 0x10D100000 @ put_le64 0x45C000)"
  by (simp add: adt_lookup_def example_encoder_def cstr_inject)
lemma example_name: "tree_name (example_encoder pre) = cstr ''ave0'' @ replicate 28 0"
  by (simp add: tree_name_def adt_lookup_def example_encoder_def cstr_inject cstr_def numeral_eq_Suc)


lemma example_names:
  "c_str (tree_name (Adt [(cstr ''name'', False, cstr ''chosen'')] [])) = cstr ''chosen''"
  "c_str (tree_name (Adt [(cstr ''name'', False, cstr ''avd0'')] [])) = cstr ''avd0''"
  "c_str (tree_name (Adt ((cstr ''name'', False, cstr ''arm-io'' @ [0]) # ps) ks)) = cstr ''arm-io''"
  "c_str (tree_name (example_encoder pre)) = cstr ''ave0''"
  by (simp_all add: tree_name_def adt_lookup_def example_encoder_def cstr_inject cstr_def c_str_def)
lemma example_result:
  "tree_find_by flag (example_tree pre) 0x40D100000 =
     Ok \<lparr>e_name = cstr ''ave0'' @ replicate 28 0, e_reg0 = 0x40D100000, e_preloaded = flag pre,
         e_seg = [\<lparr>s_phys = 0x10000000000, s_iova = 0, s_remap = 0, s_size = 0x4000, s_flags = 1\<rparr>]\<rparr>"
proof -
  have enc: "adt_is_encoder_name (tree_name (example_encoder pre))"
    "\<not> adt_is_encoder_name (tree_name (Adt [(cstr ''name'', False, cstr ''avd0'')] []))"
    by (simp_all add: adt_is_encoder_name_def example_names) (simp_all add: cstr_def)
  have w: "windows (put_le64 0 @ put_le64 0x300000000 @ put_le64 0x400000000) = [(0, 0x300000000, 0x400000000)]"
    by (simp add: windows_def get_le_eval)
  have pl: "tree_placement flag (example_encoder pre) 0x40D100000 = Ok \<lparr>e_name = cstr ''ave0'' @ replicate 28 0, e_reg0 = 0x40D100000, e_preloaded = flag pre,
         e_seg = [\<lparr>s_phys = 0x10000000000, s_iova = 0, s_remap = 0, s_size = 0x4000, s_flags = 1\<rparr>]\<rparr>"
    by (simp add: tree_placement_def example_name) (simp add: adt_lookup_def example_encoder_def cstr_inject seg_of_def get_le_eval)
  have enc_hit: "tree_is_encoder [(0, 0x300000000, 0x400000000)] 0x40D100000 (example_encoder pre)"
    by (simp add: tree_is_encoder_def enc example_reg get_le_eval through_def)
  have enc_miss: "\<not> tree_is_encoder win cpu (Adt [(cstr ''name'', False, cstr ''avd0'')] [])" for win cpu
    by (simp add: tree_is_encoder_def enc)
  show ?thesis
    by (simp add: tree_find_by_def example_tree_def example_names tree_u32_def cstr_inject w enc_hit enc_miss pl adt_lookup_def get_le_eval)
qed

lemma example_preloaded: "preloaded_set (example_tree [1, 0, 0, 0])"
  by (simp add: preloaded_set_def example_tree_def example_encoder_def adt_lookup_def cstr_inject
      nonzero_def)

theorem adt_parser_refines_tree_witness:
  "ave_adt_find_encoder (Some (adt_bytes (example_tree [1, 0, 0, 0]) @ [7])) 0x40D100000 =
     Ok \<lparr>e_name = cstr ''ave0'' @ replicate 28 0, e_reg0 = 0x40D100000, e_preloaded = True,
         e_seg = [\<lparr>s_phys = 0x10000000000, s_iova = 0, s_remap = 0, s_size = 0x4000, s_flags = 1\<rparr>]\<rparr>"
  using adt_parser_refines_tree [of "example_tree [1, 0, 0, 0]" "[7]" "0x40D100000"]
    example_wf [of "[1, 0, 0, 0]"] example_preloaded
  by (simp add: tree_find_encoder_def example_result nonzero_def)

text \<open>
  \<^verbatim>\<open>ave_adt.h\<close> documents \<open>preloaded\<close> as "present and not 0". The code tests presence
  only: a node whose \<open>pre-loaded\<close> is the word 0 counts as pre-loaded.
\<close>

lemma preloaded_ignores_value:
  "\<exists>e. ave_adt_find_encoder (Some (adt_bytes (example_tree (put_le32 0)))) 0x40D100000 = Ok e
     \<and> e_preloaded e"
  using find_encoder_at [of "example_tree (put_le32 0)" "[]" "0x40D100000"] example_wf [of "put_le32 0"]
  by (simp add: example_result)

end
