(* ===== verification/Ave_Ring.thy ===== *)
theory Ave_Ring
  imports Ave_Mem
begin

text \<open>
  The ring of \<^verbatim>\<open>src/driver/ave_abi_boot.h\<close> (\<open>struct ave_ring\<close> and its operations): the
  transport of every IPC channel. The slot array is a range of the shared FwIPC region,
  given as the region's bytes and the array's offset; the handle (\<open>rd\<close>, \<open>wr\<close>, counters) is
  private to one side, and the two sides share nothing but each slot's phase bit.

  An operation that returns -1 is \<open>None\<close>. \<open>rd\<close> and \<open>wr\<close> are C's \<open>s32\<close>, kept as \<open>int\<close>
  (-1 is "nothing outstanding" and "full"); they stay between -1 and \<open>nslots - 1\<close>.
\<close>

section \<open>The ring operations\<close>

definition AVE_BOOT_SLOT_SIZE :: nat where "AVE_BOOT_SLOT_SIZE = 0x40"

record ave_ring =
  r_slots :: nat   \<comment> \<open>offset of the slot array in the region\<close>
  r_nslots :: u32
  r_type :: u32
  r_rd :: int      \<comment> \<open>-1 = nothing outstanding\<close>
  r_wr :: int      \<comment> \<open>-1 = full\<close>
  r_nrecv :: u32
  r_nsend :: u32

definition ave_ring_dir_to_type :: "u32 \<Rightarrow> u32" where
  "ave_ring_dir_to_type dir = (if dir = 0 then 1 else if dir = 1 then 0 else 2)"

definition ave_ring_fw_type_13_5 :: "u32 \<Rightarrow> u32" where
  "ave_ring_fw_type_13_5 dir = (if dir = 2 then 3 else if dir = 1 then 1 else 0)"

text \<open>\<open>r->slots + (u64)i * AVE_BOOT_SLOT_SIZE\<close>, and the three words a sender stores there.\<close>

definition slot_off :: "ave_ring \<Rightarrow> int \<Rightarrow> nat" where
  "slot_off r i = r_slots r + nat i * AVE_BOOT_SLOT_SIZE"

definition slot_put :: "u8 list \<Rightarrow> nat \<Rightarrow> u64 \<Rightarrow> u64 \<Rightarrow> u64 \<Rightarrow> u8 list" where
  "slot_put m s w0 w1 w2 =
     poke (poke (poke m (s + 8) (put_le64 w1)) (s + 16) (put_le64 w2)) s (put_le64 w0)"

fun ring_init_slots :: "u8 list \<Rightarrow> nat \<Rightarrow> u32 \<Rightarrow> nat \<Rightarrow> u8 list" where
  "ring_init_slots m slots type 0 = m"
| "ring_init_slots m slots type (Suc i) =
     slot_put (ring_init_slots m slots type i) (slots + i * AVE_BOOT_SLOT_SIZE) (ucast type) 0 0"

definition ave_ring_init :: "u8 list \<Rightarrow> nat \<Rightarrow> u32 \<Rightarrow> u32 \<Rightarrow> u8 list \<times> ave_ring" where
  "ave_ring_init m slots nslots type =
     (if type AND 1 \<noteq> 0 then
        (ring_init_slots m slots type (unat nslots),
         \<lparr>r_slots = slots, r_nslots = nslots, r_type = type, r_rd = -1, r_wr = 0,
          r_nrecv = 0, r_nsend = 0\<rparr>)
      else
        (m, \<lparr>r_slots = slots, r_nslots = nslots, r_type = type, r_rd = 0, r_wr = -1,
             r_nrecv = 0, r_nsend = 0\<rparr>))"

text \<open>\<open>i == (s32)nslots - 1 ? 0 : i + 1\<close>.\<close>

definition ring_next :: "ave_ring \<Rightarrow> int \<Rightarrow> int" where
  "ring_next r i = (if i = sint (r_nslots r) - 1 then 0 else i + 1)"

definition ave_ring_send ::
  "u8 list \<Rightarrow> ave_ring \<Rightarrow> u64 \<Rightarrow> u32 \<Rightarrow> u32 \<Rightarrow> (u8 list \<times> ave_ring) option" where
  "ave_ring_send m r payload arg1 arg2 =
     (if r_wr r < 0 then None
      else
        let m' = slot_put m (slot_off r (r_wr r))
                   (payload OR (ucast (r_type r) XOR 1)) (ucast arg1) (ucast arg2);
            rd = (if r_rd r < 0 then r_wr r else r_rd r);
            w = ring_next r (r_wr r)
        in Some (m', r\<lparr>r_rd := rd, r_wr := (if rd = w then -1 else w), r_nsend := r_nsend r + 1\<rparr>))"

definition ave_ring_recv ::
  "u8 list \<Rightarrow> ave_ring \<Rightarrow> ((u64 \<times> u32 \<times> u32) \<times> ave_ring) option" where
  "ave_ring_recv m r =
     (if r_rd r < 0 then None
      else
        let s = slot_off r (r_rd r);
            w0 = get_le64 m s
        in if w0 AND 1 \<noteq> ucast (r_type r AND 1) then None
           else
             let w = (if r_wr r < 0 then r_rd r else r_wr r);
                 rd = ring_next r (r_rd r)
             in Some ((w0 AND NOT 3, ucast (get_le64 m (s + 8)), ucast (get_le64 m (s + 16))),
                      r\<lparr>r_wr := w, r_rd := (if w = rd then -1 else rd), r_nrecv := r_nrecv r + 1\<rparr>))"

definition ave_ring_usend ::
  "u8 list \<Rightarrow> ave_ring \<Rightarrow> u64 \<Rightarrow> u32 \<Rightarrow> u32 \<Rightarrow> (u8 list \<times> ave_ring) option" where
  "ave_ring_usend m r payload arg1 arg2 =
     (let s = slot_off r (if r_wr r < 0 then 0 else r_wr r) in
      if get_le64 m s AND 1 \<noteq> ucast (r_type r AND 1) then None
      else Some (slot_put m s (payload OR (ucast (r_type r) XOR 1)) (ucast arg1) (ucast arg2),
                 r\<lparr>r_wr := ring_next r (r_wr r), r_nsend := r_nsend r + 1\<rparr>))"

definition ave_ring_urecv ::
  "u8 list \<Rightarrow> ave_ring \<Rightarrow> ((u64 \<times> u32 \<times> u32) \<times> u8 list \<times> ave_ring) option" where
  "ave_ring_urecv m r =
     (let s = slot_off r (if r_rd r < 0 then 0 else r_rd r);
          w0 = get_le64 m s
      in if w0 AND 1 \<noteq> ucast (r_type r AND 1) then None
         else Some ((w0 AND NOT 3, ucast (get_le64 m (s + 8)), ucast (get_le64 m (s + 16))),
                    poke m s (put_le64 (ucast (r_type r) XOR 1)),
                    r\<lparr>r_rd := ring_next r (r_rd r), r_nrecv := r_nrecv r + 1\<rparr>))"

section \<open>Slots of a region\<close>

text \<open>\<open>slot m base i\<close> is what slot \<open>i\<close> of the array at \<open>base\<close> holds.\<close>

definition slot :: "u8 list \<Rightarrow> nat \<Rightarrow> nat \<Rightarrow> u64 \<times> u64 \<times> u64" where
  "slot m base i = (let s = base + i * AVE_BOOT_SLOT_SIZE in
     (get_le64 m s, get_le64 m (s + 8), get_le64 m (s + 16)))"

lemma length_slot_put: "s + 24 \<le> length m \<Longrightarrow> length (slot_put m s a b c) = length m"
  by (simp add: slot_put_def)

lemma get_le64_slot_put:
  assumes "s + 24 \<le> length m"
  shows "get_le64 (slot_put m s w0 w1 w2) s = w0"
    and "get_le64 (slot_put m s w0 w1 w2) (s + 8) = w1"
    and "get_le64 (slot_put m s w0 w1 w2) (s + 16) = w2"
  using assms by (simp_all add: slot_put_def get_le64_poke_same get_le64_poke_other)

lemma get_le64_slot_put_other:
  "s + 24 \<le> length m \<Longrightarrow> i + 8 \<le> s \<or> s + 24 \<le> i \<Longrightarrow> get_le64 (slot_put m s w0 w1 w2) i = get_le64 m i"
  by (auto simp: slot_put_def get_le64_poke_other)

lemma slot_disjoint:
  "i \<noteq> j \<Longrightarrow> i * AVE_BOOT_SLOT_SIZE + 64 \<le> j * AVE_BOOT_SLOT_SIZE
     \<or> j * AVE_BOOT_SLOT_SIZE + 64 \<le> i * AVE_BOOT_SLOT_SIZE"
  by (cases "i < j") (auto simp: AVE_BOOT_SLOT_SIZE_def)

lemma slot_in_region:
  "base + n * AVE_BOOT_SLOT_SIZE \<le> length m \<Longrightarrow> i < n \<Longrightarrow> base + i * AVE_BOOT_SLOT_SIZE + 64 \<le> length m"
proof -
  assume a: "base + n * AVE_BOOT_SLOT_SIZE \<le> length m" "i < n"
  then have "Suc i * AVE_BOOT_SLOT_SIZE \<le> n * AVE_BOOT_SLOT_SIZE" by (intro mult_le_mono1) simp
  then show ?thesis using a(1) by (simp add: AVE_BOOT_SLOT_SIZE_def)
qed

lemma slot_put_slot:
  assumes "base + n * AVE_BOOT_SLOT_SIZE \<le> length m" "i < n" "j < n"
  shows "slot (slot_put m (base + i * AVE_BOOT_SLOT_SIZE) w0 w1 w2) base j
    = (if i = j then (w0, w1, w2) else slot m base j)"
  using slot_in_region [OF assms(1,2)] slot_disjoint [of i j]
  by (auto simp: slot_def Let_def get_le64_slot_put get_le64_slot_put_other)

lemma slot_put_frame:
  assumes "base + n * AVE_BOOT_SLOT_SIZE \<le> length m" "i < n"
  shows "length (slot_put m (base + i * AVE_BOOT_SLOT_SIZE) w0 w1 w2) = length m"
    and "x < base \<or> base + n * AVE_BOOT_SLOT_SIZE \<le> x \<Longrightarrow>
      slot_put m (base + i * AVE_BOOT_SLOT_SIZE) w0 w1 w2 ! x = m ! x"
proof -
  have i: "base + i * AVE_BOOT_SLOT_SIZE + 64 \<le> base + n * AVE_BOOT_SLOT_SIZE"
    using mult_le_mono1 [of "Suc i" n AVE_BOOT_SLOT_SIZE] assms(2) by (simp add: AVE_BOOT_SLOT_SIZE_def)
  then show "length (slot_put m (base + i * AVE_BOOT_SLOT_SIZE) w0 w1 w2) = length m"
    using assms by (simp add: length_slot_put)
  show "x < base \<or> base + n * AVE_BOOT_SLOT_SIZE \<le> x \<Longrightarrow>
      slot_put m (base + i * AVE_BOOT_SLOT_SIZE) w0 w1 w2 ! x = m ! x"
    using i assms(1) by (auto simp: slot_put_def poke_nth)
qed


section \<open>Two ends of one ring\<close>

text \<open>
  A ring has an odd-typed end (\<open>ring_init\<close> writes the slots' phases; it sends first) and an
  even-typed end; the host is one, the firmware the other, running the same algorithm.
  \<open>ring_op\<close> names the four operations on the shared array, \<open>ring_step\<close> performs one.
\<close>

type_synonym ring_msg = "u64 \<times> u32 \<times> u32"

datatype ring_op = OddSend ring_msg | OddRecv | EvenSend ring_msg | EvenRecv

datatype ring_out = Refused | Sent | Received ring_msg

record ring_sys =
  sys_mem :: "u8 list"
  sys_odd :: ave_ring
  sys_even :: ave_ring

definition ring_step :: "ring_sys \<Rightarrow> ring_op \<Rightarrow> ring_sys \<times> ring_out" where
  "ring_step s op =
     (case op of
        OddSend msg \<Rightarrow> (let (p, a1, a2) = msg in
          (case ave_ring_send (sys_mem s) (sys_odd s) p a1 a2 of
             None \<Rightarrow> (s, Refused)
           | Some (m, r) \<Rightarrow> (s\<lparr>sys_mem := m, sys_odd := r\<rparr>, Sent)))
      | EvenSend msg \<Rightarrow> (let (p, a1, a2) = msg in
          (case ave_ring_send (sys_mem s) (sys_even s) p a1 a2 of
             None \<Rightarrow> (s, Refused)
           | Some (m, r) \<Rightarrow> (s\<lparr>sys_mem := m, sys_even := r\<rparr>, Sent)))
      | OddRecv \<Rightarrow>
          (case ave_ring_recv (sys_mem s) (sys_odd s) of
             None \<Rightarrow> (s, Refused) | Some (msg, r) \<Rightarrow> (s\<lparr>sys_odd := r\<rparr>, Received msg))
      | EvenRecv \<Rightarrow>
          (case ave_ring_recv (sys_mem s) (sys_even s) of
             None \<Rightarrow> (s, Refused) | Some (msg, r) \<Rightarrow> (s\<lparr>sys_even := r\<rparr>, Received msg)))"

definition ring_start :: "u8 list \<Rightarrow> nat \<Rightarrow> u32 \<Rightarrow> ring_sys" where
  "ring_start m base nslots =
     (let (m', odd_end) = ave_ring_init m base nslots 1;
          (m'', even_end) = ave_ring_init m' base nslots 0
      in \<lparr>sys_mem = m'', sys_odd = odd_end, sys_even = even_end\<rparr>)"

text \<open>The abstract link: the messages under way each way, and the slots each end may use.\<close>

record link =
  l_free :: nat              \<comment> \<open>slots the odd end may fill\<close>
  l_down :: "ring_msg list"  \<comment> \<open>odd to even, oldest first\<close>
  l_held :: nat              \<comment> \<open>slots the even end has taken and not returned\<close>
  l_up :: "ring_msg list"    \<comment> \<open>even to odd\<close>

definition link_step :: "link \<Rightarrow> ring_op \<Rightarrow> link \<times> ring_out" where
  "link_step l op =
     (case op of
        OddSend msg \<Rightarrow> if l_free l = 0 then (l, Refused)
          else (l\<lparr>l_free := l_free l - 1, l_down := l_down l @ [msg]\<rparr>, Sent)
      | EvenRecv \<Rightarrow> (case l_down l of [] \<Rightarrow> (l, Refused)
          | msg # q \<Rightarrow> (l\<lparr>l_down := q, l_held := l_held l + 1\<rparr>, Received msg))
      | EvenSend msg \<Rightarrow> if l_held l = 0 then (l, Refused)
          else (l\<lparr>l_held := l_held l - 1, l_up := l_up l @ [msg]\<rparr>, Sent)
      | OddRecv \<Rightarrow> (case l_up l of [] \<Rightarrow> (l, Refused)
          | msg # q \<Rightarrow> (l\<lparr>l_up := q, l_free := l_free l + 1\<rparr>, Received msg)))"

fun run_ops :: "('s \<Rightarrow> 'o \<Rightarrow> 's \<times> 'r) \<Rightarrow> 's \<Rightarrow> 'o list \<Rightarrow> 's \<times> 'r list" where
  "run_ops step s [] = (s, [])"
| "run_ops step s (op # ops) =
     (let (s', r) = step s op; (s'', rs) = run_ops step s' ops in (s'', r # rs))"

text \<open>
  A message travels whole when the two low bits of its payload are clear, which
  \<open>ave_ipc_send\<close> checks; the receiver masks them off.
\<close>

definition op_ok :: "ring_op \<Rightarrow> bool" where
  "op_ok op = (case op of OddSend msg \<Rightarrow> fst msg AND 3 = 0 | EvenSend msg \<Rightarrow> fst msg AND 3 = 0 | _ \<Rightarrow> True)"

section \<open>The coupling between slots and queues\<close>

lemma word_three: "(3 :: u64) = mask 2"
  by (simp add: mask_eq_exp_minus_1)

lemma aligned_payload:
  assumes "p AND 3 = (0 :: u64)"
  shows "p AND 1 = 0" "(p OR 1) AND 1 = 1" "p AND NOT 3 = p" "(p OR 1) AND NOT 3 = p"
proof -
  have b: "\<not> bit p n" if "n < 2" for n
    using assms that unfolding word_three by (metis bit_0_eq bit_and_iff bit_mask_iff bot_apply bot_bool_def
        possible_bit_word bit_imp_le_length not_le)
  show "p AND 1 = 0" "(p OR 1) AND 1 = 1" "p AND NOT 3 = p" "(p OR 1) AND NOT 3 = p"
    unfolding word_three using b
    by (auto intro!: bit_word_eqI simp: bit_simps)
qed

lemma mod_window:
  "a < x \<Longrightarrow> x \<le> a + N \<Longrightarrow> (x mod N = a mod N) = (x = a + (N :: nat))"
proof
  assume w: "a < x" "x \<le> a + N" "x mod N = a mod N"
  then have "N dvd x - a" by (metis less_imp_le mod_eq_dvd_iff_nat)
  moreover have "0 < x - a" "x - a \<le> N" using w by auto
  ultimately have "x - a = N" by (metis dvd_imp_le le_antisym)
  then show "x = a + N" using w by simp
qed simp

lemma mod_inj_window:
  "a \<le> i \<Longrightarrow> i < a + N \<Longrightarrow> a \<le> j \<Longrightarrow> j < a + N \<Longrightarrow> (i mod N = j mod N) = (i = (j :: nat))"
  using mod_window [of i j N] mod_window [of j i N] by (cases i j rule: linorder_cases) auto


text \<open>
  Number the messages of each end from 0: the even end has taken the first \<open>rb\<close> of the odd
  end's \<open>sa\<close> and returned \<open>sb\<close>, of which the odd end has taken \<open>ra\<close>. Then
  \<open>ra \<le> sb \<le> rb \<le> sa \<le> ra + N\<close>, message \<open>k\<close> lies in slot \<open>k mod N\<close>, and a slot's phase bit
  is 0 exactly when its last writer is the odd end.
\<close>

definition msg_of :: "u64 \<times> u64 \<times> u64 \<Rightarrow> ring_msg" where
  "msg_of w = (case w of (w0, w1, w2) \<Rightarrow> (w0 AND NOT 3, ucast w1, ucast w2))"

definition slots_ok :: "nat \<Rightarrow> nat \<Rightarrow> u8 list \<Rightarrow> nat \<Rightarrow> nat \<Rightarrow> nat \<Rightarrow> nat \<Rightarrow> link \<Rightarrow> bool" where
  "slots_ok N base m sa rb sb ra l \<longleftrightarrow>
     (\<forall>k. ra \<le> k \<and> k < ra + N \<longrightarrow>
        fst (slot m base (k mod N)) AND 1 = (if sb \<le> k \<and> k < sa then 0 else 1))
     \<and> (\<forall>k. rb \<le> k \<and> k < sa \<longrightarrow> msg_of (slot m base (k mod N)) = l_down l ! (k - rb))
     \<and> (\<forall>k. ra \<le> k \<and> k < sb \<longrightarrow> msg_of (slot m base (k mod N)) = l_up l ! (k - ra))"

definition odd_ok :: "nat \<Rightarrow> nat \<Rightarrow> ave_ring \<Rightarrow> nat \<Rightarrow> nat \<Rightarrow> bool" where
  "odd_ok N base r sa ra \<longleftrightarrow>
     r_slots r = base \<and> r_nslots r = of_nat N \<and> r_type r = 1
     \<and> r_wr r = (if sa = ra + N then -1 else int (sa mod N))
     \<and> r_rd r = (if sa = ra then -1 else int (ra mod N))"

definition even_ok :: "nat \<Rightarrow> nat \<Rightarrow> ave_ring \<Rightarrow> nat \<Rightarrow> nat \<Rightarrow> bool" where
  "even_ok N base r rb sb \<longleftrightarrow>
     r_slots r = base \<and> r_nslots r = of_nat N \<and> r_type r = 0
     \<and> r_rd r = (if rb = sb + N then -1 else int (rb mod N))
     \<and> r_wr r = (if rb = sb then -1 else int (sb mod N))"

definition geometry :: "nat \<Rightarrow> nat \<Rightarrow> u8 list \<Rightarrow> bool" where
  "geometry N base m \<longleftrightarrow> 0 < N \<and> N < 2 ^ 31 \<and> base + N * AVE_BOOT_SLOT_SIZE \<le> length m"

definition coupled_at ::
  "nat \<Rightarrow> nat \<Rightarrow> nat \<Rightarrow> nat \<Rightarrow> nat \<Rightarrow> nat \<Rightarrow> ring_sys \<Rightarrow> link \<Rightarrow> bool" where
  "coupled_at N base sa rb sb ra s l \<longleftrightarrow>
     geometry N base (sys_mem s)
     \<and> ra \<le> sb \<and> sb \<le> rb \<and> rb \<le> sa \<and> sa \<le> ra + N
     \<and> odd_ok N base (sys_odd s) sa ra \<and> even_ok N base (sys_even s) rb sb
     \<and> slots_ok N base (sys_mem s) sa rb sb ra l
     \<and> l_free l = ra + N - sa \<and> length (l_down l) = sa - rb
     \<and> l_held l = rb - sb \<and> length (l_up l) = sb - ra"

definition coupled :: "nat \<Rightarrow> nat \<Rightarrow> ring_sys \<Rightarrow> link \<Rightarrow> bool" where
  "coupled N base s l \<longleftrightarrow> (\<exists>sa rb sb ra. coupled_at N base sa rb sb ra s l)"

lemma coupledI: "coupled_at N base sa rb sb ra s l \<Longrightarrow> coupled N base s l"
  unfolding coupled_def by blast

lemma sint_slots: "N < 2 ^ 31 \<Longrightarrow> sint (of_nat N :: u32) = int N"
proof -
  assume "N < 2 ^ 31"
  then show ?thesis
    by (simp add: sint_uint unsigned_of_nat take_bit_nat_eq_self signed_take_bit_int_eq_self
        flip: of_nat_take_bit)
qed

lemma ring_next_mod:
  assumes "0 < N" "N < 2 ^ 31" "r_nslots r = of_nat N"
  shows "ring_next r (int (k mod N)) = int (Suc k mod N)"
  using assms by (auto simp: ring_next_def sint_slots mod_Suc)

lemma slot_off_mod: "r_slots r = base \<Longrightarrow> slot_off r (int i) = base + i * AVE_BOOT_SLOT_SIZE"
  by (simp add: slot_off_def)

lemma recv_unfold:
  assumes "r_slots r = base" "r_rd r = int i"
  shows "ave_ring_recv m r =
    (if fst (slot m base i) AND 1 \<noteq> ucast (r_type r AND 1) then None
     else Some (msg_of (slot m base i),
       r\<lparr>r_wr := (if r_wr r < 0 then r_rd r else r_wr r),
         r_rd := (if (if r_wr r < 0 then r_rd r else r_wr r) = ring_next r (r_rd r) then -1
                  else ring_next r (r_rd r)),
         r_nrecv := r_nrecv r + 1\<rparr>))"
  using assms by (simp add: ave_ring_recv_def Let_def slot_off_def slot_def msg_of_def)


lemma slot_update_window:
  assumes "geometry N base m" "a \<le> x" "x < a + N" "a \<le> k" "k < a + N"
  shows "slot (slot_put m (base + (x mod N) * AVE_BOOT_SLOT_SIZE) w0 w1 w2) base (k mod N)
    = (if k = x then (w0, w1, w2) else slot m base (k mod N))"
  using assms slot_put_slot [of base N m "x mod N" "k mod N"] mod_inj_window [of a x N k]
  by (auto simp: geometry_def)

lemma geometry_put:
  "geometry N base m \<Longrightarrow> geometry N base (slot_put m (base + (x mod N) * AVE_BOOT_SLOT_SIZE) w0 w1 w2)"
  using slot_put_frame(1) [of base N m "x mod N"] by (simp add: geometry_def)

lemma ucast_32_64_32: "ucast (ucast (a :: u32) :: u64) = a"
  by (rule bit_word_eqI) (auto simp: bit_simps)

lemma sent_msg:
  assumes "p AND 3 = 0"
  shows "(p OR (ucast (1 :: u32) XOR 1)) AND 1 = (0 :: u64)"
    and "msg_of (p OR (ucast (1 :: u32) XOR 1), ucast a1, ucast a2) = (p, a1, a2)"
    and "(p OR (ucast (0 :: u32) XOR 1)) AND 1 = (1 :: u64)"
    and "msg_of (p OR (ucast (0 :: u32) XOR 1), ucast a1, ucast a2) = (p, a1, a2)"
  using aligned_payload [OF assms] by (simp_all add: msg_of_def ucast_32_64_32)

lemma odd_send_step:
  assumes c: "coupled_at N base sa rb sb ra s l" and free: "l_free l \<noteq> 0" and p: "p AND 3 = 0"
  shows "\<exists>m r. ave_ring_send (sys_mem s) (sys_odd s) p a1 a2 = Some (m, r)
    \<and> coupled_at N base (Suc sa) rb sb ra (s\<lparr>sys_mem := m, sys_odd := r\<rparr>)
        (l\<lparr>l_free := l_free l - 1, l_down := l_down l @ [(p, a1, a2)]\<rparr>)"
proof -
  from c have geo: "geometry N base (sys_mem s)" and o: "odd_ok N base (sys_odd s) sa ra"
    and ev: "even_ok N base (sys_even s) rb sb" and sl: "slots_ok N base (sys_mem s) sa rb sb ra l"
    and le: "ra \<le> sb" "sb \<le> rb" "rb \<le> sa" "sa < ra + N" and lk: "length (l_down l) = sa - rb"
    using free by (auto simp: coupled_at_def)
  define m where "m = slot_put (sys_mem s) (base + (sa mod N) * AVE_BOOT_SLOT_SIZE)
    (p OR (ucast (1 :: u32) XOR 1)) (ucast a1) (ucast a2)"
  define r where "r = (sys_odd s)\<lparr>r_rd := int (ra mod N),
    r_wr := (if Suc sa = ra + N then -1 else int (Suc sa mod N)), r_nsend := r_nsend (sys_odd s) + 1\<rparr>"
  have N: "0 < N" "N < 2 ^ 31" using geo by (auto simp: geometry_def)
  have rd: "(if r_rd (sys_odd s) < 0 then r_wr (sys_odd s) else r_rd (sys_odd s)) = int (ra mod N)"
    using o le by (auto simp: odd_ok_def)
  have nx: "(int (ra mod N) = int (Suc sa mod N)) = (Suc sa = ra + N)"
    using mod_window [of ra "Suc sa" N] le by auto
  have "ave_ring_send (sys_mem s) (sys_odd s) p a1 a2 = Some (m, r)"
    using o le N rd nx
    by (auto simp: ave_ring_send_def odd_ok_def ring_next_mod slot_off_mod m_def r_def Let_def)
  moreover have "slots_ok N base m (Suc sa) rb sb ra (l\<lparr>l_free := l_free l - 1, l_down := l_down l @ [(p, a1, a2)]\<rparr>)"
    using sl le lk sent_msg(1,2) [OF p]
    by (auto simp: slots_ok_def m_def nth_append less_Suc_eq
        slot_update_window [OF geo _ _ , of ra sa] )
  moreover have "odd_ok N base r (Suc sa) ra"
    using o le by (auto simp: odd_ok_def r_def)
  ultimately show ?thesis
    using c free geo ev by (auto simp: coupled_at_def m_def geometry_put intro!: exI [of _ m] exI [of _ r])
qed

lemma even_send_step:
  assumes c: "coupled_at N base sa rb sb ra s l" and held: "l_held l \<noteq> 0" and p: "p AND 3 = 0"
  shows "\<exists>m r. ave_ring_send (sys_mem s) (sys_even s) p a1 a2 = Some (m, r)
    \<and> coupled_at N base sa rb (Suc sb) ra (s\<lparr>sys_mem := m, sys_even := r\<rparr>)
        (l\<lparr>l_held := l_held l - 1, l_up := l_up l @ [(p, a1, a2)]\<rparr>)"
proof -
  from c have geo: "geometry N base (sys_mem s)" and o: "odd_ok N base (sys_odd s) sa ra"
    and ev: "even_ok N base (sys_even s) rb sb" and sl: "slots_ok N base (sys_mem s) sa rb sb ra l"
    and le: "ra \<le> sb" "sb < rb" "rb \<le> sa" "sa \<le> ra + N" and lk: "length (l_up l) = sb - ra"
    using held by (auto simp: coupled_at_def)
  define m where "m = slot_put (sys_mem s) (base + (sb mod N) * AVE_BOOT_SLOT_SIZE)
    (p OR (ucast (0 :: u32) XOR 1)) (ucast a1) (ucast a2)"
  define r where "r = (sys_even s)\<lparr>r_rd := int (rb mod N),
    r_wr := (if rb = Suc sb then -1 else int (Suc sb mod N)), r_nsend := r_nsend (sys_even s) + 1\<rparr>"
  have N: "0 < N" "N < 2 ^ 31" using geo by (auto simp: geometry_def)
  have rd: "(if r_rd (sys_even s) < 0 then r_wr (sys_even s) else r_rd (sys_even s)) = int (rb mod N)"
    using ev le by (auto simp: even_ok_def)
  have nx: "(int (rb mod N) = int (Suc sb mod N)) = (rb = Suc sb)"
    using mod_inj_window [of "Suc sb" rb N "Suc sb"] le N by auto
  have "ave_ring_send (sys_mem s) (sys_even s) p a1 a2 = Some (m, r)"
    using ev le N rd nx
    by (auto simp: ave_ring_send_def even_ok_def ring_next_mod slot_off_mod m_def r_def Let_def)
  moreover have "slots_ok N base m sa rb (Suc sb) ra (l\<lparr>l_held := l_held l - 1, l_up := l_up l @ [(p, a1, a2)]\<rparr>)"
    using sl le lk sent_msg(3,4) [OF p]
    by (auto simp: slots_ok_def m_def nth_append less_Suc_eq
        slot_update_window [OF geo _ _ , of ra sb])
  moreover have "even_ok N base r rb (Suc sb)"
    using ev le N by (auto simp: even_ok_def r_def)
  ultimately show ?thesis
    using c held geo o by (auto simp: coupled_at_def m_def geometry_put intro!: exI [of _ m] exI [of _ r])
qed


lemma odd_recv_step:
  assumes c: "coupled_at N base sa rb sb ra s l"
  shows "case l_up l of
      [] \<Rightarrow> ave_ring_recv (sys_mem s) (sys_odd s) = None
    | msg # q \<Rightarrow> \<exists>r. ave_ring_recv (sys_mem s) (sys_odd s) = Some (msg, r)
        \<and> coupled_at N base sa rb sb (Suc ra) (s\<lparr>sys_odd := r\<rparr>)
            (l\<lparr>l_up := q, l_free := l_free l + 1\<rparr>)"
proof -
  from c have geo: "geometry N base (sys_mem s)" and o: "odd_ok N base (sys_odd s) sa ra"
    and sl: "slots_ok N base (sys_mem s) sa rb sb ra l"
    and le: "ra \<le> sb" "sb \<le> rb" "rb \<le> sa" "sa \<le> ra + N" and lk: "length (l_up l) = sb - ra"
    by (auto simp: coupled_at_def)
  have N: "0 < N" "N < 2 ^ 31" using geo by (auto simp: geometry_def)
  show ?thesis
  proof (cases "sa = ra")
    case True
    then have "r_rd (sys_odd s) < 0" using o by (simp add: odd_ok_def)
    then have "ave_ring_recv (sys_mem s) (sys_odd s) = None" by (simp add: ave_ring_recv_def)
    moreover have "l_up l = []" using lk le True by simp
    ultimately show ?thesis by simp
  next
    case False
    then have rd: "r_rd (sys_odd s) = int (ra mod N)" "r_slots (sys_odd s) = base"
      "ucast (r_type (sys_odd s) AND 1) = (1 :: u64)" "r_nslots (sys_odd s) = of_nat N"
      using o by (simp_all add: odd_ok_def)
    have ph: "fst (slot (sys_mem s) base (ra mod N)) AND 1 = (if sb \<le> ra then 0 else 1)"
      using sl le False N by (auto simp: slots_ok_def)
    show ?thesis
    proof (cases "l_up l")
      case Nil
      then have "sb \<le> ra" using lk le by simp
      then show ?thesis using Nil by (simp add: recv_unfold [OF rd(2,1)] ph rd(3))
    next
      case (Cons msg q)
      then have lt: "ra < sb" using lk by auto
      have m: "msg_of (slot (sys_mem s) base (ra mod N)) = msg"
        using sl lt Cons by (auto simp: slots_ok_def)
      define r where "r = (sys_odd s)\<lparr>r_wr := int (sa mod N),
        r_rd := (if sa = Suc ra then -1 else int (Suc ra mod N)), r_nrecv := r_nrecv (sys_odd s) + 1\<rparr>"
      have wr: "(if r_wr (sys_odd s) < 0 then r_rd (sys_odd s) else r_wr (sys_odd s)) = int (sa mod N)"
        using o False rd by (auto simp: odd_ok_def)
      have nx: "(int (sa mod N) = int (Suc ra mod N)) = (sa = Suc ra)"
        using mod_inj_window [of "Suc ra" sa N "Suc ra"] le False N by auto
      have "ave_ring_recv (sys_mem s) (sys_odd s) = Some (msg, r)"
        using lt by (simp add: recv_unfold [OF rd(2,1)] ph rd(3) m wr) (simp add: rd(1) ring_next_mod [OF N rd(4)] nx [simplified] r_def)
      moreover have "slots_ok N base (sys_mem s) sa rb sb (Suc ra) (l\<lparr>l_up := q, l_free := l_free l + 1\<rparr>)"
      proof -
        have "fst (slot (sys_mem s) base ((ra + N) mod N)) AND 1 = 1" using ph lt by simp
        then show ?thesis
          using sl lt Cons le by (auto simp: slots_ok_def less_Suc_eq nth_Cons' Suc_le_eq)
      qed
      moreover have "odd_ok N base r sa (Suc ra)"
        using o le N by (auto simp: odd_ok_def r_def)
      ultimately show ?thesis
        using c Cons lt by (auto simp: coupled_at_def)
    qed
  qed
qed

lemma even_recv_step:
  assumes c: "coupled_at N base sa rb sb ra s l"
  shows "case l_down l of
      [] \<Rightarrow> ave_ring_recv (sys_mem s) (sys_even s) = None
    | msg # q \<Rightarrow> \<exists>r. ave_ring_recv (sys_mem s) (sys_even s) = Some (msg, r)
        \<and> coupled_at N base sa (Suc rb) sb ra (s\<lparr>sys_even := r\<rparr>)
            (l\<lparr>l_down := q, l_held := l_held l + 1\<rparr>)"
proof -
  from c have geo: "geometry N base (sys_mem s)" and e: "even_ok N base (sys_even s) rb sb"
    and sl: "slots_ok N base (sys_mem s) sa rb sb ra l"
    and le: "ra \<le> sb" "sb \<le> rb" "rb \<le> sa" "sa \<le> ra + N" and lk: "length (l_down l) = sa - rb"
    by (auto simp: coupled_at_def)
  have N: "0 < N" "N < 2 ^ 31" using geo by (auto simp: geometry_def)
  show ?thesis
  proof (cases "rb = sb + N")
    case True
    then have "r_rd (sys_even s) < 0" using e by (simp add: even_ok_def)
    then have "ave_ring_recv (sys_mem s) (sys_even s) = None" by (simp add: ave_ring_recv_def)
    moreover have "l_down l = []" using lk le True by simp
    ultimately show ?thesis by simp
  next
    case False
    then have rd: "r_rd (sys_even s) = int (rb mod N)" "r_slots (sys_even s) = base"
      "ucast (r_type (sys_even s) AND 1) = (0 :: u64)" "r_nslots (sys_even s) = of_nat N"
      using e by (simp_all add: even_ok_def)
    have ph: "fst (slot (sys_mem s) base (rb mod N)) AND 1 = (if rb < sa then 0 else 1)"
    proof (cases "rb < ra + N")
      case True
      then show ?thesis using sl le by (auto simp: slots_ok_def)
    next
      case full: False
      then have eq: "rb = ra + N" and lt: "ra < sb" using le False by auto
      have "fst (slot (sys_mem s) base (ra mod N)) AND 1 = 1"
        using sl le lt N by (auto simp: slots_ok_def)
      moreover have "rb mod N = ra mod N" using eq by simp
      ultimately have "fst (slot (sys_mem s) base (rb mod N)) AND 1 = 1" by simp
      moreover have "\<not> rb < sa" using le eq by simp
      ultimately show ?thesis by simp
    qed
    show ?thesis
    proof (cases "l_down l")
      case Nil
      then have "\<not> rb < sa" using lk by simp
      then show ?thesis using Nil by (simp add: recv_unfold [OF rd(2,1)] ph rd(3))
    next
      case (Cons msg q)
      then have lt: "rb < sa" using lk by auto
      have m: "msg_of (slot (sys_mem s) base (rb mod N)) = msg"
        using sl lt Cons by (auto simp: slots_ok_def)
      define r where "r = (sys_even s)\<lparr>r_wr := int (sb mod N),
        r_rd := (if Suc rb = sb + N then -1 else int (Suc rb mod N)),
        r_nrecv := r_nrecv (sys_even s) + 1\<rparr>"
      have wr: "(if r_wr (sys_even s) < 0 then r_rd (sys_even s) else r_wr (sys_even s)) = int (sb mod N)"
        using e False rd by (auto simp: even_ok_def)
      have nx: "(int (sb mod N) = int (Suc rb mod N)) = (Suc rb = sb + N)"
        using mod_window [of sb "Suc rb" N] le False by auto
      have "ave_ring_recv (sys_mem s) (sys_even s) = Some (msg, r)"
        using lt by (simp add: recv_unfold [OF rd(2,1)] ph rd(3) m wr) (simp add: rd(1) ring_next_mod [OF N rd(4)] nx [simplified] r_def)
      moreover have "slots_ok N base (sys_mem s) sa (Suc rb) sb ra (l\<lparr>l_down := q, l_held := l_held l + 1\<rparr>)"
        using sl lt Cons by (auto simp: slots_ok_def nth_Cons' Suc_le_eq)
      moreover have "even_ok N base r (Suc rb) sb"
        using e le N by (auto simp: even_ok_def r_def)
      ultimately show ?thesis
        using c Cons lt by (auto simp: coupled_at_def)
    qed
  qed
qed


lemma coupled_step:
  assumes "coupled N base s l" "op_ok op"
  shows "snd (ring_step s op) = snd (link_step l op)
    \<and> coupled N base (fst (ring_step s op)) (fst (link_step l op))"
proof -
  obtain sa rb sb ra where c: "coupled_at N base sa rb sb ra s l"
    using assms(1) by (auto simp: coupled_def)
  show ?thesis
  proof (cases op)
    case (OddSend msg)
    obtain p a1 a2 where msg: "msg = (p, a1, a2)" by (metis prod.exhaust)
    show ?thesis
    proof (cases "l_free l = 0")
      case True
      then have "r_wr (sys_odd s) < 0" using c by (auto simp: coupled_at_def odd_ok_def)
      then show ?thesis
        using True assms(1) by (simp add: OddSend msg ring_step_def link_step_def ave_ring_send_def)
    next
      case False
      then show ?thesis
        using odd_send_step [OF c False, of p a1 a2] assms(2)
        by (auto simp: OddSend msg ring_step_def link_step_def op_ok_def intro: coupledI)
    qed
  next
    case (EvenSend msg)
    obtain p a1 a2 where msg: "msg = (p, a1, a2)" by (metis prod.exhaust)
    show ?thesis
    proof (cases "l_held l = 0")
      case True
      then have "r_wr (sys_even s) < 0" using c by (auto simp: coupled_at_def even_ok_def)
      then show ?thesis
        using True assms(1) by (simp add: EvenSend msg ring_step_def link_step_def ave_ring_send_def)
    next
      case False
      then show ?thesis
        using even_send_step [OF c False, of p a1 a2] assms(2)
        by (auto simp: EvenSend msg ring_step_def link_step_def op_ok_def intro: coupledI)
    qed
  next
    case OddRecv
    then show ?thesis
      using odd_recv_step [OF c] assms(1)
      by (auto simp: ring_step_def link_step_def split: list.splits intro: coupledI)
  next
    case EvenRecv
    then show ?thesis
      using even_recv_step [OF c] assms(1)
      by (auto simp: ring_step_def link_step_def split: list.splits intro: coupledI)
  qed
qed

section \<open>From steps to runs\<close>

text \<open>
  What a client of the transport relies on: the concrete system answers every step as the
  abstract one does and stays coupled to it. Then it answers every run the same.
\<close>

locale stepwise_refinement =
  fixes rel :: "'c \<Rightarrow> 'a \<Rightarrow> bool"
    and cstep :: "'c \<Rightarrow> 'o \<Rightarrow> 'c \<times> 'r"
    and astep :: "'a \<Rightarrow> 'o \<Rightarrow> 'a \<times> 'r"
    and allowed :: "'o \<Rightarrow> bool"
  assumes step_out: "rel c a \<Longrightarrow> allowed op \<Longrightarrow> snd (cstep c op) = snd (astep a op)"
    and step_rel: "rel c a \<Longrightarrow> allowed op \<Longrightarrow> rel (fst (cstep c op)) (fst (astep a op))"
begin

lemma run_refines:
  assumes "rel c a" "list_all allowed ops"
  shows "snd (run_ops cstep c ops) = snd (run_ops astep a ops)
    \<and> rel (fst (run_ops cstep c ops)) (fst (run_ops astep a ops))"
  using assms
  by (induction ops arbitrary: c a) (auto simp: case_prod_beta Let_def step_out step_rel)

end

interpretation ring: stepwise_refinement "coupled N base" ring_step link_step op_ok for N base
  by unfold_locales (simp_all add: coupled_step)

lemma ring_init_slots_ok:
  assumes "base + n * AVE_BOOT_SLOT_SIZE \<le> length m" "i \<le> n"
  shows "length (ring_init_slots m base type i) = length m
    \<and> (\<forall>j<i. slot (ring_init_slots m base type i) base j = (ucast type, 0, 0))"
  using assms(2)
proof (induction i)
  case 0
  then show ?case by simp
next
  case (Suc i)
  then have l: "base + n * AVE_BOOT_SLOT_SIZE \<le> length (ring_init_slots m base type i)" "i < n"
    using assms(1) by simp_all
  show ?case
    using Suc slot_put_frame(1) [OF l] slot_put_slot [OF l]
    by (auto simp: less_Suc_eq)
qed

lemma ring_start_coupled:
  assumes "0 < nslots" "nslots < 2 ^ 31" "base + unat nslots * AVE_BOOT_SLOT_SIZE \<le> length m"
  shows "coupled (unat nslots) base (ring_start m base nslots)
    \<lparr>l_free = unat nslots, l_down = [], l_held = 0, l_up = []\<rparr>"
proof -
  have n: "0 < unat nslots" "unat nslots < 2 ^ 31"
    using assms(1,2) by (simp_all add: word_less_nat_alt)
  have "coupled_at (unat nslots) base 0 0 0 0 (ring_start m base nslots)
    \<lparr>l_free = unat nslots, l_down = [], l_held = 0, l_up = []\<rparr>"
    using n ring_init_slots_ok [OF assms(3) order_refl, of 1] assms(3)
    by (auto simp: coupled_at_def ring_start_def ave_ring_init_def geometry_def odd_ok_def even_ok_def
        slots_ok_def Let_def)
  then show ?thesis by (auto simp: coupled_def)
qed

text \<open>What the link itself guarantees: first in, first out, nothing lost or repeated.\<close>

definition sent_msgs :: "bool \<Rightarrow> ring_op list \<Rightarrow> ring_out list \<Rightarrow> ring_msg list" where
  "sent_msgs down ops rs = concat (map (\<lambda>(op, r). case op of
       OddSend msg \<Rightarrow> if down \<and> r = Sent then [msg] else []
     | EvenSend msg \<Rightarrow> if \<not> down \<and> r = Sent then [msg] else []
     | _ \<Rightarrow> []) (zip ops rs))"

definition received_msgs :: "bool \<Rightarrow> ring_op list \<Rightarrow> ring_out list \<Rightarrow> ring_msg list" where
  "received_msgs down ops rs = concat (map (\<lambda>(op, r).
     if op = (if down then EvenRecv else OddRecv)
     then (case r of Received msg \<Rightarrow> [msg] | _ \<Rightarrow> []) else []) (zip ops rs))"

definition under_way :: "bool \<Rightarrow> link \<Rightarrow> ring_msg list" where
  "under_way down l = (if down then l_down l else l_up l)"

lemma link_fifo:
  "under_way down l @ sent_msgs down ops (snd (run_ops link_step l ops))
     = received_msgs down ops (snd (run_ops link_step l ops))
       @ under_way down (fst (run_ops link_step l ops))"
proof (induction ops arbitrary: l)
  case Nil
  then show ?case by (simp add: sent_msgs_def received_msgs_def)
next
  case (Cons op ops)
  show ?case
    using Cons [of "fst (link_step l op)"]
    by (cases op; cases down)
      (auto simp: case_prod_beta Let_def sent_msgs_def received_msgs_def link_step_def under_way_def
        split: list.splits)
qed

lemma link_credits:
  "l_free (fst (run_ops link_step l ops)) + length (l_down (fst (run_ops link_step l ops)))
     + l_held (fst (run_ops link_step l ops)) + length (l_up (fst (run_ops link_step l ops)))
   = l_free l + length (l_down l) + l_held l + length (l_up l)"
proof (induction ops arbitrary: l)
  case Nil
  then show ?case by simp
next
  case (Cons op ops)
  show ?case
    using Cons [of "fst (link_step l op)"]
    by (cases op) (auto simp: case_prod_beta Let_def link_step_def split: list.splits)
qed


section \<open>Writes stay inside the slot array\<close>

definition same_outside :: "nat \<Rightarrow> nat \<Rightarrow> u8 list \<Rightarrow> u8 list \<Rightarrow> bool" where
  "same_outside base n m m' \<longleftrightarrow> length m' = length m
     \<and> (\<forall>x. x < base \<or> base + n * AVE_BOOT_SLOT_SIZE \<le> x \<longrightarrow> m' ! x = m ! x)"

lemma same_outside_refl [simp]: "same_outside base n m m"
  by (simp add: same_outside_def)

lemma same_outside_trans: "same_outside b n m m' \<Longrightarrow> same_outside b n m' m'' \<Longrightarrow> same_outside b n m m''"
  by (simp add: same_outside_def)

lemma same_outside_put:
  "base + n * AVE_BOOT_SLOT_SIZE \<le> length m \<Longrightarrow> i < n \<Longrightarrow>
     same_outside base n m (slot_put m (base + i * AVE_BOOT_SLOT_SIZE) w0 w1 w2)"
  by (simp add: same_outside_def slot_put_frame)

lemma send_outside:
  assumes "ave_ring_send m r p a1 a2 = Some (m', r')" "r_slots r = base" "r_wr r < int n"
    "base + n * AVE_BOOT_SLOT_SIZE \<le> length m"
  shows "same_outside base n m m'"
  using assms same_outside_put [OF assms(4), of "nat (r_wr r)"]
  by (auto simp: ave_ring_send_def Let_def slot_off_def split: if_splits)

lemma coupled_ends:
  assumes "coupled N base s l"
  shows "r_slots (sys_odd s) = base" "r_slots (sys_even s) = base"
    "r_wr (sys_odd s) < int N" "r_wr (sys_even s) < int N"
    "base + N * AVE_BOOT_SLOT_SIZE \<le> length (sys_mem s)"
  using assms by (auto simp: coupled_def coupled_at_def odd_ok_def even_ok_def geometry_def)

lemma step_outside:
  assumes "coupled N base s l"
  shows "same_outside base N (sys_mem s) (sys_mem (fst (ring_step s op)))"
  using coupled_ends [OF assms]
  by (auto simp: ring_step_def case_prod_beta Let_def split: ring_op.splits option.splits
      intro: send_outside)

lemma run_outside:
  assumes "coupled N base s l" "list_all op_ok ops"
  shows "same_outside base N (sys_mem s) (sys_mem (fst (run_ops ring_step s ops)))"
  using assms
proof (induction ops arbitrary: s l)
  case Nil
  then show ?case by simp
next
  case (Cons op ops)
  then have "coupled N base (fst (ring_step s op)) (fst (link_step l op))"
    by (simp add: coupled_step)
  then show ?case
    using Cons.IH [of "fst (ring_step s op)"] Cons.prems step_outside [OF Cons.prems(1), of op]
    by (auto simp: case_prod_beta Let_def intro: same_outside_trans)
qed

lemma init_outside:
  assumes "base + n * AVE_BOOT_SLOT_SIZE \<le> length m" "i \<le> n"
  shows "same_outside base n m (ring_init_slots m base 1 i)"
  using assms(2)
proof (induction i)
  case (Suc i)
  have l: "base + n * AVE_BOOT_SLOT_SIZE \<le> length (ring_init_slots m base 1 i)"
    using ring_init_slots_ok [OF assms(1), of i 1] Suc.prems assms(1) by simp
  show ?case
    using Suc same_outside_put [OF l, of i] by (auto intro: same_outside_trans)
qed simp

section \<open>Unidirectional rings\<close>

text \<open>
  A ring whose descriptor direction is 2 or more (TERMINAL, the firmware's log) runs one way:
  the firmware, type 3, sends into a slot the host has handed back, and the host, type 2,
  receives and hands the slot back in the same step.
\<close>

datatype uring_op = USend ring_msg | URecv

record uring_sys =
  u_mem :: "u8 list"
  u_fw :: ave_ring
  u_host :: ave_ring

definition uring_step :: "uring_sys \<Rightarrow> uring_op \<Rightarrow> uring_sys \<times> ring_out" where
  "uring_step s op =
     (case op of
        USend msg \<Rightarrow> (let (p, a1, a2) = msg in
          (case ave_ring_usend (u_mem s) (u_fw s) p a1 a2 of
             None \<Rightarrow> (s, Refused)
           | Some (m, r) \<Rightarrow> (s\<lparr>u_mem := m, u_fw := r\<rparr>, Sent)))
      | URecv \<Rightarrow>
          (case ave_ring_urecv (u_mem s) (u_host s) of
             None \<Rightarrow> (s, Refused)
           | Some (msg, m, r) \<Rightarrow> (s\<lparr>u_mem := m, u_host := r\<rparr>, Received msg)))"

definition uring_start :: "u8 list \<Rightarrow> nat \<Rightarrow> u32 \<Rightarrow> u32 \<Rightarrow> uring_sys" where
  "uring_start m base nslots dir =
     (let (m', fw_end) = ave_ring_init m base nslots (ave_ring_fw_type_13_5 dir);
          (m'', host_end) = ave_ring_init m' base nslots (ave_ring_dir_to_type dir)
      in \<lparr>u_mem = m'', u_fw = fw_end, u_host = host_end\<rparr>)"

text \<open>The abstract one-way link: a queue that holds at most \<open>N\<close> messages.\<close>

definition bqueue_step :: "nat \<Rightarrow> ring_msg list \<Rightarrow> uring_op \<Rightarrow> ring_msg list \<times> ring_out" where
  "bqueue_step N q op =
     (case op of
        USend msg \<Rightarrow> if length q = N then (q, Refused) else (q @ [msg], Sent)
      | URecv \<Rightarrow> (case q of [] \<Rightarrow> (q, Refused) | msg # q' \<Rightarrow> (q', Received msg)))"

definition uop_ok :: "uring_op \<Rightarrow> bool" where
  "uop_ok op = (case op of USend msg \<Rightarrow> fst msg AND 3 = 0 | URecv \<Rightarrow> True)"

definition ucoupled_at :: "nat \<Rightarrow> nat \<Rightarrow> nat \<Rightarrow> nat \<Rightarrow> uring_sys \<Rightarrow> ring_msg list \<Rightarrow> bool" where
  "ucoupled_at N base st rt s q \<longleftrightarrow>
     geometry N base (u_mem s) \<and> rt \<le> st \<and> st \<le> rt + N \<and> length q = st - rt
     \<and> r_slots (u_fw s) = base \<and> r_nslots (u_fw s) = of_nat N \<and> r_type (u_fw s) = 3
     \<and> r_wr (u_fw s) = int (st mod N)
     \<and> r_slots (u_host s) = base \<and> r_nslots (u_host s) = of_nat N \<and> r_type (u_host s) = 2
     \<and> r_rd (u_host s) = int (rt mod N)
     \<and> (\<forall>k. rt \<le> k \<and> k < rt + N \<longrightarrow>
          fst (slot (u_mem s) base (k mod N)) AND 1 = (if k < st then 0 else 1))
     \<and> (\<forall>k. rt \<le> k \<and> k < st \<longrightarrow> msg_of (slot (u_mem s) base (k mod N)) = q ! (k - rt))"

definition ucoupled :: "nat \<Rightarrow> nat \<Rightarrow> uring_sys \<Rightarrow> ring_msg list \<Rightarrow> bool" where
  "ucoupled N base s q \<longleftrightarrow> (\<exists>st rt. ucoupled_at N base st rt s q)"

lemma ucoupledI: "ucoupled_at N base st rt s q \<Longrightarrow> ucoupled N base s q"
  unfolding ucoupled_def by blast

lemma usent_msg:
  assumes "p AND 3 = 0"
  shows "(p OR (ucast (3 :: u32) XOR 1)) AND 1 = (0 :: u64)"
    and "msg_of (p OR (ucast (3 :: u32) XOR 1), ucast a1, ucast a2) = (p, a1, a2)"
proof -
  have b: "\<not> bit p n" if "n < 2" for n
    using assms that unfolding word_three by (metis bit_0_eq bit_and_iff bit_mask_iff bot_apply bot_bool_def
        possible_bit_word bit_imp_le_length not_le)
  have x: "(ucast (3 :: u32) XOR 1 :: u64) = push_bit 1 1" by simp
  show "(p OR (ucast (3 :: u32) XOR 1)) AND 1 = (0 :: u64)"
    unfolding x using b by (auto intro!: bit_word_eqI simp: bit_simps)
  have "(p OR push_bit 1 1) AND NOT 3 = p"
    unfolding word_three using b by (auto intro!: bit_word_eqI simp: bit_simps)
  then show "msg_of (p OR (ucast (3 :: u32) XOR 1), ucast a1, ucast a2) = (p, a1, a2)"
    unfolding x by (simp add: msg_of_def ucast_32_64_32)
qed

lemma usend_step:
  assumes c: "ucoupled_at N base st rt s q" and p: "p AND 3 = 0"
  shows "if length q = N then ave_ring_usend (u_mem s) (u_fw s) p a1 a2 = None
    else \<exists>m r. ave_ring_usend (u_mem s) (u_fw s) p a1 a2 = Some (m, r)
      \<and> ucoupled_at N base (Suc st) rt (s\<lparr>u_mem := m, u_fw := r\<rparr>) (q @ [(p, a1, a2)])"
proof -
  from c have geo: "geometry N base (u_mem s)" and le: "rt \<le> st" "st \<le> rt + N"
    and lq: "length q = st - rt" and off: "slot_off (u_fw s) (int (st mod N)) = base + (st mod N) * AVE_BOOT_SLOT_SIZE"
    and fw: "r_wr (u_fw s) = int (st mod N)" "r_type (u_fw s) = 3" "r_nslots (u_fw s) = of_nat N"
    by (auto simp: ucoupled_at_def slot_off_def)
  have N: "0 < N" "N < 2 ^ 31" using geo by (auto simp: geometry_def)
  have ph: "get_le64 (u_mem s) (base + (st mod N) * AVE_BOOT_SLOT_SIZE) AND 1 = (if st < rt + N then 1 else 0)"
  proof (cases "st < rt + N")
    case True
    then have "fst (slot (u_mem s) base (st mod N)) AND 1 = 1" using c le by (auto simp: ucoupled_at_def)
    then show ?thesis using True by (simp add: slot_def Let_def)
  next
    case False
    then have "st = rt + N" using le by simp
    then have "st mod N = rt mod N" "rt < st" using N by auto
    then have "fst (slot (u_mem s) base (st mod N)) AND 1 = 0" using c N by (auto simp: ucoupled_at_def)
    then show ?thesis using False by (simp add: slot_def Let_def)
  qed
  show ?thesis
  proof (cases "length q = N")
    case True
    then have "\<not> st < rt + N" using lq le N by simp
    then show ?thesis using True ph by (simp add: ave_ring_usend_def Let_def fw off)
  next
    case False
    then have lt: "st < rt + N" using lq le by simp
    define m where "m = slot_put (u_mem s) (base + (st mod N) * AVE_BOOT_SLOT_SIZE)
      (p OR (ucast (3 :: u32) XOR 1)) (ucast a1) (ucast a2)"
    define r where "r = (u_fw s)\<lparr>r_wr := int (Suc st mod N), r_nsend := r_nsend (u_fw s) + 1\<rparr>"
    have "ave_ring_usend (u_mem s) (u_fw s) p a1 a2 = Some (m, r)"
      using lt ph by (simp add: ave_ring_usend_def Let_def fw off m_def r_def ring_next_mod [OF N fw(3)])
    moreover have "ucoupled_at N base (Suc st) rt (s\<lparr>u_mem := m, u_fw := r\<rparr>) (q @ [(p, a1, a2)])"
      using c lt le lq usent_msg [OF p]
      by (auto simp: ucoupled_at_def m_def r_def geometry_put nth_append less_Suc_eq
          slot_update_window [OF geo _ _, of rt st])
    ultimately show ?thesis using False by auto
  qed
qed


lemma poke_slot:
  assumes "base + n * AVE_BOOT_SLOT_SIZE \<le> length m" "i < n" "j < n"
  shows "slot (poke m (base + i * AVE_BOOT_SLOT_SIZE) (put_le64 v)) base j
    = (if i = j then (v, snd (slot m base i)) else slot m base j)"
proof (cases "i = j")
  case True
  then show ?thesis
    using slot_in_region [OF assms(1,2)]
    by (simp add: slot_def Let_def get_le64_poke_same get_le64_poke_other)
next
  case False
  have "get_le64 (poke m (base + i * AVE_BOOT_SLOT_SIZE) (put_le64 v)) (base + j * AVE_BOOT_SLOT_SIZE + x)
      = get_le64 m (base + j * AVE_BOOT_SLOT_SIZE + x)" if "x \<le> 16" for x
    using slot_in_region [OF assms(1,2)] slot_disjoint [OF False] that
    by (intro get_le64_poke_other) auto
  from this [of 0] this [of 8] this [of 16] False show ?thesis by (simp add: slot_def Let_def)
qed

lemma urecv_step:
  assumes c: "ucoupled_at N base st rt s q"
  shows "case q of
      [] \<Rightarrow> ave_ring_urecv (u_mem s) (u_host s) = None
    | msg # q' \<Rightarrow> \<exists>m r. ave_ring_urecv (u_mem s) (u_host s) = Some (msg, m, r)
        \<and> ucoupled_at N base st (Suc rt) (s\<lparr>u_mem := m, u_host := r\<rparr>) q'"
proof -
  from c have geo: "geometry N base (u_mem s)" and le: "rt \<le> st" "st \<le> rt + N"
    and lq: "length q = st - rt" and off: "slot_off (u_host s) (int (rt mod N)) = base + (rt mod N) * AVE_BOOT_SLOT_SIZE"
    and h: "r_rd (u_host s) = int (rt mod N)" "r_type (u_host s) = 2" "r_nslots (u_host s) = of_nat N"
    by (auto simp: ucoupled_at_def slot_off_def)
  have N: "0 < N" "N < 2 ^ 31" and fits: "base + N * AVE_BOOT_SLOT_SIZE \<le> length (u_mem s)"
    using geo by (auto simp: geometry_def)
  let ?s = "base + (rt mod N) * AVE_BOOT_SLOT_SIZE"
  have ph: "get_le64 (u_mem s) ?s AND 1 = (if rt < st then 0 else 1)"
    using c N by (auto simp: ucoupled_at_def slot_def Let_def dest!: spec [of _ rt])
  show ?thesis
  proof (cases q)
    case Nil
    then have "\<not> rt < st" using lq by simp
    then show ?thesis using Nil ph by (simp add: ave_ring_urecv_def Let_def h off)
  next
    case (Cons msg q')
    then have lt: "rt < st" using lq by auto
    have m: "msg_of (slot (u_mem s) base (rt mod N)) = msg"
      using c lt Cons by (auto simp: ucoupled_at_def)
    define m' where "m' = poke (u_mem s) ?s (put_le64 (ucast (2 :: u32) XOR 1))"
    define r where "r = (u_host s)\<lparr>r_rd := int (Suc rt mod N), r_nrecv := r_nrecv (u_host s) + 1\<rparr>"
    have win: "slot m' base (k mod N) = (if k = rt then (3, snd (slot (u_mem s) base (rt mod N)))
        else slot (u_mem s) base (k mod N))" if "rt \<le> k" "k < rt + N" for k
      using that N poke_slot [OF fits, of "rt mod N" "k mod N"] mod_inj_window [of rt k N rt]
      by (auto simp: m'_def)
    have last: "slot m' base ((rt + N) mod N) = (3, snd (slot (u_mem s) base (rt mod N)))"
      using win [of rt] N by simp
    have "ave_ring_urecv (u_mem s) (u_host s) = Some (msg, m', r)"
      using lt ph m
      by (simp add: ave_ring_urecv_def Let_def h off m'_def r_def ring_next_mod [OF N h(3)] slot_def msg_of_def)
    moreover have "ucoupled_at N base st (Suc rt) (s\<lparr>u_mem := m', u_host := r\<rparr>) q'"
    proof -
      have g: "geometry N base m'"
        using geo slot_in_region [OF fits, of "rt mod N"] N by (simp add: geometry_def m'_def)
      have "fst (slot m' base (k mod N)) AND 1 = (if k < st then 0 else 1)"
        if "Suc rt \<le> k" "k < Suc rt + N" for k
        using that last win [of k] c le N by (cases "k = rt + N") (auto simp: ucoupled_at_def)
      moreover have "msg_of (slot m' base (k mod N)) = q' ! (k - Suc rt)" if "Suc rt \<le> k" "k < st" for k
        using that win [of k] c le Cons by (auto simp: ucoupled_at_def nth_Cons')
      ultimately show ?thesis
        using c lt lq Cons g by (auto simp: ucoupled_at_def r_def)
    qed
    ultimately show ?thesis using Cons by auto
  qed
qed

lemma ucoupled_step:
  assumes "ucoupled N base s q" "uop_ok op"
  shows "snd (uring_step s op) = snd (bqueue_step N q op)
    \<and> ucoupled N base (fst (uring_step s op)) (fst (bqueue_step N q op))"
proof -
  obtain st rt where c: "ucoupled_at N base st rt s q" using assms(1) by (auto simp: ucoupled_def)
  show ?thesis
  proof (cases op)
    case (USend msg)
    obtain p a1 a2 where msg: "msg = (p, a1, a2)" by (metis prod.exhaust)
    have al: "p AND 3 = 0" using assms(2) by (simp add: USend msg uop_ok_def)
    show ?thesis
      using usend_step [OF c al, of a1 a2] assms(1)
      by (auto simp: USend msg uring_step_def bqueue_step_def intro: ucoupledI split: if_splits)
  next
    case URecv
    then show ?thesis
      using urecv_step [OF c] assms(1)
      by (auto simp: uring_step_def bqueue_step_def intro: ucoupledI split: list.splits)
  qed
qed

interpretation uring: stepwise_refinement "ucoupled N base" uring_step "bqueue_step N" uop_ok for N base
  by unfold_locales (simp_all add: ucoupled_step)


lemma uring_start_coupled:
  assumes "0 < nslots" "nslots < 2 ^ 31" "base + unat nslots * AVE_BOOT_SLOT_SIZE \<le> length m"
  shows "ucoupled (unat nslots) base (uring_start m base nslots 2) []"
proof -
  have n: "0 < unat nslots" "unat nslots < 2 ^ 31"
    using assms(1,2) by (simp_all add: word_less_nat_alt)
  have "ucoupled_at (unat nslots) base 0 0 (uring_start m base nslots 2) []"
    using n ring_init_slots_ok [OF assms(3) order_refl, of 3] assms(3)
    by (auto simp: ucoupled_at_def uring_start_def ave_ring_init_def geometry_def Let_def
        ave_ring_fw_type_13_5_def ave_ring_dir_to_type_def)
  then show ?thesis by (rule ucoupledI)
qed

section \<open>Properties\<close>

text \<open>C2. Whatever the two ends do, in whatever order, the ring answers every operation as an
  abstract link does: a send is refused exactly when no slot is free to its side, a receive
  exactly when nothing is under way to it, and a receive returns the oldest message whole. The
  link starts with every slot free to the odd end. (Payloads have their two low bits clear, as
  \<open>ave_ipc_send\<close> checks.)\<close>

theorem ring_refines_link:
  assumes "0 < nslots" "nslots < 2 ^ 31" "base + unat nslots * AVE_BOOT_SLOT_SIZE \<le> length m"
    and "list_all op_ok ops"
  shows "snd (run_ops ring_step (ring_start m base nslots) ops)
    = snd (run_ops link_step \<lparr>l_free = unat nslots, l_down = [], l_held = 0, l_up = []\<rparr> ops)"
  using ring.run_refines [OF ring_start_coupled [OF assms(1-3)] assms(4)] by simp

theorem ring_refines_link_witness:
  "snd (run_ops ring_step (ring_start (replicate 256 0xAA) 64 2)
      [OddSend (16, 7, 1), OddSend (32, 8, 0), OddSend (48, 9, 0), EvenRecv, EvenSend (16, 0, 5), OddRecv])
   = [Sent, Sent, Refused, Received (16, 7, 1), Sent, Received (16, 0, 5)]"
  using ring_refines_link [of 2 64 "replicate 256 0xAA" "[OddSend (16, 7, 1), OddSend (32, 8, 0),
      OddSend (48, 9, 0), EvenRecv, EvenSend (16, 0, 5), OddRecv]"]
  by (simp add: AVE_BOOT_SLOT_SIZE_def op_ok_def link_step_def)

text \<open>C11. In both directions the messages received are a prefix of the messages accepted for
  sending, in order: nothing is lost, repeated, reordered or invented, and at most \<open>nslots\<close>
  messages are under way.\<close>

theorem ring_fifo:
  assumes "0 < nslots" "nslots < 2 ^ 31" "base + unat nslots * AVE_BOOT_SLOT_SIZE \<le> length m"
    and "list_all op_ok ops"
  shows "\<exists>q. sent_msgs down ops (snd (run_ops ring_step (ring_start m base nslots) ops))
      = received_msgs down ops (snd (run_ops ring_step (ring_start m base nslots) ops)) @ q
    \<and> length q \<le> unat nslots"
proof -
  let ?l = "\<lparr>l_free = unat nslots, l_down = [], l_held = 0, l_up = []\<rparr>"
  have eq: "snd (run_ops ring_step (ring_start m base nslots) ops) = snd (run_ops link_step ?l ops)"
    using ring.run_refines [OF ring_start_coupled [OF assms(1-3)] assms(4)] by simp
  show ?thesis
    using link_fifo [of down ?l ops] link_credits [of ?l ops]
    by (intro exI [of _ "under_way down (fst (run_ops link_step ?l ops))"])
      (auto simp: eq under_way_def)
qed

theorem ring_fifo_witness:
  "\<exists>q. sent_msgs True [OddSend (16, 7, 1), EvenRecv, OddSend (32, 8, 0)]
        (snd (run_ops ring_step (ring_start (replicate 64 0) 0 1)
          [OddSend (16, 7, 1), EvenRecv, OddSend (32, 8, 0)]))
      = received_msgs True [OddSend (16, 7, 1), EvenRecv, OddSend (32, 8, 0)]
        (snd (run_ops ring_step (ring_start (replicate 64 0) 0 1)
          [OddSend (16, 7, 1), EvenRecv, OddSend (32, 8, 0)])) @ q \<and> length q \<le> 1"
  using ring_fifo [of 1 0 "replicate 64 0" "[OddSend (16, 7, 1), EvenRecv, OddSend (32, 8, 0)]" True]
  by (simp add: AVE_BOOT_SLOT_SIZE_def op_ok_def)

text \<open>C12. Initialising the ring and running it never writes a byte outside its slot array, and
  never changes the size of the shared region.\<close>

theorem ring_writes_inside:
  assumes "0 < nslots" "nslots < 2 ^ 31" "base + unat nslots * AVE_BOOT_SLOT_SIZE \<le> length m"
    and "list_all op_ok ops"
  shows "same_outside base (unat nslots) m
    (sys_mem (fst (run_ops ring_step (ring_start m base nslots) ops)))"
proof -
  have "same_outside base (unat nslots) m (sys_mem (ring_start m base nslots))"
    using init_outside [OF assms(3) order_refl] by (simp add: ring_start_def ave_ring_init_def)
  then show ?thesis
    using run_outside [OF ring_start_coupled [OF assms(1-3)] assms(4)] by (rule same_outside_trans)
qed

theorem ring_writes_inside_witness:
  "same_outside 64 1 (replicate 256 3)
    (sys_mem (fst (run_ops ring_step (ring_start (replicate 256 3) 64 1) [OddSend (4, 1, 1)])))"
  using ring_writes_inside [of 1 64 "replicate 256 3" "[OddSend (4, 1, 1)]"]
  by (simp add: AVE_BOOT_SLOT_SIZE_def op_ok_def)

text \<open>C13. The log ring (direction 2) is a bounded queue: the firmware's send is refused exactly
  when \<open>nslots\<close> lines are unread, the host's receive exactly when none is, and lines arrive
  whole and in order.\<close>

theorem uring_is_bounded_queue:
  assumes "0 < nslots" "nslots < 2 ^ 31" "base + unat nslots * AVE_BOOT_SLOT_SIZE \<le> length m"
    and "list_all uop_ok ops"
  shows "snd (run_ops uring_step (uring_start m base nslots 2) ops)
    = snd (run_ops (bqueue_step (unat nslots)) [] ops)"
  using uring.run_refines [OF uring_start_coupled [OF assms(1-3)] assms(4)] by simp

theorem uring_is_bounded_queue_witness:
  "snd (run_ops uring_step (uring_start (replicate 64 0) 0 1 2)
      [URecv, USend (8, 3, 2), USend (12, 1, 2), URecv, USend (12, 1, 2)])
   = [Refused, Sent, Refused, Received (8, 3, 2), Sent]"
  using uring_is_bounded_queue [of 1 0 "replicate 64 0" "[URecv, USend (8, 3, 2), USend (12, 1, 2), URecv,
      USend (12, 1, 2)]"]
  by (simp add: AVE_BOOT_SLOT_SIZE_def uop_ok_def bqueue_step_def)

end
