(* ===== verification/Ave_Ring_Host.thy ===== *)
theory Ave_Ring_Host
  imports Ave_Ring
begin

text \<open>
  One end of a ring against any other end. \<open>Ave_Ring\<close> couples two ends that both run the
  algorithm; here only the host does, and the firmware may leave any bytes in the slots. What
  remains true is that the handle stays in its bounds (\<open>ring_ok\<close>), writes only slots, and
  that every receive uses up one of finitely many readable slots while a send adds none: the
  set \<open>readable\<close> is the measure by which the driver's drain loops end.
\<close>

section \<open>A handle's bounds\<close>

definition ring_ok :: "nat \<Rightarrow> ave_ring \<Rightarrow> bool" where
  "ring_ok len r \<longleftrightarrow>
     0 < r_nslots r \<and> unat (r_nslots r) < 2 ^ 31
   \<and> r_slots r + unat (r_nslots r) * AVE_BOOT_SLOT_SIZE \<le> len
   \<and> r_type r \<in> {0, 1, 2}
   \<and> -1 \<le> r_rd r \<and> r_rd r < int (unat (r_nslots r))
   \<and> -1 \<le> r_wr r \<and> r_wr r < int (unat (r_nslots r))
   \<and> r_rd r \<noteq> r_wr r
   \<and> (r_type r = 2 \<longrightarrow> 0 \<le> r_rd r \<and> r_wr r = -1)"

text \<open>The slots between \<open>rd\<close> and \<open>wr\<close>: those the next receives look at.\<close>

definition in_range :: "ave_ring \<Rightarrow> int \<Rightarrow> bool" where
  "in_range r j \<longleftrightarrow> 0 \<le> r_rd r
     \<and> (r_wr r < 0 \<or> (if r_rd r < r_wr r then r_rd r \<le> j \<and> j < r_wr r
                      else r_rd r \<le> j \<or> j < r_wr r))"

definition phase_of :: "u8 list \<Rightarrow> ave_ring \<Rightarrow> nat \<Rightarrow> u64" where
  "phase_of m r j = get_le64 m (r_slots r + j * AVE_BOOT_SLOT_SIZE) AND 1"

definition readable :: "u8 list \<Rightarrow> ave_ring \<Rightarrow> nat set" where
  "readable m r = {j. j < unat (r_nslots r) \<and> in_range r (int j)
                      \<and> phase_of m r j = ucast (r_type r AND 1)}"

lemma readable_card: "card (readable m r) \<le> unat (r_nslots r)" "finite (readable m r)"
proof -
  have sub: "readable m r \<subseteq> {..<unat (r_nslots r)}" by (auto simp: readable_def)
  then show "finite (readable m r)" by (rule finite_subset) simp
  show "card (readable m r) \<le> unat (r_nslots r)" using card_mono [OF _ sub] by simp
qed

lemma sint_nslots: "ring_ok len r \<Longrightarrow> sint (r_nslots r) = int (unat (r_nslots r))"
  using sint_slots [of "unat (r_nslots r)"] by (simp add: ring_ok_def)

lemma ring_next_bounds:
  assumes "ring_ok len r" "0 \<le> i" "i < int (unat (r_nslots r))"
  shows "0 \<le> ring_next r i" "ring_next r i < int (unat (r_nslots r))"
  using assms sint_nslots [OF assms(1)] by (auto simp: ring_next_def ring_ok_def)

section \<open>Receiving\<close>

lemma recv_ok:
  assumes ok: "ring_ok len r" and two: "r_type r \<noteq> 2" and rc: "ave_ring_recv m r = Some (x, r')"
  shows "ring_ok len r'" "r_slots r' = r_slots r" "r_nslots r' = r_nslots r" "r_type r' = r_type r"
    "nat (r_rd r) \<in> readable m r" "readable m r' \<subseteq> readable m r - {nat (r_rd r)}"
    "fst x AND 3 = 0"
proof -
  let ?N = "int (unat (r_nslots r))"
  have s: "sint (r_nslots r) = ?N" using ok by (rule sint_nslots)
  have rd: "0 \<le> r_rd r" "r_rd r < ?N" and wr: "-1 \<le> r_wr r" "r_wr r < ?N" and ne: "r_rd r \<noteq> r_wr r"
    and N: "0 < ?N"
    using ok rc by (auto simp: ring_ok_def ave_ring_recv_def split: if_splits)
  have i: "nat (r_rd r) < unat (r_nslots r)" using rd by linarith
  let ?w = "if r_wr r < 0 then r_rd r else r_wr r"
  have ph: "get_le64 m (slot_off r (r_rd r)) AND 1 = ucast (r_type r AND 1)"
    and r': "r' = r\<lparr>r_wr := ?w, r_rd := (if ?w = ring_next r (r_rd r) then -1 else ring_next r (r_rd r)),
        r_nrecv := r_nrecv r + 1\<rparr>"
    and x: "fst x = get_le64 m (slot_off r (r_rd r)) AND NOT 3"
    using rc by (auto simp: ave_ring_recv_def Let_def split: if_splits)
  show "r_slots r' = r_slots r" "r_nslots r' = r_nslots r" "r_type r' = r_type r"
    by (simp_all add: r')
  show "ring_ok len r'"
    using ok rd wr ne two s by (auto simp: r' ring_ok_def ring_next_def)
  show "fst x AND 3 = 0" by (simp add: x bit_eq_iff bit_simps)
  show "nat (r_rd r) \<in> readable m r"
    using rd wr ne ph i by (auto simp: readable_def in_range_def phase_of_def slot_off_def)
  have "in_range r' (int j) \<Longrightarrow> j < unat (r_nslots r) \<Longrightarrow> in_range r (int j) \<and> j \<noteq> nat (r_rd r)" for j
    using rd wr ne N by (auto simp: r' in_range_def ring_next_def s split: if_splits)
  moreover have "phase_of m r' j = phase_of m r j" "r_nslots r' = r_nslots r" "r_type r' = r_type r" for j
    by (simp_all add: phase_of_def r')
  ultimately show "readable m r' \<subseteq> readable m r - {nat (r_rd r)}"
    unfolding readable_def by (metis (no_types, lifting) DiffI mem_Collect_eq singletonD subsetI)
qed

lemma urecv_ok:
  assumes ok: "ring_ok (length m) r" and two: "r_type r = 2"
    and rc: "ave_ring_urecv m r = Some (x, m', r')"
  shows "ring_ok (length m) r'" "r_slots r' = r_slots r" "r_nslots r' = r_nslots r"
    "r_type r' = r_type r"
    "nat (r_rd r) \<in> readable m r" "readable m' r' \<subseteq> readable m r - {nat (r_rd r)}"
    "fst x AND 3 = 0" "same_outside (r_slots r) (unat (r_nslots r)) m m'"
proof -
  let ?N = "unat (r_nslots r)" and ?i = "nat (r_rd r)"
  have rd: "0 \<le> r_rd r" "r_rd r < int ?N" and wr: "r_wr r = -1"
    and fit: "r_slots r + ?N * AVE_BOOT_SLOT_SIZE \<le> length m"
    using ok two by (auto simp: ring_ok_def)
  have i: "?i < ?N" using rd by linarith
  have s: "sint (r_nslots r) = int ?N" using ok by (rule sint_nslots)
  have off: "slot_off r (r_rd r) = r_slots r + ?i * AVE_BOOT_SLOT_SIZE" by (simp add: slot_off_def)
  have ph: "get_le64 m (r_slots r + ?i * AVE_BOOT_SLOT_SIZE) AND 1 = ucast (r_type r AND 1)"
    and r': "r' = r\<lparr>r_rd := ring_next r (r_rd r), r_nrecv := r_nrecv r + 1\<rparr>"
    and m': "m' = poke m (r_slots r + ?i * AVE_BOOT_SLOT_SIZE) (put_le64 (ucast (r_type r) XOR 1))"
    and x: "fst x = get_le64 m (r_slots r + ?i * AVE_BOOT_SLOT_SIZE) AND NOT 3"
    using rc rd by (auto simp: ave_ring_urecv_def Let_def off split: if_splits)
  show "r_slots r' = r_slots r" "r_nslots r' = r_nslots r" "r_type r' = r_type r"
    by (simp_all add: r')
  show "ring_ok (length m) r'"
    using ok rd wr two s by (auto simp: r' ring_ok_def ring_next_def)
  show "fst x AND 3 = 0" by (simp add: x bit_eq_iff bit_simps)
  show "?i \<in> readable m r"
    using rd wr ph i by (auto simp: readable_def in_range_def phase_of_def)
  have room: "r_slots r + ?i * AVE_BOOT_SLOT_SIZE + 64 \<le> r_slots r + ?N * AVE_BOOT_SLOT_SIZE"
    using mult_le_mono1 [of "Suc ?i" ?N AVE_BOOT_SLOT_SIZE] i by (simp add: AVE_BOOT_SLOT_SIZE_def)
  then show "same_outside (r_slots r) ?N m m'"
    using fit by (auto simp: same_outside_def m' poke_nth)
  have same: "get_le64 m' (r_slots r + j * AVE_BOOT_SLOT_SIZE) =
      (if j = ?i then 3 else get_le64 m (r_slots r + j * AVE_BOOT_SLOT_SIZE))" for j
    using slot_disjoint [of j ?i] room fit two
    by (auto simp: m' get_le64_poke_same get_le64_poke_other)
  show "readable m' r' \<subseteq> readable m r - {?i}"
    using rd wr two by (auto simp: readable_def phase_of_def in_range_def r' same split: if_splits)
qed

section \<open>Sending\<close>

lemma send_ok:
  assumes ok: "ring_ok (length m) r" and al: "p AND 1 = 0"
    and sd: "ave_ring_send m r p a1 a2 = Some (m', r')"
  shows "ring_ok (length m) r'" "r_slots r' = r_slots r" "r_nslots r' = r_nslots r"
    "r_type r' = r_type r" "readable m' r' \<subseteq> readable m r"
    "same_outside (r_slots r) (unat (r_nslots r)) m m'"
proof -
  let ?N = "unat (r_nslots r)" and ?i = "nat (r_wr r)"
  have wr: "0 \<le> r_wr r" "r_wr r < int ?N" and rd: "-1 \<le> r_rd r" "r_rd r < int ?N"
    and ne: "r_rd r \<noteq> r_wr r" and N: "0 < int ?N"
    and fit: "r_slots r + ?N * AVE_BOOT_SLOT_SIZE \<le> length m" and two: "r_type r = 0 \<or> r_type r = 1"
    using ok sd by (auto simp: ring_ok_def ave_ring_send_def split: if_splits)
  have i: "?i < ?N" using wr by linarith
  have s: "sint (r_nslots r) = int ?N" using ok by (rule sint_nslots)
  let ?rd = "if r_rd r < 0 then r_wr r else r_rd r"
  have m': "m' = slot_put m (r_slots r + ?i * AVE_BOOT_SLOT_SIZE) (p OR (ucast (r_type r) XOR 1))
        (ucast a1) (ucast a2)"
    and r': "r' = r\<lparr>r_rd := ?rd, r_wr := (if ?rd = ring_next r (r_wr r) then -1 else ring_next r (r_wr r)),
        r_nsend := r_nsend r + 1\<rparr>"
    using sd by (auto simp: ave_ring_send_def Let_def slot_off_def split: if_splits)
  show "r_slots r' = r_slots r" "r_nslots r' = r_nslots r" "r_type r' = r_type r"
    by (simp_all add: r')
  show "ring_ok (length m) r'"
    using ok rd wr ne two s by (auto simp: r' ring_ok_def ring_next_def)
  show "same_outside (r_slots r) ?N m m'"
    unfolding m' using fit i by (rule same_outside_put)
  have first: "fst (slot m' (r_slots r) j) = (if ?i = j then p OR (ucast (r_type r) XOR 1)
      else fst (slot m (r_slots r) j))" if "j < ?N" for j
    unfolding m' using slot_put_slot [OF fit i that] by simp
  have bit0: "(p OR (ucast (r_type r) XOR 1)) AND 1 \<noteq> ucast (r_type r AND 1)"
    using two al by (auto simp: bit.conj_disj_distrib2)
  obtain k where "k = ?N" by simp
  then have k: "unat (r_nslots r) = k" "uint (r_nslots r) = int k" "sint (r_nslots r) = int k"
    using s by (simp_all only: of_nat_unat)
  have "in_range r' (int j) \<Longrightarrow> j < ?N \<Longrightarrow> j \<noteq> ?i \<Longrightarrow> in_range r (int j)" for j
    using rd wr ne N unfolding r' in_range_def ring_next_def
    by (auto simp: k split: if_splits)
  then show "readable m' r' \<subseteq> readable m r"
    using first bit0 by (fastforce simp: readable_def phase_of_def r' slot_def Let_def split: if_splits)
qed

section \<open>A fresh handle\<close>

lemma init_ok:
  assumes "0 < n" "unat n < 2 ^ 31" "base + unat n * AVE_BOOT_SLOT_SIZE \<le> length m"
  shows "ring_ok (length m) (snd (ave_ring_init m base n (ave_ring_dir_to_type dir)))"
    and "same_outside base (unat n) m (fst (ave_ring_init m base n (ave_ring_dir_to_type dir)))"
proof -
  have "0 < uint n" using assms(1) by (simp add: word_less_def)
  then show "ring_ok (length m) (snd (ave_ring_init m base n (ave_ring_dir_to_type dir)))"
    using assms by (auto simp: ave_ring_init_def ave_ring_dir_to_type_def ring_ok_def)
  show "same_outside base (unat n) m (fst (ave_ring_init m base n (ave_ring_dir_to_type dir)))"
    using init_outside [OF assms(3) order_refl]
    by (simp add: ave_ring_init_def ave_ring_dir_to_type_def)
qed

lemma init_fields:
  "r_slots (snd (ave_ring_init m base n type)) = base"
  "r_nslots (snd (ave_ring_init m base n type)) = n"
  "r_type (snd (ave_ring_init m base n type)) = type"
  by (simp_all add: ave_ring_init_def)

end
