(* ===== verification/Ave_Boot.thy ===== *)
theory Ave_Boot
  imports Ave_Ring
begin

text \<open>
  The boot ABI: \<^verbatim>\<open>src/driver/ave_version.c\<close> (which firmware interface to speak) and the
  first two thirds of \<^verbatim>\<open>src/driver/ave_abi_boot.h\<close> (the per-version descriptor, the test of
  message 1, the channel descriptors and the channel names). The ring of the same header is
  in \<open>Ave_Ring\<close>.

  A C string is the list of its bytes before the NUL; \<open>strcmp(a, b) == 0\<close> is then equality.
  The module parameter and the device tree, which \<open>ave_detect_fw_abi\<close> reads, are arguments.
\<close>

section \<open>Which ABI (\<open>ave_version.c\<close>)\<close>

datatype ave_fw_abi = AVE_ABI_UNKNOWN | AVE_ABI_MACOS_13_5 | AVE_ABI_MACOS_26_6

definition ave_known_versions :: "(u8 list \<times> ave_fw_abi) list" where
  "ave_known_versions =
     [(cstr ''13.5'', AVE_ABI_MACOS_13_5),
      (cstr ''26.6'', AVE_ABI_MACOS_26_6),
      (cstr ''26.6.2'', AVE_ABI_MACOS_26_6)]"

definition ave_fw_abi_name :: "ave_fw_abi \<Rightarrow> string" where
  "ave_fw_abi_name abi =
     (case abi of AVE_ABI_MACOS_13_5 \<Rightarrow> ''macOS 13.5''
      | AVE_ABI_MACOS_26_6 \<Rightarrow> ''macOS 26.6''
      | AVE_ABI_UNKNOWN \<Rightarrow> ''unknown'')"

fun ave_lookup_in :: "(u8 list \<times> ave_fw_abi) list \<Rightarrow> u8 list \<Rightarrow> ave_fw_abi" where
  "ave_lookup_in [] v = AVE_ABI_UNKNOWN"
| "ave_lookup_in ((version, abi) # ks) v = (if v = version then abi else ave_lookup_in ks v)"

definition ave_lookup :: "u8 list \<Rightarrow> ave_fw_abi" where
  "ave_lookup v = ave_lookup_in ave_known_versions v"

text \<open>\<open>param\<close> is the module parameter \<open>fw_abi\<close>; \<open>chosen\<close> the string property
  \<open>asahi,os-fw-version\<close> of \<open>/chosen\<close>, \<open>None\<close> when there is no such node or property. The
  result is what \<open>ave->fw_abi\<close> holds afterwards (\<open>old\<close> is what it held before) and the error
  returned.\<close>

definition ave_detect_fw_abi ::
  "u8 list option \<Rightarrow> u8 list option \<Rightarrow> ave_fw_abi \<Rightarrow> ave_fw_abi \<times> errno option" where
  "ave_detect_fw_abi param chosen old =
     (case (case param of Some v \<Rightarrow> Some v | None \<Rightarrow> chosen) of
        None \<Rightarrow> (old, Some ENODEV)
      | Some v \<Rightarrow>
          let abi = ave_lookup v in
          if abi = AVE_ABI_UNKNOWN then (abi, Some EOPNOTSUPP) else (abi, None))"

section \<open>Constants of the boot conversation\<close>

definition AVE_BOOT_MAGIC :: u32 where "AVE_BOOT_MAGIC = 0x08042006"
definition AVE_BOOT_PROTO_VERSION :: u32 where "AVE_BOOT_PROTO_VERSION = 0x100"
definition AVE_BOOT_MBOX_BIT :: nat where "AVE_BOOT_MBOX_BIT = 0"
definition AVE_BOOT_ALIGN_16K :: u64 where "AVE_BOOT_ALIGN_16K = 0x4000"
definition AVE_BOOT_INFO_SIZE :: nat where "AVE_BOOT_INFO_SIZE = 0x50"
definition AVE_BOOT_INFO_CHANMEM :: nat where "AVE_BOOT_INFO_CHANMEM = 0x08"
definition AVE_BOOT_INFO_LOG_ADDR :: nat where "AVE_BOOT_INFO_LOG_ADDR = 0x10"
definition AVE_BOOT_INFO_LOG_SIZE :: nat where "AVE_BOOT_INFO_LOG_SIZE = 0x18"
definition AVE_BOOT_INFO_HEAP_ADDR :: nat where "AVE_BOOT_INFO_HEAP_ADDR = 0x1c"
definition AVE_BOOT_INFO_HEAP_SIZE :: nat where "AVE_BOOT_INFO_HEAP_SIZE = 0x24"
definition AVE_BOOT_INFO_DEV_TYPE :: nat where "AVE_BOOT_INFO_DEV_TYPE = 0x28"
definition AVE_BOOT_DESC_STRIDE :: nat where "AVE_BOOT_DESC_STRIDE = 0x100"
definition AVE_BOOT_DESC_NAME_LEN :: nat where "AVE_BOOT_DESC_NAME_LEN = 0x40"
definition AVE_BOOT_DESC_DIR :: nat where "AVE_BOOT_DESC_DIR = 0x40"
definition AVE_BOOT_DESC_BIT :: nat where "AVE_BOOT_DESC_BIT = 0x44"
definition AVE_BOOT_DESC_NSLOTS :: nat where "AVE_BOOT_DESC_NSLOTS = 0x48"
definition AVE_BOOT_DESC_SLOTS :: nat where "AVE_BOOT_DESC_SLOTS = 0x4c"
definition AVE_BOOT_CHANMEM_ALIGN :: nat where "AVE_BOOT_CHANMEM_ALIGN = 64"

text \<open>\<open>enum ave_boot_ch_id\<close> (\<open>AVE_CH_MAX\<close> is the size of the channel table).\<close>

definition AVE_CH_NONE :: nat where "AVE_CH_NONE = 0"
definition AVE_CH_IO :: nat where "AVE_CH_IO = 1"
definition AVE_CH_IO_T2H :: nat where "AVE_CH_IO_T2H = 2"
definition AVE_CH_SHAREDMALLOC :: nat where "AVE_CH_SHAREDMALLOC = 3"
definition AVE_CH_TERMINAL :: nat where "AVE_CH_TERMINAL = 4"
definition AVE_CH_DEBUG :: nat where "AVE_CH_DEBUG = 5"
definition AVE_CH_BUF_H2T :: nat where "AVE_CH_BUF_H2T = 6"
definition AVE_CH_BUF_T2H :: nat where "AVE_CH_BUF_T2H = 7"
definition AVE_CH_MAX :: nat where "AVE_CH_MAX = 8"

lemmas boot_consts =
  AVE_BOOT_INFO_SIZE_def AVE_BOOT_INFO_CHANMEM_def AVE_BOOT_INFO_LOG_ADDR_def
  AVE_BOOT_INFO_LOG_SIZE_def AVE_BOOT_INFO_HEAP_ADDR_def AVE_BOOT_INFO_HEAP_SIZE_def
  AVE_BOOT_INFO_DEV_TYPE_def AVE_BOOT_DESC_STRIDE_def AVE_BOOT_DESC_NAME_LEN_def
  AVE_BOOT_DESC_DIR_def AVE_BOOT_DESC_BIT_def AVE_BOOT_DESC_NSLOTS_def AVE_BOOT_DESC_SLOTS_def
  AVE_BOOT_CHANMEM_ALIGN_def AVE_BOOT_SLOT_SIZE_def

lemmas channel_ids =
  AVE_CH_NONE_def AVE_CH_IO_def AVE_CH_IO_T2H_def AVE_CH_SHAREDMALLOC_def AVE_CH_TERMINAL_def
  AVE_CH_DEBUG_def AVE_CH_BUF_H2T_def AVE_CH_BUF_T2H_def AVE_CH_MAX_def

section \<open>The per-version descriptor\<close>

record ave_boot_chan =
  bc_name :: "u8 list"
  bc_id :: nat
  bc_dir :: u32
  bc_bit :: u32
  bc_nslots :: u32
  bc_slots_off :: u32

record ave_boot_abi =
  a_abi :: ave_fw_abi
  a_name :: string
  a_cfg_block :: bool
  a_instance :: u32
  a_dev_num :: u32
  a_dev_num_per_group :: u32
  a_fwipc_size :: u32
  a_fwipc_surf_idx :: u8
  a_heap_surf_idx :: u8
  a_msg1_nch :: u32
  a_msg1_chsz :: u32
  a_msg1_heap :: u32
  a_max_channels :: u32
  a_time_base :: bool
  a_heap_before_msg2 :: bool
  a_info_log_block :: bool
  a_info_log_size :: u32
  a_fwlog_ring :: bool
  a_terminal_log :: bool
  a_client_buf_max :: u32
  a_client_buf_expect :: u32
  a_name_table_size :: nat
  a_chans :: "ave_boot_chan list"

definition boot_chan :: "string \<Rightarrow> nat \<Rightarrow> u32 \<Rightarrow> u32 \<Rightarrow> u32 \<Rightarrow> u32 \<Rightarrow> ave_boot_chan" where
  "boot_chan name ch dir db n off =
     \<lparr>bc_name = cstr name, bc_id = ch, bc_dir = dir, bc_bit = db, bc_nslots = n, bc_slots_off = off\<rparr>"

definition chans_13_5 :: "ave_boot_chan list" where
  "chans_13_5 =
     [boot_chan ''TERMINAL'' AVE_CH_TERMINAL 2 0 512 0x0700,
      boot_chan ''IO'' AVE_CH_IO 0 1 32 0x8700,
      boot_chan ''DEBUG'' AVE_CH_DEBUG 0 1 8 0x8f00,
      boot_chan ''BUF_H2T'' AVE_CH_BUF_H2T 0 2 1 0x9100,
      boot_chan ''BUF_T2H'' AVE_CH_BUF_T2H 1 3 1 0x9140,
      boot_chan ''SHAREDMALLOC'' AVE_CH_SHAREDMALLOC 1 3 8 0x9180,
      boot_chan ''IO_T2H'' AVE_CH_IO_T2H 1 3 32 0x9380]"

definition chans_26_6 :: "ave_boot_chan list" where
  "chans_26_6 =
     [boot_chan ''IO'' AVE_CH_IO 0 1 992 0x0200,
      boot_chan ''IO_T2H'' AVE_CH_IO_T2H 1 3 993 0xfa00]"

definition abi_13_5 :: ave_boot_abi where
  "abi_13_5 =
     \<lparr>a_abi = AVE_ABI_MACOS_13_5, a_name = ''macOS 13.5'', a_cfg_block = False, a_instance = 0,
      a_dev_num = 1, a_dev_num_per_group = 1, a_fwipc_size = 0x700000, a_fwipc_surf_idx = 24,
      a_heap_surf_idx = 23, a_msg1_nch = 7, a_msg1_chsz = 0x9bc0, a_msg1_heap = 0xc0000,
      a_max_channels = 8, a_time_base = False, a_heap_before_msg2 = False,
      a_info_log_block = False, a_info_log_size = 0, a_fwlog_ring = False,
      a_terminal_log = True, a_client_buf_max = 0x100000, a_client_buf_expect = 0xb4000,
      a_name_table_size = 8, a_chans = chans_13_5\<rparr>"

definition abi_26_6 :: ave_boot_abi where
  "abi_26_6 =
     \<lparr>a_abi = AVE_ABI_MACOS_26_6, a_name = ''macOS 26.6.2'', a_cfg_block = True, a_instance = 0,
      a_dev_num = 1, a_dev_num_per_group = 1, a_fwipc_size = 0x1400000, a_fwipc_surf_idx = 31,
      a_heap_surf_idx = 30, a_msg1_nch = 2, a_msg1_chsz = 0x1f280, a_msg1_heap = 0xc0000,
      a_max_channels = 3, a_time_base = True, a_heap_before_msg2 = True,
      a_info_log_block = True, a_info_log_size = 0x10000, a_fwlog_ring = True,
      a_terminal_log = False, a_client_buf_max = 0x13c000, a_client_buf_expect = 0,
      a_name_table_size = 3, a_chans = chans_26_6\<rparr>"

definition ave_boot_abi_get :: "ave_fw_abi \<Rightarrow> ave_boot_abi option" where
  "ave_boot_abi_get abi =
     (case abi of AVE_ABI_MACOS_13_5 \<Rightarrow> Some abi_13_5
      | AVE_ABI_MACOS_26_6 \<Rightarrow> Some abi_26_6
      | AVE_ABI_UNKNOWN \<Rightarrow> None)"

section \<open>Message 1\<close>

definition AVE_MSG1_BAD_NCH :: u32 where "AVE_MSG1_BAD_NCH = push_bit 0 1"
definition AVE_MSG1_BAD_CHSZ :: u32 where "AVE_MSG1_BAD_CHSZ = push_bit 1 1"
definition AVE_MSG1_BAD_VER :: u32 where "AVE_MSG1_BAD_VER = push_bit 2 1"
definition AVE_MSG1_REJECT :: u32 where "AVE_MSG1_REJECT = 0xff"
definition AVE_MSG1_UNEXP_NCH :: u32 where "AVE_MSG1_UNEXP_NCH = push_bit 8 1"
definition AVE_MSG1_UNEXP_CHSZ :: u32 where "AVE_MSG1_UNEXP_CHSZ = push_bit 9 1"
definition AVE_MSG1_UNEXP_HEAP :: u32 where "AVE_MSG1_UNEXP_HEAP = push_bit 10 1"
definition AVE_MSG1_CHSZ_SHORT :: u32 where "AVE_MSG1_CHSZ_SHORT = push_bit 11 1"

lemmas msg1_flags =
  AVE_MSG1_BAD_NCH_def AVE_MSG1_BAD_CHSZ_def AVE_MSG1_BAD_VER_def AVE_MSG1_REJECT_def
  AVE_MSG1_UNEXP_NCH_def AVE_MSG1_UNEXP_CHSZ_def AVE_MSG1_UNEXP_HEAP_def AVE_MSG1_CHSZ_SHORT_def

text \<open>A mailbox message, the four scratch words.\<close>

type_synonym mbox_msg = "u32 \<times> u32 \<times> u32 \<times> u32"

definition flag_if :: "bool \<Rightarrow> u32 \<Rightarrow> u32" where "flag_if c v = (if c then v else 0)"

definition ave_boot_check_msg1 :: "ave_boot_abi \<Rightarrow> mbox_msg \<Rightarrow> u32" where
  "ave_boot_check_msg1 a m = (case m of (m0, m1, m2, m3) \<Rightarrow>
     let r = flag_if (m0 < 1 \<or> m0 > a_max_channels a) AVE_MSG1_BAD_NCH;
         r = r OR flag_if (m1 = 0 \<or> a_abi a = AVE_ABI_MACOS_26_6 \<and> sint m1 \<le> 0) AVE_MSG1_BAD_CHSZ;
         r = r OR flag_if (m2 \<noteq> AVE_BOOT_PROTO_VERSION) AVE_MSG1_BAD_VER;
         r = r OR flag_if (m0 \<noteq> a_msg1_nch a) AVE_MSG1_UNEXP_NCH;
         r = r OR flag_if (m1 \<noteq> a_msg1_chsz a) AVE_MSG1_UNEXP_CHSZ;
         r = r OR flag_if (m3 \<noteq> a_msg1_heap a) AVE_MSG1_UNEXP_HEAP;
         r = r OR flag_if (r AND AVE_MSG1_BAD_NCH = 0 \<and>
                        (ucast m1 :: u64) < ucast m0 * of_nat AVE_BOOT_DESC_STRIDE)
                   AVE_MSG1_CHSZ_SHORT
     in r)"

section \<open>Channel descriptors and names\<close>

record ave_boot_desc =
  bd_name :: "u8 list"      \<comment> \<open>the bytes before the NUL\<close>
  bd_dir :: u32
  bd_bit :: u32
  bd_nslots :: u32
  bd_slots_fw :: u64

definition ave_boot_desc_parse :: "u8 list \<Rightarrow> nat \<Rightarrow> ave_boot_desc cres" where
  "ave_boot_desc_parse m d =
     cbind (rd_bytes m d AVE_BOOT_DESC_NAME_LEN) (\<lambda>name.
     cbind (rd_le32 m (d + AVE_BOOT_DESC_DIR)) (\<lambda>dir.
     cbind (rd_le32 m (d + AVE_BOOT_DESC_BIT)) (\<lambda>db.
     cbind (rd_le32 m (d + AVE_BOOT_DESC_NSLOTS)) (\<lambda>nslots.
     cbind (rd_le64 m (d + AVE_BOOT_DESC_SLOTS)) (\<lambda>slots_fw.
       Ok \<lparr>bd_name = c_str (name @ [0]), bd_dir = dir, bd_bit = db, bd_nslots = nslots,
           bd_slots_fw = slots_fw\<rparr>)))))"

definition channel_names :: "u8 list list" where
  "channel_names =
     [[], cstr ''IO'', cstr ''IO_T2H'', cstr ''SHAREDMALLOC'', cstr ''TERMINAL'', cstr ''DEBUG'',
      cstr ''BUF_H2T'', cstr ''BUF_T2H'']"

fun index_of :: "nat \<Rightarrow> u8 list list \<Rightarrow> u8 list \<Rightarrow> nat option" where
  "index_of i [] name = None"
| "index_of i (n # ns) name = (if name = n then Some i else index_of (Suc i) ns name)"

definition ave_boot_name_to_id :: "ave_boot_abi \<Rightarrow> u8 list \<Rightarrow> nat option" where
  "ave_boot_name_to_id a name =
     index_of 0 (take (a_name_table_size a) (take AVE_CH_MAX channel_names)) name"

definition ave_boot_chan_expect :: "ave_boot_abi \<Rightarrow> nat \<Rightarrow> ave_boot_chan option" where
  "ave_boot_chan_expect a i = find (\<lambda>c. bc_id c = i) (a_chans a)"

section \<open>What the checks and tables guarantee\<close>

lemma flag_if_and_eq_0: "flag_if c v AND w = 0 \<longleftrightarrow> \<not> c \<or> v AND w = 0"
  by (simp add: flag_if_def)

lemma or_and_eq_0: "(a OR b) AND w = 0 \<longleftrightarrow> a AND w = 0 \<and> b AND (w :: u32) = 0"
  by (auto simp: bit_eq_iff bit_simps)

lemma msg1_rejects:
  "ave_boot_check_msg1 a (m0, m1, m2, m3) AND (AVE_MSG1_REJECT OR AVE_MSG1_CHSZ_SHORT) = 0 \<longleftrightarrow>
     m0 \<noteq> 0 \<and> m0 \<le> a_max_channels a \<and> m1 \<noteq> 0
   \<and> (a_abi a = AVE_ABI_MACOS_26_6 \<longrightarrow> 0 < sint m1)
   \<and> m2 = AVE_BOOT_PROTO_VERSION
   \<and> unat m0 * AVE_BOOT_DESC_STRIDE \<le> unat m1"
proof -
  have mul: "(ucast m1 :: u64) < ucast m0 * of_nat AVE_BOOT_DESC_STRIDE \<longleftrightarrow>
      unat m1 < unat m0 * AVE_BOOT_DESC_STRIDE"
    using unat_u32_bound [of m0] unat_u32_bound [of m1]
    by (simp add: word_less_nat_alt AVE_BOOT_DESC_STRIDE_def unat_mult_nowrap)
  show ?thesis
    unfolding ave_boot_check_msg1_def Let_def prod.case mul or_and_eq_0 flag_if_and_eq_0
    by (auto simp: msg1_flags not_less not_le)
qed

lemma msg1_unexpected:
  "ave_boot_check_msg1 a (m0, m1, m2, m3) AND (AVE_MSG1_UNEXP_NCH OR AVE_MSG1_UNEXP_CHSZ) = 0 \<longleftrightarrow>
     m0 = a_msg1_nch a \<and> m1 = a_msg1_chsz a"
  unfolding ave_boot_check_msg1_def Let_def prod.case or_and_eq_0 flag_if_and_eq_0
  by (auto simp: msg1_flags)

text \<open>\<open>table_ok a\<close>: the channel table of the ABI is one the binding code can accept. The names
  translate to the ids the table gives and the ids find their entry again; every doorbell bit
  exists; the slot arrays follow the descriptors, in the block of the size message 1 promises,
  and no two of them share a byte.\<close>

definition chan_end :: "ave_boot_chan \<Rightarrow> nat" where
  "chan_end c = unat (bc_slots_off c) + unat (bc_nslots c) * AVE_BOOT_SLOT_SIZE"

definition chan_entry_ok :: "ave_boot_abi \<Rightarrow> ave_boot_chan \<Rightarrow> bool" where
  "chan_entry_ok a c \<longleftrightarrow>
     length (bc_name c) < AVE_BOOT_DESC_NAME_LEN \<and> 0 \<notin> set (bc_name c)
   \<and> ave_boot_name_to_id a (bc_name c) = Some (bc_id c)
   \<and> ave_boot_chan_expect a (bc_id c) = Some c
   \<and> unat (bc_bit c) < 32 \<and> 0 < bc_nslots c
   \<and> length (a_chans a) * AVE_BOOT_DESC_STRIDE \<le> unat (bc_slots_off c)
   \<and> chan_end c \<le> unat (a_msg1_chsz a)"

fun chans_apart :: "ave_boot_chan list \<Rightarrow> bool" where
  "chans_apart (c # d # cs) \<longleftrightarrow> chan_end c \<le> unat (bc_slots_off d) \<and> chans_apart (d # cs)"
| "chans_apart _ \<longleftrightarrow> True"

definition table_ok :: "ave_boot_abi \<Rightarrow> bool" where
  "table_ok a \<longleftrightarrow>
     length (a_chans a) = unat (a_msg1_nch a)
   \<and> distinct (map bc_id (a_chans a))
   \<and> list_all (chan_entry_ok a) (a_chans a)
   \<and> chans_apart (a_chans a)"

lemmas table_eval =
  table_ok_def chan_entry_ok_def chan_end_def boot_consts channel_ids chans_13_5_def chans_26_6_def
  boot_chan_def ave_boot_name_to_id_def ave_boot_chan_expect_def channel_names_def cstr_def

lemma table_ok_13_5: "table_ok abi_13_5"
  by (simp add: table_eval abi_13_5_def)

lemma table_ok_26_6: "table_ok abi_26_6"
  by (simp add: table_eval abi_26_6_def)

lemma abi_cases:
  assumes "ave_boot_abi_get abi = Some a"
  obtains "a = abi_13_5" "abi = AVE_ABI_MACOS_13_5" | "a = abi_26_6" "abi = AVE_ABI_MACOS_26_6"
  using assms by (auto simp: ave_boot_abi_get_def split: ave_fw_abi.splits)

lemma table_ok_get: "ave_boot_abi_get abi = Some a \<Longrightarrow> table_ok a"
  by (auto elim: abi_cases simp: table_ok_13_5 table_ok_26_6)

section \<open>Descriptors the firmware writes\<close>

text \<open>The 0x100 bytes of a descriptor: the NUL-padded name, the four fields, zeroes.\<close>

definition desc_bytes :: "ave_boot_chan \<Rightarrow> u64 \<Rightarrow> u8 list" where
  "desc_bytes c base =
     bc_name c @ replicate (AVE_BOOT_DESC_NAME_LEN - length (bc_name c)) 0 @
     put_le32 (bc_dir c) @ put_le32 (bc_bit c) @ put_le32 (bc_nslots c) @
     put_le64 (base + ucast (bc_slots_off c)) @ replicate (AVE_BOOT_DESC_STRIDE - 0x54) 0"

lemma length_desc_bytes [simp]:
  "length (bc_name c) < AVE_BOOT_DESC_NAME_LEN \<Longrightarrow> length (desc_bytes c base) = AVE_BOOT_DESC_STRIDE"
  by (simp add: desc_bytes_def boot_consts)

lemma c_str_pad: "0 \<notin> set xs \<Longrightarrow> c_str (xs @ 0 # ys) = xs"
  by (induction xs) (auto simp: c_str_def)

lemma c_str_name:
  assumes "length nm < AVE_BOOT_DESC_NAME_LEN" "0 \<notin> set nm"
  shows "c_str (take AVE_BOOT_DESC_NAME_LEN (nm @ replicate (AVE_BOOT_DESC_NAME_LEN - length nm) 0 @ r) @ [0]) = nm"
proof -
  obtain k where k: "AVE_BOOT_DESC_NAME_LEN - length nm = Suc k"
    using assms(1) by (metis Suc_diff_Suc)
  then have "take AVE_BOOT_DESC_NAME_LEN (nm @ replicate (AVE_BOOT_DESC_NAME_LEN - length nm) 0 @ r)
      = nm @ 0 # replicate k 0"
    using assms(1) by simp
  then show ?thesis using c_str_pad [OF assms(2)] by simp
qed

lemma desc_parse_at:
  assumes "at m d (desc_bytes c base)" "length (bc_name c) < AVE_BOOT_DESC_NAME_LEN" "0 \<notin> set (bc_name c)"
  shows "ave_boot_desc_parse m d = Ok \<lparr>bd_name = bc_name c, bd_dir = bc_dir c, bd_bit = bc_bit c,
    bd_nslots = bc_nslots c, bd_slots_fw = base + ucast (bc_slots_off c)\<rparr>"
proof -
  let ?b = "desc_bytes c base"
  have len: "length ?b = AVE_BOOT_DESC_STRIDE" using assms(2) by simp
  have name: "rd_bytes m d AVE_BOOT_DESC_NAME_LEN = Ok (take AVE_BOOT_DESC_NAME_LEN ?b)"
    using assms(1) by (rule at_rd_bytes) (simp add: len boot_consts)
  have f32: "rd_le32 m (d + i) = Ok (get_le32 ?b i)" if "i + 4 \<le> AVE_BOOT_DESC_STRIDE" for i
    using assms(1) that by (intro at_rd_le32) (simp_all add: len)
  have f64: "rd_le64 m (d + i) = Ok (get_le64 ?b i)" if "i + 8 \<le> AVE_BOOT_DESC_STRIDE" for i
    using assms(1) that by (intro at_rd_le64) (simp_all add: len)
  have "get_le32 ?b AVE_BOOT_DESC_DIR = bc_dir c" "get_le32 ?b AVE_BOOT_DESC_BIT = bc_bit c"
    "get_le32 ?b AVE_BOOT_DESC_NSLOTS = bc_nslots c"
    "get_le64 ?b AVE_BOOT_DESC_SLOTS = base + ucast (bc_slots_off c)"
    using assms(2) by (simp_all add: desc_bytes_def get_le_eval boot_consts)
  moreover have "c_str (take AVE_BOOT_DESC_NAME_LEN ?b @ [0]) = bc_name c"
    using c_str_name [OF assms(2,3)] by (simp add: desc_bytes_def)
  ultimately show ?thesis
    using name f32 f64 by (simp add: ave_boot_desc_parse_def boot_consts)
qed

end
