(* ===== verification/Ave_Ipc.thy ===== *)
theory Ave_Ipc
  imports Ave_Boot Ave_Ring_Host
begin

text \<open>
  The transport half of \<^verbatim>\<open>src/driver/ave_ipc.c\<close> and the interrupt handler of
  \<^verbatim>\<open>src/driver/ave_drv.c\<close>: the scratch mailbox, the FwIPC pool and address translation, the
  channels over the rings, the channel services after the handshake, and the dispatch of an
  interrupt to them. The boot conversation that sets all this up is in \<open>Ave_Handshake\<close>.

  \<^item> \<open>ave_device\<close> holds the boot/IPC part of \<open>struct ave_device\<close> and the registers it
    touches. \<open>ipc_mem\<close> is what \<open>ave->ipc.cpu\<close> points to; a pointer into it is its offset,
    \<open>NULL\<close> is \<open>None\<close>.
  \<^item> The kernel's \<open>gen_pool\<close> is not part of the driver. Its state is the list of live
    allocations, its choice of an address the argument \<open>gp\<close> of every definition that may
    allocate; what the driver relies on is \<open>gen_pool_ok\<close>. A \<open>gen_pool_free\<close> of what is not
    allocated is a kernel BUG: it sets \<open>pool_bug\<close>.
  \<^item> \<open>drain\<close> loops of the C code run on fuel, and set \<open>hung\<close> when it does not suffice;
    \<open>irq_terminates\<close> below shows that it always does.
  \<^item> Sections under \<open>ipc_lock\<close> are atomic; the memory barriers have no counterpart.
\<close>

section \<open>The device\<close>

datatype ave_boot_phase =
  AVE_BOOT_IDLE | AVE_BOOT_ARGS_WRITTEN | AVE_BOOT_MSG1 | AVE_BOOT_READY | AVE_BOOT_FAILED

record ave_channel =
  ch_bound :: bool
  ch_id :: nat
  ch_desc_index :: nat
  ch_dir :: u32
  ch_doorbell_bit :: u32
  ch_nslots :: u32
  ch_type :: u32
  ch_rd :: int      \<comment> \<open>-1 = nothing outstanding\<close>
  ch_wr :: int      \<comment> \<open>-1 = full\<close>
  ch_nrecv :: u32
  ch_nsend :: u32
  ch_ring :: nat    \<comment> \<open>into \<open>ipc_mem\<close>\<close>
  ch_ring_fw :: u64

record soc_dev =
  dev_id :: u32
  dev_type :: u32

definition AVE_SHMALLOC_MAX :: nat where "AVE_SHMALLOC_MAX = 64"

record ave_device =
  scratch :: "u32 list"          \<comment> \<open>SVE scratch registers 0..7\<close>
  intr_status :: u32             \<comment> \<open>SVE interrupt status, write 1 to clear\<close>
  doorbells :: "u32 list"        \<comment> \<open>what was written to the doorbell, oldest first\<close>
  soc_devs :: "ave_fw_abi \<Rightarrow> soc_dev"
  fw_abi :: ave_fw_abi
  boot_abi :: "ave_boot_abi option"
  ipc_pool :: "(nat \<times> nat) list option"   \<comment> \<open>live allocations, offset and size\<close>
  pool_bug :: bool
  boot_phase :: ave_boot_phase
  ipc_up :: bool
  mbox_pending :: bool
  mbox_status :: u32
  mbox :: mbox_msg
  msg1 :: mbox_msg
  ipc_fw_base :: u64
  fwheap :: "(u64 \<times> nat) option"    \<comment> \<open>iova and size\<close>
  chanmem :: "nat option"
  chanmem_size :: u32
  ipcinfo :: "nat option"
  info_log :: "nat option"
  client_buf_size :: u32
  time_base :: u64
  shm :: "(nat option \<times> u32) list"
  ipc_irq :: bool                \<comment> \<open>the dispatch hook is set\<close>
  ipc_rx :: bool                 \<comment> \<open>the command layer's hook is set\<close>
  rx_calls :: "(nat \<times> (nat \<times> u8 list) option \<times> u32 \<times> u32) list"
    \<comment> \<open>its calls, oldest first: channel, buffer and what it held, size, flags\<close>
  fwlog_lines :: nat
  dart_check_quiet :: bool
  fw_lines :: "(u32 \<times> u8 list \<times> bool) list"  \<comment> \<open>log lines: level, text, shown\<close>
  hs_seen :: bool
  hs_status :: u32
  hs_scratch :: mbox_msg
  ipc_cpu :: bool                \<comment> \<open>\<open>ave->ipc.cpu\<close> is not NULL\<close>
  ipc_mem :: "u8 list"
  ipc_iova :: u64
  ipc_size :: nat
  fwcfg :: "nat option"
  fwcfg_size :: nat
  fwlog :: "(u8 list \<times> u64) option"   \<comment> \<open>content and iova\<close>
  chan :: "ave_channel list"
  nchannels :: nat
  hung :: bool

text \<open>The device as probe allocates it, zeroed; registers read 0.\<close>

definition fresh_device :: "(ave_fw_abi \<Rightarrow> soc_dev) \<Rightarrow> ave_fw_abi \<Rightarrow> ave_device" where
  "fresh_device soc abi =
     \<lparr>scratch = replicate 8 0, intr_status = 0, doorbells = [], soc_devs = soc, fw_abi = abi,
      boot_abi = None, ipc_pool = None, pool_bug = False, boot_phase = AVE_BOOT_IDLE,
      ipc_up = False, mbox_pending = False, mbox_status = 0, mbox = (0, 0, 0, 0),
      msg1 = (0, 0, 0, 0), ipc_fw_base = 0, fwheap = None, chanmem = None, chanmem_size = 0,
      ipcinfo = None, info_log = None, client_buf_size = 0, time_base = 0,
      shm = replicate AVE_SHMALLOC_MAX (None, 0), ipc_irq = False, ipc_rx = False, rx_calls = [],
      fwlog_lines = 0, dart_check_quiet = False, fw_lines = [], hs_seen = False, hs_status = 0,
      hs_scratch = (0, 0, 0, 0), ipc_cpu = False, ipc_mem = [], ipc_iova = 0, ipc_size = 0,
      fwcfg = None, fwcfg_size = 0, fwlog = None,
      chan = replicate AVE_CH_MAX
               \<lparr>ch_bound = False, ch_id = 0, ch_desc_index = 0, ch_dir = 0, ch_doorbell_bit = 0,
                ch_nslots = 0, ch_type = 0, ch_rd = 0, ch_wr = 0, ch_nrecv = 0, ch_nsend = 0,
                ch_ring = 0, ch_ring_fw = 0\<rparr>,
      nchannels = 0, hung = False\<rparr>"

section \<open>The scratch mailbox\<close>

definition ave_scratch :: "ave_device \<Rightarrow> nat \<Rightarrow> u32" where
  "ave_scratch d i = scratch d ! i"

definition ave_set_scratch :: "nat \<Rightarrow> u32 \<Rightarrow> ave_device \<Rightarrow> ave_device" where
  "ave_set_scratch i v d = d\<lparr>scratch := (scratch d)[i := v]\<rparr>"

definition scratch4 :: "ave_device \<Rightarrow> mbox_msg" where
  "scratch4 d = (ave_scratch d 0, ave_scratch d 1, ave_scratch d 2, ave_scratch d 3)"

definition write_doorbell :: "u32 \<Rightarrow> ave_device \<Rightarrow> ave_device" where
  "write_doorbell v d = d\<lparr>doorbells := doorbells d @ [v]\<rparr>"

text \<open>A write to the interrupt status clears the bits written as 1.\<close>

definition write_status :: "u32 \<Rightarrow> ave_device \<Rightarrow> ave_device" where
  "write_status v d = d\<lparr>intr_status := intr_status d AND NOT v\<rparr>"

definition ave_send_iop_msg :: "mbox_msg \<Rightarrow> ave_device \<Rightarrow> ave_device" where
  "ave_send_iop_msg m dev = (case m of (a, b, c, d) \<Rightarrow>
     write_doorbell (push_bit AVE_BOOT_MBOX_BIT 1)
       (ave_set_scratch 3 d (ave_set_scratch 2 c (ave_set_scratch 1 b (ave_set_scratch 0 a dev)))))"

text \<open>One turn of the loop of \<open>ave_recv_iop_msg\<close>, under the lock.\<close>

definition recv_poll :: "ave_device \<Rightarrow> mbox_msg option \<times> ave_device" where
  "recv_poll d =
     (let (got, d1) =
        (if mbox_pending d then (Some (mbox d), d\<lparr>mbox_pending := False\<rparr>)
         else if intr_status d AND push_bit AVE_BOOT_MBOX_BIT 1 \<noteq> 0
         then let d' = write_status (push_bit AVE_BOOT_MBOX_BIT 1) d in (Some (scratch4 d'), d')
         else (None, d))
      in case got of
           Some m \<Rightarrow>
             (got, if boot_phase d1 = AVE_BOOT_ARGS_WRITTEN
                   then d1\<lparr>msg1 := m, boot_phase := AVE_BOOT_MSG1\<rparr> else d1)
         | None \<Rightarrow> (None, d1))"

section \<open>The FwIPC pool and address translation\<close>

definition ave_ipc_cpu_to_fw :: "ave_device \<Rightarrow> nat \<Rightarrow> u64" where
  "ave_ipc_cpu_to_fw d cpu = of_nat cpu + ipc_fw_base d"

definition ave_ipc_fw_to_cpu :: "ave_device \<Rightarrow> u64 \<Rightarrow> nat \<Rightarrow> nat option" where
  "ave_ipc_fw_to_cpu d fw len =
     (if \<not> ipc_cpu d \<or> fw < ipc_fw_base d then None
      else
        let off = unat (fw - ipc_fw_base d) in
        if off \<ge> ipc_size d \<or> len > ipc_size d - off then None else Some off)"

definition ave_ipc_cpu_to_iova :: "ave_device \<Rightarrow> nat \<Rightarrow> u64" where
  "ave_ipc_cpu_to_iova d cpu = ipc_iova d + of_nat cpu"

definition ave_ipc_alloc ::
  "((nat \<times> nat) list \<Rightarrow> nat \<Rightarrow> nat option) \<Rightarrow> nat \<Rightarrow> ave_device \<Rightarrow> nat option \<times> ave_device" where
  "ave_ipc_alloc gp sz d =
     (case ipc_pool d of
        None \<Rightarrow> (None, d)
      | Some live \<Rightarrow>
          if sz = 0 then (None, d)
          else case gp live sz of
                 None \<Rightarrow> (None, d)
               | Some va \<Rightarrow>
                   (Some va, d\<lparr>ipc_pool := Some ((va, sz) # live),
                               ipc_mem := poke (ipc_mem d) va (replicate sz 0)\<rparr>))"

definition ave_ipc_free :: "nat option \<Rightarrow> nat \<Rightarrow> ave_device \<Rightarrow> ave_device" where
  "ave_ipc_free cpu sz d =
     (case (ipc_pool d, cpu) of
        (Some live, Some va) \<Rightarrow>
          if sz = 0 then d
          else if (va, sz) \<in> set live then d\<lparr>ipc_pool := Some (remove1 (va, sz) live)\<rparr>
          else d\<lparr>pool_bug := True\<rparr>
      | _ \<Rightarrow> d)"

section \<open>Channels over the rings\<close>

definition ave_ch_to_ring :: "ave_channel \<Rightarrow> ave_ring" where
  "ave_ch_to_ring ch =
     \<lparr>r_slots = ch_ring ch, r_nslots = ch_nslots ch, r_type = ch_type ch, r_rd = ch_rd ch,
      r_wr = ch_wr ch, r_nrecv = ch_nrecv ch, r_nsend = ch_nsend ch\<rparr>"

definition ave_ring_to_ch :: "ave_ring \<Rightarrow> ave_channel \<Rightarrow> ave_channel" where
  "ave_ring_to_ch r ch =
     ch\<lparr>ch_rd := r_rd r, ch_wr := r_wr r, ch_nrecv := r_nrecv r, ch_nsend := r_nsend r\<rparr>"

definition ave_chan :: "ave_device \<Rightarrow> nat \<Rightarrow> ave_channel option" where
  "ave_chan d i =
     (if i \<ge> length (chan d) \<or> \<not> ch_bound (chan d ! i) then None else Some (chan d ! i))"

definition ave_ipc_ring_doorbell :: "nat \<Rightarrow> ave_device \<Rightarrow> ave_device" where
  "ave_ipc_ring_doorbell i d =
     (case ave_chan d i of
        None \<Rightarrow> d
      | Some ch \<Rightarrow> write_doorbell (push_bit (unat (ch_doorbell_bit ch)) 1) d)"

definition ave_chan_send_fw ::
  "nat \<Rightarrow> u64 \<Rightarrow> u32 \<Rightarrow> u32 \<Rightarrow> ave_device \<Rightarrow> errno option \<times> ave_device" where
  "ave_chan_send_fw i fw a1 a2 d =
     (case ave_chan d i of
        None \<Rightarrow> (Some ENODEV, d)
      | Some ch \<Rightarrow>
          (case ave_ring_send (ipc_mem d) (ave_ch_to_ring ch) fw a1 a2 of
             None \<Rightarrow> (Some EAGAIN, d)
           | Some (m, r) \<Rightarrow>
               (None, ave_ipc_ring_doorbell i
                        (d\<lparr>ipc_mem := m, chan := (chan d)[i := ave_ring_to_ch r ch]\<rparr>))))"

definition ave_chan_recv_fw ::
  "nat \<Rightarrow> ave_device \<Rightarrow> (errno + u64 \<times> u32 \<times> u32) \<times> ave_device" where
  "ave_chan_recv_fw i d =
     (case ave_chan d i of
        None \<Rightarrow> (Inl ENODEV, d)
      | Some ch \<Rightarrow>
          let r = ave_ch_to_ring ch in
          if r_type r AND 2 \<noteq> 0
          then (case ave_ring_urecv (ipc_mem d) r of
                  None \<Rightarrow> (Inl EAGAIN, d)
                | Some (x, m, r') \<Rightarrow>
                    (Inr x, d\<lparr>ipc_mem := m, chan := (chan d)[i := ave_ring_to_ch r' ch]\<rparr>))
          else (case ave_ring_recv (ipc_mem d) r of
                  None \<Rightarrow> (Inl EAGAIN, d)
                | Some (x, r') \<Rightarrow> (Inr x, d\<lparr>chan := (chan d)[i := ave_ring_to_ch r' ch]\<rparr>)))"

definition ave_ipc_send ::
  "nat \<Rightarrow> u64 \<Rightarrow> u64 \<Rightarrow> u64 \<Rightarrow> ave_device \<Rightarrow> errno option \<times> ave_device" where
  "ave_ipc_send i payload arg1 arg2 d =
     (if boot_phase d \<noteq> AVE_BOOT_READY then (Some ENODEV, d)
      else if payload = 0 then ave_chan_send_fw i 0 (ucast arg1) (ucast arg2) d
      else if payload < ipc_iova d \<or> unat (payload - ipc_iova d) \<ge> ipc_size d then (Some EINVAL, d)
      else
        let fw = payload - ipc_iova d + ipc_fw_base d in
        if fw AND 3 \<noteq> 0 then (Some EINVAL, d)
        else ave_chan_send_fw i fw (ucast arg1) (ucast arg2) d)"

definition ave_ipc_recv :: "nat \<Rightarrow> nat \<Rightarrow> ave_device \<Rightarrow> (errno + u64 list) \<times> ave_device" where
  "ave_ipc_recv i n d =
     (if n < 3 then (Inl EINVAL, d)
      else case ave_chan_recv_fw i d of
             (Inl e, d') \<Rightarrow> (Inl e, d')
           | (Inr (fw, a1, a2), d') \<Rightarrow>
               let cpu = (if fw \<noteq> 0 then ave_ipc_fw_to_cpu d' fw 1 else None);
                   iova = (case cpu of Some c \<Rightarrow> ave_ipc_cpu_to_iova d' c | None \<Rightarrow> 0)
               in (Inr ([iova, ucast a1, ucast a2] @ (if n \<ge> 4 then [fw] else [])), d'))"

section \<open>Channel services after the handshake\<close>

fun starts_with :: "u8 list \<Rightarrow> u8 list \<Rightarrow> bool" where
  "starts_with [] s = True"
| "starts_with (c # cs) [] = False"
| "starts_with (c # cs) (x # xs) = (c = x \<and> starts_with cs xs)"

fun strstr :: "u8 list \<Rightarrow> u8 list \<Rightarrow> bool" where
  "strstr [] needle = (needle = [])"
| "strstr (x # xs) needle = (starts_with needle (x # xs) \<or> strstr xs needle)"

text \<open>The \<open>while\<close> that cuts trailing line ends, on the reversed text.\<close>

definition strip_eol :: "u8 list \<Rightarrow> u8 list" where
  "strip_eol s = rev (dropWhile (\<lambda>c. c = 10 \<or> c = 13) (rev s))"

definition ave_ipc_terminal_line :: "u64 \<Rightarrow> u32 \<Rightarrow> u32 \<Rightarrow> ave_device \<Rightarrow> ave_device" where
  "ave_ipc_terminal_line fw len level d =
     (if fw = 0 then d
      else
        let n = min (unat len) 0x200 in
        case ave_ipc_fw_to_cpu d fw (if n \<noteq> 0 then n else 1) of
          None \<Rightarrow> d
        | Some p \<Rightarrow>
            let line = strip_eol (c_str (peek (ipc_mem d) p n));
                shown = (\<not> dart_check_quiet d \<or> strstr line (cstr ''ASSERT'')
                         \<or> strstr line (cstr ''rror'') \<or> strstr line (cstr ''ail''))
            in d\<lparr>fwlog_lines := fwlog_lines d + 1, fw_lines := fw_lines d @ [(level, line, shown)]\<rparr>)"

text \<open>The first entry of the table whose pointer is \<open>p\<close> (\<open>None\<close> looks for a free one).\<close>

fun shm_find :: "(nat option \<times> u32) list \<Rightarrow> nat option \<Rightarrow> nat \<Rightarrow> nat option" where
  "shm_find [] p i = None"
| "shm_find ((c, s) # xs) p i = (if c = p then Some i else shm_find xs p (Suc i))"

definition shm_free :: "u64 \<Rightarrow> ave_device \<Rightarrow> ave_device" where
  "shm_free fw d =
     (case ave_ipc_fw_to_cpu d fw 1 of
        None \<Rightarrow> d
      | Some cpu \<Rightarrow>
          let (sz, d1) =
            (case shm_find (shm d) (Some cpu) 0 of
               Some i \<Rightarrow> (snd (shm d ! i), d\<lparr>shm := (shm d)[i := (None, snd (shm d ! i))]\<rparr>)
             | None \<Rightarrow> (0, d));
              d2 = (if sz \<noteq> 0 then ave_ipc_free (Some cpu) (unat sz) d1 else d1)
          in snd (ave_chan_send_fw AVE_CH_SHAREDMALLOC fw 0 0 d2))"

definition shm_alloc ::
  "((nat \<times> nat) list \<Rightarrow> nat \<Rightarrow> nat option) \<Rightarrow> u32 \<Rightarrow> ave_device \<Rightarrow> ave_device" where
  "shm_alloc gp sz d =
     (case ave_ipc_alloc gp (unat sz) d of
        (None, d1) \<Rightarrow> d1
      | (Some cpu, d1) \<Rightarrow>
          (case shm_find (shm d1) None 0 of
             None \<Rightarrow> ave_ipc_free (Some cpu) (unat sz) d1
           | Some i \<Rightarrow>
               let d2 = d1\<lparr>shm := (shm d1)[i := (Some cpu, sz)]\<rparr>
               in snd (ave_chan_send_fw AVE_CH_SHAREDMALLOC (ave_ipc_cpu_to_fw d2 cpu) sz 0 d2)))"

definition ave_ipc_shmalloc ::
  "((nat \<times> nat) list \<Rightarrow> nat \<Rightarrow> nat option) \<Rightarrow> u64 \<Rightarrow> u32 \<Rightarrow> ave_device \<Rightarrow> ave_device" where
  "ave_ipc_shmalloc gp fw sz d = (if fw \<noteq> 0 then shm_free fw d else shm_alloc gp sz d)"

text \<open>One message of a channel: the body of the loop of \<open>ave_ipc_drain\<close>, and whether the loop
  goes on.\<close>

definition drain_msg ::
  "((nat \<times> nat) list \<Rightarrow> nat \<Rightarrow> nat option) \<Rightarrow> nat \<Rightarrow> u64 \<times> u32 \<times> u32 \<Rightarrow> ave_device \<Rightarrow>
     bool \<times> ave_device" where
  "drain_msg gp i x d = (case x of (fw, sz, flags) \<Rightarrow>
     if i = AVE_CH_IO \<or> i = AVE_CH_IO_T2H then
       (let d1 = (if i = AVE_CH_IO_T2H then snd (ave_chan_send_fw i fw sz 0 d) else d);
            buf = (if fw \<noteq> 0
                   then ave_ipc_fw_to_cpu d1 fw (if sz \<noteq> 0 then unat sz else 1) else None);
            call = (i, map_option (\<lambda>p. (p, peek (ipc_mem d1) p (unat sz))) buf, sz, flags)
        in (True, if ipc_rx d1 then d1\<lparr>rx_calls := rx_calls d1 @ [call]\<rparr> else d1))
     else if i = AVE_CH_SHAREDMALLOC then (True, ave_ipc_shmalloc gp fw sz d)
     else if i = AVE_CH_TERMINAL then (True, ave_ipc_terminal_line fw sz flags d)
     else (False, d))"

fun drain_loop ::
  "((nat \<times> nat) list \<Rightarrow> nat \<Rightarrow> nat option) \<Rightarrow> nat \<Rightarrow> nat \<Rightarrow> ave_device \<Rightarrow> ave_device" where
  "drain_loop gp 0 i d = d\<lparr>hung := True\<rparr>"
| "drain_loop gp (Suc fuel) i d =
     (case ave_chan_recv_fw i d of
        (Inl _, d1) \<Rightarrow> d1
      | (Inr x, d1) \<Rightarrow>
          (case drain_msg gp i x d1 of
             (True, d2) \<Rightarrow> drain_loop gp fuel i d2
           | (False, d2) \<Rightarrow> d2))"

definition drain_fuel :: "nat \<Rightarrow> ave_device \<Rightarrow> nat" where
  "drain_fuel i d = (case ave_chan d i of None \<Rightarrow> 1 | Some ch \<Rightarrow> unat (ch_nslots ch) + 1)"

definition ave_ipc_drain ::
  "((nat \<times> nat) list \<Rightarrow> nat \<Rightarrow> nat option) \<Rightarrow> nat \<Rightarrow> ave_device \<Rightarrow> ave_device" where
  "ave_ipc_drain gp i d = drain_loop gp (drain_fuel i d) i d"

definition dispatch_one ::
  "((nat \<times> nat) list \<Rightarrow> nat \<Rightarrow> nat option) \<Rightarrow> u32 \<Rightarrow> nat \<Rightarrow> ave_device \<Rightarrow> ave_device" where
  "dispatch_one gp status i d =
     (case ave_chan d i of
        None \<Rightarrow> d
      | Some ch \<Rightarrow>
          if status AND push_bit (unat (ch_doorbell_bit ch)) 1 \<noteq> 0 then ave_ipc_drain gp i d else d)"

definition ave_ipc_irq_dispatch ::
  "((nat \<times> nat) list \<Rightarrow> nat \<Rightarrow> nat option) \<Rightarrow> u32 \<Rightarrow> ave_device \<Rightarrow> ave_device" where
  "ave_ipc_irq_dispatch gp status d = fold (dispatch_one gp status) [1..<AVE_CH_MAX] d"

section \<open>The interrupt handler (\<open>ave_drv.c\<close>)\<close>

text \<open>The part under the lock, with the status read.\<close>

definition irq_capture :: "u32 \<Rightarrow> ave_device \<Rightarrow> ave_device" where
  "irq_capture status d =
     (let d1 = (if \<not> hs_seen d
                then d\<lparr>hs_status := status, hs_scratch := scratch4 d, hs_seen := True\<rparr> else d);
          d2 = (if boot_abi d1 \<noteq> None \<and> \<not> ipc_up d1 \<and> status AND 1 \<noteq> 0
                then d1\<lparr>mbox_status := status, mbox := scratch4 d1, mbox_pending := True\<rparr> else d1)
      in write_status status d2)"

text \<open>\<open>False\<close> is \<open>IRQ_NONE\<close>.\<close>

definition ave_irq_handler ::
  "((nat \<times> nat) list \<Rightarrow> nat \<Rightarrow> nat option) \<Rightarrow> ave_device \<Rightarrow> bool \<times> ave_device" where
  "ave_irq_handler gp d =
     (let status = intr_status d in
      if status = 0 then (False, d)
      else
        let d1 = irq_capture status d in
        (True, if boot_abi d \<noteq> None \<and> ipc_up d1 \<and> ipc_irq d1
               then ave_ipc_irq_dispatch gp status d1 else d1))"

end
