(* ===== verification/Ave_Mailbox.thy ===== *)
theory Ave_Mailbox
  imports Ave_Ipc
begin

text \<open>
  The scratch mailbox during the boot conversation. The interrupt handler and
  \<open>ave_recv_iop_msg\<close> both look at status bit 0 and both clear it; whichever sees it first takes
  the message. \<open>mbox_step\<close> lets the firmware, the interrupt and the polling thread run in any
  order, and \<open>mailbox_exactly_once\<close> shows that every message is received once, in order.

  The firmware's side of the conversation: a message is four words in scratch 0..3 and status
  bit 0, and it sends none before the host has taken the one before (each of its messages
  answers one of the host's). It may raise other status bits and count in the other scratch
  registers at any time.
\<close>

section \<open>The conversation as a system of steps\<close>

datatype mbox_op =
    FwMsg mbox_msg       \<comment> \<open>the firmware sends\<close>
  | FwBits u32           \<comment> \<open>other status bits\<close>
  | FwScratch nat u32    \<comment> \<open>a scratch register above 3\<close>
  | Irq                  \<comment> \<open>the interrupt handler runs\<close>
  | Poll                 \<comment> \<open>one turn of \<open>ave_recv_iop_msg\<close>\<close>

record mbox_sys =
  ms_dev :: ave_device
  ms_sent :: "mbox_msg list"
  ms_got :: "mbox_msg list"

definition fw_write_msg :: "mbox_msg \<Rightarrow> ave_device \<Rightarrow> ave_device" where
  "fw_write_msg m dev = (case m of (a, b, c, d) \<Rightarrow>
     dev\<lparr>scratch := (scratch dev)[0 := a, 1 := b, 2 := c, 3 := d],
         intr_status := intr_status dev OR 1\<rparr>)"

definition opt_list :: "'a option \<Rightarrow> 'a list" where
  "opt_list x = (case x of None \<Rightarrow> [] | Some y \<Rightarrow> [y])"

fun mbox_step ::
  "((nat \<times> nat) list \<Rightarrow> nat \<Rightarrow> nat option) \<Rightarrow> mbox_op \<Rightarrow> mbox_sys \<Rightarrow> mbox_sys" where
  "mbox_step gp (FwMsg m) s =
     (if length (ms_got s) = length (ms_sent s)
      then s\<lparr>ms_dev := fw_write_msg m (ms_dev s), ms_sent := ms_sent s @ [m]\<rparr> else s)"
| "mbox_step gp (FwBits v) s =
     s\<lparr>ms_dev := (ms_dev s)\<lparr>intr_status := intr_status (ms_dev s) OR (v AND NOT 1)\<rparr>\<rparr>"
| "mbox_step gp (FwScratch i v) s =
     (if i < 4 then s else s\<lparr>ms_dev := ave_set_scratch i v (ms_dev s)\<rparr>)"
| "mbox_step gp Irq s = s\<lparr>ms_dev := snd (ave_irq_handler gp (ms_dev s))\<rparr>"
| "mbox_step gp Poll s =
     (case recv_poll (ms_dev s) of
        (got, d) \<Rightarrow> s\<lparr>ms_dev := d, ms_got := ms_got s @ opt_list got\<rparr>)"

definition mbox_run ::
  "((nat \<times> nat) list \<Rightarrow> nat \<Rightarrow> nat option) \<Rightarrow> mbox_op list \<Rightarrow> ave_device \<Rightarrow> mbox_sys" where
  "mbox_run gp ops d = fold (mbox_step gp) ops \<lparr>ms_dev = d, ms_sent = [], ms_got = []\<rparr>"

text \<open>Where \<open>ave_boot_config\<close> leaves the device: nothing pending, rings not live.\<close>

definition mbox_idle :: "ave_device \<Rightarrow> bool" where
  "mbox_idle d \<longleftrightarrow> length (scratch d) = 8 \<and> intr_status d AND 1 = 0 \<and> \<not> mbox_pending d
     \<and> boot_abi d \<noteq> None \<and> \<not> ipc_up d"

section \<open>Invariant\<close>

text \<open>\<open>in_flight d\<close> is the message the device holds for the host, in the handler's copy or still
  in the scratch registers; never in both.\<close>

definition in_flight :: "ave_device \<Rightarrow> mbox_msg option" where
  "in_flight d =
     (if mbox_pending d then Some (mbox d)
      else if intr_status d AND 1 \<noteq> 0 then Some (scratch4 d) else None)"

definition mbox_inv :: "ave_boot_phase \<Rightarrow> mbox_sys \<Rightarrow> bool" where
  "mbox_inv p s \<longleftrightarrow>
     length (scratch (ms_dev s)) = 8 \<and> boot_abi (ms_dev s) \<noteq> None \<and> \<not> ipc_up (ms_dev s)
   \<and> \<not> (mbox_pending (ms_dev s) \<and> intr_status (ms_dev s) AND 1 \<noteq> 0)
   \<and> ms_sent s = ms_got s @ opt_list (in_flight (ms_dev s))
   \<and> (if ms_got s = [] then boot_phase (ms_dev s) = p
      else p = AVE_BOOT_ARGS_WRITTEN \<longrightarrow>
             boot_phase (ms_dev s) = AVE_BOOT_MSG1 \<and> msg1 (ms_dev s) = hd (ms_got s))"

lemmas mailbox_defs =
  in_flight_def opt_list_def scratch4_def ave_scratch_def write_status_def AVE_BOOT_MBOX_BIT_def

lemma recv_poll_in_flight: "fst (recv_poll d) = in_flight d"
  by (auto simp: recv_poll_def mailbox_defs Let_def)

lemma status_bits [simp]:
  "s AND NOT s = (0 :: u32)" "(s AND - 2) AND 1 = (0 :: u32)"
  "(s OR v AND - 2) AND 1 = s AND (1 :: u32)" "(s OR 1) AND 1 = (1 :: u32)"
proof -
  have n: "(- 2 :: u32) = NOT 1" by simp
  show "s AND NOT s = (0 :: u32)" by (auto simp: bit_eq_iff bit_simps)
  show "(s AND - 2) AND 1 = (0 :: u32)" "(s OR v AND - 2) AND 1 = s AND (1 :: u32)"
    unfolding n by (auto simp: bit_eq_iff bit_simps)
  show "(s OR 1) AND 1 = (1 :: u32)" by (auto simp: bit_eq_iff bit_simps)
qed

lemma irq_capture_before_up:
  assumes "\<not> ipc_up d"
  shows "snd (ave_irq_handler gp d) =
    (if intr_status d = 0 then d else irq_capture (intr_status d) d)"
  using assms by (simp add: ave_irq_handler_def irq_capture_def write_status_def Let_def)

lemma irq_capture_fields:
  assumes "\<not> ipc_up d" "boot_abi d \<noteq> None"
  shows "scratch (irq_capture st d) = scratch d" "boot_abi (irq_capture st d) = boot_abi d"
    "ipc_up (irq_capture st d) = ipc_up d" "boot_phase (irq_capture st d) = boot_phase d"
    "msg1 (irq_capture st d) = msg1 d" "intr_status (irq_capture st d) = intr_status d AND NOT st"
    "mbox_pending (irq_capture st d) = (mbox_pending d \<or> st AND 1 \<noteq> 0)"
    "mbox (irq_capture st d) = (if st AND 1 \<noteq> 0 then scratch4 d else mbox d)"
  using assms by (auto simp: irq_capture_def write_status_def Let_def scratch4_def ave_scratch_def)

lemma mbox_inv_irq:
  assumes "mbox_inv p s"
  shows "mbox_inv p (mbox_step gp Irq s)"
proof -
  let ?d = "ms_dev s"
  have up: "\<not> ipc_up ?d" "boot_abi ?d \<noteq> None" using assms by (simp_all add: mbox_inv_def)
  have "in_flight (irq_capture (intr_status ?d) ?d) = in_flight ?d"
    using assms unfolding in_flight_def
    by (auto simp: irq_capture_fields [OF up] mbox_inv_def)
  then show ?thesis
    using assms by (auto simp: mbox_inv_def irq_capture_before_up [OF up(1)] irq_capture_fields [OF up])
qed

lemma mbox_inv_poll:
  assumes "mbox_inv p s"
  shows "mbox_inv p (mbox_step gp Poll s)"
  using assms
  by (auto simp: mbox_inv_def recv_poll_def mailbox_defs Let_def hd_append split: if_splits)

lemma mbox_inv_step: "mbox_inv p s \<Longrightarrow> mbox_inv p (mbox_step gp op s)"
proof (cases op)
  case (FwMsg m)
  assume inv: "mbox_inv p s"
  obtain a b c d where m: "m = (a, b, c, d)" by (cases m)
  have "in_flight (ms_dev s) = None" if "length (ms_got s) = length (ms_sent s)"
    using inv that by (auto simp: mbox_inv_def opt_list_def split: option.splits)
  then show ?thesis
    using inv by (auto simp: FwMsg m mbox_inv_def fw_write_msg_def mailbox_defs split: if_splits)
next
  case Irq
  assume "mbox_inv p s"
  then show ?thesis unfolding Irq by (rule mbox_inv_irq)
next
  case Poll
  assume "mbox_inv p s"
  then show ?thesis unfolding Poll by (rule mbox_inv_poll)
qed (auto simp: mbox_inv_def mailbox_defs ave_set_scratch_def)

lemma mbox_inv_run:
  assumes "mbox_idle d"
  shows "mbox_inv (boot_phase d) (mbox_run gp ops d)"
proof -
  have "mbox_inv (boot_phase d) s \<Longrightarrow> mbox_inv (boot_phase d) (fold (mbox_step gp) ops s)" for s
    by (induction ops arbitrary: s) (simp_all add: mbox_inv_step)
  then show ?thesis
    using assms unfolding mbox_run_def by (simp add: mbox_inv_def mbox_idle_def mailbox_defs)
qed

section \<open>Exactly once\<close>

text \<open>C18. However the interrupt handler, the polling thread and the firmware interleave, the
  messages the host has received, followed by what its next poll returns, are exactly the
  messages the firmware sent: none is lost, none is seen twice, and they come in order. If the
  host was waiting for message 1, the first of them is the one \<open>msg1\<close> keeps.\<close>

theorem mailbox_exactly_once:
  assumes "mbox_idle d"
  shows "ms_sent (mbox_run gp ops d)
      = ms_got (mbox_run gp ops d) @ opt_list (fst (recv_poll (ms_dev (mbox_run gp ops d))))
    \<and> (boot_phase d = AVE_BOOT_ARGS_WRITTEN \<and> ms_got (mbox_run gp ops d) \<noteq> [] \<longrightarrow>
         msg1 (ms_dev (mbox_run gp ops d)) = hd (ms_sent (mbox_run gp ops d)))"
  using mbox_inv_run [OF assms, of gp ops] by (auto simp: mbox_inv_def recv_poll_in_flight)

definition waiting_device :: ave_device where
  "waiting_device =
     (fresh_device (\<lambda>_. \<lparr>dev_id = 14, dev_type = 1\<rparr>) AVE_ABI_MACOS_13_5)
       \<lparr>boot_abi := Some abi_13_5, boot_phase := AVE_BOOT_ARGS_WRITTEN\<rparr>"

theorem mailbox_exactly_once_witness:
  "ms_sent (mbox_run (\<lambda>_ _. None)
     [Irq, FwMsg (7, 0x9bc0, 0x100, 0xc0000), FwBits 2, Irq, Irq, Poll, Poll] waiting_device)
     = [(7, 0x9bc0, 0x100, 0xc0000)]
   \<and> msg1 (ms_dev (mbox_run (\<lambda>_ _. None)
     [Irq, FwMsg (7, 0x9bc0, 0x100, 0xc0000), FwBits 2, Irq, Irq, Poll, Poll] waiting_device))
     = (7, 0x9bc0, 0x100, 0xc0000)"
proof -
  have idle: "mbox_idle waiting_device"
    by (simp add: mbox_idle_def waiting_device_def fresh_device_def)
  show ?thesis
    using mailbox_exactly_once [OF idle, of "\<lambda>_ _. None"
        "[Irq, FwMsg (7, 0x9bc0, 0x100, 0xc0000), FwBits 2, Irq, Irq, Poll, Poll]"]
    by (simp add: waiting_device_def fresh_device_def mbox_run_def recv_poll_def ave_irq_handler_def
        irq_capture_def fw_write_msg_def mailbox_defs Let_def)
qed

end
