(* ===== verification/Ave_Ipc_Inv.thy ===== *)
theory Ave_Ipc_Inv
  imports Ave_Ipc
begin

text \<open>
  What the transport of \<open>Ave_Ipc\<close> keeps, whatever the firmware puts in the shared memory: the
  invariant \<open>dev_ok\<close> (the pool's allocations do not overlap, every bound channel's ring lies in
  the channel block and its handle is in bounds, the SHAREDMALLOC table holds live allocations
  only), kept by every operation up to the whole interrupt handler, which always ends, never
  trips the allocator's BUG, and hands the command layer only buffers inside FwIPC.
\<close>

section \<open>The allocator's contract\<close>

definition apart :: "nat \<times> nat \<Rightarrow> nat \<times> nat \<Rightarrow> bool" where
  "apart a b \<longleftrightarrow> fst a + snd a \<le> fst b \<or> fst b + snd b \<le> fst a"

definition live_ok :: "nat \<Rightarrow> (nat \<times> nat) list \<Rightarrow> bool" where
  "live_ok n live \<longleftrightarrow> (\<forall>b\<in>set live. 0 < snd b \<and> fst b + snd b \<le> n) \<and> sorted_wrt apart live"

text \<open>The kernel's promise for \<open>gen_pool_alloc\<close> on a pool of one chunk of \<open>n\<close> bytes and a 64-byte
  granule: what it returns is aligned, inside the chunk, and apart from what is allocated.\<close>

definition gen_pool_ok :: "((nat \<times> nat) list \<Rightarrow> nat \<Rightarrow> nat option) \<Rightarrow> nat \<Rightarrow> bool" where
  "gen_pool_ok gp n \<longleftrightarrow>
     (\<forall>live k va. live_ok n live \<longrightarrow> gp live k = Some va \<longrightarrow>
        va mod AVE_BOOT_CHANMEM_ALIGN = 0 \<and> va + k \<le> n \<and> (\<forall>b\<in>set live. apart (va, k) b))"

lemma live_ok_Cons:
  "gen_pool_ok gp n \<Longrightarrow> live_ok n live \<Longrightarrow> gp live k = Some va \<Longrightarrow> 0 < k \<Longrightarrow> live_ok n ((va, k) # live)"
  by (auto simp: gen_pool_ok_def live_ok_def)

lemma sorted_wrt_remove1: "sorted_wrt P xs \<Longrightarrow> sorted_wrt P (remove1 x xs)"
  by (induction xs) (auto dest: notin_set_remove1 in_set_remove1 set_remove1_subset [THEN subsetD])

lemma live_ok_remove1: "live_ok n live \<Longrightarrow> live_ok n (remove1 b live)"
  by (auto simp: live_ok_def sorted_wrt_remove1 dest: set_remove1_subset [THEN subsetD])

lemma apart_sym: "apart a b \<longleftrightarrow> apart b a"
  by (auto simp: apart_def)

lemma live_distinct: "live_ok n live \<Longrightarrow> distinct live"
proof -
  have "sorted_wrt apart xs \<Longrightarrow> \<forall>b\<in>set xs. 0 < snd b \<Longrightarrow> distinct xs" for xs
    by (induction xs) (auto simp: apart_def)
  then show "live_ok n live \<Longrightarrow> distinct live" by (auto simp: live_ok_def)
qed

lemma live_apart:
  assumes "live_ok n live" "a \<in> set live" "b \<in> set live" "a \<noteq> b"
  shows "apart a b"
proof -
  obtain i j where "i < length live" "j < length live" "live ! i = a" "live ! j = b"
    using assms(2,3) by (metis in_set_conv_nth)
  then show ?thesis
    using assms(1,4) by (cases i j rule: linorder_cases)
      (auto simp: live_ok_def sorted_wrt_iff_nth_less apart_sym dest: spec [of _ i] spec [of _ j])
qed

lemma live_fst_inj:
  assumes "live_ok n live" "(a, k) \<in> set live" "(a, l) \<in> set live"
  shows "k = l"
proof (rule ccontr)
  assume "k \<noteq> l"
  then have "apart (a, k) (a, l)" using live_apart [OF assms] by simp
  then show False using assms by (auto simp: live_ok_def apart_def)
qed

section \<open>The SHAREDMALLOC table\<close>

text \<open>\<open>tab_in t P\<close>: every entry in use satisfies \<open>P\<close>; \<open>tab_apart t\<close>: no pointer is in two entries.\<close>

definition tab_apart :: "(nat option \<times> u32) list \<Rightarrow> bool" where
  "tab_apart t \<longleftrightarrow> (\<forall>i < length t. \<forall>j < length t. \<forall>p. i \<noteq> j \<longrightarrow> \<not> (fst (t ! i) = Some p \<and> fst (t ! j) = Some p))"

definition tab_in :: "(nat option \<times> u32) list \<Rightarrow> (nat \<Rightarrow> u32 \<Rightarrow> bool) \<Rightarrow> bool" where
  "tab_in t P \<longleftrightarrow> (\<forall>i < length t. \<forall>p s. t ! i = (Some p, s) \<longrightarrow> P p s)"

lemma tab_inD: "tab_in t P \<Longrightarrow> i < length t \<Longrightarrow> t ! i = (Some p, s) \<Longrightarrow> P p s"
  by (simp add: tab_in_def)

lemma tab_in_mono: "tab_in t P \<Longrightarrow> (\<And>p s. P p s \<Longrightarrow> Q p s) \<Longrightarrow> tab_in t Q"
  by (simp add: tab_in_def)

lemma tab_apartD:
  "tab_apart t \<Longrightarrow> i < length t \<Longrightarrow> j < length t \<Longrightarrow> i \<noteq> j \<Longrightarrow> fst (t ! i) = Some p \<Longrightarrow> fst (t ! j) \<noteq> Some p"
  by (auto simp: tab_apart_def)

lemma tab_in_clear: "tab_in t P \<Longrightarrow> i < length t \<Longrightarrow> tab_in (t[i := (None, u)]) P"
  by (auto simp: tab_in_def nth_list_update split: if_splits)

lemma tab_apart_clear:
  assumes "tab_apart t" "i < length t"
  shows "tab_apart (t[i := (None, u)])"
  unfolding tab_apart_def
proof (intro allI impI notI)
  fix j k p
  assume "j < length (t[i := (None, u)])" "k < length (t[i := (None, u)])" "j \<noteq> k"
    "fst (t[i := (None, u)] ! j) = Some p \<and> fst (t[i := (None, u)] ! k) = Some p"
  then show False
    using assms tab_apartD [OF assms(1), of j k p] by (cases "j = i"; cases "k = i") auto
qed

lemma tab_in_set:
  "tab_in t P \<Longrightarrow> i < length t \<Longrightarrow> P p s \<Longrightarrow> tab_in (t[i := (Some p, s)]) P"
  by (auto simp: tab_in_def nth_list_update split: if_splits)

lemma tab_apart_set:
  assumes "tab_apart t" "i < length t" "\<forall>j < length t. fst (t ! j) \<noteq> Some p"
  shows "tab_apart (t[i := (Some p, s)])"
  unfolding tab_apart_def
proof (intro allI impI notI)
  fix j k q
  assume "j < length (t[i := (Some p, s)])" "k < length (t[i := (Some p, s)])" "j \<noteq> k"
    "fst (t[i := (Some p, s)] ! j) = Some q \<and> fst (t[i := (Some p, s)] ! k) = Some q"
  then show False
    using assms(2,3) tab_apartD [OF assms(1), of j k q]
    by (cases "j = i"; cases "k = i") auto
qed

section \<open>The invariant\<close>

definition chanmem_block :: "ave_device \<Rightarrow> nat \<times> nat" where
  "chanmem_block d = (case chanmem d of Some c \<Rightarrow> (c, unat (chanmem_size d)) | None \<Rightarrow> (0, 0))"

definition chan_ok :: "nat \<Rightarrow> nat \<times> nat \<Rightarrow> ave_channel \<Rightarrow> bool" where
  "chan_ok n blk ch \<longleftrightarrow> ring_ok n (ave_ch_to_ring ch) \<and> unat (ch_doorbell_bit ch) < 32
     \<and> fst blk \<le> ch_ring ch
     \<and> ch_ring ch + unat (ch_nslots ch) * AVE_BOOT_SLOT_SIZE \<le> fst blk + snd blk"

definition chans_ok :: "ave_device \<Rightarrow> (nat \<times> nat) list \<Rightarrow> bool" where
  "chans_ok d live \<longleftrightarrow> length (chan d) = AVE_CH_MAX
     \<and> (\<forall>ch\<in>set (chan d). ch_bound ch \<longrightarrow>
          chanmem_block d \<in> set live \<and> chan_ok (ipc_size d) (chanmem_block d) ch)"

text \<open>The driver's own allocations, which the SHAREDMALLOC table must not contain.\<close>

definition fixed_ptrs :: "ave_device \<Rightarrow> nat set" where
  "fixed_ptrs d = {c. chanmem d = Some c \<or> ipcinfo d = Some c \<or> info_log d = Some c \<or> fwcfg d = Some c}"

definition shm_ok :: "ave_device \<Rightarrow> (nat \<times> nat) list \<Rightarrow> bool" where
  "shm_ok d live \<longleftrightarrow> length (shm d) = AVE_SHMALLOC_MAX
     \<and> tab_in (shm d) (\<lambda>p s. (p, unat s) \<in> set live \<and> p \<notin> fixed_ptrs d) \<and> tab_apart (shm d)"

definition dev_ok_with :: "ave_device \<Rightarrow> (nat \<times> nat) list \<Rightarrow> bool" where
  "dev_ok_with d live \<longleftrightarrow>
     ipc_pool d = Some live \<and> ipc_cpu d \<and> length (ipc_mem d) = ipc_size d \<and> ipc_size d < 2 ^ 32
   \<and> length (scratch d) = 8 \<and> live_ok (ipc_size d) live \<and> fixed_ptrs d \<subseteq> fst ` set live
   \<and> chans_ok d live \<and> shm_ok d live \<and> \<not> pool_bug d"

definition dev_ok :: "ave_device \<Rightarrow> bool" where
  "dev_ok d \<longleftrightarrow> (case ipc_pool d of None \<Rightarrow> False | Some live \<Rightarrow> dev_ok_with d live)"

lemma chanmem_block_frame [simp]:
  "chanmem_block (d\<lparr>ipc_pool := x0\<rparr>) = chanmem_block d"
  "chanmem_block (d\<lparr>ipc_mem := x1\<rparr>) = chanmem_block d"
  "chanmem_block (d\<lparr>chan := x2\<rparr>) = chanmem_block d"
  "chanmem_block (d\<lparr>doorbells := x3\<rparr>) = chanmem_block d"
  "chanmem_block (d\<lparr>shm := x4\<rparr>) = chanmem_block d"
  "chanmem_block (d\<lparr>rx_calls := x5\<rparr>) = chanmem_block d"
  "chanmem_block (d\<lparr>fwlog_lines := x6\<rparr>) = chanmem_block d"
  "chanmem_block (d\<lparr>fw_lines := x7\<rparr>) = chanmem_block d"
  "chanmem_block (d\<lparr>hung := x8\<rparr>) = chanmem_block d"
  "chanmem_block (d\<lparr>pool_bug := x9\<rparr>) = chanmem_block d"
  "chanmem_block (d\<lparr>intr_status := x10\<rparr>) = chanmem_block d"
  "chanmem_block (d\<lparr>scratch := x11\<rparr>) = chanmem_block d"
  "chanmem_block (d\<lparr>boot_phase := x12\<rparr>) = chanmem_block d"
  "chanmem_block (d\<lparr>ipc_up := x13\<rparr>) = chanmem_block d"
  "chanmem_block (d\<lparr>mbox_pending := x14\<rparr>) = chanmem_block d"
  "chanmem_block (d\<lparr>mbox_status := x15\<rparr>) = chanmem_block d"
  "chanmem_block (d\<lparr>mbox := x16\<rparr>) = chanmem_block d"
  "chanmem_block (d\<lparr>msg1 := x17\<rparr>) = chanmem_block d"
  "chanmem_block (d\<lparr>hs_seen := x18\<rparr>) = chanmem_block d"
  "chanmem_block (d\<lparr>hs_status := x19\<rparr>) = chanmem_block d"
  "chanmem_block (d\<lparr>hs_scratch := x20\<rparr>) = chanmem_block d"
  "chanmem_block (d\<lparr>nchannels := x21\<rparr>) = chanmem_block d"
  "chanmem_block (d\<lparr>client_buf_size := x22\<rparr>) = chanmem_block d"
  by (simp_all add: chanmem_block_def split: option.split)

lemma fixed_ptrs_frame [simp]:
  "fixed_ptrs (d\<lparr>ipc_pool := x0\<rparr>) = fixed_ptrs d"
  "fixed_ptrs (d\<lparr>ipc_mem := x1\<rparr>) = fixed_ptrs d"
  "fixed_ptrs (d\<lparr>chan := x2\<rparr>) = fixed_ptrs d"
  "fixed_ptrs (d\<lparr>doorbells := x3\<rparr>) = fixed_ptrs d"
  "fixed_ptrs (d\<lparr>shm := x4\<rparr>) = fixed_ptrs d"
  "fixed_ptrs (d\<lparr>rx_calls := x5\<rparr>) = fixed_ptrs d"
  "fixed_ptrs (d\<lparr>fwlog_lines := x6\<rparr>) = fixed_ptrs d"
  "fixed_ptrs (d\<lparr>fw_lines := x7\<rparr>) = fixed_ptrs d"
  "fixed_ptrs (d\<lparr>hung := x8\<rparr>) = fixed_ptrs d"
  "fixed_ptrs (d\<lparr>pool_bug := x9\<rparr>) = fixed_ptrs d"
  "fixed_ptrs (d\<lparr>intr_status := x10\<rparr>) = fixed_ptrs d"
  "fixed_ptrs (d\<lparr>scratch := x11\<rparr>) = fixed_ptrs d"
  "fixed_ptrs (d\<lparr>boot_phase := x12\<rparr>) = fixed_ptrs d"
  "fixed_ptrs (d\<lparr>ipc_up := x13\<rparr>) = fixed_ptrs d"
  "fixed_ptrs (d\<lparr>mbox_pending := x14\<rparr>) = fixed_ptrs d"
  "fixed_ptrs (d\<lparr>mbox_status := x15\<rparr>) = fixed_ptrs d"
  "fixed_ptrs (d\<lparr>mbox := x16\<rparr>) = fixed_ptrs d"
  "fixed_ptrs (d\<lparr>msg1 := x17\<rparr>) = fixed_ptrs d"
  "fixed_ptrs (d\<lparr>hs_seen := x18\<rparr>) = fixed_ptrs d"
  "fixed_ptrs (d\<lparr>hs_status := x19\<rparr>) = fixed_ptrs d"
  "fixed_ptrs (d\<lparr>hs_scratch := x20\<rparr>) = fixed_ptrs d"
  "fixed_ptrs (d\<lparr>nchannels := x21\<rparr>) = fixed_ptrs d"
  "fixed_ptrs (d\<lparr>client_buf_size := x22\<rparr>) = fixed_ptrs d"
  by (simp_all add: fixed_ptrs_def)

lemma dev_ok_iff: "dev_ok d \<longleftrightarrow> (\<exists>live. dev_ok_with d live)"
  by (auto simp: dev_ok_def dev_ok_with_def split: option.splits)

section \<open>Translation\<close>

lemma fw_to_cpu_inside:
  "ave_ipc_fw_to_cpu d fw n = Some p \<Longrightarrow> p < ipc_size d \<and> p + n \<le> ipc_size d"
  by (auto simp: ave_ipc_fw_to_cpu_def Let_def split: if_splits)

lemma fw_to_cpu_back: "ave_ipc_fw_to_cpu d fw n = Some p \<Longrightarrow> ave_ipc_cpu_to_fw d p = fw"
  by (auto simp: ave_ipc_fw_to_cpu_def ave_ipc_cpu_to_fw_def Let_def split: if_splits)

lemma cpu_to_fw_back:
  assumes "ipc_cpu d" "p < ipc_size d" "p + n \<le> ipc_size d"
    and "unat (ipc_fw_base d) + ipc_size d \<le> 2 ^ 64"
  shows "ave_ipc_fw_to_cpu d (ave_ipc_cpu_to_fw d p) n = Some p"
proof -
  have p: "unat (of_nat p :: u64) = p" using assms by (intro unat_of_nat_small) simp
  have sum: "unat (ave_ipc_cpu_to_fw d p) = p + unat (ipc_fw_base d)"
    using assms p by (simp add: ave_ipc_cpu_to_fw_def unat_add_nowrap)
  then have "\<not> ave_ipc_cpu_to_fw d p < ipc_fw_base d" by (simp add: word_less_nat_alt)
  moreover have "unat (ave_ipc_cpu_to_fw d p - ipc_fw_base d) = p"
    using p by (simp add: ave_ipc_cpu_to_fw_def)
  ultimately show ?thesis using assms by (simp add: ave_ipc_fw_to_cpu_def)
qed

section \<open>Allocation\<close>

lemma length_poke_zero: "va + n \<le> length m \<Longrightarrow> length (poke m va (replicate n 0)) = length m"
  by simp

lemma alloc_cases:
  assumes "dev_ok_with d live" "gen_pool_ok gp (ipc_size d)"
  obtains (none) "ave_ipc_alloc gp n d = (None, d)"
    | (some) va where "ave_ipc_alloc gp n d = (Some va, d\<lparr>ipc_pool := Some ((va, n) # live),
          ipc_mem := poke (ipc_mem d) va (replicate n 0)\<rparr>)"
        "0 < n" "va + n \<le> ipc_size d" "live_ok (ipc_size d) ((va, n) # live)"
        "va \<notin> fst ` set live" "va mod AVE_BOOT_CHANMEM_ALIGN = 0" "\<forall>b\<in>set live. apart (va, n) b"
proof (cases "n = 0 \<or> gp live n = None")
  case True
  then show ?thesis using assms none by (auto simp: ave_ipc_alloc_def dev_ok_with_def)
next
  case False
  then obtain va where va: "gp live n = Some va" "0 < n" by auto
  have live: "live_ok (ipc_size d) live" using assms(1) by (simp add: dev_ok_with_def)
  have ap: "\<forall>b\<in>set live. apart (va, n) b" and fit: "va + n \<le> ipc_size d"
    and al: "va mod AVE_BOOT_CHANMEM_ALIGN = 0"
    using assms(2) live va(1) by (auto simp: gen_pool_ok_def)
  have "va \<notin> fst ` set live"
    using ap live va(2) by (force simp: apart_def live_ok_def)
  then show ?thesis
    using some [of va] assms va ap fit al live_ok_Cons [OF assms(2) live va]
    by (auto simp: ave_ipc_alloc_def dev_ok_with_def)
qed

lemma chans_ok_mono: "chans_ok d live \<Longrightarrow> chans_ok d (b # live)"
  by (auto simp: chans_ok_def)

lemma alloc_keeps:
  assumes "dev_ok_with d live" "live_ok (ipc_size d) ((va, n) # live)" "va + n \<le> ipc_size d"
  shows "dev_ok_with (d\<lparr>ipc_pool := Some ((va, n) # live),
      ipc_mem := poke (ipc_mem d) va (replicate n 0)\<rparr>) ((va, n) # live)"
  using assms
  by (auto simp: dev_ok_with_def chans_ok_def shm_ok_def elim: tab_in_mono)

text \<open>What is neither a channel block nor one of the driver's own blocks may be freed.\<close>

lemma free_keeps:
  assumes ok: "dev_ok_with d live" and b: "(va, n) \<in> set live" and own: "va \<notin> fixed_ptrs d"
    and shm: "\<forall>i < length (shm d). fst (shm d ! i) \<noteq> Some va"
  shows "dev_ok_with (ave_ipc_free (Some va) n d) (remove1 (va, n) live)"
    "ave_ipc_free (Some va) n d = d\<lparr>ipc_pool := Some (remove1 (va, n) live)\<rparr>"
proof -
  have live: "live_ok (ipc_size d) live" and pool: "ipc_pool d = Some live"
    using ok by (simp_all add: dev_ok_with_def)
  have n: "n \<noteq> 0" using live b by (auto simp: live_ok_def)
  have other: "c \<in> set (remove1 (va, n) live)" if "c \<in> set live" "fst c \<noteq> va" for c
  proof -
    have "c \<noteq> (va, n)" using that(2) by auto
    then show ?thesis using that(1) by simp
  qed
  show eq: "ave_ipc_free (Some va) n d = d\<lparr>ipc_pool := Some (remove1 (va, n) live)\<rparr>"
    using n b pool by (simp add: ave_ipc_free_def)
  have fx: "fixed_ptrs d \<subseteq> fst ` set (remove1 (va, n) live)"
  proof
    fix c assume c: "c \<in> fixed_ptrs d"
    then obtain k where k: "(c, k) \<in> set live" using ok by (force simp: dev_ok_with_def)
    have "c \<noteq> va" using c own by auto
    then have "(c, k) \<in> set (remove1 (va, n) live)" using other [OF k] by simp
    then show "c \<in> fst ` set (remove1 (va, n) live)" by (rule rev_image_eqI) simp
  qed
  have ch: "chans_ok d (remove1 (va, n) live)"
  proof -
    have "chanmem_block d \<in> set (remove1 (va, n) live)" if "ch \<in> set (chan d)" "ch_bound ch" for ch
    proof -
      have m: "chanmem_block d \<in> set live"
        using ok that by (auto simp: dev_ok_with_def chans_ok_def)
      then have "chanmem d \<noteq> None"
        using live by (auto simp: chanmem_block_def live_ok_def split: option.splits)
      then have "fst (chanmem_block d) \<in> fixed_ptrs d"
        by (auto simp: chanmem_block_def fixed_ptrs_def)
      then show ?thesis using own by (intro other [OF m]) auto
    qed
    then show ?thesis using ok by (auto simp: dev_ok_with_def chans_ok_def)
  qed
  have sh: "shm_ok d (remove1 (va, n) live)"
  proof -
    have old: "shm_ok d live" using ok by (simp add: dev_ok_with_def)
    have "(p, unat s) \<in> set (remove1 (va, n) live)"
      if "i < length (shm d)" "shm d ! i = (Some p, s)" for i p s
    proof (rule other)
      show "(p, unat s) \<in> set live" using old that by (auto simp: shm_ok_def dest: tab_inD)
      show "fst (p, unat s) \<noteq> va" using shm that by (metis fst_conv)
    qed
    then show ?thesis using old by (simp add: shm_ok_def tab_in_def)
  qed
  show "dev_ok_with (ave_ipc_free (Some va) n d) (remove1 (va, n) live)"
    using ok live_ok_remove1 [OF live] fx ch sh unfolding eq
    by (auto simp: dev_ok_with_def chans_ok_def shm_ok_def elim: tab_in_mono)
qed

section \<open>Channels\<close>

lemma ch_ring_fields [simp]:
  "r_slots (ave_ch_to_ring ch) = ch_ring ch" "r_nslots (ave_ch_to_ring ch) = ch_nslots ch"
  "r_type (ave_ch_to_ring ch) = ch_type ch"
  by (simp_all add: ave_ch_to_ring_def)

text \<open>Writing a ring's handle back and reading it again.\<close>

lemma ch_ring_back:
  assumes "r_slots r = ch_ring ch" "r_nslots r = ch_nslots ch" "r_type r = ch_type ch"
  shows "ave_ch_to_ring (ave_ring_to_ch r ch) = r"
  using assms by (simp add: ave_ch_to_ring_def ave_ring_to_ch_def)

lemma ring_to_ch_fields [simp]:
  "ch_bound (ave_ring_to_ch r ch) = ch_bound ch" "ch_ring (ave_ring_to_ch r ch) = ch_ring ch"
  "ch_nslots (ave_ring_to_ch r ch) = ch_nslots ch" "ch_type (ave_ring_to_ch r ch) = ch_type ch"
  "ch_doorbell_bit (ave_ring_to_ch r ch) = ch_doorbell_bit ch"
  by (simp_all add: ave_ring_to_ch_def)

lemma ave_chan_Some:
  "ave_chan d i = Some ch \<longleftrightarrow> i < length (chan d) \<and> ch = chan d ! i \<and> ch_bound ch"
  by (auto simp: ave_chan_def)

text \<open>The set of slots of channel \<open>i\<close> that the host could still receive.\<close>

definition pending :: "nat \<Rightarrow> ave_device \<Rightarrow> nat set" where
  "pending i d = (case ave_chan d i of None \<Rightarrow> {} | Some ch \<Rightarrow> readable (ipc_mem d) (ave_ch_to_ring ch))"

lemma chan_ring_ok:
  assumes "dev_ok_with d live" "ave_chan d i = Some ch"
  shows "ring_ok (length (ipc_mem d)) (ave_ch_to_ring ch)" "chan_ok (ipc_size d) (chanmem_block d) ch"
    "chanmem_block d \<in> set live" "i < length (chan d)"
  using assms by (auto simp: dev_ok_with_def chans_ok_def chan_ok_def ave_chan_Some)

text \<open>A channel whose handle moved, in a memory of the same size.\<close>

lemma chan_update_keeps:
  assumes ok: "dev_ok_with d live" and ch: "ave_chan d i = Some ch"
    and r: "ring_ok (length (ipc_mem d)) r" "r_slots r = ch_ring ch" "r_nslots r = ch_nslots ch"
      "r_type r = ch_type ch"
    and m: "length m = length (ipc_mem d)"
  shows "dev_ok_with (d\<lparr>ipc_mem := m, chan := (chan d)[i := ave_ring_to_ch r ch]\<rparr>) live"
proof -
  have "chan_ok (ipc_size d) (chanmem_block d) (ave_ring_to_ch r ch)"
    using chan_ring_ok [OF ok ch] r ch_ring_back [OF r(2-4)] ok
    by (simp add: chan_ok_def dev_ok_with_def)
  then show ?thesis
    using ok m ch chan_ring_ok(3) [OF ok ch]
    by (auto simp: dev_ok_with_def chans_ok_def shm_ok_def ave_chan_Some
        dest!: set_update_subset_insert [THEN subsetD])
qed

lemma doorbell_keeps [simp]: "dev_ok_with (ave_ipc_ring_doorbell i d) live = dev_ok_with d live"
  by (auto simp: ave_ipc_ring_doorbell_def write_doorbell_def dev_ok_with_def chans_ok_def shm_ok_def
      split: option.splits)

lemma doorbell_pending [simp]: "pending j (ave_ipc_ring_doorbell i d) = pending j d"
  by (auto simp: ave_ipc_ring_doorbell_def write_doorbell_def pending_def ave_chan_def split: option.splits)

text \<open>What sending and receiving leave alone.\<close>

definition chan_frame :: "ave_device \<Rightarrow> ave_device \<Rightarrow> bool" where
  "chan_frame d d' \<longleftrightarrow> (\<exists>m cs db. d' = d\<lparr>ipc_mem := m, chan := cs, doorbells := db\<rparr>)"

lemma chan_frame_refl [simp]: "chan_frame d d"
  unfolding chan_frame_def
  by (rule exI [of _ "ipc_mem d"], rule exI [of _ "chan d"], rule exI [of _ "doorbells d"], cases d) simp

lemma chan_frame_doorbell:
  "chan_frame d (ave_ipc_ring_doorbell i (d\<lparr>ipc_mem := m, chan := cs\<rparr>))"
proof -
  have "d\<lparr>ipc_mem := m, chan := cs\<rparr> = d\<lparr>ipc_mem := m, chan := cs, doorbells := doorbells d\<rparr>"
    by (cases d) simp
  then have "chan_frame d (d\<lparr>ipc_mem := m, chan := cs\<rparr>)"
    unfolding chan_frame_def by blast
  then show ?thesis
    unfolding chan_frame_def ave_ipc_ring_doorbell_def write_doorbell_def
    by (cases "ave_chan (d\<lparr>ipc_mem := m, chan := cs\<rparr>) i") auto
qed

lemma chan_frame_recv: "chan_frame d (d\<lparr>ipc_mem := m, chan := cs\<rparr>)" "chan_frame d (d\<lparr>chan := cs\<rparr>)"
proof -
  show "chan_frame d (d\<lparr>ipc_mem := m, chan := cs\<rparr>)"
    unfolding chan_frame_def
    by (rule exI [of _ m], rule exI [of _ cs], rule exI [of _ "doorbells d"], cases d) simp
  show "chan_frame d (d\<lparr>chan := cs\<rparr>)"
    unfolding chan_frame_def
    by (rule exI [of _ "ipc_mem d"], rule exI [of _ cs], rule exI [of _ "doorbells d"], cases d) simp
qed

lemma chan_frame_fields:
  assumes "chan_frame d d'"
  shows "hung d' = hung d" "rx_calls d' = rx_calls d" "fw_lines d' = fw_lines d"
    "ipc_size d' = ipc_size d" "ipc_fw_base d' = ipc_fw_base d" "shm d' = shm d"
    "ipc_cpu d' = ipc_cpu d" "ipc_rx d' = ipc_rx d"
  using assms by (auto simp: chan_frame_def)

lemma send_fw_cases:
  obtains (refused) e where "ave_chan_send_fw i fw a1 a2 d = (Some e, d)"
    | (sent) ch m r where "ave_chan d i = Some ch"
        "ave_ring_send (ipc_mem d) (ave_ch_to_ring ch) fw a1 a2 = Some (m, r)"
        "ave_chan_send_fw i fw a1 a2 d = (None, ave_ipc_ring_doorbell i
            (d\<lparr>ipc_mem := m, chan := (chan d)[i := ave_ring_to_ch r ch]\<rparr>))"
  unfolding ave_chan_send_fw_def
  by (cases "ave_chan d i"; cases "ave_ring_send (ipc_mem d) (ave_ch_to_ring (the (ave_chan d i))) fw a1 a2")
    auto

lemma pending_update:
  assumes "ave_chan d i = Some ch" "r_slots r = ch_ring ch" "r_nslots r = ch_nslots ch"
    "r_type r = ch_type ch"
  shows "pending i (d\<lparr>ipc_mem := m, chan := (chan d)[i := ave_ring_to_ch r ch]\<rparr>) = readable m r"
    "pending i d = readable (ipc_mem d) (ave_ch_to_ring ch)"
  using assms ch_ring_back [OF assms(2-4)] by (auto simp: pending_def ave_chan_def split: if_splits)

lemma send_fw_keeps:
  assumes ok: "dev_ok_with d live" and al: "fw AND 1 = 0"
  shows "dev_ok_with (snd (ave_chan_send_fw i fw a1 a2 d)) live
    \<and> pending i (snd (ave_chan_send_fw i fw a1 a2 d)) \<subseteq> pending i d
    \<and> chan_frame d (snd (ave_chan_send_fw i fw a1 a2 d))"
proof (cases rule: send_fw_cases [of i fw a1 a2 d])
  case (refused e)
  then show ?thesis using ok by simp
next
  case (sent ch m r)
  note s = send_ok [OF chan_ring_ok(1) [OF ok sent(1)] al sent(2)]
  have r: "r_slots r = ch_ring ch" "r_nslots r = ch_nslots ch" "r_type r = ch_type ch"
    using s(2-4) by simp_all
  have m: "length m = length (ipc_mem d)" using s(6) by (simp add: same_outside_def)
  show ?thesis
    using chan_update_keeps [OF ok sent(1) s(1) r m] s(5) pending_update [OF sent(1) r]
    by (simp add: sent(3) chan_frame_doorbell)
qed

lemma recv_fw_keeps:
  assumes ok: "dev_ok_with d live" and rc: "ave_chan_recv_fw i d = (Inr x, d')"
  shows "dev_ok_with d' live \<and> pending i d' \<subset> pending i d \<and> chan_frame d d' \<and> fst x AND 3 = 0"
proof -
  obtain ch where ch: "ave_chan d i = Some ch"
    using rc by (auto simp: ave_chan_recv_fw_def split: option.splits)
  note ro = chan_ring_ok(1) [OF ok ch]
  show ?thesis
  proof (cases "ch_type ch = 2")
    case True
    then obtain m r where rr: "ave_ring_urecv (ipc_mem d) (ave_ch_to_ring ch) = Some (x, m, r)"
      and d': "d' = d\<lparr>ipc_mem := m, chan := (chan d)[i := ave_ring_to_ch r ch]\<rparr>"
      using rc ch by (auto simp: ave_chan_recv_fw_def Let_def split: option.splits)
    have two: "r_type (ave_ch_to_ring ch) = 2" using True by simp
    note s = urecv_ok [OF ro two rr]
    have r: "r_slots r = ch_ring ch" "r_nslots r = ch_nslots ch" "r_type r = ch_type ch"
      using s(2-4) by simp_all
    have m: "length m = length (ipc_mem d)" using s(8) by (simp add: same_outside_def)
    show ?thesis
      using chan_update_keeps [OF ok ch s(1) r m] s(5-7) pending_update [OF ch r]
      by (auto simp: d' chan_frame_recv)
  next
    case False
    then have t: "ch_type ch = 0 \<or> ch_type ch = 1" using ro by (auto simp: ring_ok_def)
    then obtain r where rr: "ave_ring_recv (ipc_mem d) (ave_ch_to_ring ch) = Some (x, r)"
      and d': "d' = d\<lparr>chan := (chan d)[i := ave_ring_to_ch r ch]\<rparr>"
      using rc ch by (auto simp: ave_chan_recv_fw_def Let_def split: option.splits if_splits)
    have two: "r_type (ave_ch_to_ring ch) \<noteq> 2" using False by simp
    note s = recv_ok [OF ro two rr]
    have r: "r_slots r = ch_ring ch" "r_nslots r = ch_nslots ch" "r_type r = ch_type ch"
      using s(2-4) by simp_all
    have d'': "d' = d\<lparr>ipc_mem := ipc_mem d, chan := (chan d)[i := ave_ring_to_ch r ch]\<rparr>"
      unfolding d' by (cases d) simp
    show ?thesis
      using chan_update_keeps [OF ok ch s(1) r refl] s(5-7) pending_update(1) [OF ch r, of "ipc_mem d"] pending_update(2) [OF ch r]
      unfolding d'' by (auto simp: chan_frame_recv)
  qed
qed

section \<open>Channel services\<close>

text \<open>\<open>obs_ok\<close>: every buffer handed to the command layer lies in FwIPC for the whole length the
  consumer reads, and every log line fits the driver's line buffer.\<close>

definition rx_ok :: "nat \<Rightarrow> nat \<times> (nat \<times> u8 list) option \<times> u32 \<times> u32 \<Rightarrow> bool" where
  "rx_ok n x \<longleftrightarrow> (case x of (i, buf, sz, flags) \<Rightarrow>
     (case buf of None \<Rightarrow> True | Some (p, bs) \<Rightarrow> p + max 1 (unat sz) \<le> n \<and> length bs = unat sz))"

definition line_ok :: "u32 \<times> u8 list \<times> bool \<Rightarrow> bool" where
  "line_ok x \<longleftrightarrow> length (fst (snd x)) \<le> 0x200"

definition obs_ok :: "ave_device \<Rightarrow> bool" where
  "obs_ok d \<longleftrightarrow> list_all (rx_ok (ipc_size d)) (rx_calls d) \<and> list_all line_ok (fw_lines d)"

definition serve_frame :: "ave_device \<Rightarrow> ave_device \<Rightarrow> bool" where
  "serve_frame d d' \<longleftrightarrow> hung d' = hung d \<and> ipc_size d' = ipc_size d \<and> ipc_fw_base d' = ipc_fw_base d
     \<and> (obs_ok d \<longrightarrow> obs_ok d')"

text \<open>\<open>served i d d'\<close>: what handling one message of channel \<open>i\<close> guarantees.\<close>

definition served :: "nat \<Rightarrow> ave_device \<Rightarrow> ave_device \<Rightarrow> bool" where
  "served i d d' \<longleftrightarrow> (\<exists>live. dev_ok_with d' live) \<and> pending i d' \<subseteq> pending i d \<and> serve_frame d d'"

lemma serve_frame_refl [simp]: "serve_frame d d"
  by (simp add: serve_frame_def)

lemma serve_frame_trans: "serve_frame a b \<Longrightarrow> serve_frame b c \<Longrightarrow> serve_frame a c"
  by (simp add: serve_frame_def)

lemma served_trans: "served i a b \<Longrightarrow> served i b c \<Longrightarrow> served i a c"
  using serve_frame_trans by (auto simp: served_def)

lemma chan_frame_serve: "chan_frame d d' \<Longrightarrow> serve_frame d d'"
  by (auto simp: serve_frame_def obs_ok_def chan_frame_fields)

lemma pending_frame [simp]:
  "pending i (d\<lparr>ipc_pool := a\<rparr>) = pending i d" "pending i (d\<lparr>shm := b\<rparr>) = pending i d"
  "pending i (d\<lparr>rx_calls := c\<rparr>) = pending i d" "pending i (d\<lparr>pool_bug := e\<rparr>) = pending i d"
  "pending i (d\<lparr>fwlog_lines := f, fw_lines := g\<rparr>) = pending i d"
  by (simp_all add: pending_def ave_chan_def)

lemma send_served:
  assumes "dev_ok_with d live" "fw AND 1 = 0"
  shows "served i d (snd (ave_chan_send_fw i fw a1 a2 d))"
  using send_fw_keeps [OF assms, of i a1 a2] by (auto simp: served_def chan_frame_serve)

lemma three_one: "(x :: u64) AND 3 = 0 \<Longrightarrow> x AND 1 = 0"
proof -
  assume a: "x AND 3 = 0"
  have "x AND 1 = (x AND 3) AND 1" by (simp add: and.assoc)
  then show ?thesis using a by simp
qed

lemma shm_find_Some:
  "shm_find xs p k = Some i \<Longrightarrow> k \<le> i \<and> i < k + length xs \<and> fst (xs ! (i - k)) = p"
proof (induction xs p k rule: shm_find.induct)
  case (2 c s xs p k)
  show ?case
  proof (cases "c = p")
    case True
    then show ?thesis using 2 by simp
  next
    case False
    then have "Suc k \<le> i \<and> i < Suc k + length xs \<and> fst (xs ! (i - Suc k)) = p" using 2 by simp
    moreover from this have "i - k = Suc (i - Suc k)" by linarith
    ultimately show ?thesis by simp
  qed
qed simp

lemma shm_clear_keeps:
  assumes "dev_ok_with d live" "i < length (shm d)"
  shows "dev_ok_with (d\<lparr>shm := (shm d)[i := (None, s)]\<rparr>) live"
proof -
  have old: "shm_ok d live" using assms by (simp add: dev_ok_with_def)
  then have "shm_ok (d\<lparr>shm := (shm d)[i := (None, s)]\<rparr>) live"
    using assms(2) by (simp add: shm_ok_def tab_in_clear tab_apart_clear)
  then show ?thesis
    using assms by (simp add: dev_ok_with_def chans_ok_def)
qed

lemma shm_free_served:
  assumes ok: "dev_ok_with d live" and fw: "fw AND 3 = 0" and that: "i = AVE_CH_SHAREDMALLOC"
  shows "served i d (shm_free fw d)"
proof (cases "ave_ipc_fw_to_cpu d fw 1")
  case None
  then show ?thesis using ok by (auto simp: shm_free_def served_def)
next
  case (Some cpu)
  note one = three_one [OF fw]
  show ?thesis
  proof (cases "shm_find (shm d) (Some cpu) 0")
    case None
    then show ?thesis
      using send_served [OF ok one, of i 0 0] Some that by (simp add: shm_free_def)
  next
    case (Some j)
    define s where "s = snd (shm d ! j)"
    have j: "j < length (shm d)" "shm d ! j = (Some cpu, s)"
      using shm_find_Some [OF Some] by (auto simp: s_def prod_eq_iff)
    let ?d1 = "d\<lparr>shm := (shm d)[j := (None, s)]\<rparr>"
    have ok1: "dev_ok_with ?d1 live" using shm_clear_keeps [OF ok j(1)] .
    have sh: "shm_ok d live" and lv: "live_ok (ipc_size d) live" using ok by (simp_all add: dev_ok_with_def)
    have mem: "(cpu, unat s) \<in> set live" "cpu \<notin> fixed_ptrs ?d1"
      using sh j by (auto simp: shm_ok_def dest: tab_inD)
    have s0: "s \<noteq> 0" using mem(1) lv by (auto simp: live_ok_def)
    have none: "\<forall>k < length (shm ?d1). fst (shm ?d1 ! k) \<noteq> Some cpu"
      using sh j by (auto simp: shm_ok_def nth_list_update dest: tab_apartD)
    note fr = free_keeps [OF ok1 mem none]
    have "served i d (ave_ipc_free (Some cpu) (unat s) ?d1)"
      using fr(1) unfolding served_def fr(2) by (auto simp: serve_frame_def obs_ok_def)
    moreover have "served i (ave_ipc_free (Some cpu) (unat s) ?d1)
        (snd (ave_chan_send_fw AVE_CH_SHAREDMALLOC fw 0 0 (ave_ipc_free (Some cpu) (unat s) ?d1)))"
      using send_served [OF fr(1) one] that by simp
    ultimately show ?thesis
      using \<open>ave_ipc_fw_to_cpu d fw 1 = Some cpu\<close> Some s0 j(2)
      by (auto simp: shm_free_def Let_def intro: served_trans)
  qed
qed

text \<open>Zeroing a fresh block touches no ring.\<close>

lemma readable_cong:
  assumes "\<And>j. j < unat (r_nslots r) \<Longrightarrow> get_le64 m' (r_slots r + j * AVE_BOOT_SLOT_SIZE)
      = get_le64 m (r_slots r + j * AVE_BOOT_SLOT_SIZE)"
  shows "readable m' r = readable m r"
  using assms by (auto simp: readable_def phase_of_def)

lemma alloc_pending:
  assumes ok: "dev_ok_with d live" and ap: "\<forall>b\<in>set live. apart (va, n) b" and fit: "va + n \<le> ipc_size d"
  shows "pending i (d\<lparr>ipc_pool := q, ipc_mem := poke (ipc_mem d) va (replicate n 0)\<rparr>) = pending i d"
proof (cases "ave_chan d i")
  case None
  then show ?thesis by (auto simp: pending_def ave_chan_def split: if_splits)
next
  case (Some ch)
  note c = chan_ring_ok [OF ok Some]
  have len: "length (ipc_mem d) = ipc_size d" using ok by (simp add: dev_ok_with_def)
  have out: "apart (va, n) (chanmem_block d)" using ap c(3) by simp
  have "readable (poke (ipc_mem d) va (replicate n 0)) (ave_ch_to_ring ch)
      = readable (ipc_mem d) (ave_ch_to_ring ch)"
  proof (rule readable_cong)
    fix j assume "j < unat (r_nslots (ave_ch_to_ring ch))"
    then have "Suc j * AVE_BOOT_SLOT_SIZE \<le> unat (ch_nslots ch) * AVE_BOOT_SLOT_SIZE"
      by (intro mult_le_mono1) simp
    then have "ch_ring ch + j * AVE_BOOT_SLOT_SIZE + 64 \<le> ch_ring ch + unat (ch_nslots ch) * AVE_BOOT_SLOT_SIZE"
      by (simp add: AVE_BOOT_SLOT_SIZE_def)
    then show "get_le64 (poke (ipc_mem d) va (replicate n 0)) (r_slots (ave_ch_to_ring ch) + j * AVE_BOOT_SLOT_SIZE)
        = get_le64 (ipc_mem d) (r_slots (ave_ch_to_ring ch) + j * AVE_BOOT_SLOT_SIZE)"
      using out c(2) fit len by (intro get_le64_poke_other) (auto simp: apart_def chan_ok_def)
  qed
  then show ?thesis using Some by (auto simp: pending_def ave_chan_def split: if_splits)
qed

lemma alloc_served:
  assumes "dev_ok_with d live" "live_ok (ipc_size d) ((va, n) # live)" "va + n \<le> ipc_size d"
    "\<forall>b\<in>set live. apart (va, n) b"
  shows "served i d (d\<lparr>ipc_pool := Some ((va, n) # live), ipc_mem := poke (ipc_mem d) va (replicate n 0)\<rparr>)"
  using alloc_keeps [OF assms(1-3)] alloc_pending [OF assms(1,4,3), of i]
  by (auto simp: served_def serve_frame_def obs_ok_def)

lemma shm_set_keeps:
  assumes ok: "dev_ok_with d live" and i: "i < length (shm d)" and b: "(p, unat s) \<in> set live"
    and p: "p \<notin> fixed_ptrs d" "\<forall>j < length (shm d). fst (shm d ! j) \<noteq> Some p"
  shows "dev_ok_with (d\<lparr>shm := (shm d)[i := (Some p, s)]\<rparr>) live"
  using ok i b p tab_in_set [of "shm d" "\<lambda>p s. (p, unat s) \<in> set live \<and> p \<notin> fixed_ptrs d" i p s]
    tab_apart_set [of "shm d" i p s]
  by (simp add: dev_ok_with_def chans_ok_def shm_ok_def)

lemma even_cpu_to_fw:
  assumes "va mod AVE_BOOT_CHANMEM_ALIGN = 0" "ipc_fw_base d AND 3 = 0"
  shows "ave_ipc_cpu_to_fw d va AND 1 = 0"
proof -
  have "even va" using assms(1) by (simp add: AVE_BOOT_CHANMEM_ALIGN_def) presburger
  then have "even (of_nat va :: u64)" by (auto elim!: evenE)
  moreover have "even (ipc_fw_base d)" using three_one [OF assms(2)] by (simp add: even_iff_mod_2_eq_zero and_one_eq)
  ultimately have "even (ave_ipc_cpu_to_fw d va)" by (simp add: ave_ipc_cpu_to_fw_def)
  then show ?thesis by (simp only: and_one_eq even_iff_mod_2_eq_zero)
qed

lemma free_served:
  assumes "dev_ok_with d live" "(va, n) \<in> set live" "va \<notin> fixed_ptrs d"
    "\<forall>i < length (shm d). fst (shm d ! i) \<noteq> Some va"
  shows "served i d (ave_ipc_free (Some va) n d)"
  using free_keeps(1) [OF assms] unfolding served_def free_keeps(2) [OF assms]
  by (auto simp: serve_frame_def obs_ok_def)

lemma shm_alloc_served:
  assumes ok: "dev_ok_with d live" and gp: "gen_pool_ok gp (ipc_size d)"
    and base: "ipc_fw_base d AND 3 = 0" and ch: "i = AVE_CH_SHAREDMALLOC"
  shows "served i d (shm_alloc gp sz d)"
  using ok gp
proof (cases rule: alloc_cases [where n = "unat sz"])
  case none
  then show ?thesis using ok by (auto simp: shm_alloc_def served_def)
next
  case (some va)
  let ?d1 = "d\<lparr>ipc_pool := Some ((va, unat sz) # live),
      ipc_mem := poke (ipc_mem d) va (replicate (unat sz) 0)\<rparr>"
  have ok1: "dev_ok_with ?d1 ((va, unat sz) # live)" using alloc_keeps [OF ok some(4,3)] .
  have s1: "served i d ?d1" using alloc_served [OF ok some(4,3,7)] .
  have own: "va \<notin> fixed_ptrs ?d1" using ok some(5) by (auto simp: dev_ok_with_def)
  have new: "\<forall>j < length (shm ?d1). fst (shm ?d1 ! j) \<noteq> Some va"
  proof (intro allI impI notI)
    fix j assume "j < length (shm ?d1)" "fst (shm ?d1 ! j) = Some va"
    then have "(va, unat (snd (shm d ! j))) \<in> set live"
      using ok tab_inD [of "shm d" "\<lambda>p s. (p, unat s) \<in> set live \<and> p \<notin> fixed_ptrs d" j va "snd (shm d ! j)"]
      by (simp add: dev_ok_with_def shm_ok_def prod_eq_iff)
    then show False using some(5) by force
  qed
  show ?thesis
  proof (cases "shm_find (shm d) None 0")
    case None
    have "served i ?d1 (ave_ipc_free (Some va) (unat sz) ?d1)"
      using free_served [OF ok1 _ own new] by simp
    then show ?thesis
      using some(1) None s1 by (auto simp: shm_alloc_def intro: served_trans)
  next
    case (Some j)
    let ?d2 = "?d1\<lparr>shm := (shm ?d1)[j := (Some va, sz)]\<rparr>"
    have j: "j < length (shm ?d1)" using shm_find_Some [OF Some] by simp
    have ok2: "dev_ok_with ?d2 ((va, unat sz) # live)"
      using shm_set_keeps [OF ok1 j _ own new] by simp
    have s2: "served i ?d1 ?d2" using ok2 by (auto simp: served_def serve_frame_def obs_ok_def)
    have "ave_ipc_cpu_to_fw ?d2 va AND 1 = 0" using even_cpu_to_fw [of va ?d2] some(6) base by simp
    then have "served i ?d2 (snd (ave_chan_send_fw AVE_CH_SHAREDMALLOC (ave_ipc_cpu_to_fw ?d2 va) sz 0 ?d2))"
      using send_served [OF ok2] ch by simp
    then show ?thesis
      using some(1) Some served_trans [OF served_trans [OF s1 s2]] by (simp add: shm_alloc_def Let_def)
  qed
qed

lemma terminal_served:
  assumes ok: "dev_ok_with d live"
  shows "served i d (ave_ipc_terminal_line fw len level d)"
proof -
  have short: "n \<le> 0x200 \<Longrightarrow> length (strip_eol (c_str (peek m p n))) \<le> 0x200" for m p n
  proof -
    have "length (strip_eol s) \<le> length s" for s
      unfolding strip_eol_def by (metis length_dropWhile_le length_rev)
    moreover have "length (c_str s) \<le> length s" for s
      unfolding c_str_def by (rule length_takeWhile_le)
    moreover have "length (peek m p k) \<le> k" for k by (simp add: peek_def)
    ultimately show "n \<le> 0x200 \<Longrightarrow> length (strip_eol (c_str (peek m p n))) \<le> 0x200"
      by (meson order_trans)
  qed
  show ?thesis
    using ok short
    by (auto simp: ave_ipc_terminal_line_def served_def Let_def serve_frame_def obs_ok_def line_ok_def
        dev_ok_with_def chans_ok_def shm_ok_def split: option.split elim: tab_in_mono)
qed

section \<open>The drain loop ends\<close>

lemma rx_served:
  assumes ok: "dev_ok_with d live"
  shows "served i d (d\<lparr>rx_calls := rx_calls d @ [(c, map_option (\<lambda>p. (p, peek (ipc_mem d) p (unat sz)))
      (if fw \<noteq> 0 then ave_ipc_fw_to_cpu d fw (if sz \<noteq> 0 then unat sz else 1) else None), sz, flags)]\<rparr>)"
proof -
  have "length (ipc_mem d) = ipc_size d" using ok by (simp add: dev_ok_with_def)
  then have "rx_ok (ipc_size d) (c, map_option (\<lambda>p. (p, peek (ipc_mem d) p (unat sz)))
      (if fw \<noteq> 0 then ave_ipc_fw_to_cpu d fw (if sz \<noteq> 0 then unat sz else 1) else None), sz, flags)"
    using fw_to_cpu_inside [of d fw "unat sz"] fw_to_cpu_inside [of d fw 1]
    by (auto simp: rx_ok_def peek_def split: option.split)
  then show ?thesis
    using ok by (auto simp: served_def serve_frame_def obs_ok_def dev_ok_with_def chans_ok_def shm_ok_def)
qed

lemma drain_msg_served:
  assumes ok: "dev_ok_with d live" and gp: "gen_pool_ok gp (ipc_size d)"
    and base: "ipc_fw_base d AND 3 = 0" and x: "fst x AND 3 = 0"
  shows "served i d (snd (drain_msg gp i x d))"
proof -
  obtain fw sz flags where x': "x = (fw, sz, flags)" by (cases x)
  have fw: "fw AND 3 = 0" using x x' by simp
  have refl: "served i d d" using ok by (auto simp: served_def)
  have echo: "served i d (snd (ave_chan_send_fw i fw sz 0 d))"
    using send_served [OF ok three_one [OF fw]] .
  then obtain live' where ok': "dev_ok_with (snd (ave_chan_send_fw i fw sz 0 d)) live'"
    by (auto simp: served_def)
  show ?thesis
    using refl echo served_trans [OF echo rx_served [OF ok', of i i sz fw flags]]
      rx_served [OF ok, of i i sz fw flags]
      shm_free_served [OF ok fw] shm_alloc_served [OF ok gp base] terminal_served [OF ok]
    by (auto simp: drain_msg_def x' ave_ipc_shmalloc_def Let_def)
qed

lemma drain_loop_served:
  assumes "dev_ok_with d live" "gen_pool_ok gp (ipc_size d)" "ipc_fw_base d AND 3 = 0"
    and "card (pending i d) < fuel"
  shows "served i d (drain_loop gp fuel i d)"
  using assms
proof (induction fuel arbitrary: d live)
  case (Suc fuel)
  show ?case
  proof (cases "ave_chan_recv_fw i d")
    case (Pair r d1)
    show ?thesis
    proof (cases r)
      case (Inl e)
      then have "d1 = d"
        using Pair by (auto simp: ave_chan_recv_fw_def Let_def split: option.splits if_splits)
      then show ?thesis using Pair Inl Suc.prems(1) by (auto simp: served_def)
    next
      case (Inr x)
      note rc = recv_fw_keeps [OF Suc.prems(1) Pair [unfolded Inr]]
      then have s1: "served i d d1" by (auto simp: served_def chan_frame_serve)
      have fin: "finite (pending i d)"
        by (auto simp: pending_def readable_card split: option.split)
      obtain b d2 where m: "drain_msg gp i x d1 = (b, d2)" by fastforce
      have gp1: "gen_pool_ok gp (ipc_size d1)" "ipc_fw_base d1 AND 3 = 0"
        using s1 Suc.prems(2,3) by (auto simp: served_def serve_frame_def)
      have s2: "served i d1 d2"
        using drain_msg_served [OF _ gp1, of live x i] rc m by simp
      then obtain live2 where ok2: "dev_ok_with d2 live2" by (auto simp: served_def)
      have "card (pending i d2) < card (pending i d)"
        using rc s2 by (intro psubset_card_mono [OF fin]) (auto simp: served_def)
      then have "served i d2 (drain_loop gp fuel i d2)"
        using Suc.prems gp1 s2 by (intro Suc.IH [OF ok2]) (auto simp: served_def serve_frame_def)
      then show ?thesis
        using Pair Inr m served_trans [OF s1 s2] by (cases b) (auto intro: served_trans)
    qed
  qed
qed simp

lemma pending_fuel: "card (pending i d) < drain_fuel i d"
  using readable_card(1) by (auto simp: pending_def drain_fuel_def less_Suc_eq_le split: option.split)
    (metis ch_ring_fields(2))

definition alive :: "((nat \<times> nat) list \<Rightarrow> nat \<Rightarrow> nat option) \<Rightarrow> ave_device \<Rightarrow> bool" where
  "alive gp d \<longleftrightarrow> dev_ok d \<and> gen_pool_ok gp (ipc_size d) \<and> ipc_fw_base d AND 3 = 0 \<and> \<not> hung d \<and> obs_ok d"

lemma drain_alive: "alive gp d \<Longrightarrow> alive gp (ave_ipc_drain gp i d)"
  using drain_loop_served [OF _ _ _ pending_fuel, of d _ gp i]
  by (fastforce simp: alive_def dev_ok_iff ave_ipc_drain_def served_def serve_frame_def)

lemma dispatch_alive: "alive gp d \<Longrightarrow> alive gp (ave_ipc_irq_dispatch gp status d)"
proof -
  have "alive gp d \<Longrightarrow> alive gp (fold (dispatch_one gp status) is d)" for "is" d
    by (induction "is" arbitrary: d) (auto simp: dispatch_one_def drain_alive split: option.split)
  then show "alive gp d \<Longrightarrow> alive gp (ave_ipc_irq_dispatch gp status d)"
    by (simp add: ave_ipc_irq_dispatch_def)
qed

lemma capture_alive: "alive gp d \<Longrightarrow> alive gp (irq_capture st d)"
  by (auto simp: alive_def dev_ok_iff irq_capture_def write_status_def Let_def dev_ok_with_def
      chans_ok_def shm_ok_def obs_ok_def)

lemma irq_alive: "alive gp d \<Longrightarrow> alive gp (snd (ave_irq_handler gp d))"
  by (auto simp: ave_irq_handler_def Let_def capture_alive dispatch_alive)

section \<open>An allocator that keeps the contract\<close>

text \<open>The first granule above everything allocated, if it fits; used in the examples.\<close>

definition bump_pool :: "nat \<Rightarrow> (nat \<times> nat) list \<Rightarrow> nat \<Rightarrow> nat option" where
  "bump_pool n live k =
     (let va = (foldr max (map (\<lambda>b. fst b + snd b) live) 0 + 63) div 64 * 64
      in if va + k \<le> n then Some va else None)"

lemma foldr_max_ge: "b \<in> set xs \<Longrightarrow> f b \<le> foldr max (map f xs) (0 :: nat)"
  by (induction xs) auto

lemma bump_pool_ok: "gen_pool_ok (bump_pool n) n"
  unfolding gen_pool_ok_def
proof (intro allI impI)
  fix live k va assume b: "bump_pool n live k = Some va"
  let ?e = "foldr max (map (\<lambda>b. fst b + snd b) live) 0"
  have va: "va = (?e + 63) div 64 * 64" "va + k \<le> n"
    using b by (auto simp: bump_pool_def Let_def split: if_splits)
  have "?e \<le> va" unfolding va(1) by linarith
  then have "\<forall>b\<in>set live. fst b + snd b \<le> va"
    using foldr_max_ge [of _ live "\<lambda>b. fst b + snd b"] by force
  then show "va mod AVE_BOOT_CHANMEM_ALIGN = 0 \<and> va + k \<le> n \<and> (\<forall>b\<in>set live. apart (va, k) b)"
    using va by (auto simp: AVE_BOOT_CHANMEM_ALIGN_def apart_def)
qed

text \<open>A device after a handshake, with the one channel IO_T2H of one slot.\<close>

definition example_channel :: ave_channel where
  "example_channel =
     \<lparr>ch_bound = True, ch_id = 2, ch_desc_index = 0, ch_dir = 1, ch_doorbell_bit = 3,
      ch_nslots = 1, ch_type = 0, ch_rd = 0, ch_wr = -1, ch_nrecv = 0, ch_nsend = 0,
      ch_ring = 64, ch_ring_fw = 0x10040\<rparr>"

definition example_device :: ave_device where
  "example_device =
     (fresh_device (\<lambda>_. \<lparr>dev_id = 14, dev_type = 1\<rparr>) AVE_ABI_MACOS_13_5)
       \<lparr>boot_abi := Some abi_13_5, boot_phase := AVE_BOOT_READY, ipc_up := True, ipc_irq := True,
        ipc_rx := True, ipc_cpu := True, ipc_size := 256, ipc_iova := 0x8000, ipc_fw_base := 0x10000,
        ipc_mem := poke (replicate 256 0) 64 (put_le64 0x10080 @ put_le64 16 @ put_le64 1),
        ipc_pool := Some [(0, 128)], chanmem := Some 0, chanmem_size := 128, intr_status := 8,
        chan := (replicate AVE_CH_MAX (example_channel\<lparr>ch_bound := False\<rparr>))[2 := example_channel]\<rparr>"

lemma example_ok: "dev_ok_with example_device [(0, 128)]"
proof -
  have ch: "ch_bound ch \<Longrightarrow> ch = example_channel" if "ch \<in> set (chan example_device)" for ch
    using that by (auto simp: example_device_def AVE_CH_MAX_def numeral_eq_Suc)
  have ok: "chan_ok 256 (0, 128) example_channel"
    by (simp add: chan_ok_def example_channel_def ring_ok_def ave_ch_to_ring_def AVE_BOOT_SLOT_SIZE_def)
  show ?thesis
    unfolding dev_ok_with_def chans_ok_def shm_ok_def tab_in_def tab_apart_def
    using ch ok
    by (auto simp: example_device_def fresh_device_def live_ok_def fixed_ptrs_def chanmem_block_def
        AVE_CH_MAX_def AVE_SHMALLOC_MAX_def)
qed

lemma example_alive: "alive (bump_pool 256) example_device"
proof -
  have "dev_ok example_device" using example_ok by (auto simp: dev_ok_iff)
  then show ?thesis
    using bump_pool_ok [of 256]
    by (simp add: alive_def example_device_def fresh_device_def obs_ok_def)
qed

section \<open>Properties of the transport\<close>

text \<open>C17. The interrupt handler always ends and keeps the device sound, whatever the firmware has
  written into the shared memory: no drain loop runs on, no allocation is freed twice or with a
  wrong size, every ring handle stays in its slot array and every slot array in the channel
  block, and each buffer handed to the command layer lies in FwIPC for its whole length.\<close>

theorem irq_always_ends:
  assumes "dev_ok d" "gen_pool_ok gp (ipc_size d)" "ipc_fw_base d AND 3 = 0" "\<not> hung d" "obs_ok d"
  shows "\<not> hung (snd (ave_irq_handler gp d)) \<and> dev_ok (snd (ave_irq_handler gp d))
    \<and> obs_ok (snd (ave_irq_handler gp d))"
  using irq_alive [of gp d] assms by (simp add: alive_def)

theorem irq_always_ends_witness:
  "intr_status example_device = 8 \<and> \<not> hung (snd (ave_irq_handler (bump_pool 256) example_device))
    \<and> dev_ok (snd (ave_irq_handler (bump_pool 256) example_device))
    \<and> obs_ok (snd (ave_irq_handler (bump_pool 256) example_device))"
proof -
  have "ipc_size example_device = 256" "intr_status example_device = 8"
    by (simp_all add: example_device_def)
  then show ?thesis
    using irq_always_ends [of example_device "bump_pool 256"] example_alive by (simp add: alive_def)
qed

text \<open>C21. Firmware and host addresses translate to each other and back: what the host can reach at
  a firmware address lies in FwIPC for the length asked for and translates back to that
  address, and every part of FwIPC is reachable at the address the host publishes for it (the
  firmware's view not wrapping around the end of its address space).\<close>

theorem fw_address_round_trip:
  assumes "ipc_cpu d" "unat (ipc_fw_base d) + ipc_size d \<le> 2 ^ 64" "0 < n"
  shows "ave_ipc_fw_to_cpu d fw n = Some p \<longleftrightarrow> fw = ave_ipc_cpu_to_fw d p \<and> p + n \<le> ipc_size d"
  using fw_to_cpu_inside [of d fw n p] fw_to_cpu_back [of d fw n p] cpu_to_fw_back [of d p n] assms
  by auto

theorem fw_address_round_trip_witness:
  "ave_ipc_fw_to_cpu example_device 0x10080 16 = Some 0x80
   \<and> ave_ipc_fw_to_cpu example_device 0x10080 129 \<noteq> Some 0x80"
proof -
  have "ipc_cpu example_device" "unat (ipc_fw_base example_device) + ipc_size example_device \<le> 2 ^ 64"
    "ipc_size example_device = 256" "ave_ipc_cpu_to_fw example_device 0x80 = 0x10080"
    by (simp_all add: example_device_def ave_ipc_cpu_to_fw_def)
  then show ?thesis
    using fw_address_round_trip [of example_device 16 "0x10080" "0x80"]
      fw_address_round_trip [of example_device 129 "0x10080" "0x80"] by simp
qed

lemma send_fw_effect:
  assumes ok: "dev_ok_with d live" and al: "fw AND 1 = 0"
    and sent: "ave_chan_send_fw i fw a1 a2 d = (None, d')"
  shows "\<exists>ch. ave_chan d i = Some ch
    \<and> doorbells d' = doorbells d @ [push_bit (unat (ch_doorbell_bit ch)) 1]
    \<and> same_outside (ch_ring ch) (unat (ch_nslots ch)) (ipc_mem d) (ipc_mem d')
    \<and> slot (ipc_mem d') (ch_ring ch) (nat (ch_wr ch)) = (fw OR (ucast (ch_type ch) XOR 1), ucast a1, ucast a2)"
proof (cases rule: send_fw_cases [of i fw a1 a2 d])
  case (refused e)
  then show ?thesis using sent by simp
next
  case (sent ch m r)
  note ro = chan_ring_ok(1) [OF ok sent(1)]
  note s = send_ok [OF ro al sent(2)]
  have wr: "0 \<le> ch_wr ch" "nat (ch_wr ch) < unat (ch_nslots ch)"
    and fit: "ch_ring ch + unat (ch_nslots ch) * AVE_BOOT_SLOT_SIZE \<le> length (ipc_mem d)"
    and m: "m = slot_put (ipc_mem d) (ch_ring ch + nat (ch_wr ch) * AVE_BOOT_SLOT_SIZE)
        (fw OR (ucast (ch_type ch) XOR 1)) (ucast a1) (ucast a2)"
    using ro sent(2) by (auto simp: ring_ok_def ave_ring_send_def ave_ch_to_ring_def Let_def slot_off_def
        nat_less_iff split: if_splits)
  have bd: "ave_chan (d\<lparr>ipc_mem := m, chan := (chan d)[i := ave_ring_to_ch r ch]\<rparr>) i
      = Some (ave_ring_to_ch r ch)"
    using sent(1) by (auto simp: ave_chan_def split: if_splits)
  have d': "d' = write_doorbell (push_bit (unat (ch_doorbell_bit ch)) 1)
      (d\<lparr>ipc_mem := m, chan := (chan d)[i := ave_ring_to_ch r ch]\<rparr>)"
    using sent(3) assms(3) bd by (simp add: ave_ipc_ring_doorbell_def)
  have sl: "slot m (ch_ring ch) (nat (ch_wr ch)) = (fw OR (ucast (ch_type ch) XOR 1), ucast a1, ucast a2)"
    unfolding m using slot_put_slot [OF fit wr(2) wr(2)] by simp
  show ?thesis
    using s(6) sl sent(1) by (simp add: d' write_doorbell_def)
qed

text \<open>\<open>fw\<close> is the firmware's address of the payload, 0 for none.\<close>

definition payload_at :: "ave_device \<Rightarrow> u64 \<Rightarrow> u64 \<Rightarrow> bool" where
  "payload_at d payload fw \<longleftrightarrow> payload = 0 \<and> fw = 0 \<or>
     ipc_iova d \<le> payload \<and> unat (payload - ipc_iova d) < ipc_size d
     \<and> fw = ave_ipc_cpu_to_fw d (unat (payload - ipc_iova d)) \<and> fw AND 3 = 0"

lemma ipc_send_None:
  assumes "ave_ipc_send i payload a1 a2 d = (None, d')"
  shows "\<exists>fw. payload_at d payload fw \<and> boot_phase d = AVE_BOOT_READY \<and> fw AND 3 = 0
    \<and> ave_chan_send_fw i fw (ucast a1) (ucast a2) d = (None, d')"
proof (cases "payload = 0")
  case True
  then show ?thesis
    using assms by (intro exI [of _ 0]) (auto simp: ave_ipc_send_def payload_at_def split: if_splits)
next
  case False
  have fw: "payload - ipc_iova d + ipc_fw_base d = ave_ipc_cpu_to_fw d (unat (payload - ipc_iova d))"
    by (simp add: ave_ipc_cpu_to_fw_def)
  show ?thesis
    using assms False
    by (intro exI [of _ "ave_ipc_cpu_to_fw d (unat (payload - ipc_iova d))"])
      (auto simp: ave_ipc_send_def payload_at_def fw Let_def not_less not_le split: if_splits)
qed

lemma send_fw_refused: "ave_chan_send_fw i fw a1 a2 d = (Some e, d') \<Longrightarrow> d' = d"
  by (cases rule: send_fw_cases [of i fw a1 a2 d]) auto

lemma ipc_send_refused: "ave_ipc_send i payload a1 a2 d = (Some e, d') \<Longrightarrow> d' = d"
  by (auto simp: ave_ipc_send_def Let_def split: if_splits dest: send_fw_refused)

text \<open>C20. \<open>ave_ipc_send\<close> either refuses and leaves the device as it was, or, after the handshake
  only and for a payload inside FwIPC whose firmware address is 4-byte aligned (or 0), stores
  exactly that address and the low words of the two arguments in the channel's next slot with
  the phase handed over, changes no byte outside the channel's slot array, and rings that
  channel's doorbell once. The device stays sound.\<close>

theorem ipc_send_effect:
  assumes "dev_ok d" and "ave_ipc_send i payload a1 a2 d = (e, d')"
  shows "(e \<noteq> None \<longrightarrow> d' = d)
    \<and> (e = None \<longrightarrow> boot_phase d = AVE_BOOT_READY \<and> dev_ok d'
        \<and> (\<exists>ch fw. ave_chan d i = Some ch
            \<and> payload_at d payload fw
            \<and> doorbells d' = doorbells d @ [push_bit (unat (ch_doorbell_bit ch)) 1]
            \<and> same_outside (ch_ring ch) (unat (ch_nslots ch)) (ipc_mem d) (ipc_mem d')
            \<and> slot (ipc_mem d') (ch_ring ch) (nat (ch_wr ch))
                = (fw OR (ucast (ch_type ch) XOR 1), ucast (ucast a1 :: u32), ucast (ucast a2 :: u32))))"
proof -
  obtain live where ok: "dev_ok_with d live" using assms(1) by (auto simp: dev_ok_iff)
  show ?thesis
  proof (cases e)
    case (Some x)
    then show ?thesis using ipc_send_refused assms(2) by blast
  next
    case None
    obtain fw where fw: "payload_at d payload fw" "boot_phase d = AVE_BOOT_READY" "fw AND 3 = 0"
      and sent: "ave_chan_send_fw i fw (ucast a1) (ucast a2) d = (None, d')"
      using ipc_send_None assms(2) None by blast
    have "dev_ok d'"
      using send_fw_keeps [OF ok three_one [OF fw(3)], of i "ucast a1" "ucast a2"] sent
      by (auto simp: dev_ok_iff)
    then show ?thesis
      using None fw send_fw_effect [OF ok three_one [OF fw(3)] sent] unfolding payload_at_def by blast
  qed
qed

text \<open>The example device with a slot free to send.\<close>

definition example_sender :: ave_device where
  "example_sender = example_device
     \<lparr>chan := (replicate AVE_CH_MAX (example_channel\<lparr>ch_bound := False\<rparr>))
                [2 := example_channel\<lparr>ch_rd := -1, ch_wr := 0\<rparr>]\<rparr>"

lemma chans_replace:
  assumes "dev_ok_with d live" "length cs = AVE_CH_MAX" "chanmem_block d \<in> set live"
    "\<And>ch. ch \<in> set cs \<Longrightarrow> ch_bound ch \<Longrightarrow> chan_ok (ipc_size d) (chanmem_block d) ch"
  shows "dev_ok_with (d\<lparr>chan := cs\<rparr>) live"
  using assms by (simp add: dev_ok_with_def chans_ok_def shm_ok_def)

lemma example_sender_ok: "dev_ok example_sender"
proof -
  let ?cs = "(replicate AVE_CH_MAX (example_channel\<lparr>ch_bound := False\<rparr>))
                [2 := example_channel\<lparr>ch_rd := -1, ch_wr := 0\<rparr>]"
  have blk: "chanmem_block example_device = (0, 128)" "ipc_size example_device = 256"
    by (simp_all add: chanmem_block_def example_device_def)
  have mem: "chanmem_block example_device \<in> set [(0, 128)]" unfolding blk by simp
  have cs: "chan_ok (ipc_size example_device) (chanmem_block example_device) ch"
    if "ch \<in> set ?cs" "ch_bound ch" for ch
  proof -
    have "ch = example_channel\<lparr>ch_rd := -1, ch_wr := 0\<rparr>"
      using that by (auto simp: AVE_CH_MAX_def numeral_eq_Suc)
    then show ?thesis unfolding blk
      by (simp add: chan_ok_def example_channel_def ring_ok_def ave_ch_to_ring_def AVE_BOOT_SLOT_SIZE_def)
  qed
  have "length ?cs = AVE_CH_MAX" by (simp only: length_list_update length_replicate)
  then have "dev_ok_with (example_device\<lparr>chan := ?cs\<rparr>) [(0, 128)]"
    by (rule chans_replace [OF example_ok _ mem cs])
  then show ?thesis unfolding example_sender_def dev_ok_iff by blast
qed

lemma example_sender_chan:
  "ave_chan example_sender 2 = Some (example_channel\<lparr>ch_rd := -1, ch_wr := 0\<rparr>)"
  by (simp add: ave_chan_def example_sender_def example_channel_def AVE_CH_MAX_def)

lemma example_sender_sends:
  "\<exists>d'. ave_ipc_send 2 0x8080 16 1 example_sender = (None, d')"
proof -
  have "boot_phase example_sender = AVE_BOOT_READY" "ipc_iova example_sender = 0x8000"
    "ipc_size example_sender = 256" "ipc_fw_base example_sender = 0x10000"
    by (simp_all add: example_sender_def example_device_def)
  then show ?thesis
    by (simp add: ave_ipc_send_def ave_chan_send_fw_def example_sender_chan Let_def ave_ring_send_def
        ave_ch_to_ring_def example_channel_def)
qed

theorem ipc_send_effect_witness:
  "\<exists>d'. ave_ipc_send 2 0x8080 16 1 example_sender = (None, d') \<and> dev_ok d' \<and> doorbells d' = [8]"
proof -
  obtain d' where d': "ave_ipc_send 2 0x8080 16 1 example_sender = (None, d')"
    using example_sender_sends by blast
  have "doorbells example_sender = []"
    by (simp add: example_sender_def example_device_def fresh_device_def)
  moreover have "dev_ok d' \<and> (\<exists>ch. ave_chan example_sender 2 = Some ch
      \<and> doorbells d' = doorbells example_sender @ [push_bit (unat (ch_doorbell_bit ch)) 1])"
    using ipc_send_effect [OF example_sender_ok d'] by blast
  ultimately show ?thesis
    using d' by (simp add: example_sender_chan) (simp add: example_channel_def)
qed

end
