(* ===== verification/Ave_Handshake.thy ===== *)
theory Ave_Handshake
  imports Ave_Ipc_Inv Ave_Mailbox
begin

text \<open>
  The boot conversation of \<^verbatim>\<open>src/driver/ave_ipc.c\<close>: boot arguments, the five messages, the
  binding of the channels, the ready flag, and the setup and teardown around them.

  \<^item> Everything the host cannot decide is in \<open>boot_env\<close>: the allocator, what DMA allocations
    return, timers, and, for every wait, what happens before each of the polls its timeout
    allows: the firmware may write anything into FwIPC and its registers, raise any interrupt,
    and the interrupt handler may run, in any order (\<open>env_act\<close>).
  \<^item> A step returns \<open>Ok\<close>, the error (\<open>Err\<close>), or \<open>Fault\<close> for a read outside FwIPC.
\<close>

section \<open>The environment of the conversation\<close>

datatype env_act =
    FwMem nat "u8 list"   \<comment> \<open>the firmware writes into FwIPC\<close>
  | FwReg nat u32         \<comment> \<open>a scratch register\<close>
  | FwIntr u32            \<comment> \<open>raises status bits\<close>
  | IrqRun                \<comment> \<open>the interrupt handler runs\<close>

record boot_env =
  e_gp :: "(nat \<times> nat) list \<Rightarrow> nat \<Rightarrow> nat option"
  e_lenient :: bool                 \<comment> \<open>module parameter \<open>boot_lenient\<close>\<close>
  e_page :: nat                     \<comment> \<open>PAGE_SIZE\<close>
  e_fwlog :: "u64 option"           \<comment> \<open>the DMA allocation of the FwLog surface\<close>
  e_heap :: "u64 option"            \<comment> \<open>of the firmware heap\<close>
  e_asc_timer :: u64
  e_arch_counter :: u64
  e_msg1 :: "env_act list list"     \<comment> \<open>before each poll for message 1\<close>
  e_msg3 :: "env_act list list"
  e_msg5 :: "env_act list list"
  e_ready :: "env_act list list"    \<comment> \<open>before each poll of the ready flag\<close>

definition env_step :: "((nat \<times> nat) list \<Rightarrow> nat \<Rightarrow> nat option) \<Rightarrow> env_act \<Rightarrow> ave_device \<Rightarrow> ave_device" where
  "env_step gp a d =
     (case a of
        FwMem off bs \<Rightarrow>
          if off + length bs \<le> length (ipc_mem d) then d\<lparr>ipc_mem := poke (ipc_mem d) off bs\<rparr> else d
      | FwReg i v \<Rightarrow> ave_set_scratch i v d
      | FwIntr v \<Rightarrow> d\<lparr>intr_status := intr_status d OR v\<rparr>
      | IrqRun \<Rightarrow> snd (ave_irq_handler gp d))"

definition env_run :: "((nat \<times> nat) list \<Rightarrow> nat \<Rightarrow> nat option) \<Rightarrow> env_act list \<Rightarrow> ave_device \<Rightarrow> ave_device" where
  "env_run gp acts d = fold (env_step gp) acts d"

section \<open>Steps that may fail\<close>

type_synonym 'a hs = "ave_device \<Rightarrow> 'a cres \<times> ave_device"

definition hs_bind :: "'a hs \<Rightarrow> ('a \<Rightarrow> 'b hs) \<Rightarrow> 'b hs" where
  "hs_bind m f d =
     (case m d of (Ok x, d') \<Rightarrow> f x d' | (Err e, d') \<Rightarrow> (Err e, d') | (Fault, d') \<Rightarrow> (Fault, d'))"

definition hs_do :: "(ave_device \<Rightarrow> ave_device) \<Rightarrow> unit hs" where
  "hs_do f d = (Ok (), f d)"

definition hs_fail_if :: "bool \<Rightarrow> errno \<Rightarrow> unit hs" where
  "hs_fail_if c e d = (if c then Err e else Ok (), d)"

section \<open>Receiving a message\<close>

fun recv_loop :: "((nat \<times> nat) list \<Rightarrow> nat \<Rightarrow> nat option) \<Rightarrow> env_act list list \<Rightarrow> mbox_msg hs" where
  "recv_loop gp [] d = (Err ETIMEDOUT, d)"
| "recv_loop gp (acts # polls) d =
     (case recv_poll (env_run gp acts d) of
        (Some m, d') \<Rightarrow> (Ok m, d')
      | (None, d') \<Rightarrow> recv_loop gp polls d')"

definition ave_recv_iop_msg :: "((nat \<times> nat) list \<Rightarrow> nat \<Rightarrow> nat option) \<Rightarrow> env_act list list \<Rightarrow> mbox_msg hs" where
  "ave_recv_iop_msg gp polls d = (if boot_abi d = None then (Err EINVAL, d) else recv_loop gp polls d)"

section \<open>Pre-start boot arguments\<close>

definition AVE_BOOT_FWLOG_RING_OFF :: nat where "AVE_BOOT_FWLOG_RING_OFF = 0x200"
definition AVE_BOOT_FWLOG_RING_SIZE :: nat where "AVE_BOOT_FWLOG_RING_SIZE = 0x20000"
definition AVE_BOOT_FWLOG_SIZE :: nat where
  "AVE_BOOT_FWLOG_SIZE = AVE_BOOT_FWLOG_RING_OFF + AVE_BOOT_FWLOG_RING_SIZE"
definition AVE_BOOT_FWLOG_HDR_RING_OFF :: nat where "AVE_BOOT_FWLOG_HDR_RING_OFF = 0x04"
definition AVE_BOOT_FWLOG_HDR_RING_SIZE :: nat where "AVE_BOOT_FWLOG_HDR_RING_SIZE = 0x08"
definition AVE_BOOT_FWLOG_HDR_CONF :: nat where "AVE_BOOT_FWLOG_HDR_CONF = 0x0c"
definition AVE_BOOT_FWLOG_HDR_UNK_10C :: nat where "AVE_BOOT_FWLOG_HDR_UNK_10C = 0x10c"
definition AVE_BOOT_FWLOG_HDR_UNK_110 :: nat where "AVE_BOOT_FWLOG_HDR_UNK_110 = 0x110"
definition AVE_BOOT_FWLOG_HDR_RD :: nat where "AVE_BOOT_FWLOG_HDR_RD = 0x154"
definition AVE_BOOT_FWLOG_HDR_WR :: nat where "AVE_BOOT_FWLOG_HDR_WR = 0x198"
definition AVE_BOOT_FWLOG_LEVEL_DBG :: u8 where "AVE_BOOT_FWLOG_LEVEL_DBG = 8"
definition AVE_BOOT_FWLOG_SUBSYS_CMDPROC :: nat where "AVE_BOOT_FWLOG_SUBSYS_CMDPROC = 130"
definition AVE_BOOT_FWLOG_SUBSYS_AVC :: nat where "AVE_BOOT_FWLOG_SUBSYS_AVC = 140"
definition AVE_BOOT_FWLOG_SUBSYS_HEVC :: nat where "AVE_BOOT_FWLOG_SUBSYS_HEVC = 145"

lemmas fwlog_consts =
  AVE_BOOT_FWLOG_RING_OFF_def AVE_BOOT_FWLOG_RING_SIZE_def AVE_BOOT_FWLOG_SIZE_def
  AVE_BOOT_FWLOG_HDR_RING_OFF_def AVE_BOOT_FWLOG_HDR_RING_SIZE_def AVE_BOOT_FWLOG_HDR_CONF_def
  AVE_BOOT_FWLOG_HDR_UNK_10C_def AVE_BOOT_FWLOG_HDR_UNK_110_def AVE_BOOT_FWLOG_HDR_RD_def
  AVE_BOOT_FWLOG_HDR_WR_def AVE_BOOT_FWLOG_LEVEL_DBG_def AVE_BOOT_FWLOG_SUBSYS_CMDPROC_def
  AVE_BOOT_FWLOG_SUBSYS_AVC_def AVE_BOOT_FWLOG_SUBSYS_HEVC_def

text \<open>The header the driver writes; a coherent DMA allocation is zeroed.\<close>

definition fwlog_header :: "u8 list \<Rightarrow> u8 list" where
  "fwlog_header h0 =
     (let h = poke h0 0 (replicate AVE_BOOT_FWLOG_RING_OFF 0);
          h = poke h AVE_BOOT_FWLOG_HDR_RING_OFF (put_le32 (of_nat AVE_BOOT_FWLOG_RING_OFF));
          h = poke h AVE_BOOT_FWLOG_HDR_RING_SIZE (put_le32 (of_nat AVE_BOOT_FWLOG_RING_SIZE));
          h = poke h AVE_BOOT_FWLOG_HDR_UNK_10C (put_le32 25);
          h = poke h AVE_BOOT_FWLOG_HDR_UNK_110 (put_le32 20000);
          h = poke h (AVE_BOOT_FWLOG_HDR_CONF + AVE_BOOT_FWLOG_SUBSYS_CMDPROC) [AVE_BOOT_FWLOG_LEVEL_DBG];
          h = poke h (AVE_BOOT_FWLOG_HDR_CONF + AVE_BOOT_FWLOG_SUBSYS_AVC) [AVE_BOOT_FWLOG_LEVEL_DBG]
      in poke h (AVE_BOOT_FWLOG_HDR_CONF + AVE_BOOT_FWLOG_SUBSYS_HEVC) [AVE_BOOT_FWLOG_LEVEL_DBG])"

definition ave_boot_fwlog_alloc :: "boot_env \<Rightarrow> unit hs" where
  "ave_boot_fwlog_alloc env d =
     (case fwlog d of
        Some _ \<Rightarrow> (Ok (), d)
      | None \<Rightarrow>
          (case e_fwlog env of
             None \<Rightarrow> (Err ENOMEM, d)
           | Some iova \<Rightarrow>
               (Ok (), d\<lparr>fwlog := Some (fwlog_header (replicate AVE_BOOT_FWLOG_SIZE 0), iova)\<rparr>)))"

definition AVE_BOOT_FW_CFG_SIZE :: nat where "AVE_BOOT_FW_CFG_SIZE = 0x38"

text \<open>\<open>struct ave_boot_fw_cfg\<close>, 56 bytes.\<close>

definition ave_boot_fw_cfg :: "ave_boot_abi \<Rightarrow> soc_dev \<Rightarrow> u64 \<Rightarrow> u32 \<Rightarrow> u8 list" where
  "ave_boot_fw_cfg a dev log_addr log_size =
     put_le32 (a_instance a) @ put_le32 (dev_id dev) @ put_le32 (a_dev_num a) @
     put_le32 (a_dev_num_per_group a) @ put_le64 0 @ put_le32 0 @ put_le32 0 @
     put_le64 log_addr @ put_le32 log_size @ put_le32 0 @ put_le32 0 @ put_le32 0"

definition lower_32_bits :: "u64 \<Rightarrow> u32" where "lower_32_bits v = ucast v"
definition upper_32_bits :: "u64 \<Rightarrow> u32" where "upper_32_bits v = ucast (drop_bit 32 v)"

text \<open>The cfg block of 26.6.2, and its address.\<close>

definition boot_fw_cfg :: "boot_env \<Rightarrow> ave_boot_abi \<Rightarrow> u64 hs" where
  "boot_fw_cfg env a =
     hs_bind (ave_boot_fwlog_alloc env) (\<lambda>_ d.
       let (p, d1) =
         (case fwcfg d of
            Some p \<Rightarrow> (Some p, d)
          | None \<Rightarrow>
              (case ave_ipc_alloc (e_gp env) AVE_BOOT_FW_CFG_SIZE d of
                 (None, d') \<Rightarrow> (None, d')
               | (Some p, d') \<Rightarrow> (Some p, d'\<lparr>fwcfg := Some p, fwcfg_size := AVE_BOOT_FW_CFG_SIZE\<rparr>)))
       in case p of
            None \<Rightarrow> (Err ENOMEM, d1)
          | Some p \<Rightarrow>
              (Ok (ave_ipc_cpu_to_iova d1 p),
               d1\<lparr>ipc_mem := poke (ipc_mem d1) p
                    (ave_boot_fw_cfg a (soc_devs d1 (a_abi a))
                       (case fwlog d1 of Some (_, iova) \<Rightarrow> iova | None \<Rightarrow> 0)
                       (of_nat AVE_BOOT_FWLOG_SIZE))\<rparr>))"

definition boot_args :: "u32 \<Rightarrow> u32 \<Rightarrow> ave_device \<Rightarrow> ave_device" where
  "boot_args s1 s2 d =
     ave_set_scratch 2 s2 (ave_set_scratch 1 s1 (ave_set_scratch 0 AVE_BOOT_MAGIC
       (d\<lparr>mbox_pending := False, ipc_up := False, boot_phase := AVE_BOOT_ARGS_WRITTEN\<rparr>)))"

definition ave_boot_config :: "boot_env \<Rightarrow> unit hs" where
  "ave_boot_config env d =
     (case boot_abi d of
        None \<Rightarrow> (Err EINVAL, d)
      | Some a \<Rightarrow>
          if \<not> ipc_cpu d then (Err EINVAL, d)
          else if a_cfg_block a
          then hs_bind (boot_fw_cfg env a)
                 (\<lambda>iova. hs_do (boot_args (lower_32_bits iova) (upper_32_bits iova))) d
          else hs_do (boot_args (a_instance a) (dev_id (soc_devs d (a_abi a)))) d)"

section \<open>The conversation\<close>

definition ave_boot_check_msg1_log :: "boot_env \<Rightarrow> ave_boot_abi \<Rightarrow> mbox_msg \<Rightarrow> errno option" where
  "ave_boot_check_msg1_log env a m =
     (let r = ave_boot_check_msg1 a m in
      if r AND (AVE_MSG1_REJECT OR AVE_MSG1_CHSZ_SHORT) \<noteq> 0 then Some EPROTO
      else if r AND (AVE_MSG1_UNEXP_NCH OR AVE_MSG1_UNEXP_CHSZ) \<noteq> 0 \<and> \<not> e_lenient env then Some EPROTO
      else None)"

definition align_up :: "nat \<Rightarrow> nat \<Rightarrow> nat" where
  "align_up x a = (x + a - 1) div a * a"

definition ave_boot_heap :: "boot_env \<Rightarrow> u32 \<Rightarrow> unit hs" where
  "ave_boot_heap env sz d =
     (if sz = 0 \<or> fwheap d \<noteq> None then (Ok (), d)
      else
        let n = align_up (align_up (unat sz) (e_page env)) (unat AVE_BOOT_ALIGN_16K) in
        case e_heap env of
          None \<Rightarrow> (Err ENOMEM, d)
        | Some iova \<Rightarrow>
            let d1 = d\<lparr>fwheap := Some (iova, n)\<rparr> in
            if iova AND (AVE_BOOT_ALIGN_16K - 1) \<noteq> 0 then (Err EINVAL, d1) else (Ok (), d1))"

definition ave_boot_time_base :: "boot_env \<Rightarrow> ave_device \<Rightarrow> ave_device" where
  "ave_boot_time_base env d =
     (let t = (if e_asc_timer env \<noteq> 0 then e_arch_counter env - e_asc_timer env else 0);
          d1 = d\<lparr>time_base := t\<rparr>
      in ave_set_scratch 5 (upper_32_bits t) (ave_set_scratch 4 (lower_32_bits t) d1))"

text \<open>One turn of the loop of \<open>ave_boot_bind\<close>, on the channel block at \<open>c\<close>.\<close>

definition bind_channel :: "nat \<Rightarrow> nat \<Rightarrow> ave_boot_desc \<Rightarrow> nat \<Rightarrow> ave_device \<Rightarrow> ave_device" where
  "bind_channel i ident desc slots d =
     (let (m, r) = ave_ring_init (ipc_mem d) slots (bd_nslots desc) (ave_ring_dir_to_type (bd_dir desc))
      in d\<lparr>ipc_mem := m,
           chan := (chan d)[ident :=
             \<lparr>ch_bound = True, ch_id = ident, ch_desc_index = i, ch_dir = bd_dir desc,
              ch_doorbell_bit = bd_bit desc, ch_nslots = bd_nslots desc, ch_type = r_type r,
              ch_rd = r_rd r, ch_wr = r_wr r, ch_nrecv = 0, ch_nsend = 0, ch_ring = slots,
              ch_ring_fw = bd_slots_fw desc\<rparr>]\<rparr>)"

definition bind_one :: "ave_boot_abi \<Rightarrow> nat \<Rightarrow> nat \<Rightarrow> unit hs" where
  "bind_one a c i d =
     (let end = unat (chanmem_size d) in
      if (i + 1) * AVE_BOOT_DESC_STRIDE > end then (Err EPROTO, d)
      else case ave_boot_desc_parse (ipc_mem d) (c + i * AVE_BOOT_DESC_STRIDE) of
             Fault \<Rightarrow> (Fault, d)
           | Err e \<Rightarrow> (Err e, d)
           | Ok desc \<Rightarrow>
               (case ave_boot_name_to_id a (bd_name desc) of
                  None \<Rightarrow> (Err EPROTO, d)
                | Some ident \<Rightarrow>
                    let bytes = unat (bd_nslots desc) * AVE_BOOT_SLOT_SIZE in
                    case (if bd_nslots desc \<noteq> 0 then ave_ipc_fw_to_cpu d (bd_slots_fw desc) bytes else None) of
                      None \<Rightarrow> (Err EPROTO, d)
                    | Some slots \<Rightarrow>
                        if bd_bit desc \<ge> 32 \<or> slots < c \<or> slots + bytes > c + end then (Err EPROTO, d)
                        else (Ok (), bind_channel i ident desc slots d)))"

fun bind_loop :: "ave_boot_abi \<Rightarrow> nat \<Rightarrow> nat list \<Rightarrow> unit hs" where
  "bind_loop a c [] d = (Ok (), d)"
| "bind_loop a c (i # is) d = hs_bind (bind_one a c i) (\<lambda>_. bind_loop a c is) d"

definition ave_boot_bind :: "ave_boot_abi \<Rightarrow> nat \<Rightarrow> unit hs" where
  "ave_boot_bind a nch d =
     (case chanmem d of
        None \<Rightarrow> (Fault, d)
      | Some c \<Rightarrow> hs_bind (bind_loop a c [0..<nch]) (\<lambda>_. hs_do (\<lambda>d. d\<lparr>nchannels := nch\<rparr>)) d)"

text \<open>The parts of \<open>ave_ipc_handshake\<close>, in its order. Message 1, unless it came before:\<close>

definition hs_msg1 :: "boot_env \<Rightarrow> ave_boot_abi \<Rightarrow> unit hs" where
  "hs_msg1 env a d =
     (if boot_phase d = AVE_BOOT_ARGS_WRITTEN
      then hs_bind (ave_recv_iop_msg (e_gp env) (e_msg1 env))
             (\<lambda>_ d. (case ave_boot_check_msg1_log env a (msg1 d) of
                        Some e \<Rightarrow> (Err e, d) | None \<Rightarrow> (Ok (), d))) d
      else (case ave_boot_check_msg1_log env a (msg1 d) of
              Some e \<Rightarrow> (Err e, d) | None \<Rightarrow> (Ok (), d)))"

text \<open>Messages 2 and 3: the FwIPC surface, and the firmware's view of it.\<close>

definition hs_surface :: "boot_env \<Rightarrow> ave_boot_abi \<Rightarrow> u32 \<Rightarrow> unit hs" where
  "hs_surface env a heap =
     hs_bind (if a_heap_before_msg2 a then ave_boot_heap env heap else (\<lambda>d. (Ok (), d))) (\<lambda>_.
     hs_bind (hs_do (\<lambda>d. if a_time_base a then ave_boot_time_base env d else d)) (\<lambda>_.
     hs_bind (hs_do (\<lambda>d. ave_send_iop_msg (lower_32_bits (ipc_iova d), upper_32_bits (ipc_iova d),
                                             of_nat (ipc_size d), 0) d)) (\<lambda>_.
     hs_bind (ave_recv_iop_msg (e_gp env) (e_msg3 env)) (\<lambda>m.
     hs_bind (hs_do (\<lambda>d. d\<lparr>ipc_fw_base := push_bit 32 (ucast (fst (snd m))) OR ucast (fst m)\<rparr>)) (\<lambda>_.
       if \<not> a_heap_before_msg2 a then ave_boot_heap env heap else (\<lambda>d. (Ok (), d)))))))"

text \<open>Message 4: the channel block and the info block.\<close>

definition poke_ipc :: "nat \<Rightarrow> u8 list \<Rightarrow> ave_device \<Rightarrow> ave_device" where
  "poke_ipc off bs d = d\<lparr>ipc_mem := poke (ipc_mem d) off bs\<rparr>"

definition hs_alloc_blocks :: "boot_env \<Rightarrow> u32 \<Rightarrow> (nat \<times> nat) hs" where
  "hs_alloc_blocks env chsz d =
     (let (c, d1) = ave_ipc_alloc (e_gp env) (unat chsz) d;
          d1 = d1\<lparr>chanmem := c\<rparr>;
          (p, d2) = ave_ipc_alloc (e_gp env) AVE_BOOT_INFO_SIZE d1;
          d2 = d2\<lparr>ipcinfo := p\<rparr>
      in case (c, p) of
           (Some c, Some p) \<Rightarrow> (Ok (c, p), d2\<lparr>chanmem_size := chsz\<rparr>)
         | _ \<Rightarrow> (Err ENOMEM, d2))"

definition hs_info_log :: "boot_env \<Rightarrow> ave_boot_abi \<Rightarrow> nat \<Rightarrow> unit hs" where
  "hs_info_log env a p d =
     (if \<not> a_info_log_block a then (Ok (), d)
      else case ave_ipc_alloc (e_gp env) (unat (a_info_log_size a)) d of
             (None, d1) \<Rightarrow> (Err ENOMEM, d1\<lparr>info_log := None\<rparr>)
           | (Some l, d1) \<Rightarrow>
               (Ok (), poke_ipc (p + AVE_BOOT_INFO_LOG_SIZE) (put_le32 (a_info_log_size a))
                  (poke_ipc (p + AVE_BOOT_INFO_LOG_ADDR) (put_le64 (ave_ipc_cpu_to_fw d1 l))
                     (d1\<lparr>info_log := Some l\<rparr>))))"

definition hs_info_heap :: "nat \<Rightarrow> ave_device \<Rightarrow> ave_device" where
  "hs_info_heap p d =
     (case fwheap d of
        None \<Rightarrow> d
      | Some (iova, n) \<Rightarrow>
          poke_ipc (p + AVE_BOOT_INFO_HEAP_SIZE) (put_le32 (of_nat n))
            (poke_ipc (p + AVE_BOOT_INFO_HEAP_ADDR) (put_le64 iova) d))"

definition hs_blocks :: "boot_env \<Rightarrow> ave_boot_abi \<Rightarrow> u32 \<Rightarrow> unit hs" where
  "hs_blocks env a chsz =
     hs_bind (hs_alloc_blocks env chsz) (\<lambda>(c, p).
     hs_bind (hs_do (\<lambda>d. poke_ipc (p + AVE_BOOT_INFO_CHANMEM) (put_le64 (ave_ipc_cpu_to_fw d c)) d)) (\<lambda>_.
     hs_bind (hs_info_log env a p) (\<lambda>_.
     hs_bind (hs_do (hs_info_heap p)) (\<lambda>_.
     hs_bind (hs_do (\<lambda>d. poke_ipc (p + AVE_BOOT_INFO_DEV_TYPE)
                            (put_le32 (dev_type (soc_devs d (a_abi a)))) d)) (\<lambda>_.
     hs_do (\<lambda>d. let info_fw = ave_ipc_cpu_to_fw d p in
              ave_send_iop_msg (lower_32_bits info_fw, upper_32_bits info_fw, 0, 0) d))))))"

text \<open>Message 5: where the descriptors went, and the channels they describe.\<close>

definition hs_channels :: "boot_env \<Rightarrow> ave_boot_abi \<Rightarrow> u32 \<Rightarrow> unit hs" where
  "hs_channels env a nch =
     hs_bind (ave_recv_iop_msg (e_gp env) (e_msg5 env)) (\<lambda>(m0, m1, cbuf, m3) d.
       let desc_fw = push_bit 32 (ucast m1) OR ucast m0;
           desc_cpu = ave_ipc_fw_to_cpu d desc_fw (unat nch * AVE_BOOT_DESC_STRIDE)
       in if desc_cpu \<noteq> chanmem d then (Err EPROTO, d)
          else hs_bind (ave_boot_bind a (unat nch)) (\<lambda>_ d.
                 if cbuf > a_client_buf_max a then (Err EPROTO, d)
                 else (Ok (), d\<lparr>client_buf_size := cbuf\<rparr>)) d)"

text \<open>The ready flag: written, then polled until the firmware clears it.\<close>

fun poll_ready :: "((nat \<times> nat) list \<Rightarrow> nat \<Rightarrow> nat option) \<Rightarrow> env_act list list \<Rightarrow> unit hs" where
  "poll_ready gp [] d = (Err ETIMEDOUT, d)"
| "poll_ready gp (acts # polls) d =
     (let d' = env_run gp acts d in
      if ave_scratch d' 3 = 0 then (Ok (), d') else poll_ready gp polls d')"

definition hs_ready :: "boot_env \<Rightarrow> unit hs" where
  "hs_ready env =
     hs_bind (hs_do (\<lambda>d. ave_set_scratch 3 AVE_BOOT_MAGIC (d\<lparr>ipc_up := True, mbox_pending := False\<rparr>))) (\<lambda>_.
     hs_bind (poll_ready (e_gp env) (e_ready env)) (\<lambda>_.
     hs_do (\<lambda>d. d\<lparr>boot_phase := AVE_BOOT_READY\<rparr>)))"

definition hs_body :: "boot_env \<Rightarrow> ave_boot_abi \<Rightarrow> unit hs" where
  "hs_body env a =
     hs_bind (hs_msg1 env a) (\<lambda>_ d.
       case msg1 d of (nch, chsz, ver, heap) \<Rightarrow>
         hs_bind (hs_surface env a heap) (\<lambda>_.
         hs_bind (hs_blocks env a chsz) (\<lambda>_.
         hs_bind (hs_channels env a nch) (\<lambda>_.
           hs_ready env))) d)"

definition ave_ipc_handshake :: "boot_env \<Rightarrow> unit hs" where
  "ave_ipc_handshake env d =
     (case boot_abi d of
        None \<Rightarrow> (Err EINVAL, d)
      | Some a \<Rightarrow>
          if ipc_pool d = None then (Err EINVAL, d)
          else if boot_phase d = AVE_BOOT_READY then (Ok (), d)
          else if boot_phase d \<noteq> AVE_BOOT_ARGS_WRITTEN \<and> boot_phase d \<noteq> AVE_BOOT_MSG1
          then (Err EINVAL, d)
          else case hs_body env a d of
                 (Ok _, d') \<Rightarrow> (Ok (), d')
               | (r, d') \<Rightarrow> (r, d'\<lparr>ipc_up := False, boot_phase := AVE_BOOT_FAILED\<rparr>))"

section \<open>The firmware log\<close>

text \<open>A free-running counter that has not reached its end is one step closer after a step.\<close>

lemma counter_closer:
  assumes "rd \<noteq> (wr :: u32)"
  shows "unat (wr - (rd + 1)) < unat (wr - rd)"
proof -
  have "wr - rd \<noteq> 0" using assms by simp
  moreover have "wr - (rd + 1) = wr - rd - 1" by simp
  ultimately show ?thesis by (metis unat_minus_one diff_less unat_eq_zero gr0I zero_less_one)
qed

lemma counter_closer2: "rd + 1 \<noteq> (wr :: u32) \<Longrightarrow> unat (wr - (2 + rd)) < unat (wr - (rd + 1))"
  using counter_closer [of "rd + 1" wr] by (simp add: add.commute)

text \<open>One string of the ring: \<open>line\<close> is what the 256-byte buffer holds so far. The result is
  the string and the counter behind it.\<close>

function fwlog_string :: "u8 list \<Rightarrow> u32 \<Rightarrow> u32 \<Rightarrow> u32 \<Rightarrow> u8 list \<Rightarrow> (u8 list \<times> u32) cres" where
  "fwlog_string h ring wr rd line =
     cbind (rd8 h (AVE_BOOT_FWLOG_RING_OFF + unat (rd mod ring))) (\<lambda>c.
       let line' = (if length line < 255 then line @ [c] else line) in
       if c \<noteq> 0 \<and> rd + 1 \<noteq> wr then fwlog_string h ring wr (rd + 1) line' else Ok (line', rd + 1))"
  by pat_completeness auto
termination
  by (relation "measure (\<lambda>(h, ring, wr, rd, line). unat (wr - (rd + 1)))")
    (simp_all add: counter_closer2)

fun fwlog_strings :: "nat \<Rightarrow> u8 list \<Rightarrow> u32 \<Rightarrow> u32 \<Rightarrow> u32 \<Rightarrow> (u8 list list \<times> u32) cres" where
  "fwlog_strings 0 h ring wr rd = Ok ([], rd)"
| "fwlog_strings (Suc n) h ring wr rd =
     (if rd = wr then Ok ([], rd)
      else cbind (fwlog_string h ring wr rd []) (\<lambda>(line, rd').
           cbind (fwlog_strings n h ring wr rd') (\<lambda>(ls, rd''). Ok (c_str (line @ [0]) # ls, rd''))))"

definition fwlog_read :: "u8 list \<Rightarrow> (u8 list list \<times> u8 list) cres" where
  "fwlog_read h =
     cbind (rd_le32 h AVE_BOOT_FWLOG_HDR_RING_SIZE) (\<lambda>ring.
     cbind (rd_le32 h AVE_BOOT_FWLOG_HDR_RD) (\<lambda>rd.
     cbind (rd_le32 h AVE_BOOT_FWLOG_HDR_WR) (\<lambda>wr.
       if ring = 0 \<or> unat ring > AVE_BOOT_FWLOG_RING_SIZE \<or> rd = wr then Ok ([], h)
       else cbind (fwlog_strings 64 h ring wr rd) (\<lambda>(ls, rd').
              Ok (filter (\<lambda>l. l \<noteq> []) ls, poke h AVE_BOOT_FWLOG_HDR_RD (put_le32 rd'))))))"

definition ave_fw_log_dump ::
  "((nat \<times> nat) list \<Rightarrow> nat \<Rightarrow> nat option) \<Rightarrow> u8 list list hs" where
  "ave_fw_log_dump gp d =
     (case boot_abi d of
        None \<Rightarrow> (Ok [], d)
      | Some a \<Rightarrow>
          if \<not> a_fwlog_ring a
          then (Ok [], if ipc_up d \<and> ave_chan d AVE_CH_TERMINAL \<noteq> None
                       then ave_ipc_drain gp AVE_CH_TERMINAL d else d)
          else case fwlog d of
                 None \<Rightarrow> (Ok [], d)
               | Some (h, iova) \<Rightarrow>
                   (case fwlog_read h of
                      Ok (ls, h') \<Rightarrow> (Ok ls, d\<lparr>fwlog := Some (h', iova)\<rparr>)
                    | Err e \<Rightarrow> (Err e, d)
                    | Fault \<Rightarrow> (Fault, d)))"

section \<open>Setup and teardown\<close>

text \<open>What DMA allocation (the iova) and the pool's creation and filling give.\<close>

record init_env =
  i_dma :: "u64 option"
  i_pool_create :: bool
  i_pool_add :: "errno option"

definition ave_ipc_init :: "init_env \<Rightarrow> ave_device \<Rightarrow> errno option \<times> ave_device" where
  "ave_ipc_init env d =
     (case ave_boot_abi_get (fw_abi d) of
        None \<Rightarrow> (Some EOPNOTSUPP, d)
      | Some a \<Rightarrow>
          if ipc_cpu d then (None, d)
          else
            let d1 = d\<lparr>ipc_irq := True, ipc_size := unat (a_fwipc_size a)\<rparr> in
            case i_dma env of
              None \<Rightarrow> (Some ENOMEM, d1\<lparr>ipc_cpu := False\<rparr>)
            | Some iova \<Rightarrow>
                let d2 = d1\<lparr>ipc_cpu := True, ipc_iova := iova,
                            ipc_mem := replicate (unat (a_fwipc_size a)) 0\<rparr> in
                if (iova OR ucast (a_fwipc_size a)) AND (AVE_BOOT_ALIGN_16K - 1) \<noteq> 0
                then (Some EINVAL, d2\<lparr>ipc_cpu := False, ipc_mem := []\<rparr>)
                else if \<not> i_pool_create env
                then (Some ENOMEM, d2\<lparr>ipc_cpu := False, ipc_mem := []\<rparr>)
                else case i_pool_add env of
                       Some e \<Rightarrow> (Some e, d2\<lparr>ipc_pool := None, ipc_cpu := False, ipc_mem := []\<rparr>)
                     | None \<Rightarrow> (None, d2\<lparr>ipc_pool := Some [], boot_abi := Some a\<rparr>))"

definition fini_state :: "ave_device \<Rightarrow> ave_device" where
  "fini_state d =
     (if boot_abi d = None then d
      else d\<lparr>ipc_up := False, boot_phase := AVE_BOOT_IDLE, mbox_pending := False,
             chan := map (\<lambda>ch. ch\<lparr>ch_bound := False\<rparr>) (chan d), nchannels := 0\<rparr>)"

fun fini_shm :: "(nat option \<times> u32) list \<Rightarrow> ave_device \<Rightarrow> ave_device" where
  "fini_shm [] d = d"
| "fini_shm ((c, s) # xs) d = fini_shm xs (ave_ipc_free c (unat s) d)"

text \<open>Everything back to the pool; what is left of it is the allocations that leak.\<close>

definition fini_blocks :: "ave_device \<Rightarrow> ave_device" where
  "fini_blocks d =
     (let d = fini_shm (shm d) d;
          d = d\<lparr>shm := map (\<lambda>e. (None, snd e)) (shm d)\<rparr>;
          d = ave_ipc_free (fwcfg d) (fwcfg_size d) d;
          d = ave_ipc_free (chanmem d) (unat (chanmem_size d)) d;
          d = ave_ipc_free (ipcinfo d) AVE_BOOT_INFO_SIZE d;
          d = (case boot_abi d of
                 None \<Rightarrow> d | Some a \<Rightarrow> ave_ipc_free (info_log d) (unat (a_info_log_size a)) d)
      in d\<lparr>fwcfg := None, chanmem := None, ipcinfo := None, info_log := None\<rparr>)"

definition ave_ipc_fini :: "ave_device \<Rightarrow> (nat \<times> nat) list \<times> ave_device" where
  "ave_ipc_fini d =
     (let d1 = (fini_state d)\<lparr>fwheap := None, fwlog := None\<rparr> in
      if \<not> ipc_cpu d1 then ([], d1)
      else
        case ipc_pool d1 of
          None \<Rightarrow> ([], d1\<lparr>ipc_cpu := False, ipc_mem := []\<rparr>)
        | Some _ \<Rightarrow>
            let d2 = fini_blocks d1 in
            (case ipc_pool d2 of Some live \<Rightarrow> live | None \<Rightarrow> [],
             d2\<lparr>ipc_pool := None, ipc_cpu := False, ipc_mem := []\<rparr>))"

end
