(* ===== verification/Ave_Handshake_Inv.thy ===== *)
theory Ave_Handshake_Inv
  imports Ave_Handshake
begin

text \<open>
  What the boot conversation of \<open>Ave_Handshake\<close> guarantees for every firmware behaviour: its
  outcome always matches the phase it leaves, it never reads outside FwIPC, and a handshake that
  succeeds leaves a device that satisfies the transport's invariant, bound to channels that
  message 1 and the descriptors justify.

  The steps are reasoned about with triples \<open>hs_triple P m Q E\<close>: from a device satisfying \<open>P\<close>,
  \<open>m\<close> does not fault, and leaves \<open>Q\<close> when it succeeds and \<open>E\<close> when it fails.
\<close>

declare split_paired_Ex [simp del] split_paired_All [simp del]

section \<open>Triples\<close>

definition hs_triple ::
  "(ave_device \<Rightarrow> bool) \<Rightarrow> 'a hs \<Rightarrow> ('a \<Rightarrow> ave_device \<Rightarrow> bool) \<Rightarrow> (ave_device \<Rightarrow> bool) \<Rightarrow> bool" where
  "hs_triple P m Q E \<longleftrightarrow>
     (\<forall>d. P d \<longrightarrow> (case m d of (Ok x, d') \<Rightarrow> Q x d' | (Err e, d') \<Rightarrow> E d' | (Fault, d') \<Rightarrow> False))"

lemma hs_tripleI:
  assumes "\<And>d r d'. P d \<Longrightarrow> m d = (r, d') \<Longrightarrow>
    r \<noteq> Fault \<and> (\<forall>x. r = Ok x \<longrightarrow> Q x d') \<and> (\<forall>e. r = Err e \<longrightarrow> E d')"
  shows "hs_triple P m Q E"
  unfolding hs_triple_def
proof (intro allI impI)
  fix d assume "P d"
  then show "case m d of (Ok x, d') \<Rightarrow> Q x d' | (Err e, d') \<Rightarrow> E d' | (Fault, d') \<Rightarrow> False"
    using assms [of d "fst (m d)" "snd (m d)"] by (cases "m d"; cases "fst (m d)") auto
qed

lemma hs_tripleD:
  assumes "hs_triple P m Q E" "P d" "m d = (r, d')"
  shows "r \<noteq> Fault" "\<And>x. r = Ok x \<Longrightarrow> Q x d'" "\<And>e. r = Err e \<Longrightarrow> E d'"
  using assms by (auto simp: hs_triple_def split: cres.splits)

lemma hs_bind_triple:
  assumes m: "hs_triple P m R E" and f: "\<And>x. hs_triple (R x) (f x) Q E"
  shows "hs_triple P (hs_bind m f) Q E"
proof (rule hs_tripleI)
  fix d r d' assume P: "P d" and eq: "hs_bind m f d = (r, d')"
  obtain r1 d1 where m1: "m d = (r1, d1)" by (cases "m d")
  note t = hs_tripleD [OF m P m1]
  show "r \<noteq> Fault \<and> (\<forall>x. r = Ok x \<longrightarrow> Q x d') \<and> (\<forall>e. r = Err e \<longrightarrow> E d')"
  proof (cases r1)
    case (Ok x)
    then have "f x d1 = (r, d')" using eq m1 by (simp add: hs_bind_def)
    then show ?thesis using hs_tripleD [OF f t(2) [OF Ok]] by blast
  qed (use eq m1 t in \<open>auto simp: hs_bind_def\<close>)
qed

lemma hs_weaken:
  assumes "hs_triple P m Q E" "\<And>d. P' d \<Longrightarrow> P d" "\<And>x d. Q x d \<Longrightarrow> Q' x d" "\<And>d. E d \<Longrightarrow> E' d"
  shows "hs_triple P' m Q' E'"
  by (rule hs_tripleI) (use hs_tripleD [OF assms(1)] assms in blast)

lemma hs_do_triple: "(\<And>d. P d \<Longrightarrow> Q () (f d)) \<Longrightarrow> hs_triple P (hs_do f) Q E"
  by (simp add: hs_triple_def hs_do_def)

lemma hs_skip_triple: "(\<And>d. P d \<Longrightarrow> Q () d) \<Longrightarrow> hs_triple P (\<lambda>d. (Ok (), d)) Q E"
  by (simp add: hs_triple_def)

lemma hs_if_triple:
  "(c \<Longrightarrow> hs_triple P m Q E) \<Longrightarrow> (\<not> c \<Longrightarrow> hs_triple P m' Q E) \<Longrightarrow> hs_triple P (if c then m else m') Q E"
  by simp

section \<open>What an interrupt leaves alone\<close>

text \<open>The part of the device that belongs to the boot conversation.\<close>

definition boot_view where
  "boot_view d = (boot_abi d, boot_phase d, ipc_up d, ipc_fw_base d, (chanmem d, chanmem_size d),
     (ipcinfo d, info_log d, fwcfg d), client_buf_size d, msg1 d, (ipc_size d, ipc_iova d), nchannels d,
     soc_devs d, fw_abi d)"

lemma boot_view_frame [simp]:
  "boot_view (d\<lparr>ipc_mem := a1\<rparr>) = boot_view d" "boot_view (d\<lparr>chan := a2\<rparr>) = boot_view d"
  "boot_view (d\<lparr>doorbells := a3\<rparr>) = boot_view d" "boot_view (d\<lparr>ipc_pool := a4\<rparr>) = boot_view d"
  "boot_view (d\<lparr>pool_bug := a5\<rparr>) = boot_view d" "boot_view (d\<lparr>shm := a6\<rparr>) = boot_view d"
  "boot_view (d\<lparr>rx_calls := a7\<rparr>) = boot_view d" "boot_view (d\<lparr>fwlog_lines := a8\<rparr>) = boot_view d"
  "boot_view (d\<lparr>fw_lines := a9\<rparr>) = boot_view d" "boot_view (d\<lparr>hung := b1\<rparr>) = boot_view d"
  "boot_view (d\<lparr>scratch := b2\<rparr>) = boot_view d" "boot_view (d\<lparr>intr_status := b3\<rparr>) = boot_view d"
  "boot_view (d\<lparr>mbox_pending := b4\<rparr>) = boot_view d" "boot_view (d\<lparr>mbox := b5\<rparr>) = boot_view d"
  "boot_view (d\<lparr>mbox_status := b6\<rparr>) = boot_view d" "boot_view (d\<lparr>hs_seen := b7\<rparr>) = boot_view d"
  "boot_view (d\<lparr>hs_status := b8\<rparr>) = boot_view d" "boot_view (d\<lparr>hs_scratch := b9\<rparr>) = boot_view d"
  by (simp_all add: boot_view_def)

lemma view_doorbell [simp]: "boot_view (ave_ipc_ring_doorbell i d) = boot_view d"
  by (simp add: ave_ipc_ring_doorbell_def write_doorbell_def split: option.split)

lemma view_send [simp]: "boot_view (snd (ave_chan_send_fw i fw a1 a2 d)) = boot_view d"
  by (cases rule: send_fw_cases [of i fw a1 a2 d]) auto

lemma view_recv: "ave_chan_recv_fw i d = (r, d') \<Longrightarrow> boot_view d' = boot_view d"
  by (auto simp: ave_chan_recv_fw_def Let_def split: option.splits if_splits prod.splits)

lemma view_alloc: "ave_ipc_alloc gp n d = (r, d') \<Longrightarrow> boot_view d' = boot_view d"
  by (auto simp: ave_ipc_alloc_def split: option.splits if_splits)

lemma view_free [simp]: "boot_view (ave_ipc_free p n d) = boot_view d"
  by (auto simp: ave_ipc_free_def split: option.splits)

lemma view_shm [simp]: "boot_view (ave_ipc_shmalloc gp fw n d) = boot_view d"
  by (auto simp: ave_ipc_shmalloc_def shm_free_def shm_alloc_def Let_def view_alloc split: option.splits prod.splits)

lemma view_line [simp]: "boot_view (ave_ipc_terminal_line fw n lv d) = boot_view d"
  by (simp add: ave_ipc_terminal_line_def Let_def split: option.split)

lemma view_msg [simp]: "boot_view (snd (drain_msg gp i x d)) = boot_view d"
  by (auto simp: drain_msg_def Let_def split: prod.split)

lemma view_loop [simp]: "boot_view (drain_loop gp fuel i d) = boot_view d"
proof (induction fuel arbitrary: d)
  case (Suc fuel)
  obtain r d1 where r: "ave_chan_recv_fw i d = (r, d1)" by (cases "ave_chan_recv_fw i d")
  obtain b d2 where m: "drain_msg gp i (projr r) d1 = (b, d2)" by (cases "drain_msg gp i (projr r) d1")
  have "boot_view d2 = boot_view d" using view_msg [of gp i "projr r" d1] view_recv [OF r] m by simp
  then show ?case using Suc.IH r m view_recv [OF r] by (cases r; cases b) auto
qed simp

lemma view_dispatch [simp]: "boot_view (ave_ipc_irq_dispatch gp st d) = boot_view d"
proof -
  have "boot_view (fold (dispatch_one gp st) is d) = boot_view d" for "is"
    by (induction "is" arbitrary: d) (auto simp: dispatch_one_def ave_ipc_drain_def split: option.split)
  then show ?thesis by (simp add: ave_ipc_irq_dispatch_def)
qed

lemma view_capture [simp]: "boot_view (irq_capture st d) = boot_view d"
  by (simp add: irq_capture_def Let_def write_status_def)

lemma view_irq [simp]: "boot_view (snd (ave_irq_handler gp d)) = boot_view d"
  by (simp add: ave_irq_handler_def Let_def)

lemma view_env [simp]: "boot_view (env_step gp a d) = boot_view d" "boot_view (env_run gp as d) = boot_view d"
proof -
  show "boot_view (env_step gp a d) = boot_view d" for a d
    by (simp add: env_step_def ave_set_scratch_def split: env_act.split)
  then show "boot_view (env_run gp as d) = boot_view d"
    unfolding env_run_def by (induction "as" arbitrary: d) simp_all
qed

lemma view_fields:
  assumes "boot_view d' = boot_view d"
  shows "boot_abi d' = boot_abi d" "boot_phase d' = boot_phase d" "ipc_up d' = ipc_up d"
    "ipc_fw_base d' = ipc_fw_base d" "chanmem d' = chanmem d" "chanmem_size d' = chanmem_size d"
    "client_buf_size d' = client_buf_size d" "msg1 d' = msg1 d" "ipc_size d' = ipc_size d"
    "nchannels d' = nchannels d" "ipcinfo d' = ipcinfo d" "info_log d' = info_log d" "fwcfg d' = fwcfg d" "soc_devs d' = soc_devs d" "fw_abi d' = fw_abi d"
  using assms by (simp_all add: boot_view_def)

lemmas env_fields [simp] = view_fields [OF view_env(2)]
lemmas irq_fields [simp] = view_fields [OF view_irq]

section \<open>The invariant of the conversation\<close>

text \<open>Until the ready flag the interrupt handler only captures messages, so the transport's
  invariant needs nothing of the firmware.\<close>

definition conv :: "((nat \<times> nat) list \<Rightarrow> nat \<Rightarrow> nat option) \<Rightarrow> ave_boot_abi \<Rightarrow> ave_device \<Rightarrow> bool" where
  "conv gp a d \<longleftrightarrow> dev_ok d \<and> gen_pool_ok gp (ipc_size d) \<and> obs_ok d \<and> \<not> hung d \<and> \<not> ipc_up d
     \<and> boot_abi d = Some a"

definition unbound :: "ave_device \<Rightarrow> bool" where
  "unbound d \<longleftrightarrow> (\<forall>ch\<in>set (chan d). \<not> ch_bound ch)"

definition pool_of :: "ave_device \<Rightarrow> (nat \<times> nat) list" where
  "pool_of d = the (ipc_pool d)"

lemma conv_ok: "conv gp a d \<Longrightarrow> dev_ok_with d (pool_of d)"
  by (auto simp: conv_def dev_ok_def pool_of_def split: option.splits)

lemma convI:
  assumes "dev_ok_with d live" "gen_pool_ok gp (ipc_size d)" "obs_ok d" "\<not> hung d" "\<not> ipc_up d"
    "boot_abi d = Some a"
  shows "conv gp a d"
  using assms by (auto simp: conv_def dev_ok_iff)

lemma obs_frame:
  assumes "rx_calls d' = rx_calls d" "fw_lines d' = fw_lines d" "ipc_size d' = ipc_size d"
  shows "obs_ok d' = obs_ok d"
  using assms by (simp add: obs_ok_def)

text \<open>Changes that the invariant does not see.\<close>

lemma dev_ok_with_frame:
  assumes "ipc_pool d' = ipc_pool d" "ipc_cpu d' = ipc_cpu d" "length (ipc_mem d') = length (ipc_mem d)"
    "ipc_size d' = ipc_size d" "length (scratch d') = length (scratch d)" "fixed_ptrs d' = fixed_ptrs d"
    "chan d' = chan d" "chanmem_block d' = chanmem_block d" "shm d' = shm d" "pool_bug d' = pool_bug d"
  shows "dev_ok_with d' live = dev_ok_with d live"
  using assms by (simp add: dev_ok_with_def chans_ok_def shm_ok_def)

lemma conv_frame:
  assumes "conv gp a d"
    "ipc_pool d' = ipc_pool d" "ipc_cpu d' = ipc_cpu d" "length (ipc_mem d') = length (ipc_mem d)"
    "ipc_size d' = ipc_size d" "length (scratch d') = length (scratch d)" "fixed_ptrs d' = fixed_ptrs d"
    "chan d' = chan d" "chanmem_block d' = chanmem_block d" "shm d' = shm d" "pool_bug d' = pool_bug d"
    "rx_calls d' = rx_calls d" "fw_lines d' = fw_lines d" "hung d' = hung d" "ipc_up d' = ipc_up d"
    "boot_abi d' = boot_abi d"
  shows "conv gp a d'"
  using assms dev_ok_with_frame [of d' d] obs_frame [of d' d] by (simp add: conv_def dev_ok_iff)

lemma block_frame [simp]:
  "chanmem_block (d\<lparr>ipc_fw_base := f1\<rparr>) = chanmem_block d" "fixed_ptrs (d\<lparr>ipc_fw_base := f1\<rparr>) = fixed_ptrs d"
  "chanmem_block (d\<lparr>fwheap := f2\<rparr>) = chanmem_block d" "fixed_ptrs (d\<lparr>fwheap := f2\<rparr>) = fixed_ptrs d"
  "chanmem_block (d\<lparr>time_base := f3\<rparr>) = chanmem_block d" "fixed_ptrs (d\<lparr>time_base := f3\<rparr>) = fixed_ptrs d"
  by (simp_all add: chanmem_block_def fixed_ptrs_def split: option.split)

lemma conv_small:
  assumes "conv gp a d"
  shows "off + length bs \<le> length (ipc_mem d) \<Longrightarrow> conv gp a (d\<lparr>ipc_mem := poke (ipc_mem d) off bs\<rparr>)"
    and "length v = length (scratch d) \<Longrightarrow> conv gp a (d\<lparr>scratch := v\<rparr>)" "conv gp a (d\<lparr>intr_status := w\<rparr>)"
    and "conv gp a (irq_capture st d)" "conv gp a (d\<lparr>doorbells := db\<rparr>)"
    and "conv gp a (d\<lparr>mbox_pending := b\<rparr>)" "conv gp a (d\<lparr>msg1 := m, boot_phase := ph\<rparr>)"
    and "conv gp a (d\<lparr>nchannels := n\<rparr>)" "conv gp a (d\<lparr>client_buf_size := cb\<rparr>)"
    and "conv gp a (d\<lparr>ipc_fw_base := f1\<rparr>)" "conv gp a (d\<lparr>fwheap := f2\<rparr>)" "conv gp a (d\<lparr>time_base := f3\<rparr>)"
  by (rule conv_frame [OF assms];
      simp add: irq_capture_def write_status_def Let_def)+

text \<open>\<open>same_view d d'\<close>: only memory, registers and the mailbox differ.\<close>

definition same_view :: "ave_device \<Rightarrow> ave_device \<Rightarrow> bool" where
  "same_view d d' \<longleftrightarrow> boot_view d' = boot_view d \<and> chan d' = chan d \<and> pool_of d' = pool_of d"

lemma same_view_refl [simp]: "same_view d d"
  by (simp add: same_view_def)

lemma same_view_trans: "same_view a b \<Longrightarrow> same_view b c \<Longrightarrow> same_view a c"
  by (simp add: same_view_def)

lemma conv_env_step:
  assumes c: "conv gp a d"
  shows "conv gp a (env_step gp x d) \<and> same_view d (env_step gp x d)"
proof -
  have up: "\<not> ipc_up d" using c by (simp add: conv_def)
  have "chan (irq_capture st d) = chan d" "pool_of (irq_capture st d) = pool_of d" for st
    by (simp_all add: irq_capture_def write_status_def Let_def pool_of_def)
  then show ?thesis
    using c conv_small [OF c]
    by (cases x) (simp_all add: env_step_def same_view_def ave_set_scratch_def pool_of_def
        irq_capture_before_up [OF up])
qed

lemma conv_env: "conv gp a d \<Longrightarrow> conv gp a (env_run gp as d) \<and> same_view d (env_run gp as d)"
  unfolding env_run_def
proof (induction "as" arbitrary: d)
  case (Cons x xs)
  then show ?case using conv_env_step [OF Cons.prems, of x] same_view_trans by fastforce
qed simp

text \<open>A poll touches the mailbox only; the first message is kept while the host waits for it.\<close>

lemma recv_poll_conv:
  assumes c: "conv gp a d" and r: "recv_poll d = (r, d')"
  shows "conv gp a d' \<and> chan d' = chan d \<and> pool_of d' = pool_of d
    \<and> (boot_phase d \<noteq> AVE_BOOT_ARGS_WRITTEN \<or> r = None \<longrightarrow> same_view d d')
    \<and> (boot_phase d = AVE_BOOT_ARGS_WRITTEN \<and> r \<noteq> None \<longrightarrow> boot_phase d' = AVE_BOOT_MSG1)"
proof -
  let ?keep = "\<lambda>d0 m. if boot_phase d = AVE_BOOT_ARGS_WRITTEN then d0\<lparr>msg1 := m, boot_phase := AVE_BOOT_MSG1\<rparr> else d0"
  note s = conv_small [OF c]
  have "r = None \<and> d' = d \<or> r \<noteq> None \<and> d' = ?keep (d\<lparr>mbox_pending := False\<rparr>) (the r)
      \<or> r \<noteq> None \<and> (\<exists>w. d' = ?keep (d\<lparr>intr_status := w\<rparr>) (the r))"
    using r by (auto simp: recv_poll_def Let_def write_status_def split: if_splits)
  then show ?thesis
    using c s(3,6) conv_small(7) [OF s(3)] conv_small(7) [OF s(6)]
    by (auto simp: same_view_def pool_of_def)
qed

lemma recv_same:
  assumes "conv gp a d" "ave_recv_iop_msg gp polls d = (r, d')" "boot_phase d \<noteq> AVE_BOOT_ARGS_WRITTEN"
  shows "r \<noteq> Fault \<and> conv gp a d' \<and> same_view d d'"
proof -
  have "recv_loop gp polls d = (r, d') \<Longrightarrow> conv gp a d \<Longrightarrow> boot_phase d \<noteq> AVE_BOOT_ARGS_WRITTEN \<Longrightarrow>
      r \<noteq> Fault \<and> conv gp a d' \<and> same_view d d'"
  proof (induction polls arbitrary: d)
    case (Cons acts polls)
    obtain g d1 where g: "recv_poll (env_run gp acts d) = (g, d1)" by fastforce
    note e = conv_env [OF Cons.prems(2), of acts]
    have s: "conv gp a d1 \<and> same_view d d1"
      using recv_poll_conv [OF conjunct1 [OF e] g] e Cons.prems(3) same_view_trans by auto
    then have "boot_phase d1 = boot_phase d" by (auto simp: same_view_def dest: view_fields(2))
    then show ?case
      using Cons g s same_view_trans by (cases g) auto
  qed auto
  then show ?thesis using assms by (auto simp: ave_recv_iop_msg_def split: if_splits)
qed

lemma recv_first:
  assumes "conv gp a d" "ave_recv_iop_msg gp polls d = (r, d')" "boot_phase d = AVE_BOOT_ARGS_WRITTEN"
  shows "r \<noteq> Fault \<and> (\<forall>m. r = Ok m \<longrightarrow> conv gp a d' \<and> chan d' = chan d \<and> boot_phase d' = AVE_BOOT_MSG1)"
proof -
  have "recv_loop gp polls d = (r, d') \<Longrightarrow> conv gp a d \<Longrightarrow> boot_phase d = AVE_BOOT_ARGS_WRITTEN \<Longrightarrow>
      r \<noteq> Fault \<and> (\<forall>m. r = Ok m \<longrightarrow> conv gp a d' \<and> chan d' = chan d \<and> boot_phase d' = AVE_BOOT_MSG1)"
  proof (induction polls arbitrary: d)
    case (Cons acts polls)
    obtain g d1 where g: "recv_poll (env_run gp acts d) = (g, d1)" by fastforce
    note e = conv_env [OF Cons.prems(2), of acts]
    have "chan (env_run gp acts d) = chan d" using e by (simp add: same_view_def)
    moreover note p = recv_poll_conv [OF conjunct1 [OF e] g]
    moreover have "g = None \<Longrightarrow> boot_phase d1 = boot_phase d"
      using p by (auto simp: same_view_def dest: view_fields(2))
    ultimately show ?case using Cons g by (cases g) auto
  qed auto
  then show ?thesis using assms by (auto simp: ave_recv_iop_msg_def split: if_splits)
qed

section \<open>The stages\<close>

definition waiting :: "mbox_msg \<Rightarrow> ave_device \<Rightarrow> bool" where
  "waiting m d \<longleftrightarrow> unbound d \<and> boot_phase d = AVE_BOOT_MSG1 \<and> msg1 d = m"

definition block_at :: "u32 \<Rightarrow> ave_device \<Rightarrow> bool" where
  "block_at chsz d \<longleftrightarrow> (\<exists>c. chanmem d = Some c \<and> chanmem_size d = chsz \<and> (c, unat chsz) \<in> set (pool_of d))"

lemma same_view_keeps:
  assumes "same_view d d'"
  shows "waiting m d \<Longrightarrow> waiting m d'" "block_at chsz d \<Longrightarrow> block_at chsz d'"
proof -
  have v: "boot_view d' = boot_view d" "chan d' = chan d" "pool_of d' = pool_of d"
    using assms by (simp_all add: same_view_def)
  show "waiting m d \<Longrightarrow> waiting m d'" "block_at chsz d \<Longrightarrow> block_at chsz d'"
    by (simp_all add: waiting_def unbound_def block_at_def view_fields [OF v(1)] v(2,3))
qed

lemma msg1_stage:
  "hs_triple (\<lambda>d. conv (e_gp env) a d \<and> unbound d \<and> boot_phase d \<in> {AVE_BOOT_ARGS_WRITTEN, AVE_BOOT_MSG1})
     (hs_msg1 env a)
     (\<lambda>_ d. conv (e_gp env) a d \<and> waiting (msg1 d) d \<and> ave_boot_check_msg1_log env a (msg1 d) = None)
     (\<lambda>_. True)"
proof (rule hs_tripleI)
  fix d r d'
  assume P: "conv (e_gp env) a d \<and> unbound d \<and> boot_phase d \<in> {AVE_BOOT_ARGS_WRITTEN, AVE_BOOT_MSG1}"
    and eq: "hs_msg1 env a d = (r, d')"
  show "r \<noteq> Fault \<and> (\<forall>x. r = Ok x \<longrightarrow> conv (e_gp env) a d' \<and> waiting (msg1 d') d'
      \<and> ave_boot_check_msg1_log env a (msg1 d') = None) \<and> (\<forall>e. r = Err e \<longrightarrow> True)"
  proof (cases "boot_phase d = AVE_BOOT_ARGS_WRITTEN")
    case True
    obtain r1 d1 where r1: "ave_recv_iop_msg (e_gp env) (e_msg1 env) d = (r1, d1)" by fastforce
    have c: "conv (e_gp env) a d" using P by simp
    note f = recv_first [OF c r1 True]
    show ?thesis
    proof (cases r1)
      case (Ok m)
      then have d1: "conv (e_gp env) a d1" "waiting (msg1 d1) d1"
        using f P by (auto simp: waiting_def unbound_def)
      have "(r, d') = (case ave_boot_check_msg1_log env a (msg1 d1) of Some e \<Rightarrow> (Err e, d1) | None \<Rightarrow> (Ok (), d1))"
        using eq True r1 Ok by (simp add: hs_msg1_def hs_bind_def)
      then show ?thesis using d1 by (auto split: option.splits)
    qed (use eq True r1 f in \<open>auto simp: hs_msg1_def hs_bind_def\<close>)
  next
    case False
    then show ?thesis
      using P eq by (auto simp: hs_msg1_def waiting_def split: option.splits)
  qed
qed

lemma heap_triple:
  "hs_triple (\<lambda>d. conv gp a d \<and> waiting m d) (ave_boot_heap env sz) (\<lambda>_ d. conv gp a d \<and> waiting m d) (\<lambda>_. True)"
  by (rule hs_tripleI)
    (auto simp: ave_boot_heap_def Let_def waiting_def unbound_def conv_small split: if_splits option.splits)

lemma recv_triple:
  "hs_triple (\<lambda>d. conv gp a d \<and> waiting m d) (ave_recv_iop_msg gp polls)
     (\<lambda>_ d. conv gp a d \<and> waiting m d) (\<lambda>_. True)"
proof (rule hs_tripleI)
  fix d r d' assume P: "conv gp a d \<and> waiting m d" and r: "ave_recv_iop_msg gp polls d = (r, d')"
  have "boot_phase d \<noteq> AVE_BOOT_ARGS_WRITTEN" using P by (simp add: waiting_def)
  then have "r \<noteq> Fault \<and> conv gp a d' \<and> same_view d d'" using recv_same [OF _ r] P by blast
  then show "r \<noteq> Fault \<and> (\<forall>x. r = Ok x \<longrightarrow> conv gp a d' \<and> waiting m d') \<and> (\<forall>e. r = Err e \<longrightarrow> True)"
    using P same_view_keeps(1) by blast
qed

lemma waiting_frame [simp]:
  "waiting m (d\<lparr>scratch := s\<rparr>) = waiting m d" "waiting m (d\<lparr>doorbells := b\<rparr>) = waiting m d"
  "waiting m (d\<lparr>ipc_fw_base := f\<rparr>) = waiting m d" "waiting m (d\<lparr>time_base := t\<rparr>) = waiting m d"
  "waiting m (d\<lparr>ipc_mem := x\<rparr>) = waiting m d"
  by (simp_all add: waiting_def unbound_def)

lemma send_iop_conv: "conv gp a d \<Longrightarrow> conv gp a (ave_send_iop_msg msg d)"
  by (cases msg) (auto simp: ave_send_iop_msg_def write_doorbell_def ave_set_scratch_def intro!: conv_small)

lemma send_iop_view: "same_view d (ave_send_iop_msg msg d)"
  by (cases msg) (simp add: ave_send_iop_msg_def write_doorbell_def ave_set_scratch_def same_view_def pool_of_def)

lemma time_base_conv: "conv gp a d \<Longrightarrow> conv gp a (ave_boot_time_base env d)"
  by (auto simp: ave_boot_time_base_def ave_set_scratch_def Let_def intro!: conv_small)

lemma surface_stage:
  "hs_triple (\<lambda>d. conv (e_gp env) a d \<and> waiting m d) (hs_surface env a heap)
     (\<lambda>_ d. conv (e_gp env) a d \<and> waiting m d) (\<lambda>_. True)"
  unfolding hs_surface_def
  by (intro hs_bind_triple [where R = "\<lambda>_ d. conv (e_gp env) a d \<and> waiting m d"] hs_if_triple heap_triple
      recv_triple hs_do_triple hs_skip_triple)
    (auto simp: time_base_conv send_iop_conv conv_small same_view_keeps(1) [OF send_iop_view]
      ave_boot_time_base_def ave_set_scratch_def Let_def)

text \<open>A block that is the driver's to own: live, and not given out to the firmware.\<close>

definition own :: "ave_device \<Rightarrow> nat \<Rightarrow> nat \<Rightarrow> bool" where
  "own d p n \<longleftrightarrow> (p, n) \<in> set (pool_of d) \<and> (\<forall>i < length (shm d). fst (shm d ! i) \<noteq> Some p)"

lemma alloc_conv:
  assumes c: "conv gp a d" and al: "ave_ipc_alloc gp n d = (r, d')"
  shows "conv gp a d' \<and> boot_view d' = boot_view d \<and> chan d' = chan d
    \<and> (\<forall>va. r = Some va \<longrightarrow> own d' va n \<and> va + n \<le> ipc_size d') \<and> (\<forall>p k. own d p k \<longrightarrow> own d' p k)"
proof -
  note ok = conv_ok [OF c]
  have gp: "gen_pool_ok gp (ipc_size d)" using c by (simp add: conv_def)
  show ?thesis
    using ok gp
  proof (cases rule: alloc_cases [where n = n])
    case none
    then show ?thesis using c al by simp
  next
    case (some va)
    have d': "r = Some va" "d' = d\<lparr>ipc_pool := Some ((va, n) # pool_of d),
        ipc_mem := poke (ipc_mem d) va (replicate n 0)\<rparr>"
      using al some(1) by simp_all
    have "conv gp a d'"
      using alloc_keeps [OF ok some(4,3)] c unfolding d'
      by (intro convI) (auto simp: conv_def obs_ok_def)
    moreover have "own d' va n"
    proof -
      have "fst (shm d ! i) \<noteq> Some va" if "i < length (shm d)" for i
      proof
        assume "fst (shm d ! i) = Some va"
        then have "(va, unat (snd (shm d ! i))) \<in> set (pool_of d)"
          using ok that tab_inD [of "shm d" "\<lambda>p s. (p, unat s) \<in> set (pool_of d) \<and> p \<notin> fixed_ptrs d" i va
              "snd (shm d ! i)"]
          by (simp add: dev_ok_with_def shm_ok_def prod_eq_iff)
        then show False using some(5) by force
      qed
      then show ?thesis by (simp add: own_def d' pool_of_def)
    qed
    ultimately show ?thesis
      using some(3) by (auto simp: d' own_def pool_of_def)
  qed
qed

text \<open>The driver's pointers may be set to what it owns, while no channel is bound.\<close>

lemma conv_ptrs:
  assumes c: "conv gp a d" and un: "unbound d"
    and ptrs: "fixed_ptrs d' \<subseteq> fixed_ptrs d \<union> {p. \<exists>k. own d p k}"
    and eq: "ipc_pool d' = ipc_pool d" "ipc_cpu d' = ipc_cpu d" "ipc_mem d' = ipc_mem d"
    "ipc_size d' = ipc_size d" "scratch d' = scratch d" "chan d' = chan d" "shm d' = shm d"
    "pool_bug d' = pool_bug d" "rx_calls d' = rx_calls d" "fw_lines d' = fw_lines d" "hung d' = hung d"
    "ipc_up d' = ipc_up d" "boot_abi d' = boot_abi d"
  shows "conv gp a d'"
proof (rule convI [of _ "pool_of d"])
  have ok: "dev_ok_with d (pool_of d)" using conv_ok [OF c] .
  have fx: "fixed_ptrs d' \<subseteq> fst ` set (pool_of d)"
    using ok ptrs by (force simp: dev_ok_with_def own_def)
  have "tab_in (shm d) (\<lambda>p s. (p, unat s) \<in> set (pool_of d) \<and> p \<notin> fixed_ptrs d')"
    unfolding tab_in_def
  proof (intro allI impI)
    fix i p s assume i: "i < length (shm d)" "shm d ! i = (Some p, s)"
    then have "(p, unat s) \<in> set (pool_of d) \<and> p \<notin> fixed_ptrs d"
      using ok tab_inD by (fastforce simp: dev_ok_with_def shm_ok_def)
    moreover have "\<not> own d p k" for k using i by (auto simp: own_def)
    ultimately show "(p, unat s) \<in> set (pool_of d) \<and> p \<notin> fixed_ptrs d'" using ptrs by blast
  qed
  moreover have "\<forall>ch\<in>set (chan d). \<not> ch_bound ch" using un by (simp add: unbound_def)
  ultimately show "dev_ok_with d' (pool_of d)"
    using ok fx eq by (simp add: dev_ok_with_def chans_ok_def shm_ok_def)
  show "obs_ok d'" using c eq obs_frame [of d' d] by (simp add: conv_def)
qed (use c eq in \<open>simp_all add: conv_def\<close>)

lemma own_frame [simp]:
  "own (d\<lparr>chanmem := c\<rparr>) p k = own d p k" "own (d\<lparr>ipcinfo := i\<rparr>) p k = own d p k"
  "own (d\<lparr>chanmem_size := s\<rparr>) p k = own d p k" "own (d\<lparr>info_log := l\<rparr>) p k = own d p k"
  by (simp_all add: own_def pool_of_def)

lemma waiting_frame2 [simp]:
  "waiting m (d\<lparr>chanmem := c\<rparr>) = waiting m d" "waiting m (d\<lparr>ipcinfo := i\<rparr>) = waiting m d"
  "waiting m (d\<lparr>chanmem_size := s\<rparr>) = waiting m d" "waiting m (d\<lparr>info_log := l\<rparr>) = waiting m d"
  by (simp_all add: waiting_def unbound_def)

lemma set_ptr:
  assumes "conv gp a d" "waiting m d" "p = None \<or> (\<exists>k. own d (the p) k)"
  shows "conv gp a (d\<lparr>chanmem := p\<rparr>)" "conv gp a (d\<lparr>ipcinfo := p\<rparr>)" "conv gp a (d\<lparr>info_log := p\<rparr>)"
    "conv gp a (d\<lparr>chanmem_size := s\<rparr>)"
  using assms by (auto simp: waiting_def fixed_ptrs_def intro!: conv_ptrs [of gp a d])

definition blocks_ready :: "mbox_msg \<Rightarrow> u32 \<Rightarrow> nat \<Rightarrow> ave_device \<Rightarrow> bool" where
  "blocks_ready m chsz p d \<longleftrightarrow> waiting m d \<and> block_at chsz d \<and> p + AVE_BOOT_INFO_SIZE \<le> ipc_size d"

lemma view_waiting:
  assumes "boot_view d' = boot_view d" "chan d' = chan d"
  shows "waiting m d' = waiting m d"
  by (simp add: waiting_def unbound_def view_fields [OF assms(1)] assms(2))

lemma alloc_blocks_stage:
  "hs_triple (\<lambda>d. conv (e_gp env) a d \<and> waiting m d) (hs_alloc_blocks env chsz)
     (\<lambda>(c, p) d. conv (e_gp env) a d \<and> blocks_ready m chsz p d) (\<lambda>_. True)"
proof (rule hs_tripleI)
  fix d r d' assume P: "conv (e_gp env) a d \<and> waiting m d" and eq: "hs_alloc_blocks env chsz d = (r, d')"
  obtain c d1 where a1: "ave_ipc_alloc (e_gp env) (unat chsz) d = (c, d1)" by fastforce
  note A = alloc_conv [OF conjunct1 [OF P] a1]
  let ?d1 = "d1\<lparr>chanmem := c\<rparr>"
  have w1: "waiting m ?d1" using A P view_waiting [of d1 d] by simp
  have c1: "conv (e_gp env) a ?d1"
    using A P view_waiting [of d1 d] by (intro set_ptr(1)) auto
  obtain p d2 where a2: "ave_ipc_alloc (e_gp env) AVE_BOOT_INFO_SIZE ?d1 = (p, d2)" by fastforce
  note B = alloc_conv [OF c1 a2]
  let ?d2 = "d2\<lparr>ipcinfo := p\<rparr>"
  have w2: "waiting m d2" using B w1 view_waiting [of d2 ?d1] by simp
  have c2: "conv (e_gp env) a ?d2" using B w2 by (intro set_ptr(2)) auto
  have eq': "(r, d') = (case (c, p) of (Some c, Some p) \<Rightarrow> (Ok (c, p), ?d2\<lparr>chanmem_size := chsz\<rparr>)
      | _ \<Rightarrow> (Err ENOMEM, ?d2))"
    using eq a1 a2 by (simp add: hs_alloc_blocks_def Let_def)
  show "r \<noteq> Fault \<and> (\<forall>x. r = Ok x \<longrightarrow> (case x of (c, p) \<Rightarrow> \<lambda>d. conv (e_gp env) a d \<and> blocks_ready m chsz p d) d')
      \<and> (\<forall>e. r = Err e \<longrightarrow> True)"
  proof (cases "c = None \<or> p = None")
    case True
    then show ?thesis using eq' by (auto split: option.splits)
  next
    case False
    then obtain c' p' where cp: "c = Some c'" "p = Some p'" by auto
    have d': "r = Ok (c', p')" "d' = ?d2\<lparr>chanmem_size := chsz\<rparr>" using eq' cp by simp_all
    have "own ?d1 c' (unat chsz)" using A cp by simp
    then have o: "own d2 c' (unat chsz)" using B by blast
    have "chanmem d2 = Some c'" using B cp view_fields(5) [of d2 ?d1] by simp
    then have "block_at chsz d'" using o by (simp add: block_at_def d' own_def pool_of_def)
    moreover have "conv (e_gp env) a d'"
      unfolding d' using c2 w2 by (intro set_ptr(4) [of _ _ _ m]) auto
    ultimately show ?thesis using w2 B cp by (simp add: d' blocks_ready_def)
  qed
qed

text \<open>Filling in the info block.\<close>

lemma poke_ready:
  assumes "conv gp a d \<and> blocks_ready m chsz p d" "k + length bs \<le> AVE_BOOT_INFO_SIZE"
  shows "conv gp a (poke_ipc (p + k) bs d) \<and> blocks_ready m chsz p (poke_ipc (p + k) bs d)"
proof -
  have "length (ipc_mem d) = ipc_size d"
    using conv_ok [of gp a d] assms(1) by (simp add: dev_ok_with_def)
  then have "p + k + length bs \<le> length (ipc_mem d)" using assms by (simp add: blocks_ready_def)
  then show ?thesis
    using assms(1) conv_small(1) by (auto simp: poke_ipc_def blocks_ready_def block_at_def pool_of_def)
qed

lemma info_log_stage:
  "hs_triple (\<lambda>d. conv (e_gp env) a d \<and> blocks_ready m chsz p d) (hs_info_log env a p)
     (\<lambda>_ d. conv (e_gp env) a d \<and> blocks_ready m chsz p d) (\<lambda>_. True)"
proof (rule hs_tripleI)
  fix d r d' assume P: "conv (e_gp env) a d \<and> blocks_ready m chsz p d" and eq: "hs_info_log env a p d = (r, d')"
  obtain l d1 where al: "ave_ipc_alloc (e_gp env) (unat (a_info_log_size a)) d = (l, d1)" by fastforce
  note A = alloc_conv [OF conjunct1 [OF P] al]
  have v: "boot_view d1 = boot_view d" using A by simp
  have w: "waiting m d1" using A P view_waiting [of d1 d] by (simp add: blocks_ready_def)
  have b: "block_at chsz d1"
  proof -
    obtain c where c: "chanmem d = Some c" "chanmem_size d = chsz" "(c, unat chsz) \<in> set (pool_of d)"
      using P by (auto simp: blocks_ready_def block_at_def)
    have "(c, unat chsz) \<in> set (pool_of d1)"
      using c(3) al conv_ok [of "e_gp env" a d] P
      by (auto simp: ave_ipc_alloc_def pool_of_def dev_ok_with_def split: option.splits if_splits)
    then show ?thesis using c by (simp add: block_at_def view_fields [OF v])
  qed
  show "r \<noteq> Fault \<and> (\<forall>x. r = Ok x \<longrightarrow> conv (e_gp env) a d' \<and> blocks_ready m chsz p d') \<and> (\<forall>e. r = Err e \<longrightarrow> True)"
  proof (cases "a_info_log_block a \<and> l \<noteq> None")
    case True
    then obtain l' where l: "l = Some l'" by auto
    let ?d1 = "d1\<lparr>info_log := Some l'\<rparr>"
    have "conv (e_gp env) a ?d1"
      using A w l by (intro set_ptr(3) [of _ _ _ m]) auto
    moreover have "blocks_ready m chsz p ?d1"
      using w b P by (simp add: blocks_ready_def block_at_def pool_of_def view_fields [OF v])
    ultimately have R: "conv (e_gp env) a ?d1 \<and> blocks_ready m chsz p ?d1" ..
    have "d' = poke_ipc (p + AVE_BOOT_INFO_LOG_SIZE) (put_le32 (a_info_log_size a))
                  (poke_ipc (p + AVE_BOOT_INFO_LOG_ADDR) (put_le64 (ave_ipc_cpu_to_fw d1 l')) ?d1)"
      "r = Ok ()"
      using eq True al l by (auto simp: hs_info_log_def)
    then show ?thesis
      using poke_ready [OF poke_ready [OF R]] by (simp add: boot_consts)
  next
    case False
    then show ?thesis using eq P al by (auto simp: hs_info_log_def split: option.splits if_splits)
  qed
qed

lemma info_heap_ready:
  assumes "conv gp a d \<and> blocks_ready m chsz p d"
  shows "conv gp a (hs_info_heap p d) \<and> blocks_ready m chsz p (hs_info_heap p d)"
  using assms poke_ready [OF poke_ready [OF assms]]
  by (auto simp: hs_info_heap_def boot_consts split: option.split)

lemma blocks_stage:
  "hs_triple (\<lambda>d. conv (e_gp env) a d \<and> waiting m d) (hs_blocks env a chsz)
     (\<lambda>_ d. conv (e_gp env) a d \<and> waiting m d \<and> block_at chsz d) (\<lambda>_. True)"
proof -
  have fin: "blocks_ready m chsz p d \<Longrightarrow> waiting m (ave_send_iop_msg x d) \<and> block_at chsz (ave_send_iop_msg x d)"
    for p d x
    using same_view_keeps [OF send_iop_view] by (auto simp: blocks_ready_def)
  show ?thesis
    unfolding hs_blocks_def
    apply (rule hs_bind_triple [OF alloc_blocks_stage])
    apply (rename_tac x, case_tac x)
    apply (rename_tac x c p)
    apply (simp only: prod.case)
    apply (rule_tac R = "\<lambda>_ d. conv (e_gp env) a d \<and> blocks_ready m chsz p d" in hs_bind_triple)
     apply (rule hs_do_triple, rule poke_ready, assumption, simp add: boot_consts)
    apply (rule hs_bind_triple [OF info_log_stage])
    apply (rule_tac R = "\<lambda>_ d. conv (e_gp env) a d \<and> blocks_ready m chsz p d" in hs_bind_triple)
     apply (rule hs_do_triple, rule info_heap_ready, assumption)
    apply (rule_tac R = "\<lambda>_ d. conv (e_gp env) a d \<and> blocks_ready m chsz p d" in hs_bind_triple)
     apply (rule hs_do_triple, rule poke_ready, assumption, simp add: boot_consts)
    apply (rule hs_do_triple)
    apply (auto simp: Let_def send_iop_conv dest: fin)
    done
qed

section \<open>Binding the channels\<close>

lemma index_of_bound: "index_of i ns name = Some k \<Longrightarrow> i \<le> k \<and> k < i + length ns"
  by (induction i ns name rule: index_of.induct) (auto split: if_splits)

lemma name_to_id_bound: "ave_boot_name_to_id a name = Some k \<Longrightarrow> k < AVE_CH_MAX"
  unfolding ave_boot_name_to_id_def by (drule index_of_bound) simp

lemma bound_ring:
  "ave_ch_to_ring
     \<lparr>ch_bound = True, ch_id = k, ch_desc_index = i, ch_dir = dir, ch_doorbell_bit = db, ch_nslots = n,
      ch_type = r_type (snd (ave_ring_init m s n t)), ch_rd = r_rd (snd (ave_ring_init m s n t)),
      ch_wr = r_wr (snd (ave_ring_init m s n t)), ch_nrecv = 0, ch_nsend = 0, ch_ring = s,
      ch_ring_fw = fw\<rparr> = snd (ave_ring_init m s n t)"
  by (simp add: ave_ch_to_ring_def ave_ring_init_def)

text \<open>The block the descriptors and slot arrays are in.\<close>

definition bound_in :: "nat \<Rightarrow> ave_device \<Rightarrow> bool" where
  "bound_in c d \<longleftrightarrow> chanmem d = Some c \<and> chanmem_block d \<in> set (pool_of d)"

lemma bind_channel_conv:
  assumes c: "conv gp a d" and b: "bound_in c d"
    and n: "bd_nslots desc \<noteq> 0" and db: "bd_bit desc < 32"
    and s: "c \<le> s" "s + unat (bd_nslots desc) * AVE_BOOT_SLOT_SIZE \<le> c + unat (chanmem_size d)"
  shows "conv gp a (bind_channel i k desc s d) \<and> bound_in c (bind_channel i k desc s d)
    \<and> boot_view (bind_channel i k desc s d) = boot_view d"
proof -
  note ok = conv_ok [OF c]
  have len: "length (ipc_mem d) = ipc_size d" "ipc_size d < 2 ^ 32" using ok by (simp_all add: dev_ok_with_def)
  have blk: "chanmem_block d = (c, unat (chanmem_size d))" using b by (simp add: bound_in_def chanmem_block_def)
  have inside: "c + unat (chanmem_size d) \<le> ipc_size d"
    using ok b blk by (auto simp: dev_ok_with_def live_ok_def bound_in_def)
  have fit: "s + unat (bd_nslots desc) * AVE_BOOT_SLOT_SIZE \<le> length (ipc_mem d)"
    using s inside len by linarith
  have pos: "0 < bd_nslots desc" using n by (simp add: word_gt_0)
  have small: "unat (bd_nslots desc) < 2 ^ 31" using fit len by (simp add: AVE_BOOT_SLOT_SIZE_def)
  let ?t = "ave_ring_dir_to_type (bd_dir desc)"
  note I = init_ok [OF pos small fit, of "bd_dir desc"]
  let ?m = "fst (ave_ring_init (ipc_mem d) s (bd_nslots desc) ?t)"
  let ?r = "snd (ave_ring_init (ipc_mem d) s (bd_nslots desc) ?t)"
  let ?ch = "\<lparr>ch_bound = True, ch_id = k, ch_desc_index = i, ch_dir = bd_dir desc,
      ch_doorbell_bit = bd_bit desc, ch_nslots = bd_nslots desc, ch_type = r_type ?r,
      ch_rd = r_rd ?r, ch_wr = r_wr ?r, ch_nrecv = 0, ch_nsend = 0, ch_ring = s,
      ch_ring_fw = bd_slots_fw desc\<rparr>"
  have d': "bind_channel i k desc s d = d\<lparr>ipc_mem := ?m, chan := (chan d)[k := ?ch]\<rparr>"
    by (simp add: bind_channel_def case_prod_beta)
  have m: "length ?m = length (ipc_mem d)" using I(2) by (simp add: same_outside_def)
  have "unat (bd_bit desc) < 32" using db by (simp add: word_less_nat_alt)
  then have ch: "chan_ok (ipc_size d) (chanmem_block d) ?ch"
    using I(1) s by (simp add: chan_ok_def bound_ring blk len)
  have "chanmem_block d \<in> set (pool_of d) \<and> chan_ok (ipc_size d) (chanmem_block d) x"
    if "x \<in> set ((chan d)[k := ?ch])" "ch_bound x" for x
    using that ch b ok set_update_subset_insert [of "chan d" k ?ch]
    by (auto simp: bound_in_def dev_ok_with_def chans_ok_def)
  then have "dev_ok_with (d\<lparr>ipc_mem := ?m, chan := (chan d)[k := ?ch]\<rparr>) (pool_of d)"
    using ok m by (simp add: dev_ok_with_def chans_ok_def shm_ok_def)
  then have "conv gp a (bind_channel i k desc s d)"
    unfolding d' using c by (intro convI) (simp_all add: conv_def obs_ok_def)
  moreover have "bound_in c (bind_channel i k desc s d)"
    using b unfolding d' by (simp add: bound_in_def pool_of_def)
  ultimately show ?thesis by (simp add: d')
qed

lemma bind_one_cases:
  assumes "bind_one a c i d = (r, d')"
  shows "(\<exists>e. r = Err e \<and> d' = d) \<or> (r = Fault \<and>
      ((i + 1) * AVE_BOOT_DESC_STRIDE \<le> unat (chanmem_size d)
       \<and> ave_boot_desc_parse (ipc_mem d) (c + i * AVE_BOOT_DESC_STRIDE) = Fault))
    \<or> (r = Ok () \<and> (\<exists>desc k s. d' = bind_channel i k desc s d \<and> k < AVE_CH_MAX
        \<and> bd_nslots desc \<noteq> 0 \<and> bd_bit desc < 32 \<and> c \<le> s
        \<and> s + unat (bd_nslots desc) * AVE_BOOT_SLOT_SIZE \<le> c + unat (chanmem_size d)))"
  using assms
  by (auto simp: bind_one_def Let_def not_le not_less split: if_splits cres.splits option.splits
      dest!: name_to_id_bound)

lemma desc_parse_no_fault:
  "d + AVE_BOOT_DESC_STRIDE \<le> length m \<Longrightarrow> ave_boot_desc_parse m d \<noteq> Fault"
  by (simp add: ave_boot_desc_parse_def rd_bytes_def rd_le32_def rd_le64_def boot_consts)

lemma bind_loop_stage:
  "hs_triple (\<lambda>d. conv gp a d \<and> bound_in c d \<and> boot_view d = v) (bind_loop a c is)
     (\<lambda>_ d. conv gp a d \<and> bound_in c d \<and> boot_view d = v) (\<lambda>_. True)"
proof (induction "is")
  case Nil
  then show ?case by (simp add: hs_triple_def)
next
  case (Cons i "is")
  have "hs_triple (\<lambda>d. conv gp a d \<and> bound_in c d \<and> boot_view d = v) (bind_one a c i)
     (\<lambda>_ d. conv gp a d \<and> bound_in c d \<and> boot_view d = v) (\<lambda>_. True)"
  proof (rule hs_tripleI)
    fix d r d' assume P: "conv gp a d \<and> bound_in c d \<and> boot_view d = v" and eq: "bind_one a c i d = (r, d')"
    have ok: "dev_ok_with d (pool_of d)" using P conv_ok by blast
    have "c + unat (chanmem_size d) \<le> length (ipc_mem d)"
      using ok P by (auto simp: dev_ok_with_def live_ok_def bound_in_def chanmem_block_def)
    then have nf: "ave_boot_desc_parse (ipc_mem d) (c + i * AVE_BOOT_DESC_STRIDE) \<noteq> Fault"
      if "(i + 1) * AVE_BOOT_DESC_STRIDE \<le> unat (chanmem_size d)"
      using that by (intro desc_parse_no_fault) (simp add: algebra_simps)
    show "r \<noteq> Fault \<and> (\<forall>x. r = Ok x \<longrightarrow> conv gp a d' \<and> bound_in c d' \<and> boot_view d' = v)
        \<and> (\<forall>e. r = Err e \<longrightarrow> True)"
      using bind_one_cases [OF eq] nf bind_channel_conv [of gp a d c] P by auto
  qed
  then show ?case using Cons.IH by (auto intro: hs_bind_triple)
qed

lemma channels_stage:
  "hs_triple (\<lambda>d. conv (e_gp env) a d \<and> waiting m d \<and> block_at chsz d) (hs_channels env a nch)
     (\<lambda>_ d. conv (e_gp env) a d \<and> nchannels d = unat nch \<and> client_buf_size d \<le> a_client_buf_max a \<and> msg1 d = m)
     (\<lambda>_. True)"
proof (rule hs_tripleI)
  fix d r d' assume P: "conv (e_gp env) a d \<and> waiting m d \<and> block_at chsz d" and eq: "hs_channels env a nch d = (r, d')"
  obtain r1 d1 where r1: "ave_recv_iop_msg (e_gp env) (e_msg5 env) d = (r1, d1)" by fastforce
  have "boot_phase d \<noteq> AVE_BOOT_ARGS_WRITTEN" using P by (simp add: waiting_def)
  then have R: "r1 \<noteq> Fault" "conv (e_gp env) a d1" "same_view d d1"
    using recv_same [OF _ r1] P by blast+
  have W: "waiting m d1" "block_at chsz d1" using same_view_keeps [OF R(3)] P by blast+
  obtain c where c: "chanmem d1 = Some c" "chanmem_size d1 = chsz" "(c, unat chsz) \<in> set (pool_of d1)"
    using W(2) by (auto simp: block_at_def)
  then have B: "bound_in c d1" by (simp add: bound_in_def chanmem_block_def)
  show "r \<noteq> Fault \<and> (\<forall>x. r = Ok x \<longrightarrow> conv (e_gp env) a d' \<and> nchannels d' = unat nch
      \<and> client_buf_size d' \<le> a_client_buf_max a \<and> msg1 d' = m) \<and> (\<forall>e. r = Err e \<longrightarrow> True)"
  proof (cases r1)
    case (Ok x)
    obtain m0 m1 cbuf m3 where x: "x = (m0, m1, cbuf, m3)" by (cases x)
    obtain r2 d2 where r2: "bind_loop a c [0..<unat nch] d1 = (r2, d2)" by fastforce
    have pre: "conv (e_gp env) a d1 \<and> bound_in c d1 \<and> boot_view d1 = boot_view d1" using R B by simp
    note T = hs_tripleD [OF bind_loop_stage pre r2]
    have eq': "(r, d') = (if ave_ipc_fw_to_cpu d1 (push_bit 32 (ucast m1) OR ucast m0)
          (unat nch * AVE_BOOT_DESC_STRIDE) \<noteq> chanmem d1 then (Err EPROTO, d1)
        else (case r2 of Ok _ \<Rightarrow>
                if cbuf > a_client_buf_max a then (Err EPROTO, d2\<lparr>nchannels := unat nch\<rparr>)
                else (Ok (), d2\<lparr>nchannels := unat nch, client_buf_size := cbuf\<rparr>)
              | Err e \<Rightarrow> (Err e, d2) | Fault \<Rightarrow> (Fault, d2)))"
      using eq r1 Ok x r2 c(1)
      by (auto simp: hs_channels_def hs_bind_def ave_boot_bind_def hs_do_def split: cres.splits if_splits)
    show ?thesis
    proof (cases r2)
      case (Ok y)
      note t = T(2) [OF Ok]
      have "conv (e_gp env) a (d2\<lparr>nchannels := unat nch, client_buf_size := cbuf\<rparr>)"
        using t by (intro conv_small(9) conv_small(8)) auto
      moreover have "msg1 d2 = m" using t W(1) view_fields(8) [of d2 d1] by (simp add: waiting_def)
      ultimately show ?thesis
        using eq' Ok by (auto split: if_splits)
    qed (use eq' T(1) in \<open>auto split: if_splits\<close>)
  qed (use eq r1 R in \<open>auto simp: hs_channels_def hs_bind_def\<close>)
qed

section \<open>The ready flag\<close>

text \<open>Once the rings are live an interrupt runs the channel services, which need the firmware's
  base address to be word-aligned (\<open>alive\<close>); \<open>Receive\<close> masks the two low bits.\<close>

definition live_conv :: "((nat \<times> nat) list \<Rightarrow> nat \<Rightarrow> nat option) \<Rightarrow> ave_device \<Rightarrow> bool" where
  "live_conv gp d \<longleftrightarrow> ipc_up d \<and> (ipc_fw_base d AND 3 = 0 \<longrightarrow> alive gp d)"

lemma alive_frame:
  assumes "alive gp d"
  shows "off + length bs \<le> length (ipc_mem d) \<Longrightarrow> alive gp (d\<lparr>ipc_mem := poke (ipc_mem d) off bs\<rparr>)"
    and "length v = length (scratch d) \<Longrightarrow> alive gp (d\<lparr>scratch := v\<rparr>)"
    and "alive gp (d\<lparr>intr_status := w\<rparr>)" "alive gp (d\<lparr>boot_phase := ph\<rparr>)"
  using assms by (auto simp: alive_def dev_ok_iff dev_ok_with_def chans_ok_def shm_ok_def obs_ok_def)

lemma live_env_step: "live_conv gp d \<Longrightarrow> live_conv gp (env_step gp x d) \<and> boot_view (env_step gp x d) = boot_view d"
  using view_fields [OF view_env(1), of gp x d] alive_frame [of gp d] irq_alive [of gp d]
  by (cases x) (auto simp: live_conv_def env_step_def ave_set_scratch_def)

lemma live_env: "live_conv gp d \<Longrightarrow> live_conv gp (env_run gp as d)"
  unfolding env_run_def by (induction "as" arbitrary: d) (simp_all add: live_env_step)

lemma poll_ready_live:
  "live_conv gp d \<Longrightarrow> poll_ready gp polls d = (r, d') \<Longrightarrow>
     r \<noteq> Fault \<and> live_conv gp d' \<and> boot_view d' = boot_view d"
proof (induction polls arbitrary: d)
  case (Cons acts polls)
  have "live_conv gp (env_run gp acts d)" using live_env [OF Cons.prems(1)] .
  then show ?case using Cons by (fastforce simp: Let_def split: if_splits)
qed auto

lemma ready_stage:
  "hs_triple (\<lambda>d. conv (e_gp env) a d \<and> nchannels d = n \<and> client_buf_size d \<le> cb \<and> msg1 d = m) (hs_ready env)
     (\<lambda>_ d. live_conv (e_gp env) d \<and> boot_phase d = AVE_BOOT_READY \<and> nchannels d = n
        \<and> client_buf_size d \<le> cb \<and> msg1 d = m \<and> boot_abi d = Some a) (\<lambda>_. True)"
proof (rule hs_tripleI)
  fix d r d'
  assume P: "conv (e_gp env) a d \<and> nchannels d = n \<and> client_buf_size d \<le> cb \<and> msg1 d = m"
    and eq: "hs_ready env d = (r, d')"
  let ?d = "ave_set_scratch 3 AVE_BOOT_MAGIC (d\<lparr>ipc_up := True, mbox_pending := False\<rparr>)"
  have "live_conv (e_gp env) ?d"
    using P by (auto simp: live_conv_def alive_def conv_def ave_set_scratch_def dev_ok_iff dev_ok_with_def
        chans_ok_def shm_ok_def obs_ok_def)
  moreover obtain r1 d1 where r1: "poll_ready (e_gp env) (e_ready env) ?d = (r1, d1)" by fastforce
  ultimately have L: "r1 \<noteq> Fault" "live_conv (e_gp env) d1" "boot_view d1 = boot_view ?d"
    using poll_ready_live by blast+
  have "live_conv (e_gp env) (d1\<lparr>boot_phase := AVE_BOOT_READY\<rparr>)"
    using L(2) alive_frame(4) by (auto simp: live_conv_def)
  then show "r \<noteq> Fault \<and> (\<forall>x. r = Ok x \<longrightarrow> live_conv (e_gp env) d' \<and> boot_phase d' = AVE_BOOT_READY \<and> nchannels d' = n
        \<and> client_buf_size d' \<le> cb \<and> msg1 d' = m \<and> boot_abi d' = Some a) \<and> (\<forall>e. r = Err e \<longrightarrow> True)"
    using eq r1 L(1) P view_fields [OF L(3)]
    by (auto simp: hs_ready_def hs_bind_def hs_do_def ave_set_scratch_def conv_def split: cres.splits)
qed

lemma body_stage:
  "hs_triple (\<lambda>d. conv (e_gp env) a d \<and> unbound d \<and> boot_phase d \<in> {AVE_BOOT_ARGS_WRITTEN, AVE_BOOT_MSG1})
     (hs_body env a)
     (\<lambda>_ d. live_conv (e_gp env) d \<and> boot_phase d = AVE_BOOT_READY \<and> boot_abi d = Some a
        \<and> nchannels d = unat (fst (msg1 d)) \<and> client_buf_size d \<le> a_client_buf_max a
        \<and> ave_boot_check_msg1_log env a (msg1 d) = None) (\<lambda>_. True)"
  unfolding hs_body_def
proof (rule hs_bind_triple [OF msg1_stage], rule hs_tripleI)
  fix u d r d'
  assume P: "conv (e_gp env) a d \<and> waiting (msg1 d) d \<and> ave_boot_check_msg1_log env a (msg1 d) = None"
    and eq: "(case msg1 d of (nch, chsz, ver, heap) \<Rightarrow>
         hs_bind (hs_surface env a heap) (\<lambda>_.
         hs_bind (hs_blocks env a chsz) (\<lambda>_.
         hs_bind (hs_channels env a nch) (\<lambda>_.
           hs_ready env))) d) = (r, d')"
  obtain nch chsz ver heap where m: "msg1 d = (nch, chsz, ver, heap)" by (cases "msg1 d")
  have "hs_triple (\<lambda>d. conv (e_gp env) a d \<and> waiting (nch, chsz, ver, heap) d)
      (hs_bind (hs_surface env a heap) (\<lambda>_. hs_bind (hs_blocks env a chsz) (\<lambda>_.
         hs_bind (hs_channels env a nch) (\<lambda>_. hs_ready env))))
      (\<lambda>_ d. live_conv (e_gp env) d \<and> boot_phase d = AVE_BOOT_READY \<and> nchannels d = unat nch
        \<and> client_buf_size d \<le> a_client_buf_max a \<and> msg1 d = (nch, chsz, ver, heap) \<and> boot_abi d = Some a)
      (\<lambda>_. True)"
    by (rule hs_bind_triple [OF surface_stage], rule hs_bind_triple [OF blocks_stage],
        rule hs_bind_triple [OF channels_stage], rule ready_stage)
  from hs_tripleD [OF this, of d r d']
  show "r \<noteq> Fault \<and> (\<forall>x. r = Ok x \<longrightarrow> live_conv (e_gp env) d' \<and> boot_phase d' = AVE_BOOT_READY \<and> boot_abi d' = Some a
        \<and> nchannels d' = unat (fst (msg1 d')) \<and> client_buf_size d' \<le> a_client_buf_max a
        \<and> ave_boot_check_msg1_log env a (msg1 d') = None) \<and> (\<forall>e. r = Err e \<longrightarrow> True)"
    using P eq m by auto
qed

lemma msg1_log_None:
  "ave_boot_check_msg1_log env a (m0, m1, m2, m3) = None \<longleftrightarrow>
     m0 \<noteq> 0 \<and> m0 \<le> a_max_channels a \<and> m1 \<noteq> 0 \<and> (a_abi a = AVE_ABI_MACOS_26_6 \<longrightarrow> 0 < sint m1)
   \<and> m2 = AVE_BOOT_PROTO_VERSION \<and> unat m0 * AVE_BOOT_DESC_STRIDE \<le> unat m1
   \<and> (e_lenient env \<or> m0 = a_msg1_nch a \<and> m1 = a_msg1_chsz a)"
  using msg1_rejects [of a m0 m1 m2 m3] msg1_unexpected [of a m0 m1 m2 m3]
  by (auto simp: ave_boot_check_msg1_log_def Let_def)

end
