(* ===== verification/Ave_Boot_Props.thy ===== *)
theory Ave_Boot_Props
  imports Ave_Handshake_Inv
begin

text \<open>
  The properties of the boot conversation: the outcome and soundness of the handshake for every
  firmware (\<open>handshake_sound\<close>), that a firmware which follows the ABI's channel table gets
  exactly its channels (\<open>expected_channels_bind\<close>), that the log reader stays in its ring, and
  that the interface version is chosen by exact match only.
\<close>

section \<open>Binding the table of the ABI\<close>

definition bound_as :: "nat \<Rightarrow> ave_device \<Rightarrow> ave_boot_chan \<Rightarrow> bool" where
  "bound_as c d e \<longleftrightarrow> (\<exists>ch. ave_chan d (bc_id e) = Some ch \<and> ch_dir ch = bc_dir e
     \<and> ch_doorbell_bit ch = bc_bit e \<and> ch_nslots ch = bc_nslots e
     \<and> ch_ring ch = c + unat (bc_slots_off e) \<and> ch_type ch = ave_ring_dir_to_type (bc_dir e))"

lemma at_cong:
  assumes "at m off bs" "length m' = length m" "\<And>i. off \<le> i \<Longrightarrow> i < off + length bs \<Longrightarrow> m' ! i = m ! i"
  shows "at m' off bs"
proof -
  have fit: "off + length bs \<le> length m" using assms(1) by (rule at_bound)
  have "peek m' off (length bs) = peek m off (length bs)"
    by (rule nth_equalityI) (use fit assms(2,3) in \<open>simp_all add: peek_nth\<close>)
  then show ?thesis using assms(1,2) by (simp add: at_def)
qed

lemma at_same_outside:
  "at m off bs \<Longrightarrow> same_outside base n m m' \<Longrightarrow> off + length bs \<le> base \<Longrightarrow> at m' off bs"
  by (erule at_cong) (auto simp: same_outside_def)

text \<open>The descriptors from the \<open>i\<close>-th on, as the firmware wrote them.\<close>

definition descs_at :: "ave_device \<Rightarrow> nat \<Rightarrow> nat \<Rightarrow> ave_boot_chan list \<Rightarrow> bool" where
  "descs_at d c i es \<longleftrightarrow> (\<forall>j < length es.
     at (ipc_mem d) (c + (i + j) * AVE_BOOT_DESC_STRIDE) (desc_bytes (es ! j) (ave_ipc_cpu_to_fw d c)))"

definition expected_desc :: "ave_device \<Rightarrow> nat \<Rightarrow> ave_boot_chan \<Rightarrow> ave_boot_desc" where
  "expected_desc d c e = \<lparr>bd_name = bc_name e, bd_dir = bc_dir e, bd_bit = bc_bit e,
    bd_nslots = bc_nslots e, bd_slots_fw = ave_ipc_cpu_to_fw d c + ucast (bc_slots_off e)\<rparr>"

lemma chan_entry_fits:
  assumes "chan_entry_ok a e" "i < length (a_chans a)"
  shows "(i + 1) * AVE_BOOT_DESC_STRIDE \<le> unat (bc_slots_off e)"
    "(i + 1) * AVE_BOOT_DESC_STRIDE \<le> unat (a_msg1_chsz a)"
proof -
  have "(i + 1) * AVE_BOOT_DESC_STRIDE \<le> length (a_chans a) * AVE_BOOT_DESC_STRIDE"
    using assms(2) by (intro mult_le_mono1) simp
  then show "(i + 1) * AVE_BOOT_DESC_STRIDE \<le> unat (bc_slots_off e)"
    using assms(1) by (simp add: chan_entry_ok_def)
  then show "(i + 1) * AVE_BOOT_DESC_STRIDE \<le> unat (a_msg1_chsz a)"
    using assms(1) by (simp add: chan_entry_ok_def chan_end_def)
qed

lemma bind_expected_one:
  assumes e: "chan_entry_ok a e" and i: "i < length (a_chans a)"
    and at: "at (ipc_mem d) (c + i * AVE_BOOT_DESC_STRIDE) (desc_bytes e (ave_ipc_cpu_to_fw d c))"
    and size: "chanmem_size d = a_msg1_chsz a" and c: "c + unat (a_msg1_chsz a) \<le> ipc_size d"
    and cpu: "ipc_cpu d" "unat (ipc_fw_base d) + ipc_size d \<le> 2 ^ 64"
  shows "bind_one a c i d
    = (Ok (), bind_channel i (bc_id e) (expected_desc d c e) (c + unat (bc_slots_off e)) d)"
proof -
  have E: "length (bc_name e) < AVE_BOOT_DESC_NAME_LEN" "0 \<notin> set (bc_name e)"
    "ave_boot_name_to_id a (bc_name e) = Some (bc_id e)" "unat (bc_bit e) < 32" "bc_nslots e \<noteq> 0"
    "unat (bc_slots_off e) + unat (bc_nslots e) * AVE_BOOT_SLOT_SIZE \<le> unat (a_msg1_chsz a)"
    using e by (auto simp: chan_entry_ok_def chan_end_def)
  have "0 < unat (bc_nslots e)" using E(5) by (simp add: unat_gt_0)
  then have "0 < unat (bc_nslots e) * AVE_BOOT_SLOT_SIZE" by (simp add: AVE_BOOT_SLOT_SIZE_def)
  then have "ave_ipc_fw_to_cpu d (ave_ipc_cpu_to_fw d (c + unat (bc_slots_off e)))
      (unat (bc_nslots e) * AVE_BOOT_SLOT_SIZE) = Some (c + unat (bc_slots_off e))"
    using E(6) c by (intro cpu_to_fw_back [OF cpu(1) _ _ cpu(2)]) linarith+
  moreover have "ave_ipc_cpu_to_fw d (c + unat (bc_slots_off e)) = ave_ipc_cpu_to_fw d c + ucast (bc_slots_off e)"
    by (simp add: ave_ipc_cpu_to_fw_def)
  ultimately have fw: "ave_ipc_fw_to_cpu d (ave_ipc_cpu_to_fw d c + ucast (bc_slots_off e))
      (unat (bc_nslots e) * AVE_BOOT_SLOT_SIZE) = Some (c + unat (bc_slots_off e))" by simp
  have p: "ave_boot_desc_parse (ipc_mem d) (c + i * AVE_BOOT_DESC_STRIDE) = Ok (expected_desc d c e)"
    using desc_parse_at [OF at E(1,2)] by (simp add: expected_desc_def)
  have "\<not> 32 \<le> bc_bit e" using E(4) by (simp add: word_le_nat_alt)
  then show ?thesis
    using chan_entry_fits(2) [OF e i] E size fw
    by (simp add: bind_one_def p) (simp add: expected_desc_def)
qed

lemma bind_channel_effect:
  assumes "desc = expected_desc d c e" "s = c + unat (bc_slots_off e)" "bc_id e < length (chan d)"
    and "s + unat (bc_nslots e) * AVE_BOOT_SLOT_SIZE \<le> length (ipc_mem d)"
  shows "bound_as c (bind_channel i (bc_id e) desc s d) e"
    "bc_id e' \<noteq> bc_id e \<Longrightarrow> bound_as c (bind_channel i (bc_id e) desc s d) e' = bound_as c d e'"
    "same_outside s (unat (bc_nslots e)) (ipc_mem d) (ipc_mem (bind_channel i (bc_id e) desc s d))"
    "length (chan (bind_channel i (bc_id e) desc s d)) = length (chan d)"
    "ipc_cpu (bind_channel i (bc_id e) desc s d) = ipc_cpu d"
    "boot_view (bind_channel i (bc_id e) desc s d) = boot_view d"
proof -
  show "bound_as c (bind_channel i (bc_id e) desc s d) e"
    using assms(1-3) by (simp add: bound_as_def bind_channel_def case_prod_beta ave_chan_def
        expected_desc_def init_fields)
  show "bc_id e' \<noteq> bc_id e \<Longrightarrow> bound_as c (bind_channel i (bc_id e) desc s d) e' = bound_as c d e'"
    by (simp add: bound_as_def bind_channel_def case_prod_beta ave_chan_def)
  show "same_outside s (unat (bc_nslots e)) (ipc_mem d) (ipc_mem (bind_channel i (bc_id e) desc s d))"
    using assms(1,4) init_outside [of s "unat (bc_nslots e)" "ipc_mem d"]
    by (simp add: bind_channel_def case_prod_beta expected_desc_def ave_ring_init_def
        ave_ring_dir_to_type_def)
qed (simp_all add: bind_channel_def case_prod_beta)

lemma descs_at_Cons:
  "descs_at d c i (e # es) \<longleftrightarrow>
     at (ipc_mem d) (c + i * AVE_BOOT_DESC_STRIDE) (desc_bytes e (ave_ipc_cpu_to_fw d c))
   \<and> descs_at d c (Suc i) es"
proof -
  have "(\<forall>j < Suc n. P j) \<longleftrightarrow> P 0 \<and> (\<forall>j < n. P (Suc j))" for P :: "nat \<Rightarrow> bool" and n
    using less_Suc_eq_0_disj by auto
  then show ?thesis by (simp add: descs_at_def)
qed

lemma bind_loop_expected:
  assumes "list_all (chan_entry_ok a) es" "i + length es = length (a_chans a)" "distinct (map bc_id es)"
    and "descs_at d c i es" "chanmem_size d = a_msg1_chsz a" "c + unat (a_msg1_chsz a) \<le> ipc_size d"
    and "ipc_cpu d" "unat (ipc_fw_base d) + ipc_size d \<le> 2 ^ 64"
    and "length (ipc_mem d) = ipc_size d" "length (chan d) = AVE_CH_MAX"
  shows "\<exists>d'. bind_loop a c [i..<i + length es] d = (Ok (), d') \<and> (\<forall>e\<in>set es. bound_as c d' e)
    \<and> (\<forall>e'. bc_id e' \<notin> bc_id ` set es \<longrightarrow> bound_as c d' e' = bound_as c d e') \<and> boot_view d' = boot_view d"
  using assms
proof (induction es arbitrary: i d)
  case Nil
  then show ?case by simp
next
  case (Cons e es)
  let ?s = "c + unat (bc_slots_off e)" and ?D = "expected_desc d c e"
  let ?d = "bind_channel i (bc_id e) ?D ?s d"
  have eok: "chan_entry_ok a e" and i: "i < length (a_chans a)" using Cons.prems(1,2) by auto
  have hd: "at (ipc_mem d) (c + i * AVE_BOOT_DESC_STRIDE) (desc_bytes e (ave_ipc_cpu_to_fw d c))"
    and tl: "descs_at d c (Suc i) es"
    using Cons.prems(4) descs_at_Cons by auto
  note one = bind_expected_one [OF eok i hd Cons.prems(5-8)]
  have idb: "bc_id e < length (chan d)"
    using eok Cons.prems(10) name_to_id_bound [of a "bc_name e" "bc_id e"] by (simp add: chan_entry_ok_def)
  have fit: "?s + unat (bc_nslots e) * AVE_BOOT_SLOT_SIZE \<le> length (ipc_mem d)"
    using eok Cons.prems(6,9) by (simp add: chan_entry_ok_def chan_end_def)
  note B = bind_channel_effect [OF refl refl idb fit]
  note v = view_fields [OF B(6)]
  have base: "ave_ipc_cpu_to_fw ?d c = ave_ipc_cpu_to_fw d c" by (simp add: ave_ipc_cpu_to_fw_def v)
  have tl': "descs_at ?d c (Suc i) es"
    unfolding descs_at_def base
  proof (intro allI impI)
    fix j assume j: "j < length es"
    then have ij: "Suc i + j < length (a_chans a)" using Cons.prems(2) by simp
    have "length (bc_name (es ! j)) < AVE_BOOT_DESC_NAME_LEN"
      using Cons.prems(1) j by (auto simp: list_all_length chan_entry_ok_def)
    then have "c + (Suc i + j) * AVE_BOOT_DESC_STRIDE + length (desc_bytes (es ! j) (ave_ipc_cpu_to_fw d c)) \<le> ?s"
      using chan_entry_fits(1) [OF eok ij] by simp
    then show "at (ipc_mem ?d) (c + (Suc i + j) * AVE_BOOT_DESC_STRIDE)
        (desc_bytes (es ! j) (ave_ipc_cpu_to_fw d c))"
      using tl j at_same_outside [OF _ B(3)] by (simp add: descs_at_def)
  qed
  have "\<exists>d'. bind_loop a c [Suc i..<Suc i + length es] ?d = (Ok (), d') \<and> (\<forall>e\<in>set es. bound_as c d' e)
    \<and> (\<forall>e'. bc_id e' \<notin> bc_id ` set es \<longrightarrow> bound_as c d' e' = bound_as c ?d e') \<and> boot_view d' = boot_view ?d"
    using Cons.prems tl' B(3-5) v by (intro Cons.IH) (auto simp: same_outside_def)
  then obtain d' where d': "bind_loop a c [Suc i..<Suc i + length es] ?d = (Ok (), d')"
    "\<forall>e\<in>set es. bound_as c d' e" "\<forall>e'. bc_id e' \<notin> bc_id ` set es \<longrightarrow> bound_as c d' e' = bound_as c ?d e'"
    "boot_view d' = boot_view ?d" by blast
  have "bind_loop a c [i..<i + length (e # es)] d = (Ok (), d')"
  proof -
    have "[i..<i + length (e # es)] = i # [Suc i..<Suc i + length es]"
      by (simp add: upt_conv_Cons del: upt_Suc)
    then show ?thesis using one d'(1) by (simp add: hs_bind_def del: upt_Suc)
  qed
  moreover have "bound_as c d' e" using d'(3) B(1) Cons.prems(3) by auto
  ultimately show ?case
    using d' B(2,6) by (intro exI [of _ d']) auto
qed

lemma chans_apart_head: "chans_apart (c # cs) \<Longrightarrow> d \<in> set cs \<Longrightarrow> chan_end c \<le> unat (bc_slots_off d)"
proof (induction cs arbitrary: c)
  case (Cons e es)
  then have "chan_end c \<le> unat (bc_slots_off e)" "d = e \<or> chan_end e \<le> unat (bc_slots_off d)" by auto
  then show ?case by (auto simp: chan_end_def)
qed simp

lemma chans_apart_pairs:
  "chans_apart cs \<Longrightarrow> c \<in> set cs \<Longrightarrow> d \<in> set cs \<Longrightarrow> c \<noteq> d \<Longrightarrow>
     chan_end c \<le> unat (bc_slots_off d) \<or> chan_end d \<le> unat (bc_slots_off c)"
proof (induction cs)
  case (Cons e es)
  have "chans_apart es" using Cons.prems(1) by (cases es) auto
  then show ?case using Cons chans_apart_head [of e es] by auto
qed simp

section \<open>From probe to the boot arguments\<close>

lemma init_conv:
  assumes "ave_ipc_init ie (fresh_device soc abi) = (None, d)" "gen_pool_ok gp (ipc_size d)"
  obtains a where "ave_boot_abi_get abi = Some a" "conv gp a d" "unbound d"
proof -
  obtain a iova where a: "ave_boot_abi_get abi = Some a"
    and d: "d = (fresh_device soc abi)\<lparr>ipc_irq := True, ipc_size := unat (a_fwipc_size a), ipc_cpu := True,
        ipc_iova := iova, ipc_mem := replicate (unat (a_fwipc_size a)) 0, ipc_pool := Some [],
        boot_abi := Some a\<rparr>"
    using assms(1) by (auto simp: ave_ipc_init_def fresh_device_def Let_def split: option.splits if_splits)
  have "unat (a_fwipc_size a) < 2 ^ 32" using unat_u32_bound by simp
  then have "dev_ok_with d []"
    by (auto simp: d dev_ok_with_def fresh_device_def live_ok_def fixed_ptrs_def chans_ok_def shm_ok_def
        tab_in_def tab_apart_def AVE_CH_MAX_def)
  then have "conv gp a d"
    using assms(2) by (intro convI) (auto simp: d fresh_device_def obs_ok_def)
  moreover have "unbound d" by (simp add: d unbound_def fresh_device_def)
  ultimately show ?thesis using that a by blast
qed

lemma fwlog_conv:
  "hs_triple (\<lambda>d. conv gp a d \<and> unbound d) (ave_boot_fwlog_alloc env) (\<lambda>_ d. conv gp a d \<and> unbound d) (\<lambda>_. True)"
  by (rule hs_tripleI)
    (auto simp: ave_boot_fwlog_alloc_def unbound_def conv_def dev_ok_iff dev_ok_with_def chans_ok_def
      shm_ok_def obs_ok_def chanmem_block_def fixed_ptrs_def split: option.splits prod.splits)

lemma set_fwcfg:
  assumes "conv gp a d" "unbound d" "own d p k"
  shows "conv gp a (d\<lparr>fwcfg := Some p, fwcfg_size := n\<rparr>)"
  using assms by (auto simp: fixed_ptrs_def intro!: conv_ptrs [of gp a d])

lemma length_fw_cfg [simp]: "length (ave_boot_fw_cfg a s ad n) = AVE_BOOT_FW_CFG_SIZE"
  by (simp add: ave_boot_fw_cfg_def AVE_BOOT_FW_CFG_SIZE_def)

lemma boot_args_conv:
  assumes "conv gp a d" "unbound d"
  shows "conv gp a (boot_args s1 s2 d)" "unbound (boot_args s1 s2 d)"
    "boot_phase (boot_args s1 s2 d) = AVE_BOOT_ARGS_WRITTEN"
proof -
  have "conv gp a (d\<lparr>mbox_pending := False, ipc_up := False, boot_phase := AVE_BOOT_ARGS_WRITTEN\<rparr>)"
    by (rule conv_frame [OF assms(1)]) (use assms(1) in \<open>simp_all add: conv_def\<close>)
  then show "conv gp a (boot_args s1 s2 d)"
    by (auto simp: boot_args_def ave_set_scratch_def intro!: conv_small)
qed (use assms(2) in \<open>simp_all add: boot_args_def ave_set_scratch_def unbound_def\<close>)

lemma fw_cfg_conv:
  assumes "conv (e_gp env) a d" "unbound d" "boot_fw_cfg env a d = (Ok iova, d')"
    and "fwcfg d = None"
  shows "conv (e_gp env) a d' \<and> unbound d'"
proof -
  obtain r1 d1 where f: "ave_boot_fwlog_alloc env d = (r1, d1)" by fastforce
  have r1: "r1 = Ok ()" using assms(3) f by (cases r1) (auto simp: boot_fw_cfg_def hs_bind_def)
  have c1: "conv (e_gp env) a d1" "unbound d1"
    using hs_tripleD(2) [OF fwlog_conv conjI [OF assms(1,2)] f r1] by simp_all
  have n1: "fwcfg d1 = None"
    using f assms(4) by (auto simp: ave_boot_fwlog_alloc_def split: option.splits)
  obtain q d2 where al: "ave_ipc_alloc (e_gp env) AVE_BOOT_FW_CFG_SIZE d1 = (q, d2)" by fastforce
  note A = alloc_conv [OF c1(1) al]
  obtain p where p: "q = Some p" using assms(3) f r1 n1 al
    by (cases q) (auto simp: boot_fw_cfg_def hs_bind_def Let_def)
  let ?d2 = "d2\<lparr>fwcfg := Some p, fwcfg_size := AVE_BOOT_FW_CFG_SIZE\<rparr>"
  have u2: "unbound d2" using A c1(2) by (simp add: unbound_def)
  have c2: "conv (e_gp env) a ?d2" using A p u2 by (intro set_fwcfg) auto
  have "length (ipc_mem d2) = ipc_size d2"
    using A conv_ok by (auto simp: dev_ok_with_def)
  then have fit: "p + AVE_BOOT_FW_CFG_SIZE \<le> length (ipc_mem ?d2)" using A p by simp
  have "d' = ?d2\<lparr>ipc_mem := poke (ipc_mem ?d2) p (ave_boot_fw_cfg a (soc_devs ?d2 (a_abi a))
        (case fwlog ?d2 of Some (_, iova) \<Rightarrow> iova | None \<Rightarrow> 0) (of_nat AVE_BOOT_FWLOG_SIZE))\<rparr>"
    using assms(3) f r1 n1 al p by (auto simp: boot_fw_cfg_def hs_bind_def Let_def)
  then show ?thesis
    using conv_small(1) [OF c2, of p] fit u2 by (simp add: unbound_def)
qed

lemma config_conv:
  assumes c: "conv (e_gp env) a d" "unbound d" and n: "fwcfg d = None"
    and eq: "ave_boot_config env d = (Ok (), d')"
  shows "conv (e_gp env) a d' \<and> unbound d' \<and> boot_phase d' = AVE_BOOT_ARGS_WRITTEN"
proof -
  have ba: "boot_abi d = Some a" using c by (simp add: conv_def)
  show ?thesis
  proof (cases "a_cfg_block a")
    case True
    obtain r1 d1 where f: "boot_fw_cfg env a d = (r1, d1)" by fastforce
    obtain iova where r1: "r1 = Ok iova"
      using eq ba True f by (cases r1) (auto simp: ave_boot_config_def hs_bind_def split: if_splits)
    have "d' = boot_args (lower_32_bits iova) (upper_32_bits iova) d1"
      using eq ba True f r1 by (auto simp: ave_boot_config_def hs_bind_def hs_do_def split: if_splits)
    then show ?thesis using boot_args_conv fw_cfg_conv [OF c f [unfolded r1] n] by blast
  next
    case False
    then have "d' = boot_args (a_instance a) (dev_id (soc_devs d (a_abi a))) d"
      using eq ba by (auto simp: ave_boot_config_def hs_do_def split: if_splits)
    then show ?thesis using boot_args_conv c by blast
  qed
qed

section \<open>Properties\<close>

text \<open>C19. A firmware that writes the descriptors its ABI's table lists gets exactly that table
  bound: binding succeeds, every channel has the direction, doorbell bit and slot count of its
  entry and its ring at the entry's offset in the channel block, and no two channels share a
  byte of it.\<close>

theorem expected_channels_bind:
  assumes "ave_boot_abi_get x = Some a" "dev_ok d" "chanmem d = Some c" "chanmem_size d = a_msg1_chsz a"
    and "c + unat (a_msg1_chsz a) \<le> ipc_size d" "unat (ipc_fw_base d) + ipc_size d \<le> 2 ^ 64"
    and "descs_at d c 0 (a_chans a)"
  shows "\<exists>d'. ave_boot_bind a (unat (a_msg1_nch a)) d = (Ok (), d') \<and> nchannels d' = unat (a_msg1_nch a)
    \<and> (\<forall>e\<in>set (a_chans a). bound_as c d' e)
    \<and> (\<forall>e\<in>set (a_chans a). \<forall>e'\<in>set (a_chans a). e \<noteq> e' \<longrightarrow>
         chan_end e \<le> unat (bc_slots_off e') \<or> chan_end e' \<le> unat (bc_slots_off e))"
proof -
  have T: "table_ok a" using table_ok_get [OF assms(1)] .
  have len: "length (a_chans a) = unat (a_msg1_nch a)" using T by (simp add: table_ok_def)
  have ok: "ipc_cpu d" "length (ipc_mem d) = ipc_size d" "length (chan d) = AVE_CH_MAX"
    using assms(2) by (auto simp: dev_ok_iff dev_ok_with_def chans_ok_def)
  obtain d' where d': "bind_loop a c [0..<0 + length (a_chans a)] d = (Ok (), d')"
    "\<forall>e\<in>set (a_chans a). bound_as c d' e"
    using bind_loop_expected [of a "a_chans a" 0 d c] T assms ok by (auto simp: table_ok_def)
  let ?d = "d'\<lparr>nchannels := unat (a_msg1_nch a)\<rparr>"
  have "ave_boot_bind a (unat (a_msg1_nch a)) d = (Ok (), ?d)"
    using d'(1) assms(3) len by (simp add: ave_boot_bind_def hs_bind_def hs_do_def)
  moreover have "bound_as c ?d e = bound_as c d' e" for e
    by (simp add: bound_as_def ave_chan_def)
  moreover have "chan_end e \<le> unat (bc_slots_off e') \<or> chan_end e' \<le> unat (bc_slots_off e)"
    if "e \<in> set (a_chans a)" "e' \<in> set (a_chans a)" "e \<noteq> e'" for e e'
    using chans_apart_pairs [OF _ that] T by (simp add: table_ok_def)
  ultimately show ?thesis using d'(2) by (intro exI [of _ ?d]) simp
qed

text \<open>A 26.6.2 device whose firmware has written the two descriptors of its table.\<close>

definition described_device :: ave_device where
  "described_device =
     (fresh_device (\<lambda>_. \<lparr>dev_id = 14, dev_type = 1\<rparr>) AVE_ABI_MACOS_26_6)
       \<lparr>boot_abi := Some abi_26_6, ipc_cpu := True, ipc_size := 0x1f280, ipc_fw_base := 0x10000,
        ipc_mem := concat (map (\<lambda>e. desc_bytes e 0x10000) chans_26_6) @ replicate 0x1f080 0,
        ipc_pool := Some [(0, 0x1f280)], chanmem := Some 0, chanmem_size := 0x1f280\<rparr>"

lemma described_ok: "dev_ok described_device"
proof -
  have "length (desc_bytes e b) = 0x100" if "e \<in> set chans_26_6" for e b
    using that length_desc_bytes [of e b]
    by (auto simp: chans_26_6_def boot_chan_def cstr_def boot_consts)
  then have "dev_ok_with described_device [(0, 0x1f280)]"
    by (auto simp: described_device_def dev_ok_with_def chans_ok_def shm_ok_def tab_in_def tab_apart_def
        fresh_device_def live_ok_def fixed_ptrs_def chanmem_block_def AVE_CH_MAX_def AVE_SHMALLOC_MAX_def
        chans_26_6_def)
  then show ?thesis by (auto simp: dev_ok_iff)
qed

lemma at_head: "at (bs @ ys) 0 bs" and at_second: "at (xs @ bs @ ys) (length xs) bs"
  by (simp_all add: at_def peek_def)

lemma described_descs: "descs_at described_device 0 0 (a_chans abi_26_6)"
proof -
  let ?b0 = "desc_bytes (chans_26_6 ! 0) 0x10000" and ?b1 = "desc_bytes (chans_26_6 ! 1) 0x10000"
  let ?z = "replicate 0x1f080 (0 :: u8)"
  have mem: "ipc_mem described_device = ?b0 @ ?b1 @ ?z"
    by (simp add: described_device_def chans_26_6_def)
  have base: "ave_ipc_cpu_to_fw described_device 0 = 0x10000"
    by (simp add: described_device_def ave_ipc_cpu_to_fw_def)
  have "length ?b0 = AVE_BOOT_DESC_STRIDE"
    by (intro length_desc_bytes) (simp add: chans_26_6_def boot_chan_def cstr_def boot_consts)
  then have "at (?b0 @ ?b1 @ ?z) AVE_BOOT_DESC_STRIDE ?b1"
    using at_second [of ?b0 ?b1 ?z] by simp
  moreover have "at (?b0 @ ?b1 @ ?z) 0 ?b0" by (rule at_head)
  moreover have "(\<forall>j < (2 :: nat). P j) \<longleftrightarrow> P 0 \<and> P 1" for P :: "nat \<Rightarrow> bool"
    by (auto simp: numeral_2_eq_2 less_Suc_eq)
  moreover have "length (a_chans abi_26_6) = 2" "a_chans abi_26_6 = chans_26_6"
    by (simp_all add: abi_26_6_def chans_26_6_def)
  ultimately show ?thesis by (simp add: descs_at_def mem base)
qed

theorem expected_channels_bind_witness:
  "\<exists>d'. ave_boot_bind abi_26_6 2 described_device = (Ok (), d') \<and> nchannels d' = 2
    \<and> (\<forall>e\<in>set chans_26_6. bound_as 0 d' e)"
proof -
  have s: "chanmem described_device = Some 0" "chanmem_size described_device = a_msg1_chsz abi_26_6"
    "0 + unat (a_msg1_chsz abi_26_6) \<le> ipc_size described_device"
    "unat (ipc_fw_base described_device) + ipc_size described_device \<le> 2 ^ 64"
    "unat (a_msg1_nch abi_26_6) = 2" "a_chans abi_26_6 = chans_26_6"
    by (simp_all add: described_device_def abi_26_6_def)
  show ?thesis
    using expected_channels_bind [OF _ described_ok s(1-4) described_descs, of AVE_ABI_MACOS_26_6]
    unfolding s(5,6) by (auto simp: ave_boot_abi_get_def)
qed

text \<open>What a completed handshake must have been told: a message 1 that Apple's host would accept
  too, that leaves room for the descriptors, and that (unless \<open>boot_lenient\<close>) is the ABI's.\<close>

definition msg1_accepted :: "bool \<Rightarrow> ave_boot_abi \<Rightarrow> mbox_msg \<Rightarrow> bool" where
  "msg1_accepted lenient a m \<longleftrightarrow> (case m of (nch, chsz, ver, heap) \<Rightarrow>
     nch \<noteq> 0 \<and> nch \<le> a_max_channels a \<and> chsz \<noteq> 0 \<and> (a_abi a = AVE_ABI_MACOS_26_6 \<longrightarrow> 0 < sint chsz)
   \<and> ver = AVE_BOOT_PROTO_VERSION \<and> unat nch * AVE_BOOT_DESC_STRIDE \<le> unat chsz
   \<and> (lenient \<or> nch = a_msg1_nch a \<and> chsz = a_msg1_chsz a))"

lemma handshake_from:
  assumes c: "conv (e_gp env) a d" "unbound d"
    and ph: "boot_phase d \<in> {AVE_BOOT_ARGS_WRITTEN, AVE_BOOT_MSG1}"
    and eq: "ave_ipc_handshake env d = (r, d')"
  shows "r \<noteq> Fault \<and> (\<forall>e. r = Err e \<longrightarrow> boot_phase d' = AVE_BOOT_FAILED \<and> \<not> ipc_up d')
    \<and> (r = Ok () \<longrightarrow> live_conv (e_gp env) d' \<and> boot_phase d' = AVE_BOOT_READY
        \<and> nchannels d' = unat (fst (msg1 d')) \<and> client_buf_size d' \<le> a_client_buf_max a
        \<and> msg1_accepted (e_lenient env) a (msg1 d'))"
proof -
  have ba: "boot_abi d = Some a" "ipc_pool d \<noteq> None"
    using c(1) by (auto simp: conv_def dev_ok_iff dev_ok_with_def)
  obtain r1 d1 where b: "hs_body env a d = (r1, d1)" by fastforce
  note T = hs_tripleD [OF body_stage, of env a d r1 d1]
  have pre: "conv (e_gp env) a d \<and> unbound d \<and> boot_phase d \<in> {AVE_BOOT_ARGS_WRITTEN, AVE_BOOT_MSG1}"
    using assms by simp
  have eq': "(r, d') = (case (r1, d1) of (Ok _, d') \<Rightarrow> (Ok (), d')
      | (r, d') \<Rightarrow> (r, d'\<lparr>ipc_up := False, boot_phase := AVE_BOOT_FAILED\<rparr>))"
    using eq ba ph b by (auto simp: ave_ipc_handshake_def)
  have acc: "ave_boot_check_msg1_log env a m = None \<Longrightarrow> msg1_accepted (e_lenient env) a m" for m
    by (cases m) (simp add: msg1_log_None msg1_accepted_def)
  show ?thesis
    using eq' T [OF pre b] acc by (cases r1) auto
qed

text \<open>C16. Booting a freshly probed device (pool set up, boot arguments written, conversation held) never
  reads outside FwIPC and always ends in one of two states, whatever the firmware sends, writes or
  leaves unsent: an error with phase FAILED and the rings not live, or success with phase READY
  and the rings live, where message 1 was one the host accepts, as many descriptors were bound
  as it announced and the client buffer is within its limit. If the base address the firmware
  names in message 3 is a multiple of 4 (the code does not check it, and an odd base would turn the
  phase bit of every slot), the device then satisfies the invariant under which every interrupt
  ends and stays in bounds.\<close>

theorem handshake_sound:
  assumes "ave_ipc_init ie (fresh_device soc abi) = (None, d1)" "gen_pool_ok (e_gp env) (ipc_size d1)"
    and "ave_boot_config env d1 = (Ok (), d2)" "ave_ipc_handshake env d2 = (r, d3)"
    and "ave_boot_abi_get abi = Some a"
  shows "r \<noteq> Fault \<and> (\<forall>e. r = Err e \<longrightarrow> boot_phase d3 = AVE_BOOT_FAILED \<and> \<not> ipc_up d3)
    \<and> (r = Ok () \<longrightarrow> boot_phase d3 = AVE_BOOT_READY \<and> ipc_up d3
        \<and> msg1_accepted (e_lenient env) a (msg1 d3) \<and> nchannels d3 = unat (fst (msg1 d3))
        \<and> client_buf_size d3 \<le> a_client_buf_max a
        \<and> (ipc_fw_base d3 AND 3 = 0 \<longrightarrow> dev_ok d3 \<and> obs_ok d3 \<and> \<not> hung d3))"
proof -
  obtain a' where a': "ave_boot_abi_get abi = Some a'" "conv (e_gp env) a' d1" "unbound d1"
    using init_conv [OF assms(1,2)] .
  have a: "a' = a" using a'(1) assms(5) by simp
  have "fwcfg d1 = None"
    using assms(1) by (auto simp: ave_ipc_init_def fresh_device_def Let_def split: option.splits if_splits)
  then have c: "conv (e_gp env) a d2" "unbound d2" "boot_phase d2 = AVE_BOOT_ARGS_WRITTEN"
    using config_conv [OF a'(2,3) _ assms(3)] a by simp_all
  show ?thesis
    using handshake_from [OF c(1,2) _ assms(4)] c(3) by (auto simp: live_conv_def alive_def)
qed

text \<open>A firmware that stays silent for as long as the host polls.\<close>

definition silent_env :: boot_env where
  "silent_env =
     \<lparr>e_gp = bump_pool 0x700000, e_lenient = False, e_page = 0x4000, e_fwlog = None, e_heap = None,
      e_asc_timer = 0, e_arch_counter = 0, e_msg1 = [[FwReg 0 7], [IrqRun]], e_msg3 = [], e_msg5 = [],
      e_ready = []\<rparr>"

definition booted_device :: "(ave_fw_abi \<Rightarrow> soc_dev) \<Rightarrow> ave_device" where
  "booted_device soc =
     snd (ave_ipc_init \<lparr>i_dma = Some 0x8000, i_pool_create = True, i_pool_add = None\<rparr>
       (fresh_device soc AVE_ABI_MACOS_13_5))"

lemma booted_fields:
  "ave_ipc_init \<lparr>i_dma = Some 0x8000, i_pool_create = True, i_pool_add = None\<rparr>
     (fresh_device soc AVE_ABI_MACOS_13_5) = (None, booted_device soc)"
  "ipc_size (booted_device soc) = 0x700000" "boot_abi (booted_device soc) = Some abi_13_5"
  "ipc_cpu (booted_device soc)" "ipc_pool (booted_device soc) = Some []"
  "intr_status (booted_device soc) = 0" "scratch (booted_device soc) = replicate 8 0"
  "soc_devs (booted_device soc) = soc"
  by (simp_all add: booted_device_def ave_ipc_init_def fresh_device_def ave_boot_abi_get_def
      abi_13_5_def AVE_BOOT_ALIGN_16K_def)

lemma silent_firmware_fails:
  "\<exists>d2 d3. ave_boot_config silent_env (booted_device (\<lambda>_. \<lparr>dev_id = 14, dev_type = 1\<rparr>)) = (Ok (), d2)
     \<and> ave_ipc_handshake silent_env d2 = (Err ETIMEDOUT, d3) \<and> boot_phase d3 = AVE_BOOT_FAILED \<and> \<not> ipc_up d3"
proof -
  let ?d = "booted_device (\<lambda>_. \<lparr>dev_id = 14, dev_type = 1\<rparr>)"
  note f = booted_fields [of "\<lambda>_. \<lparr>dev_id = 14, dev_type = 1\<rparr>"]
  obtain d2 where d2: "d2 = boot_args 0 14 ?d" by simp
  have c: "ave_boot_config silent_env ?d = (Ok (), d2)"
    using f by (simp add: ave_boot_config_def hs_do_def d2 abi_13_5_def)
  have g: "boot_abi d2 = Some abi_13_5" "ipc_pool d2 = Some []" "boot_phase d2 = AVE_BOOT_ARGS_WRITTEN"
    "intr_status d2 = 0" "mbox_pending d2 = False"
    using f by (simp_all add: d2 boot_args_def ave_set_scratch_def)
  obtain d3 where h: "ave_ipc_handshake silent_env d2 = (Err ETIMEDOUT, d3)"
    using g
    by (simp add: ave_ipc_handshake_def hs_body_def hs_msg1_def hs_bind_def ave_recv_iop_msg_def
        silent_env_def env_run_def env_step_def recv_poll_def ave_set_scratch_def ave_irq_handler_def Let_def)
  have "boot_phase d3 = AVE_BOOT_FAILED \<and> \<not> ipc_up d3"
    using h g by (auto simp: ave_ipc_handshake_def split: prod.splits cres.splits)
  then show ?thesis using c h by blast
qed

lemma booted_rest:
  "length (ipc_mem (booted_device soc)) = 0x700000" "fwheap (booted_device soc) = None"
  "length (chan (booted_device soc)) = AVE_CH_MAX"
  by (simp_all add: booted_device_def ave_ipc_init_def fresh_device_def ave_boot_abi_get_def
      abi_13_5_def AVE_BOOT_ALIGN_16K_def)

text \<open>A firmware of macOS 13.5 that holds the conversation: message 1 with the numbers of the interface,
  message 3 with its view of FwIPC at \<open>0x10000\<close>, the seven descriptors written into the channel block
  and message 5, and the ready flag cleared.\<close>

definition fw_msg :: "u32 \<Rightarrow> u32 \<Rightarrow> u32 \<Rightarrow> u32 \<Rightarrow> env_act list" where
  "fw_msg m0 m1 m2 m3 = [FwReg 0 m0, FwReg 1 m1, FwReg 2 m2, FwReg 3 m3, FwIntr (push_bit AVE_BOOT_MBOX_BIT 1)]"

definition fw_descs :: "u8 list" where
  "fw_descs = concat (map (\<lambda>e. desc_bytes e 0x10000) chans_13_5)"

definition ready_env :: boot_env where
  "ready_env =
     \<lparr>e_gp = bump_pool 0x700000, e_lenient = False, e_page = 0x4000, e_fwlog = None, e_heap = None,
      e_asc_timer = 0, e_arch_counter = 0,
      e_msg1 = [[], fw_msg 7 0x9bc0 AVE_BOOT_PROTO_VERSION 0], e_msg3 = [fw_msg 0x10000 0 0 0],
      e_msg5 = [FwMem 0 fw_descs # fw_msg 0x10000 0 0xb4000 0], e_ready = [[], [FwReg 3 0]]\<rparr>"

definition calm :: "ave_device \<Rightarrow> bool" where
  "calm d \<longleftrightarrow> boot_abi d = Some abi_13_5 \<and> ipc_cpu d \<and> ipc_size d = 0x700000 \<and> length (ipc_mem d) = 0x700000
     \<and> \<not> mbox_pending d \<and> intr_status d = 0 \<and> length (scratch d) = 8 \<and> fwheap d = None
     \<and> length (chan d) = AVE_CH_MAX"

lemma fw_msg_run:
  assumes "calm d"
  shows "recv_poll (env_run gp (fw_msg m0 m1 m2 m3) d) =
    (Some (m0, m1, m2, m3),
     let d' = d\<lparr>scratch := (scratch d)[0 := m0, 1 := m1, 2 := m2, 3 := m3]\<rparr>
     in if boot_phase d = AVE_BOOT_ARGS_WRITTEN
        then d'\<lparr>msg1 := (m0, m1, m2, m3), boot_phase := AVE_BOOT_MSG1\<rparr> else d')"
  using assms
  by (simp add: calm_def fw_msg_def env_run_def env_step_def recv_poll_def ave_set_scratch_def write_status_def
      scratch4_def ave_scratch_def AVE_BOOT_MBOX_BIT_def Let_def)

lemma calm_quiet: "calm d \<Longrightarrow> recv_poll (env_run gp [] d) = (None, d)"
  by (simp add: calm_def env_run_def recv_poll_def)

lemma calm_send [simp]:
  "calm d \<Longrightarrow> calm (ave_send_iop_msg m d)" "ipc_pool (ave_send_iop_msg m d) = ipc_pool d"
  "boot_phase (ave_send_iop_msg m d) = boot_phase d" "msg1 (ave_send_iop_msg m d) = msg1 d"
  "ipc_fw_base (ave_send_iop_msg m d) = ipc_fw_base d" "chanmem (ave_send_iop_msg m d) = chanmem d"
  "chanmem_size (ave_send_iop_msg m d) = chanmem_size d" "ipc_mem (ave_send_iop_msg m d) = ipc_mem d"
  by (auto simp: calm_def ave_send_iop_msg_def write_doorbell_def ave_set_scratch_def split: prod.split)

lemma calm_recv:
  assumes "calm d" "boot_phase d \<noteq> AVE_BOOT_ARGS_WRITTEN"
  obtains d' where "ave_recv_iop_msg gp [fw_msg m0 m1 m2 m3] d = (Ok (m0, m1, m2, m3), d')" "calm d'"
    "ipc_pool d' = ipc_pool d" "boot_phase d' = boot_phase d" "msg1 d' = msg1 d" "ipc_fw_base d' = ipc_fw_base d"
    "chanmem d' = chanmem d" "chanmem_size d' = chanmem_size d" "ipc_mem d' = ipc_mem d"
proof -
  let ?d = "d\<lparr>scratch := (scratch d)[0 := m0, 1 := m1, 2 := m2, 3 := m3]\<rparr>"
  have "boot_abi d \<noteq> None" "calm ?d" using assms(1) by (simp_all add: calm_def)
  then have "ave_recv_iop_msg gp [fw_msg m0 m1 m2 m3] d = (Ok (m0, m1, m2, m3), ?d)"
    using assms by (simp add: ave_recv_iop_msg_def fw_msg_run)
  then show ?thesis using that \<open>calm ?d\<close> by simp
qed

lemma calm_poke [simp]:
  "calm d \<Longrightarrow> off + length bs \<le> 0x700000 \<Longrightarrow> calm (poke_ipc off bs d)"
  "ipc_pool (poke_ipc off bs d) = ipc_pool d" "boot_phase (poke_ipc off bs d) = boot_phase d"
  "ipc_fw_base (poke_ipc off bs d) = ipc_fw_base d" "chanmem (poke_ipc off bs d) = chanmem d"
  "chanmem_size (poke_ipc off bs d) = chanmem_size d"
  by (simp_all add: calm_def poke_ipc_def)

lemma ready_msg1:
  assumes "calm d" "boot_phase d = AVE_BOOT_ARGS_WRITTEN"
  obtains d' where "hs_msg1 ready_env abi_13_5 d = (Ok (), d')" "calm d'" "ipc_pool d' = ipc_pool d"
    "boot_phase d' = AVE_BOOT_MSG1" "msg1 d' = (7, 0x9bc0, AVE_BOOT_PROTO_VERSION, 0)"
proof -
  let ?m = "(7, 0x9bc0, AVE_BOOT_PROTO_VERSION, 0) :: mbox_msg"
  let ?d = "d\<lparr>scratch := (scratch d)[0 := 7, 1 := 0x9bc0, 2 := AVE_BOOT_PROTO_VERSION, 3 := 0], msg1 := ?m, boot_phase := AVE_BOOT_MSG1\<rparr>"
  have "boot_abi d \<noteq> None" using assms(1) by (simp add: calm_def)
  then have "ave_recv_iop_msg (e_gp ready_env) (e_msg1 ready_env) d = (Ok ?m, ?d)"
    using assms by (simp add: ave_recv_iop_msg_def ready_env_def calm_quiet fw_msg_run Let_def)
  moreover have "ave_boot_check_msg1_log ready_env abi_13_5 ?m = None"
    using msg1_unexpected [of abi_13_5 7 "0x9bc0" AVE_BOOT_PROTO_VERSION 0]
    by (simp add: msg1_log_None abi_13_5_def AVE_BOOT_DESC_STRIDE_def)
  ultimately show ?thesis
    using that [of ?d] assms by (simp add: hs_msg1_def hs_bind_def) (simp add: calm_def)
qed

lemma ready_surface:
  assumes "calm d" "boot_phase d = AVE_BOOT_MSG1"
  obtains d' where "hs_surface ready_env abi_13_5 0 d = (Ok (), d')" "calm d'" "ipc_pool d' = ipc_pool d"
    "boot_phase d' = AVE_BOOT_MSG1" "ipc_fw_base d' = 0x10000"
proof -
  let ?s = "ave_send_iop_msg (lower_32_bits (ipc_iova d), upper_32_bits (ipc_iova d), of_nat (ipc_size d), 0) d"
  have p: "boot_phase ?s \<noteq> AVE_BOOT_ARGS_WRITTEN" using assms by simp
  obtain d1 where d1: "ave_recv_iop_msg (e_gp ready_env) [fw_msg 0x10000 0 0 0] ?s = (Ok (0x10000, 0, 0, 0), d1)"
    "calm d1" "ipc_pool d1 = ipc_pool d" "boot_phase d1 = AVE_BOOT_MSG1"
    using calm_recv [OF calm_send(1) [OF assms(1)] p, of "e_gp ready_env" "0x10000" 0 0 0] assms by auto
  have e: "e_msg3 ready_env = [fw_msg 0x10000 0 0 0]" by (simp add: ready_env_def)
  have "hs_surface ready_env abi_13_5 0 d = (Ok (), d1\<lparr>ipc_fw_base := 0x10000\<rparr>)"
    using d1(1) by (simp add: hs_surface_def hs_bind_def hs_do_def abi_13_5_def ave_boot_heap_def e)
  then show ?thesis using that d1 by (simp add: calm_def)
qed

lemma ready_blocks:
  assumes "calm d" "boot_phase d = AVE_BOOT_MSG1" "ipc_pool d = Some []"
  obtains d' where "hs_blocks ready_env abi_13_5 0x9bc0 d = (Ok (), d')" "calm d'"
    "boot_phase d' = AVE_BOOT_MSG1" "ipc_fw_base d' = ipc_fw_base d" "chanmem d' = Some 0" "chanmem_size d' = 0x9bc0"
    "ipc_pool d' \<noteq> None"
proof -
  have b: "bump_pool 0x700000 [] 0x9bc0 = Some 0" "bump_pool 0x700000 [(0, 0x9bc0)] AVE_BOOT_INFO_SIZE = Some 0x9bc0"
    by (simp_all add: bump_pool_def AVE_BOOT_INFO_SIZE_def)
  let ?m = "poke (poke (ipc_mem d) 0 (replicate (unat (0x9bc0 :: u32)) 0)) 0x9bc0 (replicate AVE_BOOT_INFO_SIZE 0)"
  let ?d = "d\<lparr>ipc_pool := Some [(0x9bc0, AVE_BOOT_INFO_SIZE), (0, 0x9bc0)], ipc_mem := ?m, chanmem := Some 0,
      ipcinfo := Some 0x9bc0, chanmem_size := 0x9bc0\<rparr>"
  have m: "length ?m = 0x700000" using assms(1) by (simp add: calm_def AVE_BOOT_INFO_SIZE_def)
  have "hs_alloc_blocks ready_env 0x9bc0 d = (Ok (0, 0x9bc0), ?d)"
    using assms b by (simp add: hs_alloc_blocks_def ave_ipc_alloc_def ready_env_def AVE_BOOT_INFO_SIZE_def)
  moreover have "calm ?d" using assms(1) m by (simp add: calm_def del: length_poke)
  moreover have "hs_info_heap p x = x" if "calm x" for p x using that by (simp add: hs_info_heap_def calm_def)
  moreover have "\<not> a_info_log_block abi_13_5" by (simp add: abi_13_5_def)
  ultimately show ?thesis
    using that assms by (simp add: hs_blocks_def hs_bind_def hs_do_def hs_info_log_def Let_def
        AVE_BOOT_INFO_CHANMEM_def AVE_BOOT_INFO_DEV_TYPE_def)
qed

lemma bind_loop_scratch:
  "bind_loop a c is d = (r, d') \<Longrightarrow> scratch d' = scratch d \<and> ipc_pool d' = ipc_pool d"
proof (induction "is" arbitrary: d)
  case (Cons i "is")
  have one: "scratch (snd (bind_one a c i d)) = scratch d \<and> ipc_pool (snd (bind_one a c i d)) = ipc_pool d" for d
    by (simp add: bind_one_def Let_def bind_channel_def case_prod_beta split: cres.split option.split)
  then show ?case
    using Cons.prems Cons.IH one [of d]
    by (cases "bind_one a c i d" rule: prod.exhaust) (auto simp: hs_bind_def split: cres.splits)
qed simp

lemma at_poked: "off + length bs \<le> length m \<Longrightarrow> at (poke m off bs) off bs"
  using at_refl [of "take off m" bs "drop (off + length bs) m"] by (simp add: poke_def)

lemma fw_descs_written:
  assumes "calm d" "ipc_fw_base d = 0x10000" "at (ipc_mem d) 0 fw_descs"
  shows "descs_at d 0 0 (a_chans abi_13_5)"
proof -
  have len: "length (desc_bytes e b) = AVE_BOOT_DESC_STRIDE" if "e \<in> set chans_13_5" for e b
    using that by (intro length_desc_bytes) (auto simp: chans_13_5_def boot_chan_def cstr_def boot_consts)
  have at_concat: "\<forall>e\<in>set es. length (f e) = n \<Longrightarrow> at m off (concat (map f es)) \<Longrightarrow>
      \<forall>j < length es. at m (off + j * n) (f (es ! j))" for es :: "ave_boot_chan list" and f n m off
  proof (induction es arbitrary: off)
    case (Cons e es)
    then show ?case by (auto simp: at_append less_Suc_eq_0_disj add.assoc [symmetric])
  qed simp
  have "\<forall>j < length chans_13_5. at (ipc_mem d) (0 + j * AVE_BOOT_DESC_STRIDE) (desc_bytes (chans_13_5 ! j) 0x10000)"
    by (rule at_concat) (use len assms(3) in \<open>simp_all add: fw_descs_def\<close>)
  then show ?thesis
    using assms(2) by (simp add: descs_at_def ave_ipc_cpu_to_fw_def abi_13_5_def)
qed

lemma ready_channels:
  assumes "calm d" "boot_phase d = AVE_BOOT_MSG1" "ipc_fw_base d = 0x10000" "chanmem d = Some 0" "chanmem_size d = 0x9bc0"
  obtains d' where "hs_channels ready_env abi_13_5 7 d = (Ok (), d')" "ipc_fw_base d' = 0x10000" "length (scratch d') = 8"
proof -
  let ?d = "d\<lparr>ipc_mem := poke (ipc_mem d) 0 fw_descs\<rparr>"
  have n: "length fw_descs = 0x700"
    by (simp add: fw_descs_def chans_13_5_def boot_chan_def cstr_def boot_consts desc_bytes_def)
  then have calm: "calm ?d" and at: "at (ipc_mem ?d) 0 fw_descs"
    using assms(1) at_poked [of 0 fw_descs "ipc_mem d"] by (simp_all add: calm_def)
  have ph: "boot_phase ?d \<noteq> AVE_BOOT_ARGS_WRITTEN" using assms(2) by simp
  obtain d1 where d1: "ave_recv_iop_msg (e_gp ready_env) [fw_msg 0x10000 0 0xb4000 0] ?d = (Ok (0x10000, 0, 0xb4000, 0), d1)"
    "calm d1" "ipc_fw_base d1 = 0x10000" "chanmem d1 = Some 0" "chanmem_size d1 = 0x9bc0" "ipc_mem d1 = ipc_mem ?d"
    using calm_recv [OF calm ph, of "e_gp ready_env" "0x10000" 0 "0xb4000" 0] assms by auto
  have "env_run gp (FwMem 0 fw_descs # acts) d = env_run gp acts ?d" for gp acts
    using assms(1) n by (simp add: env_run_def env_step_def calm_def)
  then have recv: "ave_recv_iop_msg (e_gp ready_env) (e_msg5 ready_env) d = (Ok (0x10000, 0, 0xb4000, 0), d1)"
    using d1(1) by (simp add: ave_recv_iop_msg_def ready_env_def split: if_splits)
  have desc: "ave_ipc_fw_to_cpu d1 0x10000 (7 * AVE_BOOT_DESC_STRIDE) = Some 0"
    using d1(2,3) by (simp add: ave_ipc_fw_to_cpu_def calm_def AVE_BOOT_DESC_STRIDE_def)
  have t: "table_ok abi_13_5" by (rule table_ok_13_5)
  have len: "length (a_chans abi_13_5) = 7" by (simp add: abi_13_5_def chans_13_5_def)
  have sz: "chanmem_size d1 = a_msg1_chsz abi_13_5" "0 + unat (a_msg1_chsz abi_13_5) \<le> ipc_size d1"
    "ipc_cpu d1" "unat (ipc_fw_base d1) + ipc_size d1 \<le> 2 ^ 64" "length (ipc_mem d1) = ipc_size d1" "length (chan d1) = AVE_CH_MAX"
    using d1(2-5) by (simp_all add: calm_def abi_13_5_def)
  obtain d2 where d2: "bind_loop abi_13_5 0 [0..<7] d1 = (Ok (), d2)" "boot_view d2 = boot_view d1"
    using bind_loop_expected [OF _ _ _ fw_descs_written [OF d1(2,3)] sz] t len at d1(6) by (auto simp: table_ok_def)
  have s: "length (scratch d2) = 8"
    using bind_loop_scratch [OF d2(1)] d1(2) by (simp add: calm_def)
  have bind: "ave_boot_bind abi_13_5 7 d1 = (Ok (), d2\<lparr>nchannels := 7\<rparr>)"
    using d2(1) d1(4) by (simp add: ave_boot_bind_def hs_bind_def hs_do_def del: upt_Suc)
  have "hs_channels ready_env abi_13_5 7 d = (Ok (), d2\<lparr>nchannels := 7, client_buf_size := 0xb4000\<rparr>)"
    using recv desc d1(4) bind by (simp add: hs_channels_def hs_bind_def) (simp add: abi_13_5_def)
  then show ?thesis using that s view_fields(4) [OF d2(2)] d1(3) by simp
qed

lemma handshake_ready:
  assumes "calm d" "boot_phase d = AVE_BOOT_ARGS_WRITTEN" "ipc_pool d = Some []"
  obtains d' where "ave_ipc_handshake ready_env d = (Ok (), d')" "ipc_fw_base d' = 0x10000"
proof -
  obtain d1 where d1: "hs_msg1 ready_env abi_13_5 d = (Ok (), d1)" "calm d1" "ipc_pool d1 = Some []"
    "boot_phase d1 = AVE_BOOT_MSG1" "msg1 d1 = (7, 0x9bc0, AVE_BOOT_PROTO_VERSION, 0)"
    using ready_msg1 [OF assms(1,2)] assms(3) by metis
  obtain d2 where d2: "hs_surface ready_env abi_13_5 0 d1 = (Ok (), d2)" "calm d2" "ipc_pool d2 = Some []"
    "boot_phase d2 = AVE_BOOT_MSG1" "ipc_fw_base d2 = 0x10000"
    using ready_surface [OF d1(2,4)] d1(3) by metis
  obtain d3 where d3: "hs_blocks ready_env abi_13_5 0x9bc0 d2 = (Ok (), d3)" "calm d3" "boot_phase d3 = AVE_BOOT_MSG1"
    "ipc_fw_base d3 = 0x10000" "chanmem d3 = Some 0" "chanmem_size d3 = 0x9bc0"
    using ready_blocks [OF d2(2,4,3)] d2(5) by metis
  obtain d4 where d4: "hs_channels ready_env abi_13_5 7 d3 = (Ok (), d4)" "ipc_fw_base d4 = 0x10000" "length (scratch d4) = 8"
    using ready_channels [OF d3(2-6)] by metis
  let ?d = "ave_set_scratch 3 AVE_BOOT_MAGIC (d4\<lparr>ipc_up := True, mbox_pending := False\<rparr>)"
  have m: "ave_scratch ?d 3 \<noteq> 0" using d4(3) by (simp add: ave_scratch_def ave_set_scratch_def AVE_BOOT_MAGIC_def)
  have z: "ave_scratch (ave_set_scratch 3 0 ?d) 3 = 0" using d4(3) by (simp add: ave_scratch_def ave_set_scratch_def)
  have e: "env_run gp [] x = x" "env_run gp [FwReg 3 0] x = ave_set_scratch 3 0 x" for gp x
    by (simp_all add: env_run_def env_step_def)
  let ?d5 = "(ave_set_scratch 3 0 ?d)\<lparr>boot_phase := AVE_BOOT_READY\<rparr>"
  have r: "e_ready ready_env = [[], [FwReg 3 0]]" by (simp add: ready_env_def)
  have "hs_ready ready_env d4 = (Ok (), ?d5)"
    using m z by (simp add: hs_ready_def hs_bind_def hs_do_def r e Let_def)
  then have "hs_body ready_env abi_13_5 d = (Ok (), ?d5)"
    using d1 d2(1) d3(1) d4(1) by (simp add: hs_body_def hs_bind_def)
  moreover have "boot_abi d = Some abi_13_5" using assms(1) by (simp add: calm_def)
  ultimately have "ave_ipc_handshake ready_env d = (Ok (), ?d5)"
    using assms(2,3) by (simp add: ave_ipc_handshake_def)
  then show ?thesis using that d4(2) by (simp add: ave_set_scratch_def)
qed

theorem handshake_sound_witness:
  "\<exists>d2 d3. ave_boot_config ready_env (booted_device (\<lambda>_. \<lparr>dev_id = 14, dev_type = 1\<rparr>)) = (Ok (), d2)
     \<and> ave_ipc_handshake ready_env d2 = (Ok (), d3) \<and> boot_phase d3 = AVE_BOOT_READY \<and> ipc_up d3 \<and> dev_ok d3"
proof -
  let ?d = "booted_device (\<lambda>_. \<lparr>dev_id = 14, dev_type = 1\<rparr>)"
  note f = booted_fields [of "\<lambda>_. \<lparr>dev_id = 14, dev_type = 1\<rparr>"]
  obtain d2 where d2: "d2 = boot_args 0 14 ?d" by simp
  have c: "ave_boot_config ready_env ?d = (Ok (), d2)"
    using f by (simp add: ave_boot_config_def hs_do_def d2 abi_13_5_def)
  have g: "calm d2" "boot_phase d2 = AVE_BOOT_ARGS_WRITTEN" "ipc_pool d2 = Some []"
    using f booted_rest by (simp_all add: calm_def d2 boot_args_def ave_set_scratch_def)
  obtain d3 where h: "ave_ipc_handshake ready_env d2 = (Ok (), d3)" "ipc_fw_base d3 = 0x10000"
    using handshake_ready [OF g] by metis
  have gp: "gen_pool_ok (e_gp ready_env) (ipc_size ?d)"
    using bump_pool_ok [of "0x700000"] f by (simp add: ready_env_def)
  show ?thesis
    using handshake_sound [OF f(1) gp c h(1)] c h by (auto simp: ave_boot_abi_get_def)
qed

section \<open>The log reader\<close>

lemma rd8_inside: "i < length h \<Longrightarrow> rd8 h i = Ok (h ! i)"
  by (simp add: rd8_def)

lemma ring_index: "ring \<noteq> 0 \<Longrightarrow> unat ring \<le> AVE_BOOT_FWLOG_RING_SIZE \<Longrightarrow> AVE_BOOT_FWLOG_SIZE \<le> length h \<Longrightarrow>
    AVE_BOOT_FWLOG_RING_OFF + unat ((rd :: u32) mod ring) < length h"
  using word_mod_less_divisor [of ring rd]
  by (simp add: word_less_nat_alt AVE_BOOT_FWLOG_SIZE_def word_neq_0_conv)

lemma fwlog_string_safe:
  assumes "ring \<noteq> 0" "unat ring \<le> AVE_BOOT_FWLOG_RING_SIZE" "AVE_BOOT_FWLOG_SIZE \<le> length h"
    and "length line \<le> 255"
  shows "\<exists>line' rd'. fwlog_string h ring wr rd line = Ok (line', rd') \<and> length line' \<le> 255"
  using assms
proof (induction h ring wr rd line rule: fwlog_string.induct)
  case (1 h ring wr rd line)
  let ?c = "h ! (AVE_BOOT_FWLOG_RING_OFF + unat (rd mod ring))"
  have rd: "rd8 h (AVE_BOOT_FWLOG_RING_OFF + unat (rd mod ring)) = Ok ?c"
    using ring_index 1(2-4) by (intro rd8_inside) blast
  show ?case
  proof (cases "?c \<noteq> 0 \<and> rd + 1 \<noteq> wr")
    case True
    then show ?thesis
      using 1(1) [OF rd refl True] 1(2-5)
      by (subst fwlog_string.simps) (auto simp: rd Let_def)
  next
    case False
    then show ?thesis using 1(5) by (subst fwlog_string.simps) (auto simp: rd Let_def)
  qed
qed

lemma fwlog_strings_safe:
  assumes "ring \<noteq> 0" "unat ring \<le> AVE_BOOT_FWLOG_RING_SIZE" "AVE_BOOT_FWLOG_SIZE \<le> length h"
  shows "\<exists>ls rd'. fwlog_strings n h ring wr rd = Ok (ls, rd') \<and> length ls \<le> n \<and> (\<forall>l\<in>set ls. length l \<le> 255)"
proof (induction n arbitrary: rd)
  case (Suc n)
  obtain line rd1 where s: "fwlog_string h ring wr rd [] = Ok (line, rd1)" "length line \<le> 255"
    using fwlog_string_safe [OF assms, of "[]" wr rd] by auto
  obtain ls rd2 where r: "fwlog_strings n h ring wr rd1 = Ok (ls, rd2)" "length ls \<le> n"
    "\<forall>l\<in>set ls. length l \<le> 255"
    using Suc by blast
  have "length (c_str (line @ [0])) \<le> 255"
    using s(2) length_takeWhile_le [of "\<lambda>c. c \<noteq> 0" line]
    by (auto simp: c_str_def takeWhile_tail)
  then show ?case using s r by auto
qed simp

text \<open>C22. Reading the firmware's log always ends and stays in the log surface, whatever counters and
  ring size the firmware left in its header: it delivers at most 64 lines of at most 255 bytes, and
  changes nothing but the read counter.\<close>

theorem fwlog_read_safe:
  assumes "length h = AVE_BOOT_FWLOG_SIZE"
  shows "\<exists>ls h'. fwlog_read h = Ok (ls, h') \<and> length ls \<le> 64 \<and> (\<forall>l\<in>set ls. l \<noteq> [] \<and> length l \<le> 255)
    \<and> length h' = length h
    \<and> (\<forall>i. i < AVE_BOOT_FWLOG_HDR_RD \<or> AVE_BOOT_FWLOG_HDR_RD + 4 \<le> i \<longrightarrow> h' ! i = h ! i)"
proof -
  let ?ring = "get_le32 h AVE_BOOT_FWLOG_HDR_RING_SIZE"
  let ?rd = "get_le32 h AVE_BOOT_FWLOG_HDR_RD" and ?wr = "get_le32 h AVE_BOOT_FWLOG_HDR_WR"
  have rd: "rd_le32 h i = Ok (get_le32 h i)" if "i + 4 \<le> AVE_BOOT_FWLOG_SIZE" for i
    using that assms by (simp add: rd_le32_def)
  have rds: "rd_le32 h AVE_BOOT_FWLOG_HDR_RING_SIZE = Ok ?ring" "rd_le32 h AVE_BOOT_FWLOG_HDR_RD = Ok ?rd"
    "rd_le32 h AVE_BOOT_FWLOG_HDR_WR = Ok ?wr"
    by (rule rd; simp add: fwlog_consts)+
  have fit: "AVE_BOOT_FWLOG_HDR_RD + 4 \<le> length h" using assms by (simp add: fwlog_consts)
  show ?thesis
  proof (cases "?ring = 0 \<or> unat ?ring > AVE_BOOT_FWLOG_RING_SIZE \<or> ?rd = ?wr")
    case True
    then show ?thesis by (simp add: fwlog_read_def rds)
  next
    case False
    then obtain ls rd' where ls: "fwlog_strings 64 h ?ring ?wr ?rd = Ok (ls, rd')" "length ls \<le> 64"
      "\<forall>l\<in>set ls. length l \<le> 255"
      using fwlog_strings_safe [of ?ring h 64 ?wr ?rd] assms by auto
    have "fwlog_read h = Ok (filter (\<lambda>l. l \<noteq> []) ls, poke h AVE_BOOT_FWLOG_HDR_RD (put_le32 rd'))"
      using False ls(1) by (simp add: fwlog_read_def rds)
    moreover have "length (filter (\<lambda>l. l \<noteq> []) ls) \<le> 64"
      using ls(2) length_filter_le [of _ ls] order_trans by blast
    ultimately show ?thesis using ls(3) fit by (auto simp: poke_nth)
  qed
qed

text \<open>The log surface with the five bytes \<open>fault\<close> in its ring, not terminated.\<close>

definition example_log :: "u8 list" where
  "example_log =
     poke (poke (fwlog_header (replicate AVE_BOOT_FWLOG_SIZE 0)) AVE_BOOT_FWLOG_HDR_WR (put_le32 5))
       AVE_BOOT_FWLOG_RING_OFF (cstr ''fault'')"

theorem fwlog_read_safe_witness:
  "\<exists>ls h'. fwlog_read example_log = Ok (ls, h') \<and> length ls \<le> 64 \<and> length h' = AVE_BOOT_FWLOG_SIZE"
proof -
  have "length example_log = AVE_BOOT_FWLOG_SIZE"
    by (simp add: example_log_def fwlog_header_def Let_def fwlog_consts cstr_def)
  then show ?thesis using fwlog_read_safe [of example_log] by auto
qed

section \<open>The interface version\<close>

text \<open>The interface the driver speaks is chosen by exact match only: with the module parameter
  before the device tree, it is detected exactly when the string is one of the three known
  versions, every other string is refused with EOPNOTSUPP, an absent one with ENODEV, and a
  detected interface is one the boot code has a descriptor for.\<close>

theorem abi_exact_match:
  "((\<exists>abi. ave_detect_fw_abi param chosen old = (abi, None) \<and> ave_boot_abi_get abi \<noteq> None) \<longleftrightarrow>
      (case param of Some v \<Rightarrow> Some v | None \<Rightarrow> chosen)
        \<in> {Some (cstr ''13.5''), Some (cstr ''26.6''), Some (cstr ''26.6.2'')})
   \<and> (snd (ave_detect_fw_abi param chosen old) = Some ENODEV \<longleftrightarrow> param = None \<and> chosen = None)
   \<and> snd (ave_detect_fw_abi param chosen old) \<in> {None, Some ENODEV, Some EOPNOTSUPP}"
  by (intro conjI)
    (auto simp: ave_detect_fw_abi_def Let_def ave_lookup_def ave_known_versions_def
      ave_boot_abi_get_def split: option.splits if_splits)

end
