(* ===== verification/Ave_Abi.thy ===== *)
theory Ave_Abi
  imports Ave_Boot
begin

text \<open>
  The wire formats: \<^verbatim>\<open>src/driver/ave_abi.h\<close>. Every command is a byte buffer whose field
  offsets depend on the firmware; the header keeps them in one table per firmware
  (\<open>struct ave_cmd_abi\<close>), and the builders of \<open>Ave_Cmd\<close> read them from there.

  \<^item> One record per C struct, with the C field names under a prefix per struct. The three
    largest structs are built in steps (record extension), at the section comments of the C
    text. Offsets and the small size fields are \<open>u32\<close>, whatever the C struct stores them in.
  \<^item> One constant per sub-table of the two tables; fields the C initialiser leaves out are 0.
\<close>

section \<open>Constants\<close>

definition AVE_OFF_NONE :: u32 where "AVE_OFF_NONE = 0"
definition AVE_SLOT_CALLER :: u32 where "AVE_SLOT_CALLER = 0xfffffffe"
definition AVE_SLOT_GLOBAL :: u32 where "AVE_SLOT_GLOBAL = 0xffffffff"
definition AVE_PRIORITY_DEFAULT :: u32 where "AVE_PRIORITY_DEFAULT = 200"
definition AVE_STRIDE_ALIGN :: u32 where "AVE_STRIDE_ALIGN = 64"
definition AVE_MB_SIZE :: u32 where "AVE_MB_SIZE = 16"
definition AVE_CMD_HDR_SIZE :: nat where "AVE_CMD_HDR_SIZE = 0x40"
definition AVE_SRC_NBR_GROUPS :: nat where "AVE_SRC_NBR_GROUPS = 4"
definition AVE_ENTROPY_MAX :: nat where "AVE_ENTROPY_MAX = 16"
definition AVE_ENTROPY_COLS :: nat where "AVE_ENTROPY_COLS = 4"
definition AVE_DPB_MAX :: nat where "AVE_DPB_MAX = 17"
definition AVE_LOW_RES_RESULT_MAX :: nat where "AVE_LOW_RES_RESULT_MAX = 4"
definition AVE_PIC_SCRATCH_MAX :: nat where "AVE_PIC_SCRATCH_MAX = 4"
definition AVE_FRAME_TYPE_I :: u32 where "AVE_FRAME_TYPE_I = 0"
definition AVE_FRAME_TYPE_P :: u32 where "AVE_FRAME_TYPE_P = 1"
definition AVE_FRAME_TYPE_B :: u32 where "AVE_FRAME_TYPE_B = 2"
definition AVE_FRAME_TYPE_IDR :: u32 where "AVE_FRAME_TYPE_IDR = 3"
definition AVE_FRAME_TYPE_AUTO :: u32 where "AVE_FRAME_TYPE_AUTO = 5"
definition AVE_WORK_ENC :: u32 where "AVE_WORK_ENC = 1"

lemmas abi_consts =
  AVE_OFF_NONE_def AVE_SLOT_CALLER_def AVE_SLOT_GLOBAL_def AVE_PRIORITY_DEFAULT_def
  AVE_STRIDE_ALIGN_def AVE_MB_SIZE_def AVE_CMD_HDR_SIZE_def AVE_SRC_NBR_GROUPS_def AVE_ENTROPY_MAX_def
  AVE_ENTROPY_COLS_def AVE_DPB_MAX_def AVE_LOW_RES_RESULT_MAX_def AVE_PIC_SCRATCH_MAX_def

lemmas frame_types =
  AVE_FRAME_TYPE_I_def AVE_FRAME_TYPE_P_def AVE_FRAME_TYPE_B_def AVE_FRAME_TYPE_IDR_def
  AVE_FRAME_TYPE_AUTO_def

section \<open>Operations and the layout structs\<close>

text \<open>\<open>AVE_OP_COUNT\<close>, one past the last operation, is not a value.\<close>

datatype ave_op =
    AVE_OP_CONFIG | AVE_OP_HALT | AVE_OP_OPEN | AVE_OP_CLOSE | AVE_OP_START_AVC
  | AVE_OP_START_HEVC | AVE_OP_STOP | AVE_OP_PROCESS_AVC | AVE_OP_PROCESS_HEVC | AVE_OP_COMPLETE
  | AVE_OP_PRIORITY | AVE_OP_FLUSH | AVE_OP_RESET

record ave_cmd_desc =
  cd_id :: u16
  cd_reply_id :: u16
  cd_size :: u32
  cd_slot :: u32
  cd_priority :: u32
  cd_reply_size :: u32

record ave_hdr_layout =
  hl_count :: u32
  hl_client_id :: u32
  hl_client_id_bytes :: u32
  hl_work_type :: u32
  hl_codec :: u32
  hl_slot :: u32
  hl_priority :: u32
  hl_timeout :: u32
  hl_codec_avc :: u32
  hl_codec_hevc :: u32
  hl_max_slot :: u32

record ave_reply_layout =
  rl_id :: u32
  rl_client_id :: u32
  rl_client_id_bytes :: u32
  rl_slot :: u32
  rl_status :: u32
  rl_status_ok :: u32

record ave_config_layout =
  cl_skip_mcpu :: u32
  cl_create_mcpu :: u32
  cl_reg_dart_addr :: u32
  cl_doorbell_cadence0 :: u32
  cl_doorbell_cadence1 :: u32
  cl_dsid :: u32
  cl_dsid2 :: u32
  cl_dsid_bytes :: u32
  cl_shmem_addr :: u32
  cl_shmem_size :: u32
  cl_shmem_min :: u32

record ave_start_avc_params =
  sa_fw_client_addr :: u32
  sa_fw_client_size :: u32
  sa_fw_client_mem_addr :: u32
  sa_fw_client_mem_size :: u32
  sa_width :: u32
  sa_height :: u32
  sa_frame_rate :: u32
  sa_bitrate :: u32
  sa_rc_mode :: u32
  sa_rc_mode_fixed_qp :: u32
  sa_rc_feature :: u32
  sa_rc_feature_fixed_qp :: u64
  sa_rc_mode_on :: u32
  sa_frame_rate_div :: u32
  sa_bitrate_sel :: u32
  sa_bitrate_alt :: u32
  sa_drl_enable :: u32
  sa_drl_cfg :: u32
  sa_qp_i :: u32
  sa_qp_p :: u32
  sa_qp_b :: u32
  sa_qp_min :: u32
  sa_qp_max :: u32
  sa_key_interval :: u32
  sa_key_interval_strict :: u32
  sa_key_interval_dur :: u32
  sa_slice_num :: u32
  sa_param_sets_addr :: u32
  sa_param_sets_size :: u32
  sa_sve_num :: u32

record ave_start_avc_tables = ave_start_avc_params +
  sa_need_lsb_planes :: u32
  sa_recon_lsb_addr :: u32
  sa_recon_set :: u32
  sa_recon_stride :: u32
  sa_recon_max :: u32
  sa_recon_addr :: u32
  sa_recon_size :: u32
  sa_recon_meta_addr :: u32
  sa_low_res_ref_set :: u32
  sa_low_res_ref_stride :: u32
  sa_low_res_ref_max :: u32
  sa_low_res_result_set :: u32
  sa_low_res_result_stride :: u32
  sa_low_res_result_max :: u32
  sa_colocated_set :: u32
  sa_colocated_stride :: u32
  sa_colocated_max :: u32
  sa_entropy_set :: u32
  sa_entropy_stride_i :: u32
  sa_entropy_stride_j :: u32
  sa_entropy_max :: u32
  sa_entropy_cols_max :: u32
  sa_entropy_size_set :: u32
  sa_entropy_size_stride_i :: u32
  sa_entropy_size_stride_j :: u32
  sa_coded_max :: u32
  sa_coded_addr :: u32
  sa_coded_addr_stride :: u32
  sa_coded_size :: u32
  sa_coded_size_stride :: u32
  sa_coded_hdr_addr :: u32
  sa_coded_hdr_addr_stride :: u32
  sa_coded_hdr_size :: u32
  sa_coded_hdr_size_stride :: u32
  sa_coded_hdr_bytes :: u32
  sa_src_nbr_set :: "u32 list"
  sa_src_nbr_max :: u32

record ave_start_avc_layout = ave_start_avc_tables +
  sa_src_mode :: u32
  sa_src_cfg_byte :: u32
  sa_src_go_bit3 :: u32
  sa_multi_me :: u32
  sa_mp_enable :: u32
  sa_mp_pass :: u32
  sa_mp_const_qp :: u32
  sa_mp_qpmod :: u32
  sa_mp_max_qpmod :: u32
  sa_mp_options :: u32
  sa_src_go_bits :: u32
  sa_dbg_bits :: u32
  sa_ipcm_islice :: u32
  sa_skip_mode :: u32
  sa_mode_8x8 :: u32
  sa_lambda_scales :: u32
  sa_lambda_qp_tab :: u32
  sa_lambda_idx_tab :: u32
  sa_lambda_rec_tab :: u32
  sa_num_views :: "u32 list"
  sa_ref_spacing :: u32
  sa_search_range :: u32
  sa_max_mvs_per_2mb :: u32
  sa_bframes :: u32
  sa_adapt_b :: u32
  sa_max_sub_mb_rect :: u32
  sa_slice_map_end :: u32
  sa_transcoded_set :: u32
  sa_transcoded_stride :: u32
  sa_transcoded_max :: u32
  sa_transcoded_size :: u32
  sa_sps_block :: u32
  sa_sps_block_size :: u32
  sa_pps_block :: u32
  sa_pps_block_size :: u32

record ave_coded_hdr_layout =
  dh_i_mb_cnt :: u32
  dh_p_mb_cnt :: u32
  dh_skip_mb_cnt :: u32
  dh_b_mb_cnt :: u32
  dh_sps_pps_bits :: u32
  dh_frame_num :: u32
  dh_frame_type :: u32
  dh_slice_stride :: u32
  dh_slice_max :: u32
  dh_slice_bytes_written :: u32
  dh_slice_bytes_removed :: u32
  dh_cabac_zero_words :: u32
  dh_slice_hdr_iova :: u32
  dh_slice_hdr_len :: u32
  dh_ps_info :: u32
  dh_min_bytes :: u32

record ave_sps_layout =
  sl_enum_profile_level :: bool
  sl_profile :: u32
  sl_level :: u32
  sl_seq_parameter_set_id :: u32
  sl_chroma_format_idc :: u32
  sl_bit_depth_luma_minus8 :: u32
  sl_bit_depth_chroma_minus8 :: u32
  sl_log2_max_frame_num_minus4 :: u32
  sl_pic_order_cnt_type :: u32
  sl_log2_max_poc_lsb_m4 :: u32
  sl_max_num_ref_frames :: u32
  sl_gaps_in_frame_num_allowed :: u32
  sl_pic_width_in_mbs_minus1 :: u32
  sl_pic_height_in_map_units_minus1 :: u32
  sl_frame_mbs_only_flag :: u32
  sl_direct_8x8_inference_flag :: u32
  sl_vui_parameters_present_flag :: u32
  sl_frame_cropping_flag :: u32
  sl_crop_left :: u32
  sl_crop_right :: u32
  sl_crop_top :: u32
  sl_crop_bottom :: u32
  sl_scaling_4x4 :: u32
  sl_scaling_8x8 :: u32
  sl_fw_creates_header :: u32
  sl_header_len :: u32

record ave_pps_layout =
  pl_pic_parameter_set_id :: u32
  pl_seq_parameter_set_id :: u32
  pl_entropy_coding_mode_flag :: u32
  pl_num_slice_groups_minus1 :: u32
  pl_pic_init_qp_minus26 :: u32
  pl_deblocking_filter_control :: u32
  pl_constrained_intra_pred :: u32
  pl_transform_8x8_mode :: u32
  pl_fw_creates_header :: u32

record ave_process_avc_layout =
  pa_picmgmt :: u32
  pa_picmgmt_size :: u32
  pa_picmgmt_size_word :: bool
  pa_frame_num :: u32
  pa_frame_num_u32 :: bool
  pa_poc :: u32
  pa_frame_rate_f64 :: u32
  pa_frame_type :: u32
  pa_input_compressed :: u32
  pa_in_luma_addr :: u32
  pa_in_luma_size :: u32
  pa_in_luma_stride :: u32
  pa_in_chroma_addr :: u32
  pa_in_chroma_size :: u32
  pa_in_chroma_stride :: u32
  pa_in_dims :: u32
  pa_mp_stats_in :: u32
  pa_out_mode :: u32
  pa_out_index :: u32
  pa_out_coded :: u32
  pa_out_coded_hdr :: u32
  pa_direct_spatial :: u32
  pa_out_coded_size :: u32
  pa_recon_y :: u32
  pa_recon_uv :: u32
  pa_recon_mv :: u32
  pa_recon_y_lsb :: u32
  pa_recon_uv_lsb :: u32
  pa_ctx_index :: u32
  pa_force_key_frame :: u32
  pa_force_non_ref :: u32
  pa_update_param_sets :: u32
  pa_scaling_matrix_mode :: u32
  pa_low_res_src :: u32
  pa_low_res_results :: u32
  pa_low_res_results_stride :: u32
  pa_low_res_results_max :: u32
  pa_entropy_set :: u32
  pa_entropy_stride_i :: u32
  pa_entropy_stride_j :: u32
  pa_entropy_max :: u32
  pa_entropy_cols_max :: u32
  pa_src_nbr_set :: "u32 list"
  pa_src_nbr_max :: u32
  pa_scratch :: "u32 list"
  pa_scratch_n :: u32
  pa_first_process :: u32

record ave_start_hevc_layout =
  hv_shares_avc_vp :: bool
  hv_vps_block :: u32
  hv_vps_block_size :: u32
  hv_sps_block :: "u32 list"
  hv_sps_block_size :: u32
  hv_pps_block :: "u32 list"
  hv_pps_block_size :: u32
  hv_rps_block :: u32
  hv_rps_block_size :: u32
  hv_transcode_overlap :: u32
  hv_sve_num :: u32
  hv_sve_index :: u32
  hv_input_format_word :: u32
  hv_pps_count :: u32
  hv_pps_ids :: u32
  hv_enable_tmvp :: u32
  hv_sao_enb_config :: u32
  hv_sao_eo_bo :: u32
  hv_input_bitdepth :: u32
  hv_max_num_ref_frames :: u32
  hv_slice_map_height :: u32
  hv_entropy_rows :: u32
  hv_buf_align :: u32
  hv_transcoded_set :: u32
  hv_transcoded_stride :: u32
  hv_transcoded_max :: u32
  hv_transcoded_size :: u32
  hv_qp_mod :: u32

record ave_hevc_ps_vps =
  hp_ptl :: u32
  hp_ptl_profile_idc :: u32
  hp_ptl_tier :: u32
  hp_ptl_compat :: u32
  hp_ptl_progressive :: u32
  hp_ptl_interlaced :: u32
  hp_ptl_non_packed :: u32
  hp_ptl_frame_only :: u32
  hp_ptl_level_idc :: u32
  hp_vps_id :: u32
  hp_vps_base_internal :: u32
  hp_vps_base_available :: u32
  hp_vps_max_layers_m1 :: u32
  hp_vps_max_sub_layers_m1 :: u32
  hp_vps_temporal_nesting :: u32
  hp_vps_sublayer_info :: u32
  hp_vps_max_dec_pic_buf_m1 :: u32
  hp_vps_num_reorder :: u32
  hp_vps_max_latency :: u32
  hp_vps_num_layer_sets_m1 :: u32
  hp_vps_timing_present :: u32
  hp_vps_num_hrd :: u32
  hp_vps_ext :: u32

record ave_hevc_ps_sps = ave_hevc_ps_vps +
  hp_sps_layer_id :: u32
  hp_sps_gate7 :: u32
  hp_sps_vps_id :: u32
  hp_sps_max_sub_layers_m1 :: u32
  hp_sps_temporal_nesting :: u32
  hp_sps_id :: u32
  hp_chroma_format_idc :: u32
  hp_pic_width :: u32
  hp_pic_height :: u32
  hp_ctb_cols :: u32
  hp_ctb_rows :: u32
  hp_conf_win_flag :: u32
  hp_conf_win_left :: u32
  hp_conf_win_right :: u32
  hp_conf_win_top :: u32
  hp_conf_win_bottom :: u32
  hp_bit_depth_luma_m8 :: u32
  hp_bit_depth_chroma_m8 :: u32
  hp_log2_max_poc_lsb_m4 :: u32
  hp_sps_sublayer_info :: u32
  hp_sps_max_dec_pic_buf_m1 :: u32
  hp_sps_num_reorder :: u32
  hp_sps_max_latency :: u32
  hp_log2_min_cb_m3 :: u32
  hp_log2_diff_cb :: u32
  hp_log2_min_tb_m2 :: u32
  hp_log2_diff_tb :: u32
  hp_tb_depth_inter :: u32
  hp_tb_depth_intra :: u32
  hp_scaling_enabled :: u32
  hp_scaling_present :: u32
  hp_amp :: u32
  hp_sao :: u32
  hp_pcm :: u32
  hp_sps_tmvp :: u32
  hp_strong_intra :: u32
  hp_vui_present :: u32
  hp_sps_ext :: u32
  hp_sps_fw_creates_header :: u32
  hp_sps_header_len :: u32

record ave_hevc_ps_pps = ave_hevc_ps_sps +
  hp_pps_layer_id :: u32
  hp_pps_id :: u32
  hp_pps_sps_id :: u32
  hp_dependent_slices :: u32
  hp_output_flag_present :: u32
  hp_extra_sh_bits :: u32
  hp_sign_hiding :: u32
  hp_cabac_init_present :: u32
  hp_num_ref_l0_m1 :: u32
  hp_num_ref_l1_m1 :: u32
  hp_init_qp_m26 :: u32
  hp_constrained_intra :: u32
  hp_transform_skip :: u32
  hp_cu_qp_delta :: u32
  hp_cu_qp_delta_depth :: u32
  hp_cb_qp_offset :: u32
  hp_cr_qp_offset :: u32
  hp_chroma_qp_offsets_present :: u32
  hp_weighted_pred :: u32
  hp_weighted_bipred :: u32
  hp_transquant_bypass :: u32
  hp_tiles :: u32
  hp_wpp :: u32
  hp_lf_across_slices :: u32
  hp_deblock_ctrl_present :: u32
  hp_deblock_override :: u32
  hp_deblock_disable :: u32
  hp_beta_offset_div2 :: u32
  hp_tc_offset_div2 :: u32
  hp_pps_scaling_present :: u32
  hp_lists_mod :: u32
  hp_par_merge_m2 :: u32
  hp_sh_ext_present :: u32
  hp_pps_ext :: u32
  hp_pps_fw_creates_header :: u32
  hp_pps_header_len :: u32

record ave_hevc_ps_layout = ave_hevc_ps_pps +
  hp_rps_num_st :: u32
  hp_rps_entry0 :: u32
  hp_rps_entry_stride :: u32
  hp_rps_inter_pred :: u32
  hp_rps_num_neg :: u32
  hp_rps_num_pos :: u32
  hp_rps_dpoc_s0_m1 :: u32
  hp_rps_used_s0 :: u32
  hp_rps_dpoc_s1_m1 :: u32
  hp_rps_used_s1 :: u32
  hp_rps_num_delta_pocs :: u32
  hp_rps_d_num_neg :: u32
  hp_rps_d_num_pos :: u32
  hp_rps_d_used_s0 :: u32
  hp_rps_d_used_s1 :: u32
  hp_rps_d_delta_poc_s0 :: u32
  hp_rps_d_delta_poc_s1 :: u32
  hp_rps_lt_present :: u32

record ave_process_hevc_layout =
  ph_slice :: u32
  ph_slice_size :: u32
  ph_slice_fw_copy :: u32
  ph_picmgmt :: u32
  ph_pic_extra :: u32
  ph_st_rps :: u32
  ph_lt_rps :: u32
  ph_st_rps_sps_flag :: u32
  ph_st_rps_idx :: u32
  ph_sh_size_word :: u32
  ph_sh_first_slice :: u32
  ph_sh_pps_id :: u32
  ph_sh_poc_lsb :: u32
  ph_sh_tmvp :: u32
  ph_sh_sao_luma :: u32
  ph_sh_sao_chroma :: u32
  ph_sh_col_from_l0 :: u32
  ph_sh_five_minus_merge :: u32
  ph_sh_lf_across :: u32
  ph_sh_map :: u32
  ph_sh_seg_limit :: u32
  ph_sh_hdr_slots :: u32
  ph_hdr_slots :: u32
  ph_hdr_slot_bytes :: u32
  ph_pic_single_xc :: u32

text \<open>The groups of \<open>enum ave_macos_group\<close> are their bit numbers.\<close>

definition AVE_MACOS_G_GOP :: u32 where "AVE_MACOS_G_GOP = 0"
definition AVE_MACOS_G_PARAMS :: u32 where "AVE_MACOS_G_PARAMS = 1"
definition AVE_MACOS_G_SH :: u32 where "AVE_MACOS_G_SH = 2"
definition AVE_MACOS_G_RC :: u32 where "AVE_MACOS_G_RC = 3"
definition AVE_MACOS_G_ME :: u32 where "AVE_MACOS_G_ME = 4"
definition AVE_MACOS_G_ADAPTB :: u32 where "AVE_MACOS_G_ADAPTB = 5"
definition AVE_MACOS_G_PIC :: u32 where "AVE_MACOS_G_PIC = 6"
definition AVE_MACOS_G_SPS :: u32 where "AVE_MACOS_G_SPS = 7"
definition AVE_MACOS_G_BUFS :: u32 where "AVE_MACOS_G_BUFS = 8"
definition AVE_MACOS_G_QPMOD :: u32 where "AVE_MACOS_G_QPMOD = 9"
definition AVE_MACOS_G_COUNT :: u32 where "AVE_MACOS_G_COUNT = 10"
definition AVE_MACOS_ALL :: u32 where "AVE_MACOS_ALL = push_bit (unat AVE_MACOS_G_COUNT) 1 - 1"

lemmas macos_groups =
  AVE_MACOS_G_GOP_def AVE_MACOS_G_PARAMS_def AVE_MACOS_G_SH_def AVE_MACOS_G_RC_def
  AVE_MACOS_G_ME_def AVE_MACOS_G_ADAPTB_def AVE_MACOS_G_PIC_def AVE_MACOS_G_SPS_def
  AVE_MACOS_G_BUFS_def AVE_MACOS_G_QPMOD_def AVE_MACOS_G_COUNT_def

record ave_macos_patch =
  mp_group :: u32
  mp_width :: u32
  mp_off :: u32
  mp_val :: u32

text \<open>A table pointer with its count is a list.\<close>

record ave_cmd_abi =
  ab_abi :: ave_fw_abi
  ab_name :: string
  ab_cmd :: "ave_op \<Rightarrow> ave_cmd_desc"
  ab_hdr :: ave_hdr_layout
  ab_reply :: ave_reply_layout
  ab_config :: ave_config_layout
  ab_start_avc :: ave_start_avc_layout
  ab_sps :: ave_sps_layout
  ab_pps :: ave_pps_layout
  ab_process_avc :: ave_process_avc_layout
  ab_coded_hdr :: ave_coded_hdr_layout
  ab_start_hevc :: ave_start_hevc_layout
  ab_hps :: ave_hevc_ps_layout
  ab_process_hevc :: ave_process_hevc_layout
  ab_macos_start_avc :: "ave_macos_patch list"
  ab_macos_process_avc :: "ave_macos_patch list"

end
