(* ===== verification/Ave_Abi_Tables.thy ===== *)
theory Ave_Abi_Tables
  imports Ave_Abi
begin

text \<open>
  The two tables of \<^verbatim>\<open>src/driver/ave_abi.h\<close>: macOS 13.5 and macOS 26.6. What each field is
  worth is a lemma per sub-table (\<open>start_avc_13_5_fields\<close> and so on), which the proofs about the
  commands rewrite with.
\<close>

section \<open>Command and reply ids\<close>

definition AVE135_CMD_CONFIG :: u16 where "AVE135_CMD_CONFIG = 1"
definition AVE135_REPLY_CONFIG_DONE :: u16 where "AVE135_REPLY_CONFIG_DONE = 0xe01"
definition AVE135_CMD_POWERDOWN :: u16 where "AVE135_CMD_POWERDOWN = 14"
definition AVE135_CMD_START :: u16 where "AVE135_CMD_START = 2"
definition AVE135_REPLY_START_DONE :: u16 where "AVE135_REPLY_START_DONE = 0xe02"
definition AVE135_CMD_STOP :: u16 where "AVE135_CMD_STOP = 12"
definition AVE135_REPLY_STOP_DONE :: u16 where "AVE135_REPLY_STOP_DONE = 0xe0a"
definition AVE135_CMD_AVC_INIT :: u16 where "AVE135_CMD_AVC_INIT = 4"
definition AVE135_REPLY_INIT_DONE :: u16 where "AVE135_REPLY_INIT_DONE = 0xe04"
definition AVE135_CMD_HEVC_INIT :: u16 where "AVE135_CMD_HEVC_INIT = 5"
definition AVE135_CMD_UNINIT :: u16 where "AVE135_CMD_UNINIT = 6"
definition AVE135_REPLY_UNINIT_DONE :: u16 where "AVE135_REPLY_UNINIT_DONE = 0xe05"
definition AVE135_CMD_AVC_ENCODE :: u16 where "AVE135_CMD_AVC_ENCODE = 7"
definition AVE135_REPLY_ENCODE_DONE :: u16 where "AVE135_REPLY_ENCODE_DONE = 0xe06"
definition AVE135_CMD_HEVC_ENCODE :: u16 where "AVE135_CMD_HEVC_ENCODE = 8"
definition AVE135_CMD_COMPLETE :: u16 where "AVE135_CMD_COMPLETE = 13"
definition AVE135_REPLY_COMPLETE_DONE :: u16 where "AVE135_REPLY_COMPLETE_DONE = 0xe0b"
definition AVE135_CMD_FLUSH :: u16 where "AVE135_CMD_FLUSH = 11"
definition AVE135_REPLY_FLUSH_DONE :: u16 where "AVE135_REPLY_FLUSH_DONE = 0xe09"
definition AVE135_CMD_RESET :: u16 where "AVE135_CMD_RESET = 3"
definition AVE135_REPLY_RESET_DONE :: u16 where "AVE135_REPLY_RESET_DONE = 0xe03"
definition AVE_CMD_CONFIG :: u16 where "AVE_CMD_CONFIG = 1"
definition AVE_CMD_HALT :: u16 where "AVE_CMD_HALT = 2"
definition AVE_CMD_OPEN :: u16 where "AVE_CMD_OPEN = 3"
definition AVE_CMD_CLOSE :: u16 where "AVE_CMD_CLOSE = 4"
definition AVE_CMD_START :: u16 where "AVE_CMD_START = 6"
definition AVE_CMD_STOP :: u16 where "AVE_CMD_STOP = 7"
definition AVE_CMD_PROCESS :: u16 where "AVE_CMD_PROCESS = 8"
definition AVE_CMD_COMPLETE :: u16 where "AVE_CMD_COMPLETE = 9"
definition AVE_CMD_PRIORITY :: u16 where "AVE_CMD_PRIORITY = 10"
definition AVE_CMD_FLUSH :: u16 where "AVE_CMD_FLUSH = 11"
definition AVE_CMD_RESET :: u16 where "AVE_CMD_RESET = 12"
definition AVE_CMDSZ_CONFIG :: u32 where "AVE_CMDSZ_CONFIG = 0x78"
definition AVE_CMDSZ_COMMON :: u32 where "AVE_CMDSZ_COMMON = 0x48"
definition AVE_CMDSZ_AVC_START :: u32 where "AVE_CMDSZ_AVC_START = 0x3180"
definition AVE_CMDSZ_HEVC_START :: u32 where "AVE_CMDSZ_HEVC_START = 0x13f28"
definition AVE_CMDSZ_AVC_PROCESS :: u32 where "AVE_CMDSZ_AVC_PROCESS = 0x63d8"
definition AVE_CMDSZ_HEVC_PROCESS :: u32 where "AVE_CMDSZ_HEVC_PROCESS = 0xb1c0"
definition AVE_CMDSZ_RESET :: u32 where "AVE_CMDSZ_RESET = 0x13f08"

lemmas cmd_ids =
  AVE135_CMD_CONFIG_def AVE135_REPLY_CONFIG_DONE_def AVE135_CMD_POWERDOWN_def
  AVE135_CMD_START_def AVE135_REPLY_START_DONE_def AVE135_CMD_STOP_def
  AVE135_REPLY_STOP_DONE_def AVE135_CMD_AVC_INIT_def AVE135_REPLY_INIT_DONE_def
  AVE135_CMD_HEVC_INIT_def AVE135_CMD_UNINIT_def AVE135_REPLY_UNINIT_DONE_def
  AVE135_CMD_AVC_ENCODE_def AVE135_REPLY_ENCODE_DONE_def AVE135_CMD_HEVC_ENCODE_def
  AVE135_CMD_COMPLETE_def AVE135_REPLY_COMPLETE_DONE_def AVE135_CMD_FLUSH_def
  AVE135_REPLY_FLUSH_DONE_def AVE135_CMD_RESET_def AVE135_REPLY_RESET_DONE_def
  AVE_CMD_CONFIG_def AVE_CMD_HALT_def AVE_CMD_OPEN_def AVE_CMD_CLOSE_def AVE_CMD_START_def
  AVE_CMD_STOP_def AVE_CMD_PROCESS_def AVE_CMD_COMPLETE_def AVE_CMD_PRIORITY_def
  AVE_CMD_FLUSH_def AVE_CMD_RESET_def AVE_CMDSZ_CONFIG_def AVE_CMDSZ_COMMON_def
  AVE_CMDSZ_AVC_START_def AVE_CMDSZ_HEVC_START_def AVE_CMDSZ_AVC_PROCESS_def
  AVE_CMDSZ_HEVC_PROCESS_def AVE_CMDSZ_RESET_def

section \<open>Offsets of macOS 26.6 and shared values\<close>

definition AVE135_STATUS_OK :: u32 where "AVE135_STATUS_OK = 0x00ee0000"
definition AVE_ENC_AVC :: u32 where "AVE_ENC_AVC = 1"
definition AVE_ENC_HEVC :: u32 where "AVE_ENC_HEVC = 2"
definition AVE_MAX_INFLIGHT :: u32 where "AVE_MAX_INFLIGHT = 51"
definition AVE_START_FWCLIENT_ADDR :: u32 where "AVE_START_FWCLIENT_ADDR = 0x048"
definition AVE_START_FWCLIENT_SIZE :: u32 where "AVE_START_FWCLIENT_SIZE = 0x050"
definition AVE_START_FWCLIENTMEM_ADDR :: u32 where "AVE_START_FWCLIENTMEM_ADDR = 0x058"
definition AVE_START_FWCLIENTMEM_SIZE :: u32 where "AVE_START_FWCLIENTMEM_SIZE = 0x060"
definition AVE_START_WIDTH :: u32 where "AVE_START_WIDTH = 0x368"
definition AVE_START_HEIGHT :: u32 where "AVE_START_HEIGHT = 0x36c"
definition AVE_START_FRAMERATE :: u32 where "AVE_START_FRAMERATE = 0x220"
definition AVE_START_BITRATE :: u32 where "AVE_START_BITRATE = 0x238"
definition AVE_START_RCMODE :: u32 where "AVE_START_RCMODE = 0x234"
definition AVE_RC_MODE_CONST_QP :: u32 where "AVE_RC_MODE_CONST_QP = 3"
definition AVE_START_RC_FEATURE :: u32 where "AVE_START_RC_FEATURE = 0x228"
definition AVE_RC_FEATURE_NEW_FRAMEWORK :: u64 where "AVE_RC_FEATURE_NEW_FRAMEWORK = push_bit 31 1"
definition AVE_START_QP_I :: u32 where "AVE_START_QP_I = 0x240"
definition AVE_START_QP_P :: u32 where "AVE_START_QP_P = 0x244"
definition AVE_START_QP_B :: u32 where "AVE_START_QP_B = 0x248"
definition AVE_START_QP_MIN :: u32 where "AVE_START_QP_MIN = 0x298"
definition AVE_START_QP_MAX :: u32 where "AVE_START_QP_MAX = 0x29c"
definition AVE_START_MAX_GOP :: u32 where "AVE_START_MAX_GOP = 0x2b8"
definition AVE_START_STRICT_GOP :: u32 where "AVE_START_STRICT_GOP = 0x2bc"
definition AVE_START_SLICE_MAP_NUM :: u32 where "AVE_START_SLICE_MAP_NUM = 0x25d4"
definition AVE_START_RECON_SET :: u32 where "AVE_START_RECON_SET = 0x0390"
definition AVE_START_RECON_STRIDE :: u32 where "AVE_START_RECON_STRIDE = 0x20"
definition AVE_CODED_MAX_BUFS :: u32 where "AVE_CODED_MAX_BUFS = 30"
definition AVE_START_CODED_DATA_SET :: u32 where "AVE_START_CODED_DATA_SET = 0x0d50"
definition AVE_START_BUF_STRIDE :: u32 where "AVE_START_BUF_STRIDE = 0x10"
definition AVE_START_CODED_HDR_SET :: u32 where "AVE_START_CODED_HDR_SET = 0x0f50"
definition AVE_CODED_HEADER_SIZE :: u32 where "AVE_CODED_HEADER_SIZE = 0xc000"
definition AVE_START_SPS_OFF :: u32 where "AVE_START_SPS_OFF = 0x291c"
definition AVE_START_SPS_SIZE :: u32 where "AVE_START_SPS_SIZE = 0x6b4"
definition AVE_START_PPS_OFF :: u32 where "AVE_START_PPS_OFF = 0x2fd0"
definition AVE_START_PPS_SIZE :: u32 where "AVE_START_PPS_SIZE = 0x180"
definition AVE_SPS_PROFILE :: u32 where "AVE_SPS_PROFILE = 0x291c"
definition AVE_SPS_LEVEL :: u32 where "AVE_SPS_LEVEL = 0x2938"
definition AVE_SPS_SEQ_PARAM_SET_ID :: u32 where "AVE_SPS_SEQ_PARAM_SET_ID = 0x293c"
definition AVE_SPS_CHROMA_FORMAT_IDC :: u32 where "AVE_SPS_CHROMA_FORMAT_IDC = 0x2940"
definition AVE_SPS_BIT_DEPTH_LUMA_M8 :: u32 where "AVE_SPS_BIT_DEPTH_LUMA_M8 = 0x2948"
definition AVE_SPS_BIT_DEPTH_CHROMA_M8 :: u32 where "AVE_SPS_BIT_DEPTH_CHROMA_M8 = 0x294c"
definition AVE_SPS_LOG2_MAX_FRAME_NUM_M4 :: u32 where "AVE_SPS_LOG2_MAX_FRAME_NUM_M4 = 0x2d34"
definition AVE_SPS_POC_TYPE :: u32 where "AVE_SPS_POC_TYPE = 0x2d38"
definition AVE_START_MAX_REF :: u32 where "AVE_START_MAX_REF = 0x2d44"
definition AVE_SPS_GAPS_IN_FRAME_NUM :: u32 where "AVE_SPS_GAPS_IN_FRAME_NUM = 0x2d48"
definition AVE_SPS_PIC_WIDTH_MBS_M1 :: u32 where "AVE_SPS_PIC_WIDTH_MBS_M1 = 0x2d4c"
definition AVE_SPS_PIC_HEIGHT_MAPU_M1 :: u32 where "AVE_SPS_PIC_HEIGHT_MAPU_M1 = 0x2d50"
definition AVE_SPS_FRAME_MBS_ONLY :: u32 where "AVE_SPS_FRAME_MBS_ONLY = 0x2d54"
definition AVE_SPS_DIRECT_8X8_INFERENCE :: u32 where "AVE_SPS_DIRECT_8X8_INFERENCE = 0x2d58"
definition AVE_SPS_VUI_PRESENT :: u32 where "AVE_SPS_VUI_PRESENT = 0x2d5c"
definition AVE_SPS_FRAME_CROPPING :: u32 where "AVE_SPS_FRAME_CROPPING = 0x2db4"
definition AVE_SPS_CROP_LEFT :: u32 where "AVE_SPS_CROP_LEFT = 0x2db8"
definition AVE_SPS_CROP_RIGHT :: u32 where "AVE_SPS_CROP_RIGHT = 0x2dbc"
definition AVE_SPS_CROP_TOP :: u32 where "AVE_SPS_CROP_TOP = 0x2dc0"
definition AVE_SPS_CROP_BOTTOM :: u32 where "AVE_SPS_CROP_BOTTOM = 0x2dc4"
definition AVE_SPS_FW_CREATES_HDR :: u32 where "AVE_SPS_FW_CREATES_HDR = 0x2dc8"
definition AVE_SPS_HEADER_LEN :: u32 where "AVE_SPS_HEADER_LEN = 0x2dcc"
definition AVE_PPS_PIC_PARAM_SET_ID :: u32 where "AVE_PPS_PIC_PARAM_SET_ID = 0x2fd0"
definition AVE_PPS_SEQ_PARAM_SET_ID :: u32 where "AVE_PPS_SEQ_PARAM_SET_ID = 0x2fd4"
definition AVE_PPS_ENTROPY_CODING_MODE :: u32 where "AVE_PPS_ENTROPY_CODING_MODE = 0x2fd8"
definition AVE_PPS_NUM_SLICE_GROUPS_M1 :: u32 where "AVE_PPS_NUM_SLICE_GROUPS_M1 = 0x2fe0"
definition AVE_PPS_PIC_INIT_QP_M26 :: u32 where "AVE_PPS_PIC_INIT_QP_M26 = 0x2ff8"
definition AVE_PPS_DEBLOCKING_CTRL :: u32 where "AVE_PPS_DEBLOCKING_CTRL = 0x3020"
definition AVE_PPS_CONSTRAINED_INTRA :: u32 where "AVE_PPS_CONSTRAINED_INTRA = 0x3021"
definition AVE_PPS_TRANSFORM_8X8 :: u32 where "AVE_PPS_TRANSFORM_8X8 = 0x3023"
definition AVE_PPS_FW_CREATES_HDR :: u32 where "AVE_PPS_FW_CREATES_HDR = 0x3048"
definition AVE_PICMGMT_OFF :: u32 where "AVE_PICMGMT_OFF = 0x12c0"
definition AVE_PICMGMT_SIZE :: u32 where "AVE_PICMGMT_SIZE = 0x5118"
definition AVE_PIC_FRAME_NUM :: u32 where "AVE_PIC_FRAME_NUM = 0x4f68"
definition AVE_PIC_POC :: u32 where "AVE_PIC_POC = 0x4f80"
definition AVE_PIC_FRAME_RATE :: u32 where "AVE_PIC_FRAME_RATE = 0x4fa8"
definition AVE_PIC_FRAME_TYPE :: u32 where "AVE_PIC_FRAME_TYPE = 0x4f78"
definition AVE_PIC_INPUT_COMPRESSED :: u32 where "AVE_PIC_INPUT_COMPRESSED = 0x174e"
definition AVE_PIC_IN_LUMA_ADDR :: u32 where "AVE_PIC_IN_LUMA_ADDR = 0x4570"
definition AVE_PIC_IN_LUMA_SIZE :: u32 where "AVE_PIC_IN_LUMA_SIZE = 0x4578"
definition AVE_PIC_IN_LUMA_STRIDE :: u32 where "AVE_PIC_IN_LUMA_STRIDE = 0x457c"
definition AVE_PIC_IN_CHROMA_ADDR :: u32 where "AVE_PIC_IN_CHROMA_ADDR = 0x4590"
definition AVE_PIC_IN_CHROMA_SIZE :: u32 where "AVE_PIC_IN_CHROMA_SIZE = 0x4598"
definition AVE_PIC_IN_CHROMA_STRIDE :: u32 where "AVE_PIC_IN_CHROMA_STRIDE = 0x459c"
definition AVE_PIC_OUT_MODE :: u32 where "AVE_PIC_OUT_MODE = 0x4ef0"
definition AVE_PIC_OUT_INDEX :: u32 where "AVE_PIC_OUT_INDEX = 0x4ef4"
definition AVE_PIC_OUT_CODED :: u32 where "AVE_PIC_OUT_CODED = 0x4ef8"
definition AVE_PIC_OUT_CODED_HDR :: u32 where "AVE_PIC_OUT_CODED_HDR = 0x4f00"
definition AVE_PIC_OUT_CODED_SIZE :: u32 where "AVE_PIC_OUT_CODED_SIZE = 0x4f08"
definition AVE_PIC_RECON_Y_MSB :: u32 where "AVE_PIC_RECON_Y_MSB = 0x4548"
definition AVE_PIC_RECON_UV_MSB :: u32 where "AVE_PIC_RECON_UV_MSB = 0x4558"
definition AVE_PIC_RECON_MV :: u32 where "AVE_PIC_RECON_MV = 0x4568"
definition AVE_PIC_RECON_Y_LSB :: u32 where "AVE_PIC_RECON_Y_LSB = 0x4550"
definition AVE_PIC_RECON_UV_LSB :: u32 where "AVE_PIC_RECON_UV_LSB = 0x4560"
definition AVE_PIC_CTX_INDEX :: u32 where "AVE_PIC_CTX_INDEX = 0x4fa4"
definition AVE_PIC_FORCE_KEYFRAME :: u32 where "AVE_PIC_FORCE_KEYFRAME = 0x1738"
definition AVE_PIC_LOWRES_LUMA_SCALED :: u32 where "AVE_PIC_LOWRES_LUMA_SCALED = 0x4f10"
definition AVE_PIC_LOWRES_RESULTS :: u32 where "AVE_PIC_LOWRES_RESULTS = 0x4f48"
definition AVE_PIC_SRC_NEIGH_INFO :: u32 where "AVE_PIC_SRC_NEIGH_INFO = 0x4670"
definition AVE_PIC_SRC_NEIGH_PIXEL :: u32 where "AVE_PIC_SRC_NEIGH_PIXEL = 0x4690"
definition AVE_PIC_SRC_NEIGH_DATA :: u32 where "AVE_PIC_SRC_NEIGH_DATA = 0x46b0"
definition AVE_PIC_SRC_NEIGH_FWDATA :: u32 where "AVE_PIC_SRC_NEIGH_FWDATA = 0x46d0"
definition AVE_PIC_SCRATCH_CMDINFO40 :: u32 where "AVE_PIC_SCRATCH_CMDINFO40 = 0x45f8"
definition AVE_PIC_SCRATCH_SLOTPOOL :: u32 where "AVE_PIC_SCRATCH_SLOTPOOL = 0x4608"
definition AVE_PIC_SCRATCH_CMDINFO48 :: u32 where "AVE_PIC_SCRATCH_CMDINFO48 = 0x4618"

lemmas layout_consts =
  AVE_OFF_NONE_def AVE135_STATUS_OK_def AVE_ENC_AVC_def AVE_ENC_HEVC_def AVE_MAX_INFLIGHT_def
  AVE_START_FWCLIENT_ADDR_def AVE_START_FWCLIENT_SIZE_def AVE_START_FWCLIENTMEM_ADDR_def
  AVE_START_FWCLIENTMEM_SIZE_def AVE_START_WIDTH_def AVE_START_HEIGHT_def
  AVE_START_FRAMERATE_def AVE_START_BITRATE_def AVE_START_RCMODE_def AVE_RC_MODE_CONST_QP_def
  AVE_START_RC_FEATURE_def AVE_RC_FEATURE_NEW_FRAMEWORK_def AVE_START_QP_I_def
  AVE_START_QP_P_def AVE_START_QP_B_def AVE_START_QP_MIN_def AVE_START_QP_MAX_def
  AVE_START_MAX_GOP_def AVE_START_STRICT_GOP_def AVE_START_SLICE_MAP_NUM_def
  AVE_START_RECON_SET_def AVE_START_RECON_STRIDE_def AVE_CODED_MAX_BUFS_def
  AVE_START_CODED_DATA_SET_def AVE_START_BUF_STRIDE_def AVE_START_CODED_HDR_SET_def
  AVE_CODED_HEADER_SIZE_def AVE_START_SPS_OFF_def AVE_START_SPS_SIZE_def AVE_START_PPS_OFF_def
  AVE_START_PPS_SIZE_def AVE_SPS_PROFILE_def AVE_SPS_LEVEL_def AVE_SPS_SEQ_PARAM_SET_ID_def
  AVE_SPS_CHROMA_FORMAT_IDC_def AVE_SPS_BIT_DEPTH_LUMA_M8_def AVE_SPS_BIT_DEPTH_CHROMA_M8_def
  AVE_SPS_LOG2_MAX_FRAME_NUM_M4_def AVE_SPS_POC_TYPE_def AVE_START_MAX_REF_def
  AVE_SPS_GAPS_IN_FRAME_NUM_def AVE_SPS_PIC_WIDTH_MBS_M1_def AVE_SPS_PIC_HEIGHT_MAPU_M1_def
  AVE_SPS_FRAME_MBS_ONLY_def AVE_SPS_DIRECT_8X8_INFERENCE_def AVE_SPS_VUI_PRESENT_def
  AVE_SPS_FRAME_CROPPING_def AVE_SPS_CROP_LEFT_def AVE_SPS_CROP_RIGHT_def AVE_SPS_CROP_TOP_def
  AVE_SPS_CROP_BOTTOM_def AVE_SPS_FW_CREATES_HDR_def AVE_SPS_HEADER_LEN_def
  AVE_PPS_PIC_PARAM_SET_ID_def AVE_PPS_SEQ_PARAM_SET_ID_def AVE_PPS_ENTROPY_CODING_MODE_def
  AVE_PPS_NUM_SLICE_GROUPS_M1_def AVE_PPS_PIC_INIT_QP_M26_def AVE_PPS_DEBLOCKING_CTRL_def
  AVE_PPS_CONSTRAINED_INTRA_def AVE_PPS_TRANSFORM_8X8_def AVE_PPS_FW_CREATES_HDR_def
  AVE_PICMGMT_OFF_def AVE_PICMGMT_SIZE_def AVE_PIC_FRAME_NUM_def AVE_PIC_POC_def
  AVE_PIC_FRAME_RATE_def AVE_PIC_FRAME_TYPE_def AVE_PIC_INPUT_COMPRESSED_def
  AVE_PIC_IN_LUMA_ADDR_def AVE_PIC_IN_LUMA_SIZE_def AVE_PIC_IN_LUMA_STRIDE_def
  AVE_PIC_IN_CHROMA_ADDR_def AVE_PIC_IN_CHROMA_SIZE_def AVE_PIC_IN_CHROMA_STRIDE_def
  AVE_PIC_OUT_MODE_def AVE_PIC_OUT_INDEX_def AVE_PIC_OUT_CODED_def AVE_PIC_OUT_CODED_HDR_def
  AVE_PIC_OUT_CODED_SIZE_def AVE_PIC_RECON_Y_MSB_def AVE_PIC_RECON_UV_MSB_def
  AVE_PIC_RECON_MV_def AVE_PIC_RECON_Y_LSB_def AVE_PIC_RECON_UV_LSB_def AVE_PIC_CTX_INDEX_def
  AVE_PIC_FORCE_KEYFRAME_def AVE_PIC_LOWRES_LUMA_SCALED_def AVE_PIC_LOWRES_RESULTS_def
  AVE_PIC_SRC_NEIGH_INFO_def AVE_PIC_SRC_NEIGH_PIXEL_def AVE_PIC_SRC_NEIGH_DATA_def
  AVE_PIC_SRC_NEIGH_FWDATA_def AVE_PIC_SCRATCH_CMDINFO40_def AVE_PIC_SCRATCH_SLOTPOOL_def
  AVE_PIC_SCRATCH_CMDINFO48_def

section \<open>macOS 13.5\<close>

definition cmd_13_5 :: "ave_op \<Rightarrow> ave_cmd_desc" where
  "cmd_13_5 op =
     (case op of
        AVE_OP_CONFIG \<Rightarrow> \<lparr>cd_id = AVE135_CMD_CONFIG, cd_reply_id = AVE135_REPLY_CONFIG_DONE, cd_size = 0x70,
          cd_slot = AVE_SLOT_GLOBAL, cd_priority = 0, cd_reply_size = 0x40\<rparr>
      | AVE_OP_HALT \<Rightarrow> \<lparr>cd_id = AVE135_CMD_POWERDOWN, cd_reply_id = 0, cd_size = 0x40,
          cd_slot = AVE_SLOT_GLOBAL, cd_priority = 0, cd_reply_size = 0\<rparr>
      | AVE_OP_OPEN \<Rightarrow> \<lparr>cd_id = AVE135_CMD_START, cd_reply_id = AVE135_REPLY_START_DONE, cd_size = 0x40,
          cd_slot = 3, cd_priority = AVE_PRIORITY_DEFAULT, cd_reply_size = 0x40\<rparr>
      | AVE_OP_CLOSE \<Rightarrow> \<lparr>cd_id = AVE135_CMD_STOP, cd_reply_id = AVE135_REPLY_STOP_DONE, cd_size = 0x48,
          cd_slot = 4, cd_priority = AVE_PRIORITY_DEFAULT, cd_reply_size = 0x40\<rparr>
      | AVE_OP_START_AVC \<Rightarrow> \<lparr>cd_id = AVE135_CMD_AVC_INIT, cd_reply_id = AVE135_REPLY_INIT_DONE, cd_size = 0x10e10,
          cd_slot = 6, cd_priority = AVE_PRIORITY_DEFAULT, cd_reply_size = 0x40\<rparr>
      | AVE_OP_START_HEVC \<Rightarrow> \<lparr>cd_id = AVE135_CMD_HEVC_INIT, cd_reply_id = AVE135_REPLY_INIT_DONE, cd_size = 0x32dc8,
          cd_slot = 6, cd_priority = AVE_PRIORITY_DEFAULT, cd_reply_size = 0x40\<rparr>
      | AVE_OP_STOP \<Rightarrow> \<lparr>cd_id = AVE135_CMD_UNINIT, cd_reply_id = AVE135_REPLY_UNINIT_DONE, cd_size = 0x40,
          cd_slot = 7, cd_priority = AVE_PRIORITY_DEFAULT, cd_reply_size = 0x40\<rparr>
      | AVE_OP_PROCESS_AVC \<Rightarrow> \<lparr>cd_id = AVE135_CMD_AVC_ENCODE, cd_reply_id = AVE135_REPLY_ENCODE_DONE, cd_size = 0x1940,
          cd_slot = AVE_SLOT_CALLER, cd_priority = AVE_PRIORITY_DEFAULT, cd_reply_size = 0x48\<rparr>
      | AVE_OP_PROCESS_HEVC \<Rightarrow> \<lparr>cd_id = AVE135_CMD_HEVC_ENCODE, cd_reply_id = AVE135_REPLY_ENCODE_DONE, cd_size = 0x6838,
          cd_slot = AVE_SLOT_CALLER, cd_priority = AVE_PRIORITY_DEFAULT, cd_reply_size = 0x48\<rparr>
      | AVE_OP_COMPLETE \<Rightarrow> \<lparr>cd_id = AVE135_CMD_COMPLETE, cd_reply_id = AVE135_REPLY_COMPLETE_DONE, cd_size = 0x40,
          cd_slot = 9, cd_priority = AVE_PRIORITY_DEFAULT, cd_reply_size = 0x40\<rparr>
      | AVE_OP_FLUSH \<Rightarrow> \<lparr>cd_id = AVE135_CMD_FLUSH, cd_reply_id = AVE135_REPLY_FLUSH_DONE, cd_size = 0x40,
          cd_slot = 10, cd_priority = AVE_PRIORITY_DEFAULT, cd_reply_size = 0x40\<rparr>
      | AVE_OP_RESET \<Rightarrow> \<lparr>cd_id = AVE135_CMD_RESET, cd_reply_id = AVE135_REPLY_RESET_DONE, cd_size = 0x32db0,
          cd_slot = 11, cd_priority = AVE_PRIORITY_DEFAULT, cd_reply_size = 0x40\<rparr>
      | _ \<Rightarrow> \<lparr>cd_id = 0, cd_reply_id = 0, cd_size = 0, cd_slot = 0, cd_priority = 0, cd_reply_size = 0\<rparr>)"

definition hdr_13_5 :: ave_hdr_layout where
  "hdr_13_5 =
     \<lparr>hl_count = 0x08, hl_client_id = 0x10, hl_client_id_bytes = 4,
      hl_work_type = AVE_OFF_NONE, hl_codec = 0x18, hl_slot = 0x1c, hl_priority = 0x20,
      hl_timeout = 0x28, hl_codec_avc = 0, hl_codec_hevc = 1, hl_max_slot = 41\<rparr>"

lemma hdr_13_5_fields:
  "hl_count hdr_13_5 = 8" "hl_client_id hdr_13_5 = 0x10" "hl_client_id_bytes hdr_13_5 = 4"
  "hl_work_type hdr_13_5 = 0" "hl_codec hdr_13_5 = 0x18" "hl_slot hdr_13_5 = 0x1c"
  "hl_priority hdr_13_5 = 0x20" "hl_timeout hdr_13_5 = 0x28" "hl_codec_avc hdr_13_5 = 0"
  "hl_codec_hevc hdr_13_5 = 1" "hl_max_slot hdr_13_5 = 0x29"
  by (simp_all add: hdr_13_5_def layout_consts abi_consts)

definition reply_13_5 :: ave_reply_layout where
  "reply_13_5 =
     \<lparr>rl_id = 0x00, rl_client_id = 0x10, rl_client_id_bytes = 4, rl_slot = 0x1c,
      rl_status = 0x38, rl_status_ok = AVE135_STATUS_OK\<rparr>"

lemma reply_13_5_fields:
  "rl_id reply_13_5 = 0" "rl_client_id reply_13_5 = 0x10" "rl_client_id_bytes reply_13_5 = 4"
  "rl_slot reply_13_5 = 0x1c" "rl_status reply_13_5 = 0x38"
  "rl_status_ok reply_13_5 = 0xee0000"
  by (simp_all add: reply_13_5_def layout_consts abi_consts)

definition config_13_5 :: ave_config_layout where
  "config_13_5 =
     \<lparr>cl_skip_mcpu = 0x40, cl_create_mcpu = 0x41, cl_reg_dart_addr = 0x48,
      cl_doorbell_cadence0 = 0x50, cl_doorbell_cadence1 = 0x54, cl_dsid = 0x58,
      cl_dsid2 = 0x59, cl_dsid_bytes = 1, cl_shmem_addr = 0x60, cl_shmem_size = 0x68,
      cl_shmem_min = 4 * (2744 + 2048 + 4)\<rparr>"

lemma config_13_5_fields:
  "cl_skip_mcpu config_13_5 = 0x40" "cl_create_mcpu config_13_5 = 0x41"
  "cl_reg_dart_addr config_13_5 = 0x48" "cl_doorbell_cadence0 config_13_5 = 0x50"
  "cl_doorbell_cadence1 config_13_5 = 0x54" "cl_dsid config_13_5 = 0x58"
  "cl_dsid2 config_13_5 = 0x59" "cl_dsid_bytes config_13_5 = 1"
  "cl_shmem_addr config_13_5 = 0x60" "cl_shmem_size config_13_5 = 0x68"
  "cl_shmem_min config_13_5 = 0x4af0"
  by (simp_all add: config_13_5_def layout_consts abi_consts)

definition start_avc_13_5 :: ave_start_avc_layout where
  "start_avc_13_5 =
     \<lparr>sa_fw_client_addr = 0x40, sa_fw_client_size = 0x48, sa_fw_client_mem_addr = 0x50,
      sa_fw_client_mem_size = 0x58, sa_width = 0x60, sa_height = 0x64, sa_frame_rate = 0xff4c,
      sa_bitrate = 0xff30, sa_rc_mode = 0xff50, sa_rc_mode_fixed_qp = 2,
      sa_rc_feature = AVE_OFF_NONE, sa_rc_feature_fixed_qp = 0, sa_rc_mode_on = 1,
      sa_frame_rate_div = 0xff48, sa_bitrate_sel = 0xff54, sa_bitrate_alt = 0xff58,
      sa_drl_enable = 0xff80, sa_drl_cfg = 0x10528, sa_qp_i = 0xffb4, sa_qp_p = 0xffb8,
      sa_qp_b = 0xffbc, sa_qp_min = 0xff88, sa_qp_max = 0xff8c, sa_key_interval = 0xff34,
      sa_key_interval_strict = AVE_OFF_NONE, sa_key_interval_dur = 0xff38,
      sa_slice_num = 0xfdac, sa_param_sets_addr = 0xfb30, sa_param_sets_size = 0xfb38,
      sa_sve_num = 0x10de8, sa_need_lsb_planes = 0xfd7d, sa_recon_lsb_addr = 0x08,
      sa_recon_set = 0x88, sa_recon_stride = 0x10, sa_recon_max = 16, sa_recon_addr = 0x00,
      sa_recon_size = AVE_OFF_NONE, sa_recon_meta_addr = AVE_OFF_NONE,
      sa_low_res_ref_set = 0x2a8, sa_low_res_ref_stride = 0x08,
      sa_low_res_ref_max = of_nat AVE_DPB_MAX, sa_low_res_result_set = 0x3b8,
      sa_low_res_result_stride = 0x08, sa_low_res_result_max = of_nat AVE_LOW_RES_RESULT_MAX,
      sa_colocated_set = 0xf6b0, sa_colocated_stride = 0x08, sa_colocated_max = of_nat AVE_DPB_MAX,
      sa_entropy_set = 0xf830, sa_entropy_stride_i = 0x20, sa_entropy_stride_j = 0x08,
      sa_entropy_max = 4, sa_entropy_cols_max = 4, sa_entropy_size_set = 0xfa30,
      sa_entropy_size_stride_i = 0x10, sa_entropy_size_stride_j = 0x04, sa_coded_max = 20,
      sa_coded_addr = 0x4b8, sa_coded_addr_stride = 8, sa_coded_size = 0x558,
      sa_coded_size_stride = 4, sa_coded_hdr_addr = 0x5c0, sa_coded_hdr_addr_stride = 8,
      sa_coded_hdr_size = 0x660, sa_coded_hdr_size_stride = 4, sa_coded_hdr_bytes = 0x23000,
      sa_src_nbr_set = [0xf7d0, 0xf7f0, 0xf810, 0xfed0], sa_src_nbr_max = 4,
      sa_src_mode = 0xfec0, sa_src_cfg_byte = 0xfce8, sa_src_go_bit3 = 0xfce9,
      sa_multi_me = 0xfcea, sa_mp_enable = 0xfefc, sa_mp_pass = 0xff00,
      sa_mp_const_qp = 0xff04, sa_mp_qpmod = 0xff08, sa_mp_max_qpmod = 0xff0c,
      sa_mp_options = 0xff10, sa_src_go_bits = 0xfecc, sa_dbg_bits = 0xfcd8,
      sa_ipcm_islice = 0xfce4, sa_skip_mode = 0xfcf0, sa_mode_8x8 = 0xfcec,
      sa_lambda_scales = 0xff98, sa_lambda_qp_tab = 0xffc0, sa_lambda_idx_tab = 0x10090,
      sa_lambda_rec_tab = 0x10160, sa_num_views = [0xff24, 0xff28], sa_ref_spacing = 0x10574,
      sa_search_range = 0xfce0, sa_max_mvs_per_2mb = 0x70, sa_bframes = 0x78,
      sa_adapt_b = 0x7d, sa_max_sub_mb_rect = 0x74, sa_slice_map_end = 0xfdb4,
      sa_transcoded_set = 0x5a8, sa_transcoded_stride = 0x08, sa_transcoded_max = 2,
      sa_transcoded_size = 0x5b8, sa_sps_block = 0x105b0, sa_sps_block_size = 0x6ac,
      sa_pps_block = 0x10c5c, sa_pps_block_size = 0x184\<rparr>"

lemma start_avc_13_5_fields:
  "sa_fw_client_addr start_avc_13_5 = 0x40" "sa_fw_client_size start_avc_13_5 = 0x48"
  "sa_fw_client_mem_addr start_avc_13_5 = 0x50" "sa_fw_client_mem_size start_avc_13_5 = 0x58"
  "sa_width start_avc_13_5 = 0x60" "sa_height start_avc_13_5 = 0x64"
  "sa_frame_rate start_avc_13_5 = 0xff4c" "sa_bitrate start_avc_13_5 = 0xff30"
  "sa_rc_mode start_avc_13_5 = 0xff50" "sa_rc_mode_fixed_qp start_avc_13_5 = 2"
  "sa_rc_feature start_avc_13_5 = 0" "sa_rc_feature_fixed_qp start_avc_13_5 = 0"
  "sa_rc_mode_on start_avc_13_5 = 1" "sa_frame_rate_div start_avc_13_5 = 0xff48"
  "sa_bitrate_sel start_avc_13_5 = 0xff54" "sa_bitrate_alt start_avc_13_5 = 0xff58"
  "sa_drl_enable start_avc_13_5 = 0xff80" "sa_drl_cfg start_avc_13_5 = 0x10528"
  "sa_qp_i start_avc_13_5 = 0xffb4" "sa_qp_p start_avc_13_5 = 0xffb8"
  "sa_qp_b start_avc_13_5 = 0xffbc" "sa_qp_min start_avc_13_5 = 0xff88"
  "sa_qp_max start_avc_13_5 = 0xff8c" "sa_key_interval start_avc_13_5 = 0xff34"
  "sa_key_interval_strict start_avc_13_5 = 0" "sa_key_interval_dur start_avc_13_5 = 0xff38"
  "sa_slice_num start_avc_13_5 = 0xfdac" "sa_param_sets_addr start_avc_13_5 = 0xfb30"
  "sa_param_sets_size start_avc_13_5 = 0xfb38" "sa_sve_num start_avc_13_5 = 0x10de8"
  "sa_need_lsb_planes start_avc_13_5 = 0xfd7d" "sa_recon_lsb_addr start_avc_13_5 = 8"
  "sa_recon_set start_avc_13_5 = 0x88" "sa_recon_stride start_avc_13_5 = 0x10"
  "sa_recon_max start_avc_13_5 = 0x10" "sa_recon_addr start_avc_13_5 = 0"
  "sa_recon_size start_avc_13_5 = 0" "sa_recon_meta_addr start_avc_13_5 = 0"
  "sa_low_res_ref_set start_avc_13_5 = 0x2a8" "sa_low_res_ref_stride start_avc_13_5 = 8"
  "sa_low_res_ref_max start_avc_13_5 = 0x11" "sa_low_res_result_set start_avc_13_5 = 0x3b8"
  "sa_low_res_result_stride start_avc_13_5 = 8" "sa_low_res_result_max start_avc_13_5 = 4"
  "sa_colocated_set start_avc_13_5 = 0xf6b0" "sa_colocated_stride start_avc_13_5 = 8"
  "sa_colocated_max start_avc_13_5 = 0x11" "sa_entropy_set start_avc_13_5 = 0xf830"
  "sa_entropy_stride_i start_avc_13_5 = 0x20" "sa_entropy_stride_j start_avc_13_5 = 8"
  "sa_entropy_max start_avc_13_5 = 4" "sa_entropy_cols_max start_avc_13_5 = 4"
  "sa_entropy_size_set start_avc_13_5 = 0xfa30"
  "sa_entropy_size_stride_i start_avc_13_5 = 0x10"
  "sa_entropy_size_stride_j start_avc_13_5 = 4" "sa_coded_max start_avc_13_5 = 0x14"
  "sa_coded_addr start_avc_13_5 = 0x4b8" "sa_coded_addr_stride start_avc_13_5 = 8"
  "sa_coded_size start_avc_13_5 = 0x558" "sa_coded_size_stride start_avc_13_5 = 4"
  "sa_coded_hdr_addr start_avc_13_5 = 0x5c0" "sa_coded_hdr_addr_stride start_avc_13_5 = 8"
  "sa_coded_hdr_size start_avc_13_5 = 0x660" "sa_coded_hdr_size_stride start_avc_13_5 = 4"
  "sa_coded_hdr_bytes start_avc_13_5 = 0x23000"
  "sa_src_nbr_set start_avc_13_5 = [0xf7d0, 0xf7f0, 0xf810, 0xfed0]"
  "sa_src_nbr_max start_avc_13_5 = 4" "sa_src_mode start_avc_13_5 = 0xfec0"
  "sa_src_cfg_byte start_avc_13_5 = 0xfce8" "sa_src_go_bit3 start_avc_13_5 = 0xfce9"
  "sa_multi_me start_avc_13_5 = 0xfcea" "sa_mp_enable start_avc_13_5 = 0xfefc"
  "sa_mp_pass start_avc_13_5 = 0xff00" "sa_mp_const_qp start_avc_13_5 = 0xff04"
  "sa_mp_qpmod start_avc_13_5 = 0xff08" "sa_mp_max_qpmod start_avc_13_5 = 0xff0c"
  "sa_mp_options start_avc_13_5 = 0xff10" "sa_src_go_bits start_avc_13_5 = 0xfecc"
  "sa_dbg_bits start_avc_13_5 = 0xfcd8" "sa_ipcm_islice start_avc_13_5 = 0xfce4"
  "sa_skip_mode start_avc_13_5 = 0xfcf0" "sa_mode_8x8 start_avc_13_5 = 0xfcec"
  "sa_lambda_scales start_avc_13_5 = 0xff98" "sa_lambda_qp_tab start_avc_13_5 = 0xffc0"
  "sa_lambda_idx_tab start_avc_13_5 = 0x10090" "sa_lambda_rec_tab start_avc_13_5 = 0x10160"
  "sa_num_views start_avc_13_5 = [0xff24, 0xff28]" "sa_ref_spacing start_avc_13_5 = 0x10574"
  "sa_search_range start_avc_13_5 = 0xfce0" "sa_max_mvs_per_2mb start_avc_13_5 = 0x70"
  "sa_bframes start_avc_13_5 = 0x78" "sa_adapt_b start_avc_13_5 = 0x7d"
  "sa_max_sub_mb_rect start_avc_13_5 = 0x74" "sa_slice_map_end start_avc_13_5 = 0xfdb4"
  "sa_transcoded_set start_avc_13_5 = 0x5a8" "sa_transcoded_stride start_avc_13_5 = 8"
  "sa_transcoded_max start_avc_13_5 = 2" "sa_transcoded_size start_avc_13_5 = 0x5b8"
  "sa_sps_block start_avc_13_5 = 0x105b0" "sa_sps_block_size start_avc_13_5 = 0x6ac"
  "sa_pps_block start_avc_13_5 = 0x10c5c" "sa_pps_block_size start_avc_13_5 = 0x184"
  by (simp_all add: start_avc_13_5_def layout_consts abi_consts)

definition sps_13_5 :: ave_sps_layout where
  "sps_13_5 =
     \<lparr>sl_enum_profile_level = False, sl_profile = 0x105b4, sl_level = 0x105d0,
      sl_seq_parameter_set_id = 0x105d4, sl_chroma_format_idc = 0x105d8,
      sl_bit_depth_luma_minus8 = 0x105e0, sl_bit_depth_chroma_minus8 = 0x105e4,
      sl_log2_max_frame_num_minus4 = 0x109cc, sl_pic_order_cnt_type = 0x109d0,
      sl_log2_max_poc_lsb_m4 = 0x109d4, sl_max_num_ref_frames = 0x109dc,
      sl_gaps_in_frame_num_allowed = 0x109e0, sl_pic_width_in_mbs_minus1 = 0x109e4,
      sl_pic_height_in_map_units_minus1 = 0x109e8, sl_frame_mbs_only_flag = 0x109ec,
      sl_direct_8x8_inference_flag = 0x109f0, sl_vui_parameters_present_flag = 0x109f4,
      sl_frame_cropping_flag = 0x10a40, sl_crop_left = 0x10a44, sl_crop_right = 0x10a48,
      sl_crop_top = 0x10a4c, sl_crop_bottom = 0x10a50, sl_scaling_4x4 = 0x1060a,
      sl_scaling_8x8 = 0x106ca, sl_fw_creates_header = 0x10a54, sl_header_len = 0x10a58\<rparr>"

lemma sps_13_5_fields:
  "\<not> sl_enum_profile_level sps_13_5" "sl_profile sps_13_5 = 0x105b4"
  "sl_level sps_13_5 = 0x105d0" "sl_seq_parameter_set_id sps_13_5 = 0x105d4"
  "sl_chroma_format_idc sps_13_5 = 0x105d8" "sl_bit_depth_luma_minus8 sps_13_5 = 0x105e0"
  "sl_bit_depth_chroma_minus8 sps_13_5 = 0x105e4"
  "sl_log2_max_frame_num_minus4 sps_13_5 = 0x109cc" "sl_pic_order_cnt_type sps_13_5 = 0x109d0"
  "sl_log2_max_poc_lsb_m4 sps_13_5 = 0x109d4" "sl_max_num_ref_frames sps_13_5 = 0x109dc"
  "sl_gaps_in_frame_num_allowed sps_13_5 = 0x109e0"
  "sl_pic_width_in_mbs_minus1 sps_13_5 = 0x109e4"
  "sl_pic_height_in_map_units_minus1 sps_13_5 = 0x109e8"
  "sl_frame_mbs_only_flag sps_13_5 = 0x109ec" "sl_direct_8x8_inference_flag sps_13_5 = 0x109f0"
  "sl_vui_parameters_present_flag sps_13_5 = 0x109f4"
  "sl_frame_cropping_flag sps_13_5 = 0x10a40" "sl_crop_left sps_13_5 = 0x10a44"
  "sl_crop_right sps_13_5 = 0x10a48" "sl_crop_top sps_13_5 = 0x10a4c"
  "sl_crop_bottom sps_13_5 = 0x10a50" "sl_scaling_4x4 sps_13_5 = 0x1060a"
  "sl_scaling_8x8 sps_13_5 = 0x106ca" "sl_fw_creates_header sps_13_5 = 0x10a54"
  "sl_header_len sps_13_5 = 0x10a58"
  by (simp_all add: sps_13_5_def layout_consts abi_consts)

definition pps_13_5 :: ave_pps_layout where
  "pps_13_5 =
     \<lparr>pl_pic_parameter_set_id = 0x10c60, pl_seq_parameter_set_id = 0x10c64,
      pl_entropy_coding_mode_flag = 0x10c68, pl_num_slice_groups_minus1 = 0x10c70,
      pl_pic_init_qp_minus26 = 0x10c88, pl_deblocking_filter_control = 0x10cb0,
      pl_constrained_intra_pred = 0x10cb1, pl_transform_8x8_mode = 0x10cb3,
      pl_fw_creates_header = 0x10cd8\<rparr>"

lemma pps_13_5_fields:
  "pl_pic_parameter_set_id pps_13_5 = 0x10c60" "pl_seq_parameter_set_id pps_13_5 = 0x10c64"
  "pl_entropy_coding_mode_flag pps_13_5 = 0x10c68"
  "pl_num_slice_groups_minus1 pps_13_5 = 0x10c70" "pl_pic_init_qp_minus26 pps_13_5 = 0x10c88"
  "pl_deblocking_filter_control pps_13_5 = 0x10cb0"
  "pl_constrained_intra_pred pps_13_5 = 0x10cb1" "pl_transform_8x8_mode pps_13_5 = 0x10cb3"
  "pl_fw_creates_header pps_13_5 = 0x10cd8"
  by (simp_all add: pps_13_5_def layout_consts abi_consts)

definition process_avc_13_5 :: ave_process_avc_layout where
  "process_avc_13_5 =
     \<lparr>pa_picmgmt = 0x9c8, pa_picmgmt_size = 0xf68, pa_picmgmt_size_word = True,
      pa_frame_num = 0xca8, pa_frame_num_u32 = True, pa_poc = AVE_OFF_NONE,
      pa_frame_rate_f64 = AVE_OFF_NONE, pa_frame_type = 0xcac, pa_input_compressed = 0x6f3,
      pa_in_luma_addr = 0x8c0, pa_in_luma_size = AVE_OFF_NONE, pa_in_luma_stride = 0x8c8,
      pa_in_chroma_addr = 0x8d0, pa_in_chroma_size = AVE_OFF_NONE,
      pa_in_chroma_stride = 0x8d8, pa_in_dims = 0x964, pa_mp_stats_in = 0x900,
      pa_out_mode = 0xc00, pa_out_index = 0xc04, pa_out_coded = 0xc08,
      pa_out_coded_hdr = 0xc10, pa_direct_spatial = 0x7c, pa_out_coded_size = 0xc18,
      pa_recon_y = 0x898, pa_recon_uv = 0x8a8, pa_recon_mv = 0x8b8, pa_recon_y_lsb = 0x8a0,
      pa_recon_uv_lsb = 0x8b0, pa_ctx_index = 0xcb0, pa_force_key_frame = 0x038,
      pa_force_non_ref = 0x03c, pa_update_param_sets = 0x6f1, pa_scaling_matrix_mode = 0x6f4,
      pa_low_res_src = 0xc20, pa_low_res_results = 0xc28, pa_low_res_results_stride = 0x08,
      pa_low_res_results_max = 4, pa_entropy_set = 0xa00, pa_entropy_stride_i = 0x20,
      pa_entropy_stride_j = 0x08, pa_entropy_max = 4, pa_entropy_cols_max = 4,
      pa_src_nbr_set = [0x980, 0x9a0, 0x9c0, 0x9e0], pa_src_nbr_max = 4,
      pa_scratch = [0x8e0, 0x8e8, 0x8f0, 0x900], pa_scratch_n = 4, pa_first_process = 0x6d8\<rparr>"

lemma process_avc_13_5_fields:
  "pa_picmgmt process_avc_13_5 = 0x9c8" "pa_picmgmt_size process_avc_13_5 = 0xf68"
  "pa_picmgmt_size_word process_avc_13_5" "pa_frame_num process_avc_13_5 = 0xca8"
  "pa_frame_num_u32 process_avc_13_5" "pa_poc process_avc_13_5 = 0"
  "pa_frame_rate_f64 process_avc_13_5 = 0" "pa_frame_type process_avc_13_5 = 0xcac"
  "pa_input_compressed process_avc_13_5 = 0x6f3" "pa_in_luma_addr process_avc_13_5 = 0x8c0"
  "pa_in_luma_size process_avc_13_5 = 0" "pa_in_luma_stride process_avc_13_5 = 0x8c8"
  "pa_in_chroma_addr process_avc_13_5 = 0x8d0" "pa_in_chroma_size process_avc_13_5 = 0"
  "pa_in_chroma_stride process_avc_13_5 = 0x8d8" "pa_in_dims process_avc_13_5 = 0x964"
  "pa_mp_stats_in process_avc_13_5 = 0x900" "pa_out_mode process_avc_13_5 = 0xc00"
  "pa_out_index process_avc_13_5 = 0xc04" "pa_out_coded process_avc_13_5 = 0xc08"
  "pa_out_coded_hdr process_avc_13_5 = 0xc10" "pa_direct_spatial process_avc_13_5 = 0x7c"
  "pa_out_coded_size process_avc_13_5 = 0xc18" "pa_recon_y process_avc_13_5 = 0x898"
  "pa_recon_uv process_avc_13_5 = 0x8a8" "pa_recon_mv process_avc_13_5 = 0x8b8"
  "pa_recon_y_lsb process_avc_13_5 = 0x8a0" "pa_recon_uv_lsb process_avc_13_5 = 0x8b0"
  "pa_ctx_index process_avc_13_5 = 0xcb0" "pa_force_key_frame process_avc_13_5 = 0x38"
  "pa_force_non_ref process_avc_13_5 = 0x3c" "pa_update_param_sets process_avc_13_5 = 0x6f1"
  "pa_scaling_matrix_mode process_avc_13_5 = 0x6f4" "pa_low_res_src process_avc_13_5 = 0xc20"
  "pa_low_res_results process_avc_13_5 = 0xc28"
  "pa_low_res_results_stride process_avc_13_5 = 8"
  "pa_low_res_results_max process_avc_13_5 = 4" "pa_entropy_set process_avc_13_5 = 0xa00"
  "pa_entropy_stride_i process_avc_13_5 = 0x20" "pa_entropy_stride_j process_avc_13_5 = 8"
  "pa_entropy_max process_avc_13_5 = 4" "pa_entropy_cols_max process_avc_13_5 = 4"
  "pa_src_nbr_set process_avc_13_5 = [0x980, 0x9a0, 0x9c0, 0x9e0]"
  "pa_src_nbr_max process_avc_13_5 = 4"
  "pa_scratch process_avc_13_5 = [0x8e0, 0x8e8, 0x8f0, 0x900]"
  "pa_scratch_n process_avc_13_5 = 4" "pa_first_process process_avc_13_5 = 0x6d8"
  by (simp_all add: process_avc_13_5_def layout_consts abi_consts)

definition coded_hdr_13_5 :: ave_coded_hdr_layout where
  "coded_hdr_13_5 =
     \<lparr>dh_i_mb_cnt = 0x00, dh_p_mb_cnt = 0x10, dh_skip_mb_cnt = 0x20, dh_b_mb_cnt = 0x70,
      dh_sps_pps_bits = 0x98, dh_frame_num = 0x10c, dh_frame_type = 0x110,
      dh_slice_stride = 0x220, dh_slice_max = 0x100, dh_slice_bytes_written = 0x180,
      dh_slice_bytes_removed = 0x38c, dh_cabac_zero_words = 0xf0, dh_slice_hdr_iova = 0x390,
      dh_slice_hdr_len = 0x398, dh_ps_info = 0x9c, dh_min_bytes = 0x22c60\<rparr>"

lemma coded_hdr_13_5_fields:
  "dh_i_mb_cnt coded_hdr_13_5 = 0" "dh_p_mb_cnt coded_hdr_13_5 = 0x10"
  "dh_skip_mb_cnt coded_hdr_13_5 = 0x20" "dh_b_mb_cnt coded_hdr_13_5 = 0x70"
  "dh_sps_pps_bits coded_hdr_13_5 = 0x98" "dh_frame_num coded_hdr_13_5 = 0x10c"
  "dh_frame_type coded_hdr_13_5 = 0x110" "dh_slice_stride coded_hdr_13_5 = 0x220"
  "dh_slice_max coded_hdr_13_5 = 0x100" "dh_slice_bytes_written coded_hdr_13_5 = 0x180"
  "dh_slice_bytes_removed coded_hdr_13_5 = 0x38c" "dh_cabac_zero_words coded_hdr_13_5 = 0xf0"
  "dh_slice_hdr_iova coded_hdr_13_5 = 0x390" "dh_slice_hdr_len coded_hdr_13_5 = 0x398"
  "dh_ps_info coded_hdr_13_5 = 0x9c" "dh_min_bytes coded_hdr_13_5 = 0x22c60"
  by (simp_all add: coded_hdr_13_5_def layout_consts abi_consts)

definition start_hevc_13_5 :: ave_start_hevc_layout where
  "start_hevc_13_5 =
     \<lparr>hv_shares_avc_vp = True, hv_vps_block = 0x105b0, hv_vps_block_size = 0x140dc,
      hv_sps_block = [0x2468c, 0x26580], hv_sps_block_size = 0x1ef4,
      hv_pps_block = [0x28474, 0x2aa18], hv_pps_block_size = 0x25a4, hv_rps_block = 0x2cfbc,
      hv_rps_block_size = 0x5dd8, hv_transcode_overlap = 0x32d98, hv_sve_num = 0x32d9c,
      hv_sve_index = 0x32dc0, hv_input_format_word = 0xfeb4, hv_pps_count = 0xfda4,
      hv_pps_ids = 0xfd80, hv_enable_tmvp = 0xfcf8, hv_sao_enb_config = 0xfd10,
      hv_sao_eo_bo = 0xfd1c, hv_input_bitdepth = 0xfd20, hv_max_num_ref_frames = 0xfd2c,
      hv_slice_map_height = 0xfdb4, hv_entropy_rows = 2, hv_buf_align = 128,
      hv_transcoded_set = 0x5a8, hv_transcoded_stride = 0x08, hv_transcoded_max = 2,
      hv_transcoded_size = 0x5b8, hv_qp_mod = 0xff70\<rparr>"

lemma start_hevc_13_5_fields:
  "hv_shares_avc_vp start_hevc_13_5" "hv_vps_block start_hevc_13_5 = 0x105b0"
  "hv_vps_block_size start_hevc_13_5 = 0x140dc"
  "hv_sps_block start_hevc_13_5 = [0x2468c, 0x26580]"
  "hv_sps_block_size start_hevc_13_5 = 0x1ef4"
  "hv_pps_block start_hevc_13_5 = [0x28474, 0x2aa18]"
  "hv_pps_block_size start_hevc_13_5 = 0x25a4" "hv_rps_block start_hevc_13_5 = 0x2cfbc"
  "hv_rps_block_size start_hevc_13_5 = 0x5dd8" "hv_transcode_overlap start_hevc_13_5 = 0x32d98"
  "hv_sve_num start_hevc_13_5 = 0x32d9c" "hv_sve_index start_hevc_13_5 = 0x32dc0"
  "hv_input_format_word start_hevc_13_5 = 0xfeb4" "hv_pps_count start_hevc_13_5 = 0xfda4"
  "hv_pps_ids start_hevc_13_5 = 0xfd80" "hv_enable_tmvp start_hevc_13_5 = 0xfcf8"
  "hv_sao_enb_config start_hevc_13_5 = 0xfd10" "hv_sao_eo_bo start_hevc_13_5 = 0xfd1c"
  "hv_input_bitdepth start_hevc_13_5 = 0xfd20" "hv_max_num_ref_frames start_hevc_13_5 = 0xfd2c"
  "hv_slice_map_height start_hevc_13_5 = 0xfdb4" "hv_entropy_rows start_hevc_13_5 = 2"
  "hv_buf_align start_hevc_13_5 = 0x80" "hv_transcoded_set start_hevc_13_5 = 0x5a8"
  "hv_transcoded_stride start_hevc_13_5 = 8" "hv_transcoded_max start_hevc_13_5 = 2"
  "hv_transcoded_size start_hevc_13_5 = 0x5b8" "hv_qp_mod start_hevc_13_5 = 0xff70"
  by (simp_all add: start_hevc_13_5_def layout_consts abi_consts)

definition hps_13_5 :: ave_hevc_ps_layout where
  "hps_13_5 =
     \<lparr>hp_ptl = 0x18, hp_ptl_profile_idc = 0x08, hp_ptl_tier = 0x04, hp_ptl_compat = 0x0c,
      hp_ptl_progressive = 0x2c, hp_ptl_interlaced = 0x2d, hp_ptl_non_packed = 0x2e,
      hp_ptl_frame_only = 0x2f, hp_ptl_level_idc = 0x3c, hp_vps_id = 0x04,
      hp_vps_base_internal = 0x08, hp_vps_base_available = 0x09, hp_vps_max_layers_m1 = 0x0c,
      hp_vps_max_sub_layers_m1 = 0x10, hp_vps_temporal_nesting = 0x14,
      hp_vps_sublayer_info = 0x678, hp_vps_max_dec_pic_buf_m1 = 0x67c,
      hp_vps_num_reorder = 0x69c, hp_vps_max_latency = 0x6bc,
      hp_vps_num_layer_sets_m1 = 0x6e0, hp_vps_timing_present = 0x106e4,
      hp_vps_num_hrd = 0x106f8, hp_vps_ext = 0x11afc, hp_sps_layer_id = 0x04,
      hp_sps_gate7 = 0x07, hp_sps_vps_id = 0x0c, hp_sps_max_sub_layers_m1 = 0x10,
      hp_sps_temporal_nesting = 0x14, hp_sps_id = 0x238, hp_chroma_format_idc = 0x23c,
      hp_pic_width = 0x244, hp_pic_height = 0x248, hp_ctb_cols = 0x24c, hp_ctb_rows = 0x250,
      hp_conf_win_flag = 0x254, hp_conf_win_left = 0x258, hp_conf_win_right = 0x25c,
      hp_conf_win_top = 0x260, hp_conf_win_bottom = 0x264, hp_bit_depth_luma_m8 = 0x268,
      hp_bit_depth_chroma_m8 = 0x26c, hp_log2_max_poc_lsb_m4 = 0x270,
      hp_sps_sublayer_info = 0x274, hp_sps_max_dec_pic_buf_m1 = 0x278,
      hp_sps_num_reorder = 0x294, hp_sps_max_latency = 0x2b0, hp_log2_min_cb_m3 = 0x2cc,
      hp_log2_diff_cb = 0x2d0, hp_log2_min_tb_m2 = 0x2d4, hp_log2_diff_tb = 0x2d8,
      hp_tb_depth_inter = 0x2dc, hp_tb_depth_intra = 0x2e0, hp_scaling_enabled = 0x2e4,
      hp_scaling_present = 0x2e5, hp_amp = 0x1b90, hp_sao = 0x1b91, hp_pcm = 0x1b92,
      hp_sps_tmvp = 0x1c2c, hp_strong_intra = 0x1c2d, hp_vui_present = 0x1c30,
      hp_sps_ext = 0x1cd8, hp_sps_fw_creates_header = 0x1ce9, hp_sps_header_len = 0x1cec,
      hp_pps_layer_id = 0x04, hp_pps_id = 0x0c, hp_pps_sps_id = 0x10,
      hp_dependent_slices = 0x14, hp_output_flag_present = 0x15, hp_extra_sh_bits = 0x18,
      hp_sign_hiding = 0x1c, hp_cabac_init_present = 0x1d, hp_num_ref_l0_m1 = 0x20,
      hp_num_ref_l1_m1 = 0x24, hp_init_qp_m26 = 0x28, hp_constrained_intra = 0x2c,
      hp_transform_skip = 0x2d, hp_cu_qp_delta = 0x2e, hp_cu_qp_delta_depth = 0x30,
      hp_cb_qp_offset = 0x34, hp_cr_qp_offset = 0x54, hp_chroma_qp_offsets_present = 0x74,
      hp_weighted_pred = 0x75, hp_weighted_bipred = 0x76, hp_transquant_bypass = 0x77,
      hp_tiles = 0x78, hp_wpp = 0x79, hp_lf_across_slices = 0x889,
      hp_deblock_ctrl_present = 0x88a, hp_deblock_override = 0x88b,
      hp_deblock_disable = 0x88c, hp_beta_offset_div2 = 0x890, hp_tc_offset_div2 = 0x894,
      hp_pps_scaling_present = 0x898, hp_lists_mod = 0x2144, hp_par_merge_m2 = 0x2145,
      hp_sh_ext_present = 0x2146, hp_pps_ext = 0x2147, hp_pps_fw_creates_header = 0x2198,
      hp_pps_header_len = 0x219c, hp_rps_num_st = 0x0, hp_rps_entry0 = 0x4,
      hp_rps_entry_stride = 0x164, hp_rps_inter_pred = 0x0, hp_rps_num_neg = 0x30,
      hp_rps_num_pos = 0x34, hp_rps_dpoc_s0_m1 = 0x38, hp_rps_used_s0 = 0x58,
      hp_rps_dpoc_s1_m1 = 0x68, hp_rps_used_s1 = 0xa8, hp_rps_num_delta_pocs = 0x160,
      hp_rps_d_num_neg = 0xb8, hp_rps_d_num_pos = 0xbc, hp_rps_d_used_s0 = 0xc0,
      hp_rps_d_used_s1 = 0xd0, hp_rps_d_delta_poc_s0 = 0xe0, hp_rps_d_delta_poc_s1 = 0x120,
      hp_rps_lt_present = 0x5a68\<rparr>"

lemma hps_13_5_fields:
  "hp_ptl hps_13_5 = 0x18" "hp_ptl_profile_idc hps_13_5 = 8" "hp_ptl_tier hps_13_5 = 4"
  "hp_ptl_compat hps_13_5 = 0xc" "hp_ptl_progressive hps_13_5 = 0x2c"
  "hp_ptl_interlaced hps_13_5 = 0x2d" "hp_ptl_non_packed hps_13_5 = 0x2e"
  "hp_ptl_frame_only hps_13_5 = 0x2f" "hp_ptl_level_idc hps_13_5 = 0x3c"
  "hp_vps_id hps_13_5 = 4" "hp_vps_base_internal hps_13_5 = 8"
  "hp_vps_base_available hps_13_5 = 9" "hp_vps_max_layers_m1 hps_13_5 = 0xc"
  "hp_vps_max_sub_layers_m1 hps_13_5 = 0x10" "hp_vps_temporal_nesting hps_13_5 = 0x14"
  "hp_vps_sublayer_info hps_13_5 = 0x678" "hp_vps_max_dec_pic_buf_m1 hps_13_5 = 0x67c"
  "hp_vps_num_reorder hps_13_5 = 0x69c" "hp_vps_max_latency hps_13_5 = 0x6bc"
  "hp_vps_num_layer_sets_m1 hps_13_5 = 0x6e0" "hp_vps_timing_present hps_13_5 = 0x106e4"
  "hp_vps_num_hrd hps_13_5 = 0x106f8" "hp_vps_ext hps_13_5 = 0x11afc"
  "hp_sps_layer_id hps_13_5 = 4" "hp_sps_gate7 hps_13_5 = 7" "hp_sps_vps_id hps_13_5 = 0xc"
  "hp_sps_max_sub_layers_m1 hps_13_5 = 0x10" "hp_sps_temporal_nesting hps_13_5 = 0x14"
  "hp_sps_id hps_13_5 = 0x238" "hp_chroma_format_idc hps_13_5 = 0x23c"
  "hp_pic_width hps_13_5 = 0x244" "hp_pic_height hps_13_5 = 0x248"
  "hp_ctb_cols hps_13_5 = 0x24c" "hp_ctb_rows hps_13_5 = 0x250"
  "hp_conf_win_flag hps_13_5 = 0x254" "hp_conf_win_left hps_13_5 = 0x258"
  "hp_conf_win_right hps_13_5 = 0x25c" "hp_conf_win_top hps_13_5 = 0x260"
  "hp_conf_win_bottom hps_13_5 = 0x264" "hp_bit_depth_luma_m8 hps_13_5 = 0x268"
  "hp_bit_depth_chroma_m8 hps_13_5 = 0x26c" "hp_log2_max_poc_lsb_m4 hps_13_5 = 0x270"
  "hp_sps_sublayer_info hps_13_5 = 0x274" "hp_sps_max_dec_pic_buf_m1 hps_13_5 = 0x278"
  "hp_sps_num_reorder hps_13_5 = 0x294" "hp_sps_max_latency hps_13_5 = 0x2b0"
  "hp_log2_min_cb_m3 hps_13_5 = 0x2cc" "hp_log2_diff_cb hps_13_5 = 0x2d0"
  "hp_log2_min_tb_m2 hps_13_5 = 0x2d4" "hp_log2_diff_tb hps_13_5 = 0x2d8"
  "hp_tb_depth_inter hps_13_5 = 0x2dc" "hp_tb_depth_intra hps_13_5 = 0x2e0"
  "hp_scaling_enabled hps_13_5 = 0x2e4" "hp_scaling_present hps_13_5 = 0x2e5"
  "hp_amp hps_13_5 = 0x1b90" "hp_sao hps_13_5 = 0x1b91" "hp_pcm hps_13_5 = 0x1b92"
  "hp_sps_tmvp hps_13_5 = 0x1c2c" "hp_strong_intra hps_13_5 = 0x1c2d"
  "hp_vui_present hps_13_5 = 0x1c30" "hp_sps_ext hps_13_5 = 0x1cd8"
  "hp_sps_fw_creates_header hps_13_5 = 0x1ce9" "hp_sps_header_len hps_13_5 = 0x1cec"
  "hp_pps_layer_id hps_13_5 = 4" "hp_pps_id hps_13_5 = 0xc" "hp_pps_sps_id hps_13_5 = 0x10"
  "hp_dependent_slices hps_13_5 = 0x14" "hp_output_flag_present hps_13_5 = 0x15"
  "hp_extra_sh_bits hps_13_5 = 0x18" "hp_sign_hiding hps_13_5 = 0x1c"
  "hp_cabac_init_present hps_13_5 = 0x1d" "hp_num_ref_l0_m1 hps_13_5 = 0x20"
  "hp_num_ref_l1_m1 hps_13_5 = 0x24" "hp_init_qp_m26 hps_13_5 = 0x28"
  "hp_constrained_intra hps_13_5 = 0x2c" "hp_transform_skip hps_13_5 = 0x2d"
  "hp_cu_qp_delta hps_13_5 = 0x2e" "hp_cu_qp_delta_depth hps_13_5 = 0x30"
  "hp_cb_qp_offset hps_13_5 = 0x34" "hp_cr_qp_offset hps_13_5 = 0x54"
  "hp_chroma_qp_offsets_present hps_13_5 = 0x74" "hp_weighted_pred hps_13_5 = 0x75"
  "hp_weighted_bipred hps_13_5 = 0x76" "hp_transquant_bypass hps_13_5 = 0x77"
  "hp_tiles hps_13_5 = 0x78" "hp_wpp hps_13_5 = 0x79" "hp_lf_across_slices hps_13_5 = 0x889"
  "hp_deblock_ctrl_present hps_13_5 = 0x88a" "hp_deblock_override hps_13_5 = 0x88b"
  "hp_deblock_disable hps_13_5 = 0x88c" "hp_beta_offset_div2 hps_13_5 = 0x890"
  "hp_tc_offset_div2 hps_13_5 = 0x894" "hp_pps_scaling_present hps_13_5 = 0x898"
  "hp_lists_mod hps_13_5 = 0x2144" "hp_par_merge_m2 hps_13_5 = 0x2145"
  "hp_sh_ext_present hps_13_5 = 0x2146" "hp_pps_ext hps_13_5 = 0x2147"
  "hp_pps_fw_creates_header hps_13_5 = 0x2198" "hp_pps_header_len hps_13_5 = 0x219c"
  "hp_rps_num_st hps_13_5 = 0" "hp_rps_entry0 hps_13_5 = 4"
  "hp_rps_entry_stride hps_13_5 = 0x164" "hp_rps_inter_pred hps_13_5 = 0"
  "hp_rps_num_neg hps_13_5 = 0x30" "hp_rps_num_pos hps_13_5 = 0x34"
  "hp_rps_dpoc_s0_m1 hps_13_5 = 0x38" "hp_rps_used_s0 hps_13_5 = 0x58"
  "hp_rps_dpoc_s1_m1 hps_13_5 = 0x68" "hp_rps_used_s1 hps_13_5 = 0xa8"
  "hp_rps_num_delta_pocs hps_13_5 = 0x160" "hp_rps_d_num_neg hps_13_5 = 0xb8"
  "hp_rps_d_num_pos hps_13_5 = 0xbc" "hp_rps_d_used_s0 hps_13_5 = 0xc0"
  "hp_rps_d_used_s1 hps_13_5 = 0xd0" "hp_rps_d_delta_poc_s0 hps_13_5 = 0xe0"
  "hp_rps_d_delta_poc_s1 hps_13_5 = 0x120" "hp_rps_lt_present hps_13_5 = 0x5a68"
  by (simp_all add: hps_13_5_def layout_consts abi_consts)

definition process_hevc_13_5 :: ave_process_hevc_layout where
  "process_hevc_13_5 =
     \<lparr>ph_slice = 0x40, ph_slice_size = 0x5570, ph_slice_fw_copy = 0xd6c, ph_picmgmt = 0x55b0,
      ph_pic_extra = 0x6518, ph_st_rps = 0x6524, ph_lt_rps = 0x6690, ph_st_rps_sps_flag = 0x0,
      ph_st_rps_idx = 0x4, ph_sh_size_word = 0x0, ph_sh_first_slice = 0xc,
      ph_sh_pps_id = 0x10, ph_sh_poc_lsb = 0x28, ph_sh_tmvp = 0x11c, ph_sh_sao_luma = 0x11d,
      ph_sh_sao_chroma = 0x11e, ph_sh_col_from_l0 = 0x1aa, ph_sh_five_minus_merge = 0x3d4,
      ph_sh_lf_across = 0x43c, ph_sh_map = 0x44c, ph_sh_seg_limit = 0x54c,
      ph_sh_hdr_slots = 0x568, ph_hdr_slots = 256, ph_hdr_slot_bytes = 0x400,
      ph_pic_single_xc = 0xf65\<rparr>"

lemma process_hevc_13_5_fields:
  "ph_slice process_hevc_13_5 = 0x40" "ph_slice_size process_hevc_13_5 = 0x5570"
  "ph_slice_fw_copy process_hevc_13_5 = 0xd6c" "ph_picmgmt process_hevc_13_5 = 0x55b0"
  "ph_pic_extra process_hevc_13_5 = 0x6518" "ph_st_rps process_hevc_13_5 = 0x6524"
  "ph_lt_rps process_hevc_13_5 = 0x6690" "ph_st_rps_sps_flag process_hevc_13_5 = 0"
  "ph_st_rps_idx process_hevc_13_5 = 4" "ph_sh_size_word process_hevc_13_5 = 0"
  "ph_sh_first_slice process_hevc_13_5 = 0xc" "ph_sh_pps_id process_hevc_13_5 = 0x10"
  "ph_sh_poc_lsb process_hevc_13_5 = 0x28" "ph_sh_tmvp process_hevc_13_5 = 0x11c"
  "ph_sh_sao_luma process_hevc_13_5 = 0x11d" "ph_sh_sao_chroma process_hevc_13_5 = 0x11e"
  "ph_sh_col_from_l0 process_hevc_13_5 = 0x1aa"
  "ph_sh_five_minus_merge process_hevc_13_5 = 0x3d4"
  "ph_sh_lf_across process_hevc_13_5 = 0x43c" "ph_sh_map process_hevc_13_5 = 0x44c"
  "ph_sh_seg_limit process_hevc_13_5 = 0x54c" "ph_sh_hdr_slots process_hevc_13_5 = 0x568"
  "ph_hdr_slots process_hevc_13_5 = 0x100" "ph_hdr_slot_bytes process_hevc_13_5 = 0x400"
  "ph_pic_single_xc process_hevc_13_5 = 0xf65"
  by (simp_all add: process_hevc_13_5_def layout_consts abi_consts)

definition macos_start_avc_13_5 :: "ave_macos_patch list" where
  "macos_start_avc_13_5 =
     map (\<lambda>(g, w, off, v). \<lparr>mp_group = g, mp_width = w, mp_off = off, mp_val = v\<rparr>)
       [(AVE_MACOS_G_GOP, 1, 0xff40, 1), (AVE_MACOS_G_GOP, 4, 0x10578, 1),
        (AVE_MACOS_G_GOP, 4, 0x1057c, 1), (AVE_MACOS_G_PARAMS, 1, 0xfce8, 1),
        (AVE_MACOS_G_PARAMS, 4, 0xfd10, 0xffff), (AVE_MACOS_G_PARAMS, 4, 0xfd1c, 0xffffffff),
        (AVE_MACOS_G_PARAMS, 4, 0xfd20, 8), (AVE_MACOS_G_PARAMS, 4, 0xfda4, 1),
        (AVE_MACOS_G_PARAMS, 4, 0xfeb4, 16), (AVE_MACOS_G_PARAMS, 4, 0xff04, 0xffffffff),
        (AVE_MACOS_G_PARAMS, 4, 0xff08, 0xffffffff),
        (AVE_MACOS_G_PARAMS, 4, 0xff0c, 0xffffffff),
        (AVE_MACOS_G_PARAMS, 4, 0xff10, 0xffffffff), (AVE_MACOS_G_RC, 4, 0xff48, 0xcdcdcdcd),
        (AVE_MACOS_G_RC, 4, 0xff60, 0x3f800000), (AVE_MACOS_G_RC, 1, 0xff73, 1),
        (AVE_MACOS_G_RC, 4, 0xff84, 0xcdcdcdcd), (AVE_MACOS_G_RC, 4, 0xff88, 0xcdcdcdcd),
        (AVE_MACOS_G_QPMOD, 1, 0xff70, 1), (AVE_MACOS_G_QPMOD, 1, 0xff72, 1),
        (AVE_MACOS_G_QPMOD, 1, 0xff78, 1), (AVE_MACOS_G_QPMOD, 4, 0xff80, 1),
        (AVE_MACOS_G_SPS, 4, 0x109cc, 1), (AVE_MACOS_G_SPS, 1, 0x109f7, 1),
        (AVE_MACOS_G_SPS, 4, 0x109f8, 5), (AVE_MACOS_G_SPS, 1, 0x10a00, 1),
        (AVE_MACOS_G_SPS, 4, 0x10a04, 2), (AVE_MACOS_G_SPS, 4, 0x10a08, 2),
        (AVE_MACOS_G_SPS, 4, 0x10a0c, 2), (AVE_MACOS_G_SPS, 4, 0x10c94, 0xcdcdcdcd),
        (AVE_MACOS_G_SPS, 4, 0x10c98, 0xcdcdcdcd), (AVE_MACOS_G_SPS, 4, 0x10c9c, 0xcdcdcdcd),
        (AVE_MACOS_G_SPS, 4, 0x10ca0, 0xcdcdcdcd), (AVE_MACOS_G_SPS, 4, 0x10ca4, 0xcdcdcdcd),
        (AVE_MACOS_G_SPS, 4, 0x10ca8, 0xcdcdcdcd), (AVE_MACOS_G_SPS, 4, 0x10cac, 0xcdcdcdcd),
        (AVE_MACOS_G_SPS, 4, 0x10cbc, 0xcdcdcdcd), (AVE_MACOS_G_SPS, 4, 0x10cc0, 0xcdcdcdcd),
        (AVE_MACOS_G_SPS, 4, 0x10cc4, 0xcdcdcdcd), (AVE_MACOS_G_SPS, 4, 0x10cc8, 0xcdcdcdcd),
        (AVE_MACOS_G_SPS, 4, 0x10ccc, 0xcdcdcdcd), (AVE_MACOS_G_SPS, 4, 0x10cd0, 0xcdcdcdcd),
        (AVE_MACOS_G_SPS, 4, 0x10cd4, 0xcdcdcdcd)]"

definition macos_process_avc_13_5 :: "ave_macos_patch list" where
  "macos_process_avc_13_5 =
     map (\<lambda>(g, w, off, v). \<lparr>mp_group = g, mp_width = w, mp_off = off, mp_val = v\<rparr>)
       [(AVE_MACOS_G_SH, 4, 0x40, 0x984), (AVE_MACOS_G_SH, 4, 0x44, 1),
        (AVE_MACOS_G_SH, 4, 0x50, 2), (AVE_MACOS_G_SH, 4, 0x64, 1),
        (AVE_MACOS_G_SH, 1, 0x7c, 1), (AVE_MACOS_G_SH, 4, 0x9c0, 0xffffffff),
        (AVE_MACOS_G_PIC, 4, 0x1000, 0xffffffff), (AVE_MACOS_G_PIC, 4, 0x108c, 0xffff),
        (AVE_MACOS_G_PIC, 4, 0x1098, 100)]"

definition ave_cmd_abi_13_5 :: ave_cmd_abi where
  "ave_cmd_abi_13_5 =
     \<lparr>ab_abi = AVE_ABI_MACOS_13_5, ab_name = ''macOS 13.5'', ab_cmd = cmd_13_5, ab_hdr = hdr_13_5,
      ab_reply = reply_13_5, ab_config = config_13_5, ab_start_avc = start_avc_13_5, ab_sps = sps_13_5,
      ab_pps = pps_13_5, ab_process_avc = process_avc_13_5, ab_coded_hdr = coded_hdr_13_5,
      ab_start_hevc = start_hevc_13_5, ab_hps = hps_13_5, ab_process_hevc = process_hevc_13_5,
      ab_macos_start_avc = macos_start_avc_13_5,
      ab_macos_process_avc = macos_process_avc_13_5\<rparr>"

lemma ave_cmd_abi_13_5_fields [simp]:
  "ab_abi ave_cmd_abi_13_5 = AVE_ABI_MACOS_13_5" "ab_cmd ave_cmd_abi_13_5 = cmd_13_5"
  "ab_hdr ave_cmd_abi_13_5 = hdr_13_5" "ab_reply ave_cmd_abi_13_5 = reply_13_5"
  "ab_config ave_cmd_abi_13_5 = config_13_5" "ab_start_avc ave_cmd_abi_13_5 = start_avc_13_5"
  "ab_sps ave_cmd_abi_13_5 = sps_13_5" "ab_pps ave_cmd_abi_13_5 = pps_13_5"
  "ab_process_avc ave_cmd_abi_13_5 = process_avc_13_5"
  "ab_coded_hdr ave_cmd_abi_13_5 = coded_hdr_13_5"
  "ab_start_hevc ave_cmd_abi_13_5 = start_hevc_13_5" "ab_hps ave_cmd_abi_13_5 = hps_13_5"
  "ab_process_hevc ave_cmd_abi_13_5 = process_hevc_13_5"
  "ab_macos_start_avc ave_cmd_abi_13_5 = macos_start_avc_13_5"
  "ab_macos_process_avc ave_cmd_abi_13_5 = macos_process_avc_13_5"
  by (simp_all add: ave_cmd_abi_13_5_def)

section \<open>macOS 26.6\<close>

definition cmd_26_6 :: "ave_op \<Rightarrow> ave_cmd_desc" where
  "cmd_26_6 op =
     (case op of
        AVE_OP_CONFIG \<Rightarrow> \<lparr>cd_id = AVE_CMD_CONFIG, cd_reply_id = AVE_CMD_CONFIG, cd_size = AVE_CMDSZ_CONFIG,
          cd_slot = AVE_SLOT_GLOBAL, cd_priority = 0, cd_reply_size = 0x48\<rparr>
      | AVE_OP_HALT \<Rightarrow> \<lparr>cd_id = AVE_CMD_HALT, cd_reply_id = 0, cd_size = AVE_CMDSZ_COMMON,
          cd_slot = AVE_SLOT_GLOBAL, cd_priority = 0, cd_reply_size = 0\<rparr>
      | AVE_OP_OPEN \<Rightarrow> \<lparr>cd_id = AVE_CMD_OPEN, cd_reply_id = AVE_CMD_OPEN, cd_size = AVE_CMDSZ_COMMON,
          cd_slot = 3, cd_priority = AVE_PRIORITY_DEFAULT, cd_reply_size = 0x48\<rparr>
      | AVE_OP_CLOSE \<Rightarrow> \<lparr>cd_id = AVE_CMD_CLOSE, cd_reply_id = AVE_CMD_CLOSE, cd_size = AVE_CMDSZ_COMMON,
          cd_slot = 4, cd_priority = AVE_PRIORITY_DEFAULT, cd_reply_size = 0x48\<rparr>
      | AVE_OP_START_AVC \<Rightarrow> \<lparr>cd_id = AVE_CMD_START, cd_reply_id = AVE_CMD_START, cd_size = AVE_CMDSZ_AVC_START,
          cd_slot = 6, cd_priority = AVE_PRIORITY_DEFAULT, cd_reply_size = 0x48\<rparr>
      | AVE_OP_START_HEVC \<Rightarrow> \<lparr>cd_id = AVE_CMD_START, cd_reply_id = AVE_CMD_START, cd_size = AVE_CMDSZ_HEVC_START,
          cd_slot = 6, cd_priority = AVE_PRIORITY_DEFAULT, cd_reply_size = 0x48\<rparr>
      | AVE_OP_STOP \<Rightarrow> \<lparr>cd_id = AVE_CMD_STOP, cd_reply_id = AVE_CMD_STOP, cd_size = AVE_CMDSZ_COMMON,
          cd_slot = 7, cd_priority = AVE_PRIORITY_DEFAULT, cd_reply_size = 0x48\<rparr>
      | AVE_OP_PROCESS_AVC \<Rightarrow> \<lparr>cd_id = AVE_CMD_PROCESS, cd_reply_id = AVE_CMD_PROCESS, cd_size = AVE_CMDSZ_AVC_PROCESS,
          cd_slot = AVE_SLOT_CALLER, cd_priority = AVE_PRIORITY_DEFAULT, cd_reply_size = 0x50\<rparr>
      | AVE_OP_PROCESS_HEVC \<Rightarrow> \<lparr>cd_id = AVE_CMD_PROCESS, cd_reply_id = AVE_CMD_PROCESS, cd_size = AVE_CMDSZ_HEVC_PROCESS,
          cd_slot = AVE_SLOT_CALLER, cd_priority = AVE_PRIORITY_DEFAULT, cd_reply_size = 0x50\<rparr>
      | AVE_OP_COMPLETE \<Rightarrow> \<lparr>cd_id = AVE_CMD_COMPLETE, cd_reply_id = AVE_CMD_COMPLETE, cd_size = AVE_CMDSZ_COMMON,
          cd_slot = ucast AVE_CMD_COMPLETE, cd_priority = AVE_PRIORITY_DEFAULT, cd_reply_size = 0x48\<rparr>
      | AVE_OP_PRIORITY \<Rightarrow> \<lparr>cd_id = AVE_CMD_PRIORITY, cd_reply_id = AVE_CMD_PRIORITY, cd_size = AVE_CMDSZ_COMMON,
          cd_slot = ucast AVE_CMD_PRIORITY, cd_priority = AVE_PRIORITY_DEFAULT, cd_reply_size = 0x48\<rparr>
      | AVE_OP_FLUSH \<Rightarrow> \<lparr>cd_id = AVE_CMD_FLUSH, cd_reply_id = AVE_CMD_FLUSH, cd_size = AVE_CMDSZ_COMMON,
          cd_slot = ucast AVE_CMD_FLUSH, cd_priority = AVE_PRIORITY_DEFAULT, cd_reply_size = 0x48\<rparr>
      | AVE_OP_RESET \<Rightarrow> \<lparr>cd_id = AVE_CMD_RESET, cd_reply_id = AVE_CMD_RESET, cd_size = AVE_CMDSZ_RESET,
          cd_slot = ucast AVE_CMD_RESET, cd_priority = AVE_PRIORITY_DEFAULT, cd_reply_size = 0x48\<rparr>)"

definition hdr_26_6 :: ave_hdr_layout where
  "hdr_26_6 =
     \<lparr>hl_count = 0x08, hl_client_id = 0x10, hl_client_id_bytes = 8, hl_work_type = 0x18,
      hl_codec = 0x1c, hl_slot = 0x20, hl_priority = 0x24, hl_timeout = 0x30,
      hl_codec_avc = AVE_ENC_AVC, hl_codec_hevc = AVE_ENC_HEVC,
      hl_max_slot = AVE_MAX_INFLIGHT\<rparr>"

lemma hdr_26_6_fields:
  "hl_count hdr_26_6 = 8" "hl_client_id hdr_26_6 = 0x10" "hl_client_id_bytes hdr_26_6 = 8"
  "hl_work_type hdr_26_6 = 0x18" "hl_codec hdr_26_6 = 0x1c" "hl_slot hdr_26_6 = 0x20"
  "hl_priority hdr_26_6 = 0x24" "hl_timeout hdr_26_6 = 0x30" "hl_codec_avc hdr_26_6 = 1"
  "hl_codec_hevc hdr_26_6 = 2" "hl_max_slot hdr_26_6 = 0x33"
  by (simp_all add: hdr_26_6_def layout_consts abi_consts)

definition reply_26_6 :: ave_reply_layout where
  "reply_26_6 =
     \<lparr>rl_id = 0x00, rl_client_id = 0x10, rl_client_id_bytes = 8, rl_slot = 0x20,
      rl_status = 0x40, rl_status_ok = 0\<rparr>"

lemma reply_26_6_fields:
  "rl_id reply_26_6 = 0" "rl_client_id reply_26_6 = 0x10" "rl_client_id_bytes reply_26_6 = 8"
  "rl_slot reply_26_6 = 0x20" "rl_status reply_26_6 = 0x40" "rl_status_ok reply_26_6 = 0"
  by (simp_all add: reply_26_6_def layout_consts abi_consts)

definition config_26_6 :: ave_config_layout where
  "config_26_6 =
     \<lparr>cl_skip_mcpu = 0x48, cl_create_mcpu = 0x49, cl_reg_dart_addr = AVE_OFF_NONE,
      cl_doorbell_cadence0 = 0x58, cl_doorbell_cadence1 = 0x5c, cl_dsid = 0x60,
      cl_dsid2 = AVE_OFF_NONE, cl_dsid_bytes = 4, cl_shmem_addr = 0x68, cl_shmem_size = 0x70,
      cl_shmem_min = 4 * (1176 + 2048 + 4)\<rparr>"

lemma config_26_6_fields:
  "cl_skip_mcpu config_26_6 = 0x48" "cl_create_mcpu config_26_6 = 0x49"
  "cl_reg_dart_addr config_26_6 = 0" "cl_doorbell_cadence0 config_26_6 = 0x58"
  "cl_doorbell_cadence1 config_26_6 = 0x5c" "cl_dsid config_26_6 = 0x60"
  "cl_dsid2 config_26_6 = 0" "cl_dsid_bytes config_26_6 = 4" "cl_shmem_addr config_26_6 = 0x68"
  "cl_shmem_size config_26_6 = 0x70" "cl_shmem_min config_26_6 = 0x3270"
  by (simp_all add: config_26_6_def layout_consts abi_consts)

definition start_avc_26_6 :: ave_start_avc_layout where
  "start_avc_26_6 =
     \<lparr>sa_fw_client_addr = AVE_START_FWCLIENT_ADDR,
      sa_fw_client_size = AVE_START_FWCLIENT_SIZE,
      sa_fw_client_mem_addr = AVE_START_FWCLIENTMEM_ADDR,
      sa_fw_client_mem_size = AVE_START_FWCLIENTMEM_SIZE, sa_width = AVE_START_WIDTH,
      sa_height = AVE_START_HEIGHT, sa_frame_rate = AVE_START_FRAMERATE,
      sa_bitrate = AVE_START_BITRATE, sa_rc_mode = AVE_START_RCMODE,
      sa_rc_mode_fixed_qp = AVE_RC_MODE_CONST_QP, sa_rc_feature = AVE_START_RC_FEATURE,
      sa_rc_feature_fixed_qp = AVE_RC_FEATURE_NEW_FRAMEWORK, sa_rc_mode_on = AVE_OFF_NONE,
      sa_frame_rate_div = AVE_OFF_NONE, sa_bitrate_sel = AVE_OFF_NONE,
      sa_bitrate_alt = AVE_OFF_NONE, sa_drl_enable = AVE_OFF_NONE, sa_drl_cfg = AVE_OFF_NONE,
      sa_qp_i = AVE_START_QP_I, sa_qp_p = AVE_START_QP_P, sa_qp_b = AVE_START_QP_B,
      sa_qp_min = AVE_START_QP_MIN, sa_qp_max = AVE_START_QP_MAX,
      sa_key_interval = AVE_START_MAX_GOP, sa_key_interval_strict = AVE_START_STRICT_GOP,
      sa_key_interval_dur = 0, sa_slice_num = AVE_START_SLICE_MAP_NUM, sa_param_sets_addr = 0,
      sa_param_sets_size = 0, sa_sve_num = 0, sa_need_lsb_planes = 0, sa_recon_lsb_addr = 0,
      sa_recon_set = AVE_START_RECON_SET, sa_recon_stride = AVE_START_RECON_STRIDE,
      sa_recon_max = 16, sa_recon_addr = 0x00, sa_recon_size = 0x08,
      sa_recon_meta_addr = 0x10, sa_low_res_ref_set = AVE_OFF_NONE, sa_low_res_ref_stride = 0,
      sa_low_res_ref_max = 0, sa_low_res_result_set = AVE_OFF_NONE,
      sa_low_res_result_stride = 0, sa_low_res_result_max = 0, sa_colocated_set = 0,
      sa_colocated_stride = 0, sa_colocated_max = 0, sa_entropy_set = 0,
      sa_entropy_stride_i = 0, sa_entropy_stride_j = 0, sa_entropy_max = 0,
      sa_entropy_cols_max = 0, sa_entropy_size_set = 0, sa_entropy_size_stride_i = 0,
      sa_entropy_size_stride_j = 0, sa_coded_max = AVE_CODED_MAX_BUFS,
      sa_coded_addr = AVE_START_CODED_DATA_SET, sa_coded_addr_stride = AVE_START_BUF_STRIDE,
      sa_coded_size = AVE_START_CODED_DATA_SET + 8,
      sa_coded_size_stride = AVE_START_BUF_STRIDE,
      sa_coded_hdr_addr = AVE_START_CODED_HDR_SET,
      sa_coded_hdr_addr_stride = AVE_START_BUF_STRIDE,
      sa_coded_hdr_size = AVE_START_CODED_HDR_SET + 8,
      sa_coded_hdr_size_stride = AVE_START_BUF_STRIDE,
      sa_coded_hdr_bytes = AVE_CODED_HEADER_SIZE,
      sa_src_nbr_set = [AVE_OFF_NONE, AVE_OFF_NONE, AVE_OFF_NONE, AVE_OFF_NONE],
      sa_src_nbr_max = 0, sa_src_mode = AVE_OFF_NONE, sa_src_cfg_byte = AVE_OFF_NONE,
      sa_src_go_bit3 = AVE_OFF_NONE, sa_multi_me = AVE_OFF_NONE, sa_mp_enable = AVE_OFF_NONE,
      sa_mp_pass = AVE_OFF_NONE, sa_mp_const_qp = AVE_OFF_NONE, sa_mp_qpmod = AVE_OFF_NONE,
      sa_mp_max_qpmod = AVE_OFF_NONE, sa_mp_options = AVE_OFF_NONE,
      sa_src_go_bits = AVE_OFF_NONE, sa_dbg_bits = AVE_OFF_NONE,
      sa_ipcm_islice = AVE_OFF_NONE, sa_skip_mode = AVE_OFF_NONE, sa_mode_8x8 = AVE_OFF_NONE,
      sa_lambda_scales = AVE_OFF_NONE, sa_lambda_qp_tab = AVE_OFF_NONE,
      sa_lambda_idx_tab = AVE_OFF_NONE, sa_lambda_rec_tab = AVE_OFF_NONE,
      sa_num_views = [AVE_OFF_NONE, AVE_OFF_NONE], sa_ref_spacing = AVE_OFF_NONE,
      sa_search_range = AVE_OFF_NONE, sa_max_mvs_per_2mb = AVE_OFF_NONE,
      sa_bframes = AVE_OFF_NONE, sa_adapt_b = AVE_OFF_NONE, sa_max_sub_mb_rect = AVE_OFF_NONE,
      sa_slice_map_end = AVE_OFF_NONE, sa_transcoded_set = AVE_OFF_NONE,
      sa_transcoded_stride = 0, sa_transcoded_max = 0, sa_transcoded_size = AVE_OFF_NONE,
      sa_sps_block = AVE_START_SPS_OFF, sa_sps_block_size = AVE_START_SPS_SIZE,
      sa_pps_block = AVE_START_PPS_OFF, sa_pps_block_size = AVE_START_PPS_SIZE\<rparr>"

lemma start_avc_26_6_fields:
  "sa_fw_client_addr start_avc_26_6 = 0x48" "sa_fw_client_size start_avc_26_6 = 0x50"
  "sa_fw_client_mem_addr start_avc_26_6 = 0x58" "sa_fw_client_mem_size start_avc_26_6 = 0x60"
  "sa_width start_avc_26_6 = 0x368" "sa_height start_avc_26_6 = 0x36c"
  "sa_frame_rate start_avc_26_6 = 0x220" "sa_bitrate start_avc_26_6 = 0x238"
  "sa_rc_mode start_avc_26_6 = 0x234" "sa_rc_mode_fixed_qp start_avc_26_6 = 3"
  "sa_rc_feature start_avc_26_6 = 0x228" "sa_rc_feature_fixed_qp start_avc_26_6 = 0x80000000"
  "sa_rc_mode_on start_avc_26_6 = 0" "sa_frame_rate_div start_avc_26_6 = 0"
  "sa_bitrate_sel start_avc_26_6 = 0" "sa_bitrate_alt start_avc_26_6 = 0"
  "sa_drl_enable start_avc_26_6 = 0" "sa_drl_cfg start_avc_26_6 = 0"
  "sa_qp_i start_avc_26_6 = 0x240" "sa_qp_p start_avc_26_6 = 0x244"
  "sa_qp_b start_avc_26_6 = 0x248" "sa_qp_min start_avc_26_6 = 0x298"
  "sa_qp_max start_avc_26_6 = 0x29c" "sa_key_interval start_avc_26_6 = 0x2b8"
  "sa_key_interval_strict start_avc_26_6 = 0x2bc" "sa_key_interval_dur start_avc_26_6 = 0"
  "sa_slice_num start_avc_26_6 = 0x25d4" "sa_param_sets_addr start_avc_26_6 = 0"
  "sa_param_sets_size start_avc_26_6 = 0" "sa_sve_num start_avc_26_6 = 0"
  "sa_need_lsb_planes start_avc_26_6 = 0" "sa_recon_lsb_addr start_avc_26_6 = 0"
  "sa_recon_set start_avc_26_6 = 0x390" "sa_recon_stride start_avc_26_6 = 0x20"
  "sa_recon_max start_avc_26_6 = 0x10" "sa_recon_addr start_avc_26_6 = 0"
  "sa_recon_size start_avc_26_6 = 8" "sa_recon_meta_addr start_avc_26_6 = 0x10"
  "sa_low_res_ref_set start_avc_26_6 = 0" "sa_low_res_ref_stride start_avc_26_6 = 0"
  "sa_low_res_ref_max start_avc_26_6 = 0" "sa_low_res_result_set start_avc_26_6 = 0"
  "sa_low_res_result_stride start_avc_26_6 = 0" "sa_low_res_result_max start_avc_26_6 = 0"
  "sa_colocated_set start_avc_26_6 = 0" "sa_colocated_stride start_avc_26_6 = 0"
  "sa_colocated_max start_avc_26_6 = 0" "sa_entropy_set start_avc_26_6 = 0"
  "sa_entropy_stride_i start_avc_26_6 = 0" "sa_entropy_stride_j start_avc_26_6 = 0"
  "sa_entropy_max start_avc_26_6 = 0" "sa_entropy_cols_max start_avc_26_6 = 0"
  "sa_entropy_size_set start_avc_26_6 = 0" "sa_entropy_size_stride_i start_avc_26_6 = 0"
  "sa_entropy_size_stride_j start_avc_26_6 = 0" "sa_coded_max start_avc_26_6 = 0x1e"
  "sa_coded_addr start_avc_26_6 = 0xd50" "sa_coded_addr_stride start_avc_26_6 = 0x10"
  "sa_coded_size start_avc_26_6 = 0xd58" "sa_coded_size_stride start_avc_26_6 = 0x10"
  "sa_coded_hdr_addr start_avc_26_6 = 0xf50" "sa_coded_hdr_addr_stride start_avc_26_6 = 0x10"
  "sa_coded_hdr_size start_avc_26_6 = 0xf58" "sa_coded_hdr_size_stride start_avc_26_6 = 0x10"
  "sa_coded_hdr_bytes start_avc_26_6 = 0xc000" "sa_src_nbr_set start_avc_26_6 = [0, 0, 0, 0]"
  "sa_src_nbr_max start_avc_26_6 = 0" "sa_src_mode start_avc_26_6 = 0"
  "sa_src_cfg_byte start_avc_26_6 = 0" "sa_src_go_bit3 start_avc_26_6 = 0"
  "sa_multi_me start_avc_26_6 = 0" "sa_mp_enable start_avc_26_6 = 0"
  "sa_mp_pass start_avc_26_6 = 0" "sa_mp_const_qp start_avc_26_6 = 0"
  "sa_mp_qpmod start_avc_26_6 = 0" "sa_mp_max_qpmod start_avc_26_6 = 0"
  "sa_mp_options start_avc_26_6 = 0" "sa_src_go_bits start_avc_26_6 = 0"
  "sa_dbg_bits start_avc_26_6 = 0" "sa_ipcm_islice start_avc_26_6 = 0"
  "sa_skip_mode start_avc_26_6 = 0" "sa_mode_8x8 start_avc_26_6 = 0"
  "sa_lambda_scales start_avc_26_6 = 0" "sa_lambda_qp_tab start_avc_26_6 = 0"
  "sa_lambda_idx_tab start_avc_26_6 = 0" "sa_lambda_rec_tab start_avc_26_6 = 0"
  "sa_num_views start_avc_26_6 = [0, 0]" "sa_ref_spacing start_avc_26_6 = 0"
  "sa_search_range start_avc_26_6 = 0" "sa_max_mvs_per_2mb start_avc_26_6 = 0"
  "sa_bframes start_avc_26_6 = 0" "sa_adapt_b start_avc_26_6 = 0"
  "sa_max_sub_mb_rect start_avc_26_6 = 0" "sa_slice_map_end start_avc_26_6 = 0"
  "sa_transcoded_set start_avc_26_6 = 0" "sa_transcoded_stride start_avc_26_6 = 0"
  "sa_transcoded_max start_avc_26_6 = 0" "sa_transcoded_size start_avc_26_6 = 0"
  "sa_sps_block start_avc_26_6 = 0x291c" "sa_sps_block_size start_avc_26_6 = 0x6b4"
  "sa_pps_block start_avc_26_6 = 0x2fd0" "sa_pps_block_size start_avc_26_6 = 0x180"
  by (simp_all add: start_avc_26_6_def layout_consts abi_consts)

definition sps_26_6 :: ave_sps_layout where
  "sps_26_6 =
     \<lparr>sl_enum_profile_level = True, sl_profile = AVE_SPS_PROFILE, sl_level = AVE_SPS_LEVEL,
      sl_seq_parameter_set_id = AVE_SPS_SEQ_PARAM_SET_ID,
      sl_chroma_format_idc = AVE_SPS_CHROMA_FORMAT_IDC,
      sl_bit_depth_luma_minus8 = AVE_SPS_BIT_DEPTH_LUMA_M8,
      sl_bit_depth_chroma_minus8 = AVE_SPS_BIT_DEPTH_CHROMA_M8,
      sl_log2_max_frame_num_minus4 = AVE_SPS_LOG2_MAX_FRAME_NUM_M4,
      sl_pic_order_cnt_type = AVE_SPS_POC_TYPE, sl_log2_max_poc_lsb_m4 = AVE_OFF_NONE,
      sl_max_num_ref_frames = AVE_START_MAX_REF,
      sl_gaps_in_frame_num_allowed = AVE_SPS_GAPS_IN_FRAME_NUM,
      sl_pic_width_in_mbs_minus1 = AVE_SPS_PIC_WIDTH_MBS_M1,
      sl_pic_height_in_map_units_minus1 = AVE_SPS_PIC_HEIGHT_MAPU_M1,
      sl_frame_mbs_only_flag = AVE_SPS_FRAME_MBS_ONLY,
      sl_direct_8x8_inference_flag = AVE_SPS_DIRECT_8X8_INFERENCE,
      sl_vui_parameters_present_flag = AVE_SPS_VUI_PRESENT,
      sl_frame_cropping_flag = AVE_SPS_FRAME_CROPPING, sl_crop_left = AVE_SPS_CROP_LEFT,
      sl_crop_right = AVE_SPS_CROP_RIGHT, sl_crop_top = AVE_SPS_CROP_TOP,
      sl_crop_bottom = AVE_SPS_CROP_BOTTOM, sl_scaling_4x4 = AVE_OFF_NONE,
      sl_scaling_8x8 = AVE_OFF_NONE, sl_fw_creates_header = AVE_SPS_FW_CREATES_HDR,
      sl_header_len = AVE_SPS_HEADER_LEN\<rparr>"

lemma sps_26_6_fields:
  "sl_enum_profile_level sps_26_6" "sl_profile sps_26_6 = 0x291c" "sl_level sps_26_6 = 0x2938"
  "sl_seq_parameter_set_id sps_26_6 = 0x293c" "sl_chroma_format_idc sps_26_6 = 0x2940"
  "sl_bit_depth_luma_minus8 sps_26_6 = 0x2948" "sl_bit_depth_chroma_minus8 sps_26_6 = 0x294c"
  "sl_log2_max_frame_num_minus4 sps_26_6 = 0x2d34" "sl_pic_order_cnt_type sps_26_6 = 0x2d38"
  "sl_log2_max_poc_lsb_m4 sps_26_6 = 0" "sl_max_num_ref_frames sps_26_6 = 0x2d44"
  "sl_gaps_in_frame_num_allowed sps_26_6 = 0x2d48"
  "sl_pic_width_in_mbs_minus1 sps_26_6 = 0x2d4c"
  "sl_pic_height_in_map_units_minus1 sps_26_6 = 0x2d50"
  "sl_frame_mbs_only_flag sps_26_6 = 0x2d54" "sl_direct_8x8_inference_flag sps_26_6 = 0x2d58"
  "sl_vui_parameters_present_flag sps_26_6 = 0x2d5c" "sl_frame_cropping_flag sps_26_6 = 0x2db4"
  "sl_crop_left sps_26_6 = 0x2db8" "sl_crop_right sps_26_6 = 0x2dbc"
  "sl_crop_top sps_26_6 = 0x2dc0" "sl_crop_bottom sps_26_6 = 0x2dc4"
  "sl_scaling_4x4 sps_26_6 = 0" "sl_scaling_8x8 sps_26_6 = 0"
  "sl_fw_creates_header sps_26_6 = 0x2dc8" "sl_header_len sps_26_6 = 0x2dcc"
  by (simp_all add: sps_26_6_def layout_consts abi_consts)

definition pps_26_6 :: ave_pps_layout where
  "pps_26_6 =
     \<lparr>pl_pic_parameter_set_id = AVE_PPS_PIC_PARAM_SET_ID,
      pl_seq_parameter_set_id = AVE_PPS_SEQ_PARAM_SET_ID,
      pl_entropy_coding_mode_flag = AVE_PPS_ENTROPY_CODING_MODE,
      pl_num_slice_groups_minus1 = AVE_PPS_NUM_SLICE_GROUPS_M1,
      pl_pic_init_qp_minus26 = AVE_PPS_PIC_INIT_QP_M26,
      pl_deblocking_filter_control = AVE_PPS_DEBLOCKING_CTRL,
      pl_constrained_intra_pred = AVE_PPS_CONSTRAINED_INTRA,
      pl_transform_8x8_mode = AVE_PPS_TRANSFORM_8X8,
      pl_fw_creates_header = AVE_PPS_FW_CREATES_HDR\<rparr>"

lemma pps_26_6_fields:
  "pl_pic_parameter_set_id pps_26_6 = 0x2fd0" "pl_seq_parameter_set_id pps_26_6 = 0x2fd4"
  "pl_entropy_coding_mode_flag pps_26_6 = 0x2fd8"
  "pl_num_slice_groups_minus1 pps_26_6 = 0x2fe0" "pl_pic_init_qp_minus26 pps_26_6 = 0x2ff8"
  "pl_deblocking_filter_control pps_26_6 = 0x3020"
  "pl_constrained_intra_pred pps_26_6 = 0x3021" "pl_transform_8x8_mode pps_26_6 = 0x3023"
  "pl_fw_creates_header pps_26_6 = 0x3048"
  by (simp_all add: pps_26_6_def layout_consts abi_consts)

definition process_avc_26_6 :: ave_process_avc_layout where
  "process_avc_26_6 =
     \<lparr>pa_picmgmt = AVE_PICMGMT_OFF, pa_picmgmt_size = AVE_PICMGMT_SIZE,
      pa_picmgmt_size_word = False, pa_frame_num = AVE_PIC_FRAME_NUM,
      pa_frame_num_u32 = False, pa_poc = AVE_PIC_POC, pa_frame_rate_f64 = AVE_PIC_FRAME_RATE,
      pa_frame_type = AVE_PIC_FRAME_TYPE, pa_input_compressed = AVE_PIC_INPUT_COMPRESSED,
      pa_in_luma_addr = AVE_PIC_IN_LUMA_ADDR, pa_in_luma_size = AVE_PIC_IN_LUMA_SIZE,
      pa_in_luma_stride = AVE_PIC_IN_LUMA_STRIDE, pa_in_chroma_addr = AVE_PIC_IN_CHROMA_ADDR,
      pa_in_chroma_size = AVE_PIC_IN_CHROMA_SIZE,
      pa_in_chroma_stride = AVE_PIC_IN_CHROMA_STRIDE, pa_in_dims = AVE_OFF_NONE,
      pa_mp_stats_in = AVE_OFF_NONE, pa_out_mode = AVE_PIC_OUT_MODE,
      pa_out_index = AVE_PIC_OUT_INDEX, pa_out_coded = AVE_PIC_OUT_CODED,
      pa_out_coded_hdr = AVE_PIC_OUT_CODED_HDR, pa_direct_spatial = AVE_OFF_NONE,
      pa_out_coded_size = AVE_PIC_OUT_CODED_SIZE, pa_recon_y = AVE_PIC_RECON_Y_MSB,
      pa_recon_uv = AVE_PIC_RECON_UV_MSB, pa_recon_mv = AVE_PIC_RECON_MV,
      pa_recon_y_lsb = AVE_PIC_RECON_Y_LSB, pa_recon_uv_lsb = AVE_PIC_RECON_UV_LSB,
      pa_ctx_index = AVE_PIC_CTX_INDEX, pa_force_key_frame = AVE_PIC_FORCE_KEYFRAME,
      pa_force_non_ref = AVE_OFF_NONE, pa_update_param_sets = 0x174d,
      pa_scaling_matrix_mode = 0x1750, pa_low_res_src = AVE_PIC_LOWRES_LUMA_SCALED,
      pa_low_res_results = AVE_PIC_LOWRES_RESULTS, pa_low_res_results_stride = 0x10,
      pa_low_res_results_max = 1, pa_entropy_set = AVE_OFF_NONE, pa_entropy_stride_i = 0,
      pa_entropy_stride_j = 0, pa_entropy_max = 0, pa_entropy_cols_max = 0,
      pa_src_nbr_set = [AVE_PIC_SRC_NEIGH_INFO, AVE_PIC_SRC_NEIGH_PIXEL, AVE_PIC_SRC_NEIGH_DATA, AVE_PIC_SRC_NEIGH_FWDATA],
      pa_src_nbr_max = 4,
      pa_scratch = [AVE_PIC_SCRATCH_CMDINFO40, AVE_PIC_SCRATCH_SLOTPOOL, AVE_PIC_SCRATCH_CMDINFO48, AVE_OFF_NONE],
      pa_scratch_n = 3, pa_first_process = AVE_OFF_NONE\<rparr>"

lemma process_avc_26_6_fields:
  "pa_picmgmt process_avc_26_6 = 0x12c0" "pa_picmgmt_size process_avc_26_6 = 0x5118"
  "\<not> pa_picmgmt_size_word process_avc_26_6" "pa_frame_num process_avc_26_6 = 0x4f68"
  "\<not> pa_frame_num_u32 process_avc_26_6" "pa_poc process_avc_26_6 = 0x4f80"
  "pa_frame_rate_f64 process_avc_26_6 = 0x4fa8" "pa_frame_type process_avc_26_6 = 0x4f78"
  "pa_input_compressed process_avc_26_6 = 0x174e" "pa_in_luma_addr process_avc_26_6 = 0x4570"
  "pa_in_luma_size process_avc_26_6 = 0x4578" "pa_in_luma_stride process_avc_26_6 = 0x457c"
  "pa_in_chroma_addr process_avc_26_6 = 0x4590" "pa_in_chroma_size process_avc_26_6 = 0x4598"
  "pa_in_chroma_stride process_avc_26_6 = 0x459c" "pa_in_dims process_avc_26_6 = 0"
  "pa_mp_stats_in process_avc_26_6 = 0" "pa_out_mode process_avc_26_6 = 0x4ef0"
  "pa_out_index process_avc_26_6 = 0x4ef4" "pa_out_coded process_avc_26_6 = 0x4ef8"
  "pa_out_coded_hdr process_avc_26_6 = 0x4f00" "pa_direct_spatial process_avc_26_6 = 0"
  "pa_out_coded_size process_avc_26_6 = 0x4f08" "pa_recon_y process_avc_26_6 = 0x4548"
  "pa_recon_uv process_avc_26_6 = 0x4558" "pa_recon_mv process_avc_26_6 = 0x4568"
  "pa_recon_y_lsb process_avc_26_6 = 0x4550" "pa_recon_uv_lsb process_avc_26_6 = 0x4560"
  "pa_ctx_index process_avc_26_6 = 0x4fa4" "pa_force_key_frame process_avc_26_6 = 0x1738"
  "pa_force_non_ref process_avc_26_6 = 0" "pa_update_param_sets process_avc_26_6 = 0x174d"
  "pa_scaling_matrix_mode process_avc_26_6 = 0x1750" "pa_low_res_src process_avc_26_6 = 0x4f10"
  "pa_low_res_results process_avc_26_6 = 0x4f48"
  "pa_low_res_results_stride process_avc_26_6 = 0x10"
  "pa_low_res_results_max process_avc_26_6 = 1" "pa_entropy_set process_avc_26_6 = 0"
  "pa_entropy_stride_i process_avc_26_6 = 0" "pa_entropy_stride_j process_avc_26_6 = 0"
  "pa_entropy_max process_avc_26_6 = 0" "pa_entropy_cols_max process_avc_26_6 = 0"
  "pa_src_nbr_set process_avc_26_6 = [0x4670, 0x4690, 0x46b0, 0x46d0]"
  "pa_src_nbr_max process_avc_26_6 = 4"
  "pa_scratch process_avc_26_6 = [0x45f8, 0x4608, 0x4618, 0]"
  "pa_scratch_n process_avc_26_6 = 3" "pa_first_process process_avc_26_6 = 0"
  by (simp_all add: process_avc_26_6_def layout_consts abi_consts)

definition coded_hdr_26_6 :: ave_coded_hdr_layout where
  "coded_hdr_26_6 =
     \<lparr>dh_i_mb_cnt = 0, dh_p_mb_cnt = 0, dh_skip_mb_cnt = 0, dh_b_mb_cnt = 0,
      dh_sps_pps_bits = 0, dh_frame_num = 0, dh_frame_type = 0, dh_slice_stride = 0,
      dh_slice_max = 0, dh_slice_bytes_written = 0, dh_slice_bytes_removed = 0,
      dh_cabac_zero_words = 0, dh_slice_hdr_iova = 0, dh_slice_hdr_len = 0, dh_ps_info = 0,
      dh_min_bytes = 0\<rparr>"

lemma coded_hdr_26_6_fields:
  "dh_i_mb_cnt coded_hdr_26_6 = 0" "dh_p_mb_cnt coded_hdr_26_6 = 0"
  "dh_skip_mb_cnt coded_hdr_26_6 = 0" "dh_b_mb_cnt coded_hdr_26_6 = 0"
  "dh_sps_pps_bits coded_hdr_26_6 = 0" "dh_frame_num coded_hdr_26_6 = 0"
  "dh_frame_type coded_hdr_26_6 = 0" "dh_slice_stride coded_hdr_26_6 = 0"
  "dh_slice_max coded_hdr_26_6 = 0" "dh_slice_bytes_written coded_hdr_26_6 = 0"
  "dh_slice_bytes_removed coded_hdr_26_6 = 0" "dh_cabac_zero_words coded_hdr_26_6 = 0"
  "dh_slice_hdr_iova coded_hdr_26_6 = 0" "dh_slice_hdr_len coded_hdr_26_6 = 0"
  "dh_ps_info coded_hdr_26_6 = 0" "dh_min_bytes coded_hdr_26_6 = 0"
  by (simp_all add: coded_hdr_26_6_def layout_consts abi_consts)

definition start_hevc_26_6 :: ave_start_hevc_layout where
  "start_hevc_26_6 =
     \<lparr>hv_shares_avc_vp = False, hv_vps_block = AVE_OFF_NONE, hv_vps_block_size = 0,
      hv_sps_block = [0, 0], hv_sps_block_size = 0, hv_pps_block = [0, 0],
      hv_pps_block_size = 0, hv_rps_block = 0, hv_rps_block_size = 0,
      hv_transcode_overlap = 0, hv_sve_num = 0, hv_sve_index = 0, hv_input_format_word = 0,
      hv_pps_count = 0, hv_pps_ids = 0, hv_enable_tmvp = 0, hv_sao_enb_config = 0,
      hv_sao_eo_bo = 0, hv_input_bitdepth = 0, hv_max_num_ref_frames = 0,
      hv_slice_map_height = 0, hv_entropy_rows = 0, hv_buf_align = 0, hv_transcoded_set = 0,
      hv_transcoded_stride = 0, hv_transcoded_max = 0, hv_transcoded_size = 0, hv_qp_mod = 0\<rparr>"

lemma start_hevc_26_6_fields:
  "\<not> hv_shares_avc_vp start_hevc_26_6" "hv_vps_block start_hevc_26_6 = 0"
  "hv_vps_block_size start_hevc_26_6 = 0" "hv_sps_block start_hevc_26_6 = [0, 0]"
  "hv_sps_block_size start_hevc_26_6 = 0" "hv_pps_block start_hevc_26_6 = [0, 0]"
  "hv_pps_block_size start_hevc_26_6 = 0" "hv_rps_block start_hevc_26_6 = 0"
  "hv_rps_block_size start_hevc_26_6 = 0" "hv_transcode_overlap start_hevc_26_6 = 0"
  "hv_sve_num start_hevc_26_6 = 0" "hv_sve_index start_hevc_26_6 = 0"
  "hv_input_format_word start_hevc_26_6 = 0" "hv_pps_count start_hevc_26_6 = 0"
  "hv_pps_ids start_hevc_26_6 = 0" "hv_enable_tmvp start_hevc_26_6 = 0"
  "hv_sao_enb_config start_hevc_26_6 = 0" "hv_sao_eo_bo start_hevc_26_6 = 0"
  "hv_input_bitdepth start_hevc_26_6 = 0" "hv_max_num_ref_frames start_hevc_26_6 = 0"
  "hv_slice_map_height start_hevc_26_6 = 0" "hv_entropy_rows start_hevc_26_6 = 0"
  "hv_buf_align start_hevc_26_6 = 0" "hv_transcoded_set start_hevc_26_6 = 0"
  "hv_transcoded_stride start_hevc_26_6 = 0" "hv_transcoded_max start_hevc_26_6 = 0"
  "hv_transcoded_size start_hevc_26_6 = 0" "hv_qp_mod start_hevc_26_6 = 0"
  by (simp_all add: start_hevc_26_6_def layout_consts abi_consts)

definition hps_26_6 :: ave_hevc_ps_layout where
  "hps_26_6 =
     \<lparr>hp_ptl = 0, hp_ptl_profile_idc = 0, hp_ptl_tier = 0, hp_ptl_compat = 0,
      hp_ptl_progressive = 0, hp_ptl_interlaced = 0, hp_ptl_non_packed = 0,
      hp_ptl_frame_only = 0, hp_ptl_level_idc = 0, hp_vps_id = 0, hp_vps_base_internal = 0,
      hp_vps_base_available = 0, hp_vps_max_layers_m1 = 0, hp_vps_max_sub_layers_m1 = 0,
      hp_vps_temporal_nesting = 0, hp_vps_sublayer_info = 0, hp_vps_max_dec_pic_buf_m1 = 0,
      hp_vps_num_reorder = 0, hp_vps_max_latency = 0, hp_vps_num_layer_sets_m1 = 0,
      hp_vps_timing_present = 0, hp_vps_num_hrd = 0, hp_vps_ext = 0, hp_sps_layer_id = 0,
      hp_sps_gate7 = 0, hp_sps_vps_id = 0, hp_sps_max_sub_layers_m1 = 0,
      hp_sps_temporal_nesting = 0, hp_sps_id = 0, hp_chroma_format_idc = 0, hp_pic_width = 0,
      hp_pic_height = 0, hp_ctb_cols = 0, hp_ctb_rows = 0, hp_conf_win_flag = 0,
      hp_conf_win_left = 0, hp_conf_win_right = 0, hp_conf_win_top = 0,
      hp_conf_win_bottom = 0, hp_bit_depth_luma_m8 = 0, hp_bit_depth_chroma_m8 = 0,
      hp_log2_max_poc_lsb_m4 = 0, hp_sps_sublayer_info = 0, hp_sps_max_dec_pic_buf_m1 = 0,
      hp_sps_num_reorder = 0, hp_sps_max_latency = 0, hp_log2_min_cb_m3 = 0,
      hp_log2_diff_cb = 0, hp_log2_min_tb_m2 = 0, hp_log2_diff_tb = 0, hp_tb_depth_inter = 0,
      hp_tb_depth_intra = 0, hp_scaling_enabled = 0, hp_scaling_present = 0, hp_amp = 0,
      hp_sao = 0, hp_pcm = 0, hp_sps_tmvp = 0, hp_strong_intra = 0, hp_vui_present = 0,
      hp_sps_ext = 0, hp_sps_fw_creates_header = 0, hp_sps_header_len = 0,
      hp_pps_layer_id = 0, hp_pps_id = 0, hp_pps_sps_id = 0, hp_dependent_slices = 0,
      hp_output_flag_present = 0, hp_extra_sh_bits = 0, hp_sign_hiding = 0,
      hp_cabac_init_present = 0, hp_num_ref_l0_m1 = 0, hp_num_ref_l1_m1 = 0,
      hp_init_qp_m26 = 0, hp_constrained_intra = 0, hp_transform_skip = 0, hp_cu_qp_delta = 0,
      hp_cu_qp_delta_depth = 0, hp_cb_qp_offset = 0, hp_cr_qp_offset = 0,
      hp_chroma_qp_offsets_present = 0, hp_weighted_pred = 0, hp_weighted_bipred = 0,
      hp_transquant_bypass = 0, hp_tiles = 0, hp_wpp = 0, hp_lf_across_slices = 0,
      hp_deblock_ctrl_present = 0, hp_deblock_override = 0, hp_deblock_disable = 0,
      hp_beta_offset_div2 = 0, hp_tc_offset_div2 = 0, hp_pps_scaling_present = 0,
      hp_lists_mod = 0, hp_par_merge_m2 = 0, hp_sh_ext_present = 0, hp_pps_ext = 0,
      hp_pps_fw_creates_header = 0, hp_pps_header_len = 0, hp_rps_num_st = 0,
      hp_rps_entry0 = 0, hp_rps_entry_stride = 0, hp_rps_inter_pred = 0, hp_rps_num_neg = 0,
      hp_rps_num_pos = 0, hp_rps_dpoc_s0_m1 = 0, hp_rps_used_s0 = 0, hp_rps_dpoc_s1_m1 = 0,
      hp_rps_used_s1 = 0, hp_rps_num_delta_pocs = 0, hp_rps_d_num_neg = 0,
      hp_rps_d_num_pos = 0, hp_rps_d_used_s0 = 0, hp_rps_d_used_s1 = 0,
      hp_rps_d_delta_poc_s0 = 0, hp_rps_d_delta_poc_s1 = 0, hp_rps_lt_present = 0\<rparr>"

lemma hps_26_6_fields:
  "hp_ptl hps_26_6 = 0" "hp_ptl_profile_idc hps_26_6 = 0" "hp_ptl_tier hps_26_6 = 0"
  "hp_ptl_compat hps_26_6 = 0" "hp_ptl_progressive hps_26_6 = 0"
  "hp_ptl_interlaced hps_26_6 = 0" "hp_ptl_non_packed hps_26_6 = 0"
  "hp_ptl_frame_only hps_26_6 = 0" "hp_ptl_level_idc hps_26_6 = 0" "hp_vps_id hps_26_6 = 0"
  "hp_vps_base_internal hps_26_6 = 0" "hp_vps_base_available hps_26_6 = 0"
  "hp_vps_max_layers_m1 hps_26_6 = 0" "hp_vps_max_sub_layers_m1 hps_26_6 = 0"
  "hp_vps_temporal_nesting hps_26_6 = 0" "hp_vps_sublayer_info hps_26_6 = 0"
  "hp_vps_max_dec_pic_buf_m1 hps_26_6 = 0" "hp_vps_num_reorder hps_26_6 = 0"
  "hp_vps_max_latency hps_26_6 = 0" "hp_vps_num_layer_sets_m1 hps_26_6 = 0"
  "hp_vps_timing_present hps_26_6 = 0" "hp_vps_num_hrd hps_26_6 = 0" "hp_vps_ext hps_26_6 = 0"
  "hp_sps_layer_id hps_26_6 = 0" "hp_sps_gate7 hps_26_6 = 0" "hp_sps_vps_id hps_26_6 = 0"
  "hp_sps_max_sub_layers_m1 hps_26_6 = 0" "hp_sps_temporal_nesting hps_26_6 = 0"
  "hp_sps_id hps_26_6 = 0" "hp_chroma_format_idc hps_26_6 = 0" "hp_pic_width hps_26_6 = 0"
  "hp_pic_height hps_26_6 = 0" "hp_ctb_cols hps_26_6 = 0" "hp_ctb_rows hps_26_6 = 0"
  "hp_conf_win_flag hps_26_6 = 0" "hp_conf_win_left hps_26_6 = 0"
  "hp_conf_win_right hps_26_6 = 0" "hp_conf_win_top hps_26_6 = 0"
  "hp_conf_win_bottom hps_26_6 = 0" "hp_bit_depth_luma_m8 hps_26_6 = 0"
  "hp_bit_depth_chroma_m8 hps_26_6 = 0" "hp_log2_max_poc_lsb_m4 hps_26_6 = 0"
  "hp_sps_sublayer_info hps_26_6 = 0" "hp_sps_max_dec_pic_buf_m1 hps_26_6 = 0"
  "hp_sps_num_reorder hps_26_6 = 0" "hp_sps_max_latency hps_26_6 = 0"
  "hp_log2_min_cb_m3 hps_26_6 = 0" "hp_log2_diff_cb hps_26_6 = 0"
  "hp_log2_min_tb_m2 hps_26_6 = 0" "hp_log2_diff_tb hps_26_6 = 0"
  "hp_tb_depth_inter hps_26_6 = 0" "hp_tb_depth_intra hps_26_6 = 0"
  "hp_scaling_enabled hps_26_6 = 0" "hp_scaling_present hps_26_6 = 0" "hp_amp hps_26_6 = 0"
  "hp_sao hps_26_6 = 0" "hp_pcm hps_26_6 = 0" "hp_sps_tmvp hps_26_6 = 0"
  "hp_strong_intra hps_26_6 = 0" "hp_vui_present hps_26_6 = 0" "hp_sps_ext hps_26_6 = 0"
  "hp_sps_fw_creates_header hps_26_6 = 0" "hp_sps_header_len hps_26_6 = 0"
  "hp_pps_layer_id hps_26_6 = 0" "hp_pps_id hps_26_6 = 0" "hp_pps_sps_id hps_26_6 = 0"
  "hp_dependent_slices hps_26_6 = 0" "hp_output_flag_present hps_26_6 = 0"
  "hp_extra_sh_bits hps_26_6 = 0" "hp_sign_hiding hps_26_6 = 0"
  "hp_cabac_init_present hps_26_6 = 0" "hp_num_ref_l0_m1 hps_26_6 = 0"
  "hp_num_ref_l1_m1 hps_26_6 = 0" "hp_init_qp_m26 hps_26_6 = 0"
  "hp_constrained_intra hps_26_6 = 0" "hp_transform_skip hps_26_6 = 0"
  "hp_cu_qp_delta hps_26_6 = 0" "hp_cu_qp_delta_depth hps_26_6 = 0"
  "hp_cb_qp_offset hps_26_6 = 0" "hp_cr_qp_offset hps_26_6 = 0"
  "hp_chroma_qp_offsets_present hps_26_6 = 0" "hp_weighted_pred hps_26_6 = 0"
  "hp_weighted_bipred hps_26_6 = 0" "hp_transquant_bypass hps_26_6 = 0" "hp_tiles hps_26_6 = 0"
  "hp_wpp hps_26_6 = 0" "hp_lf_across_slices hps_26_6 = 0"
  "hp_deblock_ctrl_present hps_26_6 = 0" "hp_deblock_override hps_26_6 = 0"
  "hp_deblock_disable hps_26_6 = 0" "hp_beta_offset_div2 hps_26_6 = 0"
  "hp_tc_offset_div2 hps_26_6 = 0" "hp_pps_scaling_present hps_26_6 = 0"
  "hp_lists_mod hps_26_6 = 0" "hp_par_merge_m2 hps_26_6 = 0" "hp_sh_ext_present hps_26_6 = 0"
  "hp_pps_ext hps_26_6 = 0" "hp_pps_fw_creates_header hps_26_6 = 0"
  "hp_pps_header_len hps_26_6 = 0" "hp_rps_num_st hps_26_6 = 0" "hp_rps_entry0 hps_26_6 = 0"
  "hp_rps_entry_stride hps_26_6 = 0" "hp_rps_inter_pred hps_26_6 = 0"
  "hp_rps_num_neg hps_26_6 = 0" "hp_rps_num_pos hps_26_6 = 0" "hp_rps_dpoc_s0_m1 hps_26_6 = 0"
  "hp_rps_used_s0 hps_26_6 = 0" "hp_rps_dpoc_s1_m1 hps_26_6 = 0" "hp_rps_used_s1 hps_26_6 = 0"
  "hp_rps_num_delta_pocs hps_26_6 = 0" "hp_rps_d_num_neg hps_26_6 = 0"
  "hp_rps_d_num_pos hps_26_6 = 0" "hp_rps_d_used_s0 hps_26_6 = 0"
  "hp_rps_d_used_s1 hps_26_6 = 0" "hp_rps_d_delta_poc_s0 hps_26_6 = 0"
  "hp_rps_d_delta_poc_s1 hps_26_6 = 0" "hp_rps_lt_present hps_26_6 = 0"
  by (simp_all add: hps_26_6_def layout_consts abi_consts)

definition process_hevc_26_6 :: ave_process_hevc_layout where
  "process_hevc_26_6 =
     \<lparr>ph_slice = 0, ph_slice_size = 0, ph_slice_fw_copy = 0, ph_picmgmt = 0, ph_pic_extra = 0,
      ph_st_rps = 0, ph_lt_rps = 0, ph_st_rps_sps_flag = 0, ph_st_rps_idx = 0,
      ph_sh_size_word = 0, ph_sh_first_slice = 0, ph_sh_pps_id = 0, ph_sh_poc_lsb = 0,
      ph_sh_tmvp = 0, ph_sh_sao_luma = 0, ph_sh_sao_chroma = 0, ph_sh_col_from_l0 = 0,
      ph_sh_five_minus_merge = 0, ph_sh_lf_across = 0, ph_sh_map = 0, ph_sh_seg_limit = 0,
      ph_sh_hdr_slots = 0, ph_hdr_slots = 0, ph_hdr_slot_bytes = 0, ph_pic_single_xc = 0\<rparr>"

lemma process_hevc_26_6_fields:
  "ph_slice process_hevc_26_6 = 0" "ph_slice_size process_hevc_26_6 = 0"
  "ph_slice_fw_copy process_hevc_26_6 = 0" "ph_picmgmt process_hevc_26_6 = 0"
  "ph_pic_extra process_hevc_26_6 = 0" "ph_st_rps process_hevc_26_6 = 0"
  "ph_lt_rps process_hevc_26_6 = 0" "ph_st_rps_sps_flag process_hevc_26_6 = 0"
  "ph_st_rps_idx process_hevc_26_6 = 0" "ph_sh_size_word process_hevc_26_6 = 0"
  "ph_sh_first_slice process_hevc_26_6 = 0" "ph_sh_pps_id process_hevc_26_6 = 0"
  "ph_sh_poc_lsb process_hevc_26_6 = 0" "ph_sh_tmvp process_hevc_26_6 = 0"
  "ph_sh_sao_luma process_hevc_26_6 = 0" "ph_sh_sao_chroma process_hevc_26_6 = 0"
  "ph_sh_col_from_l0 process_hevc_26_6 = 0" "ph_sh_five_minus_merge process_hevc_26_6 = 0"
  "ph_sh_lf_across process_hevc_26_6 = 0" "ph_sh_map process_hevc_26_6 = 0"
  "ph_sh_seg_limit process_hevc_26_6 = 0" "ph_sh_hdr_slots process_hevc_26_6 = 0"
  "ph_hdr_slots process_hevc_26_6 = 0" "ph_hdr_slot_bytes process_hevc_26_6 = 0"
  "ph_pic_single_xc process_hevc_26_6 = 0"
  by (simp_all add: process_hevc_26_6_def layout_consts abi_consts)

definition ave_cmd_abi_26_6 :: ave_cmd_abi where
  "ave_cmd_abi_26_6 =
     \<lparr>ab_abi = AVE_ABI_MACOS_26_6, ab_name = ''macOS 26.6.2'', ab_cmd = cmd_26_6, ab_hdr = hdr_26_6,
      ab_reply = reply_26_6, ab_config = config_26_6, ab_start_avc = start_avc_26_6, ab_sps = sps_26_6,
      ab_pps = pps_26_6, ab_process_avc = process_avc_26_6, ab_coded_hdr = coded_hdr_26_6,
      ab_start_hevc = start_hevc_26_6, ab_hps = hps_26_6, ab_process_hevc = process_hevc_26_6,
      ab_macos_start_avc = [],
      ab_macos_process_avc = []\<rparr>"

lemma ave_cmd_abi_26_6_fields [simp]:
  "ab_abi ave_cmd_abi_26_6 = AVE_ABI_MACOS_26_6" "ab_cmd ave_cmd_abi_26_6 = cmd_26_6"
  "ab_hdr ave_cmd_abi_26_6 = hdr_26_6" "ab_reply ave_cmd_abi_26_6 = reply_26_6"
  "ab_config ave_cmd_abi_26_6 = config_26_6" "ab_start_avc ave_cmd_abi_26_6 = start_avc_26_6"
  "ab_sps ave_cmd_abi_26_6 = sps_26_6" "ab_pps ave_cmd_abi_26_6 = pps_26_6"
  "ab_process_avc ave_cmd_abi_26_6 = process_avc_26_6"
  "ab_coded_hdr ave_cmd_abi_26_6 = coded_hdr_26_6"
  "ab_start_hevc ave_cmd_abi_26_6 = start_hevc_26_6" "ab_hps ave_cmd_abi_26_6 = hps_26_6"
  "ab_process_hevc ave_cmd_abi_26_6 = process_hevc_26_6"
  "ab_macos_start_avc ave_cmd_abi_26_6 = []" "ab_macos_process_avc ave_cmd_abi_26_6 = []"
  by (simp_all add: ave_cmd_abi_26_6_def)

end
