(* ===== verification/Ave_Wr.thy ===== *)
theory Ave_Wr
  imports Ave_Abi_Tables
begin

text \<open>
  The bounds-checked field writer of \<^verbatim>\<open>src/driver/ave_cmd.c\<close> (\<open>struct ave_wr\<close>, \<open>wr8\<close> to
  \<open>wr64\<close>). The builders are straight-line sequences of its calls, so a builder's writes are the
  list of those calls (\<open>ave_wr_op\<close>), in the order of the code, and \<open>wr_run\<close> performs them.

  \<^item> \<open>wr_fits\<close> says that no call leaves the command: then the writer reports no error.
  \<^item> \<open>wr_apart\<close> says that no call touches a range: then the range keeps its bytes, which is how
    the proofs read a field back behind everything written later.
\<close>

section \<open>The writer\<close>

record ave_wr =
  wr_buf :: "u8 list"
  wr_size :: nat
  wr_err :: "errno option"

text \<open>\<open>ave_wr_ok\<close>: whether the range may be written; if not, the writer is poisoned.\<close>

definition ave_wr_ok :: "u32 \<Rightarrow> nat \<Rightarrow> ave_wr \<Rightarrow> bool \<times> ave_wr" where
  "ave_wr_ok off width w =
     (if wr_err w \<noteq> None \<or> unat off > wr_size w \<or> width > wr_size w - unat off
      then (False, w\<lparr>wr_err := Some EINVAL\<rparr>) else (True, w))"

datatype ave_wr_op =
    WrBytes u32 "u8 list"   \<comment> \<open>write these bytes\<close>
  | WrCheck u32 u32         \<comment> \<open>\<open>ave_wr_ok\<close> alone, of an offset and a width\<close>
  | WrBad                   \<comment> \<open>\<open>w->err = -EINVAL\<close>\<close>

fun wr_step :: "ave_wr_op \<Rightarrow> ave_wr \<Rightarrow> ave_wr" where
  "wr_step (WrBytes off bs) w =
     (case ave_wr_ok off (length bs) w of
        (True, w') \<Rightarrow> w'\<lparr>wr_buf := poke (wr_buf w') (unat off) bs\<rparr>
      | (False, w') \<Rightarrow> w')"
| "wr_step (WrCheck off width) w = snd (ave_wr_ok off (unat width) w)"
| "wr_step WrBad w = w\<lparr>wr_err := Some EINVAL\<rparr>"

definition wr_run :: "ave_wr_op list \<Rightarrow> ave_wr \<Rightarrow> ave_wr" where
  "wr_run ops w = fold wr_step ops w"

definition wr8 :: "u32 \<Rightarrow> u8 \<Rightarrow> ave_wr_op list" where "wr8 off v = [WrBytes off [v]]"
definition wr16 :: "u32 \<Rightarrow> u16 \<Rightarrow> ave_wr_op list" where "wr16 off v = [WrBytes off (put_le16 v)]"
definition wr32 :: "u32 \<Rightarrow> u32 \<Rightarrow> ave_wr_op list" where "wr32 off v = [WrBytes off (put_le32 v)]"
definition wr64 :: "u32 \<Rightarrow> u64 \<Rightarrow> ave_wr_op list" where "wr64 off v = [WrBytes off (put_le64 v)]"

text \<open>Write only if the field exists in this ABI.\<close>

definition wr32_opt :: "u32 \<Rightarrow> u32 \<Rightarrow> ave_wr_op list" where
  "wr32_opt off v = (if off \<noteq> AVE_OFF_NONE then wr32 off v else [])"

text \<open>\<open>if (c) ..\<close> and \<open>for (i = 0; i < n; i++) ..\<close> of writes; a C \<open>bool\<close> as a number.\<close>

definition wr_if :: "bool \<Rightarrow> ave_wr_op list \<Rightarrow> ave_wr_op list" where
  "wr_if c ops = (if c then ops else [])"

definition wr_for :: "u32 \<Rightarrow> (u32 \<Rightarrow> ave_wr_op list) \<Rightarrow> ave_wr_op list" where
  "wr_for n f = concat (map (\<lambda>i. f (of_nat i)) [0..<unat n])"

definition bool8 :: "bool \<Rightarrow> u8" where "bool8 c = (if c then 1 else 0)"
definition bool32 :: "bool \<Rightarrow> u32" where "bool32 c = (if c then 1 else 0)"

lemmas wr_defs = wr8_def wr16_def wr32_def wr64_def

section \<open>Running a list of writes\<close>

lemma wr_run_Nil [simp]: "wr_run [] w = w"
  by (simp add: wr_run_def)

lemma wr_run_Cons [simp]: "wr_run (x # xs) w = wr_run xs (wr_step x w)"
  by (simp add: wr_run_def)

lemma wr_run_append: "wr_run (xs @ ys) w = wr_run ys (wr_run xs w)"
  by (simp add: wr_run_def)

text \<open>The writer's buffer holds the command: what every builder sets up and every write keeps.\<close>

definition wr_wf :: "ave_wr \<Rightarrow> bool" where
  "wr_wf w \<longleftrightarrow> wr_size w \<le> length (wr_buf w)"

text \<open>\<open>w'\<close> came from \<open>w\<close> by writes: the same command in the same buffer, nothing behind the
  command touched, and an error never forgotten.\<close>

definition wr_follows :: "ave_wr \<Rightarrow> ave_wr \<Rightarrow> bool" where
  "wr_follows w w' \<longleftrightarrow> wr_size w' = wr_size w \<and> length (wr_buf w') = length (wr_buf w)
     \<and> drop (wr_size w) (wr_buf w') = drop (wr_size w) (wr_buf w)
     \<and> (wr_err w \<noteq> None \<longrightarrow> wr_err w' \<noteq> None \<and> wr_buf w' = wr_buf w)"

lemma wr_follows_refl: "wr_follows w w"
  by (simp add: wr_follows_def)

lemma wr_follows_trans: "wr_follows a b \<Longrightarrow> wr_follows b c \<Longrightarrow> wr_follows a c"
  by (simp add: wr_follows_def)

lemma drop_poke: "off + length bs \<le> n \<Longrightarrow> n \<le> length m \<Longrightarrow> drop n (poke m off bs) = drop n m"
  by (rule nth_equalityI) (auto simp: poke_nth)

lemma wr_step_follows: "wr_wf w \<Longrightarrow> wr_follows w (wr_step x w)"
  by (cases x) (auto simp: wr_wf_def wr_follows_def ave_wr_ok_def drop_poke)

lemma wr_step_wf: "wr_wf w \<Longrightarrow> wr_wf (wr_step x w)"
  and wr_step_size: "wr_wf w \<Longrightarrow> wr_size (wr_step x w) = wr_size w"
  using wr_step_follows [of w x] by (simp_all add: wr_follows_def wr_wf_def)

lemma wr_run_follows: "wr_wf w \<Longrightarrow> wr_follows w (wr_run ops w)"
proof (induction ops arbitrary: w)
  case Nil
  then show ?case by (simp add: wr_follows_refl)
next
  case (Cons x xs)
  show ?case
    using Cons.IH [OF wr_step_wf [OF Cons.prems]] wr_step_follows [OF Cons.prems]
    by (auto intro: wr_follows_trans)
qed

lemma wr_run_wf: "wr_wf w \<Longrightarrow> wr_wf (wr_run ops w)"
  using wr_run_follows [of w ops] by (simp add: wr_follows_def wr_wf_def)

lemma wr_run_size: "wr_wf w \<Longrightarrow> wr_size (wr_run ops w) = wr_size w"
  using wr_run_follows [of w ops] by (simp add: wr_follows_def)

lemma wr_run_length: "wr_wf w \<Longrightarrow> length (wr_buf (wr_run ops w)) = length (wr_buf w)"
  using wr_run_follows [of w ops] by (simp add: wr_follows_def)

section \<open>Writes that fit\<close>

fun wr_op_fits :: "nat \<Rightarrow> ave_wr_op \<Rightarrow> bool" where
  "wr_op_fits n (WrBytes off bs) \<longleftrightarrow> unat off + length bs \<le> n"
| "wr_op_fits n (WrCheck off width) \<longleftrightarrow> unat off + unat width \<le> n"
| "wr_op_fits n WrBad \<longleftrightarrow> False"

definition wr_fits :: "nat \<Rightarrow> ave_wr_op list \<Rightarrow> bool" where
  "wr_fits n ops \<longleftrightarrow> list_all (wr_op_fits n) ops"

lemma wr_step_fits: "wr_op_fits (wr_size w) x \<Longrightarrow> wr_err w = None \<Longrightarrow> wr_err (wr_step x w) = None"
  by (cases x) (auto simp: ave_wr_ok_def)

lemma wr_run_fits: "wr_wf w \<Longrightarrow> wr_fits (wr_size w) ops \<Longrightarrow> wr_err w = None \<Longrightarrow> wr_err (wr_run ops w) = None"
proof (induction ops arbitrary: w)
  case (Cons x xs)
  show ?case
    using Cons wr_step_wf [of w x] wr_step_size [of w x] by (simp add: wr_fits_def wr_step_fits)
qed simp

text \<open>A writer that reports no error performed every write.\<close>

lemma wr_step_ok: "wr_err (wr_step x w) = None \<Longrightarrow> wr_err w = None \<and> wr_op_fits (wr_size w) x"
  by (cases x) (auto simp: ave_wr_ok_def split: if_splits)

lemma wr_run_ok: "wr_wf w \<Longrightarrow> wr_err (wr_run ops w) = None \<Longrightarrow> wr_err w = None \<and> wr_fits (wr_size w) ops"
proof (induction ops arbitrary: w)
  case (Cons x xs)
  have "wr_err (wr_step x w) = None \<and> wr_fits (wr_size (wr_step x w)) xs"
    using Cons.IH [OF wr_step_wf [OF Cons.prems(1)]] Cons.prems(2) by simp
  then have "wr_err (wr_step x w) = None \<and> wr_fits (wr_size w) xs"
    by (simp add: wr_step_size [OF Cons.prems(1)])
  then show ?case using wr_step_ok by (auto simp: wr_fits_def)
qed (simp add: wr_fits_def)

section \<open>Writes that keep a range\<close>

fun wr_op_apart :: "nat \<Rightarrow> nat \<Rightarrow> ave_wr_op \<Rightarrow> bool" where
  "wr_op_apart a k (WrBytes off bs) \<longleftrightarrow> unat off + length bs \<le> a \<or> a + k \<le> unat off"
| "wr_op_apart a k _ \<longleftrightarrow> True"

definition wr_apart :: "nat \<Rightarrow> nat \<Rightarrow> ave_wr_op list \<Rightarrow> bool" where
  "wr_apart a k ops \<longleftrightarrow> list_all (wr_op_apart a k) ops"

lemma wr_step_apart:
  assumes "wr_wf w" "wr_op_apart a (length bs) x" "at (wr_buf w) a bs"
  shows "at (wr_buf (wr_step x w)) a bs"
proof (cases x)
  case (WrBytes off cs)
  have "peek (poke m i cs) a (length bs) = peek m a (length bs)"
    if "i + length cs \<le> length m" "i + length cs \<le> a \<or> a + length bs \<le> i" "a + length bs \<le> length m"
    for m :: "u8 list" and i
    by (rule nth_equalityI) (use that in \<open>auto simp: peek_nth poke_nth\<close>)
  then show ?thesis
    using assms WrBytes by (auto simp: at_def ave_wr_ok_def wr_wf_def)
qed (use assms in \<open>auto simp: ave_wr_ok_def\<close>)

lemma wr_run_apart:
  "wr_wf w \<Longrightarrow> wr_apart a (length bs) ops \<Longrightarrow> at (wr_buf w) a bs \<Longrightarrow> at (wr_buf (wr_run ops w)) a bs"
proof (induction ops arbitrary: w)
  case (Cons x xs)
  show ?case
    using Cons wr_step_wf [of w x] wr_step_apart [of w a bs x] by (simp add: wr_apart_def)
qed simp

text \<open>What a write leaves behind, after writes elsewhere.\<close>

lemma at_poke: "off + length bs \<le> length m \<Longrightarrow> at (poke m off bs) off bs"
  by (auto simp: at_def intro!: nth_equalityI simp: peek_nth poke_nth)

lemma wr_written:
  assumes "wr_wf w" "wr_err (wr_run (xs @ WrBytes off bs # ys) w) = None"
    and "wr_apart (unat off) (length bs) ys"
  shows "at (wr_buf (wr_run (xs @ WrBytes off bs # ys) w)) (unat off) bs"
proof -
  let ?w = "wr_run xs w" and ?x = "WrBytes off bs"
  have wf: "wr_wf ?w" using assms(1) by (rule wr_run_wf)
  have wf': "wr_wf (wr_step ?x ?w)" using wf by (rule wr_step_wf)
  have "wr_err (wr_step ?x ?w) = None"
    using wr_run_ok [OF wf', of ys] assms(2) by (simp add: wr_run_append)
  then have "wr_err ?w = None \<and> unat off + length bs \<le> wr_size ?w"
    using wr_step_ok [of ?x ?w] by (simp del: wr_step.simps)
  then have "at (wr_buf (wr_step ?x ?w)) (unat off) bs"
    using wf by (auto simp: ave_wr_ok_def wr_wf_def intro!: at_poke)
  then show ?thesis using wr_run_apart [OF wf' assms(3)] by (simp add: wr_run_append)
qed

section \<open>Deciding both on a builder's text\<close>

lemma wr_fits_simps [simp]:
  "wr_fits n []" "wr_fits n (x # xs) \<longleftrightarrow> wr_op_fits n x \<and> wr_fits n xs"
  "wr_fits n (xs @ ys) \<longleftrightarrow> wr_fits n xs \<and> wr_fits n ys"
  "wr_fits n (wr_if c xs) \<longleftrightarrow> (c \<longrightarrow> wr_fits n xs)"
  "wr_fits n (wr8 off v8) \<longleftrightarrow> unat off + 1 \<le> n" "wr_fits n (wr16 off v16) \<longleftrightarrow> unat off + 2 \<le> n"
  "wr_fits n (wr32 off v32) \<longleftrightarrow> unat off + 4 \<le> n" "wr_fits n (wr64 off v64) \<longleftrightarrow> unat off + 8 \<le> n"
  "wr_fits n (wr32_opt off v32) \<longleftrightarrow> (off \<noteq> 0 \<longrightarrow> unat off + 4 \<le> n)"
  by (auto simp: wr_fits_def wr_if_def wr_defs wr32_opt_def AVE_OFF_NONE_def)

lemma wr_apart_simps [simp]:
  "wr_apart a k []" "wr_apart a k (x # xs) \<longleftrightarrow> wr_op_apart a k x \<and> wr_apart a k xs"
  "wr_apart a k (xs @ ys) \<longleftrightarrow> wr_apart a k xs \<and> wr_apart a k ys"
  "wr_apart a k (wr_if c xs) \<longleftrightarrow> (c \<longrightarrow> wr_apart a k xs)"
  "wr_apart a k (wr8 off v8) \<longleftrightarrow> unat off + 1 \<le> a \<or> a + k \<le> unat off"
  "wr_apart a k (wr16 off v16) \<longleftrightarrow> unat off + 2 \<le> a \<or> a + k \<le> unat off"
  "wr_apart a k (wr32 off v32) \<longleftrightarrow> unat off + 4 \<le> a \<or> a + k \<le> unat off"
  "wr_apart a k (wr64 off v64) \<longleftrightarrow> unat off + 8 \<le> a \<or> a + k \<le> unat off"
  "wr_apart a k (wr32_opt off v32) \<longleftrightarrow> (off \<noteq> 0 \<longrightarrow> unat off + 4 \<le> a \<or> a + k \<le> unat off)"
  by (auto simp: wr_apart_def wr_if_def wr_defs wr32_opt_def AVE_OFF_NONE_def)

lemma wr_fits_for: "wr_fits n (wr_for k f) \<longleftrightarrow> (\<forall>i < unat k. wr_fits n (f (of_nat i)))"
  by (auto simp: wr_for_def wr_fits_def list_all_iff)

lemma wr_apart_for: "wr_apart a n (wr_for k f) \<longleftrightarrow> (\<forall>i < unat k. wr_apart a n (f (of_nat i)))"
  by (auto simp: wr_for_def wr_apart_def list_all_iff)

lemma wr_fits_concat: "wr_fits n (concat xss) \<longleftrightarrow> (\<forall>xs\<in>set xss. wr_fits n xs)"
  by (auto simp: wr_fits_def list_all_iff)

lemma wr_apart_concat: "wr_apart a n (concat xss) \<longleftrightarrow> (\<forall>xs\<in>set xss. wr_apart a n xs)"
  by (auto simp: wr_apart_def list_all_iff)

text \<open>The offset of entry \<open>i\<close> of a table: it does not wrap when the table lies in the command.\<close>

lemma unat_entry:
  "unat a + i * unat b < 2 ^ 32 \<Longrightarrow> i < 2 ^ 32 \<Longrightarrow> unat (a + of_nat i * b :: u32) = unat a + i * unat b"
  by (simp add: unat_add_nowrap unat_mult_nowrap unat_of_nat_small)

lemma unat_add_small: "unat a + unat b < 2 ^ 32 \<Longrightarrow> unat (a + b :: u32) = unat a + unat b"
  by (simp add: unat_add_nowrap)

end
