(* ===== verification/Ave_Cmd.thy ===== *)
theory Ave_Cmd
  imports Ave_Wr
begin

text \<open>
  The command builders of \<^verbatim>\<open>src/driver/ave_cmd.c\<close>, first part: the header, the header-only
  commands and \<open>CONFIG\<close>. \<open>AVC_INIT\<close> with the half it shares with \<open>HEVC_INIT\<close> is in \<open>Ave_Cmd_Avc\<close>,
  \<open>HEVC_INIT\<close> in \<open>Ave_Cmd_Hevc\<close>, and the per-frame commands are in \<open>Ave_Cmd_Frame\<close>.

  \<^item> The parameter blocks are records with the C field names under a prefix. A C array is a
    function of its index, a pointer to one an option of it, with its count beside it as in C.
    The four multi-pass tunables, \<open>s32\<close> in C and only ever written as \<open>u32\<close>, are \<open>u32\<close>.
  \<^item> Each builder is: checks that refuse, the header, its list of writes, the verdict. The
    buffer is the caller's whole buffer, and comes back with the result. The tests of the
    block pointers for \<open>NULL\<close> have no counterpart; the pointers inside the blocks have.
  \<^item> The long functions are cut where their section comments are.
\<close>

section \<open>Parameter blocks (\<open>ave_cmd.h\<close>)\<close>

record ave_cmd_ctx =
  cx_count :: u64
  cx_client_id :: u64
  cx_timeout :: "nat \<Rightarrow> u8"   \<comment> \<open>16 bytes\<close>
  cx_hevc :: bool


record ave_config_params =
  cp_skip_mcpu :: bool
  cp_create_mcpu :: bool
  cp_reg_dart_addr :: u64
  cp_doorbell_cadence :: "u32 \<Rightarrow> u32"
  cp_dsid :: u32
  cp_shmem_addr :: u64
  cp_shmem_size :: u32

record ave_recon_buf =
  rb_addr :: u64
  rb_luma_size :: u32
  rb_lsb_addr :: u64

record ave_buf =
  bf_addr :: u64
  bf_size :: u32


record ave_avc_session_video =
  s_width :: u32
  s_height :: u32
  s_crop_width :: u32
  s_crop_height :: u32
  s_frame_rate :: u32
  s_bitrate :: u32
  s_qp_i :: u32
  s_qp_p :: u32
  s_qp_b :: u32
  s_qp_min :: u32
  s_qp_max :: u32
  s_rc_enable :: bool
  s_frame_rate_div :: u32
  s_key_interval :: u32
  s_profile_idc :: u8
  s_level_idc :: u8
  s_cabac :: bool
  s_poc_type0 :: bool
  s_max_refs :: u8
  s_ref_spacing_p :: u8
  s_search_range :: u8
  s_max_mvs_per_2mb :: u8
  s_bframes :: u8
  s_macos :: u32
  s_transcoded :: "u32 \<Rightarrow> u64"
  s_n_transcoded :: u32
  s_transcoded_size :: u32

record ave_avc_session_modes = ave_avc_session_video +
  s_fw_client_addr :: u64
  s_fw_client_size :: u32
  s_fw_client_mem_addr :: u64
  s_fw_client_mem_size :: u32
  s_need_lsb_planes :: bool
  s_src_mode :: u16
  s_src_cfg_byte :: u8
  s_src_go_bit3 :: u8
  s_multi_me :: u16
  s_mp_pass :: u32
  s_mp_const_qp :: u32
  s_mp_qpmod :: u32
  s_mp_max_qpmod :: u32
  s_mp_options :: u32
  s_src_go_bits :: u8
  s_dbg_bits :: u32
  s_ipcm_islice :: u8
  s_lambda_block :: bool
  s_scaling_flat :: u16
  s_skip_mode :: u16
  s_param_sets_addr :: u64
  s_param_sets_size :: u32

record ave_avc_session = ave_avc_session_modes +
  s_recon :: "(u32 \<Rightarrow> ave_recon_buf) option"
  s_n_recon :: u32
  s_low_res_ref :: "u32 \<Rightarrow> u64"
  s_n_low_res_ref :: u32
  s_low_res_result :: "u32 \<Rightarrow> u64"
  s_n_low_res_result :: u32
  s_colocated :: "u32 \<Rightarrow> u64"
  s_n_colocated :: u32
  s_entropy :: "u32 \<Rightarrow> u32 \<Rightarrow> u64"
  s_n_entropy :: u32
  s_n_entropy_cols :: u32
  s_entropy_size :: u32
  s_coded :: "(u32 \<Rightarrow> ave_buf) option"
  s_coded_hdr :: "(u32 \<Rightarrow> ave_buf) option"
  s_n_coded :: u32
  s_src_nbr :: "nat \<Rightarrow> u32 \<Rightarrow> u64"
  s_n_src_nbr :: u32

section \<open>ABI selection and command sizes\<close>

definition ave_cmd_abi_get :: "ave_fw_abi \<Rightarrow> ave_cmd_abi option" where
  "ave_cmd_abi_get abi =
     (case abi of AVE_ABI_MACOS_13_5 \<Rightarrow> Some ave_cmd_abi_13_5
      | AVE_ABI_MACOS_26_6 \<Rightarrow> Some ave_cmd_abi_26_6
      | AVE_ABI_UNKNOWN \<Rightarrow> None)"

definition ave_cmd_size :: "ave_cmd_abi \<Rightarrow> ave_op \<Rightarrow> nat" where
  "ave_cmd_size abi op = (if cd_id (ab_cmd abi op) = 0 then 0 else unat (cd_size (ab_cmd abi op)))"

section \<open>The macOS-equivalence patches\<close>

definition ave_macos_check :: "ave_macos_patch list \<Rightarrow> u32 \<Rightarrow> errno option" where
  "ave_macos_check p groups =
     (if groups AND NOT AVE_MACOS_ALL \<noteq> 0 then Some EINVAL
      else if groups \<noteq> 0 \<and> p = [] then Some EINVAL
      else None)"

definition macos_patch :: "u32 \<Rightarrow> ave_macos_patch \<Rightarrow> ave_wr_op list" where
  "macos_patch groups p =
     (if mp_group p \<ge> AVE_MACOS_G_COUNT \<or> groups AND push_bit (unat (mp_group p)) 1 = 0 then []
      else if mp_width p = 1 then wr8 (mp_off p) (ucast (mp_val p))
      else if mp_width p = 2 then wr16 (mp_off p) (ucast (mp_val p))
      else if mp_width p = 4 then wr32 (mp_off p) (mp_val p)
      else [WrBad])"

definition ave_macos_apply :: "ave_macos_patch list \<Rightarrow> u32 \<Rightarrow> ave_wr_op list" where
  "ave_macos_apply p groups = wr_if (groups \<noteq> 0) (concat (map (macos_patch groups) p))"

section \<open>A double without floating point\<close>

text \<open>The highest set bit at or below \<open>e\<close>, as the \<open>while\<close> finds it.\<close>

fun top_bit :: "u32 \<Rightarrow> nat \<Rightarrow> nat" where
  "top_bit v 0 = 0"
| "top_bit v (Suc e) = (if v AND push_bit (Suc e) 1 = 0 then top_bit v e else Suc e)"

definition ave_u32_to_f64_bits :: "u32 \<Rightarrow> u64" where
  "ave_u32_to_f64_bits v =
     (if v = 0 then 0
      else let e = top_bit v 31;
               mant = push_bit (52 - e) (ucast v) AND (push_bit 52 1 - 1)
           in push_bit 52 (of_nat (1023 + e)) OR mant)"

section \<open>Begin and end of a command\<close>

type_synonym cmd_result = "(errno + nat) \<times> u8 list"

text \<open>The header fields every command starts with.\<close>

definition cmd_header :: "ave_cmd_abi \<Rightarrow> ave_op \<Rightarrow> ave_cmd_ctx \<Rightarrow> u32 \<Rightarrow> ave_wr_op list" where
  "cmd_header abi op ctx sn =
     (let d = ab_cmd abi op;
          h = ab_hdr abi;
          global = (cd_slot d = AVE_SLOT_GLOBAL);
          hevc = (op = AVE_OP_START_HEVC \<or> op = AVE_OP_PROCESS_HEVC \<or> cx_hevc ctx)
      in wr16 0 (cd_id d) @
         wr64 (hl_count h) (cx_count ctx) @
         wr_if (\<not> global)
           ((if hl_client_id_bytes h = 8 then wr64 (hl_client_id h) (cx_client_id ctx)
             else wr32 (hl_client_id h) (ucast (cx_client_id ctx))) @
            wr32_opt (hl_work_type h) AVE_WORK_ENC @
            wr32 (hl_codec h) (if hevc then hl_codec_hevc h else hl_codec_avc h)) @
         wr32 (hl_slot h) sn @
         wr32 (hl_priority h) (cd_priority d) @
         [WrBytes (hl_timeout h) (map (cx_timeout ctx) [0..<16])])"

text \<open>The checks of \<open>ave_cmd_begin\<close>.\<close>

definition cmd_refused :: "ave_cmd_abi \<Rightarrow> ave_op \<Rightarrow> nat \<Rightarrow> ave_cmd_ctx \<Rightarrow> u32 \<Rightarrow> bool" where
  "cmd_refused abi op len ctx sn \<longleftrightarrow>
     (let d = ab_cmd abi op; h = ab_hdr abi
      in cd_id d = 0 \<or> unat (cd_size d) < AVE_CMD_HDR_SIZE \<or> len < unat (cd_size d)
       \<or> (cd_slot d = AVE_SLOT_CALLER \<and> sn \<ge> hl_max_slot h)
       \<or> (cx_hevc ctx \<and> (op = AVE_OP_START_AVC \<or> op = AVE_OP_PROCESS_AVC))
       \<or> (cd_slot d \<noteq> AVE_SLOT_GLOBAL \<and> hl_client_id_bytes h = 4 \<and> cx_client_id ctx > 0xffffffff))"

text \<open>The writer behind a written header, or the error and the buffer it leaves.\<close>

definition ave_cmd_begin ::
  "ave_cmd_abi \<Rightarrow> ave_op \<Rightarrow> u8 list \<Rightarrow> ave_cmd_ctx \<Rightarrow> u32 \<Rightarrow> (errno \<times> u8 list) + ave_wr" where
  "ave_cmd_begin abi op buf ctx sn =
     (if cmd_refused abi op (length buf) ctx sn then Inl (EINVAL, buf)
      else
        let d = ab_cmd abi op;
            sn' = (if cd_slot d \<noteq> AVE_SLOT_CALLER then cd_slot d else sn);
            size_d = unat (cd_size d);
            w = wr_run (cmd_header abi op ctx sn')
                  \<lparr>wr_buf = poke buf 0 (replicate size_d 0), wr_size = size_d, wr_err = None\<rparr>
        in case wr_err w of Some e \<Rightarrow> Inl (e, wr_buf w) | None \<Rightarrow> Inr w)"

definition ave_cmd_end :: "ave_wr \<Rightarrow> cmd_result" where
  "ave_cmd_end w =
     (case wr_err w of
        Some e \<Rightarrow> (Inl e, poke (wr_buf w) 0 (replicate (wr_size w) 0))
      | None \<Rightarrow> (Inr (wr_size w), wr_buf w))"

text \<open>Abandon a command half-built.\<close>

definition ave_cmd_end_err :: "ave_wr \<Rightarrow> cmd_result" where
  "ave_cmd_end_err w = ave_cmd_end (w\<lparr>wr_err := Some EINVAL\<rparr>)"

text \<open>A whole command: header, the writes, the verdict.\<close>

definition cmd_with ::
  "ave_cmd_abi \<Rightarrow> ave_op \<Rightarrow> u8 list \<Rightarrow> ave_cmd_ctx \<Rightarrow> u32 \<Rightarrow> ave_wr_op list \<Rightarrow> cmd_result" where
  "cmd_with abi op buf ctx sn ops =
     (case ave_cmd_begin abi op buf ctx sn of
        Inl (e, b) \<Rightarrow> (Inl e, b)
      | Inr w \<Rightarrow> ave_cmd_end (wr_run ops w))"

definition ave_cmd_build_hdr ::
  "ave_cmd_abi \<Rightarrow> ave_op \<Rightarrow> u8 list \<Rightarrow> ave_cmd_ctx \<Rightarrow> u32 \<Rightarrow> cmd_result" where
  "ave_cmd_build_hdr abi op buf ctx sn = cmd_with abi op buf ctx sn []"

definition ave_cmd_build_simple ::
  "ave_cmd_abi \<Rightarrow> ave_op \<Rightarrow> u8 list \<Rightarrow> ave_cmd_ctx \<Rightarrow> cmd_result" where
  "ave_cmd_build_simple abi op buf ctx =
     (if op \<in> {AVE_OP_HALT, AVE_OP_OPEN, AVE_OP_CLOSE, AVE_OP_STOP, AVE_OP_COMPLETE, AVE_OP_FLUSH}
      then ave_cmd_build_hdr abi op buf ctx 0 else (Inl EINVAL, buf))"

definition ave_cmd_build_open :: "ave_cmd_abi \<Rightarrow> u8 list \<Rightarrow> ave_cmd_ctx \<Rightarrow> cmd_result" where
  "ave_cmd_build_open abi buf ctx = ave_cmd_build_simple abi AVE_OP_OPEN buf ctx"

definition ave_cmd_build_close :: "ave_cmd_abi \<Rightarrow> u8 list \<Rightarrow> ave_cmd_ctx \<Rightarrow> cmd_result" where
  "ave_cmd_build_close abi buf ctx = ave_cmd_build_simple abi AVE_OP_CLOSE buf ctx"

definition config_writes :: "ave_config_layout \<Rightarrow> ave_config_params \<Rightarrow> ave_wr_op list" where
  "config_writes c p =
     wr8 (cl_skip_mcpu c) (bool8 (cp_skip_mcpu p)) @
     wr8 (cl_create_mcpu c) (bool8 (cp_create_mcpu p)) @
     wr_if (cl_reg_dart_addr c \<noteq> AVE_OFF_NONE) (wr64 (cl_reg_dart_addr c) (cp_reg_dart_addr p)) @
     wr32 (cl_doorbell_cadence0 c) (cp_doorbell_cadence p 0) @
     wr32 (cl_doorbell_cadence1 c) (cp_doorbell_cadence p 1) @
     (if cl_dsid_bytes c = 1
      then wr8 (cl_dsid c) (ucast (cp_dsid p)) @
           wr_if (cl_dsid2 c \<noteq> AVE_OFF_NONE) (wr8 (cl_dsid2 c) (ucast (cp_dsid p)))
      else wr32 (cl_dsid c) (cp_dsid p)) @
     wr64 (cl_shmem_addr c) (cp_shmem_addr p) @
     wr32 (cl_shmem_size c) (cp_shmem_size p)"

definition ave_cmd_build_config ::
  "ave_cmd_abi \<Rightarrow> u8 list \<Rightarrow> ave_cmd_ctx \<Rightarrow> ave_config_params \<Rightarrow> cmd_result" where
  "ave_cmd_build_config abi buf ctx p =
     (let c = ab_config abi in
      if cp_shmem_addr p = 0 \<or> cp_shmem_size p < cl_shmem_min c
         \<or> cl_dsid_bytes c = 1 \<and> cp_dsid p > 0xff
      then (Inl EINVAL, buf)
      else cmd_with abi AVE_OP_CONFIG buf ctx 0 (config_writes c p))"

section \<open>Levels and profiles\<close>

definition avc_levels :: "u8 list" where
  "avc_levels = [10, 1, 11, 12, 13, 20, 21, 22, 30, 31, 32, 40, 41, 42, 50, 51, 52, 60, 61, 62]"

fun avc_level_find :: "u8 \<Rightarrow> nat \<Rightarrow> u8 list \<Rightarrow> u32 option" where
  "avc_level_find l i [] = None"
| "avc_level_find l i (x # xs) =
     (if i \<noteq> 1 \<and> x = l then Some (of_nat (i + 1)) else avc_level_find l (Suc i) xs)"

definition ave_avc_level_enum :: "u8 \<Rightarrow> u32 option" where
  "ave_avc_level_enum level_idc = avc_level_find level_idc 0 avc_levels"

definition ave_avc_profile_enum :: "u8 \<Rightarrow> u32 option" where
  "ave_avc_profile_enum p =
     (if p = 66 then Some 2 else if p = 77 then Some 4 else if p = 100 then Some 6 else None)"

definition AVE_AVC_MIN_W :: u32 where "AVE_AVC_MIN_W = 192"
definition AVE_AVC_MIN_H :: u32 where "AVE_AVC_MIN_H = 96"
definition AVE_AVC_MAX_WH :: u32 where "AVE_AVC_MAX_WH = 4096"

lemmas avc_limits = AVE_AVC_MIN_W_def AVE_AVC_MIN_H_def AVE_AVC_MAX_WH_def

definition ave_mb_align :: "u32 \<Rightarrow> u32" where
  "ave_mb_align v = (v + AVE_MB_SIZE - 1) AND NOT (AVE_MB_SIZE - 1)"

end
