(* ===== verification/Ave_Cmd_Avc.thy ===== *)
theory Ave_Cmd_Avc
  imports Ave_Cmd
begin

text \<open>
  \<open>AVC_INIT\<close> (\<open>ave_cmd_build_start_avc\<close> of \<^verbatim>\<open>src/driver/ave_cmd.c\<close>) and the half it shares with
  \<open>HEVC_INIT\<close>: the checks of \<open>ave_vp_check\<close> and the writes of \<open>ave_vp_fill\<close>, cut at the comments
  of the code. All the checks answer with the same error, so each group is a predicate
  (\<open>vp_bad_..\<close>: the group refuses).
\<close>

section \<open>Checks of the shared half\<close>

text \<open>\<open>for (i = 0; i < n; i++) if (P(i)) return -EINVAL;\<close>\<close>

definition any_below :: "u32 \<Rightarrow> (u32 \<Rightarrow> bool) \<Rightarrow> bool" where
  "any_below n P \<longleftrightarrow> list_ex (\<lambda>i. P (of_nat i)) [0..<unat n]"

text \<open>An address that is 0 or not a multiple of \<open>align\<close>.\<close>

definition bad_addr :: "u32 \<Rightarrow> u64 \<Rightarrow> bool" where
  "bad_addr align a \<longleftrightarrow> a = 0 \<or> a AND (ucast align - 1) \<noteq> 0"

definition vp_bad_params :: "ave_start_avc_layout \<Rightarrow> ave_avc_session \<Rightarrow> bool" where
  "vp_bad_params l s \<longleftrightarrow>
     s_width s < AVE_AVC_MIN_W \<or> s_width s > AVE_AVC_MAX_WH
   \<or> s_height s < AVE_AVC_MIN_H \<or> s_height s > AVE_AVC_MAX_WH
   \<or> s_width s AND 1 \<noteq> 0 \<or> s_height s AND 1 \<noteq> 0
   \<or> s_frame_rate s = 0 \<or> s_key_interval s = 0
   \<or> s_qp_i s > 51 \<or> s_qp_p s > 51 \<or> s_qp_b s > 51
   \<or> s_qp_min s > 51 \<or> s_qp_max s > 51 \<or> (s_qp_max s \<noteq> 0 \<and> s_qp_min s > s_qp_max s)
   \<or> (s_rc_enable s \<and> (s_bitrate s = 0 \<or> sa_rc_mode_on l = AVE_OFF_NONE))
   \<or> s_fw_client_addr s = 0 \<or> s_fw_client_size s = 0
   \<or> s_fw_client_mem_addr s = 0 \<or> s_fw_client_mem_size s = 0
   \<or> (sa_param_sets_addr l \<noteq> AVE_OFF_NONE \<and> (s_param_sets_addr s = 0 \<or> s_param_sets_size s = 0))"

definition vp_bad_recon :: "ave_start_avc_layout \<Rightarrow> ave_avc_session \<Rightarrow> bool" where
  "vp_bad_recon l s \<longleftrightarrow>
     s_recon s = None \<or> s_n_recon s = 0 \<or> s_n_recon s > sa_recon_max l
   \<or> s_coded s = None \<or> s_coded_hdr s = None \<or> s_n_coded s = 0 \<or> s_n_coded s > sa_coded_max l
   \<or> any_below (s_n_recon s) (\<lambda>i. bad_addr 128 (rb_addr (the (s_recon s) i)))
   \<or> (s_need_lsb_planes s \<and>
        (sa_need_lsb_planes l = AVE_OFF_NONE \<or> sa_recon_lsb_addr l = AVE_OFF_NONE
       \<or> any_below (s_n_recon s) (\<lambda>i. bad_addr 128 (rb_lsb_addr (the (s_recon s) i)))))"

text \<open>\<open>LowResResult\<close>, and the sweep values an ABI may not have.\<close>

definition vp_bad_fields :: "ave_start_avc_layout \<Rightarrow> ave_avc_session \<Rightarrow> bool" where
  "vp_bad_fields l s \<longleftrightarrow>
     (s_n_low_res_result s \<noteq> 0 \<and>
        (sa_low_res_result_set l = AVE_OFF_NONE \<or> sa_low_res_result_max l = 0
       \<or> s_n_low_res_result s > sa_low_res_result_max l
       \<or> s_n_low_res_result s > of_nat AVE_LOW_RES_RESULT_MAX
       \<or> any_below (s_n_low_res_result s) (\<lambda>i. bad_addr AVE_STRIDE_ALIGN (s_low_res_result s i))))
   \<or> (s_src_mode s \<noteq> 0 \<and> sa_src_mode l = AVE_OFF_NONE)
   \<or> (s_src_cfg_byte s \<noteq> 0 \<and> sa_src_cfg_byte l = AVE_OFF_NONE)
   \<or> (s_src_go_bit3 s \<noteq> 0 \<and> sa_src_go_bit3 l = AVE_OFF_NONE)
   \<or> (s_multi_me s \<noteq> 0 \<and> sa_multi_me l = AVE_OFF_NONE)
   \<or> (s_mp_pass s \<noteq> 0 \<and> (sa_mp_enable l = AVE_OFF_NONE \<or> s_mp_pass s > 2))
   \<or> (s_src_go_bits s \<noteq> 0 \<and> sa_src_go_bits l = AVE_OFF_NONE)
   \<or> (s_dbg_bits s \<noteq> 0 \<and> sa_dbg_bits l = AVE_OFF_NONE)
   \<or> (s_ipcm_islice s \<noteq> 0 \<and> sa_ipcm_islice l = AVE_OFF_NONE)
   \<or> (s_lambda_block s \<and> sa_lambda_scales l = AVE_OFF_NONE)
   \<or> (s_skip_mode s \<noteq> 0 \<and> sa_skip_mode l = AVE_OFF_NONE)"

text \<open>An entropy table of \<open>n\<close> rows, shared with the per-frame commands; a column count of 0 is 1.\<close>

definition or1 :: "u32 \<Rightarrow> u32" where "or1 n = (if n = 0 then 1 else n)"

definition bad_entropy ::
  "u32 \<Rightarrow> u32 \<Rightarrow> u32 \<Rightarrow> u32 \<Rightarrow> u32 \<Rightarrow> u32 \<Rightarrow> (u32 \<Rightarrow> u32 \<Rightarrow> u64) \<Rightarrow> bool" where
  "bad_entropy tab maxi cols_max align n cols e \<longleftrightarrow>
     n \<noteq> 0 \<and>
       (tab = AVE_OFF_NONE \<or> maxi = 0 \<or> n > maxi \<or> n > of_nat AVE_ENTROPY_MAX
      \<or> or1 cols > of_nat AVE_ENTROPY_COLS \<or> or1 cols > or1 cols_max
      \<or> any_below n (\<lambda>i. any_below (or1 cols) (\<lambda>j. bad_addr align (e i j))))"

text \<open>The source-neighbour groups, likewise.\<close>

definition bad_src_nbr :: "u32 list \<Rightarrow> u32 \<Rightarrow> u32 \<Rightarrow> u32 \<Rightarrow> (nat \<Rightarrow> u32 \<Rightarrow> u64) \<Rightarrow> bool" where
  "bad_src_nbr sets maxi align n e \<longleftrightarrow>
     n \<noteq> 0 \<and>
       (maxi = 0 \<or> n > maxi
      \<or> list_ex (\<lambda>g. sets ! g \<noteq> AVE_OFF_NONE \<and> any_below n (\<lambda>i. bad_addr align (e g i)))
          [0..<AVE_SRC_NBR_GROUPS])"

text \<open>One surface per DPB slot, or none (\<open>colocated\<close> and \<open>low_res_ref\<close>).\<close>

definition bad_per_slot :: "u32 \<Rightarrow> u32 \<Rightarrow> u32 \<Rightarrow> u32 \<Rightarrow> (u32 \<Rightarrow> u64) \<Rightarrow> bool" where
  "bad_per_slot tab maxi n_recon n e \<longleftrightarrow>
     n \<noteq> 0 \<and>
       (n \<noteq> n_recon \<or> n > of_nat AVE_DPB_MAX \<or> tab = AVE_OFF_NONE \<or> n > maxi
      \<or> any_below n (\<lambda>i. bad_addr AVE_STRIDE_ALIGN (e i)))"

definition vp_bad_buffers :: "ave_start_avc_layout \<Rightarrow> ave_avc_session \<Rightarrow> u32 \<Rightarrow> bool" where
  "vp_bad_buffers l s align \<longleftrightarrow>
     bad_entropy (sa_entropy_set l) (sa_entropy_max l) (sa_entropy_cols_max l) align
       (s_n_entropy s) (s_n_entropy_cols s) (s_entropy s)
   \<or> bad_per_slot (sa_colocated_set l) (sa_colocated_max l) (s_n_recon s) (s_n_colocated s) (s_colocated s)
   \<or> bad_per_slot (sa_low_res_ref_set l) (sa_low_res_ref_max l) (s_n_recon s) (s_n_low_res_ref s)
       (s_low_res_ref s)
   \<or> any_below (s_n_coded s) (\<lambda>i.
       bf_addr (the (s_coded s) i) = 0 \<or> bf_size (the (s_coded s) i) = 0
     \<or> bf_addr (the (s_coded_hdr s) i) = 0 \<or> bf_size (the (s_coded_hdr s) i) < sa_coded_hdr_bytes l)
   \<or> bad_src_nbr (sa_src_nbr_set l) (sa_src_nbr_max l) align (s_n_src_nbr s) (s_src_nbr s)"

definition ave_vp_check :: "ave_start_avc_layout \<Rightarrow> ave_avc_session \<Rightarrow> u32 \<Rightarrow> errno option" where
  "ave_vp_check l s align =
     (if vp_bad_params l s \<or> vp_bad_recon l s \<or> vp_bad_fields l s \<or> vp_bad_buffers l s align
      then Some EINVAL else None)"

section \<open>Writes of the shared half\<close>

text \<open>Per-client buffers, geometry, and rate control.\<close>

definition vp_fill_params ::
  "ave_start_avc_layout \<Rightarrow> ave_avc_session \<Rightarrow> u32 \<Rightarrow> ave_wr_op list" where
  "vp_fill_params l s sve_num =
     wr64 (sa_fw_client_addr l) (s_fw_client_addr s) @
     wr32 (sa_fw_client_size l) (s_fw_client_size s) @
     wr64 (sa_fw_client_mem_addr l) (s_fw_client_mem_addr s) @
     wr32_opt sve_num 1 @
     wr_if (sa_param_sets_addr l \<noteq> AVE_OFF_NONE)
       (wr64 (sa_param_sets_addr l) (s_param_sets_addr s) @
        wr32_opt (sa_param_sets_size l) (s_param_sets_size s)) @
     wr32 (sa_fw_client_mem_size l) (s_fw_client_mem_size s) @
     wr32 (sa_width l) (ave_mb_align (s_width s)) @
     wr32 (sa_height l) (ave_mb_align (s_height s)) @
     wr32 (sa_frame_rate l) (s_frame_rate s) @
     wr32 (sa_bitrate l) (s_bitrate s) @
     (if s_rc_enable s
      then wr32 (sa_rc_mode l) (sa_rc_mode_on l) @
           wr32_opt (sa_bitrate_sel l) 0 @
           wr32_opt (sa_frame_rate_div l) (or1 (s_frame_rate_div s))
      else wr32 (sa_rc_mode l) (sa_rc_mode_fixed_qp l) @
           wr_if (sa_rc_feature l \<noteq> AVE_OFF_NONE)
             (wr64 (sa_rc_feature l) (sa_rc_feature_fixed_qp l))) @
     wr32 (sa_qp_i l) (s_qp_i s) @
     wr32 (sa_qp_p l) (s_qp_p s) @
     wr32 (sa_qp_b l) (s_qp_b s) @
     (if s_rc_enable s
      then wr32 (sa_qp_min l) (s_qp_min s) @
           wr32 (sa_qp_max l) (if s_qp_max s \<noteq> 0 then s_qp_max s else 51)
      else wr32 (sa_qp_min l) 0 @ wr32 (sa_qp_max l) 51) @
     wr32 (sa_key_interval l) (s_key_interval s) @
     wr32_opt (sa_key_interval_strict l) (s_key_interval s) @
     wr32 (sa_slice_num l) 1 @
     concat (map (\<lambda>off. wr32_opt off 1) (sa_num_views l))"

text \<open>The source-read scalars, multi-pass and the debug knobs.\<close>

definition vp_fill_modes :: "ave_start_avc_layout \<Rightarrow> ave_avc_session \<Rightarrow> ave_wr_op list" where
  "vp_fill_modes l s =
     wr_if (s_src_mode s \<noteq> 0) (wr16 (sa_src_mode l) (s_src_mode s)) @
     wr_if (s_src_cfg_byte s \<noteq> 0) (wr8 (sa_src_cfg_byte l) (s_src_cfg_byte s)) @
     wr_if (s_src_go_bit3 s \<noteq> 0) (wr8 (sa_src_go_bit3 l) (s_src_go_bit3 s)) @
     wr_if (s_multi_me s \<noteq> 0) (wr16 (sa_multi_me l) (s_multi_me s)) @
     wr_if (s_mp_pass s \<noteq> 0)
       (wr8 (sa_mp_enable l) 1 @
        wr32 (sa_mp_pass l) (s_mp_pass s) @
        wr32 (sa_mp_const_qp l) (s_mp_const_qp s) @
        wr32 (sa_mp_qpmod l) (s_mp_qpmod s) @
        wr32 (sa_mp_max_qpmod l) (s_mp_max_qpmod s) @
        wr32 (sa_mp_options l) (s_mp_options s) @
        wr_if (s_mp_pass s = 2 \<and> sa_key_interval_dur l \<noteq> AVE_OFF_NONE)
          (wr64 (sa_key_interval_dur l) 0x4130000000000000)) @
     wr_if (s_src_go_bits s \<noteq> 0) (wr8 (sa_src_go_bits l) (s_src_go_bits s)) @
     wr_if (s_dbg_bits s \<noteq> 0) (wr32 (sa_dbg_bits l) (s_dbg_bits s)) @
     wr_if (s_ipcm_islice s \<noteq> 0) (wr8 (sa_ipcm_islice l) (s_ipcm_islice s)) @
     wr_if (s_skip_mode s \<noteq> 0) (wr16 (sa_skip_mode l) (s_skip_mode s))"

text \<open>macOS's lambda block: the table, and the loop over it. \<open>prev\<close> is the value before (\<open>None\<close>
  at the first), \<open>idx\<close> its index among the distinct values.\<close>

definition lambda_table :: "u32 list" where
  "lambda_table =
     [1, 1, 1, 1, 1, 1, 1, 1, 1, 1, 1, 1, 1, 1, 1, 1,
      2, 2, 2, 2, 3, 3, 3, 4, 4, 4, 5, 6, 6, 7, 8, 9,
      10, 11, 13, 14, 16, 18, 20, 23, 25, 29, 32, 36, 40, 45, 51, 57,
      64, 72, 81, 91]"

fun lambda_loop ::
  "ave_start_avc_layout \<Rightarrow> u32 option \<Rightarrow> u32 \<Rightarrow> u32 \<Rightarrow> u32 list \<Rightarrow> ave_wr_op list" where
  "lambda_loop l prev idx q [] = []"
| "lambda_loop l prev idx q (v # vs) =
     (let new = (prev \<noteq> Some v);
          idx' = (if prev \<noteq> None \<and> new then idx + 1 else idx)
      in wr32 (sa_lambda_qp_tab l + 4 * q) v @
         wr32 (sa_lambda_idx_tab l + 4 * q) idx' @
         wr_if new
           (wr32 (sa_lambda_rec_tab l + 36 * idx') v @
            wr_for 8 (\<lambda>j. wr32 (sa_lambda_rec_tab l + 36 * idx' + 4 * (j + 1)) (16 * v))) @
         lambda_loop l (Some v) idx' (q + 1) vs)"

definition vp_fill_lambda :: "ave_start_avc_layout \<Rightarrow> ave_avc_session \<Rightarrow> ave_wr_op list" where
  "vp_fill_lambda l s =
     wr_if (s_lambda_block s)
       (wr_for 5 (\<lambda>k. wr32 (sa_lambda_scales l + 4 * k) 0x400) @
        lambda_loop l None 0 0 lambda_table)"

text \<open>The buffer tables.\<close>

definition recon_entry :: "ave_start_avc_layout \<Rightarrow> ave_avc_session \<Rightarrow> u32 \<Rightarrow> ave_wr_op list" where
  "recon_entry l s i =
     (let e = sa_recon_set l + i * sa_recon_stride l; r = the (s_recon s) i
      in wr64 (e + sa_recon_addr l) (rb_addr r) @
         wr_if (sa_recon_size l \<noteq> AVE_OFF_NONE) (wr32 (e + sa_recon_size l) (rb_luma_size r)) @
         wr_if (sa_recon_meta_addr l \<noteq> AVE_OFF_NONE) (wr64 (e + sa_recon_meta_addr l) (rb_addr r)) @
         wr_if (s_need_lsb_planes s) (wr64 (e + sa_recon_lsb_addr l) (rb_lsb_addr r)))"

definition entropy_entry :: "ave_start_avc_layout \<Rightarrow> ave_avc_session \<Rightarrow> u32 \<Rightarrow> u32 \<Rightarrow> ave_wr_op list" where
  "entropy_entry l s i j =
     wr64 (sa_entropy_set l + i * sa_entropy_stride_i l + j * sa_entropy_stride_j l) (s_entropy s i j) @
     wr_if (s_entropy_size s \<noteq> 0 \<and> sa_entropy_size_set l \<noteq> AVE_OFF_NONE)
       (wr32 (sa_entropy_size_set l + i * sa_entropy_size_stride_i l + j * sa_entropy_size_stride_j l)
          (s_entropy_size s))"

definition coded_entry :: "ave_start_avc_layout \<Rightarrow> ave_avc_session \<Rightarrow> u32 \<Rightarrow> ave_wr_op list" where
  "coded_entry l s i =
     wr64 (sa_coded_addr l + i * sa_coded_addr_stride l) (bf_addr (the (s_coded s) i)) @
     wr32 (sa_coded_size l + i * sa_coded_size_stride l) (bf_size (the (s_coded s) i)) @
     wr64 (sa_coded_hdr_addr l + i * sa_coded_hdr_addr_stride l) (bf_addr (the (s_coded_hdr s) i)) @
     wr32 (sa_coded_hdr_size l + i * sa_coded_hdr_size_stride l) (bf_size (the (s_coded_hdr s) i))"

text \<open>The source-neighbour groups at \<open>base\<close> (0 here, \<open>PICMGMT\<close> in a frame).\<close>

definition src_nbr_writes ::
  "u32 list \<Rightarrow> u32 \<Rightarrow> u32 \<Rightarrow> (nat \<Rightarrow> u32 \<Rightarrow> u64) \<Rightarrow> ave_wr_op list" where
  "src_nbr_writes sets base n e =
     wr_for n (\<lambda>i. concat (map (\<lambda>g.
       wr_if (sets ! g \<noteq> AVE_OFF_NONE) (wr64 (base + sets ! g + i * 8) (e g i)))
       [0..<AVE_SRC_NBR_GROUPS]))"

definition vp_fill_buffers :: "ave_start_avc_layout \<Rightarrow> ave_avc_session \<Rightarrow> ave_wr_op list" where
  "vp_fill_buffers l s =
     wr_for (s_n_recon s) (recon_entry l s) @
     wr_if (s_need_lsb_planes s) (wr8 (sa_need_lsb_planes l) 1) @
     wr_for (s_n_low_res_ref s)
       (\<lambda>i. wr64 (sa_low_res_ref_set l + i * sa_low_res_ref_stride l) (s_low_res_ref s i)) @
     wr_for (s_n_low_res_result s)
       (\<lambda>i. wr64 (sa_low_res_result_set l + i * sa_low_res_result_stride l) (s_low_res_result s i)) @
     wr_for (s_n_colocated s)
       (\<lambda>i. wr64 (sa_colocated_set l + i * sa_colocated_stride l) (s_colocated s i)) @
     wr_for (s_n_entropy s) (\<lambda>i. wr_for (or1 (s_n_entropy_cols s)) (entropy_entry l s i)) @
     wr_for (s_n_coded s) (coded_entry l s) @
     src_nbr_writes (sa_src_nbr_set l) 0 (s_n_src_nbr s) (s_src_nbr s)"

definition ave_vp_fill ::
  "ave_start_avc_layout \<Rightarrow> ave_avc_session \<Rightarrow> u32 \<Rightarrow> ave_wr_op list" where
  "ave_vp_fill l s sve_num =
     vp_fill_params l s sve_num @ vp_fill_modes l s @ vp_fill_lambda l s @ vp_fill_buffers l s"

section \<open>\<open>AVC_INIT\<close>\<close>

definition avc_bad_params :: "ave_cmd_abi \<Rightarrow> ave_avc_session \<Rightarrow> bool" where
  "avc_bad_params abi s \<longleftrightarrow>
     (let l = ab_start_avc abi; sps = ab_sps abi
      in ave_avc_profile_enum (s_profile_idc s) = None \<or> ave_avc_level_enum (s_level_idc s) = None
       \<or> (s_profile_idc s = 66 \<and> s_cabac s)
       \<or> (s_scaling_flat s \<noteq> 0 \<and> sl_scaling_4x4 sps = AVE_OFF_NONE)
       \<or> (s_poc_type0 s \<and> sl_log2_max_poc_lsb_m4 sps = AVE_OFF_NONE)
       \<or> s_max_refs s > 4
       \<or> (s_ref_spacing_p s \<noteq> 0 \<and> sa_ref_spacing l = AVE_OFF_NONE)
       \<or> s_search_range s > 2
       \<or> (s_max_mvs_per_2mb s \<noteq> 0 \<and> sa_max_mvs_per_2mb l = AVE_OFF_NONE)
       \<or> (s_search_range s \<noteq> 0 \<and> sa_search_range l = AVE_OFF_NONE)
       \<or> s_bframes s > 2
       \<or> (s_bframes s \<noteq> 0 \<and> (sa_bframes l = AVE_OFF_NONE \<or> s_profile_idc s = 66)))"

definition avc_bad_macos :: "ave_cmd_abi \<Rightarrow> ave_avc_session \<Rightarrow> bool" where
  "avc_bad_macos abi s \<longleftrightarrow>
     (let l = ab_start_avc abi; sps = ab_sps abi
      in ave_macos_check (ab_macos_start_avc abi) (s_macos s) \<noteq> None
       \<or> (s_n_transcoded s \<noteq> 0 \<and>
            (sa_transcoded_set l = AVE_OFF_NONE \<or> s_n_transcoded s \<noteq> sa_transcoded_max l
           \<or> s_n_transcoded s > 2 \<or> s_transcoded_size s = 0
           \<or> any_below (s_n_transcoded s) (\<lambda>i. bad_addr AVE_STRIDE_ALIGN (s_transcoded s i))))
       \<or> (s_macos s \<noteq> 0 \<and>
            (sa_bframes l = AVE_OFF_NONE \<or> sa_adapt_b l = AVE_OFF_NONE
           \<or> sa_max_sub_mb_rect l = AVE_OFF_NONE \<or> sa_slice_map_end l = AVE_OFF_NONE
           \<or> sa_ref_spacing l = AVE_OFF_NONE \<or> sa_max_mvs_per_2mb l = AVE_OFF_NONE
           \<or> sl_log2_max_poc_lsb_m4 sps = AVE_OFF_NONE)))"

definition avc_refused :: "ave_cmd_abi \<Rightarrow> ave_avc_session \<Rightarrow> bool" where
  "avc_refused abi s \<longleftrightarrow>
     ave_vp_check (ab_start_avc abi) s AVE_STRIDE_ALIGN \<noteq> None
   \<or> avc_bad_params abi s \<or> avc_bad_macos abi s"

definition avc_modes :: "ave_start_avc_layout \<Rightarrow> ave_avc_session \<Rightarrow> ave_wr_op list" where
  "avc_modes l s =
     wr_if (s_profile_idc s \<ge> 100) (wr32_opt (sa_mode_8x8 l) 2) @
     wr_if (s_ref_spacing_p s \<noteq> 0) (wr32 (sa_ref_spacing l) (ucast (s_ref_spacing_p s))) @
     wr_if (s_search_range s \<noteq> 0) (wr16 (sa_search_range l) (ucast (s_search_range s))) @
     wr_if (s_max_mvs_per_2mb s \<noteq> 0) (wr32 (sa_max_mvs_per_2mb l) (ucast (s_max_mvs_per_2mb s))) @
     wr_if (s_bframes s \<noteq> 0) (wr32 (sa_bframes l) (ucast (s_bframes s)))"

text \<open>The display size, which only the SPS says.\<close>

definition crop_w :: "ave_avc_session \<Rightarrow> u32" where
  "crop_w s = (if s_crop_width s \<noteq> 0 then s_crop_width s else s_width s)"

definition crop_h :: "ave_avc_session \<Rightarrow> u32" where
  "crop_h s = (if s_crop_height s \<noteq> 0 then s_crop_height s else s_height s)"

definition avc_sps :: "ave_sps_layout \<Rightarrow> ave_avc_session \<Rightarrow> u32 \<Rightarrow> u32 \<Rightarrow> ave_wr_op list" where
  "avc_sps sps s prof lvl =
     (let cw = ave_mb_align (s_width s); ch = ave_mb_align (s_height s); dw = crop_w s; dh = crop_h s
      in wr32 (sl_profile sps) (if sl_enum_profile_level sps then prof else ucast (s_profile_idc s)) @
         wr32 (sl_level sps) (if sl_enum_profile_level sps then lvl else ucast (s_level_idc s)) @
         wr32 (sl_seq_parameter_set_id sps) 0 @
         wr32 (sl_chroma_format_idc sps) 1 @
         wr32 (sl_bit_depth_luma_minus8 sps) 0 @
         wr32 (sl_bit_depth_chroma_minus8 sps) 0 @
         wr32 (sl_log2_max_frame_num_minus4 sps) 0 @
         wr32 (sl_pic_order_cnt_type sps) (if s_poc_type0 s then 0 else 2) @
         wr_if (s_poc_type0 s) (wr32 (sl_log2_max_poc_lsb_m4 sps) 4) @
         wr32 (sl_max_num_ref_frames sps) (or1 (ucast (s_max_refs s))) @
         wr8 (sl_gaps_in_frame_num_allowed sps) 0 @
         wr32 (sl_pic_width_in_mbs_minus1 sps) (cw div AVE_MB_SIZE - 1) @
         wr32 (sl_pic_height_in_map_units_minus1 sps) (ch div AVE_MB_SIZE - 1) @
         wr32 (sl_frame_mbs_only_flag sps) 1 @
         wr32 (sl_direct_8x8_inference_flag sps) 1 @
         wr8 (sl_vui_parameters_present_flag sps) 0 @
         wr8 (sl_frame_cropping_flag sps) (bool8 (cw \<noteq> dw \<or> ch \<noteq> dh)) @
         wr32 (sl_crop_left sps) 0 @
         wr_if (s_scaling_flat s \<noteq> 0)
           (wr_for (6 * 16) (\<lambda>k. wr16 (sl_scaling_4x4 sps + 2 * k) (s_scaling_flat s)) @
            wr_for (6 * 64) (\<lambda>k. wr16 (sl_scaling_8x8 sps + 2 * k) (s_scaling_flat s))) @
         wr32 (sl_crop_right sps) ((cw - dw) div 2) @
         wr32 (sl_crop_top sps) 0 @
         wr32 (sl_crop_bottom sps) ((ch - dh) div 2) @
         wr8 (sl_fw_creates_header sps) 1 @
         wr32 (sl_header_len sps) 0)"

definition avc_pps :: "ave_pps_layout \<Rightarrow> ave_avc_session \<Rightarrow> ave_wr_op list" where
  "avc_pps pps s =
     wr32 (pl_pic_parameter_set_id pps) 0 @
     wr32 (pl_seq_parameter_set_id pps) 0 @
     wr32 (pl_entropy_coding_mode_flag pps) (bool32 (s_cabac s)) @
     wr32 (pl_num_slice_groups_minus1 pps) 0 @
     wr32 (pl_pic_init_qp_minus26 pps) 0 @
     wr8 (pl_deblocking_filter_control pps) 1 @
     wr8 (pl_constrained_intra_pred pps) 0 @
     wr8 (pl_transform_8x8_mode pps) (bool8 (s_profile_idc s \<ge> 100)) @
     wr8 (pl_fw_creates_header pps) 1"

definition in_group :: "u32 \<Rightarrow> u32 \<Rightarrow> bool" where
  "in_group groups g \<longleftrightarrow> groups AND push_bit (unat g) 1 \<noteq> 0"

definition avc_macos :: "ave_cmd_abi \<Rightarrow> ave_avc_session \<Rightarrow> ave_wr_op list" where
  "avc_macos abi s =
     (let l = ab_start_avc abi; sps = ab_sps abi; lvl = s_level_idc s; m = s_macos s
      in wr_if (in_group m AVE_MACOS_G_GOP)
           (wr_if (s_key_interval s \<le> 1) (wr32 (sa_key_interval l) 30) @
            wr32 (sa_bframes l) (if s_profile_idc s = 66 then 0 else 1) @
            wr_if (s_ref_spacing_p s = 0) (wr32 (sa_ref_spacing l) 1)) @
         wr_if (in_group m AVE_MACOS_G_ADAPTB)
           (wr8 (sa_adapt_b l) (if s_profile_idc s = 66 then 0 else 1)) @
         wr_if (in_group m AVE_MACOS_G_ME)
           (wr_if (s_max_mvs_per_2mb s = 0)
              (wr32 (sa_max_mvs_per_2mb l) (if lvl \<ge> 31 then 16 else if lvl = 30 then 32 else 64)) @
            wr32 (sa_max_sub_mb_rect l) (if s_profile_idc s = 66 \<and> lvl < 31 then 576 else 0)) @
         wr_if (in_group m AVE_MACOS_G_PARAMS) (wr32 (sa_slice_map_end l) (crop_h s)) @
         wr_if (s_n_transcoded s \<noteq> 0)
           (wr_for (s_n_transcoded s)
              (\<lambda>i. wr64 (sa_transcoded_set l + i * sa_transcoded_stride l) (s_transcoded s i)) @
            wr32 (sa_transcoded_size l) (s_transcoded_size s)) @
         wr_if (in_group m AVE_MACOS_G_SPS \<and> s_poc_type0 s) (wr32 (sl_log2_max_poc_lsb_m4 sps) 2) @
         ave_macos_apply (ab_macos_start_avc abi) m)"

definition avc_writes :: "ave_cmd_abi \<Rightarrow> ave_avc_session \<Rightarrow> ave_wr_op list" where
  "avc_writes abi s =
     ave_vp_fill (ab_start_avc abi) s (sa_sve_num (ab_start_avc abi)) @
     avc_modes (ab_start_avc abi) s @
     avc_sps (ab_sps abi) s (the (ave_avc_profile_enum (s_profile_idc s)))
       (the (ave_avc_level_enum (s_level_idc s))) @
     avc_pps (ab_pps abi) s @
     avc_macos abi s"

definition ave_cmd_build_start_avc ::
  "ave_cmd_abi \<Rightarrow> u8 list \<Rightarrow> ave_cmd_ctx \<Rightarrow> ave_avc_session \<Rightarrow> cmd_result" where
  "ave_cmd_build_start_avc abi buf ctx s =
     (if avc_refused abi s then (Inl EINVAL, buf)
      else cmd_with abi AVE_OP_START_AVC buf ctx 0 (avc_writes abi s))"

end
