(* ===== verification/Ave_Cmd_Hevc.thy ===== *)
theory Ave_Cmd_Hevc
  imports Ave_Cmd_Avc
begin

text \<open>
  \<open>HEVC_INIT\<close> (\<open>ave_cmd_build_start_hevc\<close> of \<^verbatim>\<open>src/driver/ave_cmd.c\<close>): the shared half of
  \<open>Ave_Cmd_Avc\<close>, the three parameter sets, the short-term reference picture sets, and the
  re-reading of the finished command (\<open>ave_hevc_verify\<close>), whose reads are checked.
\<close>

section \<open>Parameters and checks\<close>

record ave_hevc_session =
  hx_vp :: ave_avc_session
  hx_level_idc :: u8
  hx_input_format_word :: u32
  hx_bit_depth :: u8
  hx_input_bitdepth :: u8
  hx_max_num_ref_frames :: u32
  hx_log2_max_poc_lsb_minus4 :: u32
  hx_sao :: bool
  hx_wpp :: bool
  hx_sps_tmvp :: bool
  hx_n_st_rps :: u32
  hx_st_rps_refs :: u8
  hx_bframes :: u8
  hx_transcoded :: "u32 \<Rightarrow> u64"
  hx_n_transcoded :: u32
  hx_transcoded_size :: u32
  hx_qp_mod :: bool

definition AVE_HEVC_PROFILE_MAIN :: u32 where "AVE_HEVC_PROFILE_MAIN = 1"
definition AVE_HEVC_PROFILE_MAIN10 :: u32 where "AVE_HEVC_PROFILE_MAIN10 = 2"
definition AVE_HEVC_ST_RPS_IPPP :: u32 where "AVE_HEVC_ST_RPS_IPPP = 4"
definition AVE_HEVC_ST_RPS_MAX :: u32 where "AVE_HEVC_ST_RPS_MAX = 10"

lemmas hevc_consts =
  AVE_HEVC_PROFILE_MAIN_def AVE_HEVC_PROFILE_MAIN10_def AVE_HEVC_ST_RPS_IPPP_def
  AVE_HEVC_ST_RPS_MAX_def

definition ave_hevc_b_sets :: "u32 \<Rightarrow> u32" where
  "ave_hevc_b_sets bframes = (if bframes = 1 then 8 else if bframes = 2 then 10 else 0)"

definition ave_hevc_level_ok :: "u8 \<Rightarrow> bool" where
  "ave_hevc_level_ok idc \<longleftrightarrow>
     idc \<in> set [30, 60, 63, 90, 93, 120, 123, 150, 153, 156, 180, 183, 186]"

definition hevc_main10 :: "ave_hevc_session \<Rightarrow> bool" where
  "hevc_main10 h \<longleftrightarrow> hx_bit_depth h = 10"

definition hevc_align :: "ave_start_hevc_layout \<Rightarrow> u32" where
  "hevc_align hl = (if hv_buf_align hl \<noteq> 0 then hv_buf_align hl else AVE_STRIDE_ALIGN)"

text \<open>An ABI whose HEVC layout was not read.\<close>

definition hevc_no_layout :: "ave_cmd_abi \<Rightarrow> bool" where
  "hevc_no_layout abi \<longleftrightarrow>
     (let l = ab_start_avc abi; hl = ab_start_hevc abi
      in hv_vps_block hl = AVE_OFF_NONE \<or> \<not> hv_shares_avc_vp hl
       \<or> hv_sps_block hl ! 0 = 0 \<or> hv_pps_block hl ! 0 = 0 \<or> hv_rps_block hl = 0
       \<or> hv_sve_num hl = 0 \<or> hv_input_format_word hl = 0 \<or> hv_pps_count hl = 0
       \<or> hv_sao_enb_config hl = 0 \<or> hv_sao_eo_bo hl = 0 \<or> hv_input_bitdepth hl = 0
       \<or> hv_max_num_ref_frames hl = 0 \<or> hv_slice_map_height hl = 0 \<or> hv_entropy_rows hl = 0
       \<or> sa_num_views l ! 0 = AVE_OFF_NONE \<or> sa_need_lsb_planes l = AVE_OFF_NONE
       \<or> sa_entropy_size_set l = AVE_OFF_NONE \<or> sa_param_sets_addr l = AVE_OFF_NONE)"

text \<open>Bits [4:2] of the input format word.\<close>

definition input_fmt :: "u32 \<Rightarrow> u32" where
  "input_fmt w = drop_bit 2 w AND 7"

definition hevc_bad_params :: "ave_cmd_abi \<Rightarrow> ave_hevc_session \<Rightarrow> bool" where
  "hevc_bad_params abi h \<longleftrightarrow>
     (let s = hx_vp h; hl = ab_start_hevc abi; fmt = input_fmt (hx_input_format_word h)
      in s_profile_idc s \<noteq> 0 \<or> s_level_idc s \<noteq> 0 \<or> s_cabac s \<or> s_scaling_flat s \<noteq> 0 \<or> s_bframes s \<noteq> 0
       \<or> \<not> ave_hevc_level_ok (hx_level_idc h)
       \<or> fmt = 0 \<or> fmt > 4
       \<or> \<not> s_need_lsb_planes s
       \<or> (hx_qp_mod h \<and> (\<not> s_rc_enable s \<or> hv_qp_mod hl = AVE_OFF_NONE)))"

definition hevc_bad_refs :: "ave_cmd_abi \<Rightarrow> ave_hevc_session \<Rightarrow> bool" where
  "hevc_bad_refs abi h \<longleftrightarrow>
     (let s = hx_vp h; l = ab_start_avc abi; p = ab_hps abi; bf = hx_bframes h
      in bf > 2
       \<or> (bf \<noteq> 0 \<and>
            (hx_n_st_rps h \<noteq> ave_hevc_b_sets (ucast bf) \<or> hx_max_num_ref_frames h < 2
           \<or> s_key_interval s = 1 \<or> sa_bframes l = AVE_OFF_NONE
           \<or> hp_rps_dpoc_s1_m1 p = 0 \<or> hp_rps_used_s1 p = 0))
       \<or> (bf = 0 \<and> hx_n_st_rps h > AVE_HEVC_ST_RPS_IPPP)
       \<or> hx_log2_max_poc_lsb_minus4 h > 12 \<or> hx_n_st_rps h > AVE_HEVC_ST_RPS_MAX
       \<or> (hx_n_st_rps h \<noteq> 0 \<and> hx_max_num_ref_frames h = 0)
       \<or> hx_st_rps_refs h > 2
       \<or> (hx_st_rps_refs h = 2 \<and> hx_max_num_ref_frames h < 2)
       \<or> hx_max_num_ref_frames h > 15
       \<or> s_n_recon s < hx_max_num_ref_frames h + 1)"

definition hevc_bad_buffers :: "ave_cmd_abi \<Rightarrow> ave_hevc_session \<Rightarrow> bool" where
  "hevc_bad_buffers abi h \<longleftrightarrow>
     (let s = hx_vp h; hl = ab_start_hevc abi; align = hevc_align hl
      in s_n_entropy s < hv_entropy_rows hl \<or> s_entropy_size s = 0
       \<or> any_below (s_n_coded s) (\<lambda>i. bf_addr (the (s_coded s) i) AND (ucast align - 1) \<noteq> 0)
       \<or> (hx_n_transcoded h \<noteq> 0 \<and>
            (hx_n_transcoded h \<noteq> hv_transcoded_max hl \<or> hx_n_transcoded h > 2
           \<or> hv_transcoded_set hl = 0 \<or> hv_transcoded_size hl = 0 \<or> hx_transcoded_size h = 0
           \<or> any_below (hx_n_transcoded h) (\<lambda>i. bad_addr align (hx_transcoded h i)))))"

definition hevc_refused :: "ave_cmd_abi \<Rightarrow> ave_hevc_session \<Rightarrow> bool" where
  "hevc_refused abi h \<longleftrightarrow>
     hx_bit_depth h \<notin> {0, 8, 10} \<or> hx_input_bitdepth h \<notin> {0, 8, 10}
   \<or> hevc_no_layout abi
   \<or> ave_vp_check (ab_start_avc abi) (hx_vp h) (hevc_align (ab_start_hevc abi)) \<noteq> None
   \<or> hevc_bad_params abi h \<or> hevc_bad_refs abi h \<or> hevc_bad_buffers abi h"

section \<open>Writes\<close>

text \<open>One short-term set of a B GOP; \<open>g\<close> is the GOP length, \<open>r\<close> the place in it.\<close>

definition ave_hevc_b_set :: "ave_hevc_ps_layout \<Rightarrow> u32 \<Rightarrow> u32 \<Rightarrow> u32 \<Rightarrow> ave_wr_op list" where
  "ave_hevc_b_set p e bframes idx =
     (let g = bframes + 1; r = idx mod g; neg = (if r \<noteq> 0 then r else g); one = (if r \<noteq> 0 then 1 else 0)
      in wr8 (e + hp_rps_inter_pred p) 0 @
         wr32 (e + hp_rps_num_neg p) 1 @
         wr32 (e + hp_rps_num_pos p) one @
         wr32 (e + hp_rps_num_delta_pocs p) (if r \<noteq> 0 then 2 else 1) @
         wr16 (e + hp_rps_dpoc_s0_m1 p) (ucast (neg - 1)) @
         wr8 (e + hp_rps_used_s0 p) 1 @
         wr32 (e + hp_rps_d_num_neg p) 1 @
         wr8 (e + hp_rps_d_used_s0 p) 1 @
         wr32 (e + hp_rps_d_delta_poc_s0 p) (- neg) @
         wr32 (e + hp_rps_d_num_pos p) one @
         wr_if (r \<noteq> 0)
           (wr32 (e + hp_rps_dpoc_s1_m1 p) (g - r - 1) @
            wr8 (e + hp_rps_used_s1 p) 1 @
            wr8 (e + hp_rps_d_used_s1 p) 1 @
            wr32 (e + hp_rps_d_delta_poc_s1 p) (g - r)))"

text \<open>One set of an IPPP session: \<open>nr\<close> references, at distances 1 and 2.\<close>

definition hevc_ippp_set :: "ave_hevc_ps_layout \<Rightarrow> u32 \<Rightarrow> u32 \<Rightarrow> ave_wr_op list" where
  "hevc_ippp_set p e nr =
     wr8 (e + hp_rps_inter_pred p) 0 @
     wr32 (e + hp_rps_num_neg p) nr @
     wr32 (e + hp_rps_num_pos p) 0 @
     wr32 (e + hp_rps_num_delta_pocs p) nr @
     wr32 (e + hp_rps_d_num_neg p) nr @
     wr32 (e + hp_rps_d_num_pos p) 0 @
     wr_for nr (\<lambda>j.
       wr16 (e + hp_rps_dpoc_s0_m1 p + 2 * j) 0 @
       wr8 (e + hp_rps_used_s0 p + j) 1 @
       wr8 (e + hp_rps_d_used_s0 p + j) 1 @
       wr32 (e + hp_rps_d_delta_poc_s0 p + 4 * j) (- (j + 1)))"

definition hevc_rps :: "ave_cmd_abi \<Rightarrow> ave_hevc_session \<Rightarrow> ave_wr_op list" where
  "hevc_rps abi h =
     (let p = ab_hps abi; rps = hv_rps_block (ab_start_hevc abi);
          e = (\<lambda>i. rps + hp_rps_entry0 p + i * hp_rps_entry_stride p)
      in wr32 (rps + hp_rps_num_st p) (hx_n_st_rps h) @
         wr_if (hx_bframes h \<noteq> 0)
           (wr_for (hx_n_st_rps h) (\<lambda>i. ave_hevc_b_set p (e i) (ucast (hx_bframes h)) i)) @
         wr_if (hx_bframes h = 0)
           (wr_for (hx_n_st_rps h)
              (\<lambda>i. hevc_ippp_set p (e i) (if hx_st_rps_refs h = 2 \<and> i \<noteq> 1 then 2 else 1))))"

definition ave_hevc_ptl :: "ave_hevc_ps_layout \<Rightarrow> u32 \<Rightarrow> u8 \<Rightarrow> bool \<Rightarrow> ave_wr_op list" where
  "ave_hevc_ptl p ptl level_idc main10 =
     wr32 (ptl + hp_ptl_profile_idc p) (if main10 then AVE_HEVC_PROFILE_MAIN10 else AVE_HEVC_PROFILE_MAIN) @
     wr_if (\<not> main10) (wr8 (ptl + hp_ptl_compat p + 1) 1) @
     wr8 (ptl + hp_ptl_compat p + 2) 1 @
     wr8 (ptl + hp_ptl_progressive p) 1 @
     wr8 (ptl + hp_ptl_non_packed p) 1 @
     wr8 (ptl + hp_ptl_frame_only p) 1 @
     wr32 (ptl + hp_ptl_level_idc p) (ucast level_idc)"

text \<open>The HEVC-only video parameters: before the \<open>RefSpacingP\<close> write, which may be refused, and
  behind it.\<close>

definition hevc_params1 :: "ave_cmd_abi \<Rightarrow> ave_hevc_session \<Rightarrow> ave_wr_op list" where
  "hevc_params1 abi h =
     (let hl = ab_start_hevc abi
      in wr32 (hv_input_format_word hl) (hx_input_format_word h) @
         wr32 (hv_pps_count hl) 1 @
         wr32 (hv_sao_enb_config hl) (if hx_sao h then 0xffff else 0) @
         wr32 (hv_sao_eo_bo hl) 0xffffffff @
         wr32 (hv_input_bitdepth hl) (if hx_input_bitdepth h \<noteq> 0 then ucast (hx_input_bitdepth h) else 8))"

definition hevc_params2 :: "ave_cmd_abi \<Rightarrow> ave_hevc_session \<Rightarrow> ave_wr_op list" where
  "hevc_params2 abi h =
     (let hl = ab_start_hevc abi; l = ab_start_avc abi; s = hx_vp h
      in wr_if (s_ref_spacing_p s \<noteq> 0) (wr32 (sa_ref_spacing l) (ucast (s_ref_spacing_p s))) @
         wr32 (hv_max_num_ref_frames hl) (hx_max_num_ref_frames h) @
         wr_if (hx_bframes h \<noteq> 0) (wr32 (sa_bframes l) (ucast (hx_bframes h))) @
         wr32 (hv_slice_map_height hl) (ave_mb_align (s_height s)) @
         wr_for (hx_n_transcoded h)
           (\<lambda>i. wr64 (hv_transcoded_set hl + i * hv_transcoded_stride hl) (hx_transcoded h i)) @
         wr_if (hx_n_transcoded h \<noteq> 0) (wr32 (hv_transcoded_size hl) (hx_transcoded_size h)))"

definition hevc_vps :: "ave_cmd_abi \<Rightarrow> ave_hevc_session \<Rightarrow> ave_wr_op list" where
  "hevc_vps abi h =
     (let p = ab_hps abi; vps = hv_vps_block (ab_start_hevc abi)
      in wr8 (vps + hp_vps_base_internal p) 1 @
         wr8 (vps + hp_vps_base_available p) 1 @
         wr8 (vps + hp_vps_temporal_nesting p) 1 @
         ave_hevc_ptl p (vps + hp_ptl p) (hx_level_idc h) (hevc_main10 h) @
         wr8 (vps + hp_vps_sublayer_info p) 1 @
         wr32 (vps + hp_vps_max_dec_pic_buf_m1 p) (hx_max_num_ref_frames h) @
         wr_if (hx_bframes h \<noteq> 0) (wr32 (vps + hp_vps_num_reorder p) 1))"

definition hevc_sps :: "ave_cmd_abi \<Rightarrow> ave_hevc_session \<Rightarrow> ave_wr_op list" where
  "hevc_sps abi h =
     (let p = ab_hps abi; sps = hv_sps_block (ab_start_hevc abi) ! 0; s = hx_vp h;
          cw = ave_mb_align (s_width s); ch = ave_mb_align (s_height s); dw = crop_w s; dh = crop_h s;
          m8 = (if hevc_main10 h then 2 else 0)
      in wr8 (sps + hp_sps_temporal_nesting p) 1 @
         ave_hevc_ptl p (sps + hp_ptl p) (hx_level_idc h) (hevc_main10 h) @
         wr32 (sps + hp_chroma_format_idc p) 1 @
         wr32 (sps + hp_bit_depth_luma_m8 p) m8 @
         wr32 (sps + hp_bit_depth_chroma_m8 p) m8 @
         wr32 (sps + hp_pic_width p) cw @
         wr32 (sps + hp_pic_height p) ch @
         wr32 (sps + hp_ctb_cols p) (drop_bit 5 (cw + 31)) @
         wr32 (sps + hp_ctb_rows p) (drop_bit 5 (ch + 31)) @
         wr8 (sps + hp_conf_win_flag p) (bool8 (cw \<noteq> dw \<or> ch \<noteq> dh)) @
         wr32 (sps + hp_conf_win_right p) ((cw - dw) div 2) @
         wr32 (sps + hp_conf_win_bottom p) ((ch - dh) div 2) @
         wr32 (sps + hp_log2_max_poc_lsb_m4 p) (hx_log2_max_poc_lsb_minus4 h) @
         wr8 (sps + hp_sps_sublayer_info p) 1 @
         wr32 (sps + hp_sps_max_dec_pic_buf_m1 p) (hx_max_num_ref_frames h) @
         wr_if (hx_bframes h \<noteq> 0) (wr32 (sps + hp_sps_num_reorder p) 1) @
         wr32 (sps + hp_log2_min_cb_m3 p) 0 @
         wr32 (sps + hp_log2_diff_cb p) 2 @
         wr32 (sps + hp_log2_min_tb_m2 p) 0 @
         wr32 (sps + hp_log2_diff_tb p) 3 @
         wr32 (sps + hp_tb_depth_inter p) 1 @
         wr32 (sps + hp_tb_depth_intra p) 0 @
         wr8 (sps + hp_scaling_enabled p) 0 @
         wr8 (sps + hp_sao p) (bool8 (hx_sao h)) @
         wr8 (sps + hp_sps_tmvp p) (bool8 (hx_sps_tmvp h)) @
         wr8 (sps + hp_sps_fw_creates_header p) 1 @
         wr32 (sps + hp_sps_header_len p) 0)"

definition hevc_pps :: "ave_cmd_abi \<Rightarrow> ave_hevc_session \<Rightarrow> ave_wr_op list" where
  "hevc_pps abi h =
     (let p = ab_hps abi; hl = ab_start_hevc abi; pps = hv_pps_block hl ! 0
      in wr32 (pps + hp_extra_sh_bits p) 0 @
         wr32 (pps + hp_init_qp_m26 p) 0 @
         wr_if (hx_qp_mod h) (wr8 (hv_qp_mod hl) 1) @
         wr8 (pps + hp_cu_qp_delta p) (bool8 (hx_qp_mod h)) @
         wr32 (pps + hp_cu_qp_delta_depth p) (if hx_qp_mod h then 2 else 0) @
         wr8 (pps + hp_wpp p) (bool8 (hx_wpp h)) @
         wr8 (pps + hp_deblock_ctrl_present p) 1 @
         wr8 (pps + hp_pps_fw_creates_header p) 1 @
         wr32 (pps + hp_pps_header_len p) 0)"

section \<open>Reading the command back\<close>

definition rdb :: "u8 list \<Rightarrow> u32 \<Rightarrow> u8 cres" where "rdb b off = rd8 b (unat off)"
definition rd32 :: "u8 list \<Rightarrow> u32 \<Rightarrow> u32 cres" where "rd32 b off = rd_le32 b (unat off)"
definition rd64 :: "u8 list \<Rightarrow> u32 \<Rightarrow> u64 cres" where "rd64 b off = rd_le64 b (unat off)"

text \<open>\<open>if (!c) return false;\<close> and the rest.\<close>

definition v_and :: "bool cres \<Rightarrow> bool cres \<Rightarrow> bool cres" where
  "v_and c k = cbind c (\<lambda>ok. if ok then k else Ok False)"

text \<open>Nesting must be 1 with no sub-layers.\<close>

definition v_nesting :: "u8 list \<Rightarrow> u32 \<Rightarrow> u32 \<Rightarrow> bool cres" where
  "v_nesting b sub nest = cbind (rd32 b sub) (\<lambda>v. if v = 0 then cbind (rdb b nest) (\<lambda>n. Ok (n = 1)) else Ok True)"

definition v_recon :: "u8 list \<Rightarrow> ave_start_avc_layout \<Rightarrow> u32 \<Rightarrow> bool cres" where
  "v_recon b l i =
     (let e = sa_recon_set l + i * sa_recon_stride l
      in cbind (rd64 b (e + sa_recon_addr l)) (\<lambda>msb.
         cbind (rd64 b (e + sa_recon_lsb_addr l)) (\<lambda>lsb.
           Ok (msb \<noteq> 0 \<and> lsb \<noteq> 0 \<and> (msb OR lsb) AND 127 = 0))))"

fun v_all :: "(u32 \<Rightarrow> bool cres) \<Rightarrow> nat list \<Rightarrow> bool cres" where
  "v_all f [] = Ok True"
| "v_all f (i # is) = v_and (f (of_nat i)) (v_all f is)"

definition v_is8 :: "u8 list \<Rightarrow> u32 \<Rightarrow> u8 \<Rightarrow> bool cres" where
  "v_is8 b off v = cbind (rdb b off) (\<lambda>x. Ok (x = v))"

definition v_is32 :: "u8 list \<Rightarrow> u32 \<Rightarrow> (u32 \<Rightarrow> bool) \<Rightarrow> bool cres" where
  "v_is32 b off P = cbind (rd32 b off) (\<lambda>x. Ok (P x))"

definition ave_hevc_verify :: "u8 list \<Rightarrow> ave_cmd_abi \<Rightarrow> ave_hevc_session \<Rightarrow> bool cres" where
  "ave_hevc_verify b abi h =
     (let l = ab_start_avc abi; hl = ab_start_hevc abi; p = ab_hps abi;
          vps = hv_vps_block hl; sps = hv_sps_block hl ! 0; pps = hv_pps_block hl ! 0
      in v_and (v_nesting b (sps + hp_sps_max_sub_layers_m1 p) (sps + hp_sps_temporal_nesting p))
        (v_and (v_nesting b (vps + hp_vps_max_sub_layers_m1 p) (vps + hp_vps_temporal_nesting p))
        (v_and (v_is32 b (pps + hp_extra_sh_bits p) (\<lambda>v. v = 0))
        (v_and (v_is32 b (pps + hp_pps_header_len p) (\<lambda>v. v = 0))
        (v_and (v_is32 b (sps + hp_sps_header_len p) (\<lambda>v. v = 0))
        (v_and (v_is8 b (sps + hp_sps_fw_creates_header p) 1)
        (v_and (v_is8 b (pps + hp_pps_fw_creates_header p) 1)
        (v_and (cbind (rd32 b (hv_input_format_word hl)) (\<lambda>w.
                  if input_fmt w \<noteq> 4
                  then v_is32 b (sps + hp_chroma_format_idc p) (\<lambda>c. \<not> input_fmt w < c) else Ok True))
        (v_and (v_is32 b (sa_num_views l ! 0) (\<lambda>v. v \<noteq> 0))
        (v_and (v_is32 b (hv_sve_num hl) (\<lambda>v. v = 1))
        (v_and (v_is32 b (sa_rc_mode l) (\<lambda>v. v \<noteq> 0))
        (v_and (v_is8 b (sa_need_lsb_planes l) 1)
               (v_all (v_recon b l) [0..<unat (s_n_recon (hx_vp h))])))))))))))))"

section \<open>The builder\<close>

definition hevc_writes1 :: "ave_cmd_abi \<Rightarrow> ave_hevc_session \<Rightarrow> ave_wr_op list" where
  "hevc_writes1 abi h =
     ave_vp_fill (ab_start_avc abi) (hx_vp h) (hv_sve_num (ab_start_hevc abi)) @ hevc_params1 abi h"

definition hevc_writes2 :: "ave_cmd_abi \<Rightarrow> ave_hevc_session \<Rightarrow> ave_wr_op list" where
  "hevc_writes2 abi h =
     hevc_params2 abi h @ hevc_vps abi h @ hevc_sps abi h @ hevc_rps abi h @ hevc_pps abi h"

text \<open>The outcome is \<open>Fault\<close> if the verification reads outside the buffer. A refused
  \<open>RefSpacingP\<close> leaves the buffer as it is, half-built.\<close>

definition ave_cmd_build_start_hevc ::
  "ave_cmd_abi \<Rightarrow> u8 list \<Rightarrow> ave_cmd_ctx \<Rightarrow> ave_hevc_session \<Rightarrow> cmd_result cres" where
  "ave_cmd_build_start_hevc abi buf ctx h =
     (if hevc_refused abi h then Ok (Inl EINVAL, buf)
      else case ave_cmd_begin abi AVE_OP_START_HEVC buf ctx 0 of
             Inl (e, b) \<Rightarrow> Ok (Inl e, b)
           | Inr w \<Rightarrow>
               let w1 = wr_run (hevc_writes1 abi h) w in
               if s_ref_spacing_p (hx_vp h) \<noteq> 0 \<and> sa_ref_spacing (ab_start_avc abi) = AVE_OFF_NONE
               then Ok (Inl EINVAL, wr_buf w1)
               else
                 let w2 = wr_run (hevc_writes2 abi h) w1 in
                 if wr_err w2 \<noteq> None then Ok (ave_cmd_end w2)
                 else cbind (ave_hevc_verify (wr_buf w2) abi h) (\<lambda>ok.
                        Ok (if ok then ave_cmd_end w2 else ave_cmd_end_err w2)))"

end
