(* ===== verification/Ave_Cmd_Frame.thy ===== *)
theory Ave_Cmd_Frame
  imports Ave_Cmd_Hevc
begin

text \<open>
  The per-frame half of \<^verbatim>\<open>src/driver/ave_cmd.c\<close>: \<open>AVC_ENCODE\<close> and \<open>HEVC_ENCODE\<close>, and the two
  readers of what the firmware answers, \<open>ave_cmd_coded_length_codec\<close> (the header of a coded
  frame) and \<open>ave_cmd_check_reply\<close> (a completion message).

  The readers read memory the firmware writes: their reads are checked, and a read outside the
  buffer is \<open>Fault\<close>.
\<close>

section \<open>Frame parameters and checks\<close>

record ave_avc_frame =
  fr_frame_type :: u32
  fr_direct_spatial :: bool
  fr_macos :: u16
  fr_frame_num :: u64
  fr_poc :: u32
  fr_frame_rate :: u32
  fr_in_luma_addr :: u64
  fr_in_luma_stride :: u32
  fr_in_luma_size :: u32
  fr_in_chroma_addr :: u64
  fr_in_chroma_stride :: u32
  fr_in_dims :: "u32 \<Rightarrow> u32"
  fr_mp_stats_in_addr :: u64
  fr_in_chroma_size :: u32
  fr_coded_index :: u32
  fr_coded_addr :: u64
  fr_coded_hdr_addr :: u64
  fr_coded_size :: u32
  fr_recon_luma_addr :: u64
  fr_recon_chroma_addr :: u64
  fr_recon_mv_addr :: u64
  fr_recon_luma_lsb_addr :: u64
  fr_recon_chroma_lsb_addr :: u64
  fr_ctx_index :: u32
  fr_force_key_frame :: bool
  fr_force_non_ref :: bool
  fr_update_param_sets :: bool
  fr_low_res_src_addr :: u64
  fr_entropy :: "u32 \<Rightarrow> u32 \<Rightarrow> u64"
  fr_n_entropy :: u32
  fr_n_entropy_cols :: u32
  fr_src_nbr :: "nat \<Rightarrow> u32 \<Rightarrow> u64"
  fr_n_src_nbr :: u32
  fr_scratch :: "u32 \<Rightarrow> u64"
  fr_n_scratch :: u32

record ave_hevc_frame =
  hf_pic :: ave_avc_frame
  hf_poc_lsb :: u32
  hf_sao :: bool
  hf_hdr_slot_base :: u64
  hf_hdr_slot_size :: u32
  hf_single_xc :: bool
  hf_bframes :: u8


record ave_coded_slice =
  cs_off :: u32
  cs_len :: u32
  cs_hdr_iova :: u64
  cs_hdr_len :: u32

record ave_coded_info =
  ci_bytes :: u32
  ci_span :: u32
  ci_slices :: u32
  ci_bytes_removed :: u32
  ci_frame_type :: u32
  ci_frame_num :: u32
  ci_sps_pps_bits :: u32
  ci_cabac_zero_words :: u32
  ci_hdr_bytes :: u32
  ci_slice :: "ave_coded_slice list"   \<comment> \<open>\<open>n_slice\<close> is its length\<close>

definition AVE_CODED_SLICE_MAX :: nat where "AVE_CODED_SLICE_MAX = 16"

definition bad_stride :: "u32 \<Rightarrow> bool" where
  "bad_stride n \<longleftrightarrow> n = 0 \<or> n mod AVE_STRIDE_ALIGN \<noteq> 0"

definition pic_bad_input :: "ave_cmd_abi \<Rightarrow> ave_avc_frame \<Rightarrow> bool" where
  "pic_bad_input abi f \<longleftrightarrow>
     (let l = ab_process_avc abi
      in fr_frame_type f \<notin> {AVE_FRAME_TYPE_I, AVE_FRAME_TYPE_P, AVE_FRAME_TYPE_B, AVE_FRAME_TYPE_AUTO,
                           AVE_FRAME_TYPE_IDR}
       \<or> bad_addr AVE_STRIDE_ALIGN (fr_in_luma_addr f) \<or> bad_stride (fr_in_luma_stride f)
       \<or> bad_addr AVE_STRIDE_ALIGN (fr_in_chroma_addr f) \<or> bad_stride (fr_in_chroma_stride f)
       \<or> (pa_in_luma_size l \<noteq> AVE_OFF_NONE \<and> (fr_in_luma_size f = 0 \<or> fr_in_chroma_size f = 0))
       \<or> (fr_mp_stats_in_addr f \<noteq> 0 \<and> pa_mp_stats_in l = AVE_OFF_NONE))"

definition pic_bad_output :: "ave_cmd_abi \<Rightarrow> ave_avc_frame \<Rightarrow> u32 \<Rightarrow> bool" where
  "pic_bad_output abi f align \<longleftrightarrow>
     (let l = ab_process_avc abi
      in fr_coded_index f \<ge> sa_coded_max (ab_start_avc abi) \<or> fr_coded_addr f = 0
       \<or> fr_coded_hdr_addr f = 0 \<or> fr_coded_size f = 0
       \<or> fr_recon_luma_addr f AND 127 \<noteq> 0 \<or> fr_recon_chroma_addr f AND 127 \<noteq> 0
       \<or> fr_recon_luma_lsb_addr f AND 127 \<noteq> 0 \<or> fr_recon_chroma_lsb_addr f AND 127 \<noteq> 0
       \<or> (fr_low_res_src_addr f \<noteq> 0 \<and>
            (fr_low_res_src_addr f AND (ucast AVE_STRIDE_ALIGN - 1) \<noteq> 0 \<or> pa_low_res_src l = AVE_OFF_NONE))
       \<or> bad_entropy (pa_entropy_set l) (pa_entropy_max l) (pa_entropy_cols_max l) align
           (fr_n_entropy f) (fr_n_entropy_cols f) (fr_entropy f)
       \<or> bad_src_nbr (pa_src_nbr_set l) (pa_src_nbr_max l) align (fr_n_src_nbr f) (fr_src_nbr f)
       \<or> fr_n_scratch f > pa_scratch_n l)"

definition ave_pic_check :: "ave_cmd_abi \<Rightarrow> ave_avc_frame \<Rightarrow> u32 \<Rightarrow> errno option" where
  "ave_pic_check abi f align =
     (if pic_bad_input abi f \<or> pic_bad_output abi f align then Some EINVAL else None)"

section \<open>Filling \<open>PICMGMT\<close>\<close>

definition pic_fill_input ::
  "ave_process_avc_layout \<Rightarrow> u32 \<Rightarrow> ave_avc_frame \<Rightarrow> ave_wr_op list" where
  "pic_fill_input l base f =
     [WrCheck base (pa_picmgmt_size l)] @
     wr_if (pa_picmgmt_size_word l) (wr32 base (pa_picmgmt_size l)) @
     wr32 (base + pa_frame_type l) (fr_frame_type f) @
     wr_if (pa_frame_num l \<noteq> AVE_OFF_NONE)
       (if pa_frame_num_u32 l then wr32 (base + pa_frame_num l) (ucast (fr_frame_num f))
        else wr64 (base + pa_frame_num l) (fr_frame_num f)) @
     wr_if (pa_poc l \<noteq> AVE_OFF_NONE) (wr32 (base + pa_poc l) (fr_poc f)) @
     wr_if (pa_frame_rate_f64 l \<noteq> AVE_OFF_NONE \<and> fr_frame_rate f \<noteq> 0)
       (wr64 (base + pa_frame_rate_f64 l) (ave_u32_to_f64_bits (fr_frame_rate f))) @
     wr8 (base + pa_input_compressed l) 0 @
     wr64 (base + pa_in_luma_addr l) (fr_in_luma_addr f) @
     wr32 (base + pa_in_luma_stride l) (fr_in_luma_stride f) @
     wr64 (base + pa_in_chroma_addr l) (fr_in_chroma_addr f) @
     wr32 (base + pa_in_chroma_stride l) (fr_in_chroma_stride f) @
     wr_if (pa_in_luma_size l \<noteq> AVE_OFF_NONE) (wr32 (base + pa_in_luma_size l) (fr_in_luma_size f)) @
     wr_if (pa_in_chroma_size l \<noteq> AVE_OFF_NONE) (wr32 (base + pa_in_chroma_size l) (fr_in_chroma_size f)) @
     wr_if (pa_in_dims l \<noteq> AVE_OFF_NONE \<and> (fr_in_dims f 0 \<noteq> 0 \<or> fr_in_dims f 1 \<noteq> 0))
       (wr32 (base + pa_in_dims l) (fr_in_dims f 0) @ wr32 (base + pa_in_dims l + 4) (fr_in_dims f 1)) @
     wr_if (pa_mp_stats_in l \<noteq> AVE_OFF_NONE \<and> fr_mp_stats_in_addr f \<noteq> 0)
       (wr64 (base + pa_mp_stats_in l) (fr_mp_stats_in_addr f))"

definition pic_fill_output ::
  "ave_process_avc_layout \<Rightarrow> u32 \<Rightarrow> ave_avc_frame \<Rightarrow> ave_wr_op list" where
  "pic_fill_output l base f =
     wr8 (base + pa_out_mode l) 0 @
     wr32 (base + pa_out_index l) (fr_coded_index f) @
     wr64 (base + pa_out_coded l) (fr_coded_addr f) @
     wr64 (base + pa_out_coded_hdr l) (fr_coded_hdr_addr f) @
     wr32 (base + pa_out_coded_size l) (fr_coded_size f) @
     wr_if (fr_recon_luma_addr f \<noteq> 0) (wr64 (base + pa_recon_y l) (fr_recon_luma_addr f)) @
     wr_if (fr_recon_chroma_addr f \<noteq> 0) (wr64 (base + pa_recon_uv l) (fr_recon_chroma_addr f)) @
     wr_if (fr_recon_mv_addr f \<noteq> 0) (wr64 (base + pa_recon_mv l) (fr_recon_mv_addr f)) @
     wr_if (fr_recon_luma_lsb_addr f \<noteq> 0 \<and> pa_recon_y_lsb l \<noteq> AVE_OFF_NONE)
       (wr64 (base + pa_recon_y_lsb l) (fr_recon_luma_lsb_addr f)) @
     wr_if (fr_recon_chroma_lsb_addr f \<noteq> 0 \<and> pa_recon_uv_lsb l \<noteq> AVE_OFF_NONE)
       (wr64 (base + pa_recon_uv_lsb l) (fr_recon_chroma_lsb_addr f)) @
     wr32_opt (base + pa_ctx_index l) (fr_ctx_index f) @
     wr32_opt (base + pa_force_key_frame l) (bool32 (fr_force_key_frame f)) @
     wr_if (pa_force_non_ref l \<noteq> AVE_OFF_NONE)
       (wr8 (base + pa_force_non_ref l) (bool8 (fr_force_non_ref f))) @
     wr_if (pa_update_param_sets l \<noteq> AVE_OFF_NONE)
       (wr8 (base + pa_update_param_sets l) (bool8 (fr_update_param_sets f))) @
     wr32_opt (base + pa_scaling_matrix_mode l) 0"

definition pic_fill_scratch ::
  "ave_process_avc_layout \<Rightarrow> u32 \<Rightarrow> ave_avc_frame \<Rightarrow> ave_wr_op list" where
  "pic_fill_scratch l base f =
     wr_if (fr_low_res_src_addr f \<noteq> 0 \<and> pa_low_res_src l \<noteq> AVE_OFF_NONE)
       (wr64 (base + pa_low_res_src l) (fr_low_res_src_addr f)) @
     wr_for (fr_n_entropy f) (\<lambda>i. wr_for (or1 (fr_n_entropy_cols f)) (\<lambda>j.
       wr64 (base + pa_entropy_set l + pa_entropy_stride_i l * i + pa_entropy_stride_j l * j)
         (fr_entropy f i j))) @
     src_nbr_writes (pa_src_nbr_set l) base (fr_n_src_nbr f) (fr_src_nbr f) @
     wr_for (fr_n_scratch f) (\<lambda>i.
       wr_if (fr_scratch f i \<noteq> 0 \<and> pa_scratch l ! unat i \<noteq> AVE_OFF_NONE)
         (wr64 (base + pa_scratch l ! unat i) (fr_scratch f i)))"

text \<open>The first check returns early in the code; the writer is poisoned then, and the writes
  behind it do nothing.\<close>

definition ave_pic_fill ::
  "ave_process_avc_layout \<Rightarrow> u32 \<Rightarrow> ave_avc_frame \<Rightarrow> ave_wr_op list" where
  "ave_pic_fill l base f = pic_fill_input l base f @ pic_fill_output l base f @ pic_fill_scratch l base f"

section \<open>\<open>AVC_ENCODE\<close>\<close>

definition avc_frame_refused :: "ave_cmd_abi \<Rightarrow> ave_avc_frame \<Rightarrow> bool" where
  "avc_frame_refused abi f \<longleftrightarrow>
     ave_pic_check abi f AVE_STRIDE_ALIGN \<noteq> None
   \<or> ave_macos_check (ab_macos_process_avc abi) (ucast (fr_macos f)) \<noteq> None"

text \<open>macOS leaves the pointers the firmware rebuilds at zero.\<close>

definition pic_macos :: "ave_process_avc_layout \<Rightarrow> ave_avc_frame \<Rightarrow> ave_wr_op list" where
  "pic_macos l f =
     (let b = pa_picmgmt l
      in wr8 (b + pa_first_process l) (bool8 (fr_frame_num f = 0)) @
         wr64 (b + pa_recon_y l) 0 @
         wr64 (b + pa_recon_uv l) 0 @
         wr64 (b + pa_recon_mv l) 0 @
         wr_if (pa_recon_y_lsb l \<noteq> AVE_OFF_NONE) (wr64 (b + pa_recon_y_lsb l) 0) @
         wr_if (pa_recon_uv_lsb l \<noteq> AVE_OFF_NONE) (wr64 (b + pa_recon_uv_lsb l) 0) @
         wr_if (pa_low_res_src l \<noteq> AVE_OFF_NONE) (wr64 (b + pa_low_res_src l) 0) @
         wr_for (fr_n_entropy f) (\<lambda>i. wr_for (of_nat AVE_ENTROPY_COLS) (\<lambda>j.
           wr64 (b + pa_entropy_set l + pa_entropy_stride_i l * i + pa_entropy_stride_j l * j) 0)) @
         src_nbr_writes (pa_src_nbr_set l) b (fr_n_src_nbr f) (\<lambda>_ _. 0))"

definition spatial_b :: "ave_avc_frame \<Rightarrow> bool" where
  "spatial_b f \<longleftrightarrow> fr_frame_type f = AVE_FRAME_TYPE_B \<and> fr_direct_spatial f"

text \<open>A spatial B frame on an ABI without the field leaves the buffer half-built; a missing
  \<open>first_process\<close> zeroes it.\<close>

definition ave_cmd_build_process_avc ::
  "ave_cmd_abi \<Rightarrow> u8 list \<Rightarrow> ave_cmd_ctx \<Rightarrow> u32 \<Rightarrow> ave_avc_frame \<Rightarrow> cmd_result" where
  "ave_cmd_build_process_avc abi buf ctx sn f =
     (let l = ab_process_avc abi; groups = ucast (fr_macos f)
      in if avc_frame_refused abi f then (Inl EINVAL, buf)
         else case ave_cmd_begin abi AVE_OP_PROCESS_AVC buf ctx sn of
                Inl (e, b) \<Rightarrow> (Inl e, b)
              | Inr w \<Rightarrow>
                  let w1 = wr_run (ave_pic_fill l (pa_picmgmt l) f) w in
                  if spatial_b f \<and> pa_direct_spatial l = AVE_OFF_NONE then (Inl EINVAL, wr_buf w1)
                  else
                    let w2 = wr_run (wr_if (spatial_b f) (wr8 (pa_direct_spatial l) 1)) w1 in
                    if in_group groups AVE_MACOS_G_PIC \<and> pa_first_process l = AVE_OFF_NONE
                    then ave_cmd_end_err w2
                    else ave_cmd_end (wr_run
                           (wr_if (in_group groups AVE_MACOS_G_PIC) (pic_macos l f) @
                            ave_macos_apply (ab_macos_process_avc abi) groups) w2))"

section \<open>\<open>HEVC_ENCODE\<close>\<close>

definition hevc_frame_no_layout :: "ave_cmd_abi \<Rightarrow> bool" where
  "hevc_frame_no_layout abi \<longleftrightarrow>
     (let hp = ab_process_hevc abi
      in hv_vps_block (ab_start_hevc abi) = AVE_OFF_NONE \<or> ph_slice hp = 0 \<or> ph_picmgmt hp = 0
       \<or> ph_st_rps hp = 0 \<or> ph_hdr_slots hp = 0 \<or> ph_hdr_slot_bytes hp = 0
       \<or> ph_pic_single_xc hp = 0 \<or> ph_sh_seg_limit hp = 0
       \<or> ph_pic_single_xc hp \<ge> pa_picmgmt_size (ab_process_avc abi)
       \<or> ph_sh_hdr_slots hp + 8 * ph_hdr_slots hp > ph_slice_fw_copy hp
       \<or> ph_slice_fw_copy hp > ph_slice_size hp)"

definition hevc_frame_refused :: "ave_cmd_abi \<Rightarrow> ave_hevc_frame \<Rightarrow> bool" where
  "hevc_frame_refused abi hf \<longleftrightarrow>
     (let hp = ab_process_hevc abi; align = hevc_align (ab_start_hevc abi); f = hf_pic hf
      in hevc_frame_no_layout abi
       \<or> ave_pic_check abi f align \<noteq> None
       \<or> (fr_frame_type f = AVE_FRAME_TYPE_B \<and> hf_bframes hf = 0)
       \<or> fr_coded_addr f AND (ucast align - 1) \<noteq> 0
       \<or> hf_hdr_slot_base hf = 0 \<or> hf_hdr_slot_size hf < ph_hdr_slots hp * ph_hdr_slot_bytes hp
       \<or> (fr_frame_type f = AVE_FRAME_TYPE_IDR \<and> hf_poc_lsb hf \<noteq> 0))"

definition hevc_slice_writes :: "ave_process_hevc_layout \<Rightarrow> ave_hevc_frame \<Rightarrow> ave_wr_op list" where
  "hevc_slice_writes hp hf =
     (let sh = ph_slice hp
      in wr32 (sh + ph_sh_size_word hp) (ph_slice_size hp) @
         wr8 (sh + ph_sh_first_slice hp) 1 @
         wr32 (sh + ph_sh_pps_id hp) 0 @
         wr32 (sh + ph_sh_poc_lsb hp) (hf_poc_lsb hf) @
         wr8 (sh + ph_sh_tmvp hp) 0 @
         wr8 (sh + ph_sh_sao_luma hp) (bool8 (hf_sao hf)) @
         wr8 (sh + ph_sh_sao_chroma hp) (bool8 (hf_sao hf)) @
         wr8 (sh + ph_sh_col_from_l0 hp) 1 @
         wr32 (sh + ph_sh_five_minus_merge hp) 3 @
         wr8 (sh + ph_sh_lf_across hp) 0 @
         wr32 (sh + ph_sh_seg_limit hp) 0xffffffff @
         wr32 (sh + ph_sh_seg_limit hp + 4) 0xffffffff @
         wr_for (ph_hdr_slots hp) (\<lambda>i.
           wr64 (sh + ph_sh_hdr_slots hp + 8 * i)
             (hf_hdr_slot_base hf + ucast i * ucast (ph_hdr_slot_bytes hp))) @
         wr_if (hf_single_xc hf) (wr8 (ph_picmgmt hp + ph_pic_single_xc hp) 1) @
         wr_if (fr_frame_type (hf_pic hf) = AVE_FRAME_TYPE_P \<or> fr_frame_type (hf_pic hf) = AVE_FRAME_TYPE_B)
           (wr8 (ph_st_rps hp + ph_st_rps_sps_flag hp) 1 @
            wr32 (ph_st_rps hp + ph_st_rps_idx hp) 0))"

definition ave_cmd_build_process_hevc ::
  "ave_cmd_abi \<Rightarrow> u8 list \<Rightarrow> ave_cmd_ctx \<Rightarrow> u32 \<Rightarrow> ave_hevc_frame \<Rightarrow> cmd_result" where
  "ave_cmd_build_process_hevc abi buf ctx sn hf =
     (if hevc_frame_refused abi hf then (Inl EINVAL, buf)
      else cmd_with abi AVE_OP_PROCESS_HEVC buf ctx sn
             (ave_pic_fill (ab_process_avc abi) (ph_picmgmt (ab_process_hevc abi)) (hf_pic hf) @
              hevc_slice_writes (ab_process_hevc abi) hf))"

section \<open>The length of a coded frame\<close>

text \<open>One record: the number of bytes written, the trim, and (HEVC) the slice header. \<open>None\<close>
  ends the walk.\<close>

definition slice_record ::
  "ave_coded_hdr_layout \<Rightarrow> u8 list \<Rightarrow> bool \<Rightarrow> u32 \<Rightarrow> (u32 \<times> u8 \<times> u32 \<times> u64) option cres" where
  "slice_record c h hevc i =
     (let rec = unat (i * dh_slice_stride c)
      in if rec + unat (dh_slice_bytes_removed c) + 1 > length h then Ok None
         else if hevc \<and> (rec + unat (dh_slice_hdr_len c) + 4 > length h
                       \<or> rec + unat (dh_slice_hdr_iova c) + 8 > length h) then Ok None
         else cbind (rd_le32 h (rec + unat (dh_slice_bytes_written c))) (\<lambda>n.
              if n = 0 then Ok None
              else cbind (rd8 h (rec + unat (dh_slice_bytes_removed c))) (\<lambda>trim.
                   if \<not> hevc then Ok (Some (n, trim, 0, 0))
                   else cbind (rd_le32 h (rec + unat (dh_slice_hdr_len c))) (\<lambda>hl.
                        cbind (rd_le64 h (rec + unat (dh_slice_hdr_iova c))) (\<lambda>iova.
                          Ok (Some (n, trim, hl, iova)))))))"

text \<open>What a record must satisfy against the \<open>written\<close> bytes before it, in the code's order.\<close>

definition slice_bad :: "bool \<Rightarrow> u32 \<Rightarrow> u32 \<Rightarrow> u32 \<times> u8 \<times> u32 \<times> u64 \<Rightarrow> bool" where
  "slice_bad hevc slot_max written r \<longleftrightarrow> (case r of (n, trim, hl, iova) \<Rightarrow>
     sint trim < 0 \<or> ucast trim > n \<or> n > 0x40000000 \<or> written > 0x40000000 - n
   \<or> (hevc \<and> ((slot_max \<noteq> 0 \<and> hl > slot_max) \<or> (hl \<noteq> 0 \<and> iova = 0) \<or> hl > 0x100000)))"

record slice_sums =
  ss_written :: u32
  ss_removed :: u32
  ss_hdr :: u32
  ss_slices :: "ave_coded_slice list"

fun slice_walk ::
  "ave_coded_hdr_layout \<Rightarrow> u8 list \<Rightarrow> bool \<Rightarrow> u32 \<Rightarrow> nat list \<Rightarrow> slice_sums \<Rightarrow> slice_sums cres" where
  "slice_walk c h hevc slot_max [] s = Ok s"
| "slice_walk c h hevc slot_max (i # is) s =
     cbind (slice_record c h hevc (of_nat i)) (\<lambda>r.
       case r of
         None \<Rightarrow> Ok s
       | Some (n, trim, hl, iova) \<Rightarrow>
           if slice_bad hevc slot_max (ss_written s) (n, trim, hl, iova) then Err EPROTO
           else if length (ss_slices s) \<ge> AVE_CODED_SLICE_MAX then Err E2BIG
           else slice_walk c h hevc slot_max is
                  \<lparr>ss_written = ss_written s + n, ss_removed = ss_removed s + ucast trim,
                   ss_hdr = ss_hdr s + hl,
                   ss_slices = ss_slices s @
                     [\<lparr>cs_off = ss_written s, cs_len = n - ucast trim, cs_hdr_iova = iova, cs_hdr_len = hl\<rparr>]\<rparr>)"

definition ave_cmd_coded_length_codec ::
  "ave_cmd_abi \<Rightarrow> u8 list \<Rightarrow> u32 \<Rightarrow> bool \<Rightarrow> u32 \<Rightarrow> ave_coded_info cres" where
  "ave_cmd_coded_length_codec abi h coded_size hevc slot_max =
     (let c = ab_coded_hdr abi
      in if dh_slice_stride c = 0 \<or> length h < unat (dh_min_bytes c)
            \<or> hevc \<and> (dh_slice_hdr_len c = AVE_OFF_NONE \<or> dh_slice_hdr_iova c = AVE_OFF_NONE)
         then Err EINVAL
         else
           cbind (rd_le32 h (unat (dh_frame_type c))) (\<lambda>ft.
           cbind (rd_le32 h (unat (dh_frame_num c))) (\<lambda>fn.
           cbind (rd_le32 h (unat (dh_sps_pps_bits c))) (\<lambda>sp.
           cbind (if \<not> hevc \<and> dh_cabac_zero_words c \<noteq> AVE_OFF_NONE
                     \<and> unat (dh_cabac_zero_words c) + 4 \<le> length h
                  then rd_le32 h (unat (dh_cabac_zero_words c)) else Ok 0) (\<lambda>zw.
           cbind (slice_walk c h hevc slot_max [0..<unat (dh_slice_max c)]
                    \<lparr>ss_written = 0, ss_removed = 0, ss_hdr = 0, ss_slices = []\<rparr>) (\<lambda>s.
             if ss_removed s > ss_written s then Err EPROTO
             else if coded_size \<noteq> 0 \<and> ss_written s > coded_size then Err EPROTO
             else Ok \<lparr>ci_bytes = ss_written s - ss_removed s + ss_hdr s, ci_span = ss_written s,
                      ci_slices = of_nat (length (ss_slices s)), ci_bytes_removed = ss_removed s,
                      ci_frame_type = ft, ci_frame_num = fn, ci_sps_pps_bits = sp,
                      ci_cabac_zero_words = zw, ci_hdr_bytes = ss_hdr s, ci_slice = ss_slices s\<rparr>))))))"

definition ave_cmd_coded_length :: "ave_cmd_abi \<Rightarrow> u8 list \<Rightarrow> u32 \<Rightarrow> ave_coded_info cres" where
  "ave_cmd_coded_length abi h coded_size = ave_cmd_coded_length_codec abi h coded_size False 0"

section \<open>Completion messages\<close>

definition rd_le16 :: "u8 list \<Rightarrow> nat \<Rightarrow> u16 cres" where
  "rd_le16 b off =
     (if off + 2 \<le> length b then Ok (ucast (b ! off) OR push_bit 8 (ucast (b ! (off + 1)))) else Fault)"

text \<open>The verdict (\<open>None\<close> for 0), and the status word when it was read.\<close>

definition ave_cmd_check_reply ::
  "ave_cmd_abi \<Rightarrow> ave_op \<Rightarrow> u8 list \<Rightarrow> u64 \<Rightarrow> (errno option \<times> u32 option) cres" where
  "ave_cmd_check_reply abi op msg client_id =
     (let d = ab_cmd abi op; r = ab_reply abi;
          len_ok = (unat (cd_reply_size d) \<le> length msg
            \<and> unat (rl_status r) + 4 \<le> unat (cd_reply_size d)
            \<and> unat (rl_client_id r) + unat (rl_client_id_bytes r) \<le> unat (cd_reply_size d))
      in if cd_id d = 0 \<or> cd_reply_id d = 0 \<or> cd_reply_size d = 0 then Ok (Some EINVAL, None)
         else if \<not> len_ok then Ok (Some EPROTO, None)
         else cbind (rd_le16 msg (unat (rl_id r))) (\<lambda>rid.
              if rid \<noteq> cd_reply_id d then Ok (Some EPROTO, None)
              else cbind (rd_le32 msg (unat (rl_status r))) (\<lambda>st.
                   cbind (if rl_client_id_bytes r = 8 then rd_le64 msg (unat (rl_client_id r))
                          else cbind (rd_le32 msg (unat (rl_client_id r))) (\<lambda>v. Ok (ucast v))) (\<lambda>cid.
                     if cid \<noteq> (if rl_client_id_bytes r = 8 then client_id
                               else ucast (ucast client_id :: u32))
                     then Ok (Some EPROTO, Some st)
                     else Ok (if st = rl_status_ok r then None else Some EIO, Some st)))))"

end
