(* ===== verification/Ave_Cmd_Safe.thy ===== *)
theory Ave_Cmd_Safe
  imports Ave_Cmd_Frame
begin

text \<open>
  What every builder keeps, whatever the ABI table holds: it writes nothing behind the command
  and answers with the exact size of the command or with the one error
  (\<open>builders_stay_inside\<close>). Behind it, the facts about \<open>ave_cmd_begin\<close> and \<open>ave_cmd_end\<close> that the
  proofs about single commands start from.
\<close>

section \<open>The error is always the same\<close>

definition einval_only :: "ave_wr \<Rightarrow> bool" where
  "einval_only w \<longleftrightarrow> wr_err w = None \<or> wr_err w = Some EINVAL"

lemma wr_step_einval: "einval_only w \<Longrightarrow> einval_only (wr_step x w)"
  by (cases x) (auto simp: einval_only_def ave_wr_ok_def)

lemma wr_run_einval: "einval_only w \<Longrightarrow> einval_only (wr_run ops w)"
  by (induction ops arbitrary: w) (auto simp: wr_step_einval)

section \<open>Begin and end\<close>

text \<open>A writer at work on command \<open>op\<close> in the buffer \<open>buf\<close>.\<close>

definition cmd_open :: "ave_cmd_abi \<Rightarrow> ave_op \<Rightarrow> u8 list \<Rightarrow> ave_wr \<Rightarrow> bool" where
  "cmd_open abi op buf w \<longleftrightarrow>
     wr_wf w \<and> einval_only w \<and> wr_size w = ave_cmd_size abi op \<and> length (wr_buf w) = length buf
   \<and> drop (ave_cmd_size abi op) (wr_buf w) = drop (ave_cmd_size abi op) buf"

text \<open>A result that stays inside the command.\<close>

definition cmd_inside :: "ave_cmd_abi \<Rightarrow> ave_op \<Rightarrow> u8 list \<Rightarrow> cmd_result \<Rightarrow> bool" where
  "cmd_inside abi op buf res \<longleftrightarrow>
     length (snd res) = length buf
   \<and> drop (ave_cmd_size abi op) (snd res) = drop (ave_cmd_size abi op) buf
   \<and> fst res \<in> {Inl EINVAL, Inr (ave_cmd_size abi op)}"

lemma cmd_inside_same: "cmd_inside abi op buf (Inl EINVAL, buf)"
  by (simp add: cmd_inside_def)

lemma cmd_inside_buf: "cmd_open abi op buf w \<Longrightarrow> cmd_inside abi op buf (Inl EINVAL, wr_buf w)"
  by (simp add: cmd_inside_def cmd_open_def)

lemma cmd_open_run: "cmd_open abi op buf w \<Longrightarrow> cmd_open abi op buf (wr_run ops w)"
  using wr_run_follows [of w ops]
  by (simp add: cmd_open_def wr_run_einval wr_run_wf wr_run_size wr_run_length wr_follows_def)

lemma refused_len: "\<not> cmd_refused abi op n ctx sn \<Longrightarrow>
    cd_id (ab_cmd abi op) \<noteq> 0 \<and> AVE_CMD_HDR_SIZE \<le> ave_cmd_size abi op \<and> ave_cmd_size abi op \<le> n"
  by (auto simp: cmd_refused_def ave_cmd_size_def Let_def)

text \<open>The writer of a fresh command, before its header.\<close>

definition cmd_fresh :: "nat \<Rightarrow> u8 list \<Rightarrow> ave_wr" where
  "cmd_fresh n buf = \<lparr>wr_buf = poke buf 0 (replicate n 0), wr_size = n, wr_err = None\<rparr>"

lemma begin_open:
  assumes "\<not> cmd_refused abi op (length buf) ctx sn"
  shows "cmd_open abi op buf (wr_run ops (cmd_fresh (ave_cmd_size abi op) buf))"
  using refused_len [OF assms]
  by (intro cmd_open_run) (simp add: cmd_open_def cmd_fresh_def wr_wf_def einval_only_def drop_poke)

lemma begin_unfold:
  assumes "\<not> cmd_refused abi op (length buf) ctx sn"
  shows "ave_cmd_begin abi op buf ctx sn =
    (let w = wr_run (cmd_header abi op ctx
          (if cd_slot (ab_cmd abi op) \<noteq> AVE_SLOT_CALLER then cd_slot (ab_cmd abi op) else sn))
          (cmd_fresh (ave_cmd_size abi op) buf)
     in case wr_err w of Some e \<Rightarrow> Inl (e, wr_buf w) | None \<Rightarrow> Inr w)"
  using assms refused_len [OF assms]
  by (simp add: ave_cmd_begin_def cmd_fresh_def ave_cmd_size_def Let_def)

lemma begin_Inr: "ave_cmd_begin abi op buf ctx sn = Inr w \<Longrightarrow> cmd_open abi op buf w \<and> wr_err w = None"
  using begin_open [of abi op buf ctx sn] begin_unfold [of abi op buf ctx sn]
  by (cases "cmd_refused abi op (length buf) ctx sn")
    (auto simp: ave_cmd_begin_def Let_def split: option.splits if_splits)

lemma begin_Inl: "ave_cmd_begin abi op buf ctx sn = Inl (e, b) \<Longrightarrow> cmd_inside abi op buf (Inl e, b)"
proof (cases "cmd_refused abi op (length buf) ctx sn")
  case True
  then show "ave_cmd_begin abi op buf ctx sn = Inl (e, b) \<Longrightarrow> ?thesis"
    by (simp add: ave_cmd_begin_def cmd_inside_same)
next
  case False
  let ?w = "wr_run (cmd_header abi op ctx
      (if cd_slot (ab_cmd abi op) \<noteq> AVE_SLOT_CALLER then cd_slot (ab_cmd abi op) else sn))
      (cmd_fresh (ave_cmd_size abi op) buf)"
  assume "ave_cmd_begin abi op buf ctx sn = Inl (e, b)"
  then have "wr_err ?w = Some e" "b = wr_buf ?w"
    using begin_unfold [OF False] by (auto simp: Let_def split: option.splits)
  moreover have "cmd_open abi op buf ?w" using False by (rule begin_open)
  ultimately show ?thesis using cmd_inside_buf by (auto simp: cmd_open_def einval_only_def)
qed

lemma end_inside: "cmd_open abi op buf w \<Longrightarrow> cmd_inside abi op buf (ave_cmd_end w)"
  by (auto simp: ave_cmd_end_def cmd_inside_def cmd_open_def einval_only_def wr_wf_def drop_poke
      split: option.split)

lemma end_err_inside: "cmd_open abi op buf w \<Longrightarrow> cmd_inside abi op buf (ave_cmd_end_err w)"
  unfolding ave_cmd_end_err_def by (rule end_inside) (simp add: cmd_open_def einval_only_def wr_wf_def)

lemma cmd_with_inside: "cmd_inside abi op buf (cmd_with abi op buf ctx sn ops)"
  by (auto simp: cmd_with_def begin_Inl dest!: begin_Inr intro!: end_inside cmd_open_run
      split: sum.split)

section \<open>No builder leaves its command\<close>

lemma simple_inside: "cmd_inside abi op buf (ave_cmd_build_simple abi op buf ctx)"
  by (simp add: ave_cmd_build_simple_def ave_cmd_build_hdr_def cmd_with_inside cmd_inside_same)

lemma config_inside: "cmd_inside abi AVE_OP_CONFIG buf (ave_cmd_build_config abi buf ctx cp)"
  by (simp add: ave_cmd_build_config_def Let_def cmd_with_inside cmd_inside_same)

lemma start_avc_inside: "cmd_inside abi AVE_OP_START_AVC buf (ave_cmd_build_start_avc abi buf ctx s)"
  by (simp add: ave_cmd_build_start_avc_def cmd_with_inside cmd_inside_same)

lemma start_hevc_inside:
  assumes "ave_cmd_build_start_hevc abi buf ctx h = Ok r"
  shows "cmd_inside abi AVE_OP_START_HEVC buf r"
proof (cases "ave_cmd_begin abi AVE_OP_START_HEVC buf ctx 0")
  case (Inl eb)
  then show ?thesis
    using assms begin_Inl [of abi AVE_OP_START_HEVC buf ctx 0 "fst eb" "snd eb"]
    by (auto simp: ave_cmd_build_start_hevc_def cmd_inside_same split: prod.splits if_splits)
next
  case (Inr w)
  let ?w1 = "wr_run (hevc_writes1 abi h) w"
  let ?w2 = "wr_run (hevc_writes2 abi h) ?w1"
  have "cmd_open abi AVE_OP_START_HEVC buf w" using Inr begin_Inr by blast
  then have "cmd_inside abi AVE_OP_START_HEVC buf (Inl EINVAL, wr_buf ?w1)"
    "cmd_inside abi AVE_OP_START_HEVC buf (ave_cmd_end ?w2)"
    "cmd_inside abi AVE_OP_START_HEVC buf (ave_cmd_end_err ?w2)"
    by (intro cmd_inside_buf end_inside end_err_inside cmd_open_run; assumption)+
  then show ?thesis
    using Inr assms by (auto simp: ave_cmd_build_start_hevc_def Let_def cmd_inside_same cbind_Ok split: if_splits)
qed

lemma process_avc_inside: "cmd_inside abi AVE_OP_PROCESS_AVC buf (ave_cmd_build_process_avc abi buf ctx sn f)"
proof (cases "ave_cmd_begin abi AVE_OP_PROCESS_AVC buf ctx sn")
  case (Inl eb)
  then show ?thesis
    using begin_Inl [of abi AVE_OP_PROCESS_AVC buf ctx sn "fst eb" "snd eb"]
    by (auto simp: ave_cmd_build_process_avc_def Let_def cmd_inside_same split: prod.split)
next
  case (Inr w)
  then have "cmd_open abi AVE_OP_PROCESS_AVC buf w" using begin_Inr by blast
  then show ?thesis
    using Inr
    by (simp add: ave_cmd_build_process_avc_def Let_def cmd_inside_same cmd_inside_buf end_inside
        end_err_inside cmd_open_run)
qed

lemma process_hevc_inside: "cmd_inside abi AVE_OP_PROCESS_HEVC buf (ave_cmd_build_process_hevc abi buf ctx sn hf)"
  by (simp add: ave_cmd_build_process_hevc_def cmd_with_inside cmd_inside_same)

text \<open>C23. Whatever the ABI table, the parameters and the caller's buffer are, no builder writes a byte
  behind the command it builds, and it answers with exactly the size of that command or with
  EINVAL. (The HEVC session builder re-reads what it wrote; with a table that points anywhere this
  read may leave the buffer, \<open>Fault\<close>. \<open>Ave_Cmd_Built_Hevc\<close> shows that it does not
  with the tables of the driver.)\<close>

theorem builders_stay_inside:
  "cmd_inside abi op buf (ave_cmd_build_hdr abi op buf ctx sn)
   \<and> cmd_inside abi op buf (ave_cmd_build_simple abi op buf ctx)
   \<and> cmd_inside abi AVE_OP_CONFIG buf (ave_cmd_build_config abi buf ctx cp)
   \<and> cmd_inside abi AVE_OP_START_AVC buf (ave_cmd_build_start_avc abi buf ctx s)
   \<and> safe (cmd_inside abi AVE_OP_START_HEVC buf)
       (case ave_cmd_build_start_hevc abi buf ctx h of Fault \<Rightarrow> Err EFAULT | r \<Rightarrow> r)
   \<and> cmd_inside abi AVE_OP_PROCESS_AVC buf (ave_cmd_build_process_avc abi buf ctx sn f)
   \<and> cmd_inside abi AVE_OP_PROCESS_HEVC buf (ave_cmd_build_process_hevc abi buf ctx sn hf)"
proof -
  have "safe (cmd_inside abi AVE_OP_START_HEVC buf)
       (case ave_cmd_build_start_hevc abi buf ctx h of Fault \<Rightarrow> Err EFAULT | r \<Rightarrow> r)"
    using start_hevc_inside [of abi buf ctx h] by (cases "ave_cmd_build_start_hevc abi buf ctx h") simp_all
  then show ?thesis
    by (simp add: simple_inside config_inside start_avc_inside process_avc_inside process_hevc_inside
        ave_cmd_build_hdr_def cmd_with_inside)
qed

end
