(* ===== verification/Ave_Cmd_Built.thy ===== *)
theory Ave_Cmd_Built
  imports Ave_Cmd_Safe
begin

text \<open>
  Commands that are built: on both firmware interfaces a builder whose checks pass also succeeds.
\<close>

section \<open>Writes inside a window\<close>

fun wr_op_in :: "nat \<Rightarrow> nat \<Rightarrow> ave_wr_op \<Rightarrow> bool" where
  "wr_op_in lo hi (WrBytes off bs) \<longleftrightarrow> lo \<le> unat off \<and> unat off + length bs \<le> hi"
| "wr_op_in lo hi (WrCheck off width) \<longleftrightarrow> unat off + unat width \<le> hi"
| "wr_op_in lo hi WrBad \<longleftrightarrow> False"

definition wr_in :: "nat \<Rightarrow> nat \<Rightarrow> ave_wr_op list \<Rightarrow> bool" where
  "wr_in lo hi ops \<longleftrightarrow> list_all (wr_op_in lo hi) ops"

lemma wr_in_fits: "wr_in lo hi ops \<Longrightarrow> hi \<le> n \<Longrightarrow> wr_fits n ops"
proof -
  have "wr_op_in lo hi x \<Longrightarrow> hi \<le> n \<Longrightarrow> wr_op_fits n x" for x by (cases x) auto
  then show "wr_in lo hi ops \<Longrightarrow> hi \<le> n \<Longrightarrow> wr_fits n ops"
    by (auto simp: wr_in_def wr_fits_def list_all_iff)
qed

lemma wr_in_apart: "wr_in lo hi ops \<Longrightarrow> a + k \<le> lo \<or> hi \<le> a \<Longrightarrow> wr_apart a k ops"
proof -
  have "wr_op_in lo hi x \<Longrightarrow> a + k \<le> lo \<or> hi \<le> a \<Longrightarrow> wr_op_apart a k x" for x by (cases x) auto
  then show "wr_in lo hi ops \<Longrightarrow> a + k \<le> lo \<or> hi \<le> a \<Longrightarrow> wr_apart a k ops"
    by (auto simp: wr_in_def wr_apart_def list_all_iff)
qed

lemma wr_in_mono: "wr_in lo hi ops \<Longrightarrow> lo' \<le> lo \<Longrightarrow> hi \<le> hi' \<Longrightarrow> wr_in lo' hi' ops"
proof -
  have "wr_op_in lo hi x \<Longrightarrow> lo' \<le> lo \<Longrightarrow> hi \<le> hi' \<Longrightarrow> wr_op_in lo' hi' x" for x by (cases x) auto
  then show "wr_in lo hi ops \<Longrightarrow> lo' \<le> lo \<Longrightarrow> hi \<le> hi' \<Longrightarrow> wr_in lo' hi' ops"
    by (auto simp: wr_in_def list_all_iff)
qed

lemma wr_in_simps [simp]:
  "wr_in lo hi []" "wr_in lo hi (x # xs) \<longleftrightarrow> wr_op_in lo hi x \<and> wr_in lo hi xs"
  "wr_in lo hi (xs @ ys) \<longleftrightarrow> wr_in lo hi xs \<and> wr_in lo hi ys"
  "wr_in lo hi (wr_if c xs) \<longleftrightarrow> (c \<longrightarrow> wr_in lo hi xs)"
  "wr_in lo hi (if c then xs else ys) \<longleftrightarrow> (c \<longrightarrow> wr_in lo hi xs) \<and> (\<not> c \<longrightarrow> wr_in lo hi ys)"
  "wr_in lo hi (wr8 off v8) \<longleftrightarrow> lo \<le> unat off \<and> unat off + 1 \<le> hi"
  "wr_in lo hi (wr16 off v16) \<longleftrightarrow> lo \<le> unat off \<and> unat off + 2 \<le> hi"
  "wr_in lo hi (wr32 off v32) \<longleftrightarrow> lo \<le> unat off \<and> unat off + 4 \<le> hi"
  "wr_in lo hi (wr64 off v64) \<longleftrightarrow> lo \<le> unat off \<and> unat off + 8 \<le> hi"
  "wr_in lo hi (wr32_opt off v32) \<longleftrightarrow> (off \<noteq> 0 \<longrightarrow> lo \<le> unat off \<and> unat off + 4 \<le> hi)"
  by (auto simp: wr_in_def wr_if_def wr_defs wr32_opt_def AVE_OFF_NONE_def put_le16_def put_le32_def put_le64_def)

lemma wr_in_for: "wr_in lo hi (wr_for k f) \<longleftrightarrow> (\<forall>i < unat k. wr_in lo hi (f (of_nat i)))"
  by (auto simp: wr_for_def wr_in_def list_all_iff)

lemma wr_in_concat: "wr_in lo hi (concat xss) \<longleftrightarrow> (\<forall>xs\<in>set xss. wr_in lo hi xs)"
  by (auto simp: wr_in_def list_all_iff)

section \<open>Begin succeeds\<close>

text \<open>The two interfaces the driver knows.\<close>

definition known_abi :: "ave_cmd_abi \<Rightarrow> bool" where
  "known_abi abi \<longleftrightarrow> abi \<in> {ave_cmd_abi_13_5, ave_cmd_abi_26_6}"

lemma known_abi_get: "known_abi abi \<longleftrightarrow> (\<exists>v. ave_cmd_abi_get v = Some abi)"
proof
  assume "known_abi abi"
  then have "ave_cmd_abi_get AVE_ABI_MACOS_13_5 = Some abi \<or> ave_cmd_abi_get AVE_ABI_MACOS_26_6 = Some abi"
    by (auto simp: known_abi_def ave_cmd_abi_get_def)
  then show "\<exists>v. ave_cmd_abi_get v = Some abi" by blast
next
  assume "\<exists>v. ave_cmd_abi_get v = Some abi"
  then obtain v where "ave_cmd_abi_get v = Some abi" by blast
  then show "known_abi abi" by (cases v) (simp_all add: known_abi_def ave_cmd_abi_get_def)
qed

lemma header_in: "known_abi abi \<Longrightarrow> wr_in 0 64 (cmd_header abi op ctx sn)"
  by (auto simp: known_abi_def cmd_header_def Let_def hdr_13_5_fields hdr_26_6_fields)

lemma begin_ok:
  assumes "known_abi abi" "\<not> cmd_refused abi op (length buf) ctx sn"
  obtains w where "ave_cmd_begin abi op buf ctx sn = Inr w" "cmd_open abi op buf w" "wr_err w = None"
proof -
  let ?sn = "if cd_slot (ab_cmd abi op) \<noteq> AVE_SLOT_CALLER then cd_slot (ab_cmd abi op) else sn"
  let ?f = "cmd_fresh (ave_cmd_size abi op) buf"
  have len: "64 \<le> ave_cmd_size abi op" "ave_cmd_size abi op \<le> length buf"
    using refused_len [OF assms(2)] by (simp_all add: AVE_CMD_HDR_SIZE_def)
  have "wr_fits (wr_size ?f) (cmd_header abi op ctx ?sn)"
    using len by (auto intro!: wr_in_fits [OF header_in [OF assms(1)]] simp: cmd_fresh_def)
  moreover have "wr_wf ?f" "wr_err ?f = None" using len by (simp_all add: cmd_fresh_def wr_wf_def)
  ultimately have "wr_err (wr_run (cmd_header abi op ctx ?sn) ?f) = None" by (simp add: wr_run_fits)
  then have "ave_cmd_begin abi op buf ctx sn = Inr (wr_run (cmd_header abi op ctx ?sn) ?f)"
    using begin_unfold [OF assms(2)] by (simp add: Let_def)
  then show ?thesis using begin_Inr that by blast
qed

section \<open>A built command\<close>

text \<open>The builder answers with the size of the command, behind the header that the header-only
  command of the same operation has.\<close>

definition cmd_built ::
  "ave_cmd_abi \<Rightarrow> ave_op \<Rightarrow> u8 list \<Rightarrow> ave_cmd_ctx \<Rightarrow> u32 \<Rightarrow> cmd_result \<Rightarrow> bool" where
  "cmd_built abi op buf ctx sn res \<longleftrightarrow>
     fst res = Inr (ave_cmd_size abi op)
   \<and> take 64 (snd res) = take 64 (snd (ave_cmd_build_hdr abi op buf ctx sn))"

lemma run_take: "wr_wf w \<Longrightarrow> wr_apart 0 n ops \<Longrightarrow> n \<le> length (wr_buf w) \<Longrightarrow>
    take n (wr_buf (wr_run ops w)) = take n (wr_buf w)"
  using wr_run_apart [of w 0 "take n (wr_buf w)" ops]
  by (simp add: at_def peek_def wr_run_length)

lemma end_Inr: "wr_err w = None \<Longrightarrow> ave_cmd_end w = (Inr (wr_size w), wr_buf w)"
  by (simp add: ave_cmd_end_def)

lemma built_run:
  assumes "known_abi abi" "\<not> cmd_refused abi op (length buf) ctx sn"
    and "ave_cmd_begin abi op buf ctx sn = Inr w"
    and "wr_in 64 (ave_cmd_size abi op) ops"
  shows "wr_err (wr_run ops w) = None \<and> cmd_open abi op buf (wr_run ops w)
    \<and> cmd_built abi op buf ctx sn (ave_cmd_end (wr_run ops w))"
proof -
  have w: "cmd_open abi op buf w" "wr_err w = None" using assms(3) begin_Inr by blast+
  have len: "64 \<le> ave_cmd_size abi op" "ave_cmd_size abi op \<le> length buf"
    using refused_len [OF assms(2)] by (simp_all add: AVE_CMD_HDR_SIZE_def)
  have err: "wr_err (wr_run ops w) = None"
    using w by (auto intro!: wr_run_fits wr_in_fits [OF assms(4)] simp: cmd_open_def)
  moreover have run: "cmd_open abi op buf (wr_run ops w)" using w(1) by (rule cmd_open_run)
  moreover have "take 64 (wr_buf (wr_run ops w)) = take 64 (wr_buf w)"
    using w len wr_in_apart [OF assms(4), of 0 64] by (auto intro!: run_take simp: cmd_open_def)
  ultimately show ?thesis
    using assms(3) w by (simp add: end_Inr cmd_built_def cmd_open_def ave_cmd_build_hdr_def cmd_with_def)
qed

lemma cmd_with_built:
  assumes "known_abi abi" "\<not> cmd_refused abi op (length buf) ctx sn" "wr_in 64 (ave_cmd_size abi op) ops"
  shows "cmd_built abi op buf ctx sn (cmd_with abi op buf ctx sn ops)"
  by (rule begin_ok [OF assms(1,2)]) (use built_run [OF assms(1,2) _ assms(3)] in \<open>simp add: cmd_with_def\<close>)

section \<open>Offsets of table entries\<close>

lemma unat_entry':
  "unat a + unat b * i < 2 ^ 32 \<Longrightarrow> i < 2 ^ 32 \<Longrightarrow> unat (a + b * of_nat i :: u32) = unat a + unat b * i"
  using unat_entry [of a i b] by (simp add: ac_simps)

lemma unat_entry_w:
  "unat a + unat b * unat i < 2 ^ 32 \<Longrightarrow> unat (a + b * i :: u32) = unat a + unat b * unat i"
  using unat_entry' [of a b "unat i"] unat_u32_bound [of i] by simp

lemma unat_entries:
  assumes "unat a + unat b * i < 2 ^ 32" "i < 2 ^ 32"
  shows "unat (a + b * of_nat i :: u32) = unat a + unat b * i"
    "unat (a + of_nat i * b :: u32) = unat a + unat b * i"
    "unat (b * of_nat i + a :: u32) = unat a + unat b * i"
    "unat (of_nat i * b + a :: u32) = unat a + unat b * i"
  using unat_entry' [OF assms] by (simp_all add: ac_simps)

lemma unat_entries2:
  assumes "unat a + unat b * i + unat c * j < 2 ^ 32" "i < 2 ^ 32" "j < 2 ^ 32"
  shows "unat (a + of_nat i * b + of_nat j * c :: u32) = unat a + unat b * i + unat c * j"
proof -
  have "unat (a + of_nat i * b :: u32) = unat a + unat b * i" using assms by (intro unat_entries) simp_all
  then show ?thesis using assms unat_entries(2) [of "a + of_nat i * b" c j] by simp
qed

section \<open>The shared half\<close>

text \<open>The lambda block: 52 words in each of two tables, and a record of 9 words for each of the 29
  distinct values.\<close>

lemma lambda_rec_in:
  assumes "lo \<le> unat e" "unat e + 36 \<le> hi" "hi \<le> 0x40000"
  shows "wr_in lo hi (wr_for 8 (\<lambda>j. wr32 (e + 4 * (j + 1)) v))"
proof -
  have "unat (e + 4 * (of_nat j + 1)) = unat e + 4 * Suc j" if "j < 8" for j
  proof -
    have "of_nat j + 1 = (of_nat (Suc j) :: u32)" by simp
    then show ?thesis using that assms unat_entry' [of e 4 "Suc j"] by (simp del: of_nat_Suc)
  qed
  then show ?thesis using assms by (auto simp: wr_in_for simp del: distrib_left_numeral)
qed

lemma lambda_loop_in:
  assumes "lo \<le> unat (sa_lambda_qp_tab l)" "unat (sa_lambda_qp_tab l) + 208 \<le> hi"
    and "lo \<le> unat (sa_lambda_idx_tab l)" "unat (sa_lambda_idx_tab l) + 208 \<le> hi"
    and "lo \<le> unat (sa_lambda_rec_tab l)" "unat (sa_lambda_rec_tab l) + 1044 \<le> hi" "hi \<le> 0x40000"
  shows "unat q + length vs \<le> 52 \<Longrightarrow> unat idx + length (remdups_adj (p # vs)) \<le> 29 \<Longrightarrow>
    wr_in lo hi (lambda_loop l (Some p) idx q vs)"
proof (induction vs arbitrary: p idx q)
  case (Cons v vs)
  have q: "unat (t + 4 * q) = unat t + 4 * unat q" if "unat t + 208 \<le> hi" for t :: u32
    using that Cons.prems(1) assms(7) by (subst unat_entry_w) simp_all
  let ?i = "if p \<noteq> v then idx + 1 else idx"
  have i: "unat ?i + length (remdups_adj (v # vs)) \<le> 29"
    using Cons.prems(2) by (auto simp: unat_word_ariths intro: le_trans [OF add_right_mono])
  have "length (remdups_adj (v # vs)) \<ge> 1" by (simp add: Suc_le_eq)
  then have i28: "unat ?i \<le> 28" using i by linarith
  have r: "unat (sa_lambda_rec_tab l + 36 * ?i) = unat (sa_lambda_rec_tab l) + 36 * unat ?i"
    using i28 assms(6,7) by (subst unat_entry_w) simp_all
  have "wr_in lo hi (lambda_loop l (Some v) ?i (q + 1) vs)"
    using Cons.prems(1) i by (intro Cons.IH) (auto simp: unat_word_ariths)
  moreover have "wr_in lo hi (wr_for 8 (\<lambda>j. wr32 (sa_lambda_rec_tab l + 36 * ?i + 4 * (j + 1)) (16 * v)))"
    using r i28 assms(5-7) by (intro lambda_rec_in) simp_all
  ultimately show ?case
    using assms i28 r q Cons.prems(1)
    by (simp only: lambda_loop.simps Let_def wr_in_simps option.inject not_Cons_self) auto
qed simp

lemma lambda_table_in:
  assumes "lo \<le> unat (sa_lambda_qp_tab l)" "unat (sa_lambda_qp_tab l) + 208 \<le> hi"
    and "lo \<le> unat (sa_lambda_idx_tab l)" "unat (sa_lambda_idx_tab l) + 208 \<le> hi"
    and "lo \<le> unat (sa_lambda_rec_tab l)" "unat (sa_lambda_rec_tab l) + 1044 \<le> hi" "hi \<le> 0x40000"
  shows "wr_in lo hi (lambda_loop l None 0 0 lambda_table)"
proof -
  have t: "lambda_table = 1 # tl lambda_table" "length (remdups_adj (1 # tl lambda_table)) = 29"
    "length (tl lambda_table) = 51" by (simp_all add: lambda_table_def)
  have "wr_in lo hi (lambda_loop l (Some 1) 0 1 (tl lambda_table))"
    using t by (intro lambda_loop_in [OF assms]) simp_all
  moreover have "wr_in lo hi (wr_for 8 (\<lambda>j. wr32 (sa_lambda_rec_tab l + 4 * (j + 1)) 16))"
    using assms(5-7) by (intro lambda_rec_in) simp_all
  ultimately show ?thesis
    using assms by (subst t) (simp add: Let_def del: distrib_left_numeral)
qed

text \<open>The entry counts that passed the checks.\<close>

lemma vp_check_bounds:
  assumes "ave_vp_check l s align = None"
  shows "s_n_recon s \<le> sa_recon_max l" "s_n_coded s \<le> sa_coded_max l"
    "s_n_entropy s \<le> sa_entropy_max l" "s_n_entropy s \<noteq> 0 \<Longrightarrow> or1 (s_n_entropy_cols s) \<le> or1 (sa_entropy_cols_max l)"
    "s_n_colocated s \<le> sa_colocated_max l" "s_n_low_res_ref s \<le> sa_low_res_ref_max l"
    "s_n_low_res_result s \<le> sa_low_res_result_max l" "s_n_src_nbr s \<le> sa_src_nbr_max l"
proof -
  have p: "\<not> vp_bad_recon l s" "\<not> vp_bad_fields l s" "\<not> vp_bad_buffers l s align"
    using assms by (simp_all add: ave_vp_check_def split: if_splits)
  show "s_n_recon s \<le> sa_recon_max l" "s_n_coded s \<le> sa_coded_max l"
    using p(1) by (simp_all add: not_less vp_bad_recon_def)
  show "s_n_low_res_result s \<le> sa_low_res_result_max l"
    using p(2) by (cases "s_n_low_res_result s = 0") (simp_all add: not_less vp_bad_fields_def)
  show "s_n_entropy s \<le> sa_entropy_max l"
    using p(3) by (cases "s_n_entropy s = 0") (simp_all add: not_less vp_bad_buffers_def bad_entropy_def)
  show "s_n_entropy s \<noteq> 0 \<Longrightarrow> or1 (s_n_entropy_cols s) \<le> or1 (sa_entropy_cols_max l)"
    using p(3) by (simp add: not_less vp_bad_buffers_def bad_entropy_def)
  show "s_n_colocated s \<le> sa_colocated_max l"
    using p(3) by (cases "s_n_colocated s = 0") (simp_all add: not_less vp_bad_buffers_def bad_per_slot_def)
  show "s_n_low_res_ref s \<le> sa_low_res_ref_max l"
    using p(3) by (cases "s_n_low_res_ref s = 0") (simp_all add: not_less vp_bad_buffers_def bad_per_slot_def)
  show "s_n_src_nbr s \<le> sa_src_nbr_max l"
    using p(3) by (cases "s_n_src_nbr s = 0") (simp_all add: not_less vp_bad_buffers_def bad_src_nbr_def)
qed

end
