(* ===== verification/Ave_Cmd_Built_Avc.thy ===== *)
theory Ave_Cmd_Built_Avc
  imports Ave_Cmd_Built
begin

text \<open>
  \<open>AVC_INIT\<close> on both interfaces: every session that passes the checks is built, every write lands
  inside the command behind its header, and the tables the firmware reads its surfaces from hold
  what the session said.
\<close>

section \<open>Where the writes of macOS 13.5 land\<close>

text \<open>The lambda block, and all of the shared half but the parameters (whose \<open>sSVEMap\<close> word the caller
  places).\<close>

lemma vp_lambda_in_13_5: "wr_in 0xff98 0x10574 (vp_fill_lambda start_avc_13_5 s)"
  using lambda_table_in [of "0xff98" start_avc_13_5 "0x10574"]
  by (simp add: vp_fill_lambda_def wr_in_for start_avc_13_5_fields unat_entries)

lemma vp_rest_in_13_5:
  assumes "ave_vp_check start_avc_13_5 s align = None"
  shows "wr_in 64 0x10574 (vp_fill_modes start_avc_13_5 s @ vp_fill_lambda start_avc_13_5 s
    @ vp_fill_buffers start_avc_13_5 s)"
proof -
  note b = vp_check_bounds [OF assms, unfolded start_avc_13_5_fields word_le_nat_alt]
  have "wr_in 64 0x10574 (vp_fill_modes start_avc_13_5 s)" "wr_in 64 0x10574 (vp_fill_lambda start_avc_13_5 s)"
    using wr_in_mono [OF vp_lambda_in_13_5] by (simp_all add: vp_fill_modes_def start_avc_13_5_fields)
  moreover have "wr_in 64 0x10574 (wr_for (s_n_recon s) (recon_entry start_avc_13_5 s))"
    "wr_in 64 0x10574 (wr_for (s_n_coded s) (coded_entry start_avc_13_5 s))"
    using b(1,2)
    by (simp_all add: wr_in_for recon_entry_def coded_entry_def Let_def start_avc_13_5_fields layout_consts unat_entries)
  moreover have "wr_in 64 0x10574 (wr_for (s_n_entropy s) (\<lambda>i. wr_for (or1 (s_n_entropy_cols s)) (entropy_entry start_avc_13_5 s i)))"
    using b(3,4)
    by (cases "s_n_entropy s = 0")
      (simp_all add: wr_in_for entropy_entry_def start_avc_13_5_fields layout_consts unat_entries2 or1_def)
  moreover have "wr_in 64 0x10574 (src_nbr_writes (sa_src_nbr_set start_avc_13_5) 0 (s_n_src_nbr s) (s_src_nbr s))"
    using b(8)
    by (simp add: wr_in_for wr_in_concat src_nbr_writes_def start_avc_13_5_fields unat_entries
        AVE_SRC_NBR_GROUPS_def upt_rec)
  ultimately show ?thesis
    using b(5-7) by (simp add: vp_fill_buffers_def wr_in_for start_avc_13_5_fields unat_entries)
qed

lemma vp_fill_in_13_5:
  assumes "ave_vp_check start_avc_13_5 s align = None" "64 \<le> unat sve" "unat sve + 4 \<le> hi" "0x10574 \<le> hi"
  shows "wr_in 64 hi (ave_vp_fill start_avc_13_5 s sve)"
proof -
  have "wr_in 64 hi (vp_fill_params start_avc_13_5 s sve)"
    using assms(2-4) by (simp add: vp_fill_params_def start_avc_13_5_fields layout_consts)
  then show ?thesis
    using wr_in_mono [OF vp_rest_in_13_5 [OF assms(1)] _ assms(4), of 64] by (simp add: ave_vp_fill_def)
qed

lemma macos_in: "list_all (\<lambda>p. (mp_width p = 1 \<or> mp_width p = 2 \<or> mp_width p = 4) \<and> lo \<le> unat (mp_off p) \<and> unat (mp_off p) + 4 \<le> hi) ps
    \<Longrightarrow> wr_in lo hi (ave_macos_apply ps g)"
  by (auto simp: ave_macos_apply_def macos_patch_def wr_in_concat list_all_iff)

lemma macos_start_in_13_5: "wr_in 64 0x10e10 (ave_macos_apply macos_start_avc_13_5 g)"
  by (rule macos_in) (simp add: macos_start_avc_13_5_def)

lemma avc_sps_in_13_5: "wr_in 64 0x10e10 (avc_sps sps_13_5 s prof lvl)"
  by (simp add: avc_sps_def Let_def sps_13_5_fields layout_consts wr_in_for unat_entries)

lemma avc_macos_in_13_5:
  assumes "\<not> avc_bad_macos ave_cmd_abi_13_5 s"
  shows "wr_in 64 0x10e10 (avc_macos ave_cmd_abi_13_5 s)"
proof -
  have "unat (s_n_transcoded s) \<le> 2"
    using assms by (cases "s_n_transcoded s = 0") (simp_all add: avc_bad_macos_def Let_def start_avc_13_5_fields)
  then show ?thesis
    using macos_start_in_13_5
    by (simp add: avc_macos_def Let_def wr_in_for start_avc_13_5_fields sps_13_5_fields unat_entries)
qed

lemma avc_writes_in_13_5:
  assumes "\<not> avc_refused ave_cmd_abi_13_5 s"
  shows "wr_in 64 0x10e10 (avc_writes ave_cmd_abi_13_5 s)"
proof -
  have "ave_vp_check start_avc_13_5 s AVE_STRIDE_ALIGN = None" "\<not> avc_bad_macos ave_cmd_abi_13_5 s"
    using assms by (simp_all add: avc_refused_def)
  then have "wr_in 64 0x10e10 (ave_vp_fill start_avc_13_5 s (sa_sve_num start_avc_13_5))"
    "wr_in 64 0x10e10 (avc_macos ave_cmd_abi_13_5 s)"
    by (auto intro: vp_fill_in_13_5 avc_macos_in_13_5 simp: start_avc_13_5_fields)
  moreover have "wr_in 64 0x10e10 (avc_modes start_avc_13_5 s)" "wr_in 64 0x10e10 (avc_pps pps_13_5 s)"
    by (simp_all add: avc_modes_def avc_pps_def start_avc_13_5_fields pps_13_5_fields)
  ultimately show ?thesis by (simp add: avc_writes_def avc_sps_in_13_5)
qed

section \<open>Where the writes of macOS 26.6 land\<close>

text \<open>The fields 26.6 has no offset for stay unset: the checks refuse them.\<close>

lemma vp_absent_26_6:
  assumes "ave_vp_check start_avc_26_6 s align = None"
  shows "s_src_mode s = 0" "s_src_cfg_byte s = 0" "s_src_go_bit3 s = 0" "s_multi_me s = 0" "s_mp_pass s = 0"
    "s_src_go_bits s = 0" "s_dbg_bits s = 0" "s_ipcm_islice s = 0" "\<not> s_lambda_block s" "s_skip_mode s = 0"
    "\<not> s_need_lsb_planes s"
proof -
  have "\<not> vp_bad_fields start_avc_26_6 s" "\<not> vp_bad_recon start_avc_26_6 s"
    using assms by (simp_all add: ave_vp_check_def split: if_splits)
  then show "s_src_mode s = 0" "s_src_cfg_byte s = 0" "s_src_go_bit3 s = 0" "s_multi_me s = 0" "s_mp_pass s = 0"
    "s_src_go_bits s = 0" "s_dbg_bits s = 0" "s_ipcm_islice s = 0" "\<not> s_lambda_block s" "s_skip_mode s = 0"
    "\<not> s_need_lsb_planes s"
    by (simp_all add: vp_bad_fields_def vp_bad_recon_def start_avc_26_6_fields layout_consts)
qed

lemma vp_fill_in_26_6:
  assumes "ave_vp_check start_avc_26_6 s align = None"
  shows "wr_in 64 0x3180 (ave_vp_fill start_avc_26_6 s 0)"
proof -
  note b = vp_check_bounds [OF assms, unfolded start_avc_26_6_fields word_le_nat_alt]
  note z = vp_absent_26_6 [OF assms]
  have "wr_in 64 0x3180 (vp_fill_params start_avc_26_6 s 0)"
    by (simp add: vp_fill_params_def start_avc_26_6_fields layout_consts)
  moreover have "wr_in 64 0x3180 (wr_for (s_n_recon s) (recon_entry start_avc_26_6 s))"
    "wr_in 64 0x3180 (wr_for (s_n_coded s) (coded_entry start_avc_26_6 s))"
    using b(1,2) z
    by (simp_all add: wr_in_for recon_entry_def coded_entry_def Let_def start_avc_26_6_fields layout_consts unat_entries)
  ultimately show ?thesis
    using b(3,5-8) z
    by (simp add: ave_vp_fill_def vp_fill_modes_def vp_fill_lambda_def vp_fill_buffers_def src_nbr_writes_def
        wr_in_for start_avc_26_6_fields)
qed

lemma avc_writes_in_26_6:
  assumes "\<not> avc_refused ave_cmd_abi_26_6 s"
  shows "wr_in 64 0x3180 (avc_writes ave_cmd_abi_26_6 s)"
proof -
  have p: "ave_vp_check start_avc_26_6 s AVE_STRIDE_ALIGN = None" "\<not> avc_bad_params ave_cmd_abi_26_6 s"
    "\<not> avc_bad_macos ave_cmd_abi_26_6 s"
    using assms by (simp_all add: avc_refused_def)
  have "s_ref_spacing_p s = 0" "s_search_range s = 0" "s_max_mvs_per_2mb s = 0" "s_bframes s = 0"
    "s_scaling_flat s = 0" "\<not> s_poc_type0 s"
    using p(2) by (simp_all add: avc_bad_params_def Let_def start_avc_26_6_fields sps_26_6_fields layout_consts)
  moreover have "s_macos s = 0" "s_n_transcoded s = 0"
    using p(3) by (simp_all add: avc_bad_macos_def Let_def start_avc_26_6_fields layout_consts)
  moreover have "wr_in 64 0x3180 (ave_vp_fill start_avc_26_6 s (sa_sve_num start_avc_26_6))"
    using vp_fill_in_26_6 [OF p(1)] by (simp add: start_avc_26_6_fields)
  ultimately show ?thesis
    by (simp add: avc_writes_def avc_modes_def avc_sps_def avc_pps_def avc_macos_def in_group_def ave_macos_apply_def
        Let_def start_avc_26_6_fields sps_26_6_fields pps_26_6_fields layout_consts)
qed

section \<open>Every accepted session is built\<close>

text \<open>C24. An AVC session that passes the checks of the builder, with a buffer and a client that pass those
  of the header, is built, on both firmware interfaces: the answer is the size of the command (never
  the error of a table that points outside it), and the header in front is the one the header-only
  command has. The checks are what keeps a field the interface lacks (offset 0) from being written
  over the header.\<close>

theorem avc_init_built:
  assumes "known_abi abi" "\<not> cmd_refused abi AVE_OP_START_AVC (length buf) ctx 0" "\<not> avc_refused abi s"
  shows "cmd_built abi AVE_OP_START_AVC buf ctx 0 (ave_cmd_build_start_avc abi buf ctx s)"
proof -
  have "wr_in 64 (ave_cmd_size abi AVE_OP_START_AVC) (avc_writes abi s)"
    using assms(1,3) avc_writes_in_13_5 avc_writes_in_26_6
    by (auto simp: known_abi_def ave_cmd_size_def cmd_13_5_def cmd_26_6_def cmd_ids layout_consts)
  then show ?thesis
    using assms by (simp add: ave_cmd_build_start_avc_def cmd_with_built)
qed

section \<open>An example\<close>

definition example_ctx :: ave_cmd_ctx where
  "example_ctx = \<lparr>cx_count = 1, cx_client_id = 7, cx_timeout = (\<lambda>_. 0), cx_hevc = False\<rparr>"

text \<open>640 by 360, two DPB slots, one coded buffer.\<close>

definition example_session :: ave_avc_session where
  "example_session =
     \<lparr>s_width = 640, s_height = 360, s_crop_width = 0, s_crop_height = 0, s_frame_rate = 30, s_bitrate = 0,
      s_qp_i = 26, s_qp_p = 28, s_qp_b = 30, s_qp_min = 0, s_qp_max = 0, s_rc_enable = False,
      s_frame_rate_div = 1, s_key_interval = 30, s_profile_idc = 77, s_level_idc = 31, s_cabac = True,
      s_poc_type0 = False, s_max_refs = 1, s_ref_spacing_p = 0, s_search_range = 0, s_max_mvs_per_2mb = 0,
      s_bframes = 0, s_macos = 0, s_transcoded = (\<lambda>_. 0), s_n_transcoded = 0, s_transcoded_size = 0,
      s_fw_client_addr = 0x1000, s_fw_client_size = 0x100, s_fw_client_mem_addr = 0x2000,
      s_fw_client_mem_size = 0x100, s_need_lsb_planes = True, s_src_mode = 0, s_src_cfg_byte = 0,
      s_src_go_bit3 = 0, s_multi_me = 0, s_mp_pass = 0, s_mp_const_qp = 0, s_mp_qpmod = 0,
      s_mp_max_qpmod = 0, s_mp_options = 0, s_src_go_bits = 0, s_dbg_bits = 0, s_ipcm_islice = 0,
      s_lambda_block = True, s_scaling_flat = 16, s_skip_mode = 0, s_param_sets_addr = 0x3000,
      s_param_sets_size = 0x100,
      s_recon = Some (\<lambda>i. \<lparr>rb_addr = 0x10000, rb_luma_size = 0, rb_lsb_addr = 0x20000\<rparr>), s_n_recon = 2,
      s_low_res_ref = (\<lambda>_. 0), s_n_low_res_ref = 0, s_low_res_result = (\<lambda>_. 0), s_n_low_res_result = 0,
      s_colocated = (\<lambda>_. 0), s_n_colocated = 0,
      s_entropy = (\<lambda>i j. 0x30000), s_n_entropy = 1, s_n_entropy_cols = 1, s_entropy_size = 0x400,
      s_coded = Some (\<lambda>i. \<lparr>bf_addr = 0x40000, bf_size = 0x8000\<rparr>),
      s_coded_hdr = Some (\<lambda>i. \<lparr>bf_addr = 0x50000, bf_size = 0x23000\<rparr>), s_n_coded = 1,
      s_src_nbr = (\<lambda>_ _. 0), s_n_src_nbr = 0\<rparr>"

lemma example_accepted:
  "\<not> cmd_refused ave_cmd_abi_13_5 AVE_OP_START_AVC (length (replicate 0x10e10 (0 :: u8))) example_ctx 0"
  "\<not> avc_refused ave_cmd_abi_13_5 example_session"
  by (simp_all add: cmd_refused_def cmd_13_5_def hdr_13_5_fields cmd_ids layout_consts abi_consts example_ctx_def
      avc_refused_def ave_vp_check_def vp_bad_params_def vp_bad_recon_def vp_bad_fields_def vp_bad_buffers_def
      avc_bad_params_def avc_bad_macos_def ave_macos_check_def bad_entropy_def bad_src_nbr_def bad_per_slot_def
      any_below_def bad_addr_def or1_def ave_avc_profile_enum_def ave_avc_level_enum_def avc_levels_def avc_limits
      start_avc_13_5_fields sps_13_5_fields example_session_def upt_rec Let_def)

lemma avc_init_built_witness:
  "cmd_built ave_cmd_abi_13_5 AVE_OP_START_AVC (replicate 0x10e10 0) example_ctx 0
     (ave_cmd_build_start_avc ave_cmd_abi_13_5 (replicate 0x10e10 0) example_ctx example_session)"
  by (rule avc_init_built [OF _ example_accepted]) (simp add: known_abi_def)

end
