(* ===== verification/Ave_Cmd_Tables.thy ===== *)
theory Ave_Cmd_Tables
  imports Ave_Cmd_Built_Avc
begin

text \<open>
  Reading a finished \<open>AVC_INIT\<close> of macOS 13.5 back: what a table entry, or a field of the parameter
  sets, holds behind every later write.

  \<^item> \<open>run_entry_at\<close>: an entry of a table keeps its bytes if the later entries and the later
    writes stay apart from it; \<open>run_keeps_at\<close>: a field, if every other write of it writes the same.
  \<^item> \<open>vp_run_published\<close>: the tables of the half both codecs share; \<open>avc_transcoded_at\<close>: the one only
    AVC has; \<open>sps_field_at\<close>: the picture size.
\<close>

section \<open>Reading back a finished command\<close>

lemma wr_apart_sub: "wr_apart a k ops \<Longrightarrow> a \<le> a' \<Longrightarrow> a' + k' \<le> a + k \<Longrightarrow> wr_apart a' k' ops"
proof -
  have "wr_op_apart a k x \<Longrightarrow> a \<le> a' \<Longrightarrow> a' + k' \<le> a + k \<Longrightarrow> wr_op_apart a' k' x" for x by (cases x) auto
  then show "wr_apart a k ops \<Longrightarrow> a \<le> a' \<Longrightarrow> a' + k' \<le> a + k \<Longrightarrow> wr_apart a' k' ops"
    by (auto simp: wr_apart_def list_all_iff)
qed

lemma wr_for_split: "i < unat n \<Longrightarrow>
    wr_for n f = concat (map (\<lambda>i. f (of_nat i)) [0..<i]) @ f (of_nat i) @ concat (map (\<lambda>i. f (of_nat i)) [Suc i..<unat n])"
proof -
  assume i: "i < unat n"
  then have "[0..<unat n] = [0..<i] @ i # [Suc i..<unat n]"
    using upt_append_eq [of 0 i "unat n"] by (simp add: upt_conv_Cons)
  then show ?thesis by (simp add: wr_for_def)
qed

lemma run_entry_at:
  assumes "wr_wf w" "wr_err (wr_run (xs @ wr_for n f @ ys) w) = None"
    and "i < unat n" "f (of_nat i) = pre @ WrBytes off bs # post"
    and "wr_apart (unat off) (length bs) post" "wr_apart A K ys"
    and "\<And>j. i < j \<Longrightarrow> j < unat n \<Longrightarrow> wr_apart A K (f (of_nat j))"
    and "A \<le> unat off" "unat off + length bs \<le> A + K"
  shows "at (wr_buf (wr_run (xs @ wr_for n f @ ys) w)) (unat off) bs"
proof -
  let ?pre = "xs @ concat (map (\<lambda>i. f (of_nat i)) [0..<i]) @ pre"
  let ?post = "post @ concat (map (\<lambda>i. f (of_nat i)) [Suc i..<unat n]) @ ys"
  have "wr_apart A K (concat (map (\<lambda>i. f (of_nat i)) [Suc i..<unat n]) @ ys)"
    using assms(6,7) by (auto simp: wr_apart_concat Suc_le_eq)
  then have "wr_apart (unat off) (length bs) ?post"
    using assms(5) wr_apart_sub [OF _ assms(8,9)] by simp
  moreover have "xs @ wr_for n f @ ys = ?pre @ WrBytes off bs # ?post"
    using assms(3,4) by (simp add: wr_for_split)
  ultimately show ?thesis using wr_written [of w ?pre off bs ?post] assms(1,2) by simp
qed

text \<open>Every write of \<open>off\<close> is the write of \<open>bs\<close>.\<close>

definition wr_keeps :: "u32 \<Rightarrow> u8 list \<Rightarrow> ave_wr_op list \<Rightarrow> bool" where
  "wr_keeps off bs ops \<longleftrightarrow> list_all (\<lambda>x. x = WrBytes off bs \<or> wr_op_apart (unat off) (length bs) x) ops"

lemma wr_keeps_simps [simp]:
  "wr_keeps off bs []"
  "wr_keeps off bs (x # xs) \<longleftrightarrow> (x = WrBytes off bs \<or> wr_op_apart (unat off) (length bs) x) \<and> wr_keeps off bs xs"
  "wr_keeps off bs (xs @ ys) \<longleftrightarrow> wr_keeps off bs xs \<and> wr_keeps off bs ys"
  "wr_keeps off bs (wr_if c xs) \<longleftrightarrow> (c \<longrightarrow> wr_keeps off bs xs)"
  "wr_keeps off bs (wr8 p v8) \<longleftrightarrow> p = off \<and> bs = [v8] \<or> wr_apart (unat off) (length bs) (wr8 p v8)"
  "wr_keeps off bs (wr16 p v16) \<longleftrightarrow> p = off \<and> bs = put_le16 v16 \<or> wr_apart (unat off) (length bs) (wr16 p v16)"
  "wr_keeps off bs (wr32 p v32) \<longleftrightarrow> p = off \<and> bs = put_le32 v32 \<or> wr_apart (unat off) (length bs) (wr32 p v32)"
  "wr_keeps off bs (wr64 p v64) \<longleftrightarrow> p = off \<and> bs = put_le64 v64 \<or> wr_apart (unat off) (length bs) (wr64 p v64)"
  by (auto simp: wr_keeps_def wr_defs wr_if_def)

lemma wr_apart_keeps: "wr_apart (unat off) (length bs) ops \<Longrightarrow> wr_keeps off bs ops"
  by (auto simp: wr_keeps_def wr_apart_def list_all_iff)

lemma run_keeps_at:
  assumes "wr_wf w" "wr_err (wr_run ops w) = None" "WrBytes off bs \<in> set ops" "wr_keeps off bs ops"
  shows "at (wr_buf (wr_run ops w)) (unat off) bs"
proof -
  obtain us vs where ops: "ops = us @ WrBytes off bs # vs" "WrBytes off bs \<notin> set vs"
    using assms(3) by (metis split_list_last)
  have "wr_apart (unat off) (length bs) vs"
    using assms(4) ops(2) unfolding ops(1) wr_keeps_def wr_apart_def list_all_iff
    by (metis Un_iff insert_iff list.simps(15) set_append)
  then show ?thesis using wr_written [of w us off bs vs] assms(1,2) ops(1) by simp
qed

lemma wr_in_set [simp]:
  "x \<in> set (wr_if c ops) \<longleftrightarrow> c \<and> x \<in> set ops"
  "x \<in> set (wr8 p v8) \<longleftrightarrow> x = WrBytes p [v8]" "x \<in> set (wr16 p v16) \<longleftrightarrow> x = WrBytes p (put_le16 v16)"
  "x \<in> set (wr32 p v32) \<longleftrightarrow> x = WrBytes p (put_le32 v32)" "x \<in> set (wr64 p v64) \<longleftrightarrow> x = WrBytes p (put_le64 v64)"
  by (auto simp: wr_if_def wr_defs)

text \<open>What the parameter sets and the modes write behind the tables.\<close>

lemma macos_apart: "list_all (\<lambda>p. unat (mp_off p) + 4 \<le> a \<or> a + k \<le> unat (mp_off p)) ps
    \<Longrightarrow> wr_apart a k (ave_macos_apply ps g)"
  by (auto simp: ave_macos_apply_def macos_patch_def wr_apart_concat list_all_iff)

lemma avc_tail_apart_13_5:
  assumes "\<not> avc_bad_macos ave_cmd_abi_13_5 s"
    and "(a, k) \<in> {(0x80, 0x528), (0x5c0, 0x240), (0xf6b0, 0x480), (0xfed0, 0x20)}"
  shows "wr_apart a k (avc_modes start_avc_13_5 s @ avc_sps sps_13_5 s prof lvl @ avc_pps pps_13_5 s
    @ avc_macos ave_cmd_abi_13_5 s)"
proof -
  have t: "unat (s_n_transcoded s) \<le> 2"
    using assms(1) by (cases "s_n_transcoded s = 0") (simp_all add: avc_bad_macos_def Let_def start_avc_13_5_fields)
  have "wr_apart a k (ave_macos_apply macos_start_avc_13_5 (s_macos s))"
    using assms(2) by (intro macos_apart) (auto simp: macos_start_avc_13_5_def)
  moreover have "wr_apart a k (avc_modes start_avc_13_5 s)" "wr_apart a k (avc_sps sps_13_5 s prof lvl)"
    "wr_apart a k (avc_pps pps_13_5 s)"
    using assms(2) by (auto simp: avc_modes_def avc_sps_def avc_pps_def Let_def start_avc_13_5_fields sps_13_5_fields
      pps_13_5_fields layout_consts wr_apart_for unat_entries)
  ultimately show ?thesis
    using assms(2) t
    by (auto simp: avc_macos_def Let_def start_avc_13_5_fields sps_13_5_fields wr_apart_for unat_entries)
qed

section \<open>The tables\<close>

text \<open>The window of each table of 13.5.\<close>

lemma vp_tables_in_13_5:
  assumes "ave_vp_check start_avc_13_5 s align = None"
  defines "l \<equiv> start_avc_13_5"
  shows "wr_in 0x88 0x188 (wr_for (s_n_recon s) (recon_entry l s))"
    "wr_in 0x2a8 0x330 (wr_for (s_n_low_res_ref s) (\<lambda>i. wr64 (sa_low_res_ref_set l + i * sa_low_res_ref_stride l) (s_low_res_ref s i)))"
    "wr_in 0x3b8 0x3d8 (wr_for (s_n_low_res_result s) (\<lambda>i. wr64 (sa_low_res_result_set l + i * sa_low_res_result_stride l) (s_low_res_result s i)))"
    "wr_in 0xf6b0 0xf738 (wr_for (s_n_colocated s) (\<lambda>i. wr64 (sa_colocated_set l + i * sa_colocated_stride l) (s_colocated s i)))"
    "wr_in 0xf830 0xfa70 (wr_for (s_n_entropy s) (\<lambda>i. wr_for (or1 (s_n_entropy_cols s)) (entropy_entry l s i)))"
    "wr_in 0x4b8 0x6b0 (wr_for (s_n_coded s) (coded_entry l s))"
    "wr_apart 0xf830 0x240 (src_nbr_writes (sa_src_nbr_set l) 0 (s_n_src_nbr s) (s_src_nbr s))"
    "wr_in 0xf7d0 0xfef0 (src_nbr_writes (sa_src_nbr_set l) 0 (s_n_src_nbr s) (s_src_nbr s))"
    "wr_apart 0xfa70 0x460 (src_nbr_writes (sa_src_nbr_set l) 0 (s_n_src_nbr s) (s_src_nbr s))"
proof -
  note b = vp_check_bounds [OF assms(1), unfolded start_avc_13_5_fields word_le_nat_alt]
  show "wr_in 0x88 0x188 (wr_for (s_n_recon s) (recon_entry l s))"
    "wr_in 0x4b8 0x6b0 (wr_for (s_n_coded s) (coded_entry l s))"
    using b(1,2)
    by (simp_all add: l_def wr_in_for recon_entry_def coded_entry_def Let_def start_avc_13_5_fields layout_consts unat_entries)
  show "wr_in 0x2a8 0x330 (wr_for (s_n_low_res_ref s) (\<lambda>i. wr64 (sa_low_res_ref_set l + i * sa_low_res_ref_stride l) (s_low_res_ref s i)))"
    "wr_in 0x3b8 0x3d8 (wr_for (s_n_low_res_result s) (\<lambda>i. wr64 (sa_low_res_result_set l + i * sa_low_res_result_stride l) (s_low_res_result s i)))"
    "wr_in 0xf6b0 0xf738 (wr_for (s_n_colocated s) (\<lambda>i. wr64 (sa_colocated_set l + i * sa_colocated_stride l) (s_colocated s i)))"
    using b(5-7) by (simp_all add: l_def wr_in_for start_avc_13_5_fields unat_entries)
  show "wr_in 0xf830 0xfa70 (wr_for (s_n_entropy s) (\<lambda>i. wr_for (or1 (s_n_entropy_cols s)) (entropy_entry l s i)))"
    using b(3,4)
    by (cases "s_n_entropy s = 0")
      (simp_all add: l_def wr_in_for entropy_entry_def start_avc_13_5_fields layout_consts unat_entries2 or1_def)
  show "wr_apart 0xf830 0x240 (src_nbr_writes (sa_src_nbr_set l) 0 (s_n_src_nbr s) (s_src_nbr s))"
    "wr_in 0xf7d0 0xfef0 (src_nbr_writes (sa_src_nbr_set l) 0 (s_n_src_nbr s) (s_src_nbr s))"
    "wr_apart 0xfa70 0x460 (src_nbr_writes (sa_src_nbr_set l) 0 (s_n_src_nbr s) (s_src_nbr s))"
    using b(8)
    by (simp_all add: l_def wr_apart_for wr_apart_concat wr_in_for wr_in_concat src_nbr_writes_def start_avc_13_5_fields
        unat_entries AVE_SRC_NBR_GROUPS_def upt_rec)
qed

text \<open>What the firmware reads its surfaces from, at the offsets of 13.5: the tables of the reconstruction
  slots and their LSB planes, the coded buffers and their headers with the sizes, the entropy buffers
  with their size, the low-resolution references and results, the colocated buffers and the four groups
  of neighbour rows.\<close>

definition vp_published :: "u8 list \<Rightarrow> ave_avc_session \<Rightarrow> bool" where
  "vp_published b s \<longleftrightarrow>
     (\<forall>i < unat (s_n_recon s).
        at b (0x88 + 16 * i) (put_le64 (rb_addr (the (s_recon s) (of_nat i))))
      \<and> (s_need_lsb_planes s \<longrightarrow> at b (0x90 + 16 * i) (put_le64 (rb_lsb_addr (the (s_recon s) (of_nat i))))))
    \<and> (\<forall>i < unat (s_n_coded s).
        at b (0x4b8 + 8 * i) (put_le64 (bf_addr (the (s_coded s) (of_nat i))))
      \<and> at b (0x558 + 4 * i) (put_le32 (bf_size (the (s_coded s) (of_nat i))))
      \<and> at b (0x5c0 + 8 * i) (put_le64 (bf_addr (the (s_coded_hdr s) (of_nat i))))
      \<and> at b (0x660 + 4 * i) (put_le32 (bf_size (the (s_coded_hdr s) (of_nat i)))))
    \<and> (\<forall>i < unat (s_n_entropy s). \<forall>j < unat (or1 (s_n_entropy_cols s)).
        at b (0xf830 + 0x20 * i + 8 * j) (put_le64 (s_entropy s (of_nat i) (of_nat j)))
      \<and> (s_entropy_size s \<noteq> 0 \<longrightarrow> at b (0xfa30 + 0x10 * i + 4 * j) (put_le32 (s_entropy_size s))))
    \<and> (\<forall>i < unat (s_n_low_res_ref s). at b (0x2a8 + 8 * i) (put_le64 (s_low_res_ref s (of_nat i))))
    \<and> (\<forall>i < unat (s_n_low_res_result s). at b (0x3b8 + 8 * i) (put_le64 (s_low_res_result s (of_nat i))))
    \<and> (\<forall>i < unat (s_n_colocated s). at b (0xf6b0 + 8 * i) (put_le64 (s_colocated s (of_nat i))))
    \<and> (\<forall>i < unat (s_n_src_nbr s). \<forall>g < AVE_SRC_NBR_GROUPS.
        at b ([0xf7d0, 0xf7f0, 0xf810, 0xfed0] ! g + 8 * i) (put_le64 (s_src_nbr s g (of_nat i))))"

abbreviation "entropy_table s \<equiv> wr_for (s_n_entropy s) (\<lambda>i. wr_for (or1 (s_n_entropy_cols s)) (entropy_entry start_avc_13_5 s i))"
abbreviation "src_nbr_table s \<equiv> src_nbr_writes (sa_src_nbr_set start_avc_13_5) 0 (s_n_src_nbr s) (s_src_nbr s)"

lemma vp_entry_at:
  assumes "wr_wf w" "wr_err (wr_run (p @ vp_fill_buffers start_avc_13_5 s @ q) w) = None"
    and "vp_fill_buffers start_avc_13_5 s = xs @ wr_for n f @ ys" "i < unat n" "f (of_nat i) = pre @ WrBytes off bs # post"
    and "wr_apart (unat off) (length bs) post" "wr_apart A K (ys @ q)"
    and "\<And>j. i < j \<Longrightarrow> j < unat n \<Longrightarrow> wr_apart A K (f (of_nat j))"
    and "A \<le> unat off" "unat off + length bs \<le> A + K"
  shows "at (wr_buf (wr_run (p @ vp_fill_buffers start_avc_13_5 s @ q) w)) (unat off) bs"
  using run_entry_at [of w "p @ xs" n f "ys @ q" i pre off bs post A K] assms by simp

lemma recon_at:
  assumes vp: "ave_vp_check start_avc_13_5 s align = None"
    and w: "wr_wf w" "wr_err (wr_run (p @ vp_fill_buffers start_avc_13_5 s @ q) w) = None"
    and q: "wr_apart 0x88 0x520 q" and i: "i < unat (s_n_recon s)"
  defines "b \<equiv> wr_buf (wr_run (p @ vp_fill_buffers start_avc_13_5 s @ q) w)"
  shows "at b (0x88 + 16 * i) (put_le64 (rb_addr (the (s_recon s) (of_nat i))))"
    "s_need_lsb_planes s \<Longrightarrow> at b (0x90 + 16 * i) (put_le64 (rb_lsb_addr (the (s_recon s) (of_nat i))))"
proof -
  note t = vp_tables_in_13_5 [OF vp]
  have n: "unat (s_n_recon s) \<le> 16"
    using vp_check_bounds(1) [OF vp] by (simp add: start_avc_13_5_fields word_le_nat_alt)
  obtain ys where split: "vp_fill_buffers start_avc_13_5 s = [] @ wr_for (s_n_recon s) (recon_entry start_avc_13_5 s) @ ys"
    and ys: "wr_apart 0x88 0x100 ys"
    using t(2-6,8) [THEN wr_in_apart, of "0x88" "0x100"]
    by (simp add: vp_fill_buffers_def start_avc_13_5_fields)
  let ?r = "the (s_recon s) (of_nat i)" and ?e = "0x88 + of_nat i * 0x10 :: u32"
  let ?post = "wr_if (s_need_lsb_planes s) (wr64 (?e + 8) (rb_lsb_addr ?r))"
  have e: "unat ?e = 0x88 + 16 * i" "unat (?e + 8) = 0x90 + 16 * i" using n i by (simp_all add: unat_entries)
  have entry: "recon_entry start_avc_13_5 s (of_nat i) = wr64 ?e (rb_addr ?r) @ ?post"
    by (simp add: recon_entry_def Let_def start_avc_13_5_fields layout_consts wr_if_def)
  have apart: "wr_apart (0x88 + 16 * i) 16 (recon_entry start_avc_13_5 s (of_nat j))" if "i < j" "j < unat (s_n_recon s)" for j
    using that n by (simp add: recon_entry_def Let_def start_avc_13_5_fields layout_consts unat_entries)
  have "wr_apart (0x88 + 16 * i) 16 (ys @ q)" using wr_apart_sub [OF ys] wr_apart_sub [OF q] n i by simp
  note at_rule = vp_entry_at [OF w split i _ _ this apart, folded b_def]
  have "at b (unat ?e) (put_le64 (rb_addr ?r))"
    by (rule at_rule [where pre = "[]" and post = ?post]) (use e entry in \<open>simp_all add: wr64_def\<close>)
  then show "at b (0x88 + 16 * i) (put_le64 (rb_addr ?r))" by (simp add: e)
  assume lsb: "s_need_lsb_planes s"
  have "at b (unat (?e + 8)) (put_le64 (rb_lsb_addr ?r))"
    by (rule at_rule [where pre = "wr64 ?e (rb_addr ?r)" and post = "[]"])
      (use e entry lsb in \<open>simp_all add: wr64_def wr_if_def\<close>)
  then show "at b (0x90 + 16 * i) (put_le64 (rb_lsb_addr ?r))" by (simp only: e)
qed

lemma coded_at:
  assumes vp: "ave_vp_check start_avc_13_5 s align = None"
    and w: "wr_wf w" "wr_err (wr_run (p @ vp_fill_buffers start_avc_13_5 s @ q) w) = None"
    and q: "wr_apart 0x88 0x520 q" "wr_apart 0x5c0 0xf0 q" and i: "i < unat (s_n_coded s)"
  defines "b \<equiv> wr_buf (wr_run (p @ vp_fill_buffers start_avc_13_5 s @ q) w)"
  defines "c \<equiv> the (s_coded s) (of_nat i)" and "h \<equiv> the (s_coded_hdr s) (of_nat i)"
  shows "at b (0x4b8 + 8 * i) (put_le64 (bf_addr c))" "at b (0x558 + 4 * i) (put_le32 (bf_size c))"
    "at b (0x5c0 + 8 * i) (put_le64 (bf_addr h))" "at b (0x660 + 4 * i) (put_le32 (bf_size h))"
proof -
  note t = vp_tables_in_13_5 [OF vp]
  have n: "unat (s_n_coded s) \<le> 20"
    using vp_check_bounds(2) [OF vp] by (simp add: start_avc_13_5_fields word_le_nat_alt)
  obtain xs where split: "vp_fill_buffers start_avc_13_5 s =
      xs @ wr_for (s_n_coded s) (coded_entry start_avc_13_5 s) @ src_nbr_table s"
    by (simp add: vp_fill_buffers_def)
  let ?f = "\<lambda>a d. a + of_nat i * d :: u32"
  have e: "unat (?f 0x4b8 8) = 0x4b8 + 8 * i" "unat (?f 0x558 4) = 0x558 + 4 * i"
    "unat (?f 0x5c0 8) = 0x5c0 + 8 * i" "unat (?f 0x660 4) = 0x660 + 4 * i"
    using n i by (simp_all add: unat_entries)
  let ?w1 = "wr64 (?f 0x4b8 8) (bf_addr c)" and ?w2 = "wr32 (?f 0x558 4) (bf_size c)"
  let ?w3 = "wr64 (?f 0x5c0 8) (bf_addr h)" and ?w4 = "wr32 (?f 0x660 4) (bf_size h)"
  have f: "coded_entry start_avc_13_5 s (of_nat i) = ?w1 @ ?w2 @ ?w3 @ ?w4"
    by (simp add: coded_entry_def start_avc_13_5_fields c_def h_def)
  have apart: "wr_apart (0x4b8 + 8 * i) 8 (coded_entry start_avc_13_5 s (of_nat j))"
    "wr_apart (0x558 + 4 * i) 4 (coded_entry start_avc_13_5 s (of_nat j))"
    "wr_apart (0x5c0 + 8 * i) 8 (coded_entry start_avc_13_5 s (of_nat j))"
    "wr_apart (0x660 + 4 * i) 4 (coded_entry start_avc_13_5 s (of_nat j))" if "i < j" "j < unat (s_n_coded s)" for j
    using that n by (simp_all add: coded_entry_def start_avc_13_5_fields unat_entries)
  have ys: "wr_apart a k (src_nbr_table s @ q)"
    if "0x88 \<le> a \<and> a + k \<le> 0x5a8 \<or> 0x5c0 \<le> a \<and> a + k \<le> 0x6b0" for a k
    using wr_in_apart [OF t(8)] wr_apart_sub [OF q(1)] wr_apart_sub [OF q(2)] that by auto
  note at_rule = vp_entry_at [OF w split i _ _ ys, folded b_def]
  have "at b (unat (?f 0x4b8 8)) (put_le64 (bf_addr c))"
    by (rule at_rule [OF _ _ _ apart(1), where pre = "[]" and post = "?w2 @ ?w3 @ ?w4"])
      (use e n i f in \<open>simp_all add: wr64_def\<close>)
  then show "at b (0x4b8 + 8 * i) (put_le64 (bf_addr c))" by (simp add: e)
  have "at b (unat (?f 0x558 4)) (put_le32 (bf_size c))"
    by (rule at_rule [OF _ _ _ apart(2), where pre = "?w1" and post = "?w3 @ ?w4"])
      (use e n i f in \<open>simp_all add: wr32_def\<close>)
  then show "at b (0x558 + 4 * i) (put_le32 (bf_size c))" by (simp add: e)
  have "at b (unat (?f 0x5c0 8)) (put_le64 (bf_addr h))"
    by (rule at_rule [OF _ _ _ apart(3), where pre = "?w1 @ ?w2" and post = "?w4"])
      (use e n i f in \<open>simp_all add: wr64_def\<close>)
  then show "at b (0x5c0 + 8 * i) (put_le64 (bf_addr h))" by (simp add: e)
  have "at b (unat (?f 0x660 4)) (put_le32 (bf_size h))"
    by (rule at_rule [OF _ _ _ apart(4), where pre = "?w1 @ ?w2 @ ?w3" and post = "[]"])
      (use e n i f in \<open>simp_all add: wr32_def\<close>)
  then show "at b (0x660 + 4 * i) (put_le32 (bf_size h))" by (simp add: e)
qed

lemma entropy_at:
  assumes vp: "ave_vp_check start_avc_13_5 s align = None"
    and w: "wr_wf w" "wr_err (wr_run (p @ vp_fill_buffers start_avc_13_5 s @ q) w) = None"
    and q: "wr_apart 0xf830 0x80 q" and i: "i < unat (s_n_entropy s)" and j: "j < unat (or1 (s_n_entropy_cols s))"
  defines "b \<equiv> wr_buf (wr_run (p @ vp_fill_buffers start_avc_13_5 s @ q) w)"
  shows "at b (0xf830 + 0x20 * i + 8 * j) (put_le64 (s_entropy s (of_nat i) (of_nat j)))"
proof -
  note t = vp_tables_in_13_5 [OF vp]
  let ?c = "unat (or1 (s_n_entropy_cols s))" and ?ent = "entropy_entry start_avc_13_5 s"
  have "s_n_entropy s \<noteq> 0" using i by auto
  then have n: "unat (s_n_entropy s) \<le> 4" "?c \<le> 4"
    using vp_check_bounds(3,4) [OF vp] by (auto simp: start_avc_13_5_fields word_le_nat_alt or1_def)
  obtain xs where split: "vp_fill_buffers start_avc_13_5 s =
      xs @ entropy_table s @ wr_for (s_n_coded s) (coded_entry start_avc_13_5 s) @ src_nbr_table s"
    by (simp add: vp_fill_buffers_def)
  let ?off = "0xf830 + of_nat i * 0x20 + of_nat j * 8 :: u32" and ?A = "0xf830 + 0x20 * i + 8 * j"
  have e: "unat ?off = ?A" using n i j by (simp add: unat_entries2)
  have far: "wr_apart ?A 8 (?ent (of_nat i') (of_nat j'))"
    if "i' < unat (s_n_entropy s)" "j' < ?c" "(i, j) \<noteq> (i', j')" for i' j'
  proof -
    have "0xf830 + 0x20 * i' + 8 * j' + 8 \<le> ?A \<or> ?A + 8 \<le> 0xf830 + 0x20 * i' + 8 * j'"
      using that n i j by (cases "i = i'") (auto; linarith)+
    then show ?thesis
      using that n i j by (simp add: entropy_entry_def start_avc_13_5_fields unat_entries2)
  qed
  have ys: "wr_apart ?A 8 ((wr_for (s_n_coded s) (coded_entry start_avc_13_5 s) @ src_nbr_table s) @ q)"
    using wr_in_apart [OF t(6), of ?A 8] wr_apart_sub [OF t(7), of ?A 8] wr_apart_sub [OF q, of ?A 8] n i j by simp
  let ?sz = "wr_if (s_entropy_size s \<noteq> 0)
      (wr32 (0xfa30 + of_nat i * 0x10 + of_nat j * 4) (s_entropy_size s))"
  let ?row = "\<lambda>js. concat (map (\<lambda>j. ?ent (of_nat i) (of_nat j)) js)"
  have "at b (unat ?off) (put_le64 (s_entropy s (of_nat i) (of_nat j)))"
    unfolding b_def
  proof (rule vp_entry_at [OF w split i _ _ ys, where pre = "?row [0..<j]" and post = "?sz @ ?row [Suc j..<?c]"])
    show "wr_for (or1 (s_n_entropy_cols s)) (?ent (of_nat i)) =
        ?row [0..<j] @ WrBytes ?off (put_le64 (s_entropy s (of_nat i) (of_nat j))) # ?sz @ ?row [Suc j..<?c]"
      using wr_for_split [OF j, of "?ent (of_nat i)"]
      by (simp add: entropy_entry_def start_avc_13_5_fields wr64_def wr_if_def layout_consts)
    have "wr_apart ?A 8 (?row [Suc j..<?c])" using far i by (simp add: wr_apart_concat)
    then show "wr_apart (unat ?off) (length (put_le64 (s_entropy s (of_nat i) (of_nat j)))) (?sz @ ?row [Suc j..<?c])"
      using n i j by (simp add: e unat_entries2)
  qed (use e n i j far in \<open>simp_all add: wr_apart_for\<close>)
  then show ?thesis by (simp add: e)
qed

lemma entropy_size_at:
  assumes vp: "ave_vp_check start_avc_13_5 s align = None"
    and w: "wr_wf w" "wr_err (wr_run (p @ vp_fill_buffers start_avc_13_5 s @ q) w) = None"
    and q: "wr_apart 0xf830 0x240 q" and i: "i < unat (s_n_entropy s)" and j: "j < unat (or1 (s_n_entropy_cols s))"
    and sz: "s_entropy_size s \<noteq> 0"
  defines "b \<equiv> wr_buf (wr_run (p @ vp_fill_buffers start_avc_13_5 s @ q) w)"
  shows "at b (0xfa30 + 0x10 * i + 4 * j) (put_le32 (s_entropy_size s))"
proof -
  note t = vp_tables_in_13_5 [OF vp]
  let ?c = "unat (or1 (s_n_entropy_cols s))" and ?ent = "entropy_entry start_avc_13_5 s"
  have "s_n_entropy s \<noteq> 0" using i by auto
  then have n: "unat (s_n_entropy s) \<le> 4" "?c \<le> 4"
    using vp_check_bounds(3,4) [OF vp] by (auto simp: start_avc_13_5_fields word_le_nat_alt or1_def)
  obtain xs where split: "vp_fill_buffers start_avc_13_5 s =
      xs @ entropy_table s @ wr_for (s_n_coded s) (coded_entry start_avc_13_5 s) @ src_nbr_table s"
    by (simp add: vp_fill_buffers_def)
  let ?off = "0xfa30 + of_nat i * 0x10 + of_nat j * 4 :: u32" and ?A = "0xfa30 + 0x10 * i + 4 * j"
  have e: "unat ?off = ?A" using n i j by (simp add: unat_entries2)
  have far: "wr_apart ?A 4 (?ent (of_nat i') (of_nat j'))"
    if "i' < unat (s_n_entropy s)" "j' < ?c" "(i, j) \<noteq> (i', j')" for i' j'
  proof -
    have "0xfa30 + 0x10 * i' + 4 * j' + 4 \<le> ?A \<or> ?A + 4 \<le> 0xfa30 + 0x10 * i' + 4 * j'"
      using that n i j by (cases "i = i'") (auto; linarith)+
    then show ?thesis
      using that n i j by (simp add: entropy_entry_def start_avc_13_5_fields unat_entries2)
  qed
  have ys: "wr_apart ?A 4 ((wr_for (s_n_coded s) (coded_entry start_avc_13_5 s) @ src_nbr_table s) @ q)"
    using wr_in_apart [OF t(6), of ?A 4] wr_apart_sub [OF t(7), of ?A 4] wr_apart_sub [OF q, of ?A 4] n i j by simp
  let ?ad = "wr64 (0xf830 + of_nat i * 0x20 + of_nat j * 8) (s_entropy s (of_nat i) (of_nat j))"
  let ?row = "\<lambda>js. concat (map (\<lambda>j. ?ent (of_nat i) (of_nat j)) js)"
  have "at b (unat ?off) (put_le32 (s_entropy_size s))"
    unfolding b_def
  proof (rule vp_entry_at [OF w split i _ _ ys, where pre = "?row [0..<j] @ ?ad" and post = "?row [Suc j..<?c]"])
    show "wr_for (or1 (s_n_entropy_cols s)) (?ent (of_nat i)) =
        (?row [0..<j] @ ?ad) @ WrBytes ?off (put_le32 (s_entropy_size s)) # ?row [Suc j..<?c]"
      using wr_for_split [OF j, of "?ent (of_nat i)"] sz
      by (simp add: entropy_entry_def start_avc_13_5_fields wr32_def wr_if_def layout_consts)
    show "wr_apart (unat ?off) (length (put_le32 (s_entropy_size s))) (?row [Suc j..<?c])"
      using far i by (simp add: e wr_apart_concat)
  qed (use e n i j far in \<open>simp_all add: wr_apart_for\<close>)
  then show ?thesis by (simp add: e)
qed

text \<open>A table with one address per entry.\<close>

lemma row_at:
  assumes w: "wr_wf w" "wr_err (wr_run (p @ vp_fill_buffers start_avc_13_5 s @ q) w) = None"
    and split: "vp_fill_buffers start_avc_13_5 s = xs @ wr_for n (\<lambda>i. wr64 (base + i * 8) (e i)) @ ys"
    and i: "i < unat n" "unat n \<le> 17" "unat base \<le> 0xffff"
    and ys: "wr_apart (unat base + 8 * i) 8 (ys @ q)"
  shows "at (wr_buf (wr_run (p @ vp_fill_buffers start_avc_13_5 s @ q) w)) (unat base + 8 * i) (put_le64 (e (of_nat i)))"
proof -
  have o: "unat (base + of_nat j * 8) = unat base + 8 * j" if "j < unat n" for j
    using that i by (simp add: unat_word_ariths unat_of_nat)
  have "at (wr_buf (wr_run (p @ vp_fill_buffers start_avc_13_5 s @ q) w)) (unat (base + of_nat i * 8)) (put_le64 (e (of_nat i)))"
    by (rule vp_entry_at [OF w split i(1) _ _ ys, where pre = "[]" and post = "[]"])
      (use o i in \<open>simp_all add: wr64_def\<close>)
  then show ?thesis by (simp only: o [OF i(1)])
qed

lemma rows_at:
  assumes vp: "ave_vp_check start_avc_13_5 s align = None"
    and w: "wr_wf w" "wr_err (wr_run (p @ vp_fill_buffers start_avc_13_5 s @ q) w) = None"
    and q: "wr_apart 0x88 0x520 q" "wr_apart 0xf6b0 0x88 q"
  defines "b \<equiv> wr_buf (wr_run (p @ vp_fill_buffers start_avc_13_5 s @ q) w)"
  shows "i < unat (s_n_low_res_ref s) \<Longrightarrow> at b (0x2a8 + 8 * i) (put_le64 (s_low_res_ref s (of_nat i)))"
    "i < unat (s_n_low_res_result s) \<Longrightarrow> at b (0x3b8 + 8 * i) (put_le64 (s_low_res_result s (of_nat i)))"
    "i < unat (s_n_colocated s) \<Longrightarrow> at b (0xf6b0 + 8 * i) (put_le64 (s_colocated s (of_nat i)))"
proof -
  note t = vp_tables_in_13_5 [OF vp]
  note n = vp_check_bounds(5-7) [OF vp, unfolded start_avc_13_5_fields word_le_nat_alt]
  let ?lr = "wr_for (s_n_low_res_result s) (\<lambda>i. wr64 (0x3b8 + i * 8) (s_low_res_result s i))"
  let ?co = "wr_for (s_n_colocated s) (\<lambda>i. wr64 (0xf6b0 + i * 8) (s_colocated s i))"
  let ?r = "entropy_table s @ wr_for (s_n_coded s) (coded_entry start_avc_13_5 s) @ src_nbr_table s"
  obtain xs where split: "vp_fill_buffers start_avc_13_5 s =
      xs @ wr_for (s_n_low_res_ref s) (\<lambda>i. wr64 (0x2a8 + i * 8) (s_low_res_ref s i)) @ (?lr @ ?co @ ?r)"
    by (simp add: vp_fill_buffers_def start_avc_13_5_fields)
  have split2: "vp_fill_buffers start_avc_13_5 s =
      (xs @ wr_for (s_n_low_res_ref s) (\<lambda>i. wr64 (0x2a8 + i * 8) (s_low_res_ref s i))) @ ?lr @ (?co @ ?r)"
    and split3: "vp_fill_buffers start_avc_13_5 s =
      (xs @ wr_for (s_n_low_res_ref s) (\<lambda>i. wr64 (0x2a8 + i * 8) (s_low_res_ref s i)) @ ?lr) @ ?co @ ?r"
    using split by simp_all
  note in3 = t(3,4) [unfolded start_avc_13_5_fields]
  show "at b (0x2a8 + 8 * i) (put_le64 (s_low_res_ref s (of_nat i)))" if i: "i < unat (s_n_low_res_ref s)"
  proof -
    have "wr_apart (0x2a8 + 8 * i) 8 ((?lr @ ?co @ ?r) @ q)"
      using in3 [THEN wr_in_apart, of "0x2a8 + 8 * i" 8] t(5,6,8) [THEN wr_in_apart, of "0x2a8 + 8 * i" 8]
        wr_apart_sub [OF q(1), of "0x2a8 + 8 * i" 8] i n by simp
    then show ?thesis using row_at [OF w split i] n i by (simp add: b_def)
  qed
  show "at b (0x3b8 + 8 * i) (put_le64 (s_low_res_result s (of_nat i)))" if i: "i < unat (s_n_low_res_result s)"
  proof -
    have "wr_apart (0x3b8 + 8 * i) 8 ((?co @ ?r) @ q)"
      using in3(2) [THEN wr_in_apart, of "0x3b8 + 8 * i" 8] t(5,6,8) [THEN wr_in_apart, of "0x3b8 + 8 * i" 8]
        wr_apart_sub [OF q(1), of "0x3b8 + 8 * i" 8] i n by simp
    then show ?thesis using row_at [OF w split2 i] n i by (simp add: b_def)
  qed
  show "at b (0xf6b0 + 8 * i) (put_le64 (s_colocated s (of_nat i)))" if i: "i < unat (s_n_colocated s)"
  proof -
    have "wr_apart (0xf6b0 + 8 * i) 8 (?r @ q)"
      using t(5,6,8) [THEN wr_in_apart, of "0xf6b0 + 8 * i" 8]
        wr_apart_sub [OF q(2), of "0xf6b0 + 8 * i" 8] i n by simp
    then show ?thesis using row_at [OF w split3 i] n i by (simp add: b_def)
  qed
qed

abbreviation "nbr_base \<equiv> [0xf7d0, 0xf7f0, 0xf810, 0xfed0]"

lemma below_4: "n < 4 \<Longrightarrow> n = 0 \<or> n = 1 \<or> n = 2 \<or> n = (3 :: nat)"
  by auto

lemma src_nbr_at:
  assumes vp: "ave_vp_check start_avc_13_5 s align = None"
    and w: "wr_wf w" "wr_err (wr_run (p @ vp_fill_buffers start_avc_13_5 s @ q) w) = None"
    and q: "wr_apart 0xf7d0 0x60 q" "wr_apart 0xfed0 0x20 q" and i: "i < unat (s_n_src_nbr s)" and g: "g < AVE_SRC_NBR_GROUPS"
  defines "b \<equiv> wr_buf (wr_run (p @ vp_fill_buffers start_avc_13_5 s @ q) w)"
  shows "at b (nbr_base ! g + 8 * i) (put_le64 (s_src_nbr s g (of_nat i)))"
proof -
  have n: "unat (s_n_src_nbr s) \<le> 4"
    using vp_check_bounds(8) [OF vp] by (simp add: start_avc_13_5_fields word_le_nat_alt)
  have g4: "g < 4" using g by (simp add: AVE_SRC_NBR_GROUPS_def)
  let ?set = "\<lambda>g. nbr_base ! g :: u32"
  let ?one = "\<lambda>i g. wr64 (?set g + i * 8) (s_src_nbr s g i)"
  let ?f = "\<lambda>i. concat (map (?one i) [0..<4])"
  have four: "[0..<4] = [0, 1, 2, 3 :: nat]" by (simp add: upt_rec)
  obtain xs where split: "vp_fill_buffers start_avc_13_5 s = xs @ wr_for (s_n_src_nbr s) ?f @ []"
    by (simp add: vp_fill_buffers_def src_nbr_writes_def start_avc_13_5_fields AVE_SRC_NBR_GROUPS_def
        four wr_if_def layout_consts)
  have o: "unat (?set h + of_nat j * 8) = nbr_base ! h + 8 * j" if "j < unat (s_n_src_nbr s)" "h < 4" for j h
  proof -
    have "unat (?set h) = nbr_base ! h" "(nbr_base ! h :: nat) \<le> 0xfed0" using below_4 [OF that(2)] by auto
    then show ?thesis using that n unat_entries(2) [of "?set h" 8 j] by simp
  qed
  have far: "wr_apart (nbr_base ! g + 8 * i) 8 (?one (of_nat j) h)"
    if "j < unat (s_n_src_nbr s)" "h < 4" "(j, h) \<noteq> (i, g)" for j h
  proof -
    have "nbr_base ! h + 8 * j + 8 \<le> nbr_base ! g + 8 * i \<or> nbr_base ! g + 8 * i + 8 \<le> nbr_base ! h + 8 * (j :: nat)"
      using below_4 [OF that(2)] below_4 [OF g4] that(1,3) i n by auto
    then show ?thesis using that o by simp
  qed
  have parts: "[0..<4] = [0..<g] @ g # [Suc g..<4]"
    using upt_add_eq_append [of 0 g "4 - g"] upt_conv_Cons [of g 4] g4 by simp
  have ent: "?f (of_nat i) = concat (map (?one (of_nat i)) [0..<g]) @ WrBytes (?set g + of_nat i * 8)
      (put_le64 (s_src_nbr s g (of_nat i))) # concat (map (?one (of_nat i)) [Suc g..<4])"
    by (subst parts) (simp add: wr64_def del: upt_Suc)
  have "\<forall>h\<in>set [Suc g..<4]. wr_apart (nbr_base ! g + 8 * i) 8 (?one (of_nat i) h)"
    by (intro ballI far i) simp_all
  then have post: "wr_apart (nbr_base ! g + 8 * i) 8 (concat (map (?one (of_nat i)) [Suc g..<4]))"
    by (simp only: wr_apart_concat set_map ball_simps)
  have later: "wr_apart (nbr_base ! g + 8 * i) 8 (?f (of_nat j))" if "i < j" "j < unat (s_n_src_nbr s)" for j
  proof -
    have "\<forall>h\<in>set [0..<4]. wr_apart (nbr_base ! g + 8 * i) 8 (?one (of_nat j) h)"
      using that by (intro ballI far) simp_all
    then show ?thesis by (simp only: wr_apart_concat set_map ball_simps)
  qed
  have "at b (unat (?set g + of_nat i * 8)) (put_le64 (s_src_nbr s g (of_nat i)))"
    unfolding b_def
  proof (rule vp_entry_at [OF w split i ent])
    show "wr_apart (nbr_base ! g + 8 * i) 8 ([] @ q)"
      using wr_apart_sub [OF q(1), of "nbr_base ! g + 8 * i" 8] wr_apart_sub [OF q(2), of "nbr_base ! g + 8 * i" 8]
        below_4 [OF g4] n i by auto
    show "wr_apart (unat (?set g + of_nat i * 8)) (length (put_le64 (s_src_nbr s g (of_nat i))))
        (concat (map (?one (of_nat i)) [Suc g..<4]))"
      using post by (simp only: o [OF i g4] length_put_le)
  qed (simp_all only: later o [OF i g4] length_put_le le_refl)
  then show ?thesis by (simp add: o i g4)
qed

lemma vp_run_published:
  assumes "ave_vp_check start_avc_13_5 s align = None"
    and "wr_wf w" "wr_err (wr_run (p @ vp_fill_buffers start_avc_13_5 s @ q) w) = None"
    and "wr_apart 0x88 0x520 q" "wr_apart 0x5c0 0xf0 q" "wr_apart 0xf6b0 0x88 q" "wr_apart 0xf7d0 0x2a0 q"
    and "wr_apart 0xfed0 0x20 q"
  shows "vp_published (wr_buf (wr_run (p @ vp_fill_buffers start_avc_13_5 s @ q) w)) s"
proof -
  have q: "wr_apart 0xf830 0x80 q" "wr_apart 0xf830 0x240 q" "wr_apart 0xf7d0 0x60 q"
    using assms(7) by (auto elim!: wr_apart_sub)
  show ?thesis
    using recon_at [OF assms(1-4)] coded_at [OF assms(1-5)] entropy_at [OF assms(1-3) q(1)]
      entropy_size_at [OF assms(1-3) q(2)] rows_at [OF assms(1-4,6)] src_nbr_at [OF assms(1-3) q(3) assms(8)]
    unfolding vp_published_def by blast
qed

text \<open>An accepted session of 13.5, and the run of its writes.\<close>

definition avc_session_ok :: "u8 list \<Rightarrow> ave_cmd_ctx \<Rightarrow> ave_avc_session \<Rightarrow> bool" where
  "avc_session_ok buf ctx s \<longleftrightarrow>
     \<not> cmd_refused ave_cmd_abi_13_5 AVE_OP_START_AVC (length buf) ctx 0 \<and> \<not> avc_refused ave_cmd_abi_13_5 s"

lemma avc_session_ok_vp: "avc_session_ok buf ctx s \<Longrightarrow> ave_vp_check start_avc_13_5 s AVE_STRIDE_ALIGN = None"
  by (simp add: avc_session_ok_def avc_refused_def)

lemma avc_session_run:
  assumes "avc_session_ok buf ctx s"
  obtains w where "wr_wf w" "wr_err (wr_run (avc_writes ave_cmd_abi_13_5 s) w) = None"
    "snd (ave_cmd_build_start_avc ave_cmd_abi_13_5 buf ctx s) = wr_buf (wr_run (avc_writes ave_cmd_abi_13_5 s) w)"
proof -
  have r: "\<not> cmd_refused ave_cmd_abi_13_5 AVE_OP_START_AVC (length buf) ctx 0" "\<not> avc_refused ave_cmd_abi_13_5 s"
    using assms by (simp_all add: avc_session_ok_def)
  have k: "known_abi ave_cmd_abi_13_5" by (simp add: known_abi_def)
  obtain w where w: "ave_cmd_begin ave_cmd_abi_13_5 AVE_OP_START_AVC buf ctx 0 = Inr w"
    "cmd_open ave_cmd_abi_13_5 AVE_OP_START_AVC buf w"
    using begin_ok [OF k r(1)] by blast
  have "wr_in 64 (ave_cmd_size ave_cmd_abi_13_5 AVE_OP_START_AVC) (avc_writes ave_cmd_abi_13_5 s)"
    using avc_writes_in_13_5 [OF r(2)] by (simp add: ave_cmd_size_def cmd_13_5_def cmd_ids)
  then have "wr_err (wr_run (avc_writes ave_cmd_abi_13_5 s) w) = None" using built_run [OF k r(1) w(1)] by blast
  then show ?thesis
    using that [of w] w r(2) by (simp add: cmd_open_def ave_cmd_build_start_avc_def cmd_with_def end_Inr)
qed

lemma avc_run_published:
  assumes "avc_session_ok buf ctx s"
  shows "vp_published (snd (ave_cmd_build_start_avc ave_cmd_abi_13_5 buf ctx s)) s"
proof -
  obtain w where w: "wr_wf w" "wr_err (wr_run (avc_writes ave_cmd_abi_13_5 s) w) = None"
    "snd (ave_cmd_build_start_avc ave_cmd_abi_13_5 buf ctx s) = wr_buf (wr_run (avc_writes ave_cmd_abi_13_5 s) w)"
    using avc_session_run [OF assms] by blast
  obtain p q where split: "avc_writes ave_cmd_abi_13_5 s = p @ vp_fill_buffers start_avc_13_5 s @ q"
    and q: "q = avc_modes start_avc_13_5 s @ avc_sps sps_13_5 s (the (ave_avc_profile_enum (s_profile_idc s)))
      (the (ave_avc_level_enum (s_level_idc s))) @ avc_pps pps_13_5 s @ avc_macos ave_cmd_abi_13_5 s"
    by (simp add: avc_writes_def ave_vp_fill_def)
  have "\<not> avc_bad_macos ave_cmd_abi_13_5 s" using assms by (simp add: avc_session_ok_def avc_refused_def)
  note far = avc_tail_apart_13_5 [OF this, folded q]
  have "wr_apart 0x88 0x520 q" "wr_apart 0x5c0 0xf0 q" "wr_apart 0xf6b0 0x88 q" "wr_apart 0xf7d0 0x2a0 q"
    "wr_apart 0xfed0 0x20 q"
    using wr_apart_sub [OF far, of "0x80" "0x528" "0x88" "0x520"] wr_apart_sub [OF far, of "0x5c0" "0x240" "0x5c0" "0xf0"]
      wr_apart_sub [OF far, of "0xf6b0" "0x480" "0xf6b0" "0x88"] wr_apart_sub [OF far, of "0xf6b0" "0x480" "0xf7d0" "0x2a0"]
      far [of "0xfed0" "0x20"] unfolding q by simp_all
  then show ?thesis
    using vp_run_published [OF avc_session_ok_vp [OF assms] w(1) w(2) [unfolded split]] w(3) by (simp add: split)
qed

text \<open>The transcoded buffers, which only AVC of 13.5 has.\<close>

definition transcoded_published :: "u8 list \<Rightarrow> ave_avc_session \<Rightarrow> bool" where
  "transcoded_published b s \<longleftrightarrow> s_n_transcoded s = 0
     \<or> (\<forall>i < unat (s_n_transcoded s). at b (0x5a8 + 8 * i) (put_le64 (s_transcoded s (of_nat i))))
       \<and> at b 0x5b8 (put_le32 (s_transcoded_size s))"

lemma avc_transcoded_at:
  assumes "avc_session_ok buf ctx s"
  shows "transcoded_published (snd (ave_cmd_build_start_avc ave_cmd_abi_13_5 buf ctx s)) s"
proof (cases "s_n_transcoded s = 0")
  case False
  let ?f = "\<lambda>i. wr64 (0x5a8 + i * 8) (s_transcoded s i)" and ?n = "s_n_transcoded s"
  obtain w where w: "wr_wf w" "wr_err (wr_run (avc_writes ave_cmd_abi_13_5 s) w) = None"
    "snd (ave_cmd_build_start_avc ave_cmd_abi_13_5 buf ctx s) = wr_buf (wr_run (avc_writes ave_cmd_abi_13_5 s) w)"
    using avc_session_run [OF assms] by blast
  have n: "unat ?n \<le> 2"
    using assms False by (simp add: avc_session_ok_def avc_refused_def avc_bad_macos_def Let_def start_avc_13_5_fields)
  define ys where "ys = wr_if (in_group (s_macos s) AVE_MACOS_G_SPS \<and> s_poc_type0 s) (wr32 (sl_log2_max_poc_lsb_m4 sps_13_5) 2)
    @ ave_macos_apply macos_start_avc_13_5 (s_macos s)"
  have "wr_apart 0x5a8 20 (ave_macos_apply macos_start_avc_13_5 (s_macos s))"
    by (intro macos_apart) (auto simp: macos_start_avc_13_5_def)
  then have ys: "wr_apart 0x5a8 20 ys" by (auto simp: ys_def sps_13_5_fields)
  have on: "wr_if True ops = ops" for ops by (simp add: wr_if_def)
  obtain xs where split: "avc_writes ave_cmd_abi_13_5 s = xs @ wr_for ?n ?f @ wr32 0x5b8 (s_transcoded_size s) @ ys"
    using False by (simp add: avc_writes_def avc_macos_def Let_def ys_def start_avc_13_5_fields on flip: append_assoc)
  have "at (wr_buf (wr_run (avc_writes ave_cmd_abi_13_5 s) w)) (0x5a8 + 8 * i) (put_le64 (s_transcoded s (of_nat i)))"
    if i: "i < unat ?n" for i
  proof -
    have u: "unat (0x5a8 + of_nat j * 8 :: u32) = 0x5a8 + j * 8" if "j < unat ?n" for j
      using that n unat_entries(2) [of "0x5a8 :: u32" "8 :: u32" j] by simp
    show ?thesis
      using run_entry_at [OF w(1) w(2) [unfolded split] i, of "[]" "0x5a8 + of_nat i * 8" "put_le64 (s_transcoded s (of_nat i))" "[]"
          "0x5a8 + 8 * i" 8] i n u wr_apart_sub [OF ys, of "0x5a8 + 8 * i" 8]
      by (simp add: split wr_defs mult.commute)
  qed
  moreover have "at (wr_buf (wr_run (avc_writes ave_cmd_abi_13_5 s) w)) 0x5b8 (put_le32 (s_transcoded_size s))"
    using wr_written [of w "xs @ wr_for ?n ?f" "0x5b8" "put_le32 (s_transcoded_size s)" ys] w(1,2)
      wr_apart_sub [OF ys, of "0x5b8" 4] by (simp add: split wr_defs)
  ultimately show ?thesis by (simp add: w(3) transcoded_published_def)
qed (simp add: transcoded_published_def)

section \<open>The display size\<close>

lemma at_le32: "at b off (put_le32 v) \<Longrightarrow> get_le32 b off = v"
  using at_get_le32 [of b off "put_le32 v" 0] get_le32_put [of "[]" v "[]"] by simp

text \<open>Rounding up to macroblocks.\<close>

lemma unat_mb_align:
  assumes "unat v \<le> 4096"
  shows "unat (ave_mb_align v) = 16 * ((unat v + 15) div 16)"
proof -
  have "x AND NOT 15 = push_bit 4 (drop_bit 4 x)" for x :: u32
  proof -
    have m: "(15 :: u32) = mask 4" by (simp add: mask_eq_exp_minus_1)
    show ?thesis unfolding m by (rule bit_word_eqI) (auto simp: bit_simps)
  qed
  then have "ave_mb_align v = push_bit 4 (drop_bit 4 (v + 15))"
    by (simp add: ave_mb_align_def AVE_MB_SIZE_def add.commute)
  moreover have "unat (v + 15) = unat v + 15" using assms by (simp add: unat_add_small)
  ultimately show ?thesis
    using assms by (simp add: push_bit_eq_mult drop_bit_eq_div unat_word_ariths unat_div)
qed

lemma avc_sps_at:
  assumes "avc_session_ok buf ctx s"
  defines "ops \<equiv> avc_sps sps_13_5 s (the (ave_avc_profile_enum (s_profile_idc s))) (the (ave_avc_level_enum (s_level_idc s)))
      @ avc_pps pps_13_5 s @ avc_macos ave_cmd_abi_13_5 s"
  assumes "WrBytes off bs \<in> set ops" "wr_keeps off bs ops"
  shows "at (snd (ave_cmd_build_start_avc ave_cmd_abi_13_5 buf ctx s)) (unat off) bs"
proof -
  obtain w where w: "wr_wf w" "wr_err (wr_run (avc_writes ave_cmd_abi_13_5 s) w) = None"
    "snd (ave_cmd_build_start_avc ave_cmd_abi_13_5 buf ctx s) = wr_buf (wr_run (avc_writes ave_cmd_abi_13_5 s) w)"
    using avc_session_run [OF assms(1)] by blast
  obtain p where "avc_writes ave_cmd_abi_13_5 s = p @ ops" by (simp add: avc_writes_def ops_def)
  then show ?thesis
    using w(2,3) run_keeps_at [OF wr_run_wf [OF w(1), of p] _ assms(3,4)] by (simp add: wr_run_append)
qed

lemma avc_macos_apart_13_5:
  assumes "avc_session_ok buf ctx s" "(a, k) \<in> {(0x109e4, 4), (0x109e8, 4), (0x10a40, 20), (0x105b4, 4), (0x105d0, 4)}"
  shows "wr_apart a k (avc_macos ave_cmd_abi_13_5 s)"
proof -
  have m: "\<not> avc_bad_macos ave_cmd_abi_13_5 s" using assms(1) by (simp add: avc_session_ok_def avc_refused_def)
  have t: "unat (s_n_transcoded s) \<le> 2"
    using m by (cases "s_n_transcoded s = 0") (simp_all add: avc_bad_macos_def Let_def start_avc_13_5_fields)
  have "wr_apart a k (ave_macos_apply macos_start_avc_13_5 (s_macos s))"
    using assms(2) by (intro macos_apart) (auto simp: macos_start_avc_13_5_def)
  then show ?thesis
    using assms(2) t
    by (auto simp: avc_macos_def Let_def start_avc_13_5_fields sps_13_5_fields wr_apart_for unat_entries)
qed

lemma sps_field_at:
  assumes "avc_session_ok buf ctx s"
  defines "b \<equiv> snd (ave_cmd_build_start_avc ave_cmd_abi_13_5 buf ctx s)"
    and "cw \<equiv> ave_mb_align (s_width s)" and "ch \<equiv> ave_mb_align (s_height s)"
  shows "at b 0x109e4 (put_le32 (cw div AVE_MB_SIZE - 1))" "at b 0x109e8 (put_le32 (ch div AVE_MB_SIZE - 1))"
    "at b 0x10a48 (put_le32 ((cw - crop_w s) div 2))" "at b 0x10a50 (put_le32 ((ch - crop_h s) div 2))"
    "at b 0x10a40 [bool8 (cw \<noteq> crop_w s \<or> ch \<noteq> crop_h s)]"
    "at b 0x105b4 (put_le32 (ucast (s_profile_idc s)))" "at b 0x105d0 (put_le32 (ucast (s_level_idc s)))"
proof -
  note m = avc_macos_apart_13_5 [OF assms(1)]
  note f = avc_sps_def Let_def sps_13_5_fields avc_pps_def pps_13_5_fields cw_def ch_def wr_apart_keeps wr_apart_for unat_entries
  have "wr_apart 0x10a48 4 (avc_macos ave_cmd_abi_13_5 s)" "wr_apart 0x10a50 4 (avc_macos ave_cmd_abi_13_5 s)"
    "wr_apart 0x10a40 1 (avc_macos ave_cmd_abi_13_5 s)"
    using m [of "0x10a40" 20] by (auto intro: wr_apart_sub)
  note m' = this m [of "0x109e4" 4] m [of "0x109e8" 4] m [of "0x105b4" 4] m [of "0x105d0" 4]
  show "at b 0x109e4 (put_le32 (cw div AVE_MB_SIZE - 1))"
    using avc_sps_at [OF assms(1), of "0x109e4" "put_le32 (cw div AVE_MB_SIZE - 1)"] m' by (simp add: b_def f)
  show "at b 0x109e8 (put_le32 (ch div AVE_MB_SIZE - 1))"
    using avc_sps_at [OF assms(1), of "0x109e8" "put_le32 (ch div AVE_MB_SIZE - 1)"] m' by (simp add: b_def f)
  show "at b 0x10a48 (put_le32 ((cw - crop_w s) div 2))"
    using avc_sps_at [OF assms(1), of "0x10a48" "put_le32 ((cw - crop_w s) div 2)"] m' by (simp add: b_def f)
  show "at b 0x10a50 (put_le32 ((ch - crop_h s) div 2))"
    using avc_sps_at [OF assms(1), of "0x10a50" "put_le32 ((ch - crop_h s) div 2)"] m' by (simp add: b_def f)
  show "at b 0x10a40 [bool8 (cw \<noteq> crop_w s \<or> ch \<noteq> crop_h s)]"
    using avc_sps_at [OF assms(1), of "0x10a40" "[bool8 (cw \<noteq> crop_w s \<or> ch \<noteq> crop_h s)]"] m' by (simp add: b_def f)
  show "at b 0x105b4 (put_le32 (ucast (s_profile_idc s)))"
    using avc_sps_at [OF assms(1), of "0x105b4" "put_le32 (ucast (s_profile_idc s))"] m' by (simp add: b_def f)
  show "at b 0x105d0 (put_le32 (ucast (s_level_idc s)))"
    using avc_sps_at [OF assms(1), of "0x105d0" "put_le32 (ucast (s_level_idc s))"] m' by (simp add: b_def f)
qed

lemma crop_of_size:
  assumes "unat v \<le> 4096" "unat d \<le> unat (ave_mb_align v)" "even (unat d)" "unat v > 0"
  shows "16 * unat (ave_mb_align v div AVE_MB_SIZE - 1 + 1) - 2 * unat ((ave_mb_align v - d) div 2) = unat d"
proof -
  let ?c = "ave_mb_align v"
  have c: "unat ?c = 16 * ((unat v + 15) div 16)" using assms(1) by (rule unat_mb_align)
  have "unat (?c - d) = unat ?c - unat d" using assms(2) by (simp add: unat_diff_le word_le_nat_alt)
  then have "2 * unat ((?c - d) div 2) = unat ?c - unat d"
    using assms(3) c by (simp add: unat_div)
  moreover have "16 * unat (?c div AVE_MB_SIZE - 1 + 1) = unat ?c"
    using c by (simp add: AVE_MB_SIZE_def unat_div)
  ultimately show ?thesis using assms(2) by simp
qed

section \<open>What the firmware reads\<close>

text \<open>C28. On macOS 13.5, an accepted AVC session is published whole: for every DPB slot (and its LSB
  plane, where there are any), low-resolution reference and result, colocated buffer, entropy surface,
  coded buffer, coded header and transcoded buffer the session names, and for every row of the four neighbour
  groups, its address is what the finished command holds at the slot's place in the table, with the sizes of the
  coded buffers, headers, entropy surfaces and transcoded buffers at theirs, behind everything the builder writes later:
  the other tables, the parameter sets and the macOS constants.\<close>

theorem avc_tables_published:
  assumes "avc_session_ok buf ctx s" "ave_cmd_build_start_avc ave_cmd_abi_13_5 buf ctx s = (r, b)"
  shows "vp_published b s \<and> transcoded_published b s"
  using avc_run_published [OF assms(1)] avc_transcoded_at [OF assms(1)] assms(2) by simp

lemma avc_tables_published_witness:
  "\<exists>r b. ave_cmd_build_start_avc ave_cmd_abi_13_5 (replicate 0x10e10 0) example_ctx example_session = (r, b)
     \<and> at b 0x98 (put_le64 0x10000) \<and> at b 0x4b8 (put_le64 0x40000)
     \<and> at b 0xf830 (put_le64 0x30000) \<and> at b 0xfa30 (put_le32 0x400)"
proof -
  obtain r b where b: "ave_cmd_build_start_avc ave_cmd_abi_13_5 (replicate 0x10e10 0) example_ctx example_session = (r, b)"
    by (rule prod.exhaust)
  have "avc_session_ok (replicate 0x10e10 0) example_ctx example_session"
    using example_accepted by (simp add: avc_session_ok_def)
  from avc_tables_published [OF this b] have
    "\<forall>i < 2. at b (0x88 + 16 * i) (put_le64 0x10000)" "\<forall>i < 1. at b (0x4b8 + 8 * i) (put_le64 0x40000)"
    "at b 0xf830 (put_le64 0x30000)" "at b 0xfa30 (put_le32 0x400)"
    by (simp_all add: vp_published_def example_session_def or1_def)
  from this(1) [rule_format, of 1] this(2) [rule_format, of 0] this(3,4) b show ?thesis by auto
qed

text \<open>C29. On macOS 13.5, the parameter set of an accepted AVC session describes the stream: it carries
  the session's profile and level, a decoder that takes the macroblock counts of the finished command
  and subtracts the cropping (in units of two samples) gets exactly the size the session asked for, and
  the cropping flag is clear exactly when no cropping is needed. For the size, the two sides asked for
  must be even and not larger than the coded ones, which the builder does not check.\<close>

theorem avc_sps_display_size:
  assumes "avc_session_ok buf ctx s" "ave_cmd_build_start_avc ave_cmd_abi_13_5 buf ctx s = (r, b)"
    and "crop_w s \<le> ave_mb_align (s_width s)" "crop_h s \<le> ave_mb_align (s_height s)"
    and "even (unat (crop_w s))" "even (unat (crop_h s))"
  shows "get_le32 b 0x105b4 = ucast (s_profile_idc s) \<and> get_le32 b 0x105d0 = ucast (s_level_idc s)
    \<and> 16 * unat (get_le32 b 0x109e4 + 1) - 2 * unat (get_le32 b 0x10a48) = unat (crop_w s)
    \<and> 16 * unat (get_le32 b 0x109e8 + 1) - 2 * unat (get_le32 b 0x10a50) = unat (crop_h s)
    \<and> (b ! 0x10a40 = 0 \<longleftrightarrow> crop_w s = ave_mb_align (s_width s) \<and> crop_h s = ave_mb_align (s_height s))"
proof -
  let ?cw = "ave_mb_align (s_width s)" and ?ch = "ave_mb_align (s_height s)"
  have b: "b = snd (ave_cmd_build_start_avc ave_cmd_abi_13_5 buf ctx s)" using assms(2) by simp
  have "\<not> vp_bad_params start_avc_13_5 s"
    using avc_session_ok_vp [OF assms(1)] by (simp add: ave_vp_check_def split: if_splits)
  then have d: "unat (s_width s) \<le> 4096" "unat (s_height s) \<le> 4096" "0 < unat (s_width s)" "0 < unat (s_height s)"
    by (simp_all add: vp_bad_params_def avc_limits word_less_nat_alt not_less)
  note crop = crop_of_size [OF d(1) _ assms(5) d(3)] crop_of_size [OF d(2) _ assms(6) d(4)]
  have "at b 0x109e4 (put_le32 (?cw div AVE_MB_SIZE - 1))" "at b 0x109e8 (put_le32 (?ch div AVE_MB_SIZE - 1))"
    "at b 0x10a48 (put_le32 ((?cw - crop_w s) div 2))" "at b 0x10a50 (put_le32 ((?ch - crop_h s) div 2))"
    "at b 0x10a40 [bool8 (?cw \<noteq> crop_w s \<or> ?ch \<noteq> crop_h s)]"
    "at b 0x105b4 (put_le32 (ucast (s_profile_idc s)))" "at b 0x105d0 (put_le32 (ucast (s_level_idc s)))"
    using sps_field_at [OF assms(1)] by (simp_all add: b)
  then have "get_le32 b 0x109e4 = ?cw div AVE_MB_SIZE - 1" "get_le32 b 0x109e8 = ?ch div AVE_MB_SIZE - 1"
    "get_le32 b 0x10a48 = (?cw - crop_w s) div 2" "get_le32 b 0x10a50 = (?ch - crop_h s) div 2"
    "b ! 0x10a40 = bool8 (?cw \<noteq> crop_w s \<or> ?ch \<noteq> crop_h s)"
    "get_le32 b 0x105b4 = ucast (s_profile_idc s)" "get_le32 b 0x105d0 = ucast (s_level_idc s)"
    using at_nth [of b "0x10a40" _ 0] by (auto dest: at_le32)
  then show ?thesis using crop assms(3,4) by (auto simp: bool8_def word_le_nat_alt)
qed

lemma avc_sps_display_size_witness:
  "\<exists>r b. ave_cmd_build_start_avc ave_cmd_abi_13_5 (replicate 0x10e10 0) example_ctx example_session = (r, b)
     \<and> 16 * unat (get_le32 b 0x109e8 + 1) - 2 * unat (get_le32 b 0x10a50) = 360
     \<and> get_le32 b 0x105b4 = 77 \<and> get_le32 b 0x105d0 = 31"
proof -
  obtain r b where b: "ave_cmd_build_start_avc ave_cmd_abi_13_5 (replicate 0x10e10 0) example_ctx example_session = (r, b)"
    by (rule prod.exhaust)
  have "avc_session_ok (replicate 0x10e10 0) example_ctx example_session"
    using example_accepted by (simp add: avc_session_ok_def)
  moreover have "crop_w example_session = 640" "crop_h example_session = 360"
    "s_width example_session = 640" "s_height example_session = 360"
    "s_profile_idc example_session = 77" "s_level_idc example_session = 31"
    by (simp_all add: crop_w_def crop_h_def example_session_def)
  moreover have "ave_mb_align 640 = 640" "ave_mb_align 360 = 368"
    by (simp_all add: ave_mb_align_def AVE_MB_SIZE_def)
  ultimately show ?thesis using avc_sps_display_size [OF _ b] b by auto
qed

end
