(* ===== verification/Ave_Cmd_Built_Hevc.thy ===== *)
theory Ave_Cmd_Built_Hevc
  imports Ave_Cmd_Tables
begin

text \<open>
  \<open>HEVC_INIT\<close>: on macOS 13.5 every accepted session is built, and the re-reading of the finished
  command never refuses it and never leaves the buffer; on macOS 26.6 every session is refused.
\<close>

section \<open>Where the writes land\<close>

lemma b_set_in:
  assumes "lo \<le> unat e" "unat e + 0x164 \<le> hi" "hi \<le> 0x40000"
  shows "wr_in lo hi (ave_hevc_b_set hps_13_5 e bframes idx)"
  using assms by (simp add: ave_hevc_b_set_def Let_def hps_13_5_fields unat_add_small)

lemma ippp_set_in:
  assumes "lo \<le> unat e" "unat e + 0x164 \<le> hi" "hi \<le> 0x40000" "unat nr \<le> 2"
  shows "wr_in lo hi (hevc_ippp_set hps_13_5 e nr)"
proof -
  have e: "unat (e + c) = unat e + unat c" if "unat c \<le> 0x164" for c
    using assms(2,3) that by (simp add: unat_add_small)
  have d: "unat (e + c + of_nat j) = unat e + unat c + j" "unat (e + c + 2 * of_nat j) = unat e + unat c + 2 * j"
    "unat (e + c + 4 * of_nat j) = unat e + unat c + 4 * j" if "j < unat nr" "unat c \<le> 0x160" for j c
    using assms(2-4) that e [of c] unat_entries(1) [of "e + c" 1 j] unat_entries(1) [of "e + c" 2 j]
      unat_entries(1) [of "e + c" 4 j] by simp_all
  show ?thesis
    using assms by (simp add: hevc_ippp_set_def hps_13_5_fields e wr_in_for d)
qed

lemma hevc_rps_in:
  assumes "unat (hx_n_st_rps h) \<le> 10"
  shows "wr_in 0x2cfbc 0x32d94 (hevc_rps ave_cmd_abi_13_5 h)"
proof -
  have e: "unat (0x2cfc0 + of_nat i * 0x164 :: u32) = 0x2cfc0 + 0x164 * i" if "i < unat (hx_n_st_rps h)" for i
    using that assms by (simp add: unat_entries)
  have "wr_in 0x2cfbc 0x32d94 (ave_hevc_b_set hps_13_5 (0x2cfc0 + of_nat i * 0x164) b k)"
    "wr_in 0x2cfbc 0x32d94 (hevc_ippp_set hps_13_5 (0x2cfc0 + of_nat i * 0x164) (if c then 2 else 1))"
    if "i < unat (hx_n_st_rps h)" for i b k c
    using that assms e [OF that] by (auto intro!: b_set_in ippp_set_in)
  then show ?thesis
    by (simp add: hevc_rps_def Let_def hps_13_5_fields start_hevc_13_5_fields wr_in_for)
qed

lemma hevc_counts:
  assumes "\<not> hevc_refused ave_cmd_abi_13_5 h"
  shows "unat (hx_n_st_rps h) \<le> 10" "unat (hx_n_transcoded h) \<le> 2"
    "ave_vp_check start_avc_13_5 (hx_vp h) 128 = None" "s_need_lsb_planes (hx_vp h)"
    "s_n_recon (hx_vp h) \<noteq> 0" "input_fmt (hx_input_format_word h) \<noteq> 0"
proof -
  have r: "\<not> hevc_bad_refs ave_cmd_abi_13_5 h" "\<not> hevc_bad_buffers ave_cmd_abi_13_5 h"
    "\<not> hevc_bad_params ave_cmd_abi_13_5 h"
    and vp: "ave_vp_check start_avc_13_5 (hx_vp h) 128 = None"
    using assms by (simp_all add: hevc_refused_def hevc_align_def start_hevc_13_5_fields)
  show "unat (hx_n_st_rps h) \<le> 10"
    using r(1) by (simp add: hevc_bad_refs_def Let_def hevc_consts word_less_nat_alt not_less)
  show "unat (hx_n_transcoded h) \<le> 2"
    using r(2) by (cases "hx_n_transcoded h = 0") (simp_all add: hevc_bad_buffers_def Let_def start_hevc_13_5_fields)
  show "s_need_lsb_planes (hx_vp h)" "input_fmt (hx_input_format_word h) \<noteq> 0"
    using r(3) by (simp_all add: hevc_bad_params_def Let_def)
  show "ave_vp_check start_avc_13_5 (hx_vp h) 128 = None" by (fact vp)
  then have "\<not> vp_bad_recon start_avc_13_5 (hx_vp h)" by (simp add: ave_vp_check_def split: if_splits)
  then show "s_n_recon (hx_vp h) \<noteq> 0" by (simp add: vp_bad_recon_def)
qed

abbreviation "hevc_ops h \<equiv> hevc_writes1 ave_cmd_abi_13_5 h @ hevc_writes2 ave_cmd_abi_13_5 h"

lemma hevc_writes_in:
  assumes "\<not> hevc_refused ave_cmd_abi_13_5 h"
  shows "wr_in 64 0x32dc8 (hevc_ops h)"
proof -
  note c = hevc_counts [OF assms]
  have "wr_in 64 0x32dc8 (ave_vp_fill start_avc_13_5 (hx_vp h) (hv_sve_num start_hevc_13_5))"
    using c(3) by (intro vp_fill_in_13_5) (simp_all add: start_hevc_13_5_fields)
  moreover have "wr_in 64 0x32dc8 (hevc_rps ave_cmd_abi_13_5 h)"
  proof -
    have "wr_op_in 0x2cfbc 0x32d94 x \<Longrightarrow> wr_op_in 64 0x32dc8 x" for x by (cases x) auto
    then show ?thesis using hevc_rps_in [OF c(1)] by (auto simp: wr_in_def list_all_iff)
  qed
  ultimately show ?thesis
    using c(2)
    by (simp add: hevc_writes1_def hevc_writes2_def hevc_params1_def hevc_params2_def hevc_vps_def hevc_sps_def
        hevc_pps_def ave_hevc_ptl_def Let_def start_hevc_13_5_fields start_avc_13_5_fields hps_13_5_fields
        layout_consts wr_in_for unat_entries)
qed

section \<open>Reading the finished command back\<close>

text \<open>The fields the verification looks at.\<close>

definition hevc_fields :: "ave_hevc_session \<Rightarrow> (u32 \<times> u8 list) list" where
  "hevc_fields h =
     [(0x105c4, [1]), (0x246a0, [1]), (0x248c8, put_le32 1), (0x26375, [1]), (0x26378, put_le32 0),
      (0x2848c, put_le32 0), (0x2a60c, [1]), (0x2a610, put_le32 0), (0xfeb4, put_le32 (hx_input_format_word h)),
      (0xff24, put_le32 1), (0x32d9c, put_le32 1), (0xff50, put_le32 (if s_rc_enable (hx_vp h) then 1 else 2)),
      (0xfd7d, [1])]"

lemma hevc_fields_written:
  assumes "\<not> hevc_refused ave_cmd_abi_13_5 h"
  shows "\<forall>(off, bs) \<in> set (hevc_fields h). WrBytes off bs \<in> set (hevc_ops h)"
  using hevc_counts(4) [OF assms]
  by (simp add: hevc_fields_def hevc_writes1_def hevc_writes2_def hevc_params1_def hevc_vps_def hevc_sps_def
      hevc_pps_def ave_vp_fill_def vp_fill_params_def vp_fill_buffers_def wr32_opt_def
      Let_def start_hevc_13_5_fields start_avc_13_5_fields hps_13_5_fields layout_consts)

lemma hevc_tail_keeps:
  assumes "\<not> hevc_refused ave_cmd_abi_13_5 h"
  shows "\<forall>(off, bs) \<in> set (hevc_fields h). wr_keeps off bs (hevc_params1 ave_cmd_abi_13_5 h @ hevc_writes2 ave_cmd_abi_13_5 h)"
proof -
  note c = hevc_counts [OF assms]
  have "wr_apart a k (hevc_rps ave_cmd_abi_13_5 h)" if "a + k \<le> 0x2cfbc \<or> 0x32d94 \<le> a" for a k
    using wr_in_apart [OF hevc_rps_in [OF c(1)] that] .
  then show ?thesis
    using c(2)
    by (simp add: hevc_fields_def hevc_writes2_def hevc_params1_def hevc_params2_def hevc_vps_def hevc_sps_def
        hevc_pps_def ave_hevc_ptl_def Let_def start_hevc_13_5_fields start_avc_13_5_fields hps_13_5_fields
        layout_consts wr_apart_for wr_apart_keeps unat_entries)
qed

lemma hevc_vp_keeps:
  assumes "\<not> hevc_refused ave_cmd_abi_13_5 h"
  shows "\<forall>(off, bs) \<in> set (hevc_fields h). wr_keeps off bs (ave_vp_fill start_avc_13_5 (hx_vp h) 0x32d9c)"
proof -
  let ?s = "hx_vp h"
  note c = hevc_counts [OF assms]
  note t = vp_tables_in_13_5 [OF c(3)]
  have "wr_keeps off bs (vp_fill_lambda start_avc_13_5 ?s)" if "unat off + length bs \<le> 0xff98 \<or> 0x10574 \<le> unat off" for off bs
    using wr_apart_keeps wr_in_apart [OF vp_lambda_in_13_5 that] .
  moreover have "wr_keeps off bs (vp_fill_buffers start_avc_13_5 ?s)"
    if "0xfa70 \<le> unat off \<and> unat off + length bs \<le> 0xfed0 \<or> 0xfef0 \<le> unat off"
      "(off, bs) = (0xfd7d, [1]) \<or> unat off + length bs \<le> 0xfd7d \<or> 0xfd7e \<le> unat off" for off bs
  proof -
    have "wr_apart (unat off) (length bs) (src_nbr_table ?s)"
      using that(1) wr_in_apart [OF t(8)] wr_apart_sub [OF t(9)] by auto
    then have "wr_keeps off bs (src_nbr_table ?s)" by (rule wr_apart_keeps)
    moreover note t(1-6) [THEN wr_in_apart, THEN wr_apart_keeps, of off bs]
    ultimately show ?thesis
      using that by (auto simp: vp_fill_buffers_def start_avc_13_5_fields)
  qed
  ultimately show ?thesis
    by (simp add: hevc_fields_def ave_vp_fill_def vp_fill_params_def vp_fill_modes_def wr32_opt_def
        start_avc_13_5_fields layout_consts)
qed

lemma hevc_field_at:
  assumes "\<not> hevc_refused ave_cmd_abi_13_5 h" "wr_wf w" "wr_err (wr_run (hevc_ops h) w) = None"
    and "(off, bs) \<in> set (hevc_fields h)"
  shows "at (wr_buf (wr_run (hevc_ops h) w)) (unat off) bs"
proof (rule run_keeps_at [OF assms(2,3)])
  show "WrBytes off bs \<in> set (hevc_ops h)" using hevc_fields_written [OF assms(1)] assms(4) by blast
  have "hevc_ops h = ave_vp_fill start_avc_13_5 (hx_vp h) 0x32d9c
      @ (hevc_params1 ave_cmd_abi_13_5 h @ hevc_writes2 ave_cmd_abi_13_5 h)"
    by (simp add: hevc_writes1_def start_hevc_13_5_fields)
  then show "wr_keeps off bs (hevc_ops h)"
    using hevc_vp_keeps [OF assms(1)] hevc_tail_keeps [OF assms(1)] assms(4) by auto
qed

lemma hevc_run_published:
  assumes "\<not> hevc_refused ave_cmd_abi_13_5 h" "wr_wf w" "wr_err (wr_run (hevc_ops h) w) = None"
  shows "vp_published (wr_buf (wr_run (hevc_ops h) w)) (hx_vp h)"
proof -
  note c = hevc_counts [OF assms(1)]
  obtain p q where split: "hevc_ops h = p @ vp_fill_buffers start_avc_13_5 (hx_vp h) @ q"
    and q: "q = hevc_params1 ave_cmd_abi_13_5 h @ hevc_writes2 ave_cmd_abi_13_5 h"
    by (simp add: hevc_writes1_def ave_vp_fill_def)
  have "wr_apart a k (hevc_rps ave_cmd_abi_13_5 h)" if "a + k \<le> 0x2cfbc" for a k
    using wr_in_apart [OF hevc_rps_in [OF c(1)]] that by blast
  then have "wr_apart 0x88 0x520 q" "wr_apart 0x5c0 0xf0 q" "wr_apart 0xf6b0 0x88 q" "wr_apart 0xf7d0 0x2a0 q"
    "wr_apart 0xfed0 0x20 q"
    using c(2)
    by (simp_all add: q hevc_writes2_def hevc_params1_def hevc_params2_def hevc_vps_def hevc_sps_def
        hevc_pps_def ave_hevc_ptl_def Let_def start_hevc_13_5_fields start_avc_13_5_fields hps_13_5_fields
        layout_consts wr_apart_for unat_entries)
  then show ?thesis using vp_run_published [OF c(3) assms(2) assms(3) [unfolded split]] by (simp add: split)
qed

section \<open>The verification accepts what was written\<close>

lemma v_and_True: "a = Ok True \<Longrightarrow> b = Ok True \<Longrightarrow> v_and a b = Ok True"
  by (simp add: v_and_def)

lemma v_all_True: "(\<And>i. i \<in> set is \<Longrightarrow> f (of_nat i) = Ok True) \<Longrightarrow> v_all f is = Ok True"
  by (induction "is") (simp_all add: v_and_def)

lemma v_is8_at: "at b (unat off) [v] \<Longrightarrow> v_is8 b off v = Ok True"
  using at_nth [of b "unat off" "[v]" 0] at_bound [of b "unat off" "[v]"]
  by (simp add: v_is8_def rdb_def rd8_def)

lemma v_is32_at: "at b (unat off) (put_le32 v) \<Longrightarrow> P v \<Longrightarrow> v_is32 b off P = Ok True"
  by (simp add: v_is32_def rd32_def at_put_le32)

lemma v_nesting_at: "at b (unat nest) [1] \<Longrightarrow> unat sub + 4 \<le> length b \<Longrightarrow> v_nesting b sub nest = Ok True"
  using at_nth [of b "unat nest" "[1]" 0] at_bound [of b "unat nest" "[1]"]
  by (simp add: v_nesting_def rd32_def rd_le32_def rdb_def rd8_def)

lemma at_put_le64: "at b off (put_le64 v) \<Longrightarrow> rd_le64 b off = Ok v"
  using at_rd_le64 [of b off "put_le64 v" 0] get_le64_put [of "[]" v "[]"] by simp

lemma v_recon_at:
  assumes "vp_published b s" "s_need_lsb_planes s" "\<not> vp_bad_recon start_avc_13_5 s" "i < unat (s_n_recon s)"
  shows "v_recon b start_avc_13_5 (of_nat i) = Ok True"
proof -
  let ?r = "the (s_recon s) (of_nat i)"
  have n: "unat (s_n_recon s) \<le> 16"
    using assms(3) by (simp add: vp_bad_recon_def start_avc_13_5_fields not_less word_le_nat_alt)
  have "\<not> bad_addr 128 (rb_addr ?r)" "\<not> bad_addr 128 (rb_lsb_addr ?r)"
    using assms(2-4) by (auto simp: vp_bad_recon_def any_below_def list_ex_iff)
  then have "rb_addr ?r \<noteq> 0" "rb_lsb_addr ?r \<noteq> 0" "(rb_addr ?r OR rb_lsb_addr ?r) AND 127 = 0"
    by (simp_all add: bad_addr_def bit.conj_disj_distrib2)
  moreover have "rd_le64 b (0x88 + 16 * i) = Ok (rb_addr ?r)" "rd_le64 b (0x90 + 16 * i) = Ok (rb_lsb_addr ?r)"
    using assms(1,2,4) by (auto simp: vp_published_def intro: at_put_le64)
  moreover have "unat (0x88 + of_nat i * 0x10 :: u32) = 0x88 + 16 * i" "unat (0x90 + of_nat i * 0x10 :: u32) = 0x90 + 16 * i"
    using n assms(4) by (simp_all add: unat_entries)
  ultimately show ?thesis by (simp add: v_recon_def Let_def rd64_def start_avc_13_5_fields add.commute)
qed

lemma hevc_verify_ok:
  assumes "\<not> hevc_refused ave_cmd_abi_13_5 h" "0x32dc8 \<le> length b" "vp_published b (hx_vp h)"
    and f: "\<And>off bs. (off, bs) \<in> set (hevc_fields h) \<Longrightarrow> at b (unat off) bs"
  shows "ave_hevc_verify b ave_cmd_abi_13_5 h = Ok True"
proof -
  note c = hevc_counts [OF assms(1)]
  have "\<not> vp_bad_recon start_avc_13_5 (hx_vp h)" using c(3) by (simp add: ave_vp_check_def split: if_splits)
  then have recon: "v_all (v_recon b start_avc_13_5) [0..<unat (s_n_recon (hx_vp h))] = Ok True"
    using v_recon_at [OF assms(3) c(4)] by (intro v_all_True) simp
  have fmt: "\<not> input_fmt (hx_input_format_word h) < 1" using c(6) by (simp add: word_less_nat_alt unat_gt_0)
  have "\<forall>(off, bs) \<in> set (hevc_fields h). at b (unat off) bs" using f by blast
  then have F: "at b 0x105c4 [1]" "at b 0x246a0 [1]" "at b 0x248c8 (put_le32 1)" "at b 0x26375 [1]"
    "at b 0x26378 (put_le32 0)" "at b 0x2848c (put_le32 0)" "at b 0x2a60c [1]" "at b 0x2a610 (put_le32 0)"
    "at b 0xfeb4 (put_le32 (hx_input_format_word h))" "at b 0xff24 (put_le32 1)" "at b 0x32d9c (put_le32 1)"
    "at b 0xff50 (put_le32 (if s_rc_enable (hx_vp h) then 1 else 2))" "at b 0xfd7d [1]"
    by (simp_all add: hevc_fields_def)
  have "v_nesting b 0x2469c 0x246a0 = Ok True" "v_nesting b 0x105c0 0x105c4 = Ok True"
    using assms(2) F(1,2) by (simp_all add: v_nesting_at)
  moreover have "v_is32 b 0x2848c (\<lambda>v. v = 0) = Ok True" "v_is32 b 0x2a610 (\<lambda>v. v = 0) = Ok True"
    "v_is32 b 0x26378 (\<lambda>v. v = 0) = Ok True" "v_is32 b 0xff24 (\<lambda>v. v \<noteq> 0) = Ok True"
    "v_is32 b 0x32d9c (\<lambda>v. v = 1) = Ok True" "v_is32 b 0xff50 (\<lambda>v. v \<noteq> 0) = Ok True"
    "v_is32 b 0x248c8 (\<lambda>c. \<not> input_fmt (hx_input_format_word h) < c) = Ok True"
    using F(3,5,6,8,10-12) [THEN at_put_le32] fmt by (simp_all add: v_is32_def rd32_def)
  moreover have "v_is8 b 0x26375 1 = Ok True" "v_is8 b 0x2a60c 1 = Ok True" "v_is8 b 0xfd7d 1 = Ok True"
    using F(4,7,13) by (simp_all add: v_is8_at)
  moreover have "rd32 b 0xfeb4 = Ok (hx_input_format_word h)"
    using F(9) by (simp add: rd32_def at_put_le32)
  ultimately show ?thesis
    using recon by (simp add: ave_hevc_verify_def Let_def start_hevc_13_5_fields start_avc_13_5_fields hps_13_5_fields v_and_True)
qed

section \<open>Every accepted session is built\<close>

lemma hevc_build_eq:
  assumes "\<not> cmd_refused ave_cmd_abi_13_5 AVE_OP_START_HEVC (length buf) ctx 0"
    and "\<not> hevc_refused ave_cmd_abi_13_5 h"
  shows "\<exists>w. ave_cmd_build_start_hevc ave_cmd_abi_13_5 buf ctx h = Ok (ave_cmd_end w) \<and> wr_err w = None
    \<and> cmd_built ave_cmd_abi_13_5 AVE_OP_START_HEVC buf ctx 0 (ave_cmd_end w) \<and> vp_published (wr_buf w) (hx_vp h)"
proof -
  have k: "known_abi ave_cmd_abi_13_5" by (simp add: known_abi_def)
  have sz: "ave_cmd_size ave_cmd_abi_13_5 AVE_OP_START_HEVC = 0x32dc8"
    by (simp add: ave_cmd_size_def cmd_13_5_def cmd_ids)
  obtain w where w: "ave_cmd_begin ave_cmd_abi_13_5 AVE_OP_START_HEVC buf ctx 0 = Inr w"
    "cmd_open ave_cmd_abi_13_5 AVE_OP_START_HEVC buf w"
    using begin_ok [OF k assms(1)] by blast
  have wf: "wr_wf w" and len: "0x32dc8 \<le> length (wr_buf w)"
    using w(2) sz by (simp_all add: cmd_open_def wr_wf_def)
  let ?w = "wr_run (hevc_ops h) w"
  have run: "wr_err ?w = None" "cmd_built ave_cmd_abi_13_5 AVE_OP_START_HEVC buf ctx 0 (ave_cmd_end ?w)"
    using built_run [OF k assms(1) w(1)] hevc_writes_in [OF assms(2)] sz by simp_all
  have pub: "vp_published (wr_buf ?w) (hx_vp h)" by (rule hevc_run_published [OF assms(2) wf run(1)])
  have "ave_hevc_verify (wr_buf ?w) ave_cmd_abi_13_5 h = Ok True"
    using len by (intro hevc_verify_ok [OF assms(2) _ pub] hevc_field_at [OF assms(2) wf run(1)])
      (simp add: wr_run_length [OF wf])
  then have "ave_cmd_build_start_hevc ave_cmd_abi_13_5 buf ctx h = Ok (ave_cmd_end ?w)"
    using assms(2) w(1) run(1)
    by (simp add: ave_cmd_build_start_hevc_def Let_def wr_run_append start_avc_13_5_fields layout_consts)
  then show ?thesis using run pub by blast
qed

text \<open>The re-reading of a finished command stays inside it.\<close>

lemma hevc_build_no_fault:
  assumes "known_abi abi"
  shows "ave_cmd_build_start_hevc abi buf ctx h \<noteq> Fault"
proof (cases "hevc_refused abi h \<or> cmd_refused abi AVE_OP_START_HEVC (length buf) ctx 0")
  case True
  then show ?thesis
    by (auto simp: ave_cmd_build_start_hevc_def ave_cmd_begin_def split: sum.splits)
next
  case False
  have "abi = ave_cmd_abi_13_5"
    using False assms by (auto simp: known_abi_def hevc_refused_def hevc_no_layout_def start_hevc_26_6_fields)
  then show ?thesis using hevc_build_eq [of buf ctx h] False by auto
qed

text \<open>C25. On macOS 13.5 an HEVC session that passes the checks of the builder and of the header is built:
  the re-reading of the finished command, which stands between a layout mistake and a firmware that
  spins, never refuses it and never reads outside the buffer, whatever the rest of the caller's
  buffer holds; the answer is the size of the command, its header is the one of the header-only
  command, and the tables of surfaces are published as for AVC.\<close>

theorem hevc_init_built:
  assumes "\<not> cmd_refused ave_cmd_abi_13_5 AVE_OP_START_HEVC (length buf) ctx 0"
    and "\<not> hevc_refused ave_cmd_abi_13_5 h"
  shows "\<exists>res. ave_cmd_build_start_hevc ave_cmd_abi_13_5 buf ctx h = Ok res
    \<and> cmd_built ave_cmd_abi_13_5 AVE_OP_START_HEVC buf ctx 0 res \<and> vp_published (snd res) (hx_vp h)"
proof -
  obtain w where "ave_cmd_build_start_hevc ave_cmd_abi_13_5 buf ctx h = Ok (ave_cmd_end w)" "wr_err w = None"
    "cmd_built ave_cmd_abi_13_5 AVE_OP_START_HEVC buf ctx 0 (ave_cmd_end w)" "vp_published (wr_buf w) (hx_vp h)"
    using hevc_build_eq [OF assms] by blast
  then show ?thesis by (simp add: end_Inr)
qed

text \<open>The firmware interface of macOS 26.6 has no HEVC layout, so no HEVC session and no HEVC frame is
  ever built for it: both builders answer EINVAL and leave the caller's buffer as it is.\<close>

theorem hevc_refused_26_6:
  "ave_cmd_build_start_hevc ave_cmd_abi_26_6 buf ctx h = Ok (Inl EINVAL, buf)
   \<and> ave_cmd_build_process_hevc ave_cmd_abi_26_6 buf ctx sn hf = (Inl EINVAL, buf)"
  by (simp add: ave_cmd_build_start_hevc_def hevc_refused_def hevc_no_layout_def start_hevc_26_6_fields layout_consts
      ave_cmd_build_process_hevc_def hevc_frame_refused_def hevc_frame_no_layout_def Let_def)

section \<open>An example\<close>

definition example_hevc :: ave_hevc_session where
  "example_hevc =
     \<lparr>hx_vp = example_session\<lparr>s_profile_idc := 0, s_level_idc := 0, s_cabac := False, s_scaling_flat := 0,
        s_n_entropy := 2\<rparr>,
      hx_level_idc = 93, hx_input_format_word = 4, hx_bit_depth = 8, hx_input_bitdepth = 8,
      hx_max_num_ref_frames = 1, hx_log2_max_poc_lsb_minus4 = 4, hx_sao = True, hx_wpp = False,
      hx_sps_tmvp = False, hx_n_st_rps = 4, hx_st_rps_refs = 1, hx_bframes = 0, hx_transcoded = (\<lambda>_. 0x60000),
      hx_n_transcoded = 2, hx_transcoded_size = 0x8000, hx_qp_mod = False\<rparr>"

lemma example_hevc_accepted:
  "\<not> cmd_refused ave_cmd_abi_13_5 AVE_OP_START_HEVC (length (replicate 0x32dc8 (0 :: u8))) example_ctx 0"
  "\<not> hevc_refused ave_cmd_abi_13_5 example_hevc"
proof -
  show "\<not> cmd_refused ave_cmd_abi_13_5 AVE_OP_START_HEVC (length (replicate 0x32dc8 (0 :: u8))) example_ctx 0"
    by (simp add: cmd_refused_def cmd_13_5_def hdr_13_5_fields cmd_ids layout_consts abi_consts example_ctx_def Let_def)
  have "ave_vp_check start_avc_13_5 (hx_vp example_hevc) 128 = None"
    by (simp add: ave_vp_check_def vp_bad_params_def vp_bad_recon_def vp_bad_fields_def vp_bad_buffers_def
        bad_entropy_def bad_src_nbr_def bad_per_slot_def any_below_def bad_addr_def or1_def avc_limits layout_consts
        abi_consts start_avc_13_5_fields example_session_def example_hevc_def upt_rec)
  then show "\<not> hevc_refused ave_cmd_abi_13_5 example_hevc"
    by (simp add: hevc_refused_def hevc_no_layout_def hevc_bad_params_def hevc_bad_refs_def hevc_bad_buffers_def
        hevc_align_def any_below_def bad_addr_def start_avc_13_5_fields start_hevc_13_5_fields layout_consts abi_consts
        ave_hevc_level_ok_def input_fmt_def hevc_consts example_session_def example_hevc_def Let_def upt_rec)
qed

lemma hevc_init_built_witness:
  "\<exists>res. ave_cmd_build_start_hevc ave_cmd_abi_13_5 (replicate 0x32dc8 0) example_ctx example_hevc = Ok res
    \<and> fst res = Inr 0x32dc8"
  using hevc_init_built [OF example_hevc_accepted]
  by (auto simp: cmd_built_def ave_cmd_size_def cmd_13_5_def cmd_ids)

end
