(* ===== verification/Ave_Cmd_Built_Frame.thy ===== *)
theory Ave_Cmd_Built_Frame
  imports Ave_Cmd_Tables
begin

text \<open>
  The per-frame commands: every accepted frame is built, and the finished command carries the
  addresses of the frame's surfaces.
\<close>

section \<open>Where the writes land\<close>

lemma pic_check_bounds:
  assumes "ave_pic_check abi f align = None"
  defines "l \<equiv> ab_process_avc abi"
  shows "fr_n_entropy f \<le> pa_entropy_max l" "fr_n_entropy f \<noteq> 0 \<Longrightarrow> or1 (fr_n_entropy_cols f) \<le> or1 (pa_entropy_cols_max l)"
    "fr_n_src_nbr f \<le> pa_src_nbr_max l" "fr_n_scratch f \<le> pa_scratch_n l"
proof -
  have p: "\<not> pic_bad_output abi f align" using assms by (simp add: ave_pic_check_def split: if_splits)
  show "fr_n_entropy f \<le> pa_entropy_max l"
    using p by (cases "fr_n_entropy f = 0") (simp_all add: l_def pic_bad_output_def Let_def bad_entropy_def not_less)
  show "fr_n_src_nbr f \<le> pa_src_nbr_max l"
    using p by (cases "fr_n_src_nbr f = 0") (simp_all add: l_def pic_bad_output_def Let_def bad_src_nbr_def not_less)
  show "fr_n_scratch f \<le> pa_scratch_n l"
    using p by (simp add: l_def pic_bad_output_def Let_def not_less)
  show "fr_n_entropy f \<noteq> 0 \<Longrightarrow> or1 (fr_n_entropy_cols f) \<le> or1 (pa_entropy_cols_max l)"
    using p by (simp add: l_def pic_bad_output_def Let_def bad_entropy_def not_less)
qed

lemma unat_entries3:
  assumes "unat a + unat b * i + unat c * j < 2 ^ 32" "i < 2 ^ 32" "j < 2 ^ 32"
  shows "unat (a + b * of_nat i + c * of_nat j :: u32) = unat a + unat b * i + unat c * j"
proof -
  have "unat (a + b * of_nat i :: u32) = unat a + unat b * i" using assms by (intro unat_entries) simp_all
  then show ?thesis using assms unat_entries(1) [of "a + b * of_nat i" c j] by simp
qed

lemma src_nbr_in:
  assumes "unat n \<le> 4" "\<forall>g < 4. lo \<le> unat (base + sets ! g) \<and> unat (base + sets ! g) + 32 \<le> hi" "hi \<le> 0x40000"
  shows "wr_in lo hi (src_nbr_writes sets base n e)"
proof -
  have "unat (base + sets ! g + of_nat i * 8) = unat (base + sets ! g) + 8 * i" if "g < 4" "i < 4" for g i
    using that assms(2,3) by (subst unat_entries) auto
  then show ?thesis
    using assms by (auto simp: src_nbr_writes_def wr_in_for wr_in_concat AVE_SRC_NBR_GROUPS_def)
qed

lemma all_less_4: "(\<forall>g < (4 :: nat). P g) \<longleftrightarrow> P 0 \<and> P 1 \<and> P 2 \<and> P 3"
  by (simp add: numeral_eq_Suc All_less_Suc conj_ac)

lemma scratch_in:
  assumes "unat n \<le> length offs" "list_all (\<lambda>o'. o' \<noteq> 0 \<longrightarrow> lo \<le> unat (base + o') \<and> unat (base + o') + 8 \<le> hi) offs"
  shows "wr_in lo hi (wr_for n (\<lambda>i. wr_if (v i \<noteq> 0 \<and> offs ! unat i \<noteq> AVE_OFF_NONE) (wr64 (base + offs ! unat i) (v i))))"
proof -
  have "unat (of_nat i :: u32) = i" if "i < unat n" for i
    using that unat_u32_bound [of n] by (intro unat_of_nat_small) simp
  then show ?thesis
    using assms by (auto simp: wr_in_for list_all_length AVE_OFF_NONE_def)
qed

lemma pic_fill_in_13_5:
  assumes "ave_pic_check ave_cmd_abi_13_5 f align = None" "base = 0x9c8 \<or> base = 0x55b0"
  shows "wr_in (unat base) (unat base + 0xf68) (ave_pic_fill process_avc_13_5 base f)"
proof -
  note b = pic_check_bounds [OF assms(1), unfolded word_le_nat_alt]
  have c: "unat (or1 (fr_n_entropy_cols f)) \<le> 4" if "fr_n_entropy f \<noteq> 0"
    using b(2) [OF that] by (simp add: process_avc_13_5_fields or1_def split: if_splits)
  have "wr_in (unat base) (unat base + 0xf68) (pic_fill_input process_avc_13_5 base f)"
    "wr_in (unat base) (unat base + 0xf68) (pic_fill_output process_avc_13_5 base f)"
    using assms(2) by (auto simp: pic_fill_input_def pic_fill_output_def process_avc_13_5_fields layout_consts)
  moreover have "wr_in (unat base) (unat base + 0xf68) (wr_for (fr_n_entropy f) (\<lambda>i. wr_for (or1 (fr_n_entropy_cols f)) (\<lambda>j.
      wr64 (base + 0xa00 + 0x20 * i + 8 * j) (fr_entropy f i j))))"
    using c b(1) assms(2)
    by (cases "fr_n_entropy f = 0") (auto simp: wr_in_for process_avc_13_5_fields unat_entries3)
  moreover have "wr_in (unat base) (unat base + 0xf68) (src_nbr_writes [0x980, 0x9a0, 0x9c0, 0x9e0] base (fr_n_src_nbr f) (fr_src_nbr f))"
    using b(3) assms(2) by (intro src_nbr_in) (auto simp: process_avc_13_5_fields all_less_4)
  moreover have "wr_in (unat base) (unat base + 0xf68) (wr_for (fr_n_scratch f) (\<lambda>i.
      wr_if (fr_scratch f i \<noteq> 0 \<and> [0x8e0, 0x8e8, 0x8f0, 0x900] ! unat i \<noteq> AVE_OFF_NONE)
        (wr64 (base + [0x8e0, 0x8e8, 0x8f0, 0x900] ! unat i) (fr_scratch f i))))"
    using b(4) assms(2) by (intro scratch_in) (auto simp: process_avc_13_5_fields)
  ultimately show ?thesis
    using assms(2) by (auto simp: ave_pic_fill_def pic_fill_scratch_def process_avc_13_5_fields)
qed

lemma pic_fill_in_26_6:
  assumes "ave_pic_check ave_cmd_abi_26_6 f align = None"
  shows "wr_in 0x12c0 0x63d8 (ave_pic_fill process_avc_26_6 0x12c0 f)"
proof -
  note b = pic_check_bounds [OF assms, unfolded word_le_nat_alt]
  have z: "fr_mp_stats_in_addr f = 0"
    using assms by (simp add: ave_pic_check_def pic_bad_input_def Let_def process_avc_26_6_fields layout_consts split: if_splits)
  have "wr_in 0x12c0 0x63d8 (pic_fill_input process_avc_26_6 0x12c0 f)"
    "wr_in 0x12c0 0x63d8 (pic_fill_output process_avc_26_6 0x12c0 f)"
    using z by (simp_all add: pic_fill_input_def pic_fill_output_def process_avc_26_6_fields layout_consts)
  moreover have "wr_in 0x12c0 0x63d8 (src_nbr_writes [0x4670, 0x4690, 0x46b0, 0x46d0] 0x12c0 (fr_n_src_nbr f) (fr_src_nbr f))"
    using b(3) by (intro src_nbr_in) (auto simp: process_avc_26_6_fields all_less_4)
  moreover have "wr_in 0x12c0 0x63d8 (wr_for (fr_n_scratch f) (\<lambda>i.
      wr_if (fr_scratch f i \<noteq> 0 \<and> [0x45f8, 0x4608, 0x4618, 0] ! unat i \<noteq> AVE_OFF_NONE)
        (wr64 (0x12c0 + [0x45f8, 0x4608, 0x4618, 0] ! unat i) (fr_scratch f i))))"
    using b(4) by (intro scratch_in) (auto simp: process_avc_26_6_fields)
  ultimately show ?thesis
    using b(1) by (simp add: ave_pic_fill_def pic_fill_scratch_def process_avc_26_6_fields wr_in_for)
qed

lemma pic_macos_in_13_5:
  assumes "ave_pic_check ave_cmd_abi_13_5 f align = None"
  shows "wr_in 64 0x1940 (pic_macos process_avc_13_5 f)"
proof -
  note b = pic_check_bounds [OF assms, unfolded word_le_nat_alt]
  have "wr_in 64 0x1940 (src_nbr_writes [0x980, 0x9a0, 0x9c0, 0x9e0] 0x9c8 (fr_n_src_nbr f) (\<lambda>_ _. 0))"
    using b(3) by (intro src_nbr_in) (auto simp: process_avc_13_5_fields all_less_4)
  then show ?thesis
    using b(1) by (auto simp: pic_macos_def Let_def wr_in_for process_avc_13_5_fields layout_consts AVE_ENTROPY_COLS_def unat_entries3)
qed

section \<open>What a finished frame command carries\<close>

text \<open>The fields of the picture block at \<open>base\<close> that say what is encoded and where it goes.\<close>

definition pic_fields :: "u32 \<Rightarrow> ave_avc_frame \<Rightarrow> (u32 \<times> u8 list) list" where
  "pic_fields base f =
     [(base + 0x8c0, put_le64 (fr_in_luma_addr f)), (base + 0x8c8, put_le32 (fr_in_luma_stride f)),
      (base + 0x8d0, put_le64 (fr_in_chroma_addr f)), (base + 0x8d8, put_le32 (fr_in_chroma_stride f)),
      (base + 0xc04, put_le32 (fr_coded_index f)), (base + 0xc08, put_le64 (fr_coded_addr f)),
      (base + 0xc10, put_le64 (fr_coded_hdr_addr f)), (base + 0xc18, put_le32 (fr_coded_size f)),
      (base + 0xca8, put_le32 (ucast (fr_frame_num f))), (base + 0xcac, put_le32 (fr_frame_type f))]"

lemma pic_fields_keep:
  assumes "ave_pic_check ave_cmd_abi_13_5 f align = None" "base = 0x9c8 \<or> base = 0x55b0"
  shows "\<forall>(off, bs) \<in> set (pic_fields base f). WrBytes off bs \<in> set (ave_pic_fill process_avc_13_5 base f)
    \<and> wr_keeps off bs (ave_pic_fill process_avc_13_5 base f)"
proof -
  note b = pic_check_bounds [OF assms(1), unfolded word_le_nat_alt]
  have c: "unat (or1 (fr_n_entropy_cols f)) \<le> 4" if "fr_n_entropy f \<noteq> 0"
    using b(2) [OF that] by (simp add: process_avc_13_5_fields or1_def split: if_splits)
  let ?w = "wr_in (unat base + 0x8e0) (unat base + 0xa80)"
  have "?w (wr_for (fr_n_entropy f) (\<lambda>i. wr_for (or1 (fr_n_entropy_cols f)) (\<lambda>j.
      wr64 (base + 0xa00 + 0x20 * i + 8 * j) (fr_entropy f i j))))"
    using c b(1) assms(2)
    by (cases "fr_n_entropy f = 0") (auto simp: wr_in_for process_avc_13_5_fields unat_entries3)
  moreover have "?w (src_nbr_writes [0x980, 0x9a0, 0x9c0, 0x9e0] base (fr_n_src_nbr f) (fr_src_nbr f))"
    using b(3) assms(2) by (intro src_nbr_in) (auto simp: process_avc_13_5_fields all_less_4)
  moreover have "?w (wr_for (fr_n_scratch f) (\<lambda>i.
      wr_if (fr_scratch f i \<noteq> 0 \<and> [0x8e0, 0x8e8, 0x8f0, 0x900] ! unat i \<noteq> AVE_OFF_NONE)
        (wr64 (base + [0x8e0, 0x8e8, 0x8f0, 0x900] ! unat i) (fr_scratch f i))))"
    using b(4) assms(2) by (intro scratch_in) (auto simp: process_avc_13_5_fields)
  ultimately have tables: "wr_keeps off bs (wr_for (fr_n_entropy f) (\<lambda>i. wr_for (or1 (fr_n_entropy_cols f)) (\<lambda>j.
        wr64 (base + 0xa00 + 0x20 * i + 8 * j) (fr_entropy f i j))))"
      "wr_keeps off bs (src_nbr_writes [0x980, 0x9a0, 0x9c0, 0x9e0] base (fr_n_src_nbr f) (fr_src_nbr f))"
      "wr_keeps off bs (wr_for (fr_n_scratch f) (\<lambda>i.
        wr_if (fr_scratch f i \<noteq> 0 \<and> [0x8e0, 0x8e8, 0x8f0, 0x900] ! unat i \<noteq> AVE_OFF_NONE)
          (wr64 (base + [0x8e0, 0x8e8, 0x8f0, 0x900] ! unat i) (fr_scratch f i))))"
    if "unat off + length bs \<le> unat base + 0x8e0 \<or> unat base + 0xa80 \<le> unat off" for off bs
    using that by (meson wr_in_apart wr_apart_keeps)+
  show ?thesis
    using assms(2) tables
    by (elim disjE)
      (simp_all add: pic_fields_def ave_pic_fill_def pic_fill_input_def pic_fill_output_def pic_fill_scratch_def
        process_avc_13_5_fields layout_consts wr32_opt_def)
qed

lemma pic_fields_at:
  assumes "ave_pic_check ave_cmd_abi_13_5 f align = None" "base = 0x9c8 \<or> base = 0x55b0"
    and "wr_wf w" "wr_err (wr_run (ave_pic_fill process_avc_13_5 base f @ q) w) = None"
    and "\<And>off bs. (off, bs) \<in> set (pic_fields base f) \<Longrightarrow> wr_keeps off bs q"
    and "(off, bs) \<in> set (pic_fields base f)"
  shows "at (wr_buf (wr_run (ave_pic_fill process_avc_13_5 base f @ q) w)) (unat off) bs"
  by (rule run_keeps_at [OF assms(3,4)]) (use pic_fields_keep [OF assms(1,2)] assms(5,6) in auto)

text \<open>What an AVC frame writes behind the picture block, and an HEVC frame.\<close>

lemma avc_tail_keeps_13_5:
  assumes "ave_pic_check ave_cmd_abi_13_5 f align = None"
  shows "\<forall>(off, bs) \<in> set (pic_fields 0x9c8 f). wr_keeps off bs (wr_if c1 (wr8 0x7c 1) @
    wr_if c2 (pic_macos process_avc_13_5 f) @ ave_macos_apply macos_process_avc_13_5 g)"
proof -
  note b = pic_check_bounds [OF assms, unfolded word_le_nat_alt]
  have "wr_in 0x1348 0x1448 (src_nbr_writes [0x980, 0x9a0, 0x9c0, 0x9e0] 0x9c8 (fr_n_src_nbr f) (\<lambda>_ _. 0))"
    using b(3) by (intro src_nbr_in) (auto simp: process_avc_13_5_fields all_less_4)
  moreover have "wr_in 0x1348 0x1448 (wr_for (fr_n_entropy f) (\<lambda>i. wr_for (of_nat AVE_ENTROPY_COLS) (\<lambda>j.
      wr64 (0x13c8 + 0x20 * i + 8 * j) 0)))"
    using b(1) by (auto simp: wr_in_for process_avc_13_5_fields AVE_ENTROPY_COLS_def unat_entries3)
  ultimately have t: "wr_keeps off bs (src_nbr_writes [0x980, 0x9a0, 0x9c0, 0x9e0] 0x9c8 (fr_n_src_nbr f) (\<lambda>_ _. 0))"
    "wr_keeps off bs (wr_for (fr_n_entropy f) (\<lambda>i. wr_for (of_nat AVE_ENTROPY_COLS) (\<lambda>j.
      wr64 (0x13c8 + 0x20 * i + 8 * j) 0)))"
    if "unat off + length bs \<le> 0x1348 \<or> 0x1448 \<le> unat off" for off bs
    using that by (meson wr_in_apart wr_apart_keeps)+
  have "wr_apart a k (ave_macos_apply macos_process_avc_13_5 g)" if "0x9c4 \<le> a" "a + k \<le> 0x1000 \<or> 0x109c \<le> a" for a k
    using that by (intro macos_apart) (auto simp: macos_process_avc_13_5_def)
  then show ?thesis
    using t by (simp add: pic_fields_def wr_apart_keeps pic_macos_def Let_def process_avc_13_5_fields layout_consts)
qed

lemma hevc_tail_keeps_13_5:
  "\<forall>(off, bs) \<in> set (pic_fields 0x55b0 f). wr_keeps off bs (hevc_slice_writes process_hevc_13_5 hf)"
proof -
  have "wr_in 0x5a8 0xda8 (wr_for 0x100 (\<lambda>i. wr64 (0x5a8 + 8 * i) (v i)))" for v
    by (simp add: wr_in_for unat_entries)
  then have "wr_keeps off bs (wr_for 0x100 (\<lambda>i. wr64 (0x5a8 + 8 * i) (v i)))" if "0xda8 \<le> unat off" for v off bs
    using that by (meson wr_in_apart wr_apart_keeps)
  then show ?thesis
    by (simp add: pic_fields_def hevc_slice_writes_def Let_def process_hevc_13_5_fields)
qed

lemma built_carries:
  assumes "\<not> cmd_refused ave_cmd_abi_13_5 op (length buf) ctx sn" "ave_pic_check ave_cmd_abi_13_5 f align = None"
    and "base = 0x9c8 \<or> base = 0x55b0"
    and "wr_in 64 (ave_cmd_size ave_cmd_abi_13_5 op) (ave_pic_fill process_avc_13_5 base f @ q)"
    and "\<forall>(off, bs) \<in> set (pic_fields base f). wr_keeps off bs q"
  shows "\<forall>(off, bs) \<in> set (pic_fields base f).
    at (snd (cmd_with ave_cmd_abi_13_5 op buf ctx sn (ave_pic_fill process_avc_13_5 base f @ q))) (unat off) bs"
proof -
  have k: "known_abi ave_cmd_abi_13_5" by (simp add: known_abi_def)
  obtain w where w: "ave_cmd_begin ave_cmd_abi_13_5 op buf ctx sn = Inr w" "cmd_open ave_cmd_abi_13_5 op buf w"
    using begin_ok [OF k assms(1)] by blast
  have "wr_err (wr_run (ave_pic_fill process_avc_13_5 base f @ q) w) = None"
    using built_run [OF k assms(1) w(1) assms(4)] by blast
  moreover have "wr_wf w" using w(2) by (simp add: cmd_open_def)
  moreover have "wr_keeps off bs q" if "(off, bs) \<in> set (pic_fields base f)" for off bs
    using assms(5) that by blast
  ultimately have "at (wr_buf (wr_run (ave_pic_fill process_avc_13_5 base f @ q) w)) (unat off) bs"
    if "(off, bs) \<in> set (pic_fields base f)" for off bs
    using pic_fields_at [OF assms(2,3)] that by blast
  then show ?thesis
    using w(1) \<open>wr_err _ = None\<close> by (auto simp: cmd_with_def end_Inr)
qed

section \<open>Every accepted frame is built\<close>

text \<open>C26. An AVC frame that passes the checks is built, on both interfaces: every write lands in the picture
  block of the command (or, for the macOS constants, in the slice parameters in front of it),
  none reaches the header. On macOS 13.5 the finished command carries the source planes with their
  strides, the coded buffer with its index, size and header, and the number and the type of the
  frame at the places the firmware reads, behind every later write. (Where the interface has no
  field for spatial direct prediction, a B frame that asks for it is an error.)\<close>

theorem avc_frame_built:
  assumes "known_abi abi" "\<not> cmd_refused abi AVE_OP_PROCESS_AVC (length buf) ctx sn" "\<not> avc_frame_refused abi f"
    and "spatial_b f \<Longrightarrow> abi = ave_cmd_abi_13_5"
  shows "cmd_built abi AVE_OP_PROCESS_AVC buf ctx sn (ave_cmd_build_process_avc abi buf ctx sn f)
    \<and> (abi = ave_cmd_abi_13_5 \<longrightarrow> (\<forall>(off, bs) \<in> set (pic_fields 0x9c8 f).
        at (snd (ave_cmd_build_process_avc abi buf ctx sn f)) (unat off) bs))"
proof -
  let ?l = "ab_process_avc abi" and ?g = "ucast (fr_macos f) :: u32"
  let ?pic = "in_group ?g AVE_MACOS_G_PIC"
  let ?ops = "ave_pic_fill ?l (pa_picmgmt ?l) f @ wr_if (spatial_b f) (wr8 (pa_direct_spatial ?l) 1) @
      wr_if ?pic (pic_macos ?l f) @ ave_macos_apply (ab_macos_process_avc abi) ?g"
  have chk: "ave_pic_check abi f AVE_STRIDE_ALIGN = None" "ave_macos_check (ab_macos_process_avc abi) ?g = None"
    using assms(3) by (simp_all add: avc_frame_refused_def)
  have "wr_in 64 (ave_cmd_size abi AVE_OP_PROCESS_AVC) ?ops \<and> (spatial_b f \<longrightarrow> pa_direct_spatial ?l \<noteq> AVE_OFF_NONE)
    \<and> (?pic \<longrightarrow> pa_first_process ?l \<noteq> AVE_OFF_NONE)"
  proof (cases "abi = ave_cmd_abi_13_5")
    case True
    have "wr_in 64 0x1940 (ave_macos_apply macos_process_avc_13_5 ?g)"
      by (rule macos_in) (simp add: macos_process_avc_13_5_def)
    moreover have "wr_in 64 0x1940 (ave_pic_fill process_avc_13_5 0x9c8 f)"
      using pic_fill_in_13_5 [of f AVE_STRIDE_ALIGN "0x9c8"] chk(1) True by (auto intro: wr_in_mono)
    ultimately show ?thesis
      using True pic_macos_in_13_5 [of f AVE_STRIDE_ALIGN] chk(1)
      by (simp add: ave_cmd_size_def cmd_13_5_def cmd_ids process_avc_13_5_fields layout_consts)
  next
    case False
    then have t: "abi = ave_cmd_abi_26_6" "\<not> spatial_b f" using assms(1,4) by (auto simp: known_abi_def)
    then have "?g = 0" using chk(2) by (simp add: ave_macos_check_def split: if_splits)
    then have "\<not> ?pic" "ave_macos_apply (ab_macos_process_avc abi) ?g = []"
      by (simp_all add: in_group_def ave_macos_apply_def wr_if_def)
    moreover have "wr_in 64 0x63d8 (ave_pic_fill process_avc_26_6 0x12c0 f)"
      using pic_fill_in_26_6 [of f AVE_STRIDE_ALIGN] chk(1) t by (auto intro: wr_in_mono)
    ultimately show ?thesis
      using t by (simp add: ave_cmd_size_def cmd_26_6_def cmd_ids process_avc_26_6_fields)
  qed
  note i = this
  have "ave_cmd_build_process_avc abi buf ctx sn f = cmd_with abi AVE_OP_PROCESS_AVC buf ctx sn ?ops"
    using i assms(3)
    by (auto simp: ave_cmd_build_process_avc_def cmd_with_def Let_def wr_run_append split: sum.split)
  moreover have "\<forall>(off, bs) \<in> set (pic_fields 0x9c8 f).
      at (snd (cmd_with abi AVE_OP_PROCESS_AVC buf ctx sn ?ops)) (unat off) bs" if t: "abi = ave_cmd_abi_13_5"
    using built_carries [of AVE_OP_PROCESS_AVC buf ctx sn f AVE_STRIDE_ALIGN "0x9c8"] assms(2) chk(1) i
      avc_tail_keeps_13_5 [of f AVE_STRIDE_ALIGN] unfolding t by (simp add: process_avc_13_5_fields)
  moreover have "cmd_built abi AVE_OP_PROCESS_AVC buf ctx sn (cmd_with abi AVE_OP_PROCESS_AVC buf ctx sn ?ops)"
    using cmd_with_built [OF assms(1,2)] i by blast
  ultimately show ?thesis by metis
qed

lemma hevc_slice_in:
  "wr_in 64 0x6838 (hevc_slice_writes process_hevc_13_5 hf)"
  by (simp add: hevc_slice_writes_def Let_def process_hevc_13_5_fields wr_in_for unat_entries)

text \<open>C27. An HEVC frame that passes the checks is built on macOS 13.5, with the 256 slots of the slice
  headers and the reference picture set in front of and behind the picture block.\<close>

theorem hevc_frame_built:
  assumes "\<not> cmd_refused ave_cmd_abi_13_5 AVE_OP_PROCESS_HEVC (length buf) ctx sn"
    and "\<not> hevc_frame_refused ave_cmd_abi_13_5 hf"
  shows "cmd_built ave_cmd_abi_13_5 AVE_OP_PROCESS_HEVC buf ctx sn
    (ave_cmd_build_process_hevc ave_cmd_abi_13_5 buf ctx sn hf)
    \<and> (\<forall>(off, bs) \<in> set (pic_fields 0x55b0 (hf_pic hf)).
        at (snd (ave_cmd_build_process_hevc ave_cmd_abi_13_5 buf ctx sn hf)) (unat off) bs)"
proof -
  have chk: "ave_pic_check ave_cmd_abi_13_5 (hf_pic hf) 128 = None"
    using assms(2) by (simp add: hevc_frame_refused_def Let_def hevc_align_def start_hevc_13_5_fields)
  have "wr_in 64 0x6838 (ave_pic_fill process_avc_13_5 0x55b0 (hf_pic hf))"
    using chk pic_fill_in_13_5 [of "hf_pic hf" 128 "0x55b0"] by (auto intro: wr_in_mono)
  then have i: "wr_in 64 (ave_cmd_size ave_cmd_abi_13_5 AVE_OP_PROCESS_HEVC)
      (ave_pic_fill process_avc_13_5 0x55b0 (hf_pic hf) @ hevc_slice_writes process_hevc_13_5 hf)"
    by (simp add: hevc_slice_in ave_cmd_size_def cmd_13_5_def cmd_ids)
  have "ave_cmd_build_process_hevc ave_cmd_abi_13_5 buf ctx sn hf = cmd_with ave_cmd_abi_13_5 AVE_OP_PROCESS_HEVC buf ctx sn
      (ave_pic_fill process_avc_13_5 0x55b0 (hf_pic hf) @ hevc_slice_writes process_hevc_13_5 hf)"
    using assms(2) by (simp add: ave_cmd_build_process_hevc_def process_hevc_13_5_fields)
  moreover have "known_abi ave_cmd_abi_13_5" by (simp add: known_abi_def)
  ultimately show ?thesis
    using cmd_with_built [OF _ assms(1) i] built_carries [OF assms(1) chk _ i] hevc_tail_keeps_13_5 by simp
qed

section \<open>Example frames\<close>

text \<open>The first picture of a session: 1280 bytes a line, no neighbour or scratch area.\<close>

definition example_frame :: ave_avc_frame where
  "example_frame =
     \<lparr>fr_frame_type = AVE_FRAME_TYPE_IDR, fr_direct_spatial = False, fr_macos = 0, fr_frame_num = 0, fr_poc = 0,
      fr_frame_rate = 30, fr_in_luma_addr = 0x100000, fr_in_luma_stride = 1280, fr_in_luma_size = 0x78000,
      fr_in_chroma_addr = 0x180000, fr_in_chroma_stride = 1280, fr_in_dims = (\<lambda>_. 0), fr_mp_stats_in_addr = 0,
      fr_in_chroma_size = 0x3c000, fr_coded_index = 0, fr_coded_addr = 0x40000, fr_coded_hdr_addr = 0x50000,
      fr_coded_size = 0x8000, fr_recon_luma_addr = 0, fr_recon_chroma_addr = 0, fr_recon_mv_addr = 0,
      fr_recon_luma_lsb_addr = 0, fr_recon_chroma_lsb_addr = 0, fr_ctx_index = 0, fr_force_key_frame = True,
      fr_force_non_ref = False, fr_update_param_sets = True, fr_low_res_src_addr = 0,
      fr_entropy = (\<lambda>_ _. 0x30000), fr_n_entropy = 1, fr_n_entropy_cols = 1, fr_src_nbr = (\<lambda>_ _. 0),
      fr_n_src_nbr = 0, fr_scratch = (\<lambda>_. 0), fr_n_scratch = 0\<rparr>"

definition example_hevc_frame :: ave_hevc_frame where
  "example_hevc_frame =
     \<lparr>hf_pic = example_frame, hf_poc_lsb = 0, hf_sao = True, hf_hdr_slot_base = 0x60000,
      hf_hdr_slot_size = 0x100000, hf_single_xc = False, hf_bframes = 0\<rparr>"

lemma example_frame_accepted:
  "ave_pic_check ave_cmd_abi_13_5 example_frame AVE_STRIDE_ALIGN = None"
  "ave_pic_check ave_cmd_abi_13_5 example_frame 128 = None"
  "ave_macos_check macos_process_avc_13_5 (ucast (fr_macos example_frame)) = None"
  by (simp_all add: ave_pic_check_def pic_bad_input_def pic_bad_output_def bad_addr_def bad_stride_def
      bad_entropy_def bad_src_nbr_def any_below_def or1_def ave_macos_check_def macos_process_avc_13_5_def
      process_avc_13_5_fields start_avc_13_5_fields layout_consts abi_consts AVE_ENTROPY_MAX_def AVE_ENTROPY_COLS_def
      example_frame_def upt_rec Let_def)

lemma example_frame_fields:
  "fr_frame_type example_frame = AVE_FRAME_TYPE_IDR" "fr_coded_addr example_frame = 0x40000"
  "fr_macos example_frame = 0"
  by (simp_all add: example_frame_def)

lemma example_frame_cmds:
  "\<not> cmd_refused ave_cmd_abi_13_5 AVE_OP_PROCESS_AVC (length (replicate 0x1940 (0 :: u8))) example_ctx 0"
  "\<not> avc_frame_refused ave_cmd_abi_13_5 example_frame"
  "\<not> cmd_refused ave_cmd_abi_13_5 AVE_OP_PROCESS_HEVC (length (replicate 0x6838 (0 :: u8)))
     (example_ctx\<lparr>cx_hevc := True\<rparr>) 0"
  "\<not> hevc_frame_refused ave_cmd_abi_13_5 example_hevc_frame"
  using example_frame_accepted [unfolded example_frame_fields]
  by (simp_all add: cmd_refused_def cmd_13_5_def hdr_13_5_fields cmd_ids layout_consts abi_consts example_ctx_def
      avc_frame_refused_def hevc_frame_refused_def hevc_frame_no_layout_def hevc_align_def
      process_hevc_13_5_fields process_avc_13_5_fields start_hevc_13_5_fields
      example_hevc_frame_def example_frame_fields frame_types Let_def)

lemma avc_frame_built_witness:
  "cmd_built ave_cmd_abi_13_5 AVE_OP_PROCESS_AVC (replicate 0x1940 0) example_ctx 0
     (ave_cmd_build_process_avc ave_cmd_abi_13_5 (replicate 0x1940 0) example_ctx 0 example_frame)
   \<and> at (snd (ave_cmd_build_process_avc ave_cmd_abi_13_5 (replicate 0x1940 0) example_ctx 0 example_frame))
       0x15d0 (put_le64 0x40000)"
proof -
  have "known_abi ave_cmd_abi_13_5" "(0x15d0, put_le64 0x40000) \<in> set (pic_fields 0x9c8 example_frame)"
    by (simp_all add: known_abi_def pic_fields_def example_frame_def)
  with avc_frame_built [OF _ example_frame_cmds(1,2)] show ?thesis by force
qed

lemma hevc_frame_built_witness:
  "cmd_built ave_cmd_abi_13_5 AVE_OP_PROCESS_HEVC (replicate 0x6838 0) (example_ctx\<lparr>cx_hevc := True\<rparr>) 0
     (ave_cmd_build_process_hevc ave_cmd_abi_13_5 (replicate 0x6838 0) (example_ctx\<lparr>cx_hevc := True\<rparr>) 0
       example_hevc_frame)"
  using hevc_frame_built [OF example_frame_cmds(3,4)] by blast

end
