(* ===== verification/Ave_Cmd_Read.thy ===== *)
theory Ave_Cmd_Read
  imports Ave_Cmd_Built
begin

text \<open>
  What the driver reads and computes beside the builders: the header of a coded frame, a completion
  message, and the two numeric helpers, the lambda table and the bit pattern of a double.
\<close>

section \<open>The header of a coded frame\<close>

text \<open>Slices that follow each other without a gap from \<open>off\<close>; the trim of each is below 128.\<close>

fun slices_contiguous :: "nat \<Rightarrow> ave_coded_slice list \<Rightarrow> nat \<Rightarrow> bool" where
  "slices_contiguous off [] tot \<longleftrightarrow> off = tot"
| "slices_contiguous off (s # ss) tot \<longleftrightarrow>
     unat (cs_off s) = off \<and> (\<exists>next \<le> 0x40000000. off + unat (cs_len s) \<le> next \<and> next < off + unat (cs_len s) + 128
        \<and> slices_contiguous next ss tot)"

text \<open>The sums of the walk.\<close>

definition sums_ok :: "bool \<Rightarrow> u32 \<Rightarrow> slice_sums \<Rightarrow> bool" where
  "sums_ok hevc slot_max s \<longleftrightarrow>
     length (ss_slices s) \<le> AVE_CODED_SLICE_MAX
   \<and> unat (ss_written s) \<le> 0x40000000
   \<and> slices_contiguous 0 (ss_slices s) (unat (ss_written s))
   \<and> unat (ss_written s) = unat (ss_removed s) + sum_list (map (unat \<circ> cs_len) (ss_slices s))
   \<and> unat (ss_hdr s) = sum_list (map (unat \<circ> cs_hdr_len) (ss_slices s))
   \<and> (\<forall>x\<in>set (ss_slices s). unat (cs_hdr_len x) \<le> 0x100000 \<and> (\<not> hevc \<longrightarrow> cs_hdr_len x = 0)
        \<and> (slot_max \<noteq> 0 \<longrightarrow> unat (cs_hdr_len x) \<le> unat slot_max))"

lemma contiguous_snoc:
  "slices_contiguous off ss tot \<Longrightarrow> unat (cs_off s) = tot \<Longrightarrow> tot' \<le> 0x40000000 \<Longrightarrow> tot + unat (cs_len s) \<le> tot' \<Longrightarrow>
    tot' < tot + unat (cs_len s) + 128 \<Longrightarrow> slices_contiguous off (ss @ [s]) tot'"
  by (induction ss arbitrary: off) auto

lemma slice_record_safe:
  assumes "unat (dh_slice_bytes_written c) + 4 \<le> unat (dh_slice_bytes_removed c) + 1"
  shows "safe (\<lambda>r. case r of None \<Rightarrow> True | Some (n, trim, hl, iova) \<Rightarrow> \<not> hevc \<longrightarrow> hl = 0) (slice_record c h hevc i)"
  unfolding slice_record_def Let_def using assms
  by (auto simp: rd_le32_def rd8_def rd_le64_def)

lemma unat_trim:
  fixes trim :: u8
  assumes "\<not> sint trim < 0"
  shows "unat (ucast trim :: u32) = unat trim" "unat trim < 128"
proof -
  show "unat (ucast trim :: u32) = unat trim"
    using unsigned_less [of trim, where ?'a = nat] by (simp add: unsigned_ucast_eq take_bit_nat_eq_self)
  have "\<not> bit trim 7" using assms bit_last_iff [of trim] by simp
  then have "bit trim n \<longleftrightarrow> n < 7 \<and> bit trim n" if "n < 8" for n using that by (cases "n = 7") auto
  then have "trim = take_bit 7 trim" by (intro bit_word_eqI) (simp add: bit_simps)
  then have "unat trim = take_bit 7 (unat trim)" by (metis unsigned_take_bit_eq)
  moreover have "take_bit 7 (unat trim) < 2 ^ 7" by (rule take_bit_nat_less_exp)
  ultimately show "unat trim < 128" by simp
qed

lemma sums_step:
  assumes s: "sums_ok hevc slot_max s" and l: "\<not> AVE_CODED_SLICE_MAX \<le> length (ss_slices s)"
    and ok: "\<not> slice_bad hevc slot_max (ss_written s) (n, trim, hl, iova)" and hl: "\<not> hevc \<longrightarrow> hl = 0"
  shows "sums_ok hevc slot_max \<lparr>ss_written = ss_written s + n, ss_removed = ss_removed s + ucast trim, ss_hdr = ss_hdr s + hl,
      ss_slices = ss_slices s @
        [\<lparr>cs_off = ss_written s, cs_len = n - ucast trim, cs_hdr_iova = iova, cs_hdr_len = hl\<rparr>]\<rparr>"
proof -
  have t: "\<not> sint trim < 0" "ucast trim \<le> n" "n \<le> 0x40000000" "ss_written s \<le> 0x40000000 - n"
    using ok by (auto simp: slice_bad_def)
  note tr = unat_trim [OF t(1)]
  have n: "unat n \<le> 0x40000000" using t(3) by (simp add: word_le_nat_alt)
  then have w: "unat (ss_written s) + unat n \<le> 0x40000000"
    using t(3,4) by (simp add: word_le_nat_alt unat_diff_le)
  have tn: "unat trim \<le> unat n" using t(2) tr(1) by (simp add: word_le_nat_alt)
  have hb: "unat hl \<le> 0x100000" using ok hl by (cases hevc) (auto simp: slice_bad_def word_le_nat_alt not_less)
  have hm: "slot_max \<noteq> 0 \<longrightarrow> unat hl \<le> unat slot_max"
    using ok hl by (cases hevc) (auto simp: slice_bad_def word_le_nat_alt not_less)
  have "sum_list (map (unat \<circ> cs_hdr_len) xs) \<le> length xs * 0x100000"
    if "\<forall>x\<in>set xs. unat (cs_hdr_len x) \<le> 0x100000" for xs
    using that by (induction xs) auto
  from this [of "ss_slices s"] have "unat (ss_hdr s) \<le> length (ss_slices s) * 0x100000"
    using s by (simp add: sums_ok_def)
  also have "\<dots> \<le> 15 * 0x100000" using l by (simp add: AVE_CODED_SLICE_MAX_def)
  finally have h: "unat (ss_hdr s + hl) = unat (ss_hdr s) + unat hl"
    using hb by (intro unat_add_nowrap) simp
  have wn: "unat (ss_written s + n) = unat (ss_written s) + unat n" using w by (intro unat_add_nowrap) simp
  have "unat (ss_removed s) \<le> unat (ss_written s)" using s by (simp add: sums_ok_def)
  then have rn: "unat (ss_removed s + ucast trim) = unat (ss_removed s) + unat trim"
    using w tn tr(1) by (subst unat_add_nowrap) simp_all
  have ln: "unat (n - ucast trim) = unat n - unat trim" using t(2) tr(1) by (simp add: unat_diff_le)
  show ?thesis
    using s l hl hb hm h wn rn ln w tn tr(2)
    by (auto simp: sums_ok_def AVE_CODED_SLICE_MAX_def intro!: contiguous_snoc)
qed

lemma slice_walk_safe:
  assumes "unat (dh_slice_bytes_written c) + 4 \<le> unat (dh_slice_bytes_removed c) + 1"
  shows "sums_ok hevc slot_max s \<Longrightarrow> safe (sums_ok hevc slot_max) (slice_walk c h hevc slot_max is s)"
proof (induction "is" arbitrary: s)
  case (Cons i "is")
  show ?case
    unfolding slice_walk.simps
    by (rule safe_bind [OF slice_record_safe [OF assms]])
      (use Cons.prems in \<open>auto split: option.splits intro!: Cons.IH sums_step\<close>)
qed simp

lemma contiguous_inside:
  "slices_contiguous off ss tot \<Longrightarrow> off \<le> tot \<and> (\<forall>s\<in>set ss. unat (cs_off s) + unat (cs_len s) \<le> tot)"
proof (induction ss arbitrary: off)
  case (Cons s ss)
  then obtain nx where "unat (cs_off s) = off" "off + unat (cs_len s) \<le> nx" "slices_contiguous nx ss tot" by auto
  then show ?case using Cons.IH [of nx] by auto
qed simp

lemma coded_length_facts:
  assumes "known_abi abi"
  shows "safe (\<lambda>i. unat (ci_slices i) = length (ci_slice i) \<and> length (ci_slice i) \<le> AVE_CODED_SLICE_MAX
      \<and> slices_contiguous 0 (ci_slice i) (unat (ci_span i))
      \<and> (\<forall>s\<in>set (ci_slice i). unat (cs_off s) + unat (cs_len s) \<le> unat (ci_span i))
      \<and> (coded_size \<noteq> 0 \<longrightarrow> ci_span i \<le> coded_size)
      \<and> unat (ci_bytes i) = sum_list (map (unat \<circ> cs_len) (ci_slice i)) + sum_list (map (unat \<circ> cs_hdr_len) (ci_slice i))
      \<and> (\<forall>s\<in>set (ci_slice i). unat (cs_hdr_len s) \<le> 0x100000 \<and> (slot_max \<noteq> 0 \<longrightarrow> unat (cs_hdr_len s) \<le> unat slot_max)))
    (ave_cmd_coded_length_codec abi h coded_size hevc slot_max)"
proof -
  let ?c = "ab_coded_hdr abi"
  let ?s0 = "\<lparr>ss_written = 0, ss_removed = 0, ss_hdr = 0, ss_slices = []\<rparr>"
  have c: "dh_slice_stride ?c = 0 \<or>
      unat (dh_slice_bytes_written ?c) + 4 \<le> unat (dh_slice_bytes_removed ?c) + 1
    \<and> unat (dh_frame_type ?c) + 4 \<le> unat (dh_min_bytes ?c) \<and> unat (dh_frame_num ?c) + 4 \<le> unat (dh_min_bytes ?c)
    \<and> unat (dh_sps_pps_bits ?c) + 4 \<le> unat (dh_min_bytes ?c)"
    using assms by (auto simp: known_abi_def coded_hdr_13_5_fields coded_hdr_26_6_fields)
  have walk: "safe (sums_ok hevc slot_max) (slice_walk ?c h hevc slot_max is ?s0)"
    if "unat (dh_slice_bytes_written ?c) + 4 \<le> unat (dh_slice_bytes_removed ?c) + 1" for "is"
    by (rule slice_walk_safe [OF that]) (simp add: sums_ok_def)
  have bytes: "unat (ss_written s - ss_removed s + ss_hdr s) =
      sum_list (map (unat \<circ> cs_len) (ss_slices s)) + sum_list (map (unat \<circ> cs_hdr_len) (ss_slices s))"
    if "sums_ok hevc slot_max s" for s
  proof -
    have "sum_list (map (unat \<circ> cs_hdr_len) xs) \<le> length xs * 0x100000"
      if "\<forall>x\<in>set xs. unat (cs_hdr_len x) \<le> 0x100000" for xs
      using that by (induction xs) auto
    from this [of "ss_slices s"] have "unat (ss_hdr s) \<le> length (ss_slices s) * 0x100000"
      using that by (simp add: sums_ok_def)
    also have "\<dots> \<le> 16 * 0x100000" using that by (simp add: sums_ok_def AVE_CODED_SLICE_MAX_def)
    finally show ?thesis
      using that by (subst unat_add_nowrap) (simp_all add: unat_diff_le word_le_nat_alt sums_ok_def)
  qed
  let ?refused = "dh_slice_stride ?c = 0 \<or> length h < unat (dh_min_bytes ?c)
    \<or> hevc \<and> (dh_slice_hdr_len ?c = AVE_OFF_NONE \<or> dh_slice_hdr_iova ?c = AVE_OFF_NONE)"
  show ?thesis
  proof (cases ?refused)
    case True
    then show ?thesis unfolding ave_cmd_coded_length_codec_def Let_def by simp
  next
    case False
    then have c': "unat (dh_slice_bytes_written ?c) + 4 \<le> unat (dh_slice_bytes_removed ?c) + 1"
      and len: "unat (dh_frame_type ?c) + 4 \<le> length h" "unat (dh_frame_num ?c) + 4 \<le> length h"
        "unat (dh_sps_pps_bits ?c) + 4 \<le> length h"
      using c by auto
    have fin: "unat (of_nat (length (ss_slices s)) :: u32) = length (ss_slices s)" if "sums_ok hevc slot_max s" for s
      using that by (intro unat_of_nat_small) (simp add: sums_ok_def AVE_CODED_SLICE_MAX_def)
    have zw: "safe (\<lambda>_. True) (if \<not> hevc \<and> dh_cabac_zero_words ?c \<noteq> AVE_OFF_NONE
        \<and> unat (dh_cabac_zero_words ?c) + 4 \<le> length h
      then rd_le32 h (unat (dh_cabac_zero_words ?c)) else Ok 0)"
      by (simp add: rd_le32_def)
    have span: "\<forall>x\<in>set (ss_slices s). unat (cs_off x) + unat (cs_len x) \<le> unat (ss_written s)" if "sums_ok hevc slot_max s" for s
      using that contiguous_inside by (auto simp: sums_ok_def)
    have hdr: "\<forall>x\<in>set (ss_slices s). unat (cs_hdr_len x) \<le> 0x100000 \<and> (slot_max \<noteq> 0 \<longrightarrow> unat (cs_hdr_len x) \<le> unat slot_max)"
      if "sums_ok hevc slot_max s" for s using that unfolding sums_ok_def by blast
    have cont: "slices_contiguous 0 (ss_slices s) (unat (ss_written s))" "length (ss_slices s) \<le> AVE_CODED_SLICE_MAX"
      if "sums_ok hevc slot_max s" for s using that unfolding sums_ok_def by blast+
    show ?thesis
      unfolding ave_cmd_coded_length_codec_def Let_def if_not_P [OF False]
      by (intro safe_bind [OF safe_rd_le32 [OF len(1)]] safe_bind [OF safe_rd_le32 [OF len(2)]]
          safe_bind [OF safe_rd_le32 [OF len(3)]] safe_bind [OF zw] safe_bind [OF walk [OF c']])
        (simp add: fin bytes span cont hdr not_less)
  qed
qed

text \<open>C30. Whatever the firmware left in the coded header - it is memory the firmware writes - reading it ends
  without a read outside it, and what is returned can be copied: at most 16 slices, the first at 0,
  each starting where the one before it and its trim ended, all inside the span, the span not
  larger than the coded buffer (when the caller says how large that is), and the byte count of the
  frame exactly the slices plus the HEVC headers, with no 32-bit sum wrapping.\<close>

theorem coded_length_sound:
  assumes "known_abi abi"
  shows "safe (\<lambda>i. unat (ci_slices i) = length (ci_slice i) \<and> length (ci_slice i) \<le> AVE_CODED_SLICE_MAX
      \<and> slices_contiguous 0 (ci_slice i) (unat (ci_span i))
      \<and> (\<forall>s\<in>set (ci_slice i). unat (cs_off s) + unat (cs_len s) \<le> unat (ci_span i))
      \<and> (coded_size \<noteq> 0 \<longrightarrow> ci_span i \<le> coded_size)
      \<and> unat (ci_bytes i) = sum_list (map (unat \<circ> cs_len) (ci_slice i)) + sum_list (map (unat \<circ> cs_hdr_len) (ci_slice i)))
    (ave_cmd_coded_length_codec abi h coded_size hevc slot_max)"
  by (rule safe_weaken [OF coded_length_facts [OF assms]]) blast

lemma coded_length_sound_witness:
  "safe (\<lambda>i. length (ci_slice i) \<le> 16) (ave_cmd_coded_length_codec ave_cmd_abi_13_5 (replicate 0x22c60 0) 0 False 0)"
  by (rule safe_weaken [OF coded_length_sound]) (auto simp: known_abi_def AVE_CODED_SLICE_MAX_def)

text \<open>The records of a coded header of 13.5: the bytes written and the trim of each slice, then a record
  of 0 bytes.\<close>

definition coded_records :: "u8 list \<Rightarrow> (u32 \<times> u8) list \<Rightarrow> bool" where
  "coded_records h recs \<longleftrightarrow>
     0x22c60 \<le> length h \<and> length recs \<le> AVE_CODED_SLICE_MAX
   \<and> (\<forall>i < length recs. get_le32 h (0x220 * i + 0x180) = fst (recs ! i) \<and> h ! (0x220 * i + 0x38c) = snd (recs ! i)
        \<and> 0 < unat (fst (recs ! i)) \<and> unat (snd (recs ! i)) < 128 \<and> unat (snd (recs ! i)) \<le> unat (fst (recs ! i)))
   \<and> get_le32 h (0x220 * length recs + 0x180) = 0
   \<and> sum_list (map (unat \<circ> fst) recs) \<le> 0x40000000"

fun slices_of :: "u32 \<Rightarrow> (u32 \<times> u8) list \<Rightarrow> ave_coded_slice list" where
  "slices_of off [] = []"
| "slices_of off ((n, t) # rs) =
     \<lparr>cs_off = off, cs_len = n - ucast t, cs_hdr_iova = 0, cs_hdr_len = 0\<rparr> # slices_of (off + n) rs"

lemma unat_ucast_u8: "unat (ucast (t :: u8) :: u32) = unat t"
  using unsigned_less [of t, where ?'a = nat] by (simp add: unsigned_ucast_eq take_bit_nat_eq_self)

lemma sint_small_u8:
  assumes "unat (t :: u8) < 128"
  shows "\<not> sint t < 0"
proof -
  have "unat t div 2 ^ 7 = 0" using assms by simp
  then have "\<not> bit (unat t) 7" by (simp add: bit_iff_odd)
  then have "\<not> bit t 7" by (auto simp: bit_unsigned_iff)
  then show ?thesis using bit_last_iff [of t] by simp
qed

lemma slice_record_13_5:
  assumes "0x22c60 \<le> length h" "i \<le> 16"
  shows "slice_record coded_hdr_13_5 h False (of_nat i) =
    Ok (if get_le32 h (0x220 * i + 0x180) = 0 then None
        else Some (get_le32 h (0x220 * i + 0x180), h ! (0x220 * i + 0x38c), 0, 0))"
proof -
  have "unat (of_nat i * 0x220 :: u32) = 0x220 * i" using assms(2) unat_entries(2) [of 0 "0x220" i] by simp
  then show ?thesis
    using assms by (simp add: slice_record_def Let_def coded_hdr_13_5_fields rd_le32_def rd8_def)
qed

lemma slice_walk_reads:
  assumes "coded_records h recs"
  shows "length (ss_slices s) = j \<Longrightarrow> j \<le> length recs \<Longrightarrow>
      unat (ss_written s) + sum_list (map (unat \<circ> fst) (drop j recs)) \<le> 0x40000000 \<Longrightarrow>
    \<exists>s'. slice_walk coded_hdr_13_5 h False 0 [j..<256] s = Ok s'
      \<and> ss_slices s' = ss_slices s @ slices_of (ss_written s) (drop j recs)
      \<and> unat (ss_written s') = unat (ss_written s) + sum_list (map (unat \<circ> fst) (drop j recs))"
proof (induction "length recs - j" arbitrary: j s)
  case 0
  have up: "[j..<256] = j # [Suc j..<256]" using assms 0 by (simp add: upt_conv_Cons coded_records_def AVE_CODED_SLICE_MAX_def)
  show ?case
    using assms 0 unfolding up by (simp add: slice_record_13_5 coded_records_def AVE_CODED_SLICE_MAX_def)
next
  case (Suc k)
  obtain n t where nt: "recs ! j = (n, t)" by (cases "recs ! j")
  have j: "j < length recs" "length recs \<le> 16" using Suc.hyps(2) assms by (simp_all add: coded_records_def AVE_CODED_SLICE_MAX_def)
  have up: "[j..<256] = j # [Suc j..<256]" using j by (simp add: upt_conv_Cons)
  have d: "drop j recs = (n, t) # drop (Suc j) recs" using j nt by (metis Cons_nth_drop_Suc)
  have r: "get_le32 h (0x220 * j + 0x180) = n" "h ! (0x220 * j + 0x38c) = t" "n \<noteq> 0" "unat t < 128" "unat t \<le> unat n"
    "0x22c60 \<le> length h"
    using assms j(1) nt by (auto simp: coded_records_def unat_gt_0)
  have w: "unat (ss_written s) + unat n + sum_list (map (unat \<circ> fst) (drop (Suc j) recs)) \<le> 0x40000000"
    using Suc.prems(3) d by simp
  then have wn: "unat (ss_written s + n) = unat (ss_written s) + unat n" by (intro unat_add_nowrap) simp
  have good: "\<not> slice_bad False 0 (ss_written s) (n, t, 0, 0)"
    using r w by (simp add: slice_bad_def sint_small_u8 unat_ucast_u8 word_less_nat_alt word_le_nat_alt unat_diff_le not_less)
  let ?s = "\<lparr>ss_written = ss_written s + n, ss_removed = ss_removed s + ucast t, ss_hdr = ss_hdr s + 0,
      ss_slices = ss_slices s @ [\<lparr>cs_off = ss_written s, cs_len = n - ucast t, cs_hdr_iova = 0, cs_hdr_len = 0\<rparr>]\<rparr>"
  have "\<exists>s'. slice_walk coded_hdr_13_5 h False 0 [Suc j..<256] ?s = Ok s'
      \<and> ss_slices s' = ss_slices ?s @ slices_of (ss_written ?s) (drop (Suc j) recs)
      \<and> unat (ss_written s') = unat (ss_written ?s) + sum_list (map (unat \<circ> fst) (drop (Suc j) recs))"
    using Suc.hyps(2) Suc.prems(1) j w wn by (intro Suc.hyps(1)) simp_all
  moreover have "slice_walk coded_hdr_13_5 h False 0 [j..<256] s = slice_walk coded_hdr_13_5 h False 0 [Suc j..<256] ?s"
    unfolding up using r good Suc.prems(1) j by (simp add: slice_record_13_5 AVE_CODED_SLICE_MAX_def)
  ultimately show ?case using wn d by auto
qed

text \<open>C31. On macOS 13.5 a coded header is read as it was written: up to 16 slices of any size that together
  fit the coded buffer come back one for one, each at its place with its trim taken off, and the
  frame is exactly the bytes that are left.\<close>

theorem coded_length_reads:
  assumes "coded_records h recs" "coded_size = 0 \<or> sum_list (map (unat \<circ> fst) recs) \<le> unat coded_size"
  shows "\<exists>i. ave_cmd_coded_length ave_cmd_abi_13_5 h coded_size = Ok i \<and> ci_slice i = slices_of 0 recs
    \<and> unat (ci_span i) = sum_list (map (unat \<circ> fst) recs)
    \<and> unat (ci_bytes i) = sum_list (map (unat \<circ> cs_len) (slices_of 0 recs))"
proof -
  have len: "0x22c60 \<le> length h" using assms(1) by (simp add: coded_records_def)
  obtain s where s: "slice_walk coded_hdr_13_5 h False 0 [0..<256]
      \<lparr>ss_written = 0, ss_removed = 0, ss_hdr = 0, ss_slices = []\<rparr> = Ok s"
    "ss_slices s = slices_of 0 recs" "unat (ss_written s) = sum_list (map (unat \<circ> fst) recs)"
    using slice_walk_reads [OF assms(1), of "\<lparr>ss_written = 0, ss_removed = 0, ss_hdr = 0, ss_slices = []\<rparr>" 0]
      assms(1) by (auto simp: coded_records_def)
  have "safe (sums_ok False 0) (Ok s)"
    unfolding s(1) [symmetric] by (rule slice_walk_safe) (simp_all add: coded_hdr_13_5_fields sums_ok_def)
  then have ok: "sums_ok False 0 s" by simp
  have "unat (ss_removed s) \<le> unat (ss_written s)" using ok by (simp add: sums_ok_def)
  then have "ss_removed s \<le> ss_written s" by (simp add: word_le_nat_alt)
  moreover have "\<not> (coded_size \<noteq> 0 \<and> coded_size < ss_written s)"
    using assms(2) s(3) by (auto simp: word_less_nat_alt)
  moreover have "ss_hdr s = 0"
  proof -
    have "unat (ss_hdr s) = sum_list (map (unat \<circ> cs_hdr_len) (ss_slices s))" "\<forall>x\<in>set (ss_slices s). cs_hdr_len x = 0"
      using ok by (simp_all add: sums_ok_def)
    then have "unat (ss_hdr s) = 0" by (simp add: sum_list_eq_0_iff)
    then show ?thesis by (simp add: unat_eq_zero)
  qed
  moreover have "unat (ss_written s - ss_removed s) = sum_list (map (unat \<circ> cs_len) (ss_slices s))"
    using ok calculation(1) by (simp add: unat_diff_le sums_ok_def)
  ultimately show ?thesis
    using len s
    by (simp add: ave_cmd_coded_length_def ave_cmd_coded_length_codec_def Let_def coded_hdr_13_5_fields rd_le32_def
        layout_consts)
qed

lemma coded_length_reads_witness:
  "\<exists>i. ave_cmd_coded_length ave_cmd_abi_13_5 ((replicate 0x22c60 0)[0x180 := 5, 0x38c := 1]) 8 = Ok i
    \<and> unat (ci_bytes i) = 4"
proof -
  have "coded_records ((replicate 0x22c60 0)[0x180 := 5, 0x38c := 1]) [(5, 1)]"
    by (simp add: coded_records_def get_le32_def le32_of_def AVE_CODED_SLICE_MAX_def)
  from coded_length_reads [OF this, of 8] show ?thesis by auto
qed

section \<open>Completion messages\<close>

text \<open>Checking a completion never reads outside the message, whatever its length, and it succeeds
  exactly for a message of the right length that carries the reply id of the command, the client id
  (its low half on 13.5, which has 32 bits of it) and the success status; EIO is answered exactly
  when all of that is right except the status, which is then what the caller gets.\<close>

lemma check_reply_exact:
  fixes abi op msg cid
  assumes "known_abi abi"
  defines "d \<equiv> ab_cmd abi op" and "r \<equiv> ab_reply abi"
  defines "cid_ok \<equiv> (if abi = ave_cmd_abi_13_5 then get_le32 msg 0x10 = ucast cid else get_le64 msg 0x10 = cid)"
    and "st \<equiv> get_le32 msg (unat (rl_status r))"
  shows "\<exists>v. ave_cmd_check_reply abi op msg cid = Ok v
    \<and> (let ours = cd_id d \<noteq> 0 \<and> cd_reply_id d \<noteq> 0 \<and> unat (cd_reply_size d) \<le> length msg
          \<and> rd_le16 msg 0 = Ok (cd_reply_id d) \<and> cid_ok
       in (fst v = None \<longleftrightarrow> ours \<and> st = rl_status_ok r)
        \<and> (fst v = Some EIO \<longleftrightarrow> ours \<and> st \<noteq> rl_status_ok r)
        \<and> (ours \<longrightarrow> snd v = Some st))"
proof -
  have sz: "cd_id d \<noteq> 0 \<Longrightarrow> cd_reply_id d \<noteq> 0 \<Longrightarrow>
      unat (rl_status r) + 4 \<le> unat (cd_reply_size d) \<and> 0x18 \<le> unat (cd_reply_size d)"
    using assms(1) unfolding d_def r_def
    by (cases op) (auto simp: known_abi_def cmd_13_5_def cmd_26_6_def cmd_ids reply_13_5_fields reply_26_6_fields)
  have lay: "rl_id r = 0" "rl_client_id r = 0x10"
    "rl_client_id_bytes r = (if abi = ave_cmd_abi_13_5 then 4 else 8)"
    using assms(1) by (auto simp: r_def known_abi_def reply_13_5_fields reply_26_6_fields)
  show ?thesis
  proof (cases "cd_id d = 0 \<or> cd_reply_id d = 0 \<or> length msg < unat (cd_reply_size d)")
    case True
    then show ?thesis
      using sz by (auto simp: ave_cmd_check_reply_def Let_def d_def)
  next
    case False
    then have s: "unat (rl_status r) + 4 \<le> unat (cd_reply_size d)" "0x18 \<le> unat (cd_reply_size d)"
      "unat (cd_reply_size d) \<le> length msg" "cd_reply_size d \<noteq> 0" "cd_id d \<noteq> 0" "cd_reply_id d \<noteq> 0"
      using sz by auto
    have st: "rd_le32 msg (unat (rl_status r)) = Ok st" using s by (simp add: rd_le32_def st_def)
    obtain rid where rid: "rd_le16 msg 0 = Ok rid" using s by (simp add: rd_le16_def)
    have c: "rd_le32 msg 0x10 = Ok (get_le32 msg 0x10)" "rd_le64 msg 0x10 = Ok (get_le64 msg 0x10)"
      using s by (simp_all add: rd_le32_def rd_le64_def)
    have "(ucast (get_le32 msg 0x10) = (ucast (ucast cid :: u32) :: u64)) \<longleftrightarrow> get_le32 msg 0x10 = (ucast cid :: u32)"
      by (metis unat_ucast_widen unsigned_word_eqI)
    then show ?thesis
      using s st rid c lay
      by (auto simp: ave_cmd_check_reply_def Let_def d_def [symmetric] r_def [symmetric] cid_ok_def)
  qed
qed

lemma check_reply_exact_witness:
  "ave_cmd_check_reply ave_cmd_abi_13_5 AVE_OP_OPEN
     (put_le16 AVE135_REPLY_START_DONE @ replicate 14 0 @ put_le32 7 @ replicate 36 0 @ put_le32 0xee0000 @ replicate 4 0) 7
   = Ok (None, Some 0xee0000)"
proof -
  let ?msg = "put_le16 AVE135_REPLY_START_DONE @ replicate 14 0 @ put_le32 7 @ replicate 36 0 @ put_le32 0xee0000 @ replicate 4 0"
  have m: "get_le32 ?msg 0x10 = 7" "get_le32 ?msg 0x38 = 0xee0000" "length ?msg = 0x40"
    by (simp_all add: get_le32_append get_le_put0)
  have "rd_le16 ?msg 0 = Ok AVE135_REPLY_START_DONE"
    by (simp add: rd_le16_def put_le16_def cmd_ids)
  then show ?thesis
    using check_reply_exact [of ave_cmd_abi_13_5 AVE_OP_OPEN ?msg 7] m
    by (auto simp: known_abi_def cmd_13_5_def cmd_ids reply_13_5_fields)
qed

section \<open>A double without floating point\<close>

lemma top_bit_spec:
  "v \<noteq> 0 \<Longrightarrow> e < 32 \<Longrightarrow> unat v < 2 ^ Suc e \<Longrightarrow>
    2 ^ top_bit v e \<le> unat v \<and> unat v < 2 ^ Suc (top_bit v e) \<and> top_bit v e \<le> e"
proof (induction e)
  case 0
  then show ?case by (cases "unat v") (simp_all add: unat_eq_zero)
next
  case (Suc e)
  have "unat v div 2 ^ Suc e < 2" using Suc.prems(3) by (simp add: less_mult_imp_div_less)
  then have "unat v div 2 ^ Suc e = 0 \<or> unat v div 2 ^ Suc e = 1" by linarith
  then have "odd (unat v div 2 ^ Suc e) \<longleftrightarrow> 0 < unat v div 2 ^ Suc e" by auto
  then have "odd (unat v div 2 ^ Suc e) \<longleftrightarrow> 2 ^ Suc e \<le> unat v" by (simp add: div_greater_zero_iff)
  moreover have "bit v (Suc e) \<longleftrightarrow> odd (unat v div 2 ^ Suc e)"
  proof -
    have "bit (unat v) (Suc e) \<longleftrightarrow> bit v (Suc e)" using bit_imp_le_length by (auto simp: bit_unsigned_iff)
    then show ?thesis by (simp only: bit_iff_odd [of "unat v"])
  qed
  ultimately have bit: "v AND push_bit (Suc e) 1 = 0 \<longleftrightarrow> unat v < 2 ^ Suc e"
    by (simp add: push_bit_of_1 and_exp_eq_0_iff_not_bit not_le del: power_Suc)
  show ?case
    using Suc bit by (cases "unat v < 2 ^ Suc e") (auto simp: not_less simp del: power_Suc)
qed

text \<open>\<open>ave_u32_to_f64_bits\<close> is exact: the bits it returns are those of the double that equals the integer
  - sign 0, a normal exponent, and fraction and exponent that multiply out to it - and 0 for 0.\<close>

theorem f64_bits_exact:
  "if v = 0 then ave_u32_to_f64_bits v = 0
   else (\<exists>e m. e < 32 \<and> m < 2 ^ 52 \<and> unat (ave_u32_to_f64_bits v) = (1023 + e) * 2 ^ 52 + m
     \<and> (2 ^ 52 + m) * 2 ^ e = unat v * 2 ^ 52)"
proof (cases "v = 0")
  case False
  let ?e = "top_bit v 31"
  have e: "2 ^ ?e \<le> unat v" "unat v < 2 ^ Suc ?e" "?e \<le> 31"
    using top_bit_spec [OF False, of 31] unat_u32_bound [of v] by auto
  let ?m = "unat v * 2 ^ (52 - ?e) - 2 ^ 52"
  have p: "(2 :: nat) ^ ?e * 2 ^ (52 - ?e) = 2 ^ 52" using e(3) by (simp flip: power_add)
  have lo: "2 ^ 52 \<le> unat v * 2 ^ (52 - ?e)" using mult_right_mono [OF e(1), of "2 ^ (52 - ?e)"] p by simp
  have "unat v * 2 ^ (52 - ?e) < 2 ^ Suc ?e * 2 ^ (52 - ?e)" using e(2) by (intro mult_strict_right_mono) simp_all
  also have "\<dots> = 2 * 2 ^ 52" using p by (simp only: power_Suc mult.assoc)
  finally have hi: "unat v * 2 ^ (52 - ?e) < 2 ^ 53" by simp
  let ?x = "push_bit (52 - ?e) (ucast v :: u64)"
  have x: "unat ?x = unat v * 2 ^ (52 - ?e)"
  proof -
    have "(2 :: nat) ^ (52 - ?e) < 2 ^ 64" by (intro power_strict_increasing) simp_all
    then have "unat (2 ^ (52 - ?e) :: u64) = 2 ^ (52 - ?e)"
      using unat_of_nat_small [of "2 ^ (52 - ?e)", where 'a = 64] by simp
    then show ?thesis using hi by (simp add: push_bit_eq_mult unat_word_ariths)
  qed
  have "unat (take_bit 52 ?x) = take_bit 52 (unat ?x)" by (rule unsigned_take_bit_eq)
  also have "\<dots> = ?m" using x lo hi by (simp add: take_bit_eq_mod mod_if)
  finally have t: "unat (take_bit 52 ?x) = ?m" .
  have "push_bit 52 (of_nat (1023 + ?e)) AND take_bit 52 ?x = (0 :: u64)"
    by (auto simp: bit_eq_iff bit_simps)
  then have "push_bit 52 (of_nat (1023 + ?e)) OR take_bit 52 ?x = (push_bit 52 (of_nat (1023 + ?e)) + take_bit 52 ?x :: u64)"
    by (rule disjunctive_add_eq_or [symmetric])
  moreover have "unat (push_bit 52 (of_nat (1023 + ?e)) :: u64) = (1023 + ?e) * 2 ^ 52"
    using e(3) by (simp add: push_bit_eq_mult unat_word_ariths unat_of_nat take_bit_eq_mod)
  ultimately have "unat (push_bit 52 (of_nat (1023 + ?e)) OR take_bit 52 ?x :: u64) = (1023 + ?e) * 2 ^ 52 + ?m"
    using t hi e(3) by (simp add: unat_word_ariths)
  moreover have "ave_u32_to_f64_bits v = push_bit 52 (of_nat (1023 + ?e)) OR take_bit 52 ?x"
    using False by (simp add: ave_u32_to_f64_bits_def Let_def take_bit_eq_mask mask_eq_exp_minus_1)
  moreover have "(2 ^ 52 + ?m) * 2 ^ ?e = unat v * 2 ^ 52" using lo p by (simp add: mult.assoc mult.commute)
  moreover have "?m < 2 ^ 52" using hi by simp
  ultimately show ?thesis using False e(3) by (intro if_not_P [THEN iffD2] exI [of _ ?e] exI [of _ ?m]) simp_all
qed (simp add: ave_u32_to_f64_bits_def)

section \<open>The lambda table\<close>

text \<open>\<open>k\<close> is \<open>max 1 (round x)\<close> for \<open>x\<close> the sixth root of \<open>2 ^ (qp - 12)\<close>, in integers: \<open>x < k + 1/2\<close>, and
  \<open>k\<close> is 1 or \<open>k - 1/2 \<le> x\<close>, both sides multiplied by 2 and raised to the sixth power.\<close>

definition lambda_of_qp :: "nat \<Rightarrow> nat \<Rightarrow> bool" where
  "lambda_of_qp qp k \<longleftrightarrow>
     0 < k \<and> 2 ^ (qp + 6) < (2 * k + 1) ^ 6 * 2 ^ 12 \<and> (k = 1 \<or> (2 * k - 1) ^ 6 * 2 ^ 12 \<le> (2 :: nat) ^ (qp + 6))"

text \<open>The table of macOS's lambda block is the function its comment names: entry QP is the sixth root
  of 2^(QP - 12), rounded, and at least 1, for the 52 quantiser values.\<close>

theorem lambda_table_is_root:
  "length lambda_table = 52 \<and> list_all (\<lambda>qp. lambda_of_qp qp (unat (lambda_table ! qp))) [0..<52]"
  by (simp add: lambda_table_def lambda_of_qp_def upt_rec)

end
