(* ===== verification/Ave_Sess_Bufs.thy ===== *)
theory Ave_Sess_Bufs
  imports Ave_Cmd Ave_Ipc_Inv
begin

text \<open>
  The buffers of an encode session, from \<^verbatim>\<open>src/driver/ave_session.c\<close>: the list of
  what a session has allocated, the arena that carves surfaces out of one allocation, the
  size formulas of the surfaces, and the carving of the DPB, the source-neighbour and the
  entropy surfaces.

  \<^item> \<open>size_t\<close> and \<open>dma_addr_t\<close> are \<open>u64\<close>. The CPU address of a piece of an arena is its
    offset in the arena; the fills of surfaces only the hardware reads have no counterpart,
    nor have the log lines.
  \<^item> \<open>dma_alloc_coherent\<close> belongs to the kernel: its choice of an address is the argument
    \<open>dma\<close> of every definition that may allocate, and \<open>dma_ok\<close> is what the driver relies on.
  \<^item> The module parameters a definition reads are its argument \<open>mp\<close>.
  \<^item> The fields of \<open>struct ave_sess_bufs\<close> are grouped in records by the function that sets
    them.
\<close>

section \<open>Words that are rounded up\<close>

definition ALIGN :: "'a :: len word \<Rightarrow> 'a word \<Rightarrow> 'a word" where
  "ALIGN x a = (x + (a - 1)) AND NOT (a - 1)"

definition ALIGN_DOWN :: "'a :: len word \<Rightarrow> 'a word \<Rightarrow> 'a word" where
  "ALIGN_DOWN x a = x AND NOT (a - 1)"

definition DIV_ROUND_UP :: "'a :: len word \<Rightarrow> 'a word \<Rightarrow> 'a word" where
  "DIV_ROUND_UP n d = (n + d - 1) div d"

section \<open>Module parameters and constants\<close>

record sess_params =
  session_nbr :: bool
  session_nbr_kb :: u32
  session_lowres :: bool
  session_lowres_kb :: u32
  session_lsb :: bool
  session_entropy :: bool
  session_entropy_kb :: u32
  session_dpb :: u32
  session_codec :: u32
  session_coded_kb :: u32

definition AVE_SESS_CODEC_AVC :: u32 where "AVE_SESS_CODEC_AVC = 0"
definition AVE_SESS_CODEC_HEVC :: u32 where "AVE_SESS_CODEC_HEVC = 1"
definition AVE_SESS_CODED_FLOOR :: u64 where "AVE_SESS_CODED_FLOOR = 460800"
definition AVE_SESS_MAX_DMA :: nat where "AVE_SESS_MAX_DMA = 48"
definition AVE_SESS_MAX_IPC :: nat where "AVE_SESS_MAX_IPC = 8"
definition AVE_SRC_NBR_MAX :: nat where "AVE_SRC_NBR_MAX = 4"
definition AVE_SESS_NBR_SLOTS :: nat where "AVE_SESS_NBR_SLOTS = AVE_SRC_NBR_GROUPS * AVE_SRC_NBR_MAX"
definition AVE_SESS_DPB_MAX :: nat where "AVE_SESS_DPB_MAX = 4"
definition AVE_SESS_FRAMES_MAX :: nat where "AVE_SESS_FRAMES_MAX = 4"

lemmas sess_consts =
  AVE_SESS_CODEC_AVC_def AVE_SESS_CODEC_HEVC_def AVE_SESS_CODED_FLOOR_def AVE_SESS_MAX_DMA_def
  AVE_SESS_MAX_IPC_def AVE_SRC_NBR_MAX_def AVE_SESS_NBR_SLOTS_def AVE_SESS_DPB_MAX_def AVE_SESS_FRAMES_MAX_def

section \<open>Allocations\<close>

text \<open>\<open>dma[]\<close> with \<open>ndma\<close>, and \<open>ipc[]\<close> with \<open>nipc\<close>, oldest first: IOVA and size, offset in
  FwIPC and size.\<close>

record sess_pool =
  sp_dma :: "(u64 \<times> u64) list"
  sp_ipc :: "(nat \<times> nat) list"

type_synonym dma_fun = "(u64 \<times> u64) list \<Rightarrow> u64 \<Rightarrow> u64 option"

text \<open>The kernel's promise: page alignment, never the first page (the IOVA allocator starts at page 1),
  no wrap, no overlap with a live allocation.\<close>

definition regions_apart :: "u64 \<times> u64 \<Rightarrow> u64 \<times> u64 \<Rightarrow> bool" where
  "regions_apart r q \<longleftrightarrow> unat (fst r) + unat (snd r) \<le> unat (fst q) \<or> unat (fst q) + unat (snd q) \<le> unat (fst r)"

definition dma_ok :: "dma_fun \<Rightarrow> bool" where
  "dma_ok dma \<longleftrightarrow> (\<forall>live sz a. dma live sz = Some a \<longrightarrow>
     a \<noteq> 0 \<and> unat a mod 4096 = 0 \<and> unat a + unat sz < 2 ^ 64 \<and> (\<forall>r \<in> set live. regions_apart (a, sz) r))"

definition SZ_4G :: u64 where "SZ_4G = 0x100000000"

definition ave_sess_dma_alloc :: "dma_fun \<Rightarrow> u64 \<Rightarrow> sess_pool \<Rightarrow> u64 option \<times> sess_pool" where
  "ave_sess_dma_alloc dma sz p =
     (if length (sp_dma p) \<ge> AVE_SESS_MAX_DMA then (None, p)
      else case dma (sp_dma p) sz of
             None \<Rightarrow> (None, p)
           | Some iova \<Rightarrow>
               if iova + sz > SZ_4G then (None, p)
               else (Some iova, p\<lparr>sp_dma := sp_dma p @ [(iova, sz)]\<rparr>))"

text \<open>A command buffer in FwIPC: its offset, whose IOVA is \<open>ave_ipc_cpu_to_iova\<close>.\<close>

definition ave_sess_ipc_alloc ::
  "((nat \<times> nat) list \<Rightarrow> nat \<Rightarrow> nat option) \<Rightarrow> nat \<Rightarrow> sess_pool \<Rightarrow> ave_device \<Rightarrow>
     nat option \<times> sess_pool \<times> ave_device" where
  "ave_sess_ipc_alloc gp sz p d =
     (if length (sp_ipc p) \<ge> AVE_SESS_MAX_IPC then (None, p, d)
      else case ave_ipc_alloc gp sz d of
             (None, d1) \<Rightarrow> (None, p, d1)
           | (Some cpu, d1) \<Rightarrow> (Some cpu, p\<lparr>sp_ipc := sp_ipc p @ [(cpu, sz)]\<rparr>, d1))"

text \<open>\<open>dma_free_coherent\<close> of everything behind the first \<open>ndma\<close>, newest first, then of the
  commands. What the kernel gets back is the first component.\<close>

definition free_ipc :: "(nat \<times> nat) list \<Rightarrow> ave_device \<Rightarrow> ave_device" where
  "free_ipc blocks d = fold (\<lambda>(cpu, sz). ave_ipc_free (Some cpu) sz) blocks d"

definition ave_sess_free_to ::
  "nat \<Rightarrow> nat \<Rightarrow> sess_pool \<Rightarrow> ave_device \<Rightarrow> (u64 \<times> u64) list \<times> sess_pool \<times> ave_device" where
  "ave_sess_free_to ndma nipc p d =
     (rev (drop ndma (sp_dma p)),
      p\<lparr>sp_dma := take ndma (sp_dma p), sp_ipc := take nipc (sp_ipc p)\<rparr>,
      free_ipc (rev (drop nipc (sp_ipc p))) d)"

definition ave_sess_free_all :: "sess_pool \<Rightarrow> ave_device \<Rightarrow> (u64 \<times> u64) list \<times> sess_pool \<times> ave_device" where
  "ave_sess_free_all p d = (sp_dma p, p\<lparr>sp_dma := [], sp_ipc := []\<rparr>, free_ipc (sp_ipc p) d)"

section \<open>Arenas\<close>

record ave_sess_arena =
  ar_iova :: u64
  ar_size :: u64
  ar_used :: u64

definition ave_sess_arena_take :: "ave_sess_arena \<Rightarrow> u64 \<Rightarrow> (u64 \<times> ave_sess_arena) option" where
  "ave_sess_arena_take a sz =
     (let off = ALIGN (ar_used a) 128
      in if sz > ar_size a \<or> off > ar_size a - sz then None
         else Some (ar_iova a + off, a\<lparr>ar_used := off + sz\<rparr>))"

section \<open>Sizes\<close>

definition ave_session_coded_size :: "sess_params \<Rightarrow> u32 \<Rightarrow> u32 \<Rightarrow> u32 \<Rightarrow> u64" where
  "ave_session_coded_size mp cw ch bd =
     (let base = ucast cw * ucast ch * 3 div 2;
          sz = (if base \<ge> AVE_SESS_CODED_FLOOR then base else min (2 * base) AVE_SESS_CODED_FLOOR);
          sz = (if bd > 8 then sz * 5 div 4 else sz);
          sz = (if session_coded_kb mp \<noteq> 0 then push_bit 10 (ucast (session_coded_kb mp)) else sz)
      in ALIGN sz 0x1000)"

text \<open>The number of bits of \<open>n\<close>: \<open>32 - __builtin_clz(n)\<close> for \<open>n \<noteq> 0\<close>.\<close>

fun bit_count :: "nat \<Rightarrow> nat" where
  "bit_count n = (if n = 0 then 0 else Suc (bit_count (n div 2)))"

declare bit_count.simps [simp del]

definition ave_npo2 :: "u32 \<Rightarrow> u32" where
  "ave_npo2 n = (if n \<le> 1 then 1 else push_bit (bit_count (unat (n - 1))) 1)"

record ave_recon_planes =
  pl_luma :: u32
  pl_luma_meta :: u32
  pl_chroma :: u32
  pl_chroma_meta :: u32
  pl_msb_span :: u32
  pl_lsb_span :: u32

definition ave_recon_planes :: "u32 \<Rightarrow> u32 \<Rightarrow> u32 \<Rightarrow> ave_recon_planes" where
  "ave_recon_planes w h bd =
     (let cols = DIV_ROUND_UP w 32;
          rows = drop_bit 5 (h + 35);
          cols_c = DIV_ROUND_UP (w div 2) 16;
          rows_c = drop_bit 4 (h div 2 + 19);
          bd = (if bd \<noteq> 10 then 8 else bd);
          luma = 1024 * cols * bd div 8 * rows;
          chroma = ALIGN (512 * cols_c * bd div 8 * rows_c) 128;
          luma_meta = ALIGN (32 * ave_npo2 cols * ave_npo2 rows) 128;
          chroma_meta = ALIGN (8 * ave_npo2 cols_c * ave_npo2 rows_c) 128
      in \<lparr>pl_luma = luma, pl_luma_meta = luma_meta, pl_chroma = chroma, pl_chroma_meta = chroma_meta,
          pl_msb_span = ALIGN (luma + chroma) 128, pl_lsb_span = ALIGN (luma_meta + chroma_meta) 128\<rparr>)"

text \<open>The size and the stride.\<close>

definition ave_session_lowres_size :: "u32 \<Rightarrow> u32 \<Rightarrow> u64 \<times> u32" where
  "ave_session_lowres_size cw ch =
     (let lr_stride = ALIGN (4 * cw) 256
      in (ALIGN (ucast lr_stride * ucast (drop_bit 4 (ch + 63))) 512, lr_stride))"

definition ave_session_lowres_result_size :: "u32 \<Rightarrow> u32 \<Rightarrow> u64" where
  "ave_session_lowres_result_size cw ch = ucast (ALIGN (4 * cw) 128) * ucast (DIV_ROUND_UP ch 64) + 1024"

definition ave_session_hevc_nbr_size :: "u32 \<Rightarrow> u32 \<Rightarrow> u64" where
  "ave_session_hevc_nbr_size cw ch =
     (let cw32 = DIV_ROUND_UP cw 32; ch64 = DIV_ROUND_UP ch 64;
          rows = (if ch64 > 1 then ch64 - 1 else 0);
          info = max (192 * ucast cw32 * ucast rows) 0x4000;
          pixel = 768 * ucast cw32 * ucast rows;
          dat = max (4 * ucast cw32) 0x4000
      in max (max info pixel) dat)"

definition ave_session_entropy_size :: "u32 \<Rightarrow> u32 \<Rightarrow> u64" where
  "ave_session_entropy_size cw ch =
     ALIGN_DOWN (64 * ucast cw + 960) 1024 * ucast (max 8 (DIV_ROUND_UP (DIV_ROUND_UP ch 16) 4))"

definition ave_session_hevc_entropy_size :: "u32 \<Rightarrow> u32 \<Rightarrow> u32 \<Rightarrow> u64" where
  "ave_session_hevc_entropy_size cw ch bd =
     2304 * (if bd > 8 then 2 else 1) * ucast (DIV_ROUND_UP cw 32) * ucast (max 4 (DIV_ROUND_UP ch 64))"

definition ave_level_for :: "u32 \<Rightarrow> u32 \<Rightarrow> u32" where
  "ave_level_for cw ch =
     (let mbs = (cw div AVE_MB_SIZE) * (ch div AVE_MB_SIZE)
      in if mbs \<le> 8192 then 40 else if mbs \<le> 8704 then 42 else if mbs \<le> 22080 then 50
         else if mbs \<le> 36864 then 51 else 52)"

text \<open>Level, \<open>max_fs\<close> and \<open>max_mbps\<close>.\<close>

definition macos_levels :: "(u32 \<times> u32 \<times> u32) list" where
  "macos_levels =
     [(30, 1620, 40500), (31, 3600, 108000), (32, 5120, 216000), (40, 8192, 245760),
      (42, 8704, 522240), (50, 22080, 589824), (51, 36864, 983040), (52, 36864, 2073600)]"

definition ave_level_macos :: "u32 \<Rightarrow> u32 \<Rightarrow> u32 \<Rightarrow> u32 \<Rightarrow> u32" where
  "ave_level_macos cw ch fps_num fps_den =
     (let fs = (cw div AVE_MB_SIZE) * (ch div AVE_MB_SIZE);
          mbps = ucast fs * ucast (if fps_num \<noteq> 0 then fps_num else 30)
                 div ucast (if fps_den \<noteq> 0 then fps_den else 1) :: u64
      in case find (\<lambda>(idc, max_fs, max_mbps). fs \<le> max_fs \<and> mbps \<le> ucast max_mbps) macos_levels of
           Some (idc, _) \<Rightarrow> idc | None \<Rightarrow> 52)"

definition ave_hevc_level_for :: "u32 \<Rightarrow> u32 \<Rightarrow> u8" where
  "ave_hevc_level_for cw ch =
     (let ps = ucast cw * ucast ch :: u64
      in if ps \<le> 2228224 then 120 else if ps \<le> 8912896 then 150 else 180)"

section \<open>Carving surfaces\<close>

record sess_dpb =
  sd_n_dpb :: u32
  sd_dpb :: "(u64 \<times> u64) list"   \<comment> \<open>\<open>recon\<close> and \<open>low_res\<close>, \<open>AVE_SESS_DPB_MAX\<close> slots\<close>
  sd_recon_size :: u32
  sd_recon_msb_span :: u32
  sd_low_res_size :: u64
  sd_low_res_stride :: u32
  sd_low_res_result :: "u64 list"
  sd_n_low_res_result :: u32
  sd_low_res_result_size :: u64

text \<open>The geometry a session allocates for.\<close>

record sess_geom =
  sg_width :: u32
  sg_height :: u32
  sg_codec :: u32
  sg_bit_depth :: u8
  sg_encode :: bool
  sg_req_dpb :: u32

fun dpb_loop ::
  "u64 \<Rightarrow> u64 \<Rightarrow> nat list \<Rightarrow> ave_sess_arena \<Rightarrow> ave_sess_arena \<Rightarrow> sess_dpb \<Rightarrow> sess_dpb" where
  "dpb_loop rs ls [] recon low sd = sd"
| "dpb_loop rs ls (i # is) recon low sd =
     (case ave_sess_arena_take recon rs of
        None \<Rightarrow> sd
      | Some (r, recon') \<Rightarrow>
          let (l, low') =
            (if ls = 0 then (0, low)
             else case ave_sess_arena_take low ls of None \<Rightarrow> (0, low) | Some x \<Rightarrow> x)
          in if r AND 127 \<noteq> 0 \<or> l AND (ucast AVE_STRIDE_ALIGN - 1) \<noteq> 0 then sd
             else dpb_loop rs ls is recon' low'
                    (sd\<lparr>sd_dpb := (sd_dpb sd)[i := (r, l)], sd_n_dpb := of_nat (Suc i)\<rparr>))"

fun low_res_result_loop :: "u64 \<Rightarrow> nat list \<Rightarrow> ave_sess_arena \<Rightarrow> sess_dpb \<Rightarrow> sess_dpb" where
  "low_res_result_loop sz [] a sd = sd"
| "low_res_result_loop sz (i # is) a sd =
     (case ave_sess_arena_take a sz of
        None \<Rightarrow> sd
      | Some (r, a') \<Rightarrow>
          low_res_result_loop sz is a'
            (sd\<lparr>sd_low_res_result := (sd_low_res_result sd)[i := r], sd_n_low_res_result := of_nat (Suc i)\<rparr>))"

definition alloc_low_res_result ::
  "dma_fun \<Rightarrow> u32 \<Rightarrow> u32 \<Rightarrow> sess_pool \<Rightarrow> sess_dpb \<Rightarrow> sess_pool \<times> sess_dpb" where
  "alloc_low_res_result dma cw ch p sd =
     (let sl = ALIGN (ave_session_lowres_result_size cw ch) (ucast AVE_STRIDE_ALIGN);
          sz = sl * of_nat AVE_LOW_RES_RESULT_MAX
      in case ave_sess_dma_alloc dma sz p of
           (None, p') \<Rightarrow> (p', sd)
         | (Some iova, p') \<Rightarrow>
             (p', (low_res_result_loop sl [0..<AVE_LOW_RES_RESULT_MAX] \<lparr>ar_iova = iova, ar_size = sz, ar_used = 0\<rparr> sd)
                    \<lparr>sd_low_res_result_size := sl\<rparr>))"

text \<open>The slot count, and the size of one low-resolution reference (0 with \<open>session_lowres\<close> off).\<close>

definition dpb_slots :: "sess_params \<Rightarrow> sess_geom \<Rightarrow> u32" where
  "dpb_slots mp g =
     (let n = (if sg_req_dpb g \<noteq> 0 then sg_req_dpb g else session_dpb mp)
      in if n = 0 \<or> n > of_nat AVE_SESS_DPB_MAX then 1 else n)"

definition low_res_slot :: "sess_params \<Rightarrow> u32 \<Rightarrow> u32 \<Rightarrow> u64" where
  "low_res_slot mp cw ch =
     (let f = fst (ave_session_lowres_size cw ch); kb = push_bit 10 (ucast (session_lowres_kb mp))
      in ALIGN (if session_lowres_kb mp \<noteq> 0 \<and> \<not> kb > 0x4000000 then kb else f) 0x1000)"

definition ave_session_alloc_dpb ::
  "dma_fun \<Rightarrow> sess_params \<Rightarrow> sess_geom \<Rightarrow> sess_pool \<Rightarrow> sess_dpb \<Rightarrow> sess_pool \<times> sess_dpb" where
  "ave_session_alloc_dpb dma mp g p sd =
     (let cw = ave_mb_align (sg_width g); ch = ave_mb_align (sg_height g);
          n = dpb_slots mp g;
          pl = ave_recon_planes cw ch (ucast (sg_bit_depth g));
          rs = ALIGN (ucast (pl_msb_span pl) + (if session_lsb mp then ucast (pl_lsb_span pl) else 0)) 0x1000 :: u64;
          sd = sd\<lparr>sd_n_dpb := 0\<rparr>
      in case ave_sess_dma_alloc dma (rs * ucast n) p of
           (None, p) \<Rightarrow> (p, sd)
         | (Some riova, p) \<Rightarrow>
             let recon = \<lparr>ar_iova = riova, ar_size = rs * ucast n, ar_used = 0\<rparr>;
                 ls0 = low_res_slot mp cw ch;
                 (lowa, p) = (if session_lowres mp then ave_sess_dma_alloc dma (ls0 * ucast n) p else (None, p));
                 ls = (if lowa = None then 0 else ls0);
                 low = \<lparr>ar_iova = (case lowa of Some a \<Rightarrow> a | None \<Rightarrow> 0),
                        ar_size = (if session_lowres mp then ls0 * ucast n else 0), ar_used = 0\<rparr>;
                 sd = (dpb_loop rs ls [0..<unat n] recon low sd)
                        \<lparr>sd_recon_size := ucast rs, sd_recon_msb_span := pl_msb_span pl, sd_low_res_size := ls,
                         sd_low_res_stride := (if session_lowres mp then snd (ave_session_lowres_size cw ch) else 0)\<rparr>
             in if session_lowres mp then alloc_low_res_result dma cw ch p sd else (p, sd))"

text \<open>A table of surfaces, entry by entry; \<open>False\<close> when the arena is used up.\<close>

fun carve_table ::
  "u64 \<Rightarrow> (nat \<times> nat) list \<Rightarrow> ave_sess_arena \<Rightarrow> u64 list list \<Rightarrow> bool \<times> u64 list list" where
  "carve_table sz [] a tab = (True, tab)"
| "carve_table sz ((i, j) # ps) a tab =
     (case ave_sess_arena_take a sz of
        None \<Rightarrow> (False, tab)
      | Some (r, a') \<Rightarrow> carve_table sz ps a' (tab[i := (tab ! i)[j := r]]))"

definition table_order :: "nat \<Rightarrow> nat \<Rightarrow> (nat \<times> nat) list" where
  "table_order n m = concat (map (\<lambda>i. map (Pair i) [0..<m]) [0..<n])"

record sess_nbr =
  sn_nbr :: "u64 list list"
  sn_slot :: u64
  sn_n_nbr :: u32

text \<open>The size of one source-neighbour slot.\<close>

definition nbr_slot_size :: "sess_params \<Rightarrow> sess_geom \<Rightarrow> u64" where
  "nbr_slot_size mp g =
     (let cols = ave_mb_align (sg_width g) div 16;
          s = push_bit 10 (ucast (session_nbr_kb mp));
          s = (if s = 0 \<and> sg_codec g = AVE_SESS_CODEC_HEVC
               then ALIGN (ave_session_hevc_nbr_size (ave_mb_align (sg_width g)) (ave_mb_align (sg_height g))) 0x4000
               else s)
      in if s = 0 then ALIGN (fold (\<lambda>per m. max m (per * ucast cols)) [256, 1024, 56, 64] 0x4000) 0x4000 else s)"

definition ave_session_alloc_nbr ::
  "dma_fun \<Rightarrow> sess_params \<Rightarrow> sess_geom \<Rightarrow> sess_pool \<Rightarrow> sess_nbr \<Rightarrow> sess_pool \<times> sess_nbr" where
  "ave_session_alloc_nbr dma mp g p sn =
     (if \<not> session_nbr mp \<or> \<not> sg_encode g then (p, sn)
      else
        let s = nbr_slot_size mp g; sz = ALIGN s 128 * of_nat AVE_SESS_NBR_SLOTS + 128
        in if s > 0x1000000 then (p, sn)
           else case ave_sess_dma_alloc dma sz p of
                  (None, p) \<Rightarrow> (p, sn)
                | (Some iova, p) \<Rightarrow>
                    (case carve_table s (table_order AVE_SRC_NBR_GROUPS AVE_SRC_NBR_MAX)
                            \<lparr>ar_iova = iova, ar_size = sz, ar_used = 0\<rparr> (sn_nbr sn) of
                       (False, tab) \<Rightarrow> (p, sn\<lparr>sn_slot := s, sn_nbr := tab\<rparr>)
                     | (True, tab) \<Rightarrow> (p, sn\<lparr>sn_slot := s, sn_nbr := tab, sn_n_nbr := of_nat AVE_SRC_NBR_MAX\<rparr>)))"

record sess_entropy =
  se_entropy :: "u64 list list"
  se_size :: u32
  se_n :: u32
  se_cols :: u32

definition entropy_rows_of :: "ave_cmd_abi \<Rightarrow> sess_geom \<Rightarrow> u32" where
  "entropy_rows_of abi g =
     (let n = min (pa_entropy_max (ab_process_avc abi)) (of_nat AVE_ENTROPY_MAX)
      in if sg_codec g = AVE_SESS_CODEC_HEVC \<and> hv_entropy_rows (ab_start_hevc abi) \<noteq> 0
         then min n (hv_entropy_rows (ab_start_hevc abi)) else n)"

definition entropy_cols_of :: "ave_cmd_abi \<Rightarrow> u32" where
  "entropy_cols_of abi =
     (let m = pa_entropy_cols_max (ab_process_avc abi) in min (if m \<noteq> 0 then m else 1) (of_nat AVE_ENTROPY_COLS))"

definition entropy_each :: "sess_params \<Rightarrow> sess_geom \<Rightarrow> u64" where
  "entropy_each mp g =
     (let cw = ave_mb_align (sg_width g); ch = ave_mb_align (sg_height g)
      in if session_entropy_kb mp \<noteq> 0 then push_bit 10 (ucast (session_entropy_kb mp))
         else if sg_codec g = AVE_SESS_CODEC_HEVC then ave_session_hevc_entropy_size cw ch (ucast (sg_bit_depth g))
         else ave_session_entropy_size cw ch)"

definition ave_session_alloc_entropy ::
  "dma_fun \<Rightarrow> sess_params \<Rightarrow> ave_cmd_abi \<Rightarrow> sess_geom \<Rightarrow> sess_pool \<Rightarrow> sess_entropy \<Rightarrow> sess_pool \<times> sess_entropy" where
  "ave_session_alloc_entropy dma mp abi g p se =
     (if \<not> sg_encode g \<and> session_codec mp = 0 then (p, se)
      else if \<not> session_entropy mp then (p, se)
      else if pa_entropy_set (ab_process_avc abi) = AVE_OFF_NONE \<or> pa_entropy_max (ab_process_avc abi) = 0 then (p, se)
      else
        let n = entropy_rows_of abi g; each = entropy_each mp g; cols = entropy_cols_of abi;
            sz = ALIGN each 128 * ucast n * ucast cols + 128
        in if each = 0 \<or> each > 0x4000000 then (p, se)
           else case ave_sess_dma_alloc dma sz p of
                  (None, p) \<Rightarrow> (p, se)
                | (Some iova, p) \<Rightarrow>
                    (case carve_table each (table_order (unat n) (unat cols))
                            \<lparr>ar_iova = iova, ar_size = sz, ar_used = 0\<rparr> (se_entropy se) of
                       (False, tab) \<Rightarrow> (p, se\<lparr>se_entropy := tab, se_n := 0\<rparr>)
                     | (True, tab) \<Rightarrow>
                         (p, se\<lparr>se_entropy := tab, se_n := n, se_cols := cols, se_size := ucast each\<rparr>)))"

end
