(* ===== verification/Ave_Sess_Surfaces.thy ===== *)
theory Ave_Sess_Surfaces
  imports Ave_Sess_Bufs "HOL-Library.Multiset"
begin

text \<open>
  The surfaces of a session: each lies in an allocation of its own region, is aligned, overlaps
  no other and is large enough for what the hardware keeps in it. And what a session allocates
  it gives back.
\<close>

section \<open>Rounding\<close>

definition round_up :: "nat \<Rightarrow> nat \<Rightarrow> nat" where
  "round_up a x = (x + a - 1) div a * a"

lemma round_up_bounds:
  assumes "0 < a"
  shows "x \<le> round_up a x" "round_up a x < x + a"
proof -
  have "(x + a - 1) div a * a + (x + a - 1) mod a = x + a - 1" "(x + a - 1) mod a < a"
    using assms by (simp_all add: div_mult_mod_eq)
  then show "x \<le> round_up a x" "round_up a x < x + a"
    using assms unfolding round_up_def by linarith+
qed

lemma round_up_mult:
  assumes "0 < a"
  shows "round_up a (k * a + x) = k * a + round_up a x"
proof -
  have e: "k * a + x + a - 1 = x + a - 1 + k * a" using assms by simp
  show ?thesis unfolding round_up_def e using assms by (subst div_mult_self1) (simp_all only: add_mult_distrib add.commute)
qed

lemma round_up_dvd: "a dvd round_up a x"
  by (simp add: round_up_def)

lemma unat_2p: "k < LENGTH('a) \<Longrightarrow> unat (2 ^ k :: 'a :: len word) = 2 ^ k"
  using unat_of_nat_small [of "2 ^ k", where ?'a = 'a] by simp

lemma unat_and_not_mask:
  fixes x :: "'a :: len word"
  assumes "k < LENGTH('a)"
  shows "unat (x AND NOT (2 ^ k - 1)) = unat x div 2 ^ k * 2 ^ k"
proof -
  have "x AND NOT (mask k) = push_bit k (drop_bit k x)"
    by (rule bit_word_eqI) (auto simp: bit_simps)
  moreover have "unat x div 2 ^ k * 2 ^ k < 2 ^ LENGTH('a)"
    using div_times_less_eq_dividend [of "unat x" "2 ^ k"] unsigned_less [of x, where ?'a = nat] by (rule le_less_trans)
  then have "unat (push_bit k (drop_bit k x)) = unat x div 2 ^ k * 2 ^ k"
    by (simp add: push_bit_eq_mult drop_bit_eq_div unat_div unat_2p assms unat_mult_nowrap)
  ultimately show ?thesis by (simp add: mask_eq_exp_minus_1)
qed

lemma unat_ALIGN:
  fixes x :: "'a :: len word"
  assumes "k < LENGTH('a)" "unat x + 2 ^ k \<le> 2 ^ LENGTH('a)"
  shows "unat (ALIGN x (2 ^ k)) = round_up (2 ^ k) (unat x)"
proof -
  have "unat (2 ^ k - 1 :: 'a word) = 2 ^ k - 1"
    using assms(1) by (simp add: unat_sub unat_2p word_le_nat_alt)
  then have "unat (x + (2 ^ k - 1)) = unat x + 2 ^ k - 1"
    using assms(2) one_le_power [of "2 :: nat" k] by (subst unat_add_nowrap) linarith+
  then show ?thesis using assms(1) by (simp add: ALIGN_def unat_and_not_mask round_up_def)
qed

lemma unat_ALIGN_u64:
  fixes x :: u64
  assumes "unat x < 2 ^ 63"
  shows "unat (ALIGN x 64) = round_up 64 (unat x)" "unat (ALIGN x 128) = round_up 128 (unat x)"
    "unat (ALIGN x 512) = round_up 512 (unat x)" "unat (ALIGN x 0x1000) = round_up 0x1000 (unat x)"
    "unat (ALIGN x 0x4000) = round_up 0x4000 (unat x)"
  using assms unat_ALIGN [of 6 x] unat_ALIGN [of 7 x] unat_ALIGN [of 9 x] unat_ALIGN [of 12 x] unat_ALIGN [of 14 x]
  by simp_all

lemma unat_ALIGN_u32:
  fixes x :: u32
  assumes "unat x < 2 ^ 31"
  shows "unat (ALIGN x 128) = round_up 128 (unat x)" "unat (ALIGN x 256) = round_up 256 (unat x)"
  using assms unat_ALIGN [of 7 x] unat_ALIGN [of 8 x] by simp_all

section \<open>Pieces of an arena\<close>

text \<open>\<open>arena_at k sz a\<close>: \<open>k\<close> pieces of \<open>sz\<close> bytes are taken.\<close>

definition arena_at :: "nat \<Rightarrow> nat \<Rightarrow> ave_sess_arena \<Rightarrow> bool" where
  "arena_at k sz a \<longleftrightarrow> round_up 128 (unat (ar_used a)) = k * round_up 128 sz
     \<and> unat (ar_iova a) + unat (ar_size a) < 2 ^ 63"

lemma arena_at_0: "unat iova + unat n < 2 ^ 63 \<Longrightarrow> arena_at 0 sz \<lparr>ar_iova = iova, ar_size = n, ar_used = 0\<rparr>"
  by (simp add: arena_at_def round_up_def)

lemma round_up_Suc: "round_up 128 (k * round_up 128 n + n) = Suc k * round_up 128 n"
proof -
  obtain q where "round_up 128 n = q * 128" using round_up_dvd [of 128 n] by (auto elim: dvdE simp: mult.commute)
  then show ?thesis using round_up_mult [of 128 "k * q" n] by (simp add: mult.assoc)
qed

lemma arena_take:
  assumes "arena_at k (unat sz) a" "k * round_up 128 (unat sz) + unat sz \<le> unat (ar_size a)"
  shows "\<exists>r a'. ave_sess_arena_take a sz = Some (r, a') \<and> arena_at (Suc k) (unat sz) a'
    \<and> unat r = unat (ar_iova a) + k * round_up 128 (unat sz) \<and> ar_iova a' = ar_iova a \<and> ar_size a' = ar_size a"
proof -
  let ?A = "round_up 128 (unat sz)"
  have used: "unat (ar_used a) \<le> k * ?A" using assms(1) round_up_bounds(1) [of 128 "unat (ar_used a)"]
    by (simp add: arena_at_def)
  then have off: "unat (ALIGN (ar_used a) 128) = k * ?A"
    using assms by (subst unat_ALIGN_u64) (auto simp: arena_at_def)
  have fits: "\<not> (sz > ar_size a \<or> ALIGN (ar_used a) 128 > ar_size a - sz)"
  proof -
    have "sz \<le> ar_size a" using assms(2) by (simp add: word_le_nat_alt)
    then have "unat (ar_size a - sz) = unat (ar_size a) - unat sz" by (rule unat_diff_le)
    then show ?thesis using assms(2) off \<open>sz \<le> ar_size a\<close> by (simp add: word_less_nat_alt word_le_nat_alt)
  qed
  have "unat (ALIGN (ar_used a) 128 + sz) = k * ?A + unat sz" "unat (ar_iova a + ALIGN (ar_used a) 128) = unat (ar_iova a) + k * ?A"
    using off assms by (simp_all add: arena_at_def unat_add_nowrap)
  then show ?thesis
    using fits assms(1) round_up_Suc [of k "unat sz"]
    by (simp add: ave_sess_arena_take_def Let_def arena_at_def)
qed

text \<open>The addresses of \<open>n\<close> pieces of \<open>sz\<close> bytes: inside one of the regions, 128-aligned, in rising order
  and apart.\<close>

definition surfaces_ok :: "(u64 \<times> u64) list \<Rightarrow> nat \<Rightarrow> u64 list \<Rightarrow> bool" where
  "surfaces_ok regions sz as \<longleftrightarrow>
     (\<exists>(b, n) \<in> set regions. \<forall>a \<in> set as. unat b \<le> unat a \<and> unat a + sz \<le> unat b + unat n)
   \<and> (\<forall>a \<in> set as. unat a mod 128 = 0 \<and> a \<noteq> 0)
   \<and> (\<forall>i < length as. \<forall>j < i. unat (as ! j) + sz \<le> unat (as ! i))"

lemma surfaces_okI:
  assumes "(b, n) \<in> set regions" "unat b mod 128 = 0" "length as * round_up 128 sz \<le> unat n" "b \<noteq> 0"
    and "\<And>i. i < length as \<Longrightarrow> unat (as ! i) = unat b + i * round_up 128 sz"
  shows "surfaces_ok regions sz as"
  unfolding surfaces_ok_def
proof (intro conjI allI impI ballI)
  have sz: "sz \<le> round_up 128 sz" by (simp add: round_up_bounds)
  have d: "128 dvd round_up 128 sz" by (rule round_up_dvd)
  show "\<exists>(b, n) \<in> set regions. \<forall>a \<in> set as. unat b \<le> unat a \<and> unat a + sz \<le> unat b + unat n"
  proof (intro bexI [OF _ assms(1)], unfold split, intro ballI)
    fix a assume "a \<in> set as"
    then obtain i where i: "i < length as" "a = as ! i" by (auto simp: in_set_conv_nth)
    have "i * round_up 128 sz + round_up 128 sz \<le> unat n"
      using mult_right_mono [of "Suc i" "length as" "round_up 128 sz"] i(1) assms(3) by simp
    then show "unat b \<le> unat a \<and> unat a + sz \<le> unat b + unat n" using assms(5) [OF i(1)] i(2) sz by simp
  qed
  fix a assume "a \<in> set as"
  then obtain i where "i < length as" "a = as ! i" by (auto simp: in_set_conv_nth)
  then have a: "unat a = unat b + i * round_up 128 sz" using assms(5) by simp
  then show "unat a mod 128 = 0" using assms(2) d by (simp add: mod_eq_0_iff_dvd dvd_add)
  show "a \<noteq> 0" using a assms(4) by (metis add_is_0 unat_eq_zero)
next
  fix i j assume "i < length as" "j < i"
  moreover have "j * round_up 128 sz + round_up 128 sz \<le> i * round_up 128 sz"
    using mult_right_mono [of "Suc j" i "round_up 128 sz"] \<open>j < i\<close> by simp
  ultimately show "unat (as ! j) + sz \<le> unat (as ! i)"
    using assms(5) [of i] assms(5) [of j] round_up_bounds(1) [of 128 sz] by simp
qed

section \<open>Tables\<close>

text \<open>The addresses of a table, in the order they are carved.\<close>

definition table_entries :: "u64 list list \<Rightarrow> (nat \<times> nat) list \<Rightarrow> u64 list" where
  "table_entries tab ps = map (\<lambda>(i, j). tab ! i ! j) ps"

definition table_has :: "u64 list list \<Rightarrow> (nat \<times> nat) list \<Rightarrow> bool" where
  "table_has tab ps \<longleftrightarrow> (\<forall>(i, j) \<in> set ps. i < length tab \<and> j < length (tab ! i))"

lemma table_set:
  assumes "table_has tab [(i, j)]"
  shows "tab[i := (tab ! i)[j := r]] ! i' ! j' = (if (i', j') = (i, j) then r else tab ! i' ! j')"
    "length (tab[i := (tab ! i)[j := r]] ! i') = length (tab ! i')"
  using assms by (cases "i' = i"; simp add: table_has_def nth_list_update)+

lemma carve_table_ok:
  assumes "arena_at k (unat sz) a" "(k + length ps) * round_up 128 (unat sz) \<le> unat (ar_size a)"
    and "distinct ps" "table_has tab ps"
  shows "\<exists>tab'. carve_table sz ps a tab = (True, tab')
    \<and> (\<forall>i < length ps. unat (table_entries tab' ps ! i) = unat (ar_iova a) + (k + i) * round_up 128 (unat sz))
    \<and> (\<forall>i j. (i, j) \<notin> set ps \<longrightarrow> tab' ! i ! j = tab ! i ! j)"
  using assms
proof (induction ps arbitrary: k a tab)
  case (Cons p ps)
  let ?A = "round_up 128 (unat sz)"
  obtain i j where p: "p = (i, j)" by (cases p)
  have "Suc k * ?A \<le> unat (ar_size a)"
    by (rule le_trans [OF _ Cons.prems(2)]) (intro mult_right_mono, simp_all)
  then have "k * ?A + unat sz \<le> unat (ar_size a)" using round_up_bounds(1) [of 128 "unat sz"] by simp
  then obtain r a' where t: "ave_sess_arena_take a sz = Some (r, a')" "arena_at (Suc k) (unat sz) a'"
    "unat r = unat (ar_iova a) + k * ?A" "ar_iova a' = ar_iova a" "ar_size a' = ar_size a"
    using arena_take [OF Cons.prems(1)] by blast
  have one: "table_has tab [(i, j)]" using Cons.prems(4) p by (simp add: table_has_def)
  let ?tab = "tab[i := (tab ! i)[j := r]]"
  have "table_has ?tab ps"
    using Cons.prems(4) table_set(2) [OF one] by (auto simp: table_has_def)
  then obtain tab' where tab': "carve_table sz ps a' ?tab = (True, tab')"
    "\<forall>q < length ps. unat (table_entries tab' ps ! q) = unat (ar_iova a') + (Suc k + q) * ?A"
    "\<forall>i j. (i, j) \<notin> set ps \<longrightarrow> tab' ! i ! j = ?tab ! i ! j"
    using Cons.IH [OF t(2), of ?tab] Cons.prems(2,3) t(5) by (auto simp: algebra_simps)
  have "tab' ! i ! j = r"
    using tab'(3) Cons.prems(3) p table_set(1) [OF one] by simp
  then have "\<forall>q < length (p # ps). unat (table_entries tab' (p # ps) ! q) = unat (ar_iova a) + (k + q) * ?A"
    using tab'(2) t(3,4) p by (auto simp: table_entries_def nth_Cons split: nat.split)
  moreover have "\<forall>i' j'. (i', j') \<notin> set (p # ps) \<longrightarrow> tab' ! i' ! j' = tab ! i' ! j'"
    using tab'(3) table_set(1) [OF one] p by auto
  ultimately show ?case using t(1) tab'(1) p by simp
qed simp

lemma table_order: "distinct (table_order n m)" "length (table_order n m) = n * m"
  "set (table_order n m) = {0..<n} \<times> {0..<m}"
proof -
  show "set (table_order n m) = {0..<n} \<times> {0..<m}" by (auto simp: table_order_def)
  show len: "length (table_order n m) = n * m"
    by (simp add: table_order_def length_concat comp_def sum_list_triv)
  show "distinct (table_order n m)"
    by (rule card_distinct) (simp add: len \<open>set _ = _\<close> card_cartesian_product)
qed

section \<open>Allocations\<close>

lemma dma_alloc_ok:
  assumes "dma_ok dma" "ave_sess_dma_alloc dma sz p = (Some a, p')"
  shows "sp_dma p' = sp_dma p @ [(a, sz)]" "a \<noteq> 0" "unat a mod 4096 = 0" "unat a + unat sz \<le> 2 ^ 32"
    "\<forall>r \<in> set (sp_dma p). regions_apart (a, sz) r" "sp_ipc p' = sp_ipc p"
proof -
  have d: "dma (sp_dma p) sz = Some a" "\<not> a + sz > SZ_4G" "p' = p\<lparr>sp_dma := sp_dma p @ [(a, sz)]\<rparr>"
    using assms(2) by (auto simp: ave_sess_dma_alloc_def split: if_splits option.splits)
  have k: "a \<noteq> 0" "unat a mod 4096 = 0" "unat a + unat sz < 2 ^ 64" "\<forall>r \<in> set (sp_dma p). regions_apart (a, sz) r"
    using assms(1) d(1) by (auto simp: dma_ok_def)
  then show "sp_dma p' = sp_dma p @ [(a, sz)]" "a \<noteq> 0" "unat a mod 4096 = 0" "sp_ipc p' = sp_ipc p"
    "\<forall>r \<in> set (sp_dma p). regions_apart (a, sz) r" using d by simp_all
  have "unat (a + sz) = unat a + unat sz" using k(3) by (simp add: unat_add_nowrap)
  then show "unat a + unat sz \<le> 2 ^ 32" using d(2) by (simp add: word_less_nat_alt SZ_4G_def)
qed

lemma dma_alloc_none: "ave_sess_dma_alloc dma sz p = (None, p') \<Longrightarrow> p' = p"
  by (auto simp: ave_sess_dma_alloc_def split: if_splits option.splits)

section \<open>Sizes\<close>

lemma unat_div_round_up:
  fixes n d :: u32
  assumes "unat n + unat d < 2 ^ 32" "d \<noteq> 0"
  shows "unat (DIV_ROUND_UP n d) = (unat n + unat d - 1) div unat d"
proof -
  have "unat (n + d - 1) = unat n + unat d - 1"
    using assms by (subst unat_diff_le) (simp_all add: unat_add_nowrap word_le_nat_alt Suc_le_eq unat_gt_0)
  then show ?thesis by (simp add: DIV_ROUND_UP_def unat_div)
qed

lemma less_bit_count: "m < 2 ^ bit_count m"
proof (induction m rule: less_induct)
  case (less m)
  show ?case
  proof (cases "m = 0")
    case False
    then have "m div 2 < 2 ^ bit_count (m div 2)" using less by simp
    then show ?thesis using False by (subst bit_count.simps) simp
  qed simp
qed

lemma bit_count_le: "m < 2 ^ k \<Longrightarrow> bit_count m \<le> k"
proof (induction k arbitrary: m)
  case (Suc k)
  show ?case
  proof (cases "m = 0")
    case False
    then have "bit_count (m div 2) \<le> k" using Suc by simp
    then show ?thesis using False by (subst bit_count.simps) simp
  qed (simp add: bit_count.simps)
qed (simp add: bit_count.simps)

lemma npo2_bounds:
  assumes "unat n \<le> 2 ^ k" "k < 32"
  shows "unat n \<le> unat (ave_npo2 n)" "unat (ave_npo2 n) \<le> 2 ^ k" "0 < unat (ave_npo2 n)"
proof -
  let ?b = "bit_count (unat (n - 1))"
  have "n \<le> 1 \<Longrightarrow> unat n \<le> 1" by (simp add: word_le_nat_alt)
  moreover have "unat (n - 1) = unat n - 1" if "\<not> n \<le> 1"
    using that by (subst unat_diff_le) (simp_all add: not_le less_imp_le)
  moreover have "\<not> n \<le> 1 \<Longrightarrow> 1 < unat n" by (simp add: word_le_nat_alt)
  ultimately have "\<not> n \<le> 1 \<Longrightarrow> ?b \<le> k \<and> unat n \<le> 2 ^ ?b"
    using assms less_bit_count [of "unat (n - 1)"] by (auto intro!: bit_count_le)
  moreover have "unat (push_bit b 1 :: u32) = 2 ^ b" if "b \<le> k" for b
    using that assms(2) by (simp add: push_bit_of_1 unat_2p)
  ultimately show "unat n \<le> unat (ave_npo2 n)" "unat (ave_npo2 n) \<le> 2 ^ k" "0 < unat (ave_npo2 n)"
    using \<open>n \<le> 1 \<Longrightarrow> unat n \<le> 1\<close> by (auto simp: ave_npo2_def intro: power_increasing)
qed

text \<open>\<open>1024 * c * b / 8 * r\<close> and its like, without a wrap.\<close>

lemma unat_plane:
  fixes c b r k :: u32
  assumes "unat c \<le> 128" "unat b \<le> 10" "unat r \<le> 129" "unat k = 8 * j" "j \<le> 128"
  shows "unat (k * c * b div 8 * r) = j * unat b * unat c * unat r" "j * unat b * unat c * unat r \<le> 21135360"
proof -
  have m: "8 * j * unat c \<le> 131072" "8 * j * unat c * unat b \<le> 1310720"
    using mult_le_mono [of "8 * j" 1024 "unat c" 128] assms mult_le_mono [of "8 * j * unat c" 131072 "unat b" 10] by simp_all
  then have "unat (k * c * b) = 8 * (j * unat c * unat b)"
    using assms(4) by (simp add: unat_mult_nowrap)
  then have d: "unat (k * c * b div 8) = j * unat c * unat b" by (simp add: unat_div)
  have "8 * (j * unat c * unat b) \<le> 8 * 163840" using m(2) by (simp only: mult.assoc)
  then have "j * unat c * unat b \<le> 163840" by linarith
  then have "j * unat c * unat b * unat r \<le> 163840 * 129" using assms(3) by (intro mult_le_mono)
  then show "unat (k * c * b div 8 * r) = j * unat b * unat c * unat r" "j * unat b * unat c * unat r \<le> 21135360"
    using d by (simp_all add: unat_mult_nowrap mult.commute [of j] mult.left_commute [of "unat c"] mult.assoc)
qed

text \<open>\<open>32 * npo2(c) * npo2(r)\<close>.\<close>

lemma unat_meta:
  fixes c r k :: u32
  assumes "unat c \<le> 128" "unat r \<le> 129" "unat k \<le> 32"
  shows "unat k * unat c * unat r \<le> unat (k * ave_npo2 c * ave_npo2 r)" "unat (k * ave_npo2 c * ave_npo2 r) \<le> unat k * 0x8000"
proof -
  have c: "unat c \<le> unat (ave_npo2 c)" "unat (ave_npo2 c) \<le> 128" and r: "unat r \<le> unat (ave_npo2 r)" "unat (ave_npo2 r) \<le> 256"
    using assms npo2_bounds [of c 7] npo2_bounds [of r 8] by simp_all
  have k: "unat k * unat (ave_npo2 c) \<le> unat k * 128" using c(2) by (rule mult_le_mono2)
  have m: "unat k * unat (ave_npo2 c) * unat (ave_npo2 r) \<le> unat k * 128 * 256" by (rule mult_le_mono [OF k r(2)])
  have "unat (k * ave_npo2 c) = unat k * unat (ave_npo2 c)"
    by (rule unat_mult_nowrap, rule le_less_trans [OF k]) (use assms(3) in simp)
  moreover from this have "unat (k * ave_npo2 c * ave_npo2 r) = unat (k * ave_npo2 c) * unat (ave_npo2 r)"
    by (intro unat_mult_nowrap, simp only:) (rule le_less_trans [OF m], use assms(3) in simp)
  ultimately have e: "unat (k * ave_npo2 c * ave_npo2 r) = unat k * unat (ave_npo2 c) * unat (ave_npo2 r)" by simp
  show "unat (k * ave_npo2 c * ave_npo2 r) \<le> unat k * 0x8000" using m e by linarith
  show "unat k * unat c * unat r \<le> unat (k * ave_npo2 c * ave_npo2 r)"
    unfolding e by (intro mult_le_mono le_refl c(1) r(1))
qed

lemma recon_planes_exact:
  fixes w h bd :: u32
  assumes w: "unat w \<le> 4096" and h: "unat h \<le> 4096"
  defines "cols \<equiv> (unat w + 31) div 32" and "rows \<equiv> (unat h + 35) div 32"
    and "cols_c \<equiv> (unat w div 2 + 15) div 16" and "rows_c \<equiv> (unat h div 2 + 19) div 16"
    and "bits \<equiv> if bd = 10 then 10 else 8 :: nat"
  defines "pl \<equiv> ave_recon_planes w h bd"
  shows "unat (pl_luma pl) = 128 * bits * cols * rows"
    "unat (pl_chroma pl) = round_up 128 (64 * bits * cols_c * rows_c)"
    "32 * cols * rows \<le> unat (pl_luma_meta pl)" "8 * cols_c * rows_c \<le> unat (pl_chroma_meta pl)"
    "unat (pl_luma_meta pl) \<le> 0x100000" "unat (pl_chroma_meta pl) \<le> 0x40000"
    "unat (pl_msb_span pl) = round_up 128 (unat (pl_luma pl) + unat (pl_chroma pl))"
    "unat (pl_lsb_span pl) = round_up 128 (unat (pl_luma_meta pl) + unat (pl_chroma_meta pl))"
proof -
  have cols: "unat (DIV_ROUND_UP w 32) = cols" "cols \<le> 128" using w by (simp_all add: unat_div_round_up cols_def)
  have rows: "unat (drop_bit 5 (h + 35)) = rows" "rows \<le> 129"
    using h by (simp_all add: drop_bit_eq_div unat_div unat_add_nowrap rows_def)
  have cols_c: "unat (DIV_ROUND_UP (w div 2) 16) = cols_c" "cols_c \<le> 128"
    using w by (simp_all add: unat_div_round_up unat_div cols_c_def)
  have rows_c: "unat (drop_bit 4 (h div 2 + 19)) = rows_c" "rows_c \<le> 129"
    using h by (simp_all add: drop_bit_eq_div unat_div unat_add_nowrap rows_c_def)
  define B :: u32 where "B = (if bd \<noteq> 10 then 8 else bd)"
  have B: "unat B = bits" "unat B \<le> 10" by (simp_all add: B_def bits_def)
  have pl: "pl_luma pl = 1024 * DIV_ROUND_UP w 32 * B div 8 * drop_bit 5 (h + 35)"
    "pl_chroma pl = ALIGN (512 * DIV_ROUND_UP (w div 2) 16 * B div 8 * drop_bit 4 (h div 2 + 19)) 128"
    "pl_luma_meta pl = ALIGN (32 * ave_npo2 (DIV_ROUND_UP w 32) * ave_npo2 (drop_bit 5 (h + 35))) 128"
    "pl_chroma_meta pl = ALIGN (8 * ave_npo2 (DIV_ROUND_UP (w div 2) 16) * ave_npo2 (drop_bit 4 (h div 2 + 19))) 128"
    "pl_msb_span pl = ALIGN (pl_luma pl + pl_chroma pl) 128"
    "pl_lsb_span pl = ALIGN (pl_luma_meta pl + pl_chroma_meta pl) 128"
    by (simp_all add: pl_def ave_recon_planes_def Let_def B_def)
  note luma = unat_plane [of "DIV_ROUND_UP w 32" B "drop_bit 5 (h + 35)" 1024 128]
  show L: "unat (pl_luma pl) = 128 * bits * cols * rows"
    unfolding pl(1) using cols rows B luma(1) by simp
  note chroma = unat_plane [of "DIV_ROUND_UP (w div 2) 16" B "drop_bit 4 (h div 2 + 19)" 512 64]
  have c: "unat (512 * DIV_ROUND_UP (w div 2) 16 * B div 8 * drop_bit 4 (h div 2 + 19)) = 64 * bits * cols_c * rows_c"
    "64 * bits * cols_c * rows_c \<le> 21135360"
    using cols_c rows_c B chroma by simp_all
  then show C: "unat (pl_chroma pl) = round_up 128 (64 * bits * cols_c * rows_c)"
    unfolding pl(2) by (subst unat_ALIGN_u32) simp_all
  have bound: "unat (pl_luma pl) \<le> 21135360" "unat (pl_chroma pl) \<le> 21135360 + 128"
    using luma(2) cols rows B L C c(2) round_up_bounds(2) [of 128 "64 * bits * cols_c * rows_c"] by simp_all
  note lm = unat_meta [of "DIV_ROUND_UP w 32" "drop_bit 5 (h + 35)" 32]
  let ?lm = "32 * ave_npo2 (DIV_ROUND_UP w 32) * ave_npo2 (drop_bit 5 (h + 35))"
  have lm': "32 * cols * rows \<le> unat ?lm" "unat ?lm \<le> 0x100000" using lm cols rows by simp_all
  have lmr: "unat (pl_luma_meta pl) = round_up 128 (unat ?lm)"
    unfolding pl(3) using lm'(2) by (subst unat_ALIGN_u32) simp_all
  show "32 * cols * rows \<le> unat (pl_luma_meta pl)"
    using lmr lm'(1) round_up_bounds(1) [of 128 "unat ?lm"] by simp
  note cm = unat_meta [of "DIV_ROUND_UP (w div 2) 16" "drop_bit 4 (h div 2 + 19)" 8]
  let ?cm = "8 * ave_npo2 (DIV_ROUND_UP (w div 2) 16) * ave_npo2 (drop_bit 4 (h div 2 + 19))"
  have cm': "8 * cols_c * rows_c \<le> unat ?cm" "unat ?cm \<le> 0x40000" using cm cols_c rows_c by simp_all
  have cmr: "unat (pl_chroma_meta pl) = round_up 128 (unat ?cm)"
    unfolding pl(4) using cm'(2) by (subst unat_ALIGN_u32) simp_all
  show "8 * cols_c * rows_c \<le> unat (pl_chroma_meta pl)"
    using cmr cm'(1) round_up_bounds(1) [of 128 "unat ?cm"] by simp
  have up: "round_up 128 m \<le> 128 * k" if "m \<le> 128 * k" for m k
    using that by (simp add: round_up_def)
  show lmb: "unat (pl_luma_meta pl) \<le> 0x100000" using up [of "unat ?lm" "0x2000"] lm'(2) lmr by simp
  show cmb: "unat (pl_chroma_meta pl) \<le> 0x40000" using up [of "unat ?cm" "0x800"] cm'(2) cmr by simp
  have "unat (pl_luma pl + pl_chroma pl) = unat (pl_luma pl) + unat (pl_chroma pl)"
    "unat (pl_luma_meta pl + pl_chroma_meta pl) = unat (pl_luma_meta pl) + unat (pl_chroma_meta pl)"
    using bound lmb cmb by (simp_all add: unat_add_nowrap)
  then show "unat (pl_msb_span pl) = round_up 128 (unat (pl_luma pl) + unat (pl_chroma pl))"
    "unat (pl_lsb_span pl) = round_up 128 (unat (pl_luma_meta pl) + unat (pl_chroma_meta pl))"
    unfolding pl(5,6) using bound lmb cmb by (simp_all add: unat_ALIGN_u32)
qed

section \<open>The decoded-picture buffer\<close>

lemma and_low_bits:
  fixes r :: u64
  assumes "unat r mod 128 = 0"
  shows "r AND 127 = 0" "r AND (ucast AVE_STRIDE_ALIGN - 1) = 0"
proof -
  have m: "r AND mask k = 0" if "unat r mod 2 ^ k = 0" for k
  proof -
    have "unat (take_bit k r) = take_bit k (unat r)" by (rule unsigned_take_bit_eq)
    also have "\<dots> = unat r mod 2 ^ k" by (rule take_bit_eq_mod)
    finally have "unat (take_bit k r) = unat r mod 2 ^ k" .
    then show ?thesis using that by (simp add: take_bit_eq_mask unat_eq_zero)
  qed
  have "unat r mod 64 = 0" using assms mod_mod_cancel [of 64 128 "unat r"] by simp
  then show "r AND 127 = 0" "r AND (ucast AVE_STRIDE_ALIGN - 1) = 0"
    using m [of 7] m [of 6] assms by (simp_all add: mask_eq_exp_minus_1 AVE_STRIDE_ALIGN_def)
qed

text \<open>Where the slots \<open>k..<n\<close> end up.\<close>

lemma dpb_loop_ok:
  assumes "arena_at k (unat rs) recon" "n * round_up 128 (unat rs) \<le> unat (ar_size recon)" "unat (ar_iova recon) mod 128 = 0"
    and "ls \<noteq> 0 \<Longrightarrow> arena_at k (unat ls) low \<and> n * round_up 128 (unat ls) \<le> unat (ar_size low) \<and> unat (ar_iova low) mod 128 = 0"
    and "k < n" "n \<le> length (sd_dpb sd)" "n < 2 ^ 32"
  defines "sd' \<equiv> dpb_loop rs ls [k..<n] recon low sd"
  shows "unat (sd_n_dpb sd') = n \<and> length (sd_dpb sd') = length (sd_dpb sd)
    \<and> (\<forall>i < k. sd_dpb sd' ! i = sd_dpb sd ! i)
    \<and> (\<forall>i. k \<le> i \<and> i < n \<longrightarrow> unat (fst (sd_dpb sd' ! i)) = unat (ar_iova recon) + i * round_up 128 (unat rs)
        \<and> (if ls = 0 then snd (sd_dpb sd' ! i) = 0
           else unat (snd (sd_dpb sd' ! i)) = unat (ar_iova low) + i * round_up 128 (unat ls)))"
  using assms(1-7) unfolding sd'_def
proof (induction "n - k" arbitrary: k recon low sd)
  case (Suc m)
  let ?A = "round_up 128 (unat rs)" and ?B = "round_up 128 (unat ls)"
  have up: "[k..<n] = k # [Suc k..<n]" using Suc.prems(5) by (simp add: upt_conv_Cons)
  have room: "k * round_up 128 x + x \<le> y" if "n * round_up 128 x \<le> y" for x y
    using mult_right_mono [of "Suc k" n "round_up 128 x"] Suc.prems(5) that round_up_bounds(1) [of 128 x] by simp
  obtain r recon' where r: "ave_sess_arena_take recon rs = Some (r, recon')" "arena_at (Suc k) (unat rs) recon'"
    "unat r = unat (ar_iova recon) + k * ?A" "ar_iova recon' = ar_iova recon" "ar_size recon' = ar_size recon"
    using arena_take [OF Suc.prems(1) room [OF Suc.prems(2)]] by blast
  have low: "\<exists>l low'. (if ls = 0 then (0, low) else case ave_sess_arena_take low ls of None \<Rightarrow> (0, low) | Some x \<Rightarrow> x) = (l, low')
      \<and> (if ls = 0 then l = 0 else unat l = unat (ar_iova low) + k * ?B \<and> arena_at (Suc k) (unat ls) low'
           \<and> ar_iova low' = ar_iova low \<and> ar_size low' = ar_size low)"
  proof (cases "ls = 0")
    case False
    then show ?thesis using arena_take [OF conjunct1 [OF Suc.prems(4)] room] Suc.prems(4) by fastforce
  qed simp
  then obtain l low' where l: "(if ls = 0 then (0, low) else case ave_sess_arena_take low ls of None \<Rightarrow> (0, low) | Some x \<Rightarrow> x) = (l, low')"
    "if ls = 0 then l = 0 else unat l = unat (ar_iova low) + k * ?B \<and> arena_at (Suc k) (unat ls) low'
       \<and> ar_iova low' = ar_iova low \<and> ar_size low' = ar_size low" by blast
  have "unat r mod 128 = 0"
    using r(3) Suc.prems(3) round_up_dvd [of 128 "unat rs"] by (simp add: mod_eq_0_iff_dvd)
  moreover have "unat l mod 128 = 0"
    using l(2) Suc.prems(4) round_up_dvd [of 128 "unat ls"] by (auto simp: mod_eq_0_iff_dvd split: if_splits)
  ultimately have ok: "\<not> (r AND 127 \<noteq> 0 \<or> l AND (ucast AVE_STRIDE_ALIGN - 1) \<noteq> 0)" 
    using and_low_bits(1) [of r] and_low_bits(2) [of l] by simp
  let ?sd = "sd\<lparr>sd_dpb := (sd_dpb sd)[k := (r, l)], sd_n_dpb := of_nat (Suc k)\<rparr>"
  define S where "S = dpb_loop rs ls [Suc k..<n] recon' low' ?sd"
  have step: "dpb_loop rs ls [k..<n] recon low sd = S"
    unfolding up S_def using r(1) l(1) ok by (simp del: of_nat_Suc)
  show ?case
  proof (cases "Suc k < n")
    case True
    have "ls \<noteq> 0 \<Longrightarrow> arena_at (Suc k) (unat ls) low' \<and> n * ?B \<le> unat (ar_size low') \<and> unat (ar_iova low') mod 128 = 0"
      using l(2) Suc.prems(4) by simp
    then have IH: "unat (sd_n_dpb S) = n \<and> length (sd_dpb S) = length (sd_dpb ?sd)
      \<and> (\<forall>i < Suc k. sd_dpb S ! i = sd_dpb ?sd ! i)
      \<and> (\<forall>i. Suc k \<le> i \<and> i < n \<longrightarrow> unat (fst (sd_dpb S ! i)) = unat (ar_iova recon') + i * ?A
        \<and> (if ls = 0 then snd (sd_dpb S ! i) = 0 else unat (snd (sd_dpb S ! i)) = unat (ar_iova low') + i * ?B))"
      unfolding S_def using Suc.hyps(2) Suc.prems(2,3,6,7) r True by (intro Suc.hyps(1)) simp_all
    have kth: "sd_dpb S ! k = (r, l)" using IH Suc.prems(5,6) by simp
    have "sd_dpb S ! i = sd_dpb sd ! i" if "i < k" for i using IH that by simp
    moreover have "unat (fst (sd_dpb S ! i)) = unat (ar_iova recon) + i * ?A
        \<and> (if ls = 0 then snd (sd_dpb S ! i) = 0 else unat (snd (sd_dpb S ! i)) = unat (ar_iova low) + i * ?B)"
      if "k \<le> i" "i < n" for i
      using IH that kth r(3,4) l(2) by (cases "i = k") (simp_all split: if_splits)
    ultimately show ?thesis unfolding step using IH by simp
  next
    case False
    then have "n = Suc k" using Suc.prems(5) by simp
    then show ?thesis
      unfolding step S_def using Suc.prems(6,7) r(3) l(2) by (auto simp: unat_of_nat_small less_Suc_eq simp del: of_nat_Suc)
  qed
qed simp

lemma unat_mb_align_up:
  assumes "unat v \<le> 4096"
  shows "unat v \<le> unat (ave_mb_align v)" "unat (ave_mb_align v) \<le> 4096"
proof -
  have "ave_mb_align v = ALIGN v (2 ^ 4)" by (simp add: ave_mb_align_def ALIGN_def AVE_MB_SIZE_def add.commute)
  moreover have "unat (ALIGN v (2 ^ 4)) = round_up (2 ^ 4) (unat v)" using assms by (intro unat_ALIGN) simp_all
  ultimately have "unat (ave_mb_align v) = round_up 16 (unat v)" by simp
  moreover have "round_up 16 (unat v) \<le> 4096" using assms by (simp add: round_up_def)
  ultimately show "unat v \<le> unat (ave_mb_align v)" "unat (ave_mb_align v) \<le> 4096"
    by (simp_all add: round_up_bounds)
qed

lemma dpb_slots_range: "0 < unat (dpb_slots mp g)" "unat (dpb_slots mp g) \<le> 4"
  by (simp_all add: dpb_slots_def Let_def AVE_SESS_DPB_MAX_def word_less_nat_alt unat_gt_0 not_less word_gt_0)

lemma recon_slot_size:
  fixes w h bd :: u32 and lsb :: bool
  assumes "unat w \<le> 4096" "unat h \<le> 4096"
  defines "pl \<equiv> ave_recon_planes w h bd"
  defines "need \<equiv> unat (pl_msb_span pl) + (if lsb then unat (pl_lsb_span pl) else 0)"
    and "rs \<equiv> ALIGN (ucast (pl_msb_span pl) + (if lsb then ucast (pl_lsb_span pl) else 0)) 0x1000 :: u64"
  shows "unat rs = round_up 0x1000 need" "need < 0x4000000" "unat (ucast rs :: u32) = unat rs" "round_up 128 (unat rs) = unat rs"
proof -
  note e = recon_planes_exact [OF assms(1,2), of bd, folded pl_def]
  let ?b = "if bd = 10 then 10 else 8 :: nat"
  have cols: "(unat w + 31) div 32 \<le> 128" "(unat h + 35) div 32 \<le> 129" "(unat w div 2 + 15) div 16 \<le> 128" "(unat h div 2 + 19) div 16 \<le> 129"
    using assms(1,2) by simp_all
  have "128 * ?b * ((unat w + 31) div 32) * ((unat h + 35) div 32) \<le> 128 * 10 * 128 * 129"
    by (intro mult_le_mono cols) simp_all
  then have l: "unat (pl_luma pl) \<le> 21135360" unfolding e(1) by simp
  have "64 * ?b * ((unat w div 2 + 15) div 16) * ((unat h div 2 + 19) div 16) \<le> 64 * 10 * 128 * 129"
    by (intro mult_le_mono cols) simp_all
  then have c: "unat (pl_chroma pl) \<le> 10567680 + 128"
    unfolding e(2) using round_up_bounds(2) [of 128 "64 * ?b * ((unat w div 2 + 15) div 16) * ((unat h div 2 + 19) div 16)"] by simp
  have "unat (pl_msb_span pl) \<le> 31703552" "unat (pl_lsb_span pl) \<le> 0x140080"
    using e(5-8) l c round_up_bounds(2) [of 128 "unat (pl_luma pl) + unat (pl_chroma pl)"]
      round_up_bounds(2) [of 128 "unat (pl_luma_meta pl) + unat (pl_chroma_meta pl)"] by simp_all
  then have n: "need \<le> 33014400" by (simp add: need_def)
  then show "need < 0x4000000" by simp
  have "unat (ucast (pl_msb_span pl) + (if lsb then ucast (pl_lsb_span pl) else 0) :: u64) = need"
    using n by (cases lsb) (simp_all add: need_def unat_add_nowrap)
  then show r: "unat rs = round_up 0x1000 need" unfolding rs_def using n by (simp add: unat_ALIGN_u64)
  have "unat rs < 2 ^ 32" unfolding r using round_up_bounds(2) [of "0x1000" need] n by simp
  then show "unat (ucast rs :: u32) = unat rs" by (simp add: unsigned_ucast_eq take_bit_nat_eq_self)
  obtain q where "unat rs = q * 0x1000" using r round_up_dvd [of "0x1000" need] by (auto elim: dvdE simp: mult.commute)
  then show "round_up 128 (unat rs) = unat rs"
    using round_up_mult [of 128 "q * 32" 0] by (simp add: round_up_def)
qed

lemma low_res_slot_size:
  assumes "unat w \<le> 4096" "unat h \<le> 4096"
  shows "unat (low_res_slot mp w h) \<le> 0x4000000" "round_up 128 (unat (low_res_slot mp w h)) = unat (low_res_slot mp w h)"
proof -
  let ?kb = "push_bit 10 (ucast (session_lowres_kb mp)) :: u64"
  have s: "unat (4 * w) \<le> 16384" using assms(1) by (simp add: unat_word_ariths)
  have "unat (ALIGN (4 * w) 256) = round_up 256 (unat (4 * w))" using s by (intro unat_ALIGN_u32) simp
  then have st: "unat (ALIGN (4 * w) 256) \<le> 16640" using round_up_bounds(2) [of 256 "unat (4 * w)"] s by simp
  have rows: "unat (drop_bit 4 (h + 63)) \<le> 259" using assms(2) by (simp add: drop_bit_eq_div unat_div unat_add_nowrap)
  have "unat (ALIGN (4 * w) 256) * unat (drop_bit 4 (h + 63)) \<le> 16640 * 259" by (rule mult_le_mono [OF st rows])
  then have m: "unat (ucast (ALIGN (4 * w) 256) * ucast (drop_bit 4 (h + 63)) :: u64) \<le> 4309760"
    by (simp add: unat_mult_nowrap)
  then have "unat (fst (ave_session_lowres_size w h)) \<le> 4309760 + 512"
    using round_up_bounds(2) [of 512 "unat (ucast (ALIGN (4 * w) 256) * ucast (drop_bit 4 (h + 63)) :: u64)"]
    by (simp add: ave_session_lowres_size_def Let_def unat_ALIGN_u64)
  then have b: "unat (if session_lowres_kb mp \<noteq> 0 \<and> \<not> ?kb > 0x4000000 then ?kb else fst (ave_session_lowres_size w h)) \<le> 0x4000000"
    by (auto simp: not_less word_le_nat_alt)
  then have e: "unat (low_res_slot mp w h) = round_up 0x1000 (unat (if session_lowres_kb mp \<noteq> 0 \<and> \<not> ?kb > 0x4000000 then ?kb else fst (ave_session_lowres_size w h)))"
    unfolding low_res_slot_def Let_def by (intro unat_ALIGN_u64) simp
  have "round_up 0x1000 m \<le> 0x4000000" if "m \<le> 0x4000000" for m using that by (simp add: round_up_def)
  then show "unat (low_res_slot mp w h) \<le> 0x4000000" unfolding e using b by blast
  obtain q where "unat (low_res_slot mp w h) = q * 0x1000"
    using e round_up_dvd [of "0x1000"] by (metis dvdE mult.commute)
  then show "round_up 128 (unat (low_res_slot mp w h)) = unat (low_res_slot mp w h)"
    using round_up_mult [of 128 "q * 32" 0] by (simp add: round_up_def)
qed

lemma dma_alloc_grows:
  "ave_sess_dma_alloc dma sz p = (r, p') \<Longrightarrow> set (sp_dma p) \<subseteq> set (sp_dma p')"
  by (auto simp: ave_sess_dma_alloc_def split: if_splits option.splits)

lemma low_res_result_loop_keeps:
  "sd_n_dpb (low_res_result_loop sz is a sd) = sd_n_dpb sd" "sd_dpb (low_res_result_loop sz is a sd) = sd_dpb sd"
  "sd_recon_size (low_res_result_loop sz is a sd) = sd_recon_size sd"
  "sd_recon_msb_span (low_res_result_loop sz is a sd) = sd_recon_msb_span sd"
  "sd_low_res_size (low_res_result_loop sz is a sd) = sd_low_res_size sd"
  by (induction sz "is" a sd rule: low_res_result_loop.induct) (simp_all split: option.split)

lemma alloc_low_res_result_keeps:
  assumes "alloc_low_res_result dma cw ch p sd = (p', sd')"
  shows "set (sp_dma p) \<subseteq> set (sp_dma p')" "sd_n_dpb sd' = sd_n_dpb sd" "sd_dpb sd' = sd_dpb sd"
    "sd_recon_size sd' = sd_recon_size sd" "sd_recon_msb_span sd' = sd_recon_msb_span sd"
    "sd_low_res_size sd' = sd_low_res_size sd"
  using assms dma_alloc_grows
  by (auto simp: alloc_low_res_result_def Let_def low_res_result_loop_keeps split: prod.splits option.splits)

lemma surfaces_ok_mono: "surfaces_ok rs sz as \<Longrightarrow> set rs \<subseteq> set rs' \<Longrightarrow> surfaces_ok rs' sz as"
  unfolding surfaces_ok_def by blast

lemma picture_fits:
  assumes "unat w \<le> 4096" "unat h \<le> 4096"
  shows "(if bd = 10 then 10 else 8) * unat w * unat h \<le> 8 * unat (pl_luma (ave_recon_planes (ave_mb_align w) (ave_mb_align h) (ucast (bd :: u8))))"
proof -
  let ?w = "ave_mb_align w" and ?h = "ave_mb_align h"
  note w = unat_mb_align_up [OF assms(1)] and h = unat_mb_align_up [OF assms(2)]
  have bits: "((ucast bd :: u32) = 10) = (bd = 10)"
    using unsigned_less [of bd, where ?'a = nat]
    by (simp add: word_unat_eq_iff unsigned_ucast_eq take_bit_nat_eq_self)
  let ?b = "if bd = 10 then 10 else 8 :: nat"
  have "unat w \<le> 32 * ((unat ?w + 31) div 32)" "unat h \<le> 32 * ((unat ?h + 35) div 32)"
    using w(1) h(1) by simp_all
  then have "unat w * unat h \<le> 32 * ((unat ?w + 31) div 32) * (32 * ((unat ?h + 35) div 32))"
    by (rule mult_le_mono)
  then have "?b * (unat w * unat h) \<le> ?b * (32 * ((unat ?w + 31) div 32) * (32 * ((unat ?h + 35) div 32)))"
    by (rule mult_le_mono2)
  then show ?thesis unfolding recon_planes_exact(1) [OF w(2) h(2)] by (simp add: bits mult.assoc mult.left_commute)
qed

text \<open>What an allocation leaves behind when the reconstruction arena is there.\<close>

lemma alloc_dpb_result:
  fixes mp g
  defines "w \<equiv> ave_mb_align (sg_width g)" and "h \<equiv> ave_mb_align (sg_height g)" and "n \<equiv> dpb_slots mp g"
  defines "pl \<equiv> ave_recon_planes w h (ucast (sg_bit_depth g))" and "ls0 \<equiv> low_res_slot mp w h"
  defines "rs \<equiv> ALIGN (ucast (pl_msb_span pl) + (if session_lsb mp then ucast (pl_lsb_span pl) else 0)) 0x1000 :: u64"
  assumes "ave_session_alloc_dpb dma mp g p sd = (p', sd')"
    and p1: "ave_sess_dma_alloc dma (rs * ucast n) p = (Some riova, p1)"
  defines "lowx \<equiv> (if session_lowres mp then ave_sess_dma_alloc dma (ls0 * ucast n) p1 else (None, p1))"
  defines "ls \<equiv> (if fst lowx = None then 0 else ls0)"
    and "low \<equiv> \<lparr>ar_iova = (case fst lowx of Some a \<Rightarrow> a | None \<Rightarrow> 0),
      ar_size = (if session_lowres mp then ls0 * ucast n else 0), ar_used = 0\<rparr>"
    and "recon \<equiv> \<lparr>ar_iova = riova, ar_size = rs * ucast n, ar_used = 0\<rparr>"
  defines "S \<equiv> dpb_loop rs ls [0..<unat n] recon low (sd\<lparr>sd_n_dpb := 0\<rparr>)"
  shows "set (sp_dma (snd lowx)) \<subseteq> set (sp_dma p')" "sd_n_dpb sd' = sd_n_dpb S" "sd_dpb sd' = sd_dpb S"
    "sd_recon_size sd' = ucast rs" "sd_recon_msb_span sd' = pl_msb_span pl" "sd_low_res_size sd' = ls"
proof -
  define sd1 where "sd1 = S\<lparr>sd_recon_size := ucast rs, sd_recon_msb_span := pl_msb_span pl, sd_low_res_size := ls,
    sd_low_res_stride := (if session_lowres mp then snd (ave_session_lowres_size w h) else 0)\<rparr>"
  have res: "(p', sd') = (if session_lowres mp then alloc_low_res_result dma w h (snd lowx) sd1 else (snd lowx, sd1))"
    using assms(7) p1 unfolding ave_session_alloc_dpb_def Let_def w_def [symmetric] h_def [symmetric] n_def [symmetric]
    unfolding pl_def [symmetric] ls0_def [symmetric] unfolding rs_def [symmetric]
    by (cases lowx) (auto simp: sd1_def S_def recon_def low_def ls_def lowx_def split: if_splits)
  show "set (sp_dma (snd lowx)) \<subseteq> set (sp_dma p')" "sd_n_dpb sd' = sd_n_dpb S" "sd_dpb sd' = sd_dpb S"
    "sd_recon_size sd' = ucast rs" "sd_recon_msb_span sd' = pl_msb_span pl" "sd_low_res_size sd' = ls"
    using res alloc_low_res_result_keeps [of dma w h "snd lowx" sd1 p' sd']
    by (cases "session_lowres mp"; simp add: sd1_def)+
qed

text \<open>C32. The decoded-picture buffer of a session: unless its allocation fails, every slot asked for is
  there, each at a 128-aligned address inside one allocation of the session, none overlapping
  another, and a slot holds the planes the encoder writes, the firmware deriving chroma from luma:
  luma and chroma in front, and, where the session publishes them, both metadata planes behind.
  The luma plane holds every sample of the picture. The low-resolution references are laid out as
  well. No 32-bit size wraps for pictures up to 4096 by 4096.\<close>

theorem dpb_slots_sound:
  assumes "dma_ok dma" "unat (sg_width g) \<le> 4096" "unat (sg_height g) \<le> 4096" "length (sd_dpb sd) = AVE_SESS_DPB_MAX"
    and "ave_session_alloc_dpb dma mp g p sd = (p', sd')"
  defines "n \<equiv> unat (dpb_slots mp g)"
    and "pl \<equiv> ave_recon_planes (ave_mb_align (sg_width g)) (ave_mb_align (sg_height g)) (ucast (sg_bit_depth g))"
  shows "sd_n_dpb sd' = 0 \<and> p' = p
    \<or> unat (sd_n_dpb sd') = n
      \<and> surfaces_ok (sp_dma p') (unat (sd_recon_size sd')) (map fst (take n (sd_dpb sd')))
      \<and> (sd_low_res_size sd' \<noteq> 0 \<longrightarrow> surfaces_ok (sp_dma p') (unat (sd_low_res_size sd')) (map snd (take n (sd_dpb sd'))))
      \<and> unat (pl_luma pl) + unat (pl_chroma pl) \<le> unat (sd_recon_msb_span sd')
      \<and> (session_lsb mp \<longrightarrow> unat (sd_recon_msb_span sd') + unat (pl_luma_meta pl) + unat (pl_chroma_meta pl) \<le> unat (sd_recon_size sd'))
      \<and> unat (sd_recon_msb_span sd') \<le> unat (sd_recon_size sd')
      \<and> (if sg_bit_depth g = 10 then 10 else 8) * unat (sg_width g) * unat (sg_height g) \<le> 8 * unat (pl_luma pl)"
proof -
  let ?w = "ave_mb_align (sg_width g)" and ?h = "ave_mb_align (sg_height g)"
  define rs :: u64 where "rs = ALIGN (ucast (pl_msb_span pl) + (if session_lsb mp then ucast (pl_lsb_span pl) else 0)) 0x1000"
  define ls0 where "ls0 = low_res_slot mp ?w ?h"
  note w = unat_mb_align_up [OF assms(2)] and h = unat_mb_align_up [OF assms(3)]
  note e = recon_planes_exact [OF w(2) h(2), of "ucast (sg_bit_depth g)", folded pl_def]
  note slot = recon_slot_size [OF w(2) h(2), of "ucast (sg_bit_depth g)" "session_lsb mp", folded pl_def, folded rs_def]
  note low = low_res_slot_size [OF w(2) h(2), of mp, folded ls0_def]
  have n: "0 < n" "n \<le> 4" "n = unat (dpb_slots mp g)" using dpb_slots_range by (simp_all add: n_def)
  note fits = picture_fits [OF assms(2,3), of "sg_bit_depth g", folded pl_def]
  let ?n = "dpb_slots mp g"
  show ?thesis
  proof (cases "fst (ave_sess_dma_alloc dma (rs * ucast ?n) p)")
    case None
    then obtain p1 where p1: "ave_sess_dma_alloc dma (rs * ucast ?n) p = (None, p1)" by (metis prod.collapse)
    then have "(p', sd') = (p, sd\<lparr>sd_n_dpb := 0\<rparr>)"
      using assms(5) dma_alloc_none [OF p1] unfolding ave_session_alloc_dpb_def Let_def rs_def [symmetric] pl_def [symmetric]
      by simp
    then show ?thesis by simp
  next
    case (Some riova)
    then obtain p1 where p1: "ave_sess_dma_alloc dma (rs * ucast ?n) p = (Some riova, p1)" by (metis prod.collapse)
    note r = dma_alloc_ok [OF assms(1) p1]
    define lowx where "lowx = (if session_lowres mp then ave_sess_dma_alloc dma (ls0 * ucast ?n) p1 else (None, p1))"
    define ls where "ls = (if fst lowx = None then 0 else ls0)"
    define low where "low = \<lparr>ar_iova = (case fst lowx of Some a \<Rightarrow> a | None \<Rightarrow> 0),
      ar_size = (if session_lowres mp then ls0 * ucast ?n else 0), ar_used = 0\<rparr>"
    define recon where "recon = \<lparr>ar_iova = riova, ar_size = rs * ucast ?n, ar_used = 0\<rparr>"
    define S where "S = dpb_loop rs ls [0..<n] recon low (sd\<lparr>sd_n_dpb := 0\<rparr>)"
    note sd' = alloc_dpb_result [OF assms(5) p1 [unfolded rs_def pl_def], folded pl_def, folded rs_def ls0_def,
        folded lowx_def, folded ls_def low_def recon_def n_def, folded S_def]
    have rsb: "unat rs < 0x8000000"
      using slot(1,2) round_up_bounds(2) [of "0x1000" "unat (pl_msb_span pl) + (if session_lsb mp then unat (pl_lsb_span pl) else 0)"]
      by linarith
    have un: "unat (x * ucast ?n) = n * unat x" if "unat x < 0x8000000" for x :: u64
    proof -
      have "unat x * n \<le> 0x8000000 * 4" using that n(2) by (intro mult_le_mono) simp_all
      then show ?thesis using n(3) by (subst unat_mult_nowrap) (simp_all add: mult.commute)
    qed
    have a0: "arena_at 0 (unat rs) recon" "unat (ar_iova recon) mod 128 = 0" "n * round_up 128 (unat rs) \<le> unat (ar_size recon)"
      using r(3,4) mod_mod_cancel [of 128 4096 "unat riova"] slot(4) un [OF rsb]
      by (simp_all add: recon_def arena_at_0)
    have l0: "arena_at 0 (unat ls) low \<and> n * round_up 128 (unat ls) \<le> unat (ar_size low) \<and> unat (ar_iova low) mod 128 = 0
      \<and> ar_iova low \<noteq> 0 \<and> (ar_iova low, ls * ucast ?n) \<in> set (sp_dma (snd lowx)) \<and> unat (ls * ucast ?n) = n * unat ls" if "ls \<noteq> 0"
    proof -
      have "fst lowx \<noteq> None" using that by (auto simp: ls_def split: if_splits)
      then obtain la p2 where la: "lowx = (Some la, p2)" by (cases lowx) auto
      then have la: "ave_sess_dma_alloc dma (ls0 * ucast ?n) p1 = (Some la, p2)" "session_lowres mp" "lowx = (Some la, p2)"
        by (simp_all add: lowx_def split: if_splits)
      note q = dma_alloc_ok [OF assms(1) la(1)]
      have "unat ls0 < 0x8000000" using low(1) by simp
      then show ?thesis
        using la q(1-4) low(2) un [of ls0] mod_mod_cancel [of 128 4096 "unat la"]
        by (simp add: low_def ls_def arena_at_0)
    qed
    have S: "unat (sd_n_dpb S) = n \<and> length (sd_dpb S) = length (sd_dpb sd)
      \<and> (\<forall>i. i < n \<longrightarrow> unat (fst (sd_dpb S ! i)) = unat riova + i * unat rs
        \<and> (if ls = 0 then snd (sd_dpb S ! i) = 0 else unat (snd (sd_dpb S ! i)) = unat (ar_iova low) + i * round_up 128 (unat ls)))"
      using dpb_loop_ok [of 0 rs recon n ls low "sd\<lparr>sd_n_dpb := 0\<rparr>", folded S_def] a0 l0 n(1,2) assms(4) slot(4)
      by (simp add: recon_def AVE_SESS_DPB_MAX_def)
    have len: "length (take n (sd_dpb S)) = n" using S n(2) assms(4) by (simp add: AVE_SESS_DPB_MAX_def)
    have "set (sp_dma p1) \<subseteq> set (sp_dma (snd lowx))"
      using dma_alloc_grows [of dma _ p1] by (cases lowx) (auto simp: lowx_def split: if_splits)
    then have in1: "(riova, rs * ucast ?n) \<in> set (sp_dma p')" using r(1) sd'(1) by auto
    have "surfaces_ok (sp_dma p') (unat rs) (map fst (take n (sd_dpb S)))"
      by (rule surfaces_okI [OF in1])
        (use r(2,3) mod_mod_cancel [of 128 4096 "unat riova"] len slot(4) un [OF rsb] S in simp_all)
    moreover have "surfaces_ok (sp_dma p') (unat ls) (map snd (take n (sd_dpb S)))" if "ls \<noteq> 0"
      by (rule surfaces_okI [of "ar_iova low" "ls * ucast ?n"])
        (use l0 [OF that] low(2) ls_def len S that sd'(1) in \<open>auto split: if_splits\<close>)
    ultimately show ?thesis
      using sd' S slot e(7,8) fits round_up_bounds(1) [of 128 "unat (pl_luma pl) + unat (pl_chroma pl)"]
        round_up_bounds(1) [of 128 "unat (pl_luma_meta pl) + unat (pl_chroma_meta pl)"]
        round_up_bounds(1) [of "0x1000" "unat (pl_msb_span pl) + (if session_lsb mp then unat (pl_lsb_span pl) else 0)"]
      by (intro disjI2) (auto split: if_splits)
  qed
qed

section \<open>Scratch tables\<close>

lemma carve_region_ok:
  assumes "dma_ok dma" "ave_sess_dma_alloc dma sz p = (Some b, p')"
    and "length ps * round_up 128 (unat each) \<le> unat sz" "distinct ps" "table_has tab ps"
  shows "\<exists>tab'. carve_table each ps \<lparr>ar_iova = b, ar_size = sz, ar_used = 0\<rparr> tab = (True, tab')
    \<and> surfaces_ok (sp_dma p') (unat each) (table_entries tab' ps)"
proof -
  note r = dma_alloc_ok [OF assms(1,2)]
  let ?a = "\<lparr>ar_iova = b, ar_size = sz, ar_used = 0\<rparr>"
  have "arena_at 0 (unat each) ?a" using r(4) by (intro arena_at_0) simp
  then obtain tab' where t: "carve_table each ps ?a tab = (True, tab')"
    "\<forall>i < length ps. unat (table_entries tab' ps ! i) = unat b + i * round_up 128 (unat each)"
    using carve_table_ok [of 0 each ?a ps tab] assms(3-5) by auto
  have "surfaces_ok (sp_dma p') (unat each) (table_entries tab' ps)"
    by (rule surfaces_okI [of b sz])
      (use r(1-3) t(2) assms(3) mod_mod_cancel [of 128 4096 "unat b"] in \<open>simp_all add: table_entries_def\<close>)
  with t(1) show ?thesis by blast
qed

lemma table_sizeI:
  fixes each n m :: u64
  assumes "unat each \<le> 0x4000000" "unat n * unat m \<le> 64"
  shows "unat n * unat m * round_up 128 (unat each) \<le> unat (ALIGN each 128 * n * m + 128)"
proof -
  have a: "unat (ALIGN each 128) = round_up 128 (unat each)" using assms(1) by (intro unat_ALIGN_u64) simp
  have b: "round_up 128 (unat each) \<le> 0x4000080" using round_up_bounds(2) [of 128 "unat each"] assms(1) by simp
  have c: "round_up 128 (unat each) * (unat n * unat m) \<le> 0x4000080 * 64" by (rule mult_le_mono [OF b assms(2)])
  show ?thesis
  proof (cases "unat n * unat m = 0")
    case False
    then have "1 \<le> unat m" by simp
    then have "round_up 128 (unat each) * unat n * 1 \<le> round_up 128 (unat each) * unat n * unat m" by (rule mult_le_mono2)
    moreover have "round_up 128 (unat each) * unat n * unat m \<le> 0x4000080 * 64" using c by (simp only: mult.assoc)
    ultimately have "round_up 128 (unat each) * unat n \<le> 0x4000080 * 64" by linarith
    then have "round_up 128 (unat each) * unat n < 2 ^ 64" by (rule le_less_trans) simp
    then have "unat (ALIGN each 128 * n) = round_up 128 (unat each) * unat n"
      using a by (subst unat_mult_nowrap) simp_all
    then have "unat (ALIGN each 128 * n * m) = round_up 128 (unat each) * unat n * unat m"
      using c by (subst unat_mult_nowrap) (simp_all add: mult.assoc)
    then have "unat (ALIGN each 128 * n * m + 128) = round_up 128 (unat each) * unat n * unat m + 128"
      using c by (subst unat_add_nowrap) (simp_all add: mult.assoc)
    then show ?thesis by (simp add: mult.commute mult.left_commute)
  qed auto
qed

definition table_dims :: "nat \<Rightarrow> nat \<Rightarrow> u64 list list \<Rightarrow> bool" where
  "table_dims n m tab \<longleftrightarrow> length tab = n \<and> (\<forall>r \<in> set tab. length r = m)"

lemma table_dims_has: "table_dims n m tab \<Longrightarrow> n' \<le> n \<Longrightarrow> m' \<le> m \<Longrightarrow> table_has tab (table_order n' m')"
  by (auto simp: table_dims_def table_has_def table_order(3))

text \<open>A complete table: every entry is an own surface of full size in the pool.\<close>

definition nbr_complete :: "sess_params \<Rightarrow> sess_geom \<Rightarrow> sess_pool \<Rightarrow> sess_nbr \<Rightarrow> bool" where
  "nbr_complete mp g p sn \<longleftrightarrow>
     unat (sn_n_nbr sn) = AVE_SRC_NBR_MAX \<and> sn_slot sn = nbr_slot_size mp g
     \<and> surfaces_ok (sp_dma p) (unat (sn_slot sn))
         (table_entries (sn_nbr sn) (table_order AVE_SRC_NBR_GROUPS AVE_SRC_NBR_MAX))"

definition entropy_complete :: "sess_params \<Rightarrow> ave_cmd_abi \<Rightarrow> sess_geom \<Rightarrow> sess_pool \<Rightarrow> sess_entropy \<Rightarrow> bool" where
  "entropy_complete mp abi g p se \<longleftrightarrow>
     se_n se = entropy_rows_of abi g \<and> se_cols se = entropy_cols_of abi \<and> se_n se \<noteq> 0
     \<and> unat (se_size se) = unat (entropy_each mp g)
     \<and> surfaces_ok (sp_dma p) (unat (se_size se))
         (table_entries (se_entropy se) (table_order (unat (se_n se)) (unat (se_cols se))))"

text \<open>When there is no table: it is not asked for, its entries are out of range, or the allocator
  has no room for it.\<close>

definition nbr_denied :: "dma_fun \<Rightarrow> sess_params \<Rightarrow> sess_geom \<Rightarrow> sess_pool \<Rightarrow> bool" where
  "nbr_denied dma mp g p \<longleftrightarrow>
     \<not> session_nbr mp \<or> \<not> sg_encode g \<or> nbr_slot_size mp g > 0x1000000
     \<or> fst (ave_sess_dma_alloc dma (ALIGN (nbr_slot_size mp g) 128 * of_nat AVE_SESS_NBR_SLOTS + 128) p) = None"

definition entropy_denied :: "dma_fun \<Rightarrow> sess_params \<Rightarrow> ave_cmd_abi \<Rightarrow> sess_geom \<Rightarrow> sess_pool \<Rightarrow> bool" where
  "entropy_denied dma mp abi g p \<longleftrightarrow>
     \<not> sg_encode g \<and> session_codec mp = 0 \<or> \<not> session_entropy mp
     \<or> pa_entropy_set (ab_process_avc abi) = AVE_OFF_NONE \<or> pa_entropy_max (ab_process_avc abi) = 0
     \<or> entropy_each mp g = 0 \<or> entropy_each mp g > 0x4000000
     \<or> fst (ave_sess_dma_alloc dma (ALIGN (entropy_each mp g) 128 * ucast (entropy_rows_of abi g)
         * ucast (entropy_cols_of abi) + 128) p) = None"

lemma alloc_nbr_ok:
  assumes "dma_ok dma" "table_dims AVE_SRC_NBR_GROUPS AVE_SRC_NBR_MAX (sn_nbr sn)"
    and "ave_session_alloc_nbr dma mp g p sn = (p', sn')"
  shows "if nbr_denied dma mp g p then p' = p \<and> sn' = sn else nbr_complete mp g p' sn'"
proof -
  let ?s = "nbr_slot_size mp g" and ?ps = "table_order AVE_SRC_NBR_GROUPS AVE_SRC_NBR_MAX"
  let ?sz = "ALIGN ?s 128 * of_nat AVE_SESS_NBR_SLOTS + 128"
  show ?thesis
  proof (cases "\<not> session_nbr mp \<or> \<not> sg_encode g \<or> ?s > 0x1000000 \<or> fst (ave_sess_dma_alloc dma ?sz p) = None")
    case True
    then show ?thesis
      using assms(3) dma_alloc_none [of dma ?sz p]
      by (cases "ave_sess_dma_alloc dma ?sz p") (auto simp: nbr_denied_def ave_session_alloc_nbr_def Let_def split: if_splits)
  next
    case False
    then obtain b p1 where b: "ave_sess_dma_alloc dma ?sz p = (Some b, p1)" by (metis option.exhaust prod.collapse)
    have "unat ?s \<le> 0x1000000" using False by (simp add: word_less_nat_alt)
    then have "length ?ps * round_up 128 (unat ?s) \<le> unat ?sz"
      using table_sizeI [of ?s 16 1] by (simp add: table_order AVE_SESS_NBR_SLOTS_def AVE_SRC_NBR_GROUPS_def AVE_SRC_NBR_MAX_def)
    then obtain tab' where "carve_table ?s ?ps \<lparr>ar_iova = b, ar_size = ?sz, ar_used = 0\<rparr> (sn_nbr sn) = (True, tab')"
      "surfaces_ok (sp_dma p1) (unat ?s) (table_entries tab' ?ps)"
      using carve_region_ok [OF assms(1) b _ table_order(1) table_dims_has [OF assms(2)]] by blast
    then show ?thesis
      using assms(3) False b by (auto simp: nbr_denied_def nbr_complete_def ave_session_alloc_nbr_def Let_def AVE_SRC_NBR_MAX_def)
  qed
qed

lemma alloc_entropy_ok:
  assumes "dma_ok dma" "table_dims AVE_ENTROPY_MAX AVE_ENTROPY_COLS (se_entropy se)"
    and "ave_session_alloc_entropy dma mp abi g p se = (p', se')"
  shows "if entropy_denied dma mp abi g p then p' = p \<and> se' = se else entropy_complete mp abi g p' se'"
proof -
  let ?n = "entropy_rows_of abi g" and ?m = "entropy_cols_of abi" and ?e = "entropy_each mp g"
  let ?ps = "table_order (unat ?n) (unat ?m)" and ?sz = "ALIGN ?e 128 * ucast ?n * ucast ?m + 128"
  have rows: "unat ?n \<le> 16" "pa_entropy_max (ab_process_avc abi) \<noteq> 0 \<Longrightarrow> ?n \<noteq> 0" and cols: "unat ?m \<le> 4"
    by (auto simp: entropy_rows_of_def entropy_cols_of_def Let_def min_def AVE_ENTROPY_MAX_def AVE_ENTROPY_COLS_def word_le_nat_alt)
  show ?thesis
  proof (cases "\<not> sg_encode g \<and> session_codec mp = 0 \<or> \<not> session_entropy mp
      \<or> pa_entropy_set (ab_process_avc abi) = AVE_OFF_NONE \<or> pa_entropy_max (ab_process_avc abi) = 0
      \<or> ?e = 0 \<or> ?e > 0x4000000 \<or> fst (ave_sess_dma_alloc dma ?sz p) = None")
    case True
    then show ?thesis
      using assms(3) dma_alloc_none [of dma ?sz p]
      by (cases "ave_sess_dma_alloc dma ?sz p") (auto simp: entropy_denied_def ave_session_alloc_entropy_def Let_def split: if_splits)
  next
    case False
    then obtain b p1 where b: "ave_sess_dma_alloc dma ?sz p = (Some b, p1)" by (metis option.exhaust prod.collapse)
    have e: "unat ?e \<le> 0x4000000" using False by (simp add: word_less_nat_alt)
    have "unat ?n * unat ?m \<le> 16 * 4" by (rule mult_le_mono [OF rows(1) cols])
    then have "length ?ps * round_up 128 (unat ?e) \<le> unat ?sz"
      using table_sizeI [OF e, of "ucast ?n" "ucast ?m"] by (simp add: table_order)
    then obtain tab' where "carve_table ?e ?ps \<lparr>ar_iova = b, ar_size = ?sz, ar_used = 0\<rparr> (se_entropy se) = (True, tab')"
      "surfaces_ok (sp_dma p1) (unat ?e) (table_entries tab' ?ps)"
      using carve_region_ok [OF assms(1) b _ table_order(1) table_dims_has [OF assms(2)], of "unat ?n" "unat ?m"] rows cols
      by (auto simp: AVE_ENTROPY_MAX_def AVE_ENTROPY_COLS_def)
    moreover have "unat (ucast ?e :: u32) = unat ?e" using e by (simp add: unsigned_ucast_eq take_bit_nat_eq_self)
    ultimately show ?thesis
      using assms(3) False b rows(2) by (auto simp: entropy_denied_def entropy_complete_def ave_session_alloc_entropy_def Let_def)
  qed
qed

text \<open>C33. The source-neighbour and the entropy tables of a session are complete or not there. In a
  session that has none, a table is there afterwards exactly when it is asked for, in range and the
  allocator has room, and then every entry the interface and the codec call for is an own, aligned
  surface of full size inside one allocation: the branches of the code that leave a table half
  filled are never taken. Where a table is denied nothing is allocated and the session's record stays
  what it was: no table in a new session, the entries of the stream before after a first one
  (\<open>ave_enc_stop\<close> does not clear them, a finding).\<close>

theorem scratch_tables_sound:
  assumes "dma_ok dma" "table_dims AVE_SRC_NBR_GROUPS AVE_SRC_NBR_MAX (sn_nbr sn)"
    and "table_dims AVE_ENTROPY_MAX AVE_ENTROPY_COLS (se_entropy se)"
    and "ave_session_alloc_nbr dma mp g p sn = (p1, sn')" "ave_session_alloc_entropy dma mp abi g p1 se = (p2, se')"
  shows "(if nbr_denied dma mp g p then p1 = p \<and> sn' = sn else nbr_complete mp g p1 sn')
    \<and> (if entropy_denied dma mp abi g p1 then p2 = p1 \<and> se' = se else entropy_complete mp abi g p2 se')
    \<and> (sn_n_nbr sn = 0 \<longrightarrow> (sn_n_nbr sn' \<noteq> 0 \<longleftrightarrow> \<not> nbr_denied dma mp g p))
    \<and> (se_n se = 0 \<longrightarrow> (se_n se' \<noteq> 0 \<longleftrightarrow> \<not> entropy_denied dma mp abi g p1))"
  using alloc_nbr_ok [OF assms(1,2,4)] alloc_entropy_ok [OF assms(1,3,5)]
  by (auto simp: nbr_complete_def entropy_complete_def AVE_SRC_NBR_MAX_def split: if_splits)

section \<open>What is allocated is freed\<close>

text \<open>The session's allocations, and those others make in the same pool in between (the firmware's
  through \<open>SHAREDMALLOC\<close>).\<close>

datatype pool_act = AllocDma u64 | AllocIpc nat | OtherIpc nat

definition pool_step ::
  "dma_fun \<Rightarrow> ((nat \<times> nat) list \<Rightarrow> nat \<Rightarrow> nat option) \<Rightarrow> pool_act \<Rightarrow> sess_pool \<times> ave_device \<Rightarrow> sess_pool \<times> ave_device" where
  "pool_step dma gp a s = (case s of (p, d) \<Rightarrow>
     (case a of
        AllocDma sz \<Rightarrow> (snd (ave_sess_dma_alloc dma sz p), d)
      | AllocIpc sz \<Rightarrow> snd (ave_sess_ipc_alloc gp sz p d)
      | OtherIpc sz \<Rightarrow> (p, snd (ave_ipc_alloc gp sz d))))"

text \<open>Since the marks, the pool has only grown, and holds every command of the session.\<close>

definition pool_since :: "sess_pool \<Rightarrow> sess_pool \<times> ave_device \<Rightarrow> bool" where
  "pool_since p0 s \<longleftrightarrow> (case s of (p, d) \<Rightarrow>
     \<exists>new_dma new_ipc live. sp_dma p = sp_dma p0 @ new_dma \<and> sp_ipc p = sp_ipc p0 @ new_ipc
       \<and> ipc_pool d = Some live \<and> mset new_ipc \<subseteq># mset live \<and> (\<forall>b \<in> set new_ipc. snd b \<noteq> 0))"

lemma ipc_alloc_live:
  "ave_ipc_alloc gp sz d = (r, d') \<Longrightarrow> ipc_pool d = Some live \<Longrightarrow>
   (case r of None \<Rightarrow> d' = d | Some va \<Rightarrow> sz \<noteq> 0 \<and> ipc_pool d' = Some ((va, sz) # live) \<and> pool_bug d' = pool_bug d)"
  by (auto simp: ave_ipc_alloc_def split: if_splits option.splits)

lemma pool_step_since:
  assumes "pool_since p0 s"
  shows "pool_since p0 (pool_step dma gp a s) \<and> pool_bug (snd (pool_step dma gp a s)) = pool_bug (snd s)"
proof -
  obtain p d where s: "s = (p, d)" by (cases s)
  then obtain nd ni live where k: "sp_dma p = sp_dma p0 @ nd" "sp_ipc p = sp_ipc p0 @ ni" "ipc_pool d = Some live"
    "mset ni \<subseteq># mset live" "\<forall>b \<in> set ni. snd b \<noteq> 0" using assms by (auto simp: pool_since_def)
  show ?thesis
  proof (cases a)
    case (AllocDma sz)
    then show ?thesis
      using s k by (auto simp: pool_step_def pool_since_def ave_sess_dma_alloc_def split: option.split)
  next
    case (AllocIpc sz)
    obtain r d' where r: "ave_ipc_alloc gp sz d = (r, d')" by (cases "ave_ipc_alloc gp sz d")
    then show ?thesis
      using s k AllocIpc ipc_alloc_live [OF r k(3)]
      by (cases r) (auto simp: pool_step_def pool_since_def ave_sess_ipc_alloc_def)
  next
    case (OtherIpc sz)
    obtain r d' where r: "ave_ipc_alloc gp sz d = (r, d')" by (cases "ave_ipc_alloc gp sz d")
    then show ?thesis
      using s k OtherIpc ipc_alloc_live [OF r k(3)] subset_mset.order_trans [of "mset ni" "mset live"]
      by (cases r) (auto simp: pool_step_def pool_since_def)
  qed
qed

lemma pool_run_since:
  "pool_since p0 s \<Longrightarrow> pool_since p0 (fold (pool_step dma gp) acts s) \<and> pool_bug (snd (fold (pool_step dma gp) acts s)) = pool_bug (snd s)"
  by (induction acts arbitrary: s) (use pool_step_since in \<open>simp_all\<close>)

lemma free_ipc_exact:
  "ipc_pool d = Some live \<Longrightarrow> mset bs \<subseteq># mset live \<Longrightarrow> \<forall>b \<in> set bs. snd b \<noteq> 0 \<Longrightarrow>
   \<exists>live'. ipc_pool (free_ipc bs d) = Some live' \<and> mset live' = mset live - mset bs \<and> pool_bug (free_ipc bs d) = pool_bug d"
proof (induction bs arbitrary: d live)
  case (Cons b bs)
  obtain cpu sz where b: "b = (cpu, sz)" by (cases b)
  have "b \<in> set live" using Cons.prems(2) by (auto simp: insert_subset_eq_iff)
  then have "ave_ipc_free (Some cpu) sz d = d\<lparr>ipc_pool := Some (remove1 b live)\<rparr>"
    using Cons.prems(1,3) b by (auto simp: ave_ipc_free_def)
  moreover have "mset bs \<subseteq># mset (remove1 b live)"
    using Cons.prems(2) by (simp add: insert_subset_eq_iff)
  ultimately show ?case
    using Cons.IH [of "d\<lparr>ipc_pool := Some (remove1 b live)\<rparr>" "remove1 b live"] Cons.prems(3) b
    by (auto simp: free_ipc_def)
qed (simp add: free_ipc_def)

text \<open>C34. Whatever a session allocates after its marks, successfully or not, and whatever the firmware
  allocates in between, freeing back to the marks gives the kernel exactly the session's DMA
  allocations, newest first, and the pool exactly the session's commands: no double free (a kernel
  BUG), nothing of anyone else's, and nothing from before the marks.\<close>

theorem session_frees_its_own:
  assumes "ipc_pool d = Some live" "fold (pool_step dma gp) acts (p, d) = (p1, d1)"
    and "ave_sess_free_to (length (sp_dma p)) (length (sp_ipc p)) p1 d1 = (freed, p2, d2)"
  shows "p2 = p \<and> sp_dma p1 = sp_dma p @ rev freed \<and> pool_bug d2 = pool_bug d
    \<and> (\<exists>new live1 live2. sp_ipc p1 = sp_ipc p @ new \<and> ipc_pool d1 = Some live1 \<and> ipc_pool d2 = Some live2
        \<and> mset live1 = mset live2 + mset new)"
proof -
  have "pool_since p (p, d)" using assms(1) by (simp add: pool_since_def)
  then have s: "pool_since p (p1, d1)" "pool_bug d1 = pool_bug d"
    using pool_run_since [of p "(p, d)" dma gp acts] assms(2) by auto
  then obtain nd ni live1 where k: "sp_dma p1 = sp_dma p @ nd" "sp_ipc p1 = sp_ipc p @ ni" "ipc_pool d1 = Some live1"
    "mset ni \<subseteq># mset live1" "\<forall>b \<in> set ni. snd b \<noteq> 0" by (auto simp: pool_since_def)
  then show ?thesis
    using assms(3) s(2) free_ipc_exact [OF k(3), of "rev ni"] subset_mset.diff_add [OF k(4)]
    by (auto simp: ave_sess_free_to_def)
qed

section \<open>Examples\<close>

text \<open>A DMA allocator that goes upwards, and the default parameters at 1280 by 720.\<close>

definition example_dma :: dma_fun where
  "example_dma live sz =
     (let a = round_up 4096 (foldr (\<lambda>r m. max (unat (fst r) + unat (snd r)) m) live 4096)
      in if a + unat sz < 2 ^ 64 then Some (of_nat a) else None)"

lemma example_dma_ok: "dma_ok example_dma"
  unfolding dma_ok_def
proof (intro allI impI)
  fix live sz a assume a: "example_dma live sz = Some a"
  let ?m = "foldr (\<lambda>r m. max (unat (fst r) + unat (snd r)) m) live 4096"
  have u: "unat a = round_up 4096 ?m" "unat a + unat sz < 2 ^ 64"
    using a by (auto simp: example_dma_def Let_def unat_of_nat_small split: if_splits)
  have m: "4096 \<le> ?m" "\<forall>r \<in> set live. unat (fst r) + unat (snd r) \<le> ?m" by (induction live) auto
  have "?m \<le> unat a" using u(1) round_up_bounds(1) [of 4096 ?m] by simp
  then have "a \<noteq> 0" "\<forall>r \<in> set live. regions_apart (a, sz) r"
    using m by (auto simp: regions_apart_def)
  moreover have "unat a mod 4096 = 0" using u(1) round_up_dvd [of 4096 ?m] by (simp add: mod_eq_0_iff_dvd)
  ultimately show "a \<noteq> 0 \<and> unat a mod 4096 = 0 \<and> unat a + unat sz < 2 ^ 64 \<and> (\<forall>r \<in> set live. regions_apart (a, sz) r)"
    using u(2) by blast
qed

definition example_params :: sess_params where
  "example_params =
     \<lparr>session_nbr = True, session_nbr_kb = 0, session_lowres = True, session_lowres_kb = 0, session_lsb = True,
      session_entropy = True, session_entropy_kb = 0, session_dpb = 2, session_codec = 0, session_coded_kb = 0\<rparr>"

definition example_geom :: sess_geom where
  "example_geom = \<lparr>sg_width = 1280, sg_height = 720, sg_codec = 0, sg_bit_depth = 8, sg_encode = True, sg_req_dpb = 0\<rparr>"

definition empty_pool :: sess_pool where "empty_pool = \<lparr>sp_dma = [], sp_ipc = []\<rparr>"

definition empty_dpb :: sess_dpb where
  "empty_dpb =
     \<lparr>sd_n_dpb = 0, sd_dpb = replicate AVE_SESS_DPB_MAX (0, 0), sd_recon_size = 0, sd_recon_msb_span = 0, sd_low_res_size = 0,
      sd_low_res_stride = 0, sd_low_res_result = replicate AVE_LOW_RES_RESULT_MAX 0, sd_n_low_res_result = 0,
      sd_low_res_result_size = 0\<rparr>"

lemma example_dma_first:
  assumes "unat sz < 2 ^ 31"
  shows "ave_sess_dma_alloc example_dma sz empty_pool = (Some 0x1000, empty_pool\<lparr>sp_dma := [(0x1000, sz)]\<rparr>)"
proof -
  have "unat (0x1000 + sz) = 0x1000 + unat sz" using assms by (simp add: unat_add_nowrap)
  then have "\<not> 0x1000 + sz > SZ_4G" using assms by (simp add: word_less_nat_alt SZ_4G_def)
  then show ?thesis
    using assms by (simp add: ave_sess_dma_alloc_def example_dma_def empty_pool_def AVE_SESS_MAX_DMA_def round_up_def)
qed

text \<open>Both slots of a 720p session.\<close>

lemma dpb_slots_sound_witness:
  "\<exists>p' sd'. ave_session_alloc_dpb example_dma example_params example_geom empty_pool empty_dpb = (p', sd')
     \<and> sd_n_dpb sd' = 2 \<and> surfaces_ok (sp_dma p') (unat (sd_recon_size sd')) (map fst (take 2 (sd_dpb sd')))"
proof -
  obtain p' sd' where r: "ave_session_alloc_dpb example_dma example_params example_geom empty_pool empty_dpb = (p', sd')"
    by (rule prod.exhaust)
  have g: "unat (sg_width example_geom) \<le> 4096" "unat (sg_height example_geom) \<le> 4096"
    "length (sd_dpb empty_dpb) = AVE_SESS_DPB_MAX" by (simp_all add: example_geom_def empty_dpb_def)
  have n: "dpb_slots example_params example_geom = 2"
    by (simp add: dpb_slots_def example_params_def example_geom_def AVE_SESS_DPB_MAX_def)
  let ?w = "ave_mb_align (sg_width example_geom)" and ?h = "ave_mb_align (sg_height example_geom)"
  let ?pl = "ave_recon_planes ?w ?h (ucast (sg_bit_depth example_geom))"
  let ?rs = "ALIGN (ucast (pl_msb_span ?pl) + (if session_lsb example_params then ucast (pl_lsb_span ?pl) else 0)) 0x1000 :: u64"
  note slot = recon_slot_size [OF unat_mb_align_up(2) [OF g(1)] unat_mb_align_up(2) [OF g(2)],
      of "ucast (sg_bit_depth example_geom)" "session_lsb example_params"]
  have "unat ?rs < 0x4001000"
    using slot(1,2) round_up_bounds(2) [of "0x1000" "unat (pl_msb_span ?pl) + (if session_lsb example_params then unat (pl_lsb_span ?pl) else 0)"]
    by linarith
  then have "unat (?rs * 2) < 2 ^ 31" by (simp add: unat_mult_nowrap)
  then have "ave_sess_dma_alloc example_dma (?rs * ucast (dpb_slots example_params example_geom)) empty_pool
      = (Some 0x1000, empty_pool\<lparr>sp_dma := [(0x1000, ?rs * 2)]\<rparr>)"
    using example_dma_first [of "?rs * 2"] by (simp add: n)
  note in_p' = alloc_dpb_result(1) [OF r this]
  have "set (sp_dma q) \<subseteq> set (sp_dma (snd (if b then ave_sess_dma_alloc dma sz q else (None, q))))" for q b dma sz
    using dma_alloc_grows [of dma sz q] by (cases "ave_sess_dma_alloc dma sz q") simp
  from order_trans [OF this in_p'] have "p' \<noteq> empty_pool" by (auto simp: empty_pool_def)
  with dpb_slots_sound [OF example_dma_ok g r] show ?thesis
    using r n by (auto simp: word_unat_eq_iff)
qed

text \<open>A 16 by 16 picture, and rows of 8 KiB.\<close>

definition tiny_params :: sess_params where
  "tiny_params = example_params\<lparr>session_nbr_kb := 16, session_entropy_kb := 8\<rparr>"

definition empty_nbr :: sess_nbr where
  "empty_nbr = \<lparr>sn_nbr = replicate AVE_SRC_NBR_GROUPS (replicate AVE_SRC_NBR_MAX 0), sn_slot = 0, sn_n_nbr = 0\<rparr>"

definition empty_entropy :: sess_entropy where
  "empty_entropy =
     \<lparr>se_entropy = replicate AVE_ENTROPY_MAX (replicate AVE_ENTROPY_COLS 0), se_size = 0, se_n = 0, se_cols = 0\<rparr>"

lemma scratch_tables_sound_witness:
  "\<exists>p1 sn' p2 se'. ave_session_alloc_nbr example_dma tiny_params example_geom empty_pool empty_nbr = (p1, sn')
     \<and> ave_session_alloc_entropy example_dma tiny_params ave_cmd_abi_13_5 example_geom p1 empty_entropy = (p2, se')
     \<and> unat (sn_n_nbr sn') = 4 \<and> \<not> nbr_denied example_dma tiny_params example_geom empty_pool
     \<and> surfaces_ok (sp_dma p1) 0x4000 (table_entries (sn_nbr sn') (table_order AVE_SRC_NBR_GROUPS AVE_SRC_NBR_MAX))"
proof -
  obtain p1 sn' p2 se' where r: "ave_session_alloc_nbr example_dma tiny_params example_geom empty_pool empty_nbr = (p1, sn')"
    "ave_session_alloc_entropy example_dma tiny_params ave_cmd_abi_13_5 example_geom p1 empty_entropy = (p2, se')"
    by (metis prod.exhaust)
  have d: "table_dims AVE_SRC_NBR_GROUPS AVE_SRC_NBR_MAX (sn_nbr empty_nbr)"
    "table_dims AVE_ENTROPY_MAX AVE_ENTROPY_COLS (se_entropy empty_entropy)"
    by (simp_all add: table_dims_def empty_nbr_def empty_entropy_def)
  have slot: "nbr_slot_size tiny_params example_geom = 0x4000"
    by (simp add: nbr_slot_size_def tiny_params_def example_params_def example_geom_def)
  have "unat (ALIGN (0x4000 :: u64) 128 * of_nat AVE_SESS_NBR_SLOTS + 128) < 2 ^ 31"
    by (simp add: ALIGN_def AVE_SESS_NBR_SLOTS_def AVE_SRC_NBR_GROUPS_def AVE_SRC_NBR_MAX_def)
  from example_dma_first [OF this] have "\<not> nbr_denied example_dma tiny_params example_geom empty_pool"
    by (simp add: nbr_denied_def slot) (simp add: tiny_params_def example_params_def example_geom_def)
  then show ?thesis
    using scratch_tables_sound [OF example_dma_ok d r] r slot by (auto simp: nbr_complete_def AVE_SRC_NBR_MAX_def)
qed

lemma session_frees_its_own_witness:
  "\<exists>p1 d1 freed p2 d2. fold (pool_step example_dma (bump_pool 0x1000)) [AllocDma 0x2000, AllocIpc 64, OtherIpc 32]
       (empty_pool, example_device) = (p1, d1)
     \<and> ave_sess_free_to 0 0 p1 d1 = (freed, p2, d2) \<and> p2 = empty_pool \<and> sp_dma p1 = rev freed
     \<and> pool_bug d2 = pool_bug example_device"
proof -
  obtain p1 d1 freed p2 d2 where r: "fold (pool_step example_dma (bump_pool 0x1000))
      [AllocDma 0x2000, AllocIpc 64, OtherIpc 32] (empty_pool, example_device) = (p1, d1)"
    "ave_sess_free_to (length (sp_dma empty_pool)) (length (sp_ipc empty_pool)) p1 d1 = (freed, p2, d2)"
    by (metis prod.exhaust)
  have "ipc_pool example_device = Some [(0, 128)]" by (simp add: example_device_def)
  from session_frees_its_own [OF this r] show ?thesis using r by (auto simp: empty_pool_def)
qed

end
