(* ===== verification/Ave_Sess_Rx.thy ===== *)
theory Ave_Sess_Rx
  imports Ave_Cmd_Frame Ave_Handshake
begin

text \<open>
  The command exchange of a session, from \<^verbatim>\<open>src/driver/ave_session.c\<close>: the hook
  that captures what the firmware sends back (\<open>ave_session_ipc_rx\<close>, called from the hard
  interrupt) and the round trip of one command (\<open>ave_session_cmd\<close>).

  \<^item> The kernel's \<open>struct completion\<close> is the number of \<open>complete\<close> calls not yet waited for.
  \<^item> While a command waits, the firmware writes FwIPC and registers, raises status bits, and
    the interrupt handler runs: any sequence of \<open>env_act\<close>, the argument \<open>acts\<close>. The hook's
    calls are those the handler adds to \<open>rx_calls\<close> meanwhile; their effect on the capture
    record is that of all of them in order. The wait times out exactly when none of them
    completes.
\<close>

section \<open>Reply capture\<close>

definition AVE_SESS_REPLY_MAX :: nat where "AVE_SESS_REPLY_MAX = 0x80"
definition AVE_SESS_RX_Q :: nat where "AVE_SESS_RX_Q = 4"

record ave_sess_rx =
  rx_done :: nat
  rx_buf :: "u8 list"
  rx_size :: u32
  rx_flags :: u32
  rx_overflow :: bool
  rx_ack_size :: u32
  rx_ack_seen :: bool
  rx_want_id :: u16
  rx_other_id :: u32
  rx_other_count :: u32
  rx_batch :: bool
  rx_nq :: nat
  rx_qbuf :: "u8 list list"
  rx_qsize :: "u32 list"

text \<open>A call of the hook: channel, buffer (its offset in FwIPC and what it held), size, flags.\<close>

type_synonym rx_call = "nat \<times> (nat \<times> u8 list) option \<times> u32 \<times> u32"

text \<open>\<open>init_completion\<close> on the record that the first use allocated, zeroed.\<close>

definition fresh_rx :: ave_sess_rx where
  "fresh_rx =
     \<lparr>rx_done = 0, rx_buf = replicate AVE_SESS_REPLY_MAX 0, rx_size = 0, rx_flags = 0, rx_overflow = False,
      rx_ack_size = 0, rx_ack_seen = False, rx_want_id = 0, rx_other_id = 0, rx_other_count = 0,
      rx_batch = False, rx_nq = 0, rx_qbuf = replicate AVE_SESS_RX_Q (replicate AVE_SESS_REPLY_MAX 0),
      rx_qsize = replicate AVE_SESS_RX_Q 0\<rparr>"

definition ave_sess_rx_init :: "ave_sess_rx option \<Rightarrow> ave_sess_rx" where
  "ave_sess_rx_init rx = (case rx of None \<Rightarrow> fresh_rx | Some r \<Rightarrow> r\<lparr>rx_done := 0\<rparr>)"

definition get_le16 :: "u8 list \<Rightarrow> nat \<Rightarrow> u16" where
  "get_le16 b off = ucast (b ! off) OR push_bit 8 (ucast (b ! (off + 1)))"

text \<open>\<open>memcpy\<close> to the front of a buffer.\<close>

definition copy_in :: "u8 list \<Rightarrow> u8 list \<Rightarrow> u8 list" where
  "copy_in bs buf = bs @ drop (length bs) buf"

definition rx_skips :: "rx_call \<Rightarrow> ave_sess_rx \<Rightarrow> bool" where
  "rx_skips call rx = (case call of (ch, buf, sz, flags) \<Rightarrow>
     rx_want_id rx \<noteq> 0 \<and> sz \<ge> 2
     \<and> (case buf of None \<Rightarrow> False | Some (_, bs) \<Rightarrow> get_le16 bs 0 \<noteq> rx_want_id rx))"

definition rx_queue :: "rx_call \<Rightarrow> ave_sess_rx \<Rightarrow> ave_sess_rx" where
  "rx_queue call rx = (case call of (ch, buf, sz, flags) \<Rightarrow>
     let n = min sz (of_nat AVE_SESS_REPLY_MAX); i = rx_nq rx;
         rx1 = (if i < AVE_SESS_RX_Q
                then rx\<lparr>rx_qbuf := (case buf of Some (_, bs) \<Rightarrow>
                                    (rx_qbuf rx)[i := copy_in (take (unat n) bs) (rx_qbuf rx ! i)]
                                  | None \<Rightarrow> rx_qbuf rx),
                        rx_qsize := (rx_qsize rx)[i := (if buf \<noteq> None then n else 0)]\<rparr>
                else rx)
     in rx1\<lparr>rx_nq := i + 1, rx_done := rx_done rx + 1\<rparr>)"

definition rx_capture :: "rx_call \<Rightarrow> ave_sess_rx \<Rightarrow> ave_sess_rx" where
  "rx_capture call rx = (case call of (ch, buf, sz, flags) \<Rightarrow>
     let n = min sz (of_nat AVE_SESS_REPLY_MAX);
         rx1 = rx\<lparr>rx_flags := flags, rx_overflow := (sz > of_nat AVE_SESS_REPLY_MAX),
                  rx_done := rx_done rx + 1\<rparr>
     in case buf of
          Some (_, bs) \<Rightarrow> rx1\<lparr>rx_size := n, rx_buf := copy_in (take (unat n) bs) (rx_buf rx)\<rparr>
        | None \<Rightarrow> rx1\<lparr>rx_size := 0\<rparr>)"

definition ave_session_ipc_rx :: "rx_call \<Rightarrow> ave_sess_rx \<Rightarrow> ave_sess_rx" where
  "ave_session_ipc_rx call rx = (case call of (ch, buf, sz, flags) \<Rightarrow>
     if ch = AVE_CH_IO then rx\<lparr>rx_ack_size := sz, rx_ack_seen := True\<rparr>
     else if ch \<noteq> AVE_CH_IO_T2H then rx
     else if rx_skips call rx
     then rx\<lparr>rx_other_id := (case buf of Some (_, bs) \<Rightarrow> ucast (get_le16 bs 0) | None \<Rightarrow> 0),
             rx_other_count := rx_other_count rx + 1\<rparr>
     else if rx_batch rx then rx_queue call rx
     else rx_capture call rx)"

section \<open>One command\<close>

type_synonym ipc_gp = "(nat \<times> nat) list \<Rightarrow> nat \<Rightarrow> nat option"

definition rx_reinit :: "u16 \<Rightarrow> ave_sess_rx \<Rightarrow> ave_sess_rx" where
  "rx_reinit want rx =
     rx\<lparr>rx_done := 0, rx_size := 0, rx_flags := 0, rx_overflow := False, rx_ack_seen := False,
        rx_ack_size := 0, rx_other_id := 0, rx_other_count := 0, rx_want_id := want\<rparr>"

text \<open>What the environment does to the device and, through the hook, to the capture record.\<close>

definition rx_run :: "ipc_gp \<Rightarrow> env_act list \<Rightarrow> ave_device \<times> ave_sess_rx \<Rightarrow> ave_device \<times> ave_sess_rx" where
  "rx_run gp acts st =
     (let d = env_run gp acts (fst st)
      in (d, fold ave_session_ipc_rx (drop (length (rx_calls (fst st))) (rx_calls d)) (snd st)))"

text \<open>\<open>0\<close> is \<open>Ok ()\<close>.\<close>

definition ave_session_cmd ::
  "ipc_gp \<Rightarrow> ave_cmd_abi \<Rightarrow> ave_op \<Rightarrow> env_act list \<Rightarrow> u64 \<Rightarrow> u64 \<Rightarrow> u64 \<Rightarrow> ave_device \<times> ave_sess_rx \<Rightarrow>
     unit cres \<times> ave_device \<times> ave_sess_rx" where
  "ave_session_cmd gp abi op acts cmd_iova cmd_len client_id st =
     (let rx = rx_reinit (cd_reply_id (ab_cmd abi op)) (snd st)
      in case ave_ipc_send AVE_CH_IO cmd_iova cmd_len 0 (fst st) of
           (Some e, d) \<Rightarrow> (Err e, d, rx)
         | (None, d) \<Rightarrow>
             let (d, rx) = rx_run gp acts (d, rx)
             in if rx_done rx = 0 then (Err ETIMEDOUT, d, rx)
                else
                  let rx = rx\<lparr>rx_done := rx_done rx - 1\<rparr>
                  in (case ave_cmd_check_reply abi op (take (unat (rx_size rx)) (rx_buf rx)) client_id of
                        Ok (None, _) \<Rightarrow> Ok ()
                      | Ok (Some e, _) \<Rightarrow> Err e
                      | Err e \<Rightarrow> Err e
                      | Fault \<Rightarrow> Fault, d, rx))"

end
