(* ===== verification/Ave_Sess_Cmd.thy ===== *)
theory Ave_Sess_Cmd
  imports Ave_Sess_Rx Ave_Cmd_Read Ave_Ipc_Inv "HOL-Library.Sublist"
begin

text \<open>
  What the command exchange of \<open>Ave_Sess_Rx\<close> guarantees, whatever the firmware does while a
  command waits: the device invariant survives, and the verdict is that of the last message the
  hook takes for the answer.
\<close>

section \<open>The device while a command waits\<close>

lemma env_step_alive: "alive gp d \<Longrightarrow> alive gp (env_step gp a d)"
proof (cases a)
  case IrqRun
  then show "alive gp d \<Longrightarrow> alive gp (env_step gp a d)" by (simp add: env_step_def irq_alive)
qed (auto simp: alive_def env_step_def ave_set_scratch_def dev_ok_iff dev_ok_with_def chans_ok_def shm_ok_def obs_ok_def)

lemma env_run_alive: "alive gp d \<Longrightarrow> alive gp (env_run gp acts d)"
  unfolding env_run_def by (induction acts arbitrary: d) (simp_all add: env_step_alive)

text \<open>Every service only appends to the calls of the hook.\<close>

definition calls_grow :: "ave_device \<Rightarrow> ave_device \<Rightarrow> bool" where
  "calls_grow d d' \<longleftrightarrow> prefix (rx_calls d) (rx_calls d')"

lemma calls_grow_refl [simp]: "calls_grow d d"
  by (simp add: calls_grow_def)

lemma calls_grow_trans: "calls_grow a b \<Longrightarrow> calls_grow b c \<Longrightarrow> calls_grow a c"
  unfolding calls_grow_def by (rule prefix_order.trans)

lemma calls_same: "rx_calls d' = rx_calls d \<Longrightarrow> calls_grow d d'"
  by (simp add: calls_grow_def)

lemma alloc_calls: "rx_calls (snd (ave_ipc_alloc gp sz d)) = rx_calls d"
  by (auto simp: ave_ipc_alloc_def split: option.splits)

lemma free_calls: "rx_calls (ave_ipc_free p sz d) = rx_calls d"
  by (auto simp: ave_ipc_free_def split: option.splits)

lemma send_calls: "rx_calls (snd (ave_chan_send_fw i fw a1 a2 d)) = rx_calls d"
  by (auto simp: ave_chan_send_fw_def ave_ipc_ring_doorbell_def write_doorbell_def split: option.splits)

lemma recv_calls: "ave_chan_recv_fw i d = (x, d') \<Longrightarrow> rx_calls d' = rx_calls d"
  by (auto simp: ave_chan_recv_fw_def Let_def split: option.splits if_splits)

lemma shmalloc_calls: "rx_calls (ave_ipc_shmalloc gp fw sz d) = rx_calls d"
proof -
  have "rx_calls (shm_free fw d) = rx_calls d"
    by (auto simp: shm_free_def send_calls free_calls Let_def split: option.splits)
  moreover have "rx_calls (shm_alloc gp sz d) = rx_calls d"
    using alloc_calls [of gp "unat sz" d]
    by (auto simp: shm_alloc_def send_calls free_calls Let_def split: option.splits prod.splits)
  ultimately show ?thesis by (simp add: ave_ipc_shmalloc_def)
qed

lemma terminal_calls: "rx_calls (ave_ipc_terminal_line fw len level d) = rx_calls d"
  by (simp add: ave_ipc_terminal_line_def Let_def split: option.split)

lemma drain_msg_calls: "calls_grow d (snd (drain_msg gp i x d))"
proof (cases x)
  case (fields fw sz flags)
  define d1 where "d1 = (if i = AVE_CH_IO_T2H then snd (ave_chan_send_fw i fw sz 0 d) else d)"
  have d1: "rx_calls d1 = rx_calls d" by (simp add: d1_def send_calls)
  consider "i = AVE_CH_IO \<or> i = AVE_CH_IO_T2H" | "\<not> (i = AVE_CH_IO \<or> i = AVE_CH_IO_T2H)" by blast
  then show ?thesis
  proof cases
    case 1
    then show ?thesis
      unfolding drain_msg_def fields prod.case if_P [OF 1] d1_def [symmetric] Let_def
      by (simp add: calls_grow_def d1)
  next
    case 2
    then show ?thesis
      unfolding drain_msg_def fields prod.case if_not_P [OF 2]
      by (simp add: calls_same shmalloc_calls terminal_calls)
  qed
qed

lemma drain_loop_calls: "calls_grow d (drain_loop gp fuel i d)"
proof (induction fuel arbitrary: d)
  case (Suc fuel)
  show ?case
  proof (cases "ave_chan_recv_fw i d")
    case (Pair r d1)
    then have 1: "calls_grow d d1" by (simp add: calls_same recv_calls)
    show ?thesis
    proof (cases r)
      case (Inr x)
      obtain b d2 where m: "drain_msg gp i x d1 = (b, d2)" by fastforce
      then have "calls_grow d d2"
        using calls_grow_trans [OF 1] drain_msg_calls [of d1 gp i x] by simp
      then show ?thesis
        using Pair Inr m calls_grow_trans [OF _ Suc.IH [of d2]] by (cases b) auto
    qed (use Pair 1 in simp)
  qed
qed (simp add: calls_grow_def)

lemma dispatch_calls: "calls_grow d (ave_ipc_irq_dispatch gp status d)"
proof -
  have "calls_grow d (fold (dispatch_one gp status) is d)" for "is"
    by (induction "is" arbitrary: d)
      (auto simp: dispatch_one_def ave_ipc_drain_def split: option.split intro: calls_grow_trans drain_loop_calls)
  then show ?thesis by (simp add: ave_ipc_irq_dispatch_def)
qed

lemma env_step_calls: "calls_grow d (env_step gp a d)"
proof (cases a)
  case IrqRun
  have "rx_calls (irq_capture st d) = rx_calls d" for st
    by (simp add: irq_capture_def write_status_def Let_def)
  then have "calls_grow d (ave_ipc_irq_dispatch gp st' (irq_capture st d))" "calls_grow d (irq_capture st d)" for st st'
    using dispatch_calls [of "irq_capture st d" gp st'] by (auto simp: calls_grow_def)
  then show ?thesis by (simp add: IrqRun env_step_def ave_irq_handler_def Let_def)
qed (auto simp: env_step_def ave_set_scratch_def calls_grow_def)

lemma env_run_calls: "calls_grow d (env_run gp acts d)"
  unfolding env_run_def by (induction acts arbitrary: d) (auto intro: calls_grow_trans env_step_calls)

section \<open>The capture record\<close>

text \<open>The calls that answer a command waiting for \<open>want\<close>, and the bytes such a call hands over.\<close>

definition rx_answers :: "u16 \<Rightarrow> rx_call \<Rightarrow> bool" where
  "rx_answers want call \<longleftrightarrow> fst call = AVE_CH_IO_T2H
     \<and> (case call of (ch, buf, sz, flags) \<Rightarrow> want = 0 \<or> sz < 2
         \<or> (case buf of None \<Rightarrow> True | Some (_, bs) \<Rightarrow> get_le16 bs 0 = want))"

definition rx_payload :: "rx_call \<Rightarrow> u8 list" where
  "rx_payload call = (case call of (ch, buf, sz, flags) \<Rightarrow>
     (case buf of None \<Rightarrow> [] | Some (_, bs) \<Rightarrow> take AVE_SESS_REPLY_MAX bs))"

definition rx_wf :: "ave_sess_rx \<Rightarrow> bool" where
  "rx_wf rx \<longleftrightarrow> length (rx_buf rx) = AVE_SESS_REPLY_MAX \<and> length (rx_qbuf rx) = AVE_SESS_RX_Q
     \<and> length (rx_qsize rx) = AVE_SESS_RX_Q \<and> (\<forall>b \<in> set (rx_qbuf rx). length b = AVE_SESS_REPLY_MAX)
     \<and> unat (rx_size rx) \<le> AVE_SESS_REPLY_MAX \<and> (\<forall>n \<in> set (rx_qsize rx). unat n \<le> AVE_SESS_REPLY_MAX)"

lemma fresh_rx_wf [simp]: "rx_wf fresh_rx"
  by (simp add: rx_wf_def fresh_rx_def)

lemma length_copy_in [simp]: "length bs \<le> length buf \<Longrightarrow> length (copy_in bs buf) = length buf"
  by (simp add: copy_in_def)

lemma min_reply: "unat (min sz (of_nat AVE_SESS_REPLY_MAX :: u32)) = min (unat sz) AVE_SESS_REPLY_MAX"
  by (auto simp: min_def word_le_nat_alt AVE_SESS_REPLY_MAX_def)

lemma take_copy_in: "n \<le> length bs \<Longrightarrow> take n (copy_in (take n bs) buf) = take n bs"
  by (simp add: copy_in_def)

lemma ipc_rx_cases:
  "ave_session_ipc_rx call rx =
     (if rx_answers (rx_want_id rx) call then (if rx_batch rx then rx_queue call rx else rx_capture call rx)
      else rx\<lparr>rx_ack_size := rx_ack_size (ave_session_ipc_rx call rx), rx_ack_seen := rx_ack_seen (ave_session_ipc_rx call rx),
              rx_other_id := rx_other_id (ave_session_ipc_rx call rx),
              rx_other_count := rx_other_count (ave_session_ipc_rx call rx)\<rparr>)"
  by (cases call) (auto simp: ave_session_ipc_rx_def rx_answers_def rx_skips_def AVE_CH_IO_def AVE_CH_IO_T2H_def
      not_less split: option.splits)

lemma capture_fields [simp]:
  "rx_want_id (rx_capture call rx) = rx_want_id rx" "rx_batch (rx_capture call rx) = rx_batch rx"
  "rx_done (rx_capture call rx) = Suc (rx_done rx)"
  by (simp_all add: rx_capture_def Let_def split: prod.split option.split)

lemma capture_payload:
  assumes "rx_ok n call"
  shows "take (unat (rx_size (rx_capture call rx))) (rx_buf (rx_capture call rx)) = rx_payload call"
proof (cases call)
  case (fields ch buf sz flags)
  show ?thesis
  proof (cases buf)
    case (Some pb)
    obtain p bs where pb: "pb = (p, bs)" by (cases pb)
    have l: "length bs = unat sz" using assms by (simp add: fields Some pb rx_ok_def)
    define n where "n = min (unat sz) AVE_SESS_REPLY_MAX"
    have "take n bs = take AVE_SESS_REPLY_MAX bs"
      using l unfolding n_def by (metis min.commute take_all_iff take_take order_refl)
    moreover have "take n (copy_in (take n bs) (rx_buf rx)) = take n bs"
      using l by (intro take_copy_in) (simp add: n_def)
    ultimately show ?thesis
      by (simp add: fields Some pb rx_capture_def rx_payload_def Let_def min_reply flip: n_def)
  qed (simp add: fields rx_capture_def rx_payload_def Let_def)
qed

lemma capture_wf: "rx_wf rx \<Longrightarrow> rx_ok n call \<Longrightarrow> rx_wf (rx_capture call rx)"
  by (cases call) (auto simp: rx_wf_def rx_capture_def rx_ok_def Let_def min_reply split: option.splits)

text \<open>A run of calls in the mode for one command.\<close>

lemma captured:
  assumes "\<not> rx_batch rx" "list_all (rx_ok n) calls" "rx_wf rx"
  defines "rx' \<equiv> fold ave_session_ipc_rx calls rx" and "ws \<equiv> filter (rx_answers (rx_want_id rx)) calls"
  shows "\<not> rx_batch rx' \<and> rx_want_id rx' = rx_want_id rx \<and> rx_wf rx' \<and> rx_done rx' = rx_done rx + length ws
    \<and> (ws \<noteq> [] \<longrightarrow> take (unat (rx_size rx')) (rx_buf rx') = rx_payload (last ws))"
  using assms(1-3) unfolding rx'_def ws_def
proof (induction calls arbitrary: rx rule: rev_induct)
  case (snoc call calls)
  define r where "r = fold ave_session_ipc_rx calls rx"
  have IH: "\<not> rx_batch r" "rx_want_id r = rx_want_id rx" "rx_wf r"
      "rx_done r = rx_done rx + length (filter (rx_answers (rx_want_id rx)) calls)"
      "filter (rx_answers (rx_want_id rx)) calls \<noteq> [] \<longrightarrow>
        take (unat (rx_size r)) (rx_buf r) = rx_payload (last (filter (rx_answers (rx_want_id rx)) calls))"
    using snoc.IH [of rx] snoc.prems by (simp_all add: r_def)
  have ok: "rx_ok n call" using snoc.prems by simp
  define r' where "r' = ave_session_ipc_rx call r"
  have fold: "fold ave_session_ipc_rx (calls @ [call]) rx = r'" by (simp add: r_def r'_def)
  show ?case
  proof (cases "rx_answers (rx_want_id rx) call")
    case True
    then have "r' = rx_capture call r" using ipc_rx_cases [of call r] IH by (simp add: r'_def)
    then show ?thesis
      unfolding fold using IH True capture_payload [OF ok, of r] capture_wf [OF IH(3) ok] by simp
  next
    case False
    then obtain a b c e where "r' = r\<lparr>rx_ack_size := a, rx_ack_seen := b, rx_other_id := c, rx_other_count := e\<rparr>"
      using ipc_rx_cases [of call r] IH unfolding r'_def by metis
    then show ?thesis unfolding fold using IH False by (simp add: rx_wf_def)
  qed
qed simp

section \<open>The verdict\<close>

text \<open>The message is the answer to the command: long enough, the reply id of the command, the client;
  \<open>reply_status\<close> is its status word.\<close>

definition reply_ours :: "ave_cmd_abi \<Rightarrow> ave_op \<Rightarrow> u64 \<Rightarrow> u8 list \<Rightarrow> bool" where
  "reply_ours abi op cid msg \<longleftrightarrow>
     (let d = ab_cmd abi op
      in cd_id d \<noteq> 0 \<and> cd_reply_id d \<noteq> 0 \<and> unat (cd_reply_size d) \<le> length msg
         \<and> rd_le16 msg 0 = Ok (cd_reply_id d)
         \<and> (if abi = ave_cmd_abi_13_5 then get_le32 msg 0x10 = ucast cid else get_le64 msg 0x10 = cid))"

definition reply_status :: "ave_cmd_abi \<Rightarrow> u8 list \<Rightarrow> u32" where
  "reply_status abi msg = get_le32 msg (unat (rl_status (ab_reply abi)))"

lemma check_reply_ours:
  assumes "known_abi abi"
  obtains e st where "ave_cmd_check_reply abi op msg cid = Ok (e, st)"
    and "e = None \<longleftrightarrow> reply_ours abi op cid msg \<and> reply_status abi msg = rl_status_ok (ab_reply abi)"
    and "e = Some EIO \<longleftrightarrow> reply_ours abi op cid msg \<and> reply_status abi msg \<noteq> rl_status_ok (ab_reply abi)"
    and "e \<in> {None, Some EINVAL, Some EPROTO, Some EIO}"
proof -
  let ?A = "reply_ours abi op cid msg" and ?B = "reply_status abi msg = rl_status_ok (ab_reply abi)"
  have "\<exists>v. ave_cmd_check_reply abi op msg cid = Ok v \<and> (fst v = None \<longleftrightarrow> ?A \<and> ?B) \<and> (fst v = Some EIO \<longleftrightarrow> ?A \<and> \<not> ?B)"
    using check_reply_exact [OF assms, of op msg cid]
    apply (elim exE conjE)
    subgoal for v
      by (rule exI [of _ v]) (simp only: Let_def reply_ours_def reply_status_def simp_thms)
    done
  then obtain v where v: "ave_cmd_check_reply abi op msg cid = Ok v"
    and f: "fst v = None \<longleftrightarrow> ?A \<and> ?B" "fst v = Some EIO \<longleftrightarrow> ?A \<and> \<not> ?B" by (elim exE conjE)
  have "fst v \<in> {None, Some EINVAL, Some EPROTO, Some EIO}"
    using v by (auto simp: ave_cmd_check_reply_def Let_def cbind_Ok split: if_splits)
  then show ?thesis using that [of "fst v" "snd v"] v f by simp
qed

lemma sent_alive:
  assumes "alive gp d" "ave_ipc_send i payload a1 a2 d = (None, d')"
  shows "alive gp d' \<and> rx_calls d' = rx_calls d"
proof -
  obtain live where ok: "dev_ok_with d live" using assms(1) by (auto simp: alive_def dev_ok_iff)
  obtain fw where fw: "fw AND 3 = 0" "ave_chan_send_fw i fw (ucast a1) (ucast a2) d = (None, d')"
    using ipc_send_None assms(2) by blast
  have k: "dev_ok_with d' live \<and> chan_frame d d'"
    using send_fw_keeps [OF ok three_one [OF fw(1)], of i "ucast a1" "ucast a2"] fw(2) by simp
  have "dev_ok d'" using k by (auto simp: dev_ok_iff)
  then show ?thesis
    using assms(1) chan_frame_serve [OF conjunct2 [OF k]] chan_frame_fields(2) [OF conjunct2 [OF k]]
    by (simp add: alive_def serve_frame_def)
qed

lemma run_alive:
  assumes "alive gp d" "rx_wf rx" "\<not> rx_batch rx" "rx_run gp acts (d, rx) = (d', rx')"
  obtains new where "rx_calls d' = rx_calls d @ new" "alive gp d'" "rx' = fold ave_session_ipc_rx new rx"
    "list_all (rx_ok (ipc_size d')) new"
proof -
  have d': "d' = env_run gp acts d" using assms(4) by (simp add: rx_run_def Let_def)
  obtain new where new: "rx_calls d' = rx_calls d @ new"
    using env_run_calls [of d gp acts] by (auto simp: d' calls_grow_def prefix_def)
  have "alive gp d'" using env_run_alive [OF assms(1)] by (simp add: d')
  moreover from this have "list_all (rx_ok (ipc_size d')) new"
    by (simp add: alive_def obs_ok_def new)
  ultimately show ?thesis using that new assms(4) by (simp add: rx_run_def Let_def d')
qed

text \<open>A command leaves the device and the capture as they should be, whatever becomes of it.\<close>

lemma session_cmd_alive:
  assumes "known_abi abi" "alive gp d" "rx_wf rx" "\<not> rx_batch rx"
    and c: "ave_session_cmd gp abi op acts iova len cid (d, rx) = (r, d', rx')"
  shows "alive gp d' \<and> rx_wf rx' \<and> \<not> rx_batch rx' \<and> r \<noteq> Fault"
proof -
  define rx0 where "rx0 = rx_reinit (cd_reply_id (ab_cmd abi op)) rx"
  have rx0: "rx_wf rx0" "\<not> rx_batch rx0"
    using assms(3,4) by (simp_all add: rx0_def rx_reinit_def rx_wf_def AVE_SESS_REPLY_MAX_def)
  obtain e d1 where s: "ave_ipc_send AVE_CH_IO iova len 0 d = (e, d1)" by fastforce
  show ?thesis
  proof (cases e)
    case (Some x)
    then have "r = Err x" "d' = d" "rx' = rx0"
      using c s ipc_send_refused by (auto simp: ave_session_cmd_def Let_def rx0_def)
    then show ?thesis using assms(2) rx0 by simp
  next
    case None
    obtain d2 rx2 where run: "rx_run gp acts (d1, rx0) = (d2, rx2)" by fastforce
    obtain new where new: "alive gp d2" "rx2 = fold ave_session_ipc_rx new rx0" "list_all (rx_ok (ipc_size d2)) new"
      using run_alive [OF conjunct1 [OF sent_alive [OF assms(2) s [unfolded None]]] rx0 run] by blast
    have cap: "\<not> rx_batch rx2" "rx_wf rx2"
      using captured [OF rx0(2) new(3) rx0(1)] rx0 by (simp_all add: new(2))
    obtain v st where "ave_cmd_check_reply abi op (take (unat (rx_size rx2)) (rx_buf rx2)) cid = Ok (v, st)"
      using check_reply_ours [OF assms(1)] by blast
    then have "d' = d2" "rx' = (if rx_done rx2 = 0 then rx2 else rx2\<lparr>rx_done := rx_done rx2 - 1\<rparr>)"
      "r = (if rx_done rx2 = 0 then Err ETIMEDOUT else case v of None \<Rightarrow> Ok () | Some e \<Rightarrow> Err e)"
      using c s None run
      by (cases "rx_done rx2 = 0"; cases v; simp add: ave_session_cmd_def Let_def rx0_def [symmetric])+
    then show ?thesis using new(1) cap by (cases v) (simp_all add: rx_wf_def)
  qed
qed

text \<open>C5. One command, whatever the firmware does meanwhile. A send that is refused is the verdict, and
  nothing was sent. Otherwise the verdict is that of the last message on IO_T2H that carries the
  reply id (or none that could be read): a timeout exactly when there was no such message - the
  echo of the command on IO and completions of other commands never count -, 0 exactly when it is
  the answer of this command to this client with the success status, EIO exactly when all but the
  status is right. The check reads only what the message had, the device invariant and the capture
  record survive, and the call returns.\<close>

theorem session_cmd_verdict:
  fixes abi op acts
  assumes "known_abi abi" "alive gp d" "rx_wf rx" "\<not> rx_batch rx"
    and "ave_session_cmd gp abi op acts iova len cid (d, rx) = (r, d', rx')"
  shows "alive gp d' \<and> rx_wf rx' \<and> \<not> rx_batch rx' \<and> r \<noteq> Fault
    \<and> (case ave_ipc_send AVE_CH_IO iova len 0 d of
         (Some e, d1) \<Rightarrow> r = Err e \<and> d' = d
       | (None, d1) \<Rightarrow>
           \<exists>new. rx_calls d' = rx_calls d @ new
             \<and> (let ws = filter (rx_answers (cd_reply_id (ab_cmd abi op))) new; msg = rx_payload (last ws)
                in (r = Err ETIMEDOUT \<longleftrightarrow> ws = [])
                 \<and> (r = Ok () \<longleftrightarrow> ws \<noteq> [] \<and> reply_ours abi op cid msg
                       \<and> reply_status abi msg = rl_status_ok (ab_reply abi))
                 \<and> (r = Err EIO \<longleftrightarrow> ws \<noteq> [] \<and> reply_ours abi op cid msg
                       \<and> reply_status abi msg \<noteq> rl_status_ok (ab_reply abi))))"
proof -
  define rx0 where "rx0 = rx_reinit (cd_reply_id (ab_cmd abi op)) rx"
  have rx0: "rx_wf rx0" "\<not> rx_batch rx0" "rx_done rx0 = 0" "rx_want_id rx0 = cd_reply_id (ab_cmd abi op)"
    using assms(3,4) by (simp_all add: rx0_def rx_reinit_def rx_wf_def AVE_SESS_REPLY_MAX_def)
  obtain e d1 where s: "ave_ipc_send AVE_CH_IO iova len 0 d = (e, d1)" by fastforce
  show ?thesis
  proof (cases e)
    case (Some x)
    then have "r = Err x" "d' = d" "rx' = rx0"
      using assms(5) s ipc_send_refused by (auto simp: ave_session_cmd_def Let_def rx0_def)
    then show ?thesis using s Some assms(2) rx0 by simp
  next
    case None
    note sent = sent_alive [OF assms(2) s [unfolded None]]
    obtain d2 rx2 where run: "rx_run gp acts (d1, rx0) = (d2, rx2)" by fastforce
    obtain new where new: "rx_calls d2 = rx_calls d1 @ new" "alive gp d2" "rx2 = fold ave_session_ipc_rx new rx0"
      "list_all (rx_ok (ipc_size d2)) new"
      using run_alive [OF conjunct1 [OF sent] rx0(1,2) run] by blast
    define ws where "ws = filter (rx_answers (cd_reply_id (ab_cmd abi op))) new"
    have cap: "\<not> rx_batch rx2" "rx_wf rx2" "rx_done rx2 = length ws"
      "ws \<noteq> [] \<Longrightarrow> take (unat (rx_size rx2)) (rx_buf rx2) = rx_payload (last ws)"
      using captured [OF rx0(2) new(4) rx0(1)] rx0 by (simp_all add: new(3) ws_def)
    obtain v st where v: "ave_cmd_check_reply abi op (rx_payload (last ws)) cid = Ok (v, st)"
      "v = None \<longleftrightarrow> reply_ours abi op cid (rx_payload (last ws)) \<and> reply_status abi (rx_payload (last ws)) = rl_status_ok (ab_reply abi)"
      "v = Some EIO \<longleftrightarrow> reply_ours abi op cid (rx_payload (last ws)) \<and> reply_status abi (rx_payload (last ws)) \<noteq> rl_status_ok (ab_reply abi)"
      "v \<in> {None, Some EINVAL, Some EPROTO, Some EIO}"
      using check_reply_ours [OF assms(1)] by blast
    have r: "d' = d2" "rx' = (if ws = [] then rx2 else rx2\<lparr>rx_done := rx_done rx2 - 1\<rparr>)"
      "r = (if ws = [] then Err ETIMEDOUT else case v of None \<Rightarrow> Ok () | Some e \<Rightarrow> Err e)"
      using assms(5) s None run cap v(1)
      by (cases "ws = []"; cases v; simp add: ave_session_cmd_def Let_def rx0_def [symmetric])+
    have calls: "rx_calls d' = rx_calls d @ new" using r(1) new(1) sent by simp
    have "rx_wf rx'" "\<not> rx_batch rx'" using r(2) cap by (simp_all add: rx_wf_def)
    moreover have "(r = Err ETIMEDOUT \<longleftrightarrow> ws = []) \<and> (r = Ok () \<longleftrightarrow> ws \<noteq> [] \<and> v = None)
        \<and> (r = Err EIO \<longleftrightarrow> ws \<noteq> [] \<and> v = Some EIO) \<and> r \<noteq> Fault"
      using r(3) v(4) by (auto split: option.split)
    ultimately show ?thesis
      using s None new(2) r(1) calls v(2,3) unfolding ws_def by (simp add: Let_def)
  qed
qed

text \<open>The example device with a slot free to send on IO.\<close>

definition example_io :: ave_device where
  "example_io = example_device
     \<lparr>chan := (replicate AVE_CH_MAX (example_channel\<lparr>ch_bound := False\<rparr>))
                [1 := example_channel\<lparr>ch_rd := -1, ch_wr := 0\<rparr>]\<rparr>"

lemma example_io_alive: "alive (bump_pool 256) example_io"
proof -
  let ?cs = "(replicate AVE_CH_MAX (example_channel\<lparr>ch_bound := False\<rparr>))
                [1 := example_channel\<lparr>ch_rd := -1, ch_wr := 0\<rparr>]"
  have blk: "chanmem_block example_device = (0, 128)" "ipc_size example_device = 256"
    by (simp_all add: chanmem_block_def example_device_def)
  have cs: "chan_ok (ipc_size example_device) (chanmem_block example_device) ch"
    if "ch \<in> set ?cs" "ch_bound ch" for ch
  proof -
    have "ch = example_channel\<lparr>ch_rd := -1, ch_wr := 0\<rparr>"
      using that by (auto simp: AVE_CH_MAX_def numeral_eq_Suc)
    then show ?thesis unfolding blk
      by (simp add: chan_ok_def example_channel_def ring_ok_def ave_ch_to_ring_def AVE_BOOT_SLOT_SIZE_def)
  qed
  have "dev_ok_with (example_device\<lparr>chan := ?cs\<rparr>) [(0, 128)]"
    by (rule chans_replace [OF example_ok _ _ cs]) (simp_all add: blk)
  then have "dev_ok example_io" unfolding example_io_def dev_ok_iff by blast
  then show ?thesis
    using example_alive by (simp add: alive_def example_io_def obs_ok_def)
qed

lemma example_io_sends: "\<exists>d'. ave_ipc_send AVE_CH_IO 0x8080 64 0 example_io = (None, d')"
proof -
  have ch: "ave_chan example_io AVE_CH_IO = Some (example_channel\<lparr>ch_rd := -1, ch_wr := 0\<rparr>)"
    by (simp add: ave_chan_def example_io_def example_channel_def AVE_CH_MAX_def AVE_CH_IO_def)
  have "boot_phase example_io = AVE_BOOT_READY" "ipc_iova example_io = 0x8000"
    "ipc_size example_io = 256" "ipc_fw_base example_io = 0x10000"
    by (simp_all add: example_io_def example_device_def)
  then show ?thesis
    by (simp add: ave_ipc_send_def ave_chan_send_fw_def ch Let_def ave_ring_send_def
        ave_ch_to_ring_def example_channel_def)
qed

lemma session_cmd_verdict_witness:
  "\<exists>d' rx'. ave_session_cmd (bump_pool 256) ave_cmd_abi_13_5 AVE_OP_OPEN [] 0x8080 64 7 (example_io, fresh_rx)
     = (Err ETIMEDOUT, d', rx') \<and> alive (bump_pool 256) d' \<and> rx_calls d' = rx_calls example_io"
proof -
  obtain r d' rx' where c: "ave_session_cmd (bump_pool 256) ave_cmd_abi_13_5 AVE_OP_OPEN [] 0x8080 64 7 (example_io, fresh_rx) = (r, d', rx')"
    by (cases "ave_session_cmd (bump_pool 256) ave_cmd_abi_13_5 AVE_OP_OPEN [] 0x8080 64 7 (example_io, fresh_rx)")
  obtain d1 where s: "ave_ipc_send AVE_CH_IO 0x8080 64 0 example_io = (None, d1)" using example_io_sends by blast
  have b: "\<not> rx_batch fresh_rx" by (simp add: fresh_rx_def)
  have k: "known_abi ave_cmd_abi_13_5" by (simp add: known_abi_def)
  obtain new where new: "rx_calls d' = rx_calls example_io @ new" "alive (bump_pool 256) d'"
    "r = Err ETIMEDOUT \<longleftrightarrow> filter (rx_answers (cd_reply_id (ab_cmd ave_cmd_abi_13_5 AVE_OP_OPEN))) new = []"
    using session_cmd_verdict [OF k example_io_alive fresh_rx_wf b c] s by (auto simp: Let_def)
  have "d' = d1"
    using c s by (auto simp: ave_session_cmd_def rx_run_def env_run_def Let_def split: if_splits)
  then have "new = []" using new(1) sent_alive [OF example_io_alive s] by simp
  then show ?thesis using c new by auto
qed

end
