(* ===== verification/Ave_Sess_State.thy ===== *)
theory Ave_Sess_State
  imports Ave_Sess_Rx Ave_Sess_Bufs Ave_Cmd_Frame Ave_Cmd_Hevc
begin

text \<open>
  The state of an encode session: \<open>struct ave_sess_bufs\<close> of \<^verbatim>\<open>src/driver/ave_session.c\<close>.

  \<^item> A surface the CPU reads carries its content (\<open>None\<close> is a NULL CPU address); of one that
    only the hardware reads there is the address. \<open>coded[]\<close> and \<open>coded_hdr[]\<close> are of one C
    type; the fields of \<open>coded_hdr[]\<close> no code uses are left out.
  \<^item> An array with its counter (\<open>slice[]\<close> with \<open>n_slice\<close>, \<open>bdone[]\<close> with \<open>n_bdone\<close>) is one list.
  \<^item> Timing, the debugfs view and \<open>quiet\<close>, which only the log reads, are left out.
  \<^item> The firmware writes the surfaces while a command runs: \<open>surf_act\<close>.
\<close>

section \<open>Surfaces\<close>

record surface =
  sf_cpu :: "u8 list option"
  sf_iova :: u64
  sf_size :: u32

definition no_surface :: surface where
  "no_surface = \<lparr>sf_cpu = None, sf_iova = 0, sf_size = 0\<rparr>"

record coded_out = surface +
  co_len :: u32
  co_span :: u32
  co_cabac_zero_words :: u32
  co_slice :: "ave_coded_slice list"

record src_planes =
  sr_luma :: bool       \<comment> \<open>the CPU address is not NULL\<close>
  sr_luma_iova :: u64
  sr_luma_bytes :: u32
  sr_chroma :: bool
  sr_chroma_iova :: u64
  sr_chroma_bytes :: u32

definition no_src :: src_planes where
  "no_src = \<lparr>sr_luma = False, sr_luma_iova = 0, sr_luma_bytes = 0, sr_chroma = False, sr_chroma_iova = 0, sr_chroma_bytes = 0\<rparr>"

record batch_done =
  bd_j :: nat
  bd_off :: u32
  bd_len :: u32
  bd_type :: u32

section \<open>A session\<close>

text \<open>What the stream asks for: the fields \<open>ave_enc_start\<close> fills from \<open>struct ave_enc_cfg\<close>.\<close>

record sess_cfg =
  sc_codec :: u32
  sc_width :: u32
  sc_height :: u32
  sc_crop_w :: u32
  sc_crop_h :: u32
  sc_qp :: u32
  sc_qp_p :: u32
  sc_qp_b :: u32
  sc_profile :: u32
  sc_level_floor :: u32
  sc_cabac :: bool
  sc_bitrate :: u32
  sc_fps_num :: u32
  sc_fps_den :: u32
  sc_qp_min :: u32
  sc_qp_max :: u32
  sc_req_slots :: u32
  sc_bframes :: u32
  sc_p_refs :: u32
  sc_req_dpb :: u32
  sc_multi_me :: u16
  sc_bit_depth :: u8
  sc_src_bitdepth :: u8
  sc_open_ended :: bool
  sc_encode :: bool

text \<open>What Start latches for the frames, and what a frame leaves for the next.\<close>

record sess_latched =
  sl_macos :: u32
  sl_hevc_refs :: u32
  sl_hevc_single_xc :: bool
  sl_hevc_poc_mask :: u32
  sl_hevc_sao :: bool
  sl_hevc_bframes :: u8
  sl_last_idr :: u32
  sl_n_frames :: u32
  sl_mp_pass :: u32
  sl_mp_frames :: u32
  sl_mp_rec :: bool

record ave_sess_bufs =
  sb_pool :: sess_pool
  sb_cfg :: sess_cfg
  sb_lat :: sess_latched
  sb_coded :: "coded_out list"
  sb_coded_hdr :: "surface list"
  sb_slice_hdr :: "surface list"
  sb_n_coded :: u32
  sb_n_done :: u32
  sb_transcoded :: "u64 list"
  sb_n_transcoded :: u32
  sb_transcoded_size :: u32
  sb_coded_info :: ave_coded_info
  sb_coded_type :: u32
  sb_psets_cpu :: "u8 list option"
  sb_psets_size :: u32
  sb_psets_len :: u64
  sb_src :: "src_planes list"
  sb_proc_cmd :: "(nat option \<times> u64) list"
  sb_mp_in :: "(u8 list option \<times> u64) list"
  sb_pic_recon :: "ave_sess_arena option"
  sb_stride :: u32
  sb_dpb :: sess_dpb
  sb_nbr :: sess_nbr
  sb_entropy :: sess_entropy
  sb_coloc :: "u64 list"
  sb_coloc_size :: u64
  sb_ext_src :: bool
  sb_ext_luma :: u64
  sb_ext_chroma :: u64
  sb_ext_stride :: u32
  sb_force_idr :: bool
  sb_stream :: "u8 list"       \<comment> \<open>\<open>stream_cap\<close> is its length\<close>
  sb_stream_len :: nat
  sb_bdone :: "batch_done list"
  sb_mark_dma :: nat
  sb_mark_ipc :: nat

text \<open>The session as \<open>kzalloc\<close> leaves it.\<close>

definition zero_cfg :: sess_cfg where
  "zero_cfg =
     \<lparr>sc_codec = 0, sc_width = 0, sc_height = 0, sc_crop_w = 0, sc_crop_h = 0, sc_qp = 0, sc_qp_p = 0, sc_qp_b = 0,
      sc_profile = 0, sc_level_floor = 0, sc_cabac = False, sc_bitrate = 0, sc_fps_num = 0, sc_fps_den = 0,
      sc_qp_min = 0, sc_qp_max = 0, sc_req_slots = 0, sc_bframes = 0, sc_p_refs = 0, sc_req_dpb = 0,
      sc_multi_me = 0, sc_bit_depth = 0, sc_src_bitdepth = 0, sc_open_ended = False, sc_encode = False\<rparr>"

definition zero_latched :: sess_latched where
  "zero_latched =
     \<lparr>sl_macos = 0, sl_hevc_refs = 0, sl_hevc_single_xc = False, sl_hevc_poc_mask = 0, sl_hevc_sao = False,
      sl_hevc_bframes = 0, sl_last_idr = 0, sl_n_frames = 0, sl_mp_pass = 0, sl_mp_frames = 0, sl_mp_rec = False\<rparr>"

definition zero_info :: ave_coded_info where
  "zero_info =
     \<lparr>ci_bytes = 0, ci_span = 0, ci_slices = 0, ci_bytes_removed = 0, ci_frame_type = 0, ci_frame_num = 0,
      ci_sps_pps_bits = 0, ci_cabac_zero_words = 0, ci_hdr_bytes = 0, ci_slice = []\<rparr>"

definition no_coded :: coded_out where
  "no_coded = \<lparr>sf_cpu = None, sf_iova = 0, sf_size = 0, co_len = 0, co_span = 0, co_cabac_zero_words = 0, co_slice = []\<rparr>"

definition fresh_bufs :: ave_sess_bufs where
  "fresh_bufs =
     \<lparr>sb_pool = \<lparr>sp_dma = [], sp_ipc = []\<rparr>, sb_cfg = zero_cfg, sb_lat = zero_latched,
      sb_coded = replicate AVE_SESS_FRAMES_MAX no_coded,
      sb_coded_hdr = replicate AVE_SESS_FRAMES_MAX no_surface,
      sb_slice_hdr = replicate AVE_SESS_FRAMES_MAX no_surface,
      sb_n_coded = 0, sb_n_done = 0, sb_transcoded = [0, 0], sb_n_transcoded = 0, sb_transcoded_size = 0,
      sb_coded_info = zero_info, sb_coded_type = 0, sb_psets_cpu = None, sb_psets_size = 0, sb_psets_len = 0,
      sb_src = replicate AVE_SESS_FRAMES_MAX no_src, sb_proc_cmd = replicate AVE_SESS_FRAMES_MAX (None, 0),
      sb_mp_in = replicate AVE_SESS_FRAMES_MAX (None, 0), sb_pic_recon = None, sb_stride = 0,
      sb_dpb = \<lparr>sd_n_dpb = 0, sd_dpb = replicate AVE_SESS_DPB_MAX (0, 0), sd_recon_size = 0, sd_recon_msb_span = 0,
                sd_low_res_size = 0, sd_low_res_stride = 0,
                sd_low_res_result = replicate AVE_LOW_RES_RESULT_MAX 0, sd_n_low_res_result = 0,
                sd_low_res_result_size = 0\<rparr>,
      sb_nbr = \<lparr>sn_nbr = replicate AVE_SRC_NBR_GROUPS (replicate AVE_SRC_NBR_MAX 0), sn_slot = 0, sn_n_nbr = 0\<rparr>,
      sb_entropy = \<lparr>se_entropy = replicate AVE_ENTROPY_MAX (replicate AVE_ENTROPY_COLS 0), se_size = 0, se_n = 0, se_cols = 0\<rparr>,
      sb_coloc = replicate AVE_SESS_DPB_MAX 0, sb_coloc_size = 0,
      sb_ext_src = False, sb_ext_luma = 0, sb_ext_chroma = 0, sb_ext_stride = 0, sb_force_idr = False,
      sb_stream = [], sb_stream_len = 0, sb_bdone = [], sb_mark_dma = 0, sb_mark_ipc = 0\<rparr>"

definition sess_hevc :: "ave_sess_bufs \<Rightarrow> bool" where
  "sess_hevc b \<longleftrightarrow> sc_codec (sb_cfg b) = AVE_SESS_CODEC_HEVC"

section \<open>What the firmware writes\<close>

datatype surf_act =
    SurfCoded nat nat "u8 list"     \<comment> \<open>coded buffer: index, offset, bytes\<close>
  | SurfHdr nat nat "u8 list"       \<comment> \<open>coded header\<close>
  | SurfSlice nat nat "u8 list"     \<comment> \<open>slice headers\<close>
  | SurfPsets nat "u8 list"         \<comment> \<open>parameter sets\<close>

definition surf_poke :: "nat \<Rightarrow> u8 list \<Rightarrow> u8 list option \<Rightarrow> u8 list option" where
  "surf_poke off bs cpu =
     map_option (\<lambda>m. if off + length bs \<le> length m then poke m off bs else m) cpu"

definition surf_step :: "surf_act \<Rightarrow> ave_sess_bufs \<Rightarrow> ave_sess_bufs" where
  "surf_step a b =
     (case a of
        SurfCoded i off bs \<Rightarrow> b\<lparr>sb_coded := (sb_coded b)[i := (sb_coded b ! i)\<lparr>sf_cpu := surf_poke off bs (sf_cpu (sb_coded b ! i))\<rparr>]\<rparr>
      | SurfHdr i off bs \<Rightarrow> b\<lparr>sb_coded_hdr := (sb_coded_hdr b)[i := (sb_coded_hdr b ! i)\<lparr>sf_cpu := surf_poke off bs (sf_cpu (sb_coded_hdr b ! i))\<rparr>]\<rparr>
      | SurfSlice i off bs \<Rightarrow> b\<lparr>sb_slice_hdr := (sb_slice_hdr b)[i := (sb_slice_hdr b ! i)\<lparr>sf_cpu := surf_poke off bs (sf_cpu (sb_slice_hdr b ! i))\<rparr>]\<rparr>
      | SurfPsets off bs \<Rightarrow> b\<lparr>sb_psets_cpu := surf_poke off bs (sb_psets_cpu b)\<rparr>)"

definition surf_run :: "surf_act list \<Rightarrow> ave_sess_bufs \<Rightarrow> ave_sess_bufs" where
  "surf_run acts b = fold surf_step acts b"

section \<open>Well-formed sessions\<close>

text \<open>A surface is not there, or its content is as long as it says.\<close>

definition surf_ok :: "('a) surface_scheme \<Rightarrow> bool" where
  "surf_ok s \<longleftrightarrow> (case sf_cpu s of None \<Rightarrow> True | Some m \<Rightarrow> length m = unat (sf_size s))"

definition psets_ok :: "u8 list option \<Rightarrow> u32 \<Rightarrow> bool" where
  "psets_ok cpu sz \<longleftrightarrow> (case cpu of None \<Rightarrow> sz = 0 | Some m \<Rightarrow> length m = unat sz)"

definition bufs_ok :: "ave_sess_bufs \<Rightarrow> bool" where
  "bufs_ok b \<longleftrightarrow>
     length (sb_coded b) = AVE_SESS_FRAMES_MAX \<and> length (sb_coded_hdr b) = AVE_SESS_FRAMES_MAX
   \<and> length (sb_slice_hdr b) = AVE_SESS_FRAMES_MAX \<and> length (sb_src b) = AVE_SESS_FRAMES_MAX
   \<and> length (sb_proc_cmd b) = AVE_SESS_FRAMES_MAX
   \<and> (\<forall>s \<in> set (sb_coded b). surf_ok s) \<and> (\<forall>s \<in> set (sb_coded_hdr b). surf_ok s)
   \<and> (\<forall>s \<in> set (sb_slice_hdr b). surf_ok s)
   \<and> psets_ok (sb_psets_cpu b) (sb_psets_size b)
   \<and> unat (sb_n_coded b) \<le> AVE_SESS_FRAMES_MAX \<and> unat (sb_psets_len b) \<le> unat (sb_psets_size b)
   \<and> sb_stream_len b \<le> length (sb_stream b)"

lemma surf_ok_poke:
  "surf_ok s \<Longrightarrow> surf_ok (s\<lparr>sf_cpu := surf_poke off bs (sf_cpu s)\<rparr>)"
  by (auto simp: surf_ok_def surf_poke_def split: option.splits)

lemma list_update_all:
  assumes "\<forall>s \<in> set xs. P s" "i < length xs \<Longrightarrow> P y"
  shows "\<forall>s \<in> set (xs[i := y]). P s"
proof (cases "i < length xs")
  case True
  then show ?thesis using assms set_update_subset_insert [of xs i y] by auto
qed (use assms in \<open>simp add: not_less list_update_beyond\<close>)

lemma surf_poke_all:
  "\<forall>s \<in> set xs. surf_ok s \<Longrightarrow> \<forall>s \<in> set (xs[i := (xs ! i)\<lparr>sf_cpu := surf_poke off bs (sf_cpu (xs ! i))\<rparr>]). surf_ok s"
  by (rule list_update_all) (auto intro: surf_ok_poke)

lemma fresh_bufs_ok [simp]: "bufs_ok fresh_bufs"
  by (simp add: bufs_ok_def psets_ok_def fresh_bufs_def surf_ok_def no_surface_def no_coded_def)

lemma surf_step_ok:
  assumes "bufs_ok b"
  shows "bufs_ok (surf_step a b)"
proof (cases a)
  case (SurfPsets off bs)
  then show ?thesis
    using assms by (simp add: bufs_ok_def psets_ok_def surf_step_def surf_poke_def split: option.splits)
next
  case (SurfCoded i off bs)
  then show ?thesis
    using assms surf_poke_all [of "sb_coded b" i off bs] by (simp add: bufs_ok_def surf_step_def)
next
  case (SurfHdr i off bs)
  then show ?thesis
    using assms surf_poke_all [of "sb_coded_hdr b" i off bs] by (simp add: bufs_ok_def surf_step_def)
next
  case (SurfSlice i off bs)
  then show ?thesis
    using assms surf_poke_all [of "sb_slice_hdr b" i off bs] by (simp add: bufs_ok_def surf_step_def)
qed

lemma surf_run_ok: "bufs_ok b \<Longrightarrow> bufs_ok (surf_run acts b)"
  unfolding surf_run_def by (induction acts arbitrary: b) (simp_all add: surf_step_ok)

end
