(* ===== verification/Ave_Sess_Stream.thy ===== *)
theory Ave_Sess_Stream
  imports Ave_Sess_State
begin

text \<open>
  The output stream of a session, from \<^verbatim>\<open>src/driver/ave_session.c\<close>: the length of the
  parameter sets, the NAL types, and the copy of a completed frame to the end of the stream.

  \<^item> Every copy is checked: \<open>Fault\<close> is a read outside the source or a write outside the
    stream's allocation. Lengths that the C code sums in 32 bits are summed in 32 bits.
  \<^item> \<open>vmalloc\<close> is the argument \<open>vm\<close>: the block it returns, of any content (\<open>vmalloc_ok\<close>: of
    the length asked for).
\<close>

section \<open>Parameter sets and NAL types\<close>

text \<open>The \<open>while\<close> of \<open>ave_session_psets_len\<close>, from the end.\<close>

fun psets_scan :: "u8 list \<Rightarrow> nat \<Rightarrow> nat" where
  "psets_scan buf 0 = 0"
| "psets_scan buf (Suc n) = (if buf ! n = 0 then psets_scan buf n else Suc n)"

definition ave_session_psets_len :: "u8 list \<Rightarrow> nat" where
  "ave_session_psets_len buf = psets_scan buf (length buf)"

text \<open>\<open>-1\<close> is \<open>None\<close>; \<open>len\<close> is the length the caller passes, and the reads stay below it.\<close>

definition ave_session_nal_type :: "u8 list \<Rightarrow> nat \<Rightarrow> u8 option cres" where
  "ave_session_nal_type buf len =
     (if len < 5 then Ok None
      else cbind (rd_bytes buf 0 5) (\<lambda>h. Ok (if take 4 h = [0, 0, 0, 1] then Some (h ! 4 AND 0x1f) else None)))"

definition ave_session_hevc_nal_type :: "u8 list \<Rightarrow> nat \<Rightarrow> u8 option cres" where
  "ave_session_hevc_nal_type buf len =
     (if len < 6 then Ok None
      else cbind (rd_bytes buf 0 5) (\<lambda>h.
           Ok (if take 4 h = [0, 0, 0, 1] then Some (drop_bit 1 (h ! 4) AND 0x3f) else None)))"

section \<open>Checked copies\<close>

definition wr_bytes :: "u8 list \<Rightarrow> nat \<Rightarrow> u8 list \<Rightarrow> u8 list cres" where
  "wr_bytes buf off bs = (if off + length bs \<le> length buf then Ok (poke buf off bs) else Fault)"

definition cpu_bytes :: "u8 list option \<Rightarrow> nat \<Rightarrow> nat \<Rightarrow> u8 list cres" where
  "cpu_bytes cpu off n = (case cpu of None \<Rightarrow> (if n = 0 then Ok [] else Fault) | Some m \<Rightarrow> rd_bytes m off n)"

text \<open>\<open>memcpy(p, src + off, n); p += n\<close> for the pair of the stream and \<open>p\<close>.\<close>

definition append_from :: "u8 list option \<Rightarrow> nat \<Rightarrow> nat \<Rightarrow> u8 list \<times> nat \<Rightarrow> (u8 list \<times> nat) cres" where
  "append_from cpu off n st =
     cbind (cpu_bytes cpu off n) (\<lambda>bs.
     cbind (wr_bytes (fst st) (snd st) bs) (\<lambda>buf. Ok (buf, snd st + n)))"

section \<open>Appending a frame\<close>

type_synonym vmalloc_fun = "nat \<Rightarrow> u8 list option"

definition vmalloc_ok :: "vmalloc_fun \<Rightarrow> bool" where
  "vmalloc_ok vm \<longleftrightarrow> (\<forall>n b. vm n = Some b \<longrightarrow> length b = n)"

text \<open>Room for \<open>need\<close> bytes more: the stream's allocation, or a copy of it in a larger one.\<close>

definition stream_grow :: "vmalloc_fun \<Rightarrow> nat \<Rightarrow> u8 list \<Rightarrow> nat \<Rightarrow> u8 list cres" where
  "stream_grow vm need stream len =
     (if len + need > length stream
      then case vm (max (2 * length stream) (len + need + 0x10000)) of
             None \<Rightarrow> Err ENOMEM
           | Some p \<Rightarrow> cbind (rd_bytes stream 0 len) (\<lambda>bs. wr_bytes p 0 bs)
      else Ok stream)"

fun append_slices_hevc ::
  "u8 list option \<Rightarrow> u64 \<Rightarrow> u8 list option \<Rightarrow> ave_coded_slice list \<Rightarrow> u8 list \<times> nat \<Rightarrow> (u8 list \<times> nat) cres" where
  "append_slices_hevc hdr iova cpu [] st = Ok st"
| "append_slices_hevc hdr iova cpu (e # es) st =
     cbind (append_from hdr (unat (cs_hdr_iova e - iova)) (unat (cs_hdr_len e)) st) (\<lambda>st.
     cbind (append_from cpu (unat (cs_off e)) (unat (cs_len e)) st) (append_slices_hevc hdr iova cpu es))"

text \<open>The first pass over the slices: every header in the surface, and the bytes they need. The sum
  \<open>hdr_len + len\<close> is 32 bits wide.\<close>

fun need_hevc :: "'a surface_scheme \<Rightarrow> ave_coded_slice list \<Rightarrow> nat \<Rightarrow> nat cres" where
  "need_hevc s [] need = Ok need"
| "need_hevc s (e # es) need =
     (if sf_cpu s = None \<or> cs_hdr_iova e < sf_iova s
         \<or> cs_hdr_iova e - sf_iova s + ucast (cs_hdr_len e) > ucast (sf_size s)
      then Err EPROTO else need_hevc s es (need + unat (cs_hdr_len e + cs_len e)))"

definition stream_commit :: "ave_sess_bufs \<Rightarrow> u8 list \<times> nat \<Rightarrow> ave_sess_bufs" where
  "stream_commit b st = b\<lparr>sb_stream := fst st, sb_stream_len := snd st\<rparr>"

definition ave_sess_stream_append_hevc ::
  "vmalloc_fun \<Rightarrow> ave_sess_bufs \<Rightarrow> nat \<Rightarrow> bool \<Rightarrow> ave_sess_bufs cres" where
  "ave_sess_stream_append_hevc vm b idx idr =
     (let c = sb_coded b ! idx; s = sb_slice_hdr b ! idx
      in cbind (need_hevc s (co_slice c) (if idr then unat (sb_psets_len b) else 0)) (\<lambda>need.
         cbind (stream_grow vm need (sb_stream b) (sb_stream_len b)) (\<lambda>stream.
         cbind (if idr then append_from (sb_psets_cpu b) 0 (unat (sb_psets_len b)) (stream, sb_stream_len b)
                else Ok (stream, sb_stream_len b)) (\<lambda>st.
         cbind (append_slices_hevc (sf_cpu s) (sf_iova s) (sf_cpu c) (co_slice c) st) (\<lambda>st.
           Ok (stream_commit b st))))))"

fun append_slices :: "u8 list option \<Rightarrow> ave_coded_slice list \<Rightarrow> u8 list \<times> nat \<Rightarrow> (u8 list \<times> nat) cres" where
  "append_slices cpu [] st = Ok st"
| "append_slices cpu (e # es) st =
     cbind (append_from cpu (unat (cs_off e)) (unat (cs_len e)) st) (append_slices cpu es)"

definition cabac_word :: "u8 list" where "cabac_word = [0, 0, 3]"

text \<open>The loop that writes the words, three bytes each.\<close>

definition append_words :: "nat \<Rightarrow> u8 list \<times> nat \<Rightarrow> (u8 list \<times> nat) cres" where
  "append_words n = repeat_c n (\<lambda>st. cbind (wr_bytes (fst st) (snd st) cabac_word) (\<lambda>buf. Ok (buf, snd st + 3)))"

definition need_avc :: "coded_out \<Rightarrow> nat \<Rightarrow> nat" where
  "need_avc c need = need + sum_list (map (unat \<circ> cs_len) (co_slice c)) + unat (3 * co_cabac_zero_words c)"

text \<open>Whether the parameter sets go in front: on a first frame that does not start with an SPS.\<close>

definition append_psets :: "coded_out \<Rightarrow> bool \<Rightarrow> bool cres" where
  "append_psets c first =
     (if \<not> first then Ok False
      else cbind (case sf_cpu c of None \<Rightarrow> if unat (co_len c) < 5 then Ok None else Fault
                  | Some m \<Rightarrow> ave_session_nal_type m (unat (co_len c)))
             (\<lambda>t. Ok (t \<noteq> Some 7)))"

definition ave_sess_stream_append :: "vmalloc_fun \<Rightarrow> ave_sess_bufs \<Rightarrow> nat \<Rightarrow> bool \<Rightarrow> ave_sess_bufs cres" where
  "ave_sess_stream_append vm b idx first =
     cbind (append_psets (sb_coded b ! idx) first) (\<lambda>psets.
       if sess_hevc b then ave_sess_stream_append_hevc vm b idx first
       else
         let c = sb_coded b ! idx; need = need_avc c (if psets then unat (sb_psets_len b) else 0)
         in cbind (stream_grow vm need (sb_stream b) (sb_stream_len b)) (\<lambda>stream.
            cbind (if psets then append_from (sb_psets_cpu b) 0 (unat (sb_psets_len b)) (stream, sb_stream_len b)
                   else Ok (stream, sb_stream_len b)) (\<lambda>st.
            cbind (append_slices (sf_cpu c) (co_slice c) st) (\<lambda>st.
            cbind (append_words (unat (co_cabac_zero_words c)) st) (\<lambda>st.
              Ok (stream_commit b st))))))"

end
