(* ===== verification/Ave_Sess_Append.thy ===== *)
theory Ave_Sess_Append
  imports Ave_Sess_Stream Ave_Cmd_Read
begin

text \<open>
  Appending a frame to the output stream is what it should be: the bytes of \<open>frame_bytes\<close>
  behind those already there, no copy outside its source or its target.
\<close>

section \<open>The stream as a list of bytes\<close>

definition stream_is :: "u8 list \<times> nat \<Rightarrow> u8 list \<Rightarrow> bool" where
  "stream_is st out \<longleftrightarrow> snd st \<le> length (fst st) \<and> take (snd st) (fst st) = out"

definition stream_bytes :: "ave_sess_bufs \<Rightarrow> u8 list" where
  "stream_bytes b = take (sb_stream_len b) (sb_stream b)"

lemma stream_is_len: "stream_is st out \<Longrightarrow> snd st = length out"
  by (auto simp: stream_is_def)

text \<open>A step that appends \<open>bs\<close>, given room for it.\<close>

definition appends :: "(u8 list \<times> nat \<Rightarrow> (u8 list \<times> nat) cres) \<Rightarrow> u8 list \<Rightarrow> bool" where
  "appends f bs \<longleftrightarrow> (\<forall>st out. stream_is st out \<and> length out + length bs \<le> length (fst st) \<longrightarrow>
     (\<exists>st'. f st = Ok st' \<and> stream_is st' (out @ bs) \<and> length (fst st') = length (fst st)))"

lemma appends_Ok [simp]: "appends Ok []"
  by (simp add: appends_def)

lemma appends_bind:
  assumes "appends f xs" "appends g ys"
  shows "appends (\<lambda>st. cbind (f st) g) (xs @ ys)"
  unfolding appends_def
proof (intro allI impI)
  fix st :: "u8 list \<times> nat" and out
  assume a: "stream_is st out \<and> length out + length (xs @ ys) \<le> length (fst st)"
  then obtain s1 where 1: "f st = Ok s1" "stream_is s1 (out @ xs)" "length (fst s1) = length (fst st)"
    using assms(1) [unfolded appends_def, rule_format, of st out] by auto
  then obtain s2 where "g s1 = Ok s2" "stream_is s2 ((out @ xs) @ ys)" "length (fst s2) = length (fst s1)"
    using a assms(2) [unfolded appends_def, rule_format, of s1 "out @ xs"] by auto
  then show "\<exists>st'. cbind (f st) g = Ok st' \<and> stream_is st' (out @ xs @ ys) \<and> length (fst st') = length (fst st)"
    using 1 by auto
qed

lemma appends_write:
  "appends (\<lambda>st. cbind (wr_bytes (fst st) (snd st) bs) (\<lambda>buf. Ok (buf, snd st + length bs))) bs"
  by (auto simp: appends_def wr_bytes_def stream_is_def poke_def)

lemma appends_from:
  assumes "off + n \<le> length m"
  shows "appends (append_from (Some m) off n) (peek m off n)"
proof -
  have b: "rd_bytes m off n = Ok (peek m off n)" "length (peek m off n) = n"
    using assms by (simp_all add: rd_bytes_def peek_def)
  show ?thesis
    unfolding append_from_def cpu_bytes_def
    using appends_write [of "peek m off n"] by (simp add: b)
qed

lemma appends_from_none: "appends (append_from None off 0) []"
  by (auto simp: appends_def append_from_def cpu_bytes_def wr_bytes_def stream_is_def poke_def)

lemma appends_words: "appends (append_words n) (concat (replicate n cabac_word))"
  unfolding append_words_def
proof (induction n)
  case (Suc n)
  have "length cabac_word = 3" by (simp add: cabac_word_def)
  then show ?case
    using appends_bind [OF appends_write [of cabac_word] Suc.IH] by simp
qed simp

text \<open>The bytes of the slices, as the code concatenates them.\<close>

definition slice_bytes :: "u8 list \<Rightarrow> ave_coded_slice \<Rightarrow> u8 list" where
  "slice_bytes m e = peek m (unat (cs_off e)) (unat (cs_len e))"

definition hdr_bytes :: "u8 list \<Rightarrow> u64 \<Rightarrow> ave_coded_slice \<Rightarrow> u8 list" where
  "hdr_bytes h iova e = peek h (unat (cs_hdr_iova e - iova)) (unat (cs_hdr_len e))"

lemma appends_slices:
  assumes "\<forall>e \<in> set es. unat (cs_off e) + unat (cs_len e) \<le> length m"
  shows "appends (append_slices (Some m) es) (concat (map (slice_bytes m) es))"
  using assms
proof (induction es)
  case (Cons e es)
  show ?case
    using appends_bind [OF appends_from [of "unat (cs_off e)" "unat (cs_len e)" m] Cons.IH] Cons.prems
    by (simp add: slice_bytes_def)
qed (simp add: appends_def)

lemma appends_slices_hevc:
  assumes "\<forall>e \<in> set es. unat (cs_off e) + unat (cs_len e) \<le> length m
      \<and> unat (cs_hdr_iova e - iova) + unat (cs_hdr_len e) \<le> length h"
  shows "appends (append_slices_hevc (Some h) iova (Some m) es)
    (concat (map (\<lambda>e. hdr_bytes h iova e @ slice_bytes m e) es))"
  using assms
proof (induction es)
  case (Cons e es)
  show ?case
    using appends_bind [OF appends_from [of "unat (cs_hdr_iova e - iova)" "unat (cs_hdr_len e)" h]
        appends_bind [OF appends_from [of "unat (cs_off e)" "unat (cs_len e)" m] Cons.IH]] Cons.prems
    by (simp add: slice_bytes_def hdr_bytes_def)
qed (simp add: appends_def)

section \<open>Growing\<close>

lemma stream_grow_cases:
  assumes "vmalloc_ok vm" "len \<le> length stream"
  shows "stream_grow vm need stream len = Err ENOMEM
    \<or> (\<exists>s. stream_grow vm need stream len = Ok s \<and> take len s = take len stream \<and> len + need \<le> length s)"
proof (cases "len + need > length stream")
  case True
  let ?n = "max (2 * length stream) (len + need + 0x10000)"
  show ?thesis
  proof (cases "vm ?n")
    case (Some p)
    then have p: "length p = ?n" using assms(1) by (auto simp: vmalloc_ok_def)
    then have "stream_grow vm need stream len = Ok (poke p 0 (take len stream))"
      using True Some assms(2) by (simp add: stream_grow_def rd_bytes_def wr_bytes_def)
    then show ?thesis using p assms(2) by (auto simp: poke_def)
  qed (simp add: stream_grow_def True)
qed (use assms in \<open>simp add: stream_grow_def\<close>)

section \<open>The frame that is appended\<close>

definition psets_bytes :: "ave_sess_bufs \<Rightarrow> u8 list" where
  "psets_bytes b = (case sb_psets_cpu b of None \<Rightarrow> [] | Some m \<Rightarrow> take (unat (sb_psets_len b)) m)"

definition starts_sps :: "coded_out \<Rightarrow> u8 list \<Rightarrow> bool" where
  "starts_sps c m \<longleftrightarrow> unat (co_len c) \<ge> 5 \<and> take 4 m = [0, 0, 0, 1] \<and> m ! 4 AND 0x1f = 7"

text \<open>What a completed frame adds to the stream: on a key frame the parameter sets, unless (H.264) the
  coded bytes bring an SPS themselves; the slices in order, for HEVC each behind its header; for
  H.264 the cabac_zero_words.\<close>

definition frame_bytes :: "ave_sess_bufs \<Rightarrow> nat \<Rightarrow> bool \<Rightarrow> u8 list" where
  "frame_bytes b idx key =
     (let c = sb_coded b ! idx; s = sb_slice_hdr b ! idx; m = the (sf_cpu c)
      in if sess_hevc b
         then (if key then psets_bytes b else [])
              @ concat (map (\<lambda>e. hdr_bytes (the (sf_cpu s)) (sf_iova s) e @ slice_bytes m e) (co_slice c))
         else (if key \<and> \<not> starts_sps c m then psets_bytes b else [])
              @ concat (map (slice_bytes m) (co_slice c))
              @ concat (replicate (unat (co_cabac_zero_words c)) cabac_word))"

text \<open>What the copy relies on: the slices inside the coded buffer, and sums that fit 32 bits.\<close>

definition frame_ok :: "ave_sess_bufs \<Rightarrow> nat \<Rightarrow> bool" where
  "frame_ok b idx \<longleftrightarrow>
     (let c = sb_coded b ! idx; s = sb_slice_hdr b ! idx
      in idx < AVE_SESS_FRAMES_MAX \<and> sf_cpu c \<noteq> None \<and> (5 \<le> unat (co_len c) \<longrightarrow> 5 \<le> unat (sf_size c))
       \<and> (\<forall>e \<in> set (co_slice c). unat (cs_off e) + unat (cs_len e) \<le> unat (sf_size c)
            \<and> (sess_hevc b \<longrightarrow> unat (cs_hdr_len e) + unat (cs_len e) < 2 ^ 32 \<and> unat (cs_hdr_len e) \<le> unat (sf_iova s)))
       \<and> (\<not> sess_hevc b \<longrightarrow> 3 * unat (co_cabac_zero_words c) < 2 ^ 32))"

lemma psets_bytes_len: "bufs_ok b \<Longrightarrow> length (psets_bytes b) = unat (sb_psets_len b)"
  by (auto simp: bufs_ok_def psets_ok_def psets_bytes_def split: option.splits)

lemma appends_psets:
  assumes "bufs_ok b"
  shows "appends (\<lambda>st. if c then append_from (sb_psets_cpu b) 0 (unat (sb_psets_len b)) st else Ok st)
    (if c then psets_bytes b else [])"
proof (cases "sb_psets_cpu b")
  case None
  then have "unat (sb_psets_len b) = 0" using assms by (auto simp: bufs_ok_def psets_ok_def)
  then show ?thesis using appends_from_none [of 0] None by (auto simp: psets_bytes_def)
next
  case (Some m)
  then have "unat (sb_psets_len b) \<le> length m" using assms by (simp add: bufs_ok_def psets_ok_def)
  then show ?thesis
    using appends_from [of 0 "unat (sb_psets_len b)" m] Some by (auto simp: psets_bytes_def peek_def)
qed

lemma commit_bytes: "stream_is st out \<Longrightarrow> stream_bytes (stream_commit b st) = out
    \<and> sb_stream_len (stream_commit b st) \<le> length (sb_stream (stream_commit b st))"
  by (simp add: stream_bytes_def stream_commit_def stream_is_def)

text \<open>The shape both codecs share: room, then one appending step.\<close>

lemma grow_append:
  assumes "vmalloc_ok vm" "bufs_ok b" "appends f bs" "length bs \<le> need"
  shows "cbind (stream_grow vm need (sb_stream b) (sb_stream_len b)) (\<lambda>stream.
      cbind (f (stream, sb_stream_len b)) (\<lambda>st. Ok (stream_commit b st))) = Err ENOMEM
    \<or> (\<exists>st. cbind (stream_grow vm need (sb_stream b) (sb_stream_len b)) (\<lambda>stream.
          cbind (f (stream, sb_stream_len b)) (\<lambda>st. Ok (stream_commit b st))) = Ok (stream_commit b st)
        \<and> stream_is st (stream_bytes b @ bs))"
proof -
  have len: "sb_stream_len b \<le> length (sb_stream b)" using assms(2) by (simp add: bufs_ok_def)
  show ?thesis
  proof (rule disjE [OF stream_grow_cases [OF assms(1) len, of need]])
    assume "\<exists>s. stream_grow vm need (sb_stream b) (sb_stream_len b) = Ok s
      \<and> take (sb_stream_len b) s = take (sb_stream_len b) (sb_stream b) \<and> sb_stream_len b + need \<le> length s"
    then obtain s where s: "stream_grow vm need (sb_stream b) (sb_stream_len b) = Ok s"
      "take (sb_stream_len b) s = stream_bytes b" "sb_stream_len b + need \<le> length s"
      by (auto simp: stream_bytes_def)
    have "length (stream_bytes b) = sb_stream_len b" using len by (simp add: stream_bytes_def)
    then obtain st where "f (s, sb_stream_len b) = Ok st" "stream_is st (stream_bytes b @ bs)"
      using assms(3) [unfolded appends_def, rule_format, of "(s, sb_stream_len b)" "stream_bytes b"] s assms(4)
      by (auto simp: stream_is_def)
    then show ?thesis using s by (intro disjI2 exI [of _ st]) simp
  qed simp
qed

lemma sum_concat: "length (concat (map f xs)) = sum_list (map (length \<circ> f) xs)"
  by (induction xs) simp_all

lemma stream_append_avc:
  assumes "vmalloc_ok vm" "bufs_ok b" "frame_ok b idx" "\<not> sess_hevc b"
  shows "ave_sess_stream_append vm b idx key = Err ENOMEM
    \<or> (\<exists>st. ave_sess_stream_append vm b idx key = Ok (stream_commit b st)
        \<and> stream_is st (stream_bytes b @ frame_bytes b idx key))"
proof -
  define c where "c = sb_coded b ! idx"
  obtain m where m: "sf_cpu c = Some m" using assms(3) by (auto simp: frame_ok_def Let_def c_def)
  have "c \<in> set (sb_coded b)" using assms(2,3) by (simp add: c_def bufs_ok_def frame_ok_def Let_def)
  then have lm: "length m = unat (sf_size c)" using assms(2) m by (auto simp: bufs_ok_def surf_ok_def)
  define ps where "ps \<longleftrightarrow> key \<and> \<not> starts_sps c m"
  have co: "5 \<le> unat (co_len c) \<longrightarrow> 5 \<le> length m" using assms(3) lm by (simp add: frame_ok_def Let_def c_def)
  have aps: "append_psets c key = Ok ps"
  proof (cases "5 \<le> unat (co_len c)")
    case True
    then have "rd_bytes m 0 5 = Ok (take 5 m)" "take 4 (take 5 m) = take 4 m" "take 5 m ! 4 = m ! 4"
      using co by (simp_all add: rd_bytes_def)
    then show ?thesis
      using True by (auto simp: append_psets_def m ave_session_nal_type_def ps_def starts_sps_def simp del: take_take)
  qed (auto simp: append_psets_def m ave_session_nal_type_def ps_def starts_sps_def)
  define f where "f = (\<lambda>st. cbind (if ps then append_from (sb_psets_cpu b) 0 (unat (sb_psets_len b)) st else Ok st)
      (\<lambda>st. cbind (append_slices (Some m) (co_slice c) st) (append_words (unat (co_cabac_zero_words c)))))"
  define out where "out = (if ps then psets_bytes b else []) @ concat (map (slice_bytes m) (co_slice c))
      @ concat (replicate (unat (co_cabac_zero_words c)) cabac_word)"
  have sl: "\<forall>e \<in> set (co_slice c). unat (cs_off e) + unat (cs_len e) \<le> length m"
    using assms(3) lm by (simp add: frame_ok_def Let_def c_def)
  have "appends f out"
    unfolding f_def out_def
    by (rule appends_bind [OF appends_psets [OF assms(2)] appends_bind [OF appends_slices [OF sl] appends_words]])
  moreover have "length out = need_avc c (if ps then unat (sb_psets_len b) else 0)"
  proof -
    have "unat (3 * co_cabac_zero_words c) = 3 * unat (co_cabac_zero_words c)"
      using assms(3,4) by (subst unat_mult_nowrap) (simp_all add: frame_ok_def Let_def c_def)
    moreover have "sum_list (map (length \<circ> slice_bytes m) (co_slice c)) = sum_list (map (unat \<circ> cs_len) (co_slice c))"
      using sl by (intro arg_cong [where f = sum_list] map_cong) (auto simp: slice_bytes_def peek_def)
    moreover have "length (concat (replicate n cabac_word)) = 3 * n" for n
      by (induction n) (simp_all add: cabac_word_def)
    ultimately show ?thesis
      using psets_bytes_len [OF assms(2)] by (simp add: out_def need_avc_def sum_concat)
  qed
  ultimately have g: "appends f out" "length out \<le> need_avc c (if ps then unat (sb_psets_len b) else 0)" by simp_all
  have "ave_sess_stream_append vm b idx key =
      cbind (stream_grow vm (need_avc c (if ps then unat (sb_psets_len b) else 0)) (sb_stream b) (sb_stream_len b)) (\<lambda>stream.
      cbind (f (stream, sb_stream_len b)) (\<lambda>st. Ok (stream_commit b st)))"
    using assms(4) aps m
    by (simp add: ave_sess_stream_append_def c_def [symmetric] Let_def f_def cbind_assoc)
  moreover have "frame_bytes b idx key = out"
    using assms(4) m by (simp add: frame_bytes_def Let_def c_def [symmetric] out_def ps_def)
  ultimately show ?thesis using grow_append [OF assms(1,2) g] by simp
qed

text \<open>A header the first pass accepts lies in its surface, when the surface does not start below the
  length of the header.\<close>

lemma header_inside:
  fixes iova hdr :: u64 and n sz :: u32
  assumes "\<not> hdr < iova" "\<not> hdr - iova + ucast n > ucast sz" "unat n \<le> unat iova"
  shows "unat (hdr - iova) + unat n \<le> unat sz"
proof -
  have "unat (hdr - iova) = unat hdr - unat iova" "unat iova \<le> unat hdr"
    using assms(1) by (simp_all add: unat_diff_le word_le_nat_alt not_less)
  then have "unat (hdr - iova) + unat n < 2 ^ 64" using assms(3) unat_u64_bound [of hdr] by simp
  then have "unat (hdr - iova + ucast n) = unat (hdr - iova) + unat n" by (subst unat_add_nowrap) simp_all
  then show ?thesis using assms(2) by (simp add: word_less_nat_alt)
qed

lemma need_hevc_ok:
  assumes "\<forall>e \<in> set es. unat (cs_hdr_len e) + unat (cs_len e) < 2 ^ 32 \<and> unat (cs_hdr_len e) \<le> unat (sf_iova s)"
  shows "need_hevc s es k = Err EPROTO
      \<and> (\<exists>e \<in> set es. sf_cpu s = None \<or> cs_hdr_iova e < sf_iova s
           \<or> unat (sf_size s) < unat (cs_hdr_iova e - sf_iova s) + unat (cs_hdr_len e))
    \<or> need_hevc s es k = Ok (k + sum_list (map (\<lambda>e. unat (cs_hdr_len e) + unat (cs_len e)) es))
      \<and> (\<forall>e \<in> set es. sf_cpu s \<noteq> None \<and> \<not> cs_hdr_iova e < sf_iova s \<and> unat (cs_hdr_iova e - sf_iova s) + unat (cs_hdr_len e) \<le> unat (sf_size s))"
  using assms
proof (induction es arbitrary: k)
  case (Cons e es)
  have w: "unat (cs_hdr_len e + cs_len e) = unat (cs_hdr_len e) + unat (cs_len e)"
    using Cons.prems by (subst unat_add_nowrap) simp_all
  show ?case
  proof (cases "sf_cpu s = None \<or> cs_hdr_iova e < sf_iova s
      \<or> cs_hdr_iova e - sf_iova s + ucast (cs_hdr_len e) > ucast (sf_size s)")
    case True
    have "unat (sf_size s) < unat (cs_hdr_iova e - sf_iova s) + unat (cs_hdr_len e)"
      if "cs_hdr_iova e - sf_iova s + ucast (cs_hdr_len e) > ucast (sf_size s)"
    proof -
      have "unat (cs_hdr_iova e - sf_iova s + ucast (cs_hdr_len e)) \<le> unat (cs_hdr_iova e - sf_iova s) + unat (cs_hdr_len e)"
        by (simp add: unat_word_ariths)
      then show ?thesis using that by (simp add: word_less_nat_alt)
    qed
    then show ?thesis using True by auto
  next
    case False
    then have "sf_cpu s \<noteq> None" "\<not> cs_hdr_iova e < sf_iova s" "unat (cs_hdr_iova e - sf_iova s) + unat (cs_hdr_len e) \<le> unat (sf_size s)"
      using header_inside [of "cs_hdr_iova e" "sf_iova s" "sf_size s" "cs_hdr_len e"] Cons.prems by auto
    then show ?thesis
      using False Cons.IH [of "k + (unat (cs_hdr_len e) + unat (cs_len e))"] Cons.prems by (auto simp: w add.assoc)
  qed
qed simp

text \<open>Some header is not in the surface its frame published.\<close>

definition header_astray :: "ave_sess_bufs \<Rightarrow> nat \<Rightarrow> bool" where
  "header_astray b idx \<longleftrightarrow>
     (let s = sb_slice_hdr b ! idx
      in \<exists>e \<in> set (co_slice (sb_coded b ! idx)). sf_cpu s = None \<or> cs_hdr_iova e < sf_iova s
           \<or> unat (sf_size s) < unat (cs_hdr_iova e - sf_iova s) + unat (cs_hdr_len e))"

lemma stream_append_hevc:
  assumes "vmalloc_ok vm" "bufs_ok b" "frame_ok b idx" "sess_hevc b"
  shows "ave_sess_stream_append vm b idx key = Err ENOMEM
    \<or> ave_sess_stream_append vm b idx key = Err EPROTO \<and> header_astray b idx
    \<or> (\<exists>st. ave_sess_stream_append vm b idx key = Ok (stream_commit b st) \<and> \<not> header_astray b idx
        \<and> stream_is st (stream_bytes b @ frame_bytes b idx key))"
proof -
  define c where "c = sb_coded b ! idx"
  define s where "s = sb_slice_hdr b ! idx"
  obtain m where m: "sf_cpu c = Some m" using assms(3) by (auto simp: frame_ok_def Let_def c_def)
  have "c \<in> set (sb_coded b)" "s \<in> set (sb_slice_hdr b)"
    using assms(2,3) by (simp_all add: c_def s_def bufs_ok_def frame_ok_def Let_def)
  then have lm: "length m = unat (sf_size c)" and sok: "surf_ok s" using assms(2) m by (auto simp: bufs_ok_def surf_ok_def)
  have co: "5 \<le> unat (co_len c) \<longrightarrow> 5 \<le> length m" using assms(3) lm by (simp add: frame_ok_def Let_def c_def)
  have "\<exists>ps. append_psets c key = Ok ps"
    using co by (auto simp: append_psets_def m ave_session_nal_type_def rd_bytes_def)
  then obtain ps where aps: "append_psets c key = Ok ps" ..
  define k where "k = (if key then unat (sb_psets_len b) else 0)"
  have sl: "\<forall>e \<in> set (co_slice c). unat (cs_off e) + unat (cs_len e) \<le> length m"
    "\<forall>e \<in> set (co_slice c). unat (cs_hdr_len e) + unat (cs_len e) < 2 ^ 32 \<and> unat (cs_hdr_len e) \<le> unat (sf_iova s)"
    using assms(3,4) lm by (simp_all add: frame_ok_def Let_def c_def s_def)
  define f where "f = (\<lambda>st. cbind (if key then append_from (sb_psets_cpu b) 0 (unat (sb_psets_len b)) st else Ok st)
      (append_slices_hevc (sf_cpu s) (sf_iova s) (Some m) (co_slice c)))"
  have eq: "ave_sess_stream_append vm b idx key = cbind (need_hevc s (co_slice c) k) (\<lambda>need.
      cbind (stream_grow vm need (sb_stream b) (sb_stream_len b)) (\<lambda>stream.
      cbind (f (stream, sb_stream_len b)) (\<lambda>st. Ok (stream_commit b st))))"
    using assms(4) aps m
    by (simp add: ave_sess_stream_append_def ave_sess_stream_append_hevc_def c_def [symmetric] s_def [symmetric]
        Let_def f_def cbind_assoc k_def)
  show ?thesis
    using need_hevc_ok [OF sl(2), of k]
  proof (elim disjE conjE)
    assume "need_hevc s (co_slice c) k = Err EPROTO" "\<exists>e \<in> set (co_slice c). sf_cpu s = None \<or> cs_hdr_iova e < sf_iova s
           \<or> unat (sf_size s) < unat (cs_hdr_iova e - sf_iova s) + unat (cs_hdr_len e)"
    then show ?thesis by (auto simp: eq header_astray_def Let_def c_def s_def)
  next
    let ?need = "k + sum_list (map (\<lambda>e. unat (cs_hdr_len e) + unat (cs_len e)) (co_slice c))"
    assume n: "need_hevc s (co_slice c) k = Ok ?need"
      and h: "\<forall>e \<in> set (co_slice c). sf_cpu s \<noteq> None \<and> \<not> cs_hdr_iova e < sf_iova s \<and> unat (cs_hdr_iova e - sf_iova s) + unat (cs_hdr_len e) \<le> unat (sf_size s)"
    define hm where "hm = the (sf_cpu s)"
    have hl: "\<forall>e \<in> set (co_slice c). unat (cs_off e) + unat (cs_len e) \<le> length m
        \<and> unat (cs_hdr_iova e - sf_iova s) + unat (cs_hdr_len e) \<le> length hm"
      using h sl(1) sok by (auto simp: surf_ok_def hm_def)
    have sh: "append_slices_hevc (sf_cpu s) (sf_iova s) (Some m) (co_slice c)
        = append_slices_hevc (Some hm) (sf_iova s) (Some m) (co_slice c)"
      using h by (cases "co_slice c") (auto simp: hm_def)
    define body where "body = concat (map (\<lambda>e. hdr_bytes hm (sf_iova s) e @ slice_bytes m e) (co_slice c))"
    define out where "out = (if key then psets_bytes b else []) @ body"
    have "appends f out"
      unfolding f_def out_def body_def sh
      by (rule appends_bind [OF appends_psets [OF assms(2)] appends_slices_hevc [OF hl]])
    moreover have "length body = sum_list (map (\<lambda>e. unat (cs_hdr_len e) + unat (cs_len e)) (co_slice c))"
      unfolding body_def sum_concat
      using hl by (intro arg_cong [where f = sum_list] map_cong) (auto simp: slice_bytes_def hdr_bytes_def peek_def)
    ultimately have g: "appends f out" "length out \<le> ?need"
      using psets_bytes_len [OF assms(2)] by (simp_all add: out_def k_def)
    have "frame_bytes b idx key = out"
      using assms(4) m by (simp add: frame_bytes_def Let_def c_def [symmetric] s_def [symmetric] out_def body_def hm_def)
    moreover have "\<not> header_astray b idx"
      using h by (auto simp: header_astray_def Let_def not_less simp flip: c_def s_def)
    ultimately show ?thesis using grow_append [OF assms(1,2) g] by (simp add: eq n)
  qed
qed

text \<open>A count of cabac_zero_words from 2^32 / 3 up makes the 32-bit product of the first pass small, while the
  loop behind it writes three bytes for each: the copy leaves the stream's allocation.\<close>

definition many_words :: ave_sess_bufs where
  "many_words = fresh_bufs\<lparr>sb_coded := (sb_coded fresh_bufs)[0 := no_coded\<lparr>sf_cpu := Some [], co_cabac_zero_words := 0x55555556\<rparr>],
     sb_stream := replicate 2 0\<rparr>"

lemma cabac_words_overrun: "bufs_ok many_words \<and> ave_sess_stream_append vm many_words 0 False = Fault"
proof -
  have "unat (0x55555556 :: u32) = Suc 0x55555555" by simp
  then have "append_words (unat (0x55555556 :: u32)) (replicate 2 0, 0) = Fault"
    by (simp only: append_words_def repeat_c.simps) (simp add: wr_bytes_def cabac_word_def)
  then have "ave_sess_stream_append vm many_words 0 False = Fault"
    by (simp add: ave_sess_stream_append_def many_words_def fresh_bufs_def append_psets_def sess_hevc_def zero_cfg_def
        AVE_SESS_CODEC_HEVC_def AVE_SESS_FRAMES_MAX_def need_avc_def no_coded_def stream_grow_def)
  moreover have "bufs_ok many_words"
    using fresh_bufs_ok
    by (simp add: bufs_ok_def psets_ok_def many_words_def fresh_bufs_def surf_ok_def no_coded_def no_surface_def
        AVE_SESS_FRAMES_MAX_def numeral_eq_Suc)
  ultimately show ?thesis by blast
qed

end
