(* ===== verification/Ave_Sess_Mp.thy ===== *)
theory Ave_Sess_Mp
  imports Ave_Sess_Stream
begin

text \<open>
  Multi-pass encoding, from \<^verbatim>\<open>src/driver/ave_session.c\<close>: the records the first pass
  leaves, the table the final pass takes, the debugfs files that move both, and what a session
  and its frames do with them.

  \<^item> The state is the module's, not a session's: \<open>mp_lab\<close>. Every function holds \<open>ave_mp_lock\<close>
    where the C code does, so each is one step.
  \<^item> \<open>simple_read_from_buffer\<close> and \<open>simple_write_to_buffer\<close> are the kernel's, with a user
    buffer that can be copied.
\<close>

definition AVE_MP_REC_OFF :: nat where "AVE_MP_REC_OFF = 0x22638"
definition AVE_MP_REC_SIZE :: nat where "AVE_MP_REC_SIZE = 0x626"
definition AVE_MP_HDR_SIZE :: nat where "AVE_MP_HDR_SIZE = 0x108"
definition AVE_MP_WINDOW :: nat where "AVE_MP_WINDOW = 10"
definition AVE_MP_IN_FIRST :: nat where "AVE_MP_IN_FIRST = 0x44aa"
definition AVE_MP_FRAMES_MAX :: nat where "AVE_MP_FRAMES_MAX = 2048"
definition AVE_MP_TAB_MAX :: nat where
  "AVE_MP_TAB_MAX = AVE_MP_HDR_SIZE + AVE_MP_FRAMES_MAX * AVE_MP_REC_SIZE"
definition AVE_MP_IN_BYTES :: nat where "AVE_MP_IN_BYTES = 0x8000"

lemmas mp_consts =
  AVE_MP_REC_OFF_def AVE_MP_REC_SIZE_def AVE_MP_HDR_SIZE_def AVE_MP_WINDOW_def AVE_MP_IN_FIRST_def
  AVE_MP_FRAMES_MAX_def AVE_MP_TAB_MAX_def AVE_MP_IN_BYTES_def

record mp_lab =
  ml_rec :: "u8 list option"
  ml_n_rec :: nat
  ml_tab :: "u8 list option"
  ml_tab_len :: nat

definition fresh_lab :: mp_lab where
  "fresh_lab = \<lparr>ml_rec = None, ml_n_rec = 0, ml_tab = None, ml_tab_len = 0\<rparr>"

definition tab_ok :: "u8 list option \<Rightarrow> nat \<Rightarrow> bool" where
  "tab_ok tab n \<longleftrightarrow> (case tab of None \<Rightarrow> n = 0 | Some t \<Rightarrow> length t = AVE_MP_TAB_MAX \<and> n \<le> AVE_MP_TAB_MAX)"

definition lab_ok :: "mp_lab \<Rightarrow> bool" where
  "lab_ok l \<longleftrightarrow>
     (case ml_rec l of None \<Rightarrow> True | Some r \<Rightarrow> length r = AVE_MP_FRAMES_MAX * AVE_MP_REC_SIZE)
   \<and> ml_n_rec l \<le> AVE_MP_FRAMES_MAX
   \<and> tab_ok (ml_tab l) (ml_tab_len l)"

section \<open>A session\<close>

record mp_params =
  session_mp_pass :: u32
  session_mp_rec :: bool

text \<open>The four input buffers of a final pass. \<open>cpu\<close> of the first allocation that fails is NULL.\<close>

fun mp_alloc_in ::
  "dma_fun \<Rightarrow> nat list \<Rightarrow> sess_pool \<Rightarrow> (u8 list option \<times> u64) list \<Rightarrow> bool \<times> sess_pool \<times> (u8 list option \<times> u64) list" where
  "mp_alloc_in dma [] p ins = (True, p, ins)"
| "mp_alloc_in dma (i # is) p ins =
     (case ave_sess_dma_alloc dma (of_nat AVE_MP_IN_BYTES) p of
        (None, p) \<Rightarrow> (False, p, ins[i := (None, snd (ins ! i))])
      | (Some iova, p) \<Rightarrow> mp_alloc_in dma is p (ins[i := (Some (replicate AVE_MP_IN_BYTES 0), iova)]))"

text \<open>The pass and the options a session latches, and the parameters that are refused.\<close>

definition mp_refused :: "ave_cmd_abi \<Rightarrow> ave_sess_bufs \<Rightarrow> bool" where
  "mp_refused abi b \<longleftrightarrow>
     (let pass = sl_mp_pass (sb_lat b)
      in unat (sa_coded_hdr_bytes (ab_start_avc abi)) < AVE_MP_REC_OFF + AVE_MP_REC_SIZE
       \<or> (pass \<noteq> 0 \<and> (sa_mp_enable (ab_start_avc abi) = AVE_OFF_NONE \<or> pa_mp_stats_in (ab_process_avc abi) = AVE_OFF_NONE))
       \<or> pass > 2 \<or> (pass \<noteq> 0 \<and> (sess_hevc b \<or> sc_bitrate (sb_cfg b) = 0)))"

text \<open>\<open>vz\<close>: the \<open>vzalloc\<close> of the record area succeeds.\<close>

definition ave_mp_session_start ::
  "dma_fun \<Rightarrow> bool \<Rightarrow> mp_params \<Rightarrow> ave_cmd_abi \<Rightarrow> mp_lab \<Rightarrow> ave_sess_bufs \<Rightarrow>
     errno option \<times> mp_lab \<times> ave_sess_bufs" where
  "ave_mp_session_start dma vz mp abi l b =
     (let pass = session_mp_pass mp; keep = session_mp_rec mp \<or> pass = 1;
          b = b\<lparr>sb_lat := (sb_lat b)\<lparr>sl_mp_pass := pass, sl_mp_rec := keep\<rparr>\<rparr>
      in if pass = 0 \<and> \<not> keep then (None, l, b)
         else if mp_refused abi b then (Some EINVAL, l, b)
         else
           let l = (if keep
                    then l\<lparr>ml_rec := (case ml_rec l of
                                        Some r \<Rightarrow> Some r
                                      | None \<Rightarrow> if vz then Some (replicate (AVE_MP_FRAMES_MAX * AVE_MP_REC_SIZE) 0) else None),
                          ml_n_rec := 0\<rparr> else l)
           in if keep \<and> ml_rec l = None then (Some ENOMEM, l, b)
              else if pass \<noteq> 2 then (None, l, b)
              else if ml_tab_len l < AVE_MP_HDR_SIZE + AVE_MP_REC_SIZE then (Some EINVAL, l, b)
              else
                let b = b\<lparr>sb_lat := (sb_lat b)\<lparr>sl_mp_frames := of_nat ((ml_tab_len l - AVE_MP_HDR_SIZE) div AVE_MP_REC_SIZE)\<rparr>\<rparr>
                in (case mp_alloc_in dma [0..<AVE_SESS_FRAMES_MAX] (sb_pool b) (sb_mp_in b) of
                      (ok, p, ins) \<Rightarrow> (if ok then None else Some ENOMEM, l, b\<lparr>sb_pool := p, sb_mp_in := ins\<rparr>)))"

section \<open>A frame\<close>

text \<open>\<open>hdr\<close> is the content of the frame's coded header.\<close>

definition ave_mp_keep_record :: "u8 list option \<Rightarrow> u32 \<Rightarrow> mp_lab \<Rightarrow> mp_lab cres" where
  "ave_mp_keep_record hdr n l =
     (if unat n \<ge> AVE_MP_FRAMES_MAX then Ok l
      else case ml_rec l of
             None \<Rightarrow> Ok l
           | Some r \<Rightarrow>
               cbind (cpu_bytes hdr AVE_MP_REC_OFF AVE_MP_REC_SIZE) (\<lambda>bs.
               cbind (wr_bytes r (unat n * AVE_MP_REC_SIZE) bs) (\<lambda>r.
                 Ok (l\<lparr>ml_rec := Some r, ml_n_rec := max (ml_n_rec l) (unat n + 1)\<rparr>))))"

definition mp_nrec :: "mp_lab \<Rightarrow> nat" where
  "mp_nrec l = (if ml_tab_len l \<ge> AVE_MP_HDR_SIZE then (ml_tab_len l - AVE_MP_HDR_SIZE) div AVE_MP_REC_SIZE else 0)"

definition mp_record :: "mp_lab \<Rightarrow> nat \<Rightarrow> u8 list cres" where
  "mp_record l i = cpu_bytes (ml_tab l) (AVE_MP_HDR_SIZE + i * AVE_MP_REC_SIZE) AVE_MP_REC_SIZE"

fun mp_copy_records :: "mp_lab \<Rightarrow> nat list \<Rightarrow> u8 list \<Rightarrow> u8 list cres" where
  "mp_copy_records l [] d = Ok d"
| "mp_copy_records l (i # is) d =
     cbind (mp_record l (min i (mp_nrec l - 1))) (\<lambda>bs.
     cbind (wr_bytes d (AVE_MP_HDR_SIZE + i * AVE_MP_REC_SIZE) bs) (mp_copy_records l is))"

text \<open>The input of frame \<open>n\<close> in the buffer \<open>d\<close>; \<open>None\<close> when there is no table (or no buffer).\<close>

definition ave_mp_fill_input :: "mp_lab \<Rightarrow> u8 list option \<Rightarrow> u32 \<Rightarrow> u8 list option cres" where
  "ave_mp_fill_input l d n =
     (case d of
        None \<Rightarrow> Ok None
      | Some d \<Rightarrow>
          if mp_nrec l = 0 then Ok None
          else
            cbind (wr_bytes d 0 (replicate AVE_MP_IN_FIRST 0)) (\<lambda>d.
            cbind (cpu_bytes (ml_tab l) 0 AVE_MP_HDR_SIZE) (\<lambda>h.
            cbind (wr_bytes d 0 h) (\<lambda>d.
            cbind (if n = 0 then mp_copy_records l [0..<AVE_MP_WINDOW + 1] d
                   else cbind (mp_record l (min (unat (n + of_nat AVE_MP_WINDOW)) (mp_nrec l - 1))) (\<lambda>bs.
                          wr_bytes d AVE_MP_HDR_SIZE bs)) (\<lambda>d. Ok (Some d))))))"

section \<open>The debugfs files\<close>

text \<open>The bytes handed to the user, and the position behind them.\<close>

definition simple_read_from_buffer :: "nat \<Rightarrow> int \<Rightarrow> u8 list \<Rightarrow> nat \<Rightarrow> (errno + u8 list) \<times> int" where
  "simple_read_from_buffer count pos from available =
     (if pos < 0 then (Inl EINVAL, pos)
      else if nat pos \<ge> available then (Inr [], pos)
      else let n = min count (available - nat pos) in (Inr (peek from (nat pos) n), pos + int n))"

text \<open>The count that was written, the position behind it, the buffer.\<close>

definition simple_write_to_buffer :: "u8 list \<Rightarrow> nat \<Rightarrow> int \<Rightarrow> u8 list \<Rightarrow> (errno + nat) \<times> int \<times> u8 list" where
  "simple_write_to_buffer to available pos bytes =
     (if pos < 0 then (Inl EINVAL, pos, to)
      else if nat pos \<ge> available \<or> bytes = [] then (Inr 0, pos, to)
      else let n = min (length bytes) (available - nat pos)
           in (Inr n, pos + int n, poke to (nat pos) (take n bytes)))"

definition ave_mp_rec_read :: "nat \<Rightarrow> int \<Rightarrow> mp_lab \<Rightarrow> (errno + u8 list) \<times> int" where
  "ave_mp_rec_read count pos l =
     (case ml_rec l of None \<Rightarrow> (Inr [], pos)
      | Some r \<Rightarrow> simple_read_from_buffer count pos r (ml_n_rec l * AVE_MP_REC_SIZE))"

definition ave_mp_tab_open :: "bool \<Rightarrow> mp_lab \<Rightarrow> mp_lab" where
  "ave_mp_tab_open write_trunc l = (if write_trunc then l\<lparr>ml_tab_len := 0\<rparr> else l)"

definition ave_mp_tab_read :: "nat \<Rightarrow> int \<Rightarrow> mp_lab \<Rightarrow> (errno + u8 list) \<times> int" where
  "ave_mp_tab_read count pos l =
     (case ml_tab l of None \<Rightarrow> (Inr [], pos)
      | Some t \<Rightarrow> simple_read_from_buffer count pos t (ml_tab_len l))"

definition ave_mp_tab_write :: "bool \<Rightarrow> int \<Rightarrow> u8 list \<Rightarrow> mp_lab \<Rightarrow> (errno + nat) \<times> int \<times> mp_lab" where
  "ave_mp_tab_write vz pos bytes l =
     (let l = (if ml_tab l = None \<and> vz then l\<lparr>ml_tab := Some (replicate AVE_MP_TAB_MAX 0)\<rparr> else l)
      in case ml_tab l of
           None \<Rightarrow> (Inl ENOMEM, pos, l)
         | Some t \<Rightarrow>
             (case simple_write_to_buffer t AVE_MP_TAB_MAX pos bytes of
                (r, pos', t') \<Rightarrow>
                  (r, pos', l\<lparr>ml_tab := Some t',
                              ml_tab_len := (case r of Inr n \<Rightarrow> if n > 0 then max (ml_tab_len l) (nat pos') else ml_tab_len l
                                             | Inl _ \<Rightarrow> ml_tab_len l)\<rparr>)))"

definition ave_mp_debugfs_exit :: "mp_lab \<Rightarrow> mp_lab" where
  "ave_mp_debugfs_exit l = l\<lparr>ml_rec := None, ml_tab := None, ml_n_rec := 0, ml_tab_len := 0\<rparr>"

end
