(* ===== verification/Ave_Sess_Process.thy ===== *)
theory Ave_Sess_Process
  imports Ave_Sess_Mp
begin

text \<open>
  One encoded frame and a batch of them, from \<^verbatim>\<open>src/driver/ave_session.c\<close>: building
  the Process command in its slot, what a completion does (the coded header read, the frame's
  bytes appended), and the exchange with the firmware, one frame or several in flight.

  \<^item> A step acts on the state \<open>sess_st\<close> and returns \<open>Ok\<close>, the error or \<open>Fault\<close> for an access
    outside a buffer. What an early return leaves behind is in the state.
  \<^item> The environment of a command is what the device goes through while it waits
    (\<open>env_act\<close>) and what the firmware writes into the surfaces (\<open>surf_act\<close>).
  \<^item> The answer of the datapath DART check, which compares hardware tables, is an argument.
    Register dumps, diagnostics, timing, the clock-gating experiment and the test picture the
    self-test paints into its own source planes have no counterpart.
\<close>

section \<open>State and steps\<close>

record sess_st =
  st_dev :: ave_device
  st_rx :: ave_sess_rx
  st_bufs :: ave_sess_bufs
  st_lab :: mp_lab
  st_mcpu_created :: bool
  st_client_codec :: u32

type_synonym 'a sess = "sess_st \<Rightarrow> 'a cres \<times> sess_st"

definition s_ret :: "'a \<Rightarrow> 'a sess" where "s_ret x s = (Ok x, s)"

definition s_err :: "errno \<Rightarrow> 'a sess" where "s_err e s = (Err e, s)"

definition s_bind :: "'a sess \<Rightarrow> ('a \<Rightarrow> 'b sess) \<Rightarrow> 'b sess" where
  "s_bind m f s =
     (case m s of (Ok x, s') \<Rightarrow> f x s' | (Err e, s') \<Rightarrow> (Err e, s') | (Fault, s') \<Rightarrow> (Fault, s'))"

definition s_then :: "unit sess \<Rightarrow> 'b sess \<Rightarrow> 'b sess" where
  "s_then m f = s_bind m (\<lambda>_. f)"

definition s_fail_if :: "bool \<Rightarrow> errno \<Rightarrow> unit sess" where
  "s_fail_if c e s = (if c then Err e else Ok (), s)"

definition s_bufs :: "(ave_sess_bufs \<Rightarrow> ave_sess_bufs) \<Rightarrow> unit sess" where
  "s_bufs f s = (Ok (), s\<lparr>st_bufs := f (st_bufs s)\<rparr>)"

definition s_get :: "(sess_st \<Rightarrow> 'a) \<Rightarrow> 'a sess" where "s_get f s = (Ok (f s), s)"

text \<open>A result computed from the state, which stays.\<close>

definition s_lift :: "(sess_st \<Rightarrow> 'a cres) \<Rightarrow> 'a sess" where "s_lift f s = (f s, s)"

text \<open>What a run of the module and a machine fix: parameters, the interface, the kernel's answers.\<close>

record sess_env =
  en_gp :: ipc_gp
  en_dma :: dma_fun
  en_vm :: vmalloc_fun
  en_abi :: ave_cmd_abi
  en_ftype5 :: bool
  en_frame_type :: u32
  en_direct_spatial :: bool
  en_src_dims :: u32
  en_soc_src_dims :: bool
  en_ignore_dart :: bool

definition s_dma_alloc :: "sess_env \<Rightarrow> u64 \<Rightarrow> u64 option sess" where
  "s_dma_alloc en sz s =
     (case ave_sess_dma_alloc (en_dma en) sz (sb_pool (st_bufs s)) of
        (r, p) \<Rightarrow> (Ok r, s\<lparr>st_bufs := (st_bufs s)\<lparr>sb_pool := p\<rparr>\<rparr>))"

definition s_ipc_alloc :: "sess_env \<Rightarrow> nat \<Rightarrow> nat option sess" where
  "s_ipc_alloc en sz s =
     (case ave_sess_ipc_alloc (en_gp en) sz (sb_pool (st_bufs s)) (st_dev s) of
        (r, p, d) \<Rightarrow> (Ok r, s\<lparr>st_bufs := (st_bufs s)\<lparr>sb_pool := p\<rparr>, st_dev := d\<rparr>))"

section \<open>Building a frame\<close>

definition AVE_SESS_PROCESS_SLOT :: u32 where "AVE_SESS_PROCESS_SLOT = 21"
definition AVE135_FRAME_TYPE_DROPPED :: u32 where "AVE135_FRAME_TYPE_DROPPED = 4"

record ave_sess_job =
  jb_n :: u32
  jb_idx :: nat
  jb_frame_type :: u32
  jb_cmd_iova :: u64
  jb_cmd_len :: nat

text \<open>The source planes of a frame: the session's own, the buffer of the caller, or new ones.\<close>

definition own_stride :: "ave_sess_bufs \<Rightarrow> u32" where
  "own_stride b =
     (let st = ALIGN (ave_mb_align (sc_width (sb_cfg b))) AVE_STRIDE_ALIGN
      in if sc_src_bitdepth (sb_cfg b) = 10 then st * 2 else st)"

definition own_bytes :: "ave_sess_bufs \<Rightarrow> u32 \<times> u32" where
  "own_bytes b =
     (let st = own_stride b; ch = ave_mb_align (sc_height (sb_cfg b))
      in if sess_hevc b then (st * ALIGN ch 64, st * (ALIGN ch 64 div 2))
         else (st * ave_mb_align ch, st * (ave_mb_align ch div 2)))"

definition ext_planes :: "ave_sess_bufs \<Rightarrow> src_planes" where
  "ext_planes b =
     (let ch = ave_mb_align (sc_height (sb_cfg b))
      in \<lparr>sr_luma = False, sr_luma_iova = sb_ext_luma b, sr_luma_bytes = sb_ext_stride b * ave_mb_align ch,
          sr_chroma = False, sr_chroma_iova = sb_ext_chroma b,
          sr_chroma_bytes = sb_ext_stride b * (ave_mb_align ch div 2)\<rparr>)"

definition own_planes :: "sess_env \<Rightarrow> nat \<Rightarrow> src_planes sess" where
  "own_planes en idx =
     s_bind (s_get st_bufs) (\<lambda>b.
       let (lb, cb) = own_bytes b; r = sb_src b ! idx
       in if sr_luma r
          then s_ret (r\<lparr>sr_luma_bytes := lb, sr_chroma_bytes := cb\<rparr>)
          else s_bind (s_dma_alloc en (ucast lb)) (\<lambda>l.
               s_bind (s_dma_alloc en (ucast cb)) (\<lambda>c.
                 case (l, c) of
                   (Some l, Some c) \<Rightarrow>
                     s_ret \<lparr>sr_luma = True, sr_luma_iova = l, sr_luma_bytes = lb,
                            sr_chroma = True, sr_chroma_iova = c, sr_chroma_bytes = cb\<rparr>
                 | _ \<Rightarrow> s_err ENOMEM)))"

definition proc_source :: "sess_env \<Rightarrow> nat \<Rightarrow> (u32 \<times> src_planes) sess" where
  "proc_source en idx =
     s_bind (s_get st_bufs) (\<lambda>b.
     s_bind (if sb_ext_src b then s_ret (sb_ext_stride b, ext_planes b)
             else s_bind (own_planes en idx) (\<lambda>r. s_ret (own_stride b, r))) (\<lambda>(stride, r).
     s_then (s_fail_if ((sr_luma_iova r OR sr_chroma_iova r) AND (ucast AVE_STRIDE_ALIGN - 1) \<noteq> 0) EINVAL)
     (s_then (s_bufs (\<lambda>b. b\<lparr>sb_src := (sb_src b)[idx := r], sb_stride := stride\<rparr>))
     (s_ret (stride, r)))))"

text \<open>The scratch reconstruction planes, one arena for all frames: luma, chroma, their LSB planes,
  motion vectors.\<close>

definition recon_bytes :: "ave_sess_bufs \<Rightarrow> u64 list" where
  "recon_bytes b =
     (let cw = ave_mb_align (sc_width (sb_cfg b)); ch = ave_mb_align (sc_height (sb_cfg b));
          luma = ucast cw * ucast ch
      in [luma, luma div 2, luma, luma div 2, ucast (cw div AVE_MB_SIZE) * ucast (ch div AVE_MB_SIZE) * 1024])"

definition recon_total :: "ave_sess_bufs \<Rightarrow> u64" where
  "recon_total b =
     (let cw = ave_mb_align (sc_width (sb_cfg b)); ch = ave_mb_align (sc_height (sb_cfg b))
      in ucast cw * ucast ch * 3 + ucast (cw div AVE_MB_SIZE) * ucast (ch div AVE_MB_SIZE) * 1024 + 0x10000)"

fun arena_takes :: "ave_sess_arena \<Rightarrow> u64 list \<Rightarrow> u64 list option" where
  "arena_takes a [] = Some []"
| "arena_takes a (n # ns) =
     (case ave_sess_arena_take a n of
        None \<Rightarrow> None
      | Some (r, a') \<Rightarrow> (case arena_takes a' ns of None \<Rightarrow> None | Some rs \<Rightarrow> Some (r # rs)))"

definition proc_recon :: "sess_env \<Rightarrow> u64 list sess" where
  "proc_recon en =
     s_bind (s_get st_bufs) (\<lambda>b.
     s_bind (case sb_pic_recon b of
               Some a \<Rightarrow> s_ret a
             | None \<Rightarrow>
                 s_bind (s_dma_alloc en (recon_total b)) (\<lambda>r.
                   case r of
                     None \<Rightarrow> s_err ENOMEM
                   | Some iova \<Rightarrow>
                       let a = \<lparr>ar_iova = iova, ar_size = recon_total b, ar_used = 0\<rparr>
                       in s_then (s_bufs (\<lambda>b. b\<lparr>sb_pic_recon := Some a\<rparr>)) (s_ret a))) (\<lambda>a.
     case arena_takes (a\<lparr>ar_used := 0\<rparr>) (recon_bytes b) of
       None \<Rightarrow> s_err ENOMEM
     | Some rs \<Rightarrow> s_ret rs))"

text \<open>The command buffer of the slot: its offset in FwIPC and its IOVA.\<close>

definition proc_cmd_buf :: "sess_env \<Rightarrow> nat \<Rightarrow> nat \<Rightarrow> (nat \<times> u64) sess" where
  "proc_cmd_buf en idx cmd_len =
     s_bind (s_get st_bufs) (\<lambda>b.
     case sb_proc_cmd b ! idx of
       (Some cpu, iova) \<Rightarrow> s_ret (cpu, iova)
     | (None, _) \<Rightarrow>
         s_bind (s_ipc_alloc en cmd_len) (\<lambda>r.
           case r of
             None \<Rightarrow> s_err ENOMEM
           | Some cpu \<Rightarrow>
               s_bind (s_get (\<lambda>s. ave_ipc_cpu_to_iova (st_dev s) cpu)) (\<lambda>iova.
               s_then (s_bufs (\<lambda>b. b\<lparr>sb_proc_cmd := (sb_proc_cmd b)[idx := (Some cpu, iova)]\<rparr>))
               (s_ret (cpu, iova)))))"

text \<open>\<open>None\<close> is the \<open>type\<close> -1: the default.\<close>

definition proc_frame_type :: "sess_env \<Rightarrow> ave_sess_bufs \<Rightarrow> u32 \<Rightarrow> u32 option \<Rightarrow> u32" where
  "proc_frame_type en b n t =
     (let ft = (case t of
                  Some t \<Rightarrow> t
                | None \<Rightarrow>
                    if en_ftype5 en \<and> \<not> sess_hevc b then AVE_FRAME_TYPE_AUTO
                    else if sb_force_idr b then AVE_FRAME_TYPE_IDR
                    else if n \<noteq> 0 then AVE_FRAME_TYPE_P else en_frame_type en)
      in if sess_hevc b \<and> ft = AVE_FRAME_TYPE_P \<and> sl_hevc_refs (sb_lat b) = 0 then AVE_FRAME_TYPE_IDR else ft)"

definition tab_fun :: "u64 list list \<Rightarrow> nat \<Rightarrow> nat \<Rightarrow> u64" where
  "tab_fun tab i j = (if i < length tab \<and> j < length (tab ! i) then tab ! i ! j else 0)"

definition src_dims :: "sess_env \<Rightarrow> ave_sess_bufs \<Rightarrow> u32 \<Rightarrow> u32" where
  "src_dims en b i =
     (let mode = (if en_src_dims en \<noteq> 0 then en_src_dims en else if en_soc_src_dims en then 1 else 3);
          w = sc_width (sb_cfg b); h = sc_height (sb_cfg b)
      in if mode = 1 then (if i = 0 then w else h)
         else if mode = 2 then (if i = 0 then ave_mb_align w else ave_mb_align h)
         else 0)"

text \<open>The frame's parameters. \<open>ft\<close> and \<open>stats\<close> are what the final pass of a multi-pass session may
  have changed.\<close>

definition proc_frame ::
  "sess_env \<Rightarrow> ave_sess_bufs \<Rightarrow> u32 \<Rightarrow> nat \<Rightarrow> u32 \<Rightarrow> u64 \<Rightarrow> u32 \<Rightarrow> src_planes \<Rightarrow> u64 list \<Rightarrow> ave_avc_frame" where
  "proc_frame en b n idx ft stats stride r recon =
     (let hevc = sess_hevc b; pa = ab_process_avc (en_abi en); c = sb_coded b ! idx; e = sb_entropy b; nb = sb_nbr b;
          nbr = (sn_n_nbr nb \<noteq> 0 \<and> pa_src_nbr_max pa \<noteq> 0)
      in \<lparr>fr_frame_type = ft, fr_direct_spatial = en_direct_spatial en,
          fr_macos = (if hevc then 0 else ucast (sl_macos (sb_lat b))), fr_frame_num = ucast n, fr_poc = 0,
          fr_frame_rate = 0, fr_in_luma_addr = sr_luma_iova r, fr_in_luma_stride = stride,
          fr_in_luma_size = sr_luma_bytes r, fr_in_chroma_addr = sr_chroma_iova r, fr_in_chroma_stride = stride,
          fr_in_dims = src_dims en b, fr_mp_stats_in_addr = stats, fr_in_chroma_size = sr_chroma_bytes r,
          fr_coded_index = of_nat idx, fr_coded_addr = sf_iova c, fr_coded_hdr_addr = sf_iova (sb_coded_hdr b ! idx),
          fr_coded_size = sf_size c, fr_recon_luma_addr = recon ! 0, fr_recon_chroma_addr = recon ! 1,
          fr_recon_mv_addr = recon ! 4, fr_recon_luma_lsb_addr = recon ! 2, fr_recon_chroma_lsb_addr = recon ! 3,
          fr_ctx_index = 0, fr_force_key_frame = (ft = AVE_FRAME_TYPE_IDR), fr_force_non_ref = False,
          fr_update_param_sets = False,
          fr_low_res_src_addr = (if pa_low_res_src pa \<noteq> AVE_OFF_NONE then snd (sd_dpb (sb_dpb b) ! 0) else 0),
          fr_entropy = (\<lambda>i j. if se_n e \<noteq> 0 then tab_fun (se_entropy e) (unat i) (unat j) else 0),
          fr_n_entropy = se_n e,
          fr_n_entropy_cols = (if se_n e = 0 then 0
                               else if \<not> hevc \<and> bit (sl_macos (sb_lat b)) (unat AVE_MACOS_G_BUFS) then 1 else se_cols e),
          fr_src_nbr = (\<lambda>i j. if nbr then tab_fun (sn_nbr nb) i (unat j) else 0),
          fr_n_src_nbr = (if nbr then min (sn_n_nbr nb) (pa_src_nbr_max pa) else 0),
          fr_scratch = (\<lambda>_. 0), fr_n_scratch = 0\<rparr>)"

definition clear_surface :: "'a surface_scheme \<Rightarrow> 'a surface_scheme" where
  "clear_surface sf = sf\<lparr>sf_cpu := map_option (\<lambda>m. replicate (length m) 0) (sf_cpu sf)\<rparr>"

text \<open>\<open>memset\<close> of the coded header, which must be there.\<close>

definition clear_hdr :: "nat \<Rightarrow> unit sess" where
  "clear_hdr idx s =
     (let b = st_bufs s
      in if sf_cpu (sb_coded_hdr b ! idx) = None \<and> sf_size (sb_coded_hdr b ! idx) \<noteq> 0 then (Fault, s)
         else (Ok (), s\<lparr>st_bufs := b\<lparr>sb_coded_hdr := (sb_coded_hdr b)[idx := clear_surface (sb_coded_hdr b ! idx)]\<rparr>\<rparr>))"

text \<open>The final pass: its input, and the type the firmware chooses.\<close>

definition proc_mp :: "nat \<Rightarrow> u32 \<Rightarrow> u32 \<Rightarrow> (u32 \<times> u64) sess" where
  "proc_mp idx n ft =
     s_bind (s_get st_bufs) (\<lambda>b.
       if sl_mp_pass (sb_lat b) \<noteq> 2 then s_ret (ft, 0)
       else s_bind (s_lift (\<lambda>s. ave_mp_fill_input (st_lab s) (fst (sb_mp_in b ! idx)) n)) (\<lambda>d.
            case d of
              None \<Rightarrow> s_err EINVAL
            | Some d \<Rightarrow>
                s_then (s_bufs (\<lambda>b. b\<lparr>sb_mp_in := (sb_mp_in b)[idx := (Some d, snd (sb_mp_in b ! idx))]\<rparr>))
                (s_then (s_fail_if (snd (sb_mp_in b ! idx) = 0) EINVAL)
                (s_ret (AVE_FRAME_TYPE_AUTO, snd (sb_mp_in b ! idx))))))"

text \<open>Running a builder on a command buffer in FwIPC.\<close>

definition s_build :: "nat \<Rightarrow> nat \<Rightarrow> (u8 list \<Rightarrow> cmd_result) \<Rightarrow> unit sess" where
  "s_build cpu len build s =
     (let d = st_dev s; (r, buf) = build (peek (ipc_mem d) cpu len)
      in (case r of Inl e \<Rightarrow> Err e | Inr _ \<Rightarrow> Ok (), s\<lparr>st_dev := d\<lparr>ipc_mem := poke (ipc_mem d) cpu buf\<rparr>\<rparr>))"

definition cmd_ctx :: "u64 \<Rightarrow> u64 \<Rightarrow> bool \<Rightarrow> ave_cmd_ctx" where
  "cmd_ctx count client_id hevc =
     \<lparr>cx_count = count, cx_client_id = client_id, cx_timeout = (\<lambda>_. 0), cx_hevc = hevc\<rparr>"

definition hevc_frame_of :: "ave_sess_bufs \<Rightarrow> u32 \<Rightarrow> nat \<Rightarrow> ave_avc_frame \<Rightarrow> ave_hevc_frame" where
  "hevc_frame_of b n idx f =
     \<lparr>hf_pic = f,
      hf_poc_lsb = (if fr_frame_type f = AVE_FRAME_TYPE_IDR then 0
                    else (n - sl_last_idr (sb_lat b)) AND sl_hevc_poc_mask (sb_lat b)),
      hf_sao = sl_hevc_sao (sb_lat b), hf_hdr_slot_base = sf_iova (sb_slice_hdr b ! idx),
      hf_hdr_slot_size = sf_size (sb_slice_hdr b ! idx), hf_single_xc = sl_hevc_single_xc (sb_lat b),
      hf_bframes = sl_hevc_bframes (sb_lat b)\<rparr>"

definition set_last_idr :: "u32 \<Rightarrow> ave_sess_bufs \<Rightarrow> ave_sess_bufs" where
  "set_last_idr n b = b\<lparr>sb_lat := (sb_lat b)\<lparr>sl_last_idr := n\<rparr>\<rparr>"

definition proc_build_cmd ::
  "sess_env \<Rightarrow> u64 \<Rightarrow> u32 \<Rightarrow> nat \<Rightarrow> nat \<Rightarrow> nat \<Rightarrow> ave_avc_frame \<Rightarrow> unit sess" where
  "proc_build_cmd en client_id n idx cpu len f =
     (let ctx = cmd_ctx (ucast (4 + n)) client_id False; slot = AVE_SESS_PROCESS_SLOT + of_nat idx
      in s_bind (s_get st_bufs) (\<lambda>b.
         if sess_hevc b
         then s_then (s_bufs (\<lambda>b. if fr_frame_type f = AVE_FRAME_TYPE_IDR then set_last_idr n b else b))
              (s_bind (s_get st_bufs) (\<lambda>b.
               s_then (s_bufs (\<lambda>b. b\<lparr>sb_slice_hdr := (sb_slice_hdr b)[idx := clear_surface (sb_slice_hdr b ! idx)]\<rparr>))
               (s_build cpu len (\<lambda>buf. ave_cmd_build_process_hevc (en_abi en) buf ctx slot (hevc_frame_of b n idx f)))))
         else s_build cpu len (\<lambda>buf. ave_cmd_build_process_avc (en_abi en) buf ctx slot f)))"

definition proc_index :: "ave_sess_bufs \<Rightarrow> u32 \<Rightarrow> nat" where
  "proc_index b n = (if sb_n_coded b \<noteq> 0 then unat (n mod sb_n_coded b) else 0)"

definition ave_session_process_build ::
  "sess_env \<Rightarrow> errno option \<Rightarrow> u64 \<Rightarrow> u32 \<Rightarrow> u32 option \<Rightarrow> ave_sess_job sess" where
  "ave_session_process_build en dart client_id n t =
     s_bind (s_get st_bufs) (\<lambda>b0.
       let idx = proc_index b0 n; op = (if sess_hevc b0 then AVE_OP_PROCESS_HEVC else AVE_OP_PROCESS_AVC);
           len = ave_cmd_size (en_abi en) op
       in s_then (s_fail_if (sb_n_coded b0 = 0 \<or> sf_cpu (sb_coded b0 ! idx) = None) EINVAL)
          (s_bind (proc_source en idx) (\<lambda>(stride, r).
           s_bind (proc_recon en) (\<lambda>recon.
           s_bind (proc_cmd_buf en idx len) (\<lambda>(cpu, iova).
           s_then (clear_hdr idx)
          (s_bind (proc_mp idx n (proc_frame_type en b0 n t)) (\<lambda>(ft, stats).
           s_bind (s_get (\<lambda>s. proc_frame en (st_bufs s) n idx ft stats stride r recon)) (\<lambda>f.
           s_then (proc_build_cmd en client_id n idx cpu len f)
          (s_then (case dart of Some e \<Rightarrow> s_fail_if (\<not> en_ignore_dart en) e | None \<Rightarrow> s_ret ())
          (s_ret \<lparr>jb_n = n, jb_idx = idx, jb_frame_type = ft, jb_cmd_iova = iova, jb_cmd_len = len\<rparr>))))))))))"

section \<open>A completed frame\<close>

text \<open>The NAL type of the first slice header, when it lies in the surface of this slot.\<close>

definition first_header_nal :: "ave_sess_bufs \<Rightarrow> nat \<Rightarrow> ave_coded_info \<Rightarrow> u8 option cres" where
  "first_header_nal b idx i =
     (case ci_slice i of
        [] \<Rightarrow> Ok None
      | e # _ \<Rightarrow>
          let s = sb_slice_hdr b ! idx; off = unat (cs_hdr_iova e - sf_iova s)
          in if cs_hdr_iova e < sf_iova s \<or> cs_hdr_iova e - sf_iova s + ucast (cs_hdr_len e) > ucast (sf_size s)
             then Ok None
             else case sf_cpu s of
                    None \<Rightarrow> if unat (cs_hdr_len e) < 6 then Ok None else Fault
                  | Some m \<Rightarrow> ave_session_hevc_nal_type (drop off m) (unat (cs_hdr_len e)))"

text \<open>The type a completed frame counts as: an IDR the firmware made of another frame (HEVC), the type the
  firmware chose itself (H.264).\<close>

definition result_type :: "bool \<Rightarrow> u32 \<Rightarrow> u8 option \<Rightarrow> u32 \<Rightarrow> u32" where
  "result_type hevc sent nal returned =
     (if hevc then (if sent \<noteq> AVE_FRAME_TYPE_IDR \<and> nal \<in> {Some 19, Some 20} then AVE_FRAME_TYPE_IDR else sent)
      else if sent = AVE_FRAME_TYPE_AUTO \<and> returned \<ge> 1 \<and> returned \<le> AVE_FRAME_TYPE_IDR then returned else sent)"

text \<open>The macroblock counters, which are read for the log.\<close>

definition mb_counts :: "ave_cmd_abi \<Rightarrow> u8 list option \<Rightarrow> unit cres" where
  "mb_counts abi hdr =
     (let c = ab_coded_hdr abi
      in cbind (cpu_bytes hdr (unat (dh_i_mb_cnt c)) 16) (\<lambda>_.
         cbind (cpu_bytes hdr (unat (dh_p_mb_cnt c)) 16) (\<lambda>_.
         cbind (cpu_bytes hdr (unat (dh_skip_mb_cnt c)) 16) (\<lambda>_. Ok ()))))"

definition result_psets_len :: "ave_sess_bufs \<Rightarrow> ave_coded_info \<Rightarrow> nat" where
  "result_psets_len b i =
     (let n = unat (ci_sps_pps_bits i div 8)
      in if n = 0 \<or> n > unat (sb_psets_size b)
         then (case sb_psets_cpu b of None \<Rightarrow> 0 | Some m \<Rightarrow> ave_session_psets_len m) else n)"

definition coded_of :: "ave_coded_info \<Rightarrow> coded_out \<Rightarrow> coded_out" where
  "coded_of i c =
     c\<lparr>co_len := ci_bytes i, co_span := ci_span i, co_cabac_zero_words := ci_cabac_zero_words i,
       co_slice := take AVE_CODED_SLICE_MAX (ci_slice i)\<rparr>"

definition read_coded_hdr :: "sess_env \<Rightarrow> nat \<Rightarrow> ave_coded_info sess" where
  "read_coded_hdr en idx =
     s_bind (s_lift (\<lambda>s.
       let b = st_bufs s
       in ave_cmd_coded_length_codec (en_abi en) (case sf_cpu (sb_coded_hdr b ! idx) of None \<Rightarrow> [] | Some m \<Rightarrow> m)
            (sf_size (sb_coded b ! idx)) (sess_hevc b) (ph_hdr_slot_bytes (ab_process_hevc (en_abi en))))) (\<lambda>i.
     s_then (s_bufs (\<lambda>b. b\<lparr>sb_coded_info := i\<rparr>)) (s_ret i))"

definition keep_mp_record :: "nat \<Rightarrow> u32 \<Rightarrow> unit sess" where
  "keep_mp_record idx n s =
     (if \<not> sl_mp_rec (sb_lat (st_bufs s)) then (Ok (), s)
      else case ave_mp_keep_record (sf_cpu (sb_coded_hdr (st_bufs s) ! idx)) n (st_lab s) of
             Ok l \<Rightarrow> (Ok (), s\<lparr>st_lab := l\<rparr>) | Err e \<Rightarrow> (Err e, s) | Fault \<Rightarrow> (Fault, s))"

definition append_frame :: "sess_env \<Rightarrow> nat \<Rightarrow> bool \<Rightarrow> unit sess" where
  "append_frame en idx key s =
     (case ave_sess_stream_append (en_vm en) (st_bufs s) idx key of
        Ok b \<Rightarrow> (Ok (), s\<lparr>st_bufs := b\<rparr>) | Err e \<Rightarrow> (Err e, s) | Fault \<Rightarrow> (Fault, s))"

text \<open>The tests behind the header, in order, and the frame that passes them.\<close>

definition result_store :: "sess_env \<Rightarrow> ave_sess_job \<Rightarrow> ave_coded_info \<Rightarrow> u8 option \<Rightarrow> unit sess" where
  "result_store en job i nal s =
     (let n = jb_n job; idx = jb_idx job; b = st_bufs s;
          ft = result_type (sess_hevc b) (jb_frame_type job) nal (ci_frame_type i);
          idr = (if ft = AVE_FRAME_TYPE_IDR \<and> jb_frame_type job \<noteq> AVE_FRAME_TYPE_IDR then set_last_idr n b else b)
      in if ci_frame_type i = AVE135_FRAME_TYPE_DROPPED
         then (Err ENODATA, s\<lparr>st_bufs := if sess_hevc b then idr else b\<rparr>)
         else case mb_counts (en_abi en) (sf_cpu (sb_coded_hdr b ! idx)) of
                Ok _ \<Rightarrow>
                  if ci_bytes i = 0 then (Err ENODATA, s\<lparr>st_bufs := idr\<rparr>)
                  else if ci_bytes i - ci_hdr_bytes i > sf_size (sb_coded b ! idx) then (Err EPROTO, s\<lparr>st_bufs := idr\<rparr>)
                  else append_frame en idx (ft = AVE_FRAME_TYPE_IDR)
                         (s\<lparr>st_bufs := idr\<lparr>sb_coded := (sb_coded b)[idx := coded_of i (sb_coded b ! idx)],
                                         sb_psets_len := of_nat (result_psets_len b i), sb_n_done := n + 1,
                                         sb_coded_type := ft\<rparr>\<rparr>)
              | _ \<Rightarrow> (Fault, s))"

definition ave_session_process_result :: "sess_env \<Rightarrow> ave_sess_job \<Rightarrow> unit sess" where
  "ave_session_process_result en job =
     s_bind (read_coded_hdr en (jb_idx job)) (\<lambda>i.
     s_then (keep_mp_record (jb_idx job) (jb_n job))
    (s_bind (s_lift (\<lambda>s. if sess_hevc (st_bufs s) then first_header_nal (st_bufs s) (jb_idx job) i else Ok None)) (\<lambda>nal.
       result_store en job i nal)))"

section \<open>The exchange\<close>

text \<open>What happens while a command waits.\<close>

record cmd_env =
  ce_dev :: "env_act list"
  ce_surf :: "surf_act list"

definition s_cmd :: "sess_env \<Rightarrow> cmd_env \<Rightarrow> ave_op \<Rightarrow> u64 \<Rightarrow> nat \<Rightarrow> u64 \<Rightarrow> unit sess" where
  "s_cmd en ce op iova len client_id s =
     (case ave_session_cmd (en_gp en) (en_abi en) op (ce_dev ce) iova (of_nat len) client_id (st_dev s, st_rx s) of
        (r, d, rx) \<Rightarrow> (r, s\<lparr>st_dev := d, st_rx := rx, st_bufs := surf_run (ce_surf ce) (st_bufs s)\<rparr>))"

definition proc_op :: "ave_sess_bufs \<Rightarrow> ave_op" where
  "proc_op b = (if sess_hevc b then AVE_OP_PROCESS_HEVC else AVE_OP_PROCESS_AVC)"

definition ave_session_process :: "sess_env \<Rightarrow> errno option \<Rightarrow> cmd_env \<Rightarrow> u64 \<Rightarrow> u32 \<Rightarrow> unit sess" where
  "ave_session_process en dart ce client_id n =
     s_bind (ave_session_process_build en dart client_id n None) (\<lambda>job.
     s_bind (s_get (\<lambda>s. proc_op (st_bufs s))) (\<lambda>op.
     s_then (s_cmd en ce op (jb_cmd_iova job) (jb_cmd_len job) client_id)
     (ave_session_process_result en job)))"

section \<open>A batch\<close>

record enc_frame =
  ef_fn :: u32
  ef_type :: u32
  ef_luma :: u64
  ef_chroma :: u64
  ef_stride :: u32

text \<open>What happens after each send, and during each wait.\<close>

record batch_env =
  be_send :: "nat \<Rightarrow> cmd_env"
  be_wait :: "nat \<Rightarrow> cmd_env"
  be_dart :: "nat \<Rightarrow> errno option"

definition s_run :: "sess_env \<Rightarrow> cmd_env \<Rightarrow> unit sess" where
  "s_run en ce s =
     (case rx_run (en_gp en) (ce_dev ce) (st_dev s, st_rx s) of
        (d, rx) \<Rightarrow> (Ok (), s\<lparr>st_dev := d, st_rx := rx, st_bufs := surf_run (ce_surf ce) (st_bufs s)\<rparr>))"

definition set_ext :: "enc_frame option \<Rightarrow> ave_sess_bufs \<Rightarrow> ave_sess_bufs" where
  "set_ext e b =
     (case e of
        None \<Rightarrow> b
      | Some f \<Rightarrow> b\<lparr>sb_ext_src := True, sb_ext_luma := ef_luma f, sb_ext_chroma := ef_chroma f, sb_ext_stride := ef_stride f\<rparr>)"

text \<open>\<open>ext_src\<close> is off again after the build, whatever the build returns.\<close>

definition batch_build_one ::
  "sess_env \<Rightarrow> batch_env \<Rightarrow> u64 \<Rightarrow> nat \<Rightarrow> u32 \<times> u32 option \<Rightarrow> enc_frame option \<Rightarrow> ave_sess_job sess" where
  "batch_build_one en be client_id k f e s =
     (case ave_session_process_build en (be_dart be k) client_id (fst f) (snd f)
             (s\<lparr>st_bufs := set_ext e (st_bufs s)\<rparr>) of
        (r, s') \<Rightarrow> (r, s'\<lparr>st_bufs := (st_bufs s')\<lparr>sb_ext_src := False\<rparr>\<rparr>))"

fun batch_build ::
  "sess_env \<Rightarrow> batch_env \<Rightarrow> u64 \<Rightarrow> (u32 \<times> u32 option) list \<Rightarrow> enc_frame list option \<Rightarrow> ave_sess_job list \<Rightarrow>
     ave_sess_job list sess" where
  "batch_build en be client_id [] ext jobs = s_ret jobs"
| "batch_build en be client_id (f # fs) ext jobs =
     s_bind (batch_build_one en be client_id (length jobs) f (map_option (\<lambda>x. x ! length jobs) ext)) (\<lambda>job.
     s_then (s_fail_if (jb_idx job \<in> set (map jb_idx jobs)) EINVAL)
     (batch_build en be client_id fs ext (jobs @ [job])))"

text \<open>The sends: how many went out, and the error that ended them.\<close>

fun batch_send :: "sess_env \<Rightarrow> batch_env \<Rightarrow> ave_sess_job list \<Rightarrow> nat \<Rightarrow> (nat \<times> errno option) sess" where
  "batch_send en be [] k = s_ret (k, None)"
| "batch_send en be (j # js) k =
     s_bind (\<lambda>s. case ave_ipc_send AVE_CH_IO (jb_cmd_iova j) (of_nat (jb_cmd_len j)) 0 (st_dev s) of
                  (e, d) \<Rightarrow> (Ok e, s\<lparr>st_dev := d\<rparr>)) (\<lambda>e.
       case e of
         Some e \<Rightarrow> s_ret (k, Some e)
       | None \<Rightarrow> s_then (s_run en (be_send be k)) (batch_send en be js (Suc k)))"

definition find_job :: "u32 \<Rightarrow> ave_sess_job list \<Rightarrow> nat list \<Rightarrow> nat option" where
  "find_job sn jobs done =
     find (\<lambda>j. j \<notin> set done \<and> AVE_SESS_PROCESS_SLOT + of_nat (jb_idx (jobs ! j)) = sn) [0..<length jobs]"

text \<open>The message of completion \<open>k\<close>, and the slot it names.\<close>

definition batch_reply :: "ave_sess_rx \<Rightarrow> nat \<Rightarrow> u8 list" where
  "batch_reply rx k = take (unat (rx_qsize rx ! k)) (rx_qbuf rx ! k)"

definition reply_slot :: "u8 list \<Rightarrow> u32" where
  "reply_slot msg = (if length msg \<ge> 0x20 then get_le32 msg 0x1c else 0)"

definition batch_wait :: "sess_env \<Rightarrow> batch_env \<Rightarrow> ave_op \<Rightarrow> u64 \<Rightarrow> nat \<Rightarrow> u8 list sess" where
  "batch_wait en be op client_id k =
     s_then (s_run en (be_wait be k))
    (s_bind (s_get st_rx) (\<lambda>rx.
     s_then (s_fail_if (rx_done rx = 0) ETIMEDOUT)
    (s_then (\<lambda>s. (Ok (), s\<lparr>st_rx := (st_rx s)\<lparr>rx_done := rx_done (st_rx s) - 1\<rparr>\<rparr>))
    (s_then (s_lift (\<lambda>s. case ave_cmd_check_reply (en_abi en) op (batch_reply rx k) client_id of
                            Ok (None, _) \<Rightarrow> Ok () | Ok (Some e, _) \<Rightarrow> Err e | Err e \<Rightarrow> Err e | Fault \<Rightarrow> Fault))
    (s_ret (batch_reply rx k))))))"

text \<open>One completion: its frame, the result path, the entry of \<open>bdone[]\<close>.\<close>

definition batch_collect_one ::
  "sess_env \<Rightarrow> batch_env \<Rightarrow> ave_op \<Rightarrow> u64 \<Rightarrow> ave_sess_job list \<Rightarrow> bool \<Rightarrow> nat list \<Rightarrow> nat sess" where
  "batch_collect_one en be op client_id jobs ext done =
     s_bind (batch_wait en be op client_id (length done)) (\<lambda>msg.
       case find_job (reply_slot msg) jobs done of
         None \<Rightarrow> s_err EPROTO
       | Some j \<Rightarrow>
           s_bind (s_get (\<lambda>s. of_nat (sb_stream_len (st_bufs s)) :: u32)) (\<lambda>start.
           s_then (ave_session_process_result en (jobs ! j))
          (s_bind (s_get st_bufs) (\<lambda>b.
           s_then (s_fail_if (ext \<and> ci_frame_num (sb_coded_info b) \<noteq> jb_n (jobs ! j)) EPROTO)
          (s_then (s_bufs (\<lambda>b. b\<lparr>sb_bdone := sb_bdone b @
              [\<lparr>bd_j = j, bd_off = start, bd_len = of_nat (sb_stream_len b) - start, bd_type = sb_coded_type b\<rparr>]\<rparr>))
          (s_ret j))))))"

fun batch_collect ::
  "sess_env \<Rightarrow> batch_env \<Rightarrow> ave_op \<Rightarrow> u64 \<Rightarrow> ave_sess_job list \<Rightarrow> bool \<Rightarrow> nat \<Rightarrow> nat list \<Rightarrow> unit sess" where
  "batch_collect en be op client_id jobs ext 0 done = s_ret ()"
| "batch_collect en be op client_id jobs ext (Suc n) done =
     s_bind (batch_collect_one en be op client_id jobs ext done) (\<lambda>j.
       batch_collect en be op client_id jobs ext n (done @ [j]))"

definition rx_batch_mode :: "u16 \<Rightarrow> ave_sess_rx \<Rightarrow> ave_sess_rx" where
  "rx_batch_mode want rx =
     rx\<lparr>rx_done := 0, rx_nq := 0, rx_other_id := 0, rx_other_count := 0, rx_ack_seen := False,
        rx_want_id := want, rx_batch := True\<rparr>"

text \<open>The commands are sent and what is in flight is collected. With nothing in flight the error of the
  send is the result; otherwise that of the last completion is.\<close>

definition batch_exchange ::
  "sess_env \<Rightarrow> batch_env \<Rightarrow> u64 \<Rightarrow> ave_sess_job list \<Rightarrow> bool \<Rightarrow> unit sess" where
  "batch_exchange en be client_id jobs ext =
     s_bind (s_get (\<lambda>s. proc_op (st_bufs s))) (\<lambda>op.
     s_then (\<lambda>s. (Ok (), s\<lparr>st_rx := rx_batch_mode (cd_reply_id (ab_cmd (en_abi en) op)) (st_rx s)\<rparr>))
    (s_bind (batch_send en be jobs 0) (\<lambda>(count, e).
       if count = 0 then (case e of None \<Rightarrow> s_ret () | Some e \<Rightarrow> s_err e)
       else batch_collect en be op client_id (take count jobs) ext count [])))"

definition ave_session_process_batch ::
  "sess_env \<Rightarrow> batch_env \<Rightarrow> u64 \<Rightarrow> (u32 \<times> u32 option) list \<Rightarrow> enc_frame list option \<Rightarrow> unit sess" where
  "ave_session_process_batch en be client_id fs ext =
     s_then (s_bufs (\<lambda>b. b\<lparr>sb_bdone := []\<rparr>))
    (s_bind (s_get st_bufs) (\<lambda>b.
     s_then (s_fail_if (fs = [] \<or> length fs > AVE_SESS_RX_Q \<or> length fs > unat (sb_n_coded b)) EINVAL)
    (s_bind (batch_build en be client_id fs ext []) (\<lambda>jobs s.
       case batch_exchange en be client_id jobs (ext \<noteq> None) s of
         (r, s') \<Rightarrow> (r, s'\<lparr>st_rx := (st_rx s')\<lparr>rx_batch := False\<rparr>\<rparr>)))))"

end
