(* ===== verification/Ave_Sess_Result.thy ===== *)
theory Ave_Sess_Result
  imports Ave_Sess_Process Ave_Sess_Append Ave_Sess_Cmd
begin

text \<open>
  What the result path of a frame guarantees, whatever the firmware left in the shared
  surfaces: no access outside a buffer, and a stream that grows by exactly the frame or not
  at all.
\<close>

section \<open>Steps\<close>

lemmas s_simps = s_ret_def s_err_def s_bind_def s_then_def s_fail_if_def s_bufs_def s_get_def s_lift_def

section \<open>The records of a multi-pass session\<close>

lemma keep_record_ok:
  assumes "lab_ok l" "ml_rec l \<noteq> None \<Longrightarrow> hdr = Some h \<and> AVE_MP_REC_OFF + AVE_MP_REC_SIZE \<le> length h"
  shows "\<exists>l'. ave_mp_keep_record hdr n l = Ok l' \<and> lab_ok l'"
proof (cases "unat n \<ge> AVE_MP_FRAMES_MAX \<or> ml_rec l = None")
  case False
  then obtain r where r: "ml_rec l = Some r" by auto
  have "length r = AVE_MP_FRAMES_MAX * AVE_MP_REC_SIZE" using assms(1) r by (simp add: lab_ok_def)
  moreover have "unat n * AVE_MP_REC_SIZE + AVE_MP_REC_SIZE \<le> AVE_MP_FRAMES_MAX * AVE_MP_REC_SIZE"
    using False by (metis Suc_leI add.commute mult_Suc mult_le_mono1 not_le)
  ultimately show ?thesis
    using False r assms by (auto simp: ave_mp_keep_record_def cpu_bytes_def rd_bytes_def wr_bytes_def lab_ok_def)
qed (use assms in \<open>auto simp: ave_mp_keep_record_def\<close>)

section \<open>What the path reads\<close>

text \<open>The header that the firmware left, as the reader of \<^verbatim>\<open>ave_cmd.c\<close> sees it.\<close>

definition hdr_info :: "sess_env \<Rightarrow> ave_sess_bufs \<Rightarrow> nat \<Rightarrow> ave_coded_info cres" where
  "hdr_info en b idx =
     ave_cmd_coded_length_codec (en_abi en) (case sf_cpu (sb_coded_hdr b ! idx) of None \<Rightarrow> [] | Some m \<Rightarrow> m)
       (sf_size (sb_coded b ! idx)) (sess_hevc b) (ph_hdr_slot_bytes (ab_process_hevc (en_abi en)))"

text \<open>A slot whose surfaces are there. \<open>slice_hdr\<close> never starts in the first page, and an IOVA leaves room
  above it: what the kernel's allocator promises.\<close>

definition slot_ok :: "ave_sess_bufs \<Rightarrow> nat \<Rightarrow> bool" where
  "slot_ok b idx \<longleftrightarrow> idx < AVE_SESS_FRAMES_MAX \<and> sf_cpu (sb_coded b ! idx) \<noteq> None
     \<and> unat (sf_size (sb_coded b ! idx)) < 2 ^ 31 \<and> 5 \<le> unat (sf_size (sb_coded b ! idx))
     \<and> (sess_hevc b \<longrightarrow> sf_cpu (sb_slice_hdr b ! idx) \<noteq> None \<and> 0x400 \<le> unat (sf_iova (sb_slice_hdr b ! idx)))
     \<and> (sl_mp_rec (sb_lat b) \<longrightarrow> (\<exists>h. sf_cpu (sb_coded_hdr b ! idx) = Some h \<and> AVE_MP_REC_OFF + AVE_MP_REC_SIZE \<le> length h))"

lemma hdr_info_13_5:
  assumes "known_abi (en_abi en)" "hdr_info en b idx = Ok i"
  shows "en_abi en = ave_cmd_abi_13_5 \<and> (\<exists>h. sf_cpu (sb_coded_hdr b ! idx) = Some h \<and> 0x22c60 \<le> length h)"
proof -
  have "en_abi en = ave_cmd_abi_13_5"
    using assms by (auto simp: known_abi_def hdr_info_def ave_cmd_coded_length_codec_def coded_hdr_26_6_fields)
  then show ?thesis
    using assms(2) by (cases "sf_cpu (sb_coded_hdr b ! idx)")
      (auto simp: hdr_info_def ave_cmd_coded_length_codec_def coded_hdr_13_5_fields Let_def split: if_splits)
qed

lemma hdr_info_facts:
  assumes "known_abi (en_abi en)" "hdr_info en b idx = Ok i" "sf_size (sb_coded b ! idx) \<noteq> 0"
  shows "length (ci_slice i) \<le> AVE_CODED_SLICE_MAX"
    "\<forall>e \<in> set (ci_slice i). unat (cs_off e) + unat (cs_len e) \<le> unat (sf_size (sb_coded b ! idx)) \<and> unat (cs_hdr_len e) \<le> 0x400"
    "unat (ci_bytes i) = sum_list (map (unat \<circ> cs_len) (ci_slice i)) + sum_list (map (unat \<circ> cs_hdr_len) (ci_slice i))"
proof -
  have abi: "en_abi en = ave_cmd_abi_13_5" using hdr_info_13_5 [OF assms(1,2)] by blast
  have slot: "unat (ph_hdr_slot_bytes (ab_process_hevc (en_abi en))) = 0x400"
    by (simp add: abi process_hevc_13_5_fields)
  have ne: "ph_hdr_slot_bytes (ab_process_hevc (en_abi en)) \<noteq> 0" using slot by auto
  note f = safe_Ok [OF coded_length_facts [OF assms(1)] assms(2) [unfolded hdr_info_def]]
  show "length (ci_slice i) \<le> AVE_CODED_SLICE_MAX"
    "unat (ci_bytes i) = sum_list (map (unat \<circ> cs_len) (ci_slice i)) + sum_list (map (unat \<circ> cs_hdr_len) (ci_slice i))"
    using f by simp_all
  have "ci_span i \<le> sf_size (sb_coded b ! idx)" using f assms(3) by simp
  then have "unat (ci_span i) \<le> unat (sf_size (sb_coded b ! idx))" by (simp add: word_le_nat_alt)
  moreover have "\<forall>s \<in> set (ci_slice i). unat (cs_off s) + unat (cs_len s) \<le> unat (ci_span i)"
    "\<forall>s \<in> set (ci_slice i). unat (cs_hdr_len s) \<le> 0x400" using f ne slot by simp_all
  ultimately show "\<forall>e \<in> set (ci_slice i). unat (cs_off e) + unat (cs_len e) \<le> unat (sf_size (sb_coded b ! idx)) \<and> unat (cs_hdr_len e) \<le> 0x400"
    by (meson order_trans)
qed

lemma hdr_info_safe: "known_abi (en_abi en) \<Longrightarrow> hdr_info en b idx \<noteq> Fault"
  unfolding hdr_info_def by (rule safe_no_fault [OF coded_length_facts])

lemma first_header_nal_ok:
  assumes "surf_ok (sb_slice_hdr b ! idx)" "0x400 \<le> unat (sf_iova (sb_slice_hdr b ! idx))"
    and "\<forall>e \<in> set (ci_slice i). unat (cs_hdr_len e) \<le> 0x400" "sf_cpu (sb_slice_hdr b ! idx) \<noteq> None"
  shows "\<exists>t. first_header_nal b idx i = Ok t"
proof (cases "ci_slice i")
  case (Cons e es)
  let ?s = "sb_slice_hdr b ! idx"
  show ?thesis
  proof (cases "cs_hdr_iova e < sf_iova ?s \<or> cs_hdr_iova e - sf_iova ?s + ucast (cs_hdr_len e) > ucast (sf_size ?s)")
    case False
    have "unat (cs_hdr_len e) \<le> unat (sf_iova ?s)" using assms(2,3) Cons by auto
    then have i: "unat (cs_hdr_iova e - sf_iova ?s) + unat (cs_hdr_len e) \<le> unat (sf_size ?s)"
      using False header_inside [of "cs_hdr_iova e" "sf_iova ?s" "sf_size ?s" "cs_hdr_len e"] by auto
    show ?thesis
    proof -
      obtain m where m: "sf_cpu ?s = Some m" using assms(4) by auto
      then have "length m = unat (sf_size ?s)" using assms(1) by (simp add: surf_ok_def)
      then show ?thesis
        using False m i by (auto simp: first_header_nal_def Cons Let_def ave_session_hevc_nal_type_def rd_bytes_def)
    qed
  qed (auto simp: first_header_nal_def Cons Let_def)
qed (simp add: first_header_nal_def)

lemma mb_counts_ok: "0x22c60 \<le> length h \<Longrightarrow> mb_counts ave_cmd_abi_13_5 (Some h) = Ok ()"
  by (simp add: mb_counts_def Let_def cpu_bytes_def rd_bytes_def coded_hdr_13_5_fields)

lemma psets_scan_le: "psets_scan m n \<le> n"
  by (induction n) auto

lemma result_psets_len_le:
  assumes "psets_ok (sb_psets_cpu b) (sb_psets_size b)"
  shows "result_psets_len b i \<le> unat (sb_psets_size b)"
  using assms psets_scan_le
  by (auto simp: result_psets_len_def Let_def ave_session_psets_len_def psets_ok_def not_less split: option.splits)

section \<open>The result\<close>

definition words_fit :: "sess_env \<Rightarrow> ave_sess_bufs \<Rightarrow> nat \<Rightarrow> bool" where
  "words_fit en b idx \<longleftrightarrow> (case hdr_info en b idx of Ok i \<Rightarrow> 3 * unat (ci_cabac_zero_words i) < 2 ^ 32 | _ \<Rightarrow> True)"

text \<open>The frame the result path stores before it appends it.\<close>

definition stored :: "ave_sess_bufs \<Rightarrow> u32 \<Rightarrow> nat \<Rightarrow> ave_coded_info \<Rightarrow> u32 \<Rightarrow> ave_sess_bufs" where
  "stored b n idx i ft = b\<lparr>sb_coded := (sb_coded b)[idx := coded_of i (sb_coded b ! idx)],
     sb_psets_len := of_nat (result_psets_len b i), sb_n_done := n + 1, sb_coded_type := ft\<rparr>"

lemma surf_ok_coded [simp]: "surf_ok (coded_of i c) = surf_ok c"
  by (simp add: surf_ok_def coded_of_def split: option.split)

lemma stored_ok:
  assumes "bufs_ok b"
  shows "bufs_ok (stored b n idx i ft)"
proof -
  have "\<forall>s \<in> set ((sb_coded b)[idx := coded_of i (sb_coded b ! idx)]). surf_ok s"
    using assms by (intro list_update_all) (auto simp: bufs_ok_def)
  moreover have "unat (of_nat (result_psets_len b i) :: u64) \<le> unat (sb_psets_size b)"
    using result_psets_len_le [of b i] assms unat_u32_bound [of "sb_psets_size b"]
    by (subst unat_of_nat_small) (simp_all add: bufs_ok_def)
  ultimately show ?thesis using assms by (simp add: bufs_ok_def stored_def)
qed

lemma stored_frame_ok:
  assumes "known_abi (en_abi en)" "bufs_ok b" "slot_ok b idx" "hdr_info en b idx = Ok i" "words_fit en b idx"
  shows "frame_ok (stored b n idx i ft) idx"
proof -
  have s: "idx < length (sb_coded b)" "sf_size (sb_coded b ! idx) \<noteq> 0" "unat (sf_size (sb_coded b ! idx)) < 2 ^ 31"
    using assms(2,3) by (auto simp: bufs_ok_def slot_ok_def)
  note f = hdr_info_facts [OF assms(1,4) s(2)]
  have "unat (cs_hdr_len e) + unat (cs_len e) < 2 ^ 32" if "e \<in> set (ci_slice i)" for e
    using f(2) that s(3) by fastforce
  moreover have "3 * unat (ci_cabac_zero_words i) < 2 ^ 32" using assms(4,5) by (simp add: words_fit_def)
  ultimately show ?thesis
    using s(1) assms(3) f(1,2)
    by (auto simp: frame_ok_def Let_def stored_def coded_of_def slot_ok_def sess_hevc_def dest!: in_set_takeD)
qed

text \<open>What an early return leaves of the session: the stream, the surfaces, the commands and the frames
  before this one.\<close>

definition same_stream :: "ave_sess_bufs \<Rightarrow> ave_sess_bufs \<Rightarrow> bool" where
  "same_stream b b' \<longleftrightarrow> sb_stream b' = sb_stream b \<and> sb_stream_len b' = sb_stream_len b \<and> sb_coded b' = sb_coded b
     \<and> sb_n_done b' = sb_n_done b"

lemma result_refused:
  assumes "hdr_info en (st_bufs s) (jb_idx job) = Err e"
  shows "ave_session_process_result en job s = (Err e, s)"
  using assms by (simp add: ave_session_process_result_def Let_def read_coded_hdr_def s_simps hdr_info_def)

text \<open>The parts of the state the path reads do not depend on what it changes.\<close>

lemma view_frame [simp]:
  "sess_hevc (b\<lparr>sb_coded_info := i\<rparr>) = sess_hevc b" "sess_hevc (set_last_idr n b) = sess_hevc b"
  "first_header_nal (b\<lparr>sb_coded_info := i\<rparr>) idx j = first_header_nal b idx j"
  by (simp_all add: sess_hevc_def set_last_idr_def first_header_nal_def split: list.split)

lemma bufs_ok_frame [simp]:
  "bufs_ok (b\<lparr>sb_coded_info := i\<rparr>) = bufs_ok b" "bufs_ok (set_last_idr n b) = bufs_ok b"
  by (simp_all add: bufs_ok_def set_last_idr_def)

text \<open>The state in which the frame is stored, once the header is read.\<close>

definition result_state :: "ave_sess_job \<Rightarrow> ave_coded_info \<Rightarrow> u32 \<Rightarrow> ave_sess_bufs \<Rightarrow> ave_sess_bufs" where
  "result_state job i ft b =
     (let b1 = b\<lparr>sb_coded_info := i\<rparr>
      in if ft = AVE_FRAME_TYPE_IDR \<and> jb_frame_type job \<noteq> AVE_FRAME_TYPE_IDR then set_last_idr (jb_n job) b1 else b1)"

lemma result_state_frame [simp]:
  "sess_hevc (result_state job i ft b) = sess_hevc b" "bufs_ok (result_state job i ft b) = bufs_ok b"
  "same_stream b (result_state job i ft b)" "stream_bytes (result_state job i ft b) = stream_bytes b"
  "sb_coded (result_state job i ft b) = sb_coded b"
  by (simp_all add: result_state_def Let_def same_stream_def stream_bytes_def) (simp_all add: set_last_idr_def)

lemma result_store_eq:
  assumes b: "st_bufs s = b\<lparr>sb_coded_info := i\<rparr>" and mb: "mb_counts (en_abi en) (sf_cpu (sb_coded_hdr b ! jb_idx job)) = Ok ()"
    and ft: "ft = result_type (sess_hevc b) (jb_frame_type job) nal (ci_frame_type i)"
  shows "result_store en job i nal s =
      (if ci_frame_type i = AVE135_FRAME_TYPE_DROPPED
       then (Err ENODATA, s\<lparr>st_bufs := (if sess_hevc b then result_state job i ft b else b\<lparr>sb_coded_info := i\<rparr>)\<rparr>)
       else if ci_bytes i = 0 then (Err ENODATA, s\<lparr>st_bufs := result_state job i ft b\<rparr>)
       else if ci_bytes i - ci_hdr_bytes i > sf_size (sb_coded b ! jb_idx job)
       then (Err EPROTO, s\<lparr>st_bufs := result_state job i ft b\<rparr>)
       else append_frame en (jb_idx job) (ft = AVE_FRAME_TYPE_IDR)
              (s\<lparr>st_bufs := stored (result_state job i ft b) (jb_n job) (jb_idx job) i ft\<rparr>))"
proof -
  have f: "result_type (sess_hevc (st_bufs s)) (jb_frame_type job) nal (ci_frame_type i) = ft" by (simp add: b ft)
  have r: "(if ft = AVE_FRAME_TYPE_IDR \<and> jb_frame_type job \<noteq> AVE_FRAME_TYPE_IDR then set_last_idr (jb_n job) (st_bufs s)
      else st_bufs s) = result_state job i ft b"
    unfolding b result_state_def Let_def ..
  have p: "result_psets_len (st_bufs s) i = result_psets_len (result_state job i ft b) i"
    by (simp add: b result_psets_len_def result_state_def Let_def set_last_idr_def)
  have v: "sb_coded (st_bufs s) = sb_coded b" "sb_coded_hdr (st_bufs s) = sb_coded_hdr b" "sess_hevc (st_bufs s) = sess_hevc b"
    by (simp_all add: b)
  show ?thesis
    unfolding result_store_def Let_def f unfolding r unfolding p v mb cres.case stored_def result_state_frame(5)
    unfolding b ..
qed

lemma result_accepted:
  fixes job
  defines "idx \<equiv> jb_idx job"
  assumes "known_abi (en_abi en)" "bufs_ok (st_bufs s)" "slot_ok (st_bufs s) idx" "lab_ok (st_lab s)"
    and i: "hdr_info en (st_bufs s) idx = Ok i"
  obtains ft l where "lab_ok l"
    "sess_hevc (st_bufs s) \<longrightarrow> (\<exists>nal. first_header_nal (st_bufs s) idx i = Ok nal \<and> ft = result_type True (jb_frame_type job) nal (ci_frame_type i))"
    "\<not> sess_hevc (st_bufs s) \<longrightarrow> ft = result_type False (jb_frame_type job) None (ci_frame_type i)"
    "ave_session_process_result en job s =
      (if ci_frame_type i = AVE135_FRAME_TYPE_DROPPED
       then (Err ENODATA, s\<lparr>st_lab := l,
                            st_bufs := (if sess_hevc (st_bufs s) then result_state job i ft (st_bufs s) else (st_bufs s)\<lparr>sb_coded_info := i\<rparr>)\<rparr>)
       else if ci_bytes i = 0 then (Err ENODATA, s\<lparr>st_lab := l, st_bufs := result_state job i ft (st_bufs s)\<rparr>)
       else if ci_bytes i - ci_hdr_bytes i > sf_size (sb_coded (st_bufs s) ! idx)
       then (Err EPROTO, s\<lparr>st_lab := l, st_bufs := result_state job i ft (st_bufs s)\<rparr>)
       else append_frame en idx (ft = AVE_FRAME_TYPE_IDR)
              (s\<lparr>st_lab := l, st_bufs := stored (result_state job i ft (st_bufs s)) (jb_n job) idx i ft\<rparr>))"
proof -
  let ?b = "(st_bufs s)\<lparr>sb_coded_info := i\<rparr>"
  let ?hdr = "sf_cpu (sb_coded_hdr (st_bufs s) ! idx)"
  obtain h where abi: "en_abi en = ave_cmd_abi_13_5" and h: "?hdr = Some h" "0x22c60 \<le> length h"
    using hdr_info_13_5 [OF assms(2) i] by blast
  have sz: "sf_size (sb_coded (st_bufs s) ! idx) \<noteq> 0" using assms(4) by (auto simp: slot_ok_def)
  note f = hdr_info_facts [OF assms(2) i sz]
  obtain l0 where l0: "ave_mp_keep_record ?hdr (jb_n job) (st_lab s) = Ok l0" "lab_ok l0"
    using keep_record_ok [OF assms(5), of ?hdr h "jb_n job"] h by (auto simp: mp_consts)
  define l where "l = (if sl_mp_rec (sb_lat (st_bufs s)) then l0 else st_lab s)"
  have lok: "lab_ok l" using l0(2) assms(5) by (simp add: l_def)
  have kr: "keep_mp_record idx (jb_n job) (s\<lparr>st_bufs := ?b\<rparr>) = (Ok (), s\<lparr>st_lab := l, st_bufs := ?b\<rparr>)"
    using l0 by (simp add: keep_mp_record_def l_def)
  have "idx < length (sb_slice_hdr (st_bufs s))" using assms(3,4) by (simp add: bufs_ok_def slot_ok_def)
  then have "surf_ok (sb_slice_hdr (st_bufs s) ! idx)" using assms(3) by (simp add: bufs_ok_def)
  then have "sess_hevc (st_bufs s) \<Longrightarrow> \<exists>t. first_header_nal (st_bufs s) idx i = Ok t"
    using first_header_nal_ok [of "st_bufs s" idx i] f(2) assms(4) by (auto simp: slot_ok_def)
  then obtain nal where nal: "sess_hevc (st_bufs s) \<Longrightarrow> first_header_nal (st_bufs s) idx i = Ok nal"
    "\<not> sess_hevc (st_bufs s) \<Longrightarrow> nal = None"
    by (cases "sess_hevc (st_bufs s)") auto
  define ft where "ft = result_type (sess_hevc (st_bufs s)) (jb_frame_type job) nal (ci_frame_type i)"
  have mb: "mb_counts (en_abi en) ?hdr = Ok ()" by (simp add: abi h mb_counts_ok)
  have rd: "read_coded_hdr en idx s = (Ok i, s\<lparr>st_bufs := ?b\<rparr>)"
    using i by (simp add: read_coded_hdr_def s_simps hdr_info_def)
  have "ave_session_process_result en job s = result_store en job i nal (s\<lparr>st_lab := l, st_bufs := ?b\<rparr>)"
    using nal by (cases "sess_hevc (st_bufs s)")
      (simp_all add: ave_session_process_result_def s_bind_def s_then_def rd kr s_lift_def flip: idx_def)
  moreover note result_store_eq [of "s\<lparr>st_lab := l, st_bufs := ?b\<rparr>" i "st_bufs s" en job ft nal, folded idx_def]
  ultimately show ?thesis
    using that [OF lok, of ft] nal mb by (cases "sess_hevc (st_bufs s)") (simp_all add: ft_def)
qed

section \<open>The stream after a frame\<close>

lemma commit_psets [simp]: "psets_bytes (stream_commit b st) = psets_bytes b"
  by (cases st) (simp add: psets_bytes_def stream_commit_def split: option.split)

lemma commit_frame [simp]:
  "frame_bytes (stream_commit b st) idx key = frame_bytes b idx key" "sb_coded (stream_commit b st) = sb_coded b"
  "sb_coded_info (stream_commit b st) = sb_coded_info b" "sb_coded_type (stream_commit b st) = sb_coded_type b"
  "sb_n_done (stream_commit b st) = sb_n_done b" "sb_bdone (stream_commit b st) = sb_bdone b"
  by (simp_all only: frame_bytes_def commit_psets) (simp_all add: stream_commit_def sess_hevc_def)

lemma commit_ok: "bufs_ok b \<Longrightarrow> stream_is st out \<Longrightarrow> bufs_ok (stream_commit b st)"
  by (simp add: bufs_ok_def stream_commit_def stream_is_def)

text \<open>Appending, for both codecs.\<close>

lemma append_frame_cases:
  assumes "vmalloc_ok (en_vm en)" "bufs_ok (st_bufs s)" "frame_ok (st_bufs s) idx" "append_frame en idx key s = (r, s')"
  shows "(\<exists>e. r = Err e \<and> s' = s)
    \<or> r = Ok () \<and> (\<exists>st. s' = s\<lparr>st_bufs := stream_commit (st_bufs s) st\<rparr> \<and> stream_is st (stream_bytes (st_bufs s) @ frame_bytes (st_bufs s) idx key))"
  using stream_append_avc [OF assms(1-3), of key] stream_append_hevc [OF assms(1-3), of key] assms(4)
  by (cases "sess_hevc (st_bufs s)") (auto simp: append_frame_def)

lemma stored_frame [simp]:
  "stream_bytes (stored b n idx i ft) = stream_bytes b" "sb_coded_info (stored b n idx i ft) = sb_coded_info b"
  "sb_coded_type (stored b n idx i ft) = ft" "sb_n_done (stored b n idx i ft) = n + 1" "sb_bdone (stored b n idx i ft) = sb_bdone b"
  by (simp_all add: stored_def stream_bytes_def)

lemma result_state_info [simp]:
  "sb_coded_info (result_state job i ft b) = i" "sb_bdone (result_state job i ft b) = sb_bdone b"
  by (simp_all add: result_state_def Let_def) (simp_all add: set_last_idr_def)

text \<open>What one frame adds to a session: \<open>frame_done\<close> is the success, \<open>frame_lost\<close> an error that leaves
  the stream as it was.\<close>

definition frame_done :: "sess_env \<Rightarrow> ave_sess_job \<Rightarrow> ave_sess_bufs \<Rightarrow> ave_sess_bufs \<Rightarrow> bool" where
  "frame_done en job b b' \<longleftrightarrow>
     (let idx = jb_idx job; i = sb_coded_info b'
      in hdr_info en b idx = Ok i \<and> ci_frame_type i \<noteq> AVE135_FRAME_TYPE_DROPPED \<and> ci_bytes i \<noteq> 0
       \<and> co_slice (sb_coded b' ! idx) = ci_slice i \<and> sb_n_done b' = jb_n job + 1
       \<and> stream_bytes b' = stream_bytes b @ frame_bytes b' idx (sb_coded_type b' = AVE_FRAME_TYPE_IDR))"

lemma hdr_info_state:
  "hdr_info en (result_state job i ft b) idx = hdr_info en b idx" "slot_ok (result_state job i ft b) idx = slot_ok b idx"
  by (simp_all add: hdr_info_def slot_ok_def) (simp_all add: result_state_def Let_def set_last_idr_def)

lemma sess_st_same: "\<exists>l b. s = s\<lparr>st_lab := l, st_bufs := b\<rparr>"
  by (rule exI [of _ "st_lab s"], rule exI [of _ "st_bufs s"]) simp

lemma process_result_cases:
  assumes "known_abi (en_abi en)" "vmalloc_ok (en_vm en)" "bufs_ok (st_bufs s)" "slot_ok (st_bufs s) (jb_idx job)"
    and "lab_ok (st_lab s)" "words_fit en (st_bufs s) (jb_idx job)"
    and "ave_session_process_result en job s = (r, s')"
  shows "bufs_ok (st_bufs s') \<and> lab_ok (st_lab s') \<and> sb_bdone (st_bufs s') = sb_bdone (st_bufs s)
    \<and> (\<exists>l b. s' = s\<lparr>st_lab := l, st_bufs := b\<rparr>)
    \<and> ((\<exists>e. r = Err e) \<and> stream_bytes (st_bufs s') = stream_bytes (st_bufs s)
       \<or> r = Ok () \<and> frame_done en job (st_bufs s) (st_bufs s'))"
proof (cases "hdr_info en (st_bufs s) (jb_idx job)")
  case (Err e)
  then show ?thesis
    using result_refused [OF Err] assms(3,5,7) sess_st_same [of s] by simp
next
  case Fault
  then show ?thesis using hdr_info_safe [OF assms(1)] by blast
next
  case (Ok i)
  obtain ft l where l: "lab_ok l" and run: "ave_session_process_result en job s =
      (if ci_frame_type i = AVE135_FRAME_TYPE_DROPPED
       then (Err ENODATA, s\<lparr>st_lab := l,
          st_bufs := (if sess_hevc (st_bufs s) then result_state job i ft (st_bufs s) else (st_bufs s)\<lparr>sb_coded_info := i\<rparr>)\<rparr>)
       else if ci_bytes i = 0 then (Err ENODATA, s\<lparr>st_lab := l, st_bufs := result_state job i ft (st_bufs s)\<rparr>)
       else if ci_bytes i - ci_hdr_bytes i > sf_size (sb_coded (st_bufs s) ! jb_idx job)
       then (Err EPROTO, s\<lparr>st_lab := l, st_bufs := result_state job i ft (st_bufs s)\<rparr>)
       else append_frame en (jb_idx job) (ft = AVE_FRAME_TYPE_IDR)
              (s\<lparr>st_lab := l, st_bufs := stored (result_state job i ft (st_bufs s)) (jb_n job) (jb_idx job) i ft\<rparr>))"
    using result_accepted [OF assms(1,3,4,5) Ok] by metis
  define b where "b = stored (result_state job i ft (st_bufs s)) (jb_n job) (jb_idx job) i ft"
  have sz: "sf_size (sb_coded (st_bufs s) ! jb_idx job) \<noteq> 0" using assms(4) by (auto simp: slot_ok_def)
  have len: "length (ci_slice i) \<le> AVE_CODED_SLICE_MAX" "jb_idx job < length (sb_coded (st_bufs s))"
    using hdr_info_facts(1) [OF assms(1) Ok sz] assms(3,4) by (simp_all add: slot_ok_def bufs_ok_def)
  have bok: "bufs_ok b" using assms(3) by (simp add: b_def stored_ok)
  have fok: "frame_ok b (jb_idx job)"
    unfolding b_def using assms Ok by (intro stored_frame_ok [where en = en]) (simp_all add: hdr_info_state words_fit_def)
  have sl: "co_slice (sb_coded b ! jb_idx job) = ci_slice i"
    using len by (simp add: b_def stored_def coded_of_def)
  show ?thesis
  proof (cases "ci_frame_type i = AVE135_FRAME_TYPE_DROPPED \<or> ci_bytes i = 0
      \<or> ci_bytes i - ci_hdr_bytes i > sf_size (sb_coded (st_bufs s) ! jb_idx job)")
    case True
    then obtain b' e where "r = Err e" "s' = s\<lparr>st_lab := l, st_bufs := b'\<rparr>"
      "b' \<in> {result_state job i ft (st_bufs s), (st_bufs s)\<lparr>sb_coded_info := i\<rparr>}"
      using run assms(7) by (auto split: if_splits)
    then show ?thesis using assms(3) l by (auto simp: stream_bytes_def [of "(st_bufs s)\<lparr>sb_coded_info := i\<rparr>"] stream_bytes_def [of "st_bufs s"])
  next
    case False
    then have a: "append_frame en (jb_idx job) (ft = AVE_FRAME_TYPE_IDR) (s\<lparr>st_lab := l, st_bufs := b\<rparr>) = (r, s')"
      using run assms(7) by (simp add: b_def)
    have sb: "stream_bytes b = stream_bytes (st_bufs s)" "sb_bdone b = sb_bdone (st_bufs s)" "sb_coded_info b = i"
      "sb_coded_type b = ft" "sb_n_done b = jb_n job + 1" by (simp_all add: b_def)
    have "(\<exists>e. r = Err e \<and> s' = s\<lparr>st_lab := l, st_bufs := b\<rparr>)
      \<or> r = Ok () \<and> (\<exists>st. s' = s\<lparr>st_lab := l, st_bufs := stream_commit b st\<rparr>
           \<and> stream_is st (stream_bytes b @ frame_bytes b (jb_idx job) (ft = AVE_FRAME_TYPE_IDR)))"
      using append_frame_cases [OF assms(2) _ _ a] bok fok by simp
    then show ?thesis
    proof (elim disjE exE conjE)
      fix e assume "r = Err e" "s' = s\<lparr>st_lab := l, st_bufs := b\<rparr>"
      then show ?thesis using bok l sb by auto
    next
      fix st assume r: "r = Ok ()" "s' = s\<lparr>st_lab := l, st_bufs := stream_commit b st\<rparr>"
        and st: "stream_is st (stream_bytes b @ frame_bytes b (jb_idx job) (ft = AVE_FRAME_TYPE_IDR))"
      have "frame_done en job (st_bufs s) (stream_commit b st)"
        using False Ok commit_bytes [OF st, of b] sl by (simp add: frame_done_def Let_def sb)
      then show ?thesis using r l sb commit_ok [OF bok st] by auto
    qed
  qed
qed

lemma hdr_info_words:
  assumes "known_abi (en_abi en)" "hdr_info en b idx = Ok i" "sf_cpu (sb_coded_hdr b ! idx) = Some h"
  shows "ci_cabac_zero_words i = (if sess_hevc b then 0 else get_le32 h 0xf0)"
proof -
  have "en_abi en = ave_cmd_abi_13_5" "0x22c60 \<le> length h" using hdr_info_13_5 [OF assms(1,2)] assms(3) by auto
  then show ?thesis
    using assms(2,3)
    by (auto simp: hdr_info_def ave_cmd_coded_length_codec_def coded_hdr_13_5_fields Let_def rd_le32_def layout_consts
        cbind_Ok split: if_splits)
qed

text \<open>C8. Taking in one completed frame never reads or writes outside a buffer, whatever the firmware left
  in the coded header, the coded buffer and the slice headers, with one exception: the three bytes for
  each CABAC zero word the header counts (none in HEVC) must not pass 32 bits in sum (\<open>words_fit\<close>). The
  code does not check that count, and with such a one the append overruns the stream
  (\<open>Ave_Sess_Append.cabac_words_overrun\<close>, a finding). The call either fails and leaves the output
  stream as it was, or it succeeds: the coded header was read as a frame of some bytes that was not
  dropped, and the stream has grown by exactly that frame, its slices and slice headers in order, with
  the parameter sets before a key frame. The session keeps its invariants, and its other frames.\<close>

theorem process_result_exact:
  assumes "known_abi (en_abi en)" "vmalloc_ok (en_vm en)" "bufs_ok (st_bufs s)" "slot_ok (st_bufs s) (jb_idx job)"
    and "lab_ok (st_lab s)" "words_fit en (st_bufs s) (jb_idx job)"
  shows "\<exists>r s'. ave_session_process_result en job s = (r, s') \<and> r \<noteq> Fault
    \<and> bufs_ok (st_bufs s') \<and> lab_ok (st_lab s') \<and> sb_bdone (st_bufs s') = sb_bdone (st_bufs s)
    \<and> (if r = Ok () then frame_done en job (st_bufs s) (st_bufs s')
       else stream_bytes (st_bufs s') = stream_bytes (st_bufs s))"
proof -
  obtain r s' where r: "ave_session_process_result en job s = (r, s')" by fastforce
  show ?thesis using process_result_cases [OF assms r] r by auto
qed

text \<open>A session with one slot, and in it a frame of one slice: 5 bytes written, 1 of them trailing.\<close>

definition example_hdr :: "u8 list" where
  "example_hdr = (replicate 0x22c60 0)[0x180 := 5, 0x38c := 1]"

definition example_bufs :: ave_sess_bufs where
  "example_bufs = fresh_bufs\<lparr>
     sb_coded := (replicate AVE_SESS_FRAMES_MAX no_coded)[0 := no_coded\<lparr>sf_cpu := Some [0, 0, 0, 1, 0x41, 0, 0, 0], sf_size := 8\<rparr>],
     sb_coded_hdr := (replicate AVE_SESS_FRAMES_MAX no_surface)[0 := no_surface\<lparr>sf_cpu := Some example_hdr, sf_size := 0x22c60\<rparr>]\<rparr>"

definition example_sess :: sess_st where
  "example_sess = \<lparr>st_dev = example_io, st_rx = fresh_rx, st_bufs = example_bufs, st_lab = fresh_lab,
     st_mcpu_created = True, st_client_codec = AVE_SESS_CODEC_AVC\<rparr>"

definition example_env :: sess_env where
  "example_env = \<lparr>en_gp = bump_pool 256, en_dma = (\<lambda>_ _. None), en_vm = (\<lambda>n. Some (replicate n 0)),
     en_abi = ave_cmd_abi_13_5, en_ftype5 = False, en_frame_type = AVE_FRAME_TYPE_P, en_direct_spatial = False,
     en_src_dims = 0, en_soc_src_dims = False, en_ignore_dart = False\<rparr>"

definition example_job :: ave_sess_job where
  "example_job = \<lparr>jb_n = 3, jb_idx = 0, jb_frame_type = AVE_FRAME_TYPE_P, jb_cmd_iova = 0, jb_cmd_len = 0\<rparr>"

lemma example_fields:
  "sb_coded example_bufs ! 0 = no_coded\<lparr>sf_cpu := Some [0, 0, 0, 1, 0x41, 0, 0, 0], sf_size := 8\<rparr>"
  "sf_cpu (sb_coded_hdr example_bufs ! 0) = Some example_hdr" "\<not> sess_hevc example_bufs"
  "\<not> sl_mp_rec (sb_lat example_bufs)" "stream_bytes example_bufs = []"
  by (simp_all add: example_bufs_def no_surface_def fresh_bufs_def sess_hevc_def zero_cfg_def zero_latched_def stream_bytes_def
      AVE_SESS_FRAMES_MAX_def AVE_SESS_CODEC_HEVC_def)

lemma example_hdr_len [simp]: "length example_hdr = 0x22c60" "get_le32 example_hdr 0xf0 = 0"
  by (simp_all add: example_hdr_def get_le32_def le32_of_def)

lemma example_bufs_ok: "bufs_ok example_bufs"
proof -
  have "\<forall>s \<in> set (sb_coded example_bufs). surf_ok s" "\<forall>s \<in> set (sb_coded_hdr example_bufs). surf_ok s"
    by (auto simp: example_bufs_def AVE_SESS_FRAMES_MAX_def surf_ok_def no_coded_def no_surface_def
        dest!: set_update_subset_insert [THEN subsetD])
  moreover have "bufs_ok fresh_bufs" by simp
  ultimately show ?thesis by (simp add: bufs_ok_def example_bufs_def)
qed

lemma example_sess_ok:
  "known_abi (en_abi example_env)" "vmalloc_ok (en_vm example_env)" "slot_ok example_bufs 0" "lab_ok fresh_lab"
  "words_fit example_env example_bufs 0"
proof -
  show "known_abi (en_abi example_env)" by (simp add: known_abi_def example_env_def)
  show "vmalloc_ok (en_vm example_env)" by (simp add: vmalloc_ok_def example_env_def)
  show "slot_ok example_bufs 0" by (simp add: slot_ok_def example_fields AVE_SESS_FRAMES_MAX_def)
  show "lab_ok fresh_lab" by (simp add: lab_ok_def fresh_lab_def tab_ok_def)
  show "words_fit example_env example_bufs 0"
    using hdr_info_words [of example_env example_bufs 0] \<open>known_abi (en_abi example_env)\<close>
    by (auto simp: words_fit_def example_fields split: cres.split)
qed

lemma process_result_exact_witness:
  "\<exists>r s'. ave_session_process_result example_env example_job example_sess = (r, s') \<and> r \<noteq> Fault
    \<and> (r = Ok () \<longrightarrow> stream_bytes (st_bufs s') = frame_bytes (st_bufs s') 0 (sb_coded_type (st_bufs s') = AVE_FRAME_TYPE_IDR))
    \<and> (r \<noteq> Ok () \<longrightarrow> stream_bytes (st_bufs s') = [])"
proof -
  have st: "st_bufs example_sess = example_bufs" "st_lab example_sess = fresh_lab" "jb_idx example_job = 0"
    by (simp_all add: example_sess_def example_job_def)
  show ?thesis
    using process_result_exact [of example_env example_sess example_job] example_sess_ok example_bufs_ok
    unfolding st by (auto simp: frame_done_def Let_def example_fields st split: if_splits)
qed

end
