(* ===== verification/Ave_Sess_Steps.thy ===== *)
theory Ave_Sess_Steps
  imports Ave_Sess_Process
begin

text \<open>
  Reasoning about the steps of a session. \<open>keeps R m\<close>: whatever the outcome of \<open>m\<close>, the states
  before and after are related by \<open>R\<close>; the locale \<open>sess_relation\<close> has the rules for every
  preorder \<open>R\<close>. \<open>triple P m Q E\<close>: from a state in \<open>P\<close>, the step never faults, ends in \<open>Q\<close>
  with its result, or in \<open>E\<close> with an error.
\<close>

section \<open>Steps that succeed\<close>

lemma s_bind_Ok: "s_bind m f s = (Ok y, s') \<longleftrightarrow> (\<exists>x s1. m s = (Ok x, s1) \<and> f x s1 = (Ok y, s'))"
  by (auto simp: s_bind_def split: prod.splits cres.splits)

lemma s_then_Ok: "s_then m f s = (Ok y, s') \<longleftrightarrow> (\<exists>x s1. m s = (Ok x, s1) \<and> f s1 = (Ok y, s'))"
  by (simp add: s_then_def s_bind_Ok)

lemma s_basic_Ok:
  "s_ret x s = (Ok y, s') \<longleftrightarrow> y = x \<and> s' = s" "s_err e s \<noteq> (Ok y1, s')"
  "s_fail_if c e s = (Ok y2, s') \<longleftrightarrow> \<not> c \<and> s' = s" "s_get g s = (Ok y3, s') \<longleftrightarrow> y3 = g s \<and> s' = s"
  "s_lift h s = (Ok y4, s') \<longleftrightarrow> h s = Ok y4 \<and> s' = s"
  by (auto simp: s_ret_def s_err_def s_fail_if_def s_get_def s_lift_def)

lemmas s_Ok = s_bind_Ok s_then_Ok s_basic_Ok

lemma s_bind_run:
  assumes "s_bind m f s = (r, s')"
  obtains (stop) q where "m s = (q, s')" "r \<noteq> Ok y" | (go) x s1 where "m s = (Ok x, s1)" "f x s1 = (r, s')"
  using assms by (auto simp: s_bind_def split: prod.splits cres.splits)

section \<open>Relations every outcome keeps\<close>

definition keeps :: "(sess_st \<Rightarrow> sess_st \<Rightarrow> bool) \<Rightarrow> 'a sess \<Rightarrow> bool" where
  "keeps R m \<longleftrightarrow> (\<forall>s. R s (snd (m s)))"

lemma keepsD: "keeps R m \<Longrightarrow> m s = (r, s') \<Longrightarrow> R s s'"
  unfolding keeps_def by (metis snd_conv)

lemma keepsI: "(\<And>s r s'. m s = (r, s') \<Longrightarrow> R s s') \<Longrightarrow> keeps R m"
  unfolding keeps_def by (metis surjective_pairing)

lemma keeps_if: "keeps R a \<Longrightarrow> keeps R b \<Longrightarrow> keeps R (if c then a else b)"
  by simp

lemma keeps_option: "keeps R a \<Longrightarrow> (\<And>x. keeps R (f x)) \<Longrightarrow> keeps R (case q of None \<Rightarrow> a | Some x \<Rightarrow> f x)"
  by (simp split: option.split)

lemma keeps_prod: "(\<And>x y. keeps R (g x y)) \<Longrightarrow> keeps R (case p of (x, y) \<Rightarrow> g x y)"
  by (simp split: prod.split)

lemma keeps_bufs: "(\<And>s. R s (s\<lparr>st_bufs := f (st_bufs s)\<rparr>)) \<Longrightarrow> keeps R (s_bufs f)"
  by (simp add: keeps_def s_bufs_def)

locale sess_relation =
  fixes R :: "sess_st \<Rightarrow> sess_st \<Rightarrow> bool"
  assumes refl: "R s s" and trans: "R s t \<Longrightarrow> R t u \<Longrightarrow> R s u"
begin

lemma keeps_bind:
  assumes "keeps R m" "\<And>x. keeps R (f x)"
  shows "keeps R (s_bind m f)"
proof (rule keepsI)
  fix s r s' assume b: "s_bind m f s = (r, s')"
  show "R s s'"
  proof (rule s_bind_run [OF b])
    fix q assume "m s = (q, s')"
    then show ?thesis using keepsD [OF assms(1)] by blast
  next
    fix x s1 assume "m s = (Ok x, s1)" "f x s1 = (r, s')"
    then show ?thesis using keepsD [OF assms(1)] keepsD [OF assms(2)] trans by blast
  qed
qed

lemma keeps_then: "keeps R m \<Longrightarrow> keeps R f \<Longrightarrow> keeps R (s_then m f)"
  unfolding s_then_def by (rule keeps_bind)

lemma keeps_basic:
  "keeps R (s_ret x)" "keeps R (s_err e)" "keeps R (s_fail_if c e)" "keeps R (s_get g)" "keeps R (s_lift h)"
  by (simp_all add: keeps_def s_ret_def s_err_def s_fail_if_def s_get_def s_lift_def refl)

lemmas rules = keeps_bind keeps_then keeps_basic keeps_if keeps_option keeps_prod

end

section \<open>Triples\<close>

definition triple :: "(sess_st \<Rightarrow> bool) \<Rightarrow> 'a sess \<Rightarrow> ('a \<Rightarrow> sess_st \<Rightarrow> bool) \<Rightarrow> (sess_st \<Rightarrow> bool) \<Rightarrow> bool" where
  "triple P m Q E \<longleftrightarrow> (\<forall>s. P s \<longrightarrow> (case m s of (Ok x, s') \<Rightarrow> Q x s' | (Err _, s') \<Rightarrow> E s' | (Fault, _) \<Rightarrow> False))"

lemma tripleD:
  assumes "triple P m Q E" "P s" "m s = (r, s')"
  shows "r \<noteq> Fault \<and> (\<forall>x. r = Ok x \<longrightarrow> Q x s') \<and> (\<forall>e. r = Err e \<longrightarrow> E s')"
  using assms by (cases r) (auto simp: triple_def dest!: spec [of _ s])

lemma tripleI:
  "(\<And>s r s'. P s \<Longrightarrow> m s = (r, s') \<Longrightarrow> r \<noteq> Fault \<and> (\<forall>x. r = Ok x \<longrightarrow> Q x s') \<and> (\<forall>e. r = Err e \<longrightarrow> E s')) \<Longrightarrow>
    triple P m Q E"
  by (fastforce simp: triple_def split: prod.split cres.split)

lemma t_conseq: "triple P m Q E \<Longrightarrow> (\<And>s. P' s \<Longrightarrow> P s) \<Longrightarrow> (\<And>x s. Q x s \<Longrightarrow> Q' x s) \<Longrightarrow> triple P' m Q' E"
  by (fastforce simp: triple_def split: prod.splits cres.splits)

lemma t_bind:
  assumes "triple P m Q E" "\<And>x. triple (Q x) (f x) R E"
  shows "triple P (s_bind m f) R E"
proof (rule tripleI)
  fix s r s' assume p: "P s" and b: "s_bind m f s = (r, s')"
  obtain q s1 where m: "m s = (q, s1)" by fastforce
  note t = tripleD [OF assms(1) p m]
  show "r \<noteq> Fault \<and> (\<forall>x. r = Ok x \<longrightarrow> R x s') \<and> (\<forall>e. r = Err e \<longrightarrow> E s')"
  proof (cases q)
    case (Ok x)
    then have "Q x s1" "f x s1 = (r, s')" using t b m by (simp_all add: s_bind_def)
    then show ?thesis using tripleD [OF assms(2)] by blast
  qed (use t b m in \<open>auto simp: s_bind_def\<close>)
qed

lemma t_then: "triple P m (\<lambda>_. Q) E \<Longrightarrow> triple Q f R E \<Longrightarrow> triple P (s_then m f) R E"
  unfolding s_then_def by (rule t_bind)

lemma t_ret: "(\<And>s. P s \<Longrightarrow> Q x s) \<Longrightarrow> triple P (s_ret x) Q E"
  by (simp add: triple_def s_ret_def)

lemma t_err: "(\<And>s. P s \<Longrightarrow> E s) \<Longrightarrow> triple P (s_err e) Q E"
  by (simp add: triple_def s_err_def)

lemma t_fail_if: "(\<And>s. P s \<Longrightarrow> c \<Longrightarrow> E s) \<Longrightarrow> (\<And>s. P s \<Longrightarrow> \<not> c \<Longrightarrow> Q () s) \<Longrightarrow> triple P (s_fail_if c e) Q E"
  by (simp add: triple_def s_fail_if_def)

lemma t_bufs: "(\<And>s. P s \<Longrightarrow> Q () (s\<lparr>st_bufs := f (st_bufs s)\<rparr>)) \<Longrightarrow> triple P (s_bufs f) Q E"
  by (simp add: triple_def s_bufs_def)

lemma t_get: "(\<And>s. P s \<Longrightarrow> Q (f s) s) \<Longrightarrow> triple P (s_get f) Q E"
  by (simp add: triple_def s_get_def)

lemma t_lift:
  "(\<And>s x. P s \<Longrightarrow> f s = Ok x \<Longrightarrow> Q x s) \<Longrightarrow> (\<And>s e. P s \<Longrightarrow> f s = Err e \<Longrightarrow> E s) \<Longrightarrow> (\<And>s. P s \<Longrightarrow> f s \<noteq> Fault) \<Longrightarrow>
    triple P (s_lift f) Q E"
  by (auto simp: triple_def s_lift_def split: cres.split)

lemma t_if: "(c \<Longrightarrow> triple P a Q E) \<Longrightarrow> (\<not> c \<Longrightarrow> triple P b Q E) \<Longrightarrow> triple P (if c then a else b) Q E"
  by simp

lemma t_option:
  "(q = None \<Longrightarrow> triple P a Q E) \<Longrightarrow> (\<And>x. q = Some x \<Longrightarrow> triple P (f x) Q E) \<Longrightarrow>
    triple P (case q of None \<Rightarrow> a | Some x \<Rightarrow> f x) Q E"
  by (cases q) auto

lemma t_prod: "(\<And>x y. p = (x, y) \<Longrightarrow> triple P (g x y) Q E) \<Longrightarrow> triple P (case p of (x, y) \<Rightarrow> g x y) Q E"
  by (cases p) auto

end
