(* ===== verification/Ave_Sess_Batch.thy ===== *)
theory Ave_Sess_Batch
  imports Ave_Sess_Result Ave_Sess_Steps
begin

text \<open>
  A batch of frames that was collected: which frames completed, and which bytes of the stream
  each of them is.
\<close>

section \<open>What no step of the collection touches\<close>

definition stream_kept :: "sess_st \<Rightarrow> sess_st \<Rightarrow> bool" where
  "stream_kept s s' \<longleftrightarrow> sb_bdone (st_bufs s') = sb_bdone (st_bufs s) \<and> sb_stream_len (st_bufs s') = sb_stream_len (st_bufs s)"

interpretation strm: sess_relation stream_kept
  by unfold_locales (simp_all add: stream_kept_def)

lemma strm_alloc: "keeps stream_kept (s_dma_alloc en n)" "keeps stream_kept (s_ipc_alloc en k)"
  "keeps stream_kept (s_build cpu len build)"
  by (auto simp: keeps_def stream_kept_def s_dma_alloc_def s_ipc_alloc_def s_build_def Let_def split: prod.splits sum.splits)

lemma stream_keptD:
  "keeps stream_kept m \<Longrightarrow> m s = (r, s') \<Longrightarrow>
    sb_bdone (st_bufs s') = sb_bdone (st_bufs s) \<and> sb_stream_len (st_bufs s') = sb_stream_len (st_bufs s)"
  using keepsD [of stream_kept m s r s'] by (simp add: stream_kept_def)

lemmas strm_rules = strm.rules strm_alloc keeps_bufs

section \<open>Building and sending\<close>

lemma keeps_source: "keeps stream_kept (proc_source en idx)"
  unfolding proc_source_def own_planes_def Let_def by (intro strm_rules; simp add: stream_kept_def)

lemma keeps_recon: "keeps stream_kept (proc_recon en)"
  unfolding proc_recon_def Let_def by (intro strm_rules; simp add: stream_kept_def)

lemma keeps_cmd_buf: "keeps stream_kept (proc_cmd_buf en idx len)"
  unfolding proc_cmd_buf_def by (intro strm_rules; simp add: stream_kept_def)

lemma keeps_clear_hdr: "keeps stream_kept (clear_hdr idx)"
  by (simp add: keeps_def stream_kept_def clear_hdr_def Let_def)

lemma keeps_mp: "keeps stream_kept (proc_mp idx n ft)"
  unfolding proc_mp_def by (intro strm_rules; simp add: stream_kept_def)

lemma keeps_build_cmd: "keeps stream_kept (proc_build_cmd en cid n idx cpu len f)"
  unfolding proc_build_cmd_def Let_def by (intro strm_rules; simp add: stream_kept_def set_last_idr_def)

lemma keeps_process_build: "keeps stream_kept (ave_session_process_build en dart cid n t)"
  unfolding ave_session_process_build_def Let_def
  by (intro strm_rules keeps_source keeps_recon keeps_cmd_buf keeps_clear_hdr keeps_mp keeps_build_cmd)

lemma keeps_build_one: "keeps stream_kept (batch_build_one en be cid k f e)"
proof (rule keepsI)
  fix s r s' assume b: "batch_build_one en be cid k f e s = (r, s')"
  obtain s1 where s1: "ave_session_process_build en (be_dart be k) cid (fst f) (snd f) (s\<lparr>st_bufs := set_ext e (st_bufs s)\<rparr>) = (r, s1)"
    "s' = s1\<lparr>st_bufs := (st_bufs s1)\<lparr>sb_ext_src := False\<rparr>\<rparr>"
    using b by (auto simp: batch_build_one_def split: prod.splits)
  show "stream_kept s s'"
    using stream_keptD [OF keeps_process_build s1(1)] s1(2) by (simp add: stream_kept_def set_ext_def split: option.splits)
qed

lemma keeps_batch_build: "keeps stream_kept (batch_build en be cid fs ext jobs)"
proof (induction fs arbitrary: jobs)
  case (Cons f fs)
  show ?case unfolding batch_build.simps by (intro strm_rules keeps_build_one Cons.IH)
qed (simp add: strm_rules)

lemma batch_build_jobs:
  "batch_build en be cid fs ext jobs s = (Ok js, s') \<Longrightarrow> length js = length jobs + length fs"
  by (induction fs arbitrary: jobs s) (auto simp: s_Ok)

lemma surf_run_stream: "sb_bdone (surf_run acts b) = sb_bdone b \<and> sb_stream_len (surf_run acts b) = sb_stream_len b"
  unfolding surf_run_def
  by (induction acts arbitrary: b) (simp_all add: surf_step_def split: surf_act.split)

lemma keeps_run: "keeps stream_kept (s_run en ce)"
  by (simp add: keeps_def stream_kept_def s_run_def surf_run_stream split: prod.split)

lemma keeps_send: "keeps stream_kept (\<lambda>s. case ave_ipc_send AVE_CH_IO iova len 0 (st_dev s) of (e, d) \<Rightarrow> (Ok e, s\<lparr>st_dev := d\<rparr>))"
  by (simp add: keeps_def stream_kept_def split: prod.split)

lemma keeps_batch_send: "keeps stream_kept (batch_send en be jobs k)"
proof (induction jobs arbitrary: k)
  case (Cons j js)
  show ?case unfolding batch_send.simps by (intro strm_rules keeps_run keeps_send Cons.IH)
qed (simp add: strm_rules)

lemma batch_send_Ok:
  "\<exists>m e. fst (batch_send en be jobs k s) = Ok (m, e) \<and> k \<le> m \<and> m \<le> k + length jobs \<and> (e = None \<longrightarrow> m = k + length jobs)"
proof (induction jobs arbitrary: k s)
  case (Cons j js)
  obtain r d where send: "ave_ipc_send AVE_CH_IO (jb_cmd_iova j) (of_nat (jb_cmd_len j)) 0 (st_dev s) = (r, d)" by fastforce
  obtain s1 where run: "s_run en (be_send be k) (s\<lparr>st_dev := d\<rparr>) = (Ok (), s1)"
    by (cases "rx_run (en_gp en) (ce_dev (be_send be k)) (d, st_rx s)") (simp add: s_run_def)
  show ?case
    using Cons.IH [of "Suc k" s1] run by (cases r) (auto simp: s_bind_def s_then_def s_ret_def send)
qed (simp add: s_ret_def)

section \<open>Collecting\<close>

lemma keeps_wait: "keeps stream_kept (batch_wait en be op cid k)"
proof -
  have "keeps stream_kept (\<lambda>s. (Ok (), s\<lparr>st_rx := (st_rx s)\<lparr>rx_done := rx_done (st_rx s) - 1\<rparr>\<rparr>))"
    by (simp add: keeps_def stream_kept_def)
  then show ?thesis unfolding batch_wait_def by (intro strm_rules keeps_run)
qed

lemma stream_append_bdone:
  assumes "ave_sess_stream_append vm b idx key = Ok b'"
  shows "sb_bdone b' = sb_bdone b"
proof -
  have "\<exists>st. b' = stream_commit b st"
  proof (cases "sess_hevc b")
    case True
    then show ?thesis
      using assms
      by (simp add: ave_sess_stream_append_def ave_sess_stream_append_hevc_def Let_def cbind_Ok) blast
  next
    case False
    then show ?thesis using assms by (simp add: ave_sess_stream_append_def Let_def cbind_Ok) blast
  qed
  then show ?thesis by auto
qed

lemma append_frame_bdone:
  assumes "append_frame en idx key s = (r, s')"
  shows "sb_bdone (st_bufs s') = sb_bdone (st_bufs s)"
  using assms stream_append_bdone by (auto simp: append_frame_def split: cres.splits)

lemma result_store_bdone:
  assumes "result_store en job i nal s = (r, s')"
  shows "sb_bdone (st_bufs s') = sb_bdone (st_bufs s)"
  using assms
  by (auto simp: result_store_def Let_def set_last_idr_def split: if_splits cres.splits dest!: append_frame_bdone)

lemma process_result_bdone:
  assumes "ave_session_process_result en job s = (r, s')"
  shows "sb_bdone (st_bufs s') = sb_bdone (st_bufs s)"
proof -
  have 1: "keeps stream_kept (read_coded_hdr en (jb_idx job))"
    unfolding read_coded_hdr_def by (intro strm_rules; simp add: stream_kept_def)
  have 2: "keeps stream_kept (keep_mp_record (jb_idx job) (jb_n job))"
    by (simp add: keeps_def stream_kept_def keep_mp_record_def split: cres.split)
  show ?thesis
  proof (rule s_bind_run [OF assms [unfolded ave_session_process_result_def s_then_def]])
    fix q assume "read_coded_hdr en (jb_idx job) s = (q, s')"
    then show ?thesis using stream_keptD [OF 1] by blast
  next
    fix i s1 assume r1: "read_coded_hdr en (jb_idx job) s = (Ok i, s1)"
      and rest: "s_bind (keep_mp_record (jb_idx job) (jb_n job)) (\<lambda>_.
        s_bind (s_lift (\<lambda>s. if sess_hevc (st_bufs s) then first_header_nal (st_bufs s) (jb_idx job) i else Ok None))
          (\<lambda>nal. result_store en job i nal)) s1 = (r, s')"
    show ?thesis
    proof (rule s_bind_run [OF rest])
      fix q assume "keep_mp_record (jb_idx job) (jb_n job) s1 = (q, s')"
      then show ?thesis using stream_keptD [OF 1 r1] stream_keptD [OF 2] by metis
    next
      fix u s2 assume r2: "keep_mp_record (jb_idx job) (jb_n job) s1 = (Ok u, s2)"
        and last: "s_bind (s_lift (\<lambda>s. if sess_hevc (st_bufs s) then first_header_nal (st_bufs s) (jb_idx job) i else Ok None))
          (\<lambda>nal. result_store en job i nal) s2 = (r, s')"
      have "sb_bdone (st_bufs s') = sb_bdone (st_bufs s2)"
        by (rule s_bind_run [OF last]) (auto simp: s_lift_def dest: result_store_bdone)
      then show ?thesis using stream_keptD [OF 1 r1] stream_keptD [OF 2 r2] by simp
    qed
  qed
qed

lemma find_job_Some:
  assumes "find_job sn jobs done = Some j"
  shows "j < length jobs" "j \<notin> set done" "AVE_SESS_PROCESS_SLOT + of_nat (jb_idx (jobs ! j)) = sn"
proof -
  have "j \<in> set [0..<length jobs] \<and> j \<notin> set done \<and> AVE_SESS_PROCESS_SLOT + of_nat (jb_idx (jobs ! j)) = sn"
    using assms unfolding find_job_def find_Some_iff by (metis nth_mem)
  then show "j < length jobs" "j \<notin> set done" "AVE_SESS_PROCESS_SLOT + of_nat (jb_idx (jobs ! j)) = sn" by simp_all
qed

text \<open>The segments of a stream between two lengths, end to end.\<close>

fun tiles :: "u32 \<Rightarrow> (u32 \<times> u32) list \<Rightarrow> u32 \<Rightarrow> bool" where
  "tiles a [] z = (z = a)"
| "tiles a ((off, len) # segs) z = (off = a \<and> tiles (a + len) segs z)"

lemma tiles_append: "tiles a xs mid \<Longrightarrow> tiles mid ys z \<Longrightarrow> tiles a (xs @ ys) z"
  by (induction xs arbitrary: a) auto

abbreviation segs :: "batch_done list \<Rightarrow> (u32 \<times> u32) list" where
  "segs bd \<equiv> map (\<lambda>e. (bd_off e, bd_len e)) bd"

abbreviation slen :: "sess_st \<Rightarrow> u32" where
  "slen s \<equiv> of_nat (sb_stream_len (st_bufs s))"

lemma collect_one_stop:
  assumes "batch_collect_one en be op cid jobs ext done s = (r, s')" "\<forall>j. r \<noteq> Ok j"
  shows "sb_bdone (st_bufs s') = sb_bdone (st_bufs s)"
proof (rule s_bind_run [OF assms(1) [unfolded batch_collect_one_def]])
  fix q assume "batch_wait en be op cid (length done) s = (q, s')"
  then show ?thesis using stream_keptD [OF keeps_wait] by blast
next
  fix msg s1 assume w: "batch_wait en be op cid (length done) s = (Ok msg, s1)"
    and rest: "(case find_job (reply_slot msg) jobs done of
         None \<Rightarrow> s_err EPROTO
       | Some j \<Rightarrow>
           s_bind (s_get (\<lambda>s. of_nat (sb_stream_len (st_bufs s)) :: u32)) (\<lambda>start.
           s_then (ave_session_process_result en (jobs ! j))
          (s_bind (s_get st_bufs) (\<lambda>b.
           s_then (s_fail_if (ext \<and> ci_frame_num (sb_coded_info b) \<noteq> jb_n (jobs ! j)) EPROTO)
          (s_then (s_bufs (\<lambda>b. b\<lparr>sb_bdone := sb_bdone b @
              [\<lparr>bd_j = j, bd_off = start, bd_len = of_nat (sb_stream_len b) - start, bd_type = sb_coded_type b\<rparr>]\<rparr>))
          (s_ret j)))))) s1 = (r, s')"
  have 1: "sb_bdone (st_bufs s1) = sb_bdone (st_bufs s)" using stream_keptD [OF keeps_wait w] by blast
  show ?thesis
  proof (cases "find_job (reply_slot msg) jobs done")
    case None
    then show ?thesis using rest 1 by (simp add: s_err_def)
  next
    case (Some j)
    obtain q s2 where p: "ave_session_process_result en (jobs ! j) s1 = (q, s2)" by fastforce
    have "s' = s2"
      using rest Some assms(2)
      by (cases q) (auto simp: s_bind_def s_then_def s_get_def s_fail_if_def s_bufs_def s_ret_def p split: if_splits)
    then show ?thesis using process_result_bdone [OF p] 1 by simp
  qed
qed

lemma collect_one_Ok:
  assumes "batch_collect_one en be op cid jobs ext done s = (Ok j, s')"
  shows "j < length jobs" "j \<notin> set done"
    "\<exists>e. sb_bdone (st_bufs s') = sb_bdone (st_bufs s) @ [e] \<and> bd_j e = j \<and> tiles (slen s) (segs [e]) (slen s')"
proof -
  obtain msg s1 s2 where w: "batch_wait en be op cid (length done) s = (Ok msg, s1)"
    and f: "find_job (reply_slot msg) jobs done = Some j"
    and p: "ave_session_process_result en (jobs ! j) s1 = (Ok (), s2)"
    and s': "s' = s2\<lparr>st_bufs := (st_bufs s2)\<lparr>sb_bdone := sb_bdone (st_bufs s2) @
        [\<lparr>bd_j = j, bd_off = slen s1, bd_len = slen s2 - slen s1, bd_type = sb_coded_type (st_bufs s2)\<rparr>]\<rparr>\<rparr>"
    using assms by (auto simp: batch_collect_one_def s_Ok s_bufs_def split: option.splits)
  show "j < length jobs" "j \<notin> set done" using find_job_Some [OF f] by simp_all
  have "slen s1 = slen s" "sb_bdone (st_bufs s2) = sb_bdone (st_bufs s)"
    using stream_keptD [OF keeps_wait w] process_result_bdone [OF p] by simp_all
  then show "\<exists>e. sb_bdone (st_bufs s') = sb_bdone (st_bufs s) @ [e] \<and> bd_j e = j \<and> tiles (slen s) (segs [e]) (slen s')"
    by (simp add: s')
qed

lemma collect_run:
  assumes "batch_collect en be op cid jobs ext n done s = (r, s')" "distinct done" "set done \<subseteq> {..<length jobs}"
  shows "\<exists>new z. sb_bdone (st_bufs s') = sb_bdone (st_bufs s) @ new \<and> length new \<le> n
    \<and> distinct (done @ map bd_j new) \<and> set (map bd_j new) \<subseteq> {..<length jobs} \<and> tiles (slen s) (segs new) z
    \<and> (r = Ok () \<longrightarrow> length new = n \<and> z = slen s')"
  using assms
proof (induction n arbitrary: "done" s)
  case 0
  then show ?case by (intro exI [of _ "[]"]) (simp add: s_ret_def)
next
  case (Suc n)
  show ?case
  proof (rule s_bind_run [OF Suc.prems(1) [unfolded batch_collect.simps], of "()"])
    fix q assume q: "batch_collect_one en be op cid jobs ext done s = (q, s')" and r: "r \<noteq> Ok ()"
    show ?case
    proof (cases "\<exists>j. q = Ok j")
      case False
      then show ?thesis using collect_one_stop [OF q] r Suc.prems(2) by (intro exI [of _ "[]"]) simp
    next
      case True
      then obtain j where "q = Ok j" by blast
      note one = collect_one_Ok [OF q [unfolded this]]
      obtain e where "sb_bdone (st_bufs s') = sb_bdone (st_bufs s) @ [e]" "bd_j e = j" "tiles (slen s) (segs [e]) (slen s')"
        using one(3) by blast
      then show ?thesis using one(1,2) r Suc.prems(2) by (intro exI [of _ "[e]"]) auto
    qed
  next
    fix j s1 assume j: "batch_collect_one en be op cid jobs ext done s = (Ok j, s1)"
      and rest: "batch_collect en be op cid jobs ext n (done @ [j]) s1 = (r, s')"
    note one = collect_one_Ok [OF j]
    obtain e where e: "sb_bdone (st_bufs s1) = sb_bdone (st_bufs s) @ [e]" "bd_j e = j" "tiles (slen s) (segs [e]) (slen s1)"
      using one(3) by blast
    obtain new z where new: "sb_bdone (st_bufs s') = sb_bdone (st_bufs s1) @ new" "length new \<le> n"
      "distinct ((done @ [j]) @ map bd_j new)" "set (map bd_j new) \<subseteq> {..<length jobs}" "tiles (slen s1) (segs new) z"
      "r = Ok () \<longrightarrow> length new = n \<and> z = slen s'"
      using Suc.IH [OF rest] Suc.prems(2,3) one(1,2) by auto
    have "tiles (slen s) (segs ([e] @ new)) z"
      unfolding map_append by (rule tiles_append [OF e(3) new(5)])
    then show ?case using e new one(1) by (intro exI [of _ "[e] @ new"] exI [of _ z]) auto
  qed
qed

text \<open>The account of a batch: no frame twice, no byte between the segments; for a batch that succeeds, the
  first frames, up to the end of the stream.\<close>

definition accounts :: "nat \<Rightarrow> u32 \<Rightarrow> bool \<Rightarrow> u32 \<Rightarrow> batch_done list \<Rightarrow> bool" where
  "accounts n start ok len bd \<longleftrightarrow>
     length bd \<le> n \<and> distinct (map bd_j bd) \<and> set (map bd_j bd) \<subseteq> {..<n}
   \<and> (\<exists>z. tiles start (segs bd) z \<and> (ok \<longrightarrow> bd \<noteq> [] \<and> z = len \<and> set (map bd_j bd) = {..<length bd}))"

lemma exchange_accounts:
  assumes "batch_exchange en be cid jobs ext s = (r, s')" "jobs \<noteq> []" "sb_bdone (st_bufs s) = []"
  shows "accounts (length jobs) (slen s) (r = Ok ()) (slen s') (sb_bdone (st_bufs s'))"
proof -
  define s1 where "s1 = s\<lparr>st_rx := rx_batch_mode (cd_reply_id (ab_cmd (en_abi en) (proc_op (st_bufs s)))) (st_rx s)\<rparr>"
  have b1: "st_bufs s1 = st_bufs s" by (simp add: s1_def)
  obtain count e s2 where s1: "batch_send en be jobs 0 s1 = (Ok (count, e), s2)" "count \<le> length jobs" "e = None \<longrightarrow> count = length jobs"
    using batch_send_Ok [of en be jobs 0 s1] by (metis add_0 surjective_pairing)
  have rest: "(if count = 0 then (case e of None \<Rightarrow> s_ret () | Some e \<Rightarrow> s_err e)
       else batch_collect en be (proc_op (st_bufs s)) cid (take count jobs) ext count []) s2 = (r, s')"
    using assms(1) s1(1) by (simp add: batch_exchange_def s_bind_def s_then_def s_get_def s1_def)
  have 2: "sb_bdone (st_bufs s2) = []" "slen s2 = slen s"
    using stream_keptD [OF keeps_batch_send s1(1)] b1 assms(3) by simp_all
  show ?thesis
  proof (cases "count = 0")
    case True
    then obtain x where "e = Some x" using s1(3) assms(2) by (cases e) auto
    then show ?thesis using rest True 2 by (auto simp: s_err_def accounts_def)
  next
    case False
    then have c: "batch_collect en be (proc_op (st_bufs s)) cid (take count jobs) ext count [] s2 = (r, s')"
      using rest by simp
    obtain new z where new: "sb_bdone (st_bufs s') = new" "length new \<le> count" "distinct (map bd_j new)"
      "set (map bd_j new) \<subseteq> {..<count}" "tiles (slen s) (segs new) z" "r = Ok () \<longrightarrow> length new = count \<and> z = slen s'"
      using collect_run [OF c] 2 s1(2) by (auto simp: min_absorb2)
    have "set (map bd_j new) = {..<count}" if "length new = count"
      using new(4) distinct_card [OF new(3)] that by (intro card_subset_eq) auto
    then show ?thesis using new s1(2) False by (fastforce simp: accounts_def)
  qed
qed

lemma batch_run_accounts:
  assumes run: "ave_session_process_batch en be cid fs ext s = (r, s')"
  shows "accounts (length fs) (of_nat (sb_stream_len (st_bufs s))) (r = Ok ()) (of_nat (sb_stream_len (st_bufs s')))
    (sb_bdone (st_bufs s'))"
proof -
  define s0 where "s0 = s\<lparr>st_bufs := (st_bufs s)\<lparr>sb_bdone := []\<rparr>\<rparr>"
  have s0: "sb_bdone (st_bufs s0) = []" "slen s0 = slen s" by (simp_all add: s0_def)
  define bad where "bad \<longleftrightarrow> fs = [] \<or> length fs > AVE_SESS_RX_Q \<or> length fs > unat (sb_n_coded (st_bufs s0))"
  obtain q s1 where b: "batch_build en be cid fs ext [] s0 = (q, s1)" by fastforce
  note k = stream_keptD [OF keeps_batch_build b]
  have none: "accounts (length fs) (slen s) False z []" for z by (simp add: accounts_def)
  show ?thesis
  proof (cases "\<not> bad \<and> (\<exists>jobs. q = Ok jobs)")
    case False
    then have "(\<exists>e. r = Err e) \<or> r = Fault" "sb_bdone (st_bufs s') = []"
      using run b k s0
      by (cases q; auto simp: ave_session_process_batch_def s_bind_def s_then_def s_bufs_def s_get_def s_fail_if_def
          bad_def s0_def split: if_splits)+
    then show ?thesis using run none by auto
  next
    case True
    then obtain jobs where q: "q = Ok jobs" by blast
    obtain s2 where x: "batch_exchange en be cid jobs (ext \<noteq> None) s1 = (r, s2)" and s': "st_bufs s' = st_bufs s2"
      using run True b q
      by (cases "batch_exchange en be cid jobs (ext \<noteq> None) s1")
        (auto simp: ave_session_process_batch_def s_bind_def s_then_def s_bufs_def s_get_def s_fail_if_def bad_def s0_def)
    have len: "length jobs = length fs" using batch_build_jobs [OF b [unfolded q]] by simp
    then have "jobs \<noteq> []" using True by (auto simp: bad_def)
    then show ?thesis using exchange_accounts [OF x] k s0 len run s' by simp
  qed
qed

text \<open>C9. However a batch ends, it accounts for its frames: no frame is counted twice, and the segments of
  the completed ones lie end to end in the stream, from where the batch began. When it succeeds, in
  whatever order the firmware finished, the completed frames are the first ones of the batch, at
  least one, and their segments reach to the end of the stream.\<close>

theorem batch_accounts:
  "case ave_session_process_batch en be cid fs ext s of (r, s') \<Rightarrow>
     accounts (length fs) (of_nat (sb_stream_len (st_bufs s))) (r = Ok ()) (of_nat (sb_stream_len (st_bufs s')))
       (sb_bdone (st_bufs s'))"
  using batch_run_accounts by (simp split: prod.split)

end
