(* ===== verification/Ave_Sess_Pass.thy ===== *)
theory Ave_Sess_Pass
  imports Ave_Sess_Mp Ave_Wr
begin

text \<open>
  The tables of multi-pass encoding stay inside their buffers, and the input of every frame of
  a final pass is the window of records it should be.
\<close>

section \<open>Records\<close>

definition tab_record :: "u8 list \<Rightarrow> nat \<Rightarrow> u8 list" where
  "tab_record t k = peek t (AVE_MP_HDR_SIZE + k * AVE_MP_REC_SIZE) AVE_MP_REC_SIZE"

text \<open>The record of frame \<open>k\<close>, the last one behind the end of the table.\<close>

definition window_record :: "mp_lab \<Rightarrow> nat \<Rightarrow> u8 list" where
  "window_record l k = tab_record (the (ml_tab l)) (min k (mp_nrec l - 1))"

lemma record_inside:
  assumes "lab_ok l" "ml_tab l = Some t" "k < mp_nrec l"
  shows "AVE_MP_HDR_SIZE + k * AVE_MP_REC_SIZE + AVE_MP_REC_SIZE \<le> length t"
proof -
  have "ml_tab_len l \<le> length t" using assms(1,2) by (auto simp: lab_ok_def tab_ok_def split: option.splits)
  moreover have "AVE_MP_HDR_SIZE + mp_nrec l * AVE_MP_REC_SIZE \<le> ml_tab_len l"
    using assms(3) by (auto simp: mp_nrec_def split: if_splits) (metis le_diff_conv2 add.commute div_times_less_eq_dividend)
  moreover have "k * AVE_MP_REC_SIZE + AVE_MP_REC_SIZE \<le> mp_nrec l * AVE_MP_REC_SIZE"
    using assms(3) by (metis Suc_leI add.commute mult_Suc mult_le_mono1)
  ultimately show ?thesis by linarith
qed

lemma mp_record_eq:
  assumes "lab_ok l" "ml_tab l = Some t" "mp_nrec l \<noteq> 0"
  shows "mp_record l (min k (mp_nrec l - 1)) = Ok (window_record l k) \<and> length (window_record l k) = AVE_MP_REC_SIZE"
proof -
  have "min k (mp_nrec l - 1) < mp_nrec l" using assms(3) by simp
  from record_inside [OF assms(1,2) this] show ?thesis
    using assms(2) by (simp add: mp_record_def window_record_def tab_record_def cpu_bytes_def rd_bytes_def peek_def)
qed

section \<open>Copying\<close>

lemma at_poke_other:
  assumes a: "at m a bs" "i + length cs \<le> length m" "i + length cs \<le> a \<or> a + length bs \<le> i"
  shows "at (poke m i cs) a bs"
proof -
  have "a + length bs \<le> length m" using a(1) by (simp add: at_def)
  then have "peek (poke m i cs) a (length bs) = peek m a (length bs)"
    by (intro nth_equalityI) (use a(2,3) in \<open>auto simp: peek_nth poke_nth\<close>)
  then show ?thesis using a by (simp add: at_def)
qed

lemma copy_records:
  assumes "lab_ok l" "ml_tab l = Some t" "mp_nrec l \<noteq> 0"
  shows "b \<le> c \<Longrightarrow> AVE_MP_HDR_SIZE + c * AVE_MP_REC_SIZE \<le> length d \<Longrightarrow>
    \<exists>d'. mp_copy_records l [b..<c] d = Ok d' \<and> length d' = length d
      \<and> (\<forall>off bs. at d off bs \<and> off + length bs \<le> AVE_MP_HDR_SIZE + b * AVE_MP_REC_SIZE \<longrightarrow> at d' off bs)
      \<and> (\<forall>i \<in> {b..<c}. at d' (AVE_MP_HDR_SIZE + i * AVE_MP_REC_SIZE) (window_record l i))"
proof (induction "c - b" arbitrary: b d)
  case 0
  then show ?case by simp
next
  case (Suc k)
  note r = mp_record_eq [OF assms, of b]
  define p where "p = AVE_MP_HDR_SIZE + b * AVE_MP_REC_SIZE"
  have up: "[b..<c] = b # [Suc b..<c]" using Suc.hyps(2) by (simp add: upt_conv_Cons)
  have "Suc b * AVE_MP_REC_SIZE \<le> c * AVE_MP_REC_SIZE" using Suc.hyps(2) by (intro mult_le_mono1) simp
  then have len: "p + AVE_MP_REC_SIZE \<le> length d" using Suc.prems(2) by (simp add: p_def)
  define d1 where "d1 = poke d p (window_record l b)"
  have d1: "length d1 = length d" "at d1 p (window_record l b)"
    using len r by (simp_all add: d1_def at_poke)
  have keep: "at d1 off bs" if "at d off bs" "off + length bs \<le> p" for off bs
    using that len r unfolding d1_def by (intro at_poke_other) auto
  have "k = c - Suc b" "Suc b \<le> c" using Suc.hyps(2) by simp_all
  then have IH: "\<exists>d'. mp_copy_records l [Suc b..<c] d1 = Ok d' \<and> length d' = length d1
      \<and> (\<forall>off bs. at d1 off bs \<and> off + length bs \<le> AVE_MP_HDR_SIZE + Suc b * AVE_MP_REC_SIZE \<longrightarrow> at d' off bs)
      \<and> (\<forall>i \<in> {Suc b..<c}. at d' (AVE_MP_HDR_SIZE + i * AVE_MP_REC_SIZE) (window_record l i))"
    using Suc.prems d1(1) by (intro Suc.hyps(1)) simp_all
  obtain d' where d': "mp_copy_records l [Suc b..<c] d1 = Ok d'" "length d' = length d"
    "\<And>off bs. at d1 off bs \<Longrightarrow> off + length bs \<le> p + AVE_MP_REC_SIZE \<Longrightarrow> at d' off bs"
    "\<forall>i \<in> {Suc b..<c}. at d' (AVE_MP_HDR_SIZE + i * AVE_MP_REC_SIZE) (window_record l i)"
    using IH d1(1) by (auto simp: p_def ac_simps)
  have "mp_copy_records l [b..<c] d = Ok d'"
    using d'(1) r len by (simp add: up wr_bytes_def p_def [symmetric] d1_def)
  moreover have "at d' p (window_record l b)" using d'(3) [OF d1(2)] r by simp
  moreover have "at d' off bs" if "at d off bs" "off + length bs \<le> p" for off bs
    using d'(3) [OF keep [OF that]] that(2) by simp
  moreover have "{b..<c} = insert b {Suc b..<c}" using Suc.hyps(2) by auto
  ultimately show ?case using d'(2,4) by (auto simp: p_def)
qed

text \<open>C35. The input of a frame of a final pass is built inside its buffer and holds the header of the
  table and the records the firmware looks at: for the first frame those of frames 0 to 10, for a later
  one that of the frame 10 ahead, in both cases the last record where the table ends.\<close>

theorem mp_input_window:
  assumes "lab_ok l" "mp_nrec l \<noteq> 0" "AVE_MP_IN_FIRST \<le> length d" "unat n + AVE_MP_WINDOW < 2 ^ 32"
  shows "\<exists>d'. ave_mp_fill_input l (Some d) n = Ok (Some d') \<and> length d' = length d
    \<and> at d' 0 (take AVE_MP_HDR_SIZE (the (ml_tab l)))
    \<and> (if n = 0 then \<forall>i \<in> {0..10}. at d' (AVE_MP_HDR_SIZE + i * AVE_MP_REC_SIZE) (window_record l i)
       else at d' AVE_MP_HDR_SIZE (window_record l (unat n + 10)))"
proof -
  obtain t where t: "ml_tab l = Some t"
    using assms(1,2) by (auto simp: lab_ok_def tab_ok_def mp_nrec_def AVE_MP_HDR_SIZE_def split: option.splits)
  define h where "h = take AVE_MP_HDR_SIZE t"
  have ht: "AVE_MP_HDR_SIZE \<le> length t" using record_inside [OF assms(1) t, of 0] assms(2) by simp
  then have h: "length h = AVE_MP_HDR_SIZE" by (simp add: h_def)
  define d0 where "d0 = poke (poke d 0 (replicate AVE_MP_IN_FIRST 0)) 0 h"
  have l0: "AVE_MP_HDR_SIZE \<le> AVE_MP_IN_FIRST" by (simp add: mp_consts)
  have d0: "length d0 = length d" "at d0 0 h" using assms(3) h l0 by (simp_all add: d0_def at_poke)
  have fill: "ave_mp_fill_input l (Some d) n =
      cbind (if n = 0 then mp_copy_records l [0..<AVE_MP_WINDOW + 1] d0
             else cbind (mp_record l (min (unat (n + of_nat AVE_MP_WINDOW)) (mp_nrec l - 1))) (\<lambda>bs.
                    wr_bytes d0 AVE_MP_HDR_SIZE bs)) (\<lambda>d. Ok (Some d))"
    using assms(2,3) t ht h l0
    by (simp add: ave_mp_fill_input_def wr_bytes_def cpu_bytes_def rd_bytes_def d0_def h_def)
  show ?thesis
  proof (cases "n = 0")
    case True
    have "AVE_MP_HDR_SIZE + 11 * AVE_MP_REC_SIZE \<le> length d0" using assms(3) d0(1) by (simp add: mp_consts)
    from copy_records [OF assms(1) t assms(2) _ this, of 0]
    obtain d' where "mp_copy_records l [0..<11] d0 = Ok d'" "length d' = length d0" "at d' 0 h"
      "\<forall>i \<in> {0..<11}. at d' (AVE_MP_HDR_SIZE + i * AVE_MP_REC_SIZE) (window_record l i)"
      using d0(2) h by auto
    moreover have "ave_mp_fill_input l (Some d) 0 = cbind (mp_copy_records l [0..<11] d0) (\<lambda>d. Ok (Some d))"
      using fill True by (simp add: AVE_MP_WINDOW_def)
    ultimately show ?thesis using True d0(1) t by (auto simp: h_def)
  next
    case False
    have w: "unat (n + of_nat AVE_MP_WINDOW) = unat n + 10"
      using assms(4) by (simp add: AVE_MP_WINDOW_def unat_add_nowrap)
    note r = mp_record_eq [OF assms(1) t assms(2), of "unat n + 10"]
    have len: "AVE_MP_HDR_SIZE + AVE_MP_REC_SIZE \<le> length d0" using assms(3) d0(1) by (simp add: mp_consts)
    define d' where "d' = poke d0 AVE_MP_HDR_SIZE (window_record l (unat n + 10))"
    have "length d' = length d" "at d' AVE_MP_HDR_SIZE (window_record l (unat n + 10))" "at d' 0 h"
      using len r d0 h unfolding d'_def by (auto simp: at_poke intro!: at_poke_other)
    then show ?thesis using False t w r len by (simp add: fill wr_bytes_def d'_def h_def)
  qed
qed

text \<open>A table of two records.\<close>

lemma mp_input_window_witness:
  "\<exists>d'. ave_mp_fill_input \<lparr>ml_rec = None, ml_n_rec = 0, ml_tab = Some (replicate AVE_MP_TAB_MAX 7), ml_tab_len = 0xd54\<rparr>
      (Some (replicate AVE_MP_IN_BYTES 0)) 5 = Ok (Some d') \<and> at d' AVE_MP_HDR_SIZE (replicate AVE_MP_REC_SIZE 7)"
proof -
  let ?l = "\<lparr>ml_rec = None, ml_n_rec = 0, ml_tab = Some (replicate AVE_MP_TAB_MAX 7), ml_tab_len = 0xd54\<rparr> :: mp_lab"
  have l: "lab_ok ?l" "mp_nrec ?l = 2" by (simp_all add: lab_ok_def tab_ok_def mp_consts mp_nrec_def)
  have "window_record ?l (unat (5 :: u32) + 10) = replicate AVE_MP_REC_SIZE 7"
    using l(2) by (simp add: window_record_def tab_record_def mp_consts peek_def)
  then show ?thesis
    using mp_input_window [of ?l "replicate AVE_MP_IN_BYTES 0" 5] l by (auto simp: mp_consts)
qed

section \<open>The debugfs files\<close>

lemma write_buffer_ok:
  "length t = n \<Longrightarrow> simple_write_to_buffer t n pos bytes = (r, pos', t') \<Longrightarrow>
    length t' = n \<and> (\<forall>k. r = Inr k \<and> 0 < k \<longrightarrow> nat pos' \<le> n)"
  by (auto simp: simple_write_to_buffer_def Let_def min_def split: if_splits)

lemma tab_write_ok:
  assumes "lab_ok l" "ave_mp_tab_write vz pos bytes l = (r, pos', l')"
  shows "lab_ok l'"
proof -
  define l1 where "l1 = (if ml_tab l = None \<and> vz then l\<lparr>ml_tab := Some (replicate AVE_MP_TAB_MAX 0)\<rparr> else l)"
  have l1: "lab_ok l1" using assms(1) by (auto simp: l1_def lab_ok_def tab_ok_def)
  show ?thesis
  proof (cases "ml_tab l1")
    case None
    then show ?thesis using assms(2) l1 by (simp add: ave_mp_tab_write_def l1_def [symmetric] Let_def)
  next
    case (Some t)
    obtain r0 p0 t0 where w: "simple_write_to_buffer t AVE_MP_TAB_MAX pos bytes = (r0, p0, t0)" by (metis prod_cases3)
    have "length t = AVE_MP_TAB_MAX" using l1 Some by (simp add: lab_ok_def tab_ok_def)
    from write_buffer_ok [OF this w] show ?thesis
      using assms(2) l1 Some w
      by (auto simp: ave_mp_tab_write_def l1_def [symmetric] Let_def lab_ok_def tab_ok_def split: sum.splits)
  qed
qed

end
