(* ===== verification/Ave_Sess_Start.thy ===== *)
theory Ave_Sess_Start
  imports Ave_Sess_Process
begin

text \<open>
  Starting a stream, from \<^verbatim>\<open>src/driver/ave_session.c\<close>: Config, Open and the two Start
  commands with everything they allocate and publish.

  \<^item> The module parameters are the record \<open>start_params\<close>, under their names.
  \<^item> \<open>dma_alloc_coherent\<close> hands out zeroed memory, as its documentation says.
  \<^item> Log lines, the rate limit of the firmware log and the listing of the HEVC parameter sets
    have no counterpart.
\<close>

definition AVE_SESS_SHMEM_SIZE :: u32 where "AVE_SESS_SHMEM_SIZE = 0x40000"
definition AVE_SESS_FWCLIENT_FALLBACK :: u32 where "AVE_SESS_FWCLIENT_FALLBACK = 0xb4000"
definition AVE_SESS_FWCLIENTMEM_SIZE :: u32 where "AVE_SESS_FWCLIENTMEM_SIZE = 0x100000"
definition AVE_SESS_PARAM_SETS_SIZE :: u32 where "AVE_SESS_PARAM_SETS_SIZE = 0x1000"
definition AVE_SESS_COLOC_PAD :: u64 where "AVE_SESS_COLOC_PAD = 1280"
definition AVE_SESS_HEVC_INPUT_FMT :: u32 where "AVE_SESS_HEVC_INPUT_FMT = 16"
definition AVE_SESS_HEVC_POC_LSB_M4 :: nat where "AVE_SESS_HEVC_POC_LSB_M4 = 4"
definition AVE_SESS_HEVC_IDR_PERIOD :: u32 where "AVE_SESS_HEVC_IDR_PERIOD = 30"

record start_params =
  session_skip_mcpu :: bool
  session_reg_dart :: u64
  session_dsid :: u32
  session_frames :: u32
  session_src_mode :: u32
  session_src_cfg :: u32
  session_src_bit3 :: u32
  session_src_go :: u32
  session_multi_me :: u32
  session_mp_const_qp :: u32
  session_mp_qpmod :: u32
  session_mp_max_qpmod :: u32
  session_mp_options :: u32
  session_dbg :: u32
  session_ipcm :: u32
  session_lambda :: bool
  session_scaling :: u32
  session_skipmode :: u32
  session_qp_min :: u32
  session_qp_max :: u32
  session_idr_period :: u32
  session_entropy_size :: bool
  session_coloc :: bool
  session_bframes :: bool

record start_params_codec = start_params +
  session_macos :: u32
  session_poc0 :: bool
  session_ref_spacing_p :: u32
  session_search_range :: u32
  session_max_mvs :: u32
  session_hevc_xc :: u32
  session_hevc_refs :: u32
  session_hevc_sao :: bool
  session_hevc_wpp :: bool
  session_hevc_tmvp :: bool
  session_hevc_qpmod :: bool

record start_env =
  se_sess :: sess_params
  se_mp :: mp_params
  se_par :: start_params_codec
  se_vz :: bool       \<comment> \<open>the \<open>vzalloc\<close> of the record area succeeds\<close>

section \<open>Allocating\<close>

definition s_dma_need :: "sess_env \<Rightarrow> u64 \<Rightarrow> u64 sess" where
  "s_dma_need en sz = s_bind (s_dma_alloc en sz) (\<lambda>r. case r of None \<Rightarrow> s_err ENOMEM | Some a \<Rightarrow> s_ret a)"

text \<open>A command buffer for \<open>op\<close>: its offset, its IOVA and its length.\<close>

definition s_cmd_buf :: "sess_env \<Rightarrow> ave_op \<Rightarrow> (nat \<times> u64 \<times> nat) sess" where
  "s_cmd_buf en op =
     (let len = ave_cmd_size (en_abi en) op
      in s_bind (s_ipc_alloc en len) (\<lambda>r.
           case r of
             None \<Rightarrow> s_err ENOMEM
           | Some cpu \<Rightarrow> s_bind (s_get (\<lambda>s. ave_ipc_cpu_to_iova (st_dev s) cpu)) (\<lambda>iova. s_ret (cpu, iova, len))))"

section \<open>Config and Open\<close>

definition AVE_SESS_CLIENT_ID :: u64 where "AVE_SESS_CLIENT_ID = 1"

definition config_params :: "start_env \<Rightarrow> u64 \<Rightarrow> ave_config_params" where
  "config_params se shmem =
     \<lparr>cp_skip_mcpu = session_skip_mcpu (se_par se), cp_create_mcpu = True,
      cp_reg_dart_addr = session_reg_dart (se_par se), cp_doorbell_cadence = (\<lambda>_. 0),
      cp_dsid = session_dsid (se_par se), cp_shmem_addr = shmem, cp_shmem_size = AVE_SESS_SHMEM_SIZE\<rparr>"

definition ave_session_config :: "sess_env \<Rightarrow> start_env \<Rightarrow> cmd_env \<Rightarrow> unit sess" where
  "ave_session_config en se ce =
     s_bind (s_cmd_buf en AVE_OP_CONFIG) (\<lambda>(cpu, iova, len).
     s_bind (s_dma_need en (ucast AVE_SESS_SHMEM_SIZE)) (\<lambda>shmem.
     s_then (s_build cpu len (\<lambda>buf. ave_cmd_build_config (en_abi en) buf (cmd_ctx 1 0 False) (config_params se shmem)))
    (s_then (s_cmd en ce AVE_OP_CONFIG iova len 0)
     (\<lambda>s. (Ok (), s\<lparr>st_mcpu_created := True\<rparr>)))))"

definition ave_session_open :: "sess_env \<Rightarrow> cmd_env \<Rightarrow> u64 \<Rightarrow> unit sess" where
  "ave_session_open en ce client_id =
     s_bind (s_get (\<lambda>s. sess_hevc (st_bufs s))) (\<lambda>hevc.
     s_bind (s_cmd_buf en AVE_OP_OPEN) (\<lambda>(cpu, iova, len).
     s_then (s_build cpu len (\<lambda>buf. ave_cmd_build_open (en_abi en) buf (cmd_ctx 2 client_id hevc)))
    (s_then (s_cmd en ce AVE_OP_OPEN iova len client_id)
     (\<lambda>s. (Ok (), s\<lparr>st_client_codec := if hevc then AVE_SESS_CODEC_HEVC else AVE_SESS_CODEC_AVC\<rparr>)))))"

section \<open>What both Starts allocate\<close>

record ave_sess_start =
  ss_cmd :: nat
  ss_cmd_iova :: u64
  ss_cmd_len :: nat
  ss_cw :: u32
  ss_ch :: u32
  ss_fwc_size :: u32
  ss_fwc_iova :: u64
  ss_fwcm_iova :: u64
  ss_psets_iova :: u64
  ss_n :: u32

definition s_mp_start :: "sess_env \<Rightarrow> start_env \<Rightarrow> unit sess" where
  "s_mp_start en se s =
     (case ave_mp_session_start (en_dma en) (se_vz se) (se_mp se) (en_abi en) (st_lab s) (st_bufs s) of
        (e, l, b) \<Rightarrow> (case e of None \<Rightarrow> Ok () | Some e \<Rightarrow> Err e, s\<lparr>st_lab := l, st_bufs := b\<rparr>))"

text \<open>A surface as \<open>dma_alloc_coherent\<close> and the \<open>memset\<close> leave it; a failed allocation keeps the old IOVA.\<close>

definition new_surface :: "u64 option \<Rightarrow> u64 \<Rightarrow> 'a surface_scheme \<Rightarrow> 'a surface_scheme" where
  "new_surface r sz sf =
     sf\<lparr>sf_cpu := map_option (\<lambda>_. replicate (unat sz) 0) r, sf_iova := (case r of Some a \<Rightarrow> a | None \<Rightarrow> sf_iova sf),
        sf_size := ucast sz\<rparr>"

definition set_coded :: "nat \<Rightarrow> u64 option \<Rightarrow> u64 \<Rightarrow> u64 option \<Rightarrow> u64 \<Rightarrow> ave_sess_bufs \<Rightarrow> ave_sess_bufs" where
  "set_coded i c csz h hsz b =
     b\<lparr>sb_coded := (sb_coded b)[i := new_surface c csz (sb_coded b ! i)],
       sb_coded_hdr := (sb_coded_hdr b)[i := new_surface h hsz (sb_coded_hdr b ! i)]\<rparr>"

fun alloc_coded :: "sess_env \<Rightarrow> u64 \<Rightarrow> u64 \<Rightarrow> nat list \<Rightarrow> unit sess" where
  "alloc_coded en csz hsz [] = s_ret ()"
| "alloc_coded en csz hsz (i # is) =
     s_bind (s_dma_alloc en csz) (\<lambda>c.
     s_bind (s_dma_alloc en hsz) (\<lambda>h.
     s_then (s_bufs (set_coded i c csz h hsz))
    (s_then (s_fail_if (c = None \<or> h = None) ENOMEM)
     (alloc_coded en csz hsz is))))"

definition clamp_u32 :: "u32 \<Rightarrow> u32 \<Rightarrow> u32 \<Rightarrow> u32" where "clamp_u32 v lo hi = min (max v lo) hi"

definition coded_slots :: "sess_env \<Rightarrow> ave_sess_bufs \<Rightarrow> u32" where
  "coded_slots en b =
     min (clamp_u32 (sc_req_slots (sb_cfg b)) 1 (of_nat AVE_SESS_FRAMES_MAX)) (sa_coded_max (ab_start_avc (en_abi en)))"

definition set_psets :: "ave_sess_bufs \<Rightarrow> ave_sess_bufs" where
  "set_psets b = b\<lparr>sb_psets_cpu := Some (replicate (unat AVE_SESS_PARAM_SETS_SIZE) 0), sb_psets_size := AVE_SESS_PARAM_SETS_SIZE\<rparr>"

text \<open>Every colocated slot, or none. The address that is published lies \<open>pad\<close> behind the buffer's own.\<close>

fun alloc_coloc :: "sess_env \<Rightarrow> u64 \<Rightarrow> u64 \<Rightarrow> nat list \<Rightarrow> unit sess" where
  "alloc_coloc en sz pad [] = s_ret ()"
| "alloc_coloc en sz pad (i # is) =
     s_bind (s_dma_alloc en (ALIGN (sz + pad) 0x1000)) (\<lambda>r.
       case r of
         None \<Rightarrow> s_bufs (\<lambda>b. b\<lparr>sb_coloc_size := 0\<rparr>)
       | Some iova \<Rightarrow>
           s_then (s_bufs (\<lambda>b. b\<lparr>sb_coloc := (sb_coloc b)[i := iova + pad], sb_coloc_size := sz\<rparr>))
           (alloc_coloc en sz pad is))"

definition coloc_bytes :: "ave_sess_bufs \<Rightarrow> u32 \<Rightarrow> u32 \<Rightarrow> u64" where
  "coloc_bytes b cw ch =
     (if sess_hevc b then ALIGN (128 * ucast (DIV_ROUND_UP cw 32) * ucast (DIV_ROUND_UP ch 64)) 0x1000
      else ALIGN (128 * ucast (cw div 16) * ucast (ch div 16)) 0x1000)"

definition coloc_pad :: "sess_env \<Rightarrow> start_env \<Rightarrow> ave_sess_bufs \<Rightarrow> u64" where
  "coloc_pad en se b =
     (if \<not> sess_hevc b \<and> (session_bframes (se_par se) \<or> en_ftype5 en \<or> sc_bframes (sb_cfg b) \<noteq> 0)
      then AVE_SESS_COLOC_PAD else 0)"

definition wants_coloc :: "sess_env \<Rightarrow> start_env \<Rightarrow> bool" where
  "wants_coloc en se \<longleftrightarrow> session_coloc (se_par se) \<and> sa_colocated_set (ab_start_avc (en_abi en)) \<noteq> AVE_OFF_NONE"

definition prep_alloc :: "sess_env \<Rightarrow> start_env \<Rightarrow> ave_op \<Rightarrow> ave_sess_start sess" where
  "prep_alloc en se op =
     s_then (s_mp_start en se)
    (s_bind (s_cmd_buf en op) (\<lambda>(cmd, iova, len).
     s_bind (s_get st_bufs) (\<lambda>b.
       let cw = ave_mb_align (sc_width (sb_cfg b)); ch = ave_mb_align (sc_height (sb_cfg b));
           n = coded_slots en b
       in s_then (s_fail_if (sd_n_dpb (sb_dpb b) = 0) ENOMEM)
         (s_bind (s_get (\<lambda>s. if client_buf_size (st_dev s) \<noteq> 0 then client_buf_size (st_dev s)
                              else AVE_SESS_FWCLIENT_FALLBACK)) (\<lambda>fwc_size.
          s_bind (s_dma_need en (ucast fwc_size)) (\<lambda>fwc.
          s_bind (s_dma_need en (ucast AVE_SESS_FWCLIENTMEM_SIZE)) (\<lambda>fwcm.
          s_then (s_bufs (\<lambda>b. b\<lparr>sb_n_coded := n,
              sb_lat := (sb_lat b)\<lparr>sl_n_frames := clamp_u32 (session_frames (se_par se)) 1 1000\<rparr>\<rparr>))
         (s_then (alloc_coded en (ave_session_coded_size (se_sess se) cw ch (ucast (sc_bit_depth (sb_cfg b))))
              (ucast (sa_coded_hdr_bytes (ab_start_avc (en_abi en)))) [0..<unat n])
         (s_bind (s_dma_need en (ucast AVE_SESS_PARAM_SETS_SIZE)) (\<lambda>psets.
          s_then (s_bufs set_psets)
         (s_then (if wants_coloc en se
                  then alloc_coloc en (coloc_bytes b cw ch) (coloc_pad en se b) [0..<unat (sd_n_dpb (sb_dpb b))]
                  else s_ret ())
         (s_ret \<lparr>ss_cmd = cmd, ss_cmd_iova = iova, ss_cmd_len = len, ss_cw = cw, ss_ch = ch, ss_fwc_size = fwc_size,
                 ss_fwc_iova = fwc, ss_fwcm_iova = fwcm, ss_psets_iova = psets, ss_n = n\<rparr>))))))))))))"

section \<open>What both Starts publish\<close>

definition zero_avc_session :: ave_avc_session where
  "zero_avc_session =
     \<lparr>s_width = 0, s_height = 0, s_crop_width = 0, s_crop_height = 0, s_frame_rate = 0, s_bitrate = 0,
      s_qp_i = 0, s_qp_p = 0, s_qp_b = 0, s_qp_min = 0, s_qp_max = 0, s_rc_enable = False, s_frame_rate_div = 0,
      s_key_interval = 0, s_profile_idc = 0, s_level_idc = 0, s_cabac = False, s_poc_type0 = False, s_max_refs = 0,
      s_ref_spacing_p = 0, s_search_range = 0, s_max_mvs_per_2mb = 0, s_bframes = 0, s_macos = 0,
      s_transcoded = (\<lambda>_. 0), s_n_transcoded = 0, s_transcoded_size = 0,
      s_fw_client_addr = 0, s_fw_client_size = 0, s_fw_client_mem_addr = 0, s_fw_client_mem_size = 0,
      s_need_lsb_planes = False, s_src_mode = 0, s_src_cfg_byte = 0, s_src_go_bit3 = 0, s_multi_me = 0,
      s_mp_pass = 0, s_mp_const_qp = 0, s_mp_qpmod = 0, s_mp_max_qpmod = 0, s_mp_options = 0, s_src_go_bits = 0,
      s_dbg_bits = 0, s_ipcm_islice = 0, s_lambda_block = False, s_scaling_flat = 0, s_skip_mode = 0,
      s_param_sets_addr = 0, s_param_sets_size = 0,
      s_recon = None, s_n_recon = 0, s_low_res_ref = (\<lambda>_. 0), s_n_low_res_ref = 0, s_low_res_result = (\<lambda>_. 0),
      s_n_low_res_result = 0, s_colocated = (\<lambda>_. 0), s_n_colocated = 0, s_entropy = (\<lambda>_ _. 0), s_n_entropy = 0,
      s_n_entropy_cols = 0, s_entropy_size = 0, s_coded = None, s_coded_hdr = None, s_n_coded = 0,
      s_src_nbr = (\<lambda>_ _. 0), s_n_src_nbr = 0\<rparr>"

text \<open>The source and debug modes.\<close>

definition prep_modes :: "start_env \<Rightarrow> ave_sess_bufs \<Rightarrow> ave_avc_session \<Rightarrow> ave_avc_session" where
  "prep_modes se b s =
     (let p = se_par se; c = sb_cfg b
      in s\<lparr>s_width := sc_width c, s_height := sc_height c, s_crop_width := sc_crop_w c, s_crop_height := sc_crop_h c,
           s_need_lsb_planes := session_lsb (se_sess se), s_src_mode := ucast (session_src_mode p),
           s_src_cfg_byte := (if session_src_cfg p = 0 \<and> sc_src_bitdepth c = 10 then 1 else ucast (session_src_cfg p)),
           s_src_go_bit3 := ucast (session_src_bit3 p),
           s_multi_me := (if session_multi_me p \<noteq> 0 then ucast (session_multi_me p) else sc_multi_me c),
           s_mp_pass := sl_mp_pass (sb_lat b), s_mp_const_qp := session_mp_const_qp p, s_mp_qpmod := session_mp_qpmod p,
           s_mp_max_qpmod := session_mp_max_qpmod p, s_mp_options := session_mp_options p,
           s_src_go_bits := ucast (session_src_go p), s_dbg_bits := session_dbg p, s_ipcm_islice := ucast (session_ipcm p),
           s_lambda_block := session_lambda p,
           s_scaling_flat := (if sess_hevc b then 0 else ucast (session_scaling p)),
           s_skip_mode := (if sess_hevc b then 0 else ucast (session_skipmode p))\<rparr>)"

text \<open>Rate, quantiser and key interval.\<close>

definition prep_rate :: "start_env \<Rightarrow> ave_sess_bufs \<Rightarrow> ave_avc_session \<Rightarrow> ave_avc_session" where
  "prep_rate se b s =
     (let p = se_par se; c = sb_cfg b; or_else = (\<lambda>x y :: u32. if x \<noteq> 0 then x else y);
          qp_p = or_else (sc_qp_p c) (sc_qp c);
          qp_min = min (if sc_qp_max c \<noteq> 0 then sc_qp_min c else session_qp_min p) 51;
          key = or_else (session_idr_period p) 1
      in s\<lparr>s_frame_rate := or_else (sc_fps_num c) 30, s_frame_rate_div := or_else (sc_fps_den c) 1,
           s_bitrate := sc_bitrate c, s_rc_enable := sc_bitrate c \<noteq> 0, s_qp_i := sc_qp c, s_qp_p := qp_p,
           s_qp_b := or_else (sc_qp_b c) qp_p, s_qp_min := qp_min,
           s_qp_max := clamp_u32 (if sc_qp_max c \<noteq> 0 then sc_qp_max c else session_qp_max p) qp_min 51,
           s_key_interval := (if sl_mp_pass (sb_lat b) = 2 \<and> key = 1 then max (2 * sl_mp_frames (sb_lat b)) 2 else key)\<rparr>)"

text \<open>The tables of addresses.\<close>

definition recon_table :: "start_env \<Rightarrow> ave_sess_bufs \<Rightarrow> ave_sess_start \<Rightarrow> u32 \<Rightarrow> ave_recon_buf" where
  "recon_table se b st i =
     (let d = sb_dpb b; a = fst (sd_dpb d ! unat i)
      in if i < sd_n_dpb d
         then \<lparr>rb_addr = a, rb_luma_size = ss_cw st * ss_ch st,
               rb_lsb_addr = (if session_lsb (se_sess se) then a + ucast (sd_recon_msb_span d) else 0)\<rparr>
         else \<lparr>rb_addr = 0, rb_luma_size = 0, rb_lsb_addr = 0\<rparr>)"

definition surface_table :: "u32 \<Rightarrow> 'a surface_scheme list \<Rightarrow> u32 \<Rightarrow> ave_buf" where
  "surface_table n l i =
     (if i < n then \<lparr>bf_addr = sf_iova (l ! unat i), bf_size = sf_size (l ! unat i)\<rparr> else \<lparr>bf_addr = 0, bf_size = 0\<rparr>)"

definition list_table :: "u32 \<Rightarrow> u64 list \<Rightarrow> u32 \<Rightarrow> u64" where
  "list_table n l i = (if i < n then l ! unat i else 0)"

definition low_res_refs :: "ave_sess_bufs \<Rightarrow> u64 list" where
  "low_res_refs b = map snd (take (unat (sd_n_dpb (sb_dpb b))) (sd_dpb (sb_dpb b)))"

definition prep_scratch :: "sess_env \<Rightarrow> start_env \<Rightarrow> ave_sess_bufs \<Rightarrow> ave_avc_session \<Rightarrow> ave_avc_session" where
  "prep_scratch en se b s =
     (let l = ab_start_avc (en_abi en); d = sb_dpb b; e = sb_entropy b; nb = sb_nbr b;
          low = (sa_low_res_ref_set l \<noteq> AVE_OFF_NONE \<and> sd_low_res_size d \<noteq> 0);
          ent = (se_n e \<noteq> 0 \<and> sa_entropy_set l \<noteq> AVE_OFF_NONE);
          col = (wants_coloc en se \<and> sb_coloc_size b \<noteq> 0);
          res = (sd_n_low_res_result d \<noteq> 0 \<and> sa_low_res_result_set l \<noteq> AVE_OFF_NONE);
          nbr = (sn_n_nbr nb \<noteq> 0 \<and> sa_src_nbr_max l \<noteq> 0)
      in s\<lparr>s_low_res_ref := (if low then list_table (sd_n_dpb d) (low_res_refs b) else (\<lambda>_. 0)),
           s_n_low_res_ref := (if low \<and> 0 \<notin> set (low_res_refs b) then sd_n_dpb d else 0),
           s_low_res_result := (if res then list_table (sd_n_low_res_result d) (sd_low_res_result d) else (\<lambda>_. 0)),
           s_n_low_res_result := (if res then sd_n_low_res_result d else 0),
           s_colocated := (if col then list_table (sd_n_dpb d) (sb_coloc b) else (\<lambda>_. 0)),
           s_n_colocated := (if col then sd_n_dpb d else 0),
           s_entropy := (\<lambda>i j. if ent then tab_fun (se_entropy e) (unat i) (unat j) else 0),
           s_n_entropy := (if ent then min (se_n e) (sa_entropy_max l) else 0),
           s_n_entropy_cols := (if ent then min (se_cols e) (sa_entropy_cols_max l) else 0),
           s_entropy_size := (if ent \<and> session_entropy_size (se_par se) then se_size e else 0),
           s_src_nbr := (\<lambda>i j. if nbr then tab_fun (sn_nbr nb) i (unat j) else 0),
           s_n_src_nbr := (if nbr then min (sn_n_nbr nb) (sa_src_nbr_max l) else 0)\<rparr>)"

definition prep_tables :: "start_env \<Rightarrow> ave_sess_bufs \<Rightarrow> ave_sess_start \<Rightarrow> ave_avc_session \<Rightarrow> ave_avc_session" where
  "prep_tables se b st s =
     s\<lparr>s_fw_client_addr := ss_fwc_iova st, s_fw_client_size := ss_fwc_size st, s_fw_client_mem_addr := ss_fwcm_iova st,
       s_fw_client_mem_size := AVE_SESS_FWCLIENTMEM_SIZE, s_param_sets_addr := ss_psets_iova st,
       s_param_sets_size := AVE_SESS_PARAM_SETS_SIZE,
       s_recon := Some (recon_table se b st), s_n_recon := sd_n_dpb (sb_dpb b),
       s_coded := Some (surface_table (ss_n st) (sb_coded b)),
       s_coded_hdr := Some (surface_table (ss_n st) (sb_coded_hdr b)), s_n_coded := ss_n st\<rparr>"

definition prep_session :: "sess_env \<Rightarrow> start_env \<Rightarrow> ave_sess_bufs \<Rightarrow> ave_sess_start \<Rightarrow> ave_avc_session" where
  "prep_session en se b st = prep_scratch en se b (prep_tables se b st (prep_rate se b (prep_modes se b zero_avc_session)))"

definition ave_session_start_prep :: "sess_env \<Rightarrow> start_env \<Rightarrow> ave_op \<Rightarrow> (ave_sess_start \<times> ave_avc_session) sess" where
  "ave_session_start_prep en se op =
     s_bind (prep_alloc en se op) (\<lambda>st.
     s_bind (s_get st_bufs) (\<lambda>b. s_ret (st, prep_session en se b st)))"

section \<open>Start AVC\<close>

definition transcoded_bytes :: "ave_sess_bufs \<Rightarrow> u32" where
  "transcoded_bytes b = ALIGN (sf_size (sb_coded b ! 0) div 2) 0x1000"

fun alloc_transcoded :: "sess_env \<Rightarrow> u32 \<Rightarrow> nat list \<Rightarrow> unit sess" where
  "alloc_transcoded en sz [] = s_ret ()"
| "alloc_transcoded en sz (i # is) =
     s_bind (s_dma_need en (ucast sz)) (\<lambda>a.
     s_then (s_bufs (\<lambda>b. b\<lparr>sb_transcoded := (sb_transcoded b)[i := a]\<rparr>)) (alloc_transcoded en sz is))"

definition many_refs :: "sess_cfg \<Rightarrow> bool" where
  "many_refs c \<longleftrightarrow> sc_bframes c \<noteq> 0 \<or> sc_p_refs c \<ge> 2"

definition avc_level :: "ave_sess_bufs \<Rightarrow> u32 \<Rightarrow> ave_sess_start \<Rightarrow> ave_avc_session \<Rightarrow> u32" where
  "avc_level b macos st s =
     (let lv = (if bit macos (unat AVE_MACOS_G_ME)
                then ave_level_macos (ss_cw st) (ss_ch st) (s_frame_rate s) (s_frame_rate_div s)
                else ave_level_for (ss_cw st) (ss_ch st))
      in clamp_u32 (max lv (sc_level_floor (sb_cfg b))) 10 52)"

text \<open>\<open>max_num_ref_frames\<close>.\<close>

definition avc_max_refs :: "ave_sess_bufs \<Rightarrow> u32" where
  "avc_max_refs b = (if sd_n_dpb (sb_dpb b) > 2 then sd_n_dpb (sb_dpb b) - 1 else 1)"

definition avc_session_of :: "start_env \<Rightarrow> ave_sess_bufs \<Rightarrow> u32 \<Rightarrow> ave_sess_start \<Rightarrow> ave_avc_session \<Rightarrow> ave_avc_session" where
  "avc_session_of se b macos st s =
     (let p = se_par se; c = sb_cfg b
      in s\<lparr>s_profile_idc := (if sc_profile c \<noteq> 0 then ucast (sc_profile c) else 66),
           s_level_idc := ucast (avc_level b macos st s), s_macos := macos, s_cabac := sc_cabac c,
           s_poc_type0 := (session_poc0 p \<or> sc_bframes c \<noteq> 0),
           s_ref_spacing_p := ucast (min (if session_ref_spacing_p p \<noteq> 0 then session_ref_spacing_p p
                                          else if sc_p_refs c \<ge> 2 then 2 else 0) 255),
           s_bframes := (if s_rc_enable s then ucast (sc_bframes c) else 0),
           s_search_range := ucast (min (session_search_range p) 255),
           s_max_mvs_per_2mb := ucast (min (session_max_mvs p) 255), s_max_refs := ucast (avc_max_refs b)\<rparr>)"

text \<open>What macOS's BUFS group adds.\<close>

definition with_transcoded :: "sess_env \<Rightarrow> ave_sess_bufs \<Rightarrow> ave_avc_session \<Rightarrow> ave_avc_session" where
  "with_transcoded en b s =
     (let k = sa_transcoded_max (ab_start_avc (en_abi en))
      in s\<lparr>s_transcoded := list_table (min k 2) (sb_transcoded b), s_n_transcoded := k,
           s_transcoded_size := transcoded_bytes b, s_n_entropy_cols := (if s_n_entropy s \<noteq> 0 then 1 else s_n_entropy_cols s)\<rparr>)"

definition ave_session_start_avc :: "sess_env \<Rightarrow> start_env \<Rightarrow> cmd_env \<Rightarrow> u64 \<Rightarrow> unit sess" where
  "ave_session_start_avc en se ce client_id =
     (let macos = session_macos (se_par se) AND AVE_MACOS_ALL; bufs_group = bit macos (unat AVE_MACOS_G_BUFS)
      in s_bind (ave_session_start_prep en se AVE_OP_START_AVC) (\<lambda>(st, s0).
         s_then (s_bufs (\<lambda>b. b\<lparr>sb_lat := (sb_lat b)\<lparr>sl_macos := macos\<rparr>\<rparr>))
        (s_bind (s_get st_bufs) (\<lambda>b0.
         s_then (if bufs_group
                 then alloc_transcoded en (transcoded_bytes b0) [0..<unat (min (sa_transcoded_max (ab_start_avc (en_abi en))) 2)]
                 else s_ret ())
        (s_bind (s_get st_bufs) (\<lambda>b.
         s_then (s_fail_if (many_refs (sb_cfg b) \<and> avc_max_refs b < 2) ENOMEM)
        (s_then (s_build (ss_cmd st) (ss_cmd_len st) (\<lambda>buf. ave_cmd_build_start_avc (en_abi en) buf (cmd_ctx 3 client_id False)
                   (avc_session_of se b macos st (if bufs_group then with_transcoded en b s0 else s0))))
         (s_cmd en ce AVE_OP_START_AVC (ss_cmd_iova st) (ss_cmd_len st) client_id))))))))"

section \<open>Start HEVC\<close>

text \<open>One surface for slice headers per coded slot. A failed allocation leaves the size as it was.\<close>

fun alloc_slice_hdr :: "sess_env \<Rightarrow> u32 \<Rightarrow> nat list \<Rightarrow> unit sess" where
  "alloc_slice_hdr en sz [] = s_ret ()"
| "alloc_slice_hdr en sz (i # is) =
     s_bind (s_dma_alloc en (ucast sz)) (\<lambda>r.
       case r of
         None \<Rightarrow> s_then (s_bufs (\<lambda>b. b\<lparr>sb_slice_hdr := (sb_slice_hdr b)[i := (sb_slice_hdr b ! i)\<lparr>sf_cpu := None\<rparr>]\<rparr>)) (s_err ENOMEM)
       | Some a \<Rightarrow>
           s_then (s_bufs (\<lambda>b. b\<lparr>sb_slice_hdr := (sb_slice_hdr b)[i := new_surface (Some a) (ucast sz) (sb_slice_hdr b ! i)]\<rparr>))
           (alloc_slice_hdr en sz is))"

definition hevc_slot_bytes :: "sess_env \<Rightarrow> u32" where
  "hevc_slot_bytes en = (let hp = ab_process_hevc (en_abi en) in ph_hdr_slots hp * ph_hdr_slot_bytes hp)"

definition hevc_n_transcoded :: "sess_env \<Rightarrow> u32" where
  "hevc_n_transcoded en = min (hv_transcoded_max (ab_start_hevc (en_abi en))) 2"

definition hevc_transcoded :: "sess_env \<Rightarrow> start_env \<Rightarrow> unit sess" where
  "hevc_transcoded en se =
     (let single = (session_hevc_xc (se_par se) = 1)
      in s_then (s_bufs (\<lambda>b. b\<lparr>sb_lat := (sb_lat b)\<lparr>sl_hevc_single_xc := single\<rparr>, sb_n_transcoded := 0\<rparr>))
         (if single then s_ret ()
          else s_bind (s_get (\<lambda>s. transcoded_bytes (st_bufs s))) (\<lambda>tsz.
               s_then (alloc_transcoded en tsz [0..<unat (hevc_n_transcoded en)])
               (s_bufs (\<lambda>b. b\<lparr>sb_n_transcoded := hevc_n_transcoded en, sb_transcoded_size := tsz\<rparr>)))))"

definition hevc_refs_of :: "start_env \<Rightarrow> ave_sess_bufs \<Rightarrow> u32" where
  "hevc_refs_of se b =
     (let n = sd_n_dpb (sb_dpb b)
      in if n \<ge> 2 then clamp_u32 (max (session_hevc_refs (se_par se)) (if many_refs (sb_cfg b) then 2 else 1)) 1 (n - 1)
         else 0)"

definition set_hevc_refs :: "u32 \<Rightarrow> ave_sess_bufs \<Rightarrow> ave_sess_bufs" where
  "set_hevc_refs refs b = b\<lparr>sb_lat := (sb_lat b)\<lparr>sl_hevc_refs := refs\<rparr>\<rparr>"

definition latch_hevc :: "start_env \<Rightarrow> ave_sess_bufs \<Rightarrow> ave_sess_bufs" where
  "latch_hevc se b =
     b\<lparr>sb_lat := (sb_lat b)\<lparr>sl_hevc_bframes := ucast (sc_bframes (sb_cfg b)),
          sl_hevc_poc_mask := push_bit (AVE_SESS_HEVC_POC_LSB_M4 + 4) 1 - 1,
          sl_hevc_sao := session_hevc_sao (se_par se), sl_last_idr := 0\<rparr>\<rparr>"

definition hevc_vp :: "start_env \<Rightarrow> ave_sess_bufs \<Rightarrow> ave_avc_session \<Rightarrow> ave_avc_session" where
  "hevc_vp se b s =
     (let p = se_par se; c = sb_cfg b; lat = sb_lat b
      in s\<lparr>s_key_interval := (if s_key_interval s = 1 \<and> sl_hevc_refs lat \<noteq> 0 \<and> (sl_n_frames lat > 1 \<or> sc_open_ended c)
                              then AVE_SESS_HEVC_IDR_PERIOD else s_key_interval s),
           s_ref_spacing_p := ucast (min (if session_ref_spacing_p p \<noteq> 0 then session_ref_spacing_p p
                                          else if sc_p_refs c \<ge> 2 \<and> sc_bframes c = 0 then 2 else 0) 255)\<rparr>)"

definition hevc_session_of :: "sess_env \<Rightarrow> start_env \<Rightarrow> ave_sess_bufs \<Rightarrow> ave_sess_start \<Rightarrow> ave_avc_session \<Rightarrow> ave_hevc_session" where
  "hevc_session_of en se b st s =
     (let p = se_par se; c = sb_cfg b; lat = sb_lat b; bf = sl_hevc_bframes lat;
          two = (\<not> sl_hevc_single_xc lat)
      in \<lparr>hx_vp = hevc_vp se b s,
          hx_level_idc = ucast (max (ucast (ave_hevc_level_for (ss_cw st) (ss_ch st))) (sc_level_floor c)),
          hx_input_format_word = AVE_SESS_HEVC_INPUT_FMT, hx_bit_depth = sc_bit_depth c,
          hx_input_bitdepth = (if sc_src_bitdepth c = 10 then 10 else 8), hx_max_num_ref_frames = sl_hevc_refs lat,
          hx_log2_max_poc_lsb_minus4 = of_nat AVE_SESS_HEVC_POC_LSB_M4, hx_sao = session_hevc_sao p,
          hx_wpp = session_hevc_wpp p, hx_sps_tmvp = session_hevc_tmvp p,
          hx_n_st_rps = (if bf \<noteq> 0 then (if bf = 1 then 8 else 10) else if sl_hevc_refs lat \<noteq> 0 then 4 else 0),
          hx_st_rps_refs = (if sl_hevc_refs lat \<ge> 2 then 2 else 1), hx_bframes = bf,
          hx_transcoded = (if two then list_table (sb_n_transcoded b) (sb_transcoded b) else (\<lambda>_. 0)),
          hx_n_transcoded = (if two then sb_n_transcoded b else 0),
          hx_transcoded_size = (if two then sb_transcoded_size b else 0),
          hx_qp_mod = (session_hevc_qpmod p \<and> s_rc_enable s)\<rparr>)"

definition s_build_c :: "nat \<Rightarrow> nat \<Rightarrow> (u8 list \<Rightarrow> cmd_result cres) \<Rightarrow> unit sess" where
  "s_build_c cpu len build s =
     (case build (peek (ipc_mem (st_dev s)) cpu len) of
        Ok r \<Rightarrow> s_build cpu len (\<lambda>_. r) s | Err e \<Rightarrow> (Err e, s) | Fault \<Rightarrow> (Fault, s))"

definition ave_session_start_hevc :: "sess_env \<Rightarrow> start_env \<Rightarrow> cmd_env \<Rightarrow> u64 \<Rightarrow> unit sess" where
  "ave_session_start_hevc en se ce client_id =
     s_then (s_fail_if (hv_vps_block (ab_start_hevc (en_abi en)) = AVE_OFF_NONE) ENODEV)
    (s_bind (ave_session_start_prep en se AVE_OP_START_HEVC) (\<lambda>(st, s0).
     s_then (alloc_slice_hdr en (hevc_slot_bytes en) [0..<unat (ss_n st)])
    (s_then (hevc_transcoded en se)
    (s_then (s_bufs (\<lambda>b. set_hevc_refs (hevc_refs_of se b) b))
    (s_bind (s_get st_bufs) (\<lambda>b1.
     s_then (s_fail_if (many_refs (sb_cfg b1) \<and> sl_hevc_refs (sb_lat b1) < 2) ENOMEM)
    (s_then (s_bufs (latch_hevc se))
    (s_bind (s_get st_bufs) (\<lambda>b.
     s_then (s_build_c (ss_cmd st) (ss_cmd_len st) (\<lambda>buf. ave_cmd_build_start_hevc (en_abi en) buf (cmd_ctx 3 client_id True)
               (hevc_session_of en se b st s0)))
     (s_cmd en ce AVE_OP_START_HEVC (ss_cmd_iova st) (ss_cmd_len st) client_id))))))))))"

text \<open>Start AVC or HEVC, by the session's codec.\<close>

definition ave_session_start :: "sess_env \<Rightarrow> start_env \<Rightarrow> cmd_env \<Rightarrow> u64 \<Rightarrow> unit sess" where
  "ave_session_start en se ce client_id =
     s_bind (s_get (\<lambda>s. sess_hevc (st_bufs s))) (\<lambda>hevc.
       if hevc then ave_session_start_hevc en se ce client_id else ave_session_start_avc en se ce client_id)"

end
