(* ===== verification/Ave_Ipc_Own.thy ===== *)
theory Ave_Ipc_Own
  imports Ave_Handshake_Inv Ave_Sess_Cmd
begin

text \<open>
  Who owns a block of FwIPC: what the driver allocated stays its own, whatever the firmware
  asks of the SHAREDMALLOC service and whatever interrupts come, until the driver frees it.
\<close>

definition owned :: "ave_device \<Rightarrow> nat \<Rightarrow> nat \<Rightarrow> bool" where
  "owned d p n \<longleftrightarrow> own d p n \<and> p \<notin> fixed_ptrs d"

definition keeps_own :: "ave_device \<Rightarrow> ave_device \<Rightarrow> bool" where
  "keeps_own d d' \<longleftrightarrow> (\<forall>p n. owned d p n \<longrightarrow> owned d' p n)"

lemma keeps_own_refl [simp]: "keeps_own d d"
  by (simp add: keeps_own_def)

lemma keeps_own_trans: "keeps_own a b \<Longrightarrow> keeps_own b c \<Longrightarrow> keeps_own a c"
  by (simp add: keeps_own_def)

lemma fixed_ptrs_view: "boot_view d' = boot_view d \<Longrightarrow> fixed_ptrs d' = fixed_ptrs d"
  by (simp add: boot_view_def fixed_ptrs_def)

lemma keeps_own_same:
  "ipc_pool d' = ipc_pool d \<Longrightarrow> shm d' = shm d \<Longrightarrow> boot_view d' = boot_view d \<Longrightarrow> keeps_own d d'"
  using fixed_ptrs_view [of d' d] unfolding keeps_own_def owned_def own_def pool_of_def by metis

lemma owned_live: "dev_ok_with d live \<Longrightarrow> owned d p n \<Longrightarrow> (p, n) \<in> set live \<and> p + n \<le> ipc_size d"
  by (auto simp: owned_def own_def pool_of_def dev_ok_with_def live_ok_def)

lemma send_own: "keeps_own d (snd (ave_chan_send_fw i fw a1 a2 d))"
  by (rule keeps_own_same)
    (auto simp: ave_chan_send_fw_def ave_ipc_ring_doorbell_def write_doorbell_def split: option.splits)

lemma recv_own:
  assumes "ave_chan_recv_fw i d = (r, d')"
  shows "keeps_own d d'"
proof (rule keeps_own_same)
  show "boot_view d' = boot_view d" using assms by (rule view_recv)
  show "ipc_pool d' = ipc_pool d" "shm d' = shm d"
    using assms by (auto simp: ave_chan_recv_fw_def Let_def split: option.splits if_splits prod.splits)
qed

lemma line_own: "keeps_own d (ave_ipc_terminal_line fw n lv d)"
  by (rule keeps_own_same) (auto simp: ave_ipc_terminal_line_def Let_def split: option.split)

lemma shm_clear_own: "i < length (shm d) \<Longrightarrow> keeps_own d (d\<lparr>shm := (shm d)[i := (None, s)]\<rparr>)"
  by (auto simp: keeps_own_def owned_def own_def pool_of_def nth_list_update)

lemma remove1_own:
  assumes "ipc_pool d = Some live" "\<And>n'. \<not> owned d va n'"
  shows "keeps_own d (d\<lparr>ipc_pool := Some (remove1 (va, n) live)\<rparr>)"
proof -
  have "(p, k) \<noteq> (va, n)" if "owned d p k" for p k using that assms(2) by auto
  then show ?thesis using assms(1) by (auto simp: keeps_own_def owned_def own_def pool_of_def)
qed

lemma shm_free_own:
  assumes ok: "dev_ok_with d live"
  shows "keeps_own d (shm_free fw d)"
proof (cases "ave_ipc_fw_to_cpu d fw 1")
  case (Some cpu)
  show ?thesis
  proof (cases "shm_find (shm d) (Some cpu) 0")
    case None
    then show ?thesis using Some send_own by (simp add: shm_free_def)
  next
    case (Some j)
    define s where "s = snd (shm d ! j)"
    have j: "j < length (shm d)" "shm d ! j = (Some cpu, s)"
      using shm_find_Some [OF Some] by (auto simp: s_def prod_eq_iff)
    let ?d1 = "d\<lparr>shm := (shm d)[j := (None, s)]\<rparr>"
    have no: "\<not> owned d cpu k" for k using j by (auto simp: owned_def own_def)
    define d2 where "d2 = (if s \<noteq> 0 then ave_ipc_free (Some cpu) (unat s) ?d1 else ?d1)"
    have pool: "ipc_pool ?d1 = Some live" using ok by (simp add: dev_ok_with_def)
    have "keeps_own d d2"
      unfolding keeps_own_def
    proof (intro allI impI)
      fix p n assume o: "owned d p n"
      then have "p \<noteq> cpu" using no by auto
      moreover have "owned ?d1 p n" using o shm_clear_own [OF j(1), of s] by (simp add: keeps_own_def)
      ultimately show "owned d2 p n"
        using pool unfolding d2_def
        by (auto simp: owned_def own_def pool_of_def ave_ipc_free_def)
    qed
    then have "keeps_own d (snd (ave_chan_send_fw AVE_CH_SHAREDMALLOC fw 0 0 d2))"
      using send_own keeps_own_trans by blast
    moreover have "shm_free fw d = snd (ave_chan_send_fw AVE_CH_SHAREDMALLOC fw 0 0 d2)"
      using \<open>ave_ipc_fw_to_cpu d fw 1 = Some cpu\<close> Some j(2) by (simp add: shm_free_def Let_def d2_def)
    ultimately show ?thesis by simp
  qed
qed (simp add: shm_free_def)

lemma alloc_own:
  assumes "dev_ok_with d live" "gen_pool_ok gp (ipc_size d)" "ave_ipc_alloc gp n d = (r, d')"
  shows "keeps_own d d'" "\<And>va. r = Some va \<Longrightarrow> owned d' va n \<and> (\<forall>k. \<not> owned d va k)"
    "\<exists>live'. dev_ok_with d' live'" "serve_frame d d'" "boot_view d' = boot_view d"
proof -
  show "boot_view d' = boot_view d" using assms(3) by (rule view_alloc)
  from assms(1,2) have a: "keeps_own d d' \<and> (\<forall>va. r = Some va \<longrightarrow> owned d' va n \<and> (\<forall>k. \<not> owned d va k))
      \<and> (\<exists>live'. dev_ok_with d' live') \<and> serve_frame d d'"
  proof (cases rule: alloc_cases [where n = n])
    case none
    then show ?thesis using assms by auto
  next
    case (some va)
    have d': "r = Some va" "d' = d\<lparr>ipc_pool := Some ((va, n) # live), ipc_mem := poke (ipc_mem d) va (replicate n 0)\<rparr>"
      using assms(3) some(1) by simp_all
    have pool: "ipc_pool d = Some live" using assms(1) by (simp add: dev_ok_with_def)
    have "fst (shm d ! i) \<noteq> Some va" if "i < length (shm d)" for i
    proof
      assume "fst (shm d ! i) = Some va"
      then have "(va, unat (snd (shm d ! i))) \<in> set live"
        using assms(1) that tab_inD [of "shm d" "\<lambda>p s. (p, unat s) \<in> set live \<and> p \<notin> fixed_ptrs d" i va "snd (shm d ! i)"]
        by (simp add: dev_ok_with_def shm_ok_def prod_eq_iff)
      then show False using some(5) by force
    qed
    moreover have "va \<notin> fixed_ptrs d" using assms(1) some(5) by (auto simp: dev_ok_with_def)
    moreover have "\<not> owned d va k" for k using some(5) pool by (force simp: owned_def own_def pool_of_def)
    moreover have "\<exists>live'. dev_ok_with d' live'" using alloc_keeps [OF assms(1) some(4,3)] d'(2) by auto
    ultimately show ?thesis
      using pool by (auto simp: d' keeps_own_def owned_def own_def pool_of_def serve_frame_def obs_ok_def)
  qed
  then show "keeps_own d d'" "\<exists>live'. dev_ok_with d' live'" "serve_frame d d'" by simp_all
  show "\<And>va. r = Some va \<Longrightarrow> owned d' va n \<and> (\<forall>k. \<not> owned d va k)" using a by simp
qed

lemma shm_alloc_own:
  assumes ok: "dev_ok_with d live" and gp: "gen_pool_ok gp (ipc_size d)"
  shows "keeps_own d (shm_alloc gp sz d)"
proof -
  obtain r d1 where a: "ave_ipc_alloc gp (unat sz) d = (r, d1)" by fastforce
  note al = alloc_own [OF ok gp a]
  show ?thesis
  proof (cases r)
    case None
    then show ?thesis using a al(1) by (simp add: shm_alloc_def)
  next
    case (Some va)
    define d2 where "d2 = (case shm_find (shm d1) None 0 of None \<Rightarrow> ave_ipc_free (Some va) (unat sz) d1
      | Some i \<Rightarrow> d1\<lparr>shm := (shm d1)[i := (Some va, sz)]\<rparr>)"
    have "keeps_own d d2"
      unfolding keeps_own_def
    proof (intro allI impI)
      fix p n assume o: "owned d p n"
      then have "p \<noteq> va" "owned d1 p n" using al(1,2) Some by (auto simp: keeps_own_def)
      then show "owned d2 p n"
        using shm_find_Some [of "shm d1" None 0] unfolding d2_def
        by (auto simp: owned_def own_def pool_of_def ave_ipc_free_def nth_list_update split: option.splits if_splits)
    qed
    then have "keeps_own d (snd (ave_chan_send_fw AVE_CH_SHAREDMALLOC (ave_ipc_cpu_to_fw d2 va) sz 0 d2))" "keeps_own d d2"
      using send_own keeps_own_trans by blast+
    then show ?thesis
      using a Some unfolding d2_def by (auto simp: shm_alloc_def Let_def split: option.split)
  qed
qed

lemma drain_msg_own:
  assumes ok: "dev_ok_with d live" and gp: "gen_pool_ok gp (ipc_size d)"
  shows "keeps_own d (snd (drain_msg gp i x d))"
proof -
  obtain fw sz flags where x: "x = (fw, sz, flags)" by (cases x)
  have rx: "keeps_own e (e\<lparr>rx_calls := c\<rparr>)" for e c by (rule keeps_own_same) simp_all
  show ?thesis
    using shm_free_own [OF ok] shm_alloc_own [OF ok gp] line_own send_own [of d i fw sz 0] rx
      keeps_own_trans [OF send_own [of d i fw sz 0] rx]
    by (auto simp: drain_msg_def x ave_ipc_shmalloc_def Let_def)
qed

lemma drain_loop_own:
  "dev_ok_with d live \<Longrightarrow> gen_pool_ok gp (ipc_size d) \<Longrightarrow> ipc_fw_base d AND 3 = 0 \<Longrightarrow>
   keeps_own d (drain_loop gp fuel i d)"
proof (induction fuel arbitrary: d live)
  case (Suc fuel)
  show ?case
  proof (cases "ave_chan_recv_fw i d")
    case (Pair r d1)
    have k1: "keeps_own d d1" by (rule recv_own [OF Pair])
    show ?thesis
    proof (cases r)
      case (Inr x)
      note rc = recv_fw_keeps [OF Suc.prems(1) Pair [unfolded Inr]]
      have s1: "served i d d1" using rc by (auto simp: served_def chan_frame_serve)
      obtain l1 where ok1: "dev_ok_with d1 l1" using s1 by (auto simp: served_def)
      have gp1: "gen_pool_ok gp (ipc_size d1)" "ipc_fw_base d1 AND 3 = 0"
        using s1 Suc.prems(2,3) by (auto simp: served_def serve_frame_def)
      obtain b d2 where m: "drain_msg gp i x d1 = (b, d2)" by fastforce
      have s2: "served i d1 d2" using drain_msg_served [OF ok1 gp1, of x i] rc m by simp
      have k2: "keeps_own d d2" using drain_msg_own [OF ok1 gp1(1), of i x] m keeps_own_trans [OF k1] by simp
      obtain l2 where ok2: "dev_ok_with d2 l2" using s2 by (auto simp: served_def)
      have gp2: "gen_pool_ok gp (ipc_size d2)" "ipc_fw_base d2 AND 3 = 0"
        using s2 gp1 by (auto simp: served_def serve_frame_def)
      have "keeps_own d (drain_loop gp fuel i d2)" using Suc.IH [OF ok2 gp2] k2 keeps_own_trans by blast
      then show ?thesis using Pair Inr m k2 by (cases b) auto
    qed (use Pair k1 in simp)
  qed
qed (simp add: keeps_own_same)

lemma irq_own: "alive gp d \<Longrightarrow> keeps_own d (snd (ave_irq_handler gp d))"
proof -
  have one: "alive gp d \<Longrightarrow> keeps_own d (dispatch_one gp st i d) \<and> alive gp (dispatch_one gp st i d)" for d st i
    using drain_loop_own [of d _ gp "drain_fuel i d" i] drain_alive [of gp d i]
    by (auto simp: dispatch_one_def ave_ipc_drain_def alive_def dev_ok_iff split: option.split)
  have all: "alive gp d \<Longrightarrow> keeps_own d (fold (dispatch_one gp st) is d)" for d st "is"
  proof (induction "is" arbitrary: d)
    case (Cons i "is")
    then show ?case using one [OF Cons.prems, of st i] keeps_own_trans by (metis fold_simps(2))
  qed simp
  have cap: "keeps_own d (irq_capture st d)" for d st
    by (rule keeps_own_same) (simp_all add: irq_capture_def write_status_def Let_def)
  assume a: "alive gp d"
  have "keeps_own d (ave_ipc_irq_dispatch gp st (irq_capture st d))" for st
    unfolding ave_ipc_irq_dispatch_def by (rule keeps_own_trans [OF cap all [OF capture_alive [OF a]]])
  then show "keeps_own d (snd (ave_irq_handler gp d))"
    using cap by (simp add: ave_irq_handler_def Let_def)
qed

lemma env_step_own: "alive gp d \<Longrightarrow> keeps_own d (env_step gp a d)"
proof (cases a)
  case IrqRun
  then show "alive gp d \<Longrightarrow> keeps_own d (env_step gp a d)" by (simp add: env_step_def irq_own)
next
  case (FwReg i v)
  then show ?thesis by (intro keeps_own_same) (simp_all add: env_step_def ave_set_scratch_def)
qed (auto intro!: keeps_own_same simp: env_step_def)

lemma env_run_own: "alive gp d \<Longrightarrow> keeps_own d (env_run gp acts d)"
  unfolding env_run_def
proof (induction acts arbitrary: d)
  case (Cons a acts)
  show ?case
    using Cons.IH [OF env_step_alive [OF Cons.prems, of a]] env_step_own [OF Cons.prems, of a]
    by (auto intro: keeps_own_trans)
qed simp

section \<open>What the driver does with its blocks\<close>

lemma alloc_alive:
  assumes "alive gp d" "ave_ipc_alloc gp n d = (r, d')"
  shows "alive gp d' \<and> keeps_own d d' \<and> boot_view d' = boot_view d
    \<and> (\<forall>va. r = Some va \<longrightarrow> owned d' va n \<and> (\<forall>k. \<not> owned d va k))"
proof -
  obtain live where ok: "dev_ok_with d live" "gen_pool_ok gp (ipc_size d)" using assms(1) by (auto simp: alive_def dev_ok_iff)
  note al = alloc_own [OF ok assms(2)]
  show ?thesis using assms(1) al by (auto simp: alive_def dev_ok_iff serve_frame_def)
qed

lemma owned_inside: "alive gp d \<Longrightarrow> owned d p n \<Longrightarrow> p + n \<le> length (ipc_mem d) \<and> 0 < n"
  using owned_live by (fastforce simp: alive_def dev_ok_iff dev_ok_with_def live_ok_def)

lemma poke_alive:
  assumes "alive gp d" "owned d p n" "length bs \<le> n"
  shows "alive gp (d\<lparr>ipc_mem := poke (ipc_mem d) p bs\<rparr>)" "keeps_own d (d\<lparr>ipc_mem := poke (ipc_mem d) p bs\<rparr>)"
proof -
  have "p + length bs \<le> length (ipc_mem d)" using owned_inside [OF assms(1,2)] assms(3) by simp
  then show "alive gp (d\<lparr>ipc_mem := poke (ipc_mem d) p bs\<rparr>)"
    using env_step_alive [OF assms(1), of "FwMem p bs"] by (simp add: env_step_def)
  show "keeps_own d (d\<lparr>ipc_mem := poke (ipc_mem d) p bs\<rparr>)" by (rule keeps_own_same) simp_all
qed

text \<open>Freeing a block of one's own: the pool reports nothing, and no other block is touched.\<close>

lemma free_alive:
  assumes "alive gp d" "owned d p n"
  shows "alive gp (ave_ipc_free (Some p) n d)" "boot_view (ave_ipc_free (Some p) n d) = boot_view d"
    "\<And>q k. owned d q k \<Longrightarrow> (q, k) \<noteq> (p, n) \<Longrightarrow> owned (ave_ipc_free (Some p) n d) q k"
proof -
  obtain live where ok: "dev_ok_with d live" using assms(1) by (auto simp: alive_def dev_ok_iff)
  have m: "(p, n) \<in> set live" using owned_live [OF ok assms(2)] by simp
  have o: "p \<notin> fixed_ptrs d" "\<forall>i < length (shm d). fst (shm d ! i) \<noteq> Some p" using assms(2) by (auto simp: owned_def own_def)
  note f = free_keeps [OF ok m o]
  show "alive gp (ave_ipc_free (Some p) n d)"
    using assms(1) f(1) unfolding f(2) by (auto simp: alive_def dev_ok_iff obs_ok_def)
  show "boot_view (ave_ipc_free (Some p) n d) = boot_view d" by simp
  fix q k assume q: "owned d q k" "(q, k) \<noteq> (p, n)"
  have pool: "ipc_pool d = Some live" using ok by (simp add: dev_ok_with_def)
  show "owned (ave_ipc_free (Some p) n d) q k"
    using q pool unfolding f(2) by (auto simp: owned_def own_def pool_of_def)
qed

end
