(* ===== verification/Ave_Sess_Up.thy ===== *)
theory Ave_Sess_Up
  imports Ave_Sess_Steps Ave_Sess_Result Ave_Sess_Surfaces Ave_Ipc_Own
begin

text \<open>
  The invariant of a session. \<open>sess_sound\<close> holds from Config on: the device is sound, every
  command buffer of the session is its own in FwIPC, the surfaces are as long as they say.
  \<open>stream_up\<close> holds while a stream runs: the surfaces of every coded slot are there, and lie
  in memory that is still allocated.
\<close>

section \<open>Definitions\<close>

definition cmds_ok :: "sess_env \<Rightarrow> ave_sess_bufs \<Rightarrow> bool" where
  "cmds_ok en b \<longleftrightarrow> distinct (sp_ipc (sb_pool b))
     \<and> (\<forall>c iova. (Some c, iova) \<in> set (sb_proc_cmd b) \<longrightarrow>
          (c, ave_cmd_size (en_abi en) (proc_op b)) \<in> set (sp_ipc (sb_pool b)))"

definition mp_in_ok :: "ave_sess_bufs \<Rightarrow> bool" where
  "mp_in_ok b \<longleftrightarrow> length (sb_mp_in b) = AVE_SESS_FRAMES_MAX
     \<and> (\<forall>d \<in> set (sb_mp_in b). case fst d of None \<Rightarrow> True | Some m \<Rightarrow> AVE_MP_IN_FIRST \<le> length m)"

definition sess_sound :: "sess_env \<Rightarrow> sess_st \<Rightarrow> bool" where
  "sess_sound en s \<longleftrightarrow>
     alive (en_gp en) (st_dev s) \<and> (\<forall>(p, n) \<in> set (sp_ipc (sb_pool (st_bufs s))). owned (st_dev s) p n)
   \<and> rx_wf (st_rx s) \<and> lab_ok (st_lab s) \<and> bufs_ok (st_bufs s)
   \<and> unat (sb_psets_size (st_bufs s)) \<le> 0x1000 \<and> mp_in_ok (st_bufs s) \<and> cmds_ok en (st_bufs s)"

definition backed :: "(u64 \<times> u64) list \<Rightarrow> 'a surface_scheme \<Rightarrow> bool" where
  "backed live sf \<longleftrightarrow> sf_cpu sf \<noteq> None \<and> (sf_iova sf, ucast (sf_size sf)) \<in> set live"

definition slot_up :: "ave_sess_bufs \<Rightarrow> nat \<Rightarrow> bool" where
  "slot_up b idx \<longleftrightarrow> slot_ok b idx \<and> backed (sp_dma (sb_pool b)) (sb_coded b ! idx)
     \<and> backed (sp_dma (sb_pool b)) (sb_coded_hdr b ! idx)
     \<and> (sess_hevc b \<longrightarrow> backed (sp_dma (sb_pool b)) (sb_slice_hdr b ! idx))"

definition slots_up :: "ave_sess_bufs \<Rightarrow> bool" where
  "slots_up b \<longleftrightarrow> (\<forall>idx < unat (sb_n_coded b). slot_up b idx)"

text \<open>The count of CABAC zero words in a coded header, from which three bytes each are added in 32 bits.
  HEVC has none.\<close>

definition count_ok :: "sess_env \<Rightarrow> ave_sess_bufs \<Rightarrow> nat \<Rightarrow> bool" where
  "count_ok en b idx \<longleftrightarrow>
     (let off = dh_cabac_zero_words (ab_coded_hdr (en_abi en))
      in off = AVE_OFF_NONE
       \<or> (case sf_cpu (sb_coded_hdr b ! idx) of
            None \<Rightarrow> True
          | Some h \<Rightarrow> unat off + 4 \<le> length h \<longrightarrow> 3 * unat (get_le32 h (unat off)) < 2 ^ 32))"

definition words_ok :: "sess_env \<Rightarrow> ave_sess_bufs \<Rightarrow> bool" where
  "words_ok en b \<longleftrightarrow> sess_hevc b \<or> (\<forall>idx < unat (sb_n_coded b). count_ok en b idx)"

definition stream_up :: "sess_env \<Rightarrow> sess_st \<Rightarrow> bool" where
  "stream_up en s \<longleftrightarrow> sess_sound en s \<and> slots_up (st_bufs s) \<and> words_ok en (st_bufs s)"

text \<open>What a run relies on: a known interface and the kernel's allocators. Of the firmware, in an H.264
  stream only, that no burst of its writes leaves a coded header with a count of CABAC zero words whose
  triple passes 32 bits (the code does not check it); \<open>h\<close> says whether the stream is HEVC.\<close>

definition env_ok :: "sess_env \<Rightarrow> bool" where
  "env_ok en \<longleftrightarrow> known_abi (en_abi en) \<and> vmalloc_ok (en_vm en) \<and> dma_ok (en_dma en)"

definition words_kept :: "sess_env \<Rightarrow> bool \<Rightarrow> cmd_env \<Rightarrow> bool" where
  "words_kept en h ce \<longleftrightarrow>
     h \<or> (\<forall>b idx. count_ok en b idx \<longrightarrow> count_ok en (surf_run (ce_surf ce) b) idx)"

lemma words_kept_hevc [simp]: "words_kept en True ce"
  by (simp add: words_kept_def)

lemma count_fits:
  assumes "known_abi (en_abi en)" "sess_hevc b \<or> count_ok en b idx"
  shows "words_fit en b idx"
proof -
  have "3 * unat (ci_cabac_zero_words i) < 2 ^ 32" if i: "hdr_info en b idx = Ok i" for i
  proof -
    obtain h where h: "en_abi en = ave_cmd_abi_13_5" "sf_cpu (sb_coded_hdr b ! idx) = Some h" "0x22c60 \<le> length h"
      using hdr_info_13_5 [OF assms(1) i] by blast
    show ?thesis
      using assms(2) h hdr_info_words [OF assms(1) i h(2)]
      by (auto simp: count_ok_def coded_hdr_13_5_fields layout_consts Let_def)
  qed
  then show ?thesis by (simp add: words_fit_def split: cres.split)
qed

text \<open>Writes beside the count, and writes of a small one, keep it.\<close>

definition small_count :: "sess_env \<Rightarrow> surf_act \<Rightarrow> bool" where
  "small_count en a \<longleftrightarrow> (case a of
       SurfHdr i off bs \<Rightarrow>
         (let w = unat (dh_cabac_zero_words (ab_coded_hdr (en_abi en)))
          in off + length bs \<le> w \<or> w + 4 \<le> off \<or> off = w \<and> (\<exists>v. bs = put_le32 v \<and> 3 * unat v < 2 ^ 32))
     | _ \<Rightarrow> True)"

lemma count_step:
  assumes "count_ok en b idx" "small_count en a"
  shows "count_ok en (surf_step a b) idx"
proof (cases a)
  case (SurfHdr i off bs)
  let ?c = "sb_coded_hdr b ! idx" and ?w = "unat (dh_cabac_zero_words (ab_coded_hdr (en_abi en)))"
  show ?thesis
  proof (cases "i = idx \<and> i < length (sb_coded_hdr b)")
    case True
    have e: "sf_cpu (sb_coded_hdr (surf_step a b) ! idx) = surf_poke off bs (sf_cpu ?c)"
      using True by (simp add: SurfHdr surf_step_def)
    define fits where "fits m \<longleftrightarrow> (?w + 4 \<le> length m \<longrightarrow> 3 * unat (get_le32 m ?w) < 2 ^ 32)" for m
    have p: "fits (if off + length bs \<le> length m then poke m off bs else m)" if "fits m" for m
    proof -
      have "(off + length bs \<le> ?w \<or> ?w + 4 \<le> off) \<or> off = ?w \<and> (\<exists>v. bs = put_le32 v \<and> 3 * unat v < 2 ^ 32)"
        using assms(2) unfolding small_count_def SurfHdr surf_act.case Let_def by blast
      then show ?thesis
      proof
        assume o: "off + length bs \<le> ?w \<or> ?w + 4 \<le> off"
        then have "get_le32 (poke m off bs) ?w = get_le32 m ?w" if "off + length bs \<le> length m"
          using get_le32_poke_other [OF that, of ?w] by blast
        then show ?thesis using that by (simp add: fits_def)
      next
        assume "off = ?w \<and> (\<exists>v. bs = put_le32 v \<and> 3 * unat v < 2 ^ 32)"
        then obtain v where v: "off = ?w" "bs = put_le32 v" "3 * unat v < 2 ^ 32" by blast
        then have "get_le32 (poke m off bs) ?w = v" if "off + length bs \<le> length m"
          using get_le32_poke_same [OF that] by simp
        then show ?thesis using that v(3) by (simp add: fits_def)
      qed
    qed
    have f: "count_ok en x idx \<longleftrightarrow> dh_cabac_zero_words (ab_coded_hdr (en_abi en)) = AVE_OFF_NONE
        \<or> (case sf_cpu (sb_coded_hdr x ! idx) of None \<Rightarrow> True | Some h \<Rightarrow> fits h)" for x
      unfolding count_ok_def Let_def fits_def by (rule refl)
    show ?thesis
    proof (cases "sf_cpu ?c")
      case None
      then show ?thesis by (simp add: f e surf_poke_def)
    next
      case (Some m)
      then show ?thesis using assms(1) p [of m] unfolding f e surf_poke_def by auto
    qed
  next
    case False
    then have "sb_coded_hdr (surf_step a b) ! idx = ?c"
      by (cases "i < length (sb_coded_hdr b)") (auto simp: SurfHdr surf_step_def list_update_beyond)
    then show ?thesis using assms(1) by (simp add: count_ok_def)
  qed
qed (use assms(1) in \<open>simp_all add: count_ok_def surf_step_def\<close>)

lemma small_counts_kept:
  assumes "list_all (small_count en) (ce_surf ce)"
  shows "words_kept en h ce"
proof -
  have "count_ok en b idx \<Longrightarrow> list_all (small_count en) as \<Longrightarrow> count_ok en (fold surf_step as b) idx" for b idx "as"
    by (induction "as" arbitrary: b) (simp_all add: count_step)
  then show ?thesis using assms by (simp add: words_kept_def surf_run_def)
qed

section \<open>What the invariant looks at\<close>

definition sf_of :: "'a surface_scheme \<Rightarrow> u8 list option \<times> u64 \<times> u32" where
  "sf_of c = (sf_cpu c, sf_iova c, sf_size c)"

text \<open>The surfaces, as far as a slot is concerned, and the rest of what \<open>sess_sound\<close> asks.\<close>

definition surfs where
  "surfs b = ((map sf_of (sb_coded b), sb_coded_hdr b, sb_slice_hdr b), sb_n_coded b, sc_codec (sb_cfg b), sl_mp_rec (sb_lat b))"

definition core where
  "core b = (surfs b, sb_psets_size b, sb_proc_cmd b, sb_mp_in b)"

lemma surfs_fields:
  assumes "surfs b' = surfs b"
  shows "sb_n_coded b' = sb_n_coded b" "sess_hevc b' = sess_hevc b"
    "proc_op b' = proc_op b" "sb_coded_hdr b' = sb_coded_hdr b" "sb_slice_hdr b' = sb_slice_hdr b"
    "sl_mp_rec (sb_lat b') = sl_mp_rec (sb_lat b)" "map sf_of (sb_coded b') = map sf_of (sb_coded b)"
  using assms by (simp_all add: surfs_def sess_hevc_def proc_op_def)

lemma core_fields:
  assumes "core b' = core b"
  shows "surfs b' = surfs b" "sb_proc_cmd b' = sb_proc_cmd b" "sb_mp_in b' = sb_mp_in b" "sb_psets_size b' = sb_psets_size b"
  using assms by (simp_all add: core_def)

lemma core_coded:
  assumes "map sf_of cs' = map sf_of (cs :: 'a surface_scheme list)" "idx < length cs"
  shows "sf_cpu (cs' ! idx) = sf_cpu (cs ! idx)" "sf_iova (cs' ! idx) = sf_iova (cs ! idx)" "sf_size (cs' ! idx) = sf_size (cs ! idx)"
proof -
  have "length cs' = length cs" using assms(1) by (rule map_eq_imp_length_eq)
  then have "sf_of (cs' ! idx) = sf_of (cs ! idx)" using assms by (metis nth_map)
  then show "sf_cpu (cs' ! idx) = sf_cpu (cs ! idx)" "sf_iova (cs' ! idx) = sf_iova (cs ! idx)" "sf_size (cs' ! idx) = sf_size (cs ! idx)"
    by (simp_all add: sf_of_def)
qed

lemma slots_cong:
  assumes "surfs b' = surfs b" "bufs_ok b" "set (sp_dma (sb_pool b)) \<subseteq> set (sp_dma (sb_pool b'))"
  shows "slots_up b \<Longrightarrow> slots_up b'" "words_ok en b \<Longrightarrow> words_ok en b'"
proof -
  note f = surfs_fields [OF assms(1)]
  have n: "idx < length (sb_coded b)" if "idx < unat (sb_n_coded b)" for idx
    using that assms(2) by (simp add: bufs_ok_def)
  note c = core_coded [OF f(7) n]
  show "slots_up b \<Longrightarrow> slots_up b'"
    using assms(3) by (auto simp: slots_up_def slot_up_def slot_ok_def backed_def f c)
  show "words_ok en b \<Longrightarrow> words_ok en b'"
    by (simp add: words_ok_def count_ok_def f)
qed

text \<open>Steps that only change the session's own notes.\<close>

lemma sound_bufs:
  assumes "sess_sound en s" "core b' = core (st_bufs s)" "bufs_ok b'" "sp_ipc (sb_pool b') = sp_ipc (sb_pool (st_bufs s))"
  shows "sess_sound en (s\<lparr>st_bufs := b'\<rparr>)"
  using assms(1,3,4) core_fields [OF assms(2)] surfs_fields(3) [OF core_fields(1) [OF assms(2)]] by (simp add: sess_sound_def cmds_ok_def mp_in_ok_def)

lemma up_bufs:
  assumes "stream_up en s" "core b' = core (st_bufs s)" "bufs_ok b'" "sp_ipc (sb_pool b') = sp_ipc (sb_pool (st_bufs s))"
    "set (sp_dma (sb_pool (st_bufs s))) \<subseteq> set (sp_dma (sb_pool b'))"
  shows "stream_up en (s\<lparr>st_bufs := b'\<rparr>)"
  using assms sound_bufs [of en s b'] slots_cong [OF core_fields(1) [OF assms(2)] _ assms(5)]
  by (simp add: stream_up_def sess_sound_def)

section \<open>What the firmware writes\<close>

lemma poke_some: "surf_poke off bs cpu = None \<longleftrightarrow> cpu = None"
  by (simp add: surf_poke_def)

lemma poke_length: "surf_poke off bs cpu = Some m' \<Longrightarrow> \<exists>m. cpu = Some m \<and> length m' = length m"
  by (auto simp: surf_poke_def split: option.splits)

text \<open>Two lists of surfaces alike but for what is in them.\<close>

definition same_shape :: "'a surface_scheme \<Rightarrow> 'a surface_scheme \<Rightarrow> bool" where
  "same_shape c c' \<longleftrightarrow> map_option length (sf_cpu c') = map_option length (sf_cpu c) \<and> sf_iova c' = sf_iova c
     \<and> sf_size c' = sf_size c"

definition shaped :: "ave_sess_bufs \<Rightarrow> ave_sess_bufs \<Rightarrow> bool" where
  "shaped b b' \<longleftrightarrow> list_all2 same_shape (sb_coded b) (sb_coded b') \<and> list_all2 same_shape (sb_coded_hdr b) (sb_coded_hdr b')
     \<and> list_all2 same_shape (sb_slice_hdr b) (sb_slice_hdr b')
     \<and> sb_pool b' = sb_pool b \<and> sb_n_coded b' = sb_n_coded b \<and> sb_psets_size b' = sb_psets_size b
     \<and> sb_proc_cmd b' = sb_proc_cmd b \<and> sb_mp_in b' = sb_mp_in b \<and> sb_cfg b' = sb_cfg b \<and> sb_lat b' = sb_lat b"

lemma same_shape_refl [simp]: "same_shape c c"
  by (simp add: same_shape_def)

lemma shape_all_refl [simp]: "list_all2 same_shape cs cs"
  by (simp add: list_all2_same)

lemma shaped_refl [simp]: "shaped b b"
  by (simp add: shaped_def)

lemma same_shape_trans: "same_shape a b \<Longrightarrow> same_shape b c \<Longrightarrow> same_shape a c"
  by (simp add: same_shape_def)

lemma shaped_trans: "shaped a b \<Longrightarrow> shaped b c \<Longrightarrow> shaped a c"
  unfolding shaped_def by (auto intro: list_all2_trans [OF same_shape_trans])

lemma shape_update:
  "same_shape (cs ! i) c \<Longrightarrow> list_all2 same_shape cs (cs[i := c])"
  by (cases "i < length cs") (auto simp: list_all2_conv_all_nth nth_list_update list_update_beyond)

lemma surf_step_shaped: "shaped b (surf_step a b)"
proof -
  have p: "same_shape c (c\<lparr>sf_cpu := surf_poke off bs (sf_cpu c)\<rparr>)" for c :: "'b surface_scheme" and off bs
    by (cases "sf_cpu c") (simp_all add: same_shape_def surf_poke_def)
  show ?thesis
    by (cases a) (auto simp: shaped_def surf_step_def intro!: shape_update p)
qed

lemma surf_run_shaped: "shaped b (surf_run acts b)"
  unfolding surf_run_def
proof (induction acts arbitrary: b)
  case (Cons a acts)
  show ?case using shaped_trans [OF surf_step_shaped Cons.IH, of b a] by simp
qed simp

lemma shape_some: "same_shape c c' \<Longrightarrow> sf_cpu c' = None \<longleftrightarrow> sf_cpu c = None"
  by (auto simp: same_shape_def)

lemma shape_backed: "same_shape c c' \<Longrightarrow> backed live c \<Longrightarrow> backed live c'"
  using shape_some [of c c'] by (simp add: backed_def same_shape_def)

lemma shaped_slots:
  assumes "shaped b b'" "slots_up b" "bufs_ok b"
  shows "slots_up b'"
proof -
  have f: "sb_pool b' = sb_pool b" "sb_n_coded b' = sb_n_coded b" "sess_hevc b' = sess_hevc b" "sb_lat b' = sb_lat b"
    using assms(1) by (simp_all add: shaped_def sess_hevc_def)
  have "slot_up b' idx" if "idx < unat (sb_n_coded b)" for idx
  proof -
    have up: "slot_up b idx" using assms(2) that by (simp add: slots_up_def)
    have i: "idx < length (sb_coded b)" "idx < length (sb_coded_hdr b)" "idx < length (sb_slice_hdr b)"
      using up assms(3) by (simp_all add: slot_up_def slot_ok_def bufs_ok_def)
    have s: "same_shape (sb_coded b ! idx) (sb_coded b' ! idx)" "same_shape (sb_coded_hdr b ! idx) (sb_coded_hdr b' ! idx)"
      "same_shape (sb_slice_hdr b ! idx) (sb_slice_hdr b' ! idx)"
      using assms(1) i by (auto simp: shaped_def list_all2_conv_all_nth)
    have "sl_mp_rec (sb_lat b) \<longrightarrow> (\<exists>h. sf_cpu (sb_coded_hdr b' ! idx) = Some h \<and> AVE_MP_REC_OFF + AVE_MP_REC_SIZE \<le> length h)"
      using up s(2) by (auto simp: slot_up_def slot_ok_def same_shape_def)
    moreover have "sf_size (sb_coded b' ! idx) = sf_size (sb_coded b ! idx)" "sf_iova (sb_slice_hdr b' ! idx) = sf_iova (sb_slice_hdr b ! idx)"
      using s by (simp_all add: same_shape_def)
    ultimately have "slot_ok b' idx"
      using up shape_some [OF s(1)] shape_some [OF s(3)] by (auto simp: slot_up_def slot_ok_def f)
    then show ?thesis
      using up shape_backed [OF s(1)] shape_backed [OF s(2)] shape_backed [OF s(3)] by (auto simp: slot_up_def f)
  qed
  then show ?thesis by (simp add: slots_up_def f)
qed

lemma shaped_sound:
  assumes "sess_sound en s" "shaped (st_bufs s) b'" "bufs_ok b'"
  shows "sess_sound en (s\<lparr>st_bufs := b'\<rparr>)"
  using assms by (simp add: sess_sound_def shaped_def cmds_ok_def mp_in_ok_def proc_op_def sess_hevc_def)

lemma surf_run_up:
  assumes "stream_up en s" "words_kept en (sess_hevc (st_bufs s)) ce"
  shows "stream_up en (s\<lparr>st_bufs := surf_run (ce_surf ce) (st_bufs s)\<rparr>)"
proof -
  let ?b = "surf_run (ce_surf ce) (st_bufs s)"
  have b: "bufs_ok (st_bufs s)" using assms(1) by (simp add: stream_up_def sess_sound_def)
  have "sess_sound en (s\<lparr>st_bufs := ?b\<rparr>)"
    using assms(1) surf_run_shaped surf_run_ok [OF b] by (intro shaped_sound) (auto simp: stream_up_def)
  moreover have "sess_hevc ?b = sess_hevc (st_bufs s)" "sb_n_coded ?b = sb_n_coded (st_bufs s)"
    using surf_run_shaped [of "st_bufs s" "ce_surf ce"] by (simp_all add: shaped_def sess_hevc_def)
  then have "words_ok en ?b"
    using assms by (auto simp: stream_up_def words_ok_def words_kept_def)
  ultimately show ?thesis
    using assms(1) shaped_slots [OF surf_run_shaped _ b, of "ce_surf ce"] by (simp add: stream_up_def)
qed

end
