(* ===== verification/Ave_Sess_Safe.thy ===== *)
theory Ave_Sess_Safe
  imports Ave_Sess_Up Ave_Sess_Pass Ave_Cmd_Safe
begin

text \<open>
  A running stream stays up, and no step of it leaves a buffer: building a frame, sending it,
  taking in the result, frame by frame and in a batch, whatever the firmware does, short of an H.264
  header with so many CABAC zero words that their bytes overflow the sum (\<open>words_kept\<close>).
\<close>

section \<open>Device and allocations\<close>

text \<open>A running stream of a given codec and slot count.\<close>

definition stream_on :: "sess_env \<Rightarrow> bool \<Rightarrow> u32 \<Rightarrow> sess_st \<Rightarrow> bool" where
  "stream_on en h n s \<longleftrightarrow> stream_up en s \<and> sess_hevc (st_bufs s) = h \<and> sb_n_coded (st_bufs s) = n"

lemma on_bufs:
  assumes "stream_on en h n s" "core b' = core (st_bufs s)" "bufs_ok b'" "sp_ipc (sb_pool b') = sp_ipc (sb_pool (st_bufs s))"
    "set (sp_dma (sb_pool (st_bufs s))) \<subseteq> set (sp_dma (sb_pool b'))"
  shows "stream_on en h n (s\<lparr>st_bufs := b'\<rparr>)"
  using assms up_bufs [of en s b'] surfs_fields [OF core_fields(1) [OF assms(2)]] by (simp add: stream_on_def)

lemma on_facts:
  assumes "stream_on en h n s"
  shows "bufs_ok (st_bufs s)" "sess_sound en s" "\<And>idx. idx < unat n \<Longrightarrow> slot_up (st_bufs s) idx"
    "\<And>idx. idx < unat n \<Longrightarrow> sess_hevc (st_bufs s) \<or> count_ok en (st_bufs s) idx" "sess_hevc (st_bufs s) = h" "sb_n_coded (st_bufs s) = n"
  using assms by (auto simp: stream_on_def stream_up_def sess_sound_def slots_up_def words_ok_def)

lemma dma_up: "triple (stream_on en h n) (s_dma_alloc en sz) (\<lambda>_. stream_on en h n) E"
proof (rule tripleI)
  fix s r s' assume up: "stream_on en h n s" and m: "s_dma_alloc en sz s = (r, s')"
  obtain q p where a: "ave_sess_dma_alloc (en_dma en) sz (sb_pool (st_bufs s)) = (q, p)" by fastforce
  have ipc: "sp_ipc p = sp_ipc (sb_pool (st_bufs s))"
    using a by (auto simp: ave_sess_dma_alloc_def split: if_splits option.splits)
  have "r = Ok q" "s' = s\<lparr>st_bufs := (st_bufs s)\<lparr>sb_pool := p\<rparr>\<rparr>" using m a by (simp_all add: s_dma_alloc_def)
  moreover have "stream_on en h n (s\<lparr>st_bufs := (st_bufs s)\<lparr>sb_pool := p\<rparr>\<rparr>)"
    using dma_alloc_grows [OF a] ipc up on_facts(1) [OF up]
    by (intro on_bufs) (simp_all add: core_def surfs_def bufs_ok_def)
  ultimately show "r \<noteq> Fault \<and> (\<forall>x. r = Ok x \<longrightarrow> stream_on en h n s') \<and> (\<forall>e. r = Err e \<longrightarrow> E s')" by simp
qed

text \<open>A change of the device that keeps what the session owns.\<close>

lemma sound_dev:
  assumes "sess_sound en s" "alive (en_gp en) d" "keeps_own (st_dev s) d"
  shows "sess_sound en (s\<lparr>st_dev := d\<rparr>)"
  using assms by (auto simp: sess_sound_def keeps_own_def)

lemma up_dev: "stream_up en s \<Longrightarrow> alive (en_gp en) d \<Longrightarrow> keeps_own (st_dev s) d \<Longrightarrow> stream_up en (s\<lparr>st_dev := d\<rparr>)"
  by (simp add: stream_up_def sound_dev)

lemma up_rx: "stream_up en s \<Longrightarrow> rx_wf rx \<Longrightarrow> stream_up en (s\<lparr>st_rx := rx\<rparr>)"
  by (simp add: stream_up_def sess_sound_def)

lemma ipc_alloc_pool:
  assumes "sess_sound en s" "ave_sess_ipc_alloc (en_gp en) n (sb_pool (st_bufs s)) (st_dev s) = (r, p, d)"
  shows "alive (en_gp en) d" "keeps_own (st_dev s) d" "sp_dma p = sp_dma (sb_pool (st_bufs s))"
    "case r of None \<Rightarrow> p = sb_pool (st_bufs s)
     | Some va \<Rightarrow> sp_ipc p = sp_ipc (sb_pool (st_bufs s)) @ [(va, n)] \<and> owned d va n \<and> (va, n) \<notin> set (sp_ipc (sb_pool (st_bufs s)))"
proof -
  have a: "alive (en_gp en) (st_dev s)" "\<And>q k. (q, k) \<in> set (sp_ipc (sb_pool (st_bufs s))) \<Longrightarrow> owned (st_dev s) q k"
    using assms(1) by (auto simp: sess_sound_def)
  obtain r1 d1 where al: "ave_ipc_alloc (en_gp en) n (st_dev s) = (r1, d1)" by fastforce
  note k = alloc_alive [OF a(1) al]
  have c: "r = None \<and> p = sb_pool (st_bufs s) \<and> d = st_dev s \<or> r = None \<and> p = sb_pool (st_bufs s) \<and> d = d1
      \<or> (\<exists>va. r = Some va \<and> r1 = Some va \<and> d = d1
           \<and> p = (sb_pool (st_bufs s))\<lparr>sp_ipc := sp_ipc (sb_pool (st_bufs s)) @ [(va, n)]\<rparr>)"
    using assms(2) al by (auto simp: ave_sess_ipc_alloc_def split: if_splits option.splits)
  show "alive (en_gp en) d" "keeps_own (st_dev s) d" using c k a(1) by auto
  show "sp_dma p = sp_dma (sb_pool (st_bufs s))" using c by auto
  have "(va, n) \<notin> set (sp_ipc (sb_pool (st_bufs s)))" if "r1 = Some va" for va
    using k that a(2) by blast
  then show "case r of None \<Rightarrow> p = sb_pool (st_bufs s)
     | Some va \<Rightarrow> sp_ipc p = sp_ipc (sb_pool (st_bufs s)) @ [(va, n)] \<and> owned d va n \<and> (va, n) \<notin> set (sp_ipc (sb_pool (st_bufs s)))"
    using c k by auto
qed

text \<open>What an allocation of a command buffer leaves, in whatever state the surfaces are.\<close>

definition same_but_pool :: "sess_st \<Rightarrow> sess_st \<Rightarrow> bool" where
  "same_but_pool s s' \<longleftrightarrow> (\<exists>p d. s' = s\<lparr>st_bufs := (st_bufs s)\<lparr>sb_pool := p\<rparr>, st_dev := d\<rparr>
     \<and> set (sp_dma (sb_pool (st_bufs s))) \<subseteq> set (sp_dma p))"

lemma ipc_alloc_sound:
  assumes "sess_sound en s" "s_ipc_alloc en n s = (r, s')"
  shows "sess_sound en s' \<and> same_but_pool s s' \<and> (\<exists>q. r = Ok q \<and> (\<forall>va. q = Some va \<longrightarrow> (va, n) \<in> set (sp_ipc (sb_pool (st_bufs s')))))
    \<and> sp_dma (sb_pool (st_bufs s')) = sp_dma (sb_pool (st_bufs s))"
proof -
  obtain q p d where a: "ave_sess_ipc_alloc (en_gp en) n (sb_pool (st_bufs s)) (st_dev s) = (q, p, d)" by (metis prod_cases3)
  note k = ipc_alloc_pool [OF assms(1) a]
  have s': "r = Ok q" "s' = s\<lparr>st_bufs := (st_bufs s)\<lparr>sb_pool := p\<rparr>, st_dev := d\<rparr>" using assms(2) a by (simp_all add: s_ipc_alloc_def)
  have sub: "set (sp_ipc (sb_pool (st_bufs s))) \<subseteq> set (sp_ipc p)" "distinct (sp_ipc (sb_pool (st_bufs s))) \<Longrightarrow> distinct (sp_ipc p)"
    using k(4) by (auto split: option.splits)
  have "\<forall>(q, k) \<in> set (sp_ipc p). owned d q k"
    using k(2,4) assms(1) by (auto simp: sess_sound_def keeps_own_def split: option.splits)
  moreover have "cmds_ok en ((st_bufs s)\<lparr>sb_pool := p\<rparr>)"
    using assms(1) sub subsetD [OF sub(1)]
    by (simp add: sess_sound_def cmds_ok_def proc_op_def sess_hevc_def)
  ultimately have "sess_sound en s'"
    using assms(1) k(1) by (simp add: s' sess_sound_def bufs_ok_def mp_in_ok_def)
  then show ?thesis using s' k(3,4) by (auto simp: same_but_pool_def)
qed

lemma pool_up: "stream_up en s \<Longrightarrow> same_but_pool s s' \<Longrightarrow> sess_sound en s' \<Longrightarrow> stream_up en s'"
proof -
  assume up: "stream_up en s" and p: "same_but_pool s s'" and s: "sess_sound en s'"
  obtain p d where s': "s' = s\<lparr>st_bufs := (st_bufs s)\<lparr>sb_pool := p\<rparr>, st_dev := d\<rparr>"
    and sub: "set (sp_dma (sb_pool (st_bufs s))) \<subseteq> set (sp_dma p)"
    using p by (auto simp: same_but_pool_def)
  show "stream_up en s'"
    using up s slots_cong [of "st_bufs s'" "st_bufs s"] sub by (simp add: s' stream_up_def sess_sound_def surfs_def)
qed

lemma ipc_up:
  "triple (stream_on en h n) (s_ipc_alloc en len)
     (\<lambda>q s. stream_on en h n s \<and> (\<forall>va. q = Some va \<longrightarrow> (va, len) \<in> set (sp_ipc (sb_pool (st_bufs s))))) E"
proof (rule tripleI)
  fix s r s' assume on: "stream_on en h n s" and m: "s_ipc_alloc en len s = (r, s')"
  note a = ipc_alloc_sound [OF on_facts(2) [OF on] m]
  have "stream_up en s'" using pool_up [of en s s'] a on by (simp add: stream_on_def)
  moreover have "sess_hevc (st_bufs s') = sess_hevc (st_bufs s)" "sb_n_coded (st_bufs s') = sb_n_coded (st_bufs s)"
    using a by (auto simp: same_but_pool_def sess_hevc_def)
  ultimately have "stream_on en h n s'" using on by (simp add: stream_on_def)
  then show "r \<noteq> Fault \<and> (\<forall>x. r = Ok x \<longrightarrow> stream_on en h n s' \<and> (\<forall>va. x = Some va \<longrightarrow> (va, len) \<in> set (sp_ipc (sb_pool (st_bufs s')))))
      \<and> (\<forall>e. r = Err e \<longrightarrow> E s')"
    using a by auto
qed

text \<open>Running a builder on one of the session's command buffers.\<close>

lemma build_sound:
  assumes "sess_sound en s" "(cpu, n) \<in> set (sp_ipc (sb_pool (st_bufs s)))"
    "\<And>buf. length (snd (build buf)) = length buf" "s_build cpu n build s = (r, s')"
  shows "r \<noteq> Fault \<and> (\<exists>d. s' = s\<lparr>st_dev := d\<rparr> \<and> alive (en_gp en) d \<and> keeps_own (st_dev s) d)"
proof -
  have a: "alive (en_gp en) (st_dev s)" "owned (st_dev s) cpu n" using assms(1,2) by (auto simp: sess_sound_def)
  obtain q buf where b: "build (peek (ipc_mem (st_dev s)) cpu n) = (q, buf)" by fastforce
  have "length buf \<le> n" using assms(3) [of "peek (ipc_mem (st_dev s)) cpu n"] b by (simp add: peek_def)
  from poke_alive [OF a this] show ?thesis
    using assms(4) b by (auto simp: s_build_def Let_def split: sum.splits)
qed


section \<open>Building a frame\<close>

text \<open>Notes of the session that no surface depends on.\<close>

lemma note_up:
  assumes "\<And>b. core (f b) = core b" "\<And>b. bufs_ok b \<Longrightarrow> bufs_ok (f b)" "\<And>b. sb_pool (f b) = sb_pool b"
  shows "triple (stream_on en h n) (s_bufs f) (\<lambda>_. stream_on en h n) E"
proof (rule t_bufs)
  fix s assume on: "stream_on en h n s"
  show "stream_on en h n (s\<lparr>st_bufs := f (st_bufs s)\<rparr>)" using on on_facts(1) [OF on] assms by (intro on_bufs) simp_all
qed

lemma own_planes_up: "triple (stream_on en h n) (own_planes en idx) (\<lambda>_. stream_on en h n) (stream_on en h n)"
proof -
  have "triple (stream_on en h n) (own_planes en idx) (\<lambda>_. stream_on en h n) (stream_on en h n)"
    unfolding own_planes_def Let_def
    by (rule t_bind [where Q = "\<lambda>_. stream_on en h n"])
      (auto intro!: t_get t_if t_prod t_ret t_bind [where Q = "\<lambda>_. stream_on en h n"] dma_up t_option t_err)
  then show ?thesis .
qed

lemma proc_source_up: "triple (stream_on en h n) (proc_source en idx) (\<lambda>_. stream_on en h n) (stream_on en h n)"
proof -
  have n: "triple (stream_on en h n) (s_bufs (\<lambda>b. b\<lparr>sb_src := (sb_src b)[idx := r], sb_stride := st\<rparr>)) (\<lambda>_. stream_on en h n) (stream_on en h n)"
    for r st by (rule note_up) (simp_all add: core_def surfs_def bufs_ok_def)
  show ?thesis
    unfolding proc_source_def
    by (intro t_bind [where Q = "\<lambda>_. stream_on en h n"] t_then [where Q = "stream_on en h n"] t_get t_if t_prod t_ret n
        own_planes_up t_fail_if)
qed

lemma proc_recon_up: "triple (stream_on en h n) (proc_recon en) (\<lambda>_. stream_on en h n) (stream_on en h n)"
proof -
  have n: "triple (stream_on en h n) (s_bufs (\<lambda>b. b\<lparr>sb_pic_recon := Some a\<rparr>)) (\<lambda>_. stream_on en h n) (stream_on en h n)" for a
    by (rule note_up) (simp_all add: core_def surfs_def bufs_ok_def)
  show ?thesis
    unfolding proc_recon_def Let_def
    by (intro t_bind [where Q = "\<lambda>_. stream_on en h n"] t_then [where Q = "stream_on en h n"] t_get t_option t_ret t_err n dma_up)
qed


lemma cmd_buf_up:
  assumes "len = ave_cmd_size (en_abi en) (if h then AVE_OP_PROCESS_HEVC else AVE_OP_PROCESS_AVC)" "idx < AVE_SESS_FRAMES_MAX"
  shows "triple (stream_on en h n) (proc_cmd_buf en idx len)
     (\<lambda>(cpu, iova) s. stream_on en h n s \<and> (cpu, len) \<in> set (sp_ipc (sb_pool (st_bufs s)))) (stream_on en h n)"
proof -
  have op: "len = ave_cmd_size (en_abi en) (proc_op b)" if "sess_hevc b = h" for b
    using assms(1) that by (simp add: proc_op_def)
  have new: "triple (\<lambda>s. stream_on en h n s \<and> (cpu, len) \<in> set (sp_ipc (sb_pool (st_bufs s))))
      (s_bufs (\<lambda>b. b\<lparr>sb_proc_cmd := (sb_proc_cmd b)[idx := (Some cpu, iova)]\<rparr>))
      (\<lambda>_ s. stream_on en h n s \<and> (cpu, len) \<in> set (sp_ipc (sb_pool (st_bufs s)))) (stream_on en h n)" for cpu iova
  proof (rule t_bufs)
    fix s assume a: "stream_on en h n s \<and> (cpu, len) \<in> set (sp_ipc (sb_pool (st_bufs s)))"
    let ?b = "(st_bufs s)\<lparr>sb_proc_cmd := (sb_proc_cmd (st_bufs s))[idx := (Some cpu, iova)]\<rparr>"
    have on: "stream_on en h n s" using a by simp
    note f = on_facts [OF on]
    have "cmds_ok en ?b"
    proof -
      have o: "proc_op ?b = proc_op (st_bufs s)" by (simp add: proc_op_def sess_hevc_def)
      have "(c, ave_cmd_size (en_abi en) (proc_op ?b)) \<in> set (sp_ipc (sb_pool ?b))" if "(Some c, i) \<in> set (sb_proc_cmd ?b)" for c i
      proof -
        have "(Some c, i) = (Some cpu, iova) \<or> (Some c, i) \<in> set (sb_proc_cmd (st_bufs s))"
          using that set_update_subset_insert [of "sb_proc_cmd (st_bufs s)" idx "(Some cpu, iova)"] by auto
        then show ?thesis
          using f(2) a op [OF f(5)] unfolding o by (auto simp: sess_sound_def cmds_ok_def)
      qed
      moreover have "distinct (sp_ipc (sb_pool ?b))" using f(2) by (simp add: sess_sound_def cmds_ok_def)
      ultimately show ?thesis unfolding cmds_ok_def by blast
    qed
    then have "sess_sound en (s\<lparr>st_bufs := ?b\<rparr>)"
      using f(2) by (simp add: sess_sound_def bufs_ok_def mp_in_ok_def)
    moreover have "slots_up ?b" "words_ok en ?b"
      using on slots_cong [of ?b "st_bufs s"] f(1) by (simp_all add: stream_on_def stream_up_def surfs_def)
    ultimately show "stream_on en h n (s\<lparr>st_bufs := ?b\<rparr>) \<and> (cpu, len) \<in> set (sp_ipc (sb_pool (st_bufs (s\<lparr>st_bufs := ?b\<rparr>))))"
      using a by (simp add: stream_on_def stream_up_def sess_hevc_def)
  qed
  have old: "triple (\<lambda>s. stream_on en h n s \<and> st_bufs s = b) (s_ret (cpu, iova))
      (\<lambda>(cpu, iova) s. stream_on en h n s \<and> (cpu, len) \<in> set (sp_ipc (sb_pool (st_bufs s)))) (stream_on en h n)"
    if "sb_proc_cmd b ! idx = (Some cpu, iova)" for b cpu iova
  proof (rule t_ret)
    fix s assume a: "stream_on en h n s \<and> st_bufs s = b"
    note f = on_facts [OF conjunct1 [OF a]]
    have "idx < length (sb_proc_cmd b)" using f(1) assms(2) a by (simp add: bufs_ok_def)
    then have "(Some cpu, iova) \<in> set (sb_proc_cmd b)" using that by (metis nth_mem)
    then show "(\<lambda>(cpu, iova) s. stream_on en h n s \<and> (cpu, len) \<in> set (sp_ipc (sb_pool (st_bufs s)))) (cpu, iova) s"
      using f(2) a op [OF f(5)] by (auto simp: sess_sound_def cmds_ok_def)
  qed
  have alloc: "triple (\<lambda>s. stream_on en h n s \<and> st_bufs s = b)
      (s_bind (s_ipc_alloc en len) (\<lambda>r. case r of None \<Rightarrow> s_err ENOMEM | Some cpu \<Rightarrow>
         s_bind (s_get (\<lambda>s. ave_ipc_cpu_to_iova (st_dev s) cpu)) (\<lambda>iova.
         s_then (s_bufs (\<lambda>b. b\<lparr>sb_proc_cmd := (sb_proc_cmd b)[idx := (Some cpu, iova)]\<rparr>)) (s_ret (cpu, iova)))))
      (\<lambda>(cpu, iova) s. stream_on en h n s \<and> (cpu, len) \<in> set (sp_ipc (sb_pool (st_bufs s)))) (stream_on en h n)" for b
  proof (rule t_bind)
    show "triple (\<lambda>s. stream_on en h n s \<and> st_bufs s = b) (s_ipc_alloc en len)
        (\<lambda>q s. stream_on en h n s \<and> (\<forall>va. q = Some va \<longrightarrow> (va, len) \<in> set (sp_ipc (sb_pool (st_bufs s))))) (stream_on en h n)"
      by (rule t_conseq [OF ipc_up]) simp_all
    fix q
    show "triple (\<lambda>s. stream_on en h n s \<and> (\<forall>va. q = Some va \<longrightarrow> (va, len) \<in> set (sp_ipc (sb_pool (st_bufs s)))))
        (case q of None \<Rightarrow> s_err ENOMEM | Some cpu \<Rightarrow>
         s_bind (s_get (\<lambda>s. ave_ipc_cpu_to_iova (st_dev s) cpu)) (\<lambda>iova.
         s_then (s_bufs (\<lambda>b. b\<lparr>sb_proc_cmd := (sb_proc_cmd b)[idx := (Some cpu, iova)]\<rparr>)) (s_ret (cpu, iova))))
        (\<lambda>(cpu, iova) s. stream_on en h n s \<and> (cpu, len) \<in> set (sp_ipc (sb_pool (st_bufs s)))) (stream_on en h n)"
      by (cases q) (auto intro!: t_err t_ret t_then [OF new]
          t_bind [where Q = "\<lambda>_ s. stream_on en h n s \<and> (the q, len) \<in> set (sp_ipc (sb_pool (st_bufs s)))"] t_get)
  qed
  show ?thesis
    unfolding proc_cmd_buf_def
    by (rule t_bind [where Q = "\<lambda>b s. stream_on en h n s \<and> st_bufs s = b"])
      (auto intro!: t_get alloc old split: prod.split option.split)
qed


text \<open>A stream, and a command buffer of it.\<close>

definition cmd_on :: "sess_env \<Rightarrow> bool \<Rightarrow> u32 \<Rightarrow> nat \<Rightarrow> nat \<Rightarrow> sess_st \<Rightarrow> bool" where
  "cmd_on en h n cpu len s \<longleftrightarrow> stream_on en h n s \<and> (cpu, len) \<in> set (sp_ipc (sb_pool (st_bufs s)))"

lemma zero_read: "rd_le32 (replicate k 0) off = Ok v \<Longrightarrow> v = 0"
  by (auto simp: rd_le32_def get_le32_def le32_of_def split: if_splits)

lemma zero_words:
  assumes "sf_cpu (sb_coded_hdr b ! idx) = Some (replicate k 0)"
  shows "count_ok en b idx"
proof -
  have "get_le32 (replicate k 0) w = 0" if "w + 4 \<le> k" for w
    using that zero_read [of k w] by (simp add: rd_le32_def)
  then show ?thesis by (simp add: count_ok_def assms Let_def)
qed

lemma clear_shape: "same_shape c (clear_surface c)"
  by (cases "sf_cpu c") (simp_all add: same_shape_def clear_surface_def)

lemma clear_all_ok: "\<forall>s \<in> set xs. surf_ok s \<Longrightarrow> \<forall>s \<in> set (xs[i := clear_surface (xs ! i)]). surf_ok s"
  by (rule list_update_all) (auto simp: surf_ok_def clear_surface_def split: option.split dest!: bspec [OF _ nth_mem])

text \<open>A change of the surfaces that keeps their shape, and the words.\<close>

lemma shaped_on:
  assumes "stream_on en h n s" "shaped (st_bufs s) b'" "bufs_ok b'" "words_ok en b'"
  shows "stream_on en h n (s\<lparr>st_bufs := b'\<rparr>)"
  using assms shaped_slots [OF assms(2)] shaped_sound [of en s b'] on_facts(1) [OF assms(1)]
  by (auto simp: stream_on_def stream_up_def shaped_def sess_hevc_def)

lemma clear_hdr_up:
  assumes "idx < unat n"
  shows "triple (cmd_on en h n cpu len) (clear_hdr idx) (\<lambda>_. cmd_on en h n cpu len) E"
proof (rule tripleI)
  fix s r s' assume c: "cmd_on en h n cpu len s" and m: "clear_hdr idx s = (r, s')"
  have on: "stream_on en h n s" using c by (simp add: cmd_on_def)
  note f = on_facts [OF on]
  define b' where "b' = (st_bufs s)\<lparr>sb_coded_hdr := (sb_coded_hdr (st_bufs s))[idx := clear_surface (sb_coded_hdr (st_bufs s) ! idx)]\<rparr>"
  obtain m0 where cpu: "sf_cpu (sb_coded_hdr (st_bufs s) ! idx) = Some m0" and i: "idx < AVE_SESS_FRAMES_MAX"
    using f(3) [OF assms] by (auto simp: slot_up_def backed_def slot_ok_def)
  have len: "idx < length (sb_coded_hdr (st_bufs s))" using i f(1) by (simp add: bufs_ok_def)
  have s': "r = Ok ()" "s' = s\<lparr>st_bufs := b'\<rparr>" using m cpu by (simp_all add: clear_hdr_def Let_def b'_def)
  have "shaped (st_bufs s) b'" by (simp add: shaped_def b'_def shape_update clear_shape)
  moreover have "bufs_ok b'" using f(1) clear_all_ok [of "sb_coded_hdr (st_bufs s)" idx] by (simp add: b'_def bufs_ok_def)
  moreover have "sess_hevc b' \<or> count_ok en b' j" if "j < unat n" for j
  proof (cases "j = idx")
    case True
    then have "sf_cpu (sb_coded_hdr b' ! j) = Some (replicate (length m0) 0)"
      using len cpu by (simp add: b'_def clear_surface_def)
    then show ?thesis using zero_words by blast
  next
    case False
    then show ?thesis using f(4) [OF that] by (simp add: count_ok_def b'_def sess_hevc_def)
  qed
  then have "words_ok en b'" using f(6) by (auto simp: words_ok_def b'_def)
  ultimately have "stream_on en h n (s\<lparr>st_bufs := b'\<rparr>)" by (intro shaped_on [OF on])
  then show "r \<noteq> Fault \<and> (\<forall>x. r = Ok x \<longrightarrow> cmd_on en h n cpu len s') \<and> (\<forall>e. r = Err e \<longrightarrow> E s')"
    using c by (simp add: s' cmd_on_def b'_def)
qed

text \<open>The input of the final pass is written inside its buffer.\<close>

lemma fill_input_ok:
  assumes "lab_ok l" "case d of None \<Rightarrow> True | Some m \<Rightarrow> AVE_MP_IN_FIRST \<le> length m"
  shows "\<exists>q. ave_mp_fill_input l d n = Ok q \<and> (\<forall>d'. q = Some d' \<longrightarrow> AVE_MP_IN_FIRST \<le> length d')"
proof (cases "d = None \<or> mp_nrec l = 0")
  case False
  then obtain m where m: "d = Some m" "AVE_MP_IN_FIRST \<le> length m" and nr: "mp_nrec l \<noteq> 0" using assms(2) by auto
  obtain t where t: "ml_tab l = Some t" "length t = AVE_MP_TAB_MAX"
    using assms(1) nr by (auto simp: lab_ok_def tab_ok_def mp_nrec_def mp_consts split: option.splits)
  define h where "h = take AVE_MP_HDR_SIZE t"
  have h: "cpu_bytes (ml_tab l) 0 AVE_MP_HDR_SIZE = Ok h" "length h = AVE_MP_HDR_SIZE"
    using t by (simp_all add: h_def cpu_bytes_def rd_bytes_def peek_def mp_consts)
  obtain m1 where m1: "wr_bytes m 0 (replicate AVE_MP_IN_FIRST 0) = Ok m1" "length m1 = length m"
    using m(2) by (auto simp: wr_bytes_def)
  obtain m2 where m2: "wr_bytes m1 0 h = Ok m2" "length m2 = length m"
    using m(2) m1(2) h(2) by (auto simp: wr_bytes_def mp_consts)
  have fits: "AVE_MP_HDR_SIZE + (AVE_MP_WINDOW + 1) * AVE_MP_REC_SIZE \<le> length m2"
    using m(2) m2(2) by (simp add: mp_consts)
  have "\<exists>m3. (if n = 0 then mp_copy_records l [0..<AVE_MP_WINDOW + 1] m2
      else cbind (mp_record l (min (unat (n + of_nat AVE_MP_WINDOW)) (mp_nrec l - 1))) (\<lambda>bs. wr_bytes m2 AVE_MP_HDR_SIZE bs)) = Ok m3
      \<and> length m3 = length m"
  proof (cases "n = 0")
    case True
    obtain d' where "mp_copy_records l [0..<AVE_MP_WINDOW + 1] m2 = Ok d'" "length d' = length m2"
      using copy_records [OF assms(1) t(1) nr le0 fits] by (elim exE conjE)
    then show ?thesis using True m2(2) by simp
  next
    case False
    have r: "mp_record l (min (unat (n + of_nat AVE_MP_WINDOW)) (mp_nrec l - 1)) = Ok (window_record l (unat (n + of_nat AVE_MP_WINDOW)))"
      "length (window_record l (unat (n + of_nat AVE_MP_WINDOW))) = AVE_MP_REC_SIZE"
      using mp_record_eq [OF assms(1) t(1) nr] by auto
    show ?thesis using False r m2(2) fits by (simp add: wr_bytes_def mp_consts)
  qed
  then obtain m3 where "(if n = 0 then mp_copy_records l [0..<AVE_MP_WINDOW + 1] m2
      else cbind (mp_record l (min (unat (n + of_nat AVE_MP_WINDOW)) (mp_nrec l - 1))) (\<lambda>bs. wr_bytes m2 AVE_MP_HDR_SIZE bs)) = Ok m3"
    "length m3 = length m" by blast
  then show ?thesis using m nr m1 m2 h by (simp add: ave_mp_fill_input_def)
qed (auto simp: ave_mp_fill_input_def split: option.split)


lemma mp_in_on:
  assumes "stream_on en h k s" "AVE_MP_IN_FIRST \<le> length d"
  shows "stream_on en h k (s\<lparr>st_bufs := (st_bufs s)\<lparr>sb_mp_in := (sb_mp_in (st_bufs s))[idx := (Some d, a)]\<rparr>\<rparr>)"
proof -
  let ?b = "(st_bufs s)\<lparr>sb_mp_in := (sb_mp_in (st_bufs s))[idx := (Some d, a)]\<rparr>"
  note f = on_facts [OF assms(1)]
  have "\<forall>x \<in> set ((sb_mp_in (st_bufs s))[idx := (Some d, a)]). case fst x of None \<Rightarrow> True | Some m \<Rightarrow> AVE_MP_IN_FIRST \<le> length m"
    using f(2) assms(2) by (intro list_update_all) (simp_all add: sess_sound_def mp_in_ok_def)
  then have "mp_in_ok ?b" using f(2) by (simp add: sess_sound_def mp_in_ok_def)
  then have "sess_sound en (s\<lparr>st_bufs := ?b\<rparr>)"
    using f(2) by (simp add: sess_sound_def bufs_ok_def cmds_ok_def proc_op_def sess_hevc_def)
  moreover have "slots_up ?b" "words_ok en ?b"
    using assms(1) slots_cong [of ?b "st_bufs s"] f(1) by (simp_all add: stream_on_def stream_up_def surfs_def)
  ultimately show ?thesis using assms(1) by (simp add: stream_on_def stream_up_def sess_hevc_def)
qed

lemma proc_mp_up:
  assumes "idx < AVE_SESS_FRAMES_MAX"
  shows "triple (cmd_on en h k cpu len) (proc_mp idx n ft) (\<lambda>_. cmd_on en h k cpu len) (cmd_on en h k cpu len)"
proof -
  have fill: "triple (\<lambda>s. cmd_on en h k cpu len s \<and> st_bufs s = b)
      (s_lift (\<lambda>s. ave_mp_fill_input (st_lab s) (fst (sb_mp_in b ! idx)) n))
      (\<lambda>q s. cmd_on en h k cpu len s \<and> (\<forall>d. q = Some d \<longrightarrow> AVE_MP_IN_FIRST \<le> length d)) (cmd_on en h k cpu len)" for b
  proof (rule tripleI)
    fix s r s' assume a: "cmd_on en h k cpu len s \<and> st_bufs s = b"
      and m: "s_lift (\<lambda>s. ave_mp_fill_input (st_lab s) (fst (sb_mp_in b ! idx)) n) s = (r, s')"
    have snd: "sess_sound en s" using a by (simp add: cmd_on_def stream_on_def stream_up_def)
    have "sb_mp_in b ! idx \<in> set (sb_mp_in b)" using snd a assms by (simp add: sess_sound_def mp_in_ok_def)
    then have "case fst (sb_mp_in b ! idx) of None \<Rightarrow> True | Some m \<Rightarrow> AVE_MP_IN_FIRST \<le> length m"
      using snd a by (auto simp: sess_sound_def mp_in_ok_def)
    then obtain q where "ave_mp_fill_input (st_lab s) (fst (sb_mp_in b ! idx)) n = Ok q" "\<forall>d. q = Some d \<longrightarrow> AVE_MP_IN_FIRST \<le> length d"
      using fill_input_ok snd by (fastforce simp: sess_sound_def)
    then show "r \<noteq> Fault \<and> (\<forall>q. r = Ok q \<longrightarrow> cmd_on en h k cpu len s' \<and> (\<forall>d. q = Some d \<longrightarrow> AVE_MP_IN_FIRST \<le> length d))
        \<and> (\<forall>e. r = Err e \<longrightarrow> cmd_on en h k cpu len s')"
      using m a by (auto simp: s_lift_def)
  qed
  have put: "triple (\<lambda>s. cmd_on en h k cpu len s \<and> AVE_MP_IN_FIRST \<le> length d0)
      (s_bufs (\<lambda>b. b\<lparr>sb_mp_in := (sb_mp_in b)[idx := (Some d0, snd (sb_mp_in b ! idx))]\<rparr>))
      (\<lambda>_. cmd_on en h k cpu len) (cmd_on en h k cpu len)" for d0
    by (rule t_bufs) (simp add: cmd_on_def mp_in_on)
  have rest: "triple (\<lambda>s. cmd_on en h k cpu len s \<and> (\<forall>d. q = Some d \<longrightarrow> AVE_MP_IN_FIRST \<le> length d))
      (case q of None \<Rightarrow> s_err EINVAL
       | Some d \<Rightarrow> s_then (s_bufs (\<lambda>b. b\<lparr>sb_mp_in := (sb_mp_in b)[idx := (Some d, snd (sb_mp_in b ! idx))]\<rparr>))
                (s_then (s_fail_if (snd (sb_mp_in b ! idx) = 0) EINVAL) (s_ret (AVE_FRAME_TYPE_AUTO, snd (sb_mp_in b ! idx)))))
      (\<lambda>_. cmd_on en h k cpu len) (cmd_on en h k cpu len)" for q b
    by (cases q) (auto intro!: t_err t_then [OF put] t_then [where Q = "cmd_on en h k cpu len"] t_fail_if t_ret)
  show ?thesis
    unfolding proc_mp_def
    by (rule t_bind [where Q = "\<lambda>b s. cmd_on en h k cpu len s \<and> st_bufs s = b"])
      (auto intro!: t_get t_ret t_bind [OF fill rest])
qed

section \<open>The command of a frame\<close>

lemma build_up:
  assumes "\<And>buf. length (snd (build buf)) = length buf"
  shows "triple (cmd_on en h k cpu len) (s_build cpu len build) (\<lambda>_. cmd_on en h k cpu len) (cmd_on en h k cpu len)"
proof (rule tripleI)
  fix s r s' assume c: "cmd_on en h k cpu len s" and m: "s_build cpu len build s = (r, s')"
  then have "sess_sound en s" "(cpu, len) \<in> set (sp_ipc (sb_pool (st_bufs s)))"
    by (simp_all add: cmd_on_def stream_on_def stream_up_def)
  from build_sound [OF this assms m] obtain d
    where d: "r \<noteq> Fault" "s' = s\<lparr>st_dev := d\<rparr>" "alive (en_gp en) d" "keeps_own (st_dev s) d" by blast
  have "cmd_on en h k cpu len s'" using c up_dev [of en s d] d by (simp add: cmd_on_def stream_on_def)
  then show "r \<noteq> Fault \<and> (\<forall>x. r = Ok x \<longrightarrow> cmd_on en h k cpu len s') \<and> (\<forall>e. r = Err e \<longrightarrow> cmd_on en h k cpu len s')"
    using d(1) by simp
qed

lemma inside_length: "cmd_inside abi op buf (f buf) \<Longrightarrow> length (snd (f buf)) = length buf"
  by (simp add: cmd_inside_def split: prod.splits)

lemma clear_slice_up:
  "triple (cmd_on en h k cpu len) (s_bufs (\<lambda>b. b\<lparr>sb_slice_hdr := (sb_slice_hdr b)[idx := clear_surface (sb_slice_hdr b ! idx)]\<rparr>))
     (\<lambda>_. cmd_on en h k cpu len) E"
proof (rule t_bufs)
  fix s assume c: "cmd_on en h k cpu len s"
  let ?b = "(st_bufs s)\<lparr>sb_slice_hdr := (sb_slice_hdr (st_bufs s))[idx := clear_surface (sb_slice_hdr (st_bufs s) ! idx)]\<rparr>"
  have on: "stream_on en h k s" using c by (simp add: cmd_on_def)
  note f = on_facts [OF on]
  have "stream_on en h k (s\<lparr>st_bufs := ?b\<rparr>)"
  proof (rule shaped_on [OF on])
    show "shaped (st_bufs s) ?b" by (simp add: shaped_def shape_update clear_shape)
    show "bufs_ok ?b" using f(1) clear_all_ok [of "sb_slice_hdr (st_bufs s)" idx] by (simp add: bufs_ok_def)
    show "words_ok en ?b" using f(4,6) by (auto simp: words_ok_def count_ok_def sess_hevc_def)
  qed
  then show "cmd_on en h k cpu len (s\<lparr>st_bufs := ?b\<rparr>)" using c by (simp add: cmd_on_def)
qed

lemma note_cmd:
  assumes "\<And>b. core (f b) = core b" "\<And>b. bufs_ok b \<Longrightarrow> bufs_ok (f b)" "\<And>b. sb_pool (f b) = sb_pool b"
  shows "triple (cmd_on en h k cpu len) (s_bufs f) (\<lambda>_. cmd_on en h k cpu len) E"
proof (rule t_bufs)
  fix s assume c: "cmd_on en h k cpu len s"
  then have on: "stream_on en h k s" by (simp add: cmd_on_def)
  have "stream_on en h k (s\<lparr>st_bufs := f (st_bufs s)\<rparr>)" using on on_facts(1) [OF on] assms by (intro on_bufs) simp_all
  then show "cmd_on en h k cpu len (s\<lparr>st_bufs := f (st_bufs s)\<rparr>)" using c assms(3) by (simp add: cmd_on_def)
qed

lemma build_cmd_up:
  "triple (cmd_on en h k cpu len) (proc_build_cmd en cid n idx cpu len f) (\<lambda>_. cmd_on en h k cpu len) (cmd_on en h k cpu len)"
proof -
  have idr: "triple (cmd_on en h k cpu len) (s_bufs (\<lambda>b. if c then set_last_idr n b else b))
      (\<lambda>_. cmd_on en h k cpu len) (cmd_on en h k cpu len)" for c
    by (rule note_cmd) (auto simp: core_def surfs_def set_last_idr_def bufs_ok_def)
  show ?thesis
    unfolding proc_build_cmd_def Let_def
    by (intro t_bind [where Q = "\<lambda>_. cmd_on en h k cpu len"] t_then [where Q = "cmd_on en h k cpu len"] t_get t_if idr
        clear_slice_up build_up inside_length [OF process_hevc_inside] inside_length [OF process_avc_inside])
qed


section \<open>A frame, built\<close>

text \<open>What a precondition implies may be assumed.\<close>

lemma t_assume: "(\<And>s. P s \<Longrightarrow> triple P m Q E) \<Longrightarrow> triple P m Q E"
  by (auto simp: triple_def)

lemma cmd_stream: "cmd_on en h k cpu len s \<Longrightarrow> stream_on en h k s"
  by (simp add: cmd_on_def)

lemma t_error: "triple P m Q E \<Longrightarrow> (\<And>s. E s \<Longrightarrow> E' s) \<Longrightarrow> triple P m Q E'"
  by (fastforce simp: triple_def split: prod.splits cres.splits)

lemma build_body_up:
  assumes i: "idx < unat k" "idx < AVE_SESS_FRAMES_MAX"
    and len: "len = ave_cmd_size (en_abi en) (if h then AVE_OP_PROCESS_HEVC else AVE_OP_PROCESS_AVC)"
  shows "triple (stream_on en h k)
      (s_bind (proc_source en idx) (\<lambda>(stride, r).
       s_bind (proc_recon en) (\<lambda>recon.
       s_bind (proc_cmd_buf en idx len) (\<lambda>(cpu, iova).
       s_then (clear_hdr idx)
      (s_bind (proc_mp idx n ft0) (\<lambda>(ft, stats).
       s_bind (s_get (\<lambda>s. proc_frame en (st_bufs s) n idx ft stats stride r recon)) (\<lambda>f.
       s_then (proc_build_cmd en cid n idx cpu len f)
      (s_then (case dart of Some e \<Rightarrow> s_fail_if (\<not> en_ignore_dart en) e | None \<Rightarrow> s_ret ())
      (s_ret \<lparr>jb_n = n, jb_idx = idx, jb_frame_type = ft, jb_cmd_iova = iova, jb_cmd_len = len\<rparr>)))))))))
      (\<lambda>job s. stream_on en h k s \<and> jb_idx job < unat k) (stream_on en h k)"
proof -
    have d: "triple (cmd_on en h k cpu len) (case dart of Some e \<Rightarrow> s_fail_if (\<not> en_ignore_dart en) e | None \<Rightarrow> s_ret ())
        (\<lambda>_. cmd_on en h k cpu len) (cmd_on en h k cpu len)" for cpu
      by (cases dart) (auto intro!: t_ret t_fail_if)
    have r: "triple (cmd_on en h k cpu len) (s_ret \<lparr>jb_n = n, jb_idx = idx, jb_frame_type = ft, jb_cmd_iova = iova, jb_cmd_len = len\<rparr>)
        (\<lambda>job s. stream_on en h k s \<and> jb_idx job < unat k) (cmd_on en h k cpu len)" for cpu ft iova
      by (rule t_ret) (simp add: i cmd_stream)
    have after: "triple (cmd_on en h k cpu len)
      (s_then (clear_hdr idx)
      (s_bind (proc_mp idx n ft0) (\<lambda>(ft, stats).
       s_bind (s_get (\<lambda>s. proc_frame en (st_bufs s) n idx ft stats stride r recon)) (\<lambda>f.
       s_then (proc_build_cmd en cid n idx cpu len f)
      (s_then (case dart of Some e \<Rightarrow> s_fail_if (\<not> en_ignore_dart en) e | None \<Rightarrow> s_ret ())
      (s_ret \<lparr>jb_n = n, jb_idx = idx, jb_frame_type = ft, jb_cmd_iova = iova, jb_cmd_len = len\<rparr>))))))
      (\<lambda>job s. stream_on en h k s \<and> jb_idx job < unat k) (cmd_on en h k cpu len)" for cpu iova stride r recon
      by (intro t_then [where Q = "cmd_on en h k cpu len"] t_bind [where Q = "\<lambda>_. cmd_on en h k cpu len"] t_prod
          clear_hdr_up [OF i(1)] proc_mp_up [OF i(2)] t_get build_cmd_up d r)
    have buf: "triple (stream_on en h k) (proc_cmd_buf en idx len)
        (\<lambda>(cpu, iova). cmd_on en h k cpu len) (stream_on en h k)"
      using cmd_buf_up [OF len i(2), where n = k] by (simp add: cmd_on_def [abs_def] case_prod_unfold)
    show ?thesis
      by (rule t_bind [OF proc_source_up], rule t_prod, rule t_bind [OF proc_recon_up], rule t_bind [OF buf])
        (auto intro!: t_error [OF after] cmd_stream split: prod.split)
qed
lemma process_build_up:
  "triple (stream_on en h k) (ave_session_process_build en dart cid n t)
     (\<lambda>job s. stream_on en h k s \<and> jb_idx job < unat k) (stream_on en h k)"
  unfolding ave_session_process_build_def Let_def
proof (rule t_bind [where Q = "\<lambda>b s. stream_on en h k s \<and> st_bufs s = b"], rule t_get, simp, rule t_assume, goal_cases)
  case (1 b0 s0)
  note f = on_facts [OF conjunct1 [OF 1]]
  have h: "sess_hevc b0 = h" "sb_n_coded b0 = k" "unat k \<le> AVE_SESS_FRAMES_MAX"
    using f 1 by (auto simp: bufs_ok_def)
  show ?case
  proof (cases "k = 0")
    case True
    then show ?thesis using h(2) by (auto simp: triple_def s_then_def s_bind_def s_fail_if_def)
  next
    case False
    then have i: "proc_index b0 n < unat k"
      using h(2) by (simp add: proc_index_def unat_mod mod_less_divisor unat_gt_0)
    show ?thesis
      unfolding h(1)
      by (rule t_then [where Q = "stream_on en h k"], rule t_fail_if, simp, simp,
          rule build_body_up [OF i less_le_trans [OF i h(3)] refl])
  qed
qed


section \<open>A command, and what comes back\<close>

lemma send_owns: "ave_ipc_send i payload a1 a2 d = (e, d') \<Longrightarrow> keeps_own d d'"
  using send_own [of d] by (auto simp: ave_ipc_send_def Let_def split: if_splits) (metis snd_conv)+

lemma session_cmd_owns:
  assumes "known_abi abi" "alive gp d" "ave_session_cmd gp abi op acts iova len cid (d, rx) = (r, d', rx')"
  shows "keeps_own d d'"
proof -
  obtain e d1 where s: "ave_ipc_send AVE_CH_IO iova len 0 d = (e, d1)" by fastforce
  have k: "keeps_own d d1" by (rule send_owns [OF s])
  show ?thesis
  proof (cases e)
    case None
    have "keeps_own d1 (env_run gp acts d1)"
      using env_run_own sent_alive [OF assms(2) s [unfolded None]] by blast
    moreover have "d' = env_run gp acts d1"
      using assms(3) s None by (auto simp: ave_session_cmd_def rx_run_def Let_def split: if_splits)
    ultimately show ?thesis using keeps_own_trans [OF k] by simp
  qed (use assms(3) s k in \<open>auto simp: ave_session_cmd_def Let_def\<close>)
qed

lemma cmd_sound:
  assumes "known_abi (en_abi en)" "sess_sound en s" "\<not> rx_batch (st_rx s)" "s_cmd en ce op iova len cid s = (r, s')"
  shows "\<exists>d rx. s' = s\<lparr>st_dev := d, st_rx := rx, st_bufs := surf_run (ce_surf ce) (st_bufs s)\<rparr> \<and> r \<noteq> Fault
    \<and> alive (en_gp en) d \<and> keeps_own (st_dev s) d \<and> rx_wf rx \<and> \<not> rx_batch rx"
proof -
  obtain q d rx where c: "ave_session_cmd (en_gp en) (en_abi en) op (ce_dev ce) iova (of_nat len) cid (st_dev s, st_rx s) = (q, d, rx)"
    by (metis prod_cases3)
  have a: "alive (en_gp en) (st_dev s)" "rx_wf (st_rx s)" using assms(2) by (simp_all add: sess_sound_def)
  note k = session_cmd_alive [OF assms(1) a assms(3) c] session_cmd_owns [OF assms(1) a(1) c]
  show ?thesis using assms(4) c k by (auto simp: s_cmd_def)
qed

text \<open>A stream that waits for no batch.\<close>

definition stream_run :: "sess_env \<Rightarrow> bool \<Rightarrow> u32 \<Rightarrow> sess_st \<Rightarrow> bool" where
  "stream_run en h k s \<longleftrightarrow> stream_on en h k s \<and> \<not> rx_batch (st_rx s)"

lemma on_dev: "stream_on en h k s \<Longrightarrow> alive (en_gp en) d \<Longrightarrow> keeps_own (st_dev s) d \<Longrightarrow> stream_on en h k (s\<lparr>st_dev := d\<rparr>)"
  by (simp add: stream_on_def up_dev)

lemma on_rx: "stream_on en h k s \<Longrightarrow> rx_wf rx \<Longrightarrow> stream_on en h k (s\<lparr>st_rx := rx\<rparr>)"
  by (simp add: stream_on_def up_rx)

lemma on_surf: "stream_on en h k s \<Longrightarrow> words_kept en h ce \<Longrightarrow> stream_on en h k (s\<lparr>st_bufs := surf_run (ce_surf ce) (st_bufs s)\<rparr>)"
  using surf_run_up [of en s ce] surf_run_shaped [of "st_bufs s" "ce_surf ce"]
  by (simp add: stream_on_def shaped_def sess_hevc_def)

lemma cmd_up:
  assumes "known_abi (en_abi en)" "words_kept en h ce"
  shows "triple (stream_run en h k) (s_cmd en ce op iova len cid) (\<lambda>_. stream_run en h k) (stream_run en h k)"
proof (rule tripleI)
  fix s r s' assume p: "stream_run en h k s" and m: "s_cmd en ce op iova len cid s = (r, s')"
  have on: "stream_on en h k s" "\<not> rx_batch (st_rx s)" using p by (simp_all add: stream_run_def)
  obtain d rx where s': "s' = s\<lparr>st_dev := d, st_rx := rx, st_bufs := surf_run (ce_surf ce) (st_bufs s)\<rparr>" "r \<noteq> Fault"
    and k: "alive (en_gp en) d" "keeps_own (st_dev s) d" "rx_wf rx" "\<not> rx_batch rx"
    using cmd_sound [OF assms(1) on_facts(2) [OF on(1)] on(2) m] by blast
  have "stream_on en h k (s\<lparr>st_dev := d, st_rx := rx\<rparr>)" by (intro on_rx on_dev on(1) k)
  then have "stream_run en h k s'" using on_surf [OF _ assms(2)] k(4) by (fastforce simp: s' stream_run_def)
  then show "r \<noteq> Fault \<and> (\<forall>x. r = Ok x \<longrightarrow> stream_run en h k s') \<and> (\<forall>e. r = Err e \<longrightarrow> stream_run en h k s')"
    using s'(2) by simp
qed

section \<open>Taking in the result\<close>

definition core_kept :: "sess_st \<Rightarrow> sess_st \<Rightarrow> bool" where
  "core_kept s s' \<longleftrightarrow> core (st_bufs s') = core (st_bufs s) \<and> sb_pool (st_bufs s') = sb_pool (st_bufs s)"

interpretation ck: sess_relation core_kept
  by unfold_locales (simp_all add: core_kept_def)

lemma sf_of_coded: "map sf_of (cs[idx := coded_of i (cs ! idx)]) = map sf_of cs"
proof -
  have "sf_of (coded_of i c) = sf_of c" for c by (simp add: sf_of_def coded_of_def)
  then show ?thesis by (metis list_update_id map_update)
qed

lemma append_frame_core: "keeps core_kept (append_frame en idx key)"
proof -
  have "core b' = core b \<and> sb_pool b' = sb_pool b" if "ave_sess_stream_append (en_vm en) b idx key = Ok b'" for b b'
  proof -
    have "\<exists>st. b' = stream_commit b st"
      using that by (cases "sess_hevc b")
        (auto simp: ave_sess_stream_append_def ave_sess_stream_append_hevc_def Let_def cbind_Ok)
    then show ?thesis by (auto simp: stream_commit_def core_def surfs_def)
  qed
  then show ?thesis by (auto intro!: keepsI simp: append_frame_def core_kept_def split: cres.splits)
qed

lemma result_core: "keeps core_kept (ave_session_process_result en job)"
proof -
  have rd: "keeps core_kept (s_bufs (\<lambda>b. b\<lparr>sb_coded_info := i\<rparr>))" for i
    by (rule keeps_bufs) (simp add: core_kept_def core_def surfs_def)
  have mp: "keeps core_kept (keep_mp_record idx n)" for idx n
    by (auto simp: keeps_def core_kept_def keep_mp_record_def split: cres.split)
  have idr: "core (set_last_idr n b) = core b" "sb_pool (set_last_idr n b) = sb_pool b" for n b
    by (simp_all add: set_last_idr_def core_def surfs_def)
  have st: "keeps core_kept (result_store en job i nal)" for i nal
  proof (rule keepsI)
    fix s r s' assume m: "result_store en job i nal s = (r, s')"
    define b where "b = st_bufs s"
    define d where "d = (if result_type (sess_hevc b) (jb_frame_type job) nal (ci_frame_type i) = AVE_FRAME_TYPE_IDR
        \<and> jb_frame_type job \<noteq> AVE_FRAME_TYPE_IDR then set_last_idr (jb_n job) b else b)"
    have d: "core d = core b" "sb_pool d = sb_pool b" by (simp_all add: d_def idr)
    have fin: "core (d\<lparr>sb_coded := (sb_coded b)[jb_idx job := coded_of i (sb_coded b ! jb_idx job)], sb_psets_len := x,
        sb_n_done := y, sb_coded_type := z\<rparr>) = core b" for x y z
      using d(1) by (simp add: core_def surfs_def sf_of_coded)
    show "core_kept s s'"
      using m d fin keepsD [OF append_frame_core]
      unfolding result_store_def Let_def b_def [symmetric] d_def [symmetric]
      by (auto simp: core_kept_def b_def [symmetric] split: if_splits cres.splits) (fastforce simp: b_def)+
  qed
  show ?thesis
    unfolding ave_session_process_result_def read_coded_hdr_def Let_def by (intro ck.rules rd mp st)
qed

lemma result_up:
  assumes "env_ok en" "jb_idx job < unat k"
  shows "triple (\<lambda>s. stream_on en h k s \<and> I (st_rx s)) (ave_session_process_result en job)
    (\<lambda>_ s. stream_on en h k s \<and> I (st_rx s)) (\<lambda>s. stream_on en h k s \<and> I (st_rx s))"
proof (rule tripleI)
  fix s r s' assume p: "stream_on en h k s \<and> I (st_rx s)" and m: "ave_session_process_result en job s = (r, s')"
  have on: "stream_on en h k s" using p by simp
  note f = on_facts [OF on]
  have lab: "lab_ok (st_lab s)" using f(2) by (simp add: sess_sound_def)
  have slot: "slot_ok (st_bufs s) (jb_idx job)" using f(3) [OF assms(2)] by (simp add: slot_up_def)
  have e: "known_abi (en_abi en)" "vmalloc_ok (en_vm en)" using assms(1) by (simp_all add: env_ok_def)
  note c = process_result_cases [OF e f(1) slot lab count_fits [OF e(1) f(4) [OF assms(2)]] m]
  obtain l b where s': "s' = s\<lparr>st_lab := l, st_bufs := b\<rparr>" "bufs_ok b" "lab_ok l" "r \<noteq> Fault" using c by auto
  have k: "core b = core (st_bufs s)" "sb_pool b = sb_pool (st_bufs s)"
    using keepsD [OF result_core m] by (simp_all add: core_kept_def s'(1))
  have "stream_on en h k (s\<lparr>st_lab := l\<rparr>)" using on s'(3) by (simp add: stream_on_def stream_up_def sess_sound_def)
  then have "stream_on en h k (s\<lparr>st_lab := l, st_bufs := b\<rparr>)"
    using on_bufs [of en h k "s\<lparr>st_lab := l\<rparr>" b] k s'(2) by simp
  then show "r \<noteq> Fault \<and> (\<forall>x. r = Ok x \<longrightarrow> stream_on en h k s' \<and> I (st_rx s'))
      \<and> (\<forall>e. r = Err e \<longrightarrow> stream_on en h k s' \<and> I (st_rx s'))"
    using s' p by simp
qed

lemmas result_run = result_up [where I = "\<lambda>rx. \<not> rx_batch rx", folded stream_run_def]
lemmas result_on = result_up [where I = "\<lambda>_. True", unfolded simp_thms]


section \<open>One frame\<close>

definition rx_kept :: "sess_st \<Rightarrow> sess_st \<Rightarrow> bool" where
  "rx_kept s s' \<longleftrightarrow> st_rx s' = st_rx s"

interpretation rk: sess_relation rx_kept
  by unfold_locales (simp_all add: rx_kept_def)

lemma rx_basic: "keeps rx_kept (s_dma_alloc en sz)" "keeps rx_kept (s_ipc_alloc en len)" "keeps rx_kept (s_build cpu len build)"
  "keeps rx_kept (s_bufs f)" "keeps rx_kept (clear_hdr idx)"
  by (auto simp: keeps_def rx_kept_def s_dma_alloc_def s_ipc_alloc_def s_build_def s_bufs_def clear_hdr_def Let_def
      split: prod.splits sum.splits)

lemmas rx_rules = rk.rules rx_basic

lemma process_build_rx: "keeps rx_kept (ave_session_process_build en dart cid n t)"
  unfolding ave_session_process_build_def proc_source_def own_planes_def proc_recon_def proc_cmd_buf_def proc_mp_def
    proc_build_cmd_def Let_def
  by (intro rx_rules)

lemma t_with:
  assumes "triple P m Q E" "keeps R m" "\<And>s s'. R s s' \<Longrightarrow> I s \<Longrightarrow> I s'"
  shows "triple (\<lambda>s. P s \<and> I s) m (\<lambda>x s. Q x s \<and> I s) (\<lambda>s. E s \<and> I s)"
proof (rule tripleI)
  fix s r s' assume p: "P s \<and> I s" and m: "m s = (r, s')"
  have "I s'" using keepsD [OF assms(2) m] assms(3) p by blast
  then show "r \<noteq> Fault \<and> (\<forall>x. r = Ok x \<longrightarrow> Q x s' \<and> I s') \<and> (\<forall>e. r = Err e \<longrightarrow> E s' \<and> I s')"
    using tripleD [OF assms(1) conjunct1 [OF p] m] by blast
qed

lemma process_build_run:
  "triple (stream_run en h k) (ave_session_process_build en dart cid n t)
     (\<lambda>job s. stream_run en h k s \<and> jb_idx job < unat k) (stream_run en h k)"
  using t_with [OF process_build_up process_build_rx, where I = "\<lambda>s. \<not> rx_batch (st_rx s)"]
  by (simp add: stream_run_def [abs_def] rx_kept_def conj_ac)

lemma process_up:
  assumes "env_ok en" "words_kept en h ce"
  shows "triple (stream_run en h k) (ave_session_process en dart ce cid n) (\<lambda>_. stream_run en h k) (stream_run en h k)"
proof -
  have a: "known_abi (en_abi en)" using assms(1) by (simp add: env_ok_def)
  have rest: "triple (\<lambda>s. stream_run en h k s \<and> jb_idx job < unat k)
      (s_bind (s_get (\<lambda>s. proc_op (st_bufs s))) (\<lambda>op. s_then (s_cmd en ce op (jb_cmd_iova job) (jb_cmd_len job) cid)
         (ave_session_process_result en job))) (\<lambda>_. stream_run en h k) (stream_run en h k)" for job
    by (rule t_assume, rule t_bind [where Q = "\<lambda>_. stream_run en h k"], rule t_get, simp,
        rule t_then [OF cmd_up [OF a assms(2)]], rule result_run [OF assms(1)], simp)
  show ?thesis
    unfolding ave_session_process_def by (rule t_bind [OF process_build_run rest])
qed

section \<open>A batch\<close>

lemma rx_call_wf: "rx_wf rx \<Longrightarrow> rx_ok n call \<Longrightarrow> rx_wf (ave_session_ipc_rx call rx)"
proof -
  assume w: "rx_wf rx" and o: "rx_ok n call"
  obtain ch buf sz flags where c: "call = (ch, buf, sz, flags)" by (cases call)
  have q: "rx_wf (rx_queue call rx)"
  proof -
    define bs where "bs = (case buf of Some (_, bs) \<Rightarrow> take (unat (min sz (of_nat AVE_SESS_REPLY_MAX))) bs | None \<Rightarrow> [])"
    have len: "length bs \<le> AVE_SESS_REPLY_MAX" by (auto simp: bs_def min_reply split: option.split)
    have "length (copy_in bs (rx_qbuf rx ! rx_nq rx)) = AVE_SESS_REPLY_MAX" if "rx_nq rx < AVE_SESS_RX_Q"
      using w len that by (simp add: rx_wf_def)
    then have b: "\<forall>b \<in> set ((rx_qbuf rx)[rx_nq rx := copy_in bs (rx_qbuf rx ! rx_nq rx)]). length b = AVE_SESS_REPLY_MAX"
      using w by (intro list_update_all) (simp_all add: rx_wf_def)
    have "\<forall>v \<in> set ((rx_qsize rx)[rx_nq rx := (if buf \<noteq> None then min sz (of_nat AVE_SESS_REPLY_MAX) else 0)]). unat v \<le> AVE_SESS_REPLY_MAX"
      using w by (intro list_update_all) (auto simp: rx_wf_def min_reply)
    then show ?thesis
      using w b by (cases buf) (auto simp: c rx_queue_def Let_def rx_wf_def bs_def)
  qed
  obtain a b e g where "ave_session_ipc_rx call rx \<in> {rx_queue call rx, rx_capture call rx,
      rx\<lparr>rx_ack_size := a, rx_ack_seen := b, rx_other_id := e, rx_other_count := g\<rparr>}"
    using ipc_rx_cases [of call rx] by (metis insertI1 insertI2)
  then show "rx_wf (ave_session_ipc_rx call rx)"
    using q capture_wf [OF w o] w by (auto simp: rx_wf_def)
qed

lemma rx_fold_wf: "list_all (rx_ok n) calls \<Longrightarrow> rx_wf rx \<Longrightarrow> rx_wf (fold ave_session_ipc_rx calls rx)"
  by (induction calls arbitrary: rx) (auto intro: rx_call_wf)

lemma rx_run_sound:
  assumes "alive gp d" "rx_wf rx" "rx_run gp acts (d, rx) = (d', rx')"
  shows "alive gp d'" "keeps_own d d'" "rx_wf rx'"
proof -
  have d': "d' = env_run gp acts d" "rx' = fold ave_session_ipc_rx (drop (length (rx_calls d)) (rx_calls d')) rx"
    using assms(3) by (auto simp: rx_run_def Let_def)
  show a: "alive gp d'" using env_run_alive [OF assms(1)] by (simp add: d'(1))
  show "keeps_own d d'" using env_run_own [OF assms(1)] by (simp add: d'(1))
  have "list_all (rx_ok (ipc_size d')) (rx_calls d')" using a by (simp add: alive_def obs_ok_def)
  then have "list_all (rx_ok (ipc_size d')) (drop (length (rx_calls d)) (rx_calls d'))"
    by (metis append_take_drop_id list_all_append)
  then show "rx_wf rx'" unfolding d'(2) by (rule rx_fold_wf [OF _ assms(2)])
qed

lemma run_up:
  assumes "words_kept en h ce"
  shows "triple (stream_on en h k) (s_run en ce) (\<lambda>_. stream_on en h k) E"
proof (rule tripleI)
  fix s r s' assume on: "stream_on en h k s" and m: "s_run en ce s = (r, s')"
  obtain d rx where c: "rx_run (en_gp en) (ce_dev ce) (st_dev s, st_rx s) = (d, rx)" by fastforce
  have a: "alive (en_gp en) (st_dev s)" "rx_wf (st_rx s)" using on_facts(2) [OF on] by (simp_all add: sess_sound_def)
  note k = rx_run_sound [OF a c]
  have s': "r = Ok ()" "s' = s\<lparr>st_dev := d, st_rx := rx, st_bufs := surf_run (ce_surf ce) (st_bufs s)\<rparr>"
    using m c by (simp_all add: s_run_def)
  have "stream_on en h k (s\<lparr>st_dev := d, st_rx := rx\<rparr>)" by (intro on_rx on_dev on k)
  then have "stream_on en h k s'" using on_surf [OF _ assms] by (fastforce simp: s'(2))
  then show "r \<noteq> Fault \<and> (\<forall>x. r = Ok x \<longrightarrow> stream_on en h k s') \<and> (\<forall>e. r = Err e \<longrightarrow> E s')" using s'(1) by simp
qed

lemma send_up:
  "triple (stream_on en h k) (\<lambda>s. case ave_ipc_send AVE_CH_IO iova len 0 (st_dev s) of (e, d) \<Rightarrow> (Ok e, s\<lparr>st_dev := d\<rparr>))
     (\<lambda>_. stream_on en h k) E"
proof (rule tripleI)
  fix s r s' assume on: "stream_on en h k s"
    and m: "(case ave_ipc_send AVE_CH_IO iova len 0 (st_dev s) of (e, d) \<Rightarrow> (Ok e, s\<lparr>st_dev := d\<rparr>)) = (r, s')"
  obtain e d where c: "ave_ipc_send AVE_CH_IO iova len 0 (st_dev s) = (e, d)" by fastforce
  have a: "alive (en_gp en) (st_dev s)" using on_facts(2) [OF on] by (simp add: sess_sound_def)
  have "alive (en_gp en) d"
  proof (cases e)
    case None
    then show ?thesis using sent_alive [OF a c [unfolded None]] by simp
  next
    case (Some x)
    then show ?thesis using ipc_send_refused c a by metis
  qed
  then have "stream_on en h k (s\<lparr>st_dev := d\<rparr>)" using on_dev [OF on _ send_owns [OF c]] by simp
  then show "r \<noteq> Fault \<and> (\<forall>x. r = Ok x \<longrightarrow> stream_on en h k s') \<and> (\<forall>e. r = Err e \<longrightarrow> E s')" using m c by auto
qed


definition jobs_ok :: "u32 \<Rightarrow> ave_sess_job list \<Rightarrow> bool" where
  "jobs_ok k jobs \<longleftrightarrow> (\<forall>j \<in> set jobs. jb_idx j < unat k)"

lemma note_run:
  assumes "stream_run en h k s" "core b' = core (st_bufs s)" "bufs_ok b'" "sb_pool b' = sb_pool (st_bufs s)"
  shows "stream_run en h k (s\<lparr>st_bufs := b'\<rparr>)"
  using assms on_bufs [of en h k s b'] by (simp add: stream_run_def)

lemma set_ext_core: "core (set_ext e b) = core b" "bufs_ok (set_ext e b) = bufs_ok b" "sb_pool (set_ext e b) = sb_pool b"
  by (simp_all add: set_ext_def core_def surfs_def bufs_ok_def split: option.split)

lemma build_one_up:
  "triple (stream_run en h k) (batch_build_one en be cid i f e) (\<lambda>job s. stream_run en h k s \<and> jb_idx job < unat k) (stream_run en h k)"
proof (rule tripleI)
  fix s r s' assume p: "stream_run en h k s" and m: "batch_build_one en be cid i f e s = (r, s')"
  obtain s1 where b: "ave_session_process_build en (be_dart be i) cid (fst f) (snd f) (s\<lparr>st_bufs := set_ext e (st_bufs s)\<rparr>) = (r, s1)"
    and s': "s' = s1\<lparr>st_bufs := (st_bufs s1)\<lparr>sb_ext_src := False\<rparr>\<rparr>"
    using m by (auto simp: batch_build_one_def split: prod.splits)
  have "bufs_ok (st_bufs s)" using p by (auto simp: stream_run_def dest: on_facts(1))
  then have "stream_run en h k (s\<lparr>st_bufs := set_ext e (st_bufs s)\<rparr>)" using note_run [OF p] set_ext_core by simp
  note t = tripleD [OF process_build_run this b]
  have "stream_run en h k s'" if "stream_run en h k s1"
  proof -
    have "bufs_ok (st_bufs s1)" using that by (auto simp: stream_run_def dest: on_facts(1))
    then show ?thesis unfolding s' by (intro note_run [OF that]) (simp_all add: core_def surfs_def bufs_ok_def)
  qed
  then show "r \<noteq> Fault \<and> (\<forall>job. r = Ok job \<longrightarrow> stream_run en h k s' \<and> jb_idx job < unat k) \<and> (\<forall>e. r = Err e \<longrightarrow> stream_run en h k s')"
    using t by auto
qed

lemma batch_build_up:
  "jobs_ok k jobs \<Longrightarrow> triple (stream_run en h k) (batch_build en be cid fs ext jobs)
     (\<lambda>js s. stream_run en h k s \<and> jobs_ok k js \<and> length js = length jobs + length fs) (stream_run en h k)"
proof (induction fs arbitrary: jobs)
  case Nil
  then show ?case by (auto intro: t_ret)
next
  case (Cons f fs)
  have rest: "triple (\<lambda>s. stream_run en h k s \<and> jb_idx job < unat k)
      (s_then (s_fail_if (jb_idx job \<in> set (map jb_idx jobs)) EINVAL) (batch_build en be cid fs ext (jobs @ [job])))
      (\<lambda>js s. stream_run en h k s \<and> jobs_ok k js \<and> length js = length jobs + length (f # fs)) (stream_run en h k)" for job
  proof (rule t_assume)
    fix s assume "stream_run en h k s \<and> jb_idx job < unat k"
    then have "jobs_ok k (jobs @ [job])" using Cons.prems by (simp add: jobs_ok_def)
    from Cons.IH [OF this]
    show ?thesis by (intro t_then [where Q = "stream_run en h k"] t_fail_if) auto
  qed
  show ?case unfolding batch_build.simps by (rule t_bind [OF build_one_up rest])
qed

lemma t_option2:
  "triple P a Q E \<Longrightarrow> (\<And>x. triple P (f x) Q E) \<Longrightarrow> triple P (case q of Some x \<Rightarrow> f x | None \<Rightarrow> a) Q E"
  by (cases q) auto

definition batch_kept :: "sess_env \<Rightarrow> bool \<Rightarrow> batch_env \<Rightarrow> bool" where
  "batch_kept en h be \<longleftrightarrow> (\<forall>i. words_kept en h (be_send be i) \<and> words_kept en h (be_wait be i))"

lemma batch_send_up:
  assumes "batch_kept en h be"
  shows "triple (stream_on en h k) (batch_send en be js i) (\<lambda>(m, e) s. stream_on en h k s \<and> m \<le> i + length js) (stream_on en h k)"
proof (induction js arbitrary: i)
  case Nil
  show ?case by (auto intro: t_ret)
next
  case (Cons j js)
  have w: "words_kept en h (be_send be i)" using assms by (simp add: batch_kept_def)
  have n: "triple (stream_on en h k) (s_ret (i, Some e)) (\<lambda>(m, e) s. stream_on en h k s \<and> m \<le> i + length (j # js)) (stream_on en h k)" for e
    by (rule t_ret) simp
  have go: "triple (stream_on en h k) (batch_send en be js (Suc i))
      (\<lambda>(m, e) s. stream_on en h k s \<and> m \<le> i + length (j # js)) (stream_on en h k)"
    by (rule t_conseq [OF Cons.IH [of "Suc i"]]) auto
  show ?case
    unfolding batch_send.simps
    by (rule t_bind [OF send_up], rule t_option2 [OF t_then [OF run_up [OF w] go] n])
qed


lemma batch_wait_up:
  assumes "known_abi (en_abi en)" "batch_kept en h be"
  shows "triple (stream_on en h k) (batch_wait en be op cid i) (\<lambda>_. stream_on en h k) (stream_on en h k)"
proof -
  have w: "words_kept en h (be_wait be i)" using assms(2) by (simp add: batch_kept_def)
  have take: "triple (stream_on en h k) (\<lambda>s. (Ok (), s\<lparr>st_rx := (st_rx s)\<lparr>rx_done := rx_done (st_rx s) - 1\<rparr>\<rparr>))
      (\<lambda>_. stream_on en h k) (stream_on en h k)"
  proof (rule tripleI)
    fix s r s' assume on: "stream_on en h k s" and m: "(Ok (), s\<lparr>st_rx := (st_rx s)\<lparr>rx_done := rx_done (st_rx s) - 1\<rparr>\<rparr>) = (r, s')"
    have "rx_wf ((st_rx s)\<lparr>rx_done := rx_done (st_rx s) - 1\<rparr>)"
      using on_facts(2) [OF on] by (simp add: sess_sound_def rx_wf_def)
    then show "r \<noteq> Fault \<and> (\<forall>x. r = Ok x \<longrightarrow> stream_on en h k s') \<and> (\<forall>e. r = Err e \<longrightarrow> stream_on en h k s')"
      using m on_rx [OF on] by auto
  qed
  have chk: "triple (stream_on en h k) (s_lift (\<lambda>s. case ave_cmd_check_reply (en_abi en) op msg cid of
        Ok (None, _) \<Rightarrow> Ok () | Ok (Some e, _) \<Rightarrow> Err e | Err e \<Rightarrow> Err e | Fault \<Rightarrow> Fault)) (\<lambda>_. stream_on en h k) (stream_on en h k)"
    for msg
  proof -
    obtain v st where "ave_cmd_check_reply (en_abi en) op msg cid = Ok (v, st)" by (rule check_reply_ours [OF assms(1)])
    then show ?thesis by (intro t_lift) (auto split: option.splits)
  qed
  show ?thesis
    unfolding batch_wait_def
    by (intro t_then [OF run_up [OF w]] t_bind [where Q = "\<lambda>_. stream_on en h k"] t_then [where Q = "stream_on en h k"]
        t_get t_fail_if take chk t_ret)
qed

lemma find_job_bound: "find_job sn jobs done = Some j \<Longrightarrow> j < length jobs \<and> j \<notin> set done"
  by (auto simp: find_job_def find_Some_iff)

lemma collect_one_up:
  assumes "env_ok en" "batch_kept en h be" "jobs_ok k jobs"
  shows "triple (stream_on en h k) (batch_collect_one en be op cid jobs ext done) (\<lambda>_. stream_on en h k) (stream_on en h k)"
proof -
  have a: "known_abi (en_abi en)" using assms(1) by (simp add: env_ok_def)
  have note_on: "triple (stream_on en h k) (s_bufs (\<lambda>b. b\<lparr>sb_bdone := sb_bdone b @ [x b]\<rparr>)) (\<lambda>_. stream_on en h k) (stream_on en h k)" for x
    by (rule note_up) (simp_all add: core_def surfs_def bufs_ok_def)
  have some: "triple (stream_on en h k)
      (s_bind (s_get (\<lambda>s. of_nat (sb_stream_len (st_bufs s)) :: u32)) (\<lambda>start.
       s_then (ave_session_process_result en (jobs ! j))
      (s_bind (s_get st_bufs) (\<lambda>b.
       s_then (s_fail_if (ext \<and> ci_frame_num (sb_coded_info b) \<noteq> jb_n (jobs ! j)) EPROTO)
      (s_then (s_bufs (\<lambda>b. b\<lparr>sb_bdone := sb_bdone b @
          [\<lparr>bd_j = j, bd_off = start, bd_len = of_nat (sb_stream_len b) - start, bd_type = sb_coded_type b\<rparr>]\<rparr>))
      (s_ret j)))))) (\<lambda>_. stream_on en h k) (stream_on en h k)" if "find_job sn jobs done = Some j" for j sn
  proof -
    have "jb_idx (jobs ! j) < unat k" using find_job_bound [OF that] assms(3) by (simp add: jobs_ok_def)
    note r = result_on [OF assms(1) this]
    show ?thesis
      by (intro t_bind [where Q = "\<lambda>_. stream_on en h k"] t_then [OF r] t_then [where Q = "stream_on en h k"] t_get
          t_fail_if note_on t_ret)
  qed
  show ?thesis
    unfolding batch_collect_one_def
    by (rule t_bind [OF batch_wait_up [OF a assms(2)]], rule t_option) (auto intro: t_err some)
qed

lemma collect_up:
  assumes "env_ok en" "batch_kept en h be" "jobs_ok k jobs"
  shows "triple (stream_on en h k) (batch_collect en be op cid jobs ext n ds) (\<lambda>_. stream_on en h k) (stream_on en h k)"
proof (induction n arbitrary: ds)
  case 0
  show ?case by (auto intro: t_ret)
next
  case (Suc n)
  show ?case unfolding batch_collect.simps by (rule t_bind [OF collect_one_up [OF assms] Suc.IH])
qed

lemma batch_mode_wf: "rx_wf rx \<Longrightarrow> rx_wf (rx_batch_mode want rx)"
  by (simp add: rx_wf_def rx_batch_mode_def)

lemma t_pair: "(\<And>a b. triple (P a b) (f a b) Q E) \<Longrightarrow> triple (case_prod P x) (case_prod f x) Q E"
  by (cases x) simp

lemma exchange_up:
  assumes "env_ok en" "batch_kept en h be" "jobs_ok k jobs"
  shows "triple (stream_on en h k) (batch_exchange en be cid jobs ext) (\<lambda>_. stream_on en h k) (stream_on en h k)"
proof -
  have mode: "triple (stream_on en h k) (\<lambda>s. (Ok (), s\<lparr>st_rx := rx_batch_mode want (st_rx s)\<rparr>)) (\<lambda>_. stream_on en h k) (stream_on en h k)"
    for want
  proof (rule tripleI)
    fix s r s' assume on: "stream_on en h k s" and m: "(Ok (), s\<lparr>st_rx := rx_batch_mode want (st_rx s)\<rparr>) = (r, s')"
    have "rx_wf (st_rx s)" using on_facts(2) [OF on] by (simp add: sess_sound_def)
    then show "r \<noteq> Fault \<and> (\<forall>x. r = Ok x \<longrightarrow> stream_on en h k s') \<and> (\<forall>e. r = Err e \<longrightarrow> stream_on en h k s')"
      using m on_rx [OF on batch_mode_wf] by auto
  qed
  have js: "jobs_ok k (take c jobs)" for c using assms(3) by (auto simp: jobs_ok_def dest: in_set_takeD)
  have rest: "triple (\<lambda>s. stream_on en h k s \<and> m \<le> 0 + length jobs)
      (if m = 0 then (case e of None \<Rightarrow> s_ret () | Some e \<Rightarrow> s_err e) else batch_collect en be op cid (take m jobs) ext m [])
      (\<lambda>_. stream_on en h k) (stream_on en h k)" for op m e
    by (cases e) (auto intro!: t_if t_ret t_err t_conseq [OF collect_up [OF assms(1,2) js]])
  show ?thesis
    unfolding batch_exchange_def
    by (rule t_bind [where Q = "\<lambda>_. stream_on en h k"], rule t_get, simp, rule t_then [OF mode], rule t_bind [OF batch_send_up [OF assms(2)]],
        rule t_pair, rule rest)
qed

lemma batch_up:
  assumes "env_ok en" "batch_kept en h be"
  shows "triple (stream_run en h k) (ave_session_process_batch en be cid fs ext) (\<lambda>_. stream_run en h k) (stream_run en h k)"
proof -
  have last: "triple (\<lambda>s. stream_run en h k s \<and> jobs_ok k jobs \<and> length jobs = length [] + length fs)
      (\<lambda>s. case batch_exchange en be cid jobs (ext \<noteq> None) s of (r, s') \<Rightarrow> (r, s'\<lparr>st_rx := (st_rx s')\<lparr>rx_batch := False\<rparr>\<rparr>))
      (\<lambda>_. stream_run en h k) (stream_run en h k)" for jobs
  proof (rule tripleI)
    fix s r s' assume p: "stream_run en h k s \<and> jobs_ok k jobs \<and> length jobs = length [] + length fs"
      and m: "(case batch_exchange en be cid jobs (ext \<noteq> None) s of (r, s') \<Rightarrow> (r, s'\<lparr>st_rx := (st_rx s')\<lparr>rx_batch := False\<rparr>\<rparr>)) = (r, s')"
    obtain s1 where x: "batch_exchange en be cid jobs (ext \<noteq> None) s = (r, s1)" "s' = s1\<lparr>st_rx := (st_rx s1)\<lparr>rx_batch := False\<rparr>\<rparr>"
      using m by (auto split: prod.splits)
    have on: "stream_on en h k s" "jobs_ok k jobs" using p by (simp_all add: stream_run_def)
    note t = tripleD [OF exchange_up [OF assms on(2)] on(1) x(1)]
    have "stream_run en h k s'" if "stream_on en h k s1"
    proof -
      have "rx_wf ((st_rx s1)\<lparr>rx_batch := False\<rparr>)" using on_facts(2) [OF that] by (simp add: sess_sound_def rx_wf_def)
      then show ?thesis using on_rx [OF that] by (simp add: x(2) stream_run_def)
    qed
    then show "r \<noteq> Fault \<and> (\<forall>x. r = Ok x \<longrightarrow> stream_run en h k s') \<and> (\<forall>e. r = Err e \<longrightarrow> stream_run en h k s')"
      using t by (cases r) auto
  qed
  have clear: "triple (stream_run en h k) (s_bufs (\<lambda>b. b\<lparr>sb_bdone := []\<rparr>)) (\<lambda>_. stream_run en h k) (stream_run en h k)"
  proof (rule t_bufs)
    fix s assume p: "stream_run en h k s"
    then have "bufs_ok (st_bufs s)" by (auto simp: stream_run_def dest: on_facts(1))
    then show "stream_run en h k (s\<lparr>st_bufs := (st_bufs s)\<lparr>sb_bdone := []\<rparr>\<rparr>)"
      by (intro note_run [OF p]) (simp_all add: core_def surfs_def bufs_ok_def)
  qed
  have j0: "jobs_ok k []" by (simp add: jobs_ok_def)
  show ?thesis
    unfolding ave_session_process_batch_def
    by (rule t_then [OF clear], rule t_bind [where Q = "\<lambda>_. stream_run en h k"], rule t_get, simp,
        rule t_then [where Q = "stream_run en h k"], rule t_fail_if, simp, simp, rule t_bind [OF batch_build_up [OF j0] last])
qed

text \<open>C6. While a stream is up, no frame and no batch of frames leaves a buffer, and the stream stays up,
  whatever the firmware answers or leaves unanswered and however the call ends: the surfaces of every
  coded slot are still there with their length, in memory that is still allocated; the command buffers
  are the session's own blocks of FwIPC; device and capture record are sound. For an HEVC stream the
  firmware may write anything into the surfaces and FwIPC. For an H.264 stream one thing is asked of
  its writes: that no burst leaves a coded header with a count of CABAC zero words whose triple passes
  32 bits. The code does not check the count, and with such a one the append does overrun the stream
  (\<open>Ave_Sess_Append.cabac_words_overrun\<close>, a finding). The kernel's allocators keep their contracts.\<close>

theorem stream_stays_up:
  assumes "env_ok en" "words_kept en (sess_hevc (st_bufs s)) ce" "batch_kept en (sess_hevc (st_bufs s)) be"
    and "stream_up en s" "\<not> rx_batch (st_rx s)"
  shows "(case ave_session_process en dart ce cid n s of (r, s') \<Rightarrow> r \<noteq> Fault \<and> stream_up en s' \<and> \<not> rx_batch (st_rx s'))
    \<and> (case ave_session_process_batch en be cid fs ext s of (r, s') \<Rightarrow> r \<noteq> Fault \<and> stream_up en s' \<and> \<not> rx_batch (st_rx s'))"
proof -
  have run: "stream_run en (sess_hevc (st_bufs s)) (sb_n_coded (st_bufs s)) s"
    using assms(4,5) by (simp add: stream_run_def stream_on_def)
  have up: "stream_up en s' \<and> \<not> rx_batch (st_rx s')" if "stream_run en h k s'" for h k s'
    using that by (simp add: stream_run_def stream_on_def)
  obtain r1 s1 where 1: "ave_session_process en dart ce cid n s = (r1, s1)" by fastforce
  obtain r2 s2 where 2: "ave_session_process_batch en be cid fs ext s = (r2, s2)" by fastforce
  note t1 = tripleD [OF process_up [OF assms(1,2)] run 1] and t2 = tripleD [OF batch_up [OF assms(1,3)] run 2]
  show ?thesis using t1 t2 up by (cases r1; cases r2) (auto simp: 1 2)
qed

text \<open>A stream with one slot, both surfaces of which are live.\<close>

definition example_up_bufs :: ave_sess_bufs where
  "example_up_bufs = example_bufs\<lparr>sb_n_coded := 1, sb_pool := \<lparr>sp_dma = [(0x1000, 8), (0x2000, 0x22c60)], sp_ipc = []\<rparr>,
     sb_coded := (sb_coded example_bufs)[0 := (sb_coded example_bufs ! 0)\<lparr>sf_iova := 0x1000\<rparr>],
     sb_coded_hdr := (sb_coded_hdr example_bufs)[0 := (sb_coded_hdr example_bufs ! 0)\<lparr>sf_iova := 0x2000\<rparr>]\<rparr>"

definition example_up :: sess_st where
  "example_up = example_sess\<lparr>st_bufs := example_up_bufs\<rparr>"

text \<open>A firmware at work: it writes into FwIPC and a register, raises its interrupts, leaves a coded
  header with one byte and two CABAC zero words, and the start of a slice.\<close>

definition example_firmware :: cmd_env where
  "example_firmware =
     \<lparr>ce_dev = [FwMem 16 [1, 2, 3], FwReg 5 7, FwIntr 0xff, IrqRun, FwMem 0 [9], FwIntr 8, IrqRun],
      ce_surf = [SurfHdr 0 0x180 [9], SurfHdr 0 0xf0 (put_le32 2), SurfCoded 0 0 [0, 0, 0, 1, 0x65]]\<rparr>"

definition example_batch :: batch_env where
  "example_batch = \<lparr>be_send = (\<lambda>_. example_firmware), be_wait = (\<lambda>_. example_firmware), be_dart = (\<lambda>_. None)\<rparr>"

lemma example_firmware_kept:
  assumes "en_abi en = ave_cmd_abi_13_5"
  shows "words_kept en h example_firmware" "batch_kept en h example_batch"
proof -
  have "list_all (small_count en) (ce_surf example_firmware)"
    using assms by (simp add: example_firmware_def small_count_def coded_hdr_13_5_fields)
      (rule disjI2, rule exI [of _ 2], simp)
  then show "words_kept en h example_firmware" by (rule small_counts_kept)
  then show "batch_kept en h example_batch" by (simp add: batch_kept_def example_batch_def)
qed

lemma example_up_slot:
  "sb_coded example_up_bufs ! 0 = no_coded\<lparr>sf_cpu := Some [0, 0, 0, 1, 0x41, 0, 0, 0], sf_iova := 0x1000, sf_size := 8\<rparr>"
  "sb_coded_hdr example_up_bufs ! 0 = no_surface\<lparr>sf_cpu := Some example_hdr, sf_iova := 0x2000, sf_size := 0x22c60\<rparr>"
  "sess_hevc example_up_bufs = sess_hevc example_bufs" "sb_n_coded example_up_bufs = 1"
  "sl_mp_rec (sb_lat example_up_bufs) = sl_mp_rec (sb_lat example_bufs)"
  by (simp_all add: example_up_bufs_def example_bufs_def no_surface_def no_coded_def sess_hevc_def AVE_SESS_FRAMES_MAX_def)

lemma example_up_ok: "bufs_ok example_up_bufs"
proof -
  note b = example_bufs_ok
  have l: "0 < length (sb_coded example_bufs)" "0 < length (sb_coded_hdr example_bufs)"
    using b by (simp_all add: bufs_ok_def AVE_SESS_FRAMES_MAX_def)
  have "surf_ok (sb_coded example_bufs ! 0)" "surf_ok (sb_coded_hdr example_bufs ! 0)"
    using b l by (simp_all add: bufs_ok_def)
  then have "\<forall>s \<in> set (sb_coded example_up_bufs). surf_ok s" "\<forall>s \<in> set (sb_coded_hdr example_up_bufs). surf_ok s"
    using b unfolding example_up_bufs_def
    by (auto simp: bufs_ok_def surf_ok_def split: option.split dest!: set_update_subset_insert [THEN subsetD])
  then show ?thesis using b by (simp add: bufs_ok_def example_up_bufs_def AVE_SESS_FRAMES_MAX_def)
qed

lemma example_up_holds: "stream_up (example_env\<lparr>en_dma := example_dma\<rparr>) example_up"
proof -
  let ?en = "example_env\<lparr>en_dma := example_dma\<rparr>"
  have s: "st_bufs example_up = example_up_bufs" "st_dev example_up = example_io" "st_rx example_up = fresh_rx"
    "st_lab example_up = fresh_lab" "en_gp ?en = bump_pool 256"
    by (simp_all add: example_up_def example_sess_def example_env_def)
  have f: "sb_mp_in example_up_bufs = sb_mp_in fresh_bufs" "sb_proc_cmd example_up_bufs = sb_proc_cmd fresh_bufs"
    "sb_psets_size example_up_bufs = sb_psets_size fresh_bufs" "sp_ipc (sb_pool example_up_bufs) = []"
    by (simp_all add: example_up_bufs_def example_bufs_def)
  have "mp_in_ok example_up_bufs" by (simp add: mp_in_ok_def f fresh_bufs_def)
  moreover have "cmds_ok ?en example_up_bufs" by (simp add: cmds_ok_def f fresh_bufs_def)
  moreover have "unat (sb_psets_size example_up_bufs) \<le> 0x1000" unfolding f by (simp add: fresh_bufs_def)
  ultimately have sound: "sess_sound ?en example_up"
    using example_io_alive example_up_ok example_sess_ok(4) by (simp add: sess_sound_def s f)
  have "slot_up example_up_bufs 0"
    by (simp add: slot_up_def slot_ok_def backed_def example_up_slot example_fields AVE_SESS_FRAMES_MAX_def)
      (simp add: example_up_bufs_def)
  moreover have "count_ok ?en example_up_bufs 0"
    by (simp add: count_ok_def example_up_slot example_env_def coded_hdr_13_5_fields Let_def)
  ultimately show ?thesis using sound by (simp add: stream_up_def slots_up_def words_ok_def s example_up_slot)
qed

lemma stream_stays_up_witness:
  "(case ave_session_process (example_env\<lparr>en_dma := example_dma\<rparr>) None example_firmware 1 0 example_up of
      (r, s') \<Rightarrow> r \<noteq> Fault \<and> stream_up (example_env\<lparr>en_dma := example_dma\<rparr>) s' \<and> \<not> rx_batch (st_rx s'))
   \<and> (case ave_session_process_batch (example_env\<lparr>en_dma := example_dma\<rparr>) example_batch 1 [(0, None)] None example_up of
      (r, s') \<Rightarrow> r \<noteq> Fault \<and> stream_up (example_env\<lparr>en_dma := example_dma\<rparr>) s' \<and> \<not> rx_batch (st_rx s'))"
proof -
  let ?en = "example_env\<lparr>en_dma := example_dma\<rparr>"
  have e: "env_ok ?en" using example_sess_ok(1,2) example_dma_ok by (simp add: env_ok_def example_env_def)
  have "en_abi ?en = ave_cmd_abi_13_5" by (simp add: example_env_def)
  note k = example_firmware_kept [OF this]
  have r: "\<not> rx_batch (st_rx example_up)" by (simp add: example_up_def example_sess_def fresh_rx_def)
  show ?thesis by (rule stream_stays_up [OF e k example_up_holds r])
qed

end
