(* ===== verification/Ave_Sess_Keep.thy ===== *)
theory Ave_Sess_Keep
  imports Ave_Sess_Safe
begin

text \<open>
  What was agreed at boot - the interface, the placement of FwIPC - is what every command,
  frame and batch of a session finds, and leaves.
\<close>

definition boot_kept :: "sess_st \<Rightarrow> sess_st \<Rightarrow> bool" where
  "boot_kept s s' \<longleftrightarrow> boot_view (st_dev s') = boot_view (st_dev s)"

interpretation bk: sess_relation boot_kept
  by unfold_locales (simp_all add: boot_kept_def)

lemma rx_run_view: "rx_run gp acts (d, rx) = (d', rx') \<Longrightarrow> boot_view d' = boot_view d"
  by (auto simp: rx_run_def Let_def)

lemma send_view: "boot_view (snd (ave_ipc_send ch iova len x d)) = boot_view d"
  by (simp add: ave_ipc_send_def Let_def)

lemma send_view2: "ave_ipc_send ch iova len x d = (e, d') \<Longrightarrow> boot_view d' = boot_view d"
  using send_view [of ch iova len x d] by simp

lemma cmd_view:
  "ave_session_cmd gp abi op acts iova len cid (d, rx) = (r, d', rx') \<Longrightarrow> boot_view d' = boot_view d"
  by (auto simp: ave_session_cmd_def Let_def dest!: send_view2 rx_run_view split: option.splits if_splits prod.splits)

lemma sess_alloc_view: "ave_sess_ipc_alloc gp sz p d = (q, p', d') \<Longrightarrow> boot_view d' = boot_view d"
  by (auto simp: ave_sess_ipc_alloc_def dest!: view_alloc split: option.splits if_splits prod.splits)

lemma bk_basic:
  "keeps boot_kept (s_dma_alloc en sz)" "keeps boot_kept (s_ipc_alloc en len)" "keeps boot_kept (s_build cpu len build)"
  "keeps boot_kept (s_bufs f)" "keeps boot_kept (clear_hdr idx)" "keeps boot_kept (keep_mp_record idx n)"
  "keeps boot_kept (append_frame en idx key)" "keeps boot_kept (s_run en ce)"
  "keeps boot_kept (s_cmd en ce op iova len cid)"
  "keeps boot_kept (\<lambda>s. case ave_ipc_send AVE_CH_IO iova2 len2 0 (st_dev s) of (e, d) \<Rightarrow> (Ok e, s\<lparr>st_dev := d\<rparr>))"
  by (auto simp: keeps_def boot_kept_def s_dma_alloc_def s_ipc_alloc_def s_build_def s_bufs_def clear_hdr_def keep_mp_record_def
      append_frame_def s_run_def s_cmd_def Let_def dest: rx_run_view cmd_view send_view2 sess_alloc_view
      split: prod.split sum.split cres.split option.split)

lemmas bk_rules = bk.rules bk_basic

lemma process_build_view: "keeps boot_kept (ave_session_process_build en dart cid n t)"
  unfolding ave_session_process_build_def proc_source_def own_planes_def proc_recon_def proc_cmd_buf_def proc_mp_def
    proc_build_cmd_def Let_def
  by (intro bk_rules)

lemma result_view: "keeps boot_kept (ave_session_process_result en job)"
proof -
  have st: "keeps boot_kept (result_store en job i nal)" for i nal
    by (auto intro!: keepsI simp: result_store_def Let_def boot_kept_def split: if_splits cres.splits
        dest!: keepsD [OF bk_basic(7)])
  show ?thesis unfolding ave_session_process_result_def read_coded_hdr_def Let_def by (intro bk_rules st)
qed

lemma process_view: "keeps boot_kept (ave_session_process en dart ce cid n)"
  unfolding ave_session_process_def by (intro bk_rules process_build_view result_view)

lemma build_one_view: "keeps boot_kept (batch_build_one en be cid k f e)"
  by (auto intro!: keepsI simp: batch_build_one_def boot_kept_def split: prod.splits dest!: keepsD [OF process_build_view])

lemma batch_build_view: "keeps boot_kept (batch_build en be cid fs ext jobs)"
proof (induction fs arbitrary: jobs)
  case (Cons f fs)
  show ?case unfolding batch_build.simps by (intro bk_rules build_one_view Cons.IH)
qed (simp add: bk_rules)

lemma batch_send_view: "keeps boot_kept (batch_send en be js k)"
proof (induction js arbitrary: k)
  case (Cons j js)
  show ?case unfolding batch_send.simps by (intro bk_rules Cons.IH)
qed (simp add: bk_rules)

lemma rx_done_view: "keeps boot_kept (\<lambda>s. (Ok (), s\<lparr>st_rx := f s\<rparr>))"
  by (simp add: keeps_def boot_kept_def)

lemma collect_one_view: "keeps boot_kept (batch_collect_one en be op cid jobs ext done)"
  unfolding batch_collect_one_def batch_wait_def by (intro bk_rules rx_done_view result_view)

lemma collect_view: "keeps boot_kept (batch_collect en be op cid jobs ext n done)"
proof (induction n arbitrary: "done")
  case (Suc n)
  show ?case unfolding batch_collect.simps by (intro bk_rules collect_one_view Suc.IH)
qed (simp add: bk_rules)

lemma exchange_view: "keeps boot_kept (batch_exchange en be cid jobs ext)"
  unfolding batch_exchange_def by (intro bk_rules rx_done_view batch_send_view collect_view)

lemma batch_view: "keeps boot_kept (ave_session_process_batch en be cid fs ext)"
proof -
  have "keeps boot_kept (\<lambda>s. case batch_exchange en be cid jobs x s of (r, s') \<Rightarrow> (r, s'\<lparr>st_rx := (st_rx s')\<lparr>rx_batch := False\<rparr>\<rparr>))"
    for jobs x
    by (auto intro!: keepsI simp: boot_kept_def split: prod.splits dest!: keepsD [OF exchange_view])
  then show ?thesis unfolding ave_session_process_batch_def by (intro bk_rules batch_build_view)
qed

end
