(* ===== verification/Ave_Sess_Api.thy ===== *)
theory Ave_Sess_Api
  imports Ave_Sess_Start Ave_Sess_Steps Ave_Gop
begin

text \<open>
  The encoder API of \<^verbatim>\<open>src/driver/ave_session.c\<close> that the V4L2 layer and the unload path
  call: Config at probe, start and stop of a stream, one frame, a batch, giving the client
  back, halting the core, releasing the session.

  \<^item> \<open>ec_freed\<close> logs the DMA memory handed back to the kernel, oldest first.
  \<^item> The reply hook is the driver's own throughout; that \<open>ave_session_close_client\<close> installs it
    again and restores it has no counterpart. So have the PMP vote of a stream, timing, log
    lines and the DAPF dump on close.
  \<^item> \<open>ave_session_halt\<close> reads \<open>CPU_STATUS\<close> at the end for the log only: left out.
\<close>

definition AVE_SESS_CNT_TEARDOWN :: nat where "AVE_SESS_CNT_TEARDOWN = 32"
definition AVE_SESS_TIMEOUT_MS :: u32 where "AVE_SESS_TIMEOUT_MS = 2000"
definition AVE_HALT_CMD_TIMEOUT_MS :: u32 where "AVE_HALT_CMD_TIMEOUT_MS = 3000"
definition AVE_SCRATCH0_STOPPED :: u32 where "AVE_SCRATCH0_STOPPED = 0x08042006"

section \<open>State and environment\<close>

datatype ave_pm_state = AVE_PM_ON | AVE_PM_SUSPENDING | AVE_PM_OFF | AVE_PM_BOOTING | AVE_PM_DEAD

record ave_enc =
  ec_st :: sess_st
  ec_bufs :: bool          \<comment> \<open>\<open>session_bufs\<close> is not NULL\<close>
  ec_rx :: bool            \<comment> \<open>\<open>sess_rx\<close> is not NULL\<close>
  ec_running :: bool
  ec_powered :: bool
  ec_client_open :: bool
  ec_fw_hung :: bool
  ec_pm :: ave_pm_state
  ec_freed :: "(u64 \<times> u64) list"

type_synonym 'a api = "ave_enc \<Rightarrow> 'a cres \<times> ave_enc"

record api_env =
  ap_sess :: sess_env
  ap_start :: start_env
  ap_kzalloc :: bool       \<comment> \<open>of the session\<close>
  ap_rx :: bool            \<comment> \<open>\<open>devm_kzalloc\<close> of the capture record\<close>
  ap_two_refs :: int       \<comment> \<open>module parameter \<open>enc_two_refs\<close>\<close>
  ap_two_refs_hang :: bool \<comment> \<open>of the SoC\<close>
  ap_multi_me_auto :: bool
  ap_fw_halt :: bool
  ap_banks :: bool         \<comment> \<open>the SVE and ASC banks are mapped\<close>

definition enc_abi :: "ave_enc \<Rightarrow> ave_cmd_abi option" where
  "enc_abi e = ave_cmd_abi_get (fw_abi (st_dev (ec_st e)))"

definition env_for :: "api_env \<Rightarrow> ave_cmd_abi \<Rightarrow> sess_env" where
  "env_for ap abi = (ap_sess ap)\<lparr>en_abi := abi\<rparr>"

text \<open>A session step run on the device.\<close>

definition a_run :: "'a sess \<Rightarrow> 'a api" where
  "a_run m e = (case m (ec_st e) of (r, s) \<Rightarrow> (r, e\<lparr>ec_st := s\<rparr>))"

definition a_bufs :: "(ave_sess_bufs \<Rightarrow> ave_sess_bufs) \<Rightarrow> ave_enc \<Rightarrow> ave_enc" where
  "a_bufs f e = e\<lparr>ec_st := (ec_st e)\<lparr>st_bufs := f (st_bufs (ec_st e))\<rparr>\<rparr>"

text \<open>\<open>ave_sess_free_to\<close> of the session's own pool.\<close>

definition a_free_to :: "nat \<Rightarrow> nat \<Rightarrow> ave_enc \<Rightarrow> ave_enc" where
  "a_free_to ndma nipc e =
     (let s = ec_st e
      in case ave_sess_free_to ndma nipc (sb_pool (st_bufs s)) (st_dev s) of
           (back, p, d) \<Rightarrow> e\<lparr>ec_st := s\<lparr>st_bufs := (st_bufs s)\<lparr>sb_pool := p\<rparr>, st_dev := d\<rparr>,
                             ec_freed := ec_freed e @ back\<rparr>)"

text \<open>\<open>ave_sess_rx_init\<close>: \<open>False\<close> when there is no record.\<close>

definition a_rx_init :: "api_env \<Rightarrow> ave_enc \<Rightarrow> bool \<times> ave_enc" where
  "a_rx_init ap e =
     (if ec_rx e \<or> ap_rx ap
      then (True, e\<lparr>ec_st := (ec_st e)\<lparr>st_rx := ave_sess_rx_init (if ec_rx e then Some (st_rx (ec_st e)) else None)\<rparr>,
                    ec_rx := True\<rparr>)
      else (False, e))"

section \<open>Giving the client back\<close>

definition le32_at :: "u32 \<Rightarrow> nat \<Rightarrow> u8" where
  "le32_at v i = ucast (drop_bit (8 * i) v)"

definition close_ctx :: "nat \<Rightarrow> bool \<Rightarrow> ave_cmd_ctx" where
  "close_ctx i hevc =
     \<lparr>cx_count = of_nat (AVE_SESS_CNT_TEARDOWN + i), cx_client_id = AVE_SESS_CLIENT_ID,
      cx_timeout = (\<lambda>k. if k < 4 then le32_at AVE_SESS_TIMEOUT_MS k else 0), cx_hevc = hevc\<rparr>"

text \<open>One command of the teardown. Its buffer goes back to the pool when the command never went out or was
  answered well, not when the firmware may still read it.\<close>

definition close_one :: "sess_env \<Rightarrow> cmd_env \<Rightarrow> nat \<Rightarrow> ave_op \<Rightarrow> unit sess" where
  "close_one en ce i op s =
     (let len = ave_cmd_size (en_abi en) op; hevc = (st_client_codec s = AVE_SESS_CODEC_HEVC)
      in if len = 0 then (Err ENODEV, s)
         else case ave_ipc_alloc (en_gp en) len (st_dev s) of
                (None, d) \<Rightarrow> (Err ENOMEM, s\<lparr>st_dev := d\<rparr>)
              | (Some cpu, d) \<Rightarrow>
                  (case s_build cpu len (\<lambda>buf. ave_cmd_build_simple (en_abi en) op buf (close_ctx i hevc)) (s\<lparr>st_dev := d\<rparr>) of
                     (Ok _, s1) \<Rightarrow>
                       (case s_cmd en ce op (ave_ipc_cpu_to_iova (st_dev s1) cpu) len AVE_SESS_CLIENT_ID s1 of
                          (Ok _, s2) \<Rightarrow> (Ok (), s2\<lparr>st_dev := ave_ipc_free (Some cpu) len (st_dev s2)\<rparr>)
                        | r \<Rightarrow> r)
                   | (r, s1) \<Rightarrow> (r, s1\<lparr>st_dev := ave_ipc_free (Some cpu) len (st_dev s1)\<rparr>)))"

definition close_cmds :: "sess_env \<Rightarrow> cmd_env \<Rightarrow> cmd_env \<Rightarrow> unit sess" where
  "close_cmds en stop close = s_then (close_one en stop 0 AVE_OP_STOP) (close_one en close 1 AVE_OP_CLOSE)"

definition client_closed :: "ave_enc \<Rightarrow> ave_enc" where
  "client_closed e = e\<lparr>ec_st := (ec_st e)\<lparr>st_client_codec := AVE_SESS_CODEC_AVC\<rparr>, ec_client_open := False\<rparr>"

definition ave_session_close_client :: "api_env \<Rightarrow> cmd_env \<Rightarrow> cmd_env \<Rightarrow> unit api" where
  "ave_session_close_client ap stop close e =
     (if \<not> ec_client_open e then (Ok (), e)
      else case enc_abi e of
             None \<Rightarrow> (Err ENODEV, e)
           | Some abi \<Rightarrow>
               if \<not> ec_running e \<or> \<not> ec_powered e then (Err ENODEV, e)
               else case a_rx_init ap e of
                      (False, e) \<Rightarrow> (Err ENOMEM, e)
                    | (True, e) \<Rightarrow>
                        (case a_run (close_cmds (env_for ap abi) stop close) e of
                           (Ok _, e) \<Rightarrow> (Ok (), client_closed e)
                         | r \<Rightarrow> r))"

section \<open>Halt\<close>

text \<open>\<open>readl_relaxed_poll_timeout\<close> of scratch 0: the device goes through one list of actions before each read.\<close>

fun halt_poll :: "ipc_gp \<Rightarrow> env_act list list \<Rightarrow> ave_device \<Rightarrow> bool \<times> ave_device" where
  "halt_poll gp [] d = (False, d)"
| "halt_poll gp (acts # as) d =
     (let d = env_run gp acts d in if ave_scratch d 0 = AVE_SCRATCH0_STOPPED then (True, d) else halt_poll gp as d)"

definition halt_ctx :: ave_cmd_ctx where
  "halt_ctx = \<lparr>cx_count = 0, cx_client_id = 0,
               cx_timeout = (\<lambda>k. if k < 4 then le32_at AVE_HALT_CMD_TIMEOUT_MS k else 0), cx_hevc = False\<rparr>"

text \<open>The part behind the tests: clear the completion word, send, poll. \<open>clr\<close> is what the device does before
  the clear is read back.\<close>

definition halt_send :: "ipc_gp \<Rightarrow> ave_cmd_abi \<Rightarrow> env_act list \<Rightarrow> env_act list list \<Rightarrow> ave_device \<Rightarrow> unit cres \<times> ave_device" where
  "halt_send gp abi clr polls d =
     (let d = env_run gp clr (ave_set_scratch 0 0 d); len = ave_cmd_size abi AVE_OP_HALT
      in if ave_scratch d 0 \<noteq> 0 then (Err EIO, d)
         else case ave_ipc_alloc gp len d of
                (None, d) \<Rightarrow> (Err ENOMEM, d)
              | (Some cpu, d) \<Rightarrow>
                  let iova = ave_ipc_cpu_to_iova d cpu;
                      (r, buf) = ave_cmd_build_simple abi AVE_OP_HALT (peek (ipc_mem d) cpu len) halt_ctx;
                      d = d\<lparr>ipc_mem := poke (ipc_mem d) cpu buf\<rparr>
                  in case r of
                       Inl e \<Rightarrow> (Err e, ave_ipc_free (Some cpu) len d)
                     | Inr _ \<Rightarrow>
                         (case ave_ipc_send AVE_CH_IO iova (of_nat len) 0 d of
                            (Some e, d) \<Rightarrow> (Err e, ave_ipc_free (Some cpu) len d)
                          | (None, d) \<Rightarrow>
                              (case halt_poll gp polls d of
                                 (False, d) \<Rightarrow> (Err ETIMEDOUT, d)
                               | (True, d) \<Rightarrow> (Ok (), ave_ipc_free (Some cpu) len d))))"

definition ave_session_halt :: "api_env \<Rightarrow> env_act list \<Rightarrow> env_act list list \<Rightarrow> unit api" where
  "ave_session_halt ap clr polls e =
     (if \<not> ap_fw_halt ap then (Ok (), e)
      else if \<not> st_mcpu_created (ec_st e) then (Err ENOTCONN, e)
      else if \<not> ec_powered e \<or> \<not> ec_running e \<or> \<not> ap_banks ap then (Err ENODEV, e)
      else case enc_abi e of
             None \<Rightarrow> (Err ENODEV, e)
           | Some abi \<Rightarrow>
               if ave_cmd_size abi AVE_OP_HALT = 0 then (Err ENODEV, e)
               else case halt_send (en_gp (ap_sess ap)) abi clr polls (st_dev (ec_st e)) of
                      (r, d) \<Rightarrow> (r, e\<lparr>ec_st := (ec_st e)\<lparr>st_dev := d\<rparr>\<rparr>))"

section \<open>Config, and what a session may be\<close>

definition ave_session_release :: "ave_enc \<Rightarrow> ave_enc" where
  "ave_session_release e =
     (if \<not> ec_bufs e then e
      else let s = ec_st e
           in case ave_sess_free_all (sb_pool (st_bufs s)) (st_dev s) of
                (back, _, d) \<Rightarrow> e\<lparr>ec_bufs := False, ec_st := s\<lparr>st_dev := d, st_bufs := fresh_bufs\<rparr>,
                                  ec_freed := ec_freed e @ back\<rparr>)"

definition set_marks :: "ave_sess_bufs \<Rightarrow> ave_sess_bufs" where
  "set_marks b = b\<lparr>sb_mark_dma := length (sp_dma (sb_pool b)), sb_mark_ipc := length (sp_ipc (sb_pool b))\<rparr>"

definition ave_enc_init :: "api_env \<Rightarrow> cmd_env \<Rightarrow> unit api" where
  "ave_enc_init ap ce e =
     (case enc_abi e of
        None \<Rightarrow> (Err ENODEV, e)
      | Some abi \<Rightarrow>
          if \<not> ec_running e then (Err ENODEV, e)
          else if \<not> ap_kzalloc ap then (Err ENOMEM, e)
          else
            let e = a_bufs (\<lambda>_. fresh_bufs) ((ave_session_release e)\<lparr>ec_bufs := True\<rparr>)
            in case a_rx_init ap e of
                 (False, e) \<Rightarrow> (Err ENOMEM, e)
               | (True, e) \<Rightarrow>
                   (case a_run (ave_session_config (env_for ap abi) (ap_start ap) ce) e of
                      (Ok _, e) \<Rightarrow> (Ok (), a_bufs set_marks e)
                    | r \<Rightarrow> r))"

definition ave_sess_hevc_ok :: "start_env \<Rightarrow> ave_cmd_abi option \<Rightarrow> bool" where
  "ave_sess_hevc_ok se abi \<longleftrightarrow>
     (case abi of
        None \<Rightarrow> False
      | Some abi \<Rightarrow> hv_vps_block (ab_start_hevc abi) \<noteq> AVE_OFF_NONE \<and> session_lsb (se_sess se)
                    \<and> session_hevc_xc (se_par se) \<ge> 1 \<and> session_hevc_xc (se_par se) \<le> 2)"

definition ave_enc_hevc_supported :: "api_env \<Rightarrow> ave_enc \<Rightarrow> bool" where
  "ave_enc_hevc_supported ap e = ave_sess_hevc_ok (ap_start ap) (enc_abi e)"

definition ave_enc_two_refs_supported :: "api_env \<Rightarrow> u32 \<Rightarrow> bool" where
  "ave_enc_two_refs_supported ap codec \<longleftrightarrow>
     (if ap_two_refs ap \<ge> 0 then ap_two_refs ap > 0 else codec = AVE_SESS_CODEC_HEVC \<or> \<not> ap_two_refs_hang ap)"

section \<open>Starting a stream\<close>

record ave_enc_cfg =
  cf_codec :: u32
  cf_width :: u32
  cf_height :: u32
  cf_crop_w :: u32
  cf_crop_h :: u32
  cf_qp :: u32
  cf_qp_p :: u32
  cf_qp_b :: u32
  cf_qp_min :: u32
  cf_qp_max :: u32
  cf_bitrate :: u32
  cf_fps_num :: u32
  cf_fps_den :: u32
  cf_slots :: u32
  cf_profile_idc :: u32
  cf_src_bitdepth :: u32
  cf_level_idc :: u32
  cf_cabac :: bool
  cf_bframes :: u32
  cf_p_refs :: u32

definition cfg_hevc :: "ave_enc_cfg \<Rightarrow> bool" where "cfg_hevc c \<longleftrightarrow> cf_codec c = AVE_SESS_CODEC_HEVC"

definition two_refs :: "ave_enc_cfg \<Rightarrow> bool" where "two_refs c \<longleftrightarrow> cf_bframes c \<noteq> 0 \<or> cf_p_refs c \<ge> 2"

definition cfg_bad_geometry :: "ave_enc_cfg \<Rightarrow> bool" where
  "cfg_bad_geometry c \<longleftrightarrow>
     cf_width c < 192 \<or> cf_width c > 4096 \<or> cf_height c < 96 \<or> cf_height c > 4096
   \<or> cf_width c AND 1 \<noteq> 0 \<or> cf_height c AND 1 \<noteq> 0
   \<or> cf_qp c > 51 \<or> cf_qp_p c > 51 \<or> cf_qp_b c > 51 \<or> cf_qp_min c > 51 \<or> cf_qp_max c > 51
   \<or> cf_codec c > AVE_SESS_CODEC_HEVC"

definition cfg_check :: "api_env \<Rightarrow> ave_cmd_abi \<Rightarrow> ave_enc_cfg \<Rightarrow> errno option" where
  "cfg_check ap abi c =
     (if cfg_bad_geometry c then Some EINVAL
      else if cfg_hevc c \<and> \<not> ave_sess_hevc_ok (ap_start ap) (Some abi) then Some EOPNOTSUPP
      else if cfg_hevc c \<and> cf_profile_idc c > 2 \<or> cf_src_bitdepth c = 10 \<and> \<not> cfg_hevc c then Some EINVAL
      else if cf_bframes c > of_nat AVE_GOP_B_MAX \<or> cf_p_refs c > 2
              \<or> cf_bframes c \<noteq> 0 \<and> \<not> cfg_hevc c \<and> cf_profile_idc c < 77 then Some EINVAL
      else if two_refs c \<and> \<not> ave_enc_two_refs_supported ap (cf_codec c) then Some EOPNOTSUPP
      else None)"

definition cfg_of :: "api_env \<Rightarrow> ave_enc_cfg \<Rightarrow> sess_cfg" where
  "cfg_of ap c =
     (let hevc = cfg_hevc c
      in \<lparr>sc_codec = cf_codec c, sc_width = cf_width c, sc_height = cf_height c, sc_crop_w = cf_crop_w c,
          sc_crop_h = cf_crop_h c, sc_qp = cf_qp c, sc_qp_p = cf_qp_p c, sc_qp_b = cf_qp_b c,
          sc_profile = (if hevc then 0 else cf_profile_idc c), sc_level_floor = cf_level_idc c,
          sc_cabac = (\<not> hevc \<and> cf_cabac c \<and> cf_profile_idc c \<noteq> 66), sc_bitrate = cf_bitrate c,
          sc_fps_num = cf_fps_num c, sc_fps_den = cf_fps_den c, sc_qp_min = cf_qp_min c, sc_qp_max = cf_qp_max c,
          sc_req_slots = cf_slots c, sc_bframes = cf_bframes c, sc_p_refs = cf_p_refs c,
          sc_req_dpb = (if two_refs c then max (session_dpb (se_sess (ap_start ap))) 3 else 0),
          sc_multi_me = (if ap_multi_me_auto ap \<and> two_refs c then 1 else 0),
          sc_bit_depth = (if hevc \<and> cf_profile_idc c = 2 then 10 else 0),
          sc_src_bitdepth = (if cf_src_bitdepth c = 10 then 10 else 0), sc_open_ended = True, sc_encode = True\<rparr>)"

definition start_bufs :: "api_env \<Rightarrow> ave_enc_cfg \<Rightarrow> ave_sess_bufs \<Rightarrow> ave_sess_bufs" where
  "start_bufs ap c b =
     b\<lparr>sb_cfg := cfg_of ap c, sb_lat := (sb_lat b)\<lparr>sl_hevc_bframes := 0\<rparr>, sb_n_done := 0, sb_stream_len := 0\<rparr>"

text \<open>The three allocations between Open and Start, none of which fails the stream.\<close>

definition geom_of :: "ave_sess_bufs \<Rightarrow> sess_geom" where
  "geom_of b =
     (let c = sb_cfg b
      in \<lparr>sg_width = sc_width c, sg_height = sc_height c, sg_codec = sc_codec c, sg_bit_depth = sc_bit_depth c,
          sg_encode = sc_encode c, sg_req_dpb = sc_req_dpb c\<rparr>)"

definition alloc_nbr :: "sess_env \<Rightarrow> start_env \<Rightarrow> ave_sess_bufs \<Rightarrow> ave_sess_bufs" where
  "alloc_nbr en se b =
     (case ave_session_alloc_nbr (en_dma en) (se_sess se) (geom_of b) (sb_pool b) (sb_nbr b) of
        (p, n) \<Rightarrow> b\<lparr>sb_pool := p, sb_nbr := n\<rparr>)"

definition alloc_entropy :: "sess_env \<Rightarrow> start_env \<Rightarrow> ave_sess_bufs \<Rightarrow> ave_sess_bufs" where
  "alloc_entropy en se b =
     (case ave_session_alloc_entropy (en_dma en) (se_sess se) (en_abi en) (geom_of b) (sb_pool b) (sb_entropy b) of
        (p, n) \<Rightarrow> b\<lparr>sb_pool := p, sb_entropy := n\<rparr>)"

definition alloc_dpb :: "sess_env \<Rightarrow> start_env \<Rightarrow> ave_sess_bufs \<Rightarrow> ave_sess_bufs" where
  "alloc_dpb en se b =
     (case ave_session_alloc_dpb (en_dma en) (se_sess se) (geom_of b) (sb_pool b) (sb_dpb b) of
        (p, n) \<Rightarrow> b\<lparr>sb_pool := p, sb_dpb := n\<rparr>)"

definition alloc_scratch :: "sess_env \<Rightarrow> start_env \<Rightarrow> ave_sess_bufs \<Rightarrow> ave_sess_bufs" where
  "alloc_scratch en se b = alloc_dpb en se (alloc_entropy en se (alloc_nbr en se b))"

record stream_env =
  sv_open :: cmd_env
  sv_start :: cmd_env
  sv_stop :: cmd_env
  sv_close :: cmd_env

text \<open>What the stream's buffers leave in the session is cleared; the scratch tables are not.\<close>

definition stop_clear :: "ave_sess_bufs \<Rightarrow> ave_sess_bufs" where
  "stop_clear b =
     b\<lparr>sb_src := replicate AVE_SESS_FRAMES_MAX no_src, sb_proc_cmd := replicate AVE_SESS_FRAMES_MAX (None, 0),
       sb_pic_recon := None, sb_slice_hdr := replicate AVE_SESS_FRAMES_MAX no_surface, sb_transcoded := [0, 0],
       sb_n_transcoded := 0, sb_stream_len := 0, sb_n_done := 0\<rparr>"

definition ave_enc_stop :: "api_env \<Rightarrow> cmd_env \<Rightarrow> cmd_env \<Rightarrow> unit api" where
  "ave_enc_stop ap stop close e =
     (if \<not> ec_bufs e \<or> \<not> ec_client_open e then (Ok (), e)
      else if ec_fw_hung e then (Err EIO, e)
      else case ave_session_close_client ap stop close e of
             (Ok _, e) \<Rightarrow>
               (let b = st_bufs (ec_st e); e = a_free_to (sb_mark_dma b) (sb_mark_ipc b) e; e = a_bufs stop_clear e
                in (Ok (), e\<lparr>ec_st := (ec_st e)\<lparr>st_dev := (st_dev (ec_st e))\<lparr>dart_check_quiet := False\<rparr>\<rparr>\<rparr>))
           | r \<Rightarrow> r)"

definition ave_enc_start :: "api_env \<Rightarrow> stream_env \<Rightarrow> ave_enc_cfg \<Rightarrow> unit api" where
  "ave_enc_start ap sv c e =
     (if ec_fw_hung e then (Err EIO, e)
      else if ec_pm e \<noteq> AVE_PM_ON then (Err EBUSY, e)
      else case enc_abi e of
             None \<Rightarrow> (Err ENODEV, e)
           | Some abi \<Rightarrow>
               if \<not> ec_bufs e then (Err ENODEV, e)
               else if ec_client_open e then (Err EBUSY, e)
               else case cfg_check ap abi c of
                      Some err \<Rightarrow> (Err err, e)
                    | None \<Rightarrow>
                        let en = env_for ap abi; se = ap_start ap; e = a_bufs (start_bufs ap c) e;
                            e = e\<lparr>ec_st := (ec_st e)\<lparr>st_dev := (st_dev (ec_st e))\<lparr>dart_check_quiet := True\<rparr>\<rparr>\<rparr>
                        in case a_run (ave_session_open en (sv_open sv) AVE_SESS_CLIENT_ID) e of
                             (Ok _, e) \<Rightarrow>
                               (case a_run (ave_session_start en se (sv_start sv) AVE_SESS_CLIENT_ID)
                                       (a_bufs (alloc_scratch en se) (e\<lparr>ec_client_open := True\<rparr>)) of
                                  (Err err, e) \<Rightarrow>
                                    (case ave_enc_stop ap (sv_stop sv) (sv_close sv) e of
                                       (Fault, e) \<Rightarrow> (Fault, e) | (_, e) \<Rightarrow> (Err err, e))
                                | r \<Rightarrow> r)
                           | r \<Rightarrow> r)"

section \<open>One frame, and a batch\<close>

definition bad_stride :: "u32 \<Rightarrow> bool" where
  "bad_stride s \<longleftrightarrow> s = 0 \<or> s AND (AVE_STRIDE_ALIGN - 1) \<noteq> 0"

definition set_frame :: "u32 \<Rightarrow> bool \<Rightarrow> u64 \<Rightarrow> u64 \<Rightarrow> u32 \<Rightarrow> ave_sess_bufs \<Rightarrow> ave_sess_bufs" where
  "set_frame n idr luma chroma stride b =
     b\<lparr>sb_ext_src := True, sb_ext_luma := luma, sb_ext_chroma := chroma, sb_ext_stride := stride,
       sb_force_idr := (idr \<and> n \<noteq> 0), sb_stream_len := 0\<rparr>"

definition hung_on :: "'a cres \<Rightarrow> ave_enc \<Rightarrow> ave_enc" where
  "hung_on r e = (if r = Err ETIMEDOUT then e\<lparr>ec_fw_hung := True\<rparr> else e)"

definition is_keyframe :: "u32 \<Rightarrow> bool \<Rightarrow> ave_sess_bufs \<Rightarrow> bool" where
  "is_keyframe n idr b \<longleftrightarrow>
     n = 0 \<or> idr \<or> sb_coded_type b = AVE_FRAME_TYPE_IDR \<or> sess_hevc b \<and> sl_last_idr (sb_lat b) = n"

text \<open>The result is what is copied to the caller, and the key-frame flag.\<close>

definition ave_enc_encode ::
  "api_env \<Rightarrow> errno option \<Rightarrow> cmd_env \<Rightarrow> u32 \<Rightarrow> bool \<Rightarrow> u64 \<Rightarrow> u64 \<Rightarrow> u32 \<Rightarrow> nat \<Rightarrow> (u8 list \<times> bool) api" where
  "ave_enc_encode ap dart ce n idr luma chroma stride out_size e =
     (if ec_fw_hung e \<or> ec_pm e \<noteq> AVE_PM_ON then (Err EIO, e)
      else case enc_abi e of
             None \<Rightarrow> (Err EINVAL, e)
           | Some abi \<Rightarrow>
               if \<not> ec_bufs e \<or> \<not> ec_client_open e \<or> bad_stride stride then (Err EINVAL, e)
               else case a_run (ave_session_process (env_for ap abi) dart ce AVE_SESS_CLIENT_ID n)
                           (a_bufs (set_frame n idr luma chroma stride) e) of
                      (r, e) \<Rightarrow>
                        let e = hung_on r (a_bufs (\<lambda>b. b\<lparr>sb_ext_src := False, sb_force_idr := False\<rparr>) e);
                            b = st_bufs (ec_st e)
                        in (case r of
                              Ok _ \<Rightarrow> if sb_stream_len b > out_size then Err ENOSPC
                                      else Ok (take (sb_stream_len b) (sb_stream b), is_keyframe n idr b)
                            | Err x \<Rightarrow> Err x | Fault \<Rightarrow> Fault, e))"

text \<open>The batch is one the firmware finishes: a B frame only in a B session and before a later anchor of a
  higher frame number, an IDR only alone.\<close>

definition frame_refused :: "ave_sess_bufs \<Rightarrow> enc_frame list \<Rightarrow> nat \<Rightarrow> bool" where
  "frame_refused b fs k =
     (let f = fs ! k; a = last fs
      in bad_stride (ef_stride f)
       \<or> (if ef_type f = AVE_GOP_B
          then sc_bframes (sb_cfg b) = 0 \<or> k = length fs - 1 \<or> ef_type a = AVE_GOP_B \<or> ef_fn f \<ge> ef_fn a
          else if ef_type f = AVE_GOP_IDR then length fs \<noteq> 1
          else ef_type f \<noteq> AVE_GOP_P))"

text \<open>What a completion delivers: its bytes, the index of its frame, its type.\<close>

definition deliver :: "ave_sess_bufs \<Rightarrow> batch_done \<Rightarrow> nat \<Rightarrow> (u8 list \<times> nat \<times> u32) cres" where
  "deliver b d room =
     (if unat (bd_len d) > room then Err ENOSPC
      else if unat (bd_off d) + unat (bd_len d) > length (sb_stream b) then Fault
      else Ok (take (unat (bd_len d)) (drop (unat (bd_off d)) (sb_stream b)), bd_j d, bd_type d))"

fun deliver_all :: "ave_sess_bufs \<Rightarrow> batch_done list \<Rightarrow> nat list \<Rightarrow> unit cres \<times> (u8 list \<times> nat \<times> u32) list" where
  "deliver_all b [] sizes = (Ok (), [])"
| "deliver_all b (d # ds) [] = (Fault, [])"
| "deliver_all b (d # ds) (sz # szs) =
     (case deliver b d sz of
        Ok x \<Rightarrow> (case deliver_all b ds szs of (r, xs) \<Rightarrow> (r, x # xs))
      | Err e \<Rightarrow> (Err e, []) | Fault \<Rightarrow> (Fault, []))"

text \<open>The result is the verdict with what was delivered, on failure too. \<open>sizes\<close> are those of the caller's
  buffers.\<close>

definition ave_enc_encode_batch ::
  "api_env \<Rightarrow> batch_env \<Rightarrow> enc_frame list \<Rightarrow> nat list \<Rightarrow> ave_enc \<Rightarrow>
     (unit cres \<times> (u8 list \<times> nat \<times> u32) list) \<times> ave_enc" where
  "ave_enc_encode_batch ap be fs sizes e =
     (if ec_fw_hung e \<or> ec_pm e \<noteq> AVE_PM_ON then ((Err EIO, []), e)
      else case enc_abi e of
             None \<Rightarrow> ((Err EINVAL, []), e)
           | Some abi \<Rightarrow>
               if \<not> ec_bufs e \<or> \<not> ec_client_open e \<or> fs = [] \<or> length fs > AVE_SESS_RX_Q then ((Err EINVAL, []), e)
               else if list_ex (frame_refused (st_bufs (ec_st e)) fs) [0..<length fs] then ((Err EINVAL, []), e)
               else case a_run (ave_session_process_batch (env_for ap abi) be AVE_SESS_CLIENT_ID
                                  (map (\<lambda>f. (ef_fn f, Some (ef_type f))) fs) (Some fs))
                           (a_bufs (\<lambda>b. b\<lparr>sb_force_idr := False, sb_stream_len := 0\<rparr>) e) of
                      (r, e) \<Rightarrow>
                        let e = hung_on r e; (v, outs) = deliver_all (st_bufs (ec_st e)) (sb_bdone (st_bufs (ec_st e))) sizes
                        in ((if v = Fault \<or> r = Fault then Fault else case r of Ok _ \<Rightarrow> v | Err x \<Rightarrow> Err x | Fault \<Rightarrow> Fault, outs), e))"

end
