(* ===== verification/Ave_Sess_Deliver.thy ===== *)
theory Ave_Sess_Deliver
  imports Ave_Sess_Keep Ave_Sess_Api Ave_Sess_Batch
begin

text \<open>
  What a batch delivers to its caller lies in the stream: the stream only grows while a batch is
  collected, so every segment noted stays inside it.
\<close>

section \<open>The stream only grows\<close>

definition advances :: "(u8 list \<times> nat \<Rightarrow> (u8 list \<times> nat) cres) \<Rightarrow> bool" where
  "advances f \<longleftrightarrow> (\<forall>st st'. f st = Ok st' \<longrightarrow> snd st \<le> snd st')"

lemma advancesD: "advances f \<Longrightarrow> f st = Ok st' \<Longrightarrow> snd st \<le> snd st'"
  unfolding advances_def by blast

lemma advances_bind: "advances f \<Longrightarrow> advances g \<Longrightarrow> advances (\<lambda>st. cbind (f st) g)"
  unfolding advances_def cbind_Ok by (meson order_trans)

lemma advances_from: "advances (append_from cpu off n)"
  by (auto simp: advances_def append_from_def cbind_Ok)

lemma advances_slices: "advances (append_slices cpu es)"
proof (induction es)
  case (Cons e es)
  have "append_slices cpu (e # es) = (\<lambda>st. cbind (append_from cpu (unat (cs_off e)) (unat (cs_len e)) st) (append_slices cpu es))"
    by (rule ext) simp
  then show ?case using advances_bind [OF advances_from Cons.IH] by simp
qed (simp add: advances_def)

lemma advances_slices_hevc: "advances (append_slices_hevc hdr iova cpu es)"
proof (induction es)
  case (Cons e es)
  have "append_slices_hevc hdr iova cpu (e # es) =
      (\<lambda>st. cbind (append_from hdr (unat (cs_hdr_iova e - iova)) (unat (cs_hdr_len e)) st)
        (\<lambda>st. cbind (append_from cpu (unat (cs_off e)) (unat (cs_len e)) st) (append_slices_hevc hdr iova cpu es)))"
    by (rule ext) simp
  then show ?case using advances_bind [OF advances_from advances_bind [OF advances_from Cons.IH]] by simp
qed (simp add: advances_def)

lemma advances_words: "advances (append_words n)"
  unfolding append_words_def
proof (induction n)
  case (Suc n)
  have w: "advances (\<lambda>st. cbind (wr_bytes (fst st) (snd st) cabac_word) (\<lambda>buf. Ok (buf, snd st + 3)))"
    by (auto simp: advances_def cbind_Ok)
  show ?case using advances_bind [OF w Suc.IH] by (simp add: advances_def)
qed (simp add: advances_def)

lemma stream_append_grows:
  assumes "ave_sess_stream_append vm b idx key = Ok b'"
  shows "sb_stream_len b \<le> sb_stream_len b'"
proof -
  have ps: "len \<le> snd st"
    if "(if c then append_from cpu 0 n (stream, len) else Ok (stream, len)) = Ok st" for c cpu n stream len and st :: "u8 list \<times> nat"
    using advancesD [OF advances_from, of cpu 0 n "(stream, len)" st] that by (cases c) auto
  show ?thesis
  proof (cases "sess_hevc b")
    case True
    then show ?thesis
      using assms
      by (auto simp: ave_sess_stream_append_def ave_sess_stream_append_hevc_def Let_def cbind_Ok stream_commit_def
          dest!: ps advancesD [OF advances_slices_hevc])
  next
    case False
    then show ?thesis
      using assms
      by (auto simp: ave_sess_stream_append_def Let_def cbind_Ok stream_commit_def
          dest!: ps advancesD [OF advances_slices] advancesD [OF advances_words])
  qed
qed

definition grows :: "sess_st \<Rightarrow> sess_st \<Rightarrow> bool" where
  "grows s s' \<longleftrightarrow> sb_stream_len (st_bufs s) \<le> sb_stream_len (st_bufs s')"

interpretation gk: sess_relation grows
  by unfold_locales (auto simp: grows_def)

lemma kept_grows: "keeps stream_kept m \<Longrightarrow> keeps grows m"
  by (simp add: keeps_def stream_kept_def grows_def)

lemma grows_append: "keeps grows (append_frame en idx key)"
  by (auto intro!: keepsI simp: append_frame_def grows_def dest: stream_append_grows split: cres.splits)

lemma grows_bufs: "(\<And>b. sb_stream_len (f b) = sb_stream_len b) \<Longrightarrow> keeps grows (s_bufs f)"
  by (rule keeps_bufs) (simp add: grows_def)

lemma grows_result: "keeps grows (ave_session_process_result en job)"
proof -
  have st: "keeps grows (result_store en job i nal)" for i nal
  proof (rule keepsI)
    fix s r s' assume m: "result_store en job i nal s = (r, s')"
    then show "grows s s'"
      by (auto simp: result_store_def Let_def grows_def set_last_idr_def split: if_splits cres.splits
          dest!: keepsD [OF grows_append])
  qed
  have rd: "keeps grows (s_bufs (\<lambda>b. b\<lparr>sb_coded_info := i\<rparr>))" for i
    by (rule grows_bufs) simp
  have mp: "keeps grows (keep_mp_record idx n)" for idx n
    by (auto simp: keeps_def grows_def keep_mp_record_def split: cres.split)
  show ?thesis unfolding ave_session_process_result_def read_coded_hdr_def Let_def by (intro gk.rules rd mp st)
qed

section \<open>The segments noted\<close>

definition segs_in :: "sess_st \<Rightarrow> bool" where
  "segs_in s \<longleftrightarrow> (\<forall>e \<in> set (sb_bdone (st_bufs s)). unat (bd_off e) + unat (bd_len e) \<le> sb_stream_len (st_bufs s))"

lemma segs_in_mono: "segs_in s \<Longrightarrow> sb_bdone (st_bufs s') = sb_bdone (st_bufs s) \<Longrightarrow> grows s s' \<Longrightarrow> segs_in s'"
  unfolding segs_in_def grows_def by fastforce

text \<open>Offsets and lengths are kept in 32 bits; what they name is inside all the same.\<close>

lemma seg_end:
  assumes "a \<le> (b :: nat)"
  shows "unat (of_nat a :: u32) + unat (of_nat b - of_nat a :: u32) \<le> b"
proof -
  have "of_nat b - of_nat a = (of_nat (b - a) :: u32)" using assms by (simp add: of_nat_diff)
  then have "unat (of_nat b - of_nat a :: u32) \<le> b - a" by (simp add: unsigned_of_nat take_bit_eq_mod)
  moreover have "unat (of_nat a :: u32) \<le> a" by (simp add: unsigned_of_nat take_bit_eq_mod)
  ultimately show ?thesis using assms by linarith
qed

lemma collect_one_segs:
  assumes "batch_collect_one en be op cid jobs ext done s = (r, s')" "segs_in s"
  shows "segs_in s'"
proof -
  have wait: "keeps grows (batch_wait en be op cid k)" for k by (rule kept_grows [OF keeps_wait])
  have g: "grows s s'"
  proof -
    have "keeps grows (batch_collect_one en be op cid jobs ext done)"
      unfolding batch_collect_one_def by (intro gk.rules wait grows_result grows_bufs) simp
    then show ?thesis using keepsD assms(1) by blast
  qed
  show ?thesis
  proof (cases "\<exists>j. r = Ok j")
    case False
    then show ?thesis using segs_in_mono [OF assms(2) collect_one_stop [OF assms(1)] g] by simp
  next
    case True
    then obtain j e where e: "sb_bdone (st_bufs s') = sb_bdone (st_bufs s) @ [e]" "tiles (slen s) (segs [e]) (slen s')"
      using collect_one_Ok(3) assms(1) by blast
    have "bd_off e = slen s" "bd_len e = slen s' - slen s" using e(2) by (auto simp: algebra_simps)
    then show ?thesis
      using assms(2) e(1) g seg_end [of "sb_stream_len (st_bufs s)" "sb_stream_len (st_bufs s')"]
      by (fastforce simp: segs_in_def grows_def)
  qed
qed

lemma collect_segs:
  "batch_collect en be op cid jobs ext n done s = (r, s') \<Longrightarrow> segs_in s \<Longrightarrow> segs_in s'"
proof (induction n arbitrary: "done" s)
  case (Suc n)
  show ?case
    by (rule s_bind_run [OF Suc.prems(1) [unfolded batch_collect.simps]])
      (use collect_one_segs Suc.prems(2) Suc.IH in blast)+
qed (simp add: s_ret_def)

lemma batch_segs:
  assumes "ave_session_process_batch en be cid fs ext s = (r, s')"
  shows "segs_in s'"
proof -
  have none: "segs_in t" if "sb_bdone (st_bufs t) = []" for t using that by (simp add: segs_in_def)
  define s0 where "s0 = s\<lparr>st_bufs := (st_bufs s)\<lparr>sb_bdone := []\<rparr>\<rparr>"
  have x: "segs_in u" if b: "batch_exchange en be cid jobs y t = (q, u)" and t: "sb_bdone (st_bufs t) = []" for jobs y t q u
  proof -
    define t1 where "t1 = t\<lparr>st_rx := rx_batch_mode (cd_reply_id (ab_cmd (en_abi en) (proc_op (st_bufs t)))) (st_rx t)\<rparr>"
    obtain c e t2 where t2: "batch_send en be jobs 0 t1 = (Ok (c, e), t2)"
      using batch_send_Ok [of en be jobs 0 t1] by (metis surjective_pairing)
    have n: "sb_bdone (st_bufs t2) = []" using stream_keptD [OF keeps_batch_send t2] t by (simp add: t1_def)
    have "(if c = 0 then (case e of None \<Rightarrow> s_ret () | Some e \<Rightarrow> s_err e)
        else batch_collect en be (proc_op (st_bufs t)) cid (take c jobs) y c []) t2 = (q, u)"
      using b t2 by (simp add: batch_exchange_def s_bind_def s_then_def s_get_def t1_def)
    then show ?thesis
      using collect_segs none n by (auto simp: s_ret_def s_err_def split: if_splits option.splits)
  qed
  obtain q s1 where b: "batch_build en be cid fs ext [] s0 = (q, s1)" by fastforce
  have n1: "sb_bdone (st_bufs s1) = []" using stream_keptD [OF keeps_batch_build b] by (simp add: s0_def)
  have n0: "sb_bdone (st_bufs s0) = []" by (simp add: s0_def)
  show ?thesis
    using assms b none [OF n1] none [OF n0] x [OF _ n1]
    by (cases q)
      (auto simp: ave_session_process_batch_def s_bind_def s_then_def s_bufs_def s_get_def s_fail_if_def s0_def [symmetric] segs_in_def
        split: if_splits prod.splits)
qed

section \<open>A batch of the API\<close>

text \<open>A stream is up behind the API, an HEVC one if \<open>h\<close>.\<close>

definition enc_up :: "api_env \<Rightarrow> ave_cmd_abi \<Rightarrow> bool \<Rightarrow> ave_enc \<Rightarrow> bool" where
  "enc_up ap abi h e \<longleftrightarrow> enc_abi e = Some abi \<and> stream_up (env_for ap abi) (ec_st e) \<and> \<not> rx_batch (st_rx (ec_st e))
     \<and> sess_hevc (st_bufs (ec_st e)) = h"

lemma env_for_en [simp]: "en_gp (env_for ap abi) = en_gp (ap_sess ap)" "en_abi (env_for ap abi) = abi"
  by (simp_all add: env_for_def)

lemma enc_up_cong: "ec_st e' = ec_st e \<Longrightarrow> enc_up ap abi h e' = enc_up ap abi h e"
  by (simp add: enc_up_def enc_abi_def)

lemma a_run_up:
  assumes "enc_up ap abi h e" "keeps boot_kept m"
    and "\<And>k. triple (stream_run (env_for ap abi) h k) m (\<lambda>_. stream_run (env_for ap abi) h k) (stream_run (env_for ap abi) h k)"
    and "a_run m e = (r, e')"
  shows "r \<noteq> Fault" "enc_up ap abi h e'"
proof -
  let ?en = "env_for ap abi"
  obtain s where s: "m (ec_st e) = (r, s)" "e' = e\<lparr>ec_st := s\<rparr>" using assms(4) by (auto simp: a_run_def split: prod.splits)
  have run: "stream_run ?en h (sb_n_coded (st_bufs (ec_st e))) (ec_st e)"
    using assms(1) by (simp add: enc_up_def stream_run_def stream_on_def)
  note t = tripleD [OF assms(3) run s(1)]
  show "r \<noteq> Fault" using t by blast
  have "stream_run ?en h (sb_n_coded (st_bufs (ec_st e))) s" using t by (cases r) auto
  moreover have "fw_abi (st_dev s) = fw_abi (st_dev (ec_st e))"
    using keepsD [OF assms(2) s(1)] by (simp add: boot_kept_def boot_view_def)
  ultimately show "enc_up ap abi h e'"
    using assms(1) by (simp add: enc_up_def enc_abi_def s(2) stream_run_def stream_on_def)
qed

lemma enc_up_note:
  assumes "enc_up ap abi h e" "core (f (st_bufs (ec_st e))) = core (st_bufs (ec_st e))" "bufs_ok (st_bufs (ec_st e)) \<Longrightarrow> bufs_ok (f (st_bufs (ec_st e)))"
    "sb_pool (f (st_bufs (ec_st e))) = sb_pool (st_bufs (ec_st e))"
  shows "enc_up ap abi h (a_bufs f e)"
proof -
  have up: "stream_up (env_for ap abi) (ec_st e)" using assms(1) by (simp add: enc_up_def)
  then have b: "bufs_ok (st_bufs (ec_st e))" by (simp add: stream_up_def sess_sound_def)
  have "stream_up (env_for ap abi) ((ec_st e)\<lparr>st_bufs := f (st_bufs (ec_st e))\<rparr>)"
    by (rule up_bufs [OF up assms(2) assms(3) [OF b]]) (simp_all add: assms(4))
  moreover have "sess_hevc (f (st_bufs (ec_st e))) = sess_hevc (st_bufs (ec_st e))"
    using surfs_fields(2) [OF core_fields(1) [OF assms(2)]] .
  ultimately show ?thesis using assms(1) by (simp add: enc_up_def enc_abi_def a_bufs_def)
qed

lemma deliver_safe:
  assumes "\<forall>d \<in> set ds. unat (bd_off d) + unat (bd_len d) \<le> length (sb_stream b)" "length ds \<le> length sizes"
  shows "fst (deliver_all b ds sizes) \<noteq> Fault"
    "\<exists>n \<le> length ds. map (\<lambda>x. fst (snd x)) (snd (deliver_all b ds sizes)) = map bd_j (take n ds)
       \<and> (fst (deliver_all b ds sizes) = Ok () \<longrightarrow> n = length ds)"
proof -
  have "fst (deliver_all b ds sizes) \<noteq> Fault
     \<and> (\<exists>n \<le> length ds. map (\<lambda>x. fst (snd x)) (snd (deliver_all b ds sizes)) = map bd_j (take n ds)
       \<and> (fst (deliver_all b ds sizes) = Ok () \<longrightarrow> n = length ds))"
    using assms
  proof (induction ds arbitrary: sizes)
    case (Cons d ds)
    then obtain sz szs where sizes: "sizes = sz # szs" by (cases sizes) auto
    obtain r xs where rest: "deliver_all b ds szs = (r, xs)" by fastforce
    have IH: "r \<noteq> Fault" "\<exists>n \<le> length ds. map (\<lambda>x. fst (snd x)) xs = map bd_j (take n ds) \<and> (r = Ok () \<longrightarrow> n = length ds)"
      using Cons.IH [of szs] Cons.prems by (simp_all add: sizes rest)
    then obtain n where n: "n \<le> length ds" "map (\<lambda>x. fst (snd x)) xs = map bd_j (take n ds)" "r = Ok () \<longrightarrow> n = length ds" by blast
    show ?case
    proof (cases "unat (bd_len d) > sz")
      case True
      then show ?thesis by (auto simp: sizes deliver_def intro!: exI [of _ 0])
    next
      case False
      then show ?thesis using Cons.prems n IH(1) by (auto simp: sizes deliver_def rest intro!: exI [of _ "Suc n"])
    qed
  qed simp
  then show "fst (deliver_all b ds sizes) \<noteq> Fault"
    "\<exists>n \<le> length ds. map (\<lambda>x. fst (snd x)) (snd (deliver_all b ds sizes)) = map bd_j (take n ds)
       \<and> (fst (deliver_all b ds sizes) = Ok () \<longrightarrow> n = length ds)"
    by blast+
qed

lemma encode_batch_safe:
  assumes "env_ok (env_for ap abi)" "batch_kept (env_for ap abi) h be" "enc_up ap abi h e" "length sizes = length fs"
    and run: "ave_enc_encode_batch ap be fs sizes e = ((r, outs), e')"
  shows "r \<noteq> Fault \<and> enc_up ap abi h e' \<and> length outs \<le> length fs \<and> distinct (map (\<lambda>x. fst (snd x)) outs)
    \<and> (\<forall>x \<in> set outs. fst (snd x) < length fs)"
proof -
  have abi: "enc_abi e = Some abi" using assms(3) by (simp add: enc_up_def)
  define e0 where "e0 = a_bufs (\<lambda>b. b\<lparr>sb_force_idr := False, sb_stream_len := 0\<rparr>) e"
  have up0: "enc_up ap abi h e0"
    unfolding e0_def by (rule enc_up_note [OF assms(3)]) (simp_all add: core_def surfs_def bufs_ok_def)
  define m where "m = ave_session_process_batch (env_for ap abi) be AVE_SESS_CLIENT_ID (map (\<lambda>f. (ef_fn f, Some (ef_type f))) fs) (Some fs)"
  obtain q e1 where m: "a_run m e0 = (q, e1)" by fastforce
  have triple: "triple (stream_run (env_for ap abi) h k) m (\<lambda>_. stream_run (env_for ap abi) h k) (stream_run (env_for ap abi) h k)" for k
    unfolding m_def by (rule batch_up [OF assms(1,2)])
  note up1 = a_run_up [OF up0 batch_view triple [unfolded m_def] m [unfolded m_def]]
  define b where "b = st_bufs (ec_st e1)"
  obtain s1 where s1: "m (ec_st e0) = (q, s1)" "e1 = e0\<lparr>ec_st := s1\<rparr>" using m by (auto simp: a_run_def split: prod.splits)
  have segs: "\<forall>d \<in> set (sb_bdone b). unat (bd_off d) + unat (bd_len d) \<le> length (sb_stream b)"
  proof -
    have "bufs_ok b" using up1(2) by (simp add: b_def enc_up_def stream_up_def sess_sound_def)
    then show ?thesis using batch_segs [OF s1(1) [unfolded m_def]] by (fastforce simp: segs_in_def b_def s1(2) bufs_ok_def)
  qed
  have acc: "length (sb_bdone b) \<le> length fs \<and> distinct (map bd_j (sb_bdone b)) \<and> set (map bd_j (sb_bdone b)) \<subseteq> {..<length fs}"
    using batch_run_accounts [OF s1(1) [unfolded m_def]] by (simp add: accounts_def b_def s1(2))
  obtain v os where d: "deliver_all b (sb_bdone b) sizes = (v, os)" by fastforce
  have dv: "v \<noteq> Fault" "\<exists>n \<le> length (sb_bdone b). map (\<lambda>x. fst (snd x)) os = map bd_j (take n (sb_bdone b))"
    using deliver_safe [OF segs, of sizes] acc assms(4) by (auto simp: d)
  then obtain n where n: "map (\<lambda>x. fst (snd x)) os = map bd_j (take n (sb_bdone b))" "n \<le> length (sb_bdone b)" by blast
  have os: "length os \<le> length fs \<and> distinct (map (\<lambda>x. fst (snd x)) os) \<and> (\<forall>x \<in> set os. fst (snd x) < length fs)"
  proof -
    have "length os = length (take n (sb_bdone b))" using arg_cong [OF n(1), of length] by simp
    moreover have "distinct (map (\<lambda>x. fst (snd x)) os)" unfolding n(1) using acc by (simp add: take_map [symmetric] distinct_take)
    moreover have "fst (snd x) < length fs" if "x \<in> set os" for x
    proof -
      have "fst (snd x) \<in> set (map bd_j (take n (sb_bdone b)))" unfolding n(1) [symmetric] using that by simp
      then show ?thesis using acc set_take_subset [of n "sb_bdone b"] by auto
    qed
    ultimately show ?thesis using acc n(2) by simp
  qed
  have hung: "ec_st (hung_on q e1) = ec_st e1" by (simp add: hung_on_def)
  show ?thesis
    using run abi m [unfolded m_def] d os up1 dv(1) assms(3) enc_up_cong [OF hung, of ap abi]
    unfolding ave_enc_encode_batch_def e0_def [symmetric]
    by (auto simp: b_def hung Let_def split: if_splits cres.splits prod.splits)
qed

end
