(* ===== verification/Ave_V4l2_Ctx.thy ===== *)
theory Ave_V4l2_Ctx
  imports Ave_Sess_Api
begin

text \<open>
  \<^verbatim>\<open>src/driver/ave_v4l2.c\<close>, first part: what an open file negotiates before it streams. The
  formats, the frame interval, the crop, the controls, and the stream configuration STREAMON hands
  \<open>ave_enc_start\<close>.

  \<open>struct ave_ctx\<close> is split in three: the formats (\<open>vf_\<close>), the controls (\<open>vk_\<close>) and the stream
  (\<open>vs_\<close>). The V4L2 core is a parameter: whether a queue is busy is an argument, and of controls it
  passes on what lies in the range the driver declared.
\<close>

section \<open>Constants of V4L2\<close>

definition v4l2_fourcc :: "u8 \<Rightarrow> u8 \<Rightarrow> u8 \<Rightarrow> u8 \<Rightarrow> u32" where
  "v4l2_fourcc a b c d = ucast a OR push_bit 8 (ucast b) OR push_bit 16 (ucast c) OR push_bit 24 (ucast d)"

definition V4L2_PIX_FMT_NV12 :: u32 where "V4L2_PIX_FMT_NV12 = v4l2_fourcc 0x4E 0x56 0x31 0x32"
definition V4L2_PIX_FMT_P010 :: u32 where "V4L2_PIX_FMT_P010 = v4l2_fourcc 0x50 0x30 0x31 0x30"
definition V4L2_PIX_FMT_H264 :: u32 where "V4L2_PIX_FMT_H264 = v4l2_fourcc 0x48 0x32 0x36 0x34"
definition V4L2_PIX_FMT_HEVC :: u32 where "V4L2_PIX_FMT_HEVC = v4l2_fourcc 0x48 0x45 0x56 0x43"

definition V4L2_COLORSPACE_DEFAULT :: u32 where "V4L2_COLORSPACE_DEFAULT = 0"
definition V4L2_COLORSPACE_REC709 :: u32 where "V4L2_COLORSPACE_REC709 = 3"

definition V4L2_MPEG_VIDEO_BITRATE_MODE_VBR :: int where "V4L2_MPEG_VIDEO_BITRATE_MODE_VBR = 0"
definition V4L2_MPEG_VIDEO_BITRATE_MODE_CQ :: int where "V4L2_MPEG_VIDEO_BITRATE_MODE_CQ = 2"
definition V4L2_MPEG_VIDEO_H264_PROFILE_BASELINE :: int where "V4L2_MPEG_VIDEO_H264_PROFILE_BASELINE = 0"
definition V4L2_MPEG_VIDEO_H264_PROFILE_CONSTRAINED_BASELINE :: int where
  "V4L2_MPEG_VIDEO_H264_PROFILE_CONSTRAINED_BASELINE = 1"
definition V4L2_MPEG_VIDEO_H264_PROFILE_MAIN :: int where "V4L2_MPEG_VIDEO_H264_PROFILE_MAIN = 2"
definition V4L2_MPEG_VIDEO_H264_PROFILE_HIGH :: int where "V4L2_MPEG_VIDEO_H264_PROFILE_HIGH = 4"
definition V4L2_MPEG_VIDEO_H264_ENTROPY_MODE_CABAC :: int where "V4L2_MPEG_VIDEO_H264_ENTROPY_MODE_CABAC = 1"
definition V4L2_MPEG_VIDEO_H264_LEVEL_4_0 :: int where "V4L2_MPEG_VIDEO_H264_LEVEL_4_0 = 11"
definition V4L2_MPEG_VIDEO_H264_LEVEL_5_2 :: int where "V4L2_MPEG_VIDEO_H264_LEVEL_5_2 = 16"
definition V4L2_MPEG_VIDEO_HEVC_PROFILE_MAIN :: int where "V4L2_MPEG_VIDEO_HEVC_PROFILE_MAIN = 0"
definition V4L2_MPEG_VIDEO_HEVC_PROFILE_MAIN_10 :: int where "V4L2_MPEG_VIDEO_HEVC_PROFILE_MAIN_10 = 2"
definition V4L2_MPEG_VIDEO_HEVC_TIER_MAIN :: int where "V4L2_MPEG_VIDEO_HEVC_TIER_MAIN = 0"
definition V4L2_MPEG_VIDEO_HEVC_LEVEL_4 :: int where "V4L2_MPEG_VIDEO_HEVC_LEVEL_4 = 5"
definition V4L2_MPEG_VIDEO_HEVC_LEVEL_6_2 :: int where "V4L2_MPEG_VIDEO_HEVC_LEVEL_6_2 = 12"
definition V4L2_MPEG_VIDEO_HEADER_MODE_JOINED_WITH_1ST_FRAME :: int where
  "V4L2_MPEG_VIDEO_HEADER_MODE_JOINED_WITH_1ST_FRAME = 1"

section \<open>The node and the context\<close>

definition AVE_MIN_W :: u32 where "AVE_MIN_W = 192"
definition AVE_MIN_H :: u32 where "AVE_MIN_H = 96"
definition AVE_MAX_W :: u32 where "AVE_MAX_W = 4096"
definition AVE_MAX_H :: u32 where "AVE_MAX_H = 4096"
definition AVE_DEF_W :: u32 where "AVE_DEF_W = 1280"
definition AVE_DEF_H :: u32 where "AVE_DEF_H = 720"
definition AVE_CODED_SLOTS :: u32 where "AVE_CODED_SLOTS = 4"
definition AVE_DEF_QP :: u32 where "AVE_DEF_QP = 30"
definition AVE_B_QP_OFFSET :: u32 where "AVE_B_QP_OFFSET = 3"

text \<open>What the encoder offers, fixed at registration.\<close>

record ave_v4l2_caps =
  av_hevc :: bool
  av_two_refs :: bool
  av_h264_two_refs :: bool

definition ave_v4l2_caps :: "api_env \<Rightarrow> ave_enc \<Rightarrow> ave_v4l2_caps" where
  "ave_v4l2_caps ap e =
     (let hevc = ave_enc_hevc_supported ap e
      in \<lparr>av_hevc = hevc,
          av_two_refs = ave_enc_two_refs_supported ap (if hevc then AVE_SESS_CODEC_HEVC else AVE_SESS_CODEC_AVC),
          av_h264_two_refs = ave_enc_two_refs_supported ap AVE_SESS_CODEC_AVC\<rparr>)"

text \<open>\<open>struct v4l2_pix_format\<close>, \<open>struct v4l2_rect\<close> (left and top of every crop are 0).\<close>

record v4l2_pix =
  px_width :: u32
  px_height :: u32
  px_pixelformat :: u32
  px_bytesperline :: u32
  px_sizeimage :: u32
  px_colorspace :: u32
  px_ycbcr_enc :: u32
  px_quantization :: u32
  px_xfer_func :: u32

record ave_ctx_fmt =
  vf_width :: u32
  vf_height :: u32
  vf_crop_w :: u32
  vf_crop_h :: u32
  vf_bytesperline :: u32
  vf_out_size :: u32
  vf_cap_size :: u32
  vf_num :: u32            \<comment> \<open>\<open>timeperframe\<close>\<close>
  vf_den :: u32
  vf_colorspace :: u32
  vf_ycbcr_enc :: u32
  vf_quantization :: u32
  vf_xfer_func :: u32
  vf_codec :: u32
  vf_out_fourcc :: u32

record ave_ctx_ctrls =
  vk_qp :: u32
  vk_qp_p :: u32
  vk_qp_b :: u32
  vk_profile_idc :: u32
  vk_level_idc :: u32
  vk_cabac :: bool
  vk_bitrate :: u32
  vk_rc_enable :: bool
  vk_bitrate_mode :: u32
  vk_qp_min :: u32
  vk_qp_max :: u32
  vk_gop :: u32
  vk_force_key :: bool
  vk_b_frames :: u32
  vk_p_refs :: u32
  vk_min_out :: "int option"     \<comment> \<open>the control, and its value\<close>
  vk_hevc_qp :: u32
  vk_hevc_qp_min :: u32
  vk_hevc_qp_max :: u32
  vk_hevc_qp_p :: u32
  vk_hevc_qp_b :: u32
  vk_hevc_level_idc :: u32
  vk_hevc_main10 :: bool
  vk_hevc_profile :: bool        \<comment> \<open>the control exists\<close>

record ave_ctx_stream =
  vs_nb :: u32
  vs_plan :: ave_gop
  vs_frame_n :: u32
  vs_out_seq :: u32
  vs_cap_seq :: u32
  vs_session :: bool
  vs_pm_lost :: bool

record ave_ctx =
  vc_fmt :: ave_ctx_fmt
  vc_ctrls :: ave_ctx_ctrls
  vc_stream :: ave_ctx_stream

section \<open>Formats\<close>

definition ave_clamp_size :: "u32 \<Rightarrow> u32 \<Rightarrow> u32 \<times> u32" where
  "ave_clamp_size w h =
     (clamp_u32 (ALIGN w 16) AVE_MIN_W AVE_MAX_W, clamp_u32 (ALIGN h 16) AVE_MIN_H AVE_MAX_H)"

definition ave_out_size :: "u32 \<Rightarrow> u32 \<Rightarrow> u32 \<Rightarrow> u32" where
  "ave_out_size codec bpl h =
     (if codec = AVE_SESS_CODEC_HEVC then bpl * h + bpl * (ALIGN h 64 div 2) else bpl * h * 3 div 2)"

definition ave_cap_fourcc :: "u32 \<Rightarrow> u32" where
  "ave_cap_fourcc codec = (if codec = AVE_SESS_CODEC_HEVC then V4L2_PIX_FMT_HEVC else V4L2_PIX_FMT_H264)"

definition ave_cap_size :: "u32 \<Rightarrow> u32 \<Rightarrow> u32" where
  "ave_cap_size w h = ALIGN (w * h * 3 div 2 + 0x10000) 0x1000"

definition ave_fill_out_fmt :: "ave_v4l2_caps \<Rightarrow> u32 \<Rightarrow> v4l2_pix \<Rightarrow> u32 \<Rightarrow> u32 \<Rightarrow> v4l2_pix" where
  "ave_fill_out_fmt av codec p w h =
     (let p010 = (px_pixelformat p = V4L2_PIX_FMT_P010 \<and> av_hevc av);
          (w, h) = ave_clamp_size w h;
          bpl = ALIGN w 64 * (if p010 then 2 else 1)
      in p\<lparr>px_width := w, px_height := h,
           px_pixelformat := (if p010 then V4L2_PIX_FMT_P010 else V4L2_PIX_FMT_NV12),
           px_bytesperline := bpl, px_sizeimage := ave_out_size codec bpl h,
           px_colorspace := (if px_colorspace p = V4L2_COLORSPACE_DEFAULT then V4L2_COLORSPACE_REC709 else px_colorspace p)\<rparr>)"

definition ave_fill_cap_fmt :: "ave_v4l2_caps \<Rightarrow> ave_ctx_fmt \<Rightarrow> v4l2_pix \<Rightarrow> u32 \<Rightarrow> u32 \<Rightarrow> u32 \<Rightarrow> v4l2_pix" where
  "ave_fill_cap_fmt av c p w h req =
     p\<lparr>px_width := w, px_height := h,
       px_pixelformat :=
         (if px_pixelformat p \<noteq> V4L2_PIX_FMT_H264 \<and> \<not> (px_pixelformat p = V4L2_PIX_FMT_HEVC \<and> av_hevc av)
          then ave_cap_fourcc (vf_codec c) else px_pixelformat p),
       px_bytesperline := 0, px_sizeimage := max req (ave_cap_size w h),
       px_colorspace := vf_colorspace c, px_ycbcr_enc := vf_ycbcr_enc c,
       px_quantization := vf_quantization c, px_xfer_func := vf_xfer_func c\<rparr>"

text \<open>\<open>output\<close> is \<open>V4L2_TYPE_IS_OUTPUT\<close>.\<close>

definition ave_enum_fmt :: "ave_v4l2_caps \<Rightarrow> bool \<Rightarrow> u32 \<Rightarrow> u32 option" where
  "ave_enum_fmt av output index =
     (if index > (if av_hevc av then 1 else 0) then None
      else if output then Some (if index \<noteq> 0 then V4L2_PIX_FMT_P010 else V4L2_PIX_FMT_NV12)
      else Some (ave_cap_fourcc (if index \<noteq> 0 then AVE_SESS_CODEC_HEVC else AVE_SESS_CODEC_AVC)))"

text \<open>The sizes are steps: least, greatest, step, of the width and of the height.\<close>

definition ave_enum_framesizes :: "ave_v4l2_caps \<Rightarrow> u32 \<Rightarrow> u32 \<Rightarrow> ((u32 \<times> u32 \<times> u32) \<times> (u32 \<times> u32 \<times> u32)) option" where
  "ave_enum_framesizes av index fmt =
     (if index \<noteq> 0 \<or> (fmt \<noteq> V4L2_PIX_FMT_NV12 \<and> \<not> (fmt = V4L2_PIX_FMT_P010 \<and> av_hevc av)
          \<and> fmt \<noteq> V4L2_PIX_FMT_H264 \<and> \<not> (fmt = V4L2_PIX_FMT_HEVC \<and> av_hevc av)) then None
      else Some ((AVE_MIN_W, AVE_MAX_W, 64), (AVE_MIN_H, AVE_MAX_H, 16)))"

definition ave_g_fmt :: "ave_v4l2_caps \<Rightarrow> bool \<Rightarrow> ave_ctx_fmt \<Rightarrow> v4l2_pix \<Rightarrow> v4l2_pix" where
  "ave_g_fmt av output c p =
     (if output
      then (ave_fill_out_fmt av (vf_codec c) (p\<lparr>px_colorspace := vf_colorspace c, px_pixelformat := vf_out_fourcc c\<rparr>)
              (vf_width c) (vf_height c))
             \<lparr>px_ycbcr_enc := vf_ycbcr_enc c, px_quantization := vf_quantization c, px_xfer_func := vf_xfer_func c\<rparr>
      else ave_fill_cap_fmt av c (p\<lparr>px_pixelformat := ave_cap_fourcc (vf_codec c)\<rparr>) (vf_width c) (vf_height c) (vf_cap_size c))"

definition ave_try_fmt :: "ave_v4l2_caps \<Rightarrow> bool \<Rightarrow> ave_ctx_fmt \<Rightarrow> v4l2_pix \<Rightarrow> v4l2_pix" where
  "ave_try_fmt av output c p =
     (if output then ave_fill_out_fmt av (vf_codec c) p (px_width p) (px_height p)
      else ave_fill_cap_fmt av c p (vf_width c) (vf_height c) (px_sizeimage p))"

text \<open>\<open>busy\<close>, \<open>out_busy\<close>: buffers are allocated on the queue asked about, on the OUTPUT queue.\<close>

definition s_fmt_out :: "v4l2_pix \<Rightarrow> ave_ctx \<Rightarrow> ave_ctx" where
  "s_fmt_out p c =
     c\<lparr>vc_fmt := (vc_fmt c)\<lparr>vf_width := px_width p, vf_height := px_height p, vf_bytesperline := px_bytesperline p,
                            vf_out_fourcc := px_pixelformat p, vf_out_size := px_sizeimage p,
                            vf_crop_w := px_width p, vf_crop_h := px_height p, vf_colorspace := px_colorspace p,
                            vf_ycbcr_enc := px_ycbcr_enc p, vf_quantization := px_quantization p,
                            vf_xfer_func := px_xfer_func p,
                            vf_cap_size := max (vf_cap_size (vc_fmt c)) (ave_cap_size (px_width p) (px_height p))\<rparr>,
       vc_ctrls := (if px_pixelformat p = V4L2_PIX_FMT_P010 \<and> vk_hevc_profile (vc_ctrls c)
                    then (vc_ctrls c)\<lparr>vk_hevc_main10 := True\<rparr> else vc_ctrls c)\<rparr>"

definition s_fmt_codec :: "u32 \<Rightarrow> ave_ctx_fmt \<Rightarrow> ave_ctx_fmt" where
  "s_fmt_codec codec c =
     (let c = c\<lparr>vf_codec := codec\<rparr>;
          c = (if codec \<noteq> AVE_SESS_CODEC_HEVC \<and> vf_out_fourcc c = V4L2_PIX_FMT_P010
               then c\<lparr>vf_out_fourcc := V4L2_PIX_FMT_NV12, vf_bytesperline := ALIGN (vf_width c) 64\<rparr> else c)
      in c\<lparr>vf_out_size := ave_out_size codec (vf_bytesperline c) (vf_height c)\<rparr>)"

definition ave_s_fmt :: "ave_v4l2_caps \<Rightarrow> bool \<Rightarrow> bool \<Rightarrow> bool \<Rightarrow> v4l2_pix \<Rightarrow> ave_ctx \<Rightarrow> errno option \<times> ave_ctx" where
  "ave_s_fmt av output busy out_busy p c =
     (if busy then (Some EBUSY, c)
      else let p = ave_try_fmt av output (vc_fmt c) p
           in if output then (None, s_fmt_out p c)
              else let codec = (if px_pixelformat p = V4L2_PIX_FMT_HEVC then AVE_SESS_CODEC_HEVC else AVE_SESS_CODEC_AVC)
                   in if codec \<noteq> vf_codec (vc_fmt c) \<and> out_busy then (Some EBUSY, c)
                      else let f = (if codec \<noteq> vf_codec (vc_fmt c) then s_fmt_codec codec (vc_fmt c) else vc_fmt c)
                           in (None, c\<lparr>vc_fmt := f\<lparr>vf_cap_size := px_sizeimage p\<rparr>\<rparr>))"

definition ave_s_parm :: "bool \<Rightarrow> u32 \<Rightarrow> u32 \<Rightarrow> ave_ctx_fmt \<Rightarrow> errno option \<times> ave_ctx_fmt" where
  "ave_s_parm output num den c =
     (if \<not> output then (Some EINVAL, c)
      else (None, if num \<noteq> 0 \<and> den \<noteq> 0 then c\<lparr>vf_num := num, vf_den := den\<rparr> else c))"

datatype v4l2_sel = V4L2_SEL_TGT_CROP | V4L2_SEL_TGT_CROP_DEFAULT | V4L2_SEL_TGT_CROP_BOUNDS | OtherTarget

definition ave_g_selection :: "bool \<Rightarrow> v4l2_sel \<Rightarrow> ave_ctx_fmt \<Rightarrow> (u32 \<times> u32) option" where
  "ave_g_selection output tgt c =
     (if \<not> output then None
      else case tgt of
             V4L2_SEL_TGT_CROP \<Rightarrow> Some (vf_crop_w c, vf_crop_h c)
           | V4L2_SEL_TGT_CROP_DEFAULT \<Rightarrow> Some (vf_width c, vf_height c)
           | V4L2_SEL_TGT_CROP_BOUNDS \<Rightarrow> Some (vf_width c, vf_height c)
           | OtherTarget \<Rightarrow> None)"

definition ave_s_selection :: "bool \<Rightarrow> v4l2_sel \<Rightarrow> bool \<Rightarrow> u32 \<Rightarrow> u32 \<Rightarrow> ave_ctx_fmt \<Rightarrow> errno option \<times> ave_ctx_fmt" where
  "ave_s_selection output tgt streaming w h c =
     (if \<not> output \<or> tgt \<noteq> V4L2_SEL_TGT_CROP then (Some EINVAL, c)
      else if streaming then (Some EBUSY, c)
      else (None, c\<lparr>vf_crop_w := clamp_u32 (ALIGN w 2) (max AVE_MIN_W (ALIGN (vf_width c) 16 - 14)) (vf_width c),
                    vf_crop_h := clamp_u32 (ALIGN h 2) (max AVE_MIN_H (ALIGN (vf_height c) 16 - 14)) (vf_height c)\<rparr>))"

section \<open>Controls\<close>

datatype v4l2_cid =
  CID_B_FRAMES | CID_REF_NUMBER_FOR_PFRAMES | CID_GOP_SIZE | CID_FORCE_KEY_FRAME | CID_H264_I_FRAME_QP
| CID_H264_P_FRAME_QP | CID_H264_B_FRAME_QP | CID_H264_MIN_QP | CID_H264_MAX_QP | CID_BITRATE
| CID_FRAME_RC_ENABLE | CID_BITRATE_MODE | CID_H264_PROFILE | CID_H264_ENTROPY_MODE | CID_H264_LEVEL
| CID_HEADER_MODE | CID_MIN_BUFFERS_FOR_OUTPUT | CID_HEVC_PROFILE | CID_HEVC_TIER | CID_HEVC_LEVEL
| CID_HEVC_I_FRAME_QP | CID_HEVC_P_FRAME_QP | CID_HEVC_B_FRAME_QP | CID_HEVC_MIN_QP | CID_HEVC_MAX_QP

definition h264_level_idc :: "u8 list" where
  "h264_level_idc = [10, 11, 11, 12, 13, 20, 21, 22, 30, 31, 32, 40, 41, 42, 50, 51, 52]"

definition hevc_level_idc :: "u8 list" where
  "hevc_level_idc = [30, 60, 63, 90, 93, 120, 123, 150, 153, 156, 180, 183, 186]"

definition idc_at :: "u8 list \<Rightarrow> u32 \<Rightarrow> int \<Rightarrow> u32" where
  "idc_at idc other v = (if 0 \<le> v \<and> v < int (length idc) then ucast (idc ! nat v) else other)"

definition ave_s_ctrl :: "v4l2_cid \<Rightarrow> int \<Rightarrow> ave_ctx_ctrls \<Rightarrow> ave_ctx_ctrls" where
  "ave_s_ctrl c v k =
     (case c of
        CID_H264_I_FRAME_QP \<Rightarrow> k\<lparr>vk_qp := word_of_int v\<rparr>
      | CID_GOP_SIZE \<Rightarrow> k\<lparr>vk_gop := word_of_int v\<rparr>
      | CID_H264_PROFILE \<Rightarrow>
          k\<lparr>vk_profile_idc := (if v = V4L2_MPEG_VIDEO_H264_PROFILE_HIGH then 100
                               else if v = V4L2_MPEG_VIDEO_H264_PROFILE_MAIN then 77 else 66)\<rparr>
      | CID_H264_LEVEL \<Rightarrow> k\<lparr>vk_level_idc := idc_at h264_level_idc 52 v\<rparr>
      | CID_BITRATE \<Rightarrow> k\<lparr>vk_bitrate := word_of_int v\<rparr>
      | CID_FRAME_RC_ENABLE \<Rightarrow> k\<lparr>vk_rc_enable := (v \<noteq> 0)\<rparr>
      | CID_BITRATE_MODE \<Rightarrow> k\<lparr>vk_bitrate_mode := word_of_int v\<rparr>
      | CID_H264_P_FRAME_QP \<Rightarrow> k\<lparr>vk_qp_p := word_of_int v\<rparr>
      | CID_H264_B_FRAME_QP \<Rightarrow> k\<lparr>vk_qp_b := word_of_int v\<rparr>
      | CID_H264_MIN_QP \<Rightarrow> k\<lparr>vk_qp_min := word_of_int v\<rparr>
      | CID_H264_MAX_QP \<Rightarrow> k\<lparr>vk_qp_max := word_of_int v\<rparr>
      | CID_H264_ENTROPY_MODE \<Rightarrow> k\<lparr>vk_cabac := (v = V4L2_MPEG_VIDEO_H264_ENTROPY_MODE_CABAC)\<rparr>
      | CID_FORCE_KEY_FRAME \<Rightarrow> k\<lparr>vk_force_key := True\<rparr>
      | CID_B_FRAMES \<Rightarrow>
          k\<lparr>vk_b_frames := word_of_int v,
            vk_min_out := map_option (\<lambda>_. if v \<noteq> 0 then v + 2 else 1) (vk_min_out k)\<rparr>
      | CID_REF_NUMBER_FOR_PFRAMES \<Rightarrow> k\<lparr>vk_p_refs := word_of_int v\<rparr>
      | CID_HEVC_I_FRAME_QP \<Rightarrow> k\<lparr>vk_hevc_qp := word_of_int v\<rparr>
      | CID_HEVC_P_FRAME_QP \<Rightarrow> k\<lparr>vk_hevc_qp_p := word_of_int v\<rparr>
      | CID_HEVC_B_FRAME_QP \<Rightarrow> k\<lparr>vk_hevc_qp_b := word_of_int v\<rparr>
      | CID_HEVC_MIN_QP \<Rightarrow> k\<lparr>vk_hevc_qp_min := word_of_int v\<rparr>
      | CID_HEVC_MAX_QP \<Rightarrow> k\<lparr>vk_hevc_qp_max := word_of_int v\<rparr>
      | CID_HEVC_PROFILE \<Rightarrow> k\<lparr>vk_hevc_main10 := (v = V4L2_MPEG_VIDEO_HEVC_PROFILE_MAIN_10)\<rparr>
      | CID_HEVC_LEVEL \<Rightarrow> k\<lparr>vk_hevc_level_idc := idc_at hevc_level_idc 186 v\<rparr>
      | _ \<Rightarrow> k)"

text \<open>The declared controls: least, greatest, step and default, or a menu: its greatest entry, the
  mask of the entries it skips, the default. \<open>ctrl_allows\<close> is what the V4L2 core lets through.\<close>

datatype v4l2_ctrl_spec = Std int int int int | Menu int u32 int

definition BIT :: "int \<Rightarrow> u32" where "BIT n = push_bit (nat n) 1"

definition base_ctrls :: "ave_v4l2_caps \<Rightarrow> (v4l2_cid \<times> v4l2_ctrl_spec) list" where
  "base_ctrls av =
     [(CID_B_FRAMES, Std 0 (if av_two_refs av then int AVE_GOP_B_MAX else 0) 1 0),
      (CID_REF_NUMBER_FOR_PFRAMES, Std 1 (if av_two_refs av then 2 else 1) 1 1),
      (CID_GOP_SIZE, Std 0 65535 1 0),
      (CID_FORCE_KEY_FRAME, Std 0 0 0 0),
      (CID_H264_I_FRAME_QP, Std 0 51 1 (uint AVE_DEF_QP)),
      (CID_H264_P_FRAME_QP, Std 0 51 1 0),
      (CID_H264_B_FRAME_QP, Std 0 51 1 0),
      (CID_H264_MIN_QP, Std 0 51 1 10),
      (CID_H264_MAX_QP, Std 0 51 1 51),
      (CID_BITRATE, Std 1 400000000 1 10000000),
      (CID_FRAME_RC_ENABLE, Std 0 1 1 0),
      (CID_BITRATE_MODE, Menu V4L2_MPEG_VIDEO_BITRATE_MODE_CQ
         (NOT (BIT V4L2_MPEG_VIDEO_BITRATE_MODE_CQ OR BIT V4L2_MPEG_VIDEO_BITRATE_MODE_VBR)) V4L2_MPEG_VIDEO_BITRATE_MODE_VBR),
      (CID_H264_PROFILE, Menu V4L2_MPEG_VIDEO_H264_PROFILE_HIGH
         (NOT (BIT V4L2_MPEG_VIDEO_H264_PROFILE_BASELINE OR BIT V4L2_MPEG_VIDEO_H264_PROFILE_CONSTRAINED_BASELINE
               OR BIT V4L2_MPEG_VIDEO_H264_PROFILE_MAIN OR BIT V4L2_MPEG_VIDEO_H264_PROFILE_HIGH))
         V4L2_MPEG_VIDEO_H264_PROFILE_HIGH),
      (CID_H264_ENTROPY_MODE, Menu V4L2_MPEG_VIDEO_H264_ENTROPY_MODE_CABAC 0 V4L2_MPEG_VIDEO_H264_ENTROPY_MODE_CABAC),
      (CID_H264_LEVEL, Menu V4L2_MPEG_VIDEO_H264_LEVEL_5_2 0 V4L2_MPEG_VIDEO_H264_LEVEL_4_0),
      (CID_HEADER_MODE, Menu V4L2_MPEG_VIDEO_HEADER_MODE_JOINED_WITH_1ST_FRAME
         (NOT (BIT V4L2_MPEG_VIDEO_HEADER_MODE_JOINED_WITH_1ST_FRAME)) V4L2_MPEG_VIDEO_HEADER_MODE_JOINED_WITH_1ST_FRAME),
      (CID_MIN_BUFFERS_FOR_OUTPUT, Std 1 (int AVE_GOP_B_MAX + 2) 1 1)]"

definition hevc_ctrls :: "(v4l2_cid \<times> v4l2_ctrl_spec) list" where
  "hevc_ctrls =
     [(CID_HEVC_PROFILE, Menu V4L2_MPEG_VIDEO_HEVC_PROFILE_MAIN_10
         (NOT (BIT V4L2_MPEG_VIDEO_HEVC_PROFILE_MAIN OR BIT V4L2_MPEG_VIDEO_HEVC_PROFILE_MAIN_10)) V4L2_MPEG_VIDEO_HEVC_PROFILE_MAIN),
      (CID_HEVC_TIER, Menu V4L2_MPEG_VIDEO_HEVC_TIER_MAIN (NOT (BIT V4L2_MPEG_VIDEO_HEVC_TIER_MAIN)) V4L2_MPEG_VIDEO_HEVC_TIER_MAIN),
      (CID_HEVC_LEVEL, Menu V4L2_MPEG_VIDEO_HEVC_LEVEL_6_2 0 V4L2_MPEG_VIDEO_HEVC_LEVEL_4),
      (CID_HEVC_I_FRAME_QP, Std 0 51 1 (uint AVE_DEF_QP)),
      (CID_HEVC_P_FRAME_QP, Std 0 51 1 0),
      (CID_HEVC_B_FRAME_QP, Std 0 51 1 0),
      (CID_HEVC_MIN_QP, Std 0 51 1 10),
      (CID_HEVC_MAX_QP, Std 0 51 1 51)]"

definition ave_ctrls :: "ave_v4l2_caps \<Rightarrow> (v4l2_cid \<times> v4l2_ctrl_spec) list" where
  "ave_ctrls av = base_ctrls av @ (if av_hevc av then hevc_ctrls else [])"

fun ctrl_default :: "v4l2_ctrl_spec \<Rightarrow> int" where
  "ctrl_default (Std lo hi step d) = d"
| "ctrl_default (Menu hi skip d) = d"

fun spec_allows :: "v4l2_ctrl_spec \<Rightarrow> int \<Rightarrow> bool" where
  "spec_allows (Std lo hi step d) v \<longleftrightarrow> lo \<le> v \<and> v \<le> hi"
| "spec_allows (Menu hi skip d) v \<longleftrightarrow> 0 \<le> v \<and> v \<le> hi \<and> skip AND BIT v = 0"

definition ctrl_allows :: "ave_v4l2_caps \<Rightarrow> v4l2_cid \<Rightarrow> int \<Rightarrow> bool" where
  "ctrl_allows av c v = (case map_of (ave_ctrls av) c of None \<Rightarrow> False | Some sp \<Rightarrow> spec_allows sp v)"

text \<open>\<open>v4l2_ctrl_handler_setup\<close> sets every control to its default, but for buttons.\<close>

definition ave_init_ctrls :: "ave_v4l2_caps \<Rightarrow> ave_ctx_ctrls \<Rightarrow> ave_ctx_ctrls" where
  "ave_init_ctrls av k =
     fold (\<lambda>(c, sp). if c = CID_FORCE_KEY_FRAME then (\<lambda>k. k) else ave_s_ctrl c (ctrl_default sp)) (ave_ctrls av)
       (k\<lparr>vk_min_out := Some 1, vk_hevc_profile := av_hevc av\<rparr>)"

section \<open>Opening a file\<close>

definition zero_ctrls :: ave_ctx_ctrls where
  "zero_ctrls =
     \<lparr>vk_qp = 0, vk_qp_p = 0, vk_qp_b = 0, vk_profile_idc = 0, vk_level_idc = 0, vk_cabac = False, vk_bitrate = 0,
      vk_rc_enable = False, vk_bitrate_mode = 0, vk_qp_min = 0, vk_qp_max = 0, vk_gop = 0, vk_force_key = False,
      vk_b_frames = 0, vk_p_refs = 0, vk_min_out = None, vk_hevc_qp = 0, vk_hevc_qp_min = 0, vk_hevc_qp_max = 0,
      vk_hevc_qp_p = 0, vk_hevc_qp_b = 0, vk_hevc_level_idc = 0, vk_hevc_main10 = False, vk_hevc_profile = False\<rparr>"

definition zero_stream :: ave_ctx_stream where
  "zero_stream =
     \<lparr>vs_nb = 0, vs_plan = \<lparr>g_nb = 0, g_gop = 0, g_n_held = 0, g_dist = 0, g_fn_anchor = 0, g_started = False\<rparr>,
      vs_frame_n = 0, vs_out_seq = 0, vs_cap_seq = 0, vs_session = False, vs_pm_lost = False\<rparr>"

definition open_fmt :: ave_ctx_fmt where
  "open_fmt =
     \<lparr>vf_width = AVE_DEF_W, vf_height = AVE_DEF_H, vf_crop_w = AVE_DEF_W, vf_crop_h = AVE_DEF_H,
      vf_bytesperline = ALIGN AVE_DEF_W 64,
      vf_out_size = ave_out_size AVE_SESS_CODEC_AVC (ALIGN AVE_DEF_W 64) AVE_DEF_H,
      vf_cap_size = ave_cap_size AVE_DEF_W AVE_DEF_H, vf_num = 1, vf_den = 30,
      vf_colorspace = V4L2_COLORSPACE_REC709, vf_ycbcr_enc = 0, vf_quantization = 0, vf_xfer_func = 0,
      vf_codec = AVE_SESS_CODEC_AVC, vf_out_fourcc = V4L2_PIX_FMT_NV12\<rparr>"

definition open_ctx :: "ave_v4l2_caps \<Rightarrow> ave_ctx" where
  "open_ctx av =
     \<lparr>vc_fmt = open_fmt,
      vc_ctrls = ave_init_ctrls av (zero_ctrls\<lparr>vk_qp := AVE_DEF_QP, vk_hevc_qp := AVE_DEF_QP\<rparr>),
      vc_stream = zero_stream\<rparr>"

section \<open>Buffers\<close>

text \<open>\<open>plane\<close> is the size of a buffer the client brings to REQBUFS's second form, if it does.\<close>

definition ave_queue_setup :: "bool \<Rightarrow> u32 option \<Rightarrow> u32 \<Rightarrow> ave_ctx \<Rightarrow> errno option \<times> u32 \<times> u32" where
  "ave_queue_setup output plane nbuf c =
     (let sz = (if output then vf_out_size (vc_fmt c) else vf_cap_size (vc_fmt c)); b = vk_b_frames (vc_ctrls c)
      in case plane of
           Some s \<Rightarrow> (if s < sz then Some EINVAL else None, nbuf, s)
         | None \<Rightarrow> (None, if b \<noteq> 0 then max nbuf (if output then b + 2 else b + 1) else nbuf, sz))"

definition ave_buf_prepare :: "bool \<Rightarrow> nat \<Rightarrow> u64 \<Rightarrow> ave_ctx \<Rightarrow> errno option" where
  "ave_buf_prepare output plane_size addr c =
     (let sz = (if output then vf_out_size (vc_fmt c) else vf_cap_size (vc_fmt c))
      in if plane_size < unat sz then Some EINVAL
         else if output \<and> addr AND 63 \<noteq> 0 then Some EINVAL
         else None)"

section \<open>The stream configuration of STREAMON\<close>

definition ave_latch_bframes :: "api_env \<Rightarrow> ave_ctx \<Rightarrow> u32" where
  "ave_latch_bframes ap c =
     (let k = vc_ctrls c; avc = (vf_codec (vc_fmt c) = AVE_SESS_CODEC_AVC);
          nb = vk_b_frames k;
          nb = (if nb \<noteq> 0 \<and> avc \<and> vk_profile_idc k = 66 then 0 else nb);
          nb = (if nb \<noteq> 0 \<and> avc \<and> \<not> ave_enc_two_refs_supported ap AVE_SESS_CODEC_AVC then 0 else nb)
      in if nb \<noteq> 0 \<and> vk_gop k \<noteq> 0 \<and> vk_gop k < nb + 2 then (if vk_gop k \<ge> 3 then vk_gop k - 2 else 0) else nb)"

definition DIV_ROUND_CLOSEST :: "u32 \<Rightarrow> u32 \<Rightarrow> u32" where
  "DIV_ROUND_CLOSEST x d = (x + d div 2) div d"

definition stream_fps :: "ave_ctx_fmt \<Rightarrow> u32" where
  "stream_fps f = clamp_u32 (DIV_ROUND_CLOSEST (vf_den f) (max (vf_num f) 1)) 1 240"

definition stream_cfg :: "api_env \<Rightarrow> bool \<Rightarrow> ave_ctx \<Rightarrow> ave_enc_cfg" where
  "stream_cfg ap rc_nondrop c =
     (let f = vc_fmt c; k = vc_ctrls c; hevc = (vf_codec f = AVE_SESS_CODEC_HEVC); nb = ave_latch_bframes ap c;
          fps = stream_fps f; qp = (if hevc then vk_hevc_qp k else vk_qp k);
          qp_b = (if hevc then vk_hevc_qp_b k else vk_qp_b k)
      in \<lparr>cf_codec = vf_codec f, cf_width = vf_width f, cf_height = vf_height f, cf_crop_w = vf_crop_w f,
          cf_crop_h = vf_crop_h f, cf_qp = qp, cf_qp_p = (if hevc then vk_hevc_qp_p k else vk_qp_p k),
          cf_qp_b = (if nb \<noteq> 0 \<and> qp_b = 0 then min (qp + AVE_B_QP_OFFSET) 51 else qp_b),
          cf_qp_min = (if hevc then vk_hevc_qp_min k else vk_qp_min k),
          cf_qp_max = (if hevc then vk_hevc_qp_max k else vk_qp_max k),
          cf_bitrate = (if vk_bitrate_mode k = word_of_int V4L2_MPEG_VIDEO_BITRATE_MODE_VBR \<and> vk_rc_enable k then vk_bitrate k else 0),
          cf_fps_num = fps, cf_fps_den = (if rc_nondrop then fps else 1), cf_slots = AVE_CODED_SLOTS,
          cf_profile_idc = (if hevc then if vk_hevc_main10 k then 2 else 1 else vk_profile_idc k),
          cf_src_bitdepth = (if hevc \<and> vf_out_fourcc f = V4L2_PIX_FMT_P010 then 10 else 8),
          cf_level_idc = (if hevc then vk_hevc_level_idc k else vk_level_idc k),
          cf_cabac = (\<not> hevc \<and> vk_cabac k), cf_bframes = nb,
          cf_p_refs = (if vf_codec f = AVE_SESS_CODEC_AVC \<and> \<not> ave_enc_two_refs_supported ap AVE_SESS_CODEC_AVC
                       then 1 else vk_p_refs k)\<rparr>)"

end
