(* ===== verification/Ave_V4l2_Config.thy ===== *)
theory Ave_V4l2_Config
  imports Ave_V4l2_Ctx Ave_Sess_Surfaces Ave_Sess_Safe
begin

text \<open>
  Whatever a client negotiates, the buffers it ends with hold the picture and the stream
  configuration is one the session takes.
\<close>

section \<open>What a client can do before it streams\<close>

datatype v4l2_ioctl =
  S_FMT bool bool bool v4l2_pix     \<comment> \<open>OUTPUT; busy; OUTPUT busy\<close>
| S_PARM bool u32 u32
| S_SELECTION bool v4l2_sel bool u32 u32
| S_CTRL v4l2_cid int

fun ioctl_step :: "ave_v4l2_caps \<Rightarrow> v4l2_ioctl \<Rightarrow> ave_ctx \<Rightarrow> ave_ctx" where
  "ioctl_step av (S_FMT output busy out_busy p) c = snd (ave_s_fmt av output busy out_busy p c)"
| "ioctl_step av (S_PARM output num den) c = c\<lparr>vc_fmt := snd (ave_s_parm output num den (vc_fmt c))\<rparr>"
| "ioctl_step av (S_SELECTION output tgt streaming w h) c = c\<lparr>vc_fmt := snd (ave_s_selection output tgt streaming w h (vc_fmt c))\<rparr>"
| "ioctl_step av (S_CTRL cid v) c = (if ctrl_allows av cid v then c\<lparr>vc_ctrls := ave_s_ctrl cid v (vc_ctrls c)\<rparr> else c)"

definition negotiated :: "ave_v4l2_caps \<Rightarrow> v4l2_ioctl list \<Rightarrow> ave_ctx" where
  "negotiated av ios = fold (ioctl_step av) ios (open_ctx av)"

section \<open>The invariant of the formats\<close>

definition size_fits :: "u32 \<Rightarrow> u32 \<Rightarrow> u32 \<Rightarrow> bool" where
  "size_fits lo hi v \<longleftrightarrow> lo \<le> v \<and> v \<le> hi \<and> unat v mod 16 = 0"

definition crop_fits :: "u32 \<Rightarrow> u32 \<Rightarrow> bool" where
  "crop_fits c v \<longleftrightarrow> c \<le> v \<and> unat v < unat c + 16"

definition sample_bytes :: "ave_ctx_fmt \<Rightarrow> u32" where
  "sample_bytes f = (if vf_out_fourcc f = V4L2_PIX_FMT_P010 then 2 else 1)"

definition fmt_ok :: "ave_v4l2_caps \<Rightarrow> ave_ctx_fmt \<Rightarrow> bool" where
  "fmt_ok av f \<longleftrightarrow>
     size_fits AVE_MIN_W AVE_MAX_W (vf_width f) \<and> size_fits AVE_MIN_H AVE_MAX_H (vf_height f)
   \<and> crop_fits (vf_crop_w f) (vf_width f) \<and> crop_fits (vf_crop_h f) (vf_height f)
   \<and> vf_out_fourcc f \<in> {V4L2_PIX_FMT_NV12, V4L2_PIX_FMT_P010}
   \<and> vf_codec f \<in> {AVE_SESS_CODEC_AVC, AVE_SESS_CODEC_HEVC} \<and> (vf_codec f = AVE_SESS_CODEC_HEVC \<longrightarrow> av_hevc av)
   \<and> vf_bytesperline f = ALIGN (vf_width f) 64 * sample_bytes f
   \<and> vf_out_size f = ave_out_size (vf_codec f) (vf_bytesperline f) (vf_height f)
   \<and> ave_cap_size (vf_width f) (vf_height f) \<le> vf_cap_size f"

lemma fourcc_distinct [simp]:
  "V4L2_PIX_FMT_NV12 \<noteq> V4L2_PIX_FMT_P010" "V4L2_PIX_FMT_P010 \<noteq> V4L2_PIX_FMT_NV12"
  "V4L2_PIX_FMT_HEVC \<noteq> V4L2_PIX_FMT_H264" "V4L2_PIX_FMT_H264 \<noteq> V4L2_PIX_FMT_HEVC"
  by (simp_all add: V4L2_PIX_FMT_NV12_def V4L2_PIX_FMT_P010_def V4L2_PIX_FMT_HEVC_def V4L2_PIX_FMT_H264_def v4l2_fourcc_def)

lemma codec_distinct [simp]: "AVE_SESS_CODEC_AVC \<noteq> AVE_SESS_CODEC_HEVC" "AVE_SESS_CODEC_HEVC \<noteq> AVE_SESS_CODEC_AVC"
  by (simp_all add: AVE_SESS_CODEC_AVC_def AVE_SESS_CODEC_HEVC_def)

lemma ALIGN_multiple:
  fixes x :: "'a :: len word"
  assumes "k < LENGTH('a)"
  shows "unat (ALIGN x (2 ^ k)) mod 2 ^ k = 0"
  using unat_and_not_mask [OF assms, of "x + (2 ^ k - 1)"] by (simp add: ALIGN_def)

lemma size_clamped:
  assumes "unat lo mod 16 = 0" "unat hi mod 16 = 0" "lo \<le> hi"
  shows "size_fits lo hi (clamp_u32 (ALIGN w 16) lo hi)"
proof -
  have "unat (ALIGN w 16) mod 16 = 0" using ALIGN_multiple [of 4 w] by simp
  then show ?thesis using assms by (auto simp: size_fits_def clamp_u32_def min_def max_def)
qed

lemma clamped_sizes:
  assumes "ave_clamp_size w h = (w', h')"
  shows "size_fits AVE_MIN_W AVE_MAX_W w'" "size_fits AVE_MIN_H AVE_MAX_H h'"
  using assms size_clamped [of AVE_MIN_W AVE_MAX_W w] size_clamped [of AVE_MIN_H AVE_MAX_H h]
  by (auto simp: ave_clamp_size_def AVE_MIN_W_def AVE_MAX_W_def AVE_MIN_H_def AVE_MAX_H_def)

lemma crop_whole [simp]: "crop_fits v v"
  by (simp add: crop_fits_def)

lemma align_stays:
  fixes v :: u32
  assumes "unat v mod 16 = 0" "unat v \<le> 4096"
  shows "ALIGN v 16 = v"
proof -
  have "unat (ALIGN v 16) = round_up 16 (unat v)" using unat_ALIGN [of 4 v] assms(2) by simp
  also have "\<dots> = unat v" using assms(1) round_up_mult [of 16 "unat v div 16" 0] by (auto simp: round_up_def)
  finally show ?thesis by (simp add: unsigned_word_eqI)
qed

lemma crop_clamped:
  assumes "size_fits lo hi v" "hi = 4096" "20 \<le> unat lo"
  shows "crop_fits (clamp_u32 (ALIGN c 2) (max lo (ALIGN v 16 - 14)) v) v"
proof -
  have v: "unat lo \<le> unat v" "unat v \<le> 4096" "unat v mod 16 = 0"
    using assms by (simp_all add: size_fits_def word_le_nat_alt)
  have s: "unat (v - 14) = unat v - 14" using v(1) assms(3) by (subst unat_sub) (simp_all add: word_le_nat_alt)
  have "unat v < unat (min (max (ALIGN c 2) (max lo (v - 14))) v) + 16"
    using s v(1) by (auto simp: min_def max_def word_le_nat_alt split: if_splits)
  then show ?thesis by (simp add: crop_fits_def clamp_u32_def align_stays [OF v(3,2)])
qed

lemma fmt_ok_open: "fmt_ok av open_fmt"
  by (simp add: fmt_ok_def open_fmt_def size_fits_def sample_bytes_def AVE_MIN_W_def AVE_MAX_W_def AVE_MIN_H_def
      AVE_MAX_H_def AVE_DEF_W_def AVE_DEF_H_def)

lemma fmt_ok_s_fmt:
  assumes "fmt_ok av (vc_fmt c)"
  shows "fmt_ok av (vc_fmt (snd (ave_s_fmt av output busy out_busy p c)))"
proof -
  let ?f = "vc_fmt c"
  obtain w h where wh: "ave_clamp_size (px_width p) (px_height p) = (w, h)" by fastforce
  note sz = clamped_sizes [OF wh]
  have out: "fmt_ok av (vc_fmt (s_fmt_out (ave_try_fmt av True ?f p) c))"
    using assms sz by (simp add: fmt_ok_def s_fmt_out_def ave_try_fmt_def ave_fill_out_fmt_def Let_def wh sample_bytes_def)
  have cap: "fmt_ok av (g\<lparr>vf_cap_size := px_sizeimage (ave_try_fmt av False ?f p)\<rparr>)"
    if "fmt_ok av g" "vf_width g = vf_width ?f" "vf_height g = vf_height ?f" for g
    using that by (simp add: fmt_ok_def ave_try_fmt_def ave_fill_cap_fmt_def sample_bytes_def)
  have codec: "fmt_ok av (s_fmt_codec k ?f)" if "k = AVE_SESS_CODEC_HEVC \<longrightarrow> av_hevc av" "k \<in> {AVE_SESS_CODEC_AVC, AVE_SESS_CODEC_HEVC}" for k
    using that assms by (auto simp: fmt_ok_def s_fmt_codec_def Let_def sample_bytes_def)
  have hevc: "px_pixelformat (ave_try_fmt av False ?f p) = V4L2_PIX_FMT_HEVC \<Longrightarrow> av_hevc av"
    using assms by (auto simp: fmt_ok_def ave_try_fmt_def ave_fill_cap_fmt_def ave_cap_fourcc_def split: if_splits)
  have same: "vf_width (s_fmt_codec k ?f) = vf_width ?f" "vf_height (s_fmt_codec k ?f) = vf_height ?f" for k
    by (simp_all add: s_fmt_codec_def Let_def)
  show ?thesis
    using assms out cap [OF codec] cap [OF assms] hevc same by (auto simp: ave_s_fmt_def Let_def)
qed

lemma fmt_ok_selection:
  assumes "fmt_ok av f"
  shows "fmt_ok av (snd (ave_s_selection output tgt streaming w h f))"
proof -
  have sz: "size_fits AVE_MIN_W AVE_MAX_W (vf_width f)" "size_fits AVE_MIN_H AVE_MAX_H (vf_height f)"
    using assms by (simp_all add: fmt_ok_def)
  have "crop_fits (clamp_u32 (ALIGN w 2) (max AVE_MIN_W (ALIGN (vf_width f) 16 - 14)) (vf_width f)) (vf_width f)"
    by (rule crop_clamped [OF sz(1)]) (simp_all add: AVE_MIN_W_def AVE_MAX_W_def)
  moreover have "crop_fits (clamp_u32 (ALIGN h 2) (max AVE_MIN_H (ALIGN (vf_height f) 16 - 14)) (vf_height f)) (vf_height f)"
    by (rule crop_clamped [OF sz(2)]) (simp_all add: AVE_MIN_H_def AVE_MAX_H_def)
  ultimately show ?thesis using assms by (simp add: ave_s_selection_def fmt_ok_def sample_bytes_def)
qed

lemma fmt_ok_parm:
  assumes "fmt_ok av f"
  shows "fmt_ok av (snd (ave_s_parm output num den f))"
  using assms by (simp add: ave_s_parm_def fmt_ok_def sample_bytes_def)

lemma fmt_ok_step:
  assumes "fmt_ok av (vc_fmt c)"
  shows "fmt_ok av (vc_fmt (ioctl_step av io c))"
  using assms by (cases io) (simp_all add: fmt_ok_s_fmt fmt_ok_selection fmt_ok_parm)

lemma fmt_ok_negotiated: "fmt_ok av (vc_fmt (negotiated av ios))"
proof -
  have "fmt_ok av (vc_fmt c) \<Longrightarrow> fmt_ok av (vc_fmt (fold (ioctl_step av) ios c))" for c
    by (induction ios arbitrary: c) (simp_all add: fmt_ok_step)
  then show ?thesis by (simp add: negotiated_def open_ctx_def fmt_ok_open)
qed

section \<open>The invariant of the controls\<close>

definition ctrls_ok :: "ave_v4l2_caps \<Rightarrow> ave_ctx_ctrls \<Rightarrow> bool" where
  "ctrls_ok av k \<longleftrightarrow>
     (\<forall>q \<in> {vk_qp k, vk_qp_p k, vk_qp_b k, vk_qp_min k, vk_qp_max k, vk_hevc_qp k, vk_hevc_qp_p k, vk_hevc_qp_b k,
            vk_hevc_qp_min k, vk_hevc_qp_max k}. q \<le> 51)
   \<and> vk_b_frames k \<le> (if av_two_refs av then 2 else 0) \<and> vk_p_refs k \<le> (if av_two_refs av then 2 else 1)
   \<and> vk_profile_idc k \<in> {66, 77, 100} \<and> vk_gop k \<le> 0xffff"

lemma word_of_int_le: "0 \<le> v \<Longrightarrow> v \<le> int n \<Longrightarrow> n < 2 ^ 32 \<Longrightarrow> (word_of_int v :: u32) \<le> of_nat n"
  by (simp add: word_le_def uint_word_of_int take_bit_int_eq_self unsigned_of_nat take_bit_nat_eq_self)

lemma s_ctrl_ok:
  assumes "ctrls_ok av k" "ctrl_allows av cid v"
  shows "ctrls_ok av (ave_s_ctrl cid v k)"
  using assms word_of_int_le [of v 51] word_of_int_le [of v 2] word_of_int_le [of v 1] word_of_int_le [of v 0] word_of_int_le [of v "0xffff"]
  by (cases cid)
    (auto simp: ctrls_ok_def ave_s_ctrl_def ctrl_allows_def ave_ctrls_def base_ctrls_def hevc_ctrls_def AVE_GOP_B_MAX_def
      split: if_splits)


lemma ctrls_ok_open: "ctrls_ok av (vc_ctrls (open_ctx av))"
  by (cases "av_hevc av"; cases "av_two_refs av")
    (simp_all add: open_ctx_def ave_init_ctrls_def ave_ctrls_def base_ctrls_def hevc_ctrls_def zero_ctrls_def ave_s_ctrl_def
      ctrls_ok_def AVE_DEF_QP_def V4L2_MPEG_VIDEO_H264_PROFILE_HIGH_def)

lemma ctrls_s_fmt:
  "ctrls_ok av (vc_ctrls c) \<Longrightarrow> ctrls_ok av (vc_ctrls (snd (ave_s_fmt av output busy out_busy p c)))"
  by (simp add: ave_s_fmt_def Let_def s_fmt_out_def ctrls_ok_def)

lemma ctrls_ok_step:
  assumes "ctrls_ok av (vc_ctrls c)"
  shows "ctrls_ok av (vc_ctrls (ioctl_step av io c))"
  using assms by (cases io) (simp_all add: ctrls_s_fmt s_ctrl_ok)

lemma ctrls_ok_negotiated: "ctrls_ok av (vc_ctrls (negotiated av ios))"
proof -
  have "ctrls_ok av (vc_ctrls c) \<Longrightarrow> ctrls_ok av (vc_ctrls (fold (ioctl_step av) ios c))" for c
    by (induction ios arbitrary: c) (simp_all add: ctrls_ok_step)
  then show ?thesis by (simp add: negotiated_def ctrls_ok_open)
qed

section \<open>What STREAMON asks for\<close>

lemma latch_bounds:
  assumes "vk_b_frames (vc_ctrls c) \<le> 2" "ave_latch_bframes ap c \<noteq> 0"
  shows "ave_latch_bframes ap c \<le> 2" "vk_b_frames (vc_ctrls c) \<noteq> 0"
    "vf_codec (vc_fmt c) = AVE_SESS_CODEC_AVC \<Longrightarrow>
      vk_profile_idc (vc_ctrls c) \<noteq> 66 \<and> ave_enc_two_refs_supported ap AVE_SESS_CODEC_AVC"
proof -
  let ?nb = "vk_b_frames (vc_ctrls c)" and ?g = "vk_gop (vc_ctrls c)"
  have nb: "unat ?nb \<le> 2" using assms(1) by (simp add: word_le_nat_alt)
  have "unat (?g - 2) \<le> 2" if "?g < ?nb + 2" "3 \<le> ?g"
  proof -
    have "unat (?nb + 2) = unat ?nb + 2" using nb by (subst unat_add_nowrap) simp_all
    then show ?thesis using that nb by (simp add: word_less_nat_alt word_le_nat_alt unat_sub)
  qed
  then show "ave_latch_bframes ap c \<le> 2"
    using assms(1) by (auto simp: ave_latch_bframes_def Let_def word_le_nat_alt)
  show "?nb \<noteq> 0" using assms(2) by (auto simp: ave_latch_bframes_def Let_def)
  show "vk_profile_idc (vc_ctrls c) \<noteq> 66 \<and> ave_enc_two_refs_supported ap AVE_SESS_CODEC_AVC"
    if "vf_codec (vc_fmt c) = AVE_SESS_CODEC_AVC"
    using assms(2) that by (auto simp: ave_latch_bframes_def Let_def split: if_splits)
qed

lemma low_bits_unat:
  fixes v :: "'a :: len word"
  shows "v AND (2 ^ k - 1) = 0 \<longleftrightarrow> unat v mod 2 ^ k = 0"
proof -
  have "unat (take_bit k v) = take_bit k (unat v)" by (rule unsigned_take_bit_eq)
  also have "\<dots> = unat v mod 2 ^ k" by (rule take_bit_eq_mod)
  finally have "unat (v AND (2 ^ k - 1)) = unat v mod 2 ^ k" by (simp add: take_bit_eq_mask mask_eq_exp_minus_1)
  then show ?thesis by (metis unat_eq_zero)
qed

lemma even_size:
  assumes "unat (v :: u32) mod 16 = 0"
  shows "v AND 1 = 0"
proof -
  have "unat v mod 2 = 0" using assms by presburger
  then show ?thesis using low_bits_unat [of v 1] by simp
qed

lemma cfg_geometry:
  assumes "fmt_ok av (vc_fmt c)" "ctrls_ok av (vc_ctrls c)"
  shows "\<not> cfg_bad_geometry (stream_cfg ap nd c)"
proof -
  have f: "192 \<le> vf_width (vc_fmt c)" "vf_width (vc_fmt c) \<le> 4096" "96 \<le> vf_height (vc_fmt c)" "vf_height (vc_fmt c) \<le> 4096"
    "vf_width (vc_fmt c) AND 1 = 0" "vf_height (vc_fmt c) AND 1 = 0" "vf_codec (vc_fmt c) \<le> AVE_SESS_CODEC_HEVC"
    using assms(1) even_size
    by (auto simp: fmt_ok_def size_fits_def AVE_MIN_W_def AVE_MAX_W_def AVE_MIN_H_def AVE_MAX_H_def AVE_SESS_CODEC_AVC_def AVE_SESS_CODEC_HEVC_def)
  have k: "cf_qp (stream_cfg ap nd c) \<le> 51" "cf_qp_p (stream_cfg ap nd c) \<le> 51" "cf_qp_b (stream_cfg ap nd c) \<le> 51"
    "cf_qp_min (stream_cfg ap nd c) \<le> 51" "cf_qp_max (stream_cfg ap nd c) \<le> 51"
    using assms(2) by (simp_all add: ctrls_ok_def stream_cfg_def Let_def)
  have e: "cf_width (stream_cfg ap nd c) = vf_width (vc_fmt c)" "cf_height (stream_cfg ap nd c) = vf_height (vc_fmt c)"
    "cf_codec (stream_cfg ap nd c) = vf_codec (vc_fmt c)"
    by (simp_all add: stream_cfg_def Let_def)
  show ?thesis using f k by (simp add: cfg_bad_geometry_def e not_less)
qed

lemma cfg_accepted:
  assumes "enc_abi e = Some abi"
  shows "cfg_check ap abi (stream_cfg ap nd (negotiated (ave_v4l2_caps ap e) ios)) = None"
proof -
  let ?av = "ave_v4l2_caps ap e"
  define c where "c = negotiated ?av ios"
  let ?g = "stream_cfg ap nd c"
  have ok: "fmt_ok ?av (vc_fmt c)" "ctrls_ok ?av (vc_ctrls c)"
    by (simp_all add: c_def fmt_ok_negotiated ctrls_ok_negotiated)
  have e: "cf_codec ?g = vf_codec (vc_fmt c)" "cf_bframes ?g = ave_latch_bframes ap c"
    "cfg_hevc ?g \<longleftrightarrow> vf_codec (vc_fmt c) = AVE_SESS_CODEC_HEVC"
    by (simp_all add: stream_cfg_def Let_def cfg_hevc_def)
  have codec: "vf_codec (vc_fmt c) = AVE_SESS_CODEC_AVC \<or> vf_codec (vc_fmt c) = AVE_SESS_CODEC_HEVC"
    using ok(1) by (auto simp: fmt_ok_def)
  have hevc: "cfg_hevc ?g \<Longrightarrow> av_hevc ?av" using ok(1) by (simp add: fmt_ok_def e)
  have hevc_ok: "cfg_hevc ?g \<Longrightarrow> ave_sess_hevc_ok (ap_start ap) (Some abi)"
    using hevc assms by (simp add: ave_v4l2_caps_def ave_enc_hevc_supported_def Let_def)
  have two: "av_hevc ?av \<Longrightarrow> av_two_refs ?av = ave_enc_two_refs_supported ap AVE_SESS_CODEC_HEVC"
    by (simp add: ave_v4l2_caps_def Let_def)
  have bf: "vk_b_frames (vc_ctrls c) \<le> 2" using ok(2) by (auto simp: ctrls_ok_def split: if_splits)
  note latch = latch_bounds [OF bf]
  have bs: "cf_bframes ?g \<le> 2" using latch(1) by (cases "ave_latch_bframes ap c = 0") (simp_all add: e)
  have pk: "vk_p_refs (vc_ctrls c) \<le> 2" using ok(2) by (cases "av_two_refs ?av") (auto simp: ctrls_ok_def word_le_nat_alt)
  have ps: "cf_p_refs ?g \<le> 2" using pk by (simp add: stream_cfg_def Let_def)
  have pr: "cf_bframes ?g \<noteq> 0 \<Longrightarrow> \<not> cfg_hevc ?g \<Longrightarrow> 77 \<le> cf_profile_idc ?g"
  proof -
    assume b: "cf_bframes ?g \<noteq> 0" and n: "\<not> cfg_hevc ?g"
    have avc: "vf_codec (vc_fmt c) = AVE_SESS_CODEC_AVC" using codec n by (simp add: e)
    then have "cf_profile_idc ?g = vk_profile_idc (vc_ctrls c)" by (simp add: stream_cfg_def Let_def)
    moreover have "vk_profile_idc (vc_ctrls c) \<noteq> 66" using latch(3) avc b by (simp add: e)
    ultimately show ?thesis using ok(2) by (auto simp: ctrls_ok_def)
  qed
  have prof: "cfg_hevc ?g \<Longrightarrow> cf_profile_idc ?g \<le> 2" by (simp add: stream_cfg_def Let_def cfg_hevc_def)
  have src: "cf_src_bitdepth ?g = 10 \<Longrightarrow> cfg_hevc ?g" by (auto simp: stream_cfg_def Let_def cfg_hevc_def split: if_splits)
  have sup: "ave_enc_two_refs_supported ap (cf_codec ?g)" if t: "two_refs ?g"
  proof (cases "cfg_hevc ?g")
    case True
    have "cf_p_refs ?g = vk_p_refs (vc_ctrls c)" using True by (simp add: stream_cfg_def Let_def cfg_hevc_def)
    then have "vk_b_frames (vc_ctrls c) \<noteq> 0 \<or> 2 \<le> vk_p_refs (vc_ctrls c)" using t latch(2) by (auto simp: two_refs_def e)
    moreover have "vk_b_frames (vc_ctrls c) = 0" "vk_p_refs (vc_ctrls c) \<le> 1" if "\<not> av_two_refs ?av"
      using ok(2) that by (simp_all add: ctrls_ok_def)
    ultimately have "av_two_refs ?av" 
      using order_trans [of 2 "vk_p_refs (vc_ctrls c)" 1] by (cases "av_two_refs ?av") (auto simp: word_le_nat_alt)
    then show ?thesis using two hevc True by (simp add: e)
  next
    case False
    then have avc: "vf_codec (vc_fmt c) = AVE_SESS_CODEC_AVC" using codec by (simp add: e)
    then have "\<not> ave_enc_two_refs_supported ap AVE_SESS_CODEC_AVC \<Longrightarrow> cf_p_refs ?g = 1" by (simp add: stream_cfg_def Let_def)
    moreover have "cf_bframes ?g = 0" if "\<not> ave_enc_two_refs_supported ap AVE_SESS_CODEC_AVC"
      using latch(3) [of ap] avc that by (auto simp: e)
    ultimately have "ave_enc_two_refs_supported ap AVE_SESS_CODEC_AVC" using t by (cases "ave_enc_two_refs_supported ap AVE_SESS_CODEC_AVC") (auto simp: two_refs_def word_le_nat_alt)
    then show ?thesis by (simp add: e avc)
  qed
  show ?thesis
    using cfg_geometry [OF ok] hevc_ok prof src bs ps pr sup
    unfolding c_def [symmetric] by (auto simp: cfg_check_def AVE_GOP_B_MAX_def not_less)
qed

text \<open>What the Start command then checks of the size, the rates and the quantisers, on the session the
  preparation makes of a configuration. The per-client buffers are the driver's own, and there.\<close>

definition client_bufs :: "ave_sess_start \<Rightarrow> bool" where
  "client_bufs st \<longleftrightarrow> ss_fwc_iova st \<noteq> 0 \<and> ss_fwc_size st \<noteq> 0 \<and> ss_fwcm_iova st \<noteq> 0 \<and> ss_psets_iova st \<noteq> 0"

lemma clamp_bounds: "lo \<le> hi \<Longrightarrow> lo \<le> clamp_u32 v lo hi \<and> clamp_u32 v lo hi \<le> hi"
  by (auto simp: clamp_u32_def min_def max_def)

lemma start_params_checked:
  assumes "\<not> cfg_bad_geometry c" "sb_cfg b = cfg_of ap c" "client_bufs st"
  shows "vp_bad_params l (prep_session en se b st) \<longleftrightarrow> cf_bitrate c \<noteq> 0 \<and> sa_rc_mode_on l = AVE_OFF_NONE"
proof -
  let ?s = "prep_session en se b st"
  have g: "192 \<le> cf_width c" "cf_width c \<le> 4096" "96 \<le> cf_height c" "cf_height c \<le> 4096"
    "cf_width c AND 1 = 0" "cf_height c AND 1 = 0" "cf_qp c \<le> 51" "cf_qp_p c \<le> 51" "cf_qp_b c \<le> 51"
    using assms(1) by (simp_all add: cfg_bad_geometry_def not_less)
  have f: "s_width ?s = cf_width c" "s_height ?s = cf_height c" "s_rc_enable ?s \<longleftrightarrow> cf_bitrate c \<noteq> 0"
    "s_bitrate ?s = cf_bitrate c" "s_qp_i ?s = cf_qp c" "s_fw_client_addr ?s = ss_fwc_iova st"
    "s_fw_client_size ?s = ss_fwc_size st" "s_fw_client_mem_addr ?s = ss_fwcm_iova st"
    "s_fw_client_mem_size ?s = AVE_SESS_FWCLIENTMEM_SIZE" "s_param_sets_addr ?s = ss_psets_iova st"
    "s_param_sets_size ?s = AVE_SESS_PARAM_SETS_SIZE"
    by (simp_all add: prep_session_def prep_scratch_def prep_tables_def prep_rate_def prep_modes_def Let_def assms(2) cfg_of_def)
  have q: "s_qp_p ?s \<le> 51" "s_qp_b ?s \<le> 51" "s_frame_rate ?s \<noteq> 0"
    using g(7-9) by (simp_all add: prep_session_def prep_scratch_def prep_tables_def prep_rate_def prep_modes_def Let_def assms(2) cfg_of_def)
  have key: "s_key_interval ?s \<noteq> 0"
    by (auto simp: prep_session_def prep_scratch_def prep_tables_def prep_rate_def prep_modes_def Let_def max_def
        word_le_nat_alt)
  obtain m v where m: "s_qp_min ?s = min m 51" "s_qp_max ?s = clamp_u32 v (min m 51) 51"
    by (simp add: prep_session_def prep_scratch_def prep_tables_def prep_rate_def prep_modes_def Let_def)
  have "s_qp_min ?s \<le> 51" "s_qp_max ?s \<le> 51" "s_qp_min ?s \<le> s_qp_max ?s"
    using m clamp_bounds [of "min m 51" 51 v] by simp_all
  then show ?thesis
    using g q key f assms(3) by (auto simp: vp_bad_params_def avc_limits not_less client_bufs_def
        AVE_SESS_FWCLIENTMEM_SIZE_def AVE_SESS_PARAM_SETS_SIZE_def)
qed

text \<open>C36. Whatever a client sets before it streams - formats, codec, crop, frame interval, controls, in any
  order and with any values the V4L2 core lets through - the configuration STREAMON hands the encoder
  passes the argument checks of \<open>ave_enc_start\<close>, and the size, frame rate, key interval, quantisers and
  per-client buffers of the session prepared from it pass those of the Start command, on either firmware
  interface and with one exception: a bitrate (VBR with rate control on, which the driver always
  offers) on an interface without that mode, macOS 26.6, is refused there (a finding). The Start
  command's checks of the buffer tables and of the debug parameters are not part of this.\<close>

theorem v4l2_config_accepted:
  assumes "enc_abi e = Some abi" and "c = stream_cfg ap nd (negotiated (ave_v4l2_caps ap e) ios)"
  shows "cfg_check ap abi c = None
    \<and> (\<forall>en se b st. sb_cfg b = cfg_of ap c \<and> client_bufs st \<longrightarrow>
        (vp_bad_params (ab_start_avc abi) (prep_session en se b st)
           \<longleftrightarrow> cf_bitrate c \<noteq> 0 \<and> sa_rc_mode_on (ab_start_avc abi) = AVE_OFF_NONE))"
  using cfg_accepted [OF assms(1), of ap nd ios] start_params_checked [of c _ ap _ "ab_start_avc abi"]
    cfg_geometry [OF fmt_ok_negotiated ctrls_ok_negotiated, of ap nd "ave_v4l2_caps ap e" ios]
  unfolding assms(2) by blast

text \<open>The planes of an OUTPUT buffer.\<close>

lemma out_size_nat:
  assumes "unat bpl \<le> 8192" "unat h \<le> 4096" "unat h mod 16 = 0"
  shows "unat (ave_out_size codec bpl h) =
    (if codec = AVE_SESS_CODEC_HEVC then unat bpl * unat h + unat bpl * (round_up 64 (unat h) div 2)
     else unat bpl * unat h * 3 div 2)"
proof -
  have b: "unat bpl * unat h \<le> 8192 * 4096" using assms by (intro mult_le_mono) simp_all
  have m: "unat (bpl * h) = unat bpl * unat h" using b by (subst unat_mult_nowrap) simp_all
  have m3: "unat (bpl * h * 3) = unat bpl * unat h * 3" using b by (subst unat_mult_nowrap) (simp_all add: m)
  have a: "unat (ALIGN h 64) = round_up 64 (unat h)" using unat_ALIGN [of 6 h] assms(2) by simp
  have r: "round_up 64 (unat h) div 2 \<le> 2080" using round_up_bounds(2) [where a = 64 and x = "unat h"] assms(2) by simp
  have c: "unat bpl * (round_up 64 (unat h) div 2) \<le> 8192 * 2080" using assms r by (intro mult_le_mono) simp_all
  have mc: "unat (bpl * (ALIGN h 64 div 2)) = unat bpl * (round_up 64 (unat h) div 2)"
    using c by (subst unat_mult_nowrap) (simp_all add: unat_div a)
  show ?thesis using b c by (simp add: ave_out_size_def unat_div m3 m mc unat_add_nowrap)
qed

lemma bpl_nat:
  assumes "fmt_ok av f"
  shows "unat (vf_bytesperline f) = round_up 64 (unat (vf_width f)) * unat (sample_bytes f)"
    "unat (vf_bytesperline f) \<le> 8192" "192 \<le> unat (vf_bytesperline f)"
proof -
  have w: "192 \<le> unat (vf_width f)" "unat (vf_width f) \<le> 4096"
    using assms by (simp_all add: fmt_ok_def size_fits_def AVE_MIN_W_def AVE_MAX_W_def word_le_nat_alt)
  have a: "unat (ALIGN (vf_width f) 64) = round_up 64 (unat (vf_width f))" using unat_ALIGN [of 6 "vf_width f"] w(2) by simp
  have r: "round_up 64 (unat (vf_width f)) \<le> 4096" using w(2) by (simp add: round_up_def)
  have r0: "192 \<le> round_up 64 (unat (vf_width f))"
    using round_up_bounds(1) [where a = 64 and x = "unat (vf_width f)"] w(1) by simp
  have s: "unat (sample_bytes f) \<le> 2" "1 \<le> unat (sample_bytes f)" by (simp_all add: sample_bytes_def)
  have p: "round_up 64 (unat (vf_width f)) * unat (sample_bytes f) \<le> 4096 * 2" using r s by (intro mult_le_mono)
  show e: "unat (vf_bytesperline f) = round_up 64 (unat (vf_width f)) * unat (sample_bytes f)"
    using assms p by (simp add: fmt_ok_def unat_mult_nowrap a)
  show "unat (vf_bytesperline f) \<le> 8192" using p e by simp
  show "192 \<le> unat (vf_bytesperline f)" using mult_le_mono [OF r0 s(2)] e by simp
qed

text \<open>C37. Every OUTPUT buffer the driver takes holds the picture as the encoder will read it: the line
  stride is one the session accepts and covers a line of samples, the luma plane and, from
  \<open>bytesperline * height\<close> on, the chroma plane - for HEVC rounded up to whole 64-row units - lie inside
  the buffer and start at multiples of 64, and the crop is the picture but for less than a macroblock.\<close>

theorem v4l2_planes_inside:
  assumes "c = negotiated av ios" "ave_buf_prepare True plane_size addr c = None"
  shows "let f = vc_fmt c; bpl = unat (vf_bytesperline f); h = unat (vf_height f); off = bpl * h
    in \<not> bad_stride (vf_bytesperline f)
     \<and> unat (vf_width f) * (if vf_out_fourcc f = V4L2_PIX_FMT_P010 then 2 else 1) \<le> bpl
     \<and> off + bpl * (h div 2) \<le> plane_size
     \<and> (vf_codec f = AVE_SESS_CODEC_HEVC \<longrightarrow> off + bpl * (round_up 64 h div 2) \<le> plane_size)
     \<and> unat (ucast (vf_bytesperline f) * ucast (vf_height f) :: u64) = off
     \<and> unat addr mod 64 = 0 \<and> off mod 64 = 0
     \<and> vf_crop_w f \<le> vf_width f \<and> unat (vf_width f) < unat (vf_crop_w f) + 16
     \<and> vf_crop_h f \<le> vf_height f \<and> unat (vf_height f) < unat (vf_crop_h f) + 16"
proof -
  define f where "f = vc_fmt c"
  have ok: "fmt_ok av f" using assms(1) by (simp add: f_def fmt_ok_negotiated)
  note bpl = bpl_nat [OF ok]
  have h: "unat (vf_height f) \<le> 4096" "unat (vf_height f) mod 16 = 0"
    using ok by (simp_all add: fmt_ok_def size_fits_def AVE_MAX_H_def word_le_nat_alt)
  have sz: "unat (vf_out_size f) \<le> plane_size" and al: "addr AND 63 = 0"
    using assms(2) by (auto simp: ave_buf_prepare_def f_def split: if_splits)
  have out: "vf_out_size f = ave_out_size (vf_codec f) (vf_bytesperline f) (vf_height f)" using ok by (simp add: fmt_ok_def)
  note n = out_size_nat [OF bpl(2) h, of "vf_codec f", folded out]
  have b64: "unat (vf_bytesperline f) mod 64 = 0"
    using round_up_dvd [of 64 "unat (vf_width f)"] bpl(1) by (metis dvd_imp_mod_0 dvd_mult2)
  have stride: "\<not> bad_stride (vf_bytesperline f)"
    using low_bits_unat [of "vf_bytesperline f" 6] b64 bpl(3) by (auto simp: bad_stride_def AVE_STRIDE_ALIGN_def)
  have line: "unat (vf_width f) * (if vf_out_fourcc f = V4L2_PIX_FMT_P010 then 2 else 1) \<le> unat (vf_bytesperline f)"
    using round_up_bounds(1) [where a = 64 and x = "unat (vf_width f)"] bpl(1) by (auto simp: sample_bytes_def)
  have prod: "unat (vf_bytesperline f) * unat (vf_height f) \<le> 8192 * 4096" using bpl(2) h(1) by (intro mult_le_mono)
  have off: "unat (ucast (vf_bytesperline f) * ucast (vf_height f) :: u64) = unat (vf_bytesperline f) * unat (vf_height f)"
    using prod by (subst unat_mult_nowrap) simp_all
  have ev: "unat (vf_height f) = 2 * (unat (vf_height f) div 2)" using h(2) by presburger
  have half: "unat (vf_bytesperline f) * unat (vf_height f) * 3 div 2 =
      unat (vf_bytesperline f) * unat (vf_height f) + unat (vf_bytesperline f) * (unat (vf_height f) div 2)"
    by (subst (1 2) ev) (simp add: algebra_simps)
  have up: "unat (vf_height f) div 2 \<le> round_up 64 (unat (vf_height f)) div 2"
    using round_up_bounds(1) [where a = 64 and x = "unat (vf_height f)"] by (intro div_le_mono) simp
  have chroma: "unat (vf_bytesperline f) * unat (vf_height f) + unat (vf_bytesperline f) * (unat (vf_height f) div 2) \<le> plane_size"
  proof -
    have "unat (vf_bytesperline f) * (unat (vf_height f) div 2) \<le> unat (vf_bytesperline f) * (round_up 64 (unat (vf_height f)) div 2)"
      by (intro mult_le_mono2 up)
    moreover have "unat (vf_bytesperline f) * unat (vf_height f) + unat (vf_bytesperline f) * (unat (vf_height f) div 2) \<le> unat (vf_out_size f)
        \<or> unat (vf_bytesperline f) * unat (vf_height f)
          + unat (vf_bytesperline f) * (round_up 64 (unat (vf_height f)) div 2) \<le> unat (vf_out_size f)"
      using n half by (cases "vf_codec f = AVE_SESS_CODEC_HEVC") simp_all
    ultimately show ?thesis using sz by linarith
  qed
  have "unat addr mod 64 = 0" using low_bits_unat [of addr 6] al by simp
  moreover have "unat (vf_bytesperline f) * unat (vf_height f) mod 64 = 0" using b64 by (simp add: mod_mult_left_eq [symmetric])
  moreover have "vf_crop_w f \<le> vf_width f" "unat (vf_width f) < unat (vf_crop_w f) + 16" "vf_crop_h f \<le> vf_height f"
    "unat (vf_height f) < unat (vf_crop_h f) + 16"
    using ok by (simp_all add: fmt_ok_def crop_fits_def)
  moreover have "vf_codec f = AVE_SESS_CODEC_HEVC \<Longrightarrow> unat (vf_bytesperline f) * unat (vf_height f)
      + unat (vf_bytesperline f) * (round_up 64 (unat (vf_height f)) div 2) \<le> plane_size"
    using n sz by simp
  ultimately show ?thesis using stride line off chroma by (simp add: f_def [symmetric] Let_def)
qed

section \<open>Examples\<close>

text \<open>The module's default parameters, and an encoder that is up.\<close>

definition default_params :: start_params_codec where
  "default_params =
     \<lparr>session_skip_mcpu = False, session_reg_dart = 0, session_dsid = 0, session_frames = 1, session_src_mode = 0,
      session_src_cfg = 0, session_src_bit3 = 0, session_src_go = 0, session_multi_me = 0, session_mp_const_qp = -1,
      session_mp_qpmod = -1, session_mp_max_qpmod = -1, session_mp_options = -1, session_dbg = 0, session_ipcm = 0,
      session_lambda = True, session_scaling = 16, session_skipmode = 3, session_qp_min = 10, session_qp_max = 51,
      session_idr_period = 1, session_entropy_size = True, session_coloc = True, session_bframes = False,
      session_macos = 0, session_poc0 = False, session_ref_spacing_p = 0, session_search_range = 0, session_max_mvs = 0,
      session_hevc_xc = 2, session_hevc_refs = 1, session_hevc_sao = True, session_hevc_wpp = True,
      session_hevc_tmvp = True, session_hevc_qpmod = False\<rparr>"

definition default_api :: api_env where
  "default_api =
     \<lparr>ap_sess = example_env\<lparr>en_dma := example_dma\<rparr>,
      ap_start = \<lparr>se_sess = example_params, se_mp = \<lparr>session_mp_pass = 0, session_mp_rec = False\<rparr>, se_par = default_params, se_vz = True\<rparr>,
      ap_kzalloc = True, ap_rx = True, ap_two_refs = -1, ap_two_refs_hang = False, ap_multi_me_auto = True,
      ap_fw_halt = True, ap_banks = True\<rparr>"

definition example_enc :: ave_enc where
  "example_enc =
     \<lparr>ec_st = example_up, ec_bufs = True, ec_rx = True, ec_running = True, ec_powered = True, ec_client_open = False,
      ec_fw_hung = False, ec_pm = AVE_PM_ON, ec_freed = []\<rparr>"

lemma example_enc_abi: "enc_abi example_enc = Some ave_cmd_abi_13_5"
  by (simp add: enc_abi_def example_enc_def example_up_def example_sess_def example_io_def example_device_def
      ave_cmd_abi_get_def fresh_device_def)

definition example_pix :: v4l2_pix where
  "example_pix =
     \<lparr>px_width = 1920, px_height = 1080, px_pixelformat = V4L2_PIX_FMT_P010, px_bytesperline = 0, px_sizeimage = 0,
      px_colorspace = 0, px_ycbcr_enc = 0, px_quantization = 0, px_xfer_func = 0\<rparr>"

text \<open>1920x1080, 10 bit, HEVC with two B frames; the default stream's buffers.\<close>

definition example_ioctls :: "v4l2_ioctl list" where
  "example_ioctls =
     [S_FMT True False False example_pix, S_FMT False False False (example_pix\<lparr>px_pixelformat := V4L2_PIX_FMT_HEVC\<rparr>),
      S_SELECTION True V4L2_SEL_TGT_CROP False 1920 1080, S_CTRL CID_B_FRAMES 2]"

definition example_start :: ave_sess_start where
  "example_start =
     \<lparr>ss_cmd = 0, ss_cmd_iova = 0, ss_cmd_len = 0, ss_cw = 1920, ss_ch = 1088, ss_fwc_size = 0xb4000, ss_fwc_iova = 0x1000000,
      ss_fwcm_iova = 0x1100000, ss_psets_iova = 0x1200000, ss_n = 8\<rparr>"

lemma v4l2_config_accepted_witness:
  "\<exists>c. c = stream_cfg default_api False (negotiated (ave_v4l2_caps default_api example_enc) example_ioctls)
     \<and> cfg_check default_api ave_cmd_abi_13_5 c = None
     \<and> \<not> vp_bad_params start_avc_13_5 (prep_session (ap_sess default_api) (ap_start default_api)
           (st_bufs example_up\<lparr>sb_cfg := cfg_of default_api c\<rparr>) example_start)"
proof -
  define c where "c = stream_cfg default_api False (negotiated (ave_v4l2_caps default_api example_enc) example_ioctls)"
  have s: "client_bufs example_start" by (simp add: client_bufs_def example_start_def)
  have a: "sa_rc_mode_on (ab_start_avc ave_cmd_abi_13_5) \<noteq> AVE_OFF_NONE" "ab_start_avc ave_cmd_abi_13_5 = start_avc_13_5"
    by (simp_all add: start_avc_13_5_fields layout_consts)
  note t = v4l2_config_accepted [OF example_enc_abi c_def]
  have "\<not> vp_bad_params (ab_start_avc ave_cmd_abi_13_5) (prep_session (ap_sess default_api) (ap_start default_api)
      (st_bufs example_up\<lparr>sb_cfg := cfg_of default_api c\<rparr>) example_start)"
    using conjunct2 [OF t, rule_format, of "st_bufs example_up\<lparr>sb_cfg := cfg_of default_api c\<rparr>" example_start] s a(1) by simp
  then show ?thesis using conjunct1 [OF t] a(2) c_def by auto
qed

lemma v4l2_planes_inside_witness:
  "let f = vc_fmt (negotiated (ave_v4l2_caps default_api example_enc) []); bpl = unat (vf_bytesperline f); h = unat (vf_height f); off = bpl * h
   in off + bpl * (h div 2) \<le> 0x151800 \<and> unat (vf_crop_h f) \<le> unat (vf_height f)"
proof -
  let ?c = "negotiated (ave_v4l2_caps default_api example_enc) []"
  have "vf_out_size (vc_fmt ?c) = 0x151800"
    by (simp add: negotiated_def open_ctx_def open_fmt_def ave_out_size_def ALIGN_def AVE_DEF_W_def AVE_DEF_H_def
        AVE_SESS_CODEC_AVC_def AVE_SESS_CODEC_HEVC_def)
  then have "ave_buf_prepare True 0x151800 0x10000 ?c = None" by (simp add: ave_buf_prepare_def)
  from v4l2_planes_inside [OF refl this] show ?thesis by (simp add: Let_def word_le_nat_alt)
qed

end
