(* ===== verification/Ave_V4l2_Job.thy ===== *)
theory Ave_V4l2_Job
  imports Ave_V4l2_Ctx
begin

text \<open>
  \<^verbatim>\<open>src/driver/ave_v4l2.c\<close>, second part: a stream from STREAMON to STREAMOFF. What the next job
  would do, the job of one frame, the job of B frames, starting and ending the session, and the end
  of a stream at a system suspend.

  The queues are those of the V4L2 mem2mem core: \<open>mq_src\<close> (OUTPUT) and \<open>mq_dst\<close> (CAPTURE) are the
  ready buffers, oldest first, \<open>mq_src_done\<close> and \<open>mq_dst_done\<close> what went back to the client, in
  order. A buffer is named by \<open>vb_id\<close>; \<open>vb_meta\<close> stands for what
  \<open>v4l2_m2m_buf_copy_metadata\<close> copies. While the firmware encodes, the client may queue buffers and
  send STOP (\<open>q_act\<close>). A NULL buffer or an index outside an array is \<open>Fault\<close>.
\<close>

section \<open>Buffers and queues\<close>

definition V4L2_BUF_FLAG_KEYFRAME :: u32 where "V4L2_BUF_FLAG_KEYFRAME = 0x8"
definition V4L2_BUF_FLAG_PFRAME :: u32 where "V4L2_BUF_FLAG_PFRAME = 0x10"
definition V4L2_BUF_FLAG_BFRAME :: u32 where "V4L2_BUF_FLAG_BFRAME = 0x20"
definition V4L2_BUF_FLAG_LAST :: u32 where "V4L2_BUF_FLAG_LAST = 0x100000"

datatype vb2_buffer_state = VB2_BUF_STATE_DONE | VB2_BUF_STATE_ERROR | VB2_BUF_STATE_QUEUED

record v4l2_buf =
  vb_id :: nat
  vb_addr :: u64
  vb_size :: nat
  vb_sequence :: u32
  vb_meta :: nat
  vb_data :: "u8 list"
  vb_flags :: u32

record m2m_q =
  mq_src :: "v4l2_buf list"
  mq_dst :: "v4l2_buf list"
  mq_src_done :: "(v4l2_buf \<times> vb2_buffer_state) list"
  mq_dst_done :: "(v4l2_buf \<times> vb2_buffer_state) list"
  mq_draining :: bool
  mq_last :: "nat option"       \<comment> \<open>\<open>last_src_buf\<close>\<close>
  mq_stopped :: bool
  mq_error :: bool
  mq_eos :: nat

definition is_last_draining :: "m2m_q \<Rightarrow> v4l2_buf \<Rightarrow> bool" where
  "is_last_draining q b \<longleftrightarrow> mq_draining q \<and> mq_last q = Some (vb_id b)"

definition without_buf :: "nat \<Rightarrow> v4l2_buf list \<Rightarrow> v4l2_buf list" where
  "without_buf i bs = filter (\<lambda>b. vb_id b \<noteq> i) bs"

definition src_done :: "v4l2_buf \<Rightarrow> vb2_buffer_state \<Rightarrow> m2m_q \<Rightarrow> m2m_q" where
  "src_done b st q = q\<lparr>mq_src := without_buf (vb_id b) (mq_src q), mq_src_done := mq_src_done q @ [(b, st)]\<rparr>"

definition dst_done :: "v4l2_buf \<Rightarrow> vb2_buffer_state \<Rightarrow> m2m_q \<Rightarrow> m2m_q" where
  "dst_done b st q = q\<lparr>mq_dst := without_buf (vb_id b) (mq_dst q), mq_dst_done := mq_dst_done q @ [(b, st)]\<rparr>"

text \<open>\<open>v4l2_m2m_mark_stopped\<close>, with the event of the end of stream.\<close>

definition mark_stopped :: "m2m_q \<Rightarrow> m2m_q" where
  "mark_stopped q = q\<lparr>mq_draining := False, mq_stopped := True, mq_eos := mq_eos q + 1\<rparr>"

text \<open>What the client does meanwhile. STOP names the newest source as the last; with none left, the
  first CAPTURE buffer carries LAST.\<close>

datatype q_act = QSrc v4l2_buf | QDst v4l2_buf | QStop

fun q_step :: "q_act \<Rightarrow> m2m_q \<Rightarrow> m2m_q" where
  "q_step (QSrc b) q = q\<lparr>mq_src := mq_src q @ [b]\<rparr>"
| "q_step (QDst b) q = q\<lparr>mq_dst := mq_dst q @ [b]\<rparr>"
| "q_step QStop q =
     (if mq_draining q \<or> mq_stopped q then q
      else if mq_src q \<noteq> [] then q\<lparr>mq_draining := True, mq_last := Some (vb_id (last (mq_src q)))\<rparr>
      else case mq_dst q of
             [] \<Rightarrow> q\<lparr>mq_draining := True, mq_last := None\<rparr>
           | d # ds \<Rightarrow> q\<lparr>mq_dst := ds, mq_dst_done := mq_dst_done q @ [(d\<lparr>vb_flags := vb_flags d OR V4L2_BUF_FLAG_LAST\<rparr>, VB2_BUF_STATE_DONE)],
                         mq_stopped := True, mq_last := None\<rparr>)"

definition q_run :: "q_act list \<Rightarrow> m2m_q \<Rightarrow> m2m_q" where "q_run as q = fold q_step as q"

definition ave_nth_buf :: "v4l2_buf list \<Rightarrow> nat \<Rightarrow> v4l2_buf option" where
  "ave_nth_buf q n = (if n < length q then Some (q ! n) else None)"

section \<open>The next job\<close>

record v4l2_run =
  vr_ctx :: ave_ctx
  vr_enc :: ave_enc
  vr_q :: m2m_q
  vr_owner :: "nat option"

type_synonym 'a vrun = "v4l2_run \<Rightarrow> 'a cres \<times> v4l2_run"

definition vr_stream :: "(ave_ctx_stream \<Rightarrow> ave_ctx_stream) \<Rightarrow> v4l2_run \<Rightarrow> v4l2_run" where
  "vr_stream f v = v\<lparr>vr_ctx := (vr_ctx v)\<lparr>vc_stream := f (vc_stream (vr_ctx v))\<rparr>\<rparr>"

definition vr_force :: "bool \<Rightarrow> v4l2_run \<Rightarrow> v4l2_run" where
  "vr_force k v = v\<lparr>vr_ctx := (vr_ctx v)\<lparr>vc_ctrls := (vc_ctrls (vr_ctx v))\<lparr>vk_force_key := k\<rparr>\<rparr>\<rparr>"

text \<open>The decision, and the sources it is about. \<open>key_every\<close> is the test parameter.\<close>

definition ave_b_next :: "u32 \<Rightarrow> v4l2_run \<Rightarrow> ave_gop_act \<times> v4l2_buf option list" where
  "ave_b_next key_every v =
     (let c = vr_ctx v; s = vc_stream c; g = vs_plan s; q = vr_q v; h = unat (g_n_held g)
      in if h \<ge> AVE_GOP_BATCH_MAX then (GOP_NONE, [])
         else let src = map (ave_nth_buf (mq_src q)) [0..<Suc h]
              in if h \<noteq> 0 \<and> src ! (h - 1) = None then (GOP_NONE, src)
                 else case src ! h of
                        None \<Rightarrow> (ave_gop_decide g False False (h \<noteq> 0 \<and> is_last_draining q (the (src ! (h - 1)))), src)
                      | Some new \<Rightarrow>
                          (ave_gop_decide g True
                             (vk_force_key (vc_ctrls c) \<or> key_every \<noteq> 0 \<and> vs_frame_n s \<noteq> 0 \<and> vs_frame_n s mod key_every = 0)
                             (is_last_draining q new), src))"

definition enough_dst :: "v4l2_run \<Rightarrow> ave_gop_act \<Rightarrow> bool" where
  "enough_dst v a \<longleftrightarrow> unat (max (ave_gop_need (vs_plan (vc_stream (vr_ctx v))) a) 1) \<le> length (mq_dst (vr_q v))"

definition ave_job_ready :: "u32 \<Rightarrow> v4l2_run \<Rightarrow> bool" where
  "ave_job_ready key_every v =
     (let s = vc_stream (vr_ctx v)
      in if vs_nb s = 0 \<or> \<not> vs_session s then True
         else case ave_b_next key_every v of (a, _) \<Rightarrow> a \<noteq> GOP_NONE \<and> enough_dst v a)"

section \<open>A batch\<close>

text \<open>What happens while the firmware has it.\<close>

record job_env =
  je_batch :: batch_env
  je_acts :: "q_act list"

definition b_sources :: "v4l2_buf option list \<Rightarrow> ave_gop_batch \<Rightarrow> v4l2_buf list cres" where
  "b_sources src b =
     (if list_all (\<lambda>f. unat (f_src f) < length src \<and> src ! unat (f_src f) \<noteq> None) b
      then Ok (map (\<lambda>f. the (src ! unat (f_src f))) b) else Fault)"

definition b_targets :: "m2m_q \<Rightarrow> nat \<Rightarrow> v4l2_buf list cres" where
  "b_targets q n = (if n \<le> AVE_GOP_BATCH_MAX \<and> n \<le> length (mq_dst q) then Ok (take n (mq_dst q)) else Fault)"

definition b_frame :: "ave_ctx_fmt \<Rightarrow> ave_gop_frame \<Rightarrow> v4l2_buf \<Rightarrow> enc_frame" where
  "b_frame c f s =
     \<lparr>ef_fn = f_fn f, ef_type = f_type f, ef_luma = vb_addr s,
      ef_chroma = vb_addr s + ucast (vf_bytesperline c) * ucast (vf_height c), ef_stride = vf_bytesperline c\<rparr>"

text \<open>The source of CAPTURE buffer \<open>k\<close>: of the \<open>k\<close>-th completion, else the first not coded yet.\<close>

definition pick_source :: "(u8 list \<times> nat \<times> u32) list \<Rightarrow> bool list \<Rightarrow> nat \<Rightarrow> nat" where
  "pick_source outs coded k =
     (if k < length outs then fst (snd (outs ! k))
      else case find (\<lambda>i. \<not> coded ! i) [0..<length coded - 1] of Some i \<Rightarrow> i | None \<Rightarrow> length coded - 1)"

definition frame_flag :: "u32 \<Rightarrow> u32" where
  "frame_flag t = (if t = AVE_GOP_IDR then V4L2_BUF_FLAG_KEYFRAME else if t = AVE_GOP_B then V4L2_BUF_FLAG_BFRAME else V4L2_BUF_FLAG_PFRAME)"

definition frame_flags :: u32 where
  "frame_flags = V4L2_BUF_FLAG_KEYFRAME OR V4L2_BUF_FLAG_PFRAME OR V4L2_BUF_FLAG_BFRAME"

definition capture_of :: "v4l2_buf \<Rightarrow> v4l2_buf \<Rightarrow> u32 \<Rightarrow> (u8 list \<times> nat \<times> u32) option \<Rightarrow> v4l2_buf" where
  "capture_of d s sq out =
     d\<lparr>vb_sequence := sq, vb_meta := vb_meta s, vb_data := (case out of None \<Rightarrow> [] | Some (bs, _) \<Rightarrow> bs),
       vb_flags := (vb_flags d AND NOT frame_flags) OR (case out of None \<Rightarrow> 0 | Some (_, _, t) \<Rightarrow> frame_flag t)\<rparr>"

text \<open>CAPTURE in completion order: \<open>k\<close> buffers are done; the last of a drain carries LAST.\<close>

fun b_capture ::
  "v4l2_buf list \<Rightarrow> (u8 list \<times> nat \<times> u32) list \<Rightarrow> bool \<Rightarrow> v4l2_buf list \<Rightarrow> nat \<Rightarrow> bool list \<Rightarrow> unit vrun" where
  "b_capture ss outs is_last [] k coded v = (Ok (), v)"
| "b_capture ss outs is_last (d # ds) k coded v =
     (let i = pick_source outs coded k
      in if i \<ge> length ss \<or> i \<ge> length coded then (Fault, v)
         else let ok = k < length outs;
                  d = capture_of d (ss ! i) (vs_cap_seq (vc_stream (vr_ctx v))) (if ok then Some (outs ! k) else None);
                  v = vr_stream (\<lambda>s. s\<lparr>vs_cap_seq := vs_cap_seq s + 1\<rparr>) v;
                  fin = (is_last \<and> ds = []);
                  d = (if fin then d\<lparr>vb_flags := vb_flags d OR V4L2_BUF_FLAG_LAST\<rparr> else d);
                  q = (if fin then mark_stopped (vr_q v) else vr_q v)
              in b_capture ss outs is_last ds (Suc k) (coded[i := True])
                   (v\<lparr>vr_q := dst_done d (if ok then VB2_BUF_STATE_DONE else VB2_BUF_STATE_ERROR) q\<rparr>))"

fun b_release :: "(u8 list \<times> nat \<times> u32) list \<Rightarrow> v4l2_buf list \<Rightarrow> nat \<Rightarrow> m2m_q \<Rightarrow> m2m_q" where
  "b_release outs [] i q = q"
| "b_release outs (s # ss) i q =
     b_release outs ss (Suc i)
       (src_done s (if \<exists>x \<in> set outs. fst (snd x) = i then VB2_BUF_STATE_DONE else VB2_BUF_STATE_ERROR) q)"

definition ave_b_batch :: "api_env \<Rightarrow> job_env \<Rightarrow> v4l2_buf option list \<Rightarrow> ave_gop_batch \<Rightarrow> unit vrun" where
  "ave_b_batch ap je src b v =
     (case (b_sources src b, b_targets (vr_q v) (length b)) of
        (Ok ss, Ok ds) \<Rightarrow>
          let c = vr_ctx v;
              frs = map2 (b_frame (vc_fmt c)) b ss;
              ((r, outs), e) = (if vs_session (vc_stream c)
                                then ave_enc_encode_batch ap (je_batch je) frs (map vb_size ds) (vr_enc v)
                                else ((Err EIO, []), vr_enc v));
              v = v\<lparr>vr_enc := e, vr_q := q_run (je_acts je) (vr_q v)\<rparr>
          in if r = Fault then (Fault, v)
             else let is_last = list_ex (is_last_draining (vr_q v)) ss;
                      bad = (r \<noteq> Ok () \<and> (ec_fw_hung e \<or> vs_pm_lost (vc_stream c)));
                      v = (if bad then v\<lparr>vr_q := (vr_q v)\<lparr>mq_error := True\<rparr>\<rparr> else v)
                  in (case b_capture ss outs is_last ds 0 (replicate (length b) False) v of
                        (Ok _, v) \<Rightarrow> (Ok (), v\<lparr>vr_q := b_release outs ss 0 (vr_q v)\<rparr>)
                      | x \<Rightarrow> x)
      | _ \<Rightarrow> (Fault, v))"

section \<open>The jobs\<close>

text \<open>The \<open>n\<close>-th source gets its number, and keeps it in the queue.\<close>

definition number_source :: "nat \<Rightarrow> v4l2_buf option list \<Rightarrow> v4l2_run \<Rightarrow> v4l2_buf option list \<times> v4l2_run" where
  "number_source n src v =
     (let sq = vs_out_seq (vc_stream (vr_ctx v)); q = vr_q v
      in (src[n := map_option (\<lambda>b. b\<lparr>vb_sequence := sq\<rparr>) (src ! n)],
          (vr_stream (\<lambda>s. s\<lparr>vs_out_seq := vs_out_seq s + 1, vs_frame_n := vs_frame_n s + 1\<rparr>) v)
            \<lparr>vr_q := q\<lparr>mq_src := (mq_src q)[n := (mq_src q ! n)\<lparr>vb_sequence := sq\<rparr>]\<rparr>\<rparr>))"

text \<open>\<open>je k\<close> is what happens during batch \<open>k\<close>.\<close>

fun b_batches :: "api_env \<Rightarrow> (nat \<Rightarrow> job_env) \<Rightarrow> nat \<Rightarrow> v4l2_buf option list \<Rightarrow> ave_gop_batch list \<Rightarrow> unit vrun" where
  "b_batches ap je k src [] v = (Ok (), v)"
| "b_batches ap je k src (b # bs) v =
     (case ave_b_batch ap (je k) src b v of (Ok _, v) \<Rightarrow> b_batches ap je (Suc k) src bs v | x \<Rightarrow> x)"

definition ave_run_work_b :: "api_env \<Rightarrow> u32 \<Rightarrow> (nat \<Rightarrow> job_env) \<Rightarrow> unit vrun" where
  "ave_run_work_b ap key_every je v =
     (case ave_b_next key_every v of
        (a, src) \<Rightarrow>
          if a = GOP_NONE \<or> \<not> enough_dst v a then (Ok (), v)
          else let h = unat (g_n_held (vs_plan (vc_stream (vr_ctx v))))
               in if a \<noteq> GOP_CLOSE \<and> src ! h = None then (Fault, v)
                  else let (src, v) = (if a \<noteq> GOP_CLOSE then number_source h src v else (src, v));
                           v = (if a = GOP_KEY then vr_force False v else v);
                           (g, bs) = ave_gop_commit (vs_plan (vc_stream (vr_ctx v))) a
                       in b_batches ap je 0 src bs (vr_stream (\<lambda>s. s\<lparr>vs_plan := g\<rparr>) v))"

record frame_env =
  fe_dart :: "errno option"
  fe_cmd :: cmd_env
  fe_acts :: "q_act list"

definition one_frame :: "api_env \<Rightarrow> frame_env \<Rightarrow> unit vrun" where
  "one_frame ap fe v =
     (case (mq_src (vr_q v), mq_dst (vr_q v)) of
        (s # _, d # _) \<Rightarrow>
          let c = vr_ctx v; st = vc_stream c; f = vc_fmt c; k = vc_ctrls c;
              idr = (vs_frame_n st = 0 \<or> vk_force_key k \<or> vk_gop k \<noteq> 0 \<and> vs_frame_n st mod vk_gop k = 0);
              (r, e) = (if vs_session st
                        then ave_enc_encode ap (fe_dart fe) (fe_cmd fe) (vs_frame_n st) idr (vb_addr s)
                               (vb_addr s + ucast (vf_bytesperline f) * ucast (vf_height f)) (vf_bytesperline f) (vb_size d) (vr_enc v)
                        else (Err EIO, vr_enc v));
              v = v\<lparr>vr_enc := e, vr_q := q_run (fe_acts fe) (vr_q v)\<rparr>
          in (case r of
                Fault \<Rightarrow> (Fault, v)
              | _ \<Rightarrow>
                  let ok = (\<exists>x. r = Ok x); out = (case r of Ok x \<Rightarrow> x | _ \<Rightarrow> ([], False));
                      v = (if ok then vr_stream (\<lambda>s. s\<lparr>vs_frame_n := vs_frame_n s + 1\<rparr>) (vr_force False v)
                           else if ec_fw_hung e \<or> vs_pm_lost st then v\<lparr>vr_q := (vr_q v)\<lparr>mq_error := True\<rparr>\<rparr> else v);
                      fin = is_last_draining (vr_q v) s;
                      s = s\<lparr>vb_sequence := vs_out_seq st\<rparr>;
                      flags = (vb_flags d AND NOT (V4L2_BUF_FLAG_KEYFRAME OR V4L2_BUF_FLAG_PFRAME))
                                OR (if snd out then V4L2_BUF_FLAG_KEYFRAME else V4L2_BUF_FLAG_PFRAME);
                      d = d\<lparr>vb_sequence := vs_cap_seq st, vb_meta := vb_meta s, vb_data := fst out,
                            vb_flags := flags OR (if fin then V4L2_BUF_FLAG_LAST else 0)\<rparr>;
                      v = vr_stream (\<lambda>s. s\<lparr>vs_out_seq := vs_out_seq s + 1, vs_cap_seq := vs_cap_seq s + 1\<rparr>) v;
                      q = (if fin then mark_stopped (vr_q v) else vr_q v);
                      state = (if ok then VB2_BUF_STATE_DONE else VB2_BUF_STATE_ERROR)
                  in (Ok (), v\<lparr>vr_q := dst_done d state (src_done s state q)\<rparr>))
      | _ \<Rightarrow> (Ok (), v))"

definition ave_run_work :: "api_env \<Rightarrow> u32 \<Rightarrow> (nat \<Rightarrow> job_env) \<Rightarrow> frame_env \<Rightarrow> unit vrun" where
  "ave_run_work ap key_every je fe v =
     (let s = vc_stream (vr_ctx v)
      in if vs_nb s \<noteq> 0 \<and> vs_session s then ave_run_work_b ap key_every je v else one_frame ap fe v)"

section \<open>Start and end of a session\<close>

definition ave_return_bufs :: "bool \<Rightarrow> vb2_buffer_state \<Rightarrow> m2m_q \<Rightarrow> m2m_q" where
  "ave_return_bufs output st q =
     (if output then q\<lparr>mq_src := [], mq_src_done := mq_src_done q @ map (\<lambda>b. (b, st)) (mq_src q)\<rparr>
      else q\<lparr>mq_dst := [], mq_dst_done := mq_dst_done q @ map (\<lambda>b. (b, st)) (mq_dst q)\<rparr>)"

text \<open>\<open>m2m\<close> is what the core does to its state when a queue starts or stops; \<open>me\<close> names the file.\<close>

definition ave_start_streaming ::
  "api_env \<Rightarrow> stream_env \<Rightarrow> bool \<Rightarrow> nat \<Rightarrow> (bool \<Rightarrow> m2m_q \<Rightarrow> m2m_q) \<Rightarrow> bool \<Rightarrow> bool \<Rightarrow> unit vrun" where
  "ave_start_streaming ap sv nondrop me m2m output other_streaming v =
     (let v = v\<lparr>vr_q := m2m output (vr_q v)\<rparr>;
          v = vr_stream (\<lambda>s. if output then s\<lparr>vs_out_seq := 0\<rparr> else s\<lparr>vs_cap_seq := 0\<rparr>) v;
          c = vr_ctx v; back = (\<lambda>v. v\<lparr>vr_q := ave_return_bufs output VB2_BUF_STATE_QUEUED (vr_q v)\<rparr>)
      in if \<not> other_streaming \<or> vs_session (vc_stream c) then (Ok (), v)
         else if vf_codec (vc_fmt c) \<noteq> AVE_SESS_CODEC_HEVC \<and> vf_out_fourcc (vc_fmt c) = V4L2_PIX_FMT_P010
         then (Err EINVAL, back v)
         else if vr_owner v \<noteq> None \<and> vr_owner v \<noteq> Some me then (Err EBUSY, back v)
         else let nb = ave_latch_bframes ap c
              in case ave_enc_start ap sv (stream_cfg ap nondrop c) (vr_enc v) of
                   (Ok _, e) \<Rightarrow>
                     (Ok (), (vr_stream (\<lambda>s. s\<lparr>vs_session := True, vs_pm_lost := False, vs_frame_n := 0, vs_nb := nb,
                                               vs_plan := ave_gop_init nb (vk_gop (vc_ctrls c))\<rparr>) v)
                               \<lparr>vr_enc := e, vr_owner := Some me\<rparr>)
                 | (Err x, e) \<Rightarrow> (Err x, back (v\<lparr>vr_enc := e\<rparr>))
                 | (Fault, e) \<Rightarrow> (Fault, v\<lparr>vr_enc := e\<rparr>))"

definition ave_end_session :: "api_env \<Rightarrow> stream_env \<Rightarrow> nat \<Rightarrow> unit vrun" where
  "ave_end_session ap sv me v =
     (if \<not> vs_session (vc_stream (vr_ctx v)) then (Ok (), v)
      else case ave_enc_stop ap (sv_stop sv) (sv_close sv) (vr_enc v) of
             (Fault, e) \<Rightarrow> (Fault, v\<lparr>vr_enc := e\<rparr>)
           | (_, e) \<Rightarrow> (Ok (), (vr_stream (\<lambda>s. s\<lparr>vs_session := False\<rparr>) v)
                                \<lparr>vr_enc := e, vr_owner := (if vr_owner v = Some me then None else vr_owner v)\<rparr>))"

definition ave_stop_streaming :: "api_env \<Rightarrow> stream_env \<Rightarrow> nat \<Rightarrow> (bool \<Rightarrow> m2m_q \<Rightarrow> m2m_q) \<Rightarrow> bool \<Rightarrow> unit vrun" where
  "ave_stop_streaming ap sv me m2m output v =
     (case ave_end_session ap sv me v of
        (Ok _, v) \<Rightarrow>
          let q = m2m output (ave_return_bufs output VB2_BUF_STATE_ERROR (vr_q v))
          in (Ok (), v\<lparr>vr_q := (if output \<and> mq_stopped q then q\<lparr>mq_eos := mq_eos q + 1\<rparr> else q)\<rparr>)
      | x \<Rightarrow> x)"

text \<open>The owner's context is \<open>vr_ctx\<close>; without an owner there is nothing to end.\<close>

definition ave_v4l2_pm_quiesce :: "api_env \<Rightarrow> stream_env \<Rightarrow> unit vrun" where
  "ave_v4l2_pm_quiesce ap sv v =
     (if vr_owner v = None then (Ok (), v)
      else case ave_enc_stop ap (sv_stop sv) (sv_close sv) (vr_enc v) of
             (Fault, e) \<Rightarrow> (Fault, v\<lparr>vr_enc := e\<rparr>)
           | (_, e) \<Rightarrow> (Ok (), (vr_stream (\<lambda>s. s\<lparr>vs_session := False, vs_pm_lost := True\<rparr>) v)
                                \<lparr>vr_enc := e, vr_owner := None, vr_q := (vr_q v)\<lparr>mq_error := True\<rparr>\<rparr>))"

end
