(* ===== verification/Ave_V4l2_Safe.thy ===== *)
theory Ave_V4l2_Safe
  imports Ave_V4l2_Job Ave_V4l2_Config Ave_Sess_Deliver
begin

text \<open>
  The job of B frames: it never follows a missing buffer, and gives the buffers of both queues back
  in the order in which they were queued.
\<close>

section \<open>What the client adds meanwhile\<close>

definition srcs_of :: "q_act list \<Rightarrow> v4l2_buf list" where
  "srcs_of as = concat (map (\<lambda>a. case a of QSrc b \<Rightarrow> [b] | _ \<Rightarrow> []) as)"

definition dsts_of :: "q_act list \<Rightarrow> v4l2_buf list" where
  "dsts_of as = concat (map (\<lambda>a. case a of QDst b \<Rightarrow> [b] | _ \<Rightarrow> []) as)"

lemma q_run_adds:
  assumes "mq_src q \<noteq> []"
  shows "mq_src (q_run as q) = mq_src q @ srcs_of as" "mq_dst (q_run as q) = mq_dst q @ dsts_of as"
    "mq_src_done (q_run as q) = mq_src_done q" "mq_dst_done (q_run as q) = mq_dst_done q"
proof -
  have "mq_src (q_run as q) = mq_src q @ srcs_of as \<and> mq_dst (q_run as q) = mq_dst q @ dsts_of as
      \<and> mq_src_done (q_run as q) = mq_src_done q \<and> mq_dst_done (q_run as q) = mq_dst_done q"
    using assms
  proof (induction as arbitrary: q)
    case (Cons a as)
    have "mq_src (q_step a q) \<noteq> []" using Cons.prems by (cases a) auto
    then show ?case using Cons by (cases a) (auto simp: q_run_def srcs_of_def dsts_of_def)
  qed (simp add: q_run_def srcs_of_def dsts_of_def)
  then show "mq_src (q_run as q) = mq_src q @ srcs_of as" "mq_dst (q_run as q) = mq_dst q @ dsts_of as"
    "mq_src_done (q_run as q) = mq_src_done q" "mq_dst_done (q_run as q) = mq_dst_done q" by auto
qed

section \<open>Handing a batch back\<close>

text \<open>What handing back leaves of the run.\<close>

definition run_kept :: "v4l2_run \<Rightarrow> v4l2_run \<Rightarrow> bool" where
  "run_kept v v' \<longleftrightarrow> vr_enc v' = vr_enc v \<and> vr_owner v' = vr_owner v \<and> vc_fmt (vr_ctx v') = vc_fmt (vr_ctx v)
     \<and> vs_plan (vc_stream (vr_ctx v')) = vs_plan (vc_stream (vr_ctx v))
     \<and> vs_session (vc_stream (vr_ctx v')) = vs_session (vc_stream (vr_ctx v))
     \<and> vs_nb (vc_stream (vr_ctx v')) = vs_nb (vc_stream (vr_ctx v))"

lemma run_kept_refl: "run_kept v v"
  by (simp add: run_kept_def)

lemma run_kept_trans: "run_kept u v \<Longrightarrow> run_kept v w \<Longrightarrow> run_kept u w"
  by (simp add: run_kept_def)

abbreviation idxs :: "(u8 list \<times> nat \<times> u32) list \<Rightarrow> nat list" where
  "idxs outs \<equiv> map (\<lambda>x. fst (snd x)) outs"

lemma pick_source_fresh:
  assumes "length coded = n" "card {i. i < n \<and> coded ! i} = k" "k < n"
    and "distinct (idxs outs)" "\<forall>x \<in> set outs. fst (snd x) < n" "k < length outs \<longrightarrow> {i. i < n \<and> coded ! i} = set (take k (idxs outs))"
  shows "pick_source outs coded k < n" "\<not> coded ! pick_source outs coded k"
proof -
  have "pick_source outs coded k < n \<and> \<not> coded ! pick_source outs coded k"
  proof (cases "k < length outs")
    case True
    then have p: "pick_source outs coded k = idxs outs ! k" by (simp add: pick_source_def)
    have l: "idxs outs ! k < n" using True assms(5) by simp
    have "idxs outs ! k \<notin> set (take k (idxs outs))"
      using distinct_take [OF assms(4), of "Suc k"] True by (simp add: take_Suc_conv_app_nth)
    then show ?thesis using assms(6) True l p by auto
  next
    case False
    show ?thesis
    proof (cases "find (\<lambda>i. \<not> coded ! i) [0..<n - 1]")
      case None
      then have all: "\<forall>i < n - 1. coded ! i" by (auto simp: find_None_iff)
      have "\<not> coded ! (n - 1)"
      proof
        assume "coded ! (n - 1)"
        then have "coded ! i" if "i < n" for i using all that by (cases "i = n - 1") auto
        then have "{i. i < n \<and> coded ! i} = {..<n}" by auto
        then show False using assms(2,3) by simp
      qed
      then show ?thesis using False None assms(1,3) by (simp add: pick_source_def)
    next
      case (Some i)
      then have "i < n - 1" "\<not> coded ! i" by (auto simp: find_Some_iff)
      then show ?thesis using False Some assms(1) by (simp add: pick_source_def)
    qed
  qed
  then show "pick_source outs coded k < n" "\<not> coded ! pick_source outs coded k" by auto
qed

lemma mark_coded:
  assumes "length coded = n" "i < n" "\<not> coded ! i"
  shows "{j. j < n \<and> coded[i := True] ! j} = insert i {j. j < n \<and> coded ! j}"
    "card {j. j < n \<and> coded[i := True] ! j} = Suc (card {j. j < n \<and> coded ! j})"
    "{j. j < n \<and> \<not> coded ! j} = insert i {j. j < n \<and> \<not> coded[i := True] ! j}"
proof -
  have n: "coded[i := True] ! j = (j = i \<or> coded ! j)" if "j < n" for j
    using that assms(1,2) by (cases "j = i") simp_all
  show e: "{j. j < n \<and> coded[i := True] ! j} = insert i {j. j < n \<and> coded ! j}" using n assms(2) by blast
  show "{j. j < n \<and> \<not> coded ! j} = insert i {j. j < n \<and> \<not> coded[i := True] ! j}" using n assms(2,3) by blast
  show "card {j. j < n \<and> coded[i := True] ! j} = Suc (card {j. j < n \<and> coded ! j})"
    unfolding e using assms(3) by (subst card_insert_disjoint) simp_all
qed

text \<open>The part of \<open>b_capture\<close> that hands over the buffers \<open>ds\<close> for the sources \<open>is\<close>.\<close>

definition frame_state :: "(u8 list \<times> nat \<times> u32) list \<Rightarrow> nat \<Rightarrow> vb2_buffer_state" where
  "frame_state outs i = (if i \<in> set (idxs outs) then VB2_BUF_STATE_DONE else VB2_BUF_STATE_ERROR)"

definition shown :: "v4l2_buf \<times> vb2_buffer_state \<Rightarrow> nat \<times> vb2_buffer_state" where
  "shown x = (vb_meta (fst x), snd x)"

definition handed :: "v4l2_buf list \<Rightarrow> (u8 list \<times> nat \<times> u32) list \<Rightarrow> v4l2_buf list \<Rightarrow> nat list \<Rightarrow>
    (v4l2_buf \<times> vb2_buffer_state) list \<Rightarrow> bool" where
  "handed ss outs ds is new \<longleftrightarrow>
     map (vb_id \<circ> fst) new = map vb_id ds \<and> map shown new = map (\<lambda>i. (vb_meta (ss ! i), frame_state outs i)) is"

lemma handed_Cons:
  assumes "vb_id d2 = vb_id d" "vb_meta d2 = vb_meta (ss ! i)" "handed ss outs ds js new" "st = frame_state outs i"
  shows "handed ss outs (d # ds) (i # js) ((d2, st) # new)"
  using assms by (simp add: handed_def shown_def)

lemma capture_run:
  assumes "length coded = n" "card {i. i < n \<and> coded ! i} = k" "k + length ds = n" "length ss = n"
    and "distinct (idxs outs)" "\<forall>x \<in> set outs. fst (snd x) < n" "k \<le> length outs \<longrightarrow> {i. i < n \<and> coded ! i} = set (take k (idxs outs))"
    "set (take k (idxs outs)) \<subseteq> {i. i < n \<and> coded ! i}"
  shows "\<exists>v' is new. b_capture ss outs is_last ds k coded v = (Ok (), v') \<and> run_kept v v'
    \<and> distinct is \<and> set is = {i. i < n \<and> \<not> coded ! i} \<and> handed ss outs ds is new
    \<and> mq_dst_done (vr_q v') = mq_dst_done (vr_q v) @ new
    \<and> mq_dst (vr_q v') = filter (\<lambda>b. vb_id b \<notin> vb_id ` set ds) (mq_dst (vr_q v))
    \<and> mq_src (vr_q v') = mq_src (vr_q v) \<and> mq_src_done (vr_q v') = mq_src_done (vr_q v)"
  using assms
proof (induction ds arbitrary: k coded v)
  case Nil
  have "{i. i < n \<and> coded ! i} = {..<n}" using Nil.prems(2,3) by (intro card_subset_eq) auto
  then have "{i. i < n \<and> \<not> coded ! i} = {}" by auto
  then show ?case by (intro exI [of _ v] exI [of _ "[]"]) (simp add: run_kept_refl handed_def)
next
  case (Cons d ds)
  let ?i = "pick_source outs coded k" and ?C = "{i. i < n \<and> coded ! i}"
  have kn: "k < n" using Cons.prems(3) by simp
  note p = pick_source_fresh [OF Cons.prems(1,2) kn Cons.prems(5,6)]
  have pk: "?i < n" "\<not> coded ! ?i" using p Cons.prems(7) by auto
  define coded' where "coded' = coded[?i := True]"
  note mark = mark_coded [OF Cons.prems(1) pk, folded coded'_def]
  have c: "card {j. j < n \<and> coded' ! j} = Suc k" using mark(2) Cons.prems(2) by simp
  have t: "Suc k \<le> length outs \<longrightarrow> {j. j < n \<and> coded' ! j} = set (take (Suc k) (idxs outs))"
  proof
    assume l: "Suc k \<le> length outs"
    then have "?i = idxs outs ! k" by (simp add: pick_source_def)
    then show "{j. j < n \<and> coded' ! j} = set (take (Suc k) (idxs outs))"
      unfolding mark(1) using l Cons.prems(7) by (simp add: take_Suc_conv_app_nth)
  qed
  have t2: "set (take (Suc k) (idxs outs)) \<subseteq> {j. j < n \<and> coded' ! j}"
  proof (cases "Suc k \<le> length outs")
    case False
    then have "take (Suc k) (idxs outs) = take k (idxs outs)" by simp
    then show ?thesis unfolding mark(1) using Cons.prems(8) by auto
  qed (use t in blast)
  define ok where "ok = (k < length outs)"
  have sti: "(if ok then VB2_BUF_STATE_DONE else VB2_BUF_STATE_ERROR) = frame_state outs ?i"
  proof (cases "k < length outs")
    case True
    then have "?i = idxs outs ! k" by (simp add: pick_source_def)
    then have "?i \<in> set (idxs outs)" using True by simp
    then show ?thesis using True by (simp add: ok_def frame_state_def)
  next
    case False
    then have "set (idxs outs) \<subseteq> {j. j < n \<and> coded ! j}" using Cons.prems(8) by simp
    then have "?i \<notin> set (idxs outs)" using pk by blast
    then show ?thesis using False by (simp add: ok_def frame_state_def)
  qed
  define d1 where "d1 = capture_of d (ss ! ?i) (vs_cap_seq (vc_stream (vr_ctx v))) (if ok then Some (outs ! k) else None)"
  define v1 where "v1 = vr_stream (\<lambda>s. s\<lparr>vs_cap_seq := vs_cap_seq s + 1\<rparr>) v"
  define fin where "fin = (is_last \<and> ds = [])"
  define d2 where "d2 = (if fin then d1\<lparr>vb_flags := vb_flags d1 OR V4L2_BUF_FLAG_LAST\<rparr> else d1)"
  define q where "q = (if fin then mark_stopped (vr_q v1) else vr_q v1)"
  define st where "st = (if ok then VB2_BUF_STATE_DONE else VB2_BUF_STATE_ERROR)"
  define v2 where "v2 = v1\<lparr>vr_q := dst_done d2 st q\<rparr>"
  have step: "b_capture ss outs is_last (d # ds) k coded v = b_capture ss outs is_last ds (Suc k) coded' v2"
    using pk(1) Cons.prems(1,4)
    by (simp add: Let_def d1_def d2_def v1_def v2_def fin_def ok_def q_def st_def coded'_def)
  have d2: "vb_id d2 = vb_id d" "vb_meta d2 = vb_meta (ss ! ?i)" by (simp_all add: d2_def d1_def capture_of_def)
  have q: "mq_dst q = mq_dst (vr_q v)" "mq_src q = mq_src (vr_q v)" "mq_src_done q = mq_src_done (vr_q v)" "mq_dst_done q = mq_dst_done (vr_q v)"
    by (simp_all add: q_def mark_stopped_def v1_def vr_stream_def)
  have k2: "run_kept v v2" by (simp add: run_kept_def v2_def v1_def vr_stream_def)
  have "length coded' = n" "Suc k + length ds = n" using Cons.prems(1,3) by (simp_all add: coded'_def)
  from Cons.IH [OF this(1) c this(2) Cons.prems(4-6) t t2, of v2]
  obtain v' js new where all: "b_capture ss outs is_last ds (Suc k) coded' v2 = (Ok (), v') \<and> run_kept v2 v' \<and> distinct js
    \<and> set js = {i. i < n \<and> \<not> coded' ! i} \<and> handed ss outs ds js new
    \<and> mq_dst_done (vr_q v') = mq_dst_done (vr_q v2) @ new
    \<and> mq_dst (vr_q v') = filter (\<lambda>b. vb_id b \<notin> vb_id ` set ds) (mq_dst (vr_q v2))
    \<and> mq_src (vr_q v') = mq_src (vr_q v2) \<and> mq_src_done (vr_q v') = mq_src_done (vr_q v2)"
    by (elim exE)
  then have IH: "b_capture ss outs is_last ds (Suc k) coded' v2 = (Ok (), v')" "run_kept v2 v'" "distinct js"
    "set js = {i. i < n \<and> \<not> coded' ! i}" "handed ss outs ds js new"
    "mq_dst_done (vr_q v') = mq_dst_done (vr_q v2) @ new"
    "mq_dst (vr_q v') = filter (\<lambda>b. vb_id b \<notin> vb_id ` set ds) (mq_dst (vr_q v2))"
    "mq_src (vr_q v') = mq_src (vr_q v2)" "mq_src_done (vr_q v') = mq_src_done (vr_q v2)"
    by - (elim conjE, assumption)+
  have js: "?i \<notin> set js" "set (?i # js) = {i. i < n \<and> \<not> coded ! i}"
  proof -
    show "?i \<notin> set js" unfolding IH(4) using pk(1) Cons.prems(1) by (simp add: coded'_def)
    show "set (?i # js) = {i. i < n \<and> \<not> coded ! i}" unfolding mark(3) by (simp add: IH(4))
  qed
  have h: "handed ss outs (d # ds) (?i # js) ((d2, st) # new)"
    by (rule handed_Cons [OF d2 IH(5)]) (simp add: st_def sti)
  have dst: "filter (\<lambda>b. vb_id b \<notin> vb_id ` set ds) (mq_dst (vr_q v2)) = filter (\<lambda>b. vb_id b \<notin> vb_id ` set (d # ds)) (mq_dst (vr_q v))"
    by (simp add: v2_def dst_done_def without_buf_def q d2 conj_commute)
  show ?case
  proof (intro exI conjI)
    show "b_capture ss outs is_last (d # ds) k coded v = (Ok (), v')" using step IH(1) by simp
    show "run_kept v v'" by (rule run_kept_trans [OF k2 IH(2)])
    show "distinct (?i # js)" using js(1) IH(3) by simp
    show "set (?i # js) = {i. i < n \<and> \<not> coded ! i}" by (rule js(2))
    show "handed ss outs (d # ds) (?i # js) ((d2, st) # new)" by (rule h)
    show "mq_dst_done (vr_q v') = mq_dst_done (vr_q v) @ ((d2, st) # new)" using IH(6) by (simp add: v2_def dst_done_def q)
    show "mq_dst (vr_q v') = filter (\<lambda>b. vb_id b \<notin> vb_id ` set (d # ds)) (mq_dst (vr_q v))" using IH(7) dst by simp
    show "mq_src (vr_q v') = mq_src (vr_q v)" "mq_src_done (vr_q v') = mq_src_done (vr_q v)"
      using IH(8,9) by (simp_all add: v2_def dst_done_def q)
  qed
qed

lemma release_run:
  "mq_src (b_release outs ss i q) = filter (\<lambda>b. vb_id b \<notin> vb_id ` set ss) (mq_src q)"
  "mq_dst (b_release outs ss i q) = mq_dst q" "mq_dst_done (b_release outs ss i q) = mq_dst_done q"
  "mq_src_done (b_release outs ss i q) = mq_src_done q @ zip ss (map (frame_state outs) [i..<i + length ss])"
proof -
  have "mq_src (b_release outs ss i q) = filter (\<lambda>b. vb_id b \<notin> vb_id ` set ss) (mq_src q)
    \<and> mq_dst (b_release outs ss i q) = mq_dst q \<and> mq_dst_done (b_release outs ss i q) = mq_dst_done q
    \<and> mq_src_done (b_release outs ss i q) = mq_src_done q @ zip ss (map (frame_state outs) [i..<i + length ss])"
  proof (induction ss arbitrary: i q)
    case (Cons s ss)
    define st where "st = (if \<exists>x \<in> set outs. fst (snd x) = i then VB2_BUF_STATE_DONE else VB2_BUF_STATE_ERROR)"
    have st: "st = frame_state outs i" by (auto simp: st_def frame_state_def)
    have u: "[i..<i + length (s # ss)] = i # [Suc i..<Suc i + length ss]"
      using upt_conv_Cons [of i "i + length (s # ss)"] by simp
    show ?case
      using Cons.IH [of "Suc i" "src_done s st q"]
      unfolding b_release.simps st_def [symmetric] u st
      by (simp add: src_done_def without_buf_def conj_commute)
  qed simp
  then show "mq_src (b_release outs ss i q) = filter (\<lambda>b. vb_id b \<notin> vb_id ` set ss) (mq_src q)"
    "mq_dst (b_release outs ss i q) = mq_dst q" "mq_dst_done (b_release outs ss i q) = mq_dst_done q"
    "mq_src_done (b_release outs ss i q) = mq_src_done q @ zip ss (map (frame_state outs) [i..<i + length ss])" by blast+
qed

section \<open>A batch\<close>

text \<open>What a job of \<open>n\<close> sources did to the queues while the client did \<open>as\<close>: the \<open>n\<close> oldest buffers of
  each are back, in queue order, and the CAPTURE buffers carry the metadata and the fate of those
  sources.\<close>

definition vb_name :: "v4l2_buf \<Rightarrow> nat \<times> nat" where "vb_name b = (vb_id b, vb_meta b)"

definition turned :: "nat \<Rightarrow> q_act list \<Rightarrow> m2m_q \<Rightarrow> m2m_q \<Rightarrow> bool" where
  "turned n as q q' \<longleftrightarrow>
     map vb_name (mq_src q') = drop n (map vb_name (mq_src q)) @ map vb_name (srcs_of as)
   \<and> map vb_id (mq_dst q') = drop n (map vb_id (mq_dst q)) @ map vb_id (dsts_of as)
   \<and> (\<exists>sd dd. mq_src_done q' = mq_src_done q @ sd \<and> mq_dst_done q' = mq_dst_done q @ dd
        \<and> map (vb_name \<circ> fst) sd = take n (map vb_name (mq_src q)) \<and> map (vb_id \<circ> fst) dd = take n (map vb_id (mq_dst q))
        \<and> mset (map shown dd) = mset (map shown sd))"

lemma turned_0: "turned 0 [] q q"
  by (simp add: turned_def srcs_of_def dsts_of_def)

lemma turned_trans:
  assumes "turned n as q q1" "turned k bs q1 q2" "n + k \<le> length (mq_src q)" "n + k \<le> length (mq_dst q)"
  shows "turned (n + k) (as @ bs) q q2"
proof -
  have ls: "length (drop n (map vb_name (mq_src q))) \<ge> k" "length (drop n (map vb_id (mq_dst q))) \<ge> k" using assms(3,4) by simp_all
  obtain sd dd where 1: "mq_src_done q1 = mq_src_done q @ sd" "mq_dst_done q1 = mq_dst_done q @ dd"
      "map (vb_name \<circ> fst) sd = take n (map vb_name (mq_src q))" "map (vb_id \<circ> fst) dd = take n (map vb_id (mq_dst q))"
      "mset (map shown dd) = mset (map shown sd)"
    using assms(1) unfolding turned_def by blast
  obtain sd' dd' where 2: "mq_src_done q2 = mq_src_done q1 @ sd'" "mq_dst_done q2 = mq_dst_done q1 @ dd'"
      "map (vb_name \<circ> fst) sd' = take k (map vb_name (mq_src q1))" "map (vb_id \<circ> fst) dd' = take k (map vb_id (mq_dst q1))"
      "mset (map shown dd') = mset (map shown sd')"
    using assms(2) unfolding turned_def by blast
  have q1: "map vb_name (mq_src q1) = drop n (map vb_name (mq_src q)) @ map vb_name (srcs_of as)"
    "map vb_id (mq_dst q1) = drop n (map vb_id (mq_dst q)) @ map vb_id (dsts_of as)"
    using assms(1) unfolding turned_def by blast+
  have q2: "map vb_name (mq_src q2) = drop k (map vb_name (mq_src q1)) @ map vb_name (srcs_of bs)"
    "map vb_id (mq_dst q2) = drop k (map vb_id (mq_dst q1)) @ map vb_id (dsts_of bs)"
    using assms(2) unfolding turned_def by blast+
  have app: "srcs_of (as @ bs) = srcs_of as @ srcs_of bs" "dsts_of (as @ bs) = dsts_of as @ dsts_of bs"
    by (simp_all add: srcs_of_def dsts_of_def)
  show ?thesis
    unfolding turned_def app
  proof (intro conjI exI)
    show "map vb_name (mq_src q2) = drop (n + k) (map vb_name (mq_src q)) @ map vb_name (srcs_of as @ srcs_of bs)"
      using ls(1) unfolding q2 q1 by (simp add: add.commute)
    show "map vb_id (mq_dst q2) = drop (n + k) (map vb_id (mq_dst q)) @ map vb_id (dsts_of as @ dsts_of bs)"
      using ls(2) unfolding q2 q1 by (simp add: add.commute)
    show "mq_src_done q2 = mq_src_done q @ (sd @ sd')" "mq_dst_done q2 = mq_dst_done q @ (dd @ dd')" by (simp_all add: 1 2)
    show "map (vb_name \<circ> fst) (sd @ sd') = take (n + k) (map vb_name (mq_src q))"
      using ls(1) unfolding map_append 1(3) 2(3) q1 by (simp add: take_add)
    show "map (vb_id \<circ> fst) (dd @ dd') = take (n + k) (map vb_id (mq_dst q))"
      using ls(2) unfolding map_append 1(4) 2(4) q1 by (simp add: take_add)
    show "mset (map shown (dd @ dd')) = mset (map shown (sd @ sd'))" unfolding map_append mset_append 1(5) 2(5) ..
  qed
qed

lemma taken_out:
  assumes "distinct (map vb_id (bs @ cs))" "n \<le> length bs"
  shows "filter (\<lambda>b. vb_id b \<notin> vb_id ` set (take n bs)) (bs @ cs) = drop n bs @ cs"
proof -
  have e: "bs @ cs = take n bs @ (drop n bs @ cs)" by simp
  have d: "distinct (map vb_id (take n bs) @ map vb_id (drop n bs @ cs))"
    using assms(1) by (metis e map_append)
  have "filter (\<lambda>b. vb_id b \<notin> vb_id ` set (take n bs)) (take n bs) = []" by (auto simp: filter_empty_conv)
  moreover have "filter (\<lambda>b. vb_id b \<notin> vb_id ` set (take n bs)) (drop n bs @ cs) = drop n bs @ cs"
  proof (rule filter_True)
    show "\<forall>x \<in> set (drop n bs @ cs). vb_id x \<notin> vb_id ` set (take n bs)" using d by (auto simp: disjoint_iff)
  qed
  ultimately show ?thesis by (metis e append_Nil filter_append)
qed

text \<open>What a client may do during a job: queue buffers that are not queued.\<close>

definition fresh_acts :: "q_act list \<Rightarrow> m2m_q \<Rightarrow> bool" where
  "fresh_acts as q \<longleftrightarrow> distinct (map vb_id (mq_src q @ srcs_of as)) \<and> distinct (map vb_id (mq_dst q @ dsts_of as))"

text \<open>A run in which a stream is up (of HEVC if \<open>hv\<close>) and the planner is sound.\<close>

definition run_up :: "api_env \<Rightarrow> ave_cmd_abi \<Rightarrow> bool \<Rightarrow> v4l2_run \<Rightarrow> bool" where
  "run_up ap abi hv v \<longleftrightarrow> enc_up ap abi hv (vr_enc v) \<and> vs_session (vc_stream (vr_ctx v)) \<and> gop_wf (vs_plan (vc_stream (vr_ctx v)))"

lemma run_up_cong:
  "vr_enc v' = vr_enc v \<Longrightarrow> run_kept v v' \<Longrightarrow> run_up ap abi hv v' = run_up ap abi hv v"
  by (simp add: run_up_def run_kept_def)

lemma idx_metas:
  assumes "distinct is" "set is = {i. i < length xs}" "map shown sd = map (\<lambda>i. f (xs ! i) i) [0..<length xs]"
    and "map shown dd = map (\<lambda>i. f (xs ! i) i) is"
  shows "mset (map shown dd) = mset (map shown sd)"
proof -
  have "set is = set [0..<length xs]" unfolding assms(2) by auto
  then have "mset is = mset [0..<length xs]" by (rule iffD1 [OF set_eq_iff_mset_eq_distinct [OF assms(1) distinct_upt]])
  then have "mset (map g is) = mset (map g [0..<length xs])" for g by (simp only: mset_map)
  then show ?thesis unfolding assms(3,4) by blast
qed

lemma batch_run:
  assumes env: "env_ok (env_for ap abi)" "batch_kept (env_for ap abi) hv (je_batch je)" and up: "run_up ap abi hv v"
    and src: "b_sources src b = Ok (take n (mq_src (vr_q v)))" and n: "length b = n" "1 \<le> n" "n \<le> AVE_GOP_BATCH_MAX"
      "n \<le> length (mq_src (vr_q v))" "n \<le> length (mq_dst (vr_q v))"
    and fresh: "fresh_acts (je_acts je) (vr_q v)"
  shows "\<exists>v'. ave_b_batch ap je src b v = (Ok (), v') \<and> run_up ap abi hv v' \<and> vs_plan (vc_stream (vr_ctx v')) = vs_plan (vc_stream (vr_ctx v))
    \<and> mq_src (vr_q v') = drop n (mq_src (vr_q v)) @ srcs_of (je_acts je) \<and> turned n (je_acts je) (vr_q v) (vr_q v')"
proof -
  define q where "q = vr_q v"
  define ss where "ss = take n (mq_src q)"
  define ds where "ds = take n (mq_dst q)"
  have len: "length ss = n" "length ds = n" "length (map vb_size ds) = length (map2 (b_frame (vc_fmt (vr_ctx v))) b ss)"
    using n by (simp_all add: ss_def ds_def q_def)
  obtain r outs e where enc: "ave_enc_encode_batch ap (je_batch je) (map2 (b_frame (vc_fmt (vr_ctx v))) b ss) (map vb_size ds) (vr_enc v) = ((r, outs), e)"
    by (metis prod.collapse)
  have e: "enc_up ap abi hv (vr_enc v)" using up by (simp add: run_up_def)
  note safe = encode_batch_safe [OF env e len(3) enc]
  have r: "r \<noteq> Fault" "enc_up ap abi hv e" "distinct (idxs outs)" "\<forall>x \<in> set outs. fst (snd x) < n"
    using safe n(1) len by auto
  define q1 where "q1 = q_run (je_acts je) q"
  have ne: "mq_src q \<noteq> []" using n(2,4) by (auto simp: q_def)
  note q1 = q_run_adds [OF ne, of "je_acts je", folded q1_def]
  define v1 where "v1 = v\<lparr>vr_enc := e, vr_q := q1\<rparr>"
  define bad where "bad = (r \<noteq> Ok () \<and> (ec_fw_hung e \<or> vs_pm_lost (vc_stream (vr_ctx v))))"
  define v2 where "v2 = (if bad then v1\<lparr>vr_q := (vr_q v1)\<lparr>mq_error := True\<rparr>\<rparr> else v1)"
  have v2: "mq_src (vr_q v2) = mq_src q1" "mq_dst (vr_q v2) = mq_dst q1" "mq_src_done (vr_q v2) = mq_src_done q1" "mq_dst_done (vr_q v2) = mq_dst_done q1"
    by (simp_all add: v2_def v1_def)
  have cov: "\<exists>v' is new. b_capture ss outs l ds 0 (replicate n False) v2 = (Ok (), v') \<and> run_kept v2 v'
    \<and> distinct is \<and> set is = {i. i < n \<and> \<not> replicate n False ! i} \<and> handed ss outs ds is new
    \<and> mq_dst_done (vr_q v') = mq_dst_done (vr_q v2) @ new
    \<and> mq_dst (vr_q v') = filter (\<lambda>b. vb_id b \<notin> vb_id ` set ds) (mq_dst (vr_q v2))
    \<and> mq_src (vr_q v') = mq_src (vr_q v2) \<and> mq_src_done (vr_q v') = mq_src_done (vr_q v2)" for l
    by (rule capture_run) (use len r in auto)
  define l where "l = list_ex (is_last_draining (vr_q v1)) ss"
  from cov [of l] obtain v3 js new where "b_capture ss outs l ds 0 (replicate n False) v2 = (Ok (), v3) \<and> run_kept v2 v3
    \<and> distinct js \<and> set js = {i. i < n \<and> \<not> replicate n False ! i} \<and> handed ss outs ds js new
    \<and> mq_dst_done (vr_q v3) = mq_dst_done (vr_q v2) @ new
    \<and> mq_dst (vr_q v3) = filter (\<lambda>b. vb_id b \<notin> vb_id ` set ds) (mq_dst (vr_q v2))
    \<and> mq_src (vr_q v3) = mq_src (vr_q v2) \<and> mq_src_done (vr_q v3) = mq_src_done (vr_q v2)"
    by (elim exE)
  then have c: "b_capture ss outs l ds 0 (replicate n False) v2 = (Ok (), v3)" "run_kept v2 v3" "distinct js"
    "set js = {i. i < n \<and> \<not> replicate n False ! i}" "handed ss outs ds js new" "mq_dst_done (vr_q v3) = mq_dst_done (vr_q v2) @ new"
    "mq_dst (vr_q v3) = filter (\<lambda>b. vb_id b \<notin> vb_id ` set ds) (mq_dst (vr_q v2))"
    "mq_src (vr_q v3) = mq_src (vr_q v2)" "mq_src_done (vr_q v3) = mq_src_done (vr_q v2)"
    by - (elim conjE, assumption)+
  define v4 where "v4 = v3\<lparr>vr_q := b_release outs ss 0 (vr_q v3)\<rparr>"
  have run: "ave_b_batch ap je src b v = (Ok (), v4)"
  proof -
    have t: "b_targets q (length b) = Ok ds" using n by (simp add: b_targets_def ds_def q_def)
    have s: "vs_session (vc_stream (vr_ctx v))" using up by (simp add: run_up_def)
    have vv: "r \<noteq> Ok () \<and> (ec_fw_hung e \<or> vs_pm_lost (vc_stream (vr_ctx v))) \<Longrightarrow> v\<lparr>vr_enc := e, vr_q := q1\<lparr>mq_error := True\<rparr>\<rparr> = v2"
      "r = Ok () \<Longrightarrow> v\<lparr>vr_enc := e, vr_q := q1\<rparr> = v2"
      "\<not> (ec_fw_hung e \<or> vs_pm_lost (vc_stream (vr_ctx v))) \<Longrightarrow> v\<lparr>vr_enc := e, vr_q := q1\<rparr> = v2"
      by (simp_all add: v2_def v1_def bad_def)
    show ?thesis
      using c(1) enc r(1) s t src
      unfolding ave_b_batch_def q_def [symmetric] ss_def [symmetric]
      by (simp add: Let_def v4_def l_def v1_def q1_def [symmetric] n(1) vv cong: if_cong)
  qed
  have k: "run_up ap abi hv v4" "vs_plan (vc_stream (vr_ctx v4)) = vs_plan (vc_stream (vr_ctx v))"
    using c(2) r(2) up by (simp_all add: run_up_def run_kept_def v4_def v2_def v1_def)
  have d: "distinct (map vb_id (mq_src q @ srcs_of (je_acts je)))" "distinct (map vb_id (mq_dst q @ dsts_of (je_acts je)))"
    using fresh by (simp_all add: fresh_acts_def q_def)
  have sq: "mq_src (vr_q v4) = drop n (mq_src q) @ srcs_of (je_acts je)"
    using taken_out [OF d(1), of n] n(4) by (simp add: v4_def release_run c(8) v2 q1 ss_def q_def)
  have t: "turned n (je_acts je) q (vr_q v4)"
    unfolding turned_def
  proof (intro conjI exI)
    show "map vb_name (mq_src (vr_q v4)) = drop n (map vb_name (mq_src q)) @ map vb_name (srcs_of (je_acts je))"
      by (simp add: sq drop_map)
    have "mq_dst (vr_q v4) = drop n (mq_dst q) @ dsts_of (je_acts je)"
      using taken_out [OF d(2), of n] n(5) by (simp add: v4_def release_run c(7) v2 q1 ds_def q_def)
    then show "map vb_id (mq_dst (vr_q v4)) = drop n (map vb_id (mq_dst q)) @ map vb_id (dsts_of (je_acts je))"
      by (simp add: drop_map)
    show "mq_src_done (vr_q v4) = mq_src_done q @ zip ss (map (frame_state outs) [0..<n])"
      using len(1) by (simp add: v4_def release_run c(9) v2 q1)
    show "mq_dst_done (vr_q v4) = mq_dst_done q @ new" by (simp add: v4_def release_run c(6) v2 q1)
    show "map (vb_name \<circ> fst) (zip ss (map (frame_state outs) [0..<n])) = take n (map vb_name (mq_src q))"
      using len(1) by (simp add: map_map [symmetric] take_map ss_def del: map_map)
    show "map (vb_id \<circ> fst) new = take n (map vb_id (mq_dst q))"
      using c(5) by (simp add: handed_def ds_def take_map)
    have i: "set js = {i. i < length ss}" unfolding c(4) len(1) by auto
    show "mset (map shown new) = mset (map shown (zip ss (map (frame_state outs) [0..<n])))"
    proof (rule idx_metas [OF c(3) i])
      show "map shown new = map (\<lambda>i. (vb_meta (ss ! i), frame_state outs i)) js" using c(5) by (simp add: handed_def)
      show "map shown (zip ss (map (frame_state outs) [0..<n])) = map (\<lambda>i. (vb_meta (ss ! i), frame_state outs i)) [0..<length ss]"
        by (rule nth_equalityI) (simp_all add: shown_def len(1))
    qed
  qed
  show ?thesis
    using run k sq t by (intro exI [of _ v4]) (simp add: q_def)
qed

section \<open>The batches of a job\<close>

lemma b_sources_append:
  assumes "b_sources src (b @ c) = Ok xs"
  shows "b_sources src b = Ok (take (length b) xs)" "b_sources src c = Ok (drop (length b) xs)"
  using assms by (auto simp: b_sources_def split: if_splits)

lemma fresh_acts_append:
  assumes "fresh_acts (as @ bs) q"
  shows "fresh_acts as q" "turned n as q q1 \<Longrightarrow> fresh_acts bs q1"
proof -
  have app: "srcs_of (as @ bs) = srcs_of as @ srcs_of bs" "dsts_of (as @ bs) = dsts_of as @ dsts_of bs"
    by (simp_all add: srcs_of_def dsts_of_def)
  have d: "distinct (map vb_id (mq_src q) @ map vb_id (srcs_of as) @ map vb_id (srcs_of bs))"
    "distinct (map vb_id (mq_dst q) @ map vb_id (dsts_of as) @ map vb_id (dsts_of bs))"
    using assms by (simp_all only: fresh_acts_def app map_append)
  show "fresh_acts as q" using d by (auto simp: fresh_acts_def)
  assume t: "turned n as q q1"
  have dr: "distinct (drop n xs @ ys)" if "distinct (xs @ ys)" for xs ys :: "nat list"
    using that set_drop_subset [of n xs] by (auto simp: distinct_drop)
  have "map fst (map vb_name (mq_src q1)) = map fst (drop n (map vb_name (mq_src q)) @ map vb_name (srcs_of as))"
    using t by (simp only: turned_def)
  then have "map vb_id (mq_src q1) = drop n (map vb_id (mq_src q)) @ map vb_id (srcs_of as)"
    by (simp add: drop_map comp_def vb_name_def)
  moreover have "map vb_id (mq_dst q1) = drop n (map vb_id (mq_dst q)) @ map vb_id (dsts_of as)"
    using t by (simp only: turned_def)
  ultimately show "fresh_acts bs q1"
    using dr [OF d(1)] dr [OF d(2)] by (simp only: fresh_acts_def map_append append_assoc)
qed

abbreviation job_acts :: "(nat \<Rightarrow> job_env) \<Rightarrow> nat \<Rightarrow> nat \<Rightarrow> q_act list" where
  "job_acts je k n \<equiv> concat (map (\<lambda>i. je_acts (je i)) [k..<k + n])"

lemma batches_run:
  assumes "env_ok (env_for ap abi)" "\<forall>k. batch_kept (env_for ap abi) hv (je_batch (je k))" "run_up ap abi hv v"
    and "b_sources src (concat bs) = Ok (take (length (concat bs)) (mq_src (vr_q v)))"
      "\<forall>b \<in> set bs. b \<noteq> [] \<and> length b \<le> AVE_GOP_BATCH_MAX"
      "length (concat bs) \<le> length (mq_src (vr_q v))" "length (concat bs) \<le> length (mq_dst (vr_q v))"
      "fresh_acts (job_acts je k (length bs)) (vr_q v)"
  shows "\<exists>v'. b_batches ap je k src bs v = (Ok (), v') \<and> run_up ap abi hv v'
    \<and> vs_plan (vc_stream (vr_ctx v')) = vs_plan (vc_stream (vr_ctx v))
    \<and> turned (length (concat bs)) (job_acts je k (length bs)) (vr_q v) (vr_q v')"
  using assms(3-)
proof (induction bs arbitrary: k v)
  case Nil
  then show ?case by (simp add: turned_0)
next
  case (Cons b bs)
  let ?n = "length b" and ?N = "length (concat bs)" and ?as = "job_acts je (Suc k) (length bs)"
  have acts: "job_acts je k (length (b # bs)) = je_acts (je k) @ ?as"
    using upt_conv_Cons [of k "k + length (b # bs)"] by simp
  note fresh = fresh_acts_append [OF Cons.prems(6) [unfolded acts]]
  note srcs = b_sources_append [OF Cons.prems(2) [unfolded concat.simps]]
  have n: "?n + ?N \<le> length (mq_src (vr_q v))" "?n + ?N \<le> length (mq_dst (vr_q v))" using Cons.prems(4,5) by simp_all
  have "b_sources src b = Ok (take ?n (mq_src (vr_q v)))" using srcs(1) by simp
  from batch_run [OF assms(1) assms(2) [rule_format] Cons.prems(1) this refl _ _ _ _ fresh(1)] Cons.prems(3) n
  obtain v1 where 1: "ave_b_batch ap (je k) src b v = (Ok (), v1)" "run_up ap abi hv v1"
    "vs_plan (vc_stream (vr_ctx v1)) = vs_plan (vc_stream (vr_ctx v))"
    "mq_src (vr_q v1) = drop ?n (mq_src (vr_q v)) @ srcs_of (je_acts (je k))" "turned ?n (je_acts (je k)) (vr_q v) (vr_q v1)"
    by (fastforce simp: Suc_le_eq)
  have "length (map vb_id (mq_dst (vr_q v1))) = length (drop ?n (map vb_id (mq_dst (vr_q v))) @ map vb_id (dsts_of (je_acts (je k))))"
    using 1(5) by (simp only: turned_def)
  then have ds: "?N \<le> length (mq_dst (vr_q v1))" using n(2) by simp
  have ss: "?N \<le> length (mq_src (vr_q v1))" using n(1) by (simp add: 1(4))
  have "b_sources src (concat bs) = Ok (take ?N (mq_src (vr_q v1)))"
    using srcs(2) n(1) by (simp add: 1(4) take_drop add.commute)
  from Cons.IH [OF 1(2) this _ ss ds fresh(2) [OF 1(5)]] Cons.prems(3)
  obtain v2 where 2: "b_batches ap je (Suc k) src bs v1 = (Ok (), v2)" "run_up ap abi hv v2"
    "vs_plan (vc_stream (vr_ctx v2)) = vs_plan (vc_stream (vr_ctx v1))" "turned ?N ?as (vr_q v1) (vr_q v2)"
    by fastforce
  have "turned (?n + ?N) (je_acts (je k) @ ?as) (vr_q v) (vr_q v2)" by (rule turned_trans [OF 1(5) 2(4) n])
  then show ?case unfolding acts using 1 2 by (intro exI [of _ v2]) simp
qed

section \<open>The job\<close>

lemma commit_srcs:
  assumes "gop_wf g"
  shows "map (\<lambda>f. unat (f_src f)) (concat (snd (ave_gop_commit g a))) = [0..<unat (ave_gop_srcs g a)]"
  using closing_srcs [of g] minigop_srcs_anchor [of g] gop_held_bounds [OF assms]
  by (cases a) (simp_all add: commit_simps ave_gop_srcs_def ave_gop_need_def del: map_concat)

lemma commit_batches:
  assumes "gop_wf g" "b \<in> set (snd (ave_gop_commit g a))"
  shows "b \<noteq> [] \<and> length b \<le> AVE_GOP_BATCH_MAX"
proof -
  have "b \<noteq> []" using assms(2) by (cases a) (auto simp: commit_simps closing_def ave_gop_minigop_def Let_def split: if_splits)
  moreover have "length b \<le> length (concat (snd (ave_gop_commit g a)))"
    using assms(2) by (auto dest!: split_list)
  moreover have "length (concat (snd (ave_gop_commit g a))) = unat (ave_gop_srcs g a)"
    using arg_cong [OF commit_srcs [OF assms(1), of a], of length] by (simp del: map_concat)
  moreover have "unat (ave_gop_srcs g a) \<le> Suc (unat (g_n_held g))"
    using gop_held_bounds [OF assms(1)] by (cases a) (simp_all add: ave_gop_srcs_def ave_gop_need_def)
  ultimately show ?thesis using gop_held_bounds(1) [OF assms(1)] by (simp add: AVE_GOP_BATCH_MAX_def)
qed

lemma commit_wf:
  assumes "gop_wf g"
  shows "gop_wf (fst (ave_gop_commit g (ave_gop_decide g has_new force is_last)))"
proof (cases has_new)
  case True
  then show ?thesis using gop_plan_wf [OF assms, of "(force, is_last)"] by (simp add: gop_plan_def case_prod_beta Let_def)
next
  case False
  then show ?thesis using assms by (auto simp: ave_gop_decide_def commit_simps gop_wf_def)
qed

lemma sources_at:
  assumes "map (\<lambda>f. unat (f_src f)) b = [0..<n]" "n \<le> length src" "\<forall>i < n. src ! i = Some (S ! i)" "n \<le> length S"
  shows "b_sources src b = Ok (take n S)"
proof -
  have l: "length b = n" using arg_cong [OF assms(1), of length] by simp
  have i: "unat (f_src (b ! i)) = i" if "i < n" for i
    using arg_cong [OF assms(1), of "\<lambda>x. x ! i"] that l by simp
  have "list_all (\<lambda>f. unat (f_src f) < length src \<and> src ! unat (f_src f) \<noteq> None) b"
    using i l assms(2,3) by (auto simp: list_all_length)
  moreover have "map (\<lambda>f. the (src ! unat (f_src f))) b = take n S"
    using i l assms(3,4) by (intro nth_equalityI) simp_all
  ultimately show ?thesis by (simp add: b_sources_def)
qed

text \<open>What \<open>ave_b_next\<close> found: the planner's answer, and the sources it is about.\<close>

lemma b_next_found:
  assumes "gop_wf g" "g = vs_plan (vc_stream (vr_ctx v))" "ave_b_next key_every v = (a, src)" "a \<noteq> GOP_NONE"
  shows "\<exists>has_new force is_last. a = ave_gop_decide g has_new force is_last"
    "src = map (ave_nth_buf (mq_src (vr_q v))) [0..<Suc (unat (g_n_held g))]"
    "a \<noteq> GOP_CLOSE \<Longrightarrow> unat (g_n_held g) < length (mq_src (vr_q v))" "unat (g_n_held g) \<le> length (mq_src (vr_q v))"
proof -
  let ?h = "unat (g_n_held g)"
  have h: "\<not> AVE_GOP_BATCH_MAX \<le> ?h" using gop_held_bounds(1) [OF assms(1)] by (simp add: AVE_GOP_BATCH_MAX_def)
  have n: "map (ave_nth_buf (mq_src (vr_q v))) [0..<Suc ?h] ! i = ave_nth_buf (mq_src (vr_q v)) i" if "i \<le> ?h" for i
    using that by (simp del: upt_Suc)
  note r = assms(3) [unfolded ave_b_next_def Let_def assms(2) [symmetric] if_not_P [OF h]]
  show src: "src = map (ave_nth_buf (mq_src (vr_q v))) [0..<Suc ?h]"
    using r by (auto split: if_splits option.splits simp del: upt_Suc)
  show "\<exists>has_new force is_last. a = ave_gop_decide g has_new force is_last"
    using r assms(4) by (auto split: if_splits option.splits simp del: upt_Suc)
  have held: "?h = 0 \<or> ave_nth_buf (mq_src (vr_q v)) (?h - 1) \<noteq> None"
    using r assms(4) n [of "?h - 1"] by (auto split: if_splits simp del: upt_Suc)
  then show "?h \<le> length (mq_src (vr_q v))" by (auto simp: ave_nth_buf_def split: if_splits)
  assume "a \<noteq> GOP_CLOSE"
  then show "?h < length (mq_src (vr_q v))"
    using r assms(4) n [of ?h] by (auto simp: ave_gop_decide_def ave_nth_buf_def split: if_splits option.splits simp del: upt_Suc)
qed

text \<open>Numbering a source changes no name.\<close>

lemma turned_names:
  assumes "map vb_name (mq_src q) = map vb_name (mq_src p)" "mq_dst q = mq_dst p" "mq_src_done q = mq_src_done p" "mq_dst_done q = mq_dst_done p"
  shows "turned n as q q' = turned n as p q'"
  by (simp add: turned_def assms)

lemma names_ids: "map vb_name xs = map vb_name ys \<Longrightarrow> map vb_id xs = map vb_id ys"
  by (drule arg_cong [of _ _ "map fst"]) (simp add: comp_def vb_name_def)

lemma fresh_names:
  assumes "map vb_name (mq_src q) = map vb_name (mq_src p)" "mq_dst q = mq_dst p"
  shows "fresh_acts as q = fresh_acts as p"
  by (simp add: fresh_acts_def assms names_ids [OF assms(1)] del: distinct_append)

lemma numbered:
  assumes "src = map (ave_nth_buf (mq_src (vr_q v))) [0..<Suc h]" "h < length (mq_src (vr_q v))" "number_source h src v = (src', v')"
  shows "length src' = Suc h" "\<forall>i < Suc h. src' ! i = Some (mq_src (vr_q v') ! i)" "length (mq_src (vr_q v')) = length (mq_src (vr_q v))"
    "map vb_name (mq_src (vr_q v')) = map vb_name (mq_src (vr_q v))" "mq_dst (vr_q v') = mq_dst (vr_q v)"
    "mq_src_done (vr_q v') = mq_src_done (vr_q v)" "mq_dst_done (vr_q v') = mq_dst_done (vr_q v)"
    "vr_enc v' = vr_enc v" "run_kept v v'"
proof -
  define b where "b = (mq_src (vr_q v) ! h)\<lparr>vb_sequence := vs_out_seq (vc_stream (vr_ctx v))\<rparr>"
  have src: "src ! i = Some (mq_src (vr_q v) ! i)" if "i < Suc h" for i
    using that assms(2) by (simp add: assms(1) ave_nth_buf_def del: upt_Suc)
  have l: "length src = Suc h" by (simp add: assms(1) del: upt_Suc)
  have s': "src' = src[h := Some b]" "mq_src (vr_q v') = (mq_src (vr_q v))[h := b]"
    using assms(3) src [of h] by (auto simp: number_source_def Let_def b_def vr_stream_def)
  show "length src' = Suc h" by (simp add: s' l)
  show "length (mq_src (vr_q v')) = length (mq_src (vr_q v))" by (simp add: s')
  show "\<forall>i < Suc h. src' ! i = Some (mq_src (vr_q v') ! i)"
  proof (intro allI impI)
    fix i assume "i < Suc h"
    then show "src' ! i = Some (mq_src (vr_q v') ! i)" using src [of i] assms(2) l by (cases "i = h") (simp_all add: s')
  qed
  have "vb_name b = vb_name (mq_src (vr_q v) ! h)" by (simp add: b_def vb_name_def)
  then show "map vb_name (mq_src (vr_q v')) = map vb_name (mq_src (vr_q v))"
    using assms(2) by (simp add: s' map_update list_update_same_conv)
  show "mq_dst (vr_q v') = mq_dst (vr_q v)" "mq_src_done (vr_q v') = mq_src_done (vr_q v)" "mq_dst_done (vr_q v') = mq_dst_done (vr_q v)"
    "vr_enc v' = vr_enc v" "run_kept v v'"
    using assms(3) by (auto simp: number_source_def Let_def vr_stream_def run_kept_def)
qed

lemma work_b_run:
  assumes env: "env_ok (env_for ap abi)" "\<forall>k. batch_kept (env_for ap abi) hv (je_batch (je k))" and up: "run_up ap abi hv v"
    and fresh: "fresh_acts (job_acts je 0 2) (vr_q v)" and dec: "ave_b_next key_every v = (a, src)"
  shows "\<exists>v' m. ave_run_work_b ap key_every je v = (Ok (), v') \<and> run_up ap abi hv v' \<and> m \<le> 2
    \<and> turned (if enough_dst v a then unat (ave_gop_srcs (vs_plan (vc_stream (vr_ctx v))) a) else 0) (job_acts je 0 m) (vr_q v) (vr_q v')"
proof (cases "a = GOP_NONE \<or> \<not> enough_dst v a")
  case True
  then show ?thesis
    using up dec turned_0 [of "vr_q v"]
    by (intro exI [of _ v] exI [of _ 0]) (auto simp: ave_run_work_b_def ave_gop_srcs_def ave_gop_need_def)
next
  case False
  define g where "g = vs_plan (vc_stream (vr_ctx v))"
  define h where "h = unat (g_n_held g)"
  have wf: "gop_wf g" using up by (simp add: run_up_def g_def)
  have some: "a \<noteq> GOP_NONE" and dst: "enough_dst v a" using False by blast+
  note found = b_next_found [OF wf g_def dec some, folded h_def]
  define N where "N = unat (ave_gop_srcs g a)"
  obtain g' bs where com: "ave_gop_commit g a = (g', bs)" by fastforce
  have wf': "gop_wf g'"
  proof -
    obtain has_new force is_last where "a = ave_gop_decide g has_new force is_last" using found(1) by blast
    then show ?thesis using commit_wf [OF wf, of has_new force is_last] com by simp
  qed
  have maps: "map (\<lambda>f. unat (f_src f)) (concat bs) = [0..<N]" using commit_srcs [OF wf, of a] by (simp add: com N_def)
  have lN: "length (concat bs) = N" using arg_cong [OF maps, of length] by (simp del: map_concat)
  have sh: "\<forall>b \<in> set bs. b \<noteq> [] \<and> length b \<le> AVE_GOP_BATCH_MAX" using commit_batches [OF wf, of _ a] by (simp add: com)
  have two: "length bs \<le> 2" using com by (cases a) (auto simp: commit_simps closing_def split: if_splits)
  have Nh: "N \<le> Suc h" "a = GOP_CLOSE \<Longrightarrow> N = h"
    using gop_held_bounds [OF wf] by (cases a; simp add: N_def h_def ave_gop_srcs_def ave_gop_need_def)+
  have Nd: "N \<le> length (mq_dst (vr_q v))"
    using dst by (cases a) (auto simp: N_def enough_dst_def ave_gop_srcs_def g_def [symmetric] word_le_nat_alt max_def split: if_splits)
  define sv where "sv = (if a \<noteq> GOP_CLOSE then number_source h src v else (src, v))"
  obtain src1 v1 where sv1: "sv = (src1, v1)" by fastforce
  have src1: "N \<le> length src1" "\<forall>i < N. src1 ! i = Some (mq_src (vr_q v1) ! i)" "N \<le> length (mq_src (vr_q v1))"
    and q1: "map vb_name (mq_src (vr_q v1)) = map vb_name (mq_src (vr_q v))" "mq_dst (vr_q v1) = mq_dst (vr_q v)"
      "mq_src_done (vr_q v1) = mq_src_done (vr_q v)" "mq_dst_done (vr_q v1) = mq_dst_done (vr_q v)"
    and k1: "vr_enc v1 = vr_enc v" "run_kept v v1"
  proof -
    have "N \<le> length src1 \<and> (\<forall>i < N. src1 ! i = Some (mq_src (vr_q v1) ! i)) \<and> N \<le> length (mq_src (vr_q v1))
      \<and> map vb_name (mq_src (vr_q v1)) = map vb_name (mq_src (vr_q v)) \<and> mq_dst (vr_q v1) = mq_dst (vr_q v)
      \<and> mq_src_done (vr_q v1) = mq_src_done (vr_q v) \<and> mq_dst_done (vr_q v1) = mq_dst_done (vr_q v)
      \<and> vr_enc v1 = vr_enc v \<and> run_kept v v1"
    proof (cases "a = GOP_CLOSE")
      case True
      have e: "src1 = src" "v1 = v" using True sv1 by (simp_all add: sv_def)
      have "\<forall>i < h. src ! i = Some (mq_src (vr_q v) ! i)"
        using found(4) by (simp add: found(2) ave_nth_buf_def del: upt_Suc)
      moreover have "h \<le> length src" by (simp add: found(2) del: upt_Suc)
      ultimately show ?thesis using found(4) Nh(2) [OF True] by (simp add: e run_kept_refl)
    next
      case False
      then have "number_source h src v = (src1, v1)" using sv1 by (simp add: sv_def)
      from numbered [OF found(2) found(3) [OF False] this] show ?thesis using Nh(1) found(3) [OF False] by simp
    qed
    then show "N \<le> length src1" "\<forall>i < N. src1 ! i = Some (mq_src (vr_q v1) ! i)" "N \<le> length (mq_src (vr_q v1))"
      "map vb_name (mq_src (vr_q v1)) = map vb_name (mq_src (vr_q v))" "mq_dst (vr_q v1) = mq_dst (vr_q v)"
      "mq_src_done (vr_q v1) = mq_src_done (vr_q v)" "mq_dst_done (vr_q v1) = mq_dst_done (vr_q v)"
      "vr_enc v1 = vr_enc v" "run_kept v v1" by blast+
  qed
  define v2 where "v2 = vr_stream (\<lambda>s. s\<lparr>vs_plan := g'\<rparr>) (if a = GOP_KEY then vr_force False v1 else v1)"
  have v2: "vr_q v2 = vr_q v1" "run_up ap abi hv v2" "vs_plan (vc_stream (vr_ctx v1)) = g"
    using up k1 wf' by (simp_all add: v2_def vr_stream_def vr_force_def run_up_def run_kept_def g_def)
  have step: "ave_run_work_b ap key_every je v = b_batches ap je 0 src1 bs v2"
  proof -
    have "src ! h \<noteq> None" if "a \<noteq> GOP_CLOSE" using found(3) [OF that] by (simp add: found(2) ave_nth_buf_def del: upt_Suc)
    moreover have "vs_plan (vc_stream (vr_ctx (if a = GOP_KEY then vr_force False v1 else v1))) = g"
      using v2(3) by (simp add: vr_force_def)
    ultimately show ?thesis
      using False sv1 com
      by (auto simp: ave_run_work_b_def dec Let_def sv_def v2_def h_def [symmetric] g_def [symmetric] split: if_splits)
  qed
  have fr: "fresh_acts (job_acts je 0 (length bs)) (vr_q v2)"
  proof -
    obtain d where d: "2 = length bs + d" using two le_Suc_ex by blast
    have "[0..<0 + 2] = [0..<0 + length bs] @ [length bs..<2]"
      unfolding d by (simp only: add_0 upt_add_eq_append [OF le0])
    then have "job_acts je 0 2 = job_acts je 0 (length bs) @ concat (map (\<lambda>i. je_acts (je i)) [length bs..<2])"
      by (simp only: map_append concat_append)
    then show ?thesis using fresh_acts_append(1) fresh by (simp add: v2(1) fresh_names [OF q1(1,2)])
  qed
  have bsrc: "b_sources src1 (concat bs) = Ok (take (length (concat bs)) (mq_src (vr_q v2)))"
    unfolding lN v2(1) by (rule sources_at [OF maps src1])
  have lens: "length (concat bs) \<le> length (mq_src (vr_q v2))" "length (concat bs) \<le> length (mq_dst (vr_q v2))"
    unfolding lN v2(1) q1(2) using src1(3) Nd by blast+
  from batches_run [OF env v2(2) bsrc sh lens fr]
  obtain v' where "b_batches ap je 0 src1 bs v2 = (Ok (), v')" "run_up ap abi hv v'" "turned N (job_acts je 0 (length bs)) (vr_q v1) (vr_q v')"
    unfolding lN v2(1) by blast
  then show ?thesis
    using two dst turned_names [OF q1]
    by (intro exI [of _ v'] exI [of _ "length bs"]) (simp add: step N_def g_def)
qed

section \<open>The job of one frame\<close>

lemma encode_safe:
  assumes "env_ok (env_for ap abi)" "words_kept (env_for ap abi) hv ce" "enc_up ap abi hv e"
    and run: "ave_enc_encode ap dart ce n idr luma chroma stride sz e = (r, e')"
  shows "r \<noteq> Fault \<and> enc_up ap abi hv e'"
proof -
  have abi: "enc_abi e = Some abi" using assms(3) by (simp add: enc_up_def)
  define e0 where "e0 = a_bufs (set_frame n idr luma chroma stride) e"
  have up0: "enc_up ap abi hv e0"
    unfolding e0_def by (rule enc_up_note [OF assms(3)]) (simp_all add: set_frame_def core_def surfs_def bufs_ok_def)
  define m where "m = ave_session_process (env_for ap abi) dart ce AVE_SESS_CLIENT_ID n"
  obtain q e1 where m: "a_run m e0 = (q, e1)" by fastforce
  have triple: "triple (stream_run (env_for ap abi) hv k) m (\<lambda>_. stream_run (env_for ap abi) hv k) (stream_run (env_for ap abi) hv k)" for k
    unfolding m_def by (rule process_up [OF assms(1,2)])
  note up1 = a_run_up [OF up0 process_view triple [unfolded m_def] m [unfolded m_def]]
  define e2 where "e2 = a_bufs (\<lambda>b. b\<lparr>sb_ext_src := False, sb_force_idr := False\<rparr>) e1"
  have up2: "enc_up ap abi hv e2"
    unfolding e2_def by (rule enc_up_note [OF up1(2)]) (simp_all add: core_def surfs_def bufs_ok_def)
  have hung: "ec_st (hung_on q e2) = ec_st e2" by (simp add: hung_on_def)
  show ?thesis
    using run abi m [unfolded m_def] up1(1) up2 assms(3) enc_up_cong [OF hung, of ap abi]
    unfolding ave_enc_encode_def e0_def [symmetric]
    by (auto simp: e2_def [symmetric] Let_def split: if_splits cres.splits)
qed

lemma without_first:
  assumes "distinct (map vb_id (b # bs))" "vb_id b' = vb_id b"
  shows "without_buf (vb_id b') (b # bs) = bs"
proof -
  have "\<forall>x \<in> set bs. vb_id x \<noteq> vb_id b" using assms(1) by (metis distinct.simps(2) image_eqI list.set_map list.simps(9))
  then show ?thesis by (simp add: without_buf_def assms(2))
qed

lemma one_frame_run:
  assumes env: "env_ok (env_for ap abi)" "words_kept (env_for ap abi) hv (fe_cmd fe)" and up: "run_up ap abi hv v"
    and fresh: "fresh_acts (fe_acts fe) (vr_q v)" and full: "mq_src (vr_q v) \<noteq> []" "mq_dst (vr_q v) \<noteq> []"
  shows "\<exists>v'. one_frame ap fe v = (Ok (), v') \<and> run_up ap abi hv v' \<and> turned 1 (fe_acts fe) (vr_q v) (vr_q v')"
proof -
  obtain s ss d ds where q: "mq_src (vr_q v) = s # ss" "mq_dst (vr_q v) = d # ds" using full by (auto simp: neq_Nil_conv)
  note q1 = q_run_adds [OF full(1), of "fe_acts fe", unfolded q append_Cons]
  have e: "enc_up ap abi hv (vr_enc v)" and ses: "vs_session (vc_stream (vr_ctx v))" using up by (simp_all add: run_up_def)
  define st where "st = vc_stream (vr_ctx v)"
  define f where "f = vc_fmt (vr_ctx v)"
  define k where "k = vc_ctrls (vr_ctx v)"
  obtain r e' where enc: "ave_enc_encode ap (fe_dart fe) (fe_cmd fe) (vs_frame_n st)
      (vs_frame_n st = 0 \<or> vk_force_key k \<or> vk_gop k \<noteq> 0 \<and> vs_frame_n st mod vk_gop k = 0) (vb_addr s)
      (vb_addr s + ucast (vf_bytesperline f) * ucast (vf_height f)) (vf_bytesperline f) (vb_size d) (vr_enc v) = (r, e')"
    by fastforce
  note safe = encode_safe [OF env e enc]
  have fresh': "distinct (map vb_id (s # (ss @ srcs_of (fe_acts fe))))" "distinct (map vb_id (d # (ds @ dsts_of (fe_acts fe))))"
    using fresh by (simp_all add: fresh_acts_def q)
  define v1 where "v1 = v\<lparr>vr_enc := e', vr_q := q_run (fe_acts fe) (vr_q v)\<rparr>"
  define v2 where "v2 = (if \<exists>x. r = Ok x then vr_stream (\<lambda>s. s\<lparr>vs_frame_n := vs_frame_n s + 1\<rparr>) (vr_force False v1)
                         else if ec_fw_hung e' \<or> vs_pm_lost st then v1\<lparr>vr_q := (vr_q v1)\<lparr>mq_error := True\<rparr>\<rparr> else v1)"
  have v2: "mq_src (vr_q v2) = s # (ss @ srcs_of (fe_acts fe))" "mq_dst (vr_q v2) = d # (ds @ dsts_of (fe_acts fe))"
      "mq_src_done (vr_q v2) = mq_src_done (vr_q v)" "mq_dst_done (vr_q v2) = mq_dst_done (vr_q v)" "run_up ap abi hv v2"
    using up safe q1 by (simp_all add: v2_def v1_def vr_stream_def vr_force_def run_up_def)
  define fin where "fin = is_last_draining (vr_q v2) s"
  obtain s' d' state v' where run: "one_frame ap fe v = (Ok (), v'\<lparr>vr_q := dst_done d' state (src_done s' state
        (if fin then mark_stopped (vr_q v2) else vr_q v2))\<rparr>)"
      "vb_name s' = vb_name s" "vb_id d' = vb_id d" "vb_meta d' = vb_meta s" "vr_enc v' = vr_enc v2" "run_kept v2 v'"
  proof -
    define s' where "s' = s\<lparr>vb_sequence := vs_out_seq st\<rparr>"
    define out where "out = (case r of Ok x \<Rightarrow> x | _ \<Rightarrow> ([], False))"
    define d' where "d' = d\<lparr>vb_sequence := vs_cap_seq st, vb_meta := vb_meta s', vb_data := fst out,
       vb_flags := ((vb_flags d AND NOT (V4L2_BUF_FLAG_KEYFRAME OR V4L2_BUF_FLAG_PFRAME)) OR (if snd out then V4L2_BUF_FLAG_KEYFRAME else V4L2_BUF_FLAG_PFRAME))
         OR (if fin then V4L2_BUF_FLAG_LAST else 0)\<rparr>"
    define v' where "v' = vr_stream (\<lambda>s. s\<lparr>vs_out_seq := vs_out_seq s + 1, vs_cap_seq := vs_cap_seq s + 1\<rparr>) v2"
    have qv: "vr_q v' = vr_q v2" by (simp add: v'_def vr_stream_def)
    have "one_frame ap fe v = (Ok (), v'\<lparr>vr_q := dst_done d' (if \<exists>x. r = Ok x then VB2_BUF_STATE_DONE else VB2_BUF_STATE_ERROR)
        (src_done s' (if \<exists>x. r = Ok x then VB2_BUF_STATE_DONE else VB2_BUF_STATE_ERROR) (if fin then mark_stopped (vr_q v2) else vr_q v2))\<rparr>)"
    proof (cases r)
      case Fault
      then show ?thesis using safe by blast
    next
      case (Err c)
      have n: "(\<exists>x. r = Ok x) = False" by (simp add: Err)
      show ?thesis
        using enc ses
        unfolding one_frame_def q list.case Let_def st_def [symmetric] f_def [symmetric] k_def [symmetric]
        by (cases "ec_fw_hung e' \<or> vs_pm_lost st") (simp_all add: Err v'_def d'_def s'_def out_def fin_def v2_def v1_def n [unfolded Err] vr_stream_def cong: if_cong split del: if_split)
    next
      case (Ok y)
      have n: "(\<exists>x. r = Ok x) = True" by (simp add: Ok)
      show ?thesis
        using enc ses
        unfolding one_frame_def q list.case Let_def st_def [symmetric] f_def [symmetric] k_def [symmetric]
        by (simp add: Ok v'_def d'_def s'_def out_def fin_def v2_def v1_def n [unfolded Ok] vr_stream_def vr_force_def cong: if_cong split del: if_split)
    qed
    then show thesis
      by (rule that) (simp_all add: s'_def d'_def v'_def vb_name_def vr_stream_def run_kept_def)
  qed
  define v3 where "v3 = v'\<lparr>vr_q := dst_done d' state (src_done s' state (if fin then mark_stopped (vr_q v2) else vr_q v2))\<rparr>"
  have up3: "run_up ap abi hv v3" using v2(5) run(5,6) by (simp add: v3_def run_up_def run_kept_def)
  have id: "vb_id s' = vb_id s" "vb_meta s' = vb_meta s" using run(2) by (simp_all add: vb_name_def)
  have fin_q: "mq_src (if fin then mark_stopped p else p) = mq_src p" "mq_dst (if fin then mark_stopped p else p) = mq_dst p"
    "mq_src_done (if fin then mark_stopped p else p) = mq_src_done p" "mq_dst_done (if fin then mark_stopped p else p) = mq_dst_done p" for p
    by (simp_all add: mark_stopped_def)
  have t: "turned 1 (fe_acts fe) (vr_q v) (vr_q v3)"
    unfolding turned_def
  proof (intro conjI exI)
    show "map vb_name (mq_src (vr_q v3)) = drop 1 (map vb_name (mq_src (vr_q v))) @ map vb_name (srcs_of (fe_acts fe))"
      using without_first [OF fresh'(1) id(1)] by (simp add: v3_def dst_done_def src_done_def fin_q v2 q)
    show "map vb_id (mq_dst (vr_q v3)) = drop 1 (map vb_id (mq_dst (vr_q v))) @ map vb_id (dsts_of (fe_acts fe))"
      using without_first [OF fresh'(2) run(3)] by (simp add: v3_def dst_done_def src_done_def fin_q v2 q)
    show "mq_src_done (vr_q v3) = mq_src_done (vr_q v) @ [(s', state)]" "mq_dst_done (vr_q v3) = mq_dst_done (vr_q v) @ [(d', state)]"
      by (simp_all add: v3_def dst_done_def src_done_def fin_q v2)
  qed (simp_all add: q run(2-4) id shown_def)
  show ?thesis using run(1) up3 t by (intro exI [of _ v3]) (simp add: v3_def)
qed

lemma negotiated_stride:
  assumes "fmt_ok av f"
  shows "\<not> bad_stride (vf_bytesperline f)"
proof -
  have m: "unat (vf_bytesperline f) mod 64 = 0" "192 \<le> unat (vf_bytesperline f)"
    using bpl_nat [OF assms] by (simp_all add: round_up_def)
  have "unat (vf_bytesperline f AND 63) = 0" using m(1) low_bits_unat [of "vf_bytesperline f" 6] by simp
  then show ?thesis using m(2) by (auto simp: bad_stride_def AVE_STRIDE_ALIGN_def word_eq_0_unat)
qed

section \<open>A job gives back what it took\<close>

definition example_run :: "u32 \<Rightarrow> v4l2_run" where
  "example_run nb =
     \<lparr>vr_ctx = (open_ctx (ave_v4l2_caps default_api example_enc))
                 \<lparr>vc_stream := zero_stream\<lparr>vs_nb := nb, vs_plan := ave_gop_init nb 0, vs_session := True\<rparr>\<rparr>,
      vr_enc = example_enc\<lparr>ec_client_open := True\<rparr>,
      vr_q = \<lparr>mq_src = [\<lparr>vb_id = 0, vb_addr = 0x10000, vb_size = 0x151800, vb_sequence = 0, vb_meta = 7, vb_data = [], vb_flags = 0\<rparr>],
              mq_dst = [\<lparr>vb_id = 1, vb_addr = 0, vb_size = 0x100000, vb_sequence = 0, vb_meta = 0, vb_data = [], vb_flags = 0\<rparr>],
              mq_src_done = [], mq_dst_done = [], mq_draining = False, mq_last = None, mq_stopped = False, mq_error = False, mq_eos = 0\<rparr>,
      vr_owner = Some 0\<rparr>"

definition example_jobs :: "nat \<Rightarrow> job_env" where
  "example_jobs k = \<lparr>je_batch = example_batch, je_acts = []\<rparr>"

definition example_frame :: frame_env where
  "example_frame = \<lparr>fe_dart = None, fe_cmd = example_firmware, fe_acts = []\<rparr>"

lemma default_env: "env_for default_api ave_cmd_abi_13_5 = example_env\<lparr>en_dma := example_dma\<rparr>"
  by (simp add: env_for_def default_api_def example_env_def)

lemma default_env_ok: "env_ok (env_for default_api ave_cmd_abi_13_5)"
  unfolding default_env using example_sess_ok(1,2) example_dma_ok by (simp add: env_ok_def example_env_def)

lemma example_jobs_kept:
  "batch_kept (env_for default_api ave_cmd_abi_13_5) h (je_batch (example_jobs k))"
  "words_kept (env_for default_api ave_cmd_abi_13_5) h (fe_cmd example_frame)"
  by (simp_all add: example_jobs_def example_frame_def example_firmware_kept)

lemma example_run_up: "nb \<le> 2 \<Longrightarrow> run_up default_api ave_cmd_abi_13_5 False (example_run nb)"
proof -
  assume nb: "nb \<le> 2"
  have "\<not> rx_batch (st_rx example_up)" by (simp add: example_up_def example_sess_def fresh_rx_def)
  moreover have "\<not> sess_hevc (st_bufs example_up)" by (simp add: example_up_def example_up_slot example_fields)
  ultimately have "enc_up default_api ave_cmd_abi_13_5 False (example_enc\<lparr>ec_client_open := True\<rparr>)"
    using example_up_holds example_enc_abi by (simp add: enc_up_def enc_abi_def default_env) (simp add: example_enc_def)
  moreover have "gop_wf (ave_gop_init nb 0)" using nb by (intro gop_wf_init) (simp add: word_le_nat_alt AVE_GOP_B_MAX_def)
  ultimately show ?thesis by (simp add: run_up_def example_run_def)
qed

text \<open>C7. A job never follows a missing buffer or leaves one of the driver's, whatever the firmware
  answers and whatever the client queues meanwhile, and it gives the buffers of both queues back fairly:
  as many CAPTURE buffers as OUTPUT buffers, each queue's oldest first, the CAPTURE buffers carrying
  the metadata of exactly those sources and done exactly when their source is. A job of one frame
  takes one source, a job of B frames as many as the planner said, and the stream is up again. An HEVC
  stream asks nothing of the firmware; an H.264 stream, that its writes leave no coded header with a
  count of CABAC zero words whose triple passes 32 bits, which the code does not check and which would
  overrun the stream (\<open>Ave_Sess_Append.cabac_words_overrun\<close>, a finding). The kernel's allocators keep
  their contracts, and the client queues no buffer that is queued.\<close>

theorem job_conserves_buffers:
  assumes "env_ok (env_for ap abi)" "\<forall>k. batch_kept (env_for ap abi) hv (je_batch (je k))" "words_kept (env_for ap abi) hv (fe_cmd fe)"
    and "run_up ap abi hv v" "fresh_acts (job_acts je 0 2) (vr_q v)" "fresh_acts (fe_acts fe) (vr_q v)"
  shows "\<exists>v' n as. ave_run_work ap key_every je fe v = (Ok (), v') \<and> run_up ap abi hv v' \<and> turned n as (vr_q v) (vr_q v')
    \<and> (if vs_nb (vc_stream (vr_ctx v)) = 0
       then n = (if mq_src (vr_q v) = [] \<or> mq_dst (vr_q v) = [] then 0 else 1) \<and> as = (if n = 0 then [] else fe_acts fe)
       else (\<exists>m \<le> 2. as = job_acts je 0 m)
          \<and> n = (let a = fst (ave_b_next key_every v)
                 in if enough_dst v a then unat (ave_gop_srcs (vs_plan (vc_stream (vr_ctx v))) a) else 0))"
proof -
  have ses: "vs_session (vc_stream (vr_ctx v))" using assms(4) by (simp add: run_up_def)
  obtain a src where a: "ave_b_next key_every v = (a, src)" by fastforce
  consider (b) "vs_nb (vc_stream (vr_ctx v)) \<noteq> 0" | (empty) "vs_nb (vc_stream (vr_ctx v)) = 0" "mq_src (vr_q v) = [] \<or> mq_dst (vr_q v) = []"
    | (one) "vs_nb (vc_stream (vr_ctx v)) = 0" "mq_src (vr_q v) \<noteq> []" "mq_dst (vr_q v) \<noteq> []" by blast
  then show ?thesis
  proof cases
    case b
    from work_b_run [OF assms(1,2,4,5) a] obtain v' m where r: "ave_run_work_b ap key_every je v = (Ok (), v')" "run_up ap abi hv v'" "m \<le> 2"
      "turned (if enough_dst v a then unat (ave_gop_srcs (vs_plan (vc_stream (vr_ctx v))) a) else 0) (job_acts je 0 m) (vr_q v) (vr_q v')"
      by blast
    have "ave_run_work ap key_every je fe v = (Ok (), v')" using b ses r(1) by (simp add: ave_run_work_def)
    with r(2-4) b show ?thesis unfolding a fst_conv Let_def if_not_P [OF b] by blast
  next
    case empty
    then have "ave_run_work ap key_every je fe v = (Ok (), v)"
      by (auto simp: ave_run_work_def one_frame_def split: list.split)
    then show ?thesis using empty assms(4) turned_0 [of "vr_q v"] by (intro exI [of _ v] exI [of _ 0] exI [of _ "[]"]) simp
  next
    case one
    from one_frame_run [OF assms(1,3,4,6) one(2,3)] show ?thesis using one by (simp add: ave_run_work_def)
  qed
qed

lemma job_conserves_buffers_witness:
  "\<exists>v' n as. ave_run_work default_api 0 example_jobs example_frame (example_run 2) = (Ok (), v')
     \<and> turned n as (vr_q (example_run 2)) (vr_q v') \<and> n = 1"
proof -
  have f: "fresh_acts (job_acts example_jobs 0 2) (vr_q (example_run 2))" "fresh_acts (fe_acts example_frame) (vr_q (example_run 2))"
    by (simp_all add: fresh_acts_def example_run_def example_jobs_def example_frame_def srcs_of_def dsts_of_def)
  have n: "ave_b_next 0 (example_run 2) = (GOP_KEY, [Some (mq_src (vr_q (example_run 2)) ! 0)])"
    by (simp add: ave_b_next_def example_run_def ave_gop_init_def ave_nth_buf_def ave_gop_decide_def AVE_GOP_BATCH_MAX_def
        AVE_GOP_B_MAX_def Let_def)
  have d: "enough_dst (example_run 2) GOP_KEY" by (simp add: enough_dst_def example_run_def ave_gop_need_def ave_gop_init_def)
  have "vs_nb (vc_stream (vr_ctx (example_run 2))) = 2" "unat (ave_gop_srcs (vs_plan (vc_stream (vr_ctx (example_run 2)))) GOP_KEY) = 1"
    by (simp_all add: example_run_def ave_gop_srcs_def ave_gop_need_def ave_gop_init_def)
  then show ?thesis
    using job_conserves_buffers [OF default_env_ok _ example_jobs_kept(2) example_run_up f, of 0] example_jobs_kept(1) n d
    by (simp add: Let_def) blast
qed

section \<open>The planner's batches are taken\<close>

text \<open>C38. Every batch the planner makes for a stream is one the encoder takes: no frame of it is refused,
  whatever format the client negotiated, as long as the frame numbers do not wrap.\<close>

theorem gop_batches_taken:
  assumes "gop_wf g" "unat (g_fn_anchor g) + unat (g_nb g) + 1 < 2 ^ 32" "sc_bframes (sb_cfg b) = g_nb g"
    and "bt \<in> set (snd (ave_gop_commit g a))" "length ss = length bt" "k < length bt"
  shows "\<not> frame_refused b (map2 (b_frame (vc_fmt (negotiated av ios))) bt ss) k"
proof -
  define c where "c = vc_fmt (negotiated av ios)"
  let ?fs = "map2 (b_frame c) bt ss"
  have stride: "\<not> bad_stride (vf_bytesperline c)"
    using fmt_ok_negotiated [of av ios] unfolding c_def by (rule negotiated_stride)
  have ne: "bt \<noteq> []" "?fs \<noteq> []" using assms(5,6) by auto
  have fk: "ef_type (?fs ! k) = f_type (bt ! k)" "ef_fn (?fs ! k) = f_fn (bt ! k)" "ef_stride (?fs ! k) = vf_bytesperline c"
    using assms(5,6) by (simp_all add: b_frame_def)
  have la: "ef_type (last ?fs) = f_type (last bt)" "ef_fn (last ?fs) = f_fn (last bt)"
    using assms(5) ne by (simp_all add: last_conv_nth b_frame_def)
  have mg: "\<not> frame_refused b ?fs k" if bt: "bt = snd (ave_gop_minigop g w)" and nb: "minigop_nbs g w \<le> unat (g_nb g)" for w
  proof -
    have bs: "bt ! k = \<lparr>f_src = of_nat k, f_type = AVE_GOP_B, f_fn = g_fn_anchor g + 1 + of_nat k\<rparr> \<and> k < length bt - 1 \<and> k < minigop_nbs g w"
      if "f_type (bt ! k) = AVE_GOP_B"
      using that assms(6) by (auto simp: bt ave_gop_minigop_def Let_def minigop_nbs_def nth_append split: if_splits)
    have ty: "f_type (bt ! k) \<in> {AVE_GOP_B, AVE_GOP_P}" "f_type (last bt) = AVE_GOP_P" "f_fn (last bt) = g_fn_anchor g + (g_nb g + 1)"
      using assms(6) by (auto simp: bt ave_gop_minigop_def Let_def nth_append split: if_splits)
    have lt: "g_fn_anchor g + 1 + of_nat k < g_fn_anchor g + (g_nb g + 1)" if "k < minigop_nbs g w"
    proof -
      have "unat (g_fn_anchor g + 1 + of_nat k) = unat (g_fn_anchor g) + 1 + k"
        using that nb assms(2) by (intro unat_b_fn) simp
      moreover have "unat (g_fn_anchor g + (g_nb g + 1)) = unat (g_fn_anchor g) + unat (g_nb g) + 1"
        using assms(2) by (simp add: word_nat)
      ultimately show ?thesis using that nb by (simp add: word_less_nat_alt)
    qed
    have "g_nb g \<noteq> 0" if "f_type (bt ! k) = AVE_GOP_B" using bs [OF that] nb by (auto simp: word_eq_0_unat)
    then show ?thesis
      using stride bs ty lt assms(3,5) by (auto simp: frame_refused_def Let_def fk la)
  qed
  have held: "minigop_nbs g w \<le> unat (g_nb g)" if "w \<or> g_n_held g \<noteq> 0" for w
    using that assms(1) by (auto simp: minigop_nbs_def gop_wf_def word_le_nat_alt unat_pred)
  consider w where "bt = snd (ave_gop_minigop g w)" "w \<or> g_n_held g \<noteq> 0" | s n where "bt = [\<lparr>f_src = s, f_type = AVE_GOP_IDR, f_fn = n\<rparr>]"
    using assms(4) by (cases a) (auto simp: commit_simps closing_def split: if_splits)
  then have "\<not> frame_refused b ?fs k"
  proof cases
    case (1 w)
    then show ?thesis using mg held by blast
  next
    case (2 s n)
    then show ?thesis using assms(5,6) stride by (simp add: frame_refused_def Let_def b_frame_def)
  qed
  then show ?thesis by (simp add: c_def)
qed

lemma gop_batches_taken_witness:
  "\<not> frame_refused (fresh_bufs\<lparr>sb_cfg := zero_cfg\<lparr>sc_bframes := 2\<rparr>\<rparr>)
     (map2 (b_frame (vc_fmt (negotiated (ave_v4l2_caps default_api example_enc) example_ioctls)))
       (hd (snd (ave_gop_commit \<lparr>g_nb = 2, g_gop = 0, g_n_held = 1, g_dist = 2, g_fn_anchor = 0, g_started = True\<rparr> GOP_ANCHOR)))
       (replicate 2 (hd (mq_src (vr_q (example_run 2)))))) 0"
proof -
  let ?g = "\<lparr>g_nb = 2, g_gop = 0, g_n_held = 1, g_dist = 2, g_fn_anchor = 0, g_started = True\<rparr>"
  have "length (hd (snd (ave_gop_commit ?g GOP_ANCHOR))) = 2" "hd (snd (ave_gop_commit ?g GOP_ANCHOR)) \<in> set (snd (ave_gop_commit ?g GOP_ANCHOR))"
    by (simp_all add: commit_simps ave_gop_minigop_def Let_def)
  then show ?thesis
    by (intro gop_batches_taken) (simp_all add: gop_wf_def AVE_GOP_B_MAX_def word_le_nat_alt)
qed

end
