(* ===== verification/Spec2Isabelle.thy ===== *)
theory Spec2Isabelle
  imports Ave_Prelude Ave_Mem Ave_Gop Ave_Adt Ave_Ring Ave_Ring_Host Ave_Boot Ave_Ipc Ave_Mailbox
    Ave_Ipc_Inv Ave_Handshake Ave_Handshake_Inv Ave_Boot_Props Ave_Abi Ave_Abi_Tables Ave_Wr
    Ave_Cmd Ave_Cmd_Avc Ave_Cmd_Hevc Ave_Cmd_Frame Ave_Cmd_Safe
    Ave_Cmd_Built Ave_Cmd_Built_Avc Ave_Cmd_Tables Ave_Cmd_Built_Hevc
    Ave_Cmd_Built_Frame Ave_Cmd_Read Ave_Sess_Bufs Ave_Sess_Surfaces
    Ave_Sess_Rx Ave_Sess_Cmd Ave_Sess_State Ave_Sess_Stream Ave_Sess_Append
    Ave_Sess_Mp Ave_Sess_Process Ave_Sess_Result Ave_Sess_Batch
    Ave_Sess_Pass Ave_Sess_Steps Ave_Sess_Start Ave_Ipc_Own Ave_Sess_Up Ave_Sess_Safe Ave_Sess_Keep Ave_Sess_Api
    Ave_Sess_Deliver Ave_V4l2_Ctx Ave_V4l2_Config Ave_V4l2_Job Ave_V4l2_Safe
begin

text \<open>
  Verification development of the Apple AVE encoder driver (\<^verbatim>\<open>src/driver\<close>), a Linux
  driver for the H.264/HEVC encoder of Apple's M-series chips. The driver boots Apple's encoder
  firmware on a coprocessor, talks to it over rings in shared memory, and turns encode jobs into
  the commands of one of two firmware interfaces (macOS 13.5 and 26.6).

  \<^bold>\<open>The program and the theories.\<close>

  \<^item> \<^bold>\<open>Finding the encoder.\<close> \<open>Ave_Adt\<close>: the parser of Apple's device tree, \<^verbatim>\<open>ave_adt.c\<close>, over
    an arbitrary byte buffer.
  \<^item> \<^bold>\<open>Boot.\<close> \<open>Ave_Boot\<close>: the firmware versions (\<^verbatim>\<open>ave_version.c\<close>) and the boot
    interface of \<^verbatim>\<open>ave_abi_boot.h\<close>: channel tables, the checks of the boot messages.
    \<open>Ave_Handshake\<close>: the boot arguments, the five-message conversation and the binding of the
    channels (\<^verbatim>\<open>ave_ipc.c\<close>). \<open>Ave_Handshake_Inv\<close>, \<open>Ave_Boot_Props\<close>: what it guarantees.
  \<^item> \<^bold>\<open>Transport.\<close> \<open>Ave_Ring\<close>: the ring of \<^verbatim>\<open>ave_abi_boot.h\<close>, both ends; \<open>Ave_Ring_Host\<close>:
    the host's end against arbitrary memory. \<open>Ave_Ipc\<close>: mailbox, FwIPC pool, address
    translation, channels, the channel services and the interrupt handler (\<^verbatim>\<open>ave_ipc.c\<close>,
    \<^verbatim>\<open>ave_drv.c\<close>). \<open>Ave_Ipc_Inv\<close>: the device invariant. \<open>Ave_Mailbox\<close>: the mailbox as a
    system of firmware, interrupt handler and poller.
  \<^item> \<^bold>\<open>Commands.\<close> \<open>Ave_Abi\<close>, \<open>Ave_Abi_Tables\<close>: the layout structs and the two tables of
    \<^verbatim>\<open>ave_abi.h\<close>. \<open>Ave_Wr\<close>: the bounded writer. \<open>Ave_Cmd\<close>, \<open>Ave_Cmd_Avc\<close>,
    \<open>Ave_Cmd_Hevc\<close>, \<open>Ave_Cmd_Frame\<close>: the builders of \<^verbatim>\<open>ave_cmd.c\<close> and the readers of
    what the firmware answers. \<open>Ave_Cmd_Safe\<close>, \<open>Ave_Cmd_Built\<close> with \<open>_Avc\<close>, \<open>_Hevc\<close>,
    \<open>_Frame\<close>, \<open>Ave_Cmd_Tables\<close>, \<open>Ave_Cmd_Read\<close>: their properties.
  \<^item> \<^bold>\<open>Sessions.\<close> \<open>Ave_Sess_Bufs\<close>: the allocations of an encode session, the size formulas of its
    surfaces and the carving of the tables (\<^verbatim>\<open>ave_session.c\<close>); \<open>Ave_Sess_Surfaces\<close>: their properties.
    \<open>Ave_Sess_Rx\<close>: the capture of replies and the exchange of one command; \<open>Ave_Sess_Cmd\<close>: its verdict.
    \<open>Ave_Sess_State\<close>: what a stream keeps (\<^verbatim>\<open>struct ave_sess_bufs\<close>) and the surfaces the
    firmware writes. \<open>Ave_Sess_Stream\<close>: appending a frame to the output; \<open>Ave_Sess_Append\<close>: the
    bytes it appends. \<open>Ave_Sess_Mp\<close>: the records of multi-pass encoding and their debugfs files;
    \<open>Ave_Sess_Pass\<close>: they stay in bounds and are the right ones. \<open>Ave_Sess_Process\<close>: building a
    frame, its exchange, the result, and a batch in flight; \<open>Ave_Sess_Result\<close>, \<open>Ave_Sess_Batch\<close>:
    what a result and a batch guarantee. \<open>Ave_Sess_Start\<close>: Config, Open and the Start of a stream.
    \<open>Ave_Sess_Api\<close>: the API of \<^verbatim>\<open>ave_session.h\<close>, from Config to Halt.
    \<open>Ave_Sess_Steps\<close>: the triples and relations the proofs about sessions step with.
    \<open>Ave_Ipc_Own\<close>: blocks of FwIPC that a caller owns. \<open>Ave_Sess_Up\<close>, \<open>Ave_Sess_Safe\<close>: the
    invariant of a running stream, and that every frame and batch keeps it. \<open>Ave_Sess_Keep\<close>,
    \<open>Ave_Sess_Deliver\<close>: what they keep of the boot, and the batch the API hands to a client.
  \<^item> \<^bold>\<open>V4L2.\<close> \<open>Ave_V4l2_Ctx\<close>: formats, crop, frame interval, controls and buffers of \<^verbatim>\<open>ave_v4l2.c\<close>, and the
    configuration of a stream; \<open>Ave_V4l2_Config\<close>: what a client can negotiate. \<open>Ave_V4l2_Job\<close>: STREAMON, the
    job of one frame and of B frames, STREAMOFF, suspend; \<open>Ave_V4l2_Safe\<close>: a job and the queues.
  \<^item> \<^bold>\<open>Planning.\<close> \<open>Ave_Gop\<close>: the planner of frame types and coding order (\<^verbatim>\<open>ave_gop.h\<close>), as
    \<^verbatim>\<open>ave_v4l2.c\<close> drives it.
  \<^item> \<open>Ave_Prelude\<close>, \<open>Ave_Mem\<close>: words, errors, byte buffers, results that may fail.

  \<^bold>\<open>Conventions.\<close> C structs are records with the C field names under a prefix, enums datatypes
  or named words, machine integers words of their width (sums wrap as in C), \<open>-Exxx\<close> values of
  \<open>errno\<close>. Memory is a list of bytes; a pointer into a region is an offset, \<open>NULL\<close> is \<open>None\<close>. A
  read outside a buffer is \<open>Fault\<close>, so that memory safety is the theorem that there is none. What
  the driver does not decide - the firmware, the allocators of the kernel, timers - is an argument
  of the definitions; what the driver relies on is a named hypothesis (\<open>gen_pool_ok\<close>, \<open>dma_ok\<close>).

  \<^bold>\<open>Interfaces.\<close> The locale \<open>batch_planner\<close> states what a job runner may rely on, and is interpreted on
  the planner; \<open>stepwise_refinement\<close> lifts a simulation of steps to runs, and is interpreted on both
  ring algorithms against their abstract links; \<open>sess_relation\<close> carries a relation between the session
  before and after through the combinators of a session step, and is interpreted on what a batch keeps of the
  stream, on what allocations keep of the session, on the capture record, on what every session step keeps of the
  boot, and on the growth of the output stream.

  \<^bold>\<open>What the lemmas show.\<close>

  \<^item> Parsers (device tree, coded-frame header, firmware log, boot messages): no input makes them read
    outside their buffer; what they return is well-formed; on input that follows the format they
    return what it says (of the device tree's \<open>pre-loaded\<close>, where it is not 0).
  \<^item> Rings: the two algorithms refine a link that keeps messages whole and in order, write only their
    slots, and on arbitrary memory the host still stops and stays inside.
  \<^item> Boot: from a fresh device and against any firmware, the conversation ends READY or with an error, and
    READY with a sound device if the base the firmware names is a multiple of 4, which is not checked; a
    firmware that follows the interface is bound exactly. The interrupt handler always ends.
  \<^item> Builders: no table and no parameter makes a builder write outside its command; on the two
    interfaces every accepted AVC session and frame is built, and on 13.5 every HEVC one, with its
    header untouched; on 13.5 it carries the addresses the firmware reads at their offsets, behind every
    later write.
  \<^item> Sessions: surfaces and tables are carved apart; one command returns the verdict of a reply to it that
    came before it returned; a frame grows the output by exactly its slices or not at all; a batch accounts for
    every completion once; a stream that is up stays up and never leaves a buffer, whatever the firmware does,
    except that in H.264 it must not count so many CABAC zero words that their bytes pass 32 bits: the code
    does not check it (\<open>words_kept\<close>, \<open>words_fit\<close>; the overrun is \<open>Ave_Sess_Append.cabac_words_overrun\<close>).
  \<^item> Planner: every source is coded once, in an order that the firmware's reference rules accept.
  \<^item> V4L2: what a client negotiates passes the argument checks of \<open>ave_enc_start\<close> and, but for a bitrate on
    macOS 26.6, the parameter checks of Start, with planes inside its buffers; a job gives back as many buffers of each queue as it took, oldest first, and no batch it makes is refused.

  \<^bold>\<open>Bounds and fuel.\<close> The drain loops run on fuel \<open>nslots + 1\<close>; \<open>irq_terminates\<close> shows it never runs
  out. The loops of the device-tree parser count down the C loop bounds. The polls of the boot
  conversation are the length of the environment's action lists, which are arbitrary.

  \<^bold>\<open>Not modelled.\<close> In \<^verbatim>\<open>ave_session.c\<close> the self-test pictures, register dumps, timing and the debugfs
  blobs; \<^verbatim>\<open>ave_fw.c\<close> (firmware loading), the power, reset and stage sequence of
  \<^verbatim>\<open>ave_drv.c\<close>, the registration and the binding of files to encoders in \<^verbatim>\<open>ave_v4l2.c\<close>, the access filters of \<^verbatim>\<open>ave_dapf.c\<close> and
  \<^verbatim>\<open>ave_smmu.c\<close>, and the chip tables of \<^verbatim>\<open>ave_soc.c\<close>. Register sequences whose effect is in the hardware alone,
  diagnostics, debugfs and log output have no counterpart. The memory barriers have none
  either: the model is sequentially consistent. The self tests under \<^verbatim>\<open>tools\<close>, the test shims and the
  FFmpeg patches are not part of the driver.
\<close>

end
